(* ===== verification/Wats_Prelude.thy ===== *)
theory Wats_Prelude
  imports Complex_Main
    "HOL-Library.List_Lexorder" "HOL-Library.Char_ord" "HOL-Library.Product_Lexorder"
begin

section \<open>Prelude: results, actions on a state, generic lemmas\<close>

text \<open>
  What every component of the development shares.  A throwing function of the code returns a sum
  (\<open>Inl\<close> the exception, \<open>Inr\<close> the value); a throwing method of an object returns such a sum
  beside the object's new state (\<open>act\<close>).  The combinators below are the code's sequencing
  (\<open>bindE\<close>, \<open>bindA\<close>), its \<open>try\<close>/\<open>catch\<close> (\<open>tryE\<close>, \<open>tryA\<close>) and its guards (\<open>guardE\<close>).
  The collection \<open>run_simps\<close> unfolds them for evaluation; \<open>res_iff\<close> inverts a run that is known to
  have returned, or to have thrown.
\<close>

named_theorems run_simps \<open>definitions that unfold a run of the model\<close>
named_theorems res_iff \<open>inversion of sequenced computations\<close>

subsection \<open>Results\<close>

definition bindE :: "'e + 'a \<Rightarrow> ('a \<Rightarrow> 'e + 'b) \<Rightarrow> 'e + 'b" where
  "bindE m f = (case m of Inl e \<Rightarrow> Inl e | Inr a \<Rightarrow> f a)"

definition guardE :: "bool \<Rightarrow> 'e \<Rightarrow> 'e + unit" where
  "guardE ok e = (if ok then Inr () else Inl e)"

definition tryE :: "'e + 'a \<Rightarrow> ('e \<Rightarrow> 'f + 'a) \<Rightarrow> 'f + 'a" where
  "tryE m h = (case m of Inl e \<Rightarrow> h e | Inr a \<Rightarrow> Inr a)"

fun mapE :: "('a \<Rightarrow> 'e + 'b) \<Rightarrow> 'a list \<Rightarrow> 'e + 'b list" where
  "mapE f [] = Inr []"
| "mapE f (x # xs) = bindE (f x) (\<lambda>y. bindE (mapE f xs) (\<lambda>ys. Inr (y # ys)))"

lemma bindE_simps [simp]: "bindE (Inl e) f = Inl e" "bindE (Inr a) f = f a"
  by (simp_all add: bindE_def)

lemma tryE_simps [simp]: "tryE (Inl e) h = h e" "tryE (Inr a) h = Inr a"
  by (simp_all add: tryE_def)

lemma guardE_simps [simp]: "guardE True e = Inr ()" "guardE False e = Inl e"
  by (simp_all add: guardE_def)

lemma bindE_Inr [res_iff]: "bindE m f = Inr b \<longleftrightarrow> (\<exists>a. m = Inr a \<and> f a = Inr b)"
  by (cases m) auto

lemma bindE_Inl [res_iff]:
  "bindE m f = Inl e \<longleftrightarrow> m = Inl e \<or> (\<exists>a. m = Inr a \<and> f a = Inl e)"
  by (cases m) auto

lemma guardE_Inr [res_iff]: "guardE ok e = Inr u \<longleftrightarrow> ok"
  by (simp add: guardE_def)

lemma guardE_Inl [res_iff]: "guardE ok e = Inl e' \<longleftrightarrow> \<not> ok \<and> e' = e"
  by (auto simp: guardE_def)

lemma mapE_Inr_set: "mapE f xs = Inr ys \<Longrightarrow> y \<in> set ys \<Longrightarrow> \<exists>x \<in> set xs. f x = Inr y"
  by (induction xs arbitrary: ys) (auto simp: res_iff)

lemma mapE_Inr_length: "mapE f xs = Inr ys \<Longrightarrow> length ys = length xs"
  by (induction xs arbitrary: ys) (auto simp: res_iff)

subsection \<open>Actions: state passing with exceptions\<close>

type_synonym ('s, 'e, 'a) act = "'s \<Rightarrow> ('e + 'a) \<times> 's"

definition retA :: "'a \<Rightarrow> ('s, 'e, 'a) act" where
  "retA a s = (Inr a, s)"

definition failA :: "'e \<Rightarrow> ('s, 'e, 'a) act" where
  "failA e s = (Inl e, s)"

definition liftA :: "'e + 'a \<Rightarrow> ('s, 'e, 'a) act" where
  "liftA r s = (r, s)"

definition bindA :: "('s, 'e, 'a) act \<Rightarrow> ('a \<Rightarrow> ('s, 'e, 'b) act) \<Rightarrow> ('s, 'e, 'b) act" where
  "bindA m f s = (case m s of (Inl e, s') \<Rightarrow> (Inl e, s') | (Inr a, s') \<Rightarrow> f a s')"

definition tryA :: "('s, 'e, 'a) act \<Rightarrow> ('e \<Rightarrow> ('s, 'e, 'a) act) \<Rightarrow> ('s, 'e, 'a) act" where
  "tryA m h s = (case m s of (Inl e, s') \<Rightarrow> h e s' | (Inr a, s') \<Rightarrow> (Inr a, s'))"

definition getA :: "('s \<Rightarrow> 'a) \<Rightarrow> ('s, 'e, 'a) act" where
  "getA f s = (Inr (f s), s)"

text \<open>A \<open>for\<close> loop over a list of which each body may throw.\<close>

fun forA :: "'a list \<Rightarrow> ('a \<Rightarrow> ('s, 'e, unit) act) \<Rightarrow> ('s, 'e, unit) act" where
  "forA [] f = retA ()"
| "forA (x # xs) f = bindA (f x) (\<lambda>_. forA xs f)"

lemmas [run_simps] = retA_def failA_def liftA_def bindA_def tryA_def getA_def

lemma act_simps [simp]:
  "retA a s = (Inr a, s)" "failA e s = (Inl e, s)" "liftA r s = (r, s)" "getA f s = (Inr (f s), s)"
  by (simp_all add: run_simps)

lemma bindA_ret: "m s = (Inr a, s') \<Longrightarrow> bindA m f s = f a s'"
  by (simp add: bindA_def)

lemma bindA_raise: "m s = (Inl e, s') \<Longrightarrow> bindA m f s = (Inl e, s')"
  by (simp add: bindA_def)

text \<open>Every action below is described by what holds of its result and its new state.\<close>

definition holdsA :: "('s \<Rightarrow> bool) \<Rightarrow> ('s, 'e, 'a) act \<Rightarrow> ('s \<Rightarrow> bool) \<Rightarrow> bool" where
  "holdsA P m Q \<longleftrightarrow> (\<forall>s. P s \<longrightarrow> Q (snd (m s)))"

named_theorems keeps \<open>rules that carry an invariant through an action\<close>

lemma holdsA_retA: "holdsA I (retA a) I"
  by (simp add: holdsA_def)

lemma holdsA_failA: "holdsA I (failA e) I"
  by (simp add: holdsA_def)

lemma holdsA_liftA: "holdsA I (liftA r) I"
  by (simp add: holdsA_def)

lemma holdsA_getA: "holdsA I (getA f) I"
  by (simp add: holdsA_def)

lemma holdsA_bindA:
  assumes "holdsA I m J" and "\<And>a. holdsA J (f a) K" and "\<And>s. J s \<Longrightarrow> K s"
  shows "holdsA I (bindA m f) K"
  using assms by (auto simp: holdsA_def bindA_def split: prod.split sum.split)

lemma holdsA_bindA_same: "holdsA I m I \<Longrightarrow> (\<And>a. holdsA I (f a) I) \<Longrightarrow> holdsA I (bindA m f) I"
  by (rule holdsA_bindA)

lemma holdsA_tryA: "holdsA I m I \<Longrightarrow> (\<And>e. holdsA I (h e) I) \<Longrightarrow> holdsA I (tryA m h) I"
  by (auto simp: holdsA_def tryA_def split: prod.split sum.split)

lemma holdsA_forA: "(\<And>x. holdsA I (f x) I) \<Longrightarrow> holdsA I (forA xs f) I"
  by (induction xs) (auto intro: holdsA_retA holdsA_bindA_same)

lemma holdsA_if: "(b \<Longrightarrow> holdsA P m Q) \<Longrightarrow> (\<not> b \<Longrightarrow> holdsA P n Q) \<Longrightarrow> holdsA P (if b then m else n) Q"
  by simp

lemma holdsA_D: "holdsA P m Q \<Longrightarrow> P s \<Longrightarrow> m s = (r, s') \<Longrightarrow> Q s'"
  by (auto simp: holdsA_def)

lemmas keeps_rules =
  holdsA_retA holdsA_failA holdsA_liftA holdsA_getA holdsA_bindA_same holdsA_tryA holdsA_forA holdsA_if

text \<open>The exceptions an action can raise.\<close>

definition throwsOnly :: "('e \<Rightarrow> bool) \<Rightarrow> ('s, 'e, 'a) act \<Rightarrow> bool" where
  "throwsOnly E m \<longleftrightarrow> (\<forall>s e s'. m s = (Inl e, s') \<longrightarrow> E e)"

named_theorems throws \<open>rules for the exceptions of an action\<close>

lemma throwsOnly_basic [throws]:
  "throwsOnly E (retA a)" "throwsOnly E (getA f)" "E e \<Longrightarrow> throwsOnly E (failA e)"
  "(\<And>e. r = Inl e \<Longrightarrow> E e) \<Longrightarrow> throwsOnly E (liftA r)"
  by (auto simp: throwsOnly_def)

lemma throwsOnly_bindA [throws]:
  "throwsOnly E m \<Longrightarrow> (\<And>a. throwsOnly E (f a)) \<Longrightarrow> throwsOnly E (bindA m f)"
  by (auto simp: throwsOnly_def bindA_def split: prod.splits sum.splits)

lemma throwsOnly_tryA [throws]: "(\<And>e. throwsOnly E (h e)) \<Longrightarrow> throwsOnly E (tryA m h)"
  by (auto simp: throwsOnly_def tryA_def split: prod.splits sum.splits)

lemma throwsOnly_if [throws]: "throwsOnly E m \<Longrightarrow> throwsOnly E n \<Longrightarrow> throwsOnly E (if b then m else n)"
  by simp

subsection \<open>Lists\<close>

lemma distinct_map_filter_eq:
  "distinct (map f xs) \<Longrightarrow> x \<in> set xs \<Longrightarrow> y \<in> set xs \<Longrightarrow> f x = f y \<Longrightarrow> x = y"
  by (auto simp: distinct_map inj_on_def)

lemma map_if_same: "(\<And>x. x \<in> set xs \<Longrightarrow> f (if P x then g x else x) = f x) \<Longrightarrow>
  map f (map (\<lambda>x. if P x then g x else x) xs) = map f xs"
  by (induction xs) auto

lemma find_Some_iff_unique:
  assumes "distinct (map f xs)"
  shows "find (\<lambda>x. f x = k) xs = Some x \<longleftrightarrow> x \<in> set xs \<and> f x = k"
proof
  show "find (\<lambda>x. f x = k) xs = Some x \<Longrightarrow> x \<in> set xs \<and> f x = k"
    by (auto simp: find_Some_iff)
next
  assume x: "x \<in> set xs \<and> f x = k"
  show "find (\<lambda>x. f x = k) xs = Some x"
  proof (cases "find (\<lambda>x. f x = k) xs")
    case None
    with x show ?thesis by (auto simp: find_None_iff)
  next
    case (Some y)
    then have "y \<in> set xs" "f y = k" by (auto simp: find_Some_iff)
    with x assms Some show ?thesis by (metis distinct_map_filter_eq)
  qed
qed

lemma find_map_upd:
  assumes "\<And>x. x \<in> set xs \<Longrightarrow> f (g x) = f x"
  shows "find (\<lambda>x. f x = k) (map g xs) = map_option g (find (\<lambda>x. f x = k) xs)"
  using assms by (induction xs) auto

lemma sorted_take_sort_key: "sorted (map f (take n (sort_key f xs)))"
  by (metis sorted_sort_key sorted_wrt_take take_map)

lemma set_take_sort_key: "set (take n (sort_key f xs)) \<subseteq> set xs"
  by (metis set_sort set_take_subset)

lemma sorted_take_drop:
  assumes "sorted (map f xs)" "x \<in> set (take n xs)" "y \<in> set (drop n xs)"
  shows "f x \<le> f y"
proof -
  have "sorted (map f (take n xs) @ map f (drop n xs))"
    using assms(1) by (simp flip: map_append)
  with assms(2,3) show ?thesis by (auto simp: sorted_append)
qed

lemma beyond_take_sort_key:
  assumes "y \<in> set xs" "y \<notin> set (take n (sort_key f xs))"
  shows "length (take n (sort_key f xs)) = n \<and> (\<forall>x \<in> set (take n (sort_key f xs)). f x \<le> f y)"
proof -
  let ?ys = "sort_key f xs"
  have "y \<in> set (take n ?ys) \<union> set (drop n ?ys)"
    using assms(1) by (metis append_take_drop_id set_append set_sort)
  with assms(2) have y: "y \<in> set (drop n ?ys)" by blast
  then have "drop n ?ys \<noteq> []" by auto
  then have "n < length ?ys" by simp
  with y show ?thesis using sorted_take_drop [of f ?ys _ n y] by simp
qed

end
