(* ===== verification/Js_Value.thy ===== *)
theory Js_Value
  imports Wats_Prelude
begin

section \<open>JavaScript values\<close>

text \<open>
  The code validates what callers hand it at run time: parameters are \<open>unknown\<close>, and functions
  test \<open>typeof\<close>, \<open>Array.isArray\<close>, prototypes and property descriptors.  \<open>jsval\<close> is the
  type of those values.  Numbers are the three non-finite values or a rational (\<open>-0\<close> is \<open>0\<close>);
  strings are lists of characters, which stand for the UTF-16 code units 0 to 255; an object has
  a prototype (the default one, none, or a class's), and its own properties in enumeration order;
  a property or array slot is a data property, an accessor (with the value its getter returns) or,
  in a sparse array, a hole.  Values are finite trees, as those \<open>JSON.parse\<close> builds.
\<close>

subsection \<open>Values\<close>

datatype jsnum = NaN | PosInf | NegInf | Fin rat

datatype proto = ObjectProto | NullProto | OtherProto

datatype jsval =
    JUndef
  | JNull
  | JBool bool
  | JNum jsnum
  | JStr string
  | JFun
  | JArr "slot list"
  | JObj proto "(string \<times> slot) list"
and slot = Hole | Data jsval | Accessor jsval

definition isFiniteNum :: "jsnum \<Rightarrow> bool" where
  "isFiniteNum x = (case x of Fin _ \<Rightarrow> True | _ \<Rightarrow> False)"

definition isIntegerNum :: "jsnum \<Rightarrow> bool" where
  "isIntegerNum x = (case x of Fin r \<Rightarrow> r = of_int \<lfloor>r\<rfloor> | _ \<Rightarrow> False)"

text \<open>\<open>Number.isInteger(v) && lo <= v && v <= hi\<close> on a value of any type: the integer itself.\<close>

definition intWithin :: "int \<Rightarrow> int \<Rightarrow> jsval \<Rightarrow> int option" where
  "intWithin lo hi v = (case v of
       JNum (Fin r) \<Rightarrow> (if r = of_int \<lfloor>r\<rfloor> \<and> lo \<le> \<lfloor>r\<rfloor> \<and> \<lfloor>r\<rfloor> \<le> hi then Some \<lfloor>r\<rfloor> else None)
     | _ \<Rightarrow> None)"

lemma intWithin_bounds: "intWithin lo hi v = Some n \<Longrightarrow> lo \<le> n \<and> n \<le> hi"
  by (auto simp: intWithin_def split: jsval.splits jsnum.splits if_splits)

lemma intWithin_int [simp]:
  "intWithin lo hi (JNum (Fin (of_int n))) = (if lo \<le> n \<and> n \<le> hi then Some n else None)"
  by (simp add: intWithin_def)

subsection \<open>Property reads\<close>

text \<open>
  \<open>js_get\<close> is \<open>record[key]\<close> on own properties: an accessor runs its getter.  \<open>readOwnDataField\<close> is
  the reader of the webhook normalizer and of the filters: it looks at the property descriptor and
  never runs a getter.
\<close>

definition slot_value :: "slot \<Rightarrow> jsval" where
  "slot_value sl = (case sl of Hole \<Rightarrow> JUndef | Data v \<Rightarrow> v | Accessor v \<Rightarrow> v)"

definition js_get :: "(string \<times> slot) list \<Rightarrow> string \<Rightarrow> jsval" where
  "js_get ps k = (case map_of ps k of None \<Rightarrow> JUndef | Some sl \<Rightarrow> slot_value sl)"

definition readOwnDataField :: "(string \<times> slot) list \<Rightarrow> string \<Rightarrow> jsval" where
  "readOwnDataField ps k = (case map_of ps k of Some (Data v) \<Rightarrow> v | _ \<Rightarrow> JUndef)"

lemma slot_value_simps [simp]:
  "slot_value Hole = JUndef" "slot_value (Data v) = v" "slot_value (Accessor v) = v"
  by (simp_all add: slot_value_def)

lemma js_get_simps [simp]:
  "js_get [] k = JUndef"
  "js_get ((k', sl) # ps) k = (if k = k' then slot_value sl else js_get ps k)"
  by (simp_all add: js_get_def)

text \<open>\<open>isRecord\<close> of \<open>@wats/internal-utils\<close>: a plain object, seen through its prototype.\<close>

definition isRecord :: "jsval \<Rightarrow> (string \<times> slot) list option" where
  "isRecord v = (case v of
       JObj ObjectProto ps \<Rightarrow> Some ps
     | JObj NullProto ps \<Rightarrow> Some ps
     | _ \<Rightarrow> None)"

subsection \<open>Run-time type tests\<close>

text \<open>\<open>typeof v === "object" && v !== null\<close>: the properties of an object of any prototype.\<close>

definition objectProps :: "jsval \<Rightarrow> (string \<times> slot) list option" where
  "objectProps v = (case v of JObj _ ps \<Rightarrow> Some ps | JArr _ \<Rightarrow> Some [] | _ \<Rightarrow> None)"

definition isPositiveInteger :: "jsval \<Rightarrow> bool" where
  "isPositiveInteger v = (case v of
     JNum x \<Rightarrow> isFiniteNum x \<and> isIntegerNum x \<and> (case x of Fin r \<Rightarrow> 0 < r | _ \<Rightarrow> False)
   | _ \<Rightarrow> False)"

definition numberFloor :: "jsval \<Rightarrow> int" where
  "numberFloor v = (case v of JNum (Fin r) \<Rightarrow> \<lfloor>r\<rfloor> | _ \<Rightarrow> 0)"

definition isFunction :: "jsval \<Rightarrow> bool" where
  "isFunction v = (v = JFun)"

definition isBoolean :: "jsval \<Rightarrow> bool" where
  "isBoolean v = (case v of JBool _ \<Rightarrow> True | _ \<Rightarrow> False)"

definition isString :: "jsval \<Rightarrow> bool" where
  "isString v = (case v of JStr _ \<Rightarrow> True | _ \<Rightarrow> False)"

definition isAbortSignalLike :: "jsval \<Rightarrow> bool" where
  "isAbortSignalLike v = (case objectProps v of
     None \<Rightarrow> False
   | Some ps \<Rightarrow> isBoolean (js_get ps ''aborted'') \<and> isFunction (js_get ps ''addEventListener'')
       \<and> isFunction (js_get ps ''removeEventListener''))"

definition optField :: "jsval \<Rightarrow> string \<Rightarrow> jsval" where
  "optField v k = (case objectProps v of None \<Rightarrow> JUndef | Some ps \<Rightarrow> js_get ps k)"

subsection \<open>Strings\<close>

definition code_of :: "char \<Rightarrow> nat" where
  "code_of c = of_char c"

definition js_space :: "char \<Rightarrow> bool" where
  "js_space c = (code_of c \<in> {9, 10, 11, 12, 13, 32, 160})"

definition js_trim :: "string \<Rightarrow> string" where
  "js_trim s = rev (dropWhile js_space (rev (dropWhile js_space s)))"

definition js_lower_char :: "char \<Rightarrow> char" where
  "js_lower_char c = (let n = code_of c in
     if (65 \<le> n \<and> n \<le> 90) \<or> (192 \<le> n \<and> n \<le> 222 \<and> n \<noteq> 215) then char_of (n + 32) else c)"

definition js_lower :: "string \<Rightarrow> string" where
  "js_lower s = map js_lower_char s"

definition js_upper_char :: "char \<Rightarrow> string" where
  "js_upper_char c = (let n = code_of c in
     if n = 223 then ''SS''
     else if (97 \<le> n \<and> n \<le> 122) \<or> (224 \<le> n \<and> n \<le> 254 \<and> n \<noteq> 247) then [char_of (n - 32)] else [c])"

text \<open>\<open>toUpperCase\<close>; the two characters whose capitals are beyond the model's characters stay.\<close>

definition js_upper :: "string \<Rightarrow> string" where
  "js_upper s = concat (map js_upper_char s)"

fun js_prefix :: "string \<Rightarrow> string \<Rightarrow> bool" where
  "js_prefix [] t = True"
| "js_prefix (c # cs) [] = False"
| "js_prefix (c # cs) (d # ds) = (c = d \<and> js_prefix cs ds)"

fun js_includes :: "string \<Rightarrow> string \<Rightarrow> bool" where
  "js_includes [] p = (p = [])"
| "js_includes (c # cs) p = (js_prefix p (c # cs) \<or> js_includes cs p)"

fun js_split :: "char \<Rightarrow> string \<Rightarrow> string list" where
  "js_split d [] = [[]]"
| "js_split d (c # cs) = (if c = d then [] # js_split d cs
     else (case js_split d cs of [] \<Rightarrow> [[c]] | w # ws \<Rightarrow> (c # w) # ws))"

definition is_digit :: "char \<Rightarrow> bool" where
  "is_digit c = (48 \<le> code_of c \<and> code_of c \<le> 57)"

definition is_lower_hex :: "char \<Rightarrow> bool" where
  "is_lower_hex c = (is_digit c \<or> (97 \<le> code_of c \<and> code_of c \<le> 102))"

definition isControl :: "char \<Rightarrow> bool" where
  "isControl c = (code_of c < 32 \<or> code_of c = 127)"

text \<open>\<open>hasControlChars\<close>, in the same form in the stores, the endpoint factory and the normalizer.\<close>

definition hasControlChars :: "string \<Rightarrow> bool" where
  "hasControlChars s = list_ex isControl s"

definition str_in :: "string \<Rightarrow> char \<Rightarrow> bool" where
  "str_in s c = list_ex (\<lambda>d. d = c) s"

text \<open>\<open>containsUnsafePathSegment\<close>, the guard of file names and path segments.\<close>

definition containsUnsafePathSegment :: "jsval \<Rightarrow> bool" where
  "containsUnsafePathSegment v = (case v of
     JStr s \<Rightarrow> s = [] \<or> (let lower = js_lower s in
        str_in s (CHR 0x5C) \<or> str_in s (CHR ''?'') \<or> str_in s (CHR ''#'') \<or> str_in s (CHR '':'')
        \<or> hasControlChars s
        \<or> list_ex (\<lambda>w. w = ''..'' \<or> w = ''.'') (js_split (CHR ''/'') s)
        \<or> js_includes lower ''%2e%2e'' \<or> js_includes lower ''%252e%252e''
        \<or> js_includes lower ''%2f'' \<or> js_includes lower ''%252f''
        \<or> js_includes lower ''%5c'' \<or> js_includes lower ''%255c'')
   | _ \<Rightarrow> True)"

subsection \<open>Facts about the string functions\<close>

lemma js_prefix_iff: "js_prefix p s \<longleftrightarrow> (\<exists>t. s = p @ t)"
  by (induction p s rule: js_prefix.induct) auto

lemma js_includes_iff: "js_includes s p \<longleftrightarrow> (\<exists>a b. s = a @ p @ b)"
proof (induction s p rule: js_includes.induct)
  case (1 p)
  then show ?case by auto
next
  case (2 c cs p)
  show ?case
  proof
    assume "js_includes (c # cs) p"
    then consider "js_prefix p (c # cs)" | "js_includes cs p" by auto
    then show "\<exists>a b. c # cs = a @ p @ b"
    proof cases
      case 1
      then obtain t where "c # cs = [] @ p @ t" by (auto simp: js_prefix_iff)
      then show ?thesis by blast
    next
      case 2
      then obtain a b where "cs = a @ p @ b" using "2.IH" by blast
      then have "c # cs = (c # a) @ p @ b" by simp
      then show ?thesis by blast
    qed
  next
    assume "\<exists>a b. c # cs = a @ p @ b"
    then obtain a b where ab: "c # cs = a @ p @ b" by blast
    show "js_includes (c # cs) p"
    proof (cases a)
      case Nil
      with ab have "js_prefix p (c # cs)" by (auto simp: js_prefix_iff)
      then show ?thesis by simp
    next
      case (Cons x xs)
      with ab have "cs = xs @ p @ b" by simp
      with "2.IH" show ?thesis by auto
    qed
  qed
qed

lemma str_in_set [simp]: "str_in s c \<longleftrightarrow> c \<in> set s"
  by (auto simp: str_in_def list_ex_iff)

lemma hasControlChars_iff: "hasControlChars s \<longleftrightarrow> (\<exists>c \<in> set s. isControl c)"
  by (simp add: hasControlChars_def list_ex_iff)

lemma js_split_no_sep: "w \<in> set (js_split d s) \<Longrightarrow> d \<notin> set w"
  by (induction s arbitrary: w) (auto split: if_splits list.splits)

lemma js_split_nonempty [simp]: "js_split d s \<noteq> []"
  by (induction s) (auto split: list.splits)

lemma js_split_join: "concat (map (\<lambda>w. w @ [d]) (js_split d s)) = s @ [d]"
  by (induction s) (auto split: list.splits)

text \<open>A file name that passes the guard has no path segment that climbs out of its directory.\<close>

lemma safe_path_no_dotdot:
  assumes "\<not> containsUnsafePathSegment (JStr s)"
  shows "s \<noteq> []" and "''..'' \<notin> set (js_split (CHR ''/'') s)" and "\<not> hasControlChars s"
    and "CHR '':'' \<notin> set s"
  using assms by (auto simp: containsUnsafePathSegment_def Let_def list_ex_iff)

end
