(* ===== verification/Iso_Time.thy ===== *)
theory Iso_Time
  imports Js_Value
begin

section \<open>Dates: the part of \<open>Date\<close> the code uses\<close>

text \<open>
  The stores keep every instant as the 24-character string of \<open>Date.prototype.toISOString\<close> and
  compare instants by comparing strings, in SQL (\<open>next_attempt_at <= ?\<close>) and in JavaScript
  (\<open>ev.timestamp > bestUpdatedAt\<close>).  This theory models the two library calls involved, after
  ECMAScript's definitions of \<open>Day\<close>, \<open>DayFromYear\<close>, \<open>YearFromTime\<close> and \<open>MonthFromTime\<close>:
  \<open>toISOString\<close>, with the expanded years outside 0..9999, and \<open>Date.parse\<close> on the full
  date-time form, \<open>None\<close> standing for \<open>NaN\<close>.  It shows that they are inverse to each other on the
  four-digit years and that string order is chronological order there.
\<close>

definition msPerDay :: int where
  "msPerDay = 86400000"

subsection \<open>The calendar\<close>

definition dayFromYear :: "int \<Rightarrow> int" where
  "dayFromYear y = 365 * (y - 1970) + (y - 1969) div 4 - (y - 1901) div 100 + (y - 1601) div 400"

definition leapYear :: "int \<Rightarrow> bool" where
  "leapYear y = (y mod 4 = 0 \<and> (y mod 100 \<noteq> 0 \<or> y mod 400 = 0))"

text \<open>\<open>YearFromTime\<close> is the year whose first day is the last not after the given one; the estimate
  from the mean length of a year is off by at most one.\<close>

definition yearFromDay :: "int \<Rightarrow> int" where
  "yearFromDay d = (let y = 1970 + (400 * d) div 146097 in
     if d < dayFromYear y then y - 1 else if dayFromYear (y + 1) \<le> d then y + 1 else y)"

definition monthStart :: "bool \<Rightarrow> int \<Rightarrow> int" where
  "monthStart leap m = (let l = (if leap then 1 else 0) in
     if m \<le> 1 then 0 else if m = 2 then 31 else if m = 3 then 59 + l else if m = 4 then 90 + l
     else if m = 5 then 120 + l else if m = 6 then 151 + l else if m = 7 then 181 + l
     else if m = 8 then 212 + l else if m = 9 then 243 + l else if m = 10 then 273 + l
     else if m = 11 then 304 + l else if m = 12 then 334 + l else 365 + l)"

text \<open>The month of a day of the year is the last one that has begun.\<close>

fun monthSearch :: "bool \<Rightarrow> int \<Rightarrow> nat \<Rightarrow> int" where
  "monthSearch leap d 0 = 1"
| "monthSearch leap d (Suc n) =
     (if monthStart leap (2 + int n) \<le> d then 2 + int n else monthSearch leap d n)"

definition monthFromDay :: "bool \<Rightarrow> int \<Rightarrow> int" where
  "monthFromDay leap d = monthSearch leap d 11"

lemma div_lower: "0 < (k::int) \<Longrightarrow> k * (x div k) \<le> x"
  using mult_div_mod_eq [of k x] pos_mod_sign [of k x] by linarith

lemma div_upper: "0 < (k::int) \<Longrightarrow> x < k * (x div k) + k"
  using mult_div_mod_eq [of k x] pos_mod_bound [of k x] by linarith

lemma div_succ: "0 < (k::int) \<Longrightarrow> (x + 1) div k = x div k + (if (x + 1) mod k = 0 then 1 else 0)"
proof -
  assume k: "0 < k"
  show ?thesis
  proof (cases "x mod k = k - 1")
    case True
    then have x: "x + 1 = k * (x div k + 1) + 0"
      using mult_div_mod_eq [of k x] unfolding distrib_left by linarith
    from int_div_pos_eq [OF x] int_mod_pos_eq [OF x] k show ?thesis by simp
  next
    case False
    have x: "x + 1 = k * (x div k) + (x mod k + 1)" by simp
    from False k have r: "0 \<le> x mod k + 1" "x mod k + 1 < k"
      using pos_mod_bound [OF k, of x] pos_mod_sign [OF k, of x] by linarith+
    from int_div_pos_eq [OF x r] int_mod_pos_eq [OF x r] pos_mod_sign [OF k, of x]
    show ?thesis by simp
  qed
qed

lemma leap_sum:
  fixes n a b c :: int
  assumes "r \<longrightarrow> q" and "q \<longrightarrow> p"
  shows "365 * (n + 1) + (a + (if p then 1 else 0)) - (b + (if q then 1 else 0))
      + (c + (if r then 1 else 0))
    = 365 * n + a - b + c + (if p \<and> (\<not> q \<or> r) then 366 else 365)"
  using assms by (cases p; cases q; cases r) simp_all

lemma dayFromYear_step: "dayFromYear (y + 1) = dayFromYear y + (if leapYear y then 366 else 365)"
proof -
  define p q r where "p = (y mod 4 = 0)" and "q = (y mod 100 = 0)" and "r = (y mod 400 = 0)"
  have a: "(y + 1 - 1969) div 4 = (y - 1969) div 4 + (if p then 1 else 0)"
    using div_succ [of 4 "y - 1969"] mod_mult_self1 [of y "-492" 4]
    by (simp add: p_def algebra_simps)
  have b: "(y + 1 - 1901) div 100 = (y - 1901) div 100 + (if q then 1 else 0)"
    using div_succ [of 100 "y - 1901"] mod_mult_self1 [of y "-19" 100]
    by (simp add: q_def algebra_simps)
  have c: "(y + 1 - 1601) div 400 = (y - 1601) div 400 + (if r then 1 else 0)"
    using div_succ [of 400 "y - 1601"] mod_mult_self1 [of y "-4" 400]
    by (simp add: r_def algebra_simps)
  have "y mod 100 mod 4 = y mod 4" "y mod 400 mod 100 = y mod 100"
    by (simp_all add: mod_mod_cancel)
  then have d: "r \<longrightarrow> q" "q \<longrightarrow> p"
    unfolding p_def q_def r_def by (metis mod_0)+
  have l: "leapYear y = (p \<and> (\<not> q \<or> r))"
    by (simp add: leapYear_def p_def q_def r_def)
  show ?thesis
    using leap_sum [OF d, of "y - 1970"] unfolding dayFromYear_def a b c l
    by (simp only: diff_add_eq)
qed

lemma dayFromYear_mono_step: "dayFromYear y + 365 \<le> dayFromYear (y + 1)"
  by (simp add: dayFromYear_step)

lemma dayFromYear_mono: "y \<le> z \<Longrightarrow> dayFromYear y \<le> dayFromYear z"
proof (induction z rule: int_ge_induct)
  case base
  then show ?case by simp
next
  case (step z)
  with dayFromYear_mono_step [of z] show ?case by simp
qed

lemma dayFromYear_less: "y < z \<Longrightarrow> dayFromYear (y + 1) \<le> dayFromYear z"
  by (rule dayFromYear_mono) simp

lemma year_estimate_lo:
  fixes q d a b c :: int
  assumes "146097 * q \<le> 400 * d" "4 * a \<le> q" "q + 68 < 100 * b + 100" "400 * c \<le> q + 368"
  shows "365 * q - 365 + a - b + c \<le> d"
  using assms by linarith

lemma year_estimate_hi:
  fixes q d a b c :: int
  assumes "400 * d < 146097 * q + 146097" "q + 3 < 4 * a + 4" "100 * b \<le> q + 71"
    "q + 371 < 400 * c + 400"
  shows "d < 365 * q + 730 + a - b + c"
  using assms by linarith

lemma yearFromDay_bounds: "dayFromYear (yearFromDay d) \<le> d \<and> d < dayFromYear (yearFromDay d + 1)"
proof -
  define q where "q = (400 * d) div 146097"
  have q: "146097 * q \<le> 400 * d" "400 * d < 146097 * q + 146097"
    unfolding q_def by (rule div_lower div_upper, simp)+
  have e: "dayFromYear (1970 + q - 1) = 365 * q - 365 + q div 4 - (q + 68) div 100 + (q + 368) div 400"
    "dayFromYear (1970 + q + 2) = 365 * q + 730 + (q + 3) div 4 - (q + 71) div 100 + (q + 371) div 400"
    by (simp_all add: dayFromYear_def ac_simps)
  have lo: "dayFromYear (1970 + q - 1) \<le> d" unfolding e
    by (rule year_estimate_lo [OF q(1)]) (rule div_lower div_upper, simp)+
  have hi: "d < dayFromYear (1970 + q + 2)" unfolding e
    by (rule year_estimate_hi [OF q(2)]) (rule div_lower div_upper, simp)+
  show ?thesis
    unfolding yearFromDay_def Let_def q_def [symmetric] using lo hi
    by (auto simp: algebra_simps)
qed

lemma yearFromDay_unique:
  assumes "dayFromYear y \<le> d" and "d < dayFromYear (y + 1)"
  shows "yearFromDay d = y"
proof (rule ccontr)
  note b = yearFromDay_bounds [of d]
  assume "yearFromDay d \<noteq> y"
  then consider "yearFromDay d < y" | "y < yearFromDay d" by linarith
  then show False
  proof cases
    case 1
    from dayFromYear_less [OF this] b assms show False by linarith
  next
    case 2
    from dayFromYear_less [OF this] b assms show False by linarith
  qed
qed

lemma monthStart_end: "monthStart leap 13 = 365 + (if leap then 1 else 0)"
  by (simp add: monthStart_def Let_def)

lemma monthSearch_bounds:
  "0 \<le> d \<Longrightarrow> d < monthStart leap (2 + int n) \<Longrightarrow>
    1 \<le> monthSearch leap d n \<and> monthSearch leap d n \<le> 1 + int n \<and>
    monthStart leap (monthSearch leap d n) \<le> d \<and> d < monthStart leap (monthSearch leap d n + 1)"
proof (induction n)
  case 0
  then show ?case by (simp add: monthStart_def)
next
  case (Suc n)
  then show ?case by (cases "monthStart leap (2 + int n) \<le> d") (simp_all add: ac_simps)
qed

lemma monthFromDay_bounds:
  assumes "0 \<le> d" and "d < 365 + (if leap then 1 else 0)"
  shows "1 \<le> monthFromDay leap d" "monthFromDay leap d \<le> 12"
    "monthStart leap (monthFromDay leap d) \<le> d" "d < monthStart leap (monthFromDay leap d + 1)"
  using monthSearch_bounds [of d leap 11] assms by (simp_all add: monthFromDay_def monthStart_end)

lemma monthStart_step: "monthStart leap m \<le> monthStart leap (m + 1)"
  by (simp add: monthStart_def Let_def)

lemma monthStart_mono: "m \<le> n \<Longrightarrow> monthStart leap m \<le> monthStart leap n"
proof (induction n rule: int_ge_induct)
  case base
  then show ?case by simp
next
  case (step n)
  with monthStart_step [of leap n] show ?case by simp
qed

lemma monthFromDay_unique:
  assumes "1 \<le> m" "m \<le> 12" "monthStart leap m \<le> d" "d < monthStart leap (m + 1)"
  shows "monthFromDay leap d = m"
proof (rule ccontr)
  have "monthStart leap 1 \<le> monthStart leap m" "monthStart leap (m + 1) \<le> monthStart leap 13"
    using assms(1,2) by (simp_all add: monthStart_mono)
  then have d: "0 \<le> d" "d < 365 + (if leap then 1 else 0)"
    using assms(3,4) by (simp_all add: monthStart_def)
  note b = monthFromDay_bounds [OF d]
  assume "monthFromDay leap d \<noteq> m"
  then have "monthFromDay leap d + 1 \<le> m \<or> m + 1 \<le> monthFromDay leap d" by linarith
  then have "monthStart leap (monthFromDay leap d + 1) \<le> monthStart leap m
      \<or> monthStart leap (m + 1) \<le> monthStart leap (monthFromDay leap d)"
    using monthStart_mono by blast
  with b assms(3,4) show False by linarith
qed

subsection \<open>Time within the day\<close>

text \<open>Year, month, day, hour, minute, second and millisecond of an instant, in milliseconds since
  the epoch, and back.\<close>

type_synonym date_fields = "int \<times> int \<times> int \<times> int \<times> int \<times> int \<times> int"

definition fieldsOfMs :: "int \<Rightarrow> date_fields" where
  "fieldsOfMs t = (let d = t div msPerDay; w = t mod msPerDay; y = yearFromDay d;
       dy = d - dayFromYear y; m = monthFromDay (leapYear y) dy in
     (y, m, dy - monthStart (leapYear y) m + 1,
      w div 3600000, w div 60000 mod 60, w div 1000 mod 60, w mod 1000))"

definition msOfFields :: "date_fields \<Rightarrow> int" where
  "msOfFields f = (case f of (y, m, d, h, mi, s, ms) \<Rightarrow>
     (dayFromYear y + monthStart (leapYear y) m + d - 1) * msPerDay
       + h * 3600000 + mi * 60000 + s * 1000 + ms)"

definition dayValid :: "int \<Rightarrow> int \<Rightarrow> int \<Rightarrow> bool" where
  "dayValid y m d = (1 \<le> m \<and> m \<le> 12 \<and> 1 \<le> d
     \<and> d \<le> monthStart (leapYear y) (m + 1) - monthStart (leapYear y) m)"

definition fieldsValid :: "date_fields \<Rightarrow> bool" where
  "fieldsValid f = (case f of (y, m, d, h, mi, s, ms) \<Rightarrow>
     dayValid y m d \<and> 0 \<le> h \<and> h < 24 \<and> 0 \<le> mi \<and> mi < 60 \<and> 0 \<le> s \<and> s < 60 \<and> 0 \<le> ms \<and> ms < 1000)"

lemma day_of_fields_bounds:
  assumes "dayValid y m d"
  shows "dayFromYear y \<le> dayFromYear y + monthStart (leapYear y) m + d - 1"
    and "dayFromYear y + monthStart (leapYear y) m + d - 1 < dayFromYear (y + 1)"
proof -
  have "monthStart (leapYear y) 1 \<le> monthStart (leapYear y) m"
    "monthStart (leapYear y) (m + 1) \<le> monthStart (leapYear y) 13"
    using assms by (simp_all add: dayValid_def monthStart_mono)
  then show "dayFromYear y \<le> dayFromYear y + monthStart (leapYear y) m + d - 1"
    and "dayFromYear y + monthStart (leapYear y) m + d - 1 < dayFromYear (y + 1)"
    using assms by (cases "leapYear y"; simp add: dayValid_def monthStart_end dayFromYear_step monthStart_def [of _ 1])+
qed

lemma time_split:
  fixes w :: int
  assumes "0 \<le> w"
  shows "w div 3600000 * 3600000 + w div 60000 mod 60 * 60000 + w div 1000 mod 60 * 1000 + w mod 1000 = w"
proof -
  have "w div 60000 = w div 1000 div 60" "w div 3600000 = w div 1000 div 60 div 60"
    by (simp_all add: zdiv_zmult2_eq [symmetric])
  moreover have "w = w div 1000 * 1000 + w mod 1000"
    "w div 1000 = w div 1000 div 60 * 60 + w div 1000 mod 60"
    "w div 1000 div 60 = w div 1000 div 60 div 60 * 60 + w div 1000 div 60 mod 60" by simp_all
  ultimately show ?thesis by presburger
qed

lemma time_of_day:
  fixes w :: int
  assumes "0 \<le> w" and "w < 86400000"
  shows "0 \<le> w div 3600000" "w div 3600000 < 24" "0 \<le> w div 60000 mod 60" "w div 60000 mod 60 < 60"
    "0 \<le> w div 1000 mod 60" "w div 1000 mod 60 < 60" "0 \<le> w mod 1000" "w mod 1000 < 1000"
  using assms by simp_all

lemma fieldsOfMs_valid: "fieldsValid (fieldsOfMs t)"
proof -
  define d w y where "d = t div msPerDay" and "w = t mod msPerDay" and "y = yearFromDay d"
  have w: "0 \<le> w" "w < 86400000" by (simp_all add: w_def msPerDay_def)
  have dy: "0 \<le> d - dayFromYear y" "d - dayFromYear y < 365 + (if leapYear y then 1 else 0)"
    using yearFromDay_bounds [of d] dayFromYear_step [of y] by (simp_all add: y_def split: if_splits)
  from monthFromDay_bounds [OF dy] time_of_day [OF w] show ?thesis
    by (simp add: fieldsOfMs_def fieldsValid_def dayValid_def Let_def d_def [symmetric]
        w_def [symmetric] y_def [symmetric])
qed

lemma msOfFields_fieldsOfMs: "msOfFields (fieldsOfMs t) = t"
proof -
  define d w where "d = t div msPerDay" and "w = t mod msPerDay"
  have "0 \<le> w" by (simp add: w_def msPerDay_def)
  note w = time_split [OF this]
  have "d * msPerDay + w = t" by (simp add: d_def w_def)
  moreover have "a + b + (d - a - b + 1) - 1 = d" for a b by simp
  ultimately show ?thesis
    unfolding fieldsOfMs_def msOfFields_def Let_def prod.case d_def [symmetric] w_def [symmetric]
    using w by (simp only: add.assoc)
qed

lemma fieldsOfMs_year_range: "fst (fieldsOfMs t) = yearFromDay (t div msPerDay)"
  by (simp add: fieldsOfMs_def Let_def)

text \<open>Later fields, in the order year, month, day, hour, \<dots>, mean a later instant.\<close>

lemma msOfFields_less:
  assumes "fieldsValid f" and "fieldsValid g" and "f < g"
  shows "msOfFields f < msOfFields g"
proof -
  obtain y m d h mi s ms where f: "f = (y, m, d, h, mi, s, ms)" by (cases f) auto
  obtain y' m' d' h' mi' s' ms' where g: "g = (y', m', d', h', mi', s', ms')" by (cases g) auto
  define D where "D = dayFromYear y + monthStart (leapYear y) m + d - 1"
  define D' where "D' = dayFromYear y' + monthStart (leapYear y') m' + d' - 1"
  define W where "W = h * 3600000 + mi * 60000 + s * 1000 + ms"
  define W' where "W' = h' * 3600000 + mi' * 60000 + s' * 1000 + ms'"
  have v: "dayValid y m d" "dayValid y' m' d'" and t: "0 \<le> mi" "mi < 60" "0 \<le> s" "s < 60" "0 \<le> ms"
    "ms < 1000" "0 \<le> mi'" "mi' < 60" "0 \<le> s'" "s' < 60" "0 \<le> ms'" "ms' < 1000"
    and W: "0 \<le> W" "W < msPerDay" "0 \<le> W'" "W' < msPerDay"
    using assms(1,2) by (simp_all add: f g fieldsValid_def W_def W'_def msPerDay_def)
  have lt: "(y, m, d, h, mi, s, ms) < (y', m', d', h', mi', s', ms')" using assms(3) by (simp add: f g)
  have "D < D' \<or> D = D' \<and> W < W'"
  proof (cases "y = y' \<and> m = m' \<and> d = d'")
    case True
    with lt have "(h, mi, s, ms) < (h', mi', s', ms')" by (auto simp: less_prod_def')
    with t have "W < W'" unfolding W_def W'_def by (auto simp: less_prod_def')
    with True show ?thesis by (simp add: D_def D'_def)
  next
    case False
    with lt consider "y < y'" | "y = y'" "m < m'" | "y = y'" "m = m'" "d < d'"
      by (auto simp: less_prod_def')
    then have "D < D'"
    proof cases
      case 1
      from dayFromYear_less [OF this] day_of_fields_bounds [OF v(1)] day_of_fields_bounds [OF v(2)]
      show ?thesis unfolding D_def D'_def by linarith
    next
      case 2
      have "monthStart (leapYear y) (m + 1) \<le> monthStart (leapYear y) m'"
        by (rule monthStart_mono) (use 2 in simp)
      with v 2(1) show ?thesis unfolding D_def D'_def dayValid_def by simp
    next
      case 3
      then show ?thesis by (simp add: D_def D'_def)
    qed
    then show ?thesis ..
  qed
  moreover have "msOfFields f = D * msPerDay + W" "msOfFields g = D' * msPerDay + W'"
    by (simp_all add: f g msOfFields_def D_def D'_def W_def W'_def)
  ultimately show ?thesis using W unfolding msPerDay_def by auto
qed

lemma msOfFields_inj:
  assumes "fieldsValid f" and "fieldsValid g" and "msOfFields f = msOfFields g"
  shows "f = g"
  using msOfFields_less [OF assms(1,2)] msOfFields_less [OF assms(2,1)] assms(3)
  by (cases f g rule: linorder_cases) auto

lemma fieldsOfMs_msOfFields: "fieldsValid f \<Longrightarrow> fieldsOfMs (msOfFields f) = f"
  by (rule msOfFields_inj) (simp_all add: fieldsOfMs_valid msOfFields_fieldsOfMs)

lemma fieldsOfMs_less_iff: "fieldsOfMs t < fieldsOfMs u \<longleftrightarrow> t < u"
  using msOfFields_less [OF fieldsOfMs_valid fieldsOfMs_valid, of t u]
    msOfFields_less [OF fieldsOfMs_valid fieldsOfMs_valid, of u t]
  by (metis linorder_neq_iff msOfFields_fieldsOfMs order_less_asym)

subsection \<open>Decimal digits\<close>

definition digit_char :: "int \<Rightarrow> char" where
  "digit_char n = char_of (nat (48 + n mod 10))"

fun digits :: "nat \<Rightarrow> int \<Rightarrow> string" where
  "digits 0 n = []"
| "digits (Suc k) n = digits k (n div 10) @ [digit_char n]"

fun num_from :: "int \<Rightarrow> string \<Rightarrow> int" where
  "num_from a [] = a"
| "num_from a (c # cs) = num_from (10 * a + (int (code_of c) - 48)) cs"

definition num :: "string \<Rightarrow> int" where
  "num s = num_from 0 s"

lemma code_of_digit_char: "code_of (digit_char n) = nat (48 + n mod 10)"
proof -
  have "nat (48 + n mod 10) < 256" using pos_mod_bound [of 10 n] by linarith
  then show ?thesis by (simp add: code_of_def digit_char_def)
qed

lemma is_digit_digit_char [simp]: "is_digit (digit_char n)"
proof -
  have "0 \<le> n mod 10" "n mod 10 < 10" by simp_all
  then show ?thesis unfolding is_digit_def code_of_digit_char by linarith
qed

lemma length_digits [simp]: "length (digits k n) = k"
  by (induction k arbitrary: n) simp_all

lemma digits_are_digits: "c \<in> set (digits k n) \<Longrightarrow> is_digit c"
  by (induction k arbitrary: n) auto

lemma num_from_append: "num_from a (s @ t) = num_from (num_from a s) t"
  by (induction s arbitrary: a) simp_all

lemma num_digits: "0 \<le> n \<Longrightarrow> n < 10 ^ k \<Longrightarrow> num (digits k n) = n"
proof (induction k arbitrary: n)
  case 0
  then show ?case by (simp add: num_def)
next
  case (Suc k)
  then have "0 \<le> n div 10" "n div 10 < 10 ^ k" by auto
  from Suc.IH [OF this] have "num_from 0 (digits k (n div 10)) = n div 10" by (simp add: num_def)
  moreover have "int (nat (48 + n mod 10)) - 48 = n mod 10" by simp
  ultimately show ?case
    by (simp add: num_def num_from_append code_of_digit_char)
qed

lemma less_append_same_length:
  fixes u v :: "'a::linorder list"
  shows "length u = length v \<Longrightarrow> (u @ s < v @ t) \<longleftrightarrow> u < v \<or> u = v \<and> s < t"
  by (induction u v rule: list_induct2) auto

lemma digit_char_less: "digit_char n < digit_char m \<longleftrightarrow> n mod 10 < m mod 10"
  using pos_mod_sign [of 10 n] pos_mod_sign [of 10 m]
  by (auto simp: less_char_def code_of_digit_char [unfolded code_of_def] nat_less_eq_zless)

lemma digits_less: "0 \<le> n \<Longrightarrow> n < m \<Longrightarrow> m < 10 ^ k \<Longrightarrow> digits k n < digits k m"
proof (induction k arbitrary: n m)
  case 0
  then show ?case by simp
next
  case (Suc k)
  have le: "n div 10 \<le> m div 10" and b: "0 \<le> n div 10" "m div 10 < 10 ^ k"
    using Suc.prems by (auto simp: zdiv_mono1)
  show ?case
  proof (cases "n div 10 = m div 10")
    case True
    with Suc.prems(2) have "n mod 10 < m mod 10"
      by (metis add_less_cancel_left mult_div_mod_eq)
    with True show ?thesis by (simp add: less_append_same_length digit_char_less)
  next
    case False
    with le have "n div 10 < m div 10" by simp
    from Suc.IH [OF b(1) this b(2)] show ?thesis by (simp add: less_append_same_length)
  qed
qed

subsection \<open>\<open>toISOString\<close> and \<open>Date.parse\<close>\<close>

text \<open>\<open>toISOString\<close> throws a \<open>RangeError\<close> (\<open>None\<close> here) outside the time range of \<open>Date\<close>.\<close>

definition isoYear :: "int \<Rightarrow> string" where
  "isoYear y = (if 0 \<le> y \<and> y \<le> 9999 then digits 4 y
     else (if y < 0 then CHR ''-'' else CHR ''+'') # digits 6 \<bar>y\<bar>)"

definition isoOfFields :: "date_fields \<Rightarrow> string" where
  "isoOfFields f = (case f of (y, m, d, h, mi, s, ms) \<Rightarrow>
     isoYear y @ ''-'' @ digits 2 m @ ''-'' @ digits 2 d @ ''T'' @ digits 2 h @ '':'' @ digits 2 mi
       @ '':'' @ digits 2 s @ ''.'' @ digits 3 ms @ ''Z'')"

definition toISOString :: "int \<Rightarrow> string option" where
  "toISOString t = (if \<bar>t\<bar> \<le> 8640000000000000 then Some (isoOfFields (fieldsOfMs t)) else None)"

text \<open>The regular expression \<open>^\d{4}-\d{2}-\d{2}T\d{2}:\d{2}:\d{2}\.\d{3}Z$\<close> as a template in which
  \<open>0\<close> stands for any digit.\<close>

definition isoShape :: "string \<Rightarrow> bool" where
  "isoShape s = list_all2 (\<lambda>p c. if p = CHR ''0'' then is_digit c else c = p)
     ''0000-00-00T00:00:00.000Z'' s"

definition dateParse :: "string \<Rightarrow> int option" where
  "dateParse s = (if \<not> isoShape s then None else
     let y = num (take 4 s); m = num (take 2 (drop 5 s)); d = num (take 2 (drop 8 s));
         h = num (take 2 (drop 11 s)); mi = num (take 2 (drop 14 s)); sc = num (take 2 (drop 17 s));
         ms = num (take 3 (drop 20 s))
     in if dayValid y m d \<and> mi < 60 \<and> sc < 60 \<and> (h < 24 \<or> h = 24 \<and> mi = 0 \<and> sc = 0 \<and> ms = 0)
        then Some (msOfFields (y, m, d, h, mi, sc, ms)) else None)"

text \<open>The instants that print with a four-digit year.\<close>

definition fourDigitYear :: "int \<Rightarrow> bool" where
  "fourDigitYear t = (0 \<le> fst (fieldsOfMs t) \<and> fst (fieldsOfMs t) \<le> 9999)"

lemma isoYear_four: "0 \<le> y \<Longrightarrow> y \<le> 9999 \<Longrightarrow> isoYear y = digits 4 y"
  by (simp add: isoYear_def)

lemma lex_step:
  fixes a a' :: "'a::linorder" and A A' :: "'b::linorder"
  assumes "a < a' \<or> a \<le> a' \<and> P" and "a < a' \<Longrightarrow> A < A'" and "a = a' \<Longrightarrow> A = A'" and "P \<Longrightarrow> Q"
  shows "A < A' \<or> A = A' \<and> Q"
  using assms by (cases a a' rule: linorder_cases) auto

lemma isoOfFields_less:
  assumes "fieldsValid f" and "fieldsValid g" and "f < g"
    and "0 \<le> fst f" "fst g \<le> 9999"
  shows "isoOfFields f < isoOfFields g"
proof -
  obtain y m d h mi s ms where f: "f = (y, m, d, h, mi, s, ms)" by (cases f) auto
  obtain y' m' d' h' mi' s' ms' where g: "g = (y', m', d', h', mi', s', ms')" by (cases g) auto
  have lt: "(y, m, d, h, mi, s, ms) < (y', m', d', h', mi', s', ms')" using assms(3) by (simp add: f g)
  then have y: "0 \<le> y" "y \<le> 9999" "0 \<le> y'" "y' \<le> 9999" using assms(4,5) by (auto simp: f g)
  have month: "dayValid a b c \<Longrightarrow> 0 \<le> b \<and> b < 100" for a b c by (simp add: dayValid_def)
  have day: "0 \<le> c \<and> c < 100" if v: "dayValid a b c" for a b c
  proof -
    have "monthStart l (b + 1) - monthStart l b < 100" if "1 \<le> b" "b \<le> 12" for l
      using that by (simp add: monthStart_def Let_def)
    with v show ?thesis unfolding dayValid_def by (meson leD le_less_trans linear order_trans zero_le_one)
  qed
  have v: "dayValid y m d" "dayValid y' m' d'" and r: "0 \<le> h" "h' < 100" "0 \<le> mi" "mi' < 100" "0 \<le> s"
    "s' < 100" "0 \<le> ms" "ms' < 1000"
    using assms(1,2) by (simp_all add: f g fieldsValid_def)
  have b: "m' < 100" "0 \<le> m" "d' < 100" "0 \<le> d" using month v day by blast+
  have "digits 4 y < digits 4 y' \<or> digits 4 y = digits 4 y' \<and> (digits 2 m < digits 2 m' \<or>
      digits 2 m = digits 2 m' \<and> (digits 2 d < digits 2 d' \<or> digits 2 d = digits 2 d' \<and>
      (digits 2 h < digits 2 h' \<or> digits 2 h = digits 2 h' \<and> (digits 2 mi < digits 2 mi' \<or>
      digits 2 mi = digits 2 mi' \<and> (digits 2 s < digits 2 s' \<or> digits 2 s = digits 2 s' \<and>
      digits 3 ms < digits 3 ms')))))"
    using lt unfolding less_prod_simp
    by (elim lex_step) (use y b r in \<open>simp_all add: digits_less\<close>)
  then have "digits 4 y @ ''-'' @ digits 2 m @ ''-'' @ digits 2 d @ ''T'' @ digits 2 h @ '':'' @ digits 2 mi
      @ '':'' @ digits 2 s @ ''.'' @ digits 3 ms @ ''Z''
    < digits 4 y' @ ''-'' @ digits 2 m' @ ''-'' @ digits 2 d' @ ''T'' @ digits 2 h' @ '':'' @ digits 2 mi'
      @ '':'' @ digits 2 s' @ ''.'' @ digits 3 ms' @ ''Z''"
    by (simp add: less_append_same_length)
  then show ?thesis using y by (simp add: f g isoOfFields_def isoYear_four)
qed

lemma all_digits: "list_all is_digit (digits k n)"
  by (simp add: list_all_iff digits_are_digits)

lemma digits_2: "\<exists>a b. digits 2 n = [a, b] \<and> is_digit a \<and> is_digit b"
  by (simp add: numeral_2_eq_2)

lemma digits_3: "\<exists>a b c. digits 3 n = [a, b, c] \<and> is_digit a \<and> is_digit b \<and> is_digit c"
  by (simp add: numeral_3_eq_3)

lemma digits_4:
  "\<exists>a b c d. digits 4 n = [a, b, c, d] \<and> is_digit a \<and> is_digit b \<and> is_digit c \<and> is_digit d"
  by (simp add: eval_nat_numeral)

lemma digits_6: "\<exists>a b c d e f. digits 6 n = [a, b, c, d, e, f]"
  by (simp add: eval_nat_numeral)

lemma dateParse_isoOfFields:
  assumes "fieldsValid f" and "0 \<le> fst f" "fst f \<le> 9999"
  shows "dateParse (isoOfFields f) = Some (msOfFields f)"
proof -
  obtain y m d h mi s ms where f: "f = (y, m, d, h, mi, s, ms)" by (cases f) auto
  have y: "0 \<le> y" "y \<le> 9999" using assms by (simp_all add: f)
  have v: "dayValid y m d" and t: "0 \<le> h" "h < 24" "0 \<le> mi" "mi < 60" "0 \<le> s" "s < 60" "0 \<le> ms" "ms < 1000"
    using assms(1) by (simp_all add: f fieldsValid_def)
  have "monthStart (leapYear y) (m + 1) - monthStart (leapYear y) m \<le> 31"
    using v by (simp add: dayValid_def monthStart_def Let_def)
  then have r: "0 \<le> m" "m < 100" "0 \<le> d" "d < 100" using v by (simp_all add: dayValid_def)
  obtain y1 y2 y3 y4 where Y: "digits 4 y = [y1, y2, y3, y4]" "is_digit y1" "is_digit y2" "is_digit y3" "is_digit y4"
    using digits_4 by blast
  obtain m1 m2 where M: "digits 2 m = [m1, m2]" "is_digit m1" "is_digit m2" using digits_2 by blast
  obtain d1 d2 where D: "digits 2 d = [d1, d2]" "is_digit d1" "is_digit d2" using digits_2 by blast
  obtain h1 h2 where H: "digits 2 h = [h1, h2]" "is_digit h1" "is_digit h2" using digits_2 by blast
  obtain i1 i2 where I: "digits 2 mi = [i1, i2]" "is_digit i1" "is_digit i2" using digits_2 by blast
  obtain s1 s2 where S: "digits 2 s = [s1, s2]" "is_digit s1" "is_digit s2" using digits_2 by blast
  obtain n1 n2 n3 where N: "digits 3 ms = [n1, n2, n3]" "is_digit n1" "is_digit n2" "is_digit n3"
    using digits_3 by blast
  have iso: "isoOfFields f = [y1, y2, y3, y4, CHR ''-'', m1, m2, CHR ''-'', d1, d2, CHR ''T'', h1, h2, CHR '':'',
      i1, i2, CHR '':'', s1, s2, CHR ''.'', n1, n2, n3, CHR ''Z'']"
    using y by (simp add: f isoOfFields_def isoYear_four Y M D H I S N)
  have "num [y1, y2, y3, y4] = y" "num [m1, m2] = m" "num [d1, d2] = d" "num [h1, h2] = h" "num [i1, i2] = mi"
    "num [s1, s2] = s" "num [n1, n2, n3] = ms"
    using num_digits [of y 4] num_digits [of m 2] num_digits [of d 2] num_digits [of h 2] num_digits [of mi 2]
      num_digits [of s 2] num_digits [of ms 3] y r t by (simp_all add: Y M D H I S N)
  moreover have "isoShape (isoOfFields f)"
    unfolding iso isoShape_def by (simp add: Y M D H I S N)
  ultimately show ?thesis
    unfolding dateParse_def iso using v t by (simp add: f)
qed

text \<open>\<open>Date.parse\<close> undoes \<open>toISOString\<close> on the four-digit years.\<close>

lemma toISOString_dateParse:
  assumes "fourDigitYear t" and "toISOString t = Some s"
  shows "dateParse s = Some t"
  using assms dateParse_isoOfFields [OF fieldsOfMs_valid, of t]
  by (simp add: toISOString_def fourDigitYear_def msOfFields_fieldsOfMs split: if_splits)

lemma isoShape_first:
  "isoShape s \<Longrightarrow> length s = 24 \<and> is_digit (hd s)"
  by (cases s) (auto simp: isoShape_def dest: list_all2_lengthD)

lemma isoShape_fourDigitYear:
  assumes "toISOString t = Some s" and "isoShape s"
  shows "fourDigitYear t"
proof (rule ccontr)
  assume "\<not> fourDigitYear t"
  moreover obtain y g where f: "fieldsOfMs t = (y, g)" by (cases "fieldsOfMs t") auto
  ultimately have "hd (isoYear y) = CHR ''-'' \<or> hd (isoYear y) = CHR ''+''" "isoYear y \<noteq> []"
    by (auto simp: fourDigitYear_def isoYear_def)
  moreover have "hd s = hd (isoYear y)"
    using assms(1) calculation(2) by (cases g) (auto simp: toISOString_def f isoOfFields_def split: if_splits)
  ultimately show False
    using isoShape_first [OF assms(2)] by (auto simp: is_digit_def code_of_def)
qed

text \<open>String order is time order: what lets SQL and JavaScript compare instants as strings.\<close>

lemma toISOString_less_iff:
  assumes "fourDigitYear t" "fourDigitYear u" "toISOString t = Some s" "toISOString u = Some r"
  shows "s < r \<longleftrightarrow> t < u"
proof -
  have less: "s < r" if "t < u" "fourDigitYear t" "fourDigitYear u" "toISOString t = Some s" "toISOString u = Some r"
    for t u s r
    using that isoOfFields_less [OF fieldsOfMs_valid fieldsOfMs_valid, of t u] fieldsOfMs_less_iff [of t u]
    by (auto simp: toISOString_def fourDigitYear_def split: if_splits)
  show ?thesis
    using less [of t u s r] less [of u t r s] assms by (cases t u rule: linorder_cases) auto
qed

text \<open>Dates with a four-digit year are far inside the range of dates, so shifting one by days still
  prints.\<close>

lemma fourDigitYear_bounds:
  assumes "fourDigitYear t"
  shows "- 62167219200001 < t" "t < 253402300800000"
proof -
  have y: "0 \<le> fst (fieldsOfMs t)" "fst (fieldsOfMs t) < 10000" using assms by (auto simp: fourDigitYear_def)
  have lo: "fieldsValid (- 1, 12, 31, 23, 59, 59, 999)" "msOfFields (- 1, 12, 31, 23, 59, 59, 999) = - 62167219200001"
    and hi: "fieldsValid (10000, 1, 1, 0, 0, 0, 0)" "msOfFields (10000, 1, 1, 0, 0, 0, 0) = 253402300800000"
    by code_simp+
  have "(- 1, 12, 31, 23, 59, 59, 999) < fieldsOfMs t" "fieldsOfMs t < (10000, 1, 1, 0, 0, 0, 0)"
    using y by (cases "fieldsOfMs t"; simp add: less_prod_def)+
  from msOfFields_less [OF lo(1) fieldsOfMs_valid this(1)] msOfFields_less [OF fieldsOfMs_valid hi(1) this(2)]
  show "- 62167219200001 < t" "t < 253402300800000" by (simp_all add: msOfFields_fieldsOfMs lo hi)
qed

lemma toISOString_shift:
  assumes "fourDigitYear t" "\<bar>d\<bar> \<le> 604800000"
  shows "\<exists>s. toISOString (t + d) = Some s"
  using fourDigitYear_bounds [OF assms(1)] assms(2) by (auto simp: toISOString_def)

end
