(* ===== verification/Json_Syntax.thy ===== *)
theory Json_Syntax
  imports Js_Value
begin

section \<open>JSON texts\<close>

text \<open>
  The stores call \<open>JSON.parse\<close> on a response only to find out whether it throws.  \<open>jsonValid\<close> is
  that test: a pushdown recogniser of the JSON grammar that reads the text once, from left to
  right, so it needs neither fuel nor a termination argument.  Its state is the stack of open
  brackets and what it expects next.
\<close>

datatype json_frame = InObject | InArray

text \<open>Where a number stands: after its sign, after a leading zero, in its integer digits, after the
  point, in the fraction, after \<open>e\<close>, after the exponent's sign, in the exponent.\<close>

datatype json_number = NumSign | NumZero | NumInt | NumPoint | NumFrac | NumE | NumESign | NumExp

datatype json_mode =
    ExpValue | ExpValueOrClose | ExpKey | ExpKeyOrClose | ExpColon | AfterValue
  | InString bool | InEscape bool | InHex bool nat | InLiteral string | InNumber json_number

definition isHex :: "char \<Rightarrow> bool" where
  "isHex c = (is_lower_hex c \<or> (65 \<le> code_of c \<and> code_of c \<le> 70))"

definition isJsonWs :: "char \<Rightarrow> bool" where
  "isJsonWs c = (code_of c \<in> {9, 10, 13, 32})"

definition numberEnds :: "json_number \<Rightarrow> bool" where
  "numberEnds n = (n \<in> {NumZero, NumInt, NumFrac, NumExp})"

definition numberStep :: "json_number \<Rightarrow> char \<Rightarrow> json_number option" where
  "numberStep n c = (case n of
     NumSign \<Rightarrow> (if c = CHR ''0'' then Some NumZero else if is_digit c then Some NumInt else None)
   | NumZero \<Rightarrow> (if c = CHR ''.'' then Some NumPoint
       else if c = CHR ''e'' \<or> c = CHR ''E'' then Some NumE else None)
   | NumInt \<Rightarrow> (if is_digit c then Some NumInt else if c = CHR ''.'' then Some NumPoint
       else if c = CHR ''e'' \<or> c = CHR ''E'' then Some NumE else None)
   | NumPoint \<Rightarrow> (if is_digit c then Some NumFrac else None)
   | NumFrac \<Rightarrow> (if is_digit c then Some NumFrac
       else if c = CHR ''e'' \<or> c = CHR ''E'' then Some NumE else None)
   | NumE \<Rightarrow> (if is_digit c then Some NumExp
       else if c = CHR ''+'' \<or> c = CHR ''-'' then Some NumESign else None)
   | NumESign \<Rightarrow> (if is_digit c then Some NumExp else None)
   | NumExp \<Rightarrow> (if is_digit c then Some NumExp else None))"

type_synonym json_state = "json_frame list \<times> json_mode"

definition startValue :: "json_frame list \<Rightarrow> char \<Rightarrow> json_state option" where
  "startValue st c = (
     if c = CHR 0x22 then Some (st, InString False)
     else if c = CHR ''{'' then Some (InObject # st, ExpKeyOrClose)
     else if c = CHR ''['' then Some (InArray # st, ExpValueOrClose)
     else if c = CHR ''t'' then Some (st, InLiteral ''rue'')
     else if c = CHR ''f'' then Some (st, InLiteral ''alse'')
     else if c = CHR ''n'' then Some (st, InLiteral ''ull'')
     else if c = CHR ''-'' then Some (st, InNumber NumSign)
     else map_option (\<lambda>n. (st, InNumber n)) (numberStep NumSign c))"

definition afterValue :: "json_frame list \<Rightarrow> char \<Rightarrow> json_state option" where
  "afterValue st c = (if isJsonWs c then Some (st, AfterValue) else (case st of
     [] \<Rightarrow> None
   | InObject # r \<Rightarrow> (if c = CHR '','' then Some (st, ExpKey)
       else if c = CHR ''}'' then Some (r, AfterValue) else None)
   | InArray # r \<Rightarrow> (if c = CHR '','' then Some (st, ExpValue)
       else if c = CHR '']'' then Some (r, AfterValue) else None)))"

definition jsonStep :: "json_state \<Rightarrow> char \<Rightarrow> json_state option" where
  "jsonStep sm c = (case sm of (st, m) \<Rightarrow> (case m of
     ExpValue \<Rightarrow> (if isJsonWs c then Some (st, m) else startValue st c)
   | ExpValueOrClose \<Rightarrow> (if isJsonWs c then Some (st, m)
       else if c = CHR '']'' then Some (tl st, AfterValue) else startValue st c)
   | ExpKey \<Rightarrow> (if isJsonWs c then Some (st, m)
       else if c = CHR 0x22 then Some (st, InString True) else None)
   | ExpKeyOrClose \<Rightarrow> (if isJsonWs c then Some (st, m)
       else if c = CHR ''}'' then Some (tl st, AfterValue)
       else if c = CHR 0x22 then Some (st, InString True) else None)
   | ExpColon \<Rightarrow> (if isJsonWs c then Some (st, m) else if c = CHR '':'' then Some (st, ExpValue) else None)
   | AfterValue \<Rightarrow> afterValue st c
   | InString key \<Rightarrow> (if c = CHR 0x22 then Some (st, if key then ExpColon else AfterValue)
       else if code_of c < 32 then None
       else if c = CHR 0x5C then Some (st, InEscape key) else Some (st, m))
   | InEscape key \<Rightarrow> (if c = CHR ''u'' then Some (st, InHex key 4)
       else if c \<in> {CHR 0x22, CHR 0x5C, CHR ''/'', CHR ''b'', CHR ''f'', CHR ''n'', CHR ''r'', CHR ''t''}
       then Some (st, InString key) else None)
   | InHex key n \<Rightarrow> (if isHex c then Some (st, if n \<le> 1 then InString key else InHex key (n - 1)) else None)
   | InLiteral w \<Rightarrow> (if w \<noteq> [] \<and> c = hd w
       then Some (st, if tl w = [] then AfterValue else InLiteral (tl w)) else None)
   | InNumber n \<Rightarrow> (case numberStep n c of Some n' \<Rightarrow> Some (st, InNumber n')
       | None \<Rightarrow> (if numberEnds n then afterValue st c else None))))"

fun jsonRun :: "json_state \<Rightarrow> string \<Rightarrow> json_state option" where
  "jsonRun sm [] = Some sm"
| "jsonRun sm (c # cs) = (case jsonStep sm c of None \<Rightarrow> None | Some sm' \<Rightarrow> jsonRun sm' cs)"

definition jsonValid :: "string \<Rightarrow> bool" where
  "jsonValid s = (case jsonRun ([], ExpValue) s of
     Some ([], AfterValue) \<Rightarrow> True
   | Some ([], InNumber n) \<Rightarrow> numberEnds n
   | _ \<Rightarrow> False)"

lemma jsonRun_append:
  "jsonRun sm (s @ t) = (case jsonRun sm s of None \<Rightarrow> None | Some sm' \<Rightarrow> jsonRun sm' t)"
  by (induction s arbitrary: sm) (auto split: option.splits)

lemma jsonValid_nonempty: "jsonValid s \<Longrightarrow> s \<noteq> []"
  by (auto simp: jsonValid_def)

lemma jsonValid_samples:
  "jsonValid ''{} ''" "jsonValid ''[1, 2.5e-3, true]''" "\<not> jsonValid ''[1,]''" "\<not> jsonValid ''01''"
  by code_simp+

end
