(* ===== verification/Persistence_Types.thy ===== *)
theory Persistence_Types
  imports Iso_Time Json_Syntax
begin

section \<open>Persistence: errors, inputs and their validation\<close>

text \<open>
  The types of \<open>packages/persistence/src/index.ts\<close> and the validators of
  \<open>packages/persistence/src/sqlite.ts\<close> that stand before every operation of the store.  An input is
  any JavaScript value; a validator returns the checked record or the exception it throws.  Error
  messages are left out: an error is its class and its code.  The validators of one operation run in
  the order of the code's object literal, so the first failing field decides the exception.
\<close>

subsection \<open>Errors\<close>

datatype perr = InvalidOptions | InvalidFilename | InvalidRecord | MigrationFailed
  | MigrationChecksumMismatch | MigrationLockFailed | OutboxFailed | ClaimFailed | CompletionFailed
  | StoreClosed

text \<open>A \<open>PersistenceError\<close>, the \<open>RangeError\<close> of \<open>toISOString\<close> on an invalid date or of a number out of
  its range, the \<open>TypeError\<close> of the worker's options, or an error the database raised: a violated constraint (its message matches \<open>/UNIQUE|constraint/i\<close>) or another
  fault.\<close>

datatype exn = PersistenceError perr | RangeErr | TypeErr | SqlConstraint | SqlFault

subsection \<open>Checked inputs\<close>

record webhook_event = eventKey :: string  eventHash :: string  receivedAt :: string

record sr_lookup = srKey :: string  srHash :: string
record sr_claim = sr_lookup + srCreatedAt :: string
record sr_completion = sr_claim + srResponseJson :: string

record ob_enqueue = eqId :: string  eqPayloadHash :: string  eqCreatedAt :: string
  eqNextAttemptAt :: string
record ob_claim = clNow :: string  clLimit :: nat
record ob_success = okId :: string  okLeaseId :: int  okUpdatedAt :: string
record ob_failure = ob_success + flNextAttemptAt :: string

datatype direction = Inbound | Outbound

record message_record =
  mrRowId :: string
  mrWaMessageId :: string
  mrDirection :: direction
  mrFromPhone :: "string option"
  mrToPhone :: "string option"
  mrType :: string
  mrStatus :: string
  mrGraphMessageId :: "string option"
  mrCreatedAt :: string
  mrUpdatedAt :: string

record status_event = seWaMessageId :: string  seStatus :: string  seTimestamp :: string

record list_query = lqLimit :: nat  lqBeforeRowId :: "string option"

subsection \<open>Field validators\<close>

definition badRecord :: "exn + 'a" where
  "badRecord = Inl (PersistenceError InvalidRecord)"

definition validateRecordInput :: "jsval \<Rightarrow> exn + (string \<times> slot) list" where
  "validateRecordInput v = (case isRecord v of None \<Rightarrow> badRecord | Some ps \<Rightarrow> Inr ps)"

definition safeString :: "string \<Rightarrow> bool" where
  "safeString s = (js_trim s \<noteq> [] \<and> length s \<le> 1024 \<and> \<not> hasControlChars s)"

definition validateRecordString :: "jsval \<Rightarrow> exn + string" where
  "validateRecordString v = (case v of
     JStr s \<Rightarrow> (if safeString s then Inr s else badRecord)
   | _ \<Rightarrow> badRecord)"

text \<open>\<open>new Date(raw).toISOString()\<close>\<close>

definition normalizeIso :: "string \<Rightarrow> exn + string" where
  "normalizeIso raw = (case dateParse raw of None \<Rightarrow> Inl RangeErr
     | Some t \<Rightarrow> (case toISOString t of None \<Rightarrow> Inl RangeErr | Some s \<Rightarrow> Inr s))"

definition validateTimestamp :: "jsval \<Rightarrow> exn + string" where
  "validateTimestamp v = bindE (validateRecordString v) (\<lambda>raw.
     if \<not> isoShape raw then badRecord
     else bindE (normalizeIso raw) (\<lambda>normalized.
       if normalized \<noteq> raw then badRecord else Inr raw))"

definition validateOptionalRecordString :: "jsval \<Rightarrow> exn + string option" where
  "validateOptionalRecordString v = (if v = JUndef \<or> v = JNull then Inr None
     else bindE (validateRecordString v) (\<lambda>s. Inr (Some s)))"

definition validatePayloadHash :: "jsval \<Rightarrow> exn + string" where
  "validatePayloadHash v = bindE (validateRecordString v) (\<lambda>raw.
     if js_prefix ''sha256:'' raw \<and> length raw = 71 \<and> list_all is_lower_hex (drop 7 raw)
     then Inr raw else badRecord)"

definition maxSafeInteger :: int where
  "maxSafeInteger = 9007199254740991"

definition validateLeaseId :: "jsval \<Rightarrow> exn + int" where
  "validateLeaseId v = (case intWithin 1 maxSafeInteger v of Some n \<Rightarrow> Inr n | None \<Rightarrow> badRecord)"

definition validateMessageDirection :: "jsval \<Rightarrow> exn + direction" where
  "validateMessageDirection v = (if v = JStr ''inbound'' then Inr Inbound
     else if v = JStr ''outbound'' then Inr Outbound else badRecord)"

definition validateJsonText :: "jsval \<Rightarrow> exn + string" where
  "validateJsonText v = bindE (validateRecordString v) (\<lambda>s. if jsonValid s then Inr s else badRecord)"

subsection \<open>Record validators, in the order of \<open>sqlite.ts\<close>\<close>

definition validateWebhookEventRecord :: "jsval \<Rightarrow> exn + webhook_event" where
  "validateWebhookEventRecord input = bindE (validateRecordInput input) (\<lambda>r.
     bindE (validateRecordString (js_get r ''eventKey'')) (\<lambda>k.
     bindE (validateRecordString (js_get r ''eventHash'')) (\<lambda>h.
     bindE (validateTimestamp (js_get r ''receivedAt'')) (\<lambda>t.
     Inr \<lparr>eventKey = k, eventHash = h, receivedAt = t\<rparr>))))"

definition validateServiceRequestLookup :: "jsval \<Rightarrow> exn + sr_lookup" where
  "validateServiceRequestLookup input = bindE (validateRecordInput input) (\<lambda>r.
     bindE (validateRecordString (js_get r ''idempotencyKey'')) (\<lambda>k.
     bindE (validateRecordString (js_get r ''requestHash'')) (\<lambda>h.
     Inr \<lparr>srKey = k, srHash = h\<rparr>)))"

text \<open>\<open>validateServiceRequestRecord\<close> and \<open>validateServiceRequestCompletion\<close> have the same body.\<close>

definition validateServiceRequestRecord :: "jsval \<Rightarrow> exn + sr_completion" where
  "validateServiceRequestRecord input = bindE (validateRecordInput input) (\<lambda>r.
     bindE (validateJsonText (js_get r ''responseJson'')) (\<lambda>j.
     bindE (validateRecordString (js_get r ''idempotencyKey'')) (\<lambda>k.
     bindE (validateRecordString (js_get r ''requestHash'')) (\<lambda>h.
     bindE (validateTimestamp (js_get r ''createdAt'')) (\<lambda>t.
     Inr \<lparr>srKey = k, srHash = h, srCreatedAt = t, srResponseJson = j\<rparr>)))))"

definition validateServiceRequestCompletion :: "jsval \<Rightarrow> exn + sr_completion" where
  "validateServiceRequestCompletion input = validateServiceRequestRecord input"

definition validateServiceRequestClaim :: "jsval \<Rightarrow> exn + sr_claim" where
  "validateServiceRequestClaim input = bindE (validateRecordInput input) (\<lambda>r.
     bindE (validateRecordString (js_get r ''idempotencyKey'')) (\<lambda>k.
     bindE (validateRecordString (js_get r ''requestHash'')) (\<lambda>h.
     bindE (validateTimestamp (js_get r ''createdAt'')) (\<lambda>t.
     Inr \<lparr>srKey = k, srHash = h, srCreatedAt = t\<rparr>))))"

definition validateOutboxEnqueue :: "jsval \<Rightarrow> exn + ob_enqueue" where
  "validateOutboxEnqueue input = bindE (validateRecordInput input) (\<lambda>r.
     bindE (validateTimestamp (js_get r ''createdAt'')) (\<lambda>created.
     bindE (if js_get r ''nextAttemptAt'' = JUndef \<or> js_get r ''nextAttemptAt'' = JNull then Inr created
            else validateTimestamp (js_get r ''nextAttemptAt'')) (\<lambda>next.
     bindE (validateRecordString (js_get r ''id'')) (\<lambda>i.
     bindE (validatePayloadHash (js_get r ''payloadHash'')) (\<lambda>h.
     Inr \<lparr>eqId = i, eqPayloadHash = h, eqCreatedAt = created, eqNextAttemptAt = next\<rparr>)))))"

definition validateOutboxClaim :: "jsval \<Rightarrow> exn + ob_claim" where
  "validateOutboxClaim input = bindE (validateRecordInput input) (\<lambda>r.
     case intWithin 1 100 (js_get r ''limit'') of None \<Rightarrow> badRecord
     | Some l \<Rightarrow> bindE (validateTimestamp (js_get r ''now'')) (\<lambda>t. Inr \<lparr>clNow = t, clLimit = nat l\<rparr>))"

definition validateOutboxFailed :: "jsval \<Rightarrow> exn + ob_failure" where
  "validateOutboxFailed input = bindE (validateRecordInput input) (\<lambda>r.
     bindE (validateRecordString (js_get r ''id'')) (\<lambda>i.
     bindE (validateLeaseId (js_get r ''leaseId'')) (\<lambda>l.
     bindE (validateTimestamp (js_get r ''nextAttemptAt'')) (\<lambda>n.
     bindE (validateTimestamp (js_get r ''updatedAt'')) (\<lambda>u.
     Inr \<lparr>okId = i, okLeaseId = l, okUpdatedAt = u, flNextAttemptAt = n\<rparr>)))))"

definition validateOutboxSucceeded :: "jsval \<Rightarrow> exn + ob_success" where
  "validateOutboxSucceeded input = bindE (validateRecordInput input) (\<lambda>r.
     bindE (validateRecordString (js_get r ''id'')) (\<lambda>i.
     bindE (validateLeaseId (js_get r ''leaseId'')) (\<lambda>l.
     bindE (validateTimestamp (js_get r ''updatedAt'')) (\<lambda>u.
     Inr \<lparr>okId = i, okLeaseId = l, okUpdatedAt = u\<rparr>))))"

definition validateMessageRecord :: "jsval \<Rightarrow> exn + message_record" where
  "validateMessageRecord input = bindE (validateRecordInput input) (\<lambda>r.
     bindE (validateRecordString (js_get r ''rowId'')) (\<lambda>row.
     bindE (validateRecordString (js_get r ''waMessageId'')) (\<lambda>wa.
     bindE (validateMessageDirection (js_get r ''direction'')) (\<lambda>dir.
     bindE (validateOptionalRecordString (js_get r ''fromPhone'')) (\<lambda>from.
     bindE (validateOptionalRecordString (js_get r ''toPhone'')) (\<lambda>to.
     bindE (validateRecordString (js_get r ''type'')) (\<lambda>ty.
     bindE (validateRecordString (js_get r ''status'')) (\<lambda>st.
     bindE (validateOptionalRecordString (js_get r ''graphMessageId'')) (\<lambda>g.
     bindE (validateTimestamp (js_get r ''createdAt'')) (\<lambda>c.
     bindE (validateTimestamp (js_get r ''updatedAt'')) (\<lambda>u.
     Inr \<lparr>mrRowId = row, mrWaMessageId = wa, mrDirection = dir, mrFromPhone = from, mrToPhone = to,
       mrType = ty, mrStatus = st, mrGraphMessageId = g, mrCreatedAt = c, mrUpdatedAt = u\<rparr>)))))))))))"

definition validateMessageStatusEvent :: "jsval \<Rightarrow> exn + status_event" where
  "validateMessageStatusEvent input = bindE (validateRecordInput input) (\<lambda>r.
     bindE (validateRecordString (js_get r ''waMessageId'')) (\<lambda>wa.
     bindE (validateRecordString (js_get r ''status'')) (\<lambda>st.
     bindE (validateTimestamp (js_get r ''timestamp'')) (\<lambda>t.
     Inr \<lparr>seWaMessageId = wa, seStatus = st, seTimestamp = t\<rparr>))))"

definition validateListMessages :: "jsval \<Rightarrow> exn + list_query" where
  "validateListMessages input = bindE (validateRecordInput input) (\<lambda>r.
     case intWithin 1 100 (js_get r ''limit'') of None \<Rightarrow> badRecord
     | Some l \<Rightarrow> bindE (validateOptionalRecordString (js_get r ''beforeRowId'')) (\<lambda>b.
         Inr \<lparr>lqLimit = nat l, lqBeforeRowId = b\<rparr>))"

subsection \<open>Options of the SQLite adapter\<close>

definition lowerLetter :: "char \<Rightarrow> bool" where
  "lowerLetter c = (97 \<le> code_of c \<and> code_of c \<le> 122)"

definition tokenWords :: "string list" where
  "tokenWords = [''token'', ''secret'', ''passwd'', ''password'', ''bearer'', ''authorization'',
     ''accesstoken'', ''access_token'', ''access-token'']"

text \<open>A word of the list that stands alone: no lower-case letter before it or after it.\<close>

fun tokenFrom :: "bool \<Rightarrow> string \<Rightarrow> bool" where
  "tokenFrom boundary [] = False"
| "tokenFrom boundary (c # cs) =
     ((boundary \<and> list_ex (\<lambda>w. js_prefix w (c # cs) \<and>
          (case drop (length w) (c # cs) of [] \<Rightarrow> True | d # _ \<Rightarrow> \<not> lowerLetter d)) tokenWords)
      \<or> tokenFrom (\<not> lowerLetter c) cs)"

definition looksTokenLike :: "string \<Rightarrow> bool" where
  "looksTokenLike value = tokenFrom True (js_lower value)"

definition validateFilename :: "jsval \<Rightarrow> exn + string" where
  "validateFilename v = (case v of
     JStr s \<Rightarrow> (if s = '':memory:'' then Inr s
       else if js_trim s = [] \<or> length s > 4096 \<or> hasControlChars s then Inl (PersistenceError InvalidFilename)
       else if containsUnsafePathSegment v \<or> looksTokenLike s then Inl (PersistenceError InvalidFilename)
       else Inr s)
   | _ \<Rightarrow> Inl (PersistenceError InvalidFilename))"

definition validateOptions :: "jsval \<Rightarrow> exn + (string \<times> bool)" where
  "validateOptions options = (case isRecord options of
     None \<Rightarrow> Inl (PersistenceError InvalidOptions)
   | Some ps \<Rightarrow> bindE (validateFilename (js_get ps ''filename'')) (\<lambda>f.
       case js_get ps ''readonly'' of
         JUndef \<Rightarrow> Inr (f, False)
       | JBool b \<Rightarrow> Inr (f, b)
       | _ \<Rightarrow> Inl (PersistenceError InvalidOptions)))"

subsection \<open>The exceptions of the validators\<close>

text \<open>A validator throws a \<open>PersistenceError\<close>, or the \<open>RangeError\<close> of an impossible date.\<close>

definition typedExn :: "exn \<Rightarrow> bool" where
  "typedExn e = (case e of PersistenceError _ \<Rightarrow> True | RangeErr \<Rightarrow> True | _ \<Rightarrow> False)"

lemma typedExn_simps [simp]:
  "typedExn (PersistenceError c)" "typedExn RangeErr" "\<not> typedExn TypeErr" "\<not> typedExn SqlConstraint" "\<not> typedExn SqlFault"
  by (simp_all add: typedExn_def)

definition inputExn :: "exn \<Rightarrow> bool" where
  "inputExn e = (e = PersistenceError InvalidRecord \<or> e = RangeErr)"

lemma inputExn_simps [simp]: "inputExn (PersistenceError InvalidRecord)" "inputExn RangeErr"
  by (simp_all add: inputExn_def)

lemma inputExn_typed: "inputExn e \<Longrightarrow> typedExn e"
  by (auto simp: inputExn_def)

named_theorems input_Inl \<open>the exceptions of the record validators\<close>

lemma input_fields [input_Inl]:
  "validateRecordInput v = Inl e \<Longrightarrow> inputExn e"
  "validateRecordString v = Inl e \<Longrightarrow> inputExn e"
  by (auto simp: validateRecordInput_def validateRecordString_def badRecord_def
      split: option.splits jsval.splits if_splits)

lemma input_validateTimestamp [input_Inl]: "validateTimestamp v = Inl e \<Longrightarrow> inputExn e"
  by (auto simp: validateTimestamp_def normalizeIso_def badRecord_def res_iff
      split: option.splits if_splits dest: input_Inl)

lemma input_fields2 [input_Inl]:
  "validateOptionalRecordString v = Inl e \<Longrightarrow> inputExn e"
  "validatePayloadHash v = Inl e \<Longrightarrow> inputExn e"
  "validateLeaseId v = Inl e \<Longrightarrow> inputExn e"
  "validateMessageDirection v = Inl e \<Longrightarrow> inputExn e"
  "validateJsonText v = Inl e \<Longrightarrow> inputExn e"
  by (auto simp: validateOptionalRecordString_def validatePayloadHash_def validateLeaseId_def
      validateMessageDirection_def validateJsonText_def badRecord_def res_iff
      split: option.splits if_splits dest: input_Inl)

lemma input_records [input_Inl]:
  "validateWebhookEventRecord v = Inl e \<Longrightarrow> inputExn e"
  "validateServiceRequestLookup v = Inl e \<Longrightarrow> inputExn e"
  "validateServiceRequestRecord v = Inl e \<Longrightarrow> inputExn e"
  "validateServiceRequestClaim v = Inl e \<Longrightarrow> inputExn e"
  "validateOutboxEnqueue v = Inl e \<Longrightarrow> inputExn e"
  "validateOutboxClaim v = Inl e \<Longrightarrow> inputExn e"
  "validateOutboxFailed v = Inl e \<Longrightarrow> inputExn e"
  "validateOutboxSucceeded v = Inl e \<Longrightarrow> inputExn e"
  "validateMessageRecord v = Inl e \<Longrightarrow> inputExn e"
  "validateMessageStatusEvent v = Inl e \<Longrightarrow> inputExn e"
  "validateListMessages v = Inl e \<Longrightarrow> inputExn e"
  by (auto simp: validateWebhookEventRecord_def validateServiceRequestLookup_def
      validateServiceRequestRecord_def validateServiceRequestClaim_def validateOutboxEnqueue_def
      validateOutboxClaim_def validateOutboxFailed_def validateOutboxSucceeded_def
      validateMessageRecord_def validateMessageStatusEvent_def validateListMessages_def
      badRecord_def res_iff split: option.splits if_splits dest: input_Inl)

lemma input_completion [input_Inl]: "validateServiceRequestCompletion v = Inl e \<Longrightarrow> inputExn e"
  by (auto simp: validateServiceRequestCompletion_def dest: input_Inl)

lemmas typed_Inl = input_Inl [THEN inputExn_typed]

subsection \<open>What an accepted timestamp is\<close>

definition instantOf :: "string \<Rightarrow> int" where
  "instantOf s = (case dateParse s of Some t \<Rightarrow> t | None \<Rightarrow> 0)"

text \<open>The strings that denote an instant: exactly what \<open>toISOString\<close> prints with four-digit years.\<close>

definition isTimestamp :: "string \<Rightarrow> bool" where
  "isTimestamp s = (isoShape s \<and> normalizeIso s = Inr s)"

lemma list_all2_pattern_set:
  "list_all2 (\<lambda>p c. if p = z then Q c else c = p) ps cs \<Longrightarrow> c \<in> set cs \<Longrightarrow> Q c \<or> c \<in> set ps"
  by (induction rule: list_all2_induct) (auto split: if_splits)

lemma isoShape_chars: "isoShape s \<Longrightarrow> c \<in> set s \<Longrightarrow> \<not> isControl c \<and> \<not> js_space c"
proof -
  assume s: "isoShape s" and c: "c \<in> set s"
  have "is_digit c \<or> c \<in> set ''0000-00-00T00:00:00.000Z''"
    using s c unfolding isoShape_def by (rule list_all2_pattern_set)
  then show "\<not> isControl c \<and> \<not> js_space c"
    by (auto simp: is_digit_def isControl_def js_space_def code_of_def)
qed

lemma isoShape_safeString:
  assumes "isoShape s"
  shows "safeString s"
proof -
  have l: "length s = 24" using isoShape_first [OF assms] by simp
  have none: "\<not> js_space c" if "c \<in> set s" for c using isoShape_chars [OF assms that] by simp
  then have "dropWhile js_space t = t" if "set t \<subseteq> set s" for t
    using that by (cases t) auto
  then have "js_trim s = s" by (simp add: js_trim_def)
  moreover have "\<not> hasControlChars s" using isoShape_chars [OF assms] by (auto simp: hasControlChars_iff)
  ultimately show ?thesis using l by (auto simp: safeString_def)
qed

lemma validateRecordString_Inr [res_iff]:
  "validateRecordString v = Inr s \<longleftrightarrow> v = JStr s \<and> safeString s"
  by (auto simp: validateRecordString_def badRecord_def split: jsval.splits if_splits)

lemma validateTimestamp_Inr [res_iff]: "validateTimestamp v = Inr s \<longleftrightarrow> v = JStr s \<and> isTimestamp s"
  using isoShape_safeString
  by (auto simp: validateTimestamp_def isTimestamp_def badRecord_def res_iff split: if_splits)

lemma isTimestampD:
  assumes "isTimestamp s"
  shows "fourDigitYear (instantOf s)" "toISOString (instantOf s) = Some s" "dateParse s = Some (instantOf s)"
  using assms isoShape_fourDigitYear
  by (auto simp: isTimestamp_def normalizeIso_def instantOf_def split: option.splits)

lemma isTimestamp_iff: "isTimestamp s \<longleftrightarrow> (\<exists>t. fourDigitYear t \<and> toISOString t = Some s)"
proof
  show "isTimestamp s \<Longrightarrow> \<exists>t. fourDigitYear t \<and> toISOString t = Some s"
    using isTimestampD by blast
next
  assume "\<exists>t. fourDigitYear t \<and> toISOString t = Some s"
  then obtain t where t: "fourDigitYear t" "toISOString t = Some s" by blast
  from toISOString_dateParse [OF this] have p: "dateParse s = Some t" .
  then have "isoShape s" by (simp add: dateParse_def split: if_splits)
  with p t show "isTimestamp s" by (simp add: isTimestamp_def normalizeIso_def)
qed

lemma isTimestamp_less_iff:
  "isTimestamp s \<Longrightarrow> isTimestamp r \<Longrightarrow> s < r \<longleftrightarrow> instantOf s < instantOf r"
  using toISOString_less_iff isTimestampD by blast

lemma isTimestamp_le_iff:
  "isTimestamp s \<Longrightarrow> isTimestamp r \<Longrightarrow> s \<le> r \<longleftrightarrow> instantOf s \<le> instantOf r"
  by (metis isTimestamp_less_iff linorder_not_le)

subsection \<open>A sample time\<close>

definition sampleNow :: string where
  "sampleNow = ''2024-01-02T03:04:05.678Z''"

lemma sampleNow_isTimestamp: "isTimestamp sampleNow"
  by code_simp

lemma sampleNow_valid [simp]: "validateTimestamp (JStr sampleNow) = Inr sampleNow"
  using sampleNow_isTimestamp validateTimestamp_Inr by blast

end
