(* ===== verification/Sqlite_Store.thy ===== *)
theory Sqlite_Store
  imports Persistence_Types
begin

section \<open>The SQLite store: its tables, its statements and its migrations\<close>

text \<open>
  \<open>packages/persistence/src/sqlite.ts\<close>.  The database file is a record of tables, each a list of rows
  in insertion order (rowid order), and the schema objects that exist.  A store is a connection: the
  database, the snapshot \<open>BEGIN IMMEDIATE\<close> took, whether \<open>close\<close> was called, and a script of
  faults.  Every SQL statement pops one entry of the script: \<open>True\<close> makes it raise an error of the
  backend (disk, busy, corruption) with no effect, so a theorem for all scripts holds whichever
  statements fail.  A statement on a table or column that does not exist raises such an error too.
  This theory holds the statements' common part, transactions, \<open>migrate\<close>, \<open>health\<close> and \<open>close\<close>;
  the operations on the tables are in the theories that import it.
\<close>

subsection \<open>Tables\<close>

datatype sr_status = Claimed | Completed

record sr_row =
  rqKey :: string
  rqHash :: string
  rqResponse :: "string option"
  rqCreatedAt :: string
  rqStatus :: sr_status
  rqClaimedAt :: "string option"

datatype ob_status = Pending | Processing | Succeeded

record ob_row =
  obId :: string
  obStatus :: ob_status
  obAttempts :: nat
  obLeaseId :: int
  obNextAttemptAt :: "string option"
  obPayloadHash :: string
  obCreatedAt :: string
  obUpdatedAt :: string

record migration_row = mgId :: string  mgVersion :: nat  mgChecksum :: string  mgAppliedAt :: string

text \<open>Tables and the columns added later; the two unique indexes are flags of the database, an index
  that only speeds up a query is not a state.\<close>

datatype obj = MigrationsT | LockT | EventsT | RequestsT | RequestStatusC | OutboxT | OutboxLeaseC
  | MessagesT | StatusEventsT

record tables =
  schema :: "obj list"
  migrationRows :: "migration_row list"
  lockHolder :: "string option"
  events :: "webhook_event list"
  requests :: "sr_row list"
  requestsNew :: "sr_row list option"
  outbox :: "ob_row list"
  messages :: "message_record list"
  statusEvents :: "status_event list"
  uniqueMessages :: bool
  uniqueStatusEvents :: bool

definition emptyTables :: tables where
  "emptyTables = \<lparr>schema = [], migrationRows = [], lockHolder = None, events = [], requests = [],
     requestsNew = None, outbox = [], messages = [], statusEvents = [],
     uniqueMessages = False, uniqueStatusEvents = False\<rparr>"

record store =
  db :: tables
  snapshot :: "tables option"
  faults :: "bool list"
  closed :: bool

type_synonym 'a sqlAct = "(store, exn, 'a) act"

definition openStore :: "tables \<Rightarrow> bool list \<Rightarrow> store" where
  "openStore t fs = \<lparr>db = t, snapshot = None, faults = fs, closed = False\<rparr>"

subsection \<open>Statements and transactions\<close>

definition needs :: "obj list \<Rightarrow> (tables \<Rightarrow> (exn + 'a) \<times> tables) \<Rightarrow> tables \<Rightarrow> (exn + 'a) \<times> tables" where
  "needs os f t = (if list_all (\<lambda>x. x \<in> set (schema t)) os then f t else (Inl SqlFault, t))"

definition sql :: "(tables \<Rightarrow> (exn + 'a) \<times> tables) \<Rightarrow> 'a sqlAct" where
  "sql f s = (if faults s \<noteq> [] \<and> hd (faults s) then (Inl SqlFault, s\<lparr>faults := tl (faults s)\<rparr>)
     else (fst (f (db s)), s\<lparr>faults := tl (faults s), db := snd (f (db s))\<rparr>))"

definition readOnly :: "(tables \<Rightarrow> 'a) \<Rightarrow> tables \<Rightarrow> (exn + 'a) \<times> tables" where
  "readOnly f t = (Inr (f t), t)"

definition pragma :: "unit sqlAct" where
  "pragma = sql (readOnly (\<lambda>_. ()))"

definition beginImmediate :: "unit sqlAct" where
  "beginImmediate s = (case snapshot s of
     Some _ \<Rightarrow> (Inl SqlFault, s\<lparr>faults := tl (faults s)\<rparr>)
   | None \<Rightarrow> (if faults s \<noteq> [] \<and> hd (faults s) then (Inl SqlFault, s\<lparr>faults := tl (faults s)\<rparr>)
       else (Inr (), s\<lparr>faults := tl (faults s), snapshot := Some (db s)\<rparr>)))"

definition commit :: "unit sqlAct" where
  "commit s = (case snapshot s of
     None \<Rightarrow> (Inl SqlFault, s\<lparr>faults := tl (faults s)\<rparr>)
   | Some _ \<Rightarrow> (if faults s \<noteq> [] \<and> hd (faults s) then (Inl SqlFault, s\<lparr>faults := tl (faults s)\<rparr>)
       else (Inr (), s\<lparr>faults := tl (faults s), snapshot := None\<rparr>)))"

definition rollback :: "unit sqlAct" where
  "rollback s = (case snapshot s of
     None \<Rightarrow> (Inl SqlFault, s\<lparr>faults := tl (faults s)\<rparr>)
   | Some t \<Rightarrow> (if faults s \<noteq> [] \<and> hd (faults s) then (Inl SqlFault, s\<lparr>faults := tl (faults s)\<rparr>)
       else (Inr (), s\<lparr>faults := tl (faults s), db := t, snapshot := None\<rparr>)))"

definition assertOpen :: "unit sqlAct" where
  "assertOpen s = (if closed s then (Inl (PersistenceError StoreClosed), s) else (Inr (), s))"

text \<open>\<open>try { \<dots> } catch { ROLLBACK; throw \<dots> }\<close> after a \<open>BEGIN IMMEDIATE\<close>.\<close>

definition inTransaction :: "perr \<Rightarrow> 'a sqlAct \<Rightarrow> 'a sqlAct" where
  "inTransaction code body = bindA beginImmediate (\<lambda>_.
     tryA (bindA body (\<lambda>a. bindA commit (\<lambda>_. retA a)))
       (\<lambda>_. bindA rollback (\<lambda>_. failA (PersistenceError code))))"

definition asError :: "perr \<Rightarrow> 'a sqlAct \<Rightarrow> 'a sqlAct" where
  "asError code body = tryA body (\<lambda>_. failA (PersistenceError code))"

definition finallyA :: "'a sqlAct \<Rightarrow> unit sqlAct \<Rightarrow> 'a sqlAct" where
  "finallyA body fin s = (case body s of (r, s') \<Rightarrow> (case fin s' of
     (Inl e, s'') \<Rightarrow> (Inl e, s'') | (Inr _, s'') \<Rightarrow> (r, s'')))"

definition close :: "unit sqlAct" where
  "close s = (if closed s then (Inr (), s) else (Inr (), s\<lparr>closed := True\<rparr>))"

subsection \<open>Migrations\<close>

datatype ddl = CreateTable obj | AddColumn obj | CreateIndex | CreateRequestsNew | CopyRequests
  | DropRequests | RenameRequests | DedupStatusEvents | DedupMessages | UniqueMessages
  | UniqueStatusEvents

text \<open>The rank of the \<open>CASE status\<close> of migration 006, not that of \<open>STATUS_RANK\<close>.\<close>

definition migrationRank :: "string \<Rightarrow> nat" where
  "migrationRank st = (if st = ''read'' then 4 else if st = ''delivered'' then 3
     else if st = ''sent'' then 2 else if st = ''pending'' then 1 else 0)"

text \<open>\<open>ROW_NUMBER() OVER (PARTITION BY direction, wa_message_id ORDER BY rank DESC, row_id ASC)\<close>
  deletes every row another row of its partition precedes.\<close>

definition beats :: "message_record \<Rightarrow> message_record \<Rightarrow> bool" where
  "beats a b = (mrDirection a = mrDirection b \<and> mrWaMessageId a = mrWaMessageId b \<and>
     (migrationRank (mrStatus b) < migrationRank (mrStatus a) \<or>
      migrationRank (mrStatus b) = migrationRank (mrStatus a) \<and> mrRowId a < mrRowId b))"

definition dedupMessages :: "message_record list \<Rightarrow> message_record list" where
  "dedupMessages ms = filter (\<lambda>m. \<not> list_ex (\<lambda>a. beats a m) ms) ms"

fun dedupStatusEvents :: "status_event list \<Rightarrow> status_event list" where
  "dedupStatusEvents [] = []"
| "dedupStatusEvents (e # es) = e # filter (\<lambda>x. x \<noteq> e) (dedupStatusEvents es)"

definition messageKey :: "message_record \<Rightarrow> direction \<times> string" where
  "messageKey m = (mrDirection m, mrWaMessageId m)"

definition addObj :: "obj \<Rightarrow> tables \<Rightarrow> tables" where
  "addObj ob t = t\<lparr>schema := List.insert ob (schema t)\<rparr>"

fun runDdl :: "ddl \<Rightarrow> tables \<Rightarrow> (exn + unit) \<times> tables" where
  "runDdl (CreateTable ob) t = (Inr (), addObj ob t)"
| "runDdl (AddColumn ob) t = needs [OutboxT] (\<lambda>t.
     if ob \<in> set (schema t) then (Inl SqlFault, t) else (Inr (), addObj ob t)) t"
| "runDdl CreateIndex t = needs [MessagesT, StatusEventsT] (readOnly (\<lambda>_. ())) t"
| "runDdl CreateRequestsNew t = (case requestsNew t of Some _ \<Rightarrow> (Inl SqlFault, t)
     | None \<Rightarrow> (Inr (), t\<lparr>requestsNew := Some []\<rparr>))"
| "runDdl CopyRequests t = needs [RequestsT] (\<lambda>t. case requestsNew t of None \<Rightarrow> (Inl SqlFault, t)
     | Some rs \<Rightarrow> (if distinct (map rqKey (rs @ requests t))
         then (Inr (), t\<lparr>requestsNew := Some (rs @
           map (\<lambda>r. r\<lparr>rqStatus := Completed, rqClaimedAt := None\<rparr>) (requests t))\<rparr>)
         else (Inl SqlConstraint, t))) t"
| "runDdl DropRequests t = needs [RequestsT] (\<lambda>t. (Inr (), t\<lparr>requests := [],
     schema := filter (\<lambda>x. x \<noteq> RequestsT \<and> x \<noteq> RequestStatusC) (schema t)\<rparr>)) t"
| "runDdl RenameRequests t = (case requestsNew t of
     Some rs \<Rightarrow> (if RequestsT \<in> set (schema t) then (Inl SqlFault, t)
       else (Inr (), addObj RequestStatusC (addObj RequestsT (t\<lparr>requests := rs, requestsNew := None\<rparr>))))
   | None \<Rightarrow> (Inl SqlFault, t))"
| "runDdl DedupStatusEvents t = needs [StatusEventsT] (\<lambda>t.
     (Inr (), t\<lparr>statusEvents := dedupStatusEvents (statusEvents t)\<rparr>)) t"
| "runDdl DedupMessages t = needs [MessagesT] (\<lambda>t.
     (Inr (), t\<lparr>messages := dedupMessages (messages t)\<rparr>)) t"
| "runDdl UniqueMessages t = needs [MessagesT] (\<lambda>t.
     if uniqueMessages t then (Inr (), t)
     else if distinct (map messageKey (messages t)) then (Inr (), t\<lparr>uniqueMessages := True\<rparr>)
     else (Inl SqlConstraint, t)) t"
| "runDdl UniqueStatusEvents t = needs [StatusEventsT] (\<lambda>t.
     if uniqueStatusEvents t then (Inr (), t)
     else if distinct (statusEvents t) then (Inr (), t\<lparr>uniqueStatusEvents := True\<rparr>)
     else (Inl SqlConstraint, t)) t"

record migration = migId :: string  migVersion :: nat  migChecksum :: string  migStatements :: "ddl list"

definition migrations :: "migration list" where
  "migrations = [
    \<lparr>migId = ''001_initial'', migVersion = 1, migChecksum = ''sha256:wats-persistence-001-initial-v1'',
     migStatements = [CreateTable MigrationsT, CreateTable LockT, CreateTable EventsT,
       CreateTable RequestsT, CreateTable OutboxT]\<rparr>,
    \<lparr>migId = ''002_outbox_lease_id'', migVersion = 2,
     migChecksum = ''sha256:wats-persistence-002-outbox-lease-id-v1'',
     migStatements = [AddColumn OutboxLeaseC]\<rparr>,
    \<lparr>migId = ''003_message_projection'', migVersion = 3,
     migChecksum = ''sha256:wats-persistence-003-message-projection-v1'',
     migStatements = [CreateTable MessagesT, CreateTable StatusEventsT]\<rparr>,
    \<lparr>migId = ''004_inbound_window_index'', migVersion = 4,
     migChecksum = ''sha256:wats-persistence-004-inbound-window-index-v1'',
     migStatements = [CreateIndex]\<rparr>,
    \<lparr>migId = ''005_service_request_claims'', migVersion = 5,
     migChecksum = ''sha256:wats-persistence-005-service-request-claims-v1'',
     migStatements = [CreateRequestsNew, CopyRequests, DropRequests, RenameRequests]\<rparr>,
    \<lparr>migId = ''006_message_uniqueness'', migVersion = 6,
     migChecksum = ''sha256:wats-persistence-006-message-uniqueness-v1'',
     migStatements = [DedupStatusEvents, DedupMessages, UniqueMessages, UniqueStatusEvents]\<rparr>]"

definition migrationById :: "string \<Rightarrow> migration option" where
  "migrationById i = find (\<lambda>m. migId m = i) migrations"

definition acquireLock :: "string \<Rightarrow> unit sqlAct" where
  "acquireLock holder = asError MigrationLockFailed (sql (needs [LockT] (\<lambda>t.
     case lockHolder t of Some _ \<Rightarrow> (Inl SqlConstraint, t)
     | None \<Rightarrow> (Inr (), t\<lparr>lockHolder := Some holder\<rparr>))))"

definition releaseLock :: "string \<Rightarrow> unit sqlAct" where
  "releaseLock holder = tryA (sql (needs [LockT] (\<lambda>t.
     (Inr (), if lockHolder t = Some holder then t\<lparr>lockHolder := None\<rparr> else t)))) (\<lambda>_. retA ())"

definition migrationRow :: "string \<Rightarrow> migration_row option sqlAct" where
  "migrationRow i = sql (needs [MigrationsT] (readOnly (\<lambda>t. find (\<lambda>r. mgId r = i) (migrationRows t))))"

definition rowMatches :: "migration_row \<Rightarrow> bool" where
  "rowMatches r = (case migrationById (mgId r) of None \<Rightarrow> False
     | Some m \<Rightarrow> migChecksum m = mgChecksum r \<and> migVersion m = mgVersion r)"

definition validateAppliedChecksums :: "unit sqlAct" where
  "validateAppliedChecksums = bindA (sql (needs [MigrationsT] (readOnly migrationRows))) (\<lambda>rows.
     if list_all rowMatches rows then retA () else failA (PersistenceError MigrationChecksumMismatch))"

definition insertMigration :: "string \<Rightarrow> migration \<Rightarrow> unit sqlAct" where
  "insertMigration now m = sql (needs [MigrationsT] (\<lambda>t.
     if list_ex (\<lambda>r. mgId r = migId m) (migrationRows t) then (Inl SqlConstraint, t)
     else (Inr (), t\<lparr>migrationRows := migrationRows t @
       [\<lparr>mgId = migId m, mgVersion = migVersion m, mgChecksum = migChecksum m, mgAppliedAt = now\<rparr>]\<rparr>)))"

definition applyMigration :: "string \<Rightarrow> migration \<Rightarrow> unit sqlAct" where
  "applyMigration now m = inTransaction MigrationFailed (bindA
     (forA (migStatements m) (\<lambda>d. sql (runDdl d))) (\<lambda>_. insertMigration now m))"

text \<open>The loop over \<open>MIGRATIONS\<close>; the result lists the ids it applied.\<close>

fun applyMissing :: "string \<Rightarrow> migration list \<Rightarrow> string list sqlAct" where
  "applyMissing now [] = retA []"
| "applyMissing now (m # ms) = bindA (migrationRow (migId m)) (\<lambda>row.
     if row \<noteq> None then applyMissing now ms
     else bindA (applyMigration now m) (\<lambda>_. bindA (applyMissing now ms) (\<lambda>ids. retA (migId m # ids))))"

record migration_report = currentVersion :: nat  appliedMigrations :: "string list"  alreadyCurrent :: bool

definition currentSchemaVersion :: nat where
  "currentSchemaVersion = 6"

text \<open>\<open>now\<close> is \<open>nowIso()\<close> and \<open>holder\<close> the random lock holder.\<close>

definition migrate :: "string \<Rightarrow> string \<Rightarrow> migration_report sqlAct" where
  "migrate now holder = bindA assertOpen (\<lambda>_. bindA pragma (\<lambda>_. bindA pragma (\<lambda>_. bindA pragma (\<lambda>_.
     bindA (sql (runDdl (CreateTable LockT))) (\<lambda>_. bindA (sql (runDdl (CreateTable MigrationsT))) (\<lambda>_.
     finallyA
       (bindA (acquireLock holder) (\<lambda>_. bindA validateAppliedChecksums (\<lambda>_.
        bindA (applyMissing now migrations) (\<lambda>applied.
        retA \<lparr>currentVersion = currentSchemaVersion, appliedMigrations = applied,
          alreadyCurrent = (applied = [])\<rparr>))))
       (releaseLock holder)))))))"

definition health :: "nat sqlAct" where
  "health = bindA assertOpen (\<lambda>_. sql (needs [MigrationsT] (readOnly (\<lambda>t.
     foldr max (map mgVersion (migrationRows t)) 0))))"

lemmas store_ops = sql_def needs_def readOnly_def pragma_def beginImmediate_def commit_def rollback_def
  assertOpen_def inTransaction_def asError_def finallyA_def close_def
declare store_ops [run_simps]

subsection \<open>The invariant of the database\<close>

text \<open>
  What the schema's keys and the code's statements keep in every reachable database: primary keys
  are unique, the unique indexes of migration 006 hold once they exist, a reserved request has no
  response, an outbox row has a next attempt only while it is pending and its lease number never
  exceeds its attempts, and every stored time is a timestamp that \<open>toISOString\<close> prints.
\<close>

definition requestInv :: "sr_row \<Rightarrow> bool" where
  "requestInv r = (rqStatus r = Claimed \<longrightarrow> rqResponse r = None)"

definition outboxInv :: "ob_row \<Rightarrow> bool" where
  "outboxInv r = (safeString (obId r) \<and> (obStatus r \<noteq> Pending \<longrightarrow> obNextAttemptAt r = None) \<and>
     0 \<le> obLeaseId r \<and> obLeaseId r \<le> int (obAttempts r) \<and>
     isTimestamp (obCreatedAt r) \<and> isTimestamp (obUpdatedAt r) \<and>
     (\<forall>n. obNextAttemptAt r = Some n \<longrightarrow> isTimestamp n))"

definition messageInv :: "message_record \<Rightarrow> bool" where
  "messageInv m = (safeString (mrRowId m) \<and> isTimestamp (mrCreatedAt m) \<and> isTimestamp (mrUpdatedAt m))"

definition dbInv :: "tables \<Rightarrow> bool" where
  "dbInv t = (
     distinct (map eventKey (events t)) \<and>
     distinct (map mgId (migrationRows t)) \<and>
     (distinct (map rqKey (requests t)) \<and> list_all requestInv (requests t)) \<and>
     (\<forall>rs. requestsNew t = Some rs \<longrightarrow> distinct (map rqKey rs) \<and> list_all requestInv rs) \<and>
     (distinct (map obId (outbox t)) \<and> list_all outboxInv (outbox t)) \<and>
     (distinct (map mrRowId (messages t)) \<and> list_all messageInv (messages t)) \<and>
     (uniqueMessages t \<longrightarrow> distinct (map messageKey (messages t))) \<and>
     (uniqueStatusEvents t \<longrightarrow> distinct (statusEvents t)) \<and>
     list_all (\<lambda>e. isTimestamp (seTimestamp e)) (statusEvents t))"

definition storeInv :: "store \<Rightarrow> bool" where
  "storeInv s = (dbInv (db s) \<and> (\<forall>t. snapshot s = Some t \<longrightarrow> dbInv t))"

text \<open>A statement that keeps the invariant.\<close>

definition keepsInv :: "(tables \<Rightarrow> (exn + 'a) \<times> tables) \<Rightarrow> bool" where
  "keepsInv f = (\<forall>t. dbInv t \<longrightarrow> dbInv (snd (f t)))"

lemma keepsInv_readOnly [keeps]: "keepsInv (readOnly f)"
  by (simp add: keepsInv_def readOnly_def)

lemma keepsInv_needs [keeps]: "keepsInv f \<Longrightarrow> keepsInv (needs os f)"
  by (simp add: keepsInv_def needs_def)

lemma holdsA_sql [keeps]: "keepsInv f \<Longrightarrow> holdsA storeInv (sql f) storeInv"
  by (simp add: holdsA_def keepsInv_def sql_def storeInv_def)

lemma holdsA_pragma [keeps]: "holdsA storeInv pragma storeInv"
  unfolding pragma_def by (intro keeps)

lemma holdsA_beginImmediate [keeps]: "holdsA storeInv beginImmediate storeInv"
  by (simp add: holdsA_def beginImmediate_def storeInv_def split: option.split)

lemma holdsA_commit [keeps]: "holdsA storeInv commit storeInv"
  by (simp add: holdsA_def commit_def storeInv_def split: option.split)

lemma holdsA_rollback [keeps]: "holdsA storeInv rollback storeInv"
  by (simp add: holdsA_def rollback_def storeInv_def split: option.split)

lemma holdsA_assertOpen [keeps]: "holdsA storeInv assertOpen storeInv"
  by (simp add: holdsA_def assertOpen_def)

lemma holdsA_close [keeps]: "holdsA storeInv close storeInv"
  by (simp add: holdsA_def close_def storeInv_def)

lemma holdsA_asError [keeps]: "holdsA I m I \<Longrightarrow> holdsA I (asError c m) I"
  unfolding asError_def by (intro keeps_rules)

lemma holdsA_inTransaction [keeps]: "holdsA storeInv m storeInv \<Longrightarrow> holdsA storeInv (inTransaction c m) storeInv"
  unfolding inTransaction_def by (intro keeps keeps_rules)

lemma holdsA_finallyA [keeps]: "holdsA I m I \<Longrightarrow> holdsA I f I \<Longrightarrow> holdsA I (finallyA m f) I"
  by (auto simp: holdsA_def finallyA_def split: prod.split sum.split)

subsection \<open>Migrations keep the invariant\<close>

lemma set_dedupStatusEvents [simp]: "set (dedupStatusEvents es) = set es"
  by (induction es) auto

lemma distinct_dedupStatusEvents [simp]: "distinct (dedupStatusEvents es)"
  by (induction es) auto

text \<open>Of two rows with one key, one precedes the other: no two survive, and a best one does.\<close>

lemma beats_total: "messageKey a = messageKey b \<Longrightarrow> mrRowId a \<noteq> mrRowId b \<Longrightarrow> beats a b \<or> beats b a"
  by (auto simp: beats_def messageKey_def)

lemma beats_trans: "beats a b \<Longrightarrow> beats b c \<Longrightarrow> beats a c"
  by (auto simp: beats_def)

lemma beats_irrefl: "\<not> beats a a"
  by (simp add: beats_def)

lemma dedupMessages_distinct:
  assumes "distinct (map mrRowId ms)"
  shows "distinct (map messageKey (dedupMessages ms))"
proof -
  have "inj_on messageKey (set (dedupMessages ms))"
  proof (rule inj_onI)
    fix a b assume ab: "a \<in> set (dedupMessages ms)" "b \<in> set (dedupMessages ms)"
      "messageKey a = messageKey b"
    then have "a \<in> set ms" "b \<in> set ms" "\<not> beats a b" "\<not> beats b a"
      by (auto simp: dedupMessages_def list_ex_iff)
    with ab beats_total [of a b] assms show "a = b"
      by (metis distinct_map_filter_eq)
  qed
  moreover have "distinct (dedupMessages ms)"
    using assms by (simp add: dedupMessages_def distinct_map)
  ultimately show ?thesis by (simp add: distinct_map)
qed

lemma dedupMessages_best:
  assumes "m \<in> set ms"
  shows "\<exists>a \<in> set (dedupMessages ms). messageKey a = messageKey m \<and> (a = m \<or> beats a m)"
proof -
  have "finite {a \<in> set ms. beats a m}" by simp
  from assms this show ?thesis
  proof (induction "card {a \<in> set ms. beats a m}" arbitrary: m rule: less_induct)
    case less
    show ?case
    proof (cases "m \<in> set (dedupMessages ms)")
      case True then show ?thesis by auto
    next
      case False
      then obtain a where a: "a \<in> set ms" "beats a m" using less.prems
        by (auto simp: dedupMessages_def list_ex_iff)
      have "{x \<in> set ms. beats x a} \<subset> {x \<in> set ms. beats x m}"
        using a beats_trans [of _ a m] beats_irrefl [of a] by blast
      then have "card {x \<in> set ms. beats x a} < card {x \<in> set ms. beats x m}"
        by (simp add: psubset_card_mono)
      from less.hyps [OF this a(1)] obtain b where
        b: "b \<in> set (dedupMessages ms)" "messageKey b = messageKey a" "b = a \<or> beats b a" by auto
      with a have "messageKey b = messageKey m" "beats b m"
        using beats_trans [of b a m] by (auto simp: beats_def messageKey_def)
      with b show ?thesis by blast
    qed
  qed
qed

lemma keepsInv_DedupMessages: "keepsInv (runDdl DedupMessages)"
proof -
  have "distinct (map mrRowId (dedupMessages ms))" if "distinct (map mrRowId ms)" for ms
    using that by (simp add: dedupMessages_def distinct_map_filter)
  moreover have "list_all P (dedupMessages ms)" if "list_all P ms" for P ms
    using that by (simp add: dedupMessages_def list_all_iff)
  ultimately show ?thesis
    by (simp add: keepsInv_def needs_def dbInv_def dedupMessages_distinct)
qed

lemma keepsInv_runDdl [keeps]: "keepsInv (runDdl d)"
proof (cases d)
  case CopyRequests
  have "list_all requestInv (map (\<lambda>r. r\<lparr>rqStatus := Completed, rqClaimedAt := None\<rparr>) rs)" for rs
    by (simp add: list_all_iff requestInv_def)
  with CopyRequests show ?thesis
    by (simp add: keepsInv_def needs_def dbInv_def comp_def split: option.split)
next
  case DedupMessages
  then show ?thesis by (simp only: keepsInv_DedupMessages)
qed (simp_all add: keepsInv_def needs_def readOnly_def dbInv_def addObj_def list_all_iff split: option.split)

lemma keepsInv_insertMigration: "holdsA storeInv (insertMigration now m) storeInv"
  unfolding insertMigration_def
  by (intro keeps) (auto simp: keepsInv_def dbInv_def list_ex_iff)

lemma holdsA_applyMigration: "holdsA storeInv (applyMigration now m) storeInv"
  unfolding applyMigration_def by (intro keeps keeps_rules keepsInv_insertMigration)

lemma holdsA_applyMissing: "holdsA storeInv (applyMissing now ms) storeInv"
proof (induction ms)
  case (Cons m ms)
  have "holdsA storeInv (migrationRow (migId m)) storeInv"
    unfolding migrationRow_def by (intro keeps)
  then show ?case
    unfolding applyMissing.simps by (intro keeps_rules Cons holdsA_applyMigration)
qed (simp only: applyMissing.simps holdsA_retA)

lemma holdsA_acquireLock: "holdsA storeInv (acquireLock h) storeInv"
  unfolding acquireLock_def by (intro keeps) (simp add: keepsInv_def dbInv_def split: option.split)

lemma holdsA_releaseLock: "holdsA storeInv (releaseLock h) storeInv"
  unfolding releaseLock_def by (intro keeps keeps_rules) (simp add: keepsInv_def dbInv_def)

lemma holdsA_validateAppliedChecksums: "holdsA storeInv validateAppliedChecksums storeInv"
  unfolding validateAppliedChecksums_def by (intro keeps keeps_rules)

lemma holdsA_migrate [keeps]: "holdsA storeInv (migrate now holder) storeInv"
  unfolding migrate_def
  by (intro keeps keeps_rules holdsA_acquireLock holdsA_validateAppliedChecksums
      holdsA_applyMissing holdsA_releaseLock)

lemma holdsA_health [keeps]: "holdsA storeInv health storeInv"
  unfolding health_def by (intro keeps keeps_rules)

lemma storeInv_openStore: "dbInv t \<Longrightarrow> storeInv (openStore t fs)"
  by (simp add: storeInv_def openStore_def)

lemma dbInv_emptyTables: "dbInv emptyTables"
  by (simp add: dbInv_def emptyTables_def)

subsection \<open>Transactions are all or nothing\<close>

definition keepsSnapshot :: "'a sqlAct \<Rightarrow> bool" where
  "keepsSnapshot m = (\<forall>s. snapshot (snd (m s)) = snapshot s)"

named_theorems plain \<open>actions that neither open nor close a transaction\<close>

lemma keepsSnapshot_sql [plain]: "keepsSnapshot (sql f)"
  by (simp add: keepsSnapshot_def sql_def)

lemma keepsSnapshot_retA [plain]: "keepsSnapshot (retA a)" "keepsSnapshot (failA e)"
  by (simp_all add: keepsSnapshot_def)

lemma keepsSnapshot_bindA [plain]:
  "keepsSnapshot m \<Longrightarrow> (\<And>a. keepsSnapshot (f a)) \<Longrightarrow> keepsSnapshot (bindA m f)"
  by (auto simp: keepsSnapshot_def bindA_def split: prod.split sum.split) (metis snd_conv)+

lemma keepsSnapshot_if [plain]: "keepsSnapshot m \<Longrightarrow> keepsSnapshot n \<Longrightarrow> keepsSnapshot (if b then m else n)"
  by simp

lemma keepsSnapshot_option [plain]:
  "keepsSnapshot m \<Longrightarrow> (\<And>x. keepsSnapshot (f x)) \<Longrightarrow> keepsSnapshot (case c of None \<Rightarrow> m | Some x \<Rightarrow> f x)"
  by (cases c) simp_all

lemma keepsSnapshot_forA [plain]: "(\<And>x. keepsSnapshot (f x)) \<Longrightarrow> keepsSnapshot (forA xs f)"
  by (induction xs) (simp_all only: forA.simps plain)

text \<open>
  What a transaction leaves behind under any script of faults: its body's effect when it commits,
  the database it began with when it reports its error, and, when the \<open>ROLLBACK\<close> itself fails, an open
  transaction whose snapshot is that database.
\<close>

lemma rollback_cases:
  assumes "snapshot x = Some t" "bindA rollback (\<lambda>_. failA e) x = (r, s')"
  shows "r = Inl e \<and> db s' = t \<and> snapshot s' = None \<or> r = Inl SqlFault \<and> snapshot s' = Some t"
  using assms by (auto simp: bindA_def rollback_def split: if_splits)

lemma inTransaction_cases:
  assumes plain: "keepsSnapshot m" and s: "snapshot s = None" and r: "inTransaction c m s = (r, s')"
  shows "case r of
     Inr a \<Rightarrow> snapshot s' = None \<and> (\<exists>s1 s2. db s1 = db s \<and> m s1 = (Inr a, s2) \<and> db s' = db s2)
   | Inl e \<Rightarrow> (e = PersistenceError c \<and> db s' = db s \<and> snapshot s' = None) \<or>
       (e = SqlFault \<and> (db s' = db s \<and> snapshot s' = None \<or> snapshot s' = Some (db s)))"
proof (cases "faults s \<noteq> [] \<and> hd (faults s)")
  case True
  then have "inTransaction c m s = (Inl SqlFault, s\<lparr>faults := tl (faults s)\<rparr>)"
    by (simp add: inTransaction_def bindA_def beginImmediate_def s)
  with r s show ?thesis by auto
next
  case False
  define s1 where "s1 = s\<lparr>faults := tl (faults s), snapshot := Some (db s)\<rparr>"
  obtain q s2 where q: "m s1 = (q, s2)" by (cases "m s1")
  with plain have sn: "snapshot s2 = Some (db s)" unfolding keepsSnapshot_def
    by (metis s1_def snd_conv store.select_convs(2) store.surjective store.update_convs(2))
  have b: "beginImmediate s = (Inr (), s1)"
    using False by (simp add: beginImmediate_def s s1_def)
  have c: "commit s2 = (if faults s2 \<noteq> [] \<and> hd (faults s2) then (Inl SqlFault, s2\<lparr>faults := tl (faults s2)\<rparr>)
      else (Inr (), s2\<lparr>faults := tl (faults s2), snapshot := None\<rparr>))"
    by (simp add: commit_def sn)
  have d1: "db s1 = db s" by (simp add: s1_def)
  show ?thesis
  proof (cases q)
    case (Inl e)
    then have "inTransaction c m s = bindA rollback (\<lambda>_. failA (PersistenceError c)) s2"
      by (simp add: inTransaction_def bindA_def tryA_def b q)
    with r have "bindA rollback (\<lambda>_. failA (PersistenceError c)) s2 = (r, s')" by simp
    from rollback_cases [OF sn this] show ?thesis by auto
  next
    case (Inr a)
    show ?thesis
    proof (cases "faults s2 \<noteq> [] \<and> hd (faults s2)")
      case True
      then have "inTransaction c m s =
          bindA rollback (\<lambda>_. failA (PersistenceError c)) (s2\<lparr>faults := tl (faults s2)\<rparr>)"
        by (simp add: inTransaction_def bindA_def tryA_def b q c Inr)
      with r have "bindA rollback (\<lambda>_. failA (PersistenceError c)) (s2\<lparr>faults := tl (faults s2)\<rparr>) = (r, s')"
        by simp
      from rollback_cases [OF _ this] sn show ?thesis by auto
    next
      case False
      then have "commit s2 = (Inr (), s2\<lparr>faults := tl (faults s2), snapshot := None\<rparr>)"
        using c by (simp only: if_False)
      then have "inTransaction c m s = (Inr a, s2\<lparr>faults := tl (faults s2), snapshot := None\<rparr>)"
        by (simp add: inTransaction_def bindA_def tryA_def b q Inr)
      with r have "r = Inr a" "s' = s2\<lparr>faults := tl (faults s2), snapshot := None\<rparr>" by auto
      moreover from this q Inr d1 have "db s1 = db s \<and> m s1 = (Inr a, s2) \<and> db s' = db s2" by simp
      ultimately show ?thesis by auto
    qed
  qed
qed

text \<open>A relation between databases that the body keeps holds across the whole transaction, however it
  ends.\<close>

lemma inTransaction_rel:
  assumes plain: "keepsSnapshot m" and refl: "\<And>t. R t t"
    and body: "\<And>s1 r s2. db s1 = db s \<Longrightarrow> m s1 = (r, s2) \<Longrightarrow> R (db s) (db s2)"
  shows "R (db s) (db (snd (inTransaction c m s)))"
proof (cases "beginImmediate s")
  case (Pair b s1)
  then have d1: "db s1 = db s"
    by (auto simp: beginImmediate_def split: option.splits if_splits)
  show ?thesis
  proof (cases b)
    case (Inl e)
    with Pair d1 refl show ?thesis by (simp add: inTransaction_def bindA_def)
  next
    case (Inr u)
    with Pair have sn: "snapshot s1 = Some (db s)"
      by (auto simp: beginImmediate_def split: option.splits if_splits)
    obtain q s2 where q: "m s1 = (q, s2)" by fastforce
    with plain sn have sn2: "snapshot s2 = Some (db s)" unfolding keepsSnapshot_def by (metis snd_conv)
    have R2: "R (db s) (db s2)" using body [OF d1 q] .
    have rb: "R (db s) (db (snd (bindA rollback (\<lambda>_. failA (PersistenceError c)) x)))"
      if "snapshot x = Some (db s)" "R (db s) (db x)" for x
      using that refl by (auto simp: bindA_def rollback_def)
    show ?thesis
    proof (cases q)
      case (Inl e)
      with Pair Inr q rb [OF sn2 R2] show ?thesis by (simp add: inTransaction_def bindA_def tryA_def)
    next
      case (Inr a)
      obtain x s3 where c: "commit s2 = (x, s3)" by fastforce
      then have s3: "db s3 = db s2" "x = Inl SqlFault \<Longrightarrow> snapshot s3 = Some (db s)"
        "x = Inl SqlFault \<or> x = Inr ()"
        using sn2 by (auto simp: commit_def split: if_splits)
      have "inTransaction c m s = (case x of Inl e \<Rightarrow> bindA rollback (\<lambda>_. failA (PersistenceError c)) s3
          | Inr _ \<Rightarrow> (Inr a, s3))"
        using Pair \<open>b = Inr u\<close> q Inr c
        by (cases x) (simp_all add: inTransaction_def bindA_def [of beginImmediate] tryA_def bindA_def [of m]
            bindA_def [of commit])
      with s3 R2 rb [of s3] show ?thesis by auto
    qed
  qed
qed

lemma throwsOnly_assertOpen [throws]: "throwsOnly typedExn assertOpen"
  by (simp add: throwsOnly_def assertOpen_def)

lemma throwsOnly_asError [throws]: "throwsOnly typedExn (asError c m)"
  unfolding asError_def by (intro throws) simp

text \<open>Without faults every statement runs.\<close>

lemma sql_noFaults: "faults s = [] \<Longrightarrow> sql f s = (fst (f (db s)), s\<lparr>db := snd (f (db s))\<rparr>)"
  by (simp add: sql_def)

lemma inTransaction_noFaults:
  assumes "faults s = []" "snapshot s = None" "m (s\<lparr>snapshot := Some (db s)\<rparr>) = (Inr a, s')"
    "faults s' = []" "snapshot s' = Some (db s)"
  shows "inTransaction c m s = (Inr a, s'\<lparr>snapshot := None\<rparr>)"
proof -
  have "beginImmediate s = (Inr (), s\<lparr>snapshot := Some (db s)\<rparr>)"
    using assms(1,2) by (simp add: beginImmediate_def)
  moreover have "commit s' = (Inr (), s'\<lparr>snapshot := None\<rparr>)"
    using assms(4,5) by (simp add: commit_def)
  ultimately show ?thesis
    using assms(3) by (simp add: inTransaction_def bindA_def tryA_def)
qed

end
