(* ===== verification/Store_Migrations.thy ===== *)
theory Store_Migrations
  imports Sqlite_Store
begin

section \<open>Upgrading a database of any earlier version\<close>

text \<open>
  \<open>migrate\<close> of \<open>sqlite.ts\<close> on a store without faults: from a database at any of the seven versions
  0 to 6 it applies exactly the missing migrations, in order, and the last two rebuild the request
  table and deduplicate the messages without losing anything else.
\<close>

definition migrationIds :: "string list" where
  "migrationIds = map migId migrations"

text \<open>The tables and columns that exist at a version (the two bookkeeping tables come first).\<close>

definition schemaAt :: "nat \<Rightarrow> obj set" where
  "schemaAt k = {MigrationsT, LockT} \<union> (if 1 \<le> k then {EventsT, RequestsT, OutboxT} else {})
     \<union> (if 2 \<le> k then {OutboxLeaseC} else {}) \<union> (if 3 \<le> k then {MessagesT, StatusEventsT} else {})
     \<union> (if 5 \<le> k then {RequestStatusC} else {})"

definition atVersion :: "nat \<Rightarrow> tables \<Rightarrow> bool" where
  "atVersion k t = (set (schema t) = schemaAt k \<and> map mgId (migrationRows t) = take k migrationIds \<and>
     list_all rowMatches (migrationRows t) \<and> requestsNew t = None \<and>
     uniqueMessages t = (6 \<le> k) \<and> uniqueStatusEvents t = (6 \<le> k))"

text \<open>What an upgrade keeps: every event, outbox row, request with its response and status event, and
  of the messages all, or one per direction and wa id when migration 006 runs.\<close>

definition requestData :: "sr_row \<Rightarrow> string \<times> string \<times> string option" where
  "requestData r = (rqKey r, rqHash r, rqResponse r)"

definition keepsData :: "bool \<Rightarrow> tables \<Rightarrow> tables \<Rightarrow> bool" where
  "keepsData dedup t t' = (events t' = events t \<and> outbox t' = outbox t \<and>
     map requestData (requests t') = map requestData (requests t) \<and>
     messages t' = (if dedup then dedupMessages (messages t) else messages t) \<and>
     set (statusEvents t') = set (statusEvents t))"

lemma migrations_length: "length migrations = 6" "length migrationIds = 6"
  by (simp_all add: migrations_def migrationIds_def)

lemma migrationIds_distinct: "distinct migrationIds"
  by (simp add: migrationIds_def migrations_def)

lemma migrationById_nth: "j < 6 \<Longrightarrow> migrationById (migId (migrations ! j)) = Some (migrations ! j)"
proof -
  assume j: "j < 6"
  have "find (\<lambda>m. migId m = migId (migrations ! j)) migrations = Some (migrations ! j)"
    using find_Some_iff_unique [of migId migrations "migId (migrations ! j)" "migrations ! j"]
      migrationIds_distinct j by (simp add: migrationIds_def migrations_length)
  then show ?thesis by (simp add: migrationById_def)
qed

text \<open>One migration without faults: its statements run on the database it finds.\<close>

fun runStatements :: "ddl list \<Rightarrow> tables \<Rightarrow> (exn + unit) \<times> tables" where
  "runStatements [] t = (Inr (), t)"
| "runStatements (d # ds) t = (case runDdl d t of (Inl e, t') \<Rightarrow> (Inl e, t') | (Inr _, t') \<Rightarrow> runStatements ds t')"

lemma forA_sql_noFaults:
  "faults s = [] \<Longrightarrow> forA ds (\<lambda>d. sql (runDdl d)) s =
     (fst (runStatements ds (db s)), s\<lparr>db := snd (runStatements ds (db s))\<rparr>)"
proof (induction ds arbitrary: s)
  case (Cons d ds)
  show ?case
  proof (cases "runDdl d (db s)")
    case (Pair r t')
    with Cons.prems have "sql (runDdl d) s = (r, s\<lparr>db := t'\<rparr>)" by (simp add: sql_noFaults)
    with Pair Cons.IH [of "s\<lparr>db := t'\<rparr>"] Cons.prems show ?thesis by (cases r) (simp_all add: bindA_def)
  qed
qed simp

definition rowOf :: "string \<Rightarrow> migration \<Rightarrow> migration_row" where
  "rowOf now m = \<lparr>mgId = migId m, mgVersion = migVersion m, mgChecksum = migChecksum m, mgAppliedAt = now\<rparr>"

lemma applyMigration_noFaults:
  assumes "faults s = []" "snapshot s = None" "runStatements (migStatements m) (db s) = (Inr (), t')"
    "MigrationsT \<in> set (schema t')" "\<not> list_ex (\<lambda>r. mgId r = migId m) (migrationRows t')"
  shows "applyMigration now m s =
    (Inr (), s\<lparr>db := t'\<lparr>migrationRows := migrationRows t' @ [rowOf now m]\<rparr>\<rparr>)"
proof -
  let ?t = "t'\<lparr>migrationRows := migrationRows t' @ [rowOf now m]\<rparr>"
  let ?body = "bindA (forA (migStatements m) (\<lambda>d. sql (runDdl d))) (\<lambda>_. insertMigration now m)"
  have "?body (s\<lparr>snapshot := Some (db s)\<rparr>) = (Inr (), s\<lparr>snapshot := Some (db s), db := ?t\<rparr>)"
    using assms by (simp add: bindA_def forA_sql_noFaults insertMigration_def sql_noFaults needs_def rowOf_def)
  from inTransaction_noFaults [where m = ?body and c = MigrationFailed, OF assms(1,2) this] assms(1,2) show ?thesis
    by (simp add: applyMigration_def)
qed

text \<open>Each of the six migrations takes its version to the next.\<close>

lemma step_version:
  assumes v: "atVersion j t" and inv: "dbInv t" and j: "j < 6"
  shows "\<exists>t'. runStatements (migStatements (migrations ! j)) t = (Inr (), t') \<and>
    migrationRows t' = migrationRows t \<and> set (schema t') = schemaAt (Suc j) \<and> requestsNew t' = None \<and>
    uniqueMessages t' = (6 \<le> Suc j) \<and> uniqueStatusEvents t' = (6 \<le> Suc j) \<and> lockHolder t' = lockHolder t \<and>
    keepsData (j = 5) t t'"
proof -
  have s: "set (schema t) = schemaAt j" "requestsNew t = None" "\<not> uniqueMessages t" "\<not> uniqueStatusEvents t"
    using v j by (auto simp: atVersion_def)
  have d: "distinct (map mrRowId (messages t))" "distinct (map rqKey (requests t))"
    using inv by (auto simp: dbInv_def)
  from j consider "j = 0" | "j = 1" | "j = 2" | "j = 3" | "j = 4" | "j = 5" by linarith
  then show ?thesis
  proof cases
    case 1 with s show ?thesis
      by (auto simp: migrations_def addObj_def schemaAt_def keepsData_def)
  next
    case 2 with s show ?thesis
      by (simp add: migrations_def addObj_def schemaAt_def keepsData_def needs_def)
  next
    case 3 with s show ?thesis
      by (auto simp: migrations_def addObj_def schemaAt_def keepsData_def)
  next
    case 4 with s show ?thesis
      by (simp add: migrations_def schemaAt_def keepsData_def needs_def readOnly_def)
  next
    case 5 with s d show ?thesis
      by (simp add: migrations_def addObj_def schemaAt_def keepsData_def needs_def requestData_def comp_def)
        auto
  next
    case 6 with s d show ?thesis
      by (simp add: migrations_def schemaAt_def keepsData_def needs_def dedupMessages_distinct)
  qed
qed

text \<open>The loop: versions already there are skipped, the others applied.\<close>

lemma migrationRow_noFaults:
  "faults s = [] \<Longrightarrow> MigrationsT \<in> set (schema (db s)) \<Longrightarrow>
   migrationRow i s = (Inr (find (\<lambda>r. mgId r = i) (migrationRows (db s))), s)"
  by (simp add: migrationRow_def sql_noFaults needs_def readOnly_def)

lemma find_row: "find (\<lambda>r. mgId r = i) rs = None \<longleftrightarrow> i \<notin> set (map mgId rs)"
  by (auto simp: find_None_iff)

lemma applyMissing_skip:
  assumes "faults s = []" "MigrationsT \<in> set (schema (db s))"
    "\<forall>m \<in> set ms. migId m \<in> set (map mgId (migrationRows (db s)))"
  shows "applyMissing now (ms @ ns) s = applyMissing now ns s"
  using assms(3)
proof (induction ms)
  case (Cons m ms)
  then have "find (\<lambda>r. mgId r = migId m) (migrationRows (db s)) \<noteq> None" by (simp add: find_row)
  with Cons migrationRow_noFaults [OF assms(1,2)] show ?case by (simp add: bindA_def)
qed simp

lemma atVersion_bookkeeping: "atVersion k t \<Longrightarrow> MigrationsT \<in> set (schema t) \<and> LockT \<in> set (schema t)"
  by (simp add: atVersion_def schemaAt_def)

lemma list_ex_row: "list_ex (\<lambda>r. mgId r = i) rs \<longleftrightarrow> i \<in> set (map mgId rs)"
  by (auto simp: list_ex_iff)

lemma applyMissing_run:
  assumes "faults s = []" "snapshot s = None" "atVersion j (db s)" "dbInv (db s)" "j \<le> 6"
  shows "\<exists>t'. applyMissing now (drop j migrations) s = (Inr (drop j migrationIds), s\<lparr>db := t'\<rparr>) \<and>
    atVersion 6 t' \<and> lockHolder t' = lockHolder (db s) \<and> keepsData (j < 6) (db s) t'"
  using assms
proof (induction "6 - j" arbitrary: j s)
  case 0
  then have "j = 6" by simp
  with 0 show ?case
    by (intro exI [of _ "db s"]) (simp add: migrations_length keepsData_def)
next
  case (Suc n)
  then have j: "j < 6" by simp
  have m: "drop j migrations = migrations ! j # drop (Suc j) migrations"
    "drop j migrationIds = migId (migrations ! j) # drop (Suc j) migrationIds"
    using j by (simp_all add: Cons_nth_drop_Suc migrations_length migrationIds_def drop_map
        flip: list.map(2))
  have rows: "map mgId (migrationRows (db s)) = take j migrationIds"
    using Suc.prems(3) by (simp add: atVersion_def)
  have "migrationIds ! j \<notin> set (take j migrationIds)"
    using migrationIds_distinct j by (simp add: migrations_length distinct_conv_nth in_set_conv_nth)
  then have new: "migId (migrations ! j) \<notin> set (map mgId (migrationRows (db s)))"
    using rows j by (simp add: migrationIds_def migrations_length del: set_map)
  obtain t1 where t1: "runStatements (migStatements (migrations ! j)) (db s) = (Inr (), t1)"
    "migrationRows t1 = migrationRows (db s)" "set (schema t1) = schemaAt (Suc j)" "requestsNew t1 = None"
    "uniqueMessages t1 = (6 \<le> Suc j)" "uniqueStatusEvents t1 = (6 \<le> Suc j)"
    "lockHolder t1 = lockHolder (db s)" "keepsData (j = 5) (db s) t1"
    using step_version [OF Suc.prems(3,4) j] by blast
  define t2 where "t2 = t1\<lparr>migrationRows := migrationRows t1 @ [rowOf now (migrations ! j)]\<rparr>"
  define s2 where "s2 = s\<lparr>db := t2\<rparr>"
  have ap: "applyMigration now (migrations ! j) s = (Inr (), s2)"
    unfolding s2_def t2_def
    by (rule applyMigration_noFaults [OF Suc.prems(1,2) t1(1)])
      (use new t1(2,3) in \<open>simp_all only: list_ex_row schemaAt_def\<close>, auto)
  have "list_all rowMatches (migrationRows t2)"
    using Suc.prems(3) j t1(2) migrationById_nth [OF j]
    by (simp add: atVersion_def t2_def rowMatches_def rowOf_def)
  moreover have "map mgId (migrationRows t2) = take (Suc j) migrationIds"
    using rows t1(2) j by (simp add: t2_def rowOf_def take_Suc_conv_app_nth migrations_length migrationIds_def)
  ultimately have v2: "atVersion (Suc j) t2"
    using t1 by (simp add: atVersion_def t2_def)
  have "storeInv s" using Suc.prems(2,4) by (simp add: storeInv_def)
  then have "storeInv s2" using holdsA_applyMigration [of now "migrations ! j"] ap
    unfolding holdsA_def by (metis snd_conv)
  then have i2: "dbInv t2" by (simp add: storeInv_def s2_def)
  have n: "n = 6 - Suc j" "Suc j \<le> 6" using Suc.hyps(2) j by simp_all
  obtain t' where t': "applyMissing now (drop (Suc j) migrations) s2 = (Inr (drop (Suc j) migrationIds), s2\<lparr>db := t'\<rparr>)"
    "atVersion 6 t'" "lockHolder t' = lockHolder t2" "keepsData (Suc j < 6) t2 t'"
    using Suc.hyps(1) [OF n(1), of s2] n(2) Suc.prems(1,2) v2 i2 by (auto simp: s2_def)
  have "find (\<lambda>r. mgId r = migId (migrations ! j)) (migrationRows (db s)) = None" using new by (simp add: find_row)
  with migrationRow_noFaults [OF Suc.prems(1)] atVersion_bookkeeping [OF Suc.prems(3)] ap t'(1) m
  have "applyMissing now (drop j migrations) s = (Inr (drop j migrationIds), s\<lparr>db := t'\<rparr>)"
    by (simp add: bindA_def s2_def)
  moreover have "keepsData (j < 6) (db s) t'"
    using t1(8) t'(4) j by (cases "j = 5") (auto simp: keepsData_def t2_def)
  ultimately show ?case using t'(2,3) t1(7) by (auto simp: t2_def)
qed

text \<open>From a database at any version \<open>k\<close> from 0 to 6, with the migration lock free, \<open>migrate\<close> without
  faults applies exactly the migrations after \<open>k\<close>, in order, reports them, releases the lock and leaves
  version 6; events, outbox rows, requests with their responses and status events are kept, and of the
  messages one per direction and wa id when migration 006 was among the missing ones.  A second call
  (\<open>k = 6\<close>) reports that the schema is current and changes nothing.\<close>

theorem migrate_upgrades_any_version:
  assumes "faults s = []" "snapshot s = None" "\<not> closed s" "dbInv (db s)" "atVersion k (db s)" "k \<le> 6"
    and "lockHolder (db s) = None"
  shows "\<exists>t'. migrate now holder s = (Inr \<lparr>currentVersion = 6, appliedMigrations = drop k migrationIds,
      alreadyCurrent = (k = 6)\<rparr>, s\<lparr>db := t'\<rparr>) \<and>
    atVersion 6 t' \<and> lockHolder t' = None \<and> keepsData (k < 6) (db s) t'"
proof -
  have bk: "MigrationsT \<in> set (schema (db s))" "LockT \<in> set (schema (db s))"
    using atVersion_bookkeeping [OF assms(5)] by simp_all
  then have same: "addObj LockT (db s) = db s" "addObj MigrationsT (db s) = db s"
    by (simp_all add: addObj_def insert_absorb)
  define s1 where "s1 = s\<lparr>db := (db s)\<lparr>lockHolder := Some holder\<rparr>\<rparr>"
  have a1: "acquireLock holder s = (Inr (), s1)"
    using assms(1,7) bk by (simp add: acquireLock_def asError_def tryA_def sql_noFaults needs_def s1_def)
  have v1: "atVersion k (db s1)" using assms(5) by (simp add: s1_def atVersion_def)
  have i1: "dbInv (db s1)" using assms(4) by (simp add: s1_def dbInv_def)
  have "validateAppliedChecksums s1 = (Inr (), s1)"
    using assms(1,5) bk by (simp add: validateAppliedChecksums_def bindA_def sql_noFaults needs_def readOnly_def
        s1_def atVersion_def)
  moreover have "\<forall>m \<in> set (take k migrations). migId m \<in> set (map mgId (migrationRows (db s1)))"
    using v1 by (simp add: atVersion_def migrationIds_def take_map del: set_map)
      (metis image_eqI set_map)
  with applyMissing_skip [of s1 "take k migrations" now "drop k migrations"] assms(1) bk
  have "applyMissing now migrations s1 = applyMissing now (drop k migrations) s1"
    by (simp add: s1_def)
  moreover obtain t' where t': "applyMissing now (drop k migrations) s1 = (Inr (drop k migrationIds), s1\<lparr>db := t'\<rparr>)"
    "atVersion 6 t'" "lockHolder t' = Some holder" "keepsData (k < 6) (db s1) t'"
    using applyMissing_run [of s1 k now] assms(1,2,6) v1 i1 by (auto simp: s1_def)
  moreover have "(drop k migrationIds = []) = (k = 6)" using assms(6) by (auto simp: migrations_length)
  ultimately have body: "bindA (acquireLock holder) (\<lambda>_. bindA validateAppliedChecksums (\<lambda>_.
        bindA (applyMissing now migrations) (\<lambda>applied.
        retA \<lparr>currentVersion = currentSchemaVersion, appliedMigrations = applied, alreadyCurrent = (applied = [])\<rparr>))) s =
      (Inr \<lparr>currentVersion = 6, appliedMigrations = drop k migrationIds, alreadyCurrent = (k = 6)\<rparr>, s1\<lparr>db := t'\<rparr>)"
    using a1 by (simp add: bindA_def currentSchemaVersion_def)
  define t'' where "t'' = t'\<lparr>lockHolder := None\<rparr>"
  have rel: "releaseLock holder (s1\<lparr>db := t'\<rparr>) = (Inr (), s\<lparr>db := t''\<rparr>)"
    using assms(1) t'(2,3) atVersion_bookkeeping [OF t'(2)]
    by (simp add: releaseLock_def tryA_def sql_noFaults needs_def s1_def t''_def)
  have pre: "pragma s = (Inr (), s)" "sql (runDdl (CreateTable LockT)) s = (Inr (), s)"
    "sql (runDdl (CreateTable MigrationsT)) s = (Inr (), s)" "assertOpen s = (Inr (), s)"
    using assms(1,3) same by (simp_all add: pragma_def sql_noFaults readOnly_def assertOpen_def)
  have "migrate now holder s = (Inr \<lparr>currentVersion = 6, appliedMigrations = drop k migrationIds,
      alreadyCurrent = (k = 6)\<rparr>, s\<lparr>db := t''\<rparr>)"
    unfolding migrate_def bindA_def [of assertOpen] bindA_def [of pragma] bindA_def [of "sql _"] pre
      finallyA_def body rel prod.case sum.case ..
  moreover have "atVersion 6 t''" "keepsData (k < 6) (db s) t''"
    using t'(2,4) by (simp_all add: t''_def atVersion_def keepsData_def s1_def)
  ultimately show ?thesis by (auto simp: t''_def)
qed

lemma migrate_upgrades_any_version_witness:
  "\<exists>t'. migrate ''2024-01-02T03:04:05.678Z'' ''wats-1'' (openStore (emptyTables\<lparr>schema := [MigrationsT, LockT]\<rparr>) []) =
     (Inr \<lparr>currentVersion = 6, appliedMigrations = migrationIds, alreadyCurrent = False\<rparr>, openStore t' []) \<and>
     atVersion 6 t'"
proof -
  let ?s = "openStore (emptyTables\<lparr>schema := [MigrationsT, LockT]\<rparr>) []"
  have "dbInv (db ?s)" "atVersion 0 (db ?s)"
    by (auto simp: dbInv_def openStore_def emptyTables_def atVersion_def schemaAt_def)
  from migrate_upgrades_any_version [OF _ _ _ this, of "''2024-01-02T03:04:05.678Z''" "''wats-1''"]
  show ?thesis by (auto simp: openStore_def emptyTables_def)
qed

end
