(* ===== verification/Request_Ledger.thy ===== *)
theory Request_Ledger
  imports Sqlite_Store
begin

section \<open>Durable webhook dedup and service-request claims\<close>

text \<open>
  The operations of \<open>sqlite.ts\<close> on \<open>wats_webhook_events\<close> and \<open>wats_service_requests\<close>, and the contract
  a keyed send relies on: an abstract ledger maps an idempotency key to the reserved request hash and
  the stored response, a claim reserves a free key, a completion stores the response of a reserved one.
  The locale \<open>request_ledger\<close> states that contract for any store, proves from it that a key is claimed
  at most once over any run, and the SQLite operations interpret it under every script of faults.
\<close>

subsection \<open>Webhook events\<close>

datatype event_result = EventRecorded | EventDuplicate

definition insertEvent :: "webhook_event \<Rightarrow> tables \<Rightarrow> (exn + unit) \<times> tables" where
  "insertEvent e = needs [EventsT] (\<lambda>t.
     if list_ex (\<lambda>x. eventKey x = eventKey e) (events t) then (Inl SqlConstraint, t)
     else (Inr (), t\<lparr>events := events t @ [e]\<rparr>))"

definition recordWebhookEvent :: "jsval \<Rightarrow> event_result sqlAct" where
  "recordWebhookEvent input = bindA assertOpen (\<lambda>_.
     bindA (liftA (validateWebhookEventRecord input)) (\<lambda>record.
     tryA (bindA (sql (insertEvent record)) (\<lambda>_. retA EventRecorded))
       (\<lambda>cause. if cause = SqlConstraint then retA EventDuplicate
         else failA (PersistenceError MigrationFailed))))"

subsection \<open>Service requests\<close>

definition selectRequest :: "string \<Rightarrow> tables \<Rightarrow> (exn + sr_row option) \<times> tables" where
  "selectRequest k = needs [RequestsT, RequestStatusC] (readOnly (\<lambda>t.
     find (\<lambda>r. rqKey r = k) (requests t)))"

text \<open>\<open>INSERT OR IGNORE\<close>: the number of rows it changed.\<close>

definition insertRequest :: "sr_row \<Rightarrow> tables \<Rightarrow> (exn + nat) \<times> tables" where
  "insertRequest r = needs [RequestsT, RequestStatusC] (\<lambda>t.
     if list_ex (\<lambda>x. rqKey x = rqKey r) (requests t) then (Inr 0, t)
     else (Inr 1, t\<lparr>requests := requests t @ [r]\<rparr>))"

definition completable :: "sr_completion \<Rightarrow> sr_row \<Rightarrow> bool" where
  "completable c r = (rqKey r = srKey c \<and> rqHash r = srHash c \<and> rqStatus r = Claimed)"

definition updateCompletion :: "sr_completion \<Rightarrow> tables \<Rightarrow> (exn + nat) \<times> tables" where
  "updateCompletion c = needs [RequestsT, RequestStatusC] (\<lambda>t.
     (Inr (length (filter (completable c) (requests t))),
      t\<lparr>requests := map (\<lambda>r. if completable c r then r\<lparr>rqResponse := Some (srResponseJson c),
          rqStatus := Completed, rqCreatedAt := srCreatedAt c\<rparr> else r) (requests t)\<rparr>))"

datatype lookup_result = NoRequest | LookupConflict | Response string

definition getServiceRequest :: "jsval \<Rightarrow> lookup_result sqlAct" where
  "getServiceRequest input = bindA assertOpen (\<lambda>_.
     bindA (liftA (validateServiceRequestLookup input)) (\<lambda>lookup.
     bindA (sql (selectRequest (srKey lookup))) (\<lambda>row. case row of
       None \<Rightarrow> retA NoRequest
     | Some r \<Rightarrow> if rqHash r \<noteq> srHash lookup then retA LookupConflict
         else if rqStatus r = Claimed then retA NoRequest
         else (case rqResponse r of None \<Rightarrow> retA NoRequest | Some j \<Rightarrow> retA (Response j)))))"

definition recordServiceRequest :: "jsval \<Rightarrow> unit sqlAct" where
  "recordServiceRequest input = bindA assertOpen (\<lambda>_.
     bindA (liftA (validateServiceRequestRecord input)) (\<lambda>record.
     asError OutboxFailed (bindA (sql (insertRequest
       \<lparr>rqKey = srKey record, rqHash = srHash record, rqResponse = Some (srResponseJson record),
        rqCreatedAt = srCreatedAt record, rqStatus = Completed, rqClaimedAt = None\<rparr>)) (\<lambda>_. retA ()))))"

datatype claim_result = ClaimClaimed | ClaimPending | ClaimConflict | ClaimReplay string

definition claimServiceRequest :: "jsval \<Rightarrow> claim_result sqlAct" where
  "claimServiceRequest input = bindA assertOpen (\<lambda>_.
     bindA (liftA (validateServiceRequestClaim input)) (\<lambda>claim.
     bindA (tryA
       (bindA (sql (insertRequest \<lparr>rqKey = srKey claim, rqHash = srHash claim, rqResponse = None,
           rqCreatedAt = srCreatedAt claim, rqStatus = Claimed, rqClaimedAt = Some (srCreatedAt claim)\<rparr>))
         (\<lambda>changes. if changes = 1 then retA None
           else bindA (sql (selectRequest (srKey claim))) (\<lambda>row. retA (Some row))))
       (\<lambda>cause. case cause of PersistenceError c \<Rightarrow> failA cause | _ \<Rightarrow> failA (PersistenceError ClaimFailed)))
     (\<lambda>found. case found of
       None \<Rightarrow> retA ClaimClaimed
     | Some None \<Rightarrow> failA (PersistenceError ClaimFailed)
     | Some (Some row) \<Rightarrow> if rqHash row \<noteq> srHash claim then retA ClaimConflict
         else (case rqResponse row of
             Some j \<Rightarrow> if rqStatus row = Completed then retA (ClaimReplay j) else retA ClaimPending
           | None \<Rightarrow> retA ClaimPending))))"

definition completeServiceRequest :: "jsval \<Rightarrow> unit sqlAct" where
  "completeServiceRequest input = bindA assertOpen (\<lambda>_.
     bindA (liftA (validateServiceRequestCompletion input)) (\<lambda>completion.
     bindA (asError CompletionFailed (sql (selectRequest (srKey completion)))) (\<lambda>existing. case existing of
       None \<Rightarrow> failA (PersistenceError CompletionFailed)
     | Some row \<Rightarrow> if rqHash row \<noteq> srHash completion then failA (PersistenceError CompletionFailed)
         else if rqStatus row = Completed then retA ()
         else bindA (asError CompletionFailed (sql (updateCompletion completion))) (\<lambda>changes.
           if changes \<noteq> 1 then failA (PersistenceError CompletionFailed) else retA ()))))"

lemmas [run_simps] = recordWebhookEvent_def insertEvent_def selectRequest_def insertRequest_def
  updateCompletion_def getServiceRequest_def recordServiceRequest_def claimServiceRequest_def
  completeServiceRequest_def completable_def

subsection \<open>They keep the database's invariant\<close>

lemma keepsInv_selectRequest [keeps]: "keepsInv (selectRequest k)"
  unfolding selectRequest_def by (intro keeps)

lemma keepsInv_insertEvent [keeps]: "keepsInv (insertEvent e)"
  unfolding insertEvent_def by (intro keeps) (auto simp: keepsInv_def dbInv_def list_ex_iff)

lemma keepsInv_insertRequest [keeps]: "requestInv r \<Longrightarrow> keepsInv (insertRequest r)"
  unfolding insertRequest_def by (intro keeps) (auto simp: keepsInv_def dbInv_def list_ex_iff)

lemma map_updateCompletion [simp]:
  "map rqKey (map (\<lambda>r. if completable c r then r\<lparr>rqResponse := x, rqStatus := y, rqCreatedAt := z\<rparr> else r) rs)
   = map rqKey rs"
  by (induction rs) auto

lemma keepsInv_updateCompletion [keeps]: "keepsInv (updateCompletion c)"
proof -
  have "list_all requestInv (map (\<lambda>r. if completable c r then r\<lparr>rqResponse := Some j,
      rqStatus := Completed, rqCreatedAt := z\<rparr> else r) rs)" if "list_all requestInv rs" for rs j z
    using that by (auto simp: list_all_iff requestInv_def)
  then show ?thesis
    unfolding updateCompletion_def by (intro keeps) (simp add: keepsInv_def dbInv_def del: map_map)
qed

lemma holdsA_recordWebhookEvent [keeps]: "holdsA storeInv (recordWebhookEvent i) storeInv"
  unfolding recordWebhookEvent_def by (intro keeps keeps_rules)

lemma holdsA_getServiceRequest [keeps]: "holdsA storeInv (getServiceRequest i) storeInv"
  unfolding getServiceRequest_def
  by (intro keeps keeps_rules) (auto split: option.split intro!: keeps_rules)

lemma holdsA_recordServiceRequest [keeps]: "holdsA storeInv (recordServiceRequest i) storeInv"
  unfolding recordServiceRequest_def by (intro keeps keeps_rules) (simp add: requestInv_def)

lemma holdsA_claimServiceRequest [keeps]: "holdsA storeInv (claimServiceRequest i) storeInv"
  unfolding claimServiceRequest_def
  by (intro keeps keeps_rules)
    (auto split: option.split exn.split intro!: keeps_rules simp: requestInv_def)

lemma holdsA_completeServiceRequest [keeps]: "holdsA storeInv (completeServiceRequest i) storeInv"
  unfolding completeServiceRequest_def
  by (intro keeps keeps_rules)
    (auto split: option.split intro!: keeps keeps_rules)

subsection \<open>The abstract ledger\<close>

text \<open>A key that was never used is free; a used one holds its hash and, once completed, its response.\<close>

type_synonym ledger = "string \<Rightarrow> (string \<times> string option) option"

definition specClaim :: "string \<Rightarrow> string \<Rightarrow> ledger \<Rightarrow> claim_result \<times> ledger" where
  "specClaim k h L = (case L k of
     None \<Rightarrow> (ClaimClaimed, L(k \<mapsto> (h, None)))
   | Some (h', resp) \<Rightarrow> (if h' \<noteq> h then ClaimConflict
       else (case resp of None \<Rightarrow> ClaimPending | Some j \<Rightarrow> ClaimReplay j), L))"

definition specComplete :: "string \<Rightarrow> string \<Rightarrow> string \<Rightarrow> ledger \<Rightarrow> ledger option" where
  "specComplete k h j L = (case L k of
     None \<Rightarrow> None
   | Some (h', resp) \<Rightarrow> if h' \<noteq> h then None
       else Some (case resp of None \<Rightarrow> L(k \<mapsto> (h, Some j)) | Some _ \<Rightarrow> L))"

definition specLookup :: "string \<Rightarrow> string \<Rightarrow> ledger \<Rightarrow> lookup_result" where
  "specLookup k h L = (case L k of
     None \<Rightarrow> NoRequest
   | Some (h', resp) \<Rightarrow> if h' \<noteq> h then LookupConflict
       else (case resp of None \<Rightarrow> NoRequest | Some j \<Rightarrow> Response j))"

datatype ledger_op = DoClaim string string string | DoComplete string string string string

datatype ledger_out = OutClaim claim_result | OutComplete | OutError exn

text \<open>A run of claims and completions on any store, with what each returned or raised.\<close>

definition doLedgerOp :: "(string \<Rightarrow> string \<Rightarrow> string \<Rightarrow> 's \<Rightarrow> (exn + claim_result) \<times> 's) \<Rightarrow>
    (string \<Rightarrow> string \<Rightarrow> string \<Rightarrow> string \<Rightarrow> 's \<Rightarrow> (exn + unit) \<times> 's) \<Rightarrow> ledger_op \<Rightarrow> 's \<Rightarrow> ledger_out \<times> 's" where
  "doLedgerOp cl cp p s = (case p of
     DoClaim k h ts \<Rightarrow> (case cl k h ts s of (Inl e, s') \<Rightarrow> (OutError e, s') | (Inr r, s') \<Rightarrow> (OutClaim r, s'))
   | DoComplete k h j ts \<Rightarrow>
       (case cp k h j ts s of (Inl e, s') \<Rightarrow> (OutError e, s') | (Inr _, s') \<Rightarrow> (OutComplete, s')))"

fun runLedger :: "(string \<Rightarrow> string \<Rightarrow> string \<Rightarrow> 's \<Rightarrow> (exn + claim_result) \<times> 's) \<Rightarrow>
    (string \<Rightarrow> string \<Rightarrow> string \<Rightarrow> string \<Rightarrow> 's \<Rightarrow> (exn + unit) \<times> 's) \<Rightarrow> ledger_op list \<Rightarrow> 's \<Rightarrow>
    (ledger_op \<times> ledger_out) list \<times> 's" where
  "runLedger cl cp [] s = ([], s)"
| "runLedger cl cp (p # ps) s = (case doLedgerOp cl cp p s of (q, s1) \<Rightarrow>
     (case runLedger cl cp ps s1 of (qs, s') \<Rightarrow> ((p, q) # qs, s')))"

text \<open>The first claim of a key, whatever the hash: the event a caller sends on.\<close>

definition wonClaim :: "string \<Rightarrow> ledger_op \<times> ledger_out \<Rightarrow> bool" where
  "wonClaim k x = (case x of (DoClaim k' h ts, OutClaim ClaimClaimed) \<Rightarrow> k' = k | _ \<Rightarrow> False)"

lemma wonClaim_iff: "wonClaim k x \<longleftrightarrow> (\<exists>h ts. x = (DoClaim k h ts, OutClaim ClaimClaimed))"
  by (auto simp: wonClaim_def split: prod.split ledger_op.split ledger_out.split claim_result.split)

text \<open>A claim or a completion either raises and leaves the ledger alone, or does what the ledger says.\<close>

locale request_ledger =
  fixes claim :: "string \<Rightarrow> string \<Rightarrow> string \<Rightarrow> 's \<Rightarrow> (exn + claim_result) \<times> 's"
    and complete :: "string \<Rightarrow> string \<Rightarrow> string \<Rightarrow> string \<Rightarrow> 's \<Rightarrow> (exn + unit) \<times> 's"
    and wf :: "'s \<Rightarrow> bool"
    and ledger_of :: "'s \<Rightarrow> ledger"
  assumes claim_wf: "wf s \<Longrightarrow> wf (snd (claim k h ts s))"
    and complete_wf: "wf s \<Longrightarrow> wf (snd (complete k h j ts s))"
    and claim_ok: "wf s \<Longrightarrow> claim k h ts s = (Inr r, s') \<Longrightarrow> specClaim k h (ledger_of s) = (r, ledger_of s')"
    and claim_error: "wf s \<Longrightarrow> claim k h ts s = (Inl e, s') \<Longrightarrow> ledger_of s' = ledger_of s"
    and complete_ok: "wf s \<Longrightarrow> complete k h j ts s = (Inr u, s') \<Longrightarrow>
      specComplete k h j (ledger_of s) = Some (ledger_of s')"
    and complete_error: "wf s \<Longrightarrow> complete k h j ts s = (Inl e, s') \<Longrightarrow> ledger_of s' = ledger_of s"
begin

lemma claim_cases:
  assumes "wf s" "claim k h ts s = (r, s')"
  shows "case r of
     Inl e \<Rightarrow> ledger_of s' = ledger_of s
   | Inr c \<Rightarrow> (c = ClaimClaimed \<longleftrightarrow> ledger_of s k = None) \<and>
       ledger_of s' = (if c = ClaimClaimed then (ledger_of s)(k \<mapsto> (h, None)) else ledger_of s)"
proof (cases r)
  case (Inl e) with assms claim_error show ?thesis by simp
next
  case (Inr c)
  with assms claim_ok have "specClaim k h (ledger_of s) = (c, ledger_of s')" by blast
  with Inr show ?thesis by (auto simp: specClaim_def split: option.splits if_splits)
qed

lemma doOp_wf: "wf s \<Longrightarrow> wf (snd (doLedgerOp claim complete p s))"
  using claim_wf complete_wf by (auto simp: doLedgerOp_def split: ledger_op.split prod.split sum.split) (metis snd_conv)+

text \<open>A used key stays used, with its hash; a stored response is never replaced.\<close>

lemma doOp_keeps:
  assumes "wf s" "ledger_of s k = Some (h, resp)" "doLedgerOp claim complete p s = (q, s')"
  shows "\<exists>resp'. ledger_of s' k = Some (h, resp') \<and> (resp \<noteq> None \<longrightarrow> resp' = resp) \<and> \<not> wonClaim k (p, q)"
proof (cases p)
  case (DoClaim k2 h2 ts)
  obtain r s2 where r: "claim k2 h2 ts s = (r, s2)" by (cases "claim k2 h2 ts s")
  with assms(3) DoClaim have "s' = s2" "q = (case r of Inl e \<Rightarrow> OutError e | Inr c \<Rightarrow> OutClaim c)"
    by (auto simp: doLedgerOp_def split: sum.splits)
  with claim_cases [OF assms(1) r] assms(2) DoClaim show ?thesis
    by (auto simp: wonClaim_iff split: sum.splits if_splits)
next
  case (DoComplete k2 h2 j ts)
  obtain r s2 where r: "complete k2 h2 j ts s = (r, s2)" by (cases "complete k2 h2 j ts s")
  with assms(3) DoComplete have q: "s' = s2" "\<not> wonClaim k (p, q)"
    by (auto simp: doLedgerOp_def wonClaim_iff split: sum.splits)
  show ?thesis
  proof (cases r)
    case (Inl e)
    with complete_error [OF assms(1)] r have "ledger_of s2 = ledger_of s" by blast
    with q assms(2) show ?thesis by simp
  next
    case (Inr u)
    with complete_ok [OF assms(1)] r have "specComplete k2 h2 j (ledger_of s) = Some (ledger_of s2)" by blast
    then have "ledger_of s2 = ledger_of s \<or> ledger_of s k2 = Some (h2, None) \<and>
        ledger_of s2 = (ledger_of s)(k2 \<mapsto> (h2, Some j))"
      by (auto simp: specComplete_def split: option.splits if_splits)
    with q assms(2) show ?thesis by (auto simp del: fun_upd_apply) (auto simp: fun_upd_apply)
  qed
qed

lemma runOps_keeps:
  assumes "wf s" "ledger_of s k = Some (h, resp)" "runLedger claim complete ps s = (qs, s')"
  shows "\<exists>resp'. ledger_of s' k = Some (h, resp') \<and> (resp \<noteq> None \<longrightarrow> resp' = resp) \<and>
    filter (wonClaim k) qs = []"
  using assms
proof (induction ps arbitrary: s qs resp)
  case (Cons p ps)
  obtain q s1 where q: "doLedgerOp claim complete p s = (q, s1)" by (cases "doLedgerOp claim complete p s")
  obtain qs1 s2 where r: "runLedger claim complete ps s1 = (qs1, s2)" by (cases "runLedger claim complete ps s1")
  from Cons.prems q r have eq: "qs = (p, q) # qs1" "s' = s2" by auto
  from doOp_keeps [OF Cons.prems(1,2) q] obtain resp1 where
    1: "ledger_of s1 k = Some (h, resp1)" "resp \<noteq> None \<longrightarrow> resp1 = resp" "\<not> wonClaim k (p, q)" by auto
  have "wf s1" using doOp_wf [OF Cons.prems(1), of p] q by simp
  from Cons.IH [OF this 1(1)] r eq 1 show ?case by fastforce
qed simp

text \<open>Over any run, whatever raises, a key is claimed at most once.\<close>

lemma claimed_at_most_once:
  assumes "wf s"
  shows "length (filter (wonClaim k) (fst (runLedger claim complete ps s))) \<le> 1"
  using assms
proof (induction ps arbitrary: s)
  case (Cons p ps)
  obtain q s1 where q: "doLedgerOp claim complete p s = (q, s1)" by (cases "doLedgerOp claim complete p s")
  obtain qs1 s2 where r: "runLedger claim complete ps s1 = (qs1, s2)" by (cases "runLedger claim complete ps s1")
  from q r have eq: "fst (runLedger claim complete (p # ps) s) = (p, q) # qs1" by simp
  have wf1: "wf s1" using doOp_wf [OF Cons.prems, of p] q by simp
  show ?case
  proof (cases "wonClaim k (p, q)")
    case True
    then obtain h ts where p: "p = DoClaim k h ts" "q = OutClaim ClaimClaimed" by (auto simp: wonClaim_iff)
    with q have "claim k h ts s = (Inr ClaimClaimed, s1)"
      by (auto simp: doLedgerOp_def split: prod.splits sum.splits)
    with claim_cases [OF Cons.prems] have "ledger_of s1 k = Some (h, None)" by fastforce
    from runOps_keeps [OF wf1 this r] eq True show ?thesis by auto
  next
    case False
    with Cons.IH [OF wf1] r eq show ?thesis by auto
  qed
qed simp

end

subsection \<open>SQLite implements the ledger\<close>

text \<open>A stored response stands with the status \<open>completed\<close>: what the adapter writes, and migration 005
  leaves, but not what an old schema's row with no response would be.\<close>

definition ledgerOk :: "tables \<Rightarrow> bool" where
  "ledgerOk t = (distinct (map rqKey (requests t)) \<and>
     list_all (\<lambda>r. rqStatus r = Completed \<longleftrightarrow> rqResponse r \<noteq> None) (requests t))"

definition ledgerOf :: "tables \<Rightarrow> ledger" where
  "ledgerOf t k = map_option (\<lambda>r. (rqHash r, rqResponse r)) (find (\<lambda>r. rqKey r = k) (requests t))"

text \<open>The argument objects a caller passes.\<close>

definition strObj :: "(string \<times> string) list \<Rightarrow> jsval" where
  "strObj kvs = JObj ObjectProto (map (\<lambda>(k, v). (k, Data (JStr v))) kvs)"

definition claimObj :: "string \<Rightarrow> string \<Rightarrow> string \<Rightarrow> jsval" where
  "claimObj k h ts = strObj [(''idempotencyKey'', k), (''requestHash'', h), (''createdAt'', ts)]"

definition completionObj :: "string \<Rightarrow> string \<Rightarrow> string \<Rightarrow> string \<Rightarrow> jsval" where
  "completionObj k h j ts = strObj [(''idempotencyKey'', k), (''requestHash'', h),
     (''responseJson'', j), (''createdAt'', ts)]"

lemma validate_claimObj:
  "validateServiceRequestClaim (claimObj k h ts) = Inr c \<Longrightarrow>
   c = \<lparr>srKey = k, srHash = h, srCreatedAt = ts\<rparr>"
  by (auto simp: validateServiceRequestClaim_def claimObj_def strObj_def validateRecordInput_def
      isRecord_def res_iff)

lemma validateJsonText_Inr: "validateJsonText v = Inr s \<Longrightarrow> v = JStr s"
  by (auto simp: validateJsonText_def res_iff badRecord_def split: if_splits)

lemma validate_completionObj:
  "validateServiceRequestCompletion (completionObj k h j ts) = Inr c \<Longrightarrow>
   c = \<lparr>srKey = k, srHash = h, srCreatedAt = ts, srResponseJson = j\<rparr>"
  by (auto simp: validateServiceRequestCompletion_def validateServiceRequestRecord_def completionObj_def
      strObj_def validateRecordInput_def isRecord_def res_iff dest!: validateJsonText_Inr)

lemma sql_db:
  assumes "sql f s = (r, s')"
  shows "(r = Inl SqlFault \<and> db s' = db s) \<or> f (db s) = (r, db s')"
  using assms by (auto simp: sql_def split: if_splits)

lemma ledgerOf_None: "ledgerOf t k = None \<longleftrightarrow> \<not> list_ex (\<lambda>r. rqKey r = k) (requests t)"
  by (auto simp: ledgerOf_def find_None_iff list_ex_iff)

lemma find_append_new: "find P (xs @ [x]) = (case find P xs of None \<Rightarrow> if P x then Some x else None | Some y \<Rightarrow> Some y)"
  by (induction xs) auto

text \<open>The three statements, on the abstract ledger.\<close>

lemma insertRequest_spec:
  assumes "insertRequest r t = (Inr n, t')"
  shows "if ledgerOf t (rqKey r) = None
         then n = 1 \<and> ledgerOf t' = (ledgerOf t)(rqKey r \<mapsto> (rqHash r, rqResponse r))
         else n = 0 \<and> t' = t"
proof -
  have "ledgerOf (t\<lparr>requests := requests t @ [r]\<rparr>) = (ledgerOf t)(rqKey r \<mapsto> (rqHash r, rqResponse r))"
    if "ledgerOf t (rqKey r) = None"
    using that by (auto simp: ledgerOf_def find_append_new fun_eq_iff split: option.split)
  with assms show ?thesis
    by (auto simp: insertRequest_def needs_def ledgerOf_None split: if_splits)
qed

lemma insertRequest_error: "insertRequest r t = (Inl e, t') \<Longrightarrow> t' = t"
  by (auto simp: insertRequest_def needs_def split: if_splits)

lemma selectRequest_spec:
  assumes "selectRequest k t = (r, t')"
  shows "t' = t \<and> (r = Inl SqlFault \<or> r = Inr (find (\<lambda>r. rqKey r = k) (requests t)))"
  using assms by (auto simp: selectRequest_def needs_def readOnly_def split: if_splits)

lemma updateCompletion_spec:
  assumes ok: "ledgerOk t" and k: "ledgerOf t (srKey c) = Some (srHash c, None)"
    and u: "updateCompletion c t = (Inr n, t')"
  shows "n = 1 \<and> ledgerOf t' = (ledgerOf t)(srKey c \<mapsto> (srHash c, Some (srResponseJson c)))"
proof
  define g where "g r = (if completable c r then r\<lparr>rqResponse := Some (srResponseJson c),
    rqStatus := Completed, rqCreatedAt := srCreatedAt c\<rparr> else r)" for r
  from u have t': "requests t' = map g (requests t)"
    by (auto simp: updateCompletion_def needs_def g_def split: if_splits)
  have g: "rqKey (g r) = rqKey r" "rqHash (g r) = rqHash r" for r by (simp_all add: g_def)
  from k obtain r0 where r0: "find (\<lambda>r. rqKey r = srKey c) (requests t) = Some r0"
    "rqHash r0 = srHash c" "rqResponse r0 = None" by (auto simp: ledgerOf_def)
  then have r0in: "r0 \<in> set (requests t)" "rqKey r0 = srKey c" by (auto simp: find_Some_iff)
  with ok r0 have "rqStatus r0 = Claimed"
    by (cases "rqStatus r0") (auto simp: ledgerOk_def list_all_iff)
  with r0 r0in have c0: "completable c r0" by (simp add: completable_def)
  have keys: "distinct (map rqKey (requests t))" using ok by (simp add: ledgerOk_def)
  then have "{x. completable c x} \<inter> set (requests t) = {r0}"
    using c0 r0in by (auto simp: completable_def dest: distinct_map_filter_eq)
  then have "length (filter (completable c) (requests t)) = 1"
    using keys by (simp add: distinct_map distinct_length_filter)
  with u show "n = 1" by (auto simp: updateCompletion_def needs_def split: if_splits)
  show "ledgerOf t' = (ledgerOf t)(srKey c \<mapsto> (srHash c, Some (srResponseJson c)))"
  proof
    fix k'
    have f: "find (\<lambda>r. rqKey r = k') (requests t') = map_option g (find (\<lambda>r. rqKey r = k') (requests t))"
      unfolding t' by (rule find_map_upd) (simp add: g)
    show "ledgerOf t' k' = ((ledgerOf t)(srKey c \<mapsto> (srHash c, Some (srResponseJson c)))) k'"
    proof (cases "k' = srKey c")
      case True
      with f r0 c0 show ?thesis by (simp add: ledgerOf_def g_def)
    next
      case False
      have "g r = r" if "find (\<lambda>r. rqKey r = k') (requests t) = Some r" for r
        using that False by (auto simp: find_Some_iff g_def completable_def)
      with f False show ?thesis
        by (cases "find (\<lambda>r. rqKey r = k') (requests t)") (simp_all add: ledgerOf_def)
    qed
  qed
qed

lemma updateCompletion_error: "updateCompletion c t = (Inl e, t') \<Longrightarrow> t' = t"
  by (auto simp: updateCompletion_def needs_def split: if_splits)

definition keepsLedger :: "(tables \<Rightarrow> (exn + 'a) \<times> tables) \<Rightarrow> bool" where
  "keepsLedger f = (\<forall>t. ledgerOk t \<longrightarrow> ledgerOk (snd (f t)))"

lemma holdsA_ledgerOk_sql: "keepsLedger f \<Longrightarrow> holdsA (\<lambda>s. ledgerOk (db s)) (sql f) (\<lambda>s. ledgerOk (db s))"
  by (simp add: holdsA_def keepsLedger_def sql_def)

lemma holdsA_ledgerOk_assertOpen: "holdsA (\<lambda>s. ledgerOk (db s)) assertOpen (\<lambda>s. ledgerOk (db s))"
  by (simp add: holdsA_def assertOpen_def)

lemma keepsLedger_statements:
  "keepsLedger (selectRequest k)"
  "(rqStatus r = Completed \<longleftrightarrow> rqResponse r \<noteq> None) \<Longrightarrow> keepsLedger (insertRequest r)"
  "keepsLedger (updateCompletion c)"
proof -
  show "keepsLedger (selectRequest k)"
    by (simp add: keepsLedger_def selectRequest_def needs_def readOnly_def)
  show "keepsLedger (insertRequest r)" if "rqStatus r = Completed \<longleftrightarrow> rqResponse r \<noteq> None"
    using that by (auto simp: keepsLedger_def insertRequest_def needs_def ledgerOk_def list_ex_iff)
  show "keepsLedger (updateCompletion c)"
    by (auto simp: keepsLedger_def updateCompletion_def needs_def ledgerOk_def list_all_iff
        simp del: map_map)
qed

lemmas ledger_keeps = holdsA_ledgerOk_sql holdsA_ledgerOk_assertOpen keepsLedger_statements keeps_rules

lemma holdsA_ledgerOk_claim:
  "holdsA (\<lambda>s. ledgerOk (db s)) (claimServiceRequest i) (\<lambda>s. ledgerOk (db s))"
  unfolding claimServiceRequest_def
  by (intro ledger_keeps) (auto split: option.split exn.split intro!: keeps_rules)

lemma holdsA_ledgerOk_complete:
  "holdsA (\<lambda>s. ledgerOk (db s)) (completeServiceRequest i) (\<lambda>s. ledgerOk (db s))"
  unfolding completeServiceRequest_def asError_def
  by (intro ledger_keeps) (auto split: option.split intro!: ledger_keeps)

lemma holdsA_ledgerOk_record:
  "holdsA (\<lambda>s. ledgerOk (db s)) (recordServiceRequest i) (\<lambda>s. ledgerOk (db s))"
  unfolding recordServiceRequest_def asError_def by (intro ledger_keeps) simp

lemma bindA_cases:
  assumes "bindA m f s = (r, s')"
  obtains (fails) e where "m s = (Inl e, s')" "r = Inl e"
    | (returns) a s1 where "m s = (Inr a, s1)" "f a s1 = (r, s')"
  using assms by (cases "m s") (auto simp: bindA_def split: sum.splits)

lemma assertOpen_state: "assertOpen s = (r, s') \<Longrightarrow> s' = s"
  by (auto simp: assertOpen_def split: if_splits)

text \<open>A request operation is its guard, the validation of its input and its statements.\<close>

lemma guarded_cases:
  assumes "bindA assertOpen (\<lambda>_. bindA (liftA v) f) s = (r, s')"
  obtains (fails) e where "r = Inl e" "s' = s"
    | (returns) a where "v = Inr a" "f a s = (r, s')"
  using assms by (elim bindA_cases) (auto dest!: assertOpen_state elim!: bindA_cases)

lemma claim_refines:
  assumes c: "claimServiceRequest (claimObj k h ts) s = (r, s')" and ok: "ledgerOk (db s)"
  shows "case r of Inl e \<Rightarrow> ledgerOf (db s') = ledgerOf (db s)
    | Inr q \<Rightarrow> specClaim k h (ledgerOf (db s)) = (q, ledgerOf (db s'))"
proof -
  define row where "row = \<lparr>rqKey = k, rqHash = h, rqResponse = None, rqCreatedAt = ts,
    rqStatus = Claimed, rqClaimedAt = Some ts\<rparr>"
  show ?thesis
  using c unfolding claimServiceRequest_def
  proof (cases rule: guarded_cases)
    case (fails e)
    then show ?thesis by simp
  next
    case (returns claim)
    from validate_claimObj [OF returns(1)] have cl: "srKey claim = k" "srHash claim = h" "srCreatedAt claim = ts"
      by simp_all
    obtain q1 s1 where q1: "sql (insertRequest row) s = (q1, s1)" by fastforce
    note body = returns(2) [unfolded cl row_def [symmetric]]
    show ?thesis
    proof (cases q1)
      case (Inl e1)
      from sql_db [OF q1] Inl have "db s1 = db s" using insertRequest_error by blast
      with body q1 Inl show ?thesis
        by (auto simp: bindA_def tryA_def split: exn.splits)
    next
      case (Inr n)
      from sql_db [OF q1] Inr have "insertRequest row (db s) = (Inr n, db s1)" by simp
      from insertRequest_spec [OF this] have
        i: "if ledgerOf (db s) k = None then n = 1 \<and> ledgerOf (db s1) = (ledgerOf (db s))(k \<mapsto> (h, None))
            else n = 0 \<and> db s1 = db s" by (simp add: row_def)
      show ?thesis
      proof (cases "ledgerOf (db s) k")
        case None
        with i body q1 Inr show ?thesis by (auto simp: bindA_def tryA_def specClaim_def)
      next
        case (Some hr)
        with i have i0: "n = 0" "db s1 = db s" by auto
        obtain q2 s2 where q2: "sql (selectRequest k) s1 = (q2, s2)" by fastforce
        from sql_db [OF q2] selectRequest_spec [of k "db s1" q2 "db s2"] i0 have
          d2: "db s2 = db s" "q2 = Inl SqlFault \<or> q2 = Inr (find (\<lambda>r. rqKey r = k) (requests (db s)))" by auto
        from Some obtain r0 where r0: "find (\<lambda>r. rqKey r = k) (requests (db s)) = Some r0"
          "hr = (rqHash r0, rqResponse r0)" by (auto simp: ledgerOf_def)
        then have "rqStatus r0 = Completed \<longleftrightarrow> rqResponse r0 \<noteq> None"
          using ok by (auto simp: ledgerOk_def list_all_iff find_Some_iff)
        with d2 body q1 q2 Inr i0 r0 Some show ?thesis
          by (auto simp: bindA_def tryA_def specClaim_def split: if_splits option.splits)
      qed
    qed
  qed
qed

lemma complete_refines:
  assumes c: "completeServiceRequest (completionObj k h j ts) s = (r, s')" and ok: "ledgerOk (db s)"
  shows "case r of Inl e \<Rightarrow> ledgerOf (db s') = ledgerOf (db s)
    | Inr u \<Rightarrow> specComplete k h j (ledgerOf (db s)) = Some (ledgerOf (db s'))"
  using c unfolding completeServiceRequest_def
proof (cases rule: guarded_cases)
  case (fails e)
  then show ?thesis by simp
next
  case (returns comp)
  from validate_completionObj [OF returns(1)] have cl: "srKey comp = k" "srHash comp = h" "srResponseJson comp = j"
    by simp_all
  obtain q1 s1 where q1: "sql (selectRequest k) s = (q1, s1)" by fastforce
  from sql_db [OF q1] selectRequest_spec [of k "db s" q1 "db s1"] have
    d1: "db s1 = db s" "q1 = Inl SqlFault \<or> q1 = Inr (find (\<lambda>r. rqKey r = k) (requests (db s)))" by auto
  note body = returns(2) [unfolded cl]
  show ?thesis
  proof (cases "find (\<lambda>r. rqKey r = k) (requests (db s))")
    case None
    with d1 body q1 show ?thesis by (auto simp: bindA_def asError_def tryA_def)
  next
    case (Some r0)
    then have l: "ledgerOf (db s) k = Some (rqHash r0, rqResponse r0)" by (simp add: ledgerOf_def)
    have st: "rqStatus r0 = Completed \<longleftrightarrow> rqResponse r0 \<noteq> None"
      using ok Some by (auto simp: ledgerOk_def list_all_iff find_Some_iff)
    obtain q2 s2 where q2: "sql (updateCompletion comp) s1 = (q2, s2)" by fastforce
    show ?thesis
    proof (cases "q1 = Inl SqlFault \<or> rqHash r0 \<noteq> h \<or> rqStatus r0 = Completed")
      case True
      with d1 body q1 Some l st show ?thesis
        by (auto simp: bindA_def asError_def tryA_def specComplete_def split: if_splits)
    next
      case False
      with st have "rqHash r0 = h" "rqResponse r0 = None" by (auto intro: sr_status.exhaust [of "rqStatus r0"])
      with l cl have l0: "ledgerOf (db s) (srKey comp) = Some (srHash comp, None)" by simp
      have u: "(\<exists>e. q2 = Inl e) \<and> db s2 = db s \<or>
          q2 = Inr 1 \<and> ledgerOf (db s2) = (ledgerOf (db s))(k \<mapsto> (h, Some j))"
        using sql_db [OF q2] updateCompletion_error [of comp "db s1" _ "db s2"]
          updateCompletion_spec [OF ok l0, of _ "db s2"] d1(1) cl by (cases q2) auto
      have "bindA (asError CompletionFailed (sql (updateCompletion comp))) (\<lambda>changes.
           if changes \<noteq> 1 then failA (PersistenceError CompletionFailed) else retA ()) s1 = (r, s')"
        using body q1 d1 Some False by (auto simp: bindA_def asError_def tryA_def)
      then have "s' = s2 \<and> ((\<exists>e. q2 = Inl e) \<and> (\<exists>e. r = Inl e) \<or> q2 = Inr 1 \<and> r = Inr ())"
        using q2 u by (cases q2) (auto simp: bindA_def asError_def tryA_def split: if_splits)
      with u l l0 cl show ?thesis
        by (cases r) (auto simp: specComplete_def)
    qed
  qed
qed

interpretation lgr: request_ledger
  "\<lambda>k h ts. claimServiceRequest (claimObj k h ts)"
  "\<lambda>k h j ts. completeServiceRequest (completionObj k h j ts)"
  "\<lambda>s. ledgerOk (db s)" "\<lambda>s. ledgerOf (db s)"
proof unfold_locales
  fix s k h ts
  show "ledgerOk (db s) \<Longrightarrow> ledgerOk (db (snd (claimServiceRequest (claimObj k h ts) s)))"
    using holdsA_ledgerOk_claim by (auto simp: holdsA_def)
next
  fix s k h j ts
  show "ledgerOk (db s) \<Longrightarrow> ledgerOk (db (snd (completeServiceRequest (completionObj k h j ts) s)))"
    using holdsA_ledgerOk_complete by (auto simp: holdsA_def)
qed (use claim_refines complete_refines in fastforce)+

lemma lookup_refines:
  assumes "getServiceRequest (strObj [(''idempotencyKey'', k), (''requestHash'', h)]) s = (Inr r, s')"
    "ledgerOk (db s)"
  shows "r = specLookup k h (ledgerOf (db s)) \<and> db s' = db s"
  using assms(1) unfolding getServiceRequest_def
proof (cases rule: guarded_cases)
  case (returns lookup)
  then have cl: "srKey lookup = k" "srHash lookup = h"
    by (auto simp: validateServiceRequestLookup_def strObj_def validateRecordInput_def isRecord_def res_iff)
  obtain q1 s1 where q1: "sql (selectRequest k) s = (q1, s1)" by fastforce
  from sql_db [OF q1] selectRequest_spec [of k "db s" q1 "db s1"] have
    d1: "db s1 = db s" "q1 = Inl SqlFault \<or> q1 = Inr (find (\<lambda>r. rqKey r = k) (requests (db s)))" by auto
  show ?thesis
  proof (cases "find (\<lambda>r. rqKey r = k) (requests (db s))")
    case None
    with d1 returns(2) q1 cl show ?thesis by (auto simp: bindA_def specLookup_def ledgerOf_def)
  next
    case (Some r0)
    then have "rqStatus r0 = Completed \<longleftrightarrow> rqResponse r0 \<noteq> None"
      using assms(2) by (auto simp: ledgerOk_def list_all_iff find_Some_iff)
    with Some d1 returns(2) q1 cl show ?thesis
      by (cases "rqStatus r0"; auto simp: bindA_def specLookup_def ledgerOf_def split: if_splits option.splits)
  qed
qed simp

lemma getServiceRequest_keeps: "db (snd (getServiceRequest v s)) = db s"
proof -
  have q: "db s' = db s" if "sql (selectRequest k) s = (r, s')" for k r s'
    using sql_db [OF that] selectRequest_spec [of k "db s" r "db s'"] by auto
  show ?thesis
    by (auto simp: getServiceRequest_def bindA_def assertOpen_def tryA_def dest!: q
        split: sum.split prod.split option.split)
qed

subsection \<open>Properties\<close>

definition ledgerTables :: tables where
  "ledgerTables = emptyTables\<lparr>schema := [EventsT, RequestsT, RequestStatusC]\<rparr>"

lemma ledgerTables_ok: "ledgerOk ledgerTables"
  by (simp add: ledgerOk_def ledgerTables_def emptyTables_def)

text \<open>C1: At most one claim of an idempotency key returns \<open>claimed\<close>, over every run of claims and
  completions of any keys, hashes and responses, whichever statements the backend fails on the way:
  the durable claim lets one caller send and every other see a pending, conflicting or replayed
  request.\<close>

theorem sqlite_claimed_at_most_once:
  assumes "ledgerOk (db s)"
  shows "length (filter (wonClaim k) (fst (runLedger
      (\<lambda>k h ts. claimServiceRequest (claimObj k h ts))
      (\<lambda>k h j ts. completeServiceRequest (completionObj k h j ts)) ps s))) \<le> 1"
  by (rule lgr.claimed_at_most_once [OF assms])

lemma sqlite_claimed_at_most_once_witness:
  "length (filter (wonClaim ''k'') (fst (runLedger
      (\<lambda>k h ts. claimServiceRequest (claimObj k h ts))
      (\<lambda>k h j ts. completeServiceRequest (completionObj k h j ts))
      [DoClaim ''k'' ''h'' sampleNow, DoClaim ''k'' ''h'' sampleNow]
      (openStore ledgerTables [True])))) \<le> 1"
  by (rule sqlite_claimed_at_most_once) (simp add: openStore_def ledgerTables_ok)

lemma recordWebhookEvent_run:
  "case recordWebhookEvent input s of
     (Inl e, s') \<Rightarrow> db s' = db s
   | (Inr EventRecorded, s') \<Rightarrow> (\<exists>e. validateWebhookEventRecord input = Inr e \<and>
       eventKey e \<notin> eventKey ` set (events (db s)) \<and> db s' = (db s)\<lparr>events := events (db s) @ [e]\<rparr>)
   | (Inr EventDuplicate, s') \<Rightarrow> (\<exists>e. validateWebhookEventRecord input = Inr e \<and>
       eventKey e \<in> eventKey ` set (events (db s)) \<and> db s' = db s)"
proof (cases "closed s \<or> (\<exists>e. validateWebhookEventRecord input = Inl e)")
  case True
  then show ?thesis by (auto simp: recordWebhookEvent_def bindA_def assertOpen_def split: sum.splits)
next
  case False
  then obtain e where e: "validateWebhookEventRecord input = Inr e" "\<not> closed s"
    by (cases "validateWebhookEventRecord input") auto
  show ?thesis
  proof (cases "faults s \<noteq> [] \<and> hd (faults s)")
    case True
    with e show ?thesis by (simp add: recordWebhookEvent_def bindA_def assertOpen_def tryA_def sql_def)
  next
    case False
    then have "sql (insertEvent e) s = (fst (insertEvent e (db s)),
        s\<lparr>faults := tl (faults s), db := snd (insertEvent e (db s))\<rparr>)" unfolding sql_def by (rule if_not_P)
    with e have r: "recordWebhookEvent input s = (case fst (insertEvent e (db s)) of
         Inl c \<Rightarrow> if c = SqlConstraint then Inr EventDuplicate else Inl (PersistenceError MigrationFailed)
       | Inr _ \<Rightarrow> Inr EventRecorded,
       s\<lparr>faults := tl (faults s), db := snd (insertEvent e (db s))\<rparr>)"
      by (simp add: recordWebhookEvent_def bindA_def assertOpen_def tryA_def split: sum.split)
    show ?thesis unfolding r using e
      by (auto simp: insertEvent_def needs_def list_ex_iff intro: rev_image_eqI)
  qed
qed

text \<open>C2: \<open>claimServiceRequest\<close>, \<open>completeServiceRequest\<close> and \<open>getServiceRequest\<close> implement the abstract
  ledger statement by statement: when one returns, its result and the new table are those of the
  ledger's claim, completion or lookup; when it raises, whatever the reason, the ledger is unchanged.
  A lookup leaves the whole database as it was, whether it returns or raises.\<close>

theorem service_requests_refine_ledger:
  assumes "ledgerOk (db s)"
  shows "(case claimServiceRequest (claimObj k h ts) s of
      (Inl e, s') \<Rightarrow> ledgerOf (db s') = ledgerOf (db s)
    | (Inr q, s') \<Rightarrow> specClaim k h (ledgerOf (db s)) = (q, ledgerOf (db s'))) \<and>
    (case completeServiceRequest (completionObj k h j ts) s of
      (Inl e, s') \<Rightarrow> ledgerOf (db s') = ledgerOf (db s)
    | (Inr _, s') \<Rightarrow> specComplete k h j (ledgerOf (db s)) = Some (ledgerOf (db s'))) \<and>
    (case getServiceRequest (strObj [(''idempotencyKey'', k), (''requestHash'', h)]) s of
      (Inl e, s') \<Rightarrow> db s' = db s
    | (Inr q, s') \<Rightarrow> q = specLookup k h (ledgerOf (db s)) \<and> db s' = db s)"
proof (intro conjI)
  show "case claimServiceRequest (claimObj k h ts) s of
      (Inl e, s') \<Rightarrow> ledgerOf (db s') = ledgerOf (db s)
    | (Inr q, s') \<Rightarrow> specClaim k h (ledgerOf (db s)) = (q, ledgerOf (db s'))"
    by (cases "claimServiceRequest (claimObj k h ts) s") (use claim_refines [OF _ assms] in \<open>auto split: sum.splits\<close>)
  show "case completeServiceRequest (completionObj k h j ts) s of
      (Inl e, s') \<Rightarrow> ledgerOf (db s') = ledgerOf (db s)
    | (Inr _, s') \<Rightarrow> specComplete k h j (ledgerOf (db s)) = Some (ledgerOf (db s'))"
    by (cases "completeServiceRequest (completionObj k h j ts) s")
      (use complete_refines [OF _ assms] in \<open>auto split: sum.splits\<close>)
  show "case getServiceRequest (strObj [(''idempotencyKey'', k), (''requestHash'', h)]) s of
      (Inl e, s') \<Rightarrow> db s' = db s
    | (Inr q, s') \<Rightarrow> q = specLookup k h (ledgerOf (db s)) \<and> db s' = db s"
    by (cases "getServiceRequest (strObj [(''idempotencyKey'', k), (''requestHash'', h)]) s")
      (use lookup_refines [OF _ assms] getServiceRequest_keeps [of "strObj [(''idempotencyKey'', k), (''requestHash'', h)]" s]
        in \<open>auto split: sum.splits\<close>)
qed

lemma service_requests_refine_ledger_witness:
  "(case claimServiceRequest (claimObj ''k'' ''h'' sampleNow) (openStore ledgerTables []) of
      (Inl e, s') \<Rightarrow> ledgerOf (db s') = ledgerOf ledgerTables
    | (Inr q, s') \<Rightarrow> specClaim ''k'' ''h'' (ledgerOf ledgerTables) = (q, ledgerOf (db s'))) \<and>
   db (snd (getServiceRequest (strObj [(''idempotencyKey'', ''k''), (''requestHash'', ''h'')])
      (openStore ledgerTables [True]))) = ledgerTables"
proof -
  have d: "db (openStore ledgerTables fs) = ledgerTables" for fs by (simp add: openStore_def)
  from service_requests_refine_ledger [of "openStore ledgerTables []" "''k''" "''h''" "sampleNow"]
    service_requests_refine_ledger [of "openStore ledgerTables [True]" "''k''" "''h''"] ledgerTables_ok
  show ?thesis by (fastforce simp: d split: prod.splits sum.splits)
qed

text \<open>A webhook event is recorded exactly when its key is new, and then as the last row; a known key
  is a duplicate, and a duplicate or an error leaves the database as it was.  The first event with a
  key is the only one stored, whatever its hash.\<close>

theorem recordWebhookEvent_dedups:
  "case recordWebhookEvent input s of
     (Inl e, s') \<Rightarrow> db s' = db s
   | (Inr EventRecorded, s') \<Rightarrow> (\<exists>e. validateWebhookEventRecord input = Inr e \<and>
       eventKey e \<notin> eventKey ` set (events (db s)) \<and> db s' = (db s)\<lparr>events := events (db s) @ [e]\<rparr>)
   | (Inr EventDuplicate, s') \<Rightarrow> (\<exists>e. validateWebhookEventRecord input = Inr e \<and>
       eventKey e \<in> eventKey ` set (events (db s)) \<and> db s' = db s)"
  by (rule recordWebhookEvent_run)

lemma throwsOnly_option:
  "throwsOnly E m \<Longrightarrow> (\<And>x. throwsOnly E (f x)) \<Longrightarrow> throwsOnly E (case v of None \<Rightarrow> m | Some x \<Rightarrow> f x)"
  by (cases v) simp_all

lemma throws_recordWebhookEvent [throws]: "throwsOnly typedExn (recordWebhookEvent i)"
  unfolding recordWebhookEvent_def by (intro throws) (auto intro: typed_Inl)

lemma throws_recordServiceRequest [throws]: "throwsOnly typedExn (recordServiceRequest i)"
  unfolding recordServiceRequest_def by (intro throws) (auto intro: typed_Inl)

lemma throws_claimServiceRequest [throws]: "throwsOnly typedExn (claimServiceRequest i)"
  unfolding claimServiceRequest_def
  by (intro throws throwsOnly_option) (auto intro: typed_Inl throws split: exn.split)

lemma throws_completeServiceRequest [throws]: "throwsOnly typedExn (completeServiceRequest i)"
  unfolding completeServiceRequest_def
  by (intro throws throwsOnly_option) (auto intro: typed_Inl)

end
