(* ===== verification/Outbox_Store.thy ===== *)
theory Outbox_Store
  imports Request_Ledger
begin

section \<open>The durable outbox and its leases\<close>

text \<open>
  The outbox operations of \<open>sqlite.ts\<close>: enqueue, the transaction that claims due rows under a new
  lease, and the two marks that release a lease.  \<open>book\<close> is the abstract view of the table, a row per
  id; the locale \<open>outbox_store\<close> states what a worker relies on, and its lemmas hold for every store
  that keeps those laws.  The SQLite operations interpret it under every script of faults.
\<close>

subsection \<open>Statements\<close>

definition outboxProcessingLeaseMs :: int where
  "outboxProcessingLeaseMs = 5 * 60 * 1000"

definition subtractMillisecondsIso :: "string \<Rightarrow> int \<Rightarrow> exn + string" where
  "subtractMillisecondsIso timestamp ms = (case dateParse timestamp of None \<Rightarrow> Inl RangeErr
     | Some t \<Rightarrow> (case toISOString (t - ms) of None \<Rightarrow> Inl RangeErr | Some s \<Rightarrow> Inr s))"

definition insertOutbox :: "ob_enqueue \<Rightarrow> tables \<Rightarrow> (exn + unit) \<times> tables" where
  "insertOutbox e = needs [OutboxT] (\<lambda>t.
     if list_ex (\<lambda>r. obId r = eqId e) (outbox t) then (Inl SqlConstraint, t)
     else (Inr (), t\<lparr>outbox := outbox t @
       [\<lparr>obId = eqId e, obStatus = Pending, obAttempts = 0, obLeaseId = 0,
         obNextAttemptAt = Some (eqNextAttemptAt e), obPayloadHash = eqPayloadHash e,
         obCreatedAt = eqCreatedAt e, obUpdatedAt = eqCreatedAt e\<rparr>]\<rparr>))"

text \<open>The \<open>WHERE\<close> clause of the claim: due, or held by a lease that has expired.\<close>

definition claimable :: "string \<Rightarrow> string \<Rightarrow> ob_row \<Rightarrow> bool" where
  "claimable now leaseExpiredAt r = (
     (obStatus r = Pending \<and> (case obNextAttemptAt r of None \<Rightarrow> True | Some n \<Rightarrow> n \<le> now)) \<or>
     (obStatus r = Processing \<and> obUpdatedAt r \<le> leaseExpiredAt))"

definition outboxOrder :: "ob_row \<Rightarrow> string \<times> string" where
  "outboxOrder r = (obCreatedAt r, obId r)"

definition selectClaimable :: "string \<Rightarrow> string \<Rightarrow> nat \<Rightarrow> tables \<Rightarrow> (exn + ob_row list) \<times> tables" where
  "selectClaimable now leaseExpiredAt limit = needs [OutboxT, OutboxLeaseC] (readOnly (\<lambda>t.
     take limit (sort_key outboxOrder (filter (claimable now leaseExpiredAt) (outbox t)))))"

text \<open>An \<open>UPDATE\<close> of the rows a condition holds of, and their number.\<close>

definition updateOutbox :: "(ob_row \<Rightarrow> bool) \<Rightarrow> (ob_row \<Rightarrow> ob_row) \<Rightarrow> tables \<Rightarrow> (exn + nat) \<times> tables" where
  "updateOutbox P f = needs [OutboxT, OutboxLeaseC] (\<lambda>t. (Inr (length (filter P (outbox t))),
     t\<lparr>outbox := map (\<lambda>r. if P r then f r else r) (outbox t)\<rparr>))"

definition claimedRow :: "string \<Rightarrow> ob_row \<Rightarrow> ob_row" where
  "claimedRow now r = r\<lparr>obStatus := Processing, obAttempts := obAttempts r + 1,
     obLeaseId := obLeaseId r + 1, obNextAttemptAt := None, obUpdatedAt := now\<rparr>"

definition sameLease :: "ob_row \<Rightarrow> ob_row \<Rightarrow> bool" where
  "sameLease row r = (obId r = obId row \<and> obStatus r = obStatus row \<and> obLeaseId r = obLeaseId row)"

definition heldBy :: "string \<Rightarrow> int \<Rightarrow> ob_row \<Rightarrow> bool" where
  "heldBy i lease r = (obId r = i \<and> obStatus r = Processing \<and> obLeaseId r = lease)"

definition failedRow :: "string \<Rightarrow> string \<Rightarrow> ob_row \<Rightarrow> ob_row" where
  "failedRow next updated r = r\<lparr>obStatus := Pending, obNextAttemptAt := Some next, obUpdatedAt := updated\<rparr>"

definition succeededRow :: "string \<Rightarrow> ob_row \<Rightarrow> ob_row" where
  "succeededRow updated r = r\<lparr>obStatus := Succeeded, obNextAttemptAt := None, obUpdatedAt := updated\<rparr>"

subsection \<open>Operations\<close>

datatype enqueue_result = Enqueued | EnqueueDuplicate

definition enqueueOutboxItem :: "jsval \<Rightarrow> enqueue_result sqlAct" where
  "enqueueOutboxItem input = bindA assertOpen (\<lambda>_.
     bindA (liftA (validateOutboxEnqueue input)) (\<lambda>item.
     tryA (bindA (sql (insertOutbox item)) (\<lambda>_. retA Enqueued))
       (\<lambda>cause. if cause = SqlConstraint then retA EnqueueDuplicate
         else failA (PersistenceError OutboxFailed))))"

definition claimBody :: "string \<Rightarrow> nat \<Rightarrow> ob_row list sqlAct" where
  "claimBody now limit = bindA (liftA (subtractMillisecondsIso now outboxProcessingLeaseMs)) (\<lambda>leaseExpiredAt.
     bindA (sql (selectClaimable now leaseExpiredAt limit)) (\<lambda>rows.
     bindA (forA rows (\<lambda>row. bindA (sql (updateOutbox (sameLease row) (claimedRow now))) (\<lambda>changes.
       if changes \<noteq> 1 then failA (PersistenceError OutboxFailed) else retA ()))) (\<lambda>_.
     retA (map (claimedRow now) rows))))"

definition claimOutboxItems :: "jsval \<Rightarrow> ob_row list sqlAct" where
  "claimOutboxItems input = bindA assertOpen (\<lambda>_.
     bindA (liftA (validateOutboxClaim input)) (\<lambda>claim.
     inTransaction OutboxFailed (claimBody (clNow claim) (clLimit claim))))"

definition markOutboxItemFailed :: "jsval \<Rightarrow> unit sqlAct" where
  "markOutboxItemFailed input = bindA assertOpen (\<lambda>_.
     bindA (liftA (validateOutboxFailed input)) (\<lambda>failure.
     bindA (asError OutboxFailed (sql (updateOutbox (heldBy (okId failure) (okLeaseId failure))
         (failedRow (flNextAttemptAt failure) (okUpdatedAt failure))))) (\<lambda>changes.
     if changes \<noteq> 1 then failA (PersistenceError OutboxFailed) else retA ())))"

definition markOutboxItemSucceeded :: "jsval \<Rightarrow> unit sqlAct" where
  "markOutboxItemSucceeded input = bindA assertOpen (\<lambda>_.
     bindA (liftA (validateOutboxSucceeded input)) (\<lambda>success.
     bindA (asError OutboxFailed (sql (updateOutbox (heldBy (okId success) (okLeaseId success))
         (succeededRow (okUpdatedAt success))))) (\<lambda>changes.
     if changes \<noteq> 1 then failA (PersistenceError OutboxFailed) else retA ())))"

definition countOutboxPending :: "nat sqlAct" where
  "countOutboxPending = bindA assertOpen (\<lambda>_. sql (needs [OutboxT] (readOnly (\<lambda>t.
     length (filter (\<lambda>r. obStatus r = Pending) (outbox t))))))"

lemmas row_defs = claimedRow_def failedRow_def succeededRow_def

lemma row_ids [simp]:
  "obId (claimedRow now r) = obId r" "obId (failedRow n u r) = obId r" "obId (succeededRow u r) = obId r"
  by (simp_all add: row_defs)

lemma row_leases [simp]:
  "obLeaseId (claimedRow now r) = obLeaseId r + 1" "obLeaseId (failedRow n u r) = obLeaseId r"
  "obLeaseId (succeededRow u r) = obLeaseId r"
  by (simp_all add: row_defs)

subsection \<open>They keep the invariant\<close>

lemma keepsInv_insertOutbox [keeps]:
  "safeString (eqId e) \<Longrightarrow> isTimestamp (eqCreatedAt e) \<Longrightarrow> isTimestamp (eqNextAttemptAt e) \<Longrightarrow>
   keepsInv (insertOutbox e)"
  unfolding insertOutbox_def
  by (intro keeps) (auto simp: keepsInv_def dbInv_def list_ex_iff outboxInv_def)

lemma keepsInv_updateOutbox [keeps]:
  assumes "\<And>r. obId (f r) = obId r" "\<And>r. outboxInv r \<Longrightarrow> outboxInv (f r)"
  shows "keepsInv (updateOutbox P f)"
proof -
  have "map obId (map (\<lambda>r. if P r then f r else r) rs) = map obId rs" for rs
    by (induction rs) (simp_all add: assms)
  moreover have "list_all outboxInv (map (\<lambda>r. if P r then f r else r) rs)" if "list_all outboxInv rs" for rs
    using that by (auto simp: list_all_iff assms)
  ultimately show ?thesis
    unfolding updateOutbox_def by (intro keeps) (simp add: keepsInv_def dbInv_def del: map_map)
qed

lemma keepsInv_selectClaimable [keeps]: "keepsInv (selectClaimable n e l)"
  unfolding selectClaimable_def by (intro keeps)

lemma outboxInv_rows:
  "isTimestamp now \<Longrightarrow> outboxInv r \<Longrightarrow> outboxInv (claimedRow now r)"
  "isTimestamp n \<Longrightarrow> isTimestamp u \<Longrightarrow> outboxInv r \<Longrightarrow> outboxInv (failedRow n u r)"
  "isTimestamp u \<Longrightarrow> outboxInv r \<Longrightarrow> outboxInv (succeededRow u r)"
  by (auto simp: outboxInv_def row_defs)

text \<open>What a validated input carries.\<close>

lemma intWithin_nat: "intWithin 1 100 v = Some y \<Longrightarrow> Suc 0 \<le> nat y \<and> nat y \<le> 100"
  by (drule intWithin_bounds) linarith

lemma validated_outbox_claim:
  assumes "validateOutboxClaim i = Inr c"
  shows "isTimestamp (clNow c) \<and> 1 \<le> clLimit c \<and> clLimit c \<le> 100"
proof -
  from assms obtain ps l where "intWithin 1 100 (js_get ps ''limit'') = Some l" "clLimit c = nat l"
    "isTimestamp (clNow c)"
    by (auto simp: validateOutboxClaim_def res_iff badRecord_def split: option.splits)
  with intWithin_nat [of "js_get ps ''limit''" l] show ?thesis by simp
qed

lemma validated_outbox:
  "validateOutboxEnqueue i = Inr e \<Longrightarrow> safeString (eqId e) \<and> isTimestamp (eqCreatedAt e) \<and> isTimestamp (eqNextAttemptAt e)"
  "validateOutboxFailed i = Inr f \<Longrightarrow> isTimestamp (flNextAttemptAt f) \<and> isTimestamp (okUpdatedAt f)"
  "validateOutboxSucceeded i = Inr g \<Longrightarrow> isTimestamp (okUpdatedAt g)"
  by (auto simp: validateOutboxEnqueue_def validateOutboxFailed_def
      validateOutboxSucceeded_def res_iff badRecord_def split: if_splits)

lemma holdsA_liftA_bind:
  "(\<And>a. v = Inr a \<Longrightarrow> holdsA I (f a) I) \<Longrightarrow> holdsA I (bindA (liftA v) f) I"
  by (cases v) (auto simp: holdsA_def bindA_def)

lemma holdsA_enqueueOutboxItem [keeps]: "holdsA storeInv (enqueueOutboxItem i) storeInv"
  unfolding enqueueOutboxItem_def
  by (intro keeps keeps_rules holdsA_liftA_bind) (auto dest: validated_outbox)

lemma holdsA_claimBody: "isTimestamp now \<Longrightarrow> holdsA storeInv (claimBody now l) storeInv"
  unfolding claimBody_def by (intro keeps keeps_rules) (simp_all add: outboxInv_rows)

lemma holdsA_claimOutboxItems [keeps]: "holdsA storeInv (claimOutboxItems i) storeInv"
  unfolding claimOutboxItems_def
  by (intro holdsA_bindA_same keeps holdsA_liftA_bind holdsA_claimBody) (auto dest: validated_outbox_claim)

lemma holdsA_markOutboxItemFailed [keeps]: "holdsA storeInv (markOutboxItemFailed i) storeInv"
  unfolding markOutboxItemFailed_def
  by (intro holdsA_bindA_same [where m = assertOpen] holdsA_liftA_bind)
    (auto intro!: keeps keeps_rules outboxInv_rows dest: validated_outbox)

lemma holdsA_markOutboxItemSucceeded [keeps]: "holdsA storeInv (markOutboxItemSucceeded i) storeInv"
  unfolding markOutboxItemSucceeded_def
  by (intro holdsA_bindA_same [where m = assertOpen] holdsA_liftA_bind)
    (auto intro!: keeps keeps_rules outboxInv_rows dest: validated_outbox)

lemma holdsA_countOutboxPending [keeps]: "holdsA storeInv countOutboxPending storeInv"
  unfolding countOutboxPending_def by (intro keeps keeps_rules)

lemma throws_outbox [throws]:
  "throwsOnly typedExn (enqueueOutboxItem i)"
  "throwsOnly typedExn (markOutboxItemFailed i)"
  "throwsOnly typedExn (markOutboxItemSucceeded i)"
  unfolding enqueueOutboxItem_def markOutboxItemFailed_def markOutboxItemSucceeded_def
  by (intro throws; auto intro: typed_Inl)+

subsection \<open>The contract of an outbox store\<close>

type_synonym book = "string \<Rightarrow> ob_row option"

definition leaseHeld :: "book \<Rightarrow> string \<Rightarrow> int \<Rightarrow> bool" where
  "leaseHeld b i l = (case b i of None \<Rightarrow> False | Some r \<Rightarrow> obStatus r = Processing \<and> obLeaseId r = l)"

definition mark :: "string \<Rightarrow> (ob_row \<Rightarrow> ob_row) \<Rightarrow> book \<Rightarrow> book" where
  "mark i f b = b(i := map_option f (b i))"

text \<open>No row disappears and no lease number goes back.\<close>

definition leaseLe :: "book \<Rightarrow> book \<Rightarrow> bool" where
  "leaseLe b b' = (\<forall>i r. b i = Some r \<longrightarrow> (\<exists>r'. b' i = Some r' \<and> obLeaseId r \<le> obLeaseId r'))"

text \<open>What a claim at \<open>now\<close> hands out: a claimable row under its next lease.\<close>

definition claimedFrom :: "string \<Rightarrow> book \<Rightarrow> ob_row \<Rightarrow> bool" where
  "claimedFrom now b it = (case b (obId it) of None \<Rightarrow> False | Some r \<Rightarrow>
     it = claimedRow now r \<and> (case subtractMillisecondsIso now outboxProcessingLeaseMs of
       Inl _ \<Rightarrow> False | Inr e \<Rightarrow> claimable now e r))"

lemma leaseLe_refl [simp]: "leaseLe b b"
  by (simp add: leaseLe_def)

lemma leaseLe_trans: "leaseLe a b \<Longrightarrow> leaseLe b c \<Longrightarrow> leaseLe a c"
  unfolding leaseLe_def by (meson order_trans)

lemma leaseLe_mark: "(\<And>r. obLeaseId (f r) = obLeaseId r) \<Longrightarrow> leaseLe b (mark i f b)"
  by (simp add: leaseLe_def mark_def)

datatype outbox_op = OpClaim string nat | OpSucceed string int string | OpFail string int string string

text \<open>A lease is the pair a claim hands out.\<close>

definition leasesOf :: "ob_row list \<Rightarrow> (string \<times> int) list" where
  "leasesOf items = map (\<lambda>r. (obId r, obLeaseId r)) items"

text \<open>The leases handed out by a run of claims and marks.\<close>

fun runOutbox :: "(string \<Rightarrow> nat \<Rightarrow> 's \<Rightarrow> (exn + ob_row list) \<times> 's) \<Rightarrow>
    (string \<Rightarrow> int \<Rightarrow> string \<Rightarrow> 's \<Rightarrow> (exn + unit) \<times> 's) \<Rightarrow>
    (string \<Rightarrow> int \<Rightarrow> string \<Rightarrow> string \<Rightarrow> 's \<Rightarrow> (exn + unit) \<times> 's) \<Rightarrow>
    outbox_op list \<Rightarrow> 's \<Rightarrow> (string \<times> int) list \<times> 's" where
  "runOutbox clm suc fai [] s = ([], s)"
| "runOutbox clm suc fai (OpClaim now cap # ps) s = (case clm now cap s of
     (Inl _, s1) \<Rightarrow> runOutbox clm suc fai ps s1
   | (Inr items, s1) \<Rightarrow> (case runOutbox clm suc fai ps s1 of (ls, s') \<Rightarrow> (leasesOf items @ ls, s')))"
| "runOutbox clm suc fai (OpSucceed i l u # ps) s = runOutbox clm suc fai ps (snd (suc i l u s))"
| "runOutbox clm suc fai (OpFail i l n u # ps) s = runOutbox clm suc fai ps (snd (fai i l n u s))"

locale outbox_store =
  fixes clm :: "string \<Rightarrow> nat \<Rightarrow> 's \<Rightarrow> (exn + ob_row list) \<times> 's"
    and suc :: "string \<Rightarrow> int \<Rightarrow> string \<Rightarrow> 's \<Rightarrow> (exn + unit) \<times> 's"
    and fai :: "string \<Rightarrow> int \<Rightarrow> string \<Rightarrow> string \<Rightarrow> 's \<Rightarrow> (exn + unit) \<times> 's"
    and wf :: "'s \<Rightarrow> bool"
    and book :: "'s \<Rightarrow> book"
  assumes wf_keeps: "wf s \<Longrightarrow> wf (snd (clm now cap s))" "wf s \<Longrightarrow> wf (snd (suc i l u s))"
      "wf s \<Longrightarrow> wf (snd (fai i l n u s))"
    and clm_ok: "wf s \<Longrightarrow> clm now cap s = (Inr items, s') \<Longrightarrow>
      distinct (map obId items) \<and> length items \<le> cap \<and> (\<forall>it \<in> set items. claimedFrom now (book s) it) \<and>
      book s' = book s ++ map_of (map (\<lambda>r. (obId r, r)) items)"
    and clm_error: "wf s \<Longrightarrow> clm now cap s = (Inl e, s') \<Longrightarrow> leaseLe (book s) (book s')"
    and suc_ok: "wf s \<Longrightarrow> suc i l u s = (Inr x, s') \<Longrightarrow>
      leaseHeld (book s) i l \<and> book s' = mark i (succeededRow u) (book s)"
    and suc_error: "wf s \<Longrightarrow> suc i l u s = (Inl e, s') \<Longrightarrow> book s' = book s"
    and fai_ok: "wf s \<Longrightarrow> fai i l n u s = (Inr x, s') \<Longrightarrow>
      leaseHeld (book s) i l \<and> book s' = mark i (failedRow n u) (book s)"
    and fai_error: "wf s \<Longrightarrow> fai i l n u s = (Inl e, s') \<Longrightarrow> book s' = book s"
begin

lemma marks_leaseLe:
  assumes "wf s"
  shows "leaseLe (book s) (book (snd (suc i l u s)))" "leaseLe (book s) (book (snd (fai i l n u s)))"
proof -
  show "leaseLe (book s) (book (snd (suc i l u s)))"
  proof (cases "suc i l u s")
    case (Pair r s')
    with suc_ok [OF assms] suc_error [OF assms] show ?thesis
      by (cases r) (auto simp: leaseLe_mark)
  qed
  show "leaseLe (book s) (book (snd (fai i l n u s)))"
  proof (cases "fai i l n u s")
    case (Pair r s')
    with fai_ok [OF assms] fai_error [OF assms] show ?thesis
      by (cases r) (auto simp: leaseLe_mark)
  qed
qed

lemma map_of_items: "distinct (map obId items) \<Longrightarrow>
  map_of (map (\<lambda>r. (obId r, r)) items) i = find (\<lambda>r. obId r = i) items"
  by (induction items) auto

text \<open>A claim hands out the lease after the last one, and the book then holds exactly that lease.\<close>

lemma clm_leases:
  assumes "wf s" "clm now cap s = (Inr items, s')" "(i, l) \<in> set (leasesOf items)"
  shows "\<exists>r r'. book s i = Some r \<and> l = obLeaseId r + 1 \<and> book s' i = Some r' \<and> obLeaseId r' = l"
proof -
  from assms(3) obtain it where it: "it \<in> set items" "i = obId it" "l = obLeaseId it"
    by (auto simp: leasesOf_def)
  from clm_ok [OF assms(1,2)] have d: "distinct (map obId items)" "claimedFrom now (book s) it"
    "book s' = book s ++ map_of (map (\<lambda>r. (obId r, r)) items)" using it by auto
  have "find (\<lambda>r. obId r = i) items = Some it"
    using d(1) it by (simp add: find_Some_iff_unique)
  then have "book s' i = Some it" using d by (simp add: map_add_def map_of_items)
  with d(2) it show ?thesis by (auto simp: claimedFrom_def split: option.splits)
qed

lemma clm_leaseLe:
  assumes "wf s" "clm now cap s = (r, s')"
  shows "leaseLe (book s) (book s')"
proof (cases r)
  case (Inl e) with assms clm_error show ?thesis by blast
next
  case (Inr items)
  from clm_ok [OF assms(1)] assms(2) Inr have d: "distinct (map obId items)"
    "book s' = book s ++ map_of (map (\<lambda>r. (obId r, r)) items)" by blast+
  show ?thesis unfolding leaseLe_def
  proof (intro allI impI)
    fix i r assume r: "book s i = Some r"
    show "\<exists>r'. book s' i = Some r' \<and> obLeaseId r \<le> obLeaseId r'"
    proof (cases "i \<in> obId ` set items")
      case True
      then obtain l where "(i, l) \<in> set (leasesOf items)" by (auto simp: leasesOf_def)
      with clm_leases [OF assms(1)] assms(2) Inr r show ?thesis by fastforce
    next
      case False
      then have "map_of (map (\<lambda>r. (obId r, r)) items) i = None" by (auto simp: map_of_eq_None_iff)
      with d r show ?thesis by (simp add: map_add_def)
    qed
  qed
qed

text \<open>Leases handed out later are above those of the book, so no pair is ever handed out twice.\<close>

lemma runOutbox_fresh:
  assumes "wf s" "book s i = Some r" "(i, l) \<in> set (fst (runOutbox clm suc fai ps s))"
  shows "obLeaseId r < l"
  using assms
proof (induction ps arbitrary: s r)
  case (Cons p ps)
  have step: "obLeaseId r < l" if w: "wf s1" and le: "leaseLe (book s) (book s1)"
    and m: "(i, l) \<in> set (fst (runOutbox clm suc fai ps s1))" for s1
  proof -
    from le Cons.prems(2) obtain r1 where "book s1 i = Some r1" "obLeaseId r \<le> obLeaseId r1"
      by (auto simp: leaseLe_def)
    with Cons.IH [OF w _ m] show ?thesis by fastforce
  qed
  show ?case
  proof (cases p)
    case (OpClaim now cap)
    obtain q s1 where c: "clm now cap s = (q, s1)" by (cases "clm now cap s")
    have w: "wf s1" using wf_keeps(1) [OF Cons.prems(1), of now cap] c by simp
    show ?thesis
    proof (cases q)
      case (Inl e)
      with c OpClaim Cons.prems(3) step [OF w clm_leaseLe [OF Cons.prems(1) c]] show ?thesis by simp
    next
      case (Inr items)
      obtain ls s2 where r: "runOutbox clm suc fai ps s1 = (ls, s2)" by (cases "runOutbox clm suc fai ps s1")
      with c OpClaim Inr Cons.prems(3) consider "(i, l) \<in> set (leasesOf items)" | "(i, l) \<in> set ls" by auto
      then show ?thesis
      proof cases
        case 1
        with clm_leases [OF Cons.prems(1)] c Inr Cons.prems(2) show ?thesis by fastforce
      next
        case 2
        with r step [OF w clm_leaseLe [OF Cons.prems(1) c]] show ?thesis by simp
      qed
    qed
  next
    case (OpSucceed j m u)
    with Cons.prems(3) step [OF wf_keeps(2) marks_leaseLe(1)] Cons.prems(1) show ?thesis by simp
  next
    case (OpFail j m n u)
    with Cons.prems(3) step [OF wf_keeps(3) marks_leaseLe(2)] Cons.prems(1) show ?thesis by simp
  qed
qed simp

lemma leases_distinct:
  assumes "wf s"
  shows "distinct (fst (runOutbox clm suc fai ps s))"
  using assms
proof (induction ps arbitrary: s)
  case (Cons p ps)
  show ?case
  proof (cases p)
    case (OpClaim now cap)
    obtain q s1 where c: "clm now cap s = (q, s1)" by (cases "clm now cap s")
    have w: "wf s1" using wf_keeps(1) [OF Cons.prems, of now cap] c by simp
    obtain ls s2 where r: "runOutbox clm suc fai ps s1 = (ls, s2)" by (cases "runOutbox clm suc fai ps s1")
    have ls: "distinct ls" using Cons.IH [OF w] r by simp
    show ?thesis
    proof (cases q)
      case (Inl e) with c r ls OpClaim show ?thesis by simp
    next
      case (Inr items)
      then have c': "clm now cap s = (Inr items, s1)" using c by simp
      have "distinct (leasesOf items)"
        using clm_ok [OF Cons.prems c'] by (auto simp: leasesOf_def distinct_map inj_on_def)
      moreover have "x \<notin> set ls" if x: "x \<in> set (leasesOf items)" for x
      proof
        assume "x \<in> set ls"
        moreover obtain i l where il: "x = (i, l)" by (cases x)
        moreover from clm_leases [OF Cons.prems c'] x il obtain r' where
          "book s1 i = Some r'" "obLeaseId r' = l" by blast
        ultimately show False using runOutbox_fresh [OF w, of i r' l ps] r by simp
      qed
      ultimately show ?thesis using c' r ls OpClaim by auto
    qed
  qed (use Cons wf_keeps in simp_all)
qed simp

end

subsection \<open>SQLite keeps the contract\<close>

definition bookOf :: "tables \<Rightarrow> book" where
  "bookOf t i = find (\<lambda>r. obId r = i) (outbox t)"

definition claimArgs :: "string \<Rightarrow> nat \<Rightarrow> jsval" where
  "claimArgs now cap = JObj ObjectProto [(''now'', Data (JStr now)),
     (''limit'', Data (JNum (Fin (of_int (int cap)))))]"

definition succeededArgs :: "string \<Rightarrow> int \<Rightarrow> string \<Rightarrow> jsval" where
  "succeededArgs i l u = JObj ObjectProto [(''id'', Data (JStr i)),
     (''leaseId'', Data (JNum (Fin (of_int l)))), (''updatedAt'', Data (JStr u))]"

definition failedArgs :: "string \<Rightarrow> int \<Rightarrow> string \<Rightarrow> string \<Rightarrow> jsval" where
  "failedArgs i l n u = JObj ObjectProto [(''id'', Data (JStr i)),
     (''leaseId'', Data (JNum (Fin (of_int l)))), (''nextAttemptAt'', Data (JStr n)),
     (''updatedAt'', Data (JStr u))]"

lemma validate_claimArgs:
  "validateOutboxClaim (claimArgs now cap) = Inr c \<Longrightarrow> c = \<lparr>clNow = now, clLimit = cap\<rparr>"
  unfolding validateOutboxClaim_def claimArgs_def validateRecordInput_def isRecord_def
  by (simp del: of_int_of_nat_eq add: badRecord_def res_iff split: if_splits)

lemma validate_succeededArgs:
  "validateOutboxSucceeded (succeededArgs i l u) = Inr c \<Longrightarrow>
   c = \<lparr>okId = i, okLeaseId = l, okUpdatedAt = u\<rparr>"
  by (auto simp: validateOutboxSucceeded_def succeededArgs_def validateRecordInput_def isRecord_def
      validateLeaseId_def badRecord_def res_iff split: if_splits)

lemma validate_failedArgs:
  "validateOutboxFailed (failedArgs i l n u) = Inr c \<Longrightarrow>
   c = \<lparr>okId = i, okLeaseId = l, okUpdatedAt = u, flNextAttemptAt = n\<rparr>"
  by (auto simp: validateOutboxFailed_def failedArgs_def validateRecordInput_def isRecord_def
      validateLeaseId_def badRecord_def res_iff split: if_splits)

lemma bookOf_id: "bookOf t i = Some r \<Longrightarrow> obId r = i \<and> r \<in> set (outbox t)"
  by (auto simp: bookOf_def find_Some_iff)

text \<open>The rows a claim at \<open>now\<close> takes, in its order.\<close>

definition claimRows :: "string \<Rightarrow> string \<Rightarrow> nat \<Rightarrow> ob_row list \<Rightarrow> ob_row list" where
  "claimRows now e cap rs = take cap (sort_key outboxOrder (filter (claimable now e) rs))"

definition claimUpdate :: "string \<Rightarrow> string set \<Rightarrow> ob_row \<Rightarrow> ob_row" where
  "claimUpdate now ids r = (if obId r \<in> ids then claimedRow now r else r)"

lemma claimUpdate_id [simp]: "obId (claimUpdate now ids r) = obId r"
  by (simp add: claimUpdate_def)

lemma claimLoop_ok:
  assumes "forA rows (\<lambda>row. bindA (sql (updateOutbox (sameLease row) (claimedRow now))) (\<lambda>changes.
       if changes \<noteq> 1 then failA (PersistenceError OutboxFailed) else retA ())) s = (Inr u, s')"
    and "distinct (map obId (outbox (db s)))" "distinct (map obId rows)" "set rows \<subseteq> set (outbox (db s))"
  shows "db s' = (db s)\<lparr>outbox := map (claimUpdate now (obId ` set rows)) (outbox (db s))\<rparr>"
  using assms
proof (induction rows arbitrary: s)
  case Nil
  have "claimUpdate now {} = (\<lambda>r. r)" by (rule ext) (simp add: claimUpdate_def)
  with Nil show ?case by simp
next
  case (Cons row rows)
  obtain n s1 where 1: "sql (updateOutbox (sameLease row) (claimedRow now)) s = (Inr n, s1)"
    and 2: "forA rows (\<lambda>row. bindA (sql (updateOutbox (sameLease row) (claimedRow now))) (\<lambda>changes.
       if changes \<noteq> 1 then failA (PersistenceError OutboxFailed) else retA ())) s1 = (Inr u, s')"
    using Cons.prems(1) by (auto elim!: bindA_cases split: if_splits)
  have same: "sameLease row r \<longleftrightarrow> obId r = obId row" if "r \<in> set (outbox (db s))" for r
    using that Cons.prems(2,4) by (auto simp: sameLease_def dest: distinct_map_filter_eq)
  have "map (\<lambda>r. if sameLease row r then claimedRow now r else r) (outbox (db s)) =
      map (claimUpdate now {obId row}) (outbox (db s))"
    by (simp add: same claimUpdate_def)
  moreover from sql_db [OF 1] have
    "db s1 = (db s)\<lparr>outbox := map (\<lambda>r. if sameLease row r then claimedRow now r else r) (outbox (db s))\<rparr>"
    by (simp add: updateOutbox_def needs_def split: if_splits)
  ultimately have d1: "db s1 = (db s)\<lparr>outbox := map (claimUpdate now {obId row}) (outbox (db s))\<rparr>" by simp
  have in1: "set rows \<subseteq> set (outbox (db s1))"
  proof
    fix x assume x: "x \<in> set rows"
    then have "claimUpdate now {obId row} x = x" using Cons.prems(3)
      by (auto simp: claimUpdate_def) (metis imageI)
    with x Cons.prems(4) d1 show "x \<in> set (outbox (db s1))" by (auto intro: rev_image_eqI)
  qed
  have "distinct (map obId (outbox (db s1)))" using d1 Cons.prems(2) by (simp add: comp_def)
  from Cons.IH [OF 2 this _ in1] Cons.prems(3) have
    "db s' = (db s1)\<lparr>outbox := map (claimUpdate now (obId ` set rows)) (outbox (db s1))\<rparr>" by simp
  moreover have "claimUpdate now (obId ` set rows) (claimUpdate now {obId row} r) =
      claimUpdate now (obId ` set (row # rows)) r" for r
    using Cons.prems(3) by (auto simp: claimUpdate_def)
  ultimately show ?case using d1 by simp
qed

lemma claimRows_facts:
  assumes "distinct (map obId rs)"
  shows "distinct (map obId (claimRows now e cap rs))" "length (claimRows now e cap rs) \<le> cap"
    "set (claimRows now e cap rs) \<subseteq> set rs" "r \<in> set (claimRows now e cap rs) \<Longrightarrow> claimable now e r"
proof -
  have "distinct (map obId (sort_key outboxOrder (filter (claimable now e) rs)))"
    using assms by (auto simp: distinct_map intro: inj_on_subset)
  then show "distinct (map obId (claimRows now e cap rs))"
    unfolding claimRows_def take_map [symmetric] by (rule distinct_take)
  have sub: "set (claimRows now e cap rs) \<subseteq> {r \<in> set rs. claimable now e r}"
    unfolding claimRows_def using set_take_sort_key by fastforce
  then show "set (claimRows now e cap rs) \<subseteq> set rs" "r \<in> set (claimRows now e cap rs) \<Longrightarrow> claimable now e r"
    by auto
qed (simp add: claimRows_def)

lemma claimBody_ok:
  assumes c: "claimBody now cap s = (Inr items, s')" and d: "distinct (map obId (outbox (db s)))"
  shows "\<exists>e. subtractMillisecondsIso now outboxProcessingLeaseMs = Inr e \<and>
    items = map (claimedRow now) (claimRows now e cap (outbox (db s))) \<and>
    db s' = (db s)\<lparr>outbox := map (claimUpdate now (obId ` set (claimRows now e cap (outbox (db s)))))
      (outbox (db s))\<rparr>"
proof -
  define rows where "rows e = claimRows now e cap (outbox (db s))" for e
  from c obtain e rs s1 where e: "subtractMillisecondsIso now outboxProcessingLeaseMs = Inr e"
    and s1: "sql (selectClaimable now e cap) s = (Inr rs, s1)"
    and loop: "forA rs (\<lambda>row. bindA (sql (updateOutbox (sameLease row) (claimedRow now))) (\<lambda>changes.
       if changes \<noteq> 1 then failA (PersistenceError OutboxFailed) else retA ())) s1 = (Inr (), s')"
    and items: "items = map (claimedRow now) rs"
    unfolding claimBody_def by (auto elim!: bindA_cases)
  from sql_db [OF s1] have "db s1 = db s" "rs = rows e"
    by (auto simp: selectClaimable_def needs_def readOnly_def rows_def claimRows_def split: if_splits)
  with claimLoop_ok [OF loop] claimRows_facts [OF d] d e items show ?thesis
    by (simp add: rows_def)
qed

lemma keepsSnapshot_claimBody: "keepsSnapshot (claimBody now cap)"
proof -
  have "keepsSnapshot (liftA v)" for v :: "exn + string" by (simp add: keepsSnapshot_def)
  then show ?thesis unfolding claimBody_def by (intro plain)
qed

text \<open>A claim that returns committed its whole batch.\<close>

lemma claim_returns:
  assumes c: "claimOutboxItems (claimArgs now cap) s = (Inr items, s')"
    and d: "distinct (map obId (outbox (db s)))"
  shows "\<exists>e. subtractMillisecondsIso now outboxProcessingLeaseMs = Inr e \<and>
    items = map (claimedRow now) (claimRows now e cap (outbox (db s))) \<and>
    db s' = (db s)\<lparr>outbox := map (claimUpdate now (obId ` set (claimRows now e cap (outbox (db s)))))
      (outbox (db s))\<rparr> \<and> snapshot s = None \<and> snapshot s' = None"
  using c unfolding claimOutboxItems_def
proof (cases rule: guarded_cases)
  case (returns a)
  from validate_claimArgs [OF returns(1)] returns(2) have
    t: "inTransaction OutboxFailed (claimBody now cap) s = (Inr items, s')" by simp
  have n: "snapshot s = None"
    using t by (cases "snapshot s") (simp_all add: inTransaction_def bindA_def beginImmediate_def)
  from inTransaction_cases [OF keepsSnapshot_claimBody n t] obtain s1 s2 where
    "db s1 = db s" "claimBody now cap s1 = (Inr items, s2)" "db s' = db s2" "snapshot s' = None" by auto
  with claimBody_ok [of now cap s1 items s2] d n show ?thesis by auto
qed simp

text \<open>A claim that raises has at most moved leases forward, under a transaction that could not be
  rolled back.\<close>

definition leaseFloor :: "book \<Rightarrow> store \<Rightarrow> bool" where
  "leaseFloor b s = (leaseLe b (bookOf (db s)) \<and> (\<forall>t. snapshot s = Some t \<longrightarrow> leaseLe b (bookOf t)))"

lemma leaseFloor_sql:
  assumes "\<And>t. leaseLe b (bookOf t) \<Longrightarrow> leaseLe b (bookOf (snd (f t)))"
  shows "holdsA (leaseFloor b) (sql f) (leaseFloor b)"
  using assms by (simp add: holdsA_def leaseFloor_def sql_def)

lemma leaseFloor_transaction:
  "holdsA (leaseFloor b) beginImmediate (leaseFloor b)" "holdsA (leaseFloor b) commit (leaseFloor b)"
  "holdsA (leaseFloor b) rollback (leaseFloor b)"
  by (simp_all add: holdsA_def leaseFloor_def beginImmediate_def commit_def rollback_def split: option.split)

lemma bookOf_map:
  assumes "\<And>r. obId (f r) = obId r"
  shows "bookOf (t\<lparr>outbox := map f (outbox t)\<rparr>) i = map_option f (bookOf t i)"
  unfolding bookOf_def by (simp add: find_map_upd assms)

lemma leaseLe_updateOutbox:
  assumes "\<And>r. obId (f r) = obId r" "\<And>r. obLeaseId r \<le> obLeaseId (f r)"
  shows "leaseLe (bookOf t) (bookOf (snd (updateOutbox P f t)))"
proof -
  have id: "obId (if P r then f r else r) = obId r" for r by (simp add: assms)
  show ?thesis
    using assms(2) by (auto simp: leaseLe_def updateOutbox_def needs_def bookOf_map [OF id])
qed

lemma leaseFloor_claimBody: "holdsA (leaseFloor b) (claimBody now cap) (leaseFloor b)"
proof -
  have "holdsA (leaseFloor b) (sql (updateOutbox (sameLease row) (claimedRow now))) (leaseFloor b)" for row
    by (rule leaseFloor_sql) (erule leaseLe_trans, rule leaseLe_updateOutbox, simp_all)
  moreover have "holdsA (leaseFloor b) (sql (selectClaimable now e cap)) (leaseFloor b)" for e
    by (rule leaseFloor_sql) (simp add: selectClaimable_def needs_def readOnly_def)
  ultimately show ?thesis unfolding claimBody_def by (intro keeps_rules)
qed

lemma claim_leaseLe: "leaseLe (bookOf (db s)) (bookOf (db (snd (claimOutboxItems i s))))"
proof (cases "snapshot s")
  case None
  then have "leaseFloor (bookOf (db s)) s" by (simp add: leaseFloor_def)
  moreover have opn: "holdsA (leaseFloor b) assertOpen (leaseFloor b)" for b
    by (simp add: holdsA_def assertOpen_def)
  have "holdsA (leaseFloor b) (claimOutboxItems i) (leaseFloor b)" for b
    unfolding claimOutboxItems_def inTransaction_def
    by (intro keeps_rules opn leaseFloor_transaction leaseFloor_claimBody)
  ultimately have "leaseFloor (bookOf (db s)) (snd (claimOutboxItems i s))" unfolding holdsA_def by blast
  then show ?thesis by (simp add: leaseFloor_def)
next
  case (Some t)
  then show ?thesis
    by (auto simp: claimOutboxItems_def bindA_def assertOpen_def inTransaction_def beginImmediate_def
        split: sum.split)
qed

text \<open>A mark takes effect exactly under the lease it carries.\<close>

lemma updateHeld:
  assumes d: "distinct (map obId (outbox t))" and f: "\<And>r. obId (f r) = obId r"
    and u: "updateOutbox (heldBy i l) f t = (Inr n, t')"
  shows "if leaseHeld (bookOf t) i l then n = 1 \<and> bookOf t' = mark i f (bookOf t) else n = 0 \<and> t' = t"
proof -
  from u have n: "n = length (filter (heldBy i l) (outbox t))"
    and t': "t' = t\<lparr>outbox := map (\<lambda>r. if heldBy i l r then f r else r) (outbox t)\<rparr>"
    by (auto simp: updateOutbox_def needs_def split: if_splits)
  have held: "leaseHeld (bookOf t) i l \<longleftrightarrow> (\<exists>r \<in> set (outbox t). heldBy i l r)"
  proof
    show "leaseHeld (bookOf t) i l \<Longrightarrow> \<exists>r \<in> set (outbox t). heldBy i l r"
      by (auto simp: leaseHeld_def bookOf_def heldBy_def find_Some_iff split: option.splits)
  next
    assume "\<exists>r \<in> set (outbox t). heldBy i l r"
    then obtain r where r: "r \<in> set (outbox t)" "heldBy i l r" by blast
    then have "bookOf t i = Some r" using find_Some_iff_unique [OF d, of i r] by (simp add: bookOf_def heldBy_def)
    with r show "leaseHeld (bookOf t) i l" by (simp add: leaseHeld_def heldBy_def)
  qed
  show ?thesis
  proof (cases "leaseHeld (bookOf t) i l")
    case True
    with held obtain r0 where r0: "r0 \<in> set (outbox t)" "heldBy i l r0" by blast
    with d have one: "{r. heldBy i l r} \<inter> set (outbox t) = {r0}"
      by (auto simp: heldBy_def dest: distinct_map_filter_eq)
    have "n = 1" unfolding n using d one by (simp add: distinct_map distinct_length_filter)
    moreover have "bookOf t' j = mark i f (bookOf t) j" for j
    proof -
      have "bookOf t' j = map_option (\<lambda>r. if heldBy i l r then f r else r) (bookOf t j)"
        unfolding t' by (rule bookOf_map) (simp add: f)
      moreover have "bookOf t i = Some r0"
        using r0 d by (simp add: bookOf_def find_Some_iff_unique heldBy_def)
      moreover have "\<not> heldBy i l r" if "bookOf t j = Some r" "j \<noteq> i" for r
        using that by (auto simp: bookOf_def find_Some_iff heldBy_def)
      ultimately show ?thesis using r0 by (cases "bookOf t j") (auto simp: mark_def)
    qed
    ultimately show ?thesis using True by auto
  next
    case False
    with held have no: "\<not> heldBy i l r" if "r \<in> set (outbox t)" for r using that by blast
    then have "map (\<lambda>r. if heldBy i l r then f r else r) (outbox t) = outbox t"
      by (simp add: map_idI)
    moreover have "filter (heldBy i l) (outbox t) = []" using no by (simp add: filter_empty_conv)
    ultimately show ?thesis using False n t' by simp
  qed
qed

lemma updateOutbox_error: "updateOutbox P f t = (Inl e, t') \<Longrightarrow> t' = t"
  by (auto simp: updateOutbox_def needs_def split: if_splits)

lemma markBody_cases:
  assumes m: "bindA (asError OutboxFailed (sql (updateOutbox (heldBy i l) f))) (\<lambda>changes.
      if changes \<noteq> 1 then failA (PersistenceError OutboxFailed) else retA ()) s = (r, s')"
    and d: "distinct (map obId (outbox (db s)))" and f: "\<And>r. obId (f r) = obId r"
  shows "case r of Inl e \<Rightarrow> db s' = db s
    | Inr u \<Rightarrow> leaseHeld (bookOf (db s)) i l \<and> bookOf (db s') = mark i f (bookOf (db s))"
proof -
  obtain q s1 where q: "sql (updateOutbox (heldBy i l) f) s = (q, s1)" by fastforce
  show ?thesis
  proof (cases q)
    case (Inl e)
    with sql_db [OF q] updateOutbox_error have "db s1 = db s" by blast
    with m q Inl show ?thesis by (auto simp: bindA_def asError_def tryA_def)
  next
    case (Inr n)
    with sql_db [OF q] have "updateOutbox (heldBy i l) f (db s) = (Inr n, db s1)" by simp
    from updateHeld [OF d f this] m q Inr show ?thesis
      by (auto simp: bindA_def asError_def tryA_def split: if_splits)
  qed
qed

lemma storeInv_ids: "storeInv s \<Longrightarrow> distinct (map obId (outbox (db s)))"
  by (simp add: storeInv_def dbInv_def)

lemma succeed_cases:
  assumes m: "markOutboxItemSucceeded (succeededArgs i l u) s = (r, s')" and s: "storeInv s"
  shows "case r of Inl e \<Rightarrow> db s' = db s
    | Inr x \<Rightarrow> leaseHeld (bookOf (db s)) i l \<and> bookOf (db s') = mark i (succeededRow u) (bookOf (db s))"
  using m unfolding markOutboxItemSucceeded_def
proof (cases rule: guarded_cases)
  case (returns a)
  from validate_succeededArgs [OF returns(1)] have v: "okId a = i" "okLeaseId a = l" "okUpdatedAt a = u"
    by simp_all
  show ?thesis
    using markBody_cases [OF returns(2) storeInv_ids [OF s]] unfolding v by simp
qed simp

lemma fail_cases:
  assumes m: "markOutboxItemFailed (failedArgs i l n u) s = (r, s')" and s: "storeInv s"
  shows "case r of Inl e \<Rightarrow> db s' = db s
    | Inr x \<Rightarrow> leaseHeld (bookOf (db s)) i l \<and> bookOf (db s') = mark i (failedRow n u) (bookOf (db s))"
  using m unfolding markOutboxItemFailed_def
proof (cases rule: guarded_cases)
  case (returns a)
  from validate_failedArgs [OF returns(1)] have v: "okId a = i" "okLeaseId a = l" "okUpdatedAt a = u"
    "flNextAttemptAt a = n" by simp_all
  show ?thesis
    using markBody_cases [OF returns(2) storeInv_ids [OF s]] unfolding v by simp
qed simp

lemma claim_ok:
  assumes s: "storeInv s" and c: "claimOutboxItems (claimArgs now cap) s = (Inr items, s')"
  shows "distinct (map obId items) \<and> length items \<le> cap \<and>
      (\<forall>it \<in> set items. claimedFrom now (bookOf (db s)) it) \<and>
      bookOf (db s') = bookOf (db s) ++ map_of (map (\<lambda>r. (obId r, r)) items)"
proof -
  note d = storeInv_ids [OF s]
  from claim_returns [OF c d] obtain e where e: "subtractMillisecondsIso now outboxProcessingLeaseMs = Inr e"
    and items: "items = map (claimedRow now) (claimRows now e cap (outbox (db s)))"
    and s': "db s' = (db s)\<lparr>outbox := map (claimUpdate now (obId ` set (claimRows now e cap (outbox (db s)))))
      (outbox (db s))\<rparr>" by blast
  define rows where "rows = claimRows now e cap (outbox (db s))"
  note rf = claimRows_facts [OF d, where now = now and e = e and cap = cap, folded rows_def]
  have row: "bookOf (db s) (obId r) = Some r" if "r \<in> set rows" for r
    using that rf(3) d by (auto simp: bookOf_def find_Some_iff_unique)
  have "bookOf (db s') i = (bookOf (db s) ++ map_of (map (\<lambda>r. (obId r, r)) items)) i" for i
  proof (cases "i \<in> obId ` set rows")
    case True
    then obtain r where r: "r \<in> set rows" "i = obId r" by blast
    have "map_of (map (\<lambda>r. (obId r, r)) items) i = Some (claimedRow now r)"
      using r rf(1) items by (intro map_of_is_SomeI) (auto simp: rows_def comp_def)
    with r row s' show ?thesis
      by (simp add: bookOf_map rows_def [symmetric] map_add_def claimUpdate_def)
  next
    case False
    then have "map_of (map (\<lambda>r. (obId r, r)) items) i = None"
      using items by (auto simp: map_of_eq_None_iff rows_def)
    moreover have "map_option (claimUpdate now (obId ` set rows)) (bookOf (db s) i) = bookOf (db s) i"
      using False by (cases "bookOf (db s) i") (auto simp: claimUpdate_def dest!: bookOf_id)
    ultimately show ?thesis using s' by (simp add: bookOf_map rows_def [symmetric] map_add_def)
  qed
  then have b: "bookOf (db s') = bookOf (db s) ++ map_of (map (\<lambda>r. (obId r, r)) items)" ..
  have "claimedFrom now (bookOf (db s)) it" if it: "it \<in> set items" for it
    using it items row rf(4) e by (auto simp: claimedFrom_def rows_def [symmetric])
  with b rf(1,2) items show ?thesis
    by (auto simp: rows_def [symmetric] comp_def)
qed

interpretation obx: outbox_store
  "\<lambda>now cap. claimOutboxItems (claimArgs now cap)"
  "\<lambda>i l u. markOutboxItemSucceeded (succeededArgs i l u)"
  "\<lambda>i l n u. markOutboxItemFailed (failedArgs i l n u)"
  storeInv "\<lambda>s. bookOf (db s)"
proof unfold_locales
  fix s now cap e s'
  assume "claimOutboxItems (claimArgs now cap) s = (Inl e, s')"
  then show "leaseLe (bookOf (db s)) (bookOf (db s'))" using claim_leaseLe [of s "claimArgs now cap"] by simp
qed (use claim_ok succeed_cases fail_cases holdsA_claimOutboxItems holdsA_markOutboxItemSucceeded
       holdsA_markOutboxItemFailed in \<open>fastforce simp: holdsA_def\<close>)+

definition quiet :: "store \<Rightarrow> bool" where
  "quiet s = (faults s = [] \<and> \<not> closed s \<and> OutboxT \<in> set (schema (db s)) \<and> OutboxLeaseC \<in> set (schema (db s)))"

lemma markBody_live:
  assumes q: "quiet s" and d: "distinct (map obId (outbox (db s)))" and f: "\<And>r. obId (f r) = obId r"
    and h: "leaseHeld (bookOf (db s)) i l"
  shows "\<exists>s'. bindA (asError OutboxFailed (sql (updateOutbox (heldBy i l) f))) (\<lambda>changes.
      if changes \<noteq> 1 then failA (PersistenceError OutboxFailed) else retA ()) s = (Inr (), s') \<and>
      quiet s' \<and> bookOf (db s') = mark i f (bookOf (db s)) \<and> snapshot s' = snapshot s"
proof -
  obtain n t' where u: "updateOutbox (heldBy i l) f (db s) = (Inr n, t')" "schema t' = schema (db s)"
    using q by (auto simp: updateOutbox_def needs_def quiet_def)
  have s1: "sql (updateOutbox (heldBy i l) f) s = (Inr n, s\<lparr>db := t'\<rparr>)"
    using q u by (simp add: sql_noFaults quiet_def)
  from updateHeld [OF d f u(1)] h have "n = 1" "bookOf t' = mark i f (bookOf (db s))" by auto
  with s1 q u(2) show ?thesis by (simp add: bindA_def asError_def tryA_def quiet_def)
qed

lemma mark_live:
  assumes "quiet s" "storeInv s" "leaseHeld (bookOf (db s)) i l"
  shows "validateOutboxSucceeded (succeededArgs i l u) = Inr a \<Longrightarrow>
      \<exists>s'. markOutboxItemSucceeded (succeededArgs i l u) s = (Inr (), s') \<and> quiet s' \<and>
        bookOf (db s') = mark i (succeededRow u) (bookOf (db s)) \<and> snapshot s' = snapshot s"
    and "validateOutboxFailed (failedArgs i l n u) = Inr b \<Longrightarrow>
      \<exists>s'. markOutboxItemFailed (failedArgs i l n u) s = (Inr (), s') \<and> quiet s' \<and>
        bookOf (db s') = mark i (failedRow n u) (bookOf (db s)) \<and> snapshot s' = snapshot s"
proof -
  have op: "assertOpen s = (Inr (), s)" using assms(1) by (simp add: assertOpen_def quiet_def)
  { assume v: "validateOutboxSucceeded (succeededArgs i l u) = Inr a"
    have "okId a = i" "okLeaseId a = l" "okUpdatedAt a = u" using validate_succeededArgs [OF v] by simp_all
    with v op markBody_live [OF assms(1) storeInv_ids [OF assms(2)] row_ids(3) [of u] assms(3)]
    show "\<exists>s'. markOutboxItemSucceeded (succeededArgs i l u) s = (Inr (), s') \<and> quiet s' \<and>
        bookOf (db s') = mark i (succeededRow u) (bookOf (db s)) \<and> snapshot s' = snapshot s"
      by (simp add: markOutboxItemSucceeded_def bindA_def [of assertOpen] bindA_def [of "liftA _"]) }
  { assume v: "validateOutboxFailed (failedArgs i l n u) = Inr b"
    have "okId b = i" "okLeaseId b = l" "okUpdatedAt b = u" "flNextAttemptAt b = n"
      using validate_failedArgs [OF v] by simp_all
    with v op markBody_live [OF assms(1) storeInv_ids [OF assms(2)] row_ids(2) [of n u] assms(3)]
    show "\<exists>s'. markOutboxItemFailed (failedArgs i l n u) s = (Inr (), s') \<and> quiet s' \<and>
        bookOf (db s') = mark i (failedRow n u) (bookOf (db s)) \<and> snapshot s' = snapshot s"
      by (simp add: markOutboxItemFailed_def bindA_def [of assertOpen] bindA_def [of "liftA _"]) }
qed

text \<open>A mark that throws its own error ran under a stale lease, when no statement failed.\<close>

lemma mark_stale:
  assumes "quiet s" "storeInv s" "leaseHeld (bookOf (db s)) i l"
  shows "fst (markOutboxItemSucceeded (succeededArgs i l u) s) \<noteq> Inl (PersistenceError OutboxFailed)"
    and "fst (markOutboxItemFailed (failedArgs i l n u) s) \<noteq> Inl (PersistenceError OutboxFailed)"
proof -
  have op: "assertOpen s = (Inr (), s)" using assms(1) by (simp add: assertOpen_def quiet_def)
  show "fst (markOutboxItemSucceeded (succeededArgs i l u) s) \<noteq> Inl (PersistenceError OutboxFailed)"
  proof (cases "validateOutboxSucceeded (succeededArgs i l u)")
    case (Inl e)
    then have "inputExn e" by (rule input_Inl)
    with op Inl show ?thesis
      by (auto simp: markOutboxItemSucceeded_def bindA_def inputExn_def)
  next
    case (Inr a)
    from mark_live(1) [OF assms Inr] show ?thesis by auto
  qed
  show "fst (markOutboxItemFailed (failedArgs i l n u) s) \<noteq> Inl (PersistenceError OutboxFailed)"
  proof (cases "validateOutboxFailed (failedArgs i l n u)")
    case (Inl e)
    then have "inputExn e" by (rule input_Inl)
    with op Inl show ?thesis
      by (auto simp: markOutboxItemFailed_def bindA_def inputExn_def)
  next
    case (Inr a)
    from mark_live(2) [OF assms Inr] show ?thesis by auto
  qed
qed

subsection \<open>Without faults\<close>

lemma claimLoop_live:
  assumes "quiet s" "distinct (map obId (outbox (db s)))" "distinct (map obId rows)" "set rows \<subseteq> set (outbox (db s))"
  shows "\<exists>s'. forA rows (\<lambda>row. bindA (sql (updateOutbox (sameLease row) (claimedRow now))) (\<lambda>changes.
       if changes \<noteq> 1 then failA (PersistenceError OutboxFailed) else retA ())) s = (Inr (), s') \<and>
     quiet s' \<and> snapshot s' = snapshot s"
  using assms
proof (induction rows arbitrary: s)
  case (Cons row rows)
  let ?t = "(db s)\<lparr>outbox := map (claimUpdate now {obId row}) (outbox (db s))\<rparr>"
  have same: "sameLease row r \<longleftrightarrow> obId r = obId row" if "r \<in> set (outbox (db s))" for r
    using that Cons.prems(2,4) by (auto simp: sameLease_def dest: distinct_map_filter_eq)
  have "{r. sameLease row r} \<inter> set (outbox (db s)) = {row}"
    using Cons.prems(2,4) same by (auto dest: distinct_map_filter_eq)
  then have "length (filter (sameLease row) (outbox (db s))) = 1"
    using Cons.prems(2) by (simp add: distinct_map distinct_length_filter)
  moreover have "map (\<lambda>r. if sameLease row r then claimedRow now r else r) (outbox (db s)) =
      map (claimUpdate now {obId row}) (outbox (db s))"
    by (simp add: same claimUpdate_def)
  ultimately have 1: "sql (updateOutbox (sameLease row) (claimedRow now)) s = (Inr 1, s\<lparr>db := ?t\<rparr>)"
    using Cons.prems(1) by (simp add: sql_noFaults updateOutbox_def needs_def quiet_def)
  have "set rows \<subseteq> set (outbox ?t)"
  proof
    fix x assume x: "x \<in> set rows"
    then have "claimUpdate now {obId row} x = x" using Cons.prems(3)
      by (auto simp: claimUpdate_def) (metis imageI)
    with x Cons.prems(4) show "x \<in> set (outbox ?t)" by (auto intro: rev_image_eqI)
  qed
  then have "\<exists>s'. forA rows (\<lambda>row. bindA (sql (updateOutbox (sameLease row) (claimedRow now))) (\<lambda>changes.
       if changes \<noteq> 1 then failA (PersistenceError OutboxFailed) else retA ())) (s\<lparr>db := ?t\<rparr>) = (Inr (), s') \<and>
     quiet s' \<and> snapshot s' = snapshot (s\<lparr>db := ?t\<rparr>)"
    using Cons.prems by (intro Cons.IH) (simp_all add: quiet_def comp_def)
  moreover have "bindA (sql (updateOutbox (sameLease row) (claimedRow now))) (\<lambda>changes.
       if changes \<noteq> 1 then failA (PersistenceError OutboxFailed) else retA ()) s = (Inr (), s\<lparr>db := ?t\<rparr>)"
    using 1 by (simp add: bindA_ret)
  ultimately show ?case by (simp add: bindA_ret)
qed simp

text \<open>A claim on a store without faults and without an open transaction returns.\<close>

lemma claim_live:
  assumes q: "quiet s" and sn: "snapshot s = None" and inv: "storeInv s"
    and n: "isTimestamp now" and cap: "1 \<le> cap" "cap \<le> 100"
  shows "\<exists>items s'. claimOutboxItems (claimArgs now cap) s = (Inr items, s') \<and> quiet s' \<and> snapshot s' = None"
proof -
  have p: "dateParse now = Some (instantOf now)" "fourDigitYear (instantOf now)"
    using isTimestampD [OF n] by auto
  obtain e where "toISOString (instantOf now - outboxProcessingLeaseMs) = Some e"
    using toISOString_shift [OF p(2), of "- outboxProcessingLeaseMs"] by (auto simp: outboxProcessingLeaseMs_def)
  with p have e: "subtractMillisecondsIso now outboxProcessingLeaseMs = Inr e"
    by (simp add: subtractMillisecondsIso_def)
  define s0 where "s0 = s\<lparr>snapshot := Some (db s)\<rparr>"
  define rows where "rows = claimRows now e cap (outbox (db s))"
  note rf = claimRows_facts [OF storeInv_ids [OF inv], where now = now and e = e and cap = cap, folded rows_def]
  have sel: "sql (selectClaimable now e cap) s0 = (Inr rows, s0)"
    using q by (simp add: sql_noFaults selectClaimable_def needs_def readOnly_def quiet_def s0_def rows_def claimRows_def)
  from claimLoop_live [of s0 rows now] q storeInv_ids [OF inv] rf(1,3) obtain s1 where
    loop: "forA rows (\<lambda>row. bindA (sql (updateOutbox (sameLease row) (claimedRow now))) (\<lambda>changes.
       if changes \<noteq> 1 then failA (PersistenceError OutboxFailed) else retA ())) s0 = (Inr (), s1)"
    "quiet s1" "snapshot s1 = snapshot s0" by (auto simp: s0_def quiet_def)
  have "claimBody now cap s0 = (Inr (map (claimedRow now) rows), s1)"
    using e sel loop(1) by (simp add: claimBody_def bindA_def)
  then have "inTransaction OutboxFailed (claimBody now cap) s = (Inr (map (claimedRow now) rows), s1\<lparr>snapshot := None\<rparr>)"
    using q loop(2,3) sn by (intro inTransaction_noFaults) (simp_all add: s0_def quiet_def)
  moreover have "validateOutboxClaim (claimArgs now cap) = Inr \<lparr>clNow = now, clLimit = cap\<rparr>"
    using cap validateTimestamp_Inr [of "JStr now" now] n
    by (simp del: of_int_of_nat_eq add: validateOutboxClaim_def claimArgs_def validateRecordInput_def isRecord_def)
  moreover have "assertOpen s = (Inr (), s)" using q by (simp add: assertOpen_def quiet_def)
  ultimately have "claimOutboxItems (claimArgs now cap) s = (Inr (map (claimedRow now) rows), s1\<lparr>snapshot := None\<rparr>)"
    by (simp add: claimOutboxItems_def bindA_def)
  with loop(2) show ?thesis by (auto simp: quiet_def)
qed

subsection \<open>Properties\<close>

definition outboxTables :: "ob_row list \<Rightarrow> tables" where
  "outboxTables rs = emptyTables\<lparr>schema := [OutboxT, OutboxLeaseC], outbox := rs\<rparr>"

lemma sampleNow_lease: "subtractMillisecondsIso sampleNow outboxProcessingLeaseMs
   = Inr ''2024-01-02T02:59:05.678Z''"
  by code_simp

definition sampleRow :: ob_row where
  "sampleRow = \<lparr>obId = ''a'', obStatus = Pending, obAttempts = 0, obLeaseId = 0,
    obNextAttemptAt = None, obPayloadHash = ''p'', obCreatedAt = sampleNow, obUpdatedAt = sampleNow\<rparr>"

lemma sampleClaim_valid: "validateOutboxClaim (claimArgs sampleNow 5) = Inr \<lparr>clNow = sampleNow, clLimit = 5\<rparr>"
  by (simp add: validateOutboxClaim_def claimArgs_def validateRecordInput_def isRecord_def intWithin_def)

lemma sampleClaim:
  "claimOutboxItems (claimArgs sampleNow 5) (openStore (outboxTables [sampleRow]) []) =
   (Inr [claimedRow sampleNow sampleRow], openStore (outboxTables [claimedRow sampleNow sampleRow]) [])"
  by (simp add: claimOutboxItems_def sampleClaim_valid claimBody_def sampleNow_lease run_simps openStore_def
      outboxTables_def emptyTables_def selectClaimable_def updateOutbox_def claimable_def sameLease_def
      sampleRow_def)

lemma sampleId_safe: "safeString ''a''"
  by code_simp

lemma sampleTables_inv: "dbInv (outboxTables [sampleRow])"
  by (simp add: dbInv_def outboxTables_def emptyTables_def outboxInv_def sampleRow_def sampleNow_isTimestamp
      sampleId_safe)

lemma sampleFail_valid: "validateOutboxFailed (failedArgs ''a'' 1 sampleNow sampleNow) =
   Inr \<lparr>okId = ''a'', okLeaseId = 1, okUpdatedAt = sampleNow, flNextAttemptAt = sampleNow\<rparr>"
  by (simp add: validateOutboxFailed_def failedArgs_def validateRecordInput_def isRecord_def intWithin_def
     sampleId_safe validateRecordString_def validateLeaseId_def maxSafeInteger_def)

lemma sampleFail:
  "markOutboxItemFailed (failedArgs ''a'' 1 sampleNow sampleNow) (openStore (outboxTables [claimedRow sampleNow sampleRow]) []) =
   (Inr (), openStore (outboxTables [failedRow sampleNow sampleNow (claimedRow sampleNow sampleRow)]) [])"
  by (simp add: markOutboxItemFailed_def sampleFail_valid run_simps openStore_def
      outboxTables_def emptyTables_def updateOutbox_def heldBy_def sampleRow_def row_defs)

lemma sampleClaim_again:
  "claimOutboxItems (claimArgs sampleNow 5) (openStore (outboxTables [failedRow sampleNow sampleNow (claimedRow sampleNow sampleRow)]) []) =
   (Inr [sampleRow\<lparr>obStatus := Processing, obAttempts := 2, obLeaseId := 2\<rparr>],
    openStore (outboxTables [sampleRow\<lparr>obStatus := Processing, obAttempts := 2, obLeaseId := 2\<rparr>]) [])"
  by (simp add: claimOutboxItems_def sampleClaim_valid claimBody_def sampleNow_lease run_simps openStore_def
      outboxTables_def emptyTables_def selectClaimable_def updateOutbox_def claimable_def sameLease_def
      sampleRow_def row_defs)

lemma sampleRun: "fst (runOutbox (\<lambda>now cap. claimOutboxItems (claimArgs now cap))
    (\<lambda>i l u. markOutboxItemSucceeded (succeededArgs i l u))
    (\<lambda>i l n u. markOutboxItemFailed (failedArgs i l n u))
    [OpClaim sampleNow 5, OpFail ''a'' 1 sampleNow sampleNow, OpClaim sampleNow 5]
    (openStore (outboxTables [sampleRow]) [])) = [(''a'', 1), (''a'', 2)]"
  by (simp add: sampleClaim sampleFail sampleClaim_again leasesOf_def) (simp add: sampleRow_def)

text \<open>C3: No lease is ever handed out twice.  Over any run of claims (at any times, with any limits) and
  of marks (with any ids, leases and times), whichever statements fail, the pairs of row id and lease
  number that claims return are all different: a worker that still holds an old lease can never be
  confused with the one that holds the new one.\<close>

theorem sqlite_leases_distinct:
  assumes "storeInv s"
  shows "distinct (fst (runOutbox (\<lambda>now cap. claimOutboxItems (claimArgs now cap))
    (\<lambda>i l u. markOutboxItemSucceeded (succeededArgs i l u))
    (\<lambda>i l n u. markOutboxItemFailed (failedArgs i l n u)) ps s))"
  by (rule obx.leases_distinct [OF assms])

lemma sqlite_leases_distinct_witness:
  "fst (runOutbox (\<lambda>now cap. claimOutboxItems (claimArgs now cap))
    (\<lambda>i l u. markOutboxItemSucceeded (succeededArgs i l u))
    (\<lambda>i l n u. markOutboxItemFailed (failedArgs i l n u))
    [OpClaim sampleNow 5, OpFail ''a'' 1 sampleNow sampleNow, OpClaim sampleNow 5]
    (openStore (outboxTables [sampleRow]) [])) = [(''a'', 1), (''a'', 2)] \<and>
   distinct [(''a'', 1 :: int), (''a'', 2)]"
  using sqlite_leases_distinct [OF storeInv_openStore [OF sampleTables_inv],
      of "[OpClaim sampleNow 5, OpFail ''a'' 1 sampleNow sampleNow, OpClaim sampleNow 5]" "[]"]
  by (simp only: sampleRun)

text \<open>A mark takes effect exactly under the current lease.  When \<open>markOutboxItemSucceeded\<close> or
  \<open>markOutboxItemFailed\<close> returns, the row was in processing under the lease it names, and only that
  row changed; when it throws, the database is unchanged, and if its statement ran (no fault, valid
  arguments) the lease was stale.\<close>

theorem marks_need_the_current_lease:
  assumes "storeInv s"
  shows "(case markOutboxItemSucceeded (succeededArgs i l u) s of
      (Inl e, s') \<Rightarrow> db s' = db s \<and> (quiet s \<longrightarrow> e = PersistenceError OutboxFailed \<longrightarrow>
        \<not> leaseHeld (bookOf (db s)) i l)
    | (Inr _, s') \<Rightarrow> leaseHeld (bookOf (db s)) i l \<and>
        bookOf (db s') = mark i (succeededRow u) (bookOf (db s))) \<and>
    (case markOutboxItemFailed (failedArgs i l n u) s of
      (Inl e, s') \<Rightarrow> db s' = db s \<and> (quiet s \<longrightarrow> e = PersistenceError OutboxFailed \<longrightarrow>
        \<not> leaseHeld (bookOf (db s)) i l)
    | (Inr _, s') \<Rightarrow> leaseHeld (bookOf (db s)) i l \<and>
        bookOf (db s') = mark i (failedRow n u) (bookOf (db s)))"
proof
  show "case markOutboxItemSucceeded (succeededArgs i l u) s of
      (Inl e, s') \<Rightarrow> db s' = db s \<and> (quiet s \<longrightarrow> e = PersistenceError OutboxFailed \<longrightarrow>
        \<not> leaseHeld (bookOf (db s)) i l)
    | (Inr _, s') \<Rightarrow> leaseHeld (bookOf (db s)) i l \<and>
        bookOf (db s') = mark i (succeededRow u) (bookOf (db s))"
    by (cases "markOutboxItemSucceeded (succeededArgs i l u) s")
      (use succeed_cases [OF _ assms, of i l u] mark_stale(1) [OF _ assms, of i l u] in \<open>auto split: sum.splits\<close>)
  show "case markOutboxItemFailed (failedArgs i l n u) s of
      (Inl e, s') \<Rightarrow> db s' = db s \<and> (quiet s \<longrightarrow> e = PersistenceError OutboxFailed \<longrightarrow>
        \<not> leaseHeld (bookOf (db s)) i l)
    | (Inr _, s') \<Rightarrow> leaseHeld (bookOf (db s)) i l \<and>
        bookOf (db s') = mark i (failedRow n u) (bookOf (db s))"
    by (cases "markOutboxItemFailed (failedArgs i l n u) s")
      (use fail_cases [OF _ assms, of i l n u] mark_stale(2) [OF _ assms, of i l n u] in \<open>auto split: sum.splits\<close>)
qed

lemma marks_need_the_current_lease_witness:
  "case markOutboxItemSucceeded (succeededArgs ''a'' 1 sampleNow) (openStore emptyTables []) of
      (Inl e, s') \<Rightarrow> db s' = emptyTables
    | (Inr _, s') \<Rightarrow> leaseHeld (bookOf emptyTables) ''a'' 1"
proof -
  have "storeInv (openStore emptyTables [])" by (rule storeInv_openStore, rule dbInv_emptyTables)
  from marks_need_the_current_lease [OF this, of "''a''" 1 "sampleNow"]
  have "case markOutboxItemSucceeded (succeededArgs ''a'' 1 sampleNow) (openStore emptyTables []) of
      (Inl e, s') \<Rightarrow> db s' = db (openStore emptyTables [])
    | (Inr _, s') \<Rightarrow> leaseHeld (bookOf (db (openStore emptyTables []))) ''a'' 1"
    by (auto split: prod.splits sum.splits)
  moreover have "db (openStore emptyTables []) = emptyTables" by (simp add: openStore_def)
  ultimately show ?thesis by (simp only:)
qed


text \<open>A claim that returns took the oldest due rows and nothing else: at most \<open>limit\<close> rows, in the
  order of \<open>(created_at, id)\<close>, each due at \<open>now\<close> or with an expired lease and now under its next lease;
  a due row is left out only when the batch is full of rows at least as old; every other row is as it
  was.\<close>

theorem claim_takes_oldest_due:
  assumes "storeInv s" "claimOutboxItems (claimArgs now cap) s = (Inr items, s')"
  shows "length items \<le> cap \<and> sorted (map outboxOrder items) \<and>
    (\<forall>it \<in> set items. claimedFrom now (bookOf (db s)) it) \<and>
    bookOf (db s') = bookOf (db s) ++ map_of (map (\<lambda>r. (obId r, r)) items) \<and>
    (\<exists>e. subtractMillisecondsIso now outboxProcessingLeaseMs = Inr e \<and>
      (\<forall>r \<in> set (outbox (db s)). claimable now e r \<longrightarrow> obId r \<notin> obId ` set items \<longrightarrow>
        length items = cap \<and> (\<forall>it \<in> set items. outboxOrder it \<le> outboxOrder r)))"
proof -
  from claim_returns [OF assms(2) storeInv_ids [OF assms(1)]] obtain e where
    e: "subtractMillisecondsIso now outboxProcessingLeaseMs = Inr e" and
    items: "items = map (claimedRow now) (claimRows now e cap (outbox (db s)))" by blast
  have ord: "outboxOrder (claimedRow now r) = outboxOrder r" for r
    by (simp add: outboxOrder_def row_defs)
  have "sorted (map outboxOrder items)"
    unfolding items claimRows_def by (simp add: comp_def ord sorted_take_sort_key)
  moreover have "length items = cap \<and> (\<forall>it \<in> set items. outboxOrder it \<le> outboxOrder r)"
    if "r \<in> set (outbox (db s))" "claimable now e r" "obId r \<notin> obId ` set items" for r
    using beyond_take_sort_key [of r "filter (claimable now e) (outbox (db s))" cap outboxOrder] that
    by (auto simp: items claimRows_def ord image_image)
  ultimately show ?thesis using claim_ok [OF assms] e by blast
qed

lemma claim_takes_oldest_due_witness:
  "claimedFrom sampleNow (bookOf (outboxTables [sampleRow])) (claimedRow sampleNow sampleRow)"
  using claim_takes_oldest_due [OF storeInv_openStore [OF sampleTables_inv] sampleClaim]
  by (simp add: openStore_def)

text \<open>A claim is all or nothing.  When it throws, the database is as it was, except when the
  \<open>ROLLBACK\<close> itself fails: then a raw database error escapes and the transaction stays open over
  the database the claim began with.\<close>

theorem claim_all_or_nothing:
  assumes "snapshot s = None" "claimOutboxItems i s = (Inl e, s')"
  shows "(db s' = db s \<and> snapshot s' = None) \<or> (e = SqlFault \<and> snapshot s' = Some (db s))"
  using assms(2) unfolding claimOutboxItems_def
proof (cases rule: guarded_cases)
  case (returns a)
  from inTransaction_cases [OF keepsSnapshot_claimBody assms(1) returns(2)] show ?thesis by auto
qed (use assms(1) in simp)

lemma claim_all_or_nothing_witness:
  "db (snd (claimOutboxItems JNull (openStore (outboxTables [sampleRow]) []))) = outboxTables [sampleRow]"
proof -
  let ?s = "openStore (outboxTables [sampleRow]) []"
  have "claimOutboxItems JNull ?s = (Inl (PersistenceError InvalidRecord), ?s)"
    by (simp add: claimOutboxItems_def run_simps openStore_def validateOutboxClaim_def
        validateRecordInput_def isRecord_def badRecord_def)
  from claim_all_or_nothing [OF _ this] this show ?thesis by (simp add: openStore_def)
qed

end
