(* ===== verification/Message_Store.thy ===== *)
theory Message_Store
  imports Outbox_Store
begin

section \<open>Message projections and delivery statuses\<close>

text \<open>
  The message operations of \<open>sqlite.ts\<close>: recording a projection with its deduplication and the
  reconciliation with earlier status events, appending a status event under the rank transition
  rules, lookup, cursor pagination and the latest inbound message of a phone.
\<close>

subsection \<open>Status ranks\<close>

text \<open>
  \<open>STATUS_RANK[status] ?? 0\<close> reads a plain object, so a status that names a property of
  \<open>Object.prototype\<close> finds that property: a function (or, for \<open>__proto__\<close>, an object) in place of a
  number.  A comparison converts such a value to its text: against a number it is false, against
  another one it compares the texts.
\<close>

datatype rank = RankNum nat | RankText string

definition functionNames :: "(string \<times> string) list" where
  "functionNames = map (\<lambda>n. (n, n)) [''toString'', ''toLocaleString'', ''valueOf'', ''hasOwnProperty'',
     ''isPrototypeOf'', ''propertyIsEnumerable'', ''__defineGetter__'', ''__defineSetter__'',
     ''__lookupGetter__'', ''__lookupSetter__''] @ [(''constructor'', ''Object'')]"

definition statusRank :: "string \<Rightarrow> rank" where
  "statusRank st = (if st = ''pending'' then RankNum 0 else if st = ''sent'' then RankNum 1
     else if st = ''delivered'' then RankNum 2 else if st = ''read'' then RankNum 3
     else if st = ''failed'' then RankNum 1
     else if st = ''__proto__'' then RankText ''[object Object]''
     else (case map_of functionNames st of
         Some n \<Rightarrow> RankText (''function '' @ n @ ''() { [native code] }'') | None \<Rightarrow> RankNum 0))"

definition rankLess :: "rank \<Rightarrow> rank \<Rightarrow> bool" where
  "rankLess a b = (case (a, b) of (RankNum m, RankNum n) \<Rightarrow> m < n | (RankText s, RankText t) \<Rightarrow> s < t | _ \<Rightarrow> False)"

definition failedMayReplace :: "string \<Rightarrow> bool" where
  "failedMayReplace current = (case statusRank current of RankNum n \<Rightarrow> n \<le> 1 | RankText _ \<Rightarrow> False)"

definition shouldAdvanceStatus :: "string \<Rightarrow> string \<Rightarrow> bool" where
  "shouldAdvanceStatus new current = (if new = ''failed'' then failedMayReplace current
     else rankLess (statusRank current) (statusRank new))"

subsection \<open>Recording a message\<close>

text \<open>\<open>INSERT OR IGNORE\<close>: the primary key and, once it exists, the unique index of migration 006.\<close>

definition insertMessage :: "message_record \<Rightarrow> tables \<Rightarrow> (exn + unit) \<times> tables" where
  "insertMessage m = needs [MessagesT] (\<lambda>t.
     if list_ex (\<lambda>x. mrRowId x = mrRowId m) (messages t) \<or>
        uniqueMessages t \<and> list_ex (\<lambda>x. messageKey x = messageKey m) (messages t)
     then (Inr (), t) else (Inr (), t\<lparr>messages := messages t @ [m]\<rparr>))"

definition selectEvents :: "string \<Rightarrow> tables \<Rightarrow> (exn + status_event list) \<times> tables" where
  "selectEvents wa = needs [StatusEventsT] (readOnly (\<lambda>t.
     sort_key seTimestamp (filter (\<lambda>e. seWaMessageId e = wa) (statusEvents t))))"

definition setStatus :: "string \<Rightarrow> string \<Rightarrow> message_record \<Rightarrow> message_record" where
  "setStatus st u m = m\<lparr>mrStatus := st, mrUpdatedAt := u\<rparr>"

text \<open>\<open>UPDATE wats_messages \<dots> WHERE wa_message_id = ?\<close>\<close>

definition updateMessages :: "string \<Rightarrow> string \<Rightarrow> string \<Rightarrow> tables \<Rightarrow> (exn + unit) \<times> tables" where
  "updateMessages st u wa = needs [MessagesT] (\<lambda>t. (Inr (), t\<lparr>messages :=
     map (\<lambda>m. if mrWaMessageId m = wa then setStatus st u m else m) (messages t)\<rparr>))"

fun foldEvents :: "status_event list \<Rightarrow> string \<times> string \<Rightarrow> string \<times> string" where
  "foldEvents [] best = best"
| "foldEvents (e # es) (st, u) = foldEvents es
     (if shouldAdvanceStatus (seStatus e) st
      then (seStatus e, if u < seTimestamp e then seTimestamp e else u) else (st, u))"

definition reconcileStoredStatus :: "string \<Rightarrow> string \<Rightarrow> string \<Rightarrow> unit sqlAct" where
  "reconcileStoredStatus wa recorded updated = bindA (sql (selectEvents wa)) (\<lambda>es.
     if es = [] then retA ()
     else (case foldEvents es (recorded, updated) of (st, u) \<Rightarrow>
       if st \<noteq> recorded \<or> u \<noteq> updated then sql (updateMessages st u wa) else retA ()))"

definition recordMessage :: "jsval \<Rightarrow> unit sqlAct" where
  "recordMessage input = bindA assertOpen (\<lambda>_.
     bindA (liftA (validateMessageRecord input)) (\<lambda>record.
     bindA (asError OutboxFailed (sql (insertMessage record))) (\<lambda>_.
     reconcileStoredStatus (mrWaMessageId record) (mrStatus record) (mrUpdatedAt record))))"

subsection \<open>Appending a status\<close>

definition insertStatusEvent :: "status_event \<Rightarrow> tables \<Rightarrow> (exn + unit) \<times> tables" where
  "insertStatusEvent e = needs [StatusEventsT] (\<lambda>t.
     if uniqueStatusEvents t \<and> list_ex (\<lambda>x. x = e) (statusEvents t) then (Inr (), t)
     else (Inr (), t\<lparr>statusEvents := statusEvents t @ [e]\<rparr>))"

definition selectMessage :: "string \<Rightarrow> tables \<Rightarrow> (exn + message_record option) \<times> tables" where
  "selectMessage wa = needs [MessagesT] (readOnly (\<lambda>t. find (\<lambda>m. mrWaMessageId m = wa) (messages t)))"

definition appendBody :: "status_event \<Rightarrow> unit sqlAct" where
  "appendBody e = bindA (sql (insertStatusEvent e)) (\<lambda>_.
     bindA (sql (selectMessage (seWaMessageId e))) (\<lambda>current. case current of
       None \<Rightarrow> retA ()
     | Some m \<Rightarrow> if shouldAdvanceStatus (seStatus e) (mrStatus m)
         then sql (updateMessages (seStatus e)
           (if mrUpdatedAt m < seTimestamp e then seTimestamp e else mrUpdatedAt m) (seWaMessageId e))
         else retA ()))"

definition appendMessageStatus :: "jsval \<Rightarrow> unit sqlAct" where
  "appendMessageStatus input = bindA assertOpen (\<lambda>_.
     bindA (liftA (validateMessageStatusEvent input)) (\<lambda>event.
     inTransaction OutboxFailed (appendBody event)))"

subsection \<open>Lookup and pages\<close>

definition getMessage :: "jsval \<Rightarrow> message_record option sqlAct" where
  "getMessage input = bindA assertOpen (\<lambda>_. bindA (liftA (validateRecordInput input)) (\<lambda>r.
     bindA (liftA (validateRecordString (js_get r ''waMessageId''))) (\<lambda>wa. sql (selectMessage wa))))"

definition pageKey :: "message_record \<Rightarrow> string \<times> string" where
  "pageKey m = (mrCreatedAt m, mrRowId m)"

text \<open>\<open>ORDER BY created_at DESC, row_id DESC\<close>; row ids are unique, so the order is total.\<close>

definition newestFirst :: "message_record list \<Rightarrow> message_record list" where
  "newestFirst ms = rev (sort_key pageKey ms)"

definition selectPage :: "message_record option \<Rightarrow> nat \<Rightarrow> tables \<Rightarrow> (exn + message_record list) \<times> tables" where
  "selectPage cursor fetchLimit = needs [MessagesT] (readOnly (\<lambda>t.
     take fetchLimit (newestFirst (case cursor of None \<Rightarrow> messages t
       | Some c \<Rightarrow> filter (\<lambda>m. mrCreatedAt m < mrCreatedAt c \<or>
           (mrCreatedAt m = mrCreatedAt c \<and> mrRowId m < mrRowId c)) (messages t)))))"

definition selectByRowId :: "string \<Rightarrow> tables \<Rightarrow> (exn + message_record option) \<times> tables" where
  "selectByRowId r = needs [MessagesT] (readOnly (\<lambda>t. find (\<lambda>m. mrRowId m = r) (messages t)))"

record list_result = items :: "message_record list"  nextCursor :: "string option"

definition pageOf :: "nat \<Rightarrow> message_record list \<Rightarrow> list_result" where
  "pageOf limit rows = \<lparr>items = take limit rows, nextCursor =
     (if limit < length rows then (if take limit rows = [] then None else Some (mrRowId (last (take limit rows))))
      else None)\<rparr>"

definition listMessages :: "jsval \<Rightarrow> list_result sqlAct" where
  "listMessages input = bindA assertOpen (\<lambda>_. bindA (liftA (validateListMessages input)) (\<lambda>q.
     case lqBeforeRowId q of
       None \<Rightarrow> bindA (sql (selectPage None (lqLimit q + 1))) (\<lambda>rows. retA (pageOf (lqLimit q) rows))
     | Some r \<Rightarrow> bindA (sql (selectByRowId r)) (\<lambda>cursor. case cursor of
           None \<Rightarrow> retA \<lparr>items = [], nextCursor = None\<rparr>
         | Some c \<Rightarrow> bindA (sql (selectPage (Some c) (lqLimit q + 1))) (\<lambda>rows.
             retA (pageOf (lqLimit q) rows)))))"

definition selectLatestInbound :: "string \<Rightarrow> tables \<Rightarrow> (exn + string option) \<times> tables" where
  "selectLatestInbound phone = needs [MessagesT] (readOnly (\<lambda>t.
     case newestFirst (filter (\<lambda>m. mrDirection m = Inbound \<and> mrFromPhone m = Some phone) (messages t)) of
       [] \<Rightarrow> None | m # _ \<Rightarrow> Some (mrCreatedAt m)))"

definition getLatestInboundMessageAt :: "jsval \<Rightarrow> string option sqlAct" where
  "getLatestInboundMessageAt input = bindA assertOpen (\<lambda>_. bindA (liftA (validateRecordInput input)) (\<lambda>r.
     bindA (liftA (validateRecordString (js_get r ''phone''))) (\<lambda>phone. sql (selectLatestInbound phone))))"

lemmas [run_simps] = insertMessage_def selectEvents_def updateMessages_def reconcileStoredStatus_def
  recordMessage_def insertStatusEvent_def selectMessage_def appendBody_def appendMessageStatus_def
  getMessage_def selectPage_def selectByRowId_def listMessages_def selectLatestInbound_def
  getLatestInboundMessageAt_def

subsection \<open>They keep the invariant\<close>

lemma keepsInv_insertMessage [keeps]: "messageInv m \<Longrightarrow> keepsInv (insertMessage m)"
  unfolding insertMessage_def by (intro keeps) (auto simp: keepsInv_def dbInv_def list_ex_iff)

lemma keepsInv_insertStatusEvent [keeps]: "isTimestamp (seTimestamp e) \<Longrightarrow> keepsInv (insertStatusEvent e)"
  unfolding insertStatusEvent_def by (intro keeps) (auto simp: keepsInv_def dbInv_def list_ex_iff)

lemma setStatus_simps [simp]:
  "mrRowId (setStatus st u m) = mrRowId m" "messageKey (setStatus st u m) = messageKey m"
  "mrWaMessageId (setStatus st u m) = mrWaMessageId m" "mrStatus (setStatus st u m) = st"
  "mrUpdatedAt (setStatus st u m) = u" "mrCreatedAt (setStatus st u m) = mrCreatedAt m"
  by (simp_all add: setStatus_def messageKey_def)

lemma map_setStatus [simp]:
  "map mrRowId (map (\<lambda>m. if mrWaMessageId m = wa then setStatus st u m else m) ms) = map mrRowId ms"
  "map messageKey (map (\<lambda>m. if mrWaMessageId m = wa then setStatus st u m else m) ms) = map messageKey ms"
  by (induction ms) auto

lemma keepsInv_updateMessages [keeps]: "isTimestamp u \<Longrightarrow> keepsInv (updateMessages st u wa)"
  unfolding updateMessages_def
  by (intro keeps) (auto simp: keepsInv_def dbInv_def list_all_iff messageInv_def simp del: map_map)

lemma keepsInv_selects [keeps]:
  "keepsInv (selectEvents wa)" "keepsInv (selectMessage wa)" "keepsInv (selectPage c n)"
  "keepsInv (selectByRowId r)" "keepsInv (selectLatestInbound p)"
  unfolding selectEvents_def selectMessage_def selectPage_def selectByRowId_def selectLatestInbound_def
  by (intro keeps)+

text \<open>A time the reconciliation writes is the recorded one or an event's.\<close>

lemma foldEvents_time:
  "snd (foldEvents es (st, u)) = u \<or> snd (foldEvents es (st, u)) \<in> seTimestamp ` set es"
  by (induction es "(st, u)" arbitrary: st u rule: foldEvents.induct) auto

lemma validated_message:
  "validateMessageRecord i = Inr m \<Longrightarrow> messageInv m"
  "validateMessageStatusEvent i = Inr e \<Longrightarrow> isTimestamp (seTimestamp e)"
  by (auto simp: validateMessageRecord_def validateMessageStatusEvent_def res_iff messageInv_def)

lemma holdsA_getters [keeps]:
  "holdsA storeInv (getMessage i) storeInv" "holdsA storeInv (listMessages i) storeInv"
  "holdsA storeInv (getLatestInboundMessageAt i) storeInv"
  unfolding getMessage_def listMessages_def getLatestInboundMessageAt_def
  by (intro keeps keeps_rules; auto split: option.split intro!: keeps keeps_rules)+

text \<open>A read may be followed by a step that relies on what it returned.\<close>

lemma holdsA_read:
  assumes "holdsA I m I" "\<And>s a s1. I s \<Longrightarrow> m s = (Inr a, s1) \<Longrightarrow> Q a"
    "\<And>a. Q a \<Longrightarrow> holdsA I (f a) I"
  shows "holdsA I (bindA m f) I"
  unfolding holdsA_def
proof (intro allI impI)
  fix s assume s: "I s"
  obtain r s1 where r: "m s = (r, s1)" by fastforce
  have 1: "I s1" using assms(1) s r by (rule holdsA_D)
  show "I (snd (bindA m f s))"
  proof (cases r)
    case (Inl e) with r 1 show ?thesis by (simp add: bindA_def)
  next
    case (Inr a)
    with r assms(2) [OF s] have "holdsA I (f a) I" by (intro assms(3)) blast
    with 1 have "I (snd (f a s1))" by (auto simp: holdsA_def)
    with r Inr show ?thesis by (simp add: bindA_def)
  qed
qed

lemma selectEvents_result:
  assumes "storeInv s" "sql (selectEvents wa) s = (Inr es, s1)"
  shows "list_all (\<lambda>e. isTimestamp (seTimestamp e)) es"
proof -
  from sql_db [OF assms(2)] have "set es \<subseteq> set (statusEvents (db s))"
    by (auto simp: selectEvents_def needs_def readOnly_def split: if_splits)
  then show ?thesis using assms(1) by (auto simp: storeInv_def dbInv_def list_all_iff)
qed

lemma holdsA_reconcile: "isTimestamp u \<Longrightarrow> holdsA storeInv (reconcileStoredStatus wa st u) storeInv"
  unfolding reconcileStoredStatus_def
proof (rule holdsA_read)
  show "holdsA storeInv (sql (selectEvents wa)) storeInv" by (intro keeps)
  fix es :: "status_event list"
  assume u: "isTimestamp u" and es: "list_all (\<lambda>e. isTimestamp (seTimestamp e)) es"
  have "isTimestamp (snd (foldEvents es (st, u)))"
    using foldEvents_time [of es st u] u es by (auto simp: list_all_iff)
  then show "holdsA storeInv (if es = [] then retA () else (case foldEvents es (st, u) of (st', u') \<Rightarrow>
       if st' \<noteq> st \<or> u' \<noteq> u then sql (updateMessages st' u' wa) else retA ())) storeInv"
    by (auto split: prod.split intro!: keeps_rules keeps)
qed (rule selectEvents_result)

lemma holdsA_recordMessage [keeps]: "holdsA storeInv (recordMessage i) storeInv"
  unfolding recordMessage_def
proof (rule holdsA_bindA_same [OF holdsA_assertOpen], rule holdsA_liftA_bind)
  fix m assume "validateMessageRecord i = Inr m"
  then have "messageInv m" by (rule validated_message)
  then show "holdsA storeInv (bindA (asError OutboxFailed (sql (insertMessage m)))
      (\<lambda>_. reconcileStoredStatus (mrWaMessageId m) (mrStatus m) (mrUpdatedAt m))) storeInv"
    by (intro keeps keeps_rules holdsA_reconcile) (simp_all add: messageInv_def)
qed

lemma selectMessage_result:
  assumes "storeInv s" "sql (selectMessage wa) s = (Inr (Some m), s1)"
  shows "messageInv m"
proof -
  from sql_db [OF assms(2)] have "find (\<lambda>m. mrWaMessageId m = wa) (messages (db s)) = Some m"
    by (auto simp: selectMessage_def needs_def readOnly_def split: if_splits)
  then show ?thesis using assms(1) by (auto simp: storeInv_def dbInv_def list_all_iff find_Some_iff)
qed

lemma holdsA_appendBody: "isTimestamp (seTimestamp e) \<Longrightarrow> holdsA storeInv (appendBody e) storeInv"
  unfolding appendBody_def
proof (rule holdsA_bindA_same)
  assume e: "isTimestamp (seTimestamp e)"
  then show "holdsA storeInv (sql (insertStatusEvent e)) storeInv" by (intro keeps)
  show "holdsA storeInv (bindA (sql (selectMessage (seWaMessageId e))) (\<lambda>current. case current of
       None \<Rightarrow> retA ()
     | Some m \<Rightarrow> if shouldAdvanceStatus (seStatus e) (mrStatus m)
         then sql (updateMessages (seStatus e)
           (if mrUpdatedAt m < seTimestamp e then seTimestamp e else mrUpdatedAt m) (seWaMessageId e))
         else retA ())) storeInv"
  proof (rule holdsA_read [where Q = "\<lambda>c. \<forall>m. c = Some m \<longrightarrow> messageInv m"])
    show "holdsA storeInv (sql (selectMessage (seWaMessageId e))) storeInv" by (intro keeps)
  next
    fix c assume c: "\<forall>m. c = Some m \<longrightarrow> messageInv m"
    show "holdsA storeInv (case c of None \<Rightarrow> retA ()
     | Some m \<Rightarrow> if shouldAdvanceStatus (seStatus e) (mrStatus m)
         then sql (updateMessages (seStatus e)
           (if mrUpdatedAt m < seTimestamp e then seTimestamp e else mrUpdatedAt m) (seWaMessageId e))
         else retA ()) storeInv"
    proof (cases c)
      case None then show ?thesis by (auto intro: keeps_rules)
    next
      case (Some m)
      with c e have "isTimestamp (if mrUpdatedAt m < seTimestamp e then seTimestamp e else mrUpdatedAt m)"
        by (simp add: messageInv_def)
      then show ?thesis unfolding Some option.case by (intro keeps keeps_rules)
    qed
  qed (auto intro: selectMessage_result)
qed

lemma holdsA_appendMessageStatus [keeps]: "holdsA storeInv (appendMessageStatus i) storeInv"
  unfolding appendMessageStatus_def
  by (intro holdsA_bindA_same [OF holdsA_assertOpen] holdsA_liftA_bind keeps holdsA_appendBody)
    (rule validated_message)

subsection \<open>A status never goes back\<close>

text \<open>The order in which statuses may advance: by rank, where the ranks compare.\<close>

definition rankLe :: "rank \<Rightarrow> rank \<Rightarrow> bool" where
  "rankLe a b = (a = b \<or> rankLess a b)"

lemma rankLe_trans: "rankLe a b \<Longrightarrow> rankLe b c \<Longrightarrow> rankLe a c"
  by (auto simp: rankLe_def rankLess_def split: rank.splits)

lemma shouldAdvance_rankLe: "shouldAdvanceStatus new cur \<Longrightarrow> rankLe (statusRank cur) (statusRank new)"
proof (cases "new = ''failed''")
  case True
  assume "shouldAdvanceStatus new cur"
  with True have "\<exists>n \<le> 1. statusRank cur = RankNum n"
    by (auto simp: shouldAdvanceStatus_def failedMayReplace_def split: rank.splits)
  moreover have "statusRank ''failed'' = RankNum 1" by (simp add: statusRank_def)
  ultimately show ?thesis using True by (auto simp: rankLe_def rankLess_def)
next
  case False
  assume "shouldAdvanceStatus new cur"
  with False show ?thesis by (simp add: shouldAdvanceStatus_def rankLe_def)
qed

text \<open>A delivered or read message never becomes failed, sent or pending.\<close>

lemma rank_delivered_read:
  "rankLe (statusRank ''delivered'') (statusRank new) \<Longrightarrow> new = ''delivered'' \<or> new = ''read''"
  "rankLe (statusRank ''read'') (statusRank new) \<Longrightarrow> new = ''read''"
  by (auto simp: rankLe_def rankLess_def statusRank_def split: if_splits option.splits)

definition advancedBy :: "message_record \<Rightarrow> message_record \<Rightarrow> bool" where
  "advancedBy m m' = (mrRowId m' = mrRowId m \<and> rankLe (statusRank (mrStatus m)) (statusRank (mrStatus m')) \<and>
     mrUpdatedAt m \<le> mrUpdatedAt m')"

lemma advancedBy_refl: "advancedBy m m"
  by (simp add: advancedBy_def rankLe_def)

lemma bindA_db:
  assumes "bindA m f s = (r, s')"
    "\<And>q s1. m s = (q, s1) \<Longrightarrow> R (db s1)" "\<And>a s1. m s = (Inr a, s1) \<Longrightarrow> f a s1 = (r, s') \<Longrightarrow> R (db s')"
  shows "R (db s')"
  using assms by (cases "m s") (auto simp: bindA_def split: sum.splits)

lemma sql_snd: "sql f s = (r, s') \<Longrightarrow> db s' = db s \<or> db s' = snd (f (db s))"
  by (auto simp: sql_def split: if_splits)

text \<open>The rows that stand first under their message id advance: the rows \<open>getMessage\<close> reads.  A table may
  hold two rows with one message id, an inbound and an outbound one; only the first of them is compared.\<close>

definition firstWithId :: "message_record list \<Rightarrow> nat \<Rightarrow> bool" where
  "firstWithId ms i = (\<forall>j < i. mrWaMessageId (ms ! j) \<noteq> mrWaMessageId (ms ! i))"

definition headsAdvance :: "message_record list \<Rightarrow> message_record list \<Rightarrow> bool" where
  "headsAdvance ms ms' = (length ms' = length ms \<and> (\<forall>i < length ms.
     mrRowId (ms' ! i) = mrRowId (ms ! i) \<and> mrWaMessageId (ms' ! i) = mrWaMessageId (ms ! i) \<and>
     (firstWithId ms i \<longrightarrow> advancedBy (ms ! i) (ms' ! i))))"

lemma headsAdvance_refl: "headsAdvance ms ms"
  by (simp add: headsAdvance_def advancedBy_refl)

lemma find_first: "find P xs = Some x \<Longrightarrow> i < length xs \<Longrightarrow> P (xs ! i) \<Longrightarrow> (\<forall>j < i. \<not> P (xs ! j)) \<Longrightarrow> xs ! i = x"
  by (metis find_Some_iff linorder_neqE_nat)

lemma headsAdvance_update:
  assumes f: "find (\<lambda>m. mrWaMessageId m = wa) ms = Some m"
    and r: "rankLe (statusRank (mrStatus m)) (statusRank st)" and u: "mrUpdatedAt m \<le> w"
  shows "headsAdvance ms (map (\<lambda>x. if mrWaMessageId x = wa then setStatus st w x else x) ms)"
proof -
  have "ms ! i = m" if "i < length ms" "mrWaMessageId (ms ! i) = wa" "firstWithId ms i" for i
    by (rule find_first [OF f that(1)]) (use that in \<open>auto simp: firstWithId_def\<close>)
  then show ?thesis using r u by (auto simp: headsAdvance_def advancedBy_def rankLe_def)
qed

lemma appendBody_heads:
  assumes b: "appendBody e s = (r, s')"
  shows "headsAdvance (messages (db s)) (messages (db s'))"
proof -
  obtain q1 s1 where 1: "sql (insertStatusEvent e) s = (q1, s1)" by fastforce
  have "messages (snd (insertStatusEvent e t)) = messages t" for t
    by (simp add: insertStatusEvent_def needs_def)
  from sql_db [OF 1] this [of "db s"] have m1: "messages (db s1) = messages (db s)" by auto
  obtain q2 s2 where 2: "sql (selectMessage (seWaMessageId e)) s1 = (q2, s2)" by fastforce
  from sql_db [OF 2] m1 have m2: "messages (db s2) = messages (db s)"
    and q2: "q2 = Inl SqlFault \<or> q2 = Inr (find (\<lambda>m. mrWaMessageId m = seWaMessageId e) (messages (db s)))"
    by (auto simp: selectMessage_def needs_def readOnly_def split: if_splits)
  show ?thesis
  proof (cases "\<exists>m u. q1 = Inr u \<and> q2 = Inr (Some m) \<and> shouldAdvanceStatus (seStatus e) (mrStatus m)")
    case False
    with b 1 2 have "s' = s1 \<or> s' = s2"
      by (auto simp: appendBody_def bindA_def split: sum.splits option.splits if_splits)
    with m1 m2 headsAdvance_refl show ?thesis by auto
  next
    case True
    then obtain m u where m: "q1 = Inr u" "q2 = Inr (Some m)" "shouldAdvanceStatus (seStatus e) (mrStatus m)"
      by blast
    define w where "w = (if mrUpdatedAt m < seTimestamp e then seTimestamp e else mrUpdatedAt m)"
    from b 1 2 m have u: "sql (updateMessages (seStatus e) w (seWaMessageId e)) s2 = (r, s')"
      by (simp add: appendBody_def bindA_def w_def)
    from q2 m have "find (\<lambda>m. mrWaMessageId m = seWaMessageId e) (messages (db s)) = Some m" by auto
    then have "headsAdvance (messages (db s)) (map (\<lambda>x. if mrWaMessageId x = seWaMessageId e
        then setStatus (seStatus e) w x else x) (messages (db s)))"
      by (rule headsAdvance_update) (use shouldAdvance_rankLe [OF m(3)] in \<open>auto simp: w_def\<close>)
    moreover from sql_snd [OF u] have "db s' = db s2 \<or> db s' = (db s2)\<lparr>messages := map (\<lambda>x.
        if mrWaMessageId x = seWaMessageId e then setStatus (seStatus e) w x else x) (messages (db s2))\<rparr>"
      by (auto simp: updateMessages_def needs_def split: if_splits)
    ultimately show ?thesis using m2 headsAdvance_refl by auto
  qed
qed

lemma keepsSnapshot_appendBody: "keepsSnapshot (appendBody e)"
  unfolding appendBody_def by (intro plain)

lemma appendMessageStatus_heads:
  "headsAdvance (messages (db s)) (messages (db (snd (appendMessageStatus input s))))"
proof -
  obtain r s' where a: "appendMessageStatus input s = (r, s')" by fastforce
  have "headsAdvance (messages (db s)) (messages (db s'))"
    using a unfolding appendMessageStatus_def
  proof (cases rule: guarded_cases)
    case (fails e)
    then show ?thesis by (simp add: headsAdvance_refl)
  next
    case (returns ev)
    have "headsAdvance (messages (db s)) (messages (db (snd (inTransaction OutboxFailed (appendBody ev) s))))"
      by (rule inTransaction_rel [OF keepsSnapshot_appendBody,
          where R = "\<lambda>t t'. headsAdvance (messages t) (messages t')"])
        (use appendBody_heads headsAdvance_refl in \<open>metis+\<close>)
    with returns show ?thesis by simp
  qed
  with a show ?thesis by simp
qed

text \<open>C4: Appending a status event never moves a message backward.  Whatever the event, whatever the
  table holds and whichever statement fails, every stored row keeps its place, its row id and its
  message id; and of every row that is the first with its message id (every row, where message ids are
  not shared) the status rank does not decrease, so read stays read and delivered stays delivered or
  becomes read, and \<open>updated_at\<close> does not go back.  The unique index is over direction and message id,
  so an inbound and an outbound row may share an id: the code compares the event with the first of them
  only and updates both, and \<open>shared_id_regresses\<close> shows the other one going back.\<close>

theorem appendMessageStatus_monotone:
  "let ms = messages (db s); ms' = messages (db (snd (appendMessageStatus input s))) in
   length ms' = length ms \<and> (\<forall>i < length ms.
     mrRowId (ms' ! i) = mrRowId (ms ! i) \<and> mrWaMessageId (ms' ! i) = mrWaMessageId (ms ! i) \<and>
     ((\<forall>j < i. mrWaMessageId (ms ! j) \<noteq> mrWaMessageId (ms ! i)) \<longrightarrow>
        rankLe (statusRank (mrStatus (ms ! i))) (statusRank (mrStatus (ms' ! i))) \<and>
        (mrStatus (ms ! i) = ''read'' \<longrightarrow> mrStatus (ms' ! i) = ''read'') \<and>
        (mrStatus (ms ! i) = ''delivered'' \<longrightarrow> mrStatus (ms' ! i) = ''delivered'' \<or> mrStatus (ms' ! i) = ''read'') \<and>
        mrUpdatedAt (ms ! i) \<le> mrUpdatedAt (ms' ! i)))"
  using appendMessageStatus_heads [of s input] rank_delivered_read
  unfolding Let_def headsAdvance_def firstWithId_def advancedBy_def by metis

text \<open>A witness: two rows, and an event that must not take the first one back.\<close>

definition sampleMessage :: "string \<Rightarrow> string \<Rightarrow> message_record" where
  "sampleMessage row st = \<lparr>mrRowId = row, mrWaMessageId = ''wamid.'' @ row, mrDirection = Outbound,
     mrFromPhone = None, mrToPhone = None, mrType = ''text'', mrStatus = st, mrGraphMessageId = None,
     mrCreatedAt = sampleNow, mrUpdatedAt = sampleNow\<rparr>"

definition messageTables :: "message_record list \<Rightarrow> tables" where
  "messageTables ms = emptyTables\<lparr>schema := [MessagesT, StatusEventsT], messages := ms\<rparr>"

definition statusArgs :: "string \<Rightarrow> string \<Rightarrow> string \<Rightarrow> jsval" where
  "statusArgs wa st ts = strObj [(''waMessageId'', wa), (''status'', st), (''timestamp'', ts)]"

lemma statusArgs_valid: "safeString wa \<Longrightarrow> safeString st \<Longrightarrow> validateMessageStatusEvent (statusArgs wa st sampleNow) =
   Inr \<lparr>seWaMessageId = wa, seStatus = st, seTimestamp = sampleNow\<rparr>"
  by (simp add: validateMessageStatusEvent_def statusArgs_def strObj_def validateRecordInput_def isRecord_def
      validateRecordString_def)

lemma appendMessageStatus_monotone_witness:
  "mrStatus (messages (db (snd (appendMessageStatus (statusArgs ''wamid.a'' ''failed'' sampleNow)
       (openStore (messageTables [sampleMessage ''a'' ''read'', sampleMessage ''b'' ''sent'']) [])))) ! 0) = ''read''"
  using appendMessageStatus_monotone [of "openStore (messageTables [sampleMessage ''a'' ''read'',
      sampleMessage ''b'' ''sent'']) []" "statusArgs ''wamid.a'' ''failed'' sampleNow"]
  by (simp add: Let_def All_less_Suc openStore_def messageTables_def sampleMessage_def)

text \<open>With an inbound and an outbound row under one message id, an event that advances the first row
  takes the second one from read back to delivered.\<close>

theorem shared_id_regresses:
  "map mrStatus (messages (db (snd (appendMessageStatus (statusArgs ''wamid.a'' ''delivered'' sampleNow)
     (openStore (messageTables [sampleMessage ''a'' ''sent'',
        (sampleMessage ''a'' ''read'')\<lparr>mrRowId := ''b'', mrDirection := Inbound\<rparr>]) [])))))
   = [''delivered'', ''delivered'']"
proof -
  have "safeString ''wamid.a''" "safeString ''delivered''" by code_simp+
  note v = statusArgs_valid [OF this]
  have "statusRank ''sent'' = RankNum 1" "statusRank ''delivered'' = RankNum 2" by (simp_all add: statusRank_def)
  with v show ?thesis
    by (simp add: appendMessageStatus_def appendBody_def run_simps openStore_def messageTables_def emptyTables_def
        sampleMessage_def shouldAdvanceStatus_def rankLess_def setStatus_def)
qed

subsection \<open>Pages\<close>

lemma newestFirst_set [simp]: "set (newestFirst ms) = set ms"
  by (simp add: newestFirst_def)

lemma newestFirst_filter: "newestFirst (filter P ms) = filter P (newestFirst ms)"
  by (simp add: newestFirst_def filter_sort flip: rev_filter)

lemma newestFirst_strict:
  assumes "distinct (map mrRowId ms)"
  shows "sorted_wrt (\<lambda>a b. pageKey b < pageKey a) (newestFirst ms)"
proof -
  have "distinct (map pageKey ms)"
    using assms by (auto simp: distinct_map inj_on_def pageKey_def)
  then have "distinct (map pageKey (sort_key pageKey ms))" by (simp add: distinct_map)
  moreover have "sorted (map pageKey (sort_key pageKey ms))" by simp
  ultimately have "sorted_wrt (<) (map pageKey (sort_key pageKey ms))" by (simp add: strict_sorted_iff)
  then show ?thesis by (simp add: newestFirst_def sorted_wrt_rev sorted_wrt_map)
qed

lemma older_than_nth:
  assumes "sorted_wrt (\<lambda>a b. pageKey b < pageKey a) L" "k < length L"
  shows "filter (\<lambda>m. pageKey m < pageKey (L ! k)) L = drop (Suc k) L"
proof -
  have L: "L = take (Suc k) L @ drop (Suc k) L" by simp
  have "\<not> pageKey m < pageKey (L ! k)" if "m \<in> set (take (Suc k) L)" for m
  proof -
    from that obtain j where j: "j \<le> k" "m = L ! j"
      by (auto simp: in_set_conv_nth less_Suc_eq_le)
    then show ?thesis using sorted_wrt_nth_less [OF assms(1), of j k] assms(2) by (cases "j = k") auto
  qed
  moreover have "pageKey m < pageKey (L ! k)" if "m \<in> set (drop (Suc k) L)" for m
  proof -
    from that obtain j where "j < length L - Suc k" "m = L ! (Suc k + j)"
      by (auto simp: in_set_conv_nth)
    then show ?thesis using sorted_wrt_nth_less [OF assms(1), of k "Suc k + j"] by simp
  qed
  ultimately have "filter (\<lambda>m. pageKey m < pageKey (L ! k)) (take (Suc k) L) = []"
    "filter (\<lambda>m. pageKey m < pageKey (L ! k)) (drop (Suc k) L) = drop (Suc k) L"
    by (simp_all add: filter_empty_conv filter_id_conv)
  then show ?thesis by (subst L, subst filter_append) simp
qed

lemma pageKey_less: "pageKey m < pageKey c \<longleftrightarrow> mrCreatedAt m < mrCreatedAt c \<or>
  (mrCreatedAt m = mrCreatedAt c \<and> mrRowId m < mrRowId c)"
  by (auto simp: pageKey_def less_prod_def)

text \<open>The argument of one page, and the page itself.\<close>

definition pageArgs :: "nat \<Rightarrow> string option \<Rightarrow> jsval" where
  "pageArgs limit cursor = JObj ObjectProto ((''limit'', Data (JNum (Fin (of_int (int limit))))) #
     (case cursor of None \<Rightarrow> [] | Some r \<Rightarrow> [(''beforeRowId'', Data (JStr r))]))"

definition pageAt :: "nat \<Rightarrow> nat \<Rightarrow> message_record list \<Rightarrow> list_result" where
  "pageAt limit k L = \<lparr>items = take limit (drop k L),
     nextCursor = (if k + limit < length L then Some (mrRowId (L ! (k + limit - 1))) else None)\<rparr>"

lemma pageArgs_valid:
  assumes "1 \<le> limit" "limit \<le> 100" "\<And>r. cursor = Some r \<Longrightarrow> safeString r"
  shows "validateListMessages (pageArgs limit cursor) = Inr \<lparr>lqLimit = limit, lqBeforeRowId = cursor\<rparr>"
  using assms
  by (cases cursor) (simp_all del: of_int_of_nat_eq add: validateListMessages_def pageArgs_def
      validateRecordInput_def isRecord_def validateOptionalRecordString_def validateRecordString_def)

lemma pageOf_take:
  assumes "1 \<le> limit"
  shows "pageOf limit (take (limit + 1) (drop k L)) = pageAt limit k L"
proof -
  have "last (take limit (drop k L)) = L ! (k + limit - 1)" if "k + limit < length L"
    using that assms by (simp add: last_conv_nth)
  with assms show ?thesis by (auto simp: pageOf_def pageAt_def min_def)
qed

text \<open>C6: The pages of \<open>listMessages\<close> tile the messages, newest first.  With \<open>L\<close> the stored messages in
  descending order of \<open>(created_at, row_id)\<close>, the page without a cursor starts at 0, the page after the
  cursor of row \<open>k - 1\<close> starts at \<open>k\<close>, every page holds the next \<open>limit\<close> rows, and its cursor is its last
  row exactly when rows remain: following the cursors visits every message once.\<close>

theorem listMessages_pages:
  assumes "storeInv s" "faults s = []" "\<not> closed s" "MessagesT \<in> set (schema (db s))"
    and "1 \<le> limit" "limit \<le> 100" "k \<le> length (newestFirst (messages (db s)))"
  shows "listMessages (pageArgs limit (if k = 0 then None
      else Some (mrRowId (newestFirst (messages (db s)) ! (k - 1))))) s =
    (Inr (pageAt limit k (newestFirst (messages (db s)))), s)"
proof -
  define L where "L = newestFirst (messages (db s))"
  have d: "distinct (map mrRowId (messages (db s)))" and safe: "list_all messageInv (messages (db s))"
    using assms(1) by (simp_all add: storeInv_def dbInv_def)
  have op: "assertOpen s = (Inr (), s)" using assms(3) by (simp add: assertOpen_def)
  show ?thesis
  proof (cases k)
    case 0
    have "sql (selectPage None (limit + 1)) s = (Inr (take (limit + 1) L), s)"
      using assms(2,4) by (simp add: sql_noFaults selectPage_def needs_def readOnly_def L_def)
    with 0 op pageArgs_valid [OF assms(5,6), of None] pageOf_take [OF assms(5), of 0 L] show ?thesis
      by (simp add: listMessages_def bindA_def L_def)
  next
    case (Suc j)
    then have j: "j < length L" using assms(7) by (simp add: L_def)
    then have in_ms: "L ! j \<in> set (messages (db s))"
      by (metis L_def newestFirst_set nth_mem)
    with safe have r: "safeString (mrRowId (L ! j))" by (simp add: list_all_iff messageInv_def)
    have c: "sql (selectByRowId (mrRowId (L ! j))) s = (Inr (Some (L ! j)), s)"
      using assms(2,4) in_ms d
      by (simp add: sql_noFaults selectByRowId_def needs_def readOnly_def find_Some_iff_unique)
    have "newestFirst (filter (\<lambda>m. pageKey m < pageKey (L ! j)) (messages (db s))) = drop (Suc j) L"
      using older_than_nth [OF newestFirst_strict [OF d] j [unfolded L_def]] by (simp add: newestFirst_filter L_def)
    then have p: "sql (selectPage (Some (L ! j)) (limit + 1)) s = (Inr (take (limit + 1) (drop (Suc j) L)), s)"
      using assms(2,4) by (simp add: sql_noFaults selectPage_def needs_def readOnly_def flip: pageKey_less)
    show ?thesis
      using Suc op c p r pageArgs_valid [OF assms(5,6), of "Some (mrRowId (L ! j))"]
        pageOf_take [OF assms(5), of k L]
      by (simp add: listMessages_def bindA_def flip: L_def)
  qed
qed

lemma listMessages_pages_witness:
  "let s = openStore (messageTables [sampleMessage ''a'' ''read'', sampleMessage ''b'' ''sent'']) []
   in listMessages (pageArgs 1 None) s = (Inr (pageAt 1 0 (newestFirst (messages (db s)))), s)"
proof -
  let ?s = "openStore (messageTables [sampleMessage ''a'' ''read'', sampleMessage ''b'' ''sent'']) []"
  have "safeString ''a''" "safeString ''b''" by code_simp+
  then have "storeInv ?s"
    by (intro storeInv_openStore)
      (simp add: dbInv_def messageTables_def emptyTables_def sampleMessage_def messageInv_def sampleNow_isTimestamp)
  moreover have "faults ?s = []" "\<not> closed ?s" "MessagesT \<in> set (schema (db ?s))"
    by (simp_all add: openStore_def messageTables_def)
  ultimately show ?thesis using listMessages_pages [of ?s 1 0] by (simp only: Let_def if_True) simp
qed

subsection \<open>Events that arrive before their message\<close>

lemma foldEvents_advances:
  "rankLe (statusRank st) (statusRank (fst (foldEvents es (st, u)))) \<and> u \<le> snd (foldEvents es (st, u))"
proof (induction es "(st, u)" arbitrary: st u rule: foldEvents.induct)
  case (2 e es st u)
  show ?case
  proof (cases "shouldAdvanceStatus (seStatus e) st")
    case True
    define w where "w = (if u < seTimestamp e then seTimestamp e else u)"
    have "u \<le> w" by (auto simp: w_def)
    moreover have "rankLe (statusRank (seStatus e)) (statusRank (fst (foldEvents es (seStatus e, w)))) \<and>
        w \<le> snd (foldEvents es (seStatus e, w))"
      using 2 [of "seStatus e" w] True by (simp add: w_def)
    ultimately show ?thesis
      using True rankLe_trans [OF shouldAdvance_rankLe [OF True]] by (simp flip: w_def) (meson order_trans)
  next
    case False
    with 2 [of st u] show ?thesis by simp
  qed
qed (simp add: rankLe_def)

lemma foldEvents_best:
  assumes "e \<in> set es" "statusRank (seStatus e) = RankNum a"
    "statusRank (fst (foldEvents es (st, u))) = RankNum b"
  shows "a \<le> b"
  using assms
proof (induction es "(st, u)" arbitrary: st u rule: foldEvents.induct)
  case (2 x es st u)
  define v where "v = (if shouldAdvanceStatus (seStatus x) st
      then (seStatus x, if u < seTimestamp x then seTimestamp x else u) else (st, u))"
  obtain st1 u1 where v: "v = (st1, u1)" by fastforce
  have run: "foldEvents (x # es) (st, u) = foldEvents es (st1, u1)" by (simp add: v_def [symmetric] v)
  have up: "rankLe (statusRank st1) (RankNum b)"
    using foldEvents_advances [of st1 es u1] 2(4) run by simp
  show ?case
  proof (cases "e \<in> set es")
    case True
    with 2(1) [of st1 u1] v 2(3,4) run show ?thesis by (simp add: v_def)
  next
    case False
    with 2(2) have x: "e = x" by simp
    show ?thesis
    proof (cases "shouldAdvanceStatus (seStatus x) st")
      case True
      with v have "st1 = seStatus x" by (simp add: v_def)
      with up 2(3) x show ?thesis by (auto simp: rankLe_def rankLess_def)
    next
      case no: False
      with v have st1: "st1 = st" by (simp add: v_def)
      with up obtain c where c: "statusRank st = RankNum c" "c \<le> b"
        by (auto simp: rankLe_def rankLess_def split: rank.splits)
      with no 2(3) x have "a \<le> c"
        by (auto simp: shouldAdvanceStatus_def failedMayReplace_def rankLess_def statusRank_def split: if_splits)
      with c show ?thesis by simp
    qed
  qed
qed simp

text \<open>C5: A message recorded after its status events takes the best of them.  On a store without
  faults, recording a message whose row id and wa id are new appends exactly one row; its status is at
  least the recorded one and at least every stored event of that wa id, by rank, and its \<open>updated_at\<close>
  is not before the recorded one.\<close>

theorem recordMessage_reconciles:
  assumes "faults s = []" "\<not> closed s" "MessagesT \<in> set (schema (db s))" "StatusEventsT \<in> set (schema (db s))"
    and "validateMessageRecord i = Inr m"
    and "\<And>x. x \<in> set (messages (db s)) \<Longrightarrow> mrRowId x \<noteq> mrRowId m \<and> mrWaMessageId x \<noteq> mrWaMessageId m"
  shows "\<exists>m'. recordMessage i s = (Inr (), s\<lparr>db := (db s)\<lparr>messages := messages (db s) @ [m']\<rparr>\<rparr>) \<and>
    advancedBy m m' \<and>
    (\<forall>e \<in> set (statusEvents (db s)). seWaMessageId e = mrWaMessageId m \<longrightarrow>
      (\<forall>a b. statusRank (seStatus e) = RankNum a \<longrightarrow> statusRank (mrStatus m') = RankNum b \<longrightarrow> a \<le> b))"
proof -
  define es where "es = sort_key seTimestamp
    (filter (\<lambda>e. seWaMessageId e = mrWaMessageId m) (statusEvents (db s)))"
  define best where "best = foldEvents es (mrStatus m, mrUpdatedAt m)"
  define m' where "m' = setStatus (fst best) (snd best) m"
  define s1 where "s1 = s\<lparr>db := (db s)\<lparr>messages := messages (db s) @ [m]\<rparr>\<rparr>"
  have "\<not> list_ex (\<lambda>x. mrRowId x = mrRowId m) (messages (db s))"
    "\<not> list_ex (\<lambda>x. messageKey x = messageKey m) (messages (db s))"
    using assms(6) by (auto simp: list_ex_iff messageKey_def)
  then have ins: "sql (insertMessage m) s = (Inr (), s1)"
    using assms(1,3) by (simp add: sql_noFaults insertMessage_def needs_def s1_def)
  have sel: "sql (selectEvents (mrWaMessageId m)) s1 = (Inr es, s1)"
    using assms(1,4) by (simp add: sql_noFaults selectEvents_def needs_def readOnly_def s1_def es_def)
  have "map (\<lambda>x. if mrWaMessageId x = mrWaMessageId m then f x else x) (messages (db s)) = messages (db s)" for f
    using assms(6) by (simp add: map_idI)
  then have upd: "sql (updateMessages (fst best) (snd best) (mrWaMessageId m)) s1 =
      (Inr (), s\<lparr>db := (db s)\<lparr>messages := messages (db s) @ [m']\<rparr>\<rparr>)"
    using assms(1,3) by (simp add: sql_noFaults updateMessages_def needs_def s1_def m'_def)
  have same: "s1 = s\<lparr>db := (db s)\<lparr>messages := messages (db s) @ [m']\<rparr>\<rparr>"
    if "best = (mrStatus m, mrUpdatedAt m)"
    using that by (simp add: s1_def m'_def setStatus_def)
  have "reconcileStoredStatus (mrWaMessageId m) (mrStatus m) (mrUpdatedAt m) s1 =
      (Inr (), s\<lparr>db := (db s)\<lparr>messages := messages (db s) @ [m']\<rparr>\<rparr>)"
  proof (cases "best = (mrStatus m, mrUpdatedAt m)")
    case True
    with sel same show ?thesis by (simp add: reconcileStoredStatus_def bindA_def best_def)
  next
    case False
    then have "es \<noteq> []" by (auto simp: best_def)
    with False sel upd show ?thesis
      by (cases best) (auto simp: reconcileStoredStatus_def bindA_def best_def)
  qed
  then have "recordMessage i s = (Inr (), s\<lparr>db := (db s)\<lparr>messages := messages (db s) @ [m']\<rparr>\<rparr>)"
    using assms(2,5) ins by (simp add: recordMessage_def bindA_def assertOpen_def asError_def tryA_def)
  moreover have "advancedBy m m'"
    using foldEvents_advances [of "mrStatus m" es "mrUpdatedAt m"] by (simp add: advancedBy_def m'_def best_def)
  moreover have "a \<le> b" if "e \<in> set (statusEvents (db s))" "seWaMessageId e = mrWaMessageId m"
      "statusRank (seStatus e) = RankNum a" "statusRank (mrStatus m') = RankNum b" for e a b
    using foldEvents_best [of e es a "mrStatus m" "mrUpdatedAt m" b] that by (simp add: es_def m'_def best_def)
  ultimately show ?thesis by blast
qed

definition messageArgs :: "message_record \<Rightarrow> jsval" where
  "messageArgs m = strObj [(''rowId'', mrRowId m), (''waMessageId'', mrWaMessageId m),
     (''direction'', (case mrDirection m of Inbound \<Rightarrow> ''inbound'' | Outbound \<Rightarrow> ''outbound'')),
     (''type'', mrType m), (''status'', mrStatus m), (''createdAt'', mrCreatedAt m),
     (''updatedAt'', mrUpdatedAt m)]"

lemma messageArgs_valid:
  "safeString row \<Longrightarrow> safeString (''wamid.'' @ row) \<Longrightarrow> safeString ''text'' \<Longrightarrow> safeString st \<Longrightarrow>
   validateMessageRecord (messageArgs (sampleMessage row st)) = Inr (sampleMessage row st)"
  by (simp add: validateMessageRecord_def messageArgs_def sampleMessage_def strObj_def validateRecordInput_def
      isRecord_def validateRecordString_def validateMessageDirection_def validateOptionalRecordString_def)

lemma recordMessage_reconciles_witness:
  "\<exists>m'. recordMessage (messageArgs (sampleMessage ''a'' ''sent''))
      (openStore (messageTables []\<lparr>statusEvents := [\<lparr>seWaMessageId = ''wamid.a'', seStatus = ''read'', seTimestamp = sampleNow\<rparr>]\<rparr>) [])
     = (Inr (), openStore (messageTables [m']\<lparr>statusEvents := [\<lparr>seWaMessageId = ''wamid.a'', seStatus = ''read'', seTimestamp = sampleNow\<rparr>]\<rparr>) []) \<and>
     (\<forall>b. statusRank (mrStatus m') = RankNum b \<longrightarrow> 3 \<le> b)"
proof -
  have "safeString ''a''" "safeString (''wamid.'' @ ''a'')" "safeString ''text''" "safeString ''sent''"
    by code_simp+
  from messageArgs_valid [OF this] have v: "validateMessageRecord (messageArgs (sampleMessage ''a'' ''sent'')) =
    Inr (sampleMessage ''a'' ''sent'')" .
  have r: "statusRank ''read'' = RankNum 3" by (simp add: statusRank_def)
  show ?thesis
    using recordMessage_reconciles [of "openStore (messageTables []\<lparr>statusEvents := [\<lparr>seWaMessageId = ''wamid.a'',
        seStatus = ''read'', seTimestamp = sampleNow\<rparr>]\<rparr>) []", OF _ _ _ _ v] r
    by (simp add: openStore_def messageTables_def emptyTables_def sampleMessage_def) blast
qed

text \<open>Recording the same message twice can take its status back: with a stored \<open>delivered\<close> event, a
  second \<open>recordMessage\<close> of a message that was recorded as \<open>read\<close>, now with status \<open>sent\<close>, leaves the
  stored row \<open>delivered\<close>, because the reconciliation starts from the caller's status and not from the
  row the ignored insert left in place.\<close>

theorem recordMessage_again_regresses:
  "snd (recordMessage (messageArgs (sampleMessage ''a'' ''sent''))
     (openStore (messageTables [sampleMessage ''a'' ''read'']\<lparr>statusEvents :=
        [\<lparr>seWaMessageId = ''wamid.a'', seStatus = ''delivered'', seTimestamp = sampleNow\<rparr>]\<rparr>) [])) =
   openStore (messageTables [sampleMessage ''a'' ''delivered'']\<lparr>statusEvents :=
        [\<lparr>seWaMessageId = ''wamid.a'', seStatus = ''delivered'', seTimestamp = sampleNow\<rparr>]\<rparr>) []"
proof -
  have "safeString ''a''" "safeString (''wamid.'' @ ''a'')" "safeString ''text''" "safeString ''sent''"
    by code_simp+
  note v = messageArgs_valid [OF this]
  have "statusRank ''sent'' = RankNum 1" "statusRank ''delivered'' = RankNum 2" by (simp_all add: statusRank_def)
  with v show ?thesis
    by (simp add: recordMessage_def run_simps openStore_def messageTables_def emptyTables_def sampleMessage_def
        shouldAdvanceStatus_def rankLess_def setStatus_def)
qed

end
