(* ===== verification/Conversation_Window.thy ===== *)
theory Conversation_Window
  imports Message_Store
begin

section \<open>The customer-service window\<close>

text \<open>
  \<open>packages/persistence/src/conversationWindow.ts\<close>: from the latest inbound message of a phone and the
  caller's clock, whether free-form messages are allowed, when the window closes and how much of it
  remains.  The store's \<open>getLatestInboundMessageAt\<close> is the one of \<open>Message_Store\<close>.
\<close>

definition validateWindowMs :: "jsval \<Rightarrow> exn + int" where
  "validateWindowMs v = (if v = JUndef then Inr 86400000
     else (case intWithin 1 604800000 v of Some n \<Rightarrow> Inr n | None \<Rightarrow> badRecord))"

record window_input = wiPhone :: string  wiNow :: string  wiWindowMs :: int

definition validateConversationWindowInput :: "jsval \<Rightarrow> exn + window_input" where
  "validateConversationWindowInput input = (case isRecord input of None \<Rightarrow> badRecord | Some ps \<Rightarrow>
     bindE (validateRecordString (js_get ps ''phone'')) (\<lambda>phone.
     bindE (validateTimestamp (js_get ps ''now'')) (\<lambda>now.
     bindE (validateWindowMs (js_get ps ''windowMs'')) (\<lambda>w.
     Inr \<lparr>wiPhone = phone, wiNow = now, wiWindowMs = w\<rparr>))))"

definition isoFromMs :: "int \<Rightarrow> exn + string" where
  "isoFromMs ms = (case toISOString ms of None \<Rightarrow> Inl RangeErr | Some s \<Rightarrow> Inr s)"

record window_state = isOpen :: bool  lastInboundAt :: "string option"  expiresAt :: "string option"
  remainingMs :: int

text \<open>\<open>new Date(s).getTime()\<close>; on an invalid date every later comparison is false and the closing
  branch's \<open>toISOString\<close> throws.\<close>

definition windowAt :: "window_input \<Rightarrow> string \<Rightarrow> exn + window_state" where
  "windowAt v lastInbound = (case (dateParse lastInbound, dateParse (wiNow v)) of
     (Some lastMs, Some nowMs) \<Rightarrow>
       bindE (isoFromMs (lastMs + wiWindowMs v)) (\<lambda>expires.
         if nowMs < lastMs then Inr \<lparr>isOpen = True, lastInboundAt = Some lastInbound,
           expiresAt = Some expires, remainingMs = wiWindowMs v\<rparr>
         else if 0 < wiWindowMs v - (nowMs - lastMs) then Inr \<lparr>isOpen = True, lastInboundAt = Some lastInbound,
           expiresAt = Some expires, remainingMs = wiWindowMs v - (nowMs - lastMs)\<rparr>
         else Inr \<lparr>isOpen = False, lastInboundAt = Some lastInbound, expiresAt = Some expires, remainingMs = 0\<rparr>)
   | _ \<Rightarrow> Inl RangeErr)"

definition getConversationWindowState :: "jsval \<Rightarrow> window_state sqlAct" where
  "getConversationWindowState input = bindA (liftA (validateConversationWindowInput input)) (\<lambda>v.
     bindA (getLatestInboundMessageAt (strObj [(''phone'', wiPhone v)])) (\<lambda>lastInbound.
     case lastInbound of
       None \<Rightarrow> retA \<lparr>isOpen = False, lastInboundAt = None, expiresAt = None, remainingMs = 0\<rparr>
     | Some l \<Rightarrow> liftA (windowAt v l)))"

definition canSendFreeForm :: "jsval \<Rightarrow> bool sqlAct" where
  "canSendFreeForm input = bindA (getConversationWindowState input) (\<lambda>st. retA (isOpen st))"

subsection \<open>The latest inbound message\<close>

definition inboundFrom :: "string \<Rightarrow> tables \<Rightarrow> message_record set" where
  "inboundFrom phone t = {m \<in> set (messages t). mrDirection m = Inbound \<and> mrFromPhone m = Some phone}"

lemma newestFirst_head:
  assumes "newestFirst ms = m # rest" "x \<in> set ms"
  shows "pageKey x \<le> pageKey m"
proof -
  have s: "sort_key pageKey ms = rev rest @ [m]"
    using assms(1) by (metis newestFirst_def rev.simps(2) rev_rev_ident)
  have "sorted (map pageKey (rev rest @ [m]))" using s by (metis sorted_sort_key)
  moreover have "x \<in> set (rev rest @ [m])" using assms(2) s by (metis set_sort)
  ultimately show ?thesis by (auto simp: sorted_append)
qed

lemma latestInbound_result:
  assumes "sql (selectLatestInbound phone) s = (Inr r, s')"
  shows "db s' = db s \<and> (case r of None \<Rightarrow> inboundFrom phone (db s) = {}
    | Some l \<Rightarrow> (\<exists>m \<in> inboundFrom phone (db s). l = mrCreatedAt m) \<and>
        (\<forall>m \<in> inboundFrom phone (db s). mrCreatedAt m \<le> l))"
proof -
  define ms where "ms = filter (\<lambda>m. mrDirection m = Inbound \<and> mrFromPhone m = Some phone) (messages (db s))"
  have in_ms: "set ms = inboundFrom phone (db s)" by (auto simp: ms_def inboundFrom_def)
  from sql_db [OF assms] have "db s' = db s" and r: "r = (case newestFirst ms of [] \<Rightarrow> None | m # _ \<Rightarrow> Some (mrCreatedAt m))"
    by (auto simp: selectLatestInbound_def needs_def readOnly_def ms_def split: if_splits)
  then show ?thesis
  proof (cases "newestFirst ms")
    case Nil
    then have "set ms = {}" by (metis newestFirst_set set_empty)
    with Nil r \<open>db s' = db s\<close> in_ms show ?thesis by simp
  next
    case (Cons m rest)
    then have "m \<in> set ms" by (metis list.set_intros(1) newestFirst_set)
    moreover have "mrCreatedAt x \<le> mrCreatedAt m" if "x \<in> set ms" for x
      using newestFirst_head [OF Cons that] by (auto simp: pageKey_def less_eq_prod_def)
    ultimately show ?thesis using Cons r \<open>db s' = db s\<close> in_ms by auto
  qed
qed

lemma validate_windowNow: "validateConversationWindowInput input = Inr v \<Longrightarrow> isTimestamp (wiNow v) \<and>
   1 \<le> wiWindowMs v \<and> wiWindowMs v \<le> 604800000 \<and> safeString (wiPhone v)"
  by (auto simp: validateConversationWindowInput_def validateWindowMs_def res_iff badRecord_def
      split: option.splits if_splits dest: intWithin_bounds)

text \<open>The window is open exactly when some inbound message of the phone is younger than \<open>windowMs\<close>
  at \<open>now\<close> (a message from the future counts), strictly: at exactly \<open>windowMs\<close> it is closed.  When it is
  open the rest is between 1 and \<open>windowMs\<close>, and for a past message it is the time from \<open>now\<close> to the
  reported expiry; when it is closed the rest is 0.\<close>

theorem conversation_window_open:
  assumes inv: "storeInv s" and v: "validateConversationWindowInput input = Inr v"
    and r: "getConversationWindowState input s = (Inr st, s')"
  shows "(isOpen st \<longleftrightarrow> (\<exists>m \<in> inboundFrom (wiPhone v) (db s).
      instantOf (wiNow v) - instantOf (mrCreatedAt m) < wiWindowMs v)) \<and>
    (if isOpen st then 1 \<le> remainingMs st \<and> remainingMs st \<le> wiWindowMs v else remainingMs st = 0) \<and>
    (case lastInboundAt st of None \<Rightarrow> inboundFrom (wiPhone v) (db s) = {} | Some l \<Rightarrow>
      (\<forall>m \<in> inboundFrom (wiPhone v) (db s). instantOf (mrCreatedAt m) \<le> instantOf l) \<and>
      toISOString (instantOf l + wiWindowMs v) = expiresAt st \<and>
      (isOpen st \<longrightarrow> instantOf l \<le> instantOf (wiNow v) \<longrightarrow>
        remainingMs st = instantOf l + wiWindowMs v - instantOf (wiNow v)))"
proof -
  note nv = validate_windowNow [OF v]
  obtain q s1 where q: "sql (selectLatestInbound (wiPhone v)) s = (q, s1)" by fastforce
  have get: "getLatestInboundMessageAt (strObj [(''phone'', wiPhone v)]) s =
      (if closed s then (Inl (PersistenceError StoreClosed), s) else (q, s1))"
    using q nv by (simp add: getLatestInboundMessageAt_def bindA_def assertOpen_def strObj_def
        validateRecordInput_def isRecord_def validateRecordString_def split: sum.split)
  from r v get obtain l where l: "q = Inr l" "(case l of
       None \<Rightarrow> retA \<lparr>isOpen = False, lastInboundAt = None, expiresAt = None, remainingMs = 0\<rparr>
     | Some l \<Rightarrow> liftA (windowAt v l)) s1 = (Inr st, s')"
    by (auto simp: getConversationWindowState_def bindA_def split: sum.splits if_splits)
  note lr = latestInbound_result [OF q [unfolded l(1)]]
  have ts: "isTimestamp (mrCreatedAt m)" if "m \<in> inboundFrom (wiPhone v) (db s)" for m
    using that inv by (auto simp: inboundFrom_def storeInv_def dbInv_def list_all_iff messageInv_def)
  show ?thesis
  proof (cases l)
    case None
    with l lr show ?thesis by auto
  next
    case (Some x)
    with lr obtain m0 where m0: "m0 \<in> inboundFrom (wiPhone v) (db s)" "x = mrCreatedAt m0"
      and max: "\<forall>m \<in> inboundFrom (wiPhone v) (db s). mrCreatedAt m \<le> x" by auto
    have tx: "isTimestamp x" using ts [OF m0(1)] m0(2) by simp
    have le: "instantOf (mrCreatedAt m) \<le> instantOf x" if "m \<in> inboundFrom (wiPhone v) (db s)" for m
      using isTimestamp_le_iff [OF ts [OF that] tx] max that by blast
    have p: "dateParse x = Some (instantOf x)" "dateParse (wiNow v) = Some (instantOf (wiNow v))"
      using isTimestampD(3) tx nv by auto
    from l(2) Some have w: "windowAt v x = Inr st" by simp
    then obtain ex where ex: "toISOString (instantOf x + wiWindowMs v) = Some ex"
      using p by (auto simp: windowAt_def isoFromMs_def res_iff split: option.splits)
    have opn: "(\<exists>m \<in> inboundFrom (wiPhone v) (db s). instantOf (wiNow v) - instantOf (mrCreatedAt m) < wiWindowMs v)
        \<longleftrightarrow> instantOf (wiNow v) - instantOf x < wiWindowMs v"
      using le m0 by fastforce
    have st: "st = (if instantOf (wiNow v) < instantOf x then \<lparr>isOpen = True, lastInboundAt = Some x,
           expiresAt = Some ex, remainingMs = wiWindowMs v\<rparr>
         else if 0 < wiWindowMs v - (instantOf (wiNow v) - instantOf x) then \<lparr>isOpen = True, lastInboundAt = Some x,
           expiresAt = Some ex, remainingMs = wiWindowMs v - (instantOf (wiNow v) - instantOf x)\<rparr>
         else \<lparr>isOpen = False, lastInboundAt = Some x, expiresAt = Some ex, remainingMs = 0\<rparr>)"
      using w p ex by (simp add: windowAt_def isoFromMs_def split: if_splits)
    show ?thesis unfolding opn using st le nv ex by (auto split: if_splits)
  qed
qed

definition inboundSample :: message_record where
  "inboundSample = (sampleMessage ''a'' ''received'')\<lparr>mrDirection := Inbound, mrFromPhone := Some ''1''\<rparr>"

lemma conversation_window_open_witness:
  "\<exists>st s'. getConversationWindowState (strObj [(''phone'', ''1''), (''now'', sampleNow)])
      (openStore (messageTables [inboundSample]) []) = (Inr st, s') \<and> isOpen st \<and> remainingMs st = 86400000"
proof -
  let ?s = "openStore (messageTables [inboundSample]) []"
  have safe: "safeString ''a''" "safeString ''1''" by code_simp+
  then have inv: "storeInv ?s"
    by (intro storeInv_openStore) (simp add: dbInv_def messageTables_def emptyTables_def inboundSample_def
        sampleMessage_def messageInv_def sampleNow_isTimestamp)
  have v: "validateConversationWindowInput (strObj [(''phone'', ''1''), (''now'', sampleNow)]) =
      Inr \<lparr>wiPhone = ''1'', wiNow = sampleNow, wiWindowMs = 86400000\<rparr>"
    using safe by (simp add: validateConversationWindowInput_def strObj_def isRecord_def validateRecordString_def
        validateWindowMs_def)
  note ts = isTimestampD [OF sampleNow_isTimestamp]
  obtain ex where ex: "toISOString (instantOf sampleNow + 86400000) = Some ex"
    using toISOString_shift [OF ts(1), of 86400000] by auto
  define st where "st = \<lparr>isOpen = True, lastInboundAt = Some sampleNow, expiresAt = Some ex, remainingMs = 86400000\<rparr>"
  have g: "getConversationWindowState (strObj [(''phone'', ''1''), (''now'', sampleNow)]) ?s = (Inr st, ?s)"
    using v ts ex safe
    by (simp add: getConversationWindowState_def run_simps openStore_def messageTables_def emptyTables_def
        inboundSample_def sampleMessage_def newestFirst_def windowAt_def isoFromMs_def st_def strObj_def
        validateRecordInput_def isRecord_def validateRecordString_def)
  from conversation_window_open [OF inv v g] g show ?thesis by (auto simp: st_def)
qed

end
