(* ===== verification/Outbox_Worker.thy ===== *)
theory Outbox_Worker
  imports Outbox_Store
begin

section \<open>The outbox worker\<close>

text \<open>
  \<open>packages/persistence/src/outbox.ts\<close>, one pass over a claimed batch, and
  \<open>packages/persistence/src/outboxWorker.ts\<close>, the timer loop that runs such passes.  The pass is a
  function of the store's operations, so its facts are proved once for every store that keeps the
  outbox contract; a handler may change the store as it likes while it runs (other workers, new
  items).  The loop is a state machine over timer fires, finished passes, reports and \<open>stop\<close>.
\<close>

subsection \<open>One pass\<close>

definition nextAttemptIso :: "string \<Rightarrow> jsval \<Rightarrow> exn + string" where
  "nextAttemptIso now retryDelayMs = (case intWithin 0 86400000 retryDelayMs of
     None \<Rightarrow> Inl RangeErr
   | Some d \<Rightarrow> (case dateParse now of None \<Rightarrow> Inl RangeErr
     | Some t \<Rightarrow> (case toISOString (t + d) of None \<Rightarrow> Inl RangeErr | Some s \<Rightarrow> Inr s)))"

record worker_report = processed :: nat  succeeded :: nat  failed :: nat

text \<open>A handler resolves (\<open>True\<close>) or rejects (\<open>False\<close>).  An item whose handler rejects, or whose
  success mark throws, is marked failed; an exception of that mark, or of the computation of the next
  attempt, ends the pass.\<close>

type_synonym 's handler = "ob_row \<Rightarrow> 's \<Rightarrow> bool \<times> 's"

definition runItem :: "'s handler \<Rightarrow> (string \<Rightarrow> int \<Rightarrow> string \<Rightarrow> ('s, exn, unit) act) \<Rightarrow>
    (string \<Rightarrow> int \<Rightarrow> string \<Rightarrow> string \<Rightarrow> ('s, exn, unit) act) \<Rightarrow> string \<Rightarrow> jsval \<Rightarrow> ob_row \<Rightarrow> ('s, exn, bool) act" where
  "runItem handler suc fai now delay it = tryA
     (bindA (\<lambda>s. case handler it s of (ok, s') \<Rightarrow> (if ok then Inr () else Inl RangeErr, s')) (\<lambda>_.
      bindA (suc (obId it) (obLeaseId it) now) (\<lambda>_. retA True)))
     (\<lambda>_. bindA (liftA (nextAttemptIso now delay)) (\<lambda>next.
          bindA (fai (obId it) (obLeaseId it) next now) (\<lambda>_. retA False)))"

fun runItems :: "'s handler \<Rightarrow> (string \<Rightarrow> int \<Rightarrow> string \<Rightarrow> ('s, exn, unit) act) \<Rightarrow>
    (string \<Rightarrow> int \<Rightarrow> string \<Rightarrow> string \<Rightarrow> ('s, exn, unit) act) \<Rightarrow> string \<Rightarrow> jsval \<Rightarrow> ob_row list \<Rightarrow>
    nat \<Rightarrow> nat \<Rightarrow> ('s, exn, nat \<times> nat) act" where
  "runItems handler suc fai now delay [] ok bad = retA (ok, bad)"
| "runItems handler suc fai now delay (it # its) ok bad =
     bindA (runItem handler suc fai now delay it) (\<lambda>good.
       if good then runItems handler suc fai now delay its (ok + 1) bad
       else runItems handler suc fai now delay its ok (bad + 1))"

definition runOutboxWorkerOnce :: "(string \<Rightarrow> nat \<Rightarrow> ('s, exn, ob_row list) act) \<Rightarrow>
    (string \<Rightarrow> int \<Rightarrow> string \<Rightarrow> ('s, exn, unit) act) \<Rightarrow>
    (string \<Rightarrow> int \<Rightarrow> string \<Rightarrow> string \<Rightarrow> ('s, exn, unit) act) \<Rightarrow>
    's handler \<Rightarrow> string \<Rightarrow> nat \<Rightarrow> jsval \<Rightarrow> ('s, exn, worker_report) act" where
  "runOutboxWorkerOnce clm suc fai handler now limit delay = bindA (clm now limit) (\<lambda>claimed.
     bindA (runItems handler suc fai now delay claimed 0 0) (\<lambda>counts.
     retA \<lparr>processed = length claimed, succeeded = fst counts, failed = snd counts\<rparr>))"

lemma runItems_counts:
  "runItems handler suc fai now delay its ok bad s = (Inr (a, b), s') \<Longrightarrow> a + b = ok + bad + length its"
  by (induction its arbitrary: ok bad s) (auto elim!: bindA_cases split: if_splits)

text \<open>The row a pass leaves behind for an item it was handed.\<close>

definition settled :: "(ob_row \<Rightarrow> bool) \<Rightarrow> string \<Rightarrow> string \<Rightarrow> ob_row \<Rightarrow> ob_row" where
  "settled okay now next it = (if okay it then succeededRow now it else failedRow next now it)"

text \<open>What one pass does on a store that keeps the contract and is live: a current lease can always be
  marked.  A handler that leaves the store alone is a function of its item.\<close>

locale live_outbox_store = outbox_store +
  fixes calm :: "'a \<Rightarrow> bool"
  assumes suc_live: "wf s \<Longrightarrow> calm s \<Longrightarrow> leaseHeld (book s) i l \<Longrightarrow> safeString i \<Longrightarrow> 1 \<le> l \<Longrightarrow> l \<le> maxSafeInteger \<Longrightarrow>
      isTimestamp u \<Longrightarrow> \<exists>s'. suc i l u s = (Inr (), s') \<and> calm s'"
    and fai_live: "wf s \<Longrightarrow> calm s \<Longrightarrow> leaseHeld (book s) i l \<Longrightarrow> safeString i \<Longrightarrow> 1 \<le> l \<Longrightarrow> l \<le> maxSafeInteger \<Longrightarrow>
      isTimestamp n \<Longrightarrow> isTimestamp u \<Longrightarrow> \<exists>s'. fai i l n u s = (Inr (), s') \<and> calm s'"
begin

lemma runItems_settles:
  assumes "wf s" "calm s" "isTimestamp now" "nextAttemptIso now delay = Inr next" "isTimestamp next"
    and "distinct (map obId its)"
    and "\<And>it. it \<in> set its \<Longrightarrow> book s (obId it) = Some it \<and> obStatus it = Processing \<and> safeString (obId it) \<and>
      1 \<le> obLeaseId it \<and> obLeaseId it \<le> maxSafeInteger"
  shows "\<exists>s'. runItems (\<lambda>it s. (okay it, s)) suc fai now delay its a b s =
      (Inr (a + length (filter okay its), b + length (filter (\<lambda>it. \<not> okay it) its)), s') \<and>
    wf s' \<and> calm s' \<and>
    book s' = book s ++ map_of (map (\<lambda>it. (obId it, settled okay now next it)) its)"
  using assms(1,2,6,7)
proof (induction its arbitrary: a b s)
  case (Cons it its)
  have it: "book s (obId it) = Some it" "obStatus it = Processing" "safeString (obId it)"
    "1 \<le> obLeaseId it" "obLeaseId it \<le> maxSafeInteger" using Cons.prems(4) by auto
  then have held: "leaseHeld (book s) (obId it) (obLeaseId it)" by (simp add: leaseHeld_def)
  obtain s1 where s1: "runItem (\<lambda>it s. (okay it, s)) suc fai now delay it s = (Inr (okay it), s1)"
    "wf s1" "calm s1" "book s1 = (book s)(obId it \<mapsto> settled okay now next it)"
  proof (cases "okay it")
    case True
    from suc_live [OF Cons.prems(1,2) held it(3-5) assms(3)] obtain s1 where
      s1: "suc (obId it) (obLeaseId it) now s = (Inr (), s1)" "calm s1" by blast
    with True have "runItem (\<lambda>it s. (okay it, s)) suc fai now delay it s = (Inr (okay it), s1)"
      by (simp add: runItem_def tryA_def bindA_def)
    moreover have "wf s1" using wf_keeps(2) [OF Cons.prems(1), of "obId it" "obLeaseId it" now] s1 by simp
    moreover have "book s1 = (book s)(obId it \<mapsto> settled okay now next it)"
      using suc_ok [OF Cons.prems(1) s1(1)] it True by (simp add: mark_def settled_def)
    ultimately show thesis using that s1 by blast
  next
    case False
    from fai_live [OF Cons.prems(1,2) held it(3-5) assms(5,3)] obtain s1 where
      s1: "fai (obId it) (obLeaseId it) next now s = (Inr (), s1)" "calm s1" by blast
    with False assms(4) have "runItem (\<lambda>it s. (okay it, s)) suc fai now delay it s = (Inr (okay it), s1)"
      by (simp add: runItem_def tryA_def bindA_def)
    moreover have "wf s1"
      using wf_keeps(3) [OF Cons.prems(1), of "obId it" "obLeaseId it" "next" now] s1 by simp
    moreover have "book s1 = (book s)(obId it \<mapsto> settled okay now next it)"
      using fai_ok [OF Cons.prems(1) s1(1)] it False by (simp add: mark_def settled_def)
    ultimately show thesis using that s1 by blast
  qed
  have rest: "book s1 (obId x) = Some x \<and> obStatus x = Processing \<and> safeString (obId x) \<and>
      1 \<le> obLeaseId x \<and> obLeaseId x \<le> maxSafeInteger" if "x \<in> set its" for x
  proof -
    have "obId x \<noteq> obId it" using that Cons.prems(3) by (auto simp: image_iff)
    then show ?thesis using that Cons.prems(4) s1(4) by simp
  qed
  have d: "distinct (map obId its)" using Cons.prems(3) by simp
  have new: "map_of (map (\<lambda>it. (obId it, settled okay now next it)) its) (obId it) = None"
    using Cons.prems(3) by (auto simp: map_of_eq_None_iff)
  define final where "final = book s ++ map_of (map (\<lambda>it. (obId it, settled okay now next it)) (it # its))"
  have "book s1 ++ map_of (map (\<lambda>it. (obId it, settled okay now next it)) its) = final"
    using s1(4) new by (auto simp: final_def map_add_def fun_eq_iff split: option.split)
  then have "\<exists>s'. runItems (\<lambda>it s. (okay it, s)) suc fai now delay (it # its) a b s =
      (Inr (a + length (filter okay (it # its)), b + length (filter (\<lambda>it. \<not> okay it) (it # its))), s') \<and>
    wf s' \<and> calm s' \<and> book s' = final"
    using Cons.IH [OF s1(2,3) d rest, of "if okay it then a + 1 else a" "if okay it then b else b + 1"] s1(1)
    by (cases "okay it") (auto simp: bindA_ret)
  then show ?case unfolding final_def .
qed simp

end

subsection \<open>A pass over the SQLite store\<close>

lemma succeededArgs_valid:
  assumes "safeString i" "1 \<le> l" "l \<le> maxSafeInteger" "isTimestamp u"
  shows "validateOutboxSucceeded (succeededArgs i l u) = Inr \<lparr>okId = i, okLeaseId = l, okUpdatedAt = u\<rparr>"
  using assms validateTimestamp_Inr [of "JStr u" u]
  by (simp add: validateOutboxSucceeded_def succeededArgs_def validateRecordInput_def isRecord_def
      validateLeaseId_def validateRecordString_def)

lemma failedArgs_valid:
  assumes "safeString i" "1 \<le> l" "l \<le> maxSafeInteger" "isTimestamp u" "isTimestamp n"
  shows "validateOutboxFailed (failedArgs i l n u) =
    Inr \<lparr>okId = i, okLeaseId = l, okUpdatedAt = u, flNextAttemptAt = n\<rparr>"
  using assms validateTimestamp_Inr [of "JStr u" u] validateTimestamp_Inr [of "JStr n" n]
  by (simp add: validateOutboxFailed_def failedArgs_def validateRecordInput_def isRecord_def
      validateLeaseId_def validateRecordString_def)

interpretation obl: live_outbox_store
  "\<lambda>now cap. claimOutboxItems (claimArgs now cap)"
  "\<lambda>i l u. markOutboxItemSucceeded (succeededArgs i l u)"
  "\<lambda>i l n u. markOutboxItemFailed (failedArgs i l n u)"
  storeInv "\<lambda>s. bookOf (db s)" "\<lambda>s. quiet s \<and> snapshot s = None"
proof unfold_locales
  fix s i l u
  assume a: "storeInv s" "quiet s \<and> snapshot s = None" "leaseHeld (bookOf (db s)) i l"
    and v: "safeString i" "1 \<le> l" "l \<le> maxSafeInteger" "isTimestamp u"
  from mark_live(1) [OF _ a(1,3) succeededArgs_valid [OF v]] a(2)
  show "\<exists>s'. markOutboxItemSucceeded (succeededArgs i l u) s = (Inr (), s') \<and> (quiet s' \<and> snapshot s' = None)"
    by auto
next
  fix s i l n u
  assume a: "storeInv s" "quiet s \<and> snapshot s = None" "leaseHeld (bookOf (db s)) i l"
    and v: "safeString i" "1 \<le> l" "l \<le> maxSafeInteger" "isTimestamp n" "isTimestamp u"
  from mark_live(2) [OF _ a(1,3) failedArgs_valid [OF v(1-3,5,4)]] a(2)
  show "\<exists>s'. markOutboxItemFailed (failedArgs i l n u) s = (Inr (), s') \<and> (quiet s' \<and> snapshot s' = None)"
    by auto
qed

lemma nextAttemptIso_valid:
  assumes "isTimestamp now" "intWithin 0 86400000 delay = Some d" "fourDigitYear (instantOf now + d)"
  shows "\<exists>next. nextAttemptIso now delay = Inr next \<and> isTimestamp next \<and> instantOf next = instantOf now + d"
proof -
  from intWithin_bounds [OF assms(2)] have "\<bar>d\<bar> \<le> 604800000" by simp
  then obtain n where n: "toISOString (instantOf now + d) = Some n"
    using toISOString_shift [OF isTimestampD(1) [OF assms(1)]] by blast
  then have "isTimestamp n" using assms(3) isTimestamp_iff by blast
  moreover have "instantOf n = instantOf now + d"
    using toISOString_dateParse [OF assms(3) n] by (simp add: instantOf_def)
  moreover have "nextAttemptIso now delay = Inr n"
    using assms(2) n isTimestampD(3) [OF assms(1)] by (simp add: nextAttemptIso_def)
  ultimately show ?thesis by blast
qed

subsection \<open>What a pass does, by the clock\<close>

lemma toISOString_before:
  assumes e: "toISOString t = Some e" and u: "isTimestamp u" and n: "fourDigitYear n" "t \<le> n"
  shows "u \<le> e \<longleftrightarrow> instantOf u \<le> t"
proof (cases "fourDigitYear t")
  case True
  with e have "isTimestamp e" "instantOf e = t"
    using isTimestamp_iff toISOString_dateParse [OF True e] by (auto simp: instantOf_def)
  with isTimestamp_le_iff [OF u] show ?thesis by simp
next
  case False
  have "t < n" using False n by (cases "t = n") auto
  then have "fieldsOfMs t < fieldsOfMs n" by (simp add: fieldsOfMs_less_iff)
  then have y: "fst (fieldsOfMs t) < 0"
    using False n(1) by (cases "fieldsOfMs t"; cases "fieldsOfMs n") (auto simp: fourDigitYear_def less_prod_def)
  note tu = isTimestampD [OF u]
  have "t < instantOf u"
  proof (rule ccontr)
    assume "\<not> t < instantOf u"
    then have "fieldsOfMs (instantOf u) \<le> fieldsOfMs t" using fieldsOfMs_less_iff [of t "instantOf u"] by (simp add: not_less)
    with y tu(1) show False by (cases "fieldsOfMs t"; cases "fieldsOfMs (instantOf u)") (auto simp: fourDigitYear_def less_eq_prod_def)
  qed
  moreover have "e < u"
  proof -
    from y e obtain e' where e': "e = CHR ''-'' # e'"
      by (cases "fieldsOfMs t") (auto simp: toISOString_def isoOfFields_def isoYear_def split: if_splits)
    have "isoShape u" using u by (simp add: isTimestamp_def)
    then obtain c u' where u': "u = c # u'" "is_digit c" by (cases u) (auto simp: isoShape_def)
    have "CHR ''-'' < c" using u'(2) by (simp add: is_digit_def code_of_def less_char_def)
    with e' u' show ?thesis by simp
  qed
  ultimately show ?thesis by (simp add: not_le)
qed

text \<open>A row is due at \<open>now\<close>, by the clock: pending with no next attempt or one that has come, or held
  for five minutes or longer.\<close>

definition dueAt :: "string \<Rightarrow> ob_row \<Rightarrow> bool" where
  "dueAt now r = ((obStatus r = Pending \<and> (\<forall>n. obNextAttemptAt r = Some n \<longrightarrow> instantOf n \<le> instantOf now)) \<or>
     (obStatus r = Processing \<and> instantOf (obUpdatedAt r) + 300000 \<le> instantOf now))"

lemma claimable_dueAt:
  assumes "isTimestamp now" "subtractMillisecondsIso now outboxProcessingLeaseMs = Inr e" "outboxInv r"
  shows "claimable now e r \<longleftrightarrow> dueAt now r"
proof -
  have p: "dateParse now = Some (instantOf now)" "fourDigitYear (instantOf now)"
    using isTimestampD [OF assms(1)] by auto
  with assms(2) have "toISOString (instantOf now - 300000) = Some e"
    by (auto simp: subtractMillisecondsIso_def outboxProcessingLeaseMs_def split: option.splits)
  from toISOString_before [OF this _ p(2), of "obUpdatedAt r"] assms(3) have
    "obUpdatedAt r \<le> e \<longleftrightarrow> instantOf (obUpdatedAt r) + 300000 \<le> instantOf now" by (auto simp: outboxInv_def)
  moreover have "n \<le> now \<longleftrightarrow> instantOf n \<le> instantOf now" if "obNextAttemptAt r = Some n" for n
    using isTimestamp_le_iff [OF _ assms(1)] that assms(3) by (simp add: outboxInv_def)
  ultimately show ?thesis by (auto simp: claimable_def dueAt_def split: option.splits)
qed

text \<open>The row a pass hands to the handler, and the one it leaves behind.\<close>

definition handedOut :: "string \<Rightarrow> ob_row \<Rightarrow> ob_row" where
  "handedOut now r = r\<lparr>obStatus := Processing, obAttempts := obAttempts r + 1,
     obLeaseId := obLeaseId r + 1, obNextAttemptAt := None, obUpdatedAt := now\<rparr>"

definition leftBehind :: "(ob_row \<Rightarrow> bool) \<Rightarrow> string \<Rightarrow> string \<Rightarrow> ob_row \<Rightarrow> ob_row" where
  "leftBehind okay now next r = (if okay (handedOut now r)
     then (handedOut now r)\<lparr>obStatus := Succeeded\<rparr>
     else (handedOut now r)\<lparr>obStatus := Pending, obNextAttemptAt := Some next\<rparr>)"

lemma settled_leftBehind: "settled okay now next (claimedRow now r) = leftBehind okay now next r"
  by (simp add: settled_def leftBehind_def handedOut_def row_defs)

lemma book_after_pass:
  assumes d: "distinct (map obId (outbox t))" and sub: "set batch \<subseteq> set (outbox t)" "distinct (map obId batch)"
    and b: "book' = bookOf t ++ map_of (map (\<lambda>r. (obId r, r)) (map (claimedRow now) batch)) ++
      map_of (map (\<lambda>it. (obId it, settled okay now next it)) (map (claimedRow now) batch))"
  shows "book' i = map_option (\<lambda>r. if r \<in> set batch then leftBehind okay now next r else r) (bookOf t i)"
proof (cases "\<exists>r \<in> set batch. obId r = i")
  case True
  then obtain r where r: "r \<in> set batch" "obId r = i" by blast
  with sub(1) have "bookOf t i = Some r" using find_Some_iff_unique [OF d] by (auto simp: bookOf_def)
  moreover have "map_of (map (\<lambda>it. (obId it, settled okay now next it)) (map (claimedRow now) batch)) i
      = Some (leftBehind okay now next r)"
    using r sub(2) by (intro map_of_is_SomeI) (auto simp: comp_def settled_leftBehind [symmetric])
  ultimately show ?thesis using r by (simp add: b)
next
  case False
  then have "map_of (map (\<lambda>r. (obId r, r)) (map (claimedRow now) batch)) i = None"
    "map_of (map (\<lambda>it. (obId it, settled okay now next it)) (map (claimedRow now) batch)) i = None"
    by (auto simp: map_of_eq_None_iff)
  moreover have "r \<notin> set batch" if "bookOf t i = Some r" for r using bookOf_id [OF that] False by blast
  ultimately show ?thesis by (cases "bookOf t i") (simp_all add: b map_add_def)
qed

text \<open>C7: One pass of the worker on a live SQLite store settles a batch of due rows.  The batch holds only
  rows that are due by the clock (pending with no next attempt or one that has come, or in processing
  for five minutes or longer), at most \<open>limit\<close> of them, and a due row is left out only when the batch is
  full of rows at least as old by \<open>(created_at, id)\<close>.  Afterwards every row of the batch has one more
  attempt and lease number and is succeeded when its handler resolved, else pending with its next
  attempt exactly \<open>retryDelayMs\<close> after \<open>now\<close>; every other row is as it was, and the report counts the
  batch.  The store is live: no statement fails, no transaction is open, lease numbers are below
  \<open>MAX_SAFE_INTEGER\<close>, and \<open>now + retryDelayMs\<close> has a four-digit year.\<close>

theorem worker_pass_settles:
  assumes "storeInv s" "quiet s" "snapshot s = None" "isTimestamp now" "1 \<le> limit" "limit \<le> 100"
    and "intWithin 0 86400000 delay = Some d" "fourDigitYear (instantOf now + d)"
    and "\<And>r. r \<in> set (outbox (db s)) \<Longrightarrow> obLeaseId r < maxSafeInteger"
  shows "\<exists>batch next s'. distinct batch \<and> length batch \<le> limit \<and>
    (\<forall>r \<in> set batch. r \<in> set (outbox (db s)) \<and> dueAt now r) \<and>
    (\<forall>r \<in> set (outbox (db s)). dueAt now r \<longrightarrow> r \<notin> set batch \<longrightarrow>
      length batch = limit \<and> (\<forall>b \<in> set batch. (obCreatedAt b, obId b) \<le> (obCreatedAt r, obId r))) \<and>
    isTimestamp next \<and> instantOf next = instantOf now + d \<and>
    runOutboxWorkerOnce (\<lambda>now cap. claimOutboxItems (claimArgs now cap))
      (\<lambda>i l u. markOutboxItemSucceeded (succeededArgs i l u))
      (\<lambda>i l n u. markOutboxItemFailed (failedArgs i l n u)) (\<lambda>it s. (okay it, s)) now limit delay s =
      (Inr \<lparr>processed = length batch, succeeded = length (filter (\<lambda>r. okay (handedOut now r)) batch),
        failed = length (filter (\<lambda>r. \<not> okay (handedOut now r)) batch)\<rparr>, s') \<and>
    (\<forall>i. bookOf (db s') i = map_option (\<lambda>r. if r \<in> set batch then leftBehind okay now next r else r)
      (bookOf (db s) i))"
proof -
  obtain claimed s1 where c: "claimOutboxItems (claimArgs now limit) s = (Inr claimed, s1)"
    and s1: "quiet s1" "snapshot s1 = None" using claim_live [OF assms(2,3,1,4,5,6)] by blast
  obtain "next" where n: "nextAttemptIso now delay = Inr next" "isTimestamp next" "instantOf next = instantOf now + d"
    using nextAttemptIso_valid [OF assms(4,7,8)] by blast
  have wf1: "storeInv s1" using obx.wf_keeps(1) [OF assms(1), of now limit] c by simp
  note ids = storeInv_ids [OF assms(1)]
  have inv: "outboxInv r" if "r \<in> set (outbox (db s))" for r
    using that assms(1) by (auto simp: storeInv_def dbInv_def list_all_iff)
  from claim_returns [OF c ids] obtain e where e: "subtractMillisecondsIso now outboxProcessingLeaseMs = Inr e"
    and cl: "claimed = map (claimedRow now) (claimRows now e limit (outbox (db s)))" by blast
  define batch where "batch = claimRows now e limit (outbox (db s))"
  note rf = claimRows_facts [OF ids, where now = now and e = e and cap = limit, folded batch_def]
  have due: "claimable now e r \<longleftrightarrow> dueAt now r" if "r \<in> set (outbox (db s))" for r
    by (rule claimable_dueAt [OF assms(4) e inv [OF that]])
  from claim_ok [OF assms(1) c] have dist: "distinct (map obId claimed)"
    and b1: "bookOf (db s1) = bookOf (db s) ++ map_of (map (\<lambda>r. (obId r, r)) claimed)" by auto
  have items: "bookOf (db s1) (obId it) = Some it \<and> obStatus it = Processing \<and> safeString (obId it) \<and>
      1 \<le> obLeaseId it \<and> obLeaseId it \<le> maxSafeInteger" if it: "it \<in> set claimed" for it
  proof -
    from it cl obtain r where r: "r \<in> set batch" "it = claimedRow now r" by (auto simp: batch_def)
    with rf(3) have rin: "r \<in> set (outbox (db s))" by blast
    have "map_of (map (\<lambda>r. (obId r, r)) claimed) (obId it) = Some it"
      using it dist by (intro map_of_is_SomeI) (auto simp: comp_def)
    with b1 r(2) assms(9) [OF rin] inv [OF rin] show ?thesis by (auto simp: outboxInv_def row_defs)
  qed
  from obl.runItems_settles [OF wf1 _ assms(4) n(1,2) dist items, of okay 0 0] s1 obtain s' where
    run: "runItems (\<lambda>it s. (okay it, s)) (\<lambda>i l u. markOutboxItemSucceeded (succeededArgs i l u))
       (\<lambda>i l n u. markOutboxItemFailed (failedArgs i l n u)) now delay claimed 0 0 s1 =
      (Inr (length (filter okay claimed), length (filter (\<lambda>it. \<not> okay it) claimed)), s')" and
    b2: "bookOf (db s') = bookOf (db s1) ++ map_of (map (\<lambda>it. (obId it, settled okay now next it)) claimed)" by auto
  have book: "bookOf (db s') i = map_option (\<lambda>r. if r \<in> set batch then leftBehind okay now next r else r)
      (bookOf (db s) i)" for i
    by (rule book_after_pass [OF ids rf(3,1)]) (simp only: b2 b1 cl batch_def)
  have ho: "claimedRow now = handedOut now" by (simp add: fun_eq_iff claimedRow_def handedOut_def)
  have counts: "length claimed = length batch" "length (filter okay claimed) = length (filter (\<lambda>r. okay (handedOut now r)) batch)"
    "length (filter (\<lambda>it. \<not> okay it) claimed) = length (filter (\<lambda>r. \<not> okay (handedOut now r)) batch)"
    by (simp_all add: cl batch_def ho filter_map comp_def)
  have out: "length batch = limit \<and> (\<forall>b \<in> set batch. (obCreatedAt b, obId b) \<le> (obCreatedAt r, obId r))"
    if "r \<in> set (outbox (db s))" "dueAt now r" "r \<notin> set batch" for r
    using beyond_take_sort_key [of r "filter (claimable now e) (outbox (db s))" limit outboxOrder] that due
    by (auto simp: batch_def claimRows_def outboxOrder_def)
  have "distinct batch" using rf(1) by (simp add: distinct_map)
  with c run n(2,3) rf(2-4) due out book show ?thesis
    by (intro exI [of _ batch] exI [of _ "next"] exI [of _ s'])
      (auto simp: runOutboxWorkerOnce_def bindA_ret counts)
qed

lemma sampleNow_later: "instantOf sampleNow = 1704164645678 \<and> fourDigitYear (1704164645678 + 1000)"
  by code_simp

lemma worker_pass_settles_witness:
  "\<exists>s' next. instantOf next = 1704164646678 \<and> runOutboxWorkerOnce (\<lambda>now cap. claimOutboxItems (claimArgs now cap))
      (\<lambda>i l u. markOutboxItemSucceeded (succeededArgs i l u))
      (\<lambda>i l n u. markOutboxItemFailed (failedArgs i l n u)) (\<lambda>it s. (False, s)) sampleNow 5
      (JNum (Fin (of_int 1000))) (openStore (outboxTables [sampleRow]) []) =
      (Inr \<lparr>processed = 1, succeeded = 0, failed = 1\<rparr>, s') \<and>
    bookOf (db s') ''a'' = Some (sampleRow\<lparr>obAttempts := 1, obLeaseId := 1, obNextAttemptAt := Some next\<rparr>)"
proof -
  let ?s = "openStore (outboxTables [sampleRow]) []"
  have "quiet ?s" by (simp add: quiet_def openStore_def outboxTables_def)
  moreover have ob: "outbox (db ?s) = [sampleRow]" by (simp add: openStore_def outboxTables_def)
  moreover have "obLeaseId r < maxSafeInteger" if "r \<in> set (outbox (db ?s))" for r
    using that [unfolded ob] by (simp add: sampleRow_def maxSafeInteger_def)
  moreover have "snapshot ?s = None" by (simp add: openStore_def)
  moreover have "intWithin 0 86400000 (JNum (Fin (of_int 1000))) = Some 1000" by (subst intWithin_int) simp
  ultimately obtain batch "next" s' where b: "distinct batch" "\<forall>r \<in> set batch. r \<in> set (outbox (db ?s))"
    "\<forall>r \<in> set (outbox (db ?s)). dueAt sampleNow r \<longrightarrow> r \<notin> set batch \<longrightarrow> length batch = 5"
    "instantOf next = 1704164646678"
    "runOutboxWorkerOnce (\<lambda>now cap. claimOutboxItems (claimArgs now cap))
      (\<lambda>i l u. markOutboxItemSucceeded (succeededArgs i l u))
      (\<lambda>i l n u. markOutboxItemFailed (failedArgs i l n u)) (\<lambda>it s. (False, s)) sampleNow 5
      (JNum (Fin (of_int 1000))) ?s = (Inr \<lparr>processed = length batch, succeeded = length (filter (\<lambda>r. False) batch),
        failed = length (filter (\<lambda>r. True) batch)\<rparr>, s')"
    "\<forall>i. bookOf (db s') i = map_option (\<lambda>r. if r \<in> set batch then leftBehind (\<lambda>_. False) sampleNow next r else r)
      (bookOf (db ?s) i)"
    using worker_pass_settles [OF storeInv_openStore [OF sampleTables_inv], of "[]" sampleNow 5
        "JNum (Fin (of_int 1000))" 1000 "\<lambda>_. False"] sampleNow_isTimestamp sampleNow_later
    by auto
  have "dueAt sampleNow sampleRow" by (simp add: dueAt_def sampleRow_def)
  with b(1,2,3) ob have "batch = [sampleRow]" by (cases batch; cases "tl batch") auto
  with b(4,5,6) ob show ?thesis
    by (intro exI [of _ s'] exI [of _ "next"]) (simp add: bookOf_def leftBehind_def handedOut_def sampleRow_def)
qed
end
