(* ===== verification/Worker_Loop.thy ===== *)
theory Worker_Loop
  imports Outbox_Worker
begin

section \<open>The worker's timer loop\<close>

text \<open>
  \<open>startOutboxWorker\<close> of \<open>packages/persistence/src/outboxWorker.ts\<close>: the checks of its options and the
  loop over an injected scheduler.  The state is the closure's (\<open>stopped\<close>, \<open>inFlight\<close>, \<open>timerHandle\<close>,
  \<open>stopResolve\<close>) with the scheduler's pending timers and counters of what the loop did.  JavaScript
  runs a callback to its next \<open>await\<close>, so a step is: a timer fires (up to the call of
  \<open>runOutboxWorkerOnce\<close>), the pass settles (its report is delivered), the \<open>finally\<close> block runs, or
  \<open>stop\<close> is called, by anyone at any moment, the report callback included.
\<close>

subsection \<open>Options\<close>

definition validateInteger :: "int \<Rightarrow> int \<Rightarrow> jsval \<Rightarrow> exn + int" where
  "validateInteger lo hi v = (case intWithin lo hi v of None \<Rightarrow> Inl RangeErr | Some n \<Rightarrow> Inr n)"

definition isObject :: "jsval \<Rightarrow> (string \<times> slot) list option" where
  "isObject v = (case v of JObj p ps \<Rightarrow> Some ps | JArr xs \<Rightarrow> Some [] | _ \<Rightarrow> None)"

definition isStoreLike :: "jsval \<Rightarrow> bool" where
  "isStoreLike v = (case v of
     JObj p ps \<Rightarrow> js_get ps ''claimOutboxItems'' = JFun \<and> js_get ps ''countOutboxPending'' = JFun
   | _ \<Rightarrow> False)"

definition orDefault :: "jsval \<Rightarrow> int \<Rightarrow> jsval" where
  "orDefault v d = (if v = JUndef \<or> v = JNull then JNum (Fin (of_int d)) else v)"

definition optionalFunction :: "jsval \<Rightarrow> exn + unit" where
  "optionalFunction v = guardE (v = JUndef \<or> v = JFun) TypeErr"

record worker_config = intervalMs :: int  batchLimit :: int  retryDelayMs :: int

definition workerConfig :: "jsval \<Rightarrow> jsval \<Rightarrow> exn + worker_config" where
  "workerConfig st options = bindE (guardE (isStoreLike st) TypeErr) (\<lambda>_.
     case isObject options of None \<Rightarrow> Inl TypeErr | Some ps \<Rightarrow>
     bindE (guardE (js_get ps ''handler'' = JFun) TypeErr) (\<lambda>_.
     bindE (validateInteger 100 3600000 (orDefault (js_get ps ''intervalMs'') 5000)) (\<lambda>interval.
     bindE (validateInteger 1 100 (orDefault (js_get ps ''batchLimit'') 10)) (\<lambda>batch.
     bindE (validateInteger 0 86400000 (orDefault (js_get ps ''retryDelayMs'') 30000)) (\<lambda>delay.
     bindE (optionalFunction (js_get ps ''onReport'')) (\<lambda>_.
     bindE (optionalFunction (js_get ps ''onError'')) (\<lambda>_.
     bindE (guardE (js_get ps ''now'' \<in> {JUndef, JNull, JFun}) TypeErr) (\<lambda>_.
     bindE (guardE (case js_get ps ''schedule'' of JUndef \<Rightarrow> True | JNull \<Rightarrow> True
         | v \<Rightarrow> (case isObject v of None \<Rightarrow> False
             | Some sp \<Rightarrow> js_get sp ''setTimeout'' = JFun \<and> js_get sp ''clearTimeout'' = JFun)) TypeErr) (\<lambda>_.
     Inr \<lparr>intervalMs = interval, batchLimit = batch, retryDelayMs = delay\<rparr>)))))))))"

subsection \<open>The loop\<close>

datatype run_phase = Idle | Running | Finishing

record loop =
  stopped :: bool
  phase :: run_phase
  timerHandle :: "nat option"
  waiting :: bool
  timers :: "nat list"
  nextTimer :: nat
  started :: nat
  finished :: nat
  reports :: nat
  stopsResolved :: nat

definition inFlight :: "loop \<Rightarrow> bool" where
  "inFlight w = (phase w \<noteq> Idle)"

definition arm :: "loop \<Rightarrow> loop" where
  "arm w = (if stopped w then w else w\<lparr>timerHandle := Some (nextTimer w),
     timers := nextTimer w # timers w, nextTimer := nextTimer w + 1\<rparr>)"

definition fire :: "nat \<Rightarrow> loop \<Rightarrow> loop" where
  "fire h w = (let w1 = w\<lparr>timerHandle := None, timers := removeAll h (timers w)\<rparr> in
     if stopped w \<or> inFlight w then w1 else w1\<lparr>phase := Running, started := started w + 1\<rparr>)"

text \<open>The awaited pass settles, with a result or an error: either way there is a report.\<close>

definition deliver :: "loop \<Rightarrow> loop" where
  "deliver w = (if stopped w then w\<lparr>phase := Finishing\<rparr>
     else w\<lparr>phase := Finishing, reports := reports w + 1\<rparr>)"

definition finallyBlock :: "loop \<Rightarrow> loop" where
  "finallyBlock w = (let w1 = w\<lparr>phase := Idle, finished := finished w + 1\<rparr> in
     if stopped w then (if waiting w then w1\<lparr>waiting := False, stopsResolved := stopsResolved w + 1\<rparr> else w1)
     else arm w1)"

definition stop :: "loop \<Rightarrow> loop" where
  "stop w = (if stopped w then w else
     let w1 = (case timerHandle w of
         Some h \<Rightarrow> w\<lparr>stopped := True, timers := removeAll h (timers w), timerHandle := None\<rparr>
       | None \<Rightarrow> w\<lparr>stopped := True\<rparr>)
     in if inFlight w then w1\<lparr>waiting := True\<rparr> else w1\<lparr>stopsResolved := stopsResolved w + 1\<rparr>)"

definition startLoop :: loop where
  "startLoop = arm \<lparr>stopped = False, phase = Idle, timerHandle = None, waiting = False, timers = [],
     nextTimer = 0, started = 0, finished = 0, reports = 0, stopsResolved = 0\<rparr>"

definition running :: "loop \<Rightarrow> bool" where
  "running w = (\<not> stopped w)"

text \<open>A faithful scheduler fires pending timers only; without that, any timer may fire at any time.\<close>

inductive loop_step :: "bool \<Rightarrow> loop \<Rightarrow> loop \<Rightarrow> bool" for faithful where
  step_fire: "(faithful \<Longrightarrow> h \<in> set (timers w)) \<Longrightarrow> loop_step faithful w (fire h w)"
| step_settle: "phase w = Running \<Longrightarrow> loop_step faithful w (deliver w)"
| step_finally: "phase w = Finishing \<Longrightarrow> loop_step faithful w (finallyBlock w)"
| step_stop: "loop_step faithful w (stop w)"

inductive_cases loop_stepE: "loop_step f w w'"

inductive reaches :: "bool \<Rightarrow> loop \<Rightarrow> bool" for faithful where
  reaches_start: "reaches faithful startLoop"
| reaches_step: "reaches faithful w \<Longrightarrow> loop_step faithful w w' \<Longrightarrow> reaches faithful w'"

lemmas loop_defs = arm_def fire_def deliver_def finallyBlock_def stop_def startLoop_def inFlight_def running_def Let_def

text \<open>What holds whatever the scheduler does.\<close>

definition safeLoop :: "loop \<Rightarrow> bool" where
  "safeLoop w = (started w = finished w + (if inFlight w then 1 else 0) \<and>
     (waiting w \<longrightarrow> stopped w \<and> inFlight w) \<and>
     stopsResolved w = (if stopped w \<and> \<not> waiting w then 1 else 0) \<and>
     reports w \<le> finished w + (if phase w = Finishing then 1 else 0) \<and>
     (stopped w \<and> \<not> waiting w \<longrightarrow> \<not> inFlight w))"

lemma safeLoop_step: "loop_step f w w' \<Longrightarrow> safeLoop w \<Longrightarrow> safeLoop w'"
  by (erule loop_stepE) (auto simp: loop_defs safeLoop_def split: option.splits if_splits)

lemma safeLoop_reaches: "reaches f w \<Longrightarrow> safeLoop w"
proof (induction rule: reaches.induct)
  case reaches_start
  show ?case by (simp add: loop_defs safeLoop_def)
qed (rule safeLoop_step)

text \<open>What holds under a faithful scheduler: at most one timer is pending, exactly when the loop waits
  for its next tick.\<close>

definition liveLoop :: "loop \<Rightarrow> bool" where
  "liveLoop w = (timers w = (case timerHandle w of None \<Rightarrow> [] | Some h \<Rightarrow> [h]) \<and>
     (timerHandle w \<noteq> None \<longleftrightarrow> \<not> stopped w \<and> \<not> inFlight w))"

lemma liveLoop_step: "loop_step True w w' \<Longrightarrow> liveLoop w \<Longrightarrow> liveLoop w'"
  by (erule loop_stepE) (auto simp: loop_defs liveLoop_def split: option.splits if_splits)

lemma liveLoop_reaches: "reaches True w \<Longrightarrow> liveLoop w"
proof (induction rule: reaches.induct)
  case reaches_start
  show ?case by (simp add: loop_defs liveLoop_def)
qed (rule liveLoop_step)

text \<open>C8: The loop never overlaps itself, whatever the scheduler fires: in every reachable state the
  passes started exceed the passes finished by one while a pass is in flight and by none otherwise,
  and the promise of the first \<open>stop\<close> is resolved exactly when the loop is stopped with no pass in
  flight, and only once.\<close>

theorem worker_never_overlaps:
  assumes "reaches faithful w"
  shows "started w = finished w + (if inFlight w then 1 else 0) \<and>
    (0 < stopsResolved w \<longleftrightarrow> stopped w \<and> \<not> inFlight w) \<and> stopsResolved w \<le> 1"
  using safeLoop_reaches [OF assms] by (auto simp: safeLoop_def)

lemma worker_never_overlaps_witness:
  "let w = stop (fire 7 (fire 0 startLoop))
   in started w = finished w + 1 \<and> stopsResolved w = 0"
proof -
  have "reaches False (stop (fire 7 (fire 0 startLoop)))"
    by (rule reaches_step, rule reaches_step, rule reaches_step, rule reaches_start)
      (rule step_fire step_stop, simp?)+
  from worker_never_overlaps [OF this] show ?thesis by (simp add: loop_defs)
qed

text \<open>After \<open>stop\<close> the loop starts nothing: from a stopped state every later state is stopped with the
  same number of passes started.\<close>

theorem worker_stop_is_final:
  assumes "(loop_step faithful)\<^sup>*\<^sup>* w w'" "stopped w"
  shows "stopped w' \<and> started w' = started w \<and> reports w' = reports w"
  using assms
proof (induction rule: rtranclp_induct)
  case (step y z)
  then show ?case by (auto simp: loop_defs elim!: loop_stepE split: option.splits)
qed simp

lemma worker_stop_is_final_witness:
  "stopped (fire 0 (stop startLoop)) \<and> started (fire 0 (stop startLoop)) = 0"
proof -
  have "(loop_step False)\<^sup>*\<^sup>* (stop startLoop) (fire 0 (stop startLoop))"
    by (rule r_into_rtranclp, rule step_fire) simp
  from worker_stop_is_final [OF this] show ?thesis by (simp add: loop_defs)
qed

text \<open>The loop stays alive: under a scheduler that fires pending timers only, a loop that has not been
  stopped is either running a pass or has exactly one pending timer, whose firing starts the next
  pass; a pass that ends, with a report or an error, arms that timer.\<close>

theorem worker_stays_alive:
  assumes "reaches True w" "running w"
  shows "inFlight w \<or> (\<exists>h. timers w = [h] \<and> phase (fire h w) = Running \<and> started (fire h w) = started w + 1)"
  using liveLoop_reaches [OF assms(1)] assms(2)
  by (cases "timerHandle w") (auto simp: liveLoop_def loop_defs split: option.splits)

lemma worker_stays_alive_witness:
  "inFlight (finallyBlock (deliver (fire 0 startLoop))) \<or>
   (\<exists>h. timers (finallyBlock (deliver (fire 0 startLoop))) = [h])"
proof -
  have a: "loop_step True startLoop (fire 0 startLoop)" by (rule step_fire) (simp add: loop_defs)
  have b: "loop_step True (fire 0 startLoop) (deliver (fire 0 startLoop))"
    by (rule step_settle) (simp add: loop_defs)
  have c: "loop_step True (deliver (fire 0 startLoop)) (finallyBlock (deliver (fire 0 startLoop)))"
    by (rule step_finally) (simp add: loop_defs)
  have "reaches True (finallyBlock (deliver (fire 0 startLoop)))"
    by (rule reaches_step [OF reaches_step [OF reaches_step [OF reaches_start a] b] c])
  from worker_stays_alive [OF this] show ?thesis by (auto simp: loop_defs)
qed

end
