(* ===== verification/Listener_Registry.thy ===== *)
theory Listener_Registry
  imports Js_Value "HOL-Library.Sublist"
begin

section \<open>The listener registry (packages/core/src/listener.ts)\<close>

text \<open>
  A listener waits for the next update that its filter accepts; its promise settles when an update
  matches, its timer fires, its signal aborts, its handle is cancelled, or the registry is cleared.
  Listeners are numbered in the order of their registration.  The state holds the \<open>entries\<close> map of
  the code (the identifiers in insertion order), the entry objects, which the handles keep alive,
  and the host's side: the timers that are set, the abort callbacks that are attached to signals
  (objects numbered by the host), and every call of a promise's \<open>resolve\<close> or \<open>reject\<close>.
  The timer that a listener sets is named by the listener.  Predicates are pure: they may throw, but
  do not call the registry.
\<close>

subsection \<open>Data\<close>

datatype listener_abort_code = ListenerCancelled | ListenerSignalAborted | ListenerRegistryCleared

datatype listener_options_code =
    LInvalidFilter
  | LInvalidOptions
  | LInvalidTimeout
  | LInvalidSignal
  | LInvalidDescription
  | LMaxListenersExceeded
  | LInvalidMaxActive

datatype 'u listener_outcome =
    Resolved 'u
  | TimedOut int
  | Aborted listener_abort_code

text \<open>A filter value is what its run-time checks see and what its predicate does.\<close>

record ('u, 'e) filter_arg =
  filter_shape :: jsval
  filter_predicate :: "'u \<Rightarrow> 'e + bool"

definition filter_brand :: string where
  "filter_brand = ''Symbol.for(@wats/core/filter-brand)''"

record ('u, 'e) listener_entry =
  le_predicate :: "'u \<Rightarrow> 'e + bool"
  le_timeout :: "int option"
  le_signal :: "nat option"
  le_settled :: bool
  le_cancelled :: bool

record ('u, 'e) registry =
  maxActive :: int
  lentries :: "nat list"
  lobjects :: "nat \<Rightarrow> ('u, 'e) listener_entry option"
  lnext :: nat
  timers :: "nat list"
  abortCallbacks :: "(nat \<times> nat) list"
  outcomes :: "(nat \<times> 'u listener_outcome) list"

definition DEFAULT_MAX_ACTIVE_LISTENERS :: int where
  "DEFAULT_MAX_ACTIVE_LISTENERS = 10000"

subsection \<open>Run-time validation\<close>

definition isTypedFilter :: "jsval \<Rightarrow> bool" where
  "isTypedFilter v = (case objectProps v of
     None \<Rightarrow> False
   | Some ps \<Rightarrow> js_get ps filter_brand = JBool True
       \<and> isFunction (js_get ps ''predicate'') \<and> isFunction (js_get ps ''describe''))"

definition validateRegistryOptions :: "jsval \<Rightarrow> listener_options_code + unit" where
  "validateRegistryOptions v = (if v = JUndef then Inr () else
     (case objectProps v of
        None \<Rightarrow> Inl LInvalidOptions
      | Some ps \<Rightarrow> (let m = js_get ps ''maxActiveListeners'' in
          if m \<noteq> JUndef \<and> \<not> isPositiveInteger m then Inl LInvalidMaxActive else Inr ())))"

definition validateListenerOptions :: "jsval \<Rightarrow> listener_options_code + unit" where
  "validateListenerOptions v = (if v = JUndef then Inr () else
     (case objectProps v of
        None \<Rightarrow> Inl LInvalidOptions
      | Some ps \<Rightarrow>
          if js_get ps ''timeoutMs'' \<noteq> JUndef \<and> \<not> isPositiveInteger (js_get ps ''timeoutMs'')
          then Inl LInvalidTimeout
          else if js_get ps ''signal'' \<noteq> JUndef \<and> \<not> isAbortSignalLike (js_get ps ''signal'')
          then Inl LInvalidSignal
          else if js_get ps ''description'' \<noteq> JUndef \<and> \<not> isString (js_get ps ''description'')
          then Inl LInvalidDescription
          else Inr ()))"

subsection \<open>Operations\<close>

definition createListenerRegistry :: "jsval \<Rightarrow> listener_options_code + ('u, 'e) registry" where
  "createListenerRegistry options = bindE (validateRegistryOptions options) (\<lambda>_.
     let m = optField options ''maxActiveListeners'' in
     Inr \<lparr>maxActive = (if m = JUndef then DEFAULT_MAX_ACTIVE_LISTENERS else numberFloor m),
          lentries = [], lobjects = (\<lambda>_. None), lnext = 0, timers = [], abortCallbacks = [],
          outcomes = []\<rparr>)"

definition finalize :: "nat \<Rightarrow> ('u, 'e) registry \<Rightarrow> ('u, 'e) registry" where
  "finalize i s = (case lobjects s i of
     None \<Rightarrow> s
   | Some en \<Rightarrow> if le_settled en then s else
       s\<lparr>lobjects := (lobjects s)(i \<mapsto> en\<lparr>le_settled := True, le_timeout := None, le_signal := None\<rparr>),
         timers := (if le_timeout en \<noteq> None then filter (\<lambda>t. t \<noteq> i) (timers s) else timers s),
         abortCallbacks := (case le_signal en of
            None \<Rightarrow> abortCallbacks s
          | Some sg \<Rightarrow> filter (\<lambda>c. c \<noteq> (sg, i)) (abortCallbacks s)),
         lentries := filter (\<lambda>j. j \<noteq> i) (lentries s)\<rparr>)"

definition callPromise :: "nat \<Rightarrow> 'u listener_outcome \<Rightarrow> ('u, 'e) registry \<Rightarrow> ('u, 'e) registry" where
  "callPromise i oc s = s\<lparr>outcomes := outcomes s @ [(i, oc)]\<rparr>"

text \<open>The body that the timer, the abort callback, \<open>cancel\<close> and \<open>clear\<close> share: settle once.\<close>

definition isPending :: "nat \<Rightarrow> ('u, 'e) registry \<Rightarrow> bool" where
  "isPending i s = (case lobjects s i of None \<Rightarrow> False | Some en \<Rightarrow> \<not> le_settled en)"

definition settleWith :: "nat \<Rightarrow> 'u listener_outcome \<Rightarrow> ('u, 'e) registry \<Rightarrow> ('u, 'e) registry" where
  "settleWith i oc s = (if isPending i s then callPromise i oc (finalize i s) else s)"

definition register ::
  "('u, 'e) filter_arg \<Rightarrow> jsval \<Rightarrow> nat \<Rightarrow> (('u, 'e) registry, listener_options_code, nat) act" where
  "register flt opts sg s =
     (if \<not> isTypedFilter (filter_shape flt) then (Inl LInvalidFilter, s)
      else (case validateListenerOptions opts of
        Inl e \<Rightarrow> (Inl e, s)
      | Inr _ \<Rightarrow>
          if maxActive s \<le> int (length (lentries s)) then (Inl LMaxListenersExceeded, s)
          else
            let i = lnext s;
                tm = optField opts ''timeoutMs'';
                sig = optField opts ''signal'';
                en = \<lparr>le_predicate = filter_predicate flt, le_timeout = None, le_signal = None,
                      le_settled = False, le_cancelled = False\<rparr>
            in if optField sig ''aborted'' = JBool True
               then (Inr i, callPromise i (Aborted ListenerSignalAborted)
                       (s\<lparr>lnext := Suc i, lobjects := (lobjects s)(i \<mapsto> en\<lparr>le_settled := True\<rparr>)\<rparr>))
               else (Inr i, s\<lparr>lnext := Suc i,
                      lentries := lentries s @ [i],
                      lobjects := (lobjects s)(i \<mapsto> en\<lparr>
                        le_timeout := (if tm = JUndef then None else Some (numberFloor tm)),
                        le_signal := (if sig = JUndef then None else Some sg)\<rparr>),
                      timers := (if tm = JUndef then timers s else timers s @ [i]),
                      abortCallbacks := (if sig = JUndef then abortCallbacks s
                                         else abortCallbacks s @ [(sg, i)])\<rparr>)))"

fun evalLoop ::
  "'u \<Rightarrow> nat list \<Rightarrow> (('u, 'e) registry, 'e, nat option) act" where
  "evalLoop u [] s = (Inr None, s)"
| "evalLoop u (i # is) s = (case lobjects s i of
     None \<Rightarrow> evalLoop u is s
   | Some en \<Rightarrow> if le_settled en then evalLoop u is s else
       (case le_predicate en u of
          Inl e \<Rightarrow> (Inl e, s)
        | Inr True \<Rightarrow> (Inr (Some i), callPromise i (Resolved u) (finalize i s))
        | Inr False \<Rightarrow> evalLoop u is s))"

definition evaluate :: "'u \<Rightarrow> (('u, 'e) registry, 'e, nat option) act" where
  "evaluate u s = evalLoop u (lentries s) s"

definition cancelListener :: "nat \<Rightarrow> ('u, 'e) registry \<Rightarrow> ('u, 'e) registry" where
  "cancelListener i s = (case lobjects s i of
     None \<Rightarrow> s
   | Some en \<Rightarrow> if le_settled en then s else
       callPromise i (Aborted ListenerCancelled)
         (finalize i (s\<lparr>lobjects := (lobjects s)(i \<mapsto> en\<lparr>le_cancelled := True\<rparr>)\<rparr>)))"

definition clearListeners :: "('u, 'e) registry \<Rightarrow> ('u, 'e) registry" where
  "clearListeners s = (let snapshot = lentries s in
     (fold (\<lambda>i. settleWith i (Aborted ListenerRegistryCleared)) snapshot s)\<lparr>lentries := []\<rparr>)"

text \<open>
  The host calls back: a timer that is set fires once, and an aborting signal calls the callbacks
  that are attached to it, in their order, each once (\<open>once: true\<close>).
\<close>

definition timerFires :: "nat \<Rightarrow> ('u, 'e) registry \<Rightarrow> ('u, 'e) registry" where
  "timerFires i s = (case lobjects s i of
     None \<Rightarrow> s
   | Some en \<Rightarrow> (case le_timeout en of
       None \<Rightarrow> s
     | Some ms \<Rightarrow> settleWith i (TimedOut ms) (s\<lparr>timers := filter (\<lambda>t. t \<noteq> i) (timers s)\<rparr>)))"

definition signalAborts :: "nat \<Rightarrow> ('u, 'e) registry \<Rightarrow> ('u, 'e) registry" where
  "signalAborts sg s = fold (\<lambda>c s. settleWith (snd c) (Aborted ListenerSignalAborted)
       (s\<lparr>abortCallbacks := filter (\<lambda>d. d \<noteq> c) (abortCallbacks s)\<rparr>))
     (filter (\<lambda>c. fst c = sg) (abortCallbacks s)) s"

subsection \<open>Runs of a registry\<close>

inductive registry_step :: "('u, 'e) registry \<Rightarrow> ('u, 'e) registry \<Rightarrow> bool" where
  step_register: "register flt opts sg s = (r, s') \<Longrightarrow> registry_step s s'"
| step_evaluate: "evaluate u s = (r, s') \<Longrightarrow> registry_step s s'"
| step_cancel: "registry_step s (cancelListener i s)"
| step_clear: "registry_step s (clearListeners s)"
| step_timer: "i \<in> set (timers s) \<Longrightarrow> registry_step s (timerFires i s)"
| step_signal: "registry_step s (signalAborts sg s)"

inductive registry_reaches :: "('u, 'e) registry \<Rightarrow> bool" where
  registry_start: "createListenerRegistry options = Inr s \<Longrightarrow> registry_reaches s"
| registry_next: "registry_reaches s \<Longrightarrow> registry_step s s' \<Longrightarrow> registry_reaches s'"

definition hasTimeout :: "nat \<Rightarrow> ('u, 'e) registry \<Rightarrow> bool" where
  "hasTimeout i s = (case lobjects s i of None \<Rightarrow> False | Some en \<Rightarrow> le_timeout en \<noteq> None)"

definition hasSignal :: "nat \<Rightarrow> nat \<Rightarrow> ('u, 'e) registry \<Rightarrow> bool" where
  "hasSignal sg i s = (case lobjects s i of None \<Rightarrow> False | Some en \<Rightarrow> le_signal en = Some sg)"

definition regInv :: "('u, 'e) registry \<Rightarrow> bool" where
  "regInv s \<longleftrightarrow>
     sorted_wrt (<) (lentries s)
   \<and> (\<forall>i. i \<in> set (lentries s) \<longleftrightarrow> isPending i s)
   \<and> (\<forall>i. lobjects s i \<noteq> None \<longleftrightarrow> i < lnext s)
   \<and> distinct (map fst (outcomes s))
   \<and> (\<forall>i. i \<in> fst ` set (outcomes s) \<longleftrightarrow> i < lnext s \<and> \<not> isPending i s)
   \<and> (\<forall>i. i \<in> set (timers s) \<longleftrightarrow> hasTimeout i s)
   \<and> (\<forall>sg i. (sg, i) \<in> set (abortCallbacks s) \<longleftrightarrow> hasSignal sg i s)
   \<and> (\<forall>i. hasTimeout i s \<longrightarrow> isPending i s)
   \<and> (\<forall>sg i. hasSignal sg i s \<longrightarrow> isPending i s)
   \<and> int (length (lentries s)) \<le> maxActive s"

lemma regInvD:
  assumes "regInv s"
  shows "sorted_wrt (<) (lentries s)" "i \<in> set (lentries s) \<longleftrightarrow> isPending i s"
    "lobjects s i \<noteq> None \<longleftrightarrow> i < lnext s" "distinct (map fst (outcomes s))"
    "i \<in> fst ` set (outcomes s) \<longleftrightarrow> i < lnext s \<and> \<not> isPending i s"
    "i \<in> set (timers s) \<longleftrightarrow> hasTimeout i s"
    "(sg, i) \<in> set (abortCallbacks s) \<longleftrightarrow> hasSignal sg i s"
    "hasTimeout i s \<Longrightarrow> isPending i s" "hasSignal sg i s \<Longrightarrow> isPending i s"
    "int (length (lentries s)) \<le> maxActive s"
  using assms unfolding regInv_def by blast+

lemma isPending_less: "regInv s \<Longrightarrow> isPending i s \<Longrightarrow> i < lnext s"
  using regInvD(3) [of s i] by (auto simp: isPending_def split: option.splits)

subsection \<open>Settling a listener\<close>

lemma settled_fields:
  assumes "isPending i s"
  shows "lentries (callPromise i oc (finalize i s)) = filter (\<lambda>j. j \<noteq> i) (lentries s)"
    "outcomes (callPromise i oc (finalize i s)) = outcomes s @ [(i, oc)]"
    "lnext (callPromise i oc (finalize i s)) = lnext s"
    "maxActive (callPromise i oc (finalize i s)) = maxActive s"
    "isPending j (callPromise i oc (finalize i s)) \<longleftrightarrow> j \<noteq> i \<and> isPending j s"
    "hasTimeout j (callPromise i oc (finalize i s)) \<longleftrightarrow> j \<noteq> i \<and> hasTimeout j s"
    "hasSignal sg j (callPromise i oc (finalize i s)) \<longleftrightarrow> j \<noteq> i \<and> hasSignal sg j s"
    "lobjects (callPromise i oc (finalize i s)) j \<noteq> None \<longleftrightarrow> lobjects s j \<noteq> None"
  using assms
  by (auto simp: finalize_def callPromise_def isPending_def hasTimeout_def hasSignal_def
      split: option.splits if_splits)

lemma settled_timers:
  assumes "regInv s" "isPending i s"
  shows "j \<in> set (timers (callPromise i oc (finalize i s))) \<longleftrightarrow> j \<noteq> i \<and> j \<in> set (timers s)"
  using assms regInvD(6) [OF assms(1), of i]
  by (auto simp: finalize_def callPromise_def isPending_def hasTimeout_def split: option.splits)

lemma settled_callbacks:
  assumes "regInv s" "isPending i s"
  shows "(sg, j) \<in> set (abortCallbacks (callPromise i oc (finalize i s))) \<longleftrightarrow>
    j \<noteq> i \<and> (sg, j) \<in> set (abortCallbacks s)"
  using assms regInvD(7) [OF assms(1), of sg i]
  by (auto simp: finalize_def callPromise_def isPending_def hasSignal_def split: option.splits)

lemma regInv_settled:
  assumes inv: "regInv s" and pending: "isPending i s"
  shows "regInv (callPromise i oc (finalize i s))"
proof -
  note facts = settled_fields [OF pending] settled_timers [OF inv pending]
    settled_callbacks [OF inv pending]
  note old = regInvD [OF inv]
  have "i \<notin> fst ` set (outcomes s)" using old(5) pending by blast
  moreover have "i < lnext s" using isPending_less inv pending by blast
  moreover have "int (length (filter (\<lambda>j. j \<noteq> i) (lentries s))) \<le> maxActive s"
    using old(10) length_filter_le [of "\<lambda>j. j \<noteq> i" "lentries s"] by linarith
  ultimately show ?thesis
    unfolding regInv_def
    by (intro conjI allI) (simp_all only: facts old(2,3) map_append list.map fst_conv,
      auto simp: old(1,2,4-9) sorted_wrt_filter)
qed

lemma regInv_settleWith: "regInv s \<Longrightarrow> regInv (settleWith i oc s)"
  by (simp add: settleWith_def regInv_settled)

text \<open>What a callback of the host has detached already, \<open>finalize\<close> detaches again.\<close>

lemma settleWith_timer:
  assumes "hasTimeout i s" "isPending i s"
  shows "settleWith i oc (s\<lparr>timers := filter (\<lambda>t. t \<noteq> i) (timers s)\<rparr>) = settleWith i oc s"
  using assms
  by (auto simp: settleWith_def isPending_def hasTimeout_def finalize_def callPromise_def
      split: option.splits)

lemma settleWith_callback:
  assumes "regInv s"
  shows "settleWith i oc (s\<lparr>abortCallbacks := filter (\<lambda>d. d \<noteq> (sg, i)) (abortCallbacks s)\<rparr>)
    = settleWith i oc s"
proof (cases "(sg, i) \<in> set (abortCallbacks s)")
  case False
  then have "filter (\<lambda>d. d \<noteq> (sg, i)) (abortCallbacks s) = abortCallbacks s"
    by (auto simp: filter_id_conv)
  then show ?thesis by simp
next
  case True
  then have "hasSignal sg i s" "isPending i s" using regInvD(7,9) [OF assms] by blast+
  then show ?thesis
    by (auto simp: settleWith_def isPending_def hasSignal_def finalize_def callPromise_def
      split: option.splits)
qed

lemma timerFires_settles:
  assumes "regInv s" "i \<in> set (timers s)"
  shows "\<exists>ms. timerFires i s = settleWith i (TimedOut ms) s \<and> isPending i s"
proof -
  have h: "hasTimeout i s" "isPending i s" using regInvD(6,8) [OF assms(1)] assms(2) by blast+
  then obtain en ms where "lobjects s i = Some en" "le_timeout en = Some ms"
    by (auto simp: hasTimeout_def split: option.splits)
  then have "timerFires i s = settleWith i (TimedOut ms) (s\<lparr>timers := filter (\<lambda>t. t \<noteq> i) (timers s)\<rparr>)"
    by (simp add: timerFires_def)
  with h show ?thesis by (metis settleWith_timer)
qed

definition settleAll :: "nat list \<Rightarrow> 'u listener_outcome \<Rightarrow> ('u, 'e) registry \<Rightarrow> ('u, 'e) registry" where
  "settleAll is oc s = fold (\<lambda>i. settleWith i oc) is s"

lemma regInv_settleAll: "regInv s \<Longrightarrow> regInv (settleAll is oc s)"
  unfolding settleAll_def by (induction "is" arbitrary: s) (simp_all add: regInv_settleWith)

lemma signal_fold:
  assumes "regInv s" and "\<And>c. c \<in> set cs \<Longrightarrow> fst c = sg"
  shows "fold (\<lambda>c s. settleWith (snd c) oc (s\<lparr>abortCallbacks := filter (\<lambda>d. d \<noteq> c) (abortCallbacks s)\<rparr>)) cs s
    = settleAll (map snd cs) oc s"
  using assms unfolding settleAll_def
proof (induction cs arbitrary: s)
  case Nil
  then show ?case by simp
next
  case (Cons c cs)
  have "c = (sg, snd c)" using Cons.prems(2) [of c] by (cases c) simp
  with Cons show ?case using settleWith_callback [OF Cons.prems(1), of "snd c" oc sg]
    by (simp add: regInv_settleWith)
qed

lemma signalAborts_settles:
  "regInv s \<Longrightarrow> signalAborts sg s
     = settleAll (map snd (filter (\<lambda>c. fst c = sg) (abortCallbacks s))) (Aborted ListenerSignalAborted) s"
  unfolding signalAborts_def by (rule signal_fold) auto

lemma settleAll_fields:
  assumes "distinct is" "\<And>i. i \<in> set is \<Longrightarrow> isPending i s"
  shows "lentries (settleAll is oc s) = filter (\<lambda>j. j \<notin> set is) (lentries s)
    \<and> outcomes (settleAll is oc s) = outcomes s @ map (\<lambda>i. (i, oc)) is"
  using assms
proof (induction "is" arbitrary: s)
  case Nil
  then show ?case by (simp add: settleAll_def)
next
  case (Cons i "is")
  have p: "isPending i s" by (simp add: Cons.prems)
  have "settleAll (i # is) oc s = settleAll is oc (callPromise i oc (finalize i s))"
    using p by (simp add: settleAll_def settleWith_def)
  moreover have "isPending j (callPromise i oc (finalize i s))" if "j \<in> set is" for j
    using that Cons.prems by (auto simp: settled_fields(5) [OF p])
  ultimately show ?case
    using Cons.IH [of "callPromise i oc (finalize i s)"] Cons.prems(1) settled_fields(1,2) [OF p]
    by (simp add: conj_commute)
qed

lemma clearListeners_settles:
  assumes "regInv s"
  shows "clearListeners s = settleAll (lentries s) (Aborted ListenerRegistryCleared) s"
    and "lentries (clearListeners s) = []"
    and "outcomes (clearListeners s)
      = outcomes s @ map (\<lambda>i. (i, Aborted ListenerRegistryCleared)) (lentries s)"
proof -
  have "distinct (lentries s)" using regInvD(1) [OF assms] by (simp add: strict_sorted_iff)
  then have f: "lentries (settleAll (lentries s) oc s) = []"
    "outcomes (settleAll (lentries s) oc s) = outcomes s @ map (\<lambda>i. (i, oc)) (lentries s)" for oc
    using settleAll_fields [of "lentries s" s oc] regInvD(2) [OF assms] by auto
  then show e: "clearListeners s = settleAll (lentries s) (Aborted ListenerRegistryCleared) s"
    by (simp add: clearListeners_def Let_def flip: settleAll_def)
  show "lentries (clearListeners s) = []" "outcomes (clearListeners s)
      = outcomes s @ map (\<lambda>i. (i, Aborted ListenerRegistryCleared)) (lentries s)"
    unfolding e by (rule f)+
qed

subsection \<open>Every operation keeps the invariant\<close>

lemma regInv_create: "createListenerRegistry options = Inr s \<Longrightarrow> regInv s"
proof -
  assume c: "createListenerRegistry options = Inr s"
  have pos: "0 \<le> maxActive s"
    using c by (auto simp: createListenerRegistry_def res_iff Let_def DEFAULT_MAX_ACTIVE_LISTENERS_def
        numberFloor_def validateRegistryOptions_def isPositiveInteger_def optField_def objectProps_def
        split: if_splits option.splits jsval.splits jsnum.splits)
  moreover have "lentries s = []" "lobjects s = (\<lambda>_. None)" "lnext s = 0" "timers s = []"
    "abortCallbacks s = []" "outcomes s = []"
    using c by (auto simp: createListenerRegistry_def res_iff Let_def)
  ultimately show ?thesis
    by (simp add: regInv_def isPending_def hasTimeout_def hasSignal_def)
qed

text \<open>The two ways in which \<open>register\<close> succeeds: a listener that waits, or one that is aborted.\<close>

lemma register_cases:
  assumes "register flt opts sg s = (r, s')"
  obtains (rejected) e where "r = Inl e" "s' = s"
  | (aborted) en where "r = Inr (lnext s)" "le_settled en" "le_timeout en = None" "le_signal en = None"
      "s' = callPromise (lnext s) (Aborted ListenerSignalAborted)
         (s\<lparr>lnext := Suc (lnext s), lobjects := (lobjects s)(lnext s \<mapsto> en)\<rparr>)"
      "int (length (lentries s)) < maxActive s"
  | (waiting) en where "r = Inr (lnext s)" "\<not> le_settled en" "le_predicate en = filter_predicate flt"
      "s' = s\<lparr>lnext := Suc (lnext s), lentries := lentries s @ [lnext s],
         lobjects := (lobjects s)(lnext s \<mapsto> en),
         timers := (if le_timeout en = None then timers s else timers s @ [lnext s]),
         abortCallbacks := (case le_signal en of None \<Rightarrow> abortCallbacks s
           | Some g \<Rightarrow> abortCallbacks s @ [(g, lnext s)])\<rparr>"
      "int (length (lentries s)) < maxActive s"
proof -
  let ?tm = "optField opts ''timeoutMs''" and ?sig = "optField opts ''signal''"
  let ?en = "\<lparr>le_predicate = filter_predicate flt, le_timeout = None, le_signal = None,
    le_settled = False, le_cancelled = False\<rparr>"
  consider (no) e where "r = Inl e" "s' = s"
    | (yes) "isTypedFilter (filter_shape flt)" "validateListenerOptions opts = Inr ()"
        "int (length (lentries s)) < maxActive s"
    using assms by (cases "validateListenerOptions opts") (auto simp: register_def split: if_splits)
  then show thesis
  proof cases
    case no
    then show thesis by (rule rejected)
  next
    case yes
    show thesis
    proof (cases "optField ?sig ''aborted'' = JBool True")
      case True
      with yes assms show thesis
        by (intro aborted [of "?en\<lparr>le_settled := True\<rparr>"]) (auto simp: register_def Let_def)
    next
      case False
      with yes assms show thesis
        by (intro waiting [of "?en\<lparr>le_timeout := (if ?tm = JUndef then None else Some (numberFloor ?tm)),
            le_signal := (if ?sig = JUndef then None else Some sg)\<rparr>"])
          (auto simp: register_def Let_def)
    qed
  qed
qed

lemma regInv_register:
  assumes inv: "regInv s" and r: "register flt opts sg s = (r, s')"
  shows "regInv s'"
  using r
proof (cases rule: register_cases)
  case (rejected e)
  with inv show ?thesis by simp
next
  case (aborted en)
  have np: "\<not> isPending (lnext s) s" using isPending_less [OF inv] by blast
  note old = regInvD [OF inv]
  have nt: "\<not> hasTimeout (lnext s) s" "\<And>g. \<not> hasSignal g (lnext s) s" using old(8,9) np by blast+
  have "isPending i s' \<longleftrightarrow> isPending i s" "hasTimeout i s' \<longleftrightarrow> hasTimeout i s"
    "hasSignal g i s' \<longleftrightarrow> hasSignal g i s" for i g
    using aborted(2-5) nt np by (auto simp: callPromise_def isPending_def hasTimeout_def hasSignal_def)
  moreover have "lnext s \<notin> fst ` set (outcomes s)" using old(5) by blast
  moreover have "lobjects s' i \<noteq> None \<longleftrightarrow> i < lnext s'" for i
    using aborted(5) old(3) [of i] by (auto simp: callPromise_def less_Suc_eq simp del: not_None_eq)
  moreover have "i \<in> fst ` set (outcomes s') \<longleftrightarrow> i < lnext s' \<and> \<not> isPending i s" for i
    using aborted(5) old(5) [of i] np by (auto simp: callPromise_def less_Suc_eq)
  moreover have "lentries s' = lentries s" "timers s' = timers s" "abortCallbacks s' = abortCallbacks s"
    "outcomes s' = outcomes s @ [(lnext s, Aborted ListenerSignalAborted)]" "maxActive s' = maxActive s"
    using aborted(5) by (simp_all add: callPromise_def)
  ultimately show ?thesis unfolding regInv_def
    by (intro conjI allI) (simp_all add: old)
next
  case (waiting en)
  have np: "\<not> isPending (lnext s) s" using isPending_less [OF inv] by blast
  note old = regInvD [OF inv]
  have nt: "\<not> hasTimeout (lnext s) s" "\<And>g. \<not> hasSignal g (lnext s) s" using old(8,9) np by blast+
  have "isPending i s' \<longleftrightarrow> i = lnext s \<or> isPending i s"
    "hasTimeout i s' \<longleftrightarrow> (i = lnext s \<and> le_timeout en \<noteq> None) \<or> hasTimeout i s"
    "hasSignal g i s' \<longleftrightarrow> (i = lnext s \<and> le_signal en = Some g) \<or> hasSignal g i s" for i g
    using waiting(2,4) nt by (auto simp: isPending_def hasTimeout_def hasSignal_def split: option.splits)
  moreover have "\<forall>i \<in> set (lentries s). i < lnext s" using old(2) isPending_less [OF inv] by blast
  moreover have "lobjects s' i \<noteq> None \<longleftrightarrow> i < lnext s'" for i
    using waiting(4) old(3) [of i] by (auto simp: less_Suc_eq simp del: not_None_eq)
  moreover have "i \<in> fst ` set (outcomes s') \<longleftrightarrow> i < lnext s' \<and> i \<noteq> lnext s \<and> \<not> isPending i s" for i
    using waiting(4) old(5) [of i] by (auto simp: less_Suc_eq)
  moreover have "lentries s' = lentries s @ [lnext s]" "outcomes s' = outcomes s"
    "maxActive s' = maxActive s" "int (length (lentries s)) < maxActive s"
    using waiting(4,5) by simp_all
  moreover have "i \<in> set (timers s') \<longleftrightarrow> i \<in> set (timers s) \<or> i = lnext s \<and> le_timeout en \<noteq> None"
    "c \<in> set (abortCallbacks s') \<longleftrightarrow> c \<in> set (abortCallbacks s) \<or> (\<exists>g. le_signal en = Some g \<and> c = (g, lnext s))"
    for i c using waiting(4) by (auto split: option.splits)
  ultimately show ?thesis unfolding regInv_def
    by (intro conjI allI) (auto simp: old sorted_wrt_append simp del: not_None_eq)
qed

definition predicateOf :: "('u, 'e) registry \<Rightarrow> nat \<Rightarrow> 'u \<Rightarrow> 'e + bool" where
  "predicateOf s i u = (case lobjects s i of None \<Rightarrow> Inr False | Some en \<Rightarrow> le_predicate en u)"

text \<open>\<open>i\<close> is the first of \<open>is\<close> whose predicate does not answer \<open>false\<close>; it answers \<open>v\<close>.\<close>

definition firstHit :: "('u, 'e) registry \<Rightarrow> 'u \<Rightarrow> nat list \<Rightarrow> nat \<Rightarrow> 'e + bool \<Rightarrow> bool" where
  "firstHit s u is i v \<longleftrightarrow> (\<exists>ps qs. is = ps @ i # qs \<and> predicateOf s i u = v
     \<and> (\<forall>j \<in> set ps. predicateOf s j u = Inr False))"

lemma firstHit_here: "predicateOf s i u = v \<Longrightarrow> firstHit s u (i # is) i v"
  unfolding firstHit_def by (intro exI [of _ "[]"] exI [of _ "is"]) simp

lemma firstHit_later:
  assumes "predicateOf s j u = Inr False" "firstHit s u is i v"
  shows "firstHit s u (j # is) i v"
proof -
  from assms(2) obtain ps qs where "is = ps @ i # qs" "predicateOf s i u = v"
    "\<forall>j \<in> set ps. predicateOf s j u = Inr False" by (auto simp: firstHit_def)
  with assms(1) show ?thesis unfolding firstHit_def by (intro exI [of _ "j # ps"] exI [of _ qs]) simp
qed

definition evaluation :: "'u \<Rightarrow> ('u, 'e) registry \<Rightarrow> nat list \<Rightarrow> 'e + nat option \<Rightarrow> ('u, 'e) registry \<Rightarrow> bool" where
  "evaluation u s is r s' = (case r of
      Inl e \<Rightarrow> s' = s \<and> (\<exists>i. firstHit s u is i (Inl e))
    | Inr None \<Rightarrow> s' = s \<and> (\<forall>j \<in> set is. predicateOf s j u = Inr False)
    | Inr (Some i) \<Rightarrow> s' = callPromise i (Resolved u) (finalize i s) \<and> isPending i s
        \<and> firstHit s u is i (Inr True))"

lemma evaluation_later:
  "predicateOf s j u = Inr False \<Longrightarrow> evaluation u s is r s' \<Longrightarrow> evaluation u s (j # is) r s'"
  by (auto simp: evaluation_def intro: firstHit_later split: sum.splits option.splits)

lemma evalLoop_spec:
  assumes "\<And>i. i \<in> set is \<Longrightarrow> isPending i s" and "evalLoop u is s = (r, s')"
  shows "evaluation u s is r s'"
  using assms
proof (induction "is")
  case Nil
  then show ?case by (auto simp: evaluation_def)
next
  case (Cons i "is")
  obtain en where en: "lobjects s i = Some en" "\<not> le_settled en"
    using Cons.prems(1) [of i] by (auto simp: isPending_def split: option.splits)
  have p: "predicateOf s i u = le_predicate en u" by (simp add: predicateOf_def en)
  consider (throws) e where "le_predicate en u = Inl e" | (hit) "le_predicate en u = Inr True"
    | (miss) "le_predicate en u = Inr False"
    by (metis (full_types) old.sum.exhaust)
  then show ?case
  proof cases
    case throws
    then have "r = Inl e" "s' = s" using Cons.prems(2) en by auto
    with throws p show ?thesis by (auto simp: evaluation_def intro: firstHit_here)
  next
    case hit
    then have "r = Inr (Some i)" "s' = callPromise i (Resolved u) (finalize i s)"
      using Cons.prems(2) en by auto
    with hit p Cons.prems(1) show ?thesis by (simp add: evaluation_def firstHit_here)
  next
    case miss
    then have "evalLoop u is s = (r, s')" using Cons.prems(2) en by auto
    with Cons.IH Cons.prems(1) have "evaluation u s is r s'" by simp
    with miss p show ?thesis by (simp add: evaluation_later)
  qed
qed

lemma evaluate_spec:
  "regInv s \<Longrightarrow> evaluate u s = (r, s') \<Longrightarrow> evaluation u s (lentries s) r s'"
  unfolding evaluate_def by (rule evalLoop_spec) (simp_all add: regInvD(2))

lemma regInv_evaluate:
  assumes "regInv s" "evaluate u s = (r, s')"
  shows "regInv s'"
  using evaluate_spec [OF assms] assms(1) regInv_settled
  by (auto simp: evaluation_def split: sum.splits option.splits)

lemma regInv_cancel: "regInv s \<Longrightarrow> regInv (cancelListener i s)"
proof (cases "isPending i s")
  case False
  then have "cancelListener i s = s"
    by (auto simp: cancelListener_def isPending_def split: option.splits)
  then show "regInv s \<Longrightarrow> ?thesis" by simp
next
  case True
  then obtain en where en: "lobjects s i = Some en" "\<not> le_settled en"
    by (auto simp: isPending_def split: option.splits)
  let ?t = "s\<lparr>lobjects := (lobjects s)(i \<mapsto> en\<lparr>le_cancelled := True\<rparr>)\<rparr>"
  assume inv: "regInv s"
  have same: "isPending j ?t = isPending j s" "hasTimeout j ?t = hasTimeout j s"
    "hasSignal g j ?t = hasSignal g j s" "lobjects ?t j \<noteq> None \<longleftrightarrow> lobjects s j \<noteq> None" for j g
    using en by (auto simp: isPending_def hasTimeout_def hasSignal_def)
  have "regInv ?t" using inv unfolding regInv_def same by simp
  moreover have "isPending i ?t" using True same by blast
  moreover have "cancelListener i s = callPromise i (Aborted ListenerCancelled) (finalize i ?t)"
    using en by (simp add: cancelListener_def)
  ultimately show ?thesis by (simp add: regInv_settled)
qed

lemma regInv_step:
  assumes "registry_step s s'" "regInv s"
  shows "regInv s'"
  using assms(1)
proof cases
  case (step_timer i)
  then obtain ms where "s' = settleWith i (TimedOut ms) s" using timerFires_settles assms(2) by metis
  then show ?thesis using assms(2) by (simp add: regInv_settleWith)
next
  case step_register
  then show ?thesis using assms(2) regInv_register by metis
next
  case step_evaluate
  then show ?thesis using assms(2) regInv_evaluate by metis
next
  case step_cancel
  then show ?thesis using assms(2) regInv_cancel by metis
next
  case step_clear
  then show ?thesis using assms(2) by (simp add: clearListeners_settles regInv_settleAll)
next
  case (step_signal sg)
  then show ?thesis using assms(2) by (simp add: signalAborts_settles regInv_settleAll)
qed

lemma regInv_reaches: "registry_reaches s \<Longrightarrow> regInv s"
proof (induction rule: registry_reaches.induct)
  case (registry_start options s)
  then show ?case by (rule regInv_create)
next
  case (registry_next s s')
  then show ?case using regInv_step by blast
qed

subsection \<open>The interface that a dispatcher relies on\<close>

text \<open>
  A dispatcher hands every update to \<open>evaluate\<close>.  What it relies on: a match takes one waiting
  listener out and delivers the update to it; no match, or a throw, changes nothing.
\<close>

locale update_listeners =
  fixes eval :: "'u \<Rightarrow> 'r \<Rightarrow> ('e + nat option) \<times> 'r"
    and waits :: "'r \<Rightarrow> nat list"
    and delivered :: "'r \<Rightarrow> (nat \<times> 'u listener_outcome) list"
    and valid :: "'r \<Rightarrow> bool"
  assumes valid_eval: "valid r \<Longrightarrow> eval u r = (x, r') \<Longrightarrow> valid r'"
    and no_match: "valid r \<Longrightarrow> eval u r = (x, r') \<Longrightarrow> (\<And>i. x \<noteq> Inr (Some i)) \<Longrightarrow> r' = r"
    and match: "valid r \<Longrightarrow> eval u r = (Inr (Some i), r') \<Longrightarrow>
      i \<in> set (waits r) \<and> waits r' = filter (\<lambda>j. j \<noteq> i) (waits r)
      \<and> delivered r' = delivered r @ [(i, Resolved u)]"
begin

lemma eval_cases:
  assumes "valid r" "eval u r = (x, r')"
  shows "r' = r \<or> (\<exists>i \<in> set (waits r). waits r' = filter (\<lambda>j. j \<noteq> i) (waits r)
    \<and> delivered r' = delivered r @ [(i, Resolved u)])"
proof (cases "\<exists>i. x = Inr (Some i)")
  case True
  with match [OF assms(1)] assms(2) show ?thesis by blast
next
  case False
  with no_match [OF assms] show ?thesis by blast
qed

end

fun feedUpdates :: "('u \<Rightarrow> 'r \<Rightarrow> 'x \<times> 'r) \<Rightarrow> 'u list \<Rightarrow> 'r \<Rightarrow> 'r" where
  "feedUpdates ev [] r = r"
| "feedUpdates ev (u # us) r = feedUpdates ev us (snd (ev u r))"

context update_listeners
begin

lemma feed_delivers:
  assumes "valid r"
  shows "\<exists>ds. delivered (feedUpdates eval us r) = delivered r @ map (\<lambda>(i, u). (i, Resolved u)) ds
    \<and> distinct (map fst ds) \<and> fst ` set ds \<subseteq> set (waits r) \<and> subseq (map snd ds) us
    \<and> waits (feedUpdates eval us r) = filter (\<lambda>j. j \<notin> fst ` set ds) (waits r)"
  using assms
proof (induction us arbitrary: r)
  case Nil
  show ?case by (intro exI [of _ "[]"]) simp
next
  case (Cons u us)
  obtain x r' where e: "eval u r = (x, r')" by fastforce
  have "valid r'" using valid_eval Cons.prems e by blast
  from Cons.IH [OF this] obtain ds where
    ds: "delivered (feedUpdates eval us r') = delivered r' @ map (\<lambda>(i, u). (i, Resolved u)) ds"
      "distinct (map fst ds)" "fst ` set ds \<subseteq> set (waits r')" "subseq (map snd ds) us"
      "waits (feedUpdates eval us r') = filter (\<lambda>j. j \<notin> fst ` set ds) (waits r')" by blast
  from eval_cases [OF Cons.prems e] show ?case
  proof
    assume "r' = r"
    with ds e show ?thesis by (intro exI [of _ ds]) auto
  next
    assume "\<exists>i \<in> set (waits r). waits r' = filter (\<lambda>j. j \<noteq> i) (waits r)
      \<and> delivered r' = delivered r @ [(i, Resolved u)]"
    then obtain i where i: "i \<in> set (waits r)" "waits r' = filter (\<lambda>j. j \<noteq> i) (waits r)"
      "delivered r' = delivered r @ [(i, Resolved u)]" by blast
    have "i \<notin> fst ` set ds" using ds(3) i(2) by auto
    moreover have "filter (\<lambda>j. j \<notin> fst ` set ds) (filter (\<lambda>j. j \<noteq> i) (waits r))
      = filter (\<lambda>j. j \<notin> fst ` set ((i, u) # ds)) (waits r)"
      by (auto intro: filter_cong)
    moreover have "fst ` set ds \<subseteq> set (waits r)" using ds(3) i(2) by auto
    moreover have "feedUpdates eval (u # us) r = feedUpdates eval us r'" using e by simp
    ultimately show ?thesis using ds(1,2,4,5) i
      by (intro exI [of _ "(i, u) # ds"] conjI) (simp_all only: append_assoc, simp_all)
  qed
qed

end

lemma settled_pending_entry:
  "regInv s \<Longrightarrow> isPending i s \<Longrightarrow> i \<in> set (lentries s)"
  by (simp add: regInvD(2))

interpretation lsn: update_listeners
  "evaluate :: 'u \<Rightarrow> ('u, 'e) registry \<Rightarrow> ('e + nat option) \<times> ('u, 'e) registry" lentries outcomes regInv
proof
  fix r r' :: "('u, 'e) registry" and u x i
  assume r: "regInv r"
  show "regInv r'" if "evaluate u r = (x, r')" by (rule regInv_evaluate [OF r that])
  show "r' = r" if "evaluate u r = (x, r')" "\<And>i. x \<noteq> Inr (Some i)"
    using evaluate_spec [OF r that(1)] that(2)
    by (cases x; cases "projr x") (simp_all add: evaluation_def)
  show "i \<in> set (lentries r) \<and> lentries r' = filter (\<lambda>j. j \<noteq> i) (lentries r)
      \<and> outcomes r' = outcomes r @ [(i, Resolved u)]" if "evaluate u r = (Inr (Some i), r')"
    using evaluate_spec [OF r that] r
    by (auto simp: evaluation_def settled_fields settled_pending_entry)
qed

subsection \<open>Properties\<close>

definition sampleFilter :: "('u \<Rightarrow> 'e + bool) \<Rightarrow> ('u, 'e) filter_arg" where
  "sampleFilter p = \<lparr>filter_shape = JObj ObjectProto [(filter_brand, Data (JBool True)),
      (''predicate'', Data JFun), (''describe'', Data JFun)], filter_predicate = p\<rparr>"

definition sampleEmpty :: "(nat, string) registry" where
  "sampleEmpty = \<lparr>maxActive = 10000, lentries = [], lobjects = (\<lambda>_. None), lnext = 0, timers = [],
     abortCallbacks = [], outcomes = []\<rparr>"

definition sampleRegistry :: "(nat, string) registry" where
  "sampleRegistry = snd (register (sampleFilter (\<lambda>u. Inr (u = 7)))
     (JObj ObjectProto [(''timeoutMs'', Data (JNum (Fin 50)))]) 0
     (snd (register (sampleFilter (\<lambda>u. Inr (u = 3))) JUndef 0 sampleEmpty)))"

lemma sampleEmpty_reaches: "registry_reaches sampleEmpty"
  by (rule registry_start [of JUndef]) (simp add: createListenerRegistry_def validateRegistryOptions_def
      optField_def objectProps_def sampleEmpty_def DEFAULT_MAX_ACTIVE_LISTENERS_def)

lemma sampleRegistry_reaches: "registry_reaches sampleRegistry"
  unfolding sampleRegistry_def
  by (rule registry_next [OF registry_next [OF sampleEmpty_reaches]])
    (rule step_register, rule prod.collapse [symmetric])+

lemma sampleFilter_fields:
  "isTypedFilter (filter_shape (sampleFilter p))" "filter_predicate (sampleFilter p) = p"
  by (simp_all add: isTypedFilter_def sampleFilter_def objectProps_def isFunction_def filter_brand_def)

lemma sampleRegistry_fields:
  "lentries sampleRegistry = [0, 1]" "timers sampleRegistry = [1]" "outcomes sampleRegistry = []"
  "predicateOf sampleRegistry 0 u = Inr (u = 3)" "predicateOf sampleRegistry 1 u = Inr (u = 7)"
  by (simp_all add: sampleRegistry_def register_def sampleFilter_fields validateListenerOptions_def
      optField_def objectProps_def isPositiveInteger_def isFiniteNum_def isIntegerNum_def sampleEmpty_def
      predicateOf_def Let_def numberFloor_def)

text \<open>C9: Whatever happens to a registry, the promise of a listener is settled at most once; a
  listener that was registered is active exactly as long as its promise is unsettled; the active
  listeners are kept in the order of their registration, and never more than the maximum.\<close>

theorem listener_settles_once:
  assumes "registry_reaches s"
  shows "distinct (map fst (outcomes s))
    \<and> (\<forall>i < lnext s. i \<in> set (lentries s) \<longleftrightarrow> i \<notin> fst ` set (outcomes s))
    \<and> sorted_wrt (<) (lentries s) \<and> int (length (lentries s)) \<le> maxActive s"
  using regInvD [OF regInv_reaches [OF assms]] by simp

theorem listener_settles_once_witness:
  "distinct (map fst (outcomes sampleRegistry)) \<and> lentries sampleRegistry = [0, 1]"
  using listener_settles_once [OF sampleRegistry_reaches] by (simp add: sampleRegistry_fields)

text \<open>No timer and no abort callback outlives its listener: those that are set belong to active
  listeners, and an active listener with a timeout has its timer.  A timer that fires settles its
  listener with the timeout.  Clearing leaves no listener, timer or callback, and rejects every
  active listener.\<close>

theorem listener_resources_released:
  assumes "registry_reaches s"
  shows "set (timers s) \<subseteq> set (lentries s) \<and> snd ` set (abortCallbacks s) \<subseteq> set (lentries s)
    \<and> (\<forall>i. hasTimeout i s \<longrightarrow> i \<in> set (timers s))
    \<and> (\<forall>i \<in> set (timers s). \<exists>ms. outcomes (timerFires i s) = outcomes s @ [(i, TimedOut ms)])
    \<and> (lentries (clearListeners s) = [] \<and> timers (clearListeners s) = []
       \<and> abortCallbacks (clearListeners s) = []
       \<and> outcomes (clearListeners s)
           = outcomes s @ map (\<lambda>i. (i, Aborted ListenerRegistryCleared)) (lentries s))"
proof -
  have inv: "regInv s" by (rule regInv_reaches [OF assms])
  have sub: "set (timers t) \<subseteq> set (lentries t) \<and> snd ` set (abortCallbacks t) \<subseteq> set (lentries t)"
    if "regInv t" for t :: "('a, 'b) registry" using regInvD [OF that] by fastforce
  have cl: "regInv (clearListeners s)" using regInv_settleAll [OF inv] clearListeners_settles(1) [OF inv] by metis
  have fires: "\<exists>ms. outcomes (timerFires i s) = outcomes s @ [(i, TimedOut ms)]" if "i \<in> set (timers s)" for i
    using timerFires_settles [OF inv that] by (auto simp: settleWith_def settled_fields)
  show ?thesis using sub [OF inv] sub [OF cl] clearListeners_settles(2,3) [OF inv] regInvD(6) [OF inv] fires
    by auto
qed

theorem listener_resources_released_witness:
  "(\<exists>ms. outcomes (timerFires 1 sampleRegistry) = outcomes sampleRegistry @ [(1, TimedOut ms)])
    \<and> timers (clearListeners sampleRegistry) = []"
  using listener_resources_released [OF sampleRegistry_reaches] sampleRegistry_fields(2) by simp

text \<open>\<open>evaluate\<close> gives the update to the first active listener, in registration order, whose
  predicate accepts it, and only that listener is settled; when none accepts, nothing changes; a
  predicate that throws before any accepts makes \<open>evaluate\<close> throw, and nothing changes.\<close>

theorem evaluate_first_match_wins:
  assumes "registry_reaches s" and "evaluate u s = (r, s')"
  shows "case r of
      Inl e \<Rightarrow> s' = s \<and> (\<exists>i. firstHit s u (lentries s) i (Inl e))
    | Inr None \<Rightarrow> s' = s \<and> (\<forall>j \<in> set (lentries s). predicateOf s j u = Inr False)
    | Inr (Some i) \<Rightarrow> firstHit s u (lentries s) i (Inr True)
        \<and> lentries s' = filter (\<lambda>j. j \<noteq> i) (lentries s) \<and> outcomes s' = outcomes s @ [(i, Resolved u)]
        \<and> i \<notin> set (timers s') \<and> (\<forall>sg. (sg, i) \<notin> set (abortCallbacks s'))"
proof -
  have inv: "regInv s" by (rule regInv_reaches [OF assms(1)])
  show ?thesis using evaluate_spec [OF inv assms(2)]
    by (auto simp: evaluation_def settled_fields settled_timers [OF inv] settled_callbacks [OF inv]
        split: sum.splits option.splits)
qed

lemma sampleRegistry_evaluates: "fst (evaluate 7 sampleRegistry) = Inr (Some 1)"
  by (simp add: evaluate_def sampleRegistry_def register_def sampleFilter_fields validateListenerOptions_def
      optField_def objectProps_def isPositiveInteger_def isFiniteNum_def isIntegerNum_def sampleEmpty_def
      Let_def numberFloor_def)

theorem evaluate_first_match_wins_witness:
  "\<exists>s'. evaluate 7 sampleRegistry = (Inr (Some 1), s') \<and> lentries s' = [0]
    \<and> outcomes s' = [(1, Resolved 7)] \<and> 1 \<notin> set (timers s')"
proof -
  obtain s' where e: "evaluate 7 sampleRegistry = (Inr (Some 1), s')"
    using sampleRegistry_evaluates by (metis prod.collapse)
  from evaluate_first_match_wins [OF sampleRegistry_reaches e] e show ?thesis
    by (simp add: sampleRegistry_fields)
qed

text \<open>C10: Over any sequence of updates given to a registry, every update settles at most one
  listener and every listener receives at most one update, in the order of the updates; those that
  received none keep waiting.\<close>

theorem updates_reach_one_listener_each:
  assumes "registry_reaches s"
  shows "\<exists>ds. outcomes (feedUpdates evaluate us s) = outcomes s @ map (\<lambda>(i, u). (i, Resolved u)) ds
    \<and> distinct (map fst ds) \<and> fst ` set ds \<subseteq> set (lentries s) \<and> subseq (map snd ds) us
    \<and> lentries (feedUpdates evaluate us s) = filter (\<lambda>j. j \<notin> fst ` set ds) (lentries s)"
  by (rule lsn.feed_delivers [OF regInv_reaches [OF assms]])

theorem updates_reach_one_listener_each_witness:
  "\<exists>ds. outcomes (feedUpdates evaluate [7, 7, 3] sampleRegistry)
      = outcomes sampleRegistry @ map (\<lambda>(i, u). (i, Resolved u)) ds \<and> subseq (map snd ds) [7, 7, 3]"
  using updates_reach_one_listener_each [OF sampleRegistry_reaches, of "[7, 7, 3]"] by blast

end
