(* ===== verification/Typed_Router.thy ===== *)
theory Typed_Router
  imports Listener_Registry
begin

section \<open>The typed router (packages/core/src/typedRouter.ts)\<close>

text \<open>
  A router keeps registrations (a filter and a handler) and hands an update to those that match.
  What the callers supply is a parameter of the model: the dispatch-id factory, the observer's hooks,
  the handlers and the listener registry of the \<open>dispatch_env\<close>.  While a hook or a handler runs, and
  while \<open>dispatch\<close> awaits a handler, any code may use the router: the commands that it issues by then
  are part of its result, and are applied before \<open>dispatch\<close> goes on.  In parallel mode the model runs
  each handler, with its commands, when the code starts it.  Predicates are pure.
  \<open>calls\<close> records the handlers that \<open>dispatch\<close> called, with the way each call ended.
\<close>

subsection \<open>Data\<close>

datatype router_options_code =
    RInvalidOptions
  | RInvalidObserver
  | RInvalidMaxHandlers
  | RInvalidConcurrency
  | RInvalidDispatchIdFactory
  | RInvalidFilter
  | RInvalidHandler
  | RInvalidListenerRegistry

datatype concurrency = Sequential | Parallel

datatype 'e handler_result = HDone | HStop | HThrow 'e

record ('u, 'e, 'h) registration =
  registrationIndex :: nat
  reg_predicate :: "'u \<Rightarrow> 'e + bool"
  reg_handler :: 'h

record 'e dispatch_report =
  report_dispatchId :: string
  matchedHandlers :: nat
  report_errors :: "(nat \<times> 'e) list"
  stopped :: bool
  capped :: bool

datatype ('u, 'e) observer_call =
    OnBeforeDispatch string 'u
  | OnAfterDispatch string "'e dispatch_report"
  | OnHandlerMatch string nat 'u
  | OnHandlerError string nat 'e 'u
  | OnListenerMatch string nat 'u

record 'u handler_context =
  ctx_update :: 'u
  ctx_registrationIndex :: nat
  ctx_dispatchId :: string

datatype ('u, 'e, 'h, 'r) router_command =
    CmdOn "('u, 'e) filter_arg" jsval 'h
  | CmdUnregister nat
  | CmdClear
  | CmdListeners "'r \<Rightarrow> 'r"

record ('u, 'e, 'h, 'r, 'w) router =
  registrations :: "('u, 'e, 'h) registration list"
  removed :: "nat list"
  nextRegistrationIndex :: nat
  listeners :: 'r
  world :: 'w
  calls :: "(nat \<times> 'e handler_result) list"

record ('u, 'e, 'h, 'r, 'w) dispatch_env =
  maxHandlersPerDispatch :: nat
  env_concurrency :: concurrency
  dispatchIdFactory :: "'w \<Rightarrow> ('e + string) \<times> 'w"
  observer_hook :: "('u, 'e) observer_call \<Rightarrow>
    ('w \<Rightarrow> ('e + unit) \<times> ('u, 'e, 'h, 'r) router_command list \<times> 'w) option"
  call_handler :: "'h \<Rightarrow> 'u handler_context \<Rightarrow> 'w \<Rightarrow>
    'e handler_result \<times> ('u, 'e, 'h, 'r) router_command list \<times> 'w"
  listener_evaluate :: "('u \<Rightarrow> 'r \<Rightarrow> ('e + nat option) \<times> 'r) option"

definition DEFAULT_MAX_HANDLERS_PER_DISPATCH :: nat where
  "DEFAULT_MAX_HANDLERS_PER_DISPATCH = 10000"

subsection \<open>Options\<close>

definition OBSERVER_HOOKS :: "string list" where
  "OBSERVER_HOOKS = [''onBeforeDispatch'', ''onAfterDispatch'', ''onHandlerMatch'', ''onHandlerError'',
     ''onListenerMatch'']"

definition validateObserver :: "jsval \<Rightarrow> router_options_code + unit" where
  "validateObserver v = (if v = JUndef then Inr () else
     (case objectProps v of
        None \<Rightarrow> Inl RInvalidObserver
      | Some ps \<Rightarrow> guardE (list_all (\<lambda>k. js_get ps k = JUndef \<or> isFunction (js_get ps k)) OBSERVER_HOOKS)
          RInvalidObserver))"

definition validateProbe :: "jsval \<Rightarrow> router_options_code + unit" where
  "validateProbe v = (if v = JUndef then Inr () else
     (case objectProps v of
        None \<Rightarrow> Inl RInvalidListenerRegistry
      | Some ps \<Rightarrow> guardE (isFunction (js_get ps ''register'') \<and> isFunction (js_get ps ''evaluate'')
          \<and> isFunction (js_get ps ''clear'')) RInvalidListenerRegistry))"

definition validateRouterOptions :: "jsval \<Rightarrow> router_options_code + unit" where
  "validateRouterOptions v = (if v = JUndef then Inr () else
     (case objectProps v of
        None \<Rightarrow> Inl RInvalidOptions
      | Some ps \<Rightarrow>
          bindE (validateObserver (js_get ps ''observer'')) (\<lambda>_.
          bindE (guardE (js_get ps ''maxHandlersPerDispatch'' = JUndef
                         \<or> isPositiveInteger (js_get ps ''maxHandlersPerDispatch'')) RInvalidMaxHandlers) (\<lambda>_.
          bindE (guardE (js_get ps ''concurrency'' \<in> {JUndef, JStr ''sequential'', JStr ''parallel''})
                   RInvalidConcurrency) (\<lambda>_.
          bindE (guardE (js_get ps ''dispatchIdFactory'' = JUndef
                         \<or> isFunction (js_get ps ''dispatchIdFactory'')) RInvalidDispatchIdFactory) (\<lambda>_.
          validateProbe (js_get ps ''listenerRegistry'')))))))"

text \<open>What the constructor reads from valid options: the cap and the mode.\<close>

definition constructRouter :: "jsval \<Rightarrow> router_options_code + nat \<times> concurrency" where
  "constructRouter v = bindE (validateRouterOptions v) (\<lambda>_.
     let m = optField v ''maxHandlersPerDispatch''; c = optField v ''concurrency'' in
     Inr (if m = JUndef then DEFAULT_MAX_HANDLERS_PER_DISPATCH else nat (numberFloor m),
          if c = JStr ''parallel'' then Parallel else Sequential))"

subsection \<open>Registration\<close>

definition on ::
  "('u, 'e) filter_arg \<Rightarrow> jsval \<Rightarrow> 'h \<Rightarrow> (('u, 'e, 'h, 'r, 'w) router, router_options_code, nat) act" where
  "on flt shape h s =
     (if \<not> isTypedFilter (filter_shape flt) then (Inl RInvalidFilter, s)
      else if \<not> isFunction shape then (Inl RInvalidHandler, s)
      else let k = nextRegistrationIndex s in
        (Inr k, s\<lparr>nextRegistrationIndex := Suc k,
           registrations := registrations s
             @ [\<lparr>registrationIndex = k, reg_predicate = filter_predicate flt, reg_handler = h\<rparr>]\<rparr>))"

definition isRemoved :: "nat \<Rightarrow> ('u, 'e, 'h, 'r, 'w) router \<Rightarrow> bool" where
  "isRemoved k s = list_ex (\<lambda>j. j = k) (removed s)"

definition unregister :: "nat \<Rightarrow> ('u, 'e, 'h, 'r, 'w) router \<Rightarrow> ('u, 'e, 'h, 'r, 'w) router" where
  "unregister k s = (if isRemoved k s then s
     else s\<lparr>removed := k # removed s,
       registrations := filter (\<lambda>r. registrationIndex r \<noteq> k) (registrations s)\<rparr>)"

definition clearRouter :: "('u, 'e, 'h, 'r, 'w) router \<Rightarrow> ('u, 'e, 'h, 'r, 'w) router" where
  "clearRouter s = s\<lparr>removed := map registrationIndex (registrations s) @ removed s, registrations := []\<rparr>"

definition handlerCount :: "('u, 'e, 'h, 'r, 'w) router \<Rightarrow> nat" where
  "handlerCount s = length (filter (\<lambda>r. \<not> isRemoved (registrationIndex r) s) (registrations s))"

text \<open>A handle exists for the registrations made so far; a command on another one does nothing.\<close>

definition applyCommand ::
  "('u, 'e, 'h, 'r) router_command \<Rightarrow> ('u, 'e, 'h, 'r, 'w) router \<Rightarrow> ('u, 'e, 'h, 'r, 'w) router" where
  "applyCommand c s = (case c of
     CmdOn flt shape h \<Rightarrow> snd (on flt shape h s)
   | CmdUnregister k \<Rightarrow> if k < nextRegistrationIndex s then unregister k s else s
   | CmdClear \<Rightarrow> clearRouter s
   | CmdListeners f \<Rightarrow> s\<lparr>listeners := f (listeners s)\<rparr>)"

subsection \<open>Dispatch\<close>

definition safeInvokeObserver ::
  "('u, 'e, 'h, 'r, 'w) dispatch_env \<Rightarrow> ('u, 'e) observer_call
    \<Rightarrow> ('u, 'e, 'h, 'r, 'w) router \<Rightarrow> ('u, 'e, 'h, 'r, 'w) router" where
  "safeInvokeObserver env ob s = (case observer_hook env ob of
     None \<Rightarrow> s
   | Some hook \<Rightarrow> (case hook (world s) of (_, cmds, w) \<Rightarrow> fold applyCommand cmds (s\<lparr>world := w\<rparr>)))"

definition listenerStage ::
  "('u, 'e, 'h, 'r, 'w) dispatch_env \<Rightarrow> string \<Rightarrow> 'u
    \<Rightarrow> ('u, 'e, 'h, 'r, 'w) router \<Rightarrow> ('u, 'e, 'h, 'r, 'w) router" where
  "listenerStage env did u s = (case listener_evaluate env of
     None \<Rightarrow> s
   | Some ev \<Rightarrow> (case ev u (listeners s) of
       (Inl e, r) \<Rightarrow> s\<lparr>listeners := r\<rparr>
     | (Inr None, r) \<Rightarrow> s\<lparr>listeners := r\<rparr>
     | (Inr (Some i), r) \<Rightarrow> safeInvokeObserver env (OnListenerMatch did i u) (s\<lparr>listeners := r\<rparr>)))"

text \<open>The scan of the snapshot: the matching entries, the predicates' errors, and whether it was cut off.\<close>

fun scanEntries ::
  "('u, 'e, 'h, 'r, 'w) dispatch_env \<Rightarrow> string \<Rightarrow> 'u \<Rightarrow> ('u, 'e, 'h) registration list
    \<Rightarrow> ('u, 'e, 'h) registration list \<Rightarrow> (nat \<times> 'e) list \<Rightarrow> ('u, 'e, 'h, 'r, 'w) router
    \<Rightarrow> (('u, 'e, 'h) registration list \<times> (nat \<times> 'e) list \<times> bool) \<times> ('u, 'e, 'h, 'r, 'w) router" where
  "scanEntries env did u [] matching errors s = ((matching, errors, False), s)"
| "scanEntries env did u (en # ens) matching errors s =
     (if isRemoved (registrationIndex en) s then scanEntries env did u ens matching errors s
      else (case reg_predicate en u of
          Inl e \<Rightarrow> scanEntries env did u ens matching (errors @ [(registrationIndex en, e)])
              (safeInvokeObserver env (OnHandlerError did (registrationIndex en) e u) s)
        | Inr False \<Rightarrow> scanEntries env did u ens matching errors s
        | Inr True \<Rightarrow>
            if maxHandlersPerDispatch env \<le> length matching then ((matching, errors, True), s)
            else scanEntries env did u ens (matching @ [en]) errors s))"

definition invokeHandler ::
  "('u, 'e, 'h, 'r, 'w) dispatch_env \<Rightarrow> string \<Rightarrow> 'u \<Rightarrow> ('u, 'e, 'h) registration
    \<Rightarrow> ('u, 'e, 'h, 'r, 'w) router \<Rightarrow> 'e handler_result \<times> ('u, 'e, 'h, 'r, 'w) router" where
  "invokeHandler env did u en s =
     (let ctx = \<lparr>ctx_update = u, ctx_registrationIndex = registrationIndex en, ctx_dispatchId = did\<rparr> in
      case call_handler env (reg_handler en) ctx (world s) of (res, cmds, w) \<Rightarrow>
        (res, fold applyCommand cmds (s\<lparr>world := w, calls := calls s @ [(registrationIndex en, res)]\<rparr>)))"

fun runSequential ::
  "('u, 'e, 'h, 'r, 'w) dispatch_env \<Rightarrow> string \<Rightarrow> 'u \<Rightarrow> ('u, 'e, 'h) registration list
    \<Rightarrow> (nat \<times> 'e) list \<Rightarrow> ('u, 'e, 'h, 'r, 'w) router
    \<Rightarrow> ((nat \<times> 'e) list \<times> bool) \<times> ('u, 'e, 'h, 'r, 'w) router" where
  "runSequential env did u [] errors s = ((errors, False), s)"
| "runSequential env did u (en # ens) errors s =
     (let k = registrationIndex en; s1 = safeInvokeObserver env (OnHandlerMatch did k u) s in
      case invokeHandler env did u en s1 of
        (HStop, s2) \<Rightarrow> ((errors, True), s2)
      | (HDone, s2) \<Rightarrow> runSequential env did u ens errors s2
      | (HThrow e, s2) \<Rightarrow> runSequential env did u ens (errors @ [(k, e)])
          (safeInvokeObserver env (OnHandlerError did k e u) s2))"

fun startHandlers ::
  "('u, 'e, 'h, 'r, 'w) dispatch_env \<Rightarrow> string \<Rightarrow> 'u \<Rightarrow> ('u, 'e, 'h) registration list
    \<Rightarrow> ('u, 'e, 'h, 'r, 'w) router \<Rightarrow> (nat \<times> 'e handler_result) list \<times> ('u, 'e, 'h, 'r, 'w) router" where
  "startHandlers env did u [] s = ([], s)"
| "startHandlers env did u (en # ens) s = (case invokeHandler env did u en s of (res, s1) \<Rightarrow>
     (case startHandlers env did u ens s1 of (rest, s2) \<Rightarrow> ((registrationIndex en, res) # rest, s2)))"

fun collectSettled ::
  "('u, 'e, 'h, 'r, 'w) dispatch_env \<Rightarrow> string \<Rightarrow> 'u \<Rightarrow> (nat \<times> 'e handler_result) list
    \<Rightarrow> (nat \<times> 'e) list \<Rightarrow> bool \<Rightarrow> ('u, 'e, 'h, 'r, 'w) router
    \<Rightarrow> ((nat \<times> 'e) list \<times> bool) \<times> ('u, 'e, 'h, 'r, 'w) router" where
  "collectSettled env did u [] errors stop s = ((errors, stop), s)"
| "collectSettled env did u ((k, res) # rest) errors stop s = (case res of
     HThrow e \<Rightarrow> collectSettled env did u rest (errors @ [(k, e)]) stop
         (safeInvokeObserver env (OnHandlerError did k e u) s)
   | HStop \<Rightarrow> collectSettled env did u rest errors True s
   | HDone \<Rightarrow> collectSettled env did u rest errors stop s)"

definition runParallel ::
  "('u, 'e, 'h, 'r, 'w) dispatch_env \<Rightarrow> string \<Rightarrow> 'u \<Rightarrow> ('u, 'e, 'h) registration list
    \<Rightarrow> (nat \<times> 'e) list \<Rightarrow> ('u, 'e, 'h, 'r, 'w) router
    \<Rightarrow> ((nat \<times> 'e) list \<times> bool) \<times> ('u, 'e, 'h, 'r, 'w) router" where
  "runParallel env did u matching errors s =
     (let s1 = fold (\<lambda>en. safeInvokeObserver env (OnHandlerMatch did (registrationIndex en) u)) matching s in
      case startHandlers env did u matching s1 of (settled, s2) \<Rightarrow>
        collectSettled env did u settled errors False s2)"

definition runMatching ::
  "('u, 'e, 'h, 'r, 'w) dispatch_env \<Rightarrow> string \<Rightarrow> 'u \<Rightarrow> ('u, 'e, 'h) registration list
    \<Rightarrow> (nat \<times> 'e) list \<Rightarrow> ('u, 'e, 'h, 'r, 'w) router
    \<Rightarrow> ((nat \<times> 'e) list \<times> bool) \<times> ('u, 'e, 'h, 'r, 'w) router" where
  "runMatching env = (case env_concurrency env of
     Sequential \<Rightarrow> runSequential env | Parallel \<Rightarrow> runParallel env)"

text \<open>The state in which \<open>dispatch\<close> takes its snapshot.\<close>

definition beforeSnapshot ::
  "('u, 'e, 'h, 'r, 'w) dispatch_env \<Rightarrow> string \<Rightarrow> 'u
    \<Rightarrow> ('u, 'e, 'h, 'r, 'w) router \<Rightarrow> ('u, 'e, 'h, 'r, 'w) router" where
  "beforeSnapshot env did u s =
     listenerStage env did u (safeInvokeObserver env (OnBeforeDispatch did u) s)"

definition dispatch ::
  "('u, 'e, 'h, 'r, 'w) dispatch_env \<Rightarrow> 'u \<Rightarrow> (('u, 'e, 'h, 'r, 'w) router, 'e, 'e dispatch_report) act" where
  "dispatch env u s = (case dispatchIdFactory env (world s) of
     (Inl e, w) \<Rightarrow> (Inl e, s\<lparr>world := w\<rparr>)
   | (Inr did, w) \<Rightarrow>
       let s1 = beforeSnapshot env did u (s\<lparr>world := w\<rparr>) in
       (case scanEntries env did u (registrations s1) [] [] s1 of ((matching, errs, cap), s2) \<Rightarrow>
       (case runMatching env did u matching errs s2 of ((errs', stop), s3) \<Rightarrow>
         let report = \<lparr>report_dispatchId = did, matchedHandlers = length matching, report_errors = errs',
                       stopped = stop, capped = cap\<rparr>
         in (Inr report, safeInvokeObserver env (OnAfterDispatch did report) s3))))"

subsection \<open>The registrations\<close>

definition routerInv :: "('u, 'e, 'h, 'r, 'w) router \<Rightarrow> bool" where
  "routerInv s \<longleftrightarrow> sorted_wrt (<) (map registrationIndex (registrations s))
     \<and> (\<forall>r \<in> set (registrations s). registrationIndex r < nextRegistrationIndex s
          \<and> registrationIndex r \<notin> set (removed s))
     \<and> (\<forall>k \<in> set (removed s). k < nextRegistrationIndex s)"

lemma isRemoved_iff [simp]: "isRemoved k s \<longleftrightarrow> k \<in> set (removed s)"
  by (auto simp: isRemoved_def list_ex_iff)

lemma sorted_wrt_map_filter: "sorted_wrt R (map f xs) \<Longrightarrow> sorted_wrt R (map f (filter P xs))"
  by (simp add: sorted_wrt_map sorted_wrt_filter)

lemma routerInv_applyCommand:
  assumes "routerInv s"
  shows "routerInv (applyCommand c s) \<and> set (removed s) \<subseteq> set (removed (applyCommand c s))
    \<and> calls (applyCommand c s) = calls s"
  using assms
  by (cases c) (auto simp: applyCommand_def routerInv_def on_def unregister_def clearRouter_def Let_def
      sorted_wrt_map_filter sorted_wrt_append)

text \<open>What user code can do to a router between two steps of a dispatch.\<close>

definition evolves :: "('u, 'e, 'h, 'r, 'w) router \<Rightarrow> ('u, 'e, 'h, 'r, 'w) router \<Rightarrow> bool" where
  "evolves s s' \<longleftrightarrow> (routerInv s \<longrightarrow> routerInv s' \<and> set (removed s) \<subseteq> set (removed s'))"

lemma evolves_refl: "evolves s s"
  by (simp add: evolves_def)

lemma evolves_trans: "evolves s t \<Longrightarrow> evolves t v \<Longrightarrow> evolves s v"
  by (auto simp: evolves_def)

lemma evolves_commands: "evolves s (fold applyCommand cmds s)"
proof (induction cmds arbitrary: s)
  case Nil
  then show ?case by (simp add: evolves_refl)
next
  case (Cons c cmds)
  have "evolves s (applyCommand c s)" using routerInv_applyCommand by (auto simp: evolves_def)
  with Cons show ?case by (auto intro: evolves_trans)
qed

lemma calls_applyCommand: "calls (applyCommand c s) = calls s"
  by (cases c) (auto simp: applyCommand_def on_def unregister_def clearRouter_def Let_def)

lemma calls_commands [simp]: "calls (fold applyCommand cmds s) = calls s"
  by (induction cmds arbitrary: s) (simp_all add: calls_applyCommand)

lemma evolves_world: "evolves s (s\<lparr>world := w\<rparr>)" "evolves s (s\<lparr>world := w, calls := cs\<rparr>)"
  "evolves s (s\<lparr>listeners := r\<rparr>)"
  by (simp_all add: evolves_def routerInv_def)

lemma observer_step [simp]:
  "calls (safeInvokeObserver env ob s) = calls s" "evolves s (safeInvokeObserver env ob s)"
  by (auto simp: safeInvokeObserver_def evolves_refl split: option.split prod.split
      intro: evolves_trans [OF evolves_world(1) evolves_commands])

lemma listenerStage_step [simp]:
  "calls (listenerStage env did u s) = calls s" "evolves s (listenerStage env did u s)"
  by (auto simp: listenerStage_def evolves_refl evolves_world split: option.split prod.split sum.split
      intro: evolves_trans [OF evolves_world(3) observer_step(2)])

lemma beforeSnapshot_step [simp]:
  "calls (beforeSnapshot env did u s) = calls s" "evolves s (beforeSnapshot env did u s)"
  by (auto simp: beforeSnapshot_def intro: evolves_trans [OF observer_step(2) listenerStage_step(2)])

lemma invokeHandler_step:
  "invokeHandler env did u en s = (res, s') \<Longrightarrow>
     calls s' = calls s @ [(registrationIndex en, res)] \<and> evolves s s'"
  by (auto simp: invokeHandler_def Let_def split: prod.splits
      intro: evolves_trans [OF evolves_world(2) evolves_commands])

subsection \<open>The scan\<close>

definition accepts :: "'u \<Rightarrow> ('u, 'e, 'h) registration \<Rightarrow> bool" where
  "accepts u r = (reg_predicate r u = Inr True)"

lemma accepts_simps:
  "reg_predicate r u = Inr b \<Longrightarrow> accepts u r = b" "reg_predicate r u = Inl e \<Longrightarrow> \<not> accepts u r"
  by (simp_all add: accepts_def)

text \<open>The errors of the predicates that throw, in the order of the registrations.\<close>

definition predicateErrors :: "'u \<Rightarrow> ('u, 'e, 'h) registration list \<Rightarrow> (nat \<times> 'e) list" where
  "predicateErrors u rs = concat (map (\<lambda>r. case reg_predicate r u of
     Inl e \<Rightarrow> [(registrationIndex r, e)] | Inr _ \<Rightarrow> []) rs)"

lemma predicateErrors_simps [simp]:
  "predicateErrors u [] = []"
  "predicateErrors u (r # rs) = (case reg_predicate r u of Inl e \<Rightarrow> [(registrationIndex r, e)] | Inr _ \<Rightarrow> [])
     @ predicateErrors u rs"
  by (simp_all add: predicateErrors_def)

text \<open>The scan asks the predicates of \<open>visited\<close>, in order: every registration it reached, but for those
  that a hook removed while it ran; it stops short of the end only at a registration that would go over
  the cap.\<close>

definition scanOutcome ::
  "nat \<Rightarrow> 'u \<Rightarrow> ('u, 'e, 'h) registration list \<Rightarrow> nat list \<Rightarrow> ('u, 'e, 'h) registration list \<Rightarrow> bool \<Rightarrow> bool" where
  "scanOutcome room u ens gone visited cap \<longleftrightarrow> (\<exists>reached rest. ens = reached @ rest \<and> subseq visited reached
     \<and> (\<forall>r \<in> set reached. r \<notin> set visited \<longrightarrow> registrationIndex r \<in> set gone)
     \<and> length (filter (accepts u) visited) \<le> room \<and> (cap \<longleftrightarrow> rest \<noteq> [])
     \<and> (cap \<longrightarrow> length (filter (accepts u) visited) = room \<and> accepts u (hd rest)))"

lemma scanOutcome_Nil: "scanOutcome room u [] gone [] False"
  by (simp add: scanOutcome_def)

lemma scanOutcome_skip:
  assumes "scanOutcome room u ens gone visited cap" "registrationIndex en \<in> set gone"
  shows "scanOutcome room u (en # ens) gone visited cap"
proof -
  from assms(1) obtain reached rest where o: "ens = reached @ rest" "subseq visited reached"
    "\<forall>r \<in> set reached. r \<notin> set visited \<longrightarrow> registrationIndex r \<in> set gone"
    "length (filter (accepts u) visited) \<le> room" "cap \<longleftrightarrow> rest \<noteq> []"
    "cap \<longrightarrow> length (filter (accepts u) visited) = room \<and> accepts u (hd rest)"
    unfolding scanOutcome_def by blast
  show ?thesis unfolding scanOutcome_def
    by (rule exI [of _ "en # reached"], rule exI [of _ rest]) (use o assms(2) in auto)
qed

lemma scanOutcome_take:
  assumes "scanOutcome room u ens gone visited cap"
  shows "scanOutcome (if accepts u en then Suc room else room) u (en # ens) gone (en # visited) cap"
proof -
  from assms obtain reached rest where o: "ens = reached @ rest" "subseq visited reached"
    "\<forall>r \<in> set reached. r \<notin> set visited \<longrightarrow> registrationIndex r \<in> set gone"
    "length (filter (accepts u) visited) \<le> room" "cap \<longleftrightarrow> rest \<noteq> []"
    "cap \<longrightarrow> length (filter (accepts u) visited) = room \<and> accepts u (hd rest)"
    unfolding scanOutcome_def by blast
  show ?thesis unfolding scanOutcome_def
    by (rule exI [of _ "en # reached"], rule exI [of _ rest]) (use o in auto)
qed

lemma scanOutcome_mono:
  "scanOutcome room u ens gone visited cap \<Longrightarrow> set gone \<subseteq> set gone' \<Longrightarrow> scanOutcome room u ens gone' visited cap"
  unfolding scanOutcome_def by blast

lemma scanEntries_spec:
  assumes "scanEntries env did u ens m errs s = ((m', errs', cap), s')"
    and "length m \<le> maxHandlersPerDispatch env" and "routerInv s"
  shows "\<exists>visited. m' = m @ filter (accepts u) visited \<and> errs' = errs @ predicateErrors u visited
    \<and> scanOutcome (maxHandlersPerDispatch env - length m) u ens (removed s') visited cap
    \<and> calls s' = calls s \<and> evolves s s'"
  using assms
proof (induction ens arbitrary: m errs s)
  case Nil
  then show ?case by (auto simp: evolves_refl scanOutcome_Nil intro!: exI [of _ "[]"])
next
  case (Cons en ens)
  consider (gone) "isRemoved (registrationIndex en) s"
    | (throws) e where "\<not> isRemoved (registrationIndex en) s" "reg_predicate en u = Inl e"
    | (miss) "\<not> isRemoved (registrationIndex en) s" "reg_predicate en u = Inr False"
    | (full) "\<not> isRemoved (registrationIndex en) s" "reg_predicate en u = Inr True"
        "maxHandlersPerDispatch env \<le> length m"
    | (hit) "\<not> isRemoved (registrationIndex en) s" "reg_predicate en u = Inr True"
        "length m < maxHandlersPerDispatch env"
    by (metis (full_types) not_le_imp_less old.sum.exhaust)
  then show ?case
  proof cases
    case gone
    with Cons.prems have "scanEntries env did u ens m errs s = ((m', errs', cap), s')" by simp
    from Cons.IH [OF this Cons.prems(2,3)] obtain visited where v: "m' = m @ filter (accepts u) visited"
      "errs' = errs @ predicateErrors u visited"
      "scanOutcome (maxHandlersPerDispatch env - length m) u ens (removed s') visited cap"
      "calls s' = calls s" "evolves s s'" by blast
    moreover have "registrationIndex en \<in> set (removed s')"
      using gone v(5) Cons.prems(3) by (auto simp: evolves_def)
    ultimately show ?thesis by (blast intro: scanOutcome_skip)
  next
    case (throws e)
    let ?t = "safeInvokeObserver env (OnHandlerError did (registrationIndex en) e u) s"
    from throws Cons.prems have
      sc: "scanEntries env did u ens m (errs @ [(registrationIndex en, e)]) ?t = ((m', errs', cap), s')" by simp
    have "routerInv ?t" using observer_step(2) [of s env] Cons.prems(3) unfolding evolves_def by blast
    from Cons.IH [OF sc Cons.prems(2) this] obtain visited where v: "m' = m @ filter (accepts u) visited"
      "errs' = errs @ (registrationIndex en, e) # predicateErrors u visited"
      "scanOutcome (maxHandlersPerDispatch env - length m) u ens (removed s') visited cap"
      "calls s' = calls s" "evolves ?t s'" by auto
    have "evolves s s'" using v(5) by (rule evolves_trans [OF observer_step(2)])
    with v throws scanOutcome_take [OF v(3), of en] show ?thesis
      by (intro exI [of _ "en # visited"]) (simp add: accepts_simps)
  next
    case miss
    with Cons.prems have "scanEntries env did u ens m errs s = ((m', errs', cap), s')" by simp
    from Cons.IH [OF this Cons.prems(2,3)] obtain visited where v: "m' = m @ filter (accepts u) visited"
      "errs' = errs @ predicateErrors u visited"
      "scanOutcome (maxHandlersPerDispatch env - length m) u ens (removed s') visited cap"
      "calls s' = calls s" "evolves s s'" by blast
    with miss scanOutcome_take [OF v(3), of en] show ?thesis
      by (intro exI [of _ "en # visited"]) (simp add: accepts_simps)
  next
    case full
    with Cons.prems have "m' = m" "errs' = errs" cap "s' = s" by auto
    moreover have "scanOutcome (maxHandlersPerDispatch env - length m) u (en # ens) (removed s) [] True"
      unfolding scanOutcome_def using full by (intro exI [of _ "[]"] exI [of _ "en # ens"]) (simp add: accepts_simps)
    ultimately show ?thesis by (intro exI [of _ "[]"]) (simp add: evolves_refl)
  next
    case hit
    with Cons.prems have "scanEntries env did u ens (m @ [en]) errs s = ((m', errs', cap), s')" by simp
    from Cons.IH [OF this _ Cons.prems(3)] hit obtain visited where v: "m' = m @ en # filter (accepts u) visited"
      "errs' = errs @ predicateErrors u visited"
      "scanOutcome (maxHandlersPerDispatch env - Suc (length m)) u ens (removed s') visited cap"
      "calls s' = calls s" "evolves s s'" by auto
    have "Suc (maxHandlersPerDispatch env - Suc (length m)) = maxHandlersPerDispatch env - length m"
      using hit(3) by simp
    with v hit scanOutcome_take [OF v(3), of en] show ?thesis
      by (intro exI [of _ "en # visited"]) (simp add: accepts_simps)
  qed
qed

text \<open>When no predicate throws, the scan is a function of the snapshot alone.\<close>

lemma scanEntries_pure:
  assumes "\<And>r e. r \<in> set ens \<Longrightarrow> reg_predicate r u \<noteq> Inl e"
    and "\<And>r. r \<in> set ens \<Longrightarrow> \<not> isRemoved (registrationIndex r) s"
    and "length m \<le> maxHandlersPerDispatch env"
  shows "scanEntries env did u ens m errs s =
    ((m @ take (maxHandlersPerDispatch env - length m) (filter (accepts u) ens), errs,
      maxHandlersPerDispatch env < length m + length (filter (accepts u) ens)), s)"
  using assms
proof (induction ens arbitrary: m)
  case Nil
  then show ?case by simp
next
  case (Cons en ens)
  obtain b where b: "reg_predicate en u = Inr b"
    using Cons.prems(1) [of en] by (cases "reg_predicate en u") auto
  have nr: "\<not> isRemoved (registrationIndex en) s" using Cons.prems(2) by simp
  have ih: "length m' \<le> maxHandlersPerDispatch env \<Longrightarrow> scanEntries env did u ens m' errs s =
    ((m' @ take (maxHandlersPerDispatch env - length m') (filter (accepts u) ens), errs,
      maxHandlersPerDispatch env < length m' + length (filter (accepts u) ens)), s)" for m'
    using Cons.IH Cons.prems(1,2) by simp
  consider (miss) "\<not> b" | (full) b "length m = maxHandlersPerDispatch env"
    | (hit) b "length m < maxHandlersPerDispatch env" using Cons.prems(3) by linarith
  then show ?case
  proof cases
    case miss
    then show ?thesis using b nr ih [OF Cons.prems(3)] by (simp add: accepts_simps)
  next
    case full
    then show ?thesis using b nr by (simp add: accepts_simps)
  next
    case hit
    then obtain n where "maxHandlersPerDispatch env - length m = Suc n" by (metis Suc_diff_Suc)
    moreover from this have "maxHandlersPerDispatch env - length (m @ [en]) = n" by simp
    ultimately show ?thesis using hit b nr ih [of "m @ [en]"] by (simp add: accepts_simps)
  qed
qed

subsection \<open>The handlers\<close>

definition thrownBy :: "(nat \<times> 'e handler_result) list \<Rightarrow> (nat \<times> 'e) list" where
  "thrownBy trace = concat (map (\<lambda>(k, res). case res of HThrow e \<Rightarrow> [(k, e)] | _ \<Rightarrow> []) trace)"

lemma thrownBy_simps [simp]:
  "thrownBy [] = []" "thrownBy ((k, HThrow e) # trace) = (k, e) # thrownBy trace"
  "thrownBy ((k, HDone) # trace) = thrownBy trace" "thrownBy ((k, HStop) # trace) = thrownBy trace"
  by (simp_all add: thrownBy_def)

text \<open>How a list of matching registrations was run: what was called, in which order, with which results.\<close>

definition ranAs :: "concurrency \<Rightarrow> nat list \<Rightarrow> (nat \<times> 'e handler_result) list \<Rightarrow> bool \<Rightarrow> bool" where
  "ranAs mode ks trace stop \<longleftrightarrow> prefix (map fst trace) ks \<and> (stop \<longleftrightarrow> HStop \<in> snd ` set trace)
     \<and> (stop \<and> mode = Sequential \<or> map fst trace = ks)
     \<and> (mode = Sequential \<longrightarrow> HStop \<notin> snd ` set (butlast trace))"

lemma runSequential_spec:
  assumes "runSequential env did u ens errs s = ((errs', stop), s')"
  shows "\<exists>trace. calls s' = calls s @ trace \<and> errs' = errs @ thrownBy trace
    \<and> ranAs Sequential (map registrationIndex ens) trace stop \<and> evolves s s'"
  using assms
proof (induction ens arbitrary: errs s)
  case Nil
  then show ?case by (auto simp: ranAs_def evolves_refl)
next
  case (Cons en ens)
  let ?k = "registrationIndex en"
  let ?s1 = "safeInvokeObserver env (OnHandlerMatch did ?k u) s"
  obtain res s2 where inv: "invokeHandler env did u en ?s1 = (res, s2)" by fastforce
  from invokeHandler_step [OF this] have c2: "calls s2 = calls s @ [(?k, res)]" "evolves s s2"
    by (auto intro: evolves_trans [OF observer_step(2)])
  show ?case
  proof (cases res)
    case HStop
    with Cons.prems inv have "errs' = errs" "stop" "s' = s2" by simp_all
    with c2 HStop show ?thesis by (intro exI [of _ "[(?k, HStop)]"]) (simp add: ranAs_def)
  next
    case HDone
    with Cons.prems inv have "runSequential env did u ens errs s2 = ((errs', stop), s')" by simp
    from Cons.IH [OF this] obtain trace where *: "calls s' = calls s2 @ trace" "errs' = errs @ thrownBy trace"
      "ranAs Sequential (map registrationIndex ens) trace stop" "evolves s2 s'" by blast
    with c2 HDone show ?thesis
      by (intro exI [of _ "(?k, HDone) # trace"]) (auto simp: ranAs_def intro: evolves_trans)
  next
    case (HThrow e)
    let ?s3 = "safeInvokeObserver env (OnHandlerError did ?k e u) s2"
    from HThrow Cons.prems inv
    have "runSequential env did u ens (errs @ [(?k, e)]) ?s3 = ((errs', stop), s')" by (simp add: Let_def)
    from Cons.IH [OF this] obtain trace where *: "calls s' = calls s2 @ trace"
      "errs' = errs @ (?k, e) # thrownBy trace"
      "ranAs Sequential (map registrationIndex ens) trace stop" "evolves ?s3 s'" by auto
    have "evolves s s'" using c2(2) *(4) by (metis evolves_trans observer_step(2))
    with * c2 HThrow show ?thesis
      by (intro exI [of _ "(?k, HThrow e) # trace"]) (auto simp: ranAs_def)
  qed
qed

lemma startHandlers_spec:
  "startHandlers env did u ens s = (trace, s') \<Longrightarrow>
     calls s' = calls s @ trace \<and> map fst trace = map registrationIndex ens \<and> evolves s s'"
proof (induction ens arbitrary: s trace s')
  case Nil
  then show ?case by (simp add: evolves_refl)
next
  case (Cons en ens)
  obtain res s1 where inv: "invokeHandler env did u en s = (res, s1)" by fastforce
  obtain rest s2 where rest: "startHandlers env did u ens s1 = (rest, s2)" by fastforce
  have "trace = (registrationIndex en, res) # rest" "s' = s2" using Cons.prems inv rest by simp_all
  with Cons.IH [OF rest] invokeHandler_step [OF inv] show ?case by (auto intro: evolves_trans)
qed

lemma collectSettled_spec:
  "collectSettled env did u trace errs stop s = ((errs', stop'), s') \<Longrightarrow>
     errs' = errs @ thrownBy trace \<and> (stop' \<longleftrightarrow> stop \<or> HStop \<in> snd ` set trace)
     \<and> calls s' = calls s \<and> evolves s s'"
proof (induction trace arbitrary: errs stop s)
  case Nil
  then show ?case by (simp add: evolves_refl)
next
  case (Cons a trace)
  obtain k res where a: "a = (k, res)" by fastforce
  show ?case
  proof (cases res)
    case (HThrow e)
    let ?t = "safeInvokeObserver env (OnHandlerError did k e u) s"
    from Cons.prems a HThrow have
      "collectSettled env did u trace (errs @ [(k, e)]) stop ?t = ((errs', stop'), s')" by simp
    from Cons.IH [OF this] show ?thesis
      using a HThrow evolves_trans [OF observer_step(2), of env _ s s'] by auto
  qed (use Cons a in auto)
qed

lemma fold_observer_step:
  "calls (fold (\<lambda>en. safeInvokeObserver env (f en)) ens s) = calls s
    \<and> evolves s (fold (\<lambda>en. safeInvokeObserver env (f en)) ens s)"
proof (induction ens arbitrary: s)
  case Nil
  then show ?case by (simp add: evolves_refl)
next
  case (Cons en ens)
  then show ?case using evolves_trans [OF observer_step(2) [where ob = "f en"]] by fastforce
qed

lemma runParallel_spec:
  assumes "runParallel env did u ens errs s = ((errs', stop), s')"
  shows "\<exists>trace. calls s' = calls s @ trace \<and> errs' = errs @ thrownBy trace
    \<and> ranAs Parallel (map registrationIndex ens) trace stop \<and> evolves s s'"
proof -
  define s1 where "s1 = fold (\<lambda>en. safeInvokeObserver env (OnHandlerMatch did (registrationIndex en) u)) ens s"
  obtain trace s2 where r: "startHandlers env did u ens s1 = (trace, s2)" by fastforce
  have "collectSettled env did u trace errs False s2 = ((errs', stop), s')"
    using assms r by (simp add: runParallel_def Let_def s1_def)
  from collectSettled_spec [OF this] startHandlers_spec [OF r]
    fold_observer_step [of env "\<lambda>en. OnHandlerMatch did (registrationIndex en) u" ens s, folded s1_def]
  show ?thesis by (intro exI [of _ trace]) (auto simp: ranAs_def intro: evolves_trans)
qed

lemma runMatching_spec:
  "runMatching env did u ens errs s = ((errs', stop), s') \<Longrightarrow>
     \<exists>trace. calls s' = calls s @ trace \<and> errs' = errs @ thrownBy trace
    \<and> ranAs (env_concurrency env) (map registrationIndex ens) trace stop \<and> evolves s s'"
  using runSequential_spec runParallel_spec unfolding runMatching_def
  by (cases "env_concurrency env") (auto split: concurrency.splits)

subsection \<open>A dispatch\<close>

lemma dispatch_stages:
  assumes "dispatch env u s = (Inr rep, s')"
  obtains did w matching errs s2 s3 where
    "dispatchIdFactory env (world s) = (Inr did, w)"
    "scanEntries env did u (registrations (beforeSnapshot env did u (s\<lparr>world := w\<rparr>))) [] []
       (beforeSnapshot env did u (s\<lparr>world := w\<rparr>)) = ((matching, errs, capped rep), s2)"
    "runMatching env did u matching errs s2 = ((report_errors rep, stopped rep), s3)"
    "matchedHandlers rep = length matching"
    "s' = safeInvokeObserver env (OnAfterDispatch did rep) s3"
  using assms by (auto simp: dispatch_def Let_def split: prod.splits sum.splits)

text \<open>The state in which the dispatch of \<open>u\<close> takes its snapshot, its identifier already made.\<close>

definition snapshotState ::
  "('u, 'e, 'h, 'r, 'w) dispatch_env \<Rightarrow> 'u \<Rightarrow> ('u, 'e, 'h, 'r, 'w) router \<Rightarrow> ('u, 'e, 'h, 'r, 'w) router" where
  "snapshotState env u s = (case dispatchIdFactory env (world s) of
     (Inl e, w) \<Rightarrow> s
   | (Inr did, w) \<Rightarrow> beforeSnapshot env did u (s\<lparr>world := w\<rparr>))"

lemma snapshotState_evolves: "evolves s (snapshotState env u s) \<and> calls (snapshotState env u s) = calls s"
proof -
  have "evolves s (beforeSnapshot env did u (s\<lparr>world := w\<rparr>))" for did w
    by (rule evolves_trans [OF evolves_world(1) beforeSnapshot_step(2)])
  then show ?thesis by (auto simp: snapshotState_def evolves_refl split: prod.split sum.split)
qed

lemma dispatch_facts:
  assumes "dispatch env u s = (Inr rep, s')" and "routerInv s"
  shows "\<exists>trace visited. calls s' = calls s @ trace
    \<and> ranAs (env_concurrency env) (map registrationIndex (filter (accepts u) visited)) trace (stopped rep)
    \<and> scanOutcome (maxHandlersPerDispatch env) u (registrations (snapshotState env u s)) (removed s')
        visited (capped rep)
    \<and> matchedHandlers rep = length (filter (accepts u) visited)
    \<and> report_errors rep = predicateErrors u visited @ thrownBy trace \<and> evolves s s'"
proof -
  from dispatch_stages [OF assms(1)] obtain did w matching errs s2 s3 where
    d: "dispatchIdFactory env (world s) = (Inr did, w)"
      "scanEntries env did u (registrations (beforeSnapshot env did u (s\<lparr>world := w\<rparr>))) [] []
         (beforeSnapshot env did u (s\<lparr>world := w\<rparr>)) = ((matching, errs, capped rep), s2)"
      "runMatching env did u matching errs s2 = ((report_errors rep, stopped rep), s3)"
      "matchedHandlers rep = length matching"
      "s' = safeInvokeObserver env (OnAfterDispatch did rep) s3" .
  have snap: "beforeSnapshot env did u (s\<lparr>world := w\<rparr>) = snapshotState env u s"
    using d(1) by (simp add: snapshotState_def)
  have inv: "routerInv (snapshotState env u s)"
    using snapshotState_evolves [of s env u] assms(2) by (simp add: evolves_def)
  from scanEntries_spec [OF d(2)] inv obtain visited where scan:
    "matching = filter (accepts u) visited" "errs = predicateErrors u visited"
    "scanOutcome (maxHandlersPerDispatch env) u (registrations (snapshotState env u s)) (removed s2)
        visited (capped rep)"
    "calls s2 = calls s" "evolves (snapshotState env u s) s2"
    by (auto simp: snap snapshotState_evolves)
  from runMatching_spec [OF d(3)] obtain trace where t:
    "calls s3 = calls s2 @ trace" "report_errors rep = errs @ thrownBy trace"
    "ranAs (env_concurrency env) (map registrationIndex matching) trace (stopped rep)" "evolves s2 s3" by blast
  have e: "evolves s2 s'" unfolding d(5) using t(4) by (rule evolves_trans [OF _ observer_step(2)])
  have "evolves s s'" using e by (metis evolves_trans scan(5) snapshotState_evolves)
  moreover have "set (removed s2) \<subseteq> set (removed s')" using e scan(5) inv by (simp add: evolves_def)
  ultimately show ?thesis using scan t d(4,5)
    by (intro exI [of _ trace] exI [of _ visited]) (auto intro: scanOutcome_mono)
qed

text \<open>What the outcome of a scan says of the registrations the handlers run for.\<close>

lemma scanOutcome_matching:
  assumes "scanOutcome room u ens gone visited cap"
  shows "subseq (filter (accepts u) visited) (filter (accepts u) ens)"
    "length (filter (accepts u) visited) \<le> room"
proof -
  from assms obtain reached rest where "ens = reached @ rest" "subseq visited reached"
    "length (filter (accepts u) visited) \<le> room" unfolding scanOutcome_def by blast
  then show "subseq (filter (accepts u) visited) (filter (accepts u) ens)"
    "length (filter (accepts u) visited) \<le> room"
    by (auto intro: subseq_filter subseq_order.trans [OF _ prefix_imp_subseq])
qed

lemma dispatch_throws: "dispatch env u s = (Inl e, s') \<Longrightarrow> \<exists>w. s' = s\<lparr>world := w\<rparr>"
  by (auto simp: dispatch_def Let_def split: prod.splits sum.splits)

lemma dispatch_evolves: "dispatch env u s = (r, s') \<Longrightarrow> evolves s s'"
proof (cases r)
  case (Inr rep)
  assume "dispatch env u s = (r, s')"
  with Inr dispatch_facts [of env u s rep s'] show ?thesis by (cases "routerInv s") (auto simp: evolves_def)
qed (use dispatch_throws evolves_world(1) in metis)

subsection \<open>Runs of a router\<close>

text \<open>Between dispatches any code may issue commands, and the host's world changes.\<close>

inductive router_reaches ::
  "('u, 'e, 'h, 'r, 'w) dispatch_env \<Rightarrow> ('u, 'e, 'h, 'r, 'w) router \<Rightarrow> bool" for env where
  router_start: "router_reaches env \<lparr>registrations = [], removed = [], nextRegistrationIndex = 0,
     listeners = r, world = w, calls = []\<rparr>"
| router_command: "router_reaches env s \<Longrightarrow> router_reaches env (applyCommand c s)"
| router_world: "router_reaches env s \<Longrightarrow> router_reaches env (s\<lparr>world := w\<rparr>)"
| router_dispatch: "router_reaches env s \<Longrightarrow> dispatch env u s = (r, s') \<Longrightarrow> router_reaches env s'"

lemma routerInv_reaches: "router_reaches env s \<Longrightarrow> routerInv s"
proof (induction rule: router_reaches.induct)
  case (router_start r w)
  show ?case by (simp add: routerInv_def)
next
  case (router_command s c)
  then show ?case by (simp add: routerInv_applyCommand)
next
  case (router_world s w)
  then show ?case using evolves_world(1) [of s w] by (simp add: evolves_def)
next
  case (router_dispatch s u r s')
  then show ?case using dispatch_evolves [OF router_dispatch.hyps(2)] by (simp add: evolves_def)
qed

lemma routerInv_snapshot: "router_reaches env s \<Longrightarrow> routerInv (snapshotState env u s)"
  using routerInv_reaches snapshotState_evolves by (fastforce simp: evolves_def)

text \<open>The identifiers that a dispatch calls are those of the picked registrations, in their order.\<close>

lemma subseq_set: "subseq xs ys \<Longrightarrow> set xs \<subseteq> set ys"
  by (induction rule: list_emb.induct) auto

lemma sorted_wrt_subseq: "subseq xs ys \<Longrightarrow> sorted_wrt R ys \<Longrightarrow> sorted_wrt R xs"
proof (induction rule: list_emb.induct)
  case (list_emb_Cons2 x y xs ys)
  then show ?case using subseq_set by fastforce
qed simp_all

lemma picked_sorted:
  assumes "routerInv t" "subseq picked (filter P (registrations t))" "prefix ks (map registrationIndex picked)"
  shows "sorted_wrt (<) ks" and "set ks \<subseteq> registrationIndex ` {r \<in> set (registrations t). P r}"
    and "length ks \<le> length picked"
proof -
  have sub: "subseq picked (registrations t)" by (rule subseq_order.trans [OF assms(2) subseq_filter_left])
  then have "subseq ks (map registrationIndex (registrations t))"
    by (rule subseq_order.trans [OF prefix_imp_subseq [OF assms(3)] subseq_map])
  then show "sorted_wrt (<) ks" using assms(1) unfolding routerInv_def by (blast intro: sorted_wrt_subseq)
  have "set ks \<subseteq> registrationIndex ` set picked" using set_mono_prefix [OF assms(3)] by simp
  moreover have "set picked \<subseteq> {r \<in> set (registrations t). P r}"
    using subseq_set [OF assms(2)] by auto
  ultimately show "set ks \<subseteq> registrationIndex ` {r \<in> set (registrations t). P r}" by blast
  show "length ks \<le> length picked" using prefix_length_le [OF assms(3)] by simp
qed

subsection \<open>A dispatcher over any listener registry\<close>

context update_listeners
begin

lemma stage_delivers_once:
  assumes "listener_evaluate env = Some eval" and "valid (listeners s)"
    and "\<And>i. observer_hook env (OnListenerMatch did i u) = None"
  shows "registrations (listenerStage env did u s) = registrations s"
    and "delivered (listeners (listenerStage env did u s)) = delivered (listeners s) \<or>
      (\<exists>i \<in> set (waits (listeners s)). delivered (listeners (listenerStage env did u s))
          = delivered (listeners s) @ [(i, Resolved u)]
        \<and> waits (listeners (listenerStage env did u s)) = filter (\<lambda>j. j \<noteq> i) (waits (listeners s)))"
proof -
  obtain x r' where e: "eval u (listeners s) = (x, r')" by fastforce
  have st: "listenerStage env did u s = s\<lparr>listeners := r'\<rparr>"
    using assms(1,3) e by (auto simp: listenerStage_def safeInvokeObserver_def split: sum.splits option.splits)
  show "registrations (listenerStage env did u s) = registrations s" by (simp add: st)
  show "delivered (listeners (listenerStage env did u s)) = delivered (listeners s) \<or>
      (\<exists>i \<in> set (waits (listeners s)). delivered (listeners (listenerStage env did u s))
          = delivered (listeners s) @ [(i, Resolved u)]
        \<and> waits (listeners (listenerStage env did u s)) = filter (\<lambda>j. j \<noteq> i) (waits (listeners s)))"
    using eval_cases [OF assms(2) e] by (auto simp: st)
qed

end

subsection \<open>Properties\<close>

definition sampleEnv :: "(nat, string, nat handler_result, unit, nat) dispatch_env" where
  "sampleEnv = \<lparr>maxHandlersPerDispatch = 2, env_concurrency = Sequential,
     dispatchIdFactory = (\<lambda>w. (Inr ''d'', Suc w)), observer_hook = (\<lambda>_. None),
     call_handler = (\<lambda>h ctx w. ((case h of HThrow n \<Rightarrow> HThrow ''boom'' | HStop \<Rightarrow> HStop | HDone \<Rightarrow> HDone),
       [CmdUnregister 2], w)),
     listener_evaluate = None\<rparr>"

definition samplePut ::
  "nat handler_result \<Rightarrow> (nat, string, nat handler_result, unit, nat) router \<Rightarrow>
    (nat, string, nat handler_result, unit, nat) router" where
  "samplePut h = applyCommand (CmdOn (sampleFilter (\<lambda>u. Inr (0 < u))) JFun h)"

definition sampleRouter :: "(nat, string, nat handler_result, unit, nat) router" where
  "sampleRouter = samplePut HDone (applyCommand (CmdUnregister 1) (samplePut HStop (samplePut (HThrow 1)
     \<lparr>registrations = [], removed = [], nextRegistrationIndex = 0, listeners = (), world = 0, calls = []\<rparr>)))"

lemma sampleRouter_reaches: "router_reaches sampleEnv sampleRouter"
  unfolding sampleRouter_def samplePut_def by (intro router_command router_start)

lemma sampleRouter_eq:
  "sampleRouter = \<lparr>registrations = [
       \<lparr>registrationIndex = 0, reg_predicate = (\<lambda>u. Inr (0 < u)), reg_handler = HThrow 1\<rparr>,
       \<lparr>registrationIndex = 2, reg_predicate = (\<lambda>u. Inr (0 < u)), reg_handler = HDone\<rparr>],
     removed = [1], nextRegistrationIndex = 3, listeners = (), world = 0, calls = []\<rparr>"
  by (simp add: sampleRouter_def samplePut_def applyCommand_def on_def sampleFilter_fields isFunction_def
      unregister_def Let_def numeral_eq_Suc)

lemma sampleRouter_dispatches: "\<exists>rep s'. dispatch sampleEnv 5 sampleRouter = (Inr rep, s')
    \<and> matchedHandlers rep = 2 \<and> \<not> stopped rep
    \<and> calls s' = [(0, HThrow ''boom''), (2, HDone)] \<and> report_errors rep = [(0, ''boom'')]"
  by (simp add: dispatch_def sampleRouter_eq sampleEnv_def beforeSnapshot_def safeInvokeObserver_def
      listenerStage_def runMatching_def invokeHandler_def applyCommand_def unregister_def Let_def)

text \<open>C11: A dispatch that reports asked the predicates of the snapshot in registration order: of all its
  registrations (\<open>visited\<close>), but for some that user code removed before the dispatch ended, and but for
  those from the first one on that would go over the cap.  The handlers it counts are those of the
  visited registrations that accept the update, no more than the cap; it calls them in that order, each
  at most once; it stops early only when a handler asked for it, and else calls every one of them.  The
  errors it reports are exactly those of the visited predicates that threw, in order, and then those of
  the handlers that threw, in the order of the calls.  No use of the router by hooks and handlers changes
  this.\<close>

theorem dispatch_runs_in_order:
  assumes "router_reaches env s" and "dispatch env u s = (Inr rep, s')"
  shows "\<exists>trace reached rest visited. calls s' = calls s @ trace
    \<and> registrations (snapshotState env u s) = reached @ rest \<and> subseq visited reached
    \<and> (\<forall>r \<in> set reached. r \<notin> set visited \<longrightarrow> registrationIndex r \<in> set (removed s'))
    \<and> (capped rep \<longleftrightarrow> rest \<noteq> [])
    \<and> (rest \<noteq> [] \<longrightarrow> reg_predicate (hd rest) u = Inr True \<and> matchedHandlers rep = maxHandlersPerDispatch env)
    \<and> sorted_wrt (<) (map fst trace)
    \<and> prefix (map fst trace) [registrationIndex r. r \<leftarrow> visited, reg_predicate r u = Inr True]
    \<and> matchedHandlers rep = length [r. r \<leftarrow> visited, reg_predicate r u = Inr True]
    \<and> matchedHandlers rep \<le> maxHandlersPerDispatch env
    \<and> (stopped rep \<longleftrightarrow> HStop \<in> snd ` set trace) \<and> (\<not> stopped rep \<longrightarrow> length trace = matchedHandlers rep)
    \<and> report_errors rep =
        concat (map (\<lambda>r. case reg_predicate r u of Inl e \<Rightarrow> [(registrationIndex r, e)] | Inr _ \<Rightarrow> []) visited) @
        concat (map (\<lambda>(k, res). case res of HThrow e \<Rightarrow> [(k, e)] | _ \<Rightarrow> []) trace)"
proof -
  note inv = routerInv_reaches [OF assms(1)]
  from dispatch_facts [OF assms(2) inv] obtain trace visited where
    f: "calls s' = calls s @ trace"
      "ranAs (env_concurrency env) (map registrationIndex (filter (accepts u) visited)) trace (stopped rep)"
      "scanOutcome (maxHandlersPerDispatch env) u (registrations (snapshotState env u s)) (removed s')
        visited (capped rep)"
      "matchedHandlers rep = length (filter (accepts u) visited)"
      "report_errors rep = predicateErrors u visited @ thrownBy trace" by blast
  have pre: "prefix (map fst trace) (map registrationIndex (filter (accepts u) visited))"
    using f(2) by (simp add: ranAs_def)
  note p = picked_sorted [OF routerInv_snapshot [OF assms(1)] scanOutcome_matching(1) [OF f(3)] pre]
  have len: "\<not> stopped rep \<longrightarrow> length trace = length (filter (accepts u) visited)"
    using f(2) unfolding ranAs_def by (metis length_map)
  have hits: "[registrationIndex r. r \<leftarrow> visited, reg_predicate r u = Inr True] =
      map registrationIndex (filter (accepts u) visited)"
    "[r. r \<leftarrow> visited, reg_predicate r u = Inr True] = filter (accepts u) visited"
    by (induction visited) (simp_all add: accepts_def)
  from f(3) obtain reached rest where o: "registrations (snapshotState env u s) = reached @ rest"
    "subseq visited reached" "\<forall>r \<in> set reached. r \<notin> set visited \<longrightarrow> registrationIndex r \<in> set (removed s')"
    "capped rep \<longleftrightarrow> rest \<noteq> []"
    "capped rep \<longrightarrow> length (filter (accepts u) visited) = maxHandlersPerDispatch env \<and> accepts u (hd rest)"
    "length (filter (accepts u) visited) \<le> maxHandlersPerDispatch env"
    unfolding scanOutcome_def by blast
  have "stopped rep \<longleftrightarrow> HStop \<in> snd ` set trace" using f(2) by (simp add: ranAs_def)
  with f(1,4,5) o p(1) len pre hits show ?thesis
    by (intro exI [of _ trace] exI [of _ reached] exI [of _ rest] exI [of _ visited])
      (simp add: predicateErrors_def thrownBy_def accepts_def)
qed

text \<open>A witness in which a predicate throws as well as a handler.\<close>

definition throwingRouter :: "(nat, string, nat handler_result, unit, nat) router" where
  "throwingRouter = applyCommand (CmdOn (sampleFilter (\<lambda>u. Inl ''bad'')) JFun HDone) sampleRouter"

lemma throwingRouter_reaches: "router_reaches sampleEnv throwingRouter"
  unfolding throwingRouter_def by (intro router_command sampleRouter_reaches)

lemma throwingRouter_eq:
  "throwingRouter = sampleRouter\<lparr>registrations := registrations sampleRouter @
       [\<lparr>registrationIndex = 3, reg_predicate = (\<lambda>u. Inl ''bad''), reg_handler = HDone\<rparr>],
     nextRegistrationIndex := 4\<rparr>"
  by (simp add: throwingRouter_def sampleRouter_eq applyCommand_def on_def sampleFilter_fields isFunction_def Let_def)

lemma throwingRouter_dispatches: "\<exists>rep s'. dispatch sampleEnv 5 throwingRouter = (Inr rep, s')
    \<and> report_errors rep = [(3, ''bad''), (0, ''boom'')]"
  by (simp add: dispatch_def throwingRouter_eq sampleRouter_eq sampleEnv_def beforeSnapshot_def safeInvokeObserver_def
      listenerStage_def runMatching_def invokeHandler_def applyCommand_def unregister_def Let_def)

theorem dispatch_runs_in_order_witness:
  "\<exists>rep s' trace. \<exists>visited :: (nat, string, nat handler_result) registration list.
    dispatch sampleEnv 5 throwingRouter = (Inr rep, s')
    \<and> calls s' = calls throwingRouter @ trace \<and> sorted_wrt (<) (map fst trace)
    \<and> report_errors rep = [(3, ''bad''), (0, ''boom'')]
    \<and> report_errors rep =
        concat (map (\<lambda>r. case reg_predicate r (5 :: nat) of Inl e \<Rightarrow> [(registrationIndex r, e)] | Inr _ \<Rightarrow> []) visited) @
        concat (map (\<lambda>(k, res). case res of HThrow e \<Rightarrow> [(k, e)] | _ \<Rightarrow> []) trace)"
proof -
  obtain rep s' where d: "dispatch sampleEnv 5 throwingRouter = (Inr rep, s')"
    "report_errors rep = [(3, ''bad''), (0, ''boom'')]" using throwingRouter_dispatches by blast
  from dispatch_runs_in_order [OF throwingRouter_reaches d(1)] obtain trace
    and visited :: "(nat, string, nat handler_result) registration list" where
    "calls s' = calls throwingRouter @ trace" "sorted_wrt (<) (map fst trace)" "report_errors rep =
      concat (map (\<lambda>r. case reg_predicate r (5 :: nat) of Inl e \<Rightarrow> [(registrationIndex r, e)] | Inr _ \<Rightarrow> []) visited) @
      concat (map (\<lambda>(k, res). case res of HThrow e \<Rightarrow> [(k, e)] | _ \<Rightarrow> []) trace)" by (elim exE conjE) simp
  with d show ?thesis by (intro exI conjI)
qed

text \<open>When no predicate of the snapshot throws, the handlers that a dispatch matches are the
  first of the accepting registrations of the snapshot, up to the cap, and it reports that it was
  capped exactly when there are more; it calls all of them, or, in sequential mode, those up to the
  first that answers \<open>stop\<close>; its errors are those of the handlers.  Handlers that register and
  unregister while they run do not change the set.\<close>

theorem dispatch_matches_snapshot:
  assumes "router_reaches env s" and "dispatch env u s = (Inr rep, s')"
    and "\<And>r e. r \<in> set (registrations (snapshotState env u s)) \<Longrightarrow> reg_predicate r u \<noteq> Inl e"
  shows "let hits = filter (accepts u) (registrations (snapshotState env u s)) in
    matchedHandlers rep = min (maxHandlersPerDispatch env) (length hits)
    \<and> (capped rep \<longleftrightarrow> maxHandlersPerDispatch env < length hits)
    \<and> (\<exists>trace. calls s' = calls s @ trace \<and> report_errors rep = thrownBy trace
         \<and> ranAs (env_concurrency env)
             (map registrationIndex (take (maxHandlersPerDispatch env) hits)) trace (stopped rep))"
proof -
  let ?t = "snapshotState env u s"
  from dispatch_stages [OF assms(2)] obtain did w matching errs s2 s3 where
    d: "dispatchIdFactory env (world s) = (Inr did, w)"
      "scanEntries env did u (registrations (beforeSnapshot env did u (s\<lparr>world := w\<rparr>))) [] []
         (beforeSnapshot env did u (s\<lparr>world := w\<rparr>)) = ((matching, errs, capped rep), s2)"
      "runMatching env did u matching errs s2 = ((report_errors rep, stopped rep), s3)"
      "matchedHandlers rep = length matching"
      "s' = safeInvokeObserver env (OnAfterDispatch did rep) s3" .
  have snap: "beforeSnapshot env did u (s\<lparr>world := w\<rparr>) = ?t"
    using d(1) by (simp add: snapshotState_def)
  have "\<not> isRemoved (registrationIndex r) ?t" if "r \<in> set (registrations ?t)" for r
    using routerInv_snapshot [OF assms(1)] that by (simp add: routerInv_def)
  from scanEntries_pure [OF assms(3) this, where m = "[]" and errs = "[]" and env = env and did = did] d(2) snap
  have sc: "matching = take (maxHandlersPerDispatch env) (filter (accepts u) (registrations ?t))" "errs = []"
    "capped rep \<longleftrightarrow> maxHandlersPerDispatch env < length (filter (accepts u) (registrations ?t))" "s2 = ?t"
    by auto
  from runMatching_spec [OF d(3)] obtain trace where
    "calls s3 = calls s2 @ trace" "report_errors rep = errs @ thrownBy trace"
    "ranAs (env_concurrency env) (map registrationIndex matching) trace (stopped rep)" by blast
  with sc d(4,5) snapshotState_evolves [of s env u] show ?thesis
    by (auto simp: Let_def)
qed

theorem dispatch_matches_snapshot_witness:
  "\<exists>rep s'. dispatch sampleEnv 5 sampleRouter = (Inr rep, s')
    \<and> matchedHandlers rep = min 2 (length (filter (accepts 5) (registrations (snapshotState sampleEnv 5 sampleRouter))))"
proof -
  obtain rep s' where d: "dispatch sampleEnv 5 sampleRouter = (Inr rep, s')"
    using sampleRouter_dispatches by blast
  have "registrations (snapshotState sampleEnv 5 sampleRouter) = registrations sampleRouter"
    by (simp add: snapshotState_def sampleEnv_def beforeSnapshot_def safeInvokeObserver_def listenerStage_def)
  then have "reg_predicate r 5 \<noteq> Inl e" if "r \<in> set (registrations (snapshotState sampleEnv 5 sampleRouter))" for r e
    using that by (auto simp: sampleRouter_eq)
  from dispatch_matches_snapshot [OF sampleRouter_reaches d this] d show ?thesis
    by (simp add: Let_def sampleEnv_def)
qed

text \<open>Once a handler is unregistered, no later dispatch calls it, and it stays unregistered.\<close>

theorem unregistered_never_called:
  assumes "router_reaches env s" and "isRemoved k s" and "dispatch env u s = (r, s')"
  shows "isRemoved k s' \<and> (\<exists>trace. calls s' = calls s @ trace \<and> k \<notin> fst ` set trace)"
proof (cases r)
  case (Inl e)
  then obtain w where "s' = s\<lparr>world := w\<rparr>" using dispatch_throws assms(3) by metis
  with assms(2) show ?thesis by simp
next
  case (Inr rep)
  note inv = routerInv_reaches [OF assms(1)]
  from dispatch_facts [of env u s rep s'] assms(3) Inr inv obtain trace visited where
    f: "calls s' = calls s @ trace"
      "ranAs (env_concurrency env) (map registrationIndex (filter (accepts u) visited)) trace (stopped rep)"
      "scanOutcome (maxHandlersPerDispatch env) u (registrations (snapshotState env u s)) (removed s')
        visited (capped rep)" "evolves s s'" by blast
  have "prefix (map fst trace) (map registrationIndex (filter (accepts u) visited))"
    using f(2) by (simp add: ranAs_def)
  note p = picked_sorted(2) [OF routerInv_snapshot [OF assms(1)] scanOutcome_matching(1) [OF f(3)] this]
  have "k \<in> set (removed (snapshotState env u s))"
    using snapshotState_evolves [of s env u] inv assms(2) by (auto simp: evolves_def)
  then have "k \<notin> fst ` set trace" using p routerInv_snapshot [OF assms(1), of u] by (auto simp: routerInv_def)
  then show ?thesis using f(1,4) inv assms(2) by (auto simp: evolves_def)
qed

theorem unregistered_never_called_witness:
  "\<exists>r s'. dispatch sampleEnv 5 sampleRouter = (r, s')
    \<and> (\<exists>trace. calls s' = calls sampleRouter @ trace \<and> 1 \<notin> fst ` set trace)"
proof -
  have "isRemoved 1 sampleRouter" by (simp add: sampleRouter_eq)
  with unregistered_never_called [OF sampleRouter_reaches] show ?thesis by (metis prod.collapse)
qed

text \<open>Whatever hooks, predicates, listeners and handlers do, throwing included, a dispatch reports
  exactly when its dispatch-id factory returned an identifier.\<close>

theorem dispatch_resolves_iff_id:
  "(\<exists>rep s'. dispatch env u s = (Inr rep, s')) \<longleftrightarrow> (\<exists>did w. dispatchIdFactory env (world s) = (Inr did, w))"
  by (auto simp: dispatch_def Let_def split: prod.splits sum.splits)

text \<open>The listener stage of a dispatch, over the code's listener registry, gives the update to at
  most one waiting listener, whether or not listener predicates throw, and leaves the router's
  registrations as they were.\<close>

theorem dispatch_listener_stage:
  assumes "listener_evaluate env = Some evaluate" and "registry_reaches (listeners s)"
    and "\<And>i. observer_hook env (OnListenerMatch did i u) = None"
  shows "registrations (listenerStage env did u s) = registrations s
    \<and> (outcomes (listeners (listenerStage env did u s)) = outcomes (listeners s) \<or>
      (\<exists>i \<in> set (lentries (listeners s)). outcomes (listeners (listenerStage env did u s))
          = outcomes (listeners s) @ [(i, Resolved u)]
        \<and> lentries (listeners (listenerStage env did u s)) = filter (\<lambda>j. j \<noteq> i) (lentries (listeners s))))"
  using lsn.stage_delivers_once [OF assms(1) regInv_reaches [OF assms(2)] assms(3)] by blast

definition sampleListenerEnv :: "(nat, string, unit, (nat, string) registry, unit) dispatch_env" where
  "sampleListenerEnv = \<lparr>maxHandlersPerDispatch = 2, env_concurrency = Sequential,
     dispatchIdFactory = (\<lambda>w. (Inr ''d'', w)), observer_hook = (\<lambda>_. None),
     call_handler = (\<lambda>h ctx w. (HDone, [], w)), listener_evaluate = Some evaluate\<rparr>"

theorem dispatch_listener_stage_witness:
  "let s = \<lparr>registrations = [], removed = [], nextRegistrationIndex = 0, listeners = sampleRegistry,
        world = (), calls = []\<rparr>;
       s' = listenerStage sampleListenerEnv ''d'' 7 s
   in outcomes (listeners s') = outcomes sampleRegistry \<or>
      (\<exists>i \<in> set (lentries sampleRegistry). outcomes (listeners s') = outcomes sampleRegistry @ [(i, Resolved 7)])"
proof -
  let ?s = "\<lparr>registrations = [], removed = [], nextRegistrationIndex = 0, listeners = sampleRegistry,
        world = (), calls = []\<rparr>"
  have "listener_evaluate sampleListenerEnv = Some evaluate" "registry_reaches (listeners ?s)"
    "observer_hook sampleListenerEnv (OnListenerMatch ''d'' i 7) = None" for i
    by (simp_all add: sampleListenerEnv_def sampleRegistry_reaches)
  from dispatch_listener_stage [OF this] show ?thesis by (auto simp: Let_def)
qed

end
