(* ===== verification/Rate_Limiter.thy ===== *)
theory Rate_Limiter
  imports Js_Value
begin

section \<open>The token bucket (packages/graph/src/rateLimiter.ts)\<close>

text \<open>
  A bucket holds up to \<open>capacity\<close> tokens and refills with the clock.  Its clock is injected: each
  operation is given the reading that its call of \<open>now()\<close> returns.  Numbers are exact rationals.
  \<open>acquire\<close> waits in a loop; one \<open>acquire_round\<close> is what the host answers in one iteration: whether
  the signal is aborted at its start, the clock, what other callers take from the bucket during the
  wait, and how the wait ends.
\<close>

subsection \<open>Construction\<close>

datatype limiter_exn =
    LimiterError string
  | LimiterTypeError
  | LimiterAborted
  | LimiterSleepFailed

record bucket =
  capacity :: int
  refillPerSecond :: rat
  tokens :: rat
  lastRefillMs :: rat

definition MAX_CAPACITY :: int where
  "MAX_CAPACITY = 10000"

definition assertCapacity :: "jsval \<Rightarrow> limiter_exn + int" where
  "assertCapacity v = (case intWithin 1 MAX_CAPACITY v of
     None \<Rightarrow> Inl (LimiterError ''capacity'') | Some n \<Rightarrow> Inr n)"

definition assertRefillPerSecond :: "jsval \<Rightarrow> limiter_exn + rat" where
  "assertRefillPerSecond v = (case v of
     JNum (Fin r) \<Rightarrow> if r \<le> 0 then Inl (LimiterError ''refillPerSecond'') else Inr r
   | _ \<Rightarrow> Inl (LimiterError ''refillPerSecond''))"

definition createTokenBucketRateLimiter :: "jsval \<Rightarrow> rat \<Rightarrow> limiter_exn + bucket" where
  "createTokenBucketRateLimiter options now = (case objectProps options of
     None \<Rightarrow> Inl (LimiterError ''options'')
   | Some ps \<Rightarrow>
       bindE (assertCapacity (js_get ps ''capacity'')) (\<lambda>cap.
       bindE (assertRefillPerSecond (js_get ps ''refillPerSecond'')) (\<lambda>rate.
       bindE (guardE (js_get ps ''now'' = JUndef \<or> isFunction (js_get ps ''now'')) (LimiterError ''now'')) (\<lambda>_.
       bindE (guardE (js_get ps ''sleep'' = JUndef \<or> isFunction (js_get ps ''sleep'')) (LimiterError ''sleep'')) (\<lambda>_.
       Inr \<lparr>capacity = cap, refillPerSecond = rate, tokens = of_int cap, lastRefillMs = now\<rparr>)))))"

subsection \<open>Operations\<close>

definition assertCost :: "jsval \<Rightarrow> bucket \<Rightarrow> limiter_exn + int" where
  "assertCost cost b = (if cost \<in> {JUndef, JNull} then Inr 1 else
     (case intWithin 1 (capacity b) cost of
        None \<Rightarrow> Inl (LimiterError ''cost'') | Some c \<Rightarrow> Inr c))"

definition refill :: "rat \<Rightarrow> bucket \<Rightarrow> bucket" where
  "refill currentMs b = (let elapsedMs = currentMs - lastRefillMs b in
     if 0 < elapsedMs then
       b\<lparr>tokens := min (of_int (capacity b)) (tokens b + (elapsedMs / 1000) * refillPerSecond b),
         lastRefillMs := currentMs\<rparr>
     else if elapsedMs < 0 then b\<lparr>lastRefillMs := currentMs\<rparr>
     else b)"

text \<open>The admission step that \<open>acquire\<close> and \<open>tryAcquire\<close> share.\<close>

definition admit :: "int \<Rightarrow> rat \<Rightarrow> bucket \<Rightarrow> bool \<times> bucket" where
  "admit c now b = (let b' = refill now b in
     if of_int c \<le> tokens b' then (True, b'\<lparr>tokens := tokens b' - of_int c\<rparr>) else (False, b'))"

definition tryAcquire :: "jsval \<Rightarrow> rat \<Rightarrow> (bucket, limiter_exn, bool) act" where
  "tryAcquire cost now b = (case assertCost cost b of
     Inl e \<Rightarrow> (Inl e, b)
   | Inr c \<Rightarrow> (case admit c now b of (ok, b') \<Rightarrow> (Inr ok, b')))"

datatype wake = Woke | SleepFailed | AbortWon

record acquire_round =
  round_aborted :: bool
  round_now :: rat
  round_others :: "(int \<times> rat) list"
  round_wake :: wake

datatype acquire_result = Admitted | Rejected limiter_exn | Waiting

definition admitAll :: "(int \<times> rat) list \<Rightarrow> bucket \<Rightarrow> bucket" where
  "admitAll cs b = fold (\<lambda>(c, now) b. snd (admit c now b)) cs b"

definition waitMs :: "int \<Rightarrow> bucket \<Rightarrow> rat" where
  "waitMs c b = max 0 ((of_int c - tokens b) / refillPerSecond b * 1000)"

text \<open>The loop of \<open>acquire\<close>, with the waits it asked for; \<open>Waiting\<close> when the host has answered no further.\<close>

fun acquireLoop :: "int \<Rightarrow> bool \<Rightarrow> acquire_round list \<Rightarrow> bucket \<Rightarrow> (acquire_result \<times> rat list) \<times> bucket" where
  "acquireLoop c hasSignal [] b = ((Waiting, []), b)"
| "acquireLoop c hasSignal (r # rs) b =
     (if hasSignal \<and> round_aborted r then ((Rejected LimiterAborted, []), b)
      else (case admit c (round_now r) b of
          (True, b') \<Rightarrow> ((Admitted, []), b')
        | (False, b') \<Rightarrow>
            let w = waitMs c b'; b'' = admitAll (round_others r) b' in
            (case round_wake r of
               SleepFailed \<Rightarrow> ((Rejected LimiterSleepFailed, [w]), b'')
             | AbortWon \<Rightarrow> if hasSignal then ((Rejected LimiterAborted, [w]), b'')
                 else (case acquireLoop c hasSignal rs b'' of ((res, ws), b3) \<Rightarrow> ((res, w # ws), b3))
             | Woke \<Rightarrow> (case acquireLoop c hasSignal rs b'' of ((res, ws), b3) \<Rightarrow> ((res, w # ws), b3)))))"

datatype signal_arg = NoSignal | ASignal bool | NotASignal

definition acquire ::
  "jsval \<Rightarrow> signal_arg \<Rightarrow> acquire_round list \<Rightarrow> bucket \<Rightarrow> (acquire_result \<times> rat list) \<times> bucket" where
  "acquire cost signal rounds b = (case assertCost cost b of
     Inl e \<Rightarrow> ((Rejected e, []), b)
   | Inr c \<Rightarrow> (case signal of
       NotASignal \<Rightarrow> ((Rejected LimiterTypeError, []), b)
     | ASignal aborted \<Rightarrow> if aborted then ((Rejected LimiterAborted, []), b) else acquireLoop c True rounds b
     | NoSignal \<Rightarrow> acquireLoop c False rounds b))"

subsection \<open>The bucket's accounts\<close>

definition bucketInv :: "bucket \<Rightarrow> bool" where
  "bucketInv b \<longleftrightarrow> 0 \<le> tokens b \<and> tokens b \<le> of_int (capacity b) \<and> 0 < refillPerSecond b
     \<and> 1 \<le> capacity b \<and> capacity b \<le> MAX_CAPACITY"

lemma bucketInv_create: "createTokenBucketRateLimiter options now = Inr b \<Longrightarrow> bucketInv b"
  by (auto simp: createTokenBucketRateLimiter_def res_iff bucketInv_def assertCapacity_def
      assertRefillPerSecond_def dest!: intWithin_bounds
      split: option.splits jsval.splits jsnum.splits if_splits)

lemma refill_keeps [simp]:
  "capacity (refill now b) = capacity b" "refillPerSecond (refill now b) = refillPerSecond b"
  "lastRefillMs (refill now b) = now"
  by (auto simp: refill_def Let_def)

lemma admit_keeps [simp]:
  "capacity (snd (admit c now b)) = capacity b" "refillPerSecond (snd (admit c now b)) = refillPerSecond b"
  "lastRefillMs (snd (admit c now b)) = now"
  by (auto simp: admit_def Let_def)

text \<open>How far the clock went forward, and what was granted, over a sequence of admission steps.\<close>

fun forwardMs :: "rat \<Rightarrow> rat list \<Rightarrow> rat" where
  "forwardMs t [] = 0"
| "forwardMs t (now # ns) = max 0 (now - t) + forwardMs now ns"

fun granted :: "(int \<times> rat) list \<Rightarrow> bucket \<Rightarrow> int" where
  "granted [] b = 0"
| "granted ((c, now) # cs) b = (if fst (admit c now b) then c else 0) + granted cs (snd (admit c now b))"

lemma refill_tokens:
  assumes "bucketInv b"
  shows "tokens b \<le> tokens (refill now b)"
    and "tokens (refill now b) \<le> tokens b + max 0 (now - lastRefillMs b) / 1000 * refillPerSecond b"
    and "bucketInv (refill now b)"
  using assms by (auto simp: refill_def Let_def bucketInv_def MAX_CAPACITY_def min_def)

lemma admit_spec:
  assumes "bucketInv b" "0 \<le> c"
  shows "bucketInv (snd (admit c now b))"
    and "of_int (if fst (admit c now b) then c else 0) + tokens (snd (admit c now b))
      \<le> tokens b + max 0 (now - lastRefillMs b) / 1000 * refillPerSecond b"
  using refill_tokens [OF assms(1), of now] assms(2)
  by (auto simp: admit_def Let_def bucketInv_def)

lemma granted_bound:
  assumes "bucketInv b" "\<And>p. p \<in> set cs \<Longrightarrow> 0 \<le> fst p"
  shows "of_int (granted cs b) + tokens (admitAll cs b)
      \<le> tokens b + forwardMs (lastRefillMs b) (map snd cs) / 1000 * refillPerSecond b
    \<and> bucketInv (admitAll cs b)"
  using assms
proof (induction cs arbitrary: b)
  case Nil
  then show ?case by (simp add: admitAll_def)
next
  case (Cons a cs)
  obtain c now where a: "a = (c, now)" by fastforce
  have c: "0 \<le> c" using Cons.prems(2) [of a] a by simp
  let ?b = "snd (admit c now b)"
  note ad = admit_spec [OF Cons.prems(1) c, of now]
  have ih: "of_int (granted cs ?b) + tokens (admitAll cs ?b)
      \<le> tokens ?b + forwardMs now (map snd cs) / 1000 * refillPerSecond b \<and> bucketInv (admitAll cs ?b)"
    using Cons.IH [OF ad(1)] Cons.prems(2) by simp
  have "max 0 (now - lastRefillMs b) / 1000 * refillPerSecond b + forwardMs now (map snd cs) / 1000 * refillPerSecond b
    = forwardMs (lastRefillMs b) (map snd (a # cs)) / 1000 * refillPerSecond b"
    by (simp add: a field_simps)
  moreover have "(of_int (granted (a # cs) b) :: rat)
      = of_int (if fst (admit c now b) then c else 0) + of_int (granted cs ?b)" by (simp add: a)
  moreover have "admitAll (a # cs) b = admitAll cs ?b" by (simp add: a admitAll_def)
  moreover from this have "tokens (admitAll (a # cs) b) = tokens (admitAll cs ?b)" by simp
  moreover note ih [THEN conjunct1] ad(2)
  ultimately have "of_int (granted (a # cs) b) + tokens (admitAll (a # cs) b)
      \<le> tokens b + forwardMs (lastRefillMs b) (map snd (a # cs)) / 1000 * refillPerSecond b" by linarith
  with ih \<open>admitAll (a # cs) b = admitAll cs ?b\<close> show ?case by simp
qed

subsection \<open>Properties\<close>

definition sampleBucket :: bucket where
  "sampleBucket = \<lparr>capacity = 2, refillPerSecond = 1, tokens = 2, lastRefillMs = 0\<rparr>"

lemma sampleBucket_inv: "bucketInv sampleBucket"
  by (simp add: sampleBucket_def bucketInv_def MAX_CAPACITY_def)

text \<open>C12: However \<open>acquire\<close> and \<open>tryAcquire\<close> calls interleave and whatever the clock does, the tokens
  granted since a moment are at most those in the bucket then plus the refill rate times how far the
  clock moved forward; from a new bucket that is the capacity plus the refill.  The bucket always
  holds between zero and its capacity.\<close>

theorem token_bucket_bound:
  assumes "createTokenBucketRateLimiter options start = Inr b0"
    and "\<And>p. p \<in> set cs \<Longrightarrow> 1 \<le> fst p"
  shows "of_int (granted cs b0)
      \<le> of_int (capacity b0) + forwardMs start (map snd cs) / 1000 * refillPerSecond b0
    \<and> 0 \<le> tokens (admitAll cs b0) \<and> tokens (admitAll cs b0) \<le> of_int (capacity b0)"
proof -
  have inv: "bucketInv b0" by (rule bucketInv_create [OF assms(1)])
  have b0: "lastRefillMs b0 = start" "tokens b0 = of_int (capacity b0)"
    using assms(1) by (auto simp: createTokenBucketRateLimiter_def res_iff split: option.splits)
  have "capacity (admitAll cs b) = capacity b" for b
    unfolding admitAll_def by (induction cs arbitrary: b) (auto split: prod.split)
  moreover have "0 \<le> fst p" if "p \<in> set cs" for p using assms(2) [OF that] by simp
  ultimately show ?thesis using granted_bound [OF inv, of cs] b0 by (fastforce simp: bucketInv_def)
qed

theorem token_bucket_bound_witness:
  "\<exists>b0. createTokenBucketRateLimiter (JObj ObjectProto [(''capacity'', Data (JNum (Fin 2))),
      (''refillPerSecond'', Data (JNum (Fin 1)))]) 0 = Inr b0
    \<and> of_int (granted [(1, 0), (2, 500), (1, 1000)] b0)
      \<le> of_int (capacity b0) + forwardMs 0 [0, 500, 1000] / 1000 * refillPerSecond b0"
proof -
  have c: "createTokenBucketRateLimiter (JObj ObjectProto [(''capacity'', Data (JNum (Fin 2))),
      (''refillPerSecond'', Data (JNum (Fin 1)))]) 0 = Inr sampleBucket"
    by (simp add: createTokenBucketRateLimiter_def objectProps_def assertCapacity_def intWithin_def
        assertRefillPerSecond_def sampleBucket_def MAX_CAPACITY_def)
  have "1 \<le> fst p" if "p \<in> set [(1, 0), (2, 500), (1, 1000)]" for p :: "int \<times> rat"
    using that by auto
  from token_bucket_bound [OF c this, of "[(1, 0), (2, 500), (1, 1000)]"] c show ?thesis
    by (intro exI [of _ sampleBucket] conjI) simp_all
qed

text \<open>A caller that is refused is asked to wait exactly as long as needed: when nobody else takes
  tokens and the clock runs forward, a second try is admitted if and only if the clock has reached the
  refused try's time plus the wait, for any cost that \<open>assertCost\<close> lets through.\<close>

theorem acquire_wait_is_exact:
  assumes "bucketInv b" and "assertCost cost b = Inr c" and "admit c now b = (False, b')" and "now \<le> later"
  shows "fst (admit c later b') \<longleftrightarrow> now + waitMs c b' \<le> later"
proof -
  have c: "1 \<le> c" "c \<le> capacity b"
    using assms(1,2) by (auto simp: assertCost_def bucketInv_def dest!: intWithin_bounds
        split: if_splits option.splits)
  have b': "b' = refill now b" and less: "tokens b' < of_int c"
    using assms(3) by (auto simp: admit_def Let_def split: if_splits)
  have r: "0 < refillPerSecond b'" "lastRefillMs b' = now" "capacity b' = capacity b"
    using assms(1) by (simp_all add: b' bucketInv_def)
  have w: "waitMs c b' = (of_int c - tokens b') / refillPerSecond b' * 1000"
    using less r(1) by (simp add: waitMs_def)
  have fill: "tokens (refill later b')
    = (if now < later then min (of_int (capacity b)) (tokens b' + (later - now) / 1000 * refillPerSecond b') else tokens b')"
    using assms(4) r by (auto simp: refill_def Let_def)
  have "of_int c \<le> tokens b' + (later - now) / 1000 * refillPerSecond b' \<longleftrightarrow> now + waitMs c b' \<le> later"
    unfolding w using r(1) by (simp add: field_simps)
  moreover have "0 < waitMs c b'" using less r(1) by (simp add: w)
  moreover have "fst (admit c later b') \<longleftrightarrow> of_int c \<le> tokens (refill later b')"
    by (simp add: admit_def Let_def)
  moreover have "(of_int c :: rat) \<le> of_int (capacity b)" using c by simp
  ultimately show ?thesis using fill less by (auto split: if_splits)
qed

theorem acquire_wait_is_exact_witness:
  "let b = snd (admit 2 0 sampleBucket); b' = snd (admit 2 500 b) in
     waitMs 2 b' = 1500 \<and> fst (admit 2 2000 b') \<and> \<not> fst (admit 2 1999 b')"
proof -
  let ?b = "snd (admit 2 0 sampleBucket)"
  let ?b' = "snd (admit 2 500 ?b)"
  have inv: "bucketInv ?b" by (rule admit_spec(1) [OF sampleBucket_inv]) simp
  have c: "assertCost (JNum (Fin (of_int 2))) ?b = Inr 2"
    unfolding assertCost_def intWithin_int by (simp add: sampleBucket_def)
  have r: "admit 2 500 ?b = (False, ?b')" "waitMs 2 ?b' = 1500"
    by (simp_all add: admit_def refill_def sampleBucket_def Let_def waitMs_def)
  show ?thesis
    using acquire_wait_is_exact [OF inv c r(1), of 2000] acquire_wait_is_exact [OF inv c r(1), of 1999] r(2)
    by (simp add: Let_def)
qed

text \<open>An \<open>acquire\<close> that is rejected, whether for its arguments, an abort or a failing sleep, takes
  no token: with nobody else on the bucket the tokens only grow.\<close>

theorem rejected_acquire_takes_nothing:
  assumes "bucketInv b" and "acquire cost signal rounds b = ((Rejected e, ws), b')"
    and "\<And>r. r \<in> set rounds \<Longrightarrow> round_others r = []"
  shows "tokens b \<le> tokens b' \<and> bucketInv b'"
proof -
  have loop: "tokens b \<le> tokens b' \<and> bucketInv b'"
    if "acquireLoop c sg rounds b = ((Rejected e, ws), b')" for c sg
    using that assms(1,3)
  proof (induction rounds arbitrary: b ws)
    case Nil
    then show ?case by simp
  next
    case (Cons r rs)
    have o: "round_others r = []" by (simp add: Cons.prems)
    show ?case
    proof (cases "sg \<and> round_aborted r")
      case True
      with Cons.prems show ?thesis by simp
    next
      case False
      obtain ok b1 where ad: "admit c (round_now r) b = (ok, b1)" by fastforce
      have "\<not> ok" using Cons.prems(1) False ad by (cases ok) auto
      then have b1: "b1 = refill (round_now r) b" using ad by (auto simp: admit_def Let_def split: if_splits)
      note up = refill_tokens(1,3) [OF Cons.prems(2), of "round_now r", folded b1]
      consider "b' = b1" | ws' where "acquireLoop c sg rs b1 = ((Rejected e, ws'), b')"
        using Cons.prems(1) False ad \<open>\<not> ok\<close> o
        by (auto simp: Let_def admitAll_def split: wake.splits prod.splits if_splits)
      then show ?thesis
      proof cases
        case 1
        with up show ?thesis by simp
      next
        case 2
        from Cons.IH [OF 2] up Cons.prems(3) have "tokens b1 \<le> tokens b' \<and> bucketInv b'" by simp
        with up show ?thesis by simp
      qed
    qed
  qed
  then show ?thesis using assms(1,2)
    by (auto simp: acquire_def split: sum.splits signal_arg.splits if_splits)
qed

theorem rejected_acquire_takes_nothing_witness:
  "\<exists>b'. acquire (JNum (Fin (of_int 2))) (ASignal False)
      [\<lparr>round_aborted = False, round_now = 500, round_others = [], round_wake = AbortWon\<rparr>]
      (sampleBucket\<lparr>tokens := 1\<rparr>) = ((Rejected LimiterAborted, [500]), b') \<and> 1 \<le> tokens b'"
proof -
  let ?r = "\<lparr>round_aborted = False, round_now = 500, round_others = [], round_wake = AbortWon\<rparr>"
  let ?b = "sampleBucket\<lparr>tokens := 1\<rparr>"
  have inv: "bucketInv ?b" using sampleBucket_inv by (simp add: bucketInv_def sampleBucket_def)
  have "assertCost (JNum (Fin (of_int 2))) ?b = Inr 2"
    unfolding assertCost_def intWithin_int by (simp add: sampleBucket_def)
  then have "\<exists>b'. acquire (JNum (Fin (of_int 2))) (ASignal False) [?r] ?b = ((Rejected LimiterAborted, [500]), b')"
    by (simp add: acquire_def admit_def refill_def sampleBucket_def Let_def waitMs_def)
  then obtain b' where a: "acquire (JNum (Fin (of_int 2))) (ASignal False) [?r] ?b = ((Rejected LimiterAborted, [500]), b')" ..
  from rejected_acquire_takes_nothing [OF inv a] have "tokens ?b \<le> tokens b'" by simp
  with a show ?thesis by auto
qed

end
