(* ===== verification/Reliable_Transport.thy ===== *)
theory Reliable_Transport
  imports Iso_Time
begin

section \<open>The retrying transport (packages/graph/src/reliableTransport.ts, transport.ts)\<close>

text \<open>
  \<open>createReliableTransport\<close> wraps a transport: it sends a request again when the retry policy says
  so, after a bounded delay, and lets a rate limiter admit every attempt.  What the code is given,
  the inner transport, the limiter, the signal, the hooks, the sleep, the clock and the random source,
  are functions of a host state \<open>'w\<close> in the \<open>transport_env\<close>.  A wait that the code races against the
  abort of the signal ends as the host says: with the wait's own result, or with the abort.
  The \<open>trace\<close> records what the transport did.  Numbers are exact rationals.
\<close>

subsection \<open>Data\<close>

datatype http_method = GET | POST | PUT | PATCH | DELETE

record request =
  req_method :: http_method
  req_url :: string
  req_headers :: "(string \<times> string) list"

record response =
  resp_status :: int
  resp_headers :: "(string \<times> string) list"
  resp_body :: nat

datatype graph_exn =
    GraphNetworkError string
  | OptionsError string
  | HostError string

datatype retry_post_mode = Never | NetworkOnly | Always

record retry_context =
  rc_attempt :: nat
  rc_request :: request
  rc_response :: "response option"
  rc_error :: "graph_exn option"

datatype attempt_signal = NoAttemptSignal | CallerSignal | TimeoutSignal rat | CallerOrTimeout rat

datatype abort_state = NotAborted | AbortedWithError graph_exn | AbortedOtherwise

datatype raced = Settled "graph_exn + unit" | AbortFirst

record retry_policy =
  retries :: nat
  baseDelayMs :: rat
  maxDelayMs :: rat
  timeoutMs :: "rat option"
  retryPosts :: retry_post_mode

record 'w transport_env =
  policy :: retry_policy
  inner_request :: "request \<Rightarrow> attempt_signal \<Rightarrow> 'w \<Rightarrow> (graph_exn + response) \<times> 'w"
  caller_signal :: "('w \<Rightarrow> abort_state) option"
  limiter_acquire :: "('w \<Rightarrow> raced \<times> 'w) option"
  custom_retryOn :: "(retry_context \<Rightarrow> 'w \<Rightarrow> (graph_exn + bool) \<times> 'w) option"
  onRetry_hook :: "(retry_context \<Rightarrow> rat \<Rightarrow> 'w \<Rightarrow> (graph_exn + unit) \<times> 'w) option"
  jitter_hook :: "(nat \<Rightarrow> rat \<Rightarrow> 'w \<Rightarrow> (graph_exn + jsval) \<times> 'w) option"
  random_source :: "'w \<Rightarrow> (graph_exn + jsval) \<times> 'w"
  sleep_hook :: "rat \<Rightarrow> 'w \<Rightarrow> raced \<times> 'w"
  date_now :: "'w \<Rightarrow> rat"
  date_parse :: "string \<Rightarrow> rat option"
  cancel_body :: "response \<Rightarrow> 'w \<Rightarrow> 'w"

datatype transport_event =
    AdmittedEv
  | SentEv nat "graph_exn + response"
  | BodyCancelledEv
  | SleptEv rat

record 'w transport_state =
  host :: 'w
  trace :: "transport_event list"

type_synonym ('w, 'a) tact = "('w transport_state, graph_exn, 'a) act"

subsection \<open>The policy\<close>

definition assertFiniteNumber :: "jsval \<Rightarrow> string \<Rightarrow> rat \<Rightarrow> graph_exn + rat" where
  "assertFiniteNumber v name lo = (case v of
     JNum (Fin r) \<Rightarrow> if r < lo then Inl (OptionsError name) else Inr r
   | _ \<Rightarrow> Inl (OptionsError name))"

definition assertNonNegativeInteger :: "jsval \<Rightarrow> string \<Rightarrow> graph_exn + nat" where
  "assertNonNegativeInteger v name = (case v of
     JNum x \<Rightarrow> (if isIntegerNum x then (case x of
         Fin r \<Rightarrow> if r < 0 then Inl (OptionsError name) else Inr (nat \<lfloor>r\<rfloor>)
       | _ \<Rightarrow> Inl (OptionsError name)) else Inl (OptionsError name))
   | _ \<Rightarrow> Inl (OptionsError name))"

text \<open>\<open>options?.k ?? d\<close>.\<close>

definition orElse :: "jsval \<Rightarrow> jsval \<Rightarrow> jsval" where
  "orElse v d = (if v \<in> {JUndef, JNull} then d else v)"

definition DEFAULT_TRANSPORT_RETRY_POLICY :: "jsval \<times> jsval \<times> jsval" where
  "DEFAULT_TRANSPORT_RETRY_POLICY = (JNum (Fin 3), JNum (Fin 200), JNum (Fin 30000))"

definition resolveRetryPostMode :: "jsval \<Rightarrow> graph_exn + retry_post_mode" where
  "resolveRetryPostMode v =
     (if v = JUndef \<or> v = JStr ''never'' then Inr Never
      else if v = JStr ''network-only'' then Inr NetworkOnly
      else if v = JStr ''always'' then Inr Always
      else Inl (OptionsError ''retryPosts''))"

definition optionalFn :: "jsval \<Rightarrow> string \<Rightarrow> graph_exn + unit" where
  "optionalFn v name = guardE (v = JUndef \<or> isFunction v) (OptionsError name)"

definition resolvePolicy :: "jsval \<Rightarrow> graph_exn + retry_policy" where
  "resolvePolicy opts = (case DEFAULT_TRANSPORT_RETRY_POLICY of (dr, db, dm) \<Rightarrow>
     bindE (assertNonNegativeInteger (orElse (optField opts ''retries'') dr) ''retries'') (\<lambda>n.
     bindE (assertFiniteNumber (orElse (optField opts ''baseDelayMs'') db) ''baseDelayMs'' 0) (\<lambda>base.
     bindE (assertFiniteNumber (orElse (optField opts ''maxDelayMs'') dm) ''maxDelayMs'' 1) (\<lambda>mx.
     bindE (guardE (base \<le> mx) (OptionsError ''baseDelayMs'')) (\<lambda>_.
     bindE (if optField opts ''timeoutMs'' = JUndef then Inr None
            else bindE (assertFiniteNumber (optField opts ''timeoutMs'') ''timeoutMs'' 1) (\<lambda>t. Inr (Some t))) (\<lambda>tm.
     bindE (optionalFn (optField opts ''jitter'') ''jitter'') (\<lambda>_.
     bindE (optionalFn (optField opts ''retryOn'') ''retryOn'') (\<lambda>_.
     bindE (optionalFn (optField opts ''onRetry'') ''onRetry'') (\<lambda>_.
     bindE (optionalFn (optField opts ''sleep'') ''sleep'') (\<lambda>_.
     bindE (optionalFn (optField opts ''random'') ''random'') (\<lambda>_.
     bindE (resolveRetryPostMode (optField opts ''retryPosts'')) (\<lambda>mode.
     bindE (let rl = optField opts ''rateLimiter'' in
            if rl = JUndef then Inr ()
            else guardE (objectProps rl \<noteq> None \<and> isFunction (optField rl ''acquire'')
                   \<and> isFunction (optField rl ''tryAcquire'')) (OptionsError ''rateLimiter'')) (\<lambda>_.
     Inr \<lparr>retries = n, baseDelayMs = base, maxDelayMs = mx, timeoutMs = tm, retryPosts = mode\<rparr>)))))))))))))"

subsection \<open>Which failures are retried\<close>

definition isRetryableMethod :: "http_method \<Rightarrow> bool" where
  "isRetryableMethod m = (m = GET \<or> m = DELETE)"

text \<open>\<open>Headers\<close> compares names without regard to case.\<close>

definition headersHas :: "(string \<times> string) list \<Rightarrow> string \<Rightarrow> bool" where
  "headersHas hs name = list_ex (\<lambda>(k, _). js_lower k = name) hs"

fun joinWith :: "string \<Rightarrow> string list \<Rightarrow> string" where
  "joinWith sep [] = []"
| "joinWith sep [x] = x"
| "joinWith sep (x # y # xs) = x @ sep @ joinWith sep (y # xs)"

definition headersGet :: "(string \<times> string) list \<Rightarrow> string \<Rightarrow> string option" where
  "headersGet hs name = (case map snd (filter (\<lambda>(k, _). js_lower k = name) hs) of
     [] \<Rightarrow> None | vs \<Rightarrow> Some (joinWith '', '' vs))"

definition hasIdempotencyKey :: "request \<Rightarrow> bool" where
  "hasIdempotencyKey req = headersHas (req_headers req) ''idempotency-key''"

definition isNetworkError :: "graph_exn \<Rightarrow> bool" where
  "isNetworkError e = (case e of GraphNetworkError _ \<Rightarrow> True | _ \<Rightarrow> False)"

definition is5xx :: "retry_context \<Rightarrow> bool" where
  "is5xx ctx = (case rc_response ctx of None \<Rightarrow> False | Some r \<Rightarrow> 500 \<le> resp_status r \<and> resp_status r < 600)"

definition makeDefaultRetryOn :: "retry_post_mode \<Rightarrow> retry_context \<Rightarrow> bool" where
  "makeDefaultRetryOn mode ctx =
     (let m = req_method (rc_request ctx) in
      if map_option resp_status (rc_response ctx) = Some 429 then True
      else if (case rc_error ctx of None \<Rightarrow> False | Some e \<Rightarrow> isNetworkError e) then
        (if isRetryableMethod m then True
         else if m = POST \<and> mode \<noteq> Never then hasIdempotencyKey (rc_request ctx)
         else False)
      else if isRetryableMethod m then is5xx ctx
      else if m = POST \<and> mode = Always then is5xx ctx
      else False)"

subsection \<open>The delay\<close>

definition allDigits :: "string \<Rightarrow> bool" where
  "allDigits s = (s \<noteq> [] \<and> list_all is_digit s)"

text \<open>The decimal strings, digits with an optional fraction, and their value.\<close>

definition decimalValue :: "string \<Rightarrow> rat option" where
  "decimalValue s = (case js_split (CHR ''.'') s of
     [a] \<Rightarrow> if allDigits a then Some (of_int (num a)) else None
   | [a, b] \<Rightarrow> if allDigits a \<and> allDigits b
       then Some (of_int (num a) + of_int (num b) / 10 ^ length b) else None
   | _ \<Rightarrow> None)"

text \<open>\<open>Number(s)\<close> of such a string is finite below the double that rounds to infinity.\<close>

definition infiniteFrom :: rat where
  "infiniteFrom = 2 ^ 1024 - 2 ^ 970"

definition parseRetryAfterMs :: "(string \<Rightarrow> rat option) \<Rightarrow> string option \<Rightarrow> rat \<Rightarrow> rat option" where
  "parseRetryAfterMs parseDate header nowMs = (case header of
     None \<Rightarrow> None
   | Some h \<Rightarrow>
       let trimmed = js_trim h;
           dateDelay = (if js_prefix ''-'' trimmed then None
             else (case parseDate trimmed of None \<Rightarrow> None | Some d \<Rightarrow> Some (max 0 (d - nowMs))))
       in if trimmed = [] then None
       else (case decimalValue trimmed of
           Some v \<Rightarrow> if v < infiniteFrom then Some (v * 1000) else dateDelay
         | None \<Rightarrow> dateDelay))"

definition hostCall :: "('w \<Rightarrow> (graph_exn + 'a) \<times> 'w) \<Rightarrow> ('w, 'a) tact" where
  "hostCall f s = (case f (host s) of (r, w) \<Rightarrow> (r, s\<lparr>host := w\<rparr>))"

definition boundedDelayMs :: "'w transport_env \<Rightarrow> nat \<Rightarrow> response option \<Rightarrow> ('w, rat) tact" where
  "boundedDelayMs env attempt resp =
     bindA (getA (\<lambda>s. parseRetryAfterMs (date_parse env)
        (case resp of None \<Rightarrow> None | Some r \<Rightarrow> headersGet (resp_headers r) ''retry-after'') (date_now env (host s))))
     (\<lambda>retryAfter. case retryAfter of
        Some d \<Rightarrow> retA (min d (maxDelayMs (policy env)))
      | None \<Rightarrow>
         let exponential = min (baseDelayMs (policy env) * 2 ^ (attempt - 1)) (maxDelayMs (policy env)) in
         (case jitter_hook env of
            Some jit \<Rightarrow> bindA (hostCall (jit attempt (baseDelayMs (policy env)))) (\<lambda>v.
              bindA (liftA (assertFiniteNumber v ''jitter result'' 0)) (\<lambda>d.
              retA (min d (maxDelayMs (policy env)))))
          | None \<Rightarrow> bindA (hostCall (random_source env)) (\<lambda>v.
              (case v of
                 JNum (Fin r) \<Rightarrow> if r < 0 \<or> 1 < r then failA (OptionsError ''random'')
                   else retA (of_int \<lfloor>exponential * r\<rfloor>)
               | _ \<Rightarrow> failA (OptionsError ''random'')))))"

subsection \<open>Signals and waits\<close>

definition composeSignal :: "bool \<Rightarrow> rat option \<Rightarrow> attempt_signal" where
  "composeSignal caller timeout = (case timeout of
     None \<Rightarrow> if caller then CallerSignal else NoAttemptSignal
   | Some t \<Rightarrow> if caller then CallerOrTimeout t else TimeoutSignal t)"

definition signalState :: "'w transport_env \<Rightarrow> 'w transport_state \<Rightarrow> abort_state" where
  "signalState env s = (case caller_signal env of None \<Rightarrow> NotAborted | Some sig \<Rightarrow> sig (host s))"

definition abortExn :: "abort_state \<Rightarrow> graph_exn" where
  "abortExn a = (case a of AbortedWithError e \<Rightarrow> e
     | _ \<Rightarrow> GraphNetworkError ''Transport request aborted by caller.'')"

definition throwIfAborted :: "'w transport_env \<Rightarrow> ('w, unit) tact" where
  "throwIfAborted env = bindA (getA (signalState env)) (\<lambda>a.
     if a = NotAborted then retA () else failA (abortExn a))"

definition noteEv :: "transport_event \<Rightarrow> ('w, unit) tact" where
  "noteEv ev s = (Inr (), s\<lparr>trace := trace s @ [ev]\<rparr>)"

definition raceAbort :: "'w transport_env \<Rightarrow> ('w \<Rightarrow> raced \<times> 'w) \<Rightarrow> ('w, unit) tact" where
  "raceAbort env wait s = (case wait (host s) of (r, w) \<Rightarrow> (let s' = s\<lparr>host := w\<rparr> in
     (case r of
        Settled x \<Rightarrow> (x, s')
      | AbortFirst \<Rightarrow> (Inl (abortExn (signalState env s')), s'))))"

text \<open>Without a signal the wait is not raced.\<close>

definition plainWait :: "('w \<Rightarrow> raced \<times> 'w) \<Rightarrow> ('w, unit) tact" where
  "plainWait wait s = (case wait (host s) of (r, w) \<Rightarrow>
     ((case r of Settled x \<Rightarrow> x | AbortFirst \<Rightarrow> Inr ()), s\<lparr>host := w\<rparr>))"

definition sleepWithAbort :: "'w transport_env \<Rightarrow> rat \<Rightarrow> ('w, unit) tact" where
  "sleepWithAbort env d =
     (if caller_signal env = None then bindA (noteEv (SleptEv d)) (\<lambda>_. plainWait (sleep_hook env d))
      else bindA (throwIfAborted env) (\<lambda>_. bindA (noteEv (SleptEv d)) (\<lambda>_. raceAbort env (sleep_hook env d))))"

definition acquireWithAbort :: "'w transport_env \<Rightarrow> ('w \<Rightarrow> raced \<times> 'w) \<Rightarrow> ('w, unit) tact" where
  "acquireWithAbort env acq = raceAbort env acq"

definition admission :: "'w transport_env \<Rightarrow> ('w, unit) tact" where
  "admission env = (case limiter_acquire env of
     None \<Rightarrow> retA ()
   | Some acq \<Rightarrow> bindA (if caller_signal env \<noteq> None then acquireWithAbort env acq else plainWait acq)
       (\<lambda>_. noteEv AdmittedEv))"

definition cancelRetryResponseBody :: "'w transport_env \<Rightarrow> response \<Rightarrow> ('w, unit) tact" where
  "cancelRetryResponseBody env r =
     bindA (noteEv BodyCancelledEv) (\<lambda>_. hostCall (\<lambda>w. (Inr (), cancel_body env r w)))"

subsection \<open>An attempt, and the loop\<close>

definition callRetryOn :: "'w transport_env \<Rightarrow> retry_context \<Rightarrow> ('w, bool) tact" where
  "callRetryOn env ctx = (case custom_retryOn env of
     None \<Rightarrow> retA (makeDefaultRetryOn (retryPosts (policy env)) ctx)
   | Some f \<Rightarrow> hostCall (f ctx))"

definition callOnRetry :: "'w transport_env \<Rightarrow> retry_context \<Rightarrow> rat \<Rightarrow> ('w, unit) tact" where
  "callOnRetry env ctx d = (case onRetry_hook env of None \<Rightarrow> retA () | Some f \<Rightarrow> hostCall (f ctx d))"

definition send :: "'w transport_env \<Rightarrow> request \<Rightarrow> nat \<Rightarrow> ('w, response) tact" where
  "send env req attempt s =
     (case inner_request env req (composeSignal (caller_signal env \<noteq> None) (timeoutMs (policy env))) (host s) of
        (r, w) \<Rightarrow> (r, s\<lparr>host := w, trace := trace s @ [SentEv attempt r]\<rparr>))"

definition backoff :: "'w transport_env \<Rightarrow> nat \<Rightarrow> response option \<Rightarrow> retry_context \<Rightarrow> ('w, unit) tact" where
  "backoff env attempt resp ctx =
     bindA (throwIfAborted env) (\<lambda>_.
     bindA (boundedDelayMs env attempt resp) (\<lambda>d.
     bindA (callOnRetry env ctx d) (\<lambda>_.
     sleepWithAbort env d)))"

datatype attempt_result = ReturnResponse response | TryAgain

definition afterResponse :: "'w transport_env \<Rightarrow> request \<Rightarrow> nat \<Rightarrow> response \<Rightarrow> ('w, attempt_result) tact" where
  "afterResponse env req attempt resp =
     (let ctx = \<lparr>rc_attempt = attempt, rc_request = req, rc_response = Some resp, rc_error = None\<rparr> in
      bindA (callRetryOn env ctx) (\<lambda>shouldRetry.
      if \<not> shouldRetry \<or> retries (policy env) < attempt then retA (ReturnResponse resp)
      else bindA (cancelRetryResponseBody env resp) (\<lambda>_.
           bindA (backoff env attempt (Some resp) ctx) (\<lambda>_. retA TryAgain))))"

definition afterError :: "'w transport_env \<Rightarrow> request \<Rightarrow> nat \<Rightarrow> graph_exn \<Rightarrow> ('w, attempt_result) tact" where
  "afterError env req attempt err =
     bindA (getA (signalState env)) (\<lambda>a.
     if a \<noteq> NotAborted then failA err
     else
      (let ctx = \<lparr>rc_attempt = attempt, rc_request = req, rc_response = None, rc_error = Some err\<rparr> in
       bindA (callRetryOn env ctx) (\<lambda>shouldRetry.
       if \<not> shouldRetry \<or> retries (policy env) < attempt then failA err
       else bindA (backoff env attempt None ctx) (\<lambda>_. retA TryAgain))))"

definition attemptOnce :: "'w transport_env \<Rightarrow> request \<Rightarrow> nat \<Rightarrow> ('w, attempt_result) tact" where
  "attemptOnce env req attempt =
     bindA (throwIfAborted env) (\<lambda>_.
     bindA (admission env) (\<lambda>_.
     bindA (throwIfAborted env) (\<lambda>_.
     tryA (bindA (send env req attempt) (afterResponse env req attempt)) (afterError env req attempt))))"

text \<open>Another attempt is made only while attempts are left: the loop terminates.\<close>

lemma tryAgain_bound:
  assumes "attemptOnce env req attempt s = (Inr TryAgain, s')"
  shows "attempt \<le> retries (policy env)"
proof (rule ccontr)
  assume "\<not> attempt \<le> retries (policy env)"
  then have gt: "retries (policy env) < attempt" by simp
  have r: "afterResponse env req attempt resp t \<noteq> (Inr TryAgain, t')" for resp t t'
    using gt by (auto simp: afterResponse_def bindA_def Let_def split: prod.splits sum.splits)
  have e: "afterError env req attempt err t \<noteq> (Inr TryAgain, t')" for err t t'
    using gt by (auto simp: afterError_def bindA_def Let_def split: prod.splits sum.splits)
  from assms show False
    by (auto simp: attemptOnce_def bindA_def tryA_def r e split: prod.splits sum.splits)
qed

function requestLoop :: "'w transport_env \<Rightarrow> request \<Rightarrow> nat \<Rightarrow> ('w, response) tact" where
  "requestLoop env req attempt s = (case attemptOnce env req (Suc attempt) s of
     (Inl e, s') \<Rightarrow> (Inl e, s')
   | (Inr (ReturnResponse r), s') \<Rightarrow> (Inr r, s')
   | (Inr TryAgain, s') \<Rightarrow> requestLoop env req (Suc attempt) s')"
  by pat_completeness auto

termination
  by (relation "measure (\<lambda>(env, req, attempt, s). Suc (retries (policy env)) - attempt)")
    (auto dest!: tryAgain_bound [OF sym])

text \<open>\<open>request\<close> of the wrapped transport: the options are resolved on every call.\<close>

definition createReliableTransport :: "jsval \<Rightarrow> jsval \<Rightarrow> 'w transport_env \<Rightarrow> graph_exn + (request \<Rightarrow> ('w, response) tact)" where
  "createReliableTransport inner opts env =
     (if objectProps inner = None \<or> \<not> isFunction (optField inner ''request'') then Inl (OptionsError ''inner'')
      else Inr (\<lambda>req. bindA (liftA (resolvePolicy opts)) (\<lambda>p. requestLoop (env\<lparr>policy := p\<rparr>) req 0)))"

subsection \<open>What an action adds to the trace\<close>

definition emits :: "(transport_event \<Rightarrow> bool) \<Rightarrow> ('w, 'a) tact \<Rightarrow> bool" where
  "emits E m \<longleftrightarrow> (\<forall>s r s'. m s = (r, s') \<longrightarrow> (\<exists>new. trace s' = trace s @ new \<and> (\<forall>e \<in> set new. E e)))"

named_theorems emit_rules \<open>rules for the events of an action\<close>

lemma emitsD: "emits E m \<Longrightarrow> m s = (r, s') \<Longrightarrow> \<exists>new. trace s' = trace s @ new \<and> (\<forall>e \<in> set new. E e)"
  by (auto simp: emits_def)

lemma emits_basic [emit_rules]:
  "emits E (retA a)" "emits E (failA e)" "emits E (liftA x)" "emits E (getA f)" "emits E (hostCall h)"
  "emits E (plainWait w)" "emits E (raceAbort env w)" "E ev \<Longrightarrow> emits E (noteEv ev)"
  by (auto simp: emits_def hostCall_def plainWait_def raceAbort_def noteEv_def Let_def
      split: prod.splits raced.splits)

lemma emits_bindA_result:
  assumes "emits E m" and "\<And>s a s'. m s = (Inr a, s') \<Longrightarrow> emits E (f a)"
  shows "emits E (bindA m f)"
proof -
  have "\<exists>new. trace s' = trace s @ new \<and> (\<forall>e \<in> set new. E e)" if b: "bindA m f s = (r, s')" for s r s'
  proof (cases "m s")
    case (Pair x t)
    from emitsD [OF assms(1) Pair] obtain n1 where n1: "trace t = trace s @ n1" "\<forall>e \<in> set n1. E e" by blast
    show ?thesis
    proof (cases x)
      case (Inl e)
      with b Pair n1 show ?thesis by (auto simp: bindA_def)
    next
      case (Inr a)
      with b Pair have "f a t = (r, s')" by (simp add: bindA_def)
      from emitsD [OF assms(2) this] Pair Inr obtain n2 where
        "trace s' = trace t @ n2" "\<forall>e \<in> set n2. E e" by blast
      with n1 show ?thesis by (intro exI [of _ "n1 @ n2"]) auto
    qed
  qed
  then show ?thesis by (auto simp: emits_def)
qed

lemma emits_bindA [emit_rules]: "emits E m \<Longrightarrow> (\<And>a. emits E (f a)) \<Longrightarrow> emits E (bindA m f)"
  by (rule emits_bindA_result)

lemma emits_if [emit_rules]: "emits E m \<Longrightarrow> emits E n \<Longrightarrow> emits E (if b then m else n)"
  by simp

subsection \<open>The waits are bounded\<close>

definition policyOk :: "retry_policy \<Rightarrow> bool" where
  "policyOk p \<longleftrightarrow> 0 \<le> baseDelayMs p \<and> baseDelayMs p \<le> maxDelayMs p \<and> 1 \<le> maxDelayMs p"

lemma assertFiniteNumber_Inr: "assertFiniteNumber v n lo = Inr r \<Longrightarrow> lo \<le> r"
  by (auto simp: assertFiniteNumber_def split: jsval.splits jsnum.splits if_splits)

lemma policyOk_resolve: "resolvePolicy opts = Inr p \<Longrightarrow> policyOk p"
  by (auto simp: resolvePolicy_def res_iff policyOk_def dest!: assertFiniteNumber_Inr split: prod.splits)

lemma num_nonneg: "list_all is_digit s \<Longrightarrow> 0 \<le> a \<Longrightarrow> 0 \<le> num_from a s"
  by (induction s arbitrary: a) (auto simp: is_digit_def)

lemma decimalValue_nonneg: "decimalValue s = Some v \<Longrightarrow> 0 \<le> v"
  by (auto simp: decimalValue_def allDigits_def num_def num_nonneg split: list.splits if_splits)

lemma parseRetryAfterMs_nonneg: "parseRetryAfterMs pd h now = Some d \<Longrightarrow> 0 \<le> d"
  by (auto simp: parseRetryAfterMs_def Let_def dest!: decimalValue_nonneg
      split: option.splits if_splits)

lemma boundedDelayMs_bounds:
  assumes "policyOk (policy env)" and "boundedDelayMs env attempt resp s = (Inr d, s')"
  shows "0 \<le> d \<and> d \<le> maxDelayMs (policy env)"
proof -
  let ?e = "min (baseDelayMs (policy env) * 2 ^ (attempt - 1)) (maxDelayMs (policy env))"
  have e: "0 \<le> ?e" "?e \<le> maxDelayMs (policy env)" "0 \<le> maxDelayMs (policy env)"
    using assms(1) by (auto simp: policyOk_def)
  have fl: "0 \<le> \<lfloor>x * r\<rfloor> \<and> of_int \<lfloor>x * r\<rfloor> \<le> m"
    if "0 \<le> r" "r \<le> 1" "0 \<le> x" "x \<le> m" for x r m :: rat
  proof -
    have "x * r \<le> x" using mult_left_mono [OF that(2,3)] by simp
    then have "of_int \<lfloor>x * r\<rfloor> \<le> m" using of_int_floor_le [of "x * r"] that(4) by linarith
    then show ?thesis using that by simp
  qed
  show ?thesis
  proof (cases "parseRetryAfterMs (date_parse env)
      (case resp of None \<Rightarrow> None | Some r \<Rightarrow> headersGet (resp_headers r) ''retry-after'') (date_now env (host s))")
    case (Some ra)
    with assms(2) parseRetryAfterMs_nonneg [OF Some] e show ?thesis by (auto simp: boundedDelayMs_def bindA_def)
  next
    case None
    show ?thesis
    proof (cases "jitter_hook env")
      case j: (Some jit)
      with None assms(2) e(3) show ?thesis
        by (auto simp: boundedDelayMs_def bindA_def hostCall_def Let_def dest!: assertFiniteNumber_Inr
            split: prod.splits sum.splits)
    next
      case j: None
      from None assms(2) obtain r where "d = of_int \<lfloor>?e * r\<rfloor>" "0 \<le> r" "r \<le> 1"
        by (auto simp: boundedDelayMs_def bindA_def hostCall_def Let_def j
            split: prod.splits sum.splits jsval.splits jsnum.splits if_splits)
      with fl [OF _ _ e(1,2)] show ?thesis by simp
    qed
  qed
qed

text \<open>Everything but a send: admissions, cancelled bodies, and sleeps within the policy.\<close>

definition quiet :: "'w transport_env \<Rightarrow> transport_event \<Rightarrow> bool" where
  "quiet env ev = (case ev of
     SentEv _ _ \<Rightarrow> False
   | SleptEv d \<Rightarrow> 0 \<le> d \<and> d \<le> maxDelayMs (policy env)
   | _ \<Rightarrow> True)"

lemma quiet_simps [simp]: "quiet env AdmittedEv" "quiet env BodyCancelledEv" "\<not> quiet env (SentEv k o')"
  "quiet env (SleptEv d) \<longleftrightarrow> 0 \<le> d \<and> d \<le> maxDelayMs (policy env)"
  by (simp_all add: quiet_def)

lemma emits_throwIfAborted [emit_rules]: "emits E (throwIfAborted env)"
  unfolding throwIfAborted_def by (intro emit_rules)

lemma emits_boundedDelayMs: "emits E (boundedDelayMs env k resp)"
  unfolding boundedDelayMs_def Let_def
  by (intro emit_rules) (auto intro!: emit_rules split: option.split jsval.split jsnum.split)

lemma emits_callbacks [emit_rules]: "emits E (callRetryOn env ctx)" "emits E (callOnRetry env ctx d)"
  by (auto simp: callRetryOn_def callOnRetry_def intro!: emit_rules split: option.split)

lemma emits_admission: "emits (quiet env) (admission env)"
  unfolding admission_def acquireWithAbort_def by (auto intro!: emit_rules split: option.split)

lemma emits_sleep: "0 \<le> d \<Longrightarrow> d \<le> maxDelayMs (policy env) \<Longrightarrow> emits (quiet env) (sleepWithAbort env d)"
  unfolding sleepWithAbort_def by (intro emit_rules) simp_all

lemma emits_backoff:
  assumes "policyOk (policy env)"
  shows "emits (quiet env) (backoff env k resp ctx)"
  unfolding backoff_def
proof (rule emits_bindA [OF emits_throwIfAborted], rule emits_bindA_result [OF emits_boundedDelayMs])
  fix s d s'
  assume "boundedDelayMs env k resp s = (Inr d, s')"
  from boundedDelayMs_bounds [OF assms this]
  show "emits (quiet env) (bindA (callOnRetry env ctx d) (\<lambda>_. sleepWithAbort env d))"
    by (intro emit_rules emits_sleep) simp_all
qed

lemma emits_after:
  assumes "policyOk (policy env)"
  shows "emits (quiet env) (afterResponse env req k resp)" "emits (quiet env) (afterError env req k err)"
  unfolding afterResponse_def afterError_def cancelRetryResponseBody_def Let_def
  by (intro emit_rules emits_backoff [OF assms]; simp)+

subsection \<open>The events of one attempt\<close>

definition contextOf :: "request \<Rightarrow> nat \<Rightarrow> graph_exn + response \<Rightarrow> retry_context" where
  "contextOf req k out = \<lparr>rc_attempt = k, rc_request = req,
     rc_response = (case out of Inl _ \<Rightarrow> None | Inr r \<Rightarrow> Some r),
     rc_error = (case out of Inl e \<Rightarrow> Some e | Inr _ \<Rightarrow> None)\<rparr>"

text \<open>Under the default rule, the outcomes after which another attempt is made.\<close>

definition mayRetry :: "'w transport_env \<Rightarrow> request \<Rightarrow> nat \<Rightarrow> graph_exn + response \<Rightarrow> bool" where
  "mayRetry env req k out \<longleftrightarrow> (custom_retryOn env = None \<longrightarrow>
     makeDefaultRetryOn (retryPosts (policy env)) (contextOf req k out))"

lemma afterResponse_results:
  assumes "afterResponse env req k resp s = (r, s')"
  shows "r = Inr (ReturnResponse resp') \<Longrightarrow> resp' = resp"
    and "\<not> mayRetry env req k (Inr resp) \<Longrightarrow> r = Inr (ReturnResponse resp) \<and> s' = s"
  using assms
  by (auto simp: afterResponse_def mayRetry_def contextOf_def callRetryOn_def Let_def bindA_def
      split: prod.splits sum.splits if_splits option.splits)

lemma afterError_results:
  assumes "afterError env req k err s = (r, s')"
  shows "r \<noteq> Inr (ReturnResponse resp)"
    and "\<not> mayRetry env req k (Inl err) \<Longrightarrow> r = Inl err"
  using assms
  by (auto simp: afterError_def mayRetry_def contextOf_def callRetryOn_def Let_def bindA_def
      split: prod.splits sum.splits if_splits option.splits)

definition sendsOf :: "transport_event list \<Rightarrow> (nat \<times> (graph_exn + response)) list" where
  "sendsOf es = concat (map (\<lambda>e. case e of SentEv k out \<Rightarrow> [(k, out)] | _ \<Rightarrow> []) es)"

definition admissionsOf :: "transport_event list \<Rightarrow> nat" where
  "admissionsOf es = length (filter (\<lambda>e. e = AdmittedEv) es)"

lemma sendsOf_simps [simp]: "sendsOf [] = []" "sendsOf (xs @ ys) = sendsOf xs @ sendsOf ys"
  "sendsOf (SentEv k out # es) = (k, out) # sendsOf es"
  by (simp_all add: sendsOf_def)

lemma sendsOf_skip: "quiet env e \<Longrightarrow> sendsOf (e # es) = sendsOf es"
  by (cases e) (simp_all add: sendsOf_def)

lemma sendsOf_quiet [simp]: "(\<And>e. e \<in> set es \<Longrightarrow> quiet env e) \<Longrightarrow> sendsOf es = []"
  by (induction es) (simp_all add: sendsOf_skip [of env])

lemma admissionsOf_simps [simp]: "admissionsOf [] = 0" "admissionsOf (xs @ ys) = admissionsOf xs + admissionsOf ys"
  "admissionsOf (SentEv k out # es) = admissionsOf es"
  by (simp_all add: admissionsOf_def)

lemma admission_admits:
  assumes "admission env s = (Inr u, s')" "limiter_acquire env \<noteq> None"
  shows "\<exists>new. trace s' = trace s @ new @ [AdmittedEv]"
proof -
  from assms obtain acq where acq: "limiter_acquire env = Some acq" by blast
  obtain x t where e: "(if caller_signal env \<noteq> None then acquireWithAbort env acq else plainWait acq) s = (x, t)"
    by fastforce
  have "emits (\<lambda>_. True) (if caller_signal env \<noteq> None then acquireWithAbort env acq else plainWait acq)"
    unfolding acquireWithAbort_def by (intro emit_rules)
  from emitsD [OF this e] obtain new where "trace t = trace s @ new" by blast
  with assms(1) acq e show ?thesis
    by (auto simp: admission_def bindA_def noteEv_def split: sum.splits)
qed

text \<open>An attempt either fails before it sends, or sends once.\<close>

definition attemptShape ::
  "'w transport_env \<Rightarrow> request \<Rightarrow> nat \<Rightarrow> graph_exn + attempt_result \<Rightarrow> transport_event list \<Rightarrow> bool" where
  "attemptShape env req k r new \<longleftrightarrow>
     (\<exists>e. r = Inl e) \<and> (\<forall>ev \<in> set new. quiet env ev)
   \<or> (\<exists>pre out post. new = pre @ SentEv k out # post
       \<and> (\<forall>ev \<in> set pre. quiet env ev) \<and> (\<forall>ev \<in> set post. quiet env ev)
       \<and> (limiter_acquire env \<noteq> None \<longrightarrow> 1 \<le> admissionsOf pre)
       \<and> (\<forall>resp. r = Inr (ReturnResponse resp) \<longrightarrow> out = Inr resp)
       \<and> (r = Inr TryAgain \<longrightarrow> mayRetry env req k out \<and> k \<le> retries (policy env)))"

lemma sendPhase_shape:
  assumes ok: "policyOk (policy env)"
    and run: "tryA (bindA (send env req k) (afterResponse env req k)) (afterError env req k) s = (r, s')"
  shows "\<exists>out post. trace s' = trace s @ SentEv k out # post \<and> (\<forall>ev \<in> set post. quiet env ev)
    \<and> (\<forall>resp. r = Inr (ReturnResponse resp) \<longrightarrow> out = Inr resp)
    \<and> (r = Inr TryAgain \<longrightarrow> mayRetry env req k out)"
proof -
  obtain out t where snd: "send env req k s = (out, t)" by fastforce
  then have t: "trace t = trace s @ [SentEv k out]" by (auto simp: send_def split: prod.splits)
  show ?thesis
  proof (cases out)
    case (Inl err)
    with run snd have "afterError env req k err t = (r, s')" by (simp add: tryA_def bindA_def)
    with emitsD [OF emits_after(2) [OF ok] this] afterError_results [OF this] t Inl show ?thesis
      by (auto intro!: exI [of _ out])
  next
    case (Inr resp)
    obtain x t2 where ar: "afterResponse env req k resp t = (x, t2)" by fastforce
    from emitsD [OF emits_after(1) [OF ok] ar] obtain p1 where
      p1: "trace t2 = trace t @ p1" "\<forall>ev \<in> set p1. quiet env ev" by blast
    show ?thesis
    proof (cases x)
      case (Inr a)
      with run snd ar \<open>out = Inr resp\<close> have "r = Inr a" "s' = t2" by (simp_all add: tryA_def bindA_def)
      with p1 t Inr afterResponse_results [OF ar] \<open>out = Inr resp\<close> show ?thesis
        by (auto intro!: exI [of _ out] exI [of _ p1])
    next
      case (Inl err)
      with run snd ar \<open>out = Inr resp\<close> have ae: "afterError env req k err t2 = (r, s')"
        by (simp add: tryA_def bindA_def)
      from emitsD [OF emits_after(2) [OF ok] ae] obtain p2 where
        "trace s' = trace t2 @ p2" "\<forall>ev \<in> set p2. quiet env ev" by blast
      moreover have "mayRetry env req k out"
        using afterResponse_results(2) [OF ar] Inl \<open>out = Inr resp\<close> by auto
      ultimately show ?thesis using p1 t afterError_results(1) [OF ae]
        by (intro exI [of _ out] exI [of _ "p1 @ p2"]) auto
    qed
  qed
qed

lemma attemptOnce_shape:
  assumes ok: "policyOk (policy env)" and run: "attemptOnce env req k s = (r, s')"
  shows "\<exists>new. trace s' = trace s @ new \<and> attemptShape env req k r new"
proof -
  let ?abort = "throwIfAborted env"
  let ?body = "tryA (bindA (send env req k) (afterResponse env req k)) (afterError env req k)"
  obtain x1 s1 where r1: "?abort s = (x1, s1)" by fastforce
  obtain x2 s2 where r2: "admission env s1 = (x2, s2)" by fastforce
  obtain x3 s3 where r3: "?abort s2 = (x3, s3)" by fastforce
  from emitsD [OF emits_throwIfAborted r1] obtain n1 where
    n1: "trace s1 = trace s @ n1" "\<forall>ev \<in> set n1. quiet env ev" by blast
  from emitsD [OF emits_admission r2] obtain n2 where
    n2: "trace s2 = trace s1 @ n2" "\<forall>ev \<in> set n2. quiet env ev" by blast
  from emitsD [OF emits_throwIfAborted r3] obtain n3 where
    n3: "trace s3 = trace s2 @ n3" "\<forall>ev \<in> set n3. quiet env ev" by blast
  consider (early) e where "r = Inl e" "s' = s1" | (refused) e where "r = Inl e" "s' = s2"
    | (aborted) e where "r = Inl e" "s' = s3"
    | (sent) u where "x2 = Inr u" "?body s3 = (r, s')"
    using run r1 r2 r3 by (auto simp: attemptOnce_def bindA_def split: sum.splits)
  then show ?thesis
  proof cases
    case early
    with n1 show ?thesis by (auto simp: attemptShape_def)
  next
    case refused
    with n1 n2 show ?thesis by (auto simp: attemptShape_def)
  next
    case aborted
    with n1 n2 n3 show ?thesis by (auto simp: attemptShape_def)
  next
    case sent
    from sendPhase_shape [OF ok sent(2)] obtain out post where
      p: "trace s' = trace s3 @ SentEv k out # post" "\<forall>ev \<in> set post. quiet env ev"
        "\<forall>resp. r = Inr (ReturnResponse resp) \<longrightarrow> out = Inr resp"
        "r = Inr TryAgain \<longrightarrow> mayRetry env req k out" by blast
    have "1 \<le> admissionsOf (n1 @ n2 @ n3)" if "limiter_acquire env \<noteq> None"
      using admission_admits [of env s1 u s2] r2 sent(1) that n2(1) by (auto simp: admissionsOf_def)
    moreover have "k \<le> retries (policy env)" if "r = Inr TryAgain"
      using tryAgain_bound run that by metis
    ultimately have "attemptShape env req k r ((n1 @ n2 @ n3) @ SentEv k out # post)"
      unfolding attemptShape_def using p n1(2) n2(2) n3(2)
      by (intro disjI2 exI [of _ "n1 @ n2 @ n3"] exI [of _ out] exI [of _ post]) auto
    with p(1) n1(1) n2(1) n3(1) show ?thesis by (intro exI [of _ "(n1 @ n2 @ n3) @ SentEv k out # post"]) simp
  qed
qed

subsection \<open>The events of a request\<close>

lemma attemptShape_sends:
  assumes "attemptShape env req k r new"
  shows "(\<forall>ev \<in> set new. quiet env ev \<or> (\<exists>out. ev = SentEv k out))"
    and "sendsOf new = [] \<and> (\<exists>e. r = Inl e)
      \<or> (\<exists>out. sendsOf new = [(k, out)] \<and> (limiter_acquire env \<noteq> None \<longrightarrow> 1 \<le> admissionsOf new)
          \<and> (\<forall>resp. r = Inr (ReturnResponse resp) \<longrightarrow> out = Inr resp)
          \<and> (r = Inr TryAgain \<longrightarrow> mayRetry env req k out \<and> k \<le> retries (policy env)))"
  using assms unfolding attemptShape_def by (auto simp: sendsOf_quiet [of _ env])

definition sleepsWithin :: "rat \<Rightarrow> transport_event list \<Rightarrow> bool" where
  "sleepsWithin mx es \<longleftrightarrow> (\<forall>d. SleptEv d \<in> set es \<longrightarrow> 0 \<le> d \<and> d \<le> mx)"

definition requestShape ::
  "'w transport_env \<Rightarrow> request \<Rightarrow> nat \<Rightarrow> graph_exn + response \<Rightarrow> transport_event list \<Rightarrow> bool" where
  "requestShape env req n r new \<longleftrightarrow>
     (let sends = sendsOf new in
       map fst sends = [Suc n ..< Suc n + length sends]
     \<and> (n \<le> retries (policy env) \<longrightarrow> n + length sends \<le> Suc (retries (policy env)))
     \<and> (\<forall>(k, out) \<in> set (butlast sends). mayRetry env req k out)
     \<and> (\<forall>resp. r = Inr resp \<longrightarrow> sends \<noteq> [] \<and> snd (last sends) = Inr resp)
     \<and> (limiter_acquire env \<noteq> None \<longrightarrow> length sends \<le> admissionsOf new)
     \<and> sleepsWithin (maxDelayMs (policy env)) new)"

lemma requestLoop_shape:
  assumes "policyOk (policy env)" "requestLoop env req n s = (r, s')"
  shows "\<exists>new. trace s' = trace s @ new \<and> requestShape env req n r new"
  using assms
proof (induction env req n s rule: requestLoop.induct)
  case (1 env req n s)
  obtain x t where a: "attemptOnce env req (Suc n) s = (x, t)" by fastforce
  from attemptOnce_shape [OF "1.prems"(1) a] obtain n1 where
    n1: "trace t = trace s @ n1" "attemptShape env req (Suc n) x n1" by blast
  note sh = attemptShape_sends [OF n1(2)]
  have sw: "sleepsWithin (maxDelayMs (policy env)) n1"
    using sh(1) by (fastforce simp: sleepsWithin_def)
  consider (fails) e where "x = Inl e" | (returns) resp where "x = Inr (ReturnResponse resp)" | (again) "x = Inr TryAgain"
    by (metis attempt_result.exhaust old.sum.exhaust)
  then show ?case
  proof cases
    case fails
    with "1.prems"(2) a have "r = Inl e" "s' = t" by simp_all
    with n1(1) sh(2) sw show ?thesis by (intro exI [of _ n1]) (auto simp: requestShape_def Let_def)
  next
    case returns
    with "1.prems"(2) a have "r = Inr resp" "s' = t" by simp_all
    with n1(1) sh(2) sw returns show ?thesis by (intro exI [of _ n1]) (auto simp: requestShape_def Let_def)
  next
    case again
    with "1.prems"(2) a have "requestLoop env req (Suc n) t = (r, s')" by simp
    from "1.IH" [OF a [symmetric] again refl "1.prems"(1) this] obtain n2 where
      n2: "trace s' = trace t @ n2" "requestShape env req (Suc n) r n2" by blast
    from sh(2) again obtain out where
      o1: "sendsOf n1 = [(Suc n, out)]" "limiter_acquire env \<noteq> None \<longrightarrow> 1 \<le> admissionsOf n1"
        "mayRetry env req (Suc n) out" "Suc n \<le> retries (policy env)" by auto
    have up: "[Suc n ..< Suc n + (m + Suc 0)] = Suc n # [Suc (Suc n) ..< Suc (Suc n) + m]" for m
      by (simp add: upt_conv_Cons del: upt_Suc)
    have "map fst (sendsOf (n1 @ n2)) = [Suc n ..< Suc n + length (sendsOf (n1 @ n2))]"
      using n2(2) o1(1) unfolding requestShape_def Let_def
      by (simp only: sendsOf_simps list.map append.simps list.size fst_conv up)
    moreover have "\<forall>(k, out) \<in> set (butlast (sendsOf (n1 @ n2))). mayRetry env req k out"
      using n2(2) o1(1,3) by (auto simp: requestShape_def Let_def split: if_splits)
    moreover have "sleepsWithin (maxDelayMs (policy env)) (n1 @ n2)"
      using n2(2) sw by (auto simp: requestShape_def Let_def sleepsWithin_def)
    ultimately have "requestShape env req n r (n1 @ n2)"
      using n2(2) o1 unfolding requestShape_def Let_def by auto
    with n1(1) n2(1) show ?thesis by (intro exI [of _ "n1 @ n2"]) simp
  qed
qed

lemma reliable_request:
  assumes "createReliableTransport inner opts env = Inr f" "f req s = (r, s')"
  obtains (options) e where "resolvePolicy opts = Inl e" "r = Inl e" "s' = s"
  | (loop) p where "resolvePolicy opts = Inr p" "policyOk p"
      "requestLoop (env\<lparr>policy := p\<rparr>) req 0 s = (r, s')"
  using assms policyOk_resolve [of opts]
  by (cases "resolvePolicy opts") (auto simp: createReliableTransport_def bindA_def split: if_splits)

subsection \<open>Properties\<close>

text \<open>A host that answers from a list, counting the requests, and never waits.\<close>

definition scripted :: "(graph_exn + response) list \<Rightarrow> retry_policy \<Rightarrow> nat transport_env" where
  "scripted outs p = \<lparr>policy = p,
     inner_request = (\<lambda>req sig w. (if w < length outs then outs ! w else Inl (HostError ''end''), Suc w)),
     caller_signal = None, limiter_acquire = None, custom_retryOn = None, onRetry_hook = None,
     jitter_hook = None, random_source = (\<lambda>w. (Inr (JNum (Fin (1 / 2))), w)),
     sleep_hook = (\<lambda>d w. (Settled (Inr ()), w)), date_now = (\<lambda>w. 0), date_parse = (\<lambda>h. None),
     cancel_body = (\<lambda>r w. w)\<rparr>"

definition sampleResponse :: "int \<Rightarrow> response" where
  "sampleResponse st = \<lparr>resp_status = st, resp_headers = [(''Retry-After'', ''1.5'')], resp_body = 0\<rparr>"

definition sampleRequest :: "http_method \<Rightarrow> request" where
  "sampleRequest m = \<lparr>req_method = m, req_url = ''u'', req_headers = []\<rparr>"

definition samplePolicy :: retry_policy where
  "samplePolicy = \<lparr>retries = 3, baseDelayMs = 200, maxDelayMs = 30000, timeoutMs = None, retryPosts = Never\<rparr>"

lemma sampleDelay: "headersGet (resp_headers (sampleResponse st)) ''retry-after'' = Some ''1.5''"
  by code_simp

lemma sampleRetryAfter: "parseRetryAfterMs (\<lambda>h. None) (Some ''1.5'') now = Some 1500"
proof -
  have t: "js_trim ''1.5'' = ''1.5''" by code_simp
  have d: "decimalValue ''1.5'' = Some (3 / 2)"
  proof -
    have "js_split CHR ''.'' ''1.5'' = [''1'', ''5'']" "allDigits ''1''" "allDigits ''5''"
      "num ''1'' = 1" "num ''5'' = 5" by code_simp+
    then show ?thesis by (simp add: decimalValue_def)
  qed
  have "(3 / 2 :: rat) < 2 ^ 1024 - 2 ^ 970"
  proof -
    have "(2::rat) ^ 1024 = 2 ^ 54 * 2 ^ 970" by (simp flip: power_add)
    moreover have "(1::rat) \<le> 2 ^ 970" by simp
    ultimately show ?thesis by simp
  qed
  then show ?thesis by (simp add: parseRetryAfterMs_def t d infiniteFrom_def Let_def)
qed

text \<open>C13: A request of the retrying transport sends at most \<open>retries + 1\<close> times, numbering its attempts
  from one; when it returns a response, that is the response of its last attempt; under a rate limiter
  every attempt has its own admission; and every wait between attempts lies between zero and
  \<open>maxDelayMs\<close>.  It always ends, whatever the host answers.\<close>

theorem retries_are_bounded:
  assumes "createReliableTransport inner opts env = Inr f" and "resolvePolicy opts = Inr p"
    and "f req s = (r, s')"
  shows "\<exists>new. trace s' = trace s @ new
    \<and> map fst (sendsOf new) = [1 ..< Suc (length (sendsOf new))]
    \<and> length (sendsOf new) \<le> retries p + 1
    \<and> (\<forall>resp. r = Inr resp \<longrightarrow> sendsOf new \<noteq> [] \<and> snd (last (sendsOf new)) = Inr resp)
    \<and> (limiter_acquire env \<noteq> None \<longrightarrow> length (sendsOf new) \<le> admissionsOf new)
    \<and> (\<forall>d. SleptEv d \<in> set new \<longrightarrow> 0 \<le> d \<and> d \<le> maxDelayMs p)"
  using assms(1,3)
proof (cases rule: reliable_request)
  case (options e)
  with assms(2) show ?thesis by simp
next
  case (loop q)
  with assms(2) have "requestLoop (env\<lparr>policy := p\<rparr>) req 0 s = (r, s')" "policyOk p" by simp_all
  with requestLoop_shape [of "env\<lparr>policy := p\<rparr>" req 0 s r s'] show ?thesis
    by (auto simp: requestShape_def Let_def sleepsWithin_def)
qed

lemma sample_transport:
  "createReliableTransport (JObj ObjectProto [(''request'', Data JFun)]) JUndef env
     = Inr (\<lambda>req. bindA (liftA (resolvePolicy JUndef)) (\<lambda>p. requestLoop (env\<lparr>policy := p\<rparr>) req 0))"
  "resolvePolicy JUndef = Inr samplePolicy"
  by (simp_all add: createReliableTransport_def objectProps_def optField_def isFunction_def resolvePolicy_def
      DEFAULT_TRANSPORT_RETRY_POLICY_def orElse_def assertNonNegativeInteger_def assertFiniteNumber_def
      isIntegerNum_def optionalFn_def resolveRetryPostMode_def samplePolicy_def)

theorem retries_are_bounded_witness:
  "\<exists>f new. createReliableTransport (JObj ObjectProto [(''request'', Data JFun)]) JUndef (scripted [] samplePolicy) = Inr f
    \<and> trace (snd (f (sampleRequest GET) \<lparr>host = 0, trace = []\<rparr>)) = new \<and> length (sendsOf new) \<le> 4"
proof -
  obtain f where f: "createReliableTransport (JObj ObjectProto [(''request'', Data JFun)]) JUndef (scripted [] samplePolicy) = Inr f"
    using sample_transport(1) by blast
  obtain r s' where run: "f (sampleRequest GET) \<lparr>host = 0, trace = []\<rparr> = (r, s')" by fastforce
  from retries_are_bounded [OF f sample_transport(2) run] obtain new where
    "trace s' = new" "length (sendsOf new) \<le> 4" by (auto simp: samplePolicy_def)
  with f run show ?thesis by (intro exI [of _ f] exI [of _ new]) simp
qed

text \<open>C14: With the default rule and the default mode, a request whose method is not idempotent, a \<open>POST\<close>
  above all, is sent again only after a 429 response: no network failure and no 5xx makes the transport
  send it twice.  In every mode each attempt but the last ended in an outcome that the rule retries.\<close>

theorem posts_are_not_duplicated:
  assumes "createReliableTransport inner opts env = Inr f" and "resolvePolicy opts = Inr p"
    and "f req s = (r, s')" and "custom_retryOn env = None"
  shows "\<exists>new. trace s' = trace s @ new
    \<and> (\<forall>(k, out) \<in> set (butlast (sendsOf new)). makeDefaultRetryOn (retryPosts p) (contextOf req k out))
    \<and> (retryPosts p = Never \<and> req_method req \<notin> {GET, DELETE} \<longrightarrow>
        (\<forall>(k, out) \<in> set (butlast (sendsOf new)). \<exists>resp. out = Inr resp \<and> resp_status resp = 429))"
  using assms(1,3)
proof (cases rule: reliable_request)
  case (options e)
  with assms(2) show ?thesis by simp
next
  case (loop q)
  with assms(2) have "requestLoop (env\<lparr>policy := p\<rparr>) req 0 s = (r, s')" "policyOk p" by simp_all
  with requestLoop_shape [of "env\<lparr>policy := p\<rparr>" req 0 s r s'] assms(4) obtain new where
    new: "trace s' = trace s @ new"
      "\<forall>(k, out) \<in> set (butlast (sendsOf new)). makeDefaultRetryOn (retryPosts p) (contextOf req k out)"
    by (auto simp: requestShape_def Let_def mayRetry_def)
  have "\<exists>resp. out = Inr resp \<and> resp_status resp = 429"
    if "makeDefaultRetryOn Never (contextOf req k out)" "req_method req \<notin> {GET, DELETE}" for k out
    using that by (cases out) (auto simp: makeDefaultRetryOn_def contextOf_def isRetryableMethod_def Let_def
        split: if_splits)
  with new show ?thesis by (intro exI [of _ new]) fastforce
qed

theorem posts_are_not_duplicated_witness:
  "\<exists>f new. createReliableTransport (JObj ObjectProto [(''request'', Data JFun)]) JUndef
      (scripted [Inl (GraphNetworkError ''reset'')] samplePolicy) = Inr f
    \<and> trace (snd (f (sampleRequest POST) \<lparr>host = 0, trace = []\<rparr>)) = new
    \<and> (\<forall>(k, out) \<in> set (butlast (sendsOf new)). \<exists>resp. out = Inr resp \<and> resp_status resp = 429)"
proof -
  let ?env = "scripted [Inl (GraphNetworkError ''reset'')] samplePolicy"
  obtain f where f: "createReliableTransport (JObj ObjectProto [(''request'', Data JFun)]) JUndef ?env = Inr f"
    using sample_transport(1) by blast
  obtain r s' where run: "f (sampleRequest POST) \<lparr>host = 0, trace = []\<rparr> = (r, s')" by fastforce
  have "custom_retryOn ?env = None" by (simp add: scripted_def)
  from posts_are_not_duplicated [OF f sample_transport(2) run this] obtain new where
    "trace s' = new" "\<forall>(k, out) \<in> set (butlast (sendsOf new)). \<exists>resp. out = Inr resp \<and> resp_status resp = 429"
    by (auto simp: samplePolicy_def sampleRequest_def)
  with f run show ?thesis by (intro exI [of _ f] exI [of _ new]) simp
qed

text \<open>A host that answers from a list: what its attempts do.\<close>

lemma scripted_delay: "\<exists>d. boundedDelayMs (scripted outs p) k resp s = (Inr d, s)"
  by (auto simp: boundedDelayMs_def scripted_def bindA_def hostCall_def Let_def split: option.split)

lemma scripted_backoff:
  "\<exists>tr. backoff (scripted outs p) k resp ctx s = (Inr (), s\<lparr>trace := tr\<rparr>)"
proof -
  obtain d where d: "boundedDelayMs (scripted outs p) k resp s = (Inr d, s)" using scripted_delay by blast
  have fields: "caller_signal (scripted outs p) = None" "onRetry_hook (scripted outs p) = None"
    "sleep_hook (scripted outs p) d w = (Settled (Inr ()), w)" for w
    by (simp_all add: scripted_def)
  have "throwIfAborted (scripted outs p) s = (Inr (), s)"
    by (simp add: throwIfAborted_def signalState_def fields bindA_def)
  then have "backoff (scripted outs p) k resp ctx s = (Inr (), s\<lparr>trace := trace s @ [SleptEv d]\<rparr>)"
    by (simp add: backoff_def bindA_ret d bindA_def callOnRetry_def fields sleepWithAbort_def noteEv_def
        plainWait_def)
  then show ?thesis by blast
qed

lemma scripted_attempt:
  assumes "i < length outs"
  shows "makeDefaultRetryOn (retryPosts p) (contextOf req k (outs ! i)) \<Longrightarrow> k \<le> retries p \<Longrightarrow>
      \<exists>tr'. attemptOnce (scripted outs p) req k \<lparr>host = i, trace = tr\<rparr>
        = (Inr TryAgain, \<lparr>host = Suc i, trace = tr'\<rparr>)"
    and "\<not> makeDefaultRetryOn (retryPosts p) (contextOf req k (outs ! i)) \<Longrightarrow> outs ! i = Inr resp \<Longrightarrow>
      \<exists>tr'. attemptOnce (scripted outs p) req k \<lparr>host = i, trace = tr\<rparr>
        = (Inr (ReturnResponse resp), \<lparr>host = Suc i, trace = tr'\<rparr>)"
proof -
  let ?env = "scripted outs p" and ?s = "\<lparr>host = i, trace = tr\<rparr>"
  let ?t = "\<lparr>host = Suc i, trace = tr @ [SentEv k (outs ! i)]\<rparr>"
  have fields: "caller_signal ?env = None" "limiter_acquire ?env = None" "custom_retryOn ?env = None"
    "policy ?env = p" "cancel_body ?env = (\<lambda>r w. w)"
    by (simp_all add: scripted_def)
  have start: "attemptOnce ?env req k ?s
      = tryA (bindA (send ?env req k) (afterResponse ?env req k)) (afterError ?env req k) ?s"
    by (simp add: attemptOnce_def throwIfAborted_def signalState_def admission_def fields bindA_def)
  have snd: "send ?env req k ?s = (outs ! i, ?t)"
    using assms by (simp add: send_def scripted_def)
  have sig: "signalState ?env s = NotAborted" for s by (simp add: signalState_def fields)
  { assume re: "makeDefaultRetryOn (retryPosts p) (contextOf req k (outs ! i))" and k: "k \<le> retries p"
    have "\<exists>tr'. attemptOnce ?env req k ?s = (Inr TryAgain, \<lparr>host = Suc i, trace = tr'\<rparr>)"
    proof (cases "outs ! i")
      case (Inl e)
      let ?ctx = "contextOf req k (Inl e)"
      obtain tr2 where b: "backoff ?env k None ?ctx ?t = (Inr (), ?t\<lparr>trace := tr2\<rparr>)"
        using scripted_backoff by blast
      have "attemptOnce ?env req k ?s = afterError ?env req k e ?t"
        by (simp add: start tryA_def bindA_def snd Inl)
      also have "\<dots> = (Inr TryAgain, ?t\<lparr>trace := tr2\<rparr>)"
        using re k b Inl by (simp add: afterError_def bindA_def sig callRetryOn_def fields Let_def contextOf_def)
      finally show ?thesis by simp
    next
      case (Inr rsp)
      let ?ctx = "contextOf req k (Inr rsp)"
      let ?t1 = "?t\<lparr>trace := trace ?t @ [BodyCancelledEv]\<rparr>"
      obtain tr2 where b: "backoff ?env k (Some rsp) ?ctx ?t1 = (Inr (), ?t1\<lparr>trace := tr2\<rparr>)"
        using scripted_backoff by blast
      have "afterResponse ?env req k rsp ?t = (Inr TryAgain, ?t1\<lparr>trace := tr2\<rparr>)"
        using re k b Inr by (simp add: afterResponse_def bindA_def callRetryOn_def fields Let_def contextOf_def
            cancelRetryResponseBody_def noteEv_def hostCall_def)
      then show ?thesis by (simp add: start tryA_def bindA_def snd Inr)
    qed }
  note again = this
  { assume re: "\<not> makeDefaultRetryOn (retryPosts p) (contextOf req k (outs ! i))" and o: "outs ! i = Inr resp"
    have "attemptOnce ?env req k ?s = (Inr (ReturnResponse resp), ?t)"
      using re o by (simp add: start tryA_def bindA_def snd afterResponse_def callRetryOn_def fields Let_def
          contextOf_def) }
  note returns = this
  show "makeDefaultRetryOn (retryPosts p) (contextOf req k (outs ! i)) \<Longrightarrow> k \<le> retries p \<Longrightarrow>
      \<exists>tr'. attemptOnce ?env req k ?s = (Inr TryAgain, \<lparr>host = Suc i, trace = tr'\<rparr>)" by (rule again)
  show "\<not> makeDefaultRetryOn (retryPosts p) (contextOf req k (outs ! i)) \<Longrightarrow> outs ! i = Inr resp \<Longrightarrow>
      \<exists>tr'. attemptOnce ?env req k ?s = (Inr (ReturnResponse resp), \<lparr>host = Suc i, trace = tr'\<rparr>)"
    using returns by blast
qed

text \<open>C15: Transient failures are survived: when up to \<open>retries\<close> attempts end in outcomes that the default
  rule retries and the next one in a response that it does not, the request returns that response
  after exactly that many further attempts.\<close>

theorem transient_failures_are_survived:
  assumes "n \<le> retries p" and "n < length outs" and "outs ! n = Inr resp"
    and "\<not> makeDefaultRetryOn (retryPosts p) (contextOf req (Suc n) (Inr resp))"
    and "\<And>i. i < n \<Longrightarrow> makeDefaultRetryOn (retryPosts p) (contextOf req (Suc i) (outs ! i))"
  shows "\<exists>s'. requestLoop (scripted outs p) req 0 \<lparr>host = 0, trace = []\<rparr> = (Inr resp, s') \<and> host s' = Suc n"
proof -
  have "\<exists>s'. requestLoop (scripted outs p) req i \<lparr>host = i, trace = tr\<rparr> = (Inr resp, s') \<and> host s' = Suc n"
    if "i \<le> n" for i tr
    using that
  proof (induction "n - i" arbitrary: i tr)
    case 0
    then have i: "i = n" by simp
    from scripted_attempt(2) [OF assms(2), of p req "Suc n" resp tr] assms(3,4) obtain tr' where
      "attemptOnce (scripted outs p) req (Suc n) \<lparr>host = n, trace = tr\<rparr>
        = (Inr (ReturnResponse resp), \<lparr>host = Suc n, trace = tr'\<rparr>)" by auto
    then show ?case by (simp add: i)
  next
    case (Suc d)
    then have i: "i < n" by simp
    with assms(1,2) have "i < length outs" "Suc i \<le> retries p" by simp_all
    from scripted_attempt(1) [OF this(1) assms(5) [OF i] this(2)] obtain tr' where
      "attemptOnce (scripted outs p) req (Suc i) \<lparr>host = i, trace = tr\<rparr>
        = (Inr TryAgain, \<lparr>host = Suc i, trace = tr'\<rparr>)" by blast
    with Suc.hyps(1) [of "Suc i" tr'] Suc.hyps(2) i show ?case by simp
  qed
  then show ?thesis by blast
qed

theorem transient_failures_are_survived_witness:
  "\<exists>s'. requestLoop (scripted [Inr (sampleResponse 503), Inl (GraphNetworkError ''reset''), Inr (sampleResponse 200)]
      samplePolicy) (sampleRequest GET) 0 \<lparr>host = 0, trace = []\<rparr> = (Inr (sampleResponse 200), s') \<and> host s' = 3"
proof -
  let ?outs = "[Inr (sampleResponse 503), Inl (GraphNetworkError ''reset''), Inr (sampleResponse 200)]"
  have "\<not> makeDefaultRetryOn (retryPosts samplePolicy) (contextOf (sampleRequest GET) (Suc 2) (Inr (sampleResponse 200)))"
    "\<And>i. i < 2 \<Longrightarrow> makeDefaultRetryOn (retryPosts samplePolicy) (contextOf (sampleRequest GET) (Suc i) (?outs ! i))"
    by (auto simp: makeDefaultRetryOn_def contextOf_def sampleRequest_def sampleResponse_def isRetryableMethod_def
        is5xx_def isNetworkError_def less_Suc_eq numeral_2_eq_2)
  from transient_failures_are_survived [where n = 2 and outs = ?outs and p = samplePolicy, OF _ _ _ this]
  show ?thesis by (simp add: samplePolicy_def numeral_3_eq_3)
qed

end
