(* ===== verification/Graph_Errors.thy ===== *)
theory Graph_Errors
  imports Reliable_Transport
begin

section \<open>Graph API errors (packages/graph/src/errors.ts, errorRegistry.ts, errorSubclasses.ts)\<close>

text \<open>
  An error response becomes an instance of a class of errors: the class that is registered for its
  code, or else one chosen by its HTTP status and payload.  A class is its name, its parent on the
  authorization or rate-limit axis, its static code and its fallback message; an instance is a
  \<open>graph_error\<close>.  The registry keeps its entries in insertion order under string keys; codes are
  integers below \<open>10 ^ 21\<close>, which JavaScript prints in decimal.  In two fallback messages a hyphen
  stands for the em dash.
\<close>

subsection \<open>Payloads\<close>

record error_payload =
  p_message :: "string option"
  p_type :: "string option"
  p_code :: "jsnum option"
  p_subcode :: "jsnum option"
  p_fbtrace :: "string option"

definition optionally :: "(jsval \<Rightarrow> bool) \<Rightarrow> jsval \<Rightarrow> bool" where
  "optionally p v = (v = JUndef \<or> p v)"

definition isNumber :: "jsval \<Rightarrow> bool" where
  "isNumber v = (case v of JNum _ \<Rightarrow> True | _ \<Rightarrow> False)"

definition isGraphApiErrorPayload :: "jsval \<Rightarrow> bool" where
  "isGraphApiErrorPayload v = (case isRecord v of
     None \<Rightarrow> False
   | Some ps \<Rightarrow> (case js_get ps ''message'' of JStr msg \<Rightarrow> msg \<noteq> [] | _ \<Rightarrow> False)
       \<and> optionally isString (js_get ps ''type'')
       \<and> optionally isNumber (js_get ps ''code'')
       \<and> optionally isNumber (js_get ps ''error_subcode'')
       \<and> optionally isString (js_get ps ''fbtrace_id''))"

definition isGraphErrorEnvelope :: "jsval \<Rightarrow> bool" where
  "isGraphErrorEnvelope v = (case isRecord v of
     None \<Rightarrow> False | Some ps \<Rightarrow> isGraphApiErrorPayload (js_get ps ''error''))"

text \<open>The fields of a value that passed \<open>isGraphApiErrorPayload\<close>.\<close>

definition strField :: "(string \<times> slot) list \<Rightarrow> string \<Rightarrow> string option" where
  "strField ps k = (case js_get ps k of JStr s \<Rightarrow> Some s | _ \<Rightarrow> None)"

definition numField :: "(string \<times> slot) list \<Rightarrow> string \<Rightarrow> jsnum option" where
  "numField ps k = (case js_get ps k of JNum n \<Rightarrow> Some n | _ \<Rightarrow> None)"

definition payloadOf :: "(string \<times> slot) list \<Rightarrow> error_payload" where
  "payloadOf ps = \<lparr>p_message = strField ps ''message'', p_type = strField ps ''type'',
     p_code = numField ps ''code'', p_subcode = numField ps ''error_subcode'',
     p_fbtrace = strField ps ''fbtrace_id''\<rparr>"

subsection \<open>Instances\<close>

datatype error_base = ApiBase | AuthBase | RateLimitBase

datatype classification = ClientError | ServerError | UnknownClass

record graph_error =
  ge_name :: string
  ge_base :: error_base
  ge_message :: string
  ge_status :: int
  ge_classification :: classification
  ge_payload :: "error_payload option"
  ge_retryAfter :: "string option"

definition classifyStatus :: "int \<Rightarrow> classification" where
  "classifyStatus status = (if 400 \<le> status \<and> status < 500 then ClientError
     else if 500 \<le> status \<and> status < 600 then ServerError else UnknownClass)"

definition newGraphError ::
  "string \<Rightarrow> error_base \<Rightarrow> string \<Rightarrow> int \<Rightarrow> error_payload option \<Rightarrow> string option \<Rightarrow> graph_error" where
  "newGraphError name base msg status payload retry = \<lparr>ge_name = name, ge_base = base, ge_message = msg,
     ge_status = status, ge_classification = classifyStatus status, ge_payload = payload,
     ge_retryAfter = retry\<rparr>"

text \<open>\<open>type\<close>, \<open>code\<close>, \<open>errorSubcode\<close> and \<open>fbtraceId\<close> of an instance are those of its payload.\<close>

definition ge_code :: "graph_error \<Rightarrow> jsnum option" where
  "ge_code e = (case ge_payload e of None \<Rightarrow> None | Some p \<Rightarrow> p_code p)"

text \<open>A \<open>Headers\<close> object may be missing, or throw when it is read.\<close>

datatype headers_arg = NoHeaders | HostileHeaders | HeadersOf "(string \<times> string) list"

definition readRetryAfterHeader :: "headers_arg \<Rightarrow> string option" where
  "readRetryAfterHeader h = (case h of
     NoHeaders \<Rightarrow> None
   | HostileHeaders \<Rightarrow> None
   | HeadersOf hs \<Rightarrow> (case headersGet hs ''retry-after'' of
       None \<Rightarrow> None
     | Some raw \<Rightarrow> if js_trim raw = [] then None else Some (js_trim raw)))"

subsection \<open>The two axes\<close>

definition RATE_LIMIT_CODES :: "int list" where
  "RATE_LIMIT_CODES = [4, 80007, 130429, 131048, 131056]"

definition codeIs :: "error_payload option \<Rightarrow> int \<Rightarrow> bool" where
  "codeIs payload c = (case payload of None \<Rightarrow> False
     | Some p \<Rightarrow> p_code p = Some (Fin (of_int c)))"

definition isAuthClassification :: "int \<Rightarrow> error_payload option \<Rightarrow> bool" where
  "isAuthClassification status payload =
     (if status = 401 then True
      else if status = 403 then True
      else if (case payload of None \<Rightarrow> False | Some p \<Rightarrow> p_type p = Some ''OAuthException'')
           \<and> 400 \<le> status \<and> status < 500 then True
      else if codeIs payload 190 \<and> 400 \<le> status \<and> status < 500 then True
      else False)"

definition isRateLimitClassification :: "int \<Rightarrow> error_payload option \<Rightarrow> bool" where
  "isRateLimitClassification status payload =
     (if status = 429 then True
      else if 400 \<le> status \<and> status < 500 \<and> list_ex (codeIs payload) RATE_LIMIT_CODES then True
      else False)"

subsection \<open>The registry\<close>

record factory_context =
  fc_payload :: "error_payload option"
  fc_status :: int
  fc_headers :: headers_arg

record registry_entry =
  re_code :: int
  re_subcode :: "int option"
  re_errorName :: string
  re_factory :: "factory_context \<Rightarrow> graph_error"

record error_registry =
  reg_entries :: "(string \<times> registry_entry) list"
  builtInRegistered :: bool

datatype registry_exn = RegTypeError | RegRangeError

fun showNat :: "nat \<Rightarrow> string" where
  "showNat n = (if n < 10 then [digit_char (int n)] else showNat (n div 10) @ [digit_char (int (n mod 10))])"

declare showNat.simps [simp del]

definition keyFor :: "int \<Rightarrow> int option \<Rightarrow> string" where
  "keyFor code subcode = (case subcode of
     None \<Rightarrow> showNat (nat code) @ '':'' | Some s \<Rightarrow> showNat (nat code) @ '':'' @ showNat (nat s))"

definition validateCode :: "jsval \<Rightarrow> registry_exn + int" where
  "validateCode v = (case v of
     JNum x \<Rightarrow> if \<not> isFiniteNum x then Inl RegRangeError
       else if \<not> isIntegerNum x then Inl RegRangeError
       else (case x of Fin r \<Rightarrow> if r < 0 then Inl RegRangeError else Inr \<lfloor>r\<rfloor> | _ \<Rightarrow> Inl RegRangeError)
   | _ \<Rightarrow> Inl RegTypeError)"

definition validateEntry ::
  "jsval \<Rightarrow> (factory_context \<Rightarrow> graph_error) \<Rightarrow> registry_exn + registry_entry" where
  "validateEntry v factory = (case objectProps v of
     None \<Rightarrow> Inl RegTypeError
   | Some ps \<Rightarrow>
       bindE (validateCode (js_get ps ''code'')) (\<lambda>code.
       bindE (if js_get ps ''subcode'' = JUndef then Inr None
              else bindE (validateCode (js_get ps ''subcode'')) (\<lambda>s. Inr (Some s))) (\<lambda>sub.
       (case js_get ps ''errorName'' of
          JStr nm \<Rightarrow>
            if nm = [] then Inl RegTypeError
            else if \<not> isFunction (js_get ps ''factory'') then Inl RegTypeError
            else Inr \<lparr>re_code = code, re_subcode = sub, re_errorName = nm, re_factory = factory\<rparr>
        | _ \<Rightarrow> Inl RegTypeError))))"

text \<open>\<open>Map.set\<close>: a key that is there keeps its place.\<close>

fun mapSet :: "'k \<Rightarrow> 'v \<Rightarrow> ('k \<times> 'v) list \<Rightarrow> ('k \<times> 'v) list" where
  "mapSet k v [] = [(k, v)]"
| "mapSet k v ((k', v') # kvs) = (if k' = k then (k, v) # kvs else (k', v') # mapSet k v kvs)"

definition putEntry :: "registry_entry \<Rightarrow> error_registry \<Rightarrow> error_registry" where
  "putEntry en reg = reg\<lparr>reg_entries := mapSet (keyFor (re_code en) (re_subcode en)) en (reg_entries reg)\<rparr>"

definition registerErrorCode ::
  "jsval \<Rightarrow> (factory_context \<Rightarrow> graph_error) \<Rightarrow> (error_registry, registry_exn, unit) act" where
  "registerErrorCode v factory reg = (case validateEntry v factory of
     Inl e \<Rightarrow> (Inl e, reg) | Inr en \<Rightarrow> (Inr (), putEntry en reg))"

definition clearErrorRegistry :: "error_registry \<Rightarrow> error_registry" where
  "clearErrorRegistry reg = \<lparr>reg_entries = [], builtInRegistered = False\<rparr>"

definition resolveRegisteredError :: "int \<Rightarrow> int option \<Rightarrow> error_registry \<Rightarrow> registry_entry option" where
  "resolveRegisteredError code subcode reg =
     (let specific = (case subcode of None \<Rightarrow> None | Some s \<Rightarrow> map_of (reg_entries reg) (keyFor code (Some s))) in
      (case specific of Some en \<Rightarrow> Some en | None \<Rightarrow> map_of (reg_entries reg) (keyFor code None)))"

definition listRegisteredErrors :: "error_registry \<Rightarrow> registry_entry list" where
  "listRegisteredErrors reg = map snd (reg_entries reg)"

subsection \<open>The built-in classes\<close>

record error_class =
  cls_name :: string
  cls_base :: error_base
  cls_errorCode :: int
  cls_fallback :: string

definition messageOf :: "factory_context \<Rightarrow> string \<Rightarrow> string" where
  "messageOf ctx fallback = (case fc_payload ctx of
     None \<Rightarrow> fallback
   | Some p \<Rightarrow> (case p_message p of None \<Rightarrow> fallback | Some m \<Rightarrow> if m \<noteq> [] then m else fallback))"

definition retryAfterFromContext :: "factory_context \<Rightarrow> string option" where
  "retryAfterFromContext ctx = (case fc_headers ctx of
     HeadersOf hs \<Rightarrow> (case headersGet hs ''retry-after'' of
       None \<Rightarrow> None
     | Some raw \<Rightarrow> if js_trim raw = [] then None else Some (js_trim raw))
   | _ \<Rightarrow> None)"

text \<open>The constructor that the classes share: \<open>super(coreParams(ctx, fallback))\<close> and the name.\<close>

definition constructError :: "error_class \<Rightarrow> factory_context \<Rightarrow> graph_error" where
  "constructError cls ctx = newGraphError (cls_name cls) (cls_base cls) (messageOf ctx (cls_fallback cls))
     (fc_status ctx) (fc_payload ctx) (retryAfterFromContext ctx)"

definition AuthException :: error_class where
  "AuthException = \<lparr>cls_name = ''AuthException'', cls_base = AuthBase, cls_errorCode = 0,
     cls_fallback = ''We were unable to authenticate the app user.''\<rparr>"

definition APIMethodError :: error_class where
  "APIMethodError = \<lparr>cls_name = ''APIMethodError'', cls_base = AuthBase, cls_errorCode = 3,
     cls_fallback = ''Capability or permissions issue.''\<rparr>"

definition PermissionDeniedError :: error_class where
  "PermissionDeniedError = \<lparr>cls_name = ''PermissionDeniedError'', cls_base = AuthBase, cls_errorCode = 10,
     cls_fallback = ''Permission is either not granted or has been removed.''\<rparr>"

definition ExpiredAccessTokenError :: error_class where
  "ExpiredAccessTokenError = \<lparr>cls_name = ''ExpiredAccessTokenError'', cls_base = AuthBase, cls_errorCode = 190,
     cls_fallback = ''Your access token has expired.''\<rparr>"

definition APIPermissionError :: error_class where
  "APIPermissionError = \<lparr>cls_name = ''APIPermissionError'', cls_base = AuthBase, cls_errorCode = 200,
     cls_fallback = ''Permission is either not granted or has been removed.''\<rparr>"

definition ToManyAPICallsError :: error_class where
  "ToManyAPICallsError = \<lparr>cls_name = ''ToManyAPICallsError'', cls_base = RateLimitBase, cls_errorCode = 4,
     cls_fallback = ''The app has reached its API call rate limit.''\<rparr>"

definition RateLimitIssuesError :: error_class where
  "RateLimitIssuesError = \<lparr>cls_name = ''RateLimitIssuesError'', cls_base = RateLimitBase, cls_errorCode = 80007,
     cls_fallback = ''The WhatsApp Business Account has reached its rate limit.''\<rparr>"

definition RateLimitHitError :: error_class where
  "RateLimitHitError = \<lparr>cls_name = ''RateLimitHitError'', cls_base = RateLimitBase, cls_errorCode = 130429,
     cls_fallback = ''Cloud API message throughput has been reached.''\<rparr>"

definition SpamRateLimitHitError :: error_class where
  "SpamRateLimitHitError = \<lparr>cls_name = ''SpamRateLimitHitError'', cls_base = RateLimitBase, cls_errorCode = 131048,
     cls_fallback = ''Message failed due to spam rate limit restrictions.''\<rparr>"

definition TooManyMessagesError :: error_class where
  "TooManyMessagesError = \<lparr>cls_name = ''TooManyMessagesError'', cls_base = RateLimitBase, cls_errorCode = 131056,
     cls_fallback = ''Too many messages from sender to recipient in a short period.''\<rparr>"

definition TemporarilyBlockedError :: error_class where
  "TemporarilyBlockedError = \<lparr>cls_name = ''TemporarilyBlockedError'', cls_base = ApiBase, cls_errorCode = 368,
     cls_fallback = ''Account temporarily blocked for a policy violation.''\<rparr>"

definition AccountLockedError :: error_class where
  "AccountLockedError = \<lparr>cls_name = ''AccountLockedError'', cls_base = ApiBase, cls_errorCode = 131031,
     cls_fallback = ''Account locked.''\<rparr>"

definition AccountRestrictedFromCountryError :: error_class where
  "AccountRestrictedFromCountryError = \<lparr>cls_name = ''AccountRestrictedFromCountryError'', cls_base = ApiBase, cls_errorCode = 130497,
     cls_fallback = ''Account restricted from messaging users in this country.''\<rparr>"

definition UserIsInExperimentGroupError :: error_class where
  "UserIsInExperimentGroupError = \<lparr>cls_name = ''UserIsInExperimentGroupError'', cls_base = ApiBase, cls_errorCode = 130472,
     cls_fallback = ''User is part of a marketing message experiment group.''\<rparr>"

definition MessageUndeliverableError :: error_class where
  "MessageUndeliverableError = \<lparr>cls_name = ''MessageUndeliverableError'', cls_base = ApiBase, cls_errorCode = 131026,
     cls_fallback = ''Message undeliverable.''\<rparr>"

definition ReEngagementMessageError :: error_class where
  "ReEngagementMessageError = \<lparr>cls_name = ''ReEngagementMessageError'', cls_base = ApiBase, cls_errorCode = 131047,
     cls_fallback = ''More than 24 hours have passed since the recipient last replied.''\<rparr>"

definition UnsupportedMessageTypeError :: error_class where
  "UnsupportedMessageTypeError = \<lparr>cls_name = ''UnsupportedMessageTypeError'', cls_base = ApiBase, cls_errorCode = 131051,
     cls_fallback = ''The message type is not supported.''\<rparr>"

definition MediaDownloadError :: error_class where
  "MediaDownloadError = \<lparr>cls_name = ''MediaDownloadError'', cls_base = ApiBase, cls_errorCode = 131052,
     cls_fallback = ''Unable to download the media sent by the user.''\<rparr>"

definition MediaUploadError :: error_class where
  "MediaUploadError = \<lparr>cls_name = ''MediaUploadError'', cls_base = ApiBase, cls_errorCode = 131053,
     cls_fallback = ''Unable to upload the media used in the message.''\<rparr>"

definition RecipientNotInAllowedListError :: error_class where
  "RecipientNotInAllowedListError = \<lparr>cls_name = ''RecipientNotInAllowedListError'', cls_base = ApiBase, cls_errorCode = 131030,
     cls_fallback = ''Recipient is not in the test-number allowed list.''\<rparr>"

definition InvalidParameterError :: error_class where
  "InvalidParameterError = \<lparr>cls_name = ''InvalidParameterError'', cls_base = ApiBase, cls_errorCode = 131009,
     cls_fallback = ''The parameter you passed is invalid.''\<rparr>"

definition MissingRequiredParameterError :: error_class where
  "MissingRequiredParameterError = \<lparr>cls_name = ''MissingRequiredParameterError'', cls_base = ApiBase, cls_errorCode = 131008,
     cls_fallback = ''A required parameter is missing.''\<rparr>"

definition TemplateParamCountMismatchError :: error_class where
  "TemplateParamCountMismatchError = \<lparr>cls_name = ''TemplateParamCountMismatchError'', cls_base = ApiBase, cls_errorCode = 132000,
     cls_fallback = ''Template parameter count mismatch.''\<rparr>"

definition TemplateNotExistsError :: error_class where
  "TemplateNotExistsError = \<lparr>cls_name = ''TemplateNotExistsError'', cls_base = ApiBase, cls_errorCode = 132001,
     cls_fallback = ''Template does not exist in the specified language or is unapproved.''\<rparr>"

definition TemplateTextTooLongError :: error_class where
  "TemplateTextTooLongError = \<lparr>cls_name = ''TemplateTextTooLongError'', cls_base = ApiBase, cls_errorCode = 132005,
     cls_fallback = ''Template text too long.''\<rparr>"

definition TemplateContentPolicyViolationError :: error_class where
  "TemplateContentPolicyViolationError = \<lparr>cls_name = ''TemplateContentPolicyViolationError'', cls_base = ApiBase, cls_errorCode = 132007,
     cls_fallback = ''Template content policy violation.''\<rparr>"

definition TemplateParamValueInvalidError :: error_class where
  "TemplateParamValueInvalidError = \<lparr>cls_name = ''TemplateParamValueInvalidError'', cls_base = ApiBase, cls_errorCode = 132008,
     cls_fallback = ''Template parameter value formatted incorrectly.''\<rparr>"

definition TemplateParamFormatMismatchError :: error_class where
  "TemplateParamFormatMismatchError = \<lparr>cls_name = ''TemplateParamFormatMismatchError'', cls_base = ApiBase, cls_errorCode = 132012,
     cls_fallback = ''Template parameter format mismatch.''\<rparr>"

definition TemplatePausedError :: error_class where
  "TemplatePausedError = \<lparr>cls_name = ''TemplatePausedError'', cls_base = ApiBase, cls_errorCode = 132015,
     cls_fallback = ''Template paused due to low quality.''\<rparr>"

definition TemplateDisabledError :: error_class where
  "TemplateDisabledError = \<lparr>cls_name = ''TemplateDisabledError'', cls_base = ApiBase, cls_errorCode = 132016,
     cls_fallback = ''Template permanently disabled.''\<rparr>"

definition InvalidTemplateParameterError :: error_class where
  "InvalidTemplateParameterError = \<lparr>cls_name = ''InvalidTemplateParameterError'', cls_base = ApiBase, cls_errorCode = 132018,
     cls_fallback = ''Template message has invalid parameters.''\<rparr>"

definition TemplateClassificationRateLimitError :: error_class where
  "TemplateClassificationRateLimitError = \<lparr>cls_name = ''TemplateClassificationRateLimitError'', cls_base = ApiBase, cls_errorCode = 131064,
     cls_fallback = ''Template classification rate limit reached.''\<rparr>"

definition MarketingMessagesLiteUnsupportedMessageTypeError :: error_class where
  "MarketingMessagesLiteUnsupportedMessageTypeError = \<lparr>cls_name = ''MarketingMessagesLiteUnsupportedMessageTypeError'', cls_base = ApiBase, cls_errorCode = 134100,
     cls_fallback = ''Marketing Messages Lite does not support this message type.''\<rparr>"

definition MarketingMessagesLiteUnsupportedTemplateCategoryError :: error_class where
  "MarketingMessagesLiteUnsupportedTemplateCategoryError = \<lparr>cls_name = ''MarketingMessagesLiteUnsupportedTemplateCategoryError'', cls_base = ApiBase, cls_errorCode = 134101,
     cls_fallback = ''Marketing Messages Lite does not support this template category.''\<rparr>"

definition MarketingMessagesLiteInvalidFlowError :: error_class where
  "MarketingMessagesLiteInvalidFlowError = \<lparr>cls_name = ''MarketingMessagesLiteInvalidFlowError'', cls_base = ApiBase, cls_errorCode = 134102,
     cls_fallback = ''Marketing Messages Lite Flow is invalid.''\<rparr>"

definition MarketingMessagesLiteUnsupportedTemplateStructureError :: error_class where
  "MarketingMessagesLiteUnsupportedTemplateStructureError = \<lparr>cls_name = ''MarketingMessagesLiteUnsupportedTemplateStructureError'', cls_base = ApiBase, cls_errorCode = 134103,
     cls_fallback = ''Marketing Messages Lite does not support this template structure.''\<rparr>"

definition InvalidTemplateCursorError :: error_class where
  "InvalidTemplateCursorError = \<lparr>cls_name = ''InvalidTemplateCursorError'', cls_base = ApiBase, cls_errorCode = 131059,
     cls_fallback = ''Invalid message_templates cursor.''\<rparr>"

definition FlowBlockedError :: error_class where
  "FlowBlockedError = \<lparr>cls_name = ''FlowBlockedError'', cls_base = ApiBase, cls_errorCode = 132068,
     cls_fallback = ''Flow is in blocked state.''\<rparr>"

definition FlowThrottledError :: error_class where
  "FlowThrottledError = \<lparr>cls_name = ''FlowThrottledError'', cls_base = ApiBase, cls_errorCode = 132069,
     cls_fallback = ''Flow is in throttled state.''\<rparr>"

definition GenericError :: error_class where
  "GenericError = \<lparr>cls_name = ''GenericError'', cls_base = ApiBase, cls_errorCode = 135000,
     cls_fallback = ''Generic error.''\<rparr>"

definition UnknownError :: error_class where
  "UnknownError = \<lparr>cls_name = ''UnknownError'', cls_base = ApiBase, cls_errorCode = 131000,
     cls_fallback = ''Message failed to send due to an unknown error.''\<rparr>"

definition AccessDeniedError :: error_class where
  "AccessDeniedError = \<lparr>cls_name = ''AccessDeniedError'', cls_base = ApiBase, cls_errorCode = 131005,
     cls_fallback = ''Access denied for this resource.''\<rparr>"

definition ServiceUnavailableError :: error_class where
  "ServiceUnavailableError = \<lparr>cls_name = ''ServiceUnavailableError'', cls_base = ApiBase, cls_errorCode = 131016,
     cls_fallback = ''Service temporarily unavailable.''\<rparr>"

definition RecipientCannotBeSenderError :: error_class where
  "RecipientCannotBeSenderError = \<lparr>cls_name = ''RecipientCannotBeSenderError'', cls_base = ApiBase, cls_errorCode = 131021,
     cls_fallback = ''Recipient cannot be the sender.''\<rparr>"

definition BusinessPaymentIssueError :: error_class where
  "BusinessPaymentIssueError = \<lparr>cls_name = ''BusinessPaymentIssueError'', cls_base = ApiBase, cls_errorCode = 131042,
     cls_fallback = ''Business payment issue.''\<rparr>"

definition IncorrectCertificateError :: error_class where
  "IncorrectCertificateError = \<lparr>cls_name = ''IncorrectCertificateError'', cls_base = ApiBase, cls_errorCode = 131045,
     cls_fallback = ''Message failed due to a phone number registration error.''\<rparr>"

definition AccountInMaintenanceModeError :: error_class where
  "AccountInMaintenanceModeError = \<lparr>cls_name = ''AccountInMaintenanceModeError'', cls_base = ApiBase, cls_errorCode = 131057,
     cls_fallback = ''Business Account is in maintenance mode.''\<rparr>"

definition UserStoppedMarketingMessagesError :: error_class where
  "UserStoppedMarketingMessagesError = \<lparr>cls_name = ''UserStoppedMarketingMessagesError'', cls_base = ApiBase, cls_errorCode = 131050,
     cls_fallback = ''User has stopped marketing messages from the business.''\<rparr>"

definition RecipientIdentityKeyMismatchError :: error_class where
  "RecipientIdentityKeyMismatchError = \<lparr>cls_name = ''RecipientIdentityKeyMismatchError'', cls_base = ApiBase, cls_errorCode = 137000,
     cls_fallback = ''The recipient's identity key hash does not match the one on record.''\<rparr>"

definition FlowBlockedByIntegrityError :: error_class where
  "FlowBlockedByIntegrityError = \<lparr>cls_name = ''FlowBlockedByIntegrityError'', cls_base = ApiBase, cls_errorCode = 139000,
     cls_fallback = ''Flow blocked by an integrity issue on the account.''\<rparr>"

definition FlowUpdatingError :: error_class where
  "FlowUpdatingError = \<lparr>cls_name = ''FlowUpdatingError'', cls_base = ApiBase, cls_errorCode = 139001,
     cls_fallback = ''Flow failed to update.''\<rparr>"

definition FlowPublishingError :: error_class where
  "FlowPublishingError = \<lparr>cls_name = ''FlowPublishingError'', cls_base = ApiBase, cls_errorCode = 139002,
     cls_fallback = ''Flow failed to publish.''\<rparr>"

definition FlowDeprecatingError :: error_class where
  "FlowDeprecatingError = \<lparr>cls_name = ''FlowDeprecatingError'', cls_base = ApiBase, cls_errorCode = 139003,
     cls_fallback = ''Flow failed to deprecate.''\<rparr>"

definition FlowDeletingError :: error_class where
  "FlowDeletingError = \<lparr>cls_name = ''FlowDeletingError'', cls_base = ApiBase, cls_errorCode = 139004,
     cls_fallback = ''Flow failed to delete.''\<rparr>"

definition BulkBlockingFailedError :: error_class where
  "BulkBlockingFailedError = \<lparr>cls_name = ''BulkBlockingFailedError'', cls_base = ApiBase, cls_errorCode = 139100,
     cls_fallback = ''Bulk blocking failed for some users.''\<rparr>"

definition BlockListLimitReachedError :: error_class where
  "BlockListLimitReachedError = \<lparr>cls_name = ''BlockListLimitReachedError'', cls_base = ApiBase, cls_errorCode = 139101,
     cls_fallback = ''Blocklist limit reached (64k).''\<rparr>"

definition BlockListConcurrentUpdateError :: error_class where
  "BlockListConcurrentUpdateError = \<lparr>cls_name = ''BlockListConcurrentUpdateError'', cls_base = ApiBase, cls_errorCode = 139102,
     cls_fallback = ''Blocklist concurrent update - version_id mismatch.''\<rparr>"

definition BlockUserInternalError :: error_class where
  "BlockUserInternalError = \<lparr>cls_name = ''BlockUserInternalError'', cls_base = ApiBase, cls_errorCode = 139103,
     cls_fallback = ''Block-user internal error.''\<rparr>"

definition CallingNotEnabledError :: error_class where
  "CallingNotEnabledError = \<lparr>cls_name = ''CallingNotEnabledError'', cls_base = ApiBase, cls_errorCode = 138000,
     cls_fallback = ''Calling is not enabled on this phone number.''\<rparr>"

definition CallingCannotBeEnabledError :: error_class where
  "CallingCannotBeEnabledError = \<lparr>cls_name = ''CallingCannotBeEnabledError'', cls_base = ApiBase, cls_errorCode = 138018,
     cls_fallback = ''Calling cannot be enabled - technical pre-requisites not met.''\<rparr>"

definition ReceiverUncallableError :: error_class where
  "ReceiverUncallableError = \<lparr>cls_name = ''ReceiverUncallableError'', cls_base = ApiBase, cls_errorCode = 138001,
     cls_fallback = ''Receiver is unable to receive calls.''\<rparr>"

definition ConcurrentCallsLimitError :: error_class where
  "ConcurrentCallsLimitError = \<lparr>cls_name = ''ConcurrentCallsLimitError'', cls_base = ApiBase, cls_errorCode = 138002,
     cls_fallback = ''Limit reached for concurrent calls.''\<rparr>"

definition DuplicateCallError :: error_class where
  "DuplicateCallError = \<lparr>cls_name = ''DuplicateCallError'', cls_base = ApiBase, cls_errorCode = 138003,
     cls_fallback = ''A call is already ongoing with the receiver.''\<rparr>"

definition CallConnectionError :: error_class where
  "CallConnectionError = \<lparr>cls_name = ''CallConnectionError'', cls_base = ApiBase, cls_errorCode = 138004,
     cls_fallback = ''Error while connecting the call.''\<rparr>"

definition CallRateLimitExceededError :: error_class where
  "CallRateLimitExceededError = \<lparr>cls_name = ''CallRateLimitExceededError'', cls_base = ApiBase, cls_errorCode = 138005,
     cls_fallback = ''Limit reached for maximum calls from this phone number.''\<rparr>"

definition CallPermissionNotFoundError :: error_class where
  "CallPermissionNotFoundError = \<lparr>cls_name = ''CallPermissionNotFoundError'', cls_base = ApiBase, cls_errorCode = 138006,
     cls_fallback = ''No approved call permission from the recipient.''\<rparr>"

definition CallConnectionTimeoutError :: error_class where
  "CallConnectionTimeoutError = \<lparr>cls_name = ''CallConnectionTimeoutError'', cls_base = ApiBase, cls_errorCode = 138007,
     cls_fallback = ''Call was unable to connect due to a timeout.''\<rparr>"

definition CallPermissionRequestLimitHitError :: error_class where
  "CallPermissionRequestLimitHitError = \<lparr>cls_name = ''CallPermissionRequestLimitHitError'', cls_base = ApiBase, cls_errorCode = 138009,
     cls_fallback = ''Limit reached for call-permission-request sends.''\<rparr>"

definition BusinessInitiatedCallsLimitHitError :: error_class where
  "BusinessInitiatedCallsLimitHitError = \<lparr>cls_name = ''BusinessInitiatedCallsLimitHitError'', cls_base = ApiBase, cls_errorCode = 138012,
     cls_fallback = ''Limit reached for business-initiated calls in 24 hours.''\<rparr>"

definition FetchCallPermissionLimitHitError :: error_class where
  "FetchCallPermissionLimitHitError = \<lparr>cls_name = ''FetchCallPermissionLimitHitError'', cls_base = ApiBase, cls_errorCode = 138013,
     cls_fallback = ''Limit reached for fetch-call-permission API requests.''\<rparr>"

lemmas class_defs =
  AuthException_def APIMethodError_def PermissionDeniedError_def
  ExpiredAccessTokenError_def APIPermissionError_def ToManyAPICallsError_def
  RateLimitIssuesError_def RateLimitHitError_def SpamRateLimitHitError_def
  TooManyMessagesError_def TemporarilyBlockedError_def AccountLockedError_def
  AccountRestrictedFromCountryError_def UserIsInExperimentGroupError_def MessageUndeliverableError_def
  ReEngagementMessageError_def UnsupportedMessageTypeError_def MediaDownloadError_def
  MediaUploadError_def RecipientNotInAllowedListError_def InvalidParameterError_def
  MissingRequiredParameterError_def TemplateParamCountMismatchError_def TemplateNotExistsError_def
  TemplateTextTooLongError_def TemplateContentPolicyViolationError_def TemplateParamValueInvalidError_def
  TemplateParamFormatMismatchError_def TemplatePausedError_def TemplateDisabledError_def
  InvalidTemplateParameterError_def TemplateClassificationRateLimitError_def MarketingMessagesLiteUnsupportedMessageTypeError_def
  MarketingMessagesLiteUnsupportedTemplateCategoryError_def MarketingMessagesLiteInvalidFlowError_def MarketingMessagesLiteUnsupportedTemplateStructureError_def
  InvalidTemplateCursorError_def FlowBlockedError_def FlowThrottledError_def
  GenericError_def UnknownError_def AccessDeniedError_def
  ServiceUnavailableError_def RecipientCannotBeSenderError_def BusinessPaymentIssueError_def
  IncorrectCertificateError_def AccountInMaintenanceModeError_def UserStoppedMarketingMessagesError_def
  RecipientIdentityKeyMismatchError_def FlowBlockedByIntegrityError_def FlowUpdatingError_def
  FlowPublishingError_def FlowDeprecatingError_def FlowDeletingError_def
  BulkBlockingFailedError_def BlockListLimitReachedError_def BlockListConcurrentUpdateError_def
  BlockUserInternalError_def CallingNotEnabledError_def CallingCannotBeEnabledError_def
  ReceiverUncallableError_def ConcurrentCallsLimitError_def DuplicateCallError_def
  CallConnectionError_def CallRateLimitExceededError_def CallPermissionNotFoundError_def
  CallConnectionTimeoutError_def CallPermissionRequestLimitHitError_def BusinessInitiatedCallsLimitHitError_def
  FetchCallPermissionLimitHitError_def

definition BUILT_IN_SEEDS :: "(int \<times> string \<times> error_class) list" where
  "BUILT_IN_SEEDS = [
     (0, ''AuthException'', AuthException),
     (3, ''APIMethodError'', APIMethodError),
     (10, ''PermissionDeniedError'', PermissionDeniedError),
     (190, ''ExpiredAccessTokenError'', ExpiredAccessTokenError),
     (200, ''APIPermissionError'', APIPermissionError),
     (4, ''ToManyAPICallsError'', ToManyAPICallsError),
     (80007, ''RateLimitIssuesError'', RateLimitIssuesError),
     (130429, ''RateLimitHitError'', RateLimitHitError),
     (131048, ''SpamRateLimitHitError'', SpamRateLimitHitError),
     (131056, ''TooManyMessagesError'', TooManyMessagesError),
     (368, ''TemporarilyBlockedError'', TemporarilyBlockedError),
     (131031, ''AccountLockedError'', AccountLockedError),
     (130497, ''AccountRestrictedFromCountryError'', AccountRestrictedFromCountryError),
     (130472, ''UserIsInExperimentGroupError'', UserIsInExperimentGroupError),
     (131026, ''MessageUndeliverableError'', MessageUndeliverableError),
     (131047, ''ReEngagementMessageError'', ReEngagementMessageError),
     (131051, ''UnsupportedMessageTypeError'', UnsupportedMessageTypeError),
     (131052, ''MediaDownloadError'', MediaDownloadError),
     (131053, ''MediaUploadError'', MediaUploadError),
     (131030, ''RecipientNotInAllowedListError'', RecipientNotInAllowedListError),
     (131009, ''InvalidParameterError'', InvalidParameterError),
     (131008, ''MissingRequiredParameterError'', MissingRequiredParameterError),
     (132000, ''TemplateParamCountMismatchError'', TemplateParamCountMismatchError),
     (132001, ''TemplateNotExistsError'', TemplateNotExistsError),
     (132005, ''TemplateTextTooLongError'', TemplateTextTooLongError),
     (132007, ''TemplateContentPolicyViolationError'', TemplateContentPolicyViolationError),
     (132008, ''TemplateParamValueInvalidError'', TemplateParamValueInvalidError),
     (132012, ''TemplateParamFormatMismatchError'', TemplateParamFormatMismatchError),
     (132015, ''TemplatePausedError'', TemplatePausedError),
     (132016, ''TemplateDisabledError'', TemplateDisabledError),
     (132018, ''InvalidTemplateParameterError'', InvalidTemplateParameterError),
     (132068, ''FlowBlockedError'', FlowBlockedError),
     (132069, ''FlowThrottledError'', FlowThrottledError),
     (135000, ''GenericError'', GenericError),
     (131000, ''UnknownError'', UnknownError),
     (131005, ''AccessDeniedError'', AccessDeniedError),
     (131016, ''ServiceUnavailableError'', ServiceUnavailableError),
     (131021, ''RecipientCannotBeSenderError'', RecipientCannotBeSenderError),
     (131042, ''BusinessPaymentIssueError'', BusinessPaymentIssueError),
     (131044, ''BusinessPaymentIssueError'', BusinessPaymentIssueError),
     (131045, ''IncorrectCertificateError'', IncorrectCertificateError),
     (131057, ''AccountInMaintenanceModeError'', AccountInMaintenanceModeError),
     (131059, ''InvalidTemplateCursorError'', InvalidTemplateCursorError),
     (131064, ''TemplateClassificationRateLimitError'', TemplateClassificationRateLimitError),
     (131050, ''UserStoppedMarketingMessagesError'', UserStoppedMarketingMessagesError),
     (137000, ''RecipientIdentityKeyMismatchError'', RecipientIdentityKeyMismatchError),
     (139000, ''FlowBlockedByIntegrityError'', FlowBlockedByIntegrityError),
     (139001, ''FlowUpdatingError'', FlowUpdatingError),
     (139002, ''FlowPublishingError'', FlowPublishingError),
     (139003, ''FlowDeprecatingError'', FlowDeprecatingError),
     (139004, ''FlowDeletingError'', FlowDeletingError),
     (139100, ''BulkBlockingFailedError'', BulkBlockingFailedError),
     (139101, ''BlockListLimitReachedError'', BlockListLimitReachedError),
     (139102, ''BlockListConcurrentUpdateError'', BlockListConcurrentUpdateError),
     (139103, ''BlockUserInternalError'', BlockUserInternalError),
     (134100, ''MarketingMessagesLiteUnsupportedMessageTypeError'', MarketingMessagesLiteUnsupportedMessageTypeError),
     (134101, ''MarketingMessagesLiteUnsupportedTemplateCategoryError'', MarketingMessagesLiteUnsupportedTemplateCategoryError),
     (134102, ''MarketingMessagesLiteInvalidFlowError'', MarketingMessagesLiteInvalidFlowError),
     (134103, ''MarketingMessagesLiteUnsupportedTemplateStructureError'', MarketingMessagesLiteUnsupportedTemplateStructureError),
     (138000, ''CallingNotEnabledError'', CallingNotEnabledError),
     (138018, ''CallingCannotBeEnabledError'', CallingCannotBeEnabledError),
     (138001, ''ReceiverUncallableError'', ReceiverUncallableError),
     (138002, ''ConcurrentCallsLimitError'', ConcurrentCallsLimitError),
     (138003, ''DuplicateCallError'', DuplicateCallError),
     (138004, ''CallConnectionError'', CallConnectionError),
     (138005, ''CallRateLimitExceededError'', CallRateLimitExceededError),
     (138006, ''CallPermissionNotFoundError'', CallPermissionNotFoundError),
     (138007, ''CallConnectionTimeoutError'', CallConnectionTimeoutError),
     (138009, ''CallPermissionRequestLimitHitError'', CallPermissionRequestLimitHitError),
     (138012, ''BusinessInitiatedCallsLimitHitError'', BusinessInitiatedCallsLimitHitError),
     (138013, ''FetchCallPermissionLimitHitError'', FetchCallPermissionLimitHitError),
     (613, ''FetchCallPermissionLimitHitError'', FetchCallPermissionLimitHitError),
     (100, ''InvalidParameterError'', InvalidParameterError)]"

definition seedEntry :: "int \<times> string \<times> error_class \<Rightarrow> registry_entry" where
  "seedEntry seed = (case seed of (code, nm, cls) \<Rightarrow>
     \<lparr>re_code = code, re_subcode = None, re_errorName = nm, re_factory = constructError cls\<rparr>)"

definition registerBuiltInErrorCodes :: "error_registry \<Rightarrow> error_registry" where
  "registerBuiltInErrorCodes reg = (if builtInRegistered reg then reg
     else (fold (\<lambda>seed. putEntry (seedEntry seed)) BUILT_IN_SEEDS reg)\<lparr>builtInRegistered := True\<rparr>)"

subsection \<open>From a response to an error\<close>

definition intOfNum :: "jsnum \<Rightarrow> int" where
  "intOfNum x = (case x of Fin r \<Rightarrow> \<lfloor>r\<rfloor> | _ \<Rightarrow> 0)"

text \<open>A code that is no natural number has a key under which nothing can be registered.\<close>

definition registrable :: "jsnum \<Rightarrow> bool" where
  "registrable x = (isIntegerNum x \<and> 0 \<le> intOfNum x)"

definition lookupEntry :: "error_payload option \<Rightarrow> error_registry \<Rightarrow> registry_entry option" where
  "lookupEntry payload reg = (case payload of
     None \<Rightarrow> None
   | Some p \<Rightarrow> (case p_code p of
       None \<Rightarrow> None
     | Some c \<Rightarrow> if \<not> registrable c then None
         else resolveRegisteredError (intOfNum c)
           (case p_subcode p of
              Some s \<Rightarrow> if registrable s then Some (intOfNum s) else None
            | None \<Rightarrow> None) reg))"

definition genericError :: "int \<Rightarrow> error_payload option \<Rightarrow> string \<Rightarrow> string option \<Rightarrow> error_base \<Rightarrow> graph_error" where
  "genericError status payload msg retry base = newGraphError
     (case base of ApiBase \<Rightarrow> ''GraphApiError'' | AuthBase \<Rightarrow> ''GraphAuthError'' | RateLimitBase \<Rightarrow> ''GraphRateLimitError'')
     base msg status payload retry"

definition createGraphApiError ::
  "error_registry \<Rightarrow> int \<Rightarrow> error_payload option \<Rightarrow> string option \<Rightarrow> bool \<Rightarrow> headers_arg \<Rightarrow> graph_error" where
  "createGraphApiError reg status payload fallbackMessage classify headers =
     (let message = (case (case payload of None \<Rightarrow> None | Some p \<Rightarrow> p_message p) of
          Some m \<Rightarrow> m
        | None \<Rightarrow> (case fallbackMessage of Some m \<Rightarrow> m | None \<Rightarrow> ''Graph API request failed''));
        retryAfter = readRetryAfterHeader headers;
        generic = genericError status payload message retryAfter
      in
      if \<not> classify then generic ApiBase
      else (case lookupEntry payload reg of
        Some en \<Rightarrow>
          (let inst = re_factory en \<lparr>fc_payload = payload, fc_status = status,
               fc_headers = (case headers of NoHeaders \<Rightarrow> HeadersOf [] | h \<Rightarrow> h)\<rparr> in
           if ge_base inst = AuthBase \<and> \<not> isAuthClassification status payload then generic ApiBase
           else if ge_base inst = RateLimitBase \<and> \<not> isRateLimitClassification status payload then generic ApiBase
           else inst)
      | None \<Rightarrow>
          if isAuthClassification status payload then generic AuthBase
          else if isRateLimitClassification status payload then generic RateLimitBase
          else generic ApiBase))"

subsection \<open>Keys\<close>

lemma showNat_digits: "list_all is_digit (showNat n)"
  by (induction n rule: showNat.induct) (subst showNat.simps, auto simp: is_digit_digit_char)

lemma num_showNat: "num (showNat n) = int n"
proof (induction n rule: showNat.induct)
  case (1 n)
  show ?case
  proof (cases "n < 10")
    case True
    then show ?thesis by (subst showNat.simps) (simp add: num_def code_of_digit_char)
  next
    case False
    have "num (showNat n) = 10 * num (showNat (n div 10)) + int (n mod 10)"
      using False by (subst showNat.simps) (simp add: num_def num_from_append code_of_digit_char)
    moreover have "int n = 10 * int (n div 10) + int (n mod 10)" by presburger
    ultimately show ?thesis using 1 [OF False] by simp
  qed
qed

lemma showNat_inject [simp]: "showNat m = showNat n \<longleftrightarrow> m = n"
  by (metis num_showNat of_nat_eq_iff)

lemma colon_no_digit: "\<not> is_digit (CHR '':'')"
  by code_simp

lemma takeWhile_showNat: "takeWhile is_digit (showNat n @ CHR '':'' # cs) = showNat n"
  "dropWhile is_digit (showNat n @ CHR '':'' # cs) = CHR '':'' # cs"
  using showNat_digits [of n] colon_no_digit
  by (auto simp: takeWhile_append dropWhile_append list_all_iff)

lemma showNat_nonempty [simp]: "showNat n \<noteq> []"
  by (subst showNat.simps) simp

lemma keyFor_inject:
  assumes "0 \<le> c" "0 \<le> c'" "\<forall>s \<in> set_option sub. 0 \<le> s" "\<forall>s \<in> set_option sub'. 0 \<le> s"
  shows "keyFor c sub = keyFor c' sub' \<longleftrightarrow> c = c' \<and> sub = sub'"
proof
  assume eq: "keyFor c sub = keyFor c' sub'"
  define tl where "tl = (\<lambda>s. case s of None \<Rightarrow> [] | Some x \<Rightarrow> showNat (nat x))"
  have k: "keyFor c s = showNat (nat c) @ CHR '':'' # tl s" for c s
    by (simp add: keyFor_def tl_def split: option.split)
  from eq have "showNat (nat c) = showNat (nat c')" "tl sub = tl sub'"
    unfolding k by (metis takeWhile_showNat(1), metis takeWhile_showNat(2) list.inject)
  with assms show "c = c' \<and> sub = sub'"
    by (cases sub; cases sub') (auto simp: tl_def eq_commute [of "[]"])
qed simp

subsection \<open>Lookup\<close>

lemma map_of_mapSet: "map_of (mapSet k v kvs) = (map_of kvs)(k \<mapsto> v)"
  by (induction k v kvs rule: mapSet.induct) auto

definition entryOk :: "registry_entry \<Rightarrow> bool" where
  "entryOk en \<longleftrightarrow> 0 \<le> re_code en \<and> (\<forall>s \<in> set_option (re_subcode en). 0 \<le> s)"

lemma validateCode_Inr: "validateCode v = Inr c \<Longrightarrow> 0 \<le> c"
  by (auto simp: validateCode_def split: jsval.splits jsnum.splits if_splits)

lemma validateEntry_ok:
  assumes "validateEntry v f = Inr en"
  shows "entryOk en"
proof -
  from assms obtain ps code sub nm where
    "validateCode (js_get ps ''code'') = Inr code"
    "(if js_get ps ''subcode'' = JUndef then Inr None
      else bindE (validateCode (js_get ps ''subcode'')) (\<lambda>s. Inr (Some s))) = Inr sub"
    "re_code en = code" "re_subcode en = sub"
    by (cases "objectProps v", simp_all add: validateEntry_def bindE_Inr, elim exE conjE,
      auto split: jsval.splits if_splits)
  then show ?thesis
    by (auto simp: entryOk_def bindE_Inr dest!: validateCode_Inr split: if_splits)
qed

definition emptyRegistry :: error_registry where
  "emptyRegistry = \<lparr>reg_entries = [], builtInRegistered = False\<rparr>"

lemma map_of_puts:
  assumes "list_all entryOk ens" "0 \<le> c" "\<forall>s \<in> set_option sub. 0 \<le> s"
  shows "map_of (reg_entries (fold putEntry ens reg)) (keyFor c sub) =
    (case find (\<lambda>e. re_code e = c \<and> re_subcode e = sub) (rev ens) of
       Some en \<Rightarrow> Some en | None \<Rightarrow> map_of (reg_entries reg) (keyFor c sub))"
  using assms(1)
proof (induction ens rule: rev_induct)
  case Nil
  then show ?case by simp
next
  case (snoc en ens)
  then have ok: "0 \<le> re_code en" "\<forall>s \<in> set_option (re_subcode en). 0 \<le> s" by (simp_all add: entryOk_def)
  have "keyFor c sub = keyFor (re_code en) (re_subcode en) \<longleftrightarrow> re_code en = c \<and> re_subcode en = sub"
    using keyFor_inject [OF assms(2) ok(1) assms(3) ok(2)] by auto
  with snoc show ?case by (simp add: putEntry_def map_of_mapSet)
qed

subsection \<open>The built-in registry\<close>

definition builtIns :: error_registry where
  "builtIns = registerBuiltInErrorCodes emptyRegistry"

lemma seeds_distinct: "distinct (map fst BUILT_IN_SEEDS)"
  by (simp add: BUILT_IN_SEEDS_def)

lemma seeds_table:
  "list_all (\<lambda>(c, nm, cls). 0 \<le> c \<and> cls_name cls = nm
     \<and> (cls_base cls = RateLimitBase \<longleftrightarrow> c \<in> set RATE_LIMIT_CODES)) BUILT_IN_SEEDS"
  by (simp add: BUILT_IN_SEEDS_def class_defs RATE_LIMIT_CODES_def)

lemma seedsD:
  assumes "(c, nm, cls) \<in> set BUILT_IN_SEEDS"
  shows "0 \<le> c" "cls_name cls = nm" "cls_base cls = RateLimitBase \<longleftrightarrow> c \<in> set RATE_LIMIT_CODES"
  using seeds_table assms by (auto simp: list_all_iff)

lemma find_unique:
  assumes "x \<in> set xs" "P x" "\<And>y. y \<in> set xs \<Longrightarrow> P y \<Longrightarrow> y = x"
  shows "find P xs = Some x"
proof (cases "find P xs")
  case None
  with assms(1,2) show ?thesis by (auto simp: find_None_iff)
next
  case (Some y)
  then have "y \<in> set xs" "P y" by (auto simp: find_Some_iff)
  with assms(3) Some show ?thesis by metis
qed

lemma builtIns_lookup:
  assumes "(c, nm, cls) \<in> set BUILT_IN_SEEDS" "\<forall>s \<in> set_option sub. 0 \<le> s"
  shows "resolveRegisteredError c sub builtIns = Some (seedEntry (c, nm, cls))"
proof -
  let ?ens = "map seedEntry BUILT_IN_SEEDS"
  have ok: "list_all entryOk ?ens"
    using seedsD(1) by (auto simp: list_all_iff entryOk_def seedEntry_def)
  have regs: "map_of (reg_entries builtIns) k = map_of (reg_entries (fold putEntry ?ens emptyRegistry)) k" for k
    by (simp add: builtIns_def registerBuiltInErrorCodes_def emptyRegistry_def fold_map comp_def)
  note look = map_of_puts [OF ok seedsD(1) [OF assms(1)], of _ emptyRegistry]
  have "map_of (reg_entries builtIns) (keyFor c (Some s)) = None" if "sub = Some s" for s
  proof -
    have "find (\<lambda>e. re_code e = c \<and> re_subcode e = Some s) (rev ?ens) = None"
      by (auto simp: find_None_iff seedEntry_def)
    with look [of "Some s"] assms(2) that show ?thesis by (simp add: regs emptyRegistry_def)
  qed
  moreover have "map_of (reg_entries builtIns) (keyFor c None) = Some (seedEntry (c, nm, cls))"
  proof -
    have "find (\<lambda>e. re_code e = c \<and> re_subcode e = None) (rev ?ens) = Some (seedEntry (c, nm, cls))"
    proof (rule find_unique)
      fix en
      assume "en \<in> set (rev ?ens)" "re_code en = c \<and> re_subcode en = None"
      then obtain x where x: "x \<in> set BUILT_IN_SEEDS" "en = seedEntry x" "fst x = c"
        by (auto simp: seedEntry_def)
      then have "x = (c, nm, cls)" using distinct_map_filter_eq [OF seeds_distinct x(1) assms(1)] by simp
      with x show "en = seedEntry (c, nm, cls)" by simp
    next
      show "seedEntry (c, nm, cls) \<in> set (rev ?ens)" using assms(1) by (simp del: split_paired_Ex)
      show "re_code (seedEntry (c, nm, cls)) = c \<and> re_subcode (seedEntry (c, nm, cls)) = None"
        by (simp add: seedEntry_def)
    qed
    with look [of None] show ?thesis by (simp add: regs)
  qed
  ultimately show ?thesis
    by (cases sub) (simp_all add: resolveRegisteredError_def Let_def)
qed

subsection \<open>Redaction\<close>

text \<open>\<open>/Bearer\\s+\\S+/\<close> at the start of a string: the token and what follows it.\<close>

definition bearerAt :: "string \<Rightarrow> (string \<times> string) option" where
  "bearerAt s = (if \<not> js_prefix ''Bearer'' s then None else
     (let r = drop 6 s; r2 = dropWhile js_space r in
      if takeWhile js_space r = [] \<or> r2 = [] then None
      else Some (takeWhile (\<lambda>c. \<not> js_space c) r2, dropWhile (\<lambda>c. \<not> js_space c) r2)))"

lemma bearerAt_shorter: "bearerAt s = Some (tok, rest) \<Longrightarrow> length rest < length s"
proof -
  assume "bearerAt s = Some (tok, rest)"
  then have p: "js_prefix ''Bearer'' s" and r: "rest = dropWhile (\<lambda>c. \<not> js_space c) (dropWhile js_space (drop 6 s))"
    by (auto simp: bearerAt_def Let_def split: if_splits)
  have "length rest \<le> length (drop 6 s)"
    unfolding r by (metis length_dropWhile_le order_trans)
  moreover from p have "6 \<le> length s" by (auto simp: js_prefix_iff)
  ultimately show ?thesis by simp
qed

function redactString :: "string \<Rightarrow> string" where
  "redactString [] = []"
| "redactString (c # cs) = (case bearerAt (c # cs) of
     Some (tok, rest) \<Rightarrow> ''Bearer ***'' @ redactString rest
   | None \<Rightarrow> c # redactString cs)"
  by pat_completeness auto

termination
  by (relation "measure length") (auto dest!: bearerAt_shorter [OF sym] bearerAt_shorter)

datatype error_value =
    EvString string
  | EvOther nat
  | EvError (ev_name: string) (ev_message: string) (ev_stack: "string option")
      (ev_cause: "error_value option") (ev_props: "(string \<times> error_value) list")

definition redactProp :: "string \<times> error_value \<Rightarrow> string \<times> error_value" where
  "redactProp p = (case p of (k, EvString s) \<Rightarrow> (k, EvString (redactString s)) | _ \<Rightarrow> p)"

fun scrubErrorCause :: "error_value \<Rightarrow> error_value" where
  "scrubErrorCause (EvString s) = EvString (redactString s)"
| "scrubErrorCause (EvOther n) = EvOther n"
| "scrubErrorCause (EvError nm msg st cause ps) =
     EvError nm (redactString msg) (map_option redactString st)
       (case cause of None \<Rightarrow> None | Some e \<Rightarrow> Some (scrubErrorCause e))
       (map redactProp (filter (\<lambda>(k, v). k \<notin> {''message'', ''stack'', ''name'', ''cause''}) ps))"

text \<open>No bearer token is left in a string, or anywhere along an error's chain of causes.\<close>

definition tokenFree :: "string \<Rightarrow> bool" where
  "tokenFree s \<longleftrightarrow> (\<forall>i tok rest. bearerAt (drop i s) = Some (tok, rest) \<longrightarrow> tok = ''***'')"

fun errorTokenFree :: "error_value \<Rightarrow> bool" where
  "errorTokenFree (EvString s) = tokenFree s"
| "errorTokenFree (EvOther n) = True"
| "errorTokenFree (EvError nm msg st cause ps) = (tokenFree msg
     \<and> (case st of None \<Rightarrow> True | Some s \<Rightarrow> tokenFree s)
     \<and> (case cause of None \<Rightarrow> True | Some e \<Rightarrow> errorTokenFree e)
     \<and> (\<forall>k s. (k, EvString s) \<in> set ps \<longrightarrow> tokenFree s))"

lemma redact_copied:
  "redactString t = p @ u \<Longrightarrow> CHR ''B'' \<notin> set p \<Longrightarrow> \<exists>t'. t = p @ t' \<and> redactString t' = u"
proof (induction p arbitrary: t)
  case Nil
  then show ?case by simp
next
  case (Cons x p)
  then obtain c cs where t: "t = c # cs" by (cases t) auto
  with Cons.prems have n: "bearerAt (c # cs) = None" by (auto split: option.splits)
  with t Cons.prems have "c = x" "redactString cs = p @ u" by auto
  with Cons.IH [of cs] Cons.prems t show ?case by auto
qed

lemma redact_head:
  "redactString t = x # u \<Longrightarrow> \<exists>c cs. t = c # cs \<and> (c = x)"
proof -
  assume r: "redactString t = x # u"
  then obtain c cs where t: "t = c # cs" by (cases t) auto
  show ?thesis
  proof (cases "bearerAt (c # cs)")
    case None
    with r t show ?thesis by simp
  next
    case (Some a)
    then have "js_prefix ''Bearer'' (c # cs)" by (auto simp: bearerAt_def split: if_splits)
    with r t Some show ?thesis by (auto split: prod.splits)
  qed
qed

lemma space_not_B: "js_space (CHR ''B'') = False" "js_space (CHR '' '')" "\<not> js_space (CHR ''*'')"
  by code_simp+

lemma bearerAt_Bearer:
  "bearerAt (''Bearer'' @ r) = (if takeWhile js_space r = [] \<or> dropWhile js_space r = [] then None
     else Some (takeWhile (\<lambda>c. \<not> js_space c) (dropWhile js_space r),
       dropWhile (\<lambda>c. \<not> js_space c) (dropWhile js_space r)))"
proof -
  have "js_prefix ''Bearer'' (''Bearer'' @ r)" "drop 6 (''Bearer'' @ r) = r" by simp_all
  then show ?thesis unfolding bearerAt_def Let_def by presburger
qed

lemma bearerAt_iff:
  "bearerAt s = Some (tok, rest) \<longleftrightarrow>
    (\<exists>ws r2. s = ''Bearer'' @ ws @ r2 \<and> ws \<noteq> [] \<and> list_all js_space ws \<and> r2 \<noteq> [] \<and> \<not> js_space (hd r2)
      \<and> tok = takeWhile (\<lambda>c. \<not> js_space c) r2 \<and> rest = dropWhile (\<lambda>c. \<not> js_space c) r2)"
proof
  assume b: "bearerAt s = Some (tok, rest)"
  then obtain r where s: "s = ''Bearer'' @ r" by (auto simp: bearerAt_def js_prefix_iff split: if_splits)
  let ?ws = "takeWhile js_space r" and ?r2 = "dropWhile js_space r"
  have ne: "\<not> (?ws = [] \<or> ?r2 = [])"
  proof
    assume "?ws = [] \<or> ?r2 = []"
    then have "bearerAt s = None" unfolding s bearerAt_Bearer by (rule if_P)
    with b show False by simp
  qed
  then have "bearerAt s = Some (takeWhile (\<lambda>c. \<not> js_space c) ?r2, dropWhile (\<lambda>c. \<not> js_space c) ?r2)"
    unfolding s bearerAt_Bearer by (rule if_not_P)
  with b have "tok = takeWhile (\<lambda>c. \<not> js_space c) ?r2 \<and> rest = dropWhile (\<lambda>c. \<not> js_space c) ?r2"
    by (metis option.inject prod.inject)
  moreover have "?ws \<noteq> []" "?r2 \<noteq> []" using ne by blast+
  moreover have "list_all js_space ?ws" by (auto simp: list_all_iff dest: set_takeWhileD)
  moreover have "s = ''Bearer'' @ ?ws @ ?r2" by (simp add: s)
  moreover have "\<not> js_space (hd ?r2)" using hd_dropWhile [OF \<open>?r2 \<noteq> []\<close>] .
  ultimately show "\<exists>ws r2. s = ''Bearer'' @ ws @ r2 \<and> ws \<noteq> [] \<and> list_all js_space ws \<and> r2 \<noteq> []
      \<and> \<not> js_space (hd r2) \<and> tok = takeWhile (\<lambda>c. \<not> js_space c) r2 \<and> rest = dropWhile (\<lambda>c. \<not> js_space c) r2"
    by blast
next
  assume "\<exists>ws r2. s = ''Bearer'' @ ws @ r2 \<and> ws \<noteq> [] \<and> list_all js_space ws \<and> r2 \<noteq> []
      \<and> \<not> js_space (hd r2) \<and> tok = takeWhile (\<lambda>c. \<not> js_space c) r2 \<and> rest = dropWhile (\<lambda>c. \<not> js_space c) r2"
  then obtain ws r2 where s: "s = ''Bearer'' @ ws @ r2" "ws \<noteq> []" "list_all js_space ws" "r2 \<noteq> []"
    "\<not> js_space (hd r2)" "tok = takeWhile (\<lambda>c. \<not> js_space c) r2" "rest = dropWhile (\<lambda>c. \<not> js_space c) r2" by blast
  then have "takeWhile js_space (ws @ r2) = ws" "dropWhile js_space (ws @ r2) = r2"
    by (cases r2; auto simp: takeWhile_append dropWhile_append list_all_iff)+
  then show "bearerAt s = Some (tok, rest)" using s(2,4,6,7) unfolding s(1) bearerAt_Bearer by presburger
qed

lemma redacted_match:
  assumes "bearerAt (redactString s) = Some (tok, rest)"
  shows "tok = ''***''"
proof (cases s)
  case Nil
  with assms show ?thesis by (simp add: bearerAt_def)
next
  case (Cons c cs)
  show ?thesis
  proof (cases "bearerAt (c # cs)")
    case (Some a)
    then obtain tok' rest' where a: "bearerAt (c # cs) = Some (tok', rest')" by (cases a) auto
    then have "rest' = [] \<or> js_space (hd rest')" by (auto simp: bearerAt_iff dest: hd_dropWhile)
    then have sp: "redactString rest' = [] \<or> js_space (hd (redactString rest'))"
      using redact_head [of rest'] by (cases "redactString rest'") auto
    have "bearerAt (''Bearer ***'' @ redactString rest') = Some (''***'', redactString rest')"
      using sp by (cases "redactString rest'") (simp_all add: bearerAt_def space_not_B)
    with assms Cons a show ?thesis by simp
  next
    case None
    with Cons have r: "redactString s = c # redactString cs" by simp
    from assms obtain ws r2 where
      m: "c # redactString cs = ''Bearer'' @ ws @ r2" "ws \<noteq> []" "list_all js_space ws" "r2 \<noteq> []"
        "\<not> js_space (hd r2)" unfolding bearerAt_iff r by blast
    have B: "CHR ''B'' \<notin> set (''earer'' @ ws)" using m(3) by (auto simp: list_all_iff space_not_B)
    from m(1) have "c = CHR ''B''" "redactString cs = (''earer'' @ ws) @ r2" by simp_all
    from this(1) redact_copied [OF this(2) B] obtain t' where
      t': "c # cs = ''Bearer'' @ ws @ t'" "redactString t' = r2" by auto
    from m(4) obtain x u where "r2 = x # u" by (cases r2) auto
    with redact_head [of t' x u] t'(2) m(5) have "t' \<noteq> []" "\<not> js_space (hd t')" by auto
    with t'(1) m(2,3) have "bearerAt (c # cs) \<noteq> None" by (metis bearerAt_iff option.distinct(1))
    with None show ?thesis by simp
  qed
qed

lemma tokenFree_redacted: "tokenFree (redactString s)"
  unfolding tokenFree_def
proof (intro allI impI)
  fix i tok rest
  assume "bearerAt (drop i (redactString s)) = Some (tok, rest)"
  then show "tok = ''***''"
  proof (induction s arbitrary: i rule: redactString.induct)
    case 1
    then show ?case by (simp add: bearerAt_def)
  next
    case (2 c cs)
    show ?case
    proof (cases i)
      case 0
      with "2.prems" show ?thesis by (simp only: drop_0) (rule redacted_match)
    next
      case (Suc j)
      show ?thesis
      proof (cases "bearerAt (c # cs)")
        case None
        with "2.IH"(1) "2.prems" Suc show ?thesis by simp
      next
        case (Some a)
        then obtain t r where a: "bearerAt (c # cs) = Some (t, r)" by (cases a) auto
        then have red: "redactString (c # cs) = ''Bearer ***'' @ redactString r" by simp
        show ?thesis
        proof (cases "i < 10")
          case True
          have "drop i (''Bearer ***'' @ redactString r) = drop i ''Bearer ***'' @ redactString r"
            using True by (simp only: drop_append) simp
          moreover have "\<not> js_prefix ''Bearer'' (drop i ''Bearer ***'' @ redactString r)"
            using True Suc by (auto simp: less_Suc_eq numeral_eq_Suc)
          ultimately show ?thesis using "2.prems" red by (simp add: bearerAt_def del: redactString.simps)
        next
          case False
          then have "drop i (''Bearer ***'' @ redactString r) = drop (i - 10) (redactString r)"
            by (simp only: drop_append) (simp add: numeral_eq_Suc)
          with "2.IH"(2) [OF a refl] "2.prems" red show ?thesis by (simp del: redactString.simps)
        qed
      qed
    qed
  qed
qed

subsection \<open>Properties\<close>

text \<open>An error is an authorization error, or a rate-limit error, only when its status and payload say
  so, whatever classes are registered and whatever their factories build; and when no class is
  registered for its code, it is an authorization error exactly when they say so, and else a
  rate-limit error exactly when they say that.\<close>

theorem error_axes_sound:
  "let e = createGraphApiError reg status payload fb True headers in
     (ge_base e = AuthBase \<longrightarrow> isAuthClassification status payload)
   \<and> (ge_base e = RateLimitBase \<longrightarrow> isRateLimitClassification status payload)
   \<and> (lookupEntry payload reg = None \<longrightarrow>
        ge_base e = (if isAuthClassification status payload then AuthBase
          else if isRateLimitClassification status payload then RateLimitBase else ApiBase))"
  by (auto simp: createGraphApiError_def Let_def genericError_def newGraphError_def split: option.split)

theorem error_axes_sound_witness:
  "ge_base (createGraphApiError emptyRegistry 429 None None True NoHeaders) = RateLimitBase"
proof -
  have "lookupEntry None emptyRegistry = None" by (simp add: lookupEntry_def)
  with error_axes_sound [of emptyRegistry 429 None None NoHeaders] show ?thesis
    by (simp add: Let_def isAuthClassification_def isRateLimitClassification_def codeIs_def)
qed

text \<open>Registration is last-writer-wins: after any valid registrations, the class of a code and
  subcode is the last one registered for both, or else the last one registered for the code alone.\<close>

theorem registry_last_writer_wins:
  assumes "list_all entryOk ens" and "0 \<le> code" and "\<forall>s \<in> set_option sub. 0 \<le> s"
  shows "resolveRegisteredError code sub (fold putEntry ens emptyRegistry) =
    (case find (\<lambda>e. re_code e = code \<and> re_subcode e = sub) (rev ens) of
       Some en \<Rightarrow> Some en
     | None \<Rightarrow> find (\<lambda>e. re_code e = code \<and> re_subcode e = None) (rev ens))"
  using map_of_puts [OF assms, of emptyRegistry] map_of_puts [OF assms(1,2), of None emptyRegistry]
  by (auto simp: resolveRegisteredError_def Let_def emptyRegistry_def split: option.splits)

definition sampleEntry :: "int option \<Rightarrow> string \<Rightarrow> registry_entry" where
  "sampleEntry sub nm = \<lparr>re_code = 190, re_subcode = sub, re_errorName = nm,
     re_factory = constructError ExpiredAccessTokenError\<rparr>"

theorem registry_last_writer_wins_witness:
  "map_option re_errorName (resolveRegisteredError 190 (Some 463) (fold putEntry
     [sampleEntry (Some 463) ''A'', sampleEntry None ''B'', sampleEntry (Some 463) ''C''] emptyRegistry)) = Some ''C''"
proof -
  have ok: "list_all entryOk [sampleEntry (Some 463) ''A'', sampleEntry None ''B'', sampleEntry (Some 463) ''C'']"
    by (simp add: sampleEntry_def entryOk_def)
  have "\<forall>s \<in> set_option (Some (463::int)). 0 \<le> s" by simp
  from registry_last_writer_wins [OF ok _ this, of 190] show ?thesis by (simp add: sampleEntry_def)
qed

text \<open>With the built-in classes, a response whose payload carries a seeded code becomes an instance of
  the class that is seeded for it, whatever its subcode, unless the class is on an axis that the
  status and payload contradict, when it becomes a plain \<open>GraphApiError\<close>; the rate-limit classes are
  those of the codes in \<open>RATE_LIMIT_CODES\<close>, and they stand whenever the status is a 4xx.\<close>

theorem built_in_classes_apply:
  assumes "(c, nm, cls) \<in> set BUILT_IN_SEEDS" and "p_code p = Some (Fin (of_int c))"
  shows "ge_name (createGraphApiError builtIns status (Some p) fb True headers) =
      (if cls_base cls = AuthBase \<and> \<not> isAuthClassification status (Some p) then ''GraphApiError''
       else if c \<in> set RATE_LIMIT_CODES \<and> \<not> (400 \<le> status \<and> status < 500) then ''GraphApiError''
       else nm)"
proof -
  have reg: "registrable (Fin (of_int c))" "intOfNum (Fin (of_int c)) = c"
    using seedsD(1) [OF assms(1)] by (simp_all add: registrable_def isIntegerNum_def intOfNum_def)
  have look: "lookupEntry (Some p) builtIns = Some (seedEntry (c, nm, cls))"
    using builtIns_lookup [OF assms(1)] assms(2) reg
    by (auto simp: lookupEntry_def registrable_def split: option.split)
  have rate: "c \<in> set RATE_LIMIT_CODES \<Longrightarrow>
      isRateLimitClassification status (Some p) \<longleftrightarrow> 400 \<le> status \<and> status < 500"
    using assms(2) by (auto simp: isRateLimitClassification_def codeIs_def list_ex_iff)
  have cls: "ge_name (constructError cls ctx) = nm" "ge_base (constructError cls ctx) = cls_base cls" for ctx
    using seedsD(2) [OF assms(1)] by (simp_all add: constructError_def newGraphError_def)
  show ?thesis
    using seedsD(3) [OF assms(1)] rate
    by (auto simp: createGraphApiError_def Let_def look seedEntry_def cls genericError_def newGraphError_def)
qed

definition samplePayload :: "int \<Rightarrow> string \<Rightarrow> error_payload" where
  "samplePayload c ty = \<lparr>p_message = Some ''m'', p_type = Some ty, p_code = Some (Fin (of_int c)),
     p_subcode = None, p_fbtrace = None\<rparr>"

theorem built_in_classes_apply_witness:
  "ge_name (createGraphApiError builtIns 400 (Some (samplePayload 131056 ''x'')) None True NoHeaders)
     = ''TooManyMessagesError''"
proof -
  have s: "(131056, ''TooManyMessagesError'', TooManyMessagesError) \<in> set BUILT_IN_SEEDS"
    by (simp add: BUILT_IN_SEEDS_def)
  have p: "p_code (samplePayload 131056 ''x'') = Some (Fin (of_int 131056))" by (simp add: samplePayload_def)
  show ?thesis unfolding built_in_classes_apply [OF s p]
    by (simp add: TooManyMessagesError_def RATE_LIMIT_CODES_def)
qed

text \<open>A 429 response is not always a rate-limit error: with an \<open>OAuthException\<close> payload and no class
  registered for its code it becomes an authorization error, and with a seeded code of another class
  it becomes that class.\<close>

theorem too_many_requests_may_be_auth:
  "ge_base (createGraphApiError emptyRegistry 429 (Some (samplePayload 1 ''OAuthException'')) None True NoHeaders) = AuthBase
   \<and> ge_base (createGraphApiError builtIns 429 (Some (samplePayload 100 ''x'')) None True NoHeaders) = ApiBase"
proof -
  have s: "(100, ''InvalidParameterError'', InvalidParameterError) \<in> set BUILT_IN_SEEDS"
    by (simp add: BUILT_IN_SEEDS_def)
  from builtIns_lookup [OF this, of None]
  have "lookupEntry (Some (samplePayload 100 ''x'')) builtIns = Some (seedEntry (100, ''InvalidParameterError'', InvalidParameterError))"
    by (simp add: lookupEntry_def samplePayload_def registrable_def isIntegerNum_def intOfNum_def)
  then show ?thesis
    by (simp add: createGraphApiError_def Let_def lookupEntry_def samplePayload_def emptyRegistry_def
        resolveRegisteredError_def genericError_def newGraphError_def isAuthClassification_def seedEntry_def
        constructError_def InvalidParameterError_def)
qed

text \<open>Scrubbing an error leaves no bearer token in its message, its stack, its string properties, or
  those of any error along its chain of causes: wherever \<open>Bearer\<close>, white space and a token stand, the
  token is \<open>***\<close>.\<close>

theorem scrubbed_errors_hide_tokens: "errorTokenFree (scrubErrorCause e)"
proof (induction e rule: scrubErrorCause.induct)
  case (3 nm msg st cause ps)
  have "tokenFree s" if "(k, EvString s) \<in> redactProp ` X" for k s X
    using that by (auto simp: redactProp_def tokenFree_redacted split: error_value.splits)
  with 3 show ?case by (auto simp: tokenFree_redacted split: option.split)
qed (simp_all add: tokenFree_redacted)

end
