(* ===== verification/Pagination.thy ===== *)
theory Pagination
  imports Js_Value
begin

section \<open>Cursor pagination (packages/graph/src/pagination.ts)\<close>

text \<open>
  \<open>paginate\<close> fetches pages until there is no further cursor, a limit of pages is reached or its signal
  aborts, and yields their items.  The endpoint and the signal are functions of a host state; the URL
  parser gives the decoded query pairs of a URL, or nothing for a string that is no URL.
  Parameters are a map from names to strings.  A consumer that stops early abandons the run; the
  model is the run to its end.
\<close>

subsection \<open>Data\<close>

datatype 'e pagination_exn =
    InvalidEndpoint
  | InvalidMaxPages
  | InvalidPageSize
  | InvalidSignal
  | PageFetchFailed nat 'e

record 'a page =
  page_data :: "'a list option"
  page_next :: jsval

record 'a paginated_result =
  pr_items :: "'a list"
  pagesConsumed :: nat
  pageLimitReached :: bool
  pr_aborted :: bool

type_synonym query_params = "string \<rightharpoonup> string"

record ('a, 'e, 'w) page_env =
  fetch_page :: "query_params \<Rightarrow> 'w \<Rightarrow> ('e + 'a page) \<times> 'w"
  signal_aborted :: "'w \<Rightarrow> bool"
  url_query :: "string \<Rightarrow> (string \<times> string) list option"

definition DEFAULT_MAX_PAGES :: nat where
  "DEFAULT_MAX_PAGES = 1000"

definition DEFAULT_PAGE_SIZE_QUERY_KEY :: string where
  "DEFAULT_PAGE_SIZE_QUERY_KEY = ''limit''"

subsection \<open>Validation\<close>

text \<open>An endpoint is a function with a \<open>definition\<close>, given beside it.\<close>

definition isEndpointCallable :: "jsval \<Rightarrow> jsval \<Rightarrow> bool" where
  "isEndpointCallable v def = (isFunction v \<and> (case objectProps def of
     None \<Rightarrow> False
   | Some ps \<Rightarrow> isString (js_get ps ''method'') \<and> isString (js_get ps ''pathTemplate'')
       \<and> objectProps (js_get ps ''params'') \<noteq> None))"

definition extractAfterCursor :: "(string \<Rightarrow> (string \<times> string) list option) \<Rightarrow> string \<Rightarrow> string option" where
  "extractAfterCursor query nextUrl = (case query nextUrl of
     None \<Rightarrow> None | Some qs \<Rightarrow> map_of qs ''after'')"

definition validatePageOptions :: "jsval \<Rightarrow> 'e pagination_exn + nat \<times> nat option \<times> bool" where
  "validatePageOptions opts =
     (if opts \<noteq> JUndef \<and> objectProps opts = None then Inl InvalidEndpoint
      else let mp = optField opts ''maxPages''; ps = optField opts ''pageSize''; sg = optField opts ''signal'' in
        if mp \<noteq> JUndef \<and> \<not> isPositiveInteger mp then Inl InvalidMaxPages
        else if ps \<noteq> JUndef \<and> \<not> isPositiveInteger ps then Inl InvalidPageSize
        else if sg \<noteq> JUndef \<and> \<not> isAbortSignalLike sg then Inl InvalidSignal
        else Inr (if mp = JUndef then DEFAULT_MAX_PAGES else nat (numberFloor mp),
                  if ps = JUndef then None else Some (nat (numberFloor ps)),
                  sg \<noteq> JUndef))"

subsection \<open>The loop\<close>

definition isAborted :: "('a, 'e, 'w) page_env \<Rightarrow> bool \<Rightarrow> 'w \<Rightarrow> bool" where
  "isAborted env hasSig w = (hasSig \<and> signal_aborted env w)"

text \<open>The cursor of the next page, if the page names one.\<close>

definition nextCursor :: "('a, 'e, 'w) page_env \<Rightarrow> 'a page \<Rightarrow> string option" where
  "nextCursor env pg = (case page_next pg of
     JStr url \<Rightarrow> if url = [] then None else extractAfterCursor (url_query env) url
   | _ \<Rightarrow> None)"

definition pageItems :: "'a page \<Rightarrow> 'a list" where
  "pageItems pg = (case page_data pg of None \<Rightarrow> [] | Some xs \<Rightarrow> xs)"

function pageLoop ::
  "('a, 'e, 'w) page_env \<Rightarrow> nat \<Rightarrow> bool \<Rightarrow> query_params \<Rightarrow> 'a list \<Rightarrow> nat
    \<Rightarrow> ('w, 'e pagination_exn, 'a paginated_result) act" where
  "pageLoop env maxPages hasSig params collected consumed w =
     (if isAborted env hasSig w then
        (Inr \<lparr>pr_items = collected, pagesConsumed = consumed, pageLimitReached = False, pr_aborted = True\<rparr>, w)
      else (case fetch_page env params w of
        (Inl e, w') \<Rightarrow> (Inl (PageFetchFailed (Suc consumed) e), w')
      | (Inr pg, w') \<Rightarrow>
          if maxPages \<le> Suc consumed then
            (Inr \<lparr>pr_items = collected @ pageItems pg, pagesConsumed = Suc consumed,
                  pageLimitReached = True, pr_aborted = False\<rparr>, w')
          else (case nextCursor env pg of
            None \<Rightarrow> (Inr \<lparr>pr_items = collected @ pageItems pg, pagesConsumed = Suc consumed,
                  pageLimitReached = False, pr_aborted = False\<rparr>, w')
          | Some c \<Rightarrow> pageLoop env maxPages hasSig (params(''after'' \<mapsto> c)) (collected @ pageItems pg)
                  (Suc consumed) w')))"
  by pat_completeness auto

termination
  by (relation "measure (\<lambda>(env, maxPages, hasSig, params, collected, consumed, w). maxPages - consumed)") auto

declare pageLoop.simps [simp del]

definition initialParams :: "(nat \<Rightarrow> string) \<Rightarrow> nat option \<Rightarrow> query_params \<Rightarrow> query_params" where
  "initialParams show pageSize params = (case pageSize of
     None \<Rightarrow> params
   | Some n \<Rightarrow> if params DEFAULT_PAGE_SIZE_QUERY_KEY = None
       then params(DEFAULT_PAGE_SIZE_QUERY_KEY \<mapsto> show n) else params)"

definition paginate ::
  "(nat \<Rightarrow> string) \<Rightarrow> ('a, 'e, 'w) page_env \<Rightarrow> jsval \<Rightarrow> jsval \<Rightarrow> query_params \<Rightarrow> jsval
    \<Rightarrow> ('w, 'e pagination_exn, 'a paginated_result) act" where
  "paginate show env endpoint def params opts w =
     (if \<not> isEndpointCallable endpoint def then (Inl InvalidEndpoint, w)
      else (case validatePageOptions opts of
        Inl e \<Rightarrow> (Inl e, w)
      | Inr (maxPages, pageSize, hasSig) \<Rightarrow>
          if isAborted env hasSig w then
            (Inr \<lparr>pr_items = [], pagesConsumed = 0, pageLimitReached = False, pr_aborted = True\<rparr>, w)
          else pageLoop env maxPages hasSig (initialParams show pageSize params) [] 0 w))"

text \<open>\<open>paginateAll\<close> drives the generator to its end and returns its result.\<close>

definition paginateAll ::
  "(nat \<Rightarrow> string) \<Rightarrow> ('a, 'e, 'w) page_env \<Rightarrow> jsval \<Rightarrow> jsval \<Rightarrow> query_params \<Rightarrow> jsval
    \<Rightarrow> ('w, 'e pagination_exn, 'a paginated_result) act" where
  "paginateAll = paginate"

subsection \<open>The pages that a run fetched\<close>

text \<open>
  \<open>fetched\<close> relates the parameters of a run to the pages it took, in order: each page is what the
  endpoint answered to the parameters that the page before it named.
\<close>

inductive fetched ::
  "('a, 'e, 'w) page_env \<Rightarrow> query_params \<Rightarrow> 'w \<Rightarrow> 'a page list \<Rightarrow> 'w \<Rightarrow> bool" for env where
  fetched_none: "fetched env params w [] w"
| fetched_last: "fetch_page env params w = (Inr pg, w') \<Longrightarrow> fetched env params w [pg] w'"
| fetched_more: "fetch_page env params w = (Inr pg, w') \<Longrightarrow> nextCursor env pg = Some c
    \<Longrightarrow> fetched env (params(''after'' \<mapsto> c)) w' pgs w'' \<Longrightarrow> fetched env params w (pg # pgs) w''"

definition consumedPages ::
  "('a, 'e, 'w) page_env \<Rightarrow> nat \<Rightarrow> bool \<Rightarrow> nat \<Rightarrow> 'a list \<Rightarrow> 'a page list \<Rightarrow> 'a paginated_result \<Rightarrow> 'w \<Rightarrow> bool" where
  "consumedPages env maxPages hasSig consumed collected pgs res w' \<longleftrightarrow>
     pr_items res = collected @ concat (map pageItems pgs)
   \<and> pagesConsumed res = consumed + length pgs \<and> pagesConsumed res \<le> maxPages
   \<and> (pageLimitReached res \<longleftrightarrow> pagesConsumed res = maxPages)
   \<and> (pr_aborted res \<longrightarrow> hasSig \<and> signal_aborted env w')
   \<and> (\<not> pageLimitReached res \<and> \<not> pr_aborted res \<longrightarrow> pgs \<noteq> [] \<and> nextCursor env (last pgs) = None)"

lemma consumedPages_Cons:
  assumes "consumedPages env maxPages hasSig (Suc consumed) (collected @ pageItems pg) pgs res w'"
  shows "consumedPages env maxPages hasSig consumed collected (pg # pgs) res w'"
  using assms by (auto simp: consumedPages_def)

lemma pageLoop_spec:
  assumes "pageLoop env maxPages hasSig params collected consumed w = (r, w')" and "consumed < maxPages"
  shows "case r of
      Inl e \<Rightarrow> \<exists>n x. e = PageFetchFailed n x \<and> consumed < n \<and> n \<le> maxPages
    | Inr res \<Rightarrow> \<exists>pgs. fetched env params w pgs w' \<and> consumedPages env maxPages hasSig consumed collected pgs res w'"
  using assms
proof (induction env maxPages hasSig params collected consumed w rule: pageLoop.induct)
  case (1 env maxPages hasSig params collected consumed w)
  note step = "1.prems"(1) [unfolded pageLoop.simps [of env maxPages hasSig params collected consumed w]]
  show ?case
  proof (cases "isAborted env hasSig w")
    case True
    with step have "r = Inr \<lparr>pr_items = collected, pagesConsumed = consumed, pageLimitReached = False,
        pr_aborted = True\<rparr>" "w' = w" by auto
    moreover have "consumedPages env maxPages hasSig consumed collected [] \<lparr>pr_items = collected,
        pagesConsumed = consumed, pageLimitReached = False, pr_aborted = True\<rparr> w"
      using True "1.prems"(2) by (simp add: consumedPages_def isAborted_def)
    ultimately show ?thesis by (auto intro!: exI [of _ "[]"] fetched_none)
  next
    case na: False
    obtain x w1 where f: "fetch_page env params w = (x, w1)" by fastforce
    show ?thesis
    proof (cases x)
      case (Inl e)
      with step na f "1.prems"(2) show ?thesis by auto
    next
      case (Inr pg)
      have one: ?thesis
        if "r = Inr \<lparr>pr_items = collected @ pageItems pg, pagesConsumed = Suc consumed,
            pageLimitReached = lim, pr_aborted = False\<rparr>" "w' = w1"
          "lim \<longleftrightarrow> Suc consumed = maxPages" "\<not> lim \<longrightarrow> nextCursor env pg = None" for lim
      proof -
        have "fetched env params w [pg] w1" using f Inr by (simp add: fetched_last)
        moreover have "consumedPages env maxPages hasSig consumed collected [pg]
            \<lparr>pr_items = collected @ pageItems pg, pagesConsumed = Suc consumed,
             pageLimitReached = lim, pr_aborted = False\<rparr> w1"
          using that(3,4) "1.prems"(2) by (auto simp: consumedPages_def)
        ultimately show ?thesis using that(1,2) by auto
      qed
      consider (limit) "maxPages \<le> Suc consumed" | (finish) "\<not> maxPages \<le> Suc consumed" "nextCursor env pg = None"
        | (more) c where "\<not> maxPages \<le> Suc consumed" "nextCursor env pg = Some c" by fastforce
      then show ?thesis
      proof cases
        case limit
        with step na f Inr "1.prems"(2) show ?thesis by (intro one [of True]) auto
      next
        case finish
        with step na f Inr show ?thesis by (intro one [of False]) auto
      next
        case more
        with step na f Inr have "pageLoop env maxPages hasSig (params(''after'' \<mapsto> c)) (collected @ pageItems pg)
            (Suc consumed) w1 = (r, w')" by simp
        from "1.IH" [OF na f [symmetric] Inr more(1,2) this] more(1) have ih: "case r of
            Inl e \<Rightarrow> \<exists>n x. e = PageFetchFailed n x \<and> Suc consumed < n \<and> n \<le> maxPages
          | Inr res \<Rightarrow> \<exists>pgs. fetched env (params(''after'' \<mapsto> c)) w1 pgs w'
              \<and> consumedPages env maxPages hasSig (Suc consumed) (collected @ pageItems pg) pgs res w'" by simp
        show ?thesis
        proof (cases r)
          case (Inl e)
          with ih show ?thesis by auto
        next
          case r: (Inr res)
          with ih obtain pgs where "fetched env (params(''after'' \<mapsto> c)) w1 pgs w'"
            "consumedPages env maxPages hasSig (Suc consumed) (collected @ pageItems pg) pgs res w'" by auto
          with f Inr more(2) r show ?thesis using fetched_more consumedPages_Cons by fastforce
        qed
      qed
    qed
  qed
qed

subsection \<open>Properties\<close>

lemma validatePageOptions_pos: "validatePageOptions opts = Inr (n, ps, sg) \<Longrightarrow> 0 < n"
  by (auto simp: validatePageOptions_def Let_def DEFAULT_MAX_PAGES_def isPositiveInteger_def numberFloor_def
      isIntegerNum_def split: if_splits jsval.splits jsnum.splits)

text \<open>A host that serves a list of pages.  A request names a page by the cursor in its parameter \<open>after\<close>;
  without one it is for the first page.  Page \<open>i\<close> but for the last links to a URL whose query names the
  cursor \<open>cur i\<close>, which stands for page \<open>i + 1\<close>.  The host logs the page and the \<open>limit\<close> of every
  request it answers.\<close>

definition askedPage :: "'a list list \<Rightarrow> (nat \<Rightarrow> string) \<Rightarrow> query_params \<Rightarrow> nat option" where
  "askedPage pgs cur params = (case params ''after'' of
     None \<Rightarrow> Some 0 | Some c \<Rightarrow> map_option Suc (find (\<lambda>i. cur i = c) [0..<length pgs - 1]))"

definition listServer ::
  "'a list list \<Rightarrow> (nat \<Rightarrow> string) \<Rightarrow> ('a, string, (nat \<times> string option) list) page_env" where
  "listServer pgs cur = \<lparr>fetch_page = (\<lambda>params log. case askedPage pgs cur params of
       None \<Rightarrow> (Inl ''bad cursor'', log)
     | Some i \<Rightarrow> (Inr \<lparr>page_data = Some (pgs ! i),
           page_next = (if Suc i < length pgs then JStr (CHR ''?'' # cur i) else JUndef)\<rparr>,
         log @ [(i, params ''limit'')])),
     signal_aborted = (\<lambda>log. False),
     url_query = (\<lambda>u. case u of [] \<Rightarrow> None | c # q \<Rightarrow> Some [(''limit'', ''0''), (''after'', q)])\<rparr>"

definition sampleDefinition :: jsval where
  "sampleDefinition = JObj ObjectProto [(''method'', Data (JStr ''GET'')), (''pathTemplate'', Data (JStr ''/x'')),
     (''params'', Data (JObj ObjectProto []))]"

lemma sampleDefinition_callable: "isEndpointCallable JFun sampleDefinition"
  by (simp add: isEndpointCallable_def sampleDefinition_def objectProps_def isFunction_def isString_def)

lemma askedPage_cur:
  assumes "distinct (map cur [0..<length pgs])" "Suc i < length pgs"
  shows "askedPage pgs cur (ps(''after'' \<mapsto> cur i)) = Some (Suc i)"
proof -
  have "find (\<lambda>j. cur j = cur i) [0..<length pgs - 1] = Some i"
    unfolding find_Some_iff using assms by (intro exI [of _ i]) (auto simp: distinct_conv_nth)
  then show ?thesis by (simp add: askedPage_def)
qed

text \<open>A pagination always ends, whatever the endpoint answers, with at most \<open>maxPages\<close> pages fetched;
  its items are exactly those of the pages it consumed, in order, each page fetched with the cursor
  that the one before it named; \<open>pageLimitReached\<close> says that all \<open>maxPages\<close> pages were consumed,
  \<open>aborted\<close> that the signal was; with neither, the last page named no further page.\<close>

theorem paginate_bounded:
  fixes env :: "('a, 'e, 'w) page_env"
  assumes "isEndpointCallable endpoint def"
    and "validatePageOptions opts = (Inr (maxPages, pageSize, hasSig) :: 'e pagination_exn + _)"
    and "paginate show env endpoint def params opts w = (r, w')"
  shows "case r of
      Inl e \<Rightarrow> \<exists>n x. e = PageFetchFailed n x \<and> 1 \<le> n \<and> n \<le> maxPages
    | Inr res \<Rightarrow> \<exists>pgs. fetched env (initialParams show pageSize params) w pgs w'
        \<and> pr_items res = concat (map pageItems pgs)
        \<and> pagesConsumed res = length pgs \<and> length pgs \<le> maxPages
        \<and> (pageLimitReached res \<longleftrightarrow> length pgs = maxPages)
        \<and> (pr_aborted res \<longrightarrow> hasSig \<and> signal_aborted env w')
        \<and> (\<not> pageLimitReached res \<and> \<not> pr_aborted res \<longrightarrow> pgs \<noteq> [] \<and> nextCursor env (last pgs) = None)"
proof -
  have pos: "0 < maxPages" by (rule validatePageOptions_pos [OF assms(2)])
  show ?thesis
  proof (cases "isAborted env hasSig w")
    case True
    then have "r = Inr \<lparr>pr_items = [], pagesConsumed = 0, pageLimitReached = False, pr_aborted = True\<rparr>" "w' = w"
      "hasSig" "signal_aborted env w"
      using assms by (auto simp: paginate_def isAborted_def)
    with pos show ?thesis by (auto intro!: exI [of _ "[]"] fetched_none)
  next
    case False
    then have "pageLoop env maxPages hasSig (initialParams show pageSize params) [] 0 w = (r, w')"
      using assms by (simp add: paginate_def)
    from pageLoop_spec [OF this pos] show ?thesis
      by (auto simp: consumedPages_def split: sum.splits)
  qed
qed

theorem paginate_bounded_witness:
  "\<exists>r w'. paginate (\<lambda>n. ''5'') (listServer [[1::nat, 2], [3]] (\<lambda>i. ''u'')) JFun sampleDefinition (\<lambda>_. None) JUndef [] = (Inr r, w')
    \<and> pagesConsumed r \<le> 1000"
proof -
  have v: "validatePageOptions JUndef = (Inr (1000, None, False) :: string pagination_exn + _)"
    by (simp add: validatePageOptions_def optField_def objectProps_def DEFAULT_MAX_PAGES_def Let_def)
  obtain r w' where p: "paginate (\<lambda>n. ''5'') (listServer [[1::nat, 2], [3]] (\<lambda>i. ''u'')) JFun sampleDefinition (\<lambda>_. None) JUndef [] = (r, w')"
    by fastforce
  moreover have "\<exists>res. r = Inr res"
    using p sampleDefinition_callable v
    by (auto simp: paginate_def isAborted_def listServer_def pageLoop.simps nextCursor_def extractAfterCursor_def
        askedPage_def initialParams_def)
  ultimately show ?thesis
    using paginate_bounded [OF sampleDefinition_callable v p] by auto
qed

text \<open>C16: Nothing is lost and nothing is fetched twice.  Over an endpoint that serves any list of pages by
  cursor, each page but the last linking to the next, a pagination that starts at page \<open>k\<close> (the first one,
  or the one its parameter \<open>after\<close> names) fetches the pages from \<open>k\<close> on, in order, each once, up to
  \<open>maxPages\<close> of them, and returns their concatenation; every request carries the page size in its
  parameter \<open>limit\<close>, unless the caller set another.\<close>

theorem paginate_complete:
  assumes "validatePageOptions opts = (Inr (maxPages, pageSize, hasSig) :: string pagination_exn + _)"
    and "askedPage pgs cur params = Some k" and "k < length pgs" and "distinct (map cur [0..<length pgs])"
  shows "let n = min maxPages (length pgs - k);
      size = (case pageSize of None \<Rightarrow> params ''limit''
        | Some z \<Rightarrow> (if params ''limit'' = None then Some (show z) else params ''limit'')) in
    \<exists>res. paginate show (listServer pgs cur) JFun sampleDefinition params opts []
      = (Inr res, map (\<lambda>i. (i, size)) [k..<k + n])
    \<and> pr_items res = concat (take maxPages (drop k pgs)) \<and> pagesConsumed res = n
    \<and> \<not> pr_aborted res \<and> (pageLimitReached res \<longleftrightarrow> maxPages \<le> length pgs - k)"
proof -
  have pos: "0 < maxPages" by (rule validatePageOptions_pos [OF assms(1)])
  let ?env = "listServer pgs cur"
  have loop: "\<exists>res. pageLoop ?env maxPages hasSig ps (concat (take j (drop k pgs))) j
        (map (\<lambda>i. (i, size)) [k..<k + j]) =
        (Inr res, map (\<lambda>i. (i, size)) [k..<k + min maxPages (length pgs - k)])
      \<and> pr_items res = concat (take maxPages (drop k pgs)) \<and> pagesConsumed res = min maxPages (length pgs - k)
      \<and> \<not> pr_aborted res \<and> (pageLimitReached res \<longleftrightarrow> maxPages \<le> length pgs - k)"
    if "j < maxPages" "k + j < length pgs" "askedPage pgs cur ps = Some (k + j)" "ps ''limit'' = size" for j ps size
    using that
  proof (induction "length pgs - (k + j)" arbitrary: j ps)
    case 0
    then show ?case by simp
  next
    case (Suc d)
    let ?i = "k + j" let ?log = "map (\<lambda>i. (i, size)) [k..<k + j]"
    let ?pg = "\<lparr>page_data = Some (pgs ! ?i),
      page_next = (if Suc ?i < length pgs then JStr (CHR ''?'' # cur ?i) else JUndef)\<rparr>"
    have f: "fetch_page ?env ps ?log = (Inr ?pg, map (\<lambda>i. (i, size)) [k..<k + Suc j])"
      "isAborted ?env hasSig ?log = False"
      using Suc.prems by (simp_all add: listServer_def isAborted_def)
    have items: "concat (take j (drop k pgs)) @ pageItems ?pg = concat (take (Suc j) (drop k pgs))"
      using Suc.prems by (simp add: pageItems_def take_Suc_conv_app_nth)
    consider (limit) "maxPages = Suc j" | (finish) "Suc j < maxPages" "length pgs = Suc ?i"
      | (more) "Suc j < maxPages" "Suc ?i < length pgs" using Suc.prems by linarith
    then show ?case
    proof cases
      case limit
      with Suc.prems show ?thesis by (simp add: pageLoop.simps f items min_def)
    next
      case finish
      then have "nextCursor ?env ?pg = None" by (simp add: nextCursor_def)
      with finish items show ?thesis by (simp add: pageLoop.simps f min_def)
    next
      case more
      then have "nextCursor ?env ?pg = Some (cur ?i)"
        by (simp add: nextCursor_def extractAfterCursor_def listServer_def)
      with more have step: "pageLoop ?env maxPages hasSig ps (concat (take j (drop k pgs))) j ?log
        = pageLoop ?env maxPages hasSig (ps(''after'' \<mapsto> cur ?i)) (concat (take (Suc j) (drop k pgs))) (Suc j)
            (map (\<lambda>i. (i, size)) [k..<k + Suc j])"
        using items by (subst pageLoop.simps) (simp add: f)
      have "askedPage pgs cur (ps(''after'' \<mapsto> cur ?i)) = Some (k + Suc j)"
        using askedPage_cur [OF assms(4) more(2), of ps] by simp
      with Suc.hyps(1) [of "Suc j" "ps(''after'' \<mapsto> cur ?i)"] Suc.hyps(2) Suc.prems(4) more step
      show ?thesis by simp
    qed
  qed
  let ?ps = "initialParams show pageSize params"
  have "isAborted ?env hasSig [] = False" by (simp add: listServer_def isAborted_def)
  then have p: "paginate show ?env JFun sampleDefinition params opts [] = pageLoop ?env maxPages hasSig ?ps [] 0 []"
    using assms(1) by (simp add: paginate_def sampleDefinition_callable)
  have "?ps ''after'' = params ''after''"
    by (simp add: initialParams_def DEFAULT_PAGE_SIZE_QUERY_KEY_def split: option.split)
  then have "askedPage pgs cur ?ps = Some (k + 0)" using assms(2) by (simp add: askedPage_def)
  moreover have "?ps ''limit'' = (case pageSize of None \<Rightarrow> params ''limit''
      | Some z \<Rightarrow> (if params ''limit'' = None then Some (show z) else params ''limit''))"
    by (auto simp: initialParams_def DEFAULT_PAGE_SIZE_QUERY_KEY_def split: option.split)
  ultimately show ?thesis
    using loop [OF pos, of ?ps] p assms(3) by (simp add: Let_def)
qed

theorem paginate_complete_witness:
  "\<exists>res. paginate (\<lambda>n. ''5'') (listServer [[1::nat, 2], [3], [4]] (\<lambda>i. replicate i CHR ''u'')) JFun sampleDefinition
      (\<lambda>_. None) JUndef [] = (Inr res, [(0, None), (1, None), (2, None)]) \<and> pr_items res = [1, 2, 3, 4]"
proof -
  have v: "validatePageOptions JUndef = (Inr (1000, None, False) :: string pagination_exn + _)"
    by (simp add: validatePageOptions_def optField_def objectProps_def DEFAULT_MAX_PAGES_def Let_def)
  have "distinct (map (\<lambda>i. replicate i CHR ''u'') [0..<length [[1::nat, 2], [3], [4]]])"
    by (simp add: numeral_eq_Suc)
  from paginate_complete [OF v _ _ this, of "\<lambda>_. None" 0 "\<lambda>n. ''5''"]
  show ?thesis by (auto simp: askedPage_def upt_rec numeral_eq_Suc)
qed

end
