(* ===== verification/Byte_Strings.thy ===== *)
theory Byte_Strings
  imports Js_Value "HOL-Library.Word"
begin

section \<open>Bytes: UTF-8, base64, hexadecimal\<close>

text \<open>
  The byte-level part of the standard library that the webhook signature, the crypto adapters and
  the Flow endpoint use: \<open>Uint8Array\<close> as a list of \<open>8 word\<close>, \<open>TextEncoder.encode\<close> on the
  strings of the model (code units up to 255), \<open>atob\<close> and \<open>btoa\<close>, and \<open>parseInt(pair, 16)\<close>.
  The lemmas say that the encoders are injective and that the decoders invert them.
\<close>

type_synonym byte = "8 word"

definition byte_of_char :: "char \<Rightarrow> byte" where
  "byte_of_char c = of_nat (code_of c)"

definition char_of_byte :: "byte \<Rightarrow> char" where
  "char_of_byte b = char_of (unat b)"

lemma code_of_less [simp]: "code_of c < 256"
  unfolding code_of_def by simp

lemma code_of_char_of: "n < 256 \<Longrightarrow> code_of (char_of n) = n"
  by (simp add: code_of_def)

lemma char_of_code_of [simp]: "char_of (code_of c) = c"
  by (simp add: code_of_def)

lemma code_of_inj: "code_of a = code_of b \<longleftrightarrow> a = b"
  by (simp add: code_of_def)

lemma unat_byte_of_char: "unat (byte_of_char c) = code_of c"
  by (simp add: byte_of_char_def unat_of_nat)

lemma char_of_byte_of_char [simp]: "char_of_byte (byte_of_char c) = c"
  by (simp add: char_of_byte_def unat_byte_of_char)

lemma unat_byte_less: "unat (b :: byte) < 256"
  using unsigned_less [of b, where 'a = nat] by simp

lemma byte_of_char_of_byte [simp]: "byte_of_char (char_of_byte b) = b"
  by (simp add: byte_of_char_def char_of_byte_def code_of_char_of [OF unat_byte_less])

lemma map_byte_char_inverse [simp]:
  "map byte_of_char (map char_of_byte bs) = bs" "map char_of_byte (map byte_of_char s) = s"
  by (simp_all add: comp_def)

subsection \<open>UTF-8\<close>

text \<open>\<open>new TextEncoder().encode(s)\<close>: a code unit below 128 is one byte, one up to 255 two bytes.\<close>

fun utf8 :: "string \<Rightarrow> byte list" where
  "utf8 [] = []"
| "utf8 (c # cs) = (if code_of c < 128 then [byte_of_char c]
     else [of_nat (192 + code_of c div 64), of_nat (128 + code_of c mod 64)]) @ utf8 cs"

lemma of_nat_byte_eq: "m < 256 \<Longrightarrow> n < 256 \<Longrightarrow> (of_nat m :: byte) = of_nat n \<longleftrightarrow> m = n"
  by (simp add: word_unat_eq_iff unat_of_nat)

lemma utf8_lead: "code_of c < 128 \<Longrightarrow> \<not> code_of d < 128 \<Longrightarrow>
  byte_of_char c \<noteq> of_nat (192 + code_of d div 64)"
proof -
  assume c: "code_of c < 128"
  have "code_of d div 64 < 64" using code_of_less [of d] by linarith
  with c show ?thesis
    using of_nat_byte_eq [of "code_of c" "192 + code_of d div 64"] by (simp add: byte_of_char_def)
qed

lemma utf8_pair:
  "(of_nat (192 + m div 64) :: byte) = of_nat (192 + n div 64) \<Longrightarrow>
   (of_nat (128 + m mod 64) :: byte) = of_nat (128 + n mod 64) \<Longrightarrow> m < 256 \<Longrightarrow> n < 256 \<Longrightarrow> m = n"
proof -
  assume m: "m < 256" and n: "n < 256"
    and eq: "(of_nat (192 + m div 64) :: byte) = of_nat (192 + n div 64)"
      "(of_nat (128 + m mod 64) :: byte) = of_nat (128 + n mod 64)"
  have b: "192 + m div 64 < 256" "192 + n div 64 < 256" "128 + m mod 64 < 256" "128 + n mod 64 < 256"
    using m n by linarith+
  then have "m div 64 = n div 64" "m mod 64 = n mod 64"
    using eq(1) [unfolded of_nat_byte_eq [OF b(1,2)]] eq(2) [unfolded of_nat_byte_eq [OF b(3,4)]]
    by simp_all
  then show "m = n" by (metis div_mult_mod_eq)
qed

lemma utf8_inj: "utf8 s = utf8 t \<longleftrightarrow> s = t"
proof
  show "utf8 s = utf8 t \<Longrightarrow> s = t"
  proof (induction s arbitrary: t)
    case Nil
    then show ?case by (cases t) (auto split: if_splits)
  next
    case (Cons c cs)
    then obtain d ds where t: "t = d # ds" by (cases t) (auto split: if_splits)
    have "c = d \<and> utf8 cs = utf8 ds"
      using Cons.prems utf8_lead [of c d] utf8_lead [of d c]
        utf8_pair [OF _ _ code_of_less code_of_less, of c d]
      by (auto simp: t code_of_inj byte_of_char_def of_nat_byte_eq simp del: of_nat_add split: if_splits)
    with Cons.IH t show ?case by simp
  qed
qed simp

text \<open>The strings of the wire formats are ASCII, where the encoding is the identity.\<close>

definition isAscii :: "string \<Rightarrow> bool" where
  "isAscii s = list_all (\<lambda>c. code_of c < 128) s"

lemma utf8_ascii: "isAscii s \<Longrightarrow> utf8 s = map byte_of_char s"
  by (induction s) (auto simp: isAscii_def)

subsection \<open>Hexadecimal\<close>

definition hexValue :: "char \<Rightarrow> nat" where
  "hexValue c = (if is_digit c then code_of c - 48 else code_of c - 87)"

definition hexDigit :: "nat \<Rightarrow> char" where
  "hexDigit n = (if n < 10 then char_of (n + 48) else char_of (n + 87))"

text \<open>The lower-case hexadecimal text of a byte list, as a sender of signed webhooks writes it.\<close>

definition bytesToHex :: "byte list \<Rightarrow> string" where
  "bytesToHex bs = concat (map (\<lambda>b. [hexDigit (unat b div 16), hexDigit (unat b mod 16)]) bs)"

lemma hexDigit_value: "is_lower_hex c \<Longrightarrow> hexDigit (hexValue c) = c \<and> hexValue c < 16"
  by (auto simp: is_lower_hex_def is_digit_def hexDigit_def hexValue_def)

lemma hexValue_digit: "n < 16 \<Longrightarrow> hexValue (hexDigit n) = n \<and> is_lower_hex (hexDigit n)"
  by (auto simp: is_lower_hex_def is_digit_def hexDigit_def hexValue_def code_of_char_of)

lemma bytesToHex_simps [simp]:
  "bytesToHex [] = []"
  "bytesToHex (b # bs) = hexDigit (unat b div 16) # hexDigit (unat b mod 16) # bytesToHex bs"
  by (simp_all add: bytesToHex_def)

lemma length_bytesToHex: "length (bytesToHex bs) = 2 * length bs"
  by (induction bs) auto

lemma bytesToHex_lower_hex: "c \<in> set (bytesToHex bs) \<Longrightarrow> is_lower_hex c"
proof (induction bs)
  case (Cons b bs)
  have "unat b div 16 < 16" using unat_byte_less [of b] by linarith
  with Cons show ?case by (auto simp: hexValue_digit)
qed simp

subsection \<open>Base64\<close>

text \<open>
  \<open>btoa\<close>, and the forgiving decoder \<open>atob\<close>: it drops ASCII white space, one or two \<open>=\<close> at
  the end of a text of full groups, refuses other characters and a lone last digit, and discards
  the bits that do not fill a byte.
\<close>

definition b64Char :: "nat \<Rightarrow> char" where
  "b64Char n = (if n < 26 then char_of (n + 65) else if n < 52 then char_of (n + 71)
     else if n < 62 then char_of (n - 4) else if n = 62 then CHR ''+'' else CHR ''/'')"

definition b64Value :: "char \<Rightarrow> nat option" where
  "b64Value c = (let n = code_of c in
     if 65 \<le> n \<and> n \<le> 90 then Some (n - 65)
     else if 97 \<le> n \<and> n \<le> 122 then Some (n - 71)
     else if 48 \<le> n \<and> n \<le> 57 then Some (n + 4)
     else if n = 43 then Some 62 else if n = 47 then Some 63 else None)"

fun b64Digits :: "nat list \<Rightarrow> nat list" where
  "b64Digits [] = []"
| "b64Digits [a] = [a div 4, a mod 4 * 16]"
| "b64Digits [a, b] = [a div 4, a mod 4 * 16 + b div 16, b mod 16 * 4]"
| "b64Digits (a # b # c # r) =
     a div 4 # (a mod 4 * 16 + b div 16) # (b mod 16 * 4 + c div 64) # c mod 64 # b64Digits r"

fun b64Pad :: "nat \<Rightarrow> string" where
  "b64Pad 0 = []"
| "b64Pad (Suc 0) = ''==''"
| "b64Pad (Suc (Suc 0)) = ''=''"
| "b64Pad (Suc (Suc (Suc n))) = b64Pad n"

definition btoa :: "string \<Rightarrow> string" where
  "btoa s = map b64Char (b64Digits (map code_of s)) @ b64Pad (length s)"

fun b64Bytes :: "nat list \<Rightarrow> nat list" where
  "b64Bytes (p # q # r # s # rest) =
     (p * 4 + q div 16) # (q mod 16 * 16 + r div 4) # (r mod 4 * 64 + s) # b64Bytes rest"
| "b64Bytes [p, q, r] = [p * 4 + q div 16, q mod 16 * 16 + r div 4]"
| "b64Bytes [p, q] = [p * 4 + q div 16]"
| "b64Bytes _ = []"

definition isAsciiSpace :: "char \<Rightarrow> bool" where
  "isAsciiSpace c = (code_of c \<in> {9, 10, 12, 13, 32})"

definition stripPadding :: "string \<Rightarrow> string" where
  "stripPadding t = (if length t mod 4 = 0 then
     (if drop (length t - 2) t = ''=='' then take (length t - 2) t
      else if drop (length t - 1) t = ''='' then take (length t - 1) t else t) else t)"

definition atob :: "string \<Rightarrow> string option" where
  "atob s = (let t = stripPadding (filter (\<lambda>c. \<not> isAsciiSpace c) s) in
     if length t mod 4 = 1 \<or> \<not> list_all (\<lambda>c. b64Value c \<noteq> None) t then None
     else Some (map char_of (b64Bytes (map (\<lambda>c. the (b64Value c)) t))))"

lemma b64Value_Char:
  assumes "n < 64"
  shows "b64Value (b64Char n) = Some n" and "\<not> isAsciiSpace (b64Char n)"
proof -
  consider "n < 26" | "26 \<le> n" "n < 52" | "52 \<le> n" "n < 62" | "n = 62" | "n = 63"
    using assms by linarith
  note cases = this
  show "b64Value (b64Char n) = Some n"
    by (rule cases) (simp add: b64Char_def b64Value_def code_of_char_of Let_def, (simp add: code_of_def | arith)?)+
  show "\<not> isAsciiSpace (b64Char n)"
    by (rule cases) (simp add: b64Char_def isAsciiSpace_def code_of_char_of, (simp add: code_of_def | arith)?)+
qed

lemma b64_equals: "b64Value (CHR ''='') = None" "\<not> isAsciiSpace (CHR ''='')"
  by (simp_all add: b64Value_def isAsciiSpace_def code_of_def)

lemma b64Char_not_equals: "n < 64 \<Longrightarrow> b64Char n \<noteq> CHR ''=''"
  using b64Value_Char(1) b64_equals(1) by fastforce

lemma b64Digits_less: "list_all (\<lambda>a. a < 256) xs \<Longrightarrow> d \<in> set (b64Digits xs) \<Longrightarrow> d < 64"
  by (induction xs rule: b64Digits.induct) (auto simp: less_mult_imp_div_less)

lemma b64Bytes_Digits: "list_all (\<lambda>a. a < 256) xs \<Longrightarrow> b64Bytes (b64Digits xs) = xs"
proof (induction xs rule: b64Digits.induct)
  case (4 a b c r)
  have "(a mod 4 * 16 + b div 16) div 16 = a mod 4" "(a mod 4 * 16 + b div 16) mod 16 = b div 16"
    "(b mod 16 * 4 + c div 64) div 4 = b mod 16" "(b mod 16 * 4 + c div 64) mod 4 = c div 64"
    using 4 by (auto simp: less_mult_imp_div_less)
  with 4 show ?case by simp
qed (auto simp: less_mult_imp_div_less)

lemma length_b64: "(length (b64Digits xs) + length (b64Pad (length xs))) mod 4 = 0
    \<and> (b64Pad (length xs) = [] \<and> length (b64Digits xs) mod 4 = 0
     \<or> b64Pad (length xs) = ''=='' \<and> length (b64Digits xs) mod 4 = 2
     \<or> b64Pad (length xs) = ''='' \<and> length (b64Digits xs) mod 4 = 3)"
  by (induction xs rule: b64Digits.induct) auto

lemma stripPadding_pad:
  assumes "CHR ''='' \<notin> set t" and "(length t + length p) mod 4 = 0"
    and "p = [] \<or> p = ''=='' \<or> p = ''=''"
  shows "stripPadding (t @ p) = t"
proof -
  have last: "drop (length t - n) t \<noteq> CHR ''='' # u" for n u
    using assms(1) by (metis in_set_dropD list.set_intros(1))
  have two: "drop (length t - 1) t @ ''='' \<noteq> ''==''"
    using last [of 1 "[]"] by (cases "drop (length t - 1) t") auto
  show ?thesis
    using assms(2,3) last [of 2 "''=''"] last [of 1 "[]"] two
    by (auto simp: stripPadding_def)
qed

theorem atob_btoa: "atob (btoa s) = Some s"
proof -
  let ?xs = "map code_of s"
  let ?t = "map b64Char (b64Digits ?xs)"
  have small: "list_all (\<lambda>a. a < 256) ?xs" by (simp add: list_all_iff)
  have digits: "d \<in> set (b64Digits ?xs) \<Longrightarrow> d < 64" for d
    using b64Digits_less [OF small] by simp
  have pad: "b64Pad (length s) = [] \<or> b64Pad (length s) = ''=='' \<or> b64Pad (length s) = ''=''"
    using length_b64 [of ?xs] by auto
  have "filter (\<lambda>c. \<not> isAsciiSpace c) (btoa s) = btoa s"
    using pad digits by (intro filter_True) (auto simp: btoa_def b64Value_Char b64_equals)
  moreover have "CHR ''='' \<notin> set ?t" using digits b64Char_not_equals by fastforce
  then have "stripPadding (btoa s) = ?t"
    unfolding btoa_def using length_b64 [of ?xs] pad by (intro stripPadding_pad) auto
  moreover have "map (\<lambda>c. the (b64Value c)) ?t = b64Digits ?xs"
    using digits by (auto simp: b64Value_Char intro!: map_idI)
  moreover have "list_all (\<lambda>c. b64Value c \<noteq> None) ?t"
    using digits by (auto simp: list_all_iff b64Value_Char)
  moreover have "length ?t mod 4 \<noteq> 1" using length_b64 [of ?xs] by auto
  ultimately show ?thesis
    by (simp add: atob_def b64Bytes_Digits [OF small] comp_def)
qed

end
