(* ===== verification/Crypto_Provider.thy ===== *)
theory Crypto_Provider
  imports Byte_Strings
begin

section \<open>Crypto providers\<close>

text \<open>
  \<open>packages/crypto/src\<close>: the \<open>CryptoProvider\<close> interface, the validation of its arguments
  (\<open>errors.ts\<close>), the Node and WebCrypto adapters and the factory that chooses between them.  The
  ciphers and digests themselves are not under \<open>src\<close>: \<open>nodeCrypto\<close> and \<open>webCrypto\<close> hold
  the primitives the runtime offers, each of which answers \<open>None\<close> where it throws.  An error is
  recorded by its class; its text is not modelled.  The laws that the clients of a provider use are
  the locales \<open>constant_time_compare\<close> and \<open>gcm_provider\<close>, interpreted on both adapters.
\<close>

unbundle bit_operations_syntax

subsection \<open>Errors and argument checks\<close>

datatype crypto_class =
    InvalidKeyError | InvalidBodyError | InvalidLengthError | UnsupportedCapabilityError
  | CryptoProviderError string

datatype exn = Crypto crypto_class | HostError string

definition errorCode :: "crypto_class \<Rightarrow> string" where
  "errorCode c = (case c of
     InvalidKeyError \<Rightarrow> ''invalid_key'' | InvalidBodyError \<Rightarrow> ''invalid_body''
   | InvalidLengthError \<Rightarrow> ''invalid_length'' | UnsupportedCapabilityError \<Rightarrow> ''unsupported_capability''
   | CryptoProviderError code \<Rightarrow> code)"

text \<open>An argument of unknown type: a \<open>Uint8Array\<close>, a string, or anything else.\<close>

datatype arg = BytesArg "byte list" | StrArg string | OtherArg jsval

fun assertValidKey :: "arg \<Rightarrow> exn + unit" where
  "assertValidKey (StrArg s) = guardE (s \<noteq> []) (Crypto InvalidKeyError)"
| "assertValidKey (BytesArg bs) = guardE (bs \<noteq> []) (Crypto InvalidKeyError)"
| "assertValidKey (OtherArg _) = Inl (Crypto InvalidKeyError)"

fun assertValidBody :: "arg \<Rightarrow> exn + unit" where
  "assertValidBody (StrArg s) = Inr ()"
| "assertValidBody (BytesArg bs) = Inr ()"
| "assertValidBody (OtherArg _) = Inl (Crypto InvalidBodyError)"

fun assertUint8Array :: "arg \<Rightarrow> exn + byte list" where
  "assertUint8Array (BytesArg bs) = Inr bs"
| "assertUint8Array _ = Inl (Crypto (CryptoProviderError ''invalid_body''))"

definition assertFiniteLength :: "jsval \<Rightarrow> int \<Rightarrow> int \<Rightarrow> exn + nat" where
  "assertFiniteLength n lo hi = (case n of
     JNum (Fin r) \<Rightarrow>
       bindE (guardE (r = of_int \<lfloor>r\<rfloor>) (Crypto InvalidLengthError)) (\<lambda>_.
       bindE (guardE (lo \<le> \<lfloor>r\<rfloor> \<and> \<lfloor>r\<rfloor> \<le> hi) (Crypto InvalidLengthError)) (\<lambda>_.
       Inr (nat \<lfloor>r\<rfloor>)))
   | _ \<Rightarrow> Inl (Crypto InvalidLengthError))"

definition GCM_TAG_LENGTH :: nat where
  "GCM_TAG_LENGTH = 16"

definition MAX_GCM_IV_BYTES :: nat where
  "MAX_GCM_IV_BYTES = 256"

datatype key_bits = Bits128 | Bits256

fun assertAesGcmKey :: "arg \<Rightarrow> exn + key_bits" where
  "assertAesGcmKey (BytesArg key) = (
     if length key = 16 then Inr Bits128
     else if length key = 32 then Inr Bits256
     else Inl (Crypto InvalidKeyError))"
| "assertAesGcmKey _ = Inl (Crypto InvalidKeyError)"

fun assertGcmIv :: "arg \<Rightarrow> exn + byte list" where
  "assertGcmIv (BytesArg iv) = (
     if length iv = 0 then Inl (Crypto InvalidLengthError)
     else if length iv > MAX_GCM_IV_BYTES then Inl (Crypto InvalidLengthError)
     else Inr iv)"
| "assertGcmIv _ = Inl (Crypto InvalidLengthError)"

fun assertOptionalAad :: "arg option \<Rightarrow> exn + byte list option" where
  "assertOptionalAad None = Inr None"
| "assertOptionalAad (Some (BytesArg aad)) = Inr (Some aad)"
| "assertOptionalAad (Some _) = Inl (Crypto InvalidBodyError)"

fun assertAesCbcKey :: "arg \<Rightarrow> exn + key_bits" where
  "assertAesCbcKey (BytesArg key) = (
     if length key = 16 then Inr Bits128
     else if length key = 32 then Inr Bits256
     else Inl (Crypto InvalidKeyError))"
| "assertAesCbcKey _ = Inl (Crypto InvalidKeyError)"

fun assertCbcIv :: "arg \<Rightarrow> exn + byte list" where
  "assertCbcIv (BytesArg iv) = (if length iv \<noteq> 16 then Inl (Crypto InvalidLengthError) else Inr iv)"
| "assertCbcIv _ = Inl (Crypto InvalidLengthError)"

fun assertCbcCiphertext :: "arg \<Rightarrow> exn + byte list" where
  "assertCbcCiphertext (BytesArg ct) = (
     if length ct = 0 then Inl (Crypto InvalidLengthError)
     else if length ct mod 16 \<noteq> 0 then Inl (Crypto InvalidLengthError)
     else Inr ct)"
| "assertCbcCiphertext _ = Inl (Crypto InvalidLengthError)"

subsection \<open>The interface\<close>

text \<open>
  A private key is a PEM text in bytes, a JSON Web Key, or something else.  Of the optional methods a
  provider may lack any.
\<close>

datatype 'jwk pkey = PemBytes "byte list" | JwkKey 'jwk | OtherKey

record 'jwk provider =
  provider_name :: string
  hmacSha256 :: "arg \<Rightarrow> arg \<Rightarrow> exn + byte list"
  timingSafeEqual :: "arg \<Rightarrow> arg \<Rightarrow> exn + bool"
  randomBytes :: "jsval \<Rightarrow> exn + byte list"
  rsaOaepDecrypt :: "('jwk pkey \<Rightarrow> arg \<Rightarrow> exn + byte list) option"
  aesGcmDecrypt :: "(arg \<Rightarrow> arg \<Rightarrow> arg \<Rightarrow> arg option \<Rightarrow> exn + byte list) option"
  aesGcmEncrypt :: "(arg \<Rightarrow> arg \<Rightarrow> arg \<Rightarrow> arg option \<Rightarrow> exn + byte list \<times> byte list) option"
  sha256 :: "(arg \<Rightarrow> exn + byte list) option"
  aesCbcDecrypt :: "(arg \<Rightarrow> arg \<Rightarrow> arg \<Rightarrow> exn + byte list) option"

text \<open>\<open>toUint8Array\<close>, after the argument has passed its check.\<close>

fun toUint8Array :: "arg \<Rightarrow> byte list" where
  "toUint8Array (BytesArg bs) = bs"
| "toUint8Array (StrArg s) = utf8 s"
| "toUint8Array (OtherArg _) = []"

definition optionE :: "'e \<Rightarrow> 'a option \<Rightarrow> 'e + 'a" where
  "optionE e x = (case x of None \<Rightarrow> Inl e | Some a \<Rightarrow> Inr a)"

lemma optionE_simps [simp]: "optionE e None = Inl e" "optionE e (Some a) = Inr a"
  by (simp_all add: optionE_def)

lemma optionE_Inr [res_iff]: "optionE e x = Inr a \<longleftrightarrow> x = Some a"
  by (cases x) auto

definition nonEmptyAad :: "byte list option \<Rightarrow> byte list option" where
  "nonEmptyAad aad = (case aad of None \<Rightarrow> None | Some bs \<Rightarrow> if length bs > 0 then Some bs else None)"

definition MAX_RANDOM_BYTES :: int where
  "MAX_RANDOM_BYTES = 1048576"

definition concatBytes :: "byte list \<Rightarrow> byte list \<Rightarrow> byte list" where
  "concatBytes a b = a @ b"

subsection \<open>The WebCrypto adapter\<close>

record ('jwk, 'key) webCrypto =
  w_hasSubtle :: bool
  w_hasGetRandomValues :: bool
  w_importHmacKey :: "byte list \<Rightarrow> bool"
  w_signHmac :: "byte list \<Rightarrow> byte list \<Rightarrow> byte list option"
  w_getRandomValues :: "nat \<Rightarrow> byte list"
  w_decodeText :: "byte list \<Rightarrow> string"
  w_importPkcs8 :: "string \<Rightarrow> 'key option"
  w_importJwk :: "'jwk \<Rightarrow> 'key option"
  w_decryptRsa :: "'key \<Rightarrow> byte list \<Rightarrow> byte list option"
  w_importAesGcm :: "byte list \<Rightarrow> bool"
  w_decryptGcm :: "byte list \<Rightarrow> byte list \<Rightarrow> byte list option \<Rightarrow> byte list \<Rightarrow> byte list option"
  w_encryptGcm :: "byte list \<Rightarrow> byte list \<Rightarrow> byte list option \<Rightarrow> byte list \<Rightarrow> byte list option"
  w_digest :: "byte list \<Rightarrow> byte list option"
  w_importAesCbc :: "byte list \<Rightarrow> bool"
  w_decryptCbc :: "byte list \<Rightarrow> byte list \<Rightarrow> byte list \<Rightarrow> byte list option"

definition webHmacSha256 :: "('jwk, 'key) webCrypto \<Rightarrow> arg \<Rightarrow> arg \<Rightarrow> exn + byte list" where
  "webHmacSha256 w key body =
     bindE (assertValidKey key) (\<lambda>_.
     bindE (assertValidBody body) (\<lambda>_.
     let keyBytes = toUint8Array key; bodyBytes = toUint8Array body in
     bindE (guardE (w_importHmacKey w keyBytes) (Crypto (CryptoProviderError ''invalid_key''))) (\<lambda>_.
     optionE (Crypto (CryptoProviderError ''invalid_body'')) (w_signHmac w keyBytes bodyBytes))))"

text \<open>The XOR accumulator of the constant-time comparison, on the 32-bit integers of JavaScript.\<close>

fun xorDiff :: "32 word \<Rightarrow> byte list \<Rightarrow> byte list \<Rightarrow> 32 word" where
  "xorDiff diff (a # as) (b # bs) = xorDiff (diff OR (ucast a XOR ucast b)) as bs"
| "xorDiff diff _ _ = diff"

definition webTimingSafeEqual :: "arg \<Rightarrow> arg \<Rightarrow> exn + bool" where
  "webTimingSafeEqual a b =
     bindE (assertUint8Array a) (\<lambda>as.
     bindE (assertUint8Array b) (\<lambda>bs.
     if length as \<noteq> length bs then Inr False
     else Inr (xorDiff 0 as bs = 0)))"

definition webRandomBytes :: "('jwk, 'key) webCrypto \<Rightarrow> jsval \<Rightarrow> exn + byte list" where
  "webRandomBytes w n =
     bindE (assertFiniteLength n 1 MAX_RANDOM_BYTES) (\<lambda>len. Inr (w_getRandomValues w len))"

text \<open>
  \<open>pemToDer\<close>: the first match of \<open>-----BEGIN [^-]+-----([\s\S]+?)-----END [^-]+-----\<close>, its white
  space removed, decoded.
\<close>

definition pemLabel :: "string \<Rightarrow> string option" where
  "pemLabel s = (let label = takeWhile (\<lambda>c. c \<noteq> CHR ''-'') s; rest = dropWhile (\<lambda>c. c \<noteq> CHR ''-'') s in
     if label \<noteq> [] \<and> js_prefix ''-----'' rest then Some (drop 5 rest) else None)"

definition pemEndsHere :: "string \<Rightarrow> bool" where
  "pemEndsHere s = (js_prefix ''-----END '' s \<and> pemLabel (drop 9 s) \<noteq> None)"

fun pemBody :: "string \<Rightarrow> string option" where
  "pemBody [] = None"
| "pemBody (c # cs) = (if pemEndsHere cs then Some [c] else map_option (\<lambda>b. c # b) (pemBody cs))"

fun pemMatch :: "string \<Rightarrow> string option" where
  "pemMatch [] = None"
| "pemMatch (c # cs) =
     (case (if js_prefix ''-----BEGIN '' (c # cs)
            then Option.bind (pemLabel (drop 11 (c # cs))) pemBody else None) of
        Some b \<Rightarrow> Some b
      | None \<Rightarrow> pemMatch cs)"

definition pemToDer :: "string \<Rightarrow> exn + string" where
  "pemToDer pem = (case pemMatch pem of
     None \<Rightarrow> Inl (Crypto InvalidKeyError)
   | Some b \<Rightarrow> optionE (Crypto InvalidKeyError) (atob (filter (\<lambda>c. \<not> js_space c) b)))"

definition importRsaPrivateKey :: "('jwk, 'key) webCrypto \<Rightarrow> 'jwk pkey \<Rightarrow> exn + 'key" where
  "importRsaPrivateKey w k = (case k of
     PemBytes bs \<Rightarrow> bindE (pemToDer (w_decodeText w bs))
       (\<lambda>der. optionE (Crypto InvalidKeyError) (w_importPkcs8 w der))
   | JwkKey j \<Rightarrow> optionE (Crypto InvalidKeyError) (w_importJwk w j)
   | OtherKey \<Rightarrow> Inl (Crypto InvalidKeyError))"

definition webRsaOaepDecrypt :: "('jwk, 'key) webCrypto \<Rightarrow> 'jwk pkey \<Rightarrow> arg \<Rightarrow> exn + byte list" where
  "webRsaOaepDecrypt w k ct =
     bindE (assertUint8Array ct) (\<lambda>bs.
     bindE (importRsaPrivateKey w k) (\<lambda>key.
     optionE (Crypto InvalidBodyError) (w_decryptRsa w key bs)))"

definition webAesGcmDecrypt ::
  "('jwk, 'key) webCrypto \<Rightarrow> arg \<Rightarrow> arg \<Rightarrow> arg \<Rightarrow> arg option \<Rightarrow> exn + byte list" where
  "webAesGcmDecrypt w key iv ct aad =
     bindE (assertAesGcmKey key) (\<lambda>_.
     bindE (assertGcmIv iv) (\<lambda>ivb.
     bindE (assertUint8Array ct) (\<lambda>ctb.
     bindE (assertOptionalAad aad) (\<lambda>aadb.
     bindE (guardE (\<not> length ctb < GCM_TAG_LENGTH) (Crypto InvalidBodyError)) (\<lambda>_.
     bindE (guardE (w_importAesGcm w (toUint8Array key)) (Crypto InvalidKeyError)) (\<lambda>_.
     optionE (Crypto InvalidBodyError) (w_decryptGcm w (toUint8Array key) ivb (nonEmptyAad aadb) ctb)))))))"

definition webAesGcmEncrypt ::
  "('jwk, 'key) webCrypto \<Rightarrow> arg \<Rightarrow> arg \<Rightarrow> arg \<Rightarrow> arg option \<Rightarrow> exn + byte list \<times> byte list" where
  "webAesGcmEncrypt w key iv pt aad =
     bindE (assertAesGcmKey key) (\<lambda>_.
     bindE (assertGcmIv iv) (\<lambda>ivb.
     bindE (assertUint8Array pt) (\<lambda>ptb.
     bindE (assertOptionalAad aad) (\<lambda>aadb.
     bindE (guardE (w_importAesGcm w (toUint8Array key)) (Crypto InvalidKeyError)) (\<lambda>_.
     bindE (optionE (Crypto InvalidBodyError)
       (w_encryptGcm w (toUint8Array key) ivb (nonEmptyAad aadb) ptb)) (\<lambda>combined.
     let split = length combined - GCM_TAG_LENGTH in
     Inr (take split combined, drop split combined)))))))"

definition webSha256 :: "('jwk, 'key) webCrypto \<Rightarrow> arg \<Rightarrow> exn + byte list" where
  "webSha256 w data =
     bindE (assertUint8Array data) (\<lambda>bs.
     optionE (Crypto (CryptoProviderError ''invalid_body'')) (w_digest w bs))"

definition webAesCbcDecrypt :: "('jwk, 'key) webCrypto \<Rightarrow> arg \<Rightarrow> arg \<Rightarrow> arg \<Rightarrow> exn + byte list" where
  "webAesCbcDecrypt w key iv ct =
     bindE (assertAesCbcKey key) (\<lambda>_.
     bindE (assertCbcIv iv) (\<lambda>ivb.
     bindE (assertCbcCiphertext ct) (\<lambda>ctb.
     bindE (guardE (w_importAesCbc w (toUint8Array key)) (Crypto InvalidKeyError)) (\<lambda>_.
     optionE (Crypto InvalidBodyError) (w_decryptCbc w (toUint8Array key) ivb ctb)))))"

definition createWebCryptoProvider :: "('jwk, 'key) webCrypto \<Rightarrow> exn + 'jwk provider" where
  "createWebCryptoProvider w =
     bindE (guardE (w_hasSubtle w) (Crypto UnsupportedCapabilityError)) (\<lambda>_.
     bindE (guardE (w_hasGetRandomValues w) (Crypto UnsupportedCapabilityError)) (\<lambda>_.
     Inr \<lparr> provider_name = ''webcrypto'', hmacSha256 = webHmacSha256 w,
       timingSafeEqual = webTimingSafeEqual, randomBytes = webRandomBytes w,
       rsaOaepDecrypt = Some (webRsaOaepDecrypt w), aesGcmDecrypt = Some (webAesGcmDecrypt w),
       aesGcmEncrypt = Some (webAesGcmEncrypt w), sha256 = Some (webSha256 w),
       aesCbcDecrypt = Some (webAesCbcDecrypt w) \<rparr>))"

subsection \<open>The Node adapter\<close>

text \<open>\<open>update\<close> and \<open>final\<close> of a cipher are one primitive that yields both outputs, or throws.\<close>

record ('jwk, 'key) nodeCrypto =
  n_importable :: bool
  n_hmac :: "byte list \<Rightarrow> byte list \<Rightarrow> byte list option"
  n_timingSafeEqual :: "byte list \<Rightarrow> byte list \<Rightarrow> exn + bool"
  n_randomBytes :: "nat \<Rightarrow> byte list"
  n_decodeText :: "byte list \<Rightarrow> string"
  n_createPrivateKeyPem :: "string \<Rightarrow> 'key option"
  n_createPrivateKeyJwk :: "'jwk \<Rightarrow> 'key option"
  n_privateDecrypt :: "'key \<Rightarrow> byte list \<Rightarrow> byte list option"
  n_decipherGcm :: "string \<Rightarrow> byte list \<Rightarrow> byte list \<Rightarrow> byte list option \<Rightarrow> byte list \<Rightarrow> byte list
    \<Rightarrow> (byte list \<times> byte list) option"
  n_cipherGcm :: "string \<Rightarrow> byte list \<Rightarrow> byte list \<Rightarrow> byte list option \<Rightarrow> byte list
    \<Rightarrow> (byte list \<times> byte list \<times> byte list) option"
  n_sha256 :: "byte list \<Rightarrow> byte list option"
  n_decipherCbc :: "string \<Rightarrow> byte list \<Rightarrow> byte list \<Rightarrow> byte list \<Rightarrow> (byte list \<times> byte list) option"

definition nodeHmacSha256 :: "('jwk, 'key) nodeCrypto \<Rightarrow> arg \<Rightarrow> arg \<Rightarrow> exn + byte list" where
  "nodeHmacSha256 n key body =
     bindE (assertValidKey key) (\<lambda>_.
     bindE (assertValidBody body) (\<lambda>_.
     optionE (Crypto (CryptoProviderError ''invalid_body''))
       (n_hmac n (toUint8Array key) (toUint8Array body))))"

definition nodeTimingSafeEqual :: "('jwk, 'key) nodeCrypto \<Rightarrow> arg \<Rightarrow> arg \<Rightarrow> exn + bool" where
  "nodeTimingSafeEqual n a b =
     bindE (assertUint8Array a) (\<lambda>as.
     bindE (assertUint8Array b) (\<lambda>bs.
     if length as \<noteq> length bs then Inr False
     else if length as = 0 then Inr True
     else n_timingSafeEqual n as bs))"

definition nodeRandomBytes :: "('jwk, 'key) nodeCrypto \<Rightarrow> jsval \<Rightarrow> exn + byte list" where
  "nodeRandomBytes n len =
     bindE (assertFiniteLength len 1 MAX_RANDOM_BYTES) (\<lambda>k. Inr (n_randomBytes n k))"

definition toPrivateKeyObject :: "('jwk, 'key) nodeCrypto \<Rightarrow> 'jwk pkey \<Rightarrow> exn + 'key" where
  "toPrivateKeyObject n k = (case k of
     PemBytes bs \<Rightarrow> optionE (Crypto InvalidKeyError) (n_createPrivateKeyPem n (n_decodeText n bs))
   | JwkKey j \<Rightarrow> optionE (Crypto InvalidKeyError) (n_createPrivateKeyJwk n j)
   | OtherKey \<Rightarrow> Inl (Crypto InvalidKeyError))"

definition nodeRsaOaepDecrypt :: "('jwk, 'key) nodeCrypto \<Rightarrow> 'jwk pkey \<Rightarrow> arg \<Rightarrow> exn + byte list" where
  "nodeRsaOaepDecrypt n k ct =
     bindE (assertUint8Array ct) (\<lambda>bs.
     bindE (toPrivateKeyObject n k) (\<lambda>key.
     optionE (Crypto InvalidBodyError) (n_privateDecrypt n key bs)))"

definition algoForBits :: "key_bits \<Rightarrow> string" where
  "algoForBits b = (case b of Bits128 \<Rightarrow> ''aes-128-gcm'' | Bits256 \<Rightarrow> ''aes-256-gcm'')"

definition cbcAlgoForBits :: "key_bits \<Rightarrow> string" where
  "cbcAlgoForBits b = (case b of Bits128 \<Rightarrow> ''aes-128-cbc'' | Bits256 \<Rightarrow> ''aes-256-cbc'')"

definition nodeSha256 :: "('jwk, 'key) nodeCrypto \<Rightarrow> arg \<Rightarrow> exn + byte list" where
  "nodeSha256 n data =
     bindE (assertUint8Array data) (\<lambda>bs.
     optionE (Crypto (CryptoProviderError ''invalid_body'')) (n_sha256 n bs))"

definition nodeAesCbcDecrypt :: "('jwk, 'key) nodeCrypto \<Rightarrow> arg \<Rightarrow> arg \<Rightarrow> arg \<Rightarrow> exn + byte list" where
  "nodeAesCbcDecrypt n key iv ct =
     bindE (assertAesCbcKey key) (\<lambda>bits.
     bindE (assertCbcIv iv) (\<lambda>ivb.
     bindE (assertCbcCiphertext ct) (\<lambda>ctb.
     bindE (optionE (Crypto InvalidBodyError)
       (n_decipherCbc n (cbcAlgoForBits bits) (toUint8Array key) ivb ctb)) (\<lambda>(h, t).
     Inr (concatBytes h t)))))"

definition nodeAesGcmDecrypt ::
  "('jwk, 'key) nodeCrypto \<Rightarrow> arg \<Rightarrow> arg \<Rightarrow> arg \<Rightarrow> arg option \<Rightarrow> exn + byte list" where
  "nodeAesGcmDecrypt n key iv ct aad =
     bindE (assertAesGcmKey key) (\<lambda>bits.
     bindE (assertGcmIv iv) (\<lambda>ivb.
     bindE (assertUint8Array ct) (\<lambda>ctb.
     bindE (assertOptionalAad aad) (\<lambda>aadb.
     bindE (guardE (\<not> length ctb < GCM_TAG_LENGTH) (Crypto InvalidBodyError)) (\<lambda>_.
     let body = take (length ctb - GCM_TAG_LENGTH) ctb; tag = drop (length ctb - GCM_TAG_LENGTH) ctb in
     bindE (optionE (Crypto InvalidBodyError)
       (n_decipherGcm n (algoForBits bits) (toUint8Array key) ivb (nonEmptyAad aadb) tag body)) (\<lambda>(h, t).
     Inr (concatBytes h t)))))))"

definition nodeAesGcmEncrypt ::
  "('jwk, 'key) nodeCrypto \<Rightarrow> arg \<Rightarrow> arg \<Rightarrow> arg \<Rightarrow> arg option \<Rightarrow> exn + byte list \<times> byte list" where
  "nodeAesGcmEncrypt n key iv pt aad =
     bindE (assertAesGcmKey key) (\<lambda>bits.
     bindE (assertGcmIv iv) (\<lambda>ivb.
     bindE (assertUint8Array pt) (\<lambda>ptb.
     bindE (assertOptionalAad aad) (\<lambda>aadb.
     bindE (optionE (Crypto InvalidBodyError)
       (n_cipherGcm n (algoForBits bits) (toUint8Array key) ivb (nonEmptyAad aadb) ptb)) (\<lambda>(h, t, tag).
     Inr (concatBytes h t, tag))))))"

definition createNodeCryptoProvider :: "('jwk, 'key) nodeCrypto \<Rightarrow> exn + 'jwk provider" where
  "createNodeCryptoProvider n =
     bindE (guardE (n_importable n) (Crypto UnsupportedCapabilityError)) (\<lambda>_.
     Inr \<lparr> provider_name = ''node'', hmacSha256 = nodeHmacSha256 n,
       timingSafeEqual = nodeTimingSafeEqual n, randomBytes = nodeRandomBytes n,
       rsaOaepDecrypt = Some (nodeRsaOaepDecrypt n), aesGcmDecrypt = Some (nodeAesGcmDecrypt n),
       aesGcmEncrypt = Some (nodeAesGcmEncrypt n), sha256 = Some (nodeSha256 n),
       aesCbcDecrypt = Some (nodeAesCbcDecrypt n) \<rparr>)"

subsection \<open>The factory\<close>

datatype adapter = NodeAdapter | WebAdapter

record ('jwk, 'key) js_runtime =
  rt_nodeVersion :: "string option"
  rt_hasBun :: bool
  rt_node :: "('jwk, 'key) nodeCrypto"
  rt_web :: "('jwk, 'key) webCrypto"

definition detectDefaultAdapter :: "('jwk, 'key) js_runtime \<Rightarrow> adapter" where
  "detectDefaultAdapter rt =
     (let hasNodeVersion = (case rt_nodeVersion rt of None \<Rightarrow> False | Some v \<Rightarrow> length v > 0) in
      if hasNodeVersion \<or> rt_hasBun rt then NodeAdapter else WebAdapter)"

definition tryAdapter :: "('jwk, 'key) js_runtime \<Rightarrow> adapter \<Rightarrow> exn + 'jwk provider" where
  "tryAdapter rt a = (case a of NodeAdapter \<Rightarrow> createNodeCryptoProvider (rt_node rt)
     | WebAdapter \<Rightarrow> createWebCryptoProvider (rt_web rt))"

definition createCryptoProvider ::
  "('jwk, 'key) js_runtime \<Rightarrow> string option \<Rightarrow> exn + 'jwk provider" where
  "createCryptoProvider rt prefer =
     bindE (guardE (prefer = None \<or> prefer = Some ''node'' \<or> prefer = Some ''webcrypto'')
       (Crypto UnsupportedCapabilityError)) (\<lambda>_.
     let primary = (case prefer of None \<Rightarrow> detectDefaultAdapter rt
           | Some p \<Rightarrow> if p = ''node'' then NodeAdapter else WebAdapter);
         secondary = (if primary = NodeAdapter then WebAdapter else NodeAdapter) in
     tryE (tryAdapter rt primary) (\<lambda>err.
       if err \<noteq> Crypto UnsupportedCapabilityError then Inl err
       else tryE (tryAdapter rt secondary) (\<lambda>err2.
         if err2 = Crypto UnsupportedCapabilityError then Inl (Crypto UnsupportedCapabilityError)
         else Inl err2)))"

subsection \<open>Laws of the comparison\<close>

text \<open>
  What the clients rely on: on byte arrays of one length the comparison is equality.  A client that
  does not compare the lengths itself needs the stronger law that different lengths answer \<open>false\<close>
  and do not throw.
\<close>

locale constant_time_compare =
  fixes tse :: "arg \<Rightarrow> arg \<Rightarrow> exn + bool"
  assumes same_length: "length a = length b \<Longrightarrow> tse (BytesArg a) (BytesArg b) = Inr (a = b)"
begin

lemma gated: "length a = length b \<and> tse (BytesArg a) (BytesArg b) = Inr True \<longleftrightarrow> a = b"
  using same_length [of a b] by auto

lemma gated_rejects: "length a = length b \<Longrightarrow> tse (BytesArg a) (BytesArg b) = Inr r \<Longrightarrow> r = (a = b)"
  using same_length [of a b] by simp

end

locale total_compare = constant_time_compare +
  assumes other_length: "length a \<noteq> length b \<Longrightarrow> tse (BytesArg a) (BytesArg b) = Inr False"
begin

lemma compares: "tse (BytesArg a) (BytesArg b) = Inr (a = b)"
  by (cases "length a = length b") (auto simp: same_length other_length)

end

lemma xor_bytes_zero: "(ucast a XOR ucast b :: 32 word) = 0 \<longleftrightarrow> a = (b :: byte)"
proof
  assume "(ucast a XOR ucast b :: 32 word) = 0"
  moreover have "(ucast a :: 32 word) = (ucast a XOR ucast b) XOR ucast b" by (simp add: xor.assoc)
  ultimately have "(ucast a :: 32 word) = ucast b" by simp
  then have "ucast (ucast a :: 32 word) = (ucast (ucast b :: 32 word) :: byte)" by simp
  then show "a = b" by (simp add: ucast_up_ucast_id is_up)
qed simp

lemma xorDiff_zero: "length as = length bs \<Longrightarrow> xorDiff d as bs = 0 \<longleftrightarrow> d = 0 \<and> as = bs"
proof (induction d as bs rule: xorDiff.induct)
  case (1 d a as b bs)
  then show ?case by (auto simp: or_eq_0_iff xor_bytes_zero)
qed auto

interpretation web: total_compare webTimingSafeEqual
  by unfold_locales (simp_all add: webTimingSafeEqual_def xorDiff_zero)

text \<open>
  The Node adapter compares non-empty arrays of one length with \<open>crypto.timingSafeEqual\<close>, which is
  documented to be equality there and to throw when the lengths differ.
\<close>

lemma node_total_compare:
  assumes "\<And>a b. length a = length b \<Longrightarrow> n_timingSafeEqual n a b = Inr (a = b)"
  shows "total_compare (nodeTimingSafeEqual n)"
  by unfold_locales (auto simp: nodeTimingSafeEqual_def assms)

text \<open>The WebCrypto adapter's constant-time comparison, an accumulator of the XOR of the bytes
  on 32-bit integers, is equality: for byte arrays of any two lengths it returns \<open>true\<close> exactly when
  they are equal, and it never throws.\<close>

theorem web_compare_is_equality:
  "webTimingSafeEqual (BytesArg a) (BytesArg b) = Inr (a = b)"
  by (rule web.compares)

subsection \<open>AES-GCM across the adapters\<close>

text \<open>
  The documented behaviour of AES-GCM that both runtimes implement: one function from key, IV,
  additional data and plaintext to ciphertext and 16-byte tag, which the matching decryption inverts.
  WebCrypto appends the tag to the ciphertext; Node hands it over apart.
\<close>

type_synonym gcm_seal =
  "byte list \<Rightarrow> byte list \<Rightarrow> byte list option \<Rightarrow> byte list \<Rightarrow> byte list \<times> byte list"

definition nodeSeals :: "gcm_seal \<Rightarrow> ('jwk, 'key) nodeCrypto \<Rightarrow> bool" where
  "nodeSeals seal n \<longleftrightarrow> (\<forall>alg k iv aad m.
     (\<forall>h t tag. n_cipherGcm n alg k iv aad m = Some (h, t, tag) \<longrightarrow> (h @ t, tag) = seal k iv aad m) \<and>
     (\<exists>h t. n_decipherGcm n alg k iv aad (snd (seal k iv aad m)) (fst (seal k iv aad m)) = Some (h, t)
        \<and> h @ t = m))"

definition webSeals :: "gcm_seal \<Rightarrow> ('jwk, 'key) webCrypto \<Rightarrow> bool" where
  "webSeals seal w \<longleftrightarrow> (\<forall>k. length k \<in> {16, 32} \<longrightarrow> w_importAesGcm w k) \<and> (\<forall>k iv aad m.
     (\<forall>c. w_encryptGcm w k iv aad m = Some c \<longrightarrow> c = fst (seal k iv aad m) @ snd (seal k iv aad m)) \<and>
     w_decryptGcm w k iv aad (fst (seal k iv aad m) @ snd (seal k iv aad m)) = Some m)"

definition runtimeSeals :: "gcm_seal \<Rightarrow> ('jwk, 'key) js_runtime \<Rightarrow> bool" where
  "runtimeSeals seal rt \<longleftrightarrow> nodeSeals seal (rt_node rt) \<and> webSeals seal (rt_web rt)
     \<and> (\<forall>k iv aad m. length (snd (seal k iv aad m)) = GCM_TAG_LENGTH)"

lemma assertAesGcmKey_Inr [res_iff]:
  "assertAesGcmKey key = Inr bits \<longleftrightarrow> (\<exists>k. key = BytesArg k \<and>
     (length k = 16 \<and> bits = Bits128 \<or> length k = 32 \<and> bits = Bits256))"
  by (cases key) auto

lemma assertGcmIv_Inr [res_iff]:
  "assertGcmIv iv = Inr b \<longleftrightarrow> iv = BytesArg b \<and> 0 < length b \<and> length b \<le> MAX_GCM_IV_BYTES"
  by (cases iv) auto

lemma assertUint8Array_Inr [res_iff]: "assertUint8Array a = Inr b \<longleftrightarrow> a = BytesArg b"
  by (cases a) auto

lemma nonEmptyAad_simps [simp]: "nonEmptyAad None = None"
  by (simp add: nonEmptyAad_def)

text \<open>What each adapter computes when its arguments pass the checks.\<close>

lemma node_encrypt_seals:
  assumes "nodeSeals seal n" and "nodeAesGcmEncrypt n key iv pt aad = Inr (c, t)"
  shows "\<exists>k i m a. key = BytesArg k \<and> iv = BytesArg i \<and> pt = BytesArg m \<and> assertOptionalAad aad = Inr a
    \<and> length k \<in> {16, 32} \<and> 0 < length i \<and> length i \<le> MAX_GCM_IV_BYTES
    \<and> seal k i (nonEmptyAad a) m = (c, t)"
  using assms
  by (auto simp: nodeAesGcmEncrypt_def res_iff nodeSeals_def concatBytes_def split: prod.splits)

lemma web_encrypt_seals:
  assumes "webSeals seal w" and tag: "\<And>k i a m. length (snd (seal k i a m)) = GCM_TAG_LENGTH"
    and "webAesGcmEncrypt w key iv pt aad = Inr (c, t)"
  shows "\<exists>k i m a. key = BytesArg k \<and> iv = BytesArg i \<and> pt = BytesArg m \<and> assertOptionalAad aad = Inr a
    \<and> length k \<in> {16, 32} \<and> 0 < length i \<and> length i \<le> MAX_GCM_IV_BYTES
    \<and> seal k i (nonEmptyAad a) m = (c, t)"
proof -
  obtain k i m a comb where args: "key = BytesArg k" "iv = BytesArg i" "pt = BytesArg m"
      "assertOptionalAad aad = Inr a" "length k \<in> {16, 32}" "0 < length i" "length i \<le> MAX_GCM_IV_BYTES"
    and comb: "w_encryptGcm w k i (nonEmptyAad a) m = Some comb"
    and ct: "c = take (length comb - GCM_TAG_LENGTH) comb" "t = drop (length comb - GCM_TAG_LENGTH) comb"
    using assms(3) by (auto simp: webAesGcmEncrypt_def res_iff Let_def)
  have "comb = fst (seal k i (nonEmptyAad a) m) @ snd (seal k i (nonEmptyAad a) m)"
    using assms(1) comb by (simp add: webSeals_def)
  then have "seal k i (nonEmptyAad a) m = (c, t)" using tag [of k i "nonEmptyAad a" m]
    by (simp add: ct prod_eq_iff)
  with args show ?thesis by blast
qed

lemma node_decrypt_opens:
  assumes "nodeSeals seal n" and "seal k i (nonEmptyAad a) m = (c, t)" and "length t = GCM_TAG_LENGTH"
    and "length k \<in> {16, 32}" "0 < length i" "length i \<le> MAX_GCM_IV_BYTES" "assertOptionalAad aad = Inr a"
  shows "nodeAesGcmDecrypt n (BytesArg k) (BytesArg i) (BytesArg (c @ t)) aad = Inr m"
proof -
  have "\<exists>h u. n_decipherGcm n alg k i (nonEmptyAad a) t c = Some (h, u) \<and> h @ u = m" for alg
    using assms(1,2) unfolding nodeSeals_def by (metis fst_conv snd_conv)
  moreover have "nodeAesGcmDecrypt n (BytesArg k) (BytesArg i) (BytesArg (c @ t)) aad
      = bindE (optionE (Crypto InvalidBodyError)
          (n_decipherGcm n (algoForBits (if length k = 16 then Bits128 else Bits256)) k i (nonEmptyAad a) t c))
          (\<lambda>(h, u). Inr (concatBytes h u))"
    using assms(3-) by (auto simp: nodeAesGcmDecrypt_def)
  ultimately show ?thesis by (metis bindE_simps(2) case_prod_conv concatBytes_def optionE_simps(2))
qed

lemma web_decrypt_opens:
  assumes "webSeals seal w" and "seal k i (nonEmptyAad a) m = (c, t)" and "length t = GCM_TAG_LENGTH"
    and "length k \<in> {16, 32}" "0 < length i" "length i \<le> MAX_GCM_IV_BYTES" "assertOptionalAad aad = Inr a"
  shows "webAesGcmDecrypt w (BytesArg k) (BytesArg i) (BytesArg (c @ t)) aad = Inr m"
proof -
  have "w_decryptGcm w k i (nonEmptyAad a) (c @ t) = Some m"
    using assms(1,2) unfolding webSeals_def by (metis fst_conv snd_conv)
  moreover have "w_importAesGcm w k" using assms(1,4) unfolding webSeals_def by blast
  ultimately show ?thesis using assms(3-) by (auto simp: webAesGcmDecrypt_def)
qed

lemma createNode_Inr [res_iff]: "createNodeCryptoProvider n = Inr p \<longleftrightarrow> n_importable n \<and> p =
   \<lparr> provider_name = ''node'', hmacSha256 = nodeHmacSha256 n,
       timingSafeEqual = nodeTimingSafeEqual n, randomBytes = nodeRandomBytes n,
       rsaOaepDecrypt = Some (nodeRsaOaepDecrypt n), aesGcmDecrypt = Some (nodeAesGcmDecrypt n),
       aesGcmEncrypt = Some (nodeAesGcmEncrypt n), sha256 = Some (nodeSha256 n),
       aesCbcDecrypt = Some (nodeAesCbcDecrypt n) \<rparr>"
  by (auto simp: createNodeCryptoProvider_def res_iff)

lemma createWeb_Inr [res_iff]: "createWebCryptoProvider w = Inr p \<longleftrightarrow> w_hasSubtle w \<and>
   w_hasGetRandomValues w \<and> p =
   \<lparr> provider_name = ''webcrypto'', hmacSha256 = webHmacSha256 w,
       timingSafeEqual = webTimingSafeEqual, randomBytes = webRandomBytes w,
       rsaOaepDecrypt = Some (webRsaOaepDecrypt w), aesGcmDecrypt = Some (webAesGcmDecrypt w),
       aesGcmEncrypt = Some (webAesGcmEncrypt w), sha256 = Some (webSha256 w),
       aesCbcDecrypt = Some (webAesCbcDecrypt w) \<rparr>"
  by (auto simp: createWebCryptoProvider_def res_iff)

lemma adapter_encrypts:
  assumes "runtimeSeals seal rt" and "tryAdapter rt ad = Inr p" and "aesGcmEncrypt p = Some enc"
    and "enc key iv pt aad = Inr (c, t)"
  shows "\<exists>k i m a. key = BytesArg k \<and> iv = BytesArg i \<and> pt = BytesArg m \<and> assertOptionalAad aad = Inr a
    \<and> length k \<in> {16, 32} \<and> 0 < length i \<and> length i \<le> MAX_GCM_IV_BYTES
    \<and> seal k i (nonEmptyAad a) m = (c, t)"
proof (cases ad)
  case NodeAdapter
  with assms have "nodeAesGcmEncrypt (rt_node rt) key iv pt aad = Inr (c, t)"
    by (auto simp: tryAdapter_def createNode_Inr)
  then show ?thesis using node_encrypt_seals assms(1) unfolding runtimeSeals_def by blast
next
  case WebAdapter
  with assms have "webAesGcmEncrypt (rt_web rt) key iv pt aad = Inr (c, t)"
    by (auto simp: tryAdapter_def createWeb_Inr)
  then show ?thesis using web_encrypt_seals assms(1) unfolding runtimeSeals_def by blast
qed

lemma adapter_decrypts:
  assumes "runtimeSeals seal rt" and "tryAdapter rt ad = Inr p" and "aesGcmDecrypt p = Some dec"
    and "seal k i (nonEmptyAad a) m = (c, t)"
    and "length k \<in> {16, 32}" "0 < length i" "length i \<le> MAX_GCM_IV_BYTES" "assertOptionalAad aad = Inr a"
  shows "dec (BytesArg k) (BytesArg i) (BytesArg (c @ t)) aad = Inr m"
proof -
  have tag: "length t = GCM_TAG_LENGTH"
    using assms(1,4) unfolding runtimeSeals_def by (metis snd_conv)
  show ?thesis
  proof (cases ad)
    case NodeAdapter
    with assms(2,3) have "dec = nodeAesGcmDecrypt (rt_node rt)" by (auto simp: tryAdapter_def createNode_Inr)
    with node_decrypt_opens [of seal "rt_node rt" k i a m c t aad] assms(1,4-8) tag show ?thesis
      by (simp add: runtimeSeals_def)
  next
    case WebAdapter
    with assms(2,3) have "dec = webAesGcmDecrypt (rt_web rt)" by (auto simp: tryAdapter_def createWeb_Inr)
    with web_decrypt_opens [of seal "rt_web rt" k i a m c t aad] assms(1,4-8) tag show ?thesis
      by (simp add: runtimeSeals_def)
  qed
qed

text \<open>Whatever one of the two adapters encrypts with AES-GCM, either adapter decrypts: the
  ciphertext followed by the tag, under the same key, IV and additional data, gives back the
  plaintext, and the tag is 16 bytes long.  It assumes that both runtimes implement one and the same
  AES-GCM.\<close>

theorem gcm_adapters_interoperate:
  assumes "runtimeSeals seal rt" and "tryAdapter rt a = Inr p" and "tryAdapter rt b = Inr q"
    and "aesGcmEncrypt p = Some enc" and "aesGcmDecrypt q = Some dec"
    and "enc key iv (BytesArg m) aad = Inr (c, t)"
  shows "dec key iv (BytesArg (c @ t)) aad = Inr m \<and> length t = GCM_TAG_LENGTH"
proof -
  obtain k i m' a' where x: "key = BytesArg k" "iv = BytesArg i" "BytesArg m = BytesArg m'"
      "assertOptionalAad aad = Inr a'" "length k \<in> {16, 32}" "0 < length i" "length i \<le> MAX_GCM_IV_BYTES"
      "seal k i (nonEmptyAad a') m' = (c, t)"
    using adapter_encrypts [OF assms(1,2,4,6)] by blast
  then show ?thesis
    using adapter_decrypts [of seal rt b q dec k i a' m' c t aad] assms(1,3,5)
    unfolding runtimeSeals_def by (metis arg.inject(1) snd_conv)
qed

text \<open>A runtime in which the hypotheses hold: sealing reverses the plaintext and sets a constant tag.\<close>

definition sampleSeal :: gcm_seal where
  "sampleSeal k iv aad m = (rev m, replicate 16 7)"

definition sampleNode :: "(unit, unit) nodeCrypto" where
  "sampleNode = \<lparr> n_importable = True, n_hmac = (\<lambda>k b. Some (replicate 32 (of_nat (length b)))),
     n_timingSafeEqual = (\<lambda>a b. Inr (a = b)), n_randomBytes = (\<lambda>n. replicate n 0),
     n_decodeText = map char_of_byte, n_createPrivateKeyPem = (\<lambda>_. Some ()),
     n_createPrivateKeyJwk = (\<lambda>_. Some ()), n_privateDecrypt = (\<lambda>_ c. Some c),
     n_decipherGcm = (\<lambda>alg k iv aad tag body. Some (rev body, [])),
     n_cipherGcm = (\<lambda>alg k iv aad m. Some (rev m, [], replicate 16 7)),
     n_sha256 = (\<lambda>b. Some (replicate 32 (of_nat (length b)))),
     n_decipherCbc = (\<lambda>alg k iv c. Some (c, [])) \<rparr>"

definition sampleWeb :: "(unit, unit) webCrypto" where
  "sampleWeb = \<lparr> w_hasSubtle = True, w_hasGetRandomValues = True, w_importHmacKey = (\<lambda>_. True),
     w_signHmac = (\<lambda>k b. Some (replicate 32 (of_nat (length b)))),
     w_getRandomValues = (\<lambda>n. replicate n 0), w_decodeText = map char_of_byte,
     w_importPkcs8 = (\<lambda>_. Some ()), w_importJwk = (\<lambda>_. Some ()), w_decryptRsa = (\<lambda>_ c. Some c),
     w_importAesGcm = (\<lambda>_. True),
     w_decryptGcm = (\<lambda>k iv aad c. Some (rev (take (length c - 16) c))),
     w_encryptGcm = (\<lambda>k iv aad m. Some (rev m @ replicate 16 7)),
     w_digest = (\<lambda>b. Some (replicate 32 (of_nat (length b)))), w_importAesCbc = (\<lambda>_. True),
     w_decryptCbc = (\<lambda>k iv c. Some c) \<rparr>"

definition sampleRuntime :: "(unit, unit) js_runtime" where
  "sampleRuntime = \<lparr> rt_nodeVersion = Some ''22'', rt_hasBun = False, rt_node = sampleNode, rt_web = sampleWeb \<rparr>"

lemma sampleRuntime_seals: "runtimeSeals sampleSeal sampleRuntime"
  by (simp add: runtimeSeals_def nodeSeals_def webSeals_def sampleSeal_def sampleRuntime_def sampleNode_def
      sampleWeb_def GCM_TAG_LENGTH_def)

lemma gcm_adapters_interoperate_witness:
  "webAesGcmDecrypt sampleWeb (BytesArg (replicate 32 1)) (BytesArg (replicate 12 2))
     (BytesArg ([3, 2, 1] @ replicate 16 7)) None = Inr [1, 2, 3]"
proof -
  have p: "\<exists>p. tryAdapter sampleRuntime NodeAdapter = Inr p \<and> aesGcmEncrypt p = Some (nodeAesGcmEncrypt sampleNode)"
    by (simp add: tryAdapter_def sampleRuntime_def createNodeCryptoProvider_def sampleNode_def)
  have q: "\<exists>q. tryAdapter sampleRuntime WebAdapter = Inr q \<and> aesGcmDecrypt q = Some (webAesGcmDecrypt sampleWeb)"
    by (simp add: tryAdapter_def sampleRuntime_def createWebCryptoProvider_def sampleWeb_def)
  have "nodeAesGcmEncrypt sampleNode (BytesArg (replicate 32 1)) (BytesArg (replicate 12 2))
      (BytesArg [1, 2, 3]) None = Inr ([3, 2, 1], replicate 16 7)"
    by (simp add: nodeAesGcmEncrypt_def sampleNode_def MAX_GCM_IV_BYTES_def concatBytes_def)
  with p q gcm_adapters_interoperate [OF sampleRuntime_seals] show ?thesis by blast
qed

text \<open>A ciphertext too short to hold the tag is a body error in both adapters.\<close>

lemma short_ciphertext_is_a_body_error:
  assumes "assertAesGcmKey key = Inr bits" and "assertGcmIv iv = Inr ivb" and "length ct < 16"
  shows "nodeAesGcmDecrypt n key iv (BytesArg ct) None = Inl (Crypto InvalidBodyError)"
    and "webAesGcmDecrypt w key iv (BytesArg ct) None = Inl (Crypto InvalidBodyError)"
  using assms by (simp_all add: nodeAesGcmDecrypt_def webAesGcmDecrypt_def GCM_TAG_LENGTH_def)

end
