(* ===== verification/Webhook_Security.thy ===== *)
theory Webhook_Security
  imports Crypto_Provider
begin

section \<open>Webhook signatures and the verification handshake\<close>

text \<open>
  \<open>packages/http/src/signature.ts\<close> and \<open>webhookServer.ts\<close>.  Both take a provider from their
  input or ask a factory for the default one.  An asynchronous function returns a sum: \<open>Inl\<close> the
  rejection, \<open>Inr\<close> its result, which is itself a typed error or a success.
\<close>

subsection \<open>The default provider\<close>

text \<open>
  \<open>factory\<close> is the override set by \<open>_setDefaultCryptoProviderFactory\<close> or else
  \<open>createCryptoProvider\<close>, of which each module has its own; \<open>defaultFactory\<close> is that choice.
\<close>

definition defaultFactory ::
  "(exn + 'jwk provider) option \<Rightarrow> ('jwk, 'key) js_runtime \<Rightarrow> exn + 'jwk provider" where
  "defaultFactory override rt = (case override of Some r \<Rightarrow> r | None \<Rightarrow> createCryptoProvider rt None)"

definition unavailableMessage :: string where
  "unavailableMessage =
     ''no CryptoProvider available in this runtime; provide input.crypto explicitly''"

definition acquireProvider ::
  "'err \<Rightarrow> exn + 'jwk provider \<Rightarrow> 'jwk provider option \<Rightarrow> exn + ('err + 'jwk provider)" where
  "acquireProvider unavailable factory given = (case given of
     Some p \<Rightarrow> Inr (Inr p)
   | None \<Rightarrow> (case factory of
       Inr p \<Rightarrow> Inr (Inr p)
     | Inl e \<Rightarrow> if e = Crypto UnsupportedCapabilityError then Inr (Inl unavailable) else Inl e))"

text \<open>Sequencing of a typed result inside an asynchronous function.\<close>

definition thenR :: "exn + ('err + 'a) \<Rightarrow> ('a \<Rightarrow> exn + ('err + 'b)) \<Rightarrow> exn + ('err + 'b)" where
  "thenR m f = (case m of Inl e \<Rightarrow> Inl e | Inr (Inl err) \<Rightarrow> Inr (Inl err) | Inr (Inr a) \<Rightarrow> f a)"

definition guardR :: "bool \<Rightarrow> 'err \<Rightarrow> exn + ('err + unit)" where
  "guardR ok err = (if ok then Inr (Inr ()) else Inr (Inl err))"

definition awaitR :: "exn + 'a \<Rightarrow> exn + ('err + 'a)" where
  "awaitR m = (case m of Inl e \<Rightarrow> Inl e | Inr a \<Rightarrow> Inr (Inr a))"

lemma thenR_simps [simp]:
  "thenR (Inl e) f = Inl e" "thenR (Inr (Inl r)) f = Inr (Inl r)" "thenR (Inr (Inr a)) f = f a"
  by (simp_all add: thenR_def)

lemma guardR_simps [simp]: "guardR True r = Inr (Inr ())" "guardR False r = Inr (Inl r)"
  by (simp_all add: guardR_def)

lemma awaitR_simps [simp]: "awaitR (Inl e) = Inl e" "awaitR (Inr a) = Inr (Inr a)"
  by (simp_all add: awaitR_def)

lemma thenR_ok [res_iff]: "thenR m f = Inr (Inr b) \<longleftrightarrow> (\<exists>a. m = Inr (Inr a) \<and> f a = Inr (Inr b))"
  by (auto simp: thenR_def split: sum.splits)

lemma guardR_ok [res_iff]: "guardR ok r = Inr (Inr u) \<longleftrightarrow> ok"
  by (simp add: guardR_def)

lemma awaitR_ok [res_iff]: "awaitR m = Inr (Inr a) \<longleftrightarrow> m = Inr a"
  by (auto simp: awaitR_def split: sum.splits)

subsection \<open>Request bodies\<close>

text \<open>
  A buffer is private or shared between threads; a detached one has no bytes.  A view is a
  \<open>Uint8Array\<close> or another \<open>ArrayBufferView\<close> on a part of a buffer.  A \<open>BodyBuffer\<close> that is
  shared is a \<open>SharedArrayBuffer\<close>, which is no \<open>ArrayBuffer\<close>.
\<close>

record arraybuffer =
  ab_shared :: bool
  ab_bytes :: "byte list option"

datatype body_value =
    BodyString string
  | BodyView bool arraybuffer nat nat
  | BodyBuffer arraybuffer
  | BodyOther jsval

definition isSharedArrayBufferBacked :: "arraybuffer \<Rightarrow> bool" where
  "isSharedArrayBufferBacked ab = ab_shared ab"

fun isAcceptableRawBody :: "body_value \<Rightarrow> bool" where
  "isAcceptableRawBody (BodyString s) = True"
| "isAcceptableRawBody (BodyView isUint8 ab off len) = (\<not> isSharedArrayBufferBacked ab)"
| "isAcceptableRawBody (BodyBuffer ab) = (\<not> ab_shared ab)"
| "isAcceptableRawBody (BodyOther v) = False"

definition js_typeof :: "jsval \<Rightarrow> string" where
  "js_typeof v = (case v of JUndef \<Rightarrow> ''undefined'' | JNull \<Rightarrow> ''object'' | JBool _ \<Rightarrow> ''boolean''
     | JNum _ \<Rightarrow> ''number'' | JStr _ \<Rightarrow> ''string'' | JFun \<Rightarrow> ''function''
     | JArr _ \<Rightarrow> ''object'' | JObj _ _ \<Rightarrow> ''object'')"

fun describeRawBody :: "body_value \<Rightarrow> string" where
  "describeRawBody (BodyOther v) =
     (case v of JNull \<Rightarrow> ''null'' | JArr _ \<Rightarrow> ''array'' | _ \<Rightarrow> js_typeof v)"
| "describeRawBody (BodyString s) = ''string''"
| "describeRawBody (BodyView isUint8 ab off len) =
     (if ab_shared ab then ''SharedArrayBuffer-backed view''
      else if isUint8 then ''Uint8Array'' else ''object'')"
| "describeRawBody (BodyBuffer ab) = ''object''"

text \<open>\<open>new Uint8Array(buffer, offset, length)\<close> throws on a detached buffer and out of bounds.\<close>

definition newUint8Array :: "arraybuffer \<Rightarrow> nat \<Rightarrow> nat \<Rightarrow> exn + byte list" where
  "newUint8Array ab off len = (case ab_bytes ab of
     None \<Rightarrow> Inl (HostError ''Buffer is already detached'')
   | Some bs \<Rightarrow> if off + len > length bs then Inl (HostError ''Invalid typed array length'')
       else Inr (take len (drop off bs)))"

definition newUint8ArrayOf :: "arraybuffer \<Rightarrow> exn + byte list" where
  "newUint8ArrayOf ab = (case ab_bytes ab of
     None \<Rightarrow> Inl (HostError ''Buffer is already detached'') | Some bs \<Rightarrow> Inr bs)"

definition describeError :: "exn \<Rightarrow> string" where
  "describeError e = (case e of HostError msg \<Rightarrow> msg | Crypto c \<Rightarrow> errorCode c)"

subsection \<open>Signature validation\<close>

datatype sig_code =
    InvalidAppSecret | InvalidRawBody | MissingSignature | InvalidSignatureFormat | SignatureMismatch
  | SigCryptoUnavailable

definition sigCodeText :: "sig_code \<Rightarrow> string" where
  "sigCodeText c = (case c of InvalidAppSecret \<Rightarrow> ''invalid_app_secret'' | InvalidRawBody \<Rightarrow> ''invalid_raw_body''
     | MissingSignature \<Rightarrow> ''missing_signature'' | InvalidSignatureFormat \<Rightarrow> ''invalid_signature_format''
     | SignatureMismatch \<Rightarrow> ''signature_mismatch'' | SigCryptoUnavailable \<Rightarrow> ''crypto_provider_unavailable'')"

record sig_error =
  se_code :: sig_code
  se_message :: string

definition sigError :: "sig_code \<Rightarrow> string \<Rightarrow> sig_error" where
  "sigError c msg = \<lparr> se_code = c, se_message = msg \<rparr>"

record 'jwk sig_input =
  si_appSecret :: jsval
  si_rawBody :: body_value
  si_signatureHeader :: jsval
  si_crypto :: "'jwk provider option"

text \<open>The last equation is never reached: \<open>isAcceptableRawBody\<close> has refused such a body.\<close>

fun toBodyBytes :: "body_value \<Rightarrow> sig_error + byte list" where
  "toBodyBytes (BodyString s) = Inr (utf8 s)"
| "toBodyBytes (BodyView isUint8 ab off len) = tryE (newUint8Array ab off len)
     (\<lambda>e. Inl (sigError InvalidRawBody (''rawBody buffer is detached: '' @ describeError e)))"
| "toBodyBytes (BodyBuffer ab) = tryE (newUint8ArrayOf ab)
     (\<lambda>e. Inl (sigError InvalidRawBody (''rawBody buffer is detached: '' @ describeError e)))"
| "toBodyBytes (BodyOther v) =
     Inl (sigError InvalidRawBody (''rawBody buffer is detached: '' @ describeError (HostError '''')))"

definition SIGNATURE_PREFIX :: string where
  "SIGNATURE_PREFIX = ''sha256=''"

text \<open>\<open>SIGNATURE_HEADER_PATTERN\<close>.\<close>

definition matchesSignatureHeader :: "string \<Rightarrow> bool" where
  "matchesSignatureHeader h = (js_prefix SIGNATURE_PREFIX h \<and> length (drop 7 h) = 64
     \<and> list_all is_lower_hex (drop 7 h))"

text \<open>\<open>hexToBytes\<close>: the loop over the pairs, which gives up with an empty array on a bad pair.\<close>

fun hexPairs :: "string \<Rightarrow> byte list option" where
  "hexPairs (a # b # rest) = (if is_lower_hex a \<and> is_lower_hex b
     then map_option (\<lambda>bs. of_nat (hexValue a * 16 + hexValue b) # bs) (hexPairs rest) else None)"
| "hexPairs _ = Some []"

definition hexToBytes :: "string \<Rightarrow> byte list" where
  "hexToBytes s = (case hexPairs s of None \<Rightarrow> [] | Some bs \<Rightarrow> bs)"

definition nonBlank :: "jsval \<Rightarrow> string option" where
  "nonBlank v = (case v of JStr s \<Rightarrow> if js_trim s = [] then None else Some s | _ \<Rightarrow> None)"

definition validateWebhookSignature ::
  "exn + 'jwk provider \<Rightarrow> 'jwk sig_input \<Rightarrow> exn + (sig_error + unit)" where
  "validateWebhookSignature factory inp = (case nonBlank (si_appSecret inp) of
     None \<Rightarrow> Inr (Inl (sigError InvalidAppSecret ''App secret must be a non-empty string.''))
   | Some secret \<Rightarrow>
     thenR (guardR (isAcceptableRawBody (si_rawBody inp)) (sigError InvalidRawBody
       (''rawBody must be string, Uint8Array, ArrayBuffer, or ArrayBufferView backed by a private ArrayBuffer; got ''
         @ describeRawBody (si_rawBody inp) @ ''.''))) (\<lambda>_.
     case si_signatureHeader inp of
       JStr header \<Rightarrow>
         thenR (guardR (header \<noteq> []) (sigError MissingSignature ''Missing X-Hub-Signature-256 header.'')) (\<lambda>_.
         thenR (guardR (matchesSignatureHeader header) (sigError InvalidSignatureFormat
           (''X-Hub-Signature-256 must have format '' @ [CHR 0x27] @
            ''sha256=<64 lowercase hex chars>'' @ [CHR 0x27] @ ''.''))) (\<lambda>_.
         thenR (acquireProvider (sigError SigCryptoUnavailable unavailableMessage) factory (si_crypto inp)) (\<lambda>provider.
         thenR (Inr (toBodyBytes (si_rawBody inp))) (\<lambda>bytes.
         thenR (awaitR (hmacSha256 provider (StrArg secret) (BytesArg bytes))) (\<lambda>computed.
         let receivedBytes = hexToBytes (drop (length SIGNATURE_PREFIX) header);
             mismatch = Inr (Inl (sigError SignatureMismatch
               ''X-Hub-Signature-256 does not match payload digest.'')) in
         if length computed \<noteq> length receivedBytes then mismatch
         else thenR (awaitR (timingSafeEqual provider (BytesArg computed) (BytesArg receivedBytes)))
           (\<lambda>same. if \<not> same then mismatch else Inr (Inr ())))))))
     | _ \<Rightarrow> Inr (Inl (sigError MissingSignature ''Missing X-Hub-Signature-256 header.''))))"

subsection \<open>The verification handshake\<close>

datatype challenge_code =
    InvalidExpectedVerifyToken | InvalidMode | InvalidVerifyToken | MissingChallenge
  | ChallengeCryptoUnavailable

definition challengeCodeText :: "challenge_code \<Rightarrow> string" where
  "challengeCodeText c = (case c of
     InvalidExpectedVerifyToken \<Rightarrow> ''invalid_expected_verify_token'' | InvalidMode \<Rightarrow> ''invalid_mode''
   | InvalidVerifyToken \<Rightarrow> ''invalid_verify_token'' | MissingChallenge \<Rightarrow> ''missing_challenge''
   | ChallengeCryptoUnavailable \<Rightarrow> ''crypto_provider_unavailable'')"

record challenge_error =
  ce_code :: challenge_code
  ce_status :: nat
  ce_message :: string

definition challengeError :: "challenge_code \<Rightarrow> nat \<Rightarrow> string \<Rightarrow> challenge_error" where
  "challengeError c st msg = \<lparr> ce_code = c, ce_status = st, ce_message = msg \<rparr>"

record 'jwk challenge_input =
  ci_mode :: jsval
  ci_challenge :: jsval
  ci_verifyToken :: jsval
  ci_expectedVerifyToken :: jsval
  ci_crypto :: "'jwk provider option"

definition nonEmptyString :: "jsval \<Rightarrow> string option" where
  "nonEmptyString v = (case v of JStr s \<Rightarrow> if s = [] then None else Some s | _ \<Rightarrow> None)"

definition safeCompareTokens :: "'jwk provider \<Rightarrow> string \<Rightarrow> string \<Rightarrow> exn + bool" where
  "safeCompareTokens p expectedToken receivedToken =
     (let expected = utf8 expectedToken; received = utf8 receivedToken in
      if length expected \<noteq> length received then Inr False
      else timingSafeEqual p (BytesArg expected) (BytesArg received))"

definition tokenMatches :: "'jwk provider \<Rightarrow> string \<Rightarrow> jsval \<Rightarrow> exn + bool" where
  "tokenMatches p expected v = (case v of JStr tok \<Rightarrow> safeCompareTokens p expected tok | _ \<Rightarrow> Inr False)"

definition verifyWebhookChallenge ::
  "exn + 'jwk provider \<Rightarrow> 'jwk challenge_input \<Rightarrow> exn + (challenge_error + string)" where
  "verifyWebhookChallenge factory inp = (case nonBlank (ci_expectedVerifyToken inp) of
     None \<Rightarrow> Inr (Inl (challengeError InvalidExpectedVerifyToken 500
       ''Configured webhook verify token must be a non-empty string.''))
   | Some expected \<Rightarrow>
     thenR (guardR (ci_mode inp = JStr ''subscribe'') (challengeError InvalidMode 403
       (''Webhook challenge mode must be '' @ [CHR 0x27] @ ''subscribe'' @ [CHR 0x27] @ ''.''))) (\<lambda>_.
     thenR (acquireProvider (challengeError ChallengeCryptoUnavailable 500 unavailableMessage)
       factory (ci_crypto inp)) (\<lambda>provider.
     thenR (awaitR (tokenMatches provider expected (ci_verifyToken inp))) (\<lambda>same.
     thenR (guardR same (challengeError InvalidVerifyToken 403
       ''Webhook verify token does not match configured token.'')) (\<lambda>_.
     case nonEmptyString (ci_challenge inp) of
       None \<Rightarrow> Inr (Inl (challengeError MissingChallenge 400
         ''Webhook challenge must be a non-empty string.''))
     | Some challenge \<Rightarrow> Inr (Inr challenge))))))"

subsection \<open>Hexadecimal round trip\<close>

lemma hexPairs_bytesToHex [simp]: "hexPairs (bytesToHex bs) = Some bs"
proof (induction bs)
  case (Cons b bs)
  have "unat b div 16 < 16" using unat_byte_less [of b] by linarith
  moreover have "unat b div 16 * 16 + unat b mod 16 = unat b" by simp
  ultimately show ?case using Cons by (simp add: hexValue_digit del: of_nat_add of_nat_mult)
qed simp

lemma bytesToHex_hexPairs:
  "even (length s) \<Longrightarrow> list_all is_lower_hex s \<Longrightarrow> \<exists>bs. hexPairs s = Some bs \<and> bytesToHex bs = s"
proof (induction s rule: hexPairs.induct)
  case (1 a b rest)
  then obtain bs where bs: "hexPairs rest = Some bs" "bytesToHex bs = rest" by auto
  have v: "hexValue a < 16" "hexValue b < 16" "hexDigit (hexValue a) = a" "hexDigit (hexValue b) = b"
    using 1 by (simp_all add: hexDigit_value)
  then have "unat (of_nat (hexValue a * 16 + hexValue b) :: byte) = hexValue a * 16 + hexValue b"
    by (simp add: unat_of_nat del: of_nat_add of_nat_mult)
  with bs v 1 show ?case by (simp del: of_nat_add of_nat_mult)
qed auto

lemma header_determined:
  assumes "matchesSignatureHeader h"
  shows "length (hexToBytes (drop 7 h)) = 32" and "h = SIGNATURE_PREFIX @ bytesToHex (hexToBytes (drop 7 h))"
proof -
  obtain bs where bs: "hexPairs (drop 7 h) = Some bs" "bytesToHex bs = drop 7 h"
    using assms bytesToHex_hexPairs [of "drop 7 h"] by (auto simp: matchesSignatureHeader_def)
  have pre: "h = SIGNATURE_PREFIX @ drop 7 h"
    using assms by (auto simp: matchesSignatureHeader_def js_prefix_iff SIGNATURE_PREFIX_def)
  show "h = SIGNATURE_PREFIX @ bytesToHex (hexToBytes (drop 7 h))"
    using bs pre by (simp add: hexToBytes_def)
  show "length (hexToBytes (drop 7 h)) = 32"
    using bs assms length_bytesToHex [of bs] by (simp add: hexToBytes_def matchesSignatureHeader_def)
qed

lemma hexToBytes_bytesToHex [simp]: "hexToBytes (bytesToHex bs) = bs"
  by (simp add: hexToBytes_def)

lemma length_prefix [simp]: "length SIGNATURE_PREFIX = 7"
  by (simp add: SIGNATURE_PREFIX_def)

lemma drop_prefix [simp]: "drop 7 (SIGNATURE_PREFIX @ h) = h"
  by (simp add: SIGNATURE_PREFIX_def)

lemma signed_header_matches: "length d = 32 \<Longrightarrow> matchesSignatureHeader (SIGNATURE_PREFIX @ bytesToHex d)"
  by (simp add: matchesSignatureHeader_def length_bytesToHex list_all_iff bytesToHex_lower_hex js_prefix_iff)

text \<open>The signature's hexadecimal text and its bytes determine each other: \<open>hexToBytes\<close>
  inverts the writing of any byte array in lower-case hexadecimal, and every header that matches the
  pattern is the prefix followed by the text of the 32 bytes that \<open>hexToBytes\<close> reads from it.\<close>

theorem hexToBytes_roundtrip:
  "hexToBytes (bytesToHex bs) = bs \<and>
   (matchesSignatureHeader h \<longrightarrow> length (hexToBytes (drop 7 h)) = 32 \<and>
      h = SIGNATURE_PREFIX @ bytesToHex (hexToBytes (drop 7 h)))"
  using header_determined by simp

lemma hexToBytes_roundtrip_witness:
  "length (hexToBytes (replicate 64 (CHR ''a''))) = 32"
proof -
  have "matchesSignatureHeader (SIGNATURE_PREFIX @ replicate 64 (CHR ''a''))"
    by (simp add: matchesSignatureHeader_def js_prefix_iff is_lower_hex_def code_of_def list_all_iff)
  then show ?thesis using hexToBytes_roundtrip [of "[]" "SIGNATURE_PREFIX @ replicate 64 (CHR ''a'')"] by simp
qed

subsection \<open>Soundness and completeness of the two checks\<close>

text \<open>The provider that a call uses, and the reference description of an authentic body.\<close>

definition chosenProvider :: "exn + 'jwk provider \<Rightarrow> 'jwk provider option \<Rightarrow> 'jwk provider option" where
  "chosenProvider factory given = (case given of Some p \<Rightarrow> Some p
     | None \<Rightarrow> (case factory of Inr p \<Rightarrow> Some p | Inl _ \<Rightarrow> None))"

lemma acquireProvider_ok [res_iff]:
  "acquireProvider u factory given = Inr (Inr p) \<longleftrightarrow> chosenProvider factory given = Some p"
  by (auto simp: acquireProvider_def chosenProvider_def split: option.splits sum.splits)

lemma acquireProvider_chosen:
  "chosenProvider factory given = Some p \<Longrightarrow> acquireProvider u factory given = Inr (Inr p)"
  by (simp add: acquireProvider_ok)

definition authenticBody :: "'jwk provider \<Rightarrow> string \<Rightarrow> byte list \<Rightarrow> string \<Rightarrow> bool" where
  "authenticBody p secret bytes header = (case hmacSha256 p (StrArg secret) (BytesArg bytes) of
     Inl _ \<Rightarrow> False
   | Inr digest \<Rightarrow> length digest = 32 \<and> header = SIGNATURE_PREFIX @ bytesToHex digest)"

lemma authenticBody_iff: "authenticBody p secret bytes header \<longleftrightarrow>
    (\<exists>d. hmacSha256 p (StrArg secret) (BytesArg bytes) = Inr d \<and> length d = 32
      \<and> header = SIGNATURE_PREFIX @ bytesToHex d)"
  by (auto simp: authenticBody_def split: sum.splits)

context constant_time_compare
begin

lemma digest_check:
  assumes "matchesSignatureHeader header"
  shows "(if length d \<noteq> length (hexToBytes (drop (length SIGNATURE_PREFIX) header)) then Inr (Inl m)
      else thenR (awaitR (tse (BytesArg d) (BytesArg (hexToBytes (drop (length SIGNATURE_PREFIX) header)))))
        (\<lambda>same. if \<not> same then Inr (Inl m) else Inr (Inr ()))) = Inr (Inr ())
    \<longleftrightarrow> length d = 32 \<and> header = SIGNATURE_PREFIX @ bytesToHex d"
proof -
  have h: "length (hexToBytes (drop 7 header)) = 32"
    "header = SIGNATURE_PREFIX @ bytesToHex (hexToBytes (drop 7 header))"
    using header_determined [OF assms] by blast+
  have "hexToBytes (drop 7 header) = d \<longleftrightarrow> header = SIGNATURE_PREFIX @ bytesToHex d" if "length d = 32"
    using h(2) by (metis drop_prefix hexToBytes_bytesToHex)
  then show ?thesis
    using h(1) by (cases "length d = 32") (auto simp: same_length)
qed

lemma token_check:
  "(if length (utf8 a) \<noteq> length (utf8 b) then Inr False else tse (BytesArg (utf8 a)) (BytesArg (utf8 b)))
     = Inr (a = b)"
  using same_length [of "utf8 a" "utf8 b"] utf8_inj [of a b] by auto

end

lemma validateWebhookSignature_ok:
  assumes "constant_time_compare (timingSafeEqual p)" and "chosenProvider factory (si_crypto inp) = Some p"
  shows "validateWebhookSignature factory inp = Inr (Inr ()) \<longleftrightarrow>
    (\<exists>secret bytes header. nonBlank (si_appSecret inp) = Some secret \<and> isAcceptableRawBody (si_rawBody inp)
       \<and> toBodyBytes (si_rawBody inp) = Inr bytes \<and> si_signatureHeader inp = JStr header
       \<and> authenticBody p secret bytes header)"
proof (cases "\<exists>secret header. nonBlank (si_appSecret inp) = Some secret \<and> isAcceptableRawBody (si_rawBody inp)
    \<and> si_signatureHeader inp = JStr header \<and> matchesSignatureHeader header")
  case False
  have "\<not> matchesSignatureHeader header \<Longrightarrow> \<not> authenticBody p secret bytes header" for secret bytes header
    using signed_header_matches by (auto simp: authenticBody_def split: sum.splits)
  with False show ?thesis
    by (auto simp: validateWebhookSignature_def res_iff split: option.splits jsval.splits)
next
  case True
  then obtain secret header where h: "nonBlank (si_appSecret inp) = Some secret"
    "isAcceptableRawBody (si_rawBody inp)" "si_signatureHeader inp = JStr header"
    "matchesSignatureHeader header" by blast
  let ?mismatch = "Inr (Inl (sigError SignatureMismatch ''X-Hub-Signature-256 does not match payload digest.''))"
  have ne: "header \<noteq> []" using h(4) by (auto simp: matchesSignatureHeader_def)
  have run: "validateWebhookSignature factory inp = thenR (Inr (toBodyBytes (si_rawBody inp))) (\<lambda>bytes.
     thenR (awaitR (hmacSha256 p (StrArg secret) (BytesArg bytes))) (\<lambda>d.
     if length d \<noteq> length (hexToBytes (drop (length SIGNATURE_PREFIX) header)) then ?mismatch
      else thenR (awaitR (timingSafeEqual p (BytesArg d) (BytesArg (hexToBytes (drop (length SIGNATURE_PREFIX) header)))))
        (\<lambda>same. if \<not> same then ?mismatch else Inr (Inr ()))))"
    unfolding validateWebhookSignature_def h(1,3) Let_def option.case jsval.case
    by (simp only: h(2,4) ne acquireProvider_chosen [OF assms(2)] guardR_simps thenR_simps not_False_eq_True)
  have "validateWebhookSignature factory inp = Inr (Inr ())
    \<longleftrightarrow> (\<exists>bytes. toBodyBytes (si_rawBody inp) = Inr bytes \<and> authenticBody p secret bytes header)"
    unfolding run thenR_ok constant_time_compare.digest_check [OF assms(1) h(4)]
    by (auto simp: authenticBody_iff res_iff)
  then show ?thesis by (simp add: h(1-3))
qed

text \<open>C19: With a provider whose comparison is equality on arrays of one length, a webhook signature is
  accepted exactly when the secret is not blank, the body is of an accepted type and readable, and the
  header is \<open>sha256=\<close> followed by the lower-case hexadecimal HMAC-SHA256 of the body's bytes under the
  secret: nothing else is accepted, and every such header is.\<close>

theorem signature_accepts_exactly_authentic:
  assumes "constant_time_compare (timingSafeEqual p)" and "chosenProvider factory (si_crypto inp) = Some p"
  shows "validateWebhookSignature factory inp = Inr (Inr ()) \<longleftrightarrow>
    (\<exists>secret bytes header. nonBlank (si_appSecret inp) = Some secret \<and> isAcceptableRawBody (si_rawBody inp)
       \<and> toBodyBytes (si_rawBody inp) = Inr bytes \<and> si_signatureHeader inp = JStr header
       \<and> authenticBody p secret bytes header)"
  by (rule validateWebhookSignature_ok [OF assms])

lemma verifyWebhookChallenge_ok:
  assumes "constant_time_compare (timingSafeEqual p)" and "chosenProvider factory (ci_crypto inp) = Some p"
  shows "verifyWebhookChallenge factory inp = Inr (Inr challenge) \<longleftrightarrow>
    (\<exists>expected. nonBlank (ci_expectedVerifyToken inp) = Some expected \<and> ci_mode inp = JStr ''subscribe''
       \<and> ci_verifyToken inp = JStr expected \<and> ci_challenge inp = JStr challenge \<and> challenge \<noteq> [])"
proof -
  have "tokenMatches p e v = Inr (v = JStr e)" for e v
    using constant_time_compare.token_check [OF assms(1), of e]
    by (auto simp: tokenMatches_def safeCompareTokens_def Let_def split: jsval.splits)
  moreover have "nonEmptyString v = Some c \<longleftrightarrow> v = JStr c \<and> c \<noteq> []" for v c
    by (auto simp: nonEmptyString_def split: jsval.splits)
  moreover have "nonEmptyString v = None \<longleftrightarrow> (\<forall>c. v = JStr c \<longrightarrow> c = [])" for v
    by (auto simp: nonEmptyString_def split: jsval.splits)
  ultimately show ?thesis
    by (auto simp: verifyWebhookChallenge_def res_iff assms(2) split: option.splits)
qed

text \<open>A provider and an input at which the hypotheses hold: the WebCrypto adapter over a sample host,
  whose HMAC is 32 bytes that each hold the length of the body.\<close>

definition sampleProvider :: "unit provider" where
  "sampleProvider = \<lparr> provider_name = ''webcrypto'', hmacSha256 = webHmacSha256 sampleWeb,
       timingSafeEqual = webTimingSafeEqual, randomBytes = webRandomBytes sampleWeb,
       rsaOaepDecrypt = Some (webRsaOaepDecrypt sampleWeb), aesGcmDecrypt = Some (webAesGcmDecrypt sampleWeb),
       aesGcmEncrypt = Some (webAesGcmEncrypt sampleWeb), sha256 = Some (webSha256 sampleWeb),
       aesCbcDecrypt = Some (webAesCbcDecrypt sampleWeb) \<rparr>"

lemma sampleProvider_created: "createWebCryptoProvider sampleWeb = Inr sampleProvider"
  by (simp add: createWebCryptoProvider_def sampleProvider_def sampleWeb_def)

lemma sampleProvider_compares: "constant_time_compare (timingSafeEqual sampleProvider)"
  by (simp add: sampleProvider_def web.constant_time_compare_axioms)

lemma sampleProvider_hmac:
  "secret \<noteq> [] \<Longrightarrow> hmacSha256 sampleProvider (StrArg secret) (BytesArg bs) = Inr (replicate 32 (of_nat (length bs)))"
  by (simp add: sampleProvider_def webHmacSha256_def sampleWeb_def)

definition sampleBody :: body_value where
  "sampleBody = BodyView True \<lparr> ab_shared = False, ab_bytes = Some [123, 125] \<rparr> 0 2"

lemma signature_accepts_exactly_authentic_witness:
  "validateWebhookSignature (Inl (HostError ''unused'')) \<lparr> si_appSecret = JStr ''secret'',
     si_rawBody = sampleBody, si_signatureHeader = JStr (SIGNATURE_PREFIX @ bytesToHex (replicate 32 2)),
     si_crypto = Some sampleProvider \<rparr> = Inr (Inr ())"
proof -
  have "nonBlank (JStr ''secret'') = Some ''secret''" by (simp add: nonBlank_def js_trim_def js_space_def code_of_def)
  moreover have "toBodyBytes sampleBody = Inr [123, 125]" "isAcceptableRawBody sampleBody"
    by (simp_all add: sampleBody_def newUint8Array_def isSharedArrayBufferBacked_def)
  moreover have "authenticBody sampleProvider ''secret'' [123, 125] (SIGNATURE_PREFIX @ bytesToHex (replicate 32 2))"
    by (simp add: authenticBody_iff sampleProvider_hmac)
  ultimately show ?thesis
    by (subst signature_accepts_exactly_authentic [OF sampleProvider_compares])
      (auto simp: chosenProvider_def)
qed

end
