(* ===== verification/Json_Stringify.thy ===== *)
theory Json_Stringify
  imports Byte_Strings
begin

section \<open>JSON.stringify\<close>

text \<open>
  \<open>JSON.stringify\<close> on the values of the model, with the text of a number
  (\<open>Number.prototype.toString\<close>) as a parameter.  \<open>None\<close> is \<open>undefined\<close>: a value with no JSON
  text, which an object leaves out and an array writes as \<open>null\<close>.  No object of the model has a
  \<open>toJSON\<close> method that could be run.
\<close>

definition jsonEscape :: "char \<Rightarrow> string" where
  "jsonEscape c = (let n = code_of c in
     if n = 34 then [CHR 0x5C, c] else if n = 92 then [CHR 0x5C, c]
     else if n = 8 then [CHR 0x5C, CHR ''b''] else if n = 9 then [CHR 0x5C, CHR ''t'']
     else if n = 10 then [CHR 0x5C, CHR ''n''] else if n = 12 then [CHR 0x5C, CHR ''f'']
     else if n = 13 then [CHR 0x5C, CHR ''r'']
     else if n < 32 then [CHR 0x5C, CHR ''u'', CHR ''0'', CHR ''0'', hexDigit (n div 16), hexDigit (n mod 16)]
     else [c])"

definition jsonQuote :: "string \<Rightarrow> string" where
  "jsonQuote s = [CHR 0x22] @ concat (map jsonEscape s) @ [CHR 0x22]"

fun commaSep :: "string list \<Rightarrow> string" where
  "commaSep [] = []"
| "commaSep [x] = x"
| "commaSep (x # y # xs) = x @ '','' @ commaSep (y # xs)"

lemma slot_value_size_le: "size (slot_value s) \<le> size s"
  by (cases s) auto

lemma slot_value_size [termination_simp]:
  "s \<in> set sl \<Longrightarrow> size (slot_value s) < Suc (size_list size sl)"
proof -
  assume s: "s \<in> set sl"
  have "size (slot_value s) \<le> size s" by (rule slot_value_size_le)
  moreover have "size s < Suc (size_list size sl)" using s by (induction sl) auto
  ultimately show ?thesis by simp
qed

lemma prop_value_size [termination_simp]:
  "(k, s) \<in> set ps \<Longrightarrow> size (slot_value s) < Suc (size_list (\<lambda>x. Suc (size (snd x))) ps)"
proof -
  assume s: "(k, s) \<in> set ps"
  have "size (slot_value s) \<le> size s" by (rule slot_value_size_le)
  moreover have "size s \<le> size_list (\<lambda>x. Suc (size (snd x))) ps" using s by (induction ps) auto
  ultimately show ?thesis by simp
qed

fun js_stringify :: "(rat \<Rightarrow> string) \<Rightarrow> jsval \<Rightarrow> string option" where
  "js_stringify nt JUndef = None"
| "js_stringify nt JFun = None"
| "js_stringify nt JNull = Some ''null''"
| "js_stringify nt (JBool b) = Some (if b then ''true'' else ''false'')"
| "js_stringify nt (JNum x) = Some (case x of Fin r \<Rightarrow> nt r | _ \<Rightarrow> ''null'')"
| "js_stringify nt (JStr s) = Some (jsonQuote s)"
| "js_stringify nt (JArr sl) = Some (''['' @ commaSep (map (\<lambda>s.
     case js_stringify nt (slot_value s) of None \<Rightarrow> ''null'' | Some t \<Rightarrow> t) sl) @ '']'')"
| "js_stringify nt (JObj p ps) = Some (''{'' @ commaSep (concat (map (\<lambda>(k, s).
     case js_stringify nt (slot_value s) of None \<Rightarrow> [] | Some t \<Rightarrow> [jsonQuote k @ '':'' @ t]) ps)) @ ''}'')"

text \<open>A plain object literal.\<close>

definition jsObject :: "(string \<times> jsval) list \<Rightarrow> jsval" where
  "jsObject ps = JObj ObjectProto (map (\<lambda>(k, v). (k, Data v)) ps)"

end
