(* ===== verification/Webhook_Adapter.thy ===== *)
theory Webhook_Adapter
  imports Webhook_Security Json_Stringify Reliable_Transport
begin

section \<open>The webhook adapter\<close>

text \<open>
  \<open>packages/http/src/adapters/webhookAdapter.ts\<close>: the runtime-neutral handler of webhook requests.
  A request handler is an action on a world that holds the events handed to the logger (whose own
  failures are swallowed), the updates passed to the facade's \<open>dispatch\<close> in order, and the facade's
  state.  Parameters are the URL parser, \<open>JSON.parse\<close> after text decoding, the text of numbers,
  the normalizer of the core package and the facade.
\<close>

subsection \<open>Requests, responses, events\<close>

record webhook_request =
  wq_method :: string
  wq_url :: string
  wq_headers :: "(string \<times> string) list"
  wq_body :: body_value

record webhook_response =
  ws_status :: nat
  ws_headers :: "(string \<times> string) list"
  ws_body :: string

datatype adapter_event =
    RequestReceived string string
  | SignatureVerified bool
  | BodyNormalized nat nat
  | Dispatched nat
  | ResponseSent nat
  | ErrorEvent string exn

datatype normalize_exn = WebhookNormalizationError string string | OtherNormalizeError exn

record ('u, 's) webhook_world =
  hw_log :: "adapter_event list"
  hw_calls :: "'u list"
  hw_facade :: 's

record ('jwk, 'u, 's) webhook_env =
  ev_verifyFactory :: "exn + 'jwk provider"
  ev_signatureFactory :: "exn + 'jwk provider"
  ev_searchParams :: "string \<Rightarrow> (string \<times> string) list option"
  ev_parseJson :: "byte list \<Rightarrow> jsval option"
  ev_numberText :: "rat \<Rightarrow> string"
  ev_normalize :: "jsval \<Rightarrow> normalize_exn + 'u list \<times> nat"
  ev_dispatch :: "'u \<Rightarrow> 's \<Rightarrow> (exn + unit) \<times> 's"

subsection \<open>Configuration\<close>

datatype config_code =
    CfgInvalidConfig | CfgInvalidVerifyToken | CfgInvalidAppSecret | CfgInvalidWhatsapp
  | CfgInvalidCryptoProvider | CfgInvalidMaxBodyBytes | CfgInvalidLogger

record 'jwk webhook_adapter =
  wa_verifyToken :: string
  wa_appSecret :: string
  wa_crypto :: "'jwk provider option"
  wa_maxBodyBytes :: nat
  wa_logger :: bool

definition DEFAULT_MAX_BODY_BYTES :: nat where
  "DEFAULT_MAX_BODY_BYTES = 1048576"

definition MAX_VERIFY_TOKEN_LENGTH :: nat where
  "MAX_VERIFY_TOKEN_LENGTH = 512"

text \<open>\<open>isObject\<close> here admits objects of every prototype, but no array.  The properties of an object
  of the model include the methods it inherits from its class.\<close>

definition plainProps :: "jsval \<Rightarrow> (string \<times> slot) list option" where
  "plainProps v = (case v of JObj _ ps \<Rightarrow> Some ps | _ \<Rightarrow> None)"

text \<open>\<open>hasControlChars\<close> of this file looks for NUL, LF and CR only.\<close>

definition hasLineControl :: "string \<Rightarrow> bool" where
  "hasLineControl s = list_ex (\<lambda>c. code_of c \<in> {0, 10, 13}) s"

definition validateVerifyToken :: "jsval \<Rightarrow> config_code + string" where
  "validateVerifyToken v = (case v of
     JStr s \<Rightarrow>
       bindE (guardE (s \<noteq> []) CfgInvalidVerifyToken) (\<lambda>_.
       bindE (guardE (js_trim s \<noteq> []) CfgInvalidVerifyToken) (\<lambda>_.
       bindE (guardE (length s \<le> MAX_VERIFY_TOKEN_LENGTH) CfgInvalidVerifyToken) (\<lambda>_.
       bindE (guardE (\<not> hasLineControl s) CfgInvalidVerifyToken) (\<lambda>_. Inr s))))
   | _ \<Rightarrow> Inl CfgInvalidVerifyToken)"

definition validateAppSecret :: "jsval \<Rightarrow> config_code + string" where
  "validateAppSecret v = (case v of
     JStr s \<Rightarrow>
       bindE (guardE (s \<noteq> []) CfgInvalidAppSecret) (\<lambda>_.
       bindE (guardE (js_trim s \<noteq> []) CfgInvalidAppSecret) (\<lambda>_.
       bindE (guardE (\<not> hasLineControl s) CfgInvalidAppSecret) (\<lambda>_. Inr s)))
   | _ \<Rightarrow> Inl CfgInvalidAppSecret)"

definition validateFacade :: "jsval \<Rightarrow> config_code + unit" where
  "validateFacade v = (case plainProps v of
     None \<Rightarrow> Inl CfgInvalidWhatsapp
   | Some ps \<Rightarrow> guardE (isFunction (js_get ps ''dispatch'')) CfgInvalidWhatsapp)"

definition validateCryptoProvider :: "jsval \<Rightarrow> 'jwk provider \<Rightarrow> config_code + 'jwk provider option" where
  "validateCryptoProvider v p = (if v = JUndef then Inr None else (case plainProps v of
     None \<Rightarrow> Inl CfgInvalidCryptoProvider
   | Some ps \<Rightarrow>
       bindE (guardE (isFunction (js_get ps ''hmacSha256'')) CfgInvalidCryptoProvider) (\<lambda>_.
       bindE (guardE (isFunction (js_get ps ''timingSafeEqual'')) CfgInvalidCryptoProvider) (\<lambda>_.
       Inr (Some p)))))"

definition validateMaxBodyBytes :: "jsval \<Rightarrow> config_code + nat" where
  "validateMaxBodyBytes v = (if v = JUndef then Inr DEFAULT_MAX_BODY_BYTES
     else if isPositiveInteger v then Inr (nat (numberFloor v))
     else Inl CfgInvalidMaxBodyBytes)"

definition validateLogger :: "jsval \<Rightarrow> config_code + bool" where
  "validateLogger v = (if v = JUndef then Inr False
     else bindE (guardE (isFunction v) CfgInvalidLogger) (\<lambda>_. Inr True))"

text \<open>The provider behind the value of \<open>config.cryptoProvider\<close> is the second argument.\<close>

definition createWebhookAdapter :: "jsval \<Rightarrow> 'jwk provider \<Rightarrow> config_code + 'jwk webhook_adapter" where
  "createWebhookAdapter config p = (case plainProps config of
     None \<Rightarrow> Inl CfgInvalidConfig
   | Some ps \<Rightarrow>
       bindE (validateVerifyToken (js_get ps ''verifyToken'')) (\<lambda>verifyToken.
       bindE (validateAppSecret (js_get ps ''appSecret'')) (\<lambda>appSecret.
       bindE (validateFacade (js_get ps ''whatsapp'')) (\<lambda>_.
       bindE (validateCryptoProvider (js_get ps ''cryptoProvider'') p) (\<lambda>crypto.
       bindE (validateMaxBodyBytes (js_get ps ''maxBodyBytes'')) (\<lambda>maxBodyBytes.
       bindE (validateLogger (js_get ps ''logger'')) (\<lambda>logger.
       Inr \<lparr> wa_verifyToken = verifyToken, wa_appSecret = appSecret, wa_crypto = crypto,
             wa_maxBodyBytes = maxBodyBytes, wa_logger = logger \<rparr>)))))))"

lemma validateMaxBodyBytes_positive: "validateMaxBodyBytes v = Inr n \<Longrightarrow> 0 < n"
proof -
  have "0 < r \<Longrightarrow> r = of_int \<lfloor>r\<rfloor> \<Longrightarrow> 0 < \<lfloor>r\<rfloor>" for r :: rat
    by (metis of_int_0_less_iff)
  then show "validateMaxBodyBytes v = Inr n \<Longrightarrow> 0 < n"
    by (auto simp: validateMaxBodyBytes_def DEFAULT_MAX_BODY_BYTES_def isPositiveInteger_def isIntegerNum_def
        numberFloor_def split: jsval.splits jsnum.splits if_splits simp del: zero_less_floor)
qed

lemma createWebhookAdapter_ok:
  assumes "createWebhookAdapter config p = Inr cx"
  shows "js_trim (wa_verifyToken cx) \<noteq> []" and "js_trim (wa_appSecret cx) \<noteq> []" and "0 < wa_maxBodyBytes cx"
    and "length (wa_verifyToken cx) \<le> MAX_VERIFY_TOKEN_LENGTH"
    and "\<not> hasLineControl (wa_verifyToken cx)" and "\<not> hasLineControl (wa_appSecret cx)"
  using assms validateMaxBodyBytes_positive
  by (auto simp: createWebhookAdapter_def validateVerifyToken_def validateAppSecret_def
      res_iff split: option.splits jsval.splits)

subsection \<open>Bodies and responses\<close>

definition bufferLength :: "arraybuffer \<Rightarrow> nat" where
  "bufferLength ab = (case ab_bytes ab of None \<Rightarrow> 0 | Some bs \<Rightarrow> length bs)"

fun bodyByteLength :: "body_value \<Rightarrow> nat" where
  "bodyByteLength (BodyView isUint8 ab off len) = (if ab_bytes ab = None then 0 else len)"
| "bodyByteLength (BodyBuffer ab) = bufferLength ab"
| "bodyByteLength _ = 0"

text \<open>\<open>bodyToUint8\<close> wraps the same memory in a \<open>Uint8Array\<close>.\<close>

fun bodyToUint8 :: "body_value \<Rightarrow> exn + body_value" where
  "bodyToUint8 (BodyView isUint8 ab off len) =
     (if isUint8 then Inr (BodyView True ab off len)
      else bindE (newUint8Array ab off len) (\<lambda>_. Inr (BodyView True ab off len)))"
| "bodyToUint8 (BodyBuffer ab) =
     bindE (newUint8ArrayOf ab) (\<lambda>_. Inr (BodyView True ab 0 (bufferLength ab)))"
| "bodyToUint8 b = Inr b"

fun isAcceptableBody :: "body_value \<Rightarrow> bool" where
  "isAcceptableBody (BodyOther v) = (v = JNull \<or> v = JUndef)"
| "isAcceptableBody (BodyBuffer ab) = (\<not> ab_shared ab)"
| "isAcceptableBody (BodyView isUint8 ab off len) = True"
| "isAcceptableBody (BodyString s) = False"

text \<open>The bytes that the text decoder reads from a \<open>Uint8Array\<close>.\<close>

fun viewBytes :: "body_value \<Rightarrow> byte list" where
  "viewBytes (BodyView isUint8 ab off len) =
     (case ab_bytes ab of None \<Rightarrow> [] | Some bs \<Rightarrow> take len (drop off bs))"
| "viewBytes _ = []"

definition JSON_CONTENT_TYPE :: string where
  "JSON_CONTENT_TYPE = ''application/json; charset=utf-8''"

definition TEXT_CONTENT_TYPE :: string where
  "TEXT_CONTENT_TYPE = ''text/plain; charset=utf-8''"

definition stringifyBody :: "(rat \<Rightarrow> string) \<Rightarrow> jsval \<Rightarrow> string" where
  "stringifyBody nt v = (case js_stringify nt v of None \<Rightarrow> [] | Some t \<Rightarrow> t)"

definition jsonResponse :: "(rat \<Rightarrow> string) \<Rightarrow> nat \<Rightarrow> jsval \<Rightarrow> webhook_response" where
  "jsonResponse nt status payload = \<lparr> ws_status = status,
     ws_headers = [(''content-type'', JSON_CONTENT_TYPE)], ws_body = stringifyBody nt payload \<rparr>"

definition textResponse :: "nat \<Rightarrow> string \<Rightarrow> (string \<times> string) list \<Rightarrow> webhook_response" where
  "textResponse status txt extra = \<lparr> ws_status = status,
     ws_headers = (''content-type'', TEXT_CONTENT_TYPE) # extra, ws_body = txt \<rparr>"

definition errorPayload :: "string \<Rightarrow> string \<Rightarrow> jsval" where
  "errorPayload code message = jsObject [(''error'',
     jsObject ((''code'', JStr code) # (if message = [] then [] else [(''message'', JStr message)])))]"

definition errorResponse :: "nat \<Rightarrow> string \<Rightarrow> string \<Rightarrow> (string \<times> string) list \<Rightarrow> webhook_response" where
  "errorResponse status code message extraHeaders = \<lparr> ws_status = status,
     ws_headers = (''content-type'', JSON_CONTENT_TYPE) # extraHeaders,
     ws_body = stringifyBody (\<lambda>_. []) (errorPayload code message) \<rparr>"

subsection \<open>Nesting depth\<close>

definition MAX_ENVELOPE_DEPTH :: nat where
  "MAX_ENVELOPE_DEPTH = 128"

definition isObjectValue :: "jsval \<Rightarrow> bool" where
  "isObjectValue v = (case v of JArr _ \<Rightarrow> True | JObj _ _ \<Rightarrow> True | _ \<Rightarrow> False)"

text \<open>\<open>Object.values\<close>: the values of the own properties, without the holes of an array.\<close>

definition objectValues :: "jsval \<Rightarrow> jsval list" where
  "objectValues v = (case v of
     JArr sl \<Rightarrow> map slot_value (filter (\<lambda>s. s \<noteq> Hole) sl)
   | JObj _ ps \<Rightarrow> map (\<lambda>(k, s). slot_value s) (filter (\<lambda>(k, s). s \<noteq> Hole) ps)
   | _ \<Rightarrow> [])"

definition pushChildren :: "jsval \<Rightarrow> nat \<Rightarrow> (jsval \<times> nat) list \<Rightarrow> (jsval \<times> nat) list" where
  "pushChildren v depth stack =
     rev (map (\<lambda>c. (c, depth + 1)) (filter isObjectValue (objectValues v))) @ stack"

lemma size_list_sum: "size_list f xs = (\<Sum>x \<leftarrow> xs. Suc (f x))"
  by (induction xs) auto

lemma sum_filter_le:
  "(\<And>x. f x \<le> (g x :: nat)) \<Longrightarrow> (\<Sum>x \<leftarrow> filter P xs. f x) \<le> (\<Sum>x \<leftarrow> xs. g x)"
  by (induction xs) (auto intro: add_mono trans_le_add2)

lemma objectValues_size: "(\<Sum>c \<leftarrow> objectValues v. Suc (size c)) \<le> size v"
proof (cases v)
  case (JArr sl)
  have "(\<Sum>c \<leftarrow> objectValues v. Suc (size c)) = (\<Sum>s \<leftarrow> filter (\<lambda>s. s \<noteq> Hole) sl. Suc (size (slot_value s)))"
    by (simp add: JArr objectValues_def comp_def)
  also have "\<dots> \<le> (\<Sum>s \<leftarrow> sl. Suc (size s))"
    by (rule sum_filter_le) (simp add: slot_value_size_le)
  finally show ?thesis by (simp add: JArr size_list_sum)
next
  case (JObj pr ps)
  have "(\<Sum>c \<leftarrow> objectValues v. Suc (size c))
      = (\<Sum>x \<leftarrow> filter (\<lambda>(k, s). s \<noteq> Hole) ps. Suc (size (slot_value (snd x))))"
    by (simp add: JObj objectValues_def comp_def case_prod_beta)
  also have "\<dots> \<le> (\<Sum>x \<leftarrow> ps. Suc (Suc (size (snd x))))"
    by (rule sum_filter_le) (simp add: slot_value_size_le le_SucI)
  moreover have "size_prod (\<lambda>x. 0) size x = Suc (size (snd x))" for x :: "string \<times> slot"
    by (cases x) simp
  ultimately show ?thesis by (simp add: JObj size_list_sum)
qed (simp_all add: objectValues_def)

lemma objectValues_smaller: "c \<in> set (objectValues v) \<Longrightarrow> size c < size v"
proof -
  assume "c \<in> set (objectValues v)"
  then have "Suc (size c) \<le> (\<Sum>c \<leftarrow> objectValues v. Suc (size c))"
    by (intro member_le_sum_list) auto
  then show ?thesis using objectValues_size [of v] by simp
qed

definition stackSize :: "(jsval \<times> nat) list \<Rightarrow> nat" where
  "stackSize st = (\<Sum>(v, d) \<leftarrow> st. Suc (size v))"

lemma pushChildren_size: "stackSize (pushChildren v d st) < stackSize ((v, d) # st)"
proof -
  have "(\<Sum>c \<leftarrow> filter isObjectValue (objectValues v). Suc (size c)) \<le> (\<Sum>c \<leftarrow> objectValues v. Suc (size c))"
    by (rule sum_filter_le) simp
  also have "\<dots> \<le> size v" by (rule objectValues_size)
  finally show ?thesis
    by (simp add: stackSize_def pushChildren_def rev_map [symmetric] comp_def sum_list_rev flip: rev_map)
qed

text \<open>The loop over the explicit stack; its top is the head of the list.\<close>

function boundedLoop :: "(jsval \<times> nat) list \<Rightarrow> bool" where
  "boundedLoop [] = True"
| "boundedLoop ((v, depth) # stack) =
     (if \<not> isObjectValue v then boundedLoop stack
      else if depth > MAX_ENVELOPE_DEPTH then False
      else boundedLoop (pushChildren v depth stack))"
  by pat_completeness auto
termination
  by (relation "measure stackSize") (auto simp: pushChildren_size, simp add: stackSize_def)

definition isBoundedEnvelope :: "jsval \<Rightarrow> bool" where
  "isBoundedEnvelope v = boundedLoop [(v, 0)]"

text \<open>The nesting depth of a value: no level for a scalar, one more than its deepest child otherwise.\<close>

function nesting :: "jsval \<Rightarrow> nat" where
  "nesting v = (if isObjectValue v then Suc (foldr max (map nesting (objectValues v)) 0) else 0)"
  by auto
termination
  by (relation "measure size") (auto simp: objectValues_smaller)

declare nesting.simps [simp del]

lemma foldr_max_le: "foldr max xs (0 :: nat) \<le> n \<longleftrightarrow> (\<forall>x \<in> set xs. x \<le> n)"
  by (induction xs) auto

lemma nesting_le:
  "isObjectValue v \<Longrightarrow> nesting v \<le> Suc n \<longleftrightarrow> (\<forall>c \<in> set (objectValues v). nesting c \<le> n)"
  by (subst nesting.simps) (simp add: foldr_max_le)

lemma nesting_scalar: "\<not> isObjectValue v \<Longrightarrow> nesting v = 0"
  by (subst nesting.simps) simp

lemma boundedLoop_iff:
  "boundedLoop st \<longleftrightarrow> (\<forall>(v, d) \<in> set st. isObjectValue v \<longrightarrow> d + nesting v \<le> Suc MAX_ENVELOPE_DEPTH)"
proof (induction st rule: boundedLoop.induct)
  case (2 v d st)
  consider "\<not> isObjectValue v" | "isObjectValue v" "d > MAX_ENVELOPE_DEPTH"
    | "isObjectValue v" "d \<le> MAX_ENVELOPE_DEPTH" by linarith
  then show ?case
  proof cases
    case 1
    with "2.IH"(1) show ?thesis by simp
  next
    case 2
    moreover have "nesting v \<ge> 1" using 2 by (subst nesting.simps) simp
    ultimately show ?thesis by simp
  next
    case 3
    have children: "(\<forall>c \<in> set (objectValues v). isObjectValue c \<longrightarrow> Suc d + nesting c \<le> Suc MAX_ENVELOPE_DEPTH)
        \<longleftrightarrow> d + nesting v \<le> Suc MAX_ENVELOPE_DEPTH"
      using nesting_le [OF 3(1), of "MAX_ENVELOPE_DEPTH - d"] 3(2) nesting_scalar by fastforce
    have "boundedLoop ((v, d) # st) \<longleftrightarrow> (\<forall>(v, d) \<in> set (pushChildren v d st).
        isObjectValue v \<longrightarrow> d + nesting v \<le> Suc MAX_ENVELOPE_DEPTH)"
      using "2.IH"(2) 3 by simp
    also have "\<dots> \<longleftrightarrow> (\<forall>c \<in> set (objectValues v). isObjectValue c \<longrightarrow> Suc d + nesting c \<le> Suc MAX_ENVELOPE_DEPTH)
        \<and> (\<forall>(v, d) \<in> set st. isObjectValue v \<longrightarrow> d + nesting v \<le> Suc MAX_ENVELOPE_DEPTH)"
      by (simp add: pushChildren_def ball_Un) blast
    finally show ?thesis using children 3(1) by simp
  qed
qed simp

lemma isBoundedEnvelope_nesting: "isBoundedEnvelope v \<longleftrightarrow> nesting v \<le> Suc MAX_ENVELOPE_DEPTH"
  by (cases "isObjectValue v") (auto simp: isBoundedEnvelope_def boundedLoop_iff nesting_scalar)

text \<open>The iterative walk over an explicit stack decides the nesting depth: an envelope passes
  exactly when its objects and arrays are nested at most 129 deep, the root being level one (depth 0
  to 128 of the code), whatever its width.\<close>

theorem bounded_envelope_is_nesting:
  "isBoundedEnvelope v \<longleftrightarrow> nesting v \<le> MAX_ENVELOPE_DEPTH + 1"
  by (simp add: isBoundedEnvelope_nesting)

subsection \<open>Handling a request\<close>

type_synonym ('u, 's, 'a) http_act = "(('u, 's) webhook_world, exn, 'a) act"

definition safeLog :: "'jwk webhook_adapter \<Rightarrow> adapter_event \<Rightarrow> ('u, 's, unit) http_act" where
  "safeLog cx e w = (Inr (), if wa_logger cx then w\<lparr>hw_log := hw_log w @ [e]\<rparr> else w)"

definition jsNullable :: "string option \<Rightarrow> jsval" where
  "jsNullable x = (case x of None \<Rightarrow> JNull | Some s \<Rightarrow> JStr s)"

definition verifyResponse :: "challenge_error + string \<Rightarrow> webhook_response" where
  "verifyResponse r = (case r of
     Inr challenge \<Rightarrow> textResponse 200 challenge []
   | Inl e \<Rightarrow> (case ce_code e of
       InvalidVerifyToken \<Rightarrow> errorResponse 401 ''invalid_verify_token'' (ce_message e) []
     | InvalidMode \<Rightarrow> errorResponse 400 ''invalid_mode'' (ce_message e) []
     | MissingChallenge \<Rightarrow> errorResponse 400 ''missing_challenge'' (ce_message e) []
     | c \<Rightarrow> errorResponse 500 (challengeCodeText c) (ce_message e) []))"

definition handleVerify ::
  "('jwk, 'u, 's) webhook_env \<Rightarrow> 'jwk webhook_adapter \<Rightarrow> webhook_request \<Rightarrow> ('u, 's, webhook_response) http_act"
where
  "handleVerify env cx req = (case ev_searchParams env (wq_url req) of
     None \<Rightarrow> retA (errorResponse 400 ''invalid_request'' ''Malformed request URL.'' [])
   | Some ps \<Rightarrow>
       bindA (liftA (verifyWebhookChallenge (ev_verifyFactory env)
         \<lparr> ci_mode = jsNullable (map_of ps ''hub.mode''),
           ci_challenge = jsNullable (map_of ps ''hub.challenge''),
           ci_verifyToken = jsNullable (map_of ps ''hub.verify_token''),
           ci_expectedVerifyToken = JStr (wa_verifyToken cx), ci_crypto = wa_crypto cx \<rparr>))
       (\<lambda>r. retA (verifyResponse r)))"

definition signatureFailure :: "sig_error \<Rightarrow> webhook_response" where
  "signatureFailure e = (case se_code e of
     MissingSignature \<Rightarrow> errorResponse 401 ''missing_signature'' (se_message e) []
   | SignatureMismatch \<Rightarrow> errorResponse 401 ''signature_mismatch'' (se_message e) []
   | InvalidSignatureFormat \<Rightarrow> errorResponse 400 ''invalid_signature_format'' (se_message e) []
   | c \<Rightarrow> errorResponse 500 (sigCodeText c) (se_message e) [])"

text \<open>\<open>await whatsapp.dispatch(update)\<close>: the call is recorded and the facade's state changes, whether
  or not it fails.\<close>

definition callDispatch :: "('jwk, 'u, 's) webhook_env \<Rightarrow> 'u \<Rightarrow> ('u, 's, unit) http_act" where
  "callDispatch env u w = (let (r, s') = ev_dispatch env u (hw_facade w) in
     (r, w\<lparr>hw_calls := hw_calls w @ [u], hw_facade := s'\<rparr>))"

fun dispatchLoop ::
  "('jwk, 'u, 's) webhook_env \<Rightarrow> 'jwk webhook_adapter \<Rightarrow> 'u list \<Rightarrow> nat \<Rightarrow> ('u, 's, nat) http_act" where
  "dispatchLoop env cx [] n = retA n"
| "dispatchLoop env cx (u # us) n =
     bindA (tryA (bindA (callDispatch env u) (\<lambda>_. retA (n + 1)))
       (\<lambda>e. bindA (safeLog cx (ErrorEvent ''dispatch'' e)) (\<lambda>_. retA n)))
       (\<lambda>n'. dispatchLoop env cx us n')"

definition natText :: "nat \<Rightarrow> jsval" where
  "natText n = JNum (Fin (of_nat n))"

definition summaryPayload :: "nat \<Rightarrow> nat \<Rightarrow> nat \<Rightarrow> jsval" where
  "summaryPayload received dispatched skipped = jsObject [(''status'', JStr ''ok''),
     (''received'', natText received), (''dispatched'', natText dispatched), (''skipped'', natText skipped)]"

definition dispatchUpdates ::
  "('jwk, 'u, 's) webhook_env \<Rightarrow> 'jwk webhook_adapter \<Rightarrow> 'u list \<Rightarrow> nat \<Rightarrow> ('u, 's, webhook_response) http_act"
where
  "dispatchUpdates env cx updates skipped =
     bindA (safeLog cx (BodyNormalized (length updates) skipped)) (\<lambda>_.
     bindA (dispatchLoop env cx updates 0) (\<lambda>dispatched.
     bindA (safeLog cx (Dispatched dispatched)) (\<lambda>_.
     retA (jsonResponse (ev_numberText env) 200 (summaryPayload (length updates) dispatched skipped)))))"

definition acceptBody ::
  "('jwk, 'u, 's) webhook_env \<Rightarrow> 'jwk webhook_adapter \<Rightarrow> byte list \<Rightarrow> ('u, 's, webhook_response) http_act"
where
  "acceptBody env cx bytes =
     bindA (safeLog cx (SignatureVerified True)) (\<lambda>_.
     case ev_parseJson env bytes of
       None \<Rightarrow> retA (errorResponse 400 ''invalid_json'' ''Request body is not valid JSON.'' [])
     | Some envelope \<Rightarrow>
         if \<not> isBoundedEnvelope envelope then retA (errorResponse 400 ''payload_depth_exceeded''
           ''Webhook payload nesting depth exceeds the limit.'' [])
         else (case ev_normalize env envelope of
           Inl (WebhookNormalizationError code msg) \<Rightarrow> retA (errorResponse 400 code msg [])
         | Inl (OtherNormalizeError e) \<Rightarrow>
             bindA (safeLog cx (ErrorEvent ''normalize'' e)) (\<lambda>_.
             retA (errorResponse 500 ''normalize_failed'' ''Envelope normalization failed.'' []))
         | Inr (updates, skipped) \<Rightarrow> dispatchUpdates env cx updates skipped))"

definition handleDispatch ::
  "('jwk, 'u, 's) webhook_env \<Rightarrow> 'jwk webhook_adapter \<Rightarrow> webhook_request \<Rightarrow> ('u, 's, webhook_response) http_act"
where
  "handleDispatch env cx req =
     (let body = wq_body req in
      if \<not> isAcceptableBody body then retA (errorResponse 400 ''invalid_request_body''
        ''POST body must be ArrayBuffer, ArrayBufferView, or null.'' [])
      else if body = BodyOther JNull \<or> body = BodyOther JUndef then
        retA (errorResponse 400 ''missing_body'' ''POST body is required.'' [])
      else if bodyByteLength body > wa_maxBodyBytes cx then
        retA (errorResponse 413 ''payload_too_large'' ''Body exceeds maxBodyBytes.'' [])
      else (case headersGet (wq_headers req) ''x-hub-signature-256'' of
        None \<Rightarrow> retA (errorResponse 401 ''missing_signature'' ''Missing X-Hub-Signature-256 header.'' [])
      | Some header \<Rightarrow>
          if \<not> matchesSignatureHeader header then retA (errorResponse 400 ''invalid_signature_format''
            (''X-Hub-Signature-256 must be '' @ [CHR 0x27] @ ''sha256=<64 hex chars>'' @ [CHR 0x27] @ ''.'') [])
          else
            bindA (liftA (bodyToUint8 body)) (\<lambda>bytes.
            bindA (liftA (validateWebhookSignature (ev_signatureFactory env)
              \<lparr> si_appSecret = JStr (wa_appSecret cx), si_rawBody = bytes,
                si_signatureHeader = JStr header, si_crypto = wa_crypto cx \<rparr>)) (\<lambda>sigResult.
            case sigResult of
              Inl e \<Rightarrow> bindA (safeLog cx (SignatureVerified False)) (\<lambda>_. retA (signatureFailure e))
            | Inr _ \<Rightarrow> acceptBody env cx (viewBytes bytes)))))"

text \<open>The body of the \<open>try\<close> of \<open>handleRequest\<close>.\<close>

definition routeRequest ::
  "('jwk, 'u, 's) webhook_env \<Rightarrow> 'jwk webhook_adapter \<Rightarrow> webhook_request \<Rightarrow> ('u, 's, webhook_response) http_act"
where
  "routeRequest env cx req =
     (let meth = js_upper (wq_method req) in
      if meth = ''GET'' then handleVerify env cx req
      else if meth = ''POST'' then handleDispatch env cx req
      else retA (errorResponse 405 ''method_not_allowed''
        (''Method '' @ wq_method req @ '' not allowed.'') [(''Allow'', ''GET, POST'')]))"

definition handleRequest ::
  "('jwk, 'u, 's) webhook_env \<Rightarrow> 'jwk webhook_adapter \<Rightarrow> webhook_request \<Rightarrow> ('u, 's, webhook_response) http_act"
where
  "handleRequest env cx req =
     bindA (safeLog cx (RequestReceived (wq_method req) (wq_url req))) (\<lambda>_.
     bindA (tryA (routeRequest env cx req)
       (\<lambda>e. bindA (safeLog cx (ErrorEvent ''handle'' e)) (\<lambda>_.
          retA (errorResponse 500 ''internal_error'' ''Unexpected adapter error.'' [])))) (\<lambda>response.
     bindA (safeLog cx (ResponseSent (ws_status response))) (\<lambda>_.
     retA response)))"

subsection \<open>Lemmas\<close>

text \<open>What an action returns, whatever the world it runs in.\<close>

definition returnsOnly :: "('a \<Rightarrow> bool) \<Rightarrow> ('w, 'e, 'a) act \<Rightarrow> bool" where
  "returnsOnly Q m \<longleftrightarrow> (\<forall>w a w'. m w = (Inr a, w') \<longrightarrow> Q a)"

lemma returnsOnly_retA: "Q a \<Longrightarrow> returnsOnly Q (retA a)"
  by (simp add: returnsOnly_def)

lemma returnsOnly_bindA: "(\<And>a. returnsOnly Q (f a)) \<Longrightarrow> returnsOnly Q (bindA m f)"
  by (auto simp: returnsOnly_def bindA_def split: prod.splits sum.splits)

lemma returnsOnly_tryA: "returnsOnly Q m \<Longrightarrow> (\<And>e. returnsOnly Q (h e)) \<Longrightarrow> returnsOnly Q (tryA m h)"
  by (auto simp: returnsOnly_def tryA_def split: prod.splits sum.splits)

lemmas returns_rules = returnsOnly_retA returnsOnly_bindA returnsOnly_tryA

lemma response_status [simp]:
  "ws_status (errorResponse st c msg hs) = st" "ws_status (textResponse st txt hs) = st"
  "ws_status (jsonResponse nt st v) = st"
  by (simp_all add: errorResponse_def textResponse_def jsonResponse_def)

definition adapterStatuses :: "nat list" where
  "adapterStatuses = [200, 400, 401, 405, 413, 500]"

lemma handleVerify_status: "returnsOnly (\<lambda>r. ws_status r \<in> {200, 400, 401, 500}) (handleVerify env cx req)"
  unfolding handleVerify_def
  by (auto simp: verifyResponse_def intro!: returns_rules split: option.splits sum.splits challenge_code.splits)

lemma acceptBody_status: "returnsOnly (\<lambda>r. ws_status r \<in> {200, 400, 500}) (acceptBody env cx bytes)"
  unfolding acceptBody_def dispatchUpdates_def
  by (auto intro!: returns_rules split: option.splits sum.splits normalize_exn.splits)

lemma returnsOnly_mono: "returnsOnly Q m \<Longrightarrow> (\<And>a. Q a \<Longrightarrow> R a) \<Longrightarrow> returnsOnly R m"
  by (auto simp: returnsOnly_def)

lemma handleDispatch_status:
  "returnsOnly (\<lambda>r. ws_status r \<in> {200, 400, 401, 413, 500}) (handleDispatch env cx req)"
  unfolding handleDispatch_def Let_def
  by (auto simp: signatureFailure_def intro!: returns_rules returnsOnly_mono [OF acceptBody_status]
      split: option.splits sum.splits sig_code.splits)

lemma routeRequest_status: "returnsOnly (\<lambda>r. ws_status r \<in> set adapterStatuses) (routeRequest env cx req)"
  unfolding routeRequest_def Let_def adapterStatuses_def
  by (auto intro!: returns_rules returnsOnly_mono [OF handleVerify_status] returnsOnly_mono [OF handleDispatch_status])

lemma safeLog_world [simp]:
  "fst (safeLog cx e w) = Inr ()" "hw_calls (snd (safeLog cx e w)) = hw_calls w"
  "hw_facade (snd (safeLog cx e w)) = hw_facade w"
  by (simp_all add: safeLog_def)

text \<open>Around its \<open>try\<close> block the handler logs, and turns a rejection into a response.\<close>

definition recovered :: "exn + webhook_response \<Rightarrow> webhook_response" where
  "recovered r = (case r of Inr a \<Rightarrow> a
     | Inl _ \<Rightarrow> errorResponse 500 ''internal_error'' ''Unexpected adapter error.'' [])"

definition afterReceipt :: "'jwk webhook_adapter \<Rightarrow> webhook_request \<Rightarrow> ('u, 's) webhook_world \<Rightarrow> ('u, 's) webhook_world" where
  "afterReceipt cx req w = snd (safeLog cx (RequestReceived (wq_method req) (wq_url req)) w)"

lemma safeLog_run: "safeLog cx e w = (Inr (), snd (safeLog cx e w))"
  by (simp add: safeLog_def)

lemma handleRequest_run:
  assumes "routeRequest env cx req (afterReceipt cx req w) = (r, w2)"
  shows "handleRequest env cx req w = (Inr (recovered r), snd (safeLog cx (ResponseSent (ws_status (recovered r)))
    (case r of Inl e \<Rightarrow> snd (safeLog cx (ErrorEvent ''handle'' e) w2) | Inr _ \<Rightarrow> w2)))"
proof -
  let ?w3 = "case r of Inl e \<Rightarrow> snd (safeLog cx (ErrorEvent ''handle'' e) w2) | Inr _ \<Rightarrow> w2"
  have body: "tryA (routeRequest env cx req) (\<lambda>e. bindA (safeLog cx (ErrorEvent ''handle'' e))
      (\<lambda>_. retA (errorResponse 500 ''internal_error'' ''Unexpected adapter error.'' []))) (afterReceipt cx req w)
      = (Inr (recovered r), ?w3)"
    unfolding tryA_def assms by (cases r) (simp_all add: recovered_def bindA_ret [OF safeLog_run])
  show ?thesis
    unfolding handleRequest_def
    by (rule trans, rule bindA_ret, rule safeLog_run,
        rule trans, rule bindA_ret, rule body [unfolded afterReceipt_def],
        rule trans, rule bindA_ret, rule safeLog_run, simp)
qed

text \<open>Every request is answered: the handler never rejects, its response has one of the documented
  status codes, 405 exactly when the method is neither GET nor POST in any case, and when there is a
  logger the last event it gets is \<open>response_sent\<close> with that status.\<close>

theorem every_request_is_answered:
  "\<exists>resp w'. handleRequest env cx req w = (Inr resp, w') \<and> ws_status resp \<in> set adapterStatuses
    \<and> (ws_status resp = 405 \<longleftrightarrow> js_upper (wq_method req) \<notin> {''GET'', ''POST''})
    \<and> (wa_logger cx \<longrightarrow> last (hw_log w') = ResponseSent (ws_status resp))"
proof -
  obtain r w2 where run: "routeRequest env cx req (afterReceipt cx req w) = (r, w2)" by fastforce
  have not405: "returnsOnly (\<lambda>r. ws_status r \<noteq> 405) (handleVerify env cx req)"
    "returnsOnly (\<lambda>r. ws_status r \<noteq> 405) (handleDispatch env cx req)"
    by (auto intro: returnsOnly_mono [OF handleVerify_status] returnsOnly_mono [OF handleDispatch_status])
  have "ws_status (recovered r) \<in> set adapterStatuses"
    using routeRequest_status [of env cx req] run
    by (cases r) (auto simp: recovered_def returnsOnly_def adapterStatuses_def)
  moreover have "ws_status (recovered r) = 405 \<longleftrightarrow> js_upper (wq_method req) \<notin> {''GET'', ''POST''}"
  proof (cases "js_upper (wq_method req) \<in> {''GET'', ''POST''}")
    case True
    then have "returnsOnly (\<lambda>r. ws_status r \<noteq> 405) (routeRequest env cx req)"
      using not405 by (auto simp: routeRequest_def Let_def)
    with run True show ?thesis by (cases r) (auto simp: recovered_def returnsOnly_def)
  next
    case False
    with run show ?thesis by (auto simp: recovered_def routeRequest_def Let_def)
  qed
  ultimately show ?thesis
    using handleRequest_run [OF run] by (simp add: safeLog_def)
qed

text \<open>The bytes of a body that can be read at all.\<close>

fun requestBytes :: "body_value \<Rightarrow> byte list option" where
  "requestBytes (BodyView isUint8 ab off len) = (case ab_bytes ab of
     None \<Rightarrow> None
   | Some bs \<Rightarrow> if off + len \<le> length bs then Some (take len (drop off bs)) else None)"
| "requestBytes (BodyBuffer ab) = ab_bytes ab"
| "requestBytes _ = None"

fun isSharedBody :: "body_value \<Rightarrow> bool" where
  "isSharedBody (BodyView isUint8 ab off len) = ab_shared ab"
| "isSharedBody (BodyBuffer ab) = ab_shared ab"
| "isSharedBody _ = False"

lemma requestBytes_length: "requestBytes body = Some bytes \<Longrightarrow> bodyByteLength body = length bytes"
  by (cases body) (auto simp: bufferLength_def split: option.splits if_splits)

lemma bodyToUint8_bytes:
  "bodyToUint8 body = Inr b \<Longrightarrow> isAcceptableBody body \<Longrightarrow> body \<noteq> BodyOther JNull \<Longrightarrow> body \<noteq> BodyOther JUndef \<Longrightarrow>
   isAcceptableRawBody b \<and> toBodyBytes b = Inr bytes \<longleftrightarrow>
   \<not> isSharedBody body \<and> requestBytes body = Some bytes"
  by (cases body) (auto simp: res_iff newUint8Array_def newUint8ArrayOf_def bufferLength_def
      isSharedArrayBufferBacked_def split: option.splits if_splits)

lemma readable_body:
  "requestBytes body = Some bytes \<Longrightarrow> \<not> isSharedBody body \<Longrightarrow>
   isAcceptableBody body \<and> body \<noteq> BodyOther JNull \<and> body \<noteq> BodyOther JUndef \<and> (\<exists>b. bodyToUint8 body = Inr b)"
  by (cases body) (auto simp: newUint8Array_def newUint8ArrayOf_def split: option.splits if_splits)

lemma viewBytes_read: "toBodyBytes b = Inr bytes \<Longrightarrow> bodyToUint8 body = Inr b \<Longrightarrow> isAcceptableBody body \<Longrightarrow>
   body \<noteq> BodyOther JNull \<Longrightarrow> body \<noteq> BodyOther JUndef \<Longrightarrow> viewBytes b = bytes"
  by (cases body) (auto simp: res_iff newUint8Array_def newUint8ArrayOf_def tryE_def
      split: option.splits if_splits sum.splits)

text \<open>The reference description of a request that may reach the facade.\<close>

definition authenticRequest ::
  "'jwk provider \<Rightarrow> 'jwk webhook_adapter \<Rightarrow> webhook_request \<Rightarrow> byte list \<Rightarrow> bool" where
  "authenticRequest p cx req bytes \<longleftrightarrow> js_upper (wq_method req) = ''POST''
     \<and> requestBytes (wq_body req) = Some bytes \<and> \<not> isSharedBody (wq_body req)
     \<and> length bytes \<le> wa_maxBodyBytes cx \<and> js_trim (wa_appSecret cx) \<noteq> []
     \<and> (case headersGet (wq_headers req) ''x-hub-signature-256'' of
          None \<Rightarrow> False | Some header \<Rightarrow> authenticBody p (wa_appSecret cx) bytes header)"

lemma authentic_header_matches: "authenticBody p secret bytes header \<Longrightarrow> matchesSignatureHeader header"
  using signed_header_matches by (auto simp: authenticBody_iff)

lemma signatureFailure_status: "ws_status (signatureFailure e) \<noteq> 200"
  by (simp add: signatureFailure_def split: sig_code.split)

text \<open>The signature check of \<open>handleDispatch\<close>: it ends with a refusal that leaves the facade alone, or
  the request is authentic.\<close>

definition refusedAs :: "('u, 's, webhook_response) http_act \<Rightarrow> ('u, 's) webhook_world \<Rightarrow> bool" where
  "refusedAs m w \<longleftrightarrow> (\<exists>r w'. m w = (r, w') \<and> hw_calls w' = hw_calls w \<and> hw_facade w' = hw_facade w
     \<and> (\<forall>resp. r = Inr resp \<longrightarrow> ws_status resp \<noteq> 200))"

lemma refusedAs_errors:
  "st \<noteq> 200 \<Longrightarrow> refusedAs (retA (errorResponse st c msg hs)) w"
  "refusedAs (bindA (safeLog cx e) (\<lambda>_. retA (signatureFailure er))) w"
  by (simp_all add: refusedAs_def bindA_ret [OF safeLog_run] signatureFailure_status)

lemma handleDispatch_checked:
  assumes law: "constant_time_compare (timingSafeEqual p)"
    and chosen: "chosenProvider (ev_signatureFactory env) (wa_crypto cx) = Some p"
    and meth: "js_upper (wq_method req) = ''POST''"
    and ok: "isAcceptableBody (wq_body req)" "wq_body req \<noteq> BodyOther JNull" "wq_body req \<noteq> BodyOther JUndef"
      "bodyByteLength (wq_body req) \<le> wa_maxBodyBytes cx"
    and header: "headersGet (wq_headers req) ''x-hub-signature-256'' = Some header" "matchesSignatureHeader header"
  shows "(\<exists>bytes. authenticRequest p cx req bytes \<and> handleDispatch env cx req w = acceptBody env cx bytes w)
    \<or> (\<nexists>bytes. authenticRequest p cx req bytes) \<and> refusedAs (handleDispatch env cx req) w"
proof (cases "bodyToUint8 (wq_body req)")
  case (Inl e)
  then have "\<nexists>bytes. authenticRequest p cx req bytes"
    using readable_body by (fastforce simp: authenticRequest_def)
  moreover have "handleDispatch env cx req w = (Inl e, w)"
    using ok header Inl by (simp add: handleDispatch_def Let_def bindA_def)
  ultimately show ?thesis by (simp add: refusedAs_def)
next
  case (Inr b)
  let ?inp = "\<lparr> si_appSecret = JStr (wa_appSecret cx), si_rawBody = b,
                si_signatureHeader = JStr header, si_crypto = wa_crypto cx \<rparr>"
  let ?v = "validateWebhookSignature (ev_signatureFactory env) ?inp"
  have run: "handleDispatch env cx req w = bindA (liftA ?v) (\<lambda>sigResult. case sigResult of
      Inl e \<Rightarrow> bindA (safeLog cx (SignatureVerified False)) (\<lambda>_. retA (signatureFailure e))
    | Inr _ \<Rightarrow> acceptBody env cx (viewBytes b)) w"
    using ok header Inr by (simp add: handleDispatch_def Let_def bindA_def)
  have auth: "authenticRequest p cx req bytes \<longleftrightarrow> js_trim (wa_appSecret cx) \<noteq> [] \<and> isAcceptableRawBody b
      \<and> toBodyBytes b = Inr bytes \<and> authenticBody p (wa_appSecret cx) bytes header" for bytes
    using bodyToUint8_bytes [OF Inr ok(1-3), of bytes] requestBytes_length [of "wq_body req" bytes] ok(4)
    by (auto simp: authenticRequest_def header(1) meth)
  have "?v = Inr (Inr ()) \<longleftrightarrow> (\<exists>bytes. authenticRequest p cx req bytes)"
    unfolding auth using validateWebhookSignature_ok [OF law, of "ev_signatureFactory env" ?inp] chosen
    by (simp add: nonBlank_def)
  moreover have "authenticRequest p cx req bytes \<Longrightarrow> bytes = viewBytes b" for bytes
    using bodyToUint8_bytes [OF Inr ok(1-3)] viewBytes_read [OF _ Inr ok(1-3)]
    by (auto simp: authenticRequest_def)
  moreover have "?v \<noteq> Inr (Inr ()) \<Longrightarrow> refusedAs (handleDispatch env cx req) w"
  proof (cases ?v)
    case (Inr r)
    assume "?v \<noteq> Inr (Inr ())"
    with Inr obtain e where "?v = Inr (Inl e)" by (cases r) auto
    with run refusedAs_errors(2) show ?thesis by (simp add: refusedAs_def bindA_def)
  qed (simp add: run refusedAs_def bindA_def)
  ultimately show ?thesis using run by (cases "?v = Inr (Inr ())") (auto simp: bindA_def)
qed

lemma handleDispatch_cases:
  assumes law: "constant_time_compare (timingSafeEqual p)"
    and chosen: "chosenProvider (ev_signatureFactory env) (wa_crypto cx) = Some p"
    and meth: "js_upper (wq_method req) = ''POST''"
  shows "(\<exists>bytes. authenticRequest p cx req bytes \<and> handleDispatch env cx req w = acceptBody env cx bytes w)
    \<or> (\<nexists>bytes. authenticRequest p cx req bytes) \<and> refusedAs (handleDispatch env cx req) w"
proof (cases "isAcceptableBody (wq_body req) \<and> wq_body req \<noteq> BodyOther JNull \<and> wq_body req \<noteq> BodyOther JUndef
    \<and> bodyByteLength (wq_body req) \<le> wa_maxBodyBytes cx
    \<and> (\<exists>header. headersGet (wq_headers req) ''x-hub-signature-256'' = Some header \<and> matchesSignatureHeader header)")
  case True
  then show ?thesis using handleDispatch_checked [OF law chosen meth] by blast
next
  case False
  have "\<not> authenticRequest p cx req bytes" for bytes
  proof
    assume auth: "authenticRequest p cx req bytes"
    then have body: "requestBytes (wq_body req) = Some bytes" "\<not> isSharedBody (wq_body req)"
      "length bytes \<le> wa_maxBodyBytes cx" by (auto simp: authenticRequest_def)
    from auth obtain header where "headersGet (wq_headers req) ''x-hub-signature-256'' = Some header"
      "matchesSignatureHeader header"
      by (auto simp: authenticRequest_def authentic_header_matches split: option.splits)
    with False body readable_body [OF body(1,2)] requestBytes_length [OF body(1)] show False by auto
  qed
  moreover have "refusedAs (handleDispatch env cx req) w"
    using False refusedAs_errors(1)
    by (auto simp: handleDispatch_def Let_def refusedAs_def split: option.split)
  ultimately show ?thesis by blast
qed

subsection \<open>What a verified request does\<close>

text \<open>The facade's run over the updates, with the number of those that it took.\<close>

fun dispatchAll :: "('jwk, 'u, 's) webhook_env \<Rightarrow> 'u list \<Rightarrow> 's \<Rightarrow> nat \<times> 's" where
  "dispatchAll env [] s = (0, s)"
| "dispatchAll env (u # us) s = (let (r, s') = ev_dispatch env u s; (n, s'') = dispatchAll env us s' in
     ((case r of Inl _ \<Rightarrow> n | Inr _ \<Rightarrow> Suc n), s''))"

lemma dispatchLoop_run:
  "\<exists>w'. dispatchLoop env cx us n w = (Inr (n + fst (dispatchAll env us (hw_facade w))), w')
     \<and> hw_calls w' = hw_calls w @ us \<and> hw_facade w' = snd (dispatchAll env us (hw_facade w))"
proof (induction us arbitrary: n w)
  case (Cons u us)
  obtain r s' where d: "ev_dispatch env u (hw_facade w) = (r, s')" by fastforce
  let ?w1 = "w\<lparr>hw_calls := hw_calls w @ [u], hw_facade := s'\<rparr>"
  have call: "callDispatch env u w = (r, ?w1)" by (simp add: callDispatch_def d)
  have step: "dispatchLoop env cx (u # us) n w = (case r of
      Inr _ \<Rightarrow> dispatchLoop env cx us (n + 1) ?w1
    | Inl e \<Rightarrow> dispatchLoop env cx us n (snd (safeLog cx (ErrorEvent ''dispatch'' e) ?w1)))"
    by (cases r) (simp_all add: bindA_def tryA_def call safeLog_def)
  show ?case
  proof (cases r)
    case (Inl e)
    with Cons.IH [of n "snd (safeLog cx (ErrorEvent ''dispatch'' e) ?w1)"] step show ?thesis
      by (auto simp: d split: prod.splits)
  next
    case (Inr x)
    with Cons.IH [of "n + 1" ?w1] step show ?thesis by (auto simp: d split: prod.splits)
  qed
qed simp

lemma dispatchUpdates_run:
  "\<exists>w'. dispatchUpdates env cx us sk w = (Inr (jsonResponse (ev_numberText env) 200
       (summaryPayload (length us) (fst (dispatchAll env us (hw_facade w))) sk)), w')
     \<and> hw_calls w' = hw_calls w @ us \<and> hw_facade w' = snd (dispatchAll env us (hw_facade w))"
proof -
  let ?w1 = "snd (safeLog cx (BodyNormalized (length us) sk) w)"
  obtain w2 where w2: "dispatchLoop env cx us 0 ?w1 = (Inr (fst (dispatchAll env us (hw_facade w))), w2)"
    "hw_calls w2 = hw_calls w @ us" "hw_facade w2 = snd (dispatchAll env us (hw_facade w))"
    using dispatchLoop_run [of env cx us 0 ?w1] by auto
  have "dispatchUpdates env cx us sk w = (Inr (jsonResponse (ev_numberText env) 200
       (summaryPayload (length us) (fst (dispatchAll env us (hw_facade w))) sk)),
     snd (safeLog cx (Dispatched (fst (dispatchAll env us (hw_facade w)))) w2))"
    unfolding dispatchUpdates_def
    by (rule trans, rule bindA_ret, rule safeLog_run, rule trans, rule bindA_ret, rule w2(1),
        rule trans, rule bindA_ret, rule safeLog_run, simp)
  with w2 show ?thesis by simp
qed

text \<open>What becomes of authentic bytes: refused, or normalized and dispatched.\<close>

definition normalizedAs :: "('jwk, 'u, 's) webhook_env \<Rightarrow> byte list \<Rightarrow> 'u list \<Rightarrow> nat \<Rightarrow> bool" where
  "normalizedAs env bytes us sk \<longleftrightarrow> (\<exists>envelope. ev_parseJson env bytes = Some envelope
     \<and> nesting envelope \<le> MAX_ENVELOPE_DEPTH + 1 \<and> ev_normalize env envelope = Inr (us, sk))"

lemma acceptBody_run:
  "(\<exists>us sk. normalizedAs env bytes us sk \<and> acceptBody env cx bytes w
      = dispatchUpdates env cx us sk (snd (safeLog cx (SignatureVerified True) w)))
   \<or> (\<nexists>us sk. normalizedAs env bytes us sk) \<and> refusedAs (acceptBody env cx bytes) w"
proof -
  let ?w1 = "snd (safeLog cx (SignatureVerified True) w)"
  have run: "acceptBody env cx bytes w = (case ev_parseJson env bytes of
       None \<Rightarrow> retA (errorResponse 400 ''invalid_json'' ''Request body is not valid JSON.'' [])
     | Some envelope \<Rightarrow>
         if \<not> isBoundedEnvelope envelope then retA (errorResponse 400 ''payload_depth_exceeded''
           ''Webhook payload nesting depth exceeds the limit.'' [])
         else (case ev_normalize env envelope of
           Inl (WebhookNormalizationError code msg) \<Rightarrow> retA (errorResponse 400 code msg [])
         | Inl (OtherNormalizeError e) \<Rightarrow>
             bindA (safeLog cx (ErrorEvent ''normalize'' e)) (\<lambda>_.
             retA (errorResponse 500 ''normalize_failed'' ''Envelope normalization failed.'' []))
         | Inr (updates, skipped) \<Rightarrow> dispatchUpdates env cx updates skipped)) ?w1"
    unfolding acceptBody_def by (rule bindA_ret, rule safeLog_run)
  have refused: "refusedAs m ?w1 \<Longrightarrow> acceptBody env cx bytes w = m ?w1 \<Longrightarrow> refusedAs (acceptBody env cx bytes) w" for m
    by (simp add: refusedAs_def)
  consider (none) "ev_parseJson env bytes = None"
    | (deep) v where "ev_parseJson env bytes = Some v" "\<not> isBoundedEnvelope v"
    | (bad) v c msg where "ev_parseJson env bytes = Some v" "isBoundedEnvelope v"
        "ev_normalize env v = Inl (WebhookNormalizationError c msg)"
    | (failed) v e where "ev_parseJson env bytes = Some v" "isBoundedEnvelope v"
        "ev_normalize env v = Inl (OtherNormalizeError e)"
    | (ok) v us sk where "ev_parseJson env bytes = Some v" "isBoundedEnvelope v" "ev_normalize env v = Inr (us, sk)"
    by (metis option.exhaust sum.exhaust normalize_exn.exhaust prod.exhaust)
  then show ?thesis
  proof cases
    case none
    then show ?thesis using run by (intro disjI2 conjI refused [OF refusedAs_errors(1)])
      (simp_all add: normalizedAs_def)
  next
    case deep
    then show ?thesis using run by (intro disjI2 conjI refused [OF refusedAs_errors(1)])
      (simp_all add: normalizedAs_def isBoundedEnvelope_nesting)
  next
    case bad
    then show ?thesis using run by (intro disjI2 conjI refused [OF refusedAs_errors(1)])
      (simp_all add: normalizedAs_def)
  next
    case failed
    then show ?thesis using run by (intro disjI2 conjI)
      (simp_all add: normalizedAs_def refusedAs_def bindA_ret [OF safeLog_run])
  next
    case ok
    then have "normalizedAs env bytes us sk" by (simp add: normalizedAs_def isBoundedEnvelope_nesting)
    with ok run show ?thesis by auto
  qed
qed

text \<open>A request as seen by the facade.\<close>

lemma afterReceipt_world [simp]:
  "hw_calls (afterReceipt cx req w) = hw_calls w" "hw_facade (afterReceipt cx req w) = hw_facade w"
  by (simp_all add: afterReceipt_def)

lemma handleVerify_keeps: "holdsA (\<lambda>w. hw_calls w = cs \<and> hw_facade w = s) (handleVerify env cx req)
    (\<lambda>w. hw_calls w = cs \<and> hw_facade w = s)"
  unfolding handleVerify_def by (auto split: option.split intro!: keeps_rules)

lemma routeRequest_cases:
  assumes "constant_time_compare (timingSafeEqual p)"
    and "chosenProvider (ev_signatureFactory env) (wa_crypto cx) = Some p"
  shows "(\<exists>bytes us sk w1. authenticRequest p cx req bytes \<and> normalizedAs env bytes us sk
       \<and> routeRequest env cx req w = dispatchUpdates env cx us sk w1
       \<and> hw_calls w1 = hw_calls w \<and> hw_facade w1 = hw_facade w)
    \<or> (\<nexists>bytes us sk. authenticRequest p cx req bytes \<and> normalizedAs env bytes us sk)
       \<and> (\<exists>r w'. routeRequest env cx req w = (r, w') \<and> hw_calls w' = hw_calls w \<and> hw_facade w' = hw_facade w)"
proof (cases "js_upper (wq_method req) = ''POST''")
  case True
  then have route: "routeRequest env cx req = handleDispatch env cx req" by (simp add: routeRequest_def)
  consider bytes where "authenticRequest p cx req bytes" "handleDispatch env cx req w = acceptBody env cx bytes w"
    | "\<nexists>bytes. authenticRequest p cx req bytes" "refusedAs (handleDispatch env cx req) w"
    using handleDispatch_cases [OF assms True] by blast
  then show ?thesis
  proof cases
    case (1 bytes)
    have uniq: "authenticRequest p cx req b \<Longrightarrow> b = bytes" for b
      using 1(1) by (auto simp: authenticRequest_def)
    show ?thesis
      using acceptBody_run [of env bytes cx w]
    proof
      assume "\<exists>us sk. normalizedAs env bytes us sk \<and> acceptBody env cx bytes w
        = dispatchUpdates env cx us sk (snd (safeLog cx (SignatureVerified True) w))"
      then obtain us sk where "normalizedAs env bytes us sk"
        "acceptBody env cx bytes w = dispatchUpdates env cx us sk (snd (safeLog cx (SignatureVerified True) w))"
        by blast
      with 1 route show ?thesis
        by (intro disjI1 exI [of _ bytes] exI [of _ us] exI [of _ sk]
            exI [of _ "snd (safeLog cx (SignatureVerified True) w)"]) simp
    next
      assume "(\<nexists>us sk. normalizedAs env bytes us sk) \<and> refusedAs (acceptBody env cx bytes) w"
      with 1(2) route uniq show ?thesis unfolding refusedAs_def by metis
    qed
  next
    case 2
    then show ?thesis using route unfolding refusedAs_def by metis
  qed
next
  case False
  have keeps: "holdsA (\<lambda>v. hw_calls v = hw_calls w \<and> hw_facade v = hw_facade w) (routeRequest env cx req)
      (\<lambda>v. hw_calls v = hw_calls w \<and> hw_facade v = hw_facade w)"
    using False by (auto simp: routeRequest_def Let_def intro: handleVerify_keeps keeps_rules)
  obtain r w' where run: "routeRequest env cx req w = (r, w')" by fastforce
  have "hw_calls w' = hw_calls w \<and> hw_facade w' = hw_facade w"
    using holdsA_D [OF keeps _ run] by simp
  moreover have "\<not> authenticRequest p cx req bytes" for bytes
    using False by (simp add: authenticRequest_def)
  ultimately show ?thesis using run by blast
qed

lemma dispatch_is_authentic:
  assumes "constant_time_compare (timingSafeEqual p)"
    and "chosenProvider (ev_signatureFactory env) (wa_crypto cx) = Some p"
    and "handleRequest env cx req w = (r, w')"
    and "hw_calls w' \<noteq> hw_calls w \<or> hw_facade w' \<noteq> hw_facade w"
  shows "\<exists>bytes us sk. authenticRequest p cx req bytes \<and> normalizedAs env bytes us sk
    \<and> hw_calls w' = hw_calls w @ us"
proof -
  obtain r1 w1 where route: "routeRequest env cx req (afterReceipt cx req w) = (r1, w1)" by fastforce
  have world: "hw_calls w' = hw_calls w1" "hw_facade w' = hw_facade w1"
    using handleRequest_run [OF route] assms(3) by (auto split: sum.splits)
  consider bytes us sk w2 where "authenticRequest p cx req bytes" "normalizedAs env bytes us sk"
      "routeRequest env cx req (afterReceipt cx req w) = dispatchUpdates env cx us sk w2" "hw_calls w2 = hw_calls w"
    | "hw_calls w1 = hw_calls w" "hw_facade w1 = hw_facade w"
    using routeRequest_cases [OF assms(1,2), of req "afterReceipt cx req w"] route by fastforce
  then show ?thesis
  proof cases
    case (1 bytes us sk w2)
    with dispatchUpdates_run [of env cx us sk w2] route have "hw_calls w1 = hw_calls w @ us" by auto
    with 1 world show ?thesis by auto
  next
    case 2
    with world assms(4) show ?thesis by simp
  qed
qed

text \<open>C17: Nothing unauthenticated reaches the facade.  If a request makes the handler call
  \<open>dispatch\<close> or changes the facade's state, it is a POST whose readable body is within the size cap,
  whose signature header is the HMAC of exactly those bytes under the app secret, and which parses,
  is not nested too deeply and normalizes; and the calls are exactly the updates of that body, in
  order.\<close>

theorem only_authentic_updates_are_dispatched:
  assumes "constant_time_compare (timingSafeEqual p)"
    and "chosenProvider (ev_signatureFactory env) (wa_crypto cx) = Some p"
    and "handleRequest env cx req w = (r, w')"
    and "hw_calls w' \<noteq> hw_calls w \<or> hw_facade w' \<noteq> hw_facade w"
  shows "\<exists>bytes us sk. authenticRequest p cx req bytes \<and> normalizedAs env bytes us sk
    \<and> hw_calls w' = hw_calls w @ us"
  using assms by (rule dispatch_is_authentic)

lemma handleRequest_acknowledges:
  assumes "constant_time_compare (timingSafeEqual p)"
    and "chosenProvider (ev_signatureFactory env) (wa_crypto cx) = Some p"
    and "authenticRequest p cx req bytes" and "normalizedAs env bytes us sk"
  shows "\<exists>w'. handleRequest env cx req w = (Inr (jsonResponse (ev_numberText env) 200
       (summaryPayload (length us) (fst (dispatchAll env us (hw_facade w))) sk)), w')
     \<and> hw_calls w' = hw_calls w @ us \<and> hw_facade w' = snd (dispatchAll env us (hw_facade w))"
proof -
  have uniq: "authenticRequest p cx req b \<Longrightarrow> b = bytes" for b
    using assms(3) by (auto simp: authenticRequest_def)
  have uniq2: "normalizedAs env bytes us' sk' \<Longrightarrow> us' = us \<and> sk' = sk" for us' sk'
    using assms(4) by (auto simp: normalizedAs_def)
  obtain w1 where w1: "routeRequest env cx req (afterReceipt cx req w) = dispatchUpdates env cx us sk w1"
    "hw_calls w1 = hw_calls w" "hw_facade w1 = hw_facade w"
    using routeRequest_cases [OF assms(1,2), of req "afterReceipt cx req w"]
  proof
    assume "\<exists>bytes us sk w1. authenticRequest p cx req bytes \<and> normalizedAs env bytes us sk
       \<and> routeRequest env cx req (afterReceipt cx req w) = dispatchUpdates env cx us sk w1
       \<and> hw_calls w1 = hw_calls (afterReceipt cx req w) \<and> hw_facade w1 = hw_facade (afterReceipt cx req w)"
    with uniq uniq2 that show thesis by (metis afterReceipt_world)
  qed (use assms(3,4) in blast)
  obtain w2 where w2: "routeRequest env cx req (afterReceipt cx req w) = (Inr (jsonResponse (ev_numberText env) 200
       (summaryPayload (length us) (fst (dispatchAll env us (hw_facade w))) sk)), w2)"
    "hw_calls w2 = hw_calls w @ us" "hw_facade w2 = snd (dispatchAll env us (hw_facade w))"
    using dispatchUpdates_run [of env cx us sk w1] w1 by auto
  show ?thesis using handleRequest_run [OF w2(1)] w2(2,3) by (simp add: recovered_def)
qed

text \<open>An authentic request is acknowledged whatever its updates do: every update of the body is
  passed to \<open>dispatch\<close> once and in order, the failures of some do not keep the others from it, and the
  answer is 200 with the numbers of updates received, dispatched without failure and skipped.\<close>

theorem authentic_request_is_acknowledged:
  assumes "constant_time_compare (timingSafeEqual p)"
    and "chosenProvider (ev_signatureFactory env) (wa_crypto cx) = Some p"
    and "authenticRequest p cx req bytes" and "normalizedAs env bytes us sk"
  shows "\<exists>w'. handleRequest env cx req w = (Inr (jsonResponse (ev_numberText env) 200
       (summaryPayload (length us) (fst (dispatchAll env us (hw_facade w))) sk)), w')
     \<and> hw_calls w' = hw_calls w @ us \<and> hw_facade w' = snd (dispatchAll env us (hw_facade w))"
  by (rule handleRequest_acknowledges [OF assms])

lemma jsNullable_iff [simp]: "jsNullable x = JStr s \<longleftrightarrow> x = Some s"
  by (simp add: jsNullable_def split: option.split)

lemma verifyResponse_200: "ws_status (verifyResponse r) = 200 \<longleftrightarrow> (\<exists>c. r = Inr c)"
  by (auto simp: verifyResponse_def split: sum.splits challenge_code.splits)

lemma verifyResponse_body: "ws_body (verifyResponse (Inr c)) = c"
  by (simp add: verifyResponse_def textResponse_def)

lemma handleVerify_answers:
  assumes "constant_time_compare (timingSafeEqual p)"
    and "chosenProvider (ev_verifyFactory env) (wa_crypto cx) = Some p"
    and "js_trim (wa_verifyToken cx) \<noteq> []" and "handleVerify env cx req w = (r, w')"
  shows "ws_status (recovered r) = 200 \<and> ws_body (recovered r) = challenge \<longleftrightarrow>
    (\<exists>ps. ev_searchParams env (wq_url req) = Some ps
      \<and> map_of ps ''hub.mode'' = Some ''subscribe'' \<and> map_of ps ''hub.verify_token'' = Some (wa_verifyToken cx)
      \<and> map_of ps ''hub.challenge'' = Some challenge \<and> challenge \<noteq> [])"
proof (cases "ev_searchParams env (wq_url req)")
  case None
  with assms(4) show ?thesis by (auto simp: handleVerify_def recovered_def)
next
  case (Some ps)
  let ?inp = "\<lparr> ci_mode = jsNullable (map_of ps ''hub.mode''),
           ci_challenge = jsNullable (map_of ps ''hub.challenge''),
           ci_verifyToken = jsNullable (map_of ps ''hub.verify_token''),
           ci_expectedVerifyToken = JStr (wa_verifyToken cx), ci_crypto = wa_crypto cx \<rparr>"
  let ?v = "verifyWebhookChallenge (ev_verifyFactory env) ?inp"
  have "r = (case ?v of Inl e \<Rightarrow> Inl e | Inr v \<Rightarrow> Inr (verifyResponse v))"
    using assms(4) Some by (cases ?v) (auto simp: handleVerify_def bindA_def)
  then have "ws_status (recovered r) = 200 \<and> ws_body (recovered r) = challenge \<longleftrightarrow> ?v = Inr (Inr challenge)"
    using verifyResponse_200 verifyResponse_body by (cases ?v) (auto simp: recovered_def)
  also have "\<dots> \<longleftrightarrow> map_of ps ''hub.mode'' = Some ''subscribe'' \<and> map_of ps ''hub.verify_token'' = Some (wa_verifyToken cx)
      \<and> map_of ps ''hub.challenge'' = Some challenge \<and> challenge \<noteq> []"
    using verifyWebhookChallenge_ok [OF assms(1), of "ev_verifyFactory env" ?inp challenge] assms(2,3)
    by (auto simp: nonBlank_def)
  finally show ?thesis using Some by simp
qed

text \<open>C18: The verification handshake of a constructed adapter gives the challenge away to exactly the
  caller who knows the token: a GET request is answered 200 if and only if its URL parses, the mode is \<open>subscribe\<close>, the
  token parameter is the configured token and the challenge is not empty; the answer's body is then
  the challenge, and no GET reaches the facade.\<close>

theorem challenge_only_for_the_token:
  assumes "constant_time_compare (timingSafeEqual p)"
    and "chosenProvider (ev_verifyFactory env) (wa_crypto cx) = Some p"
    and "createWebhookAdapter config q = Inr cx" and "js_upper (wq_method req) = ''GET''"
    and "handleRequest env cx req w = (Inr resp, w')"
  shows "(ws_status resp = 200 \<and> ws_body resp = challenge \<longleftrightarrow> (\<exists>ps. ev_searchParams env (wq_url req) = Some ps
      \<and> map_of ps ''hub.mode'' = Some ''subscribe'' \<and> map_of ps ''hub.verify_token'' = Some (wa_verifyToken cx)
      \<and> map_of ps ''hub.challenge'' = Some challenge \<and> challenge \<noteq> []))
    \<and> hw_calls w' = hw_calls w \<and> hw_facade w' = hw_facade w"
proof -
  obtain r w1 where route: "routeRequest env cx req (afterReceipt cx req w) = (r, w1)" by fastforce
  then have verify: "handleVerify env cx req (afterReceipt cx req w) = (r, w1)"
    using assms(4) by (simp add: routeRequest_def)
  have "resp = recovered r" and "hw_calls w' = hw_calls w1" "hw_facade w' = hw_facade w1"
    using handleRequest_run [OF route] assms(5) by (auto split: sum.splits)
  moreover have "hw_calls w1 = hw_calls w \<and> hw_facade w1 = hw_facade w"
    using holdsA_D [OF handleVerify_keeps _ verify] by simp
  ultimately show ?thesis
    using handleVerify_answers [OF assms(1,2) createWebhookAdapter_ok(1) [OF assms(3)] verify] by simp
qed

subsection \<open>A sample adapter\<close>

text \<open>The facade of the sample counts the updates it takes and fails on the update 0.\<close>

definition sampleEnv :: "(unit, nat, nat) webhook_env" where
  "sampleEnv = \<lparr> ev_verifyFactory = Inr sampleProvider, ev_signatureFactory = Inr sampleProvider,
     ev_searchParams = (\<lambda>_. Some [(''hub.mode'', ''subscribe''), (''hub.verify_token'', ''tok''),
       (''hub.challenge'', ''42'')]),
     ev_parseJson = (\<lambda>_. Some (JObj ObjectProto [])), ev_numberText = (\<lambda>_. ''n''),
     ev_normalize = (\<lambda>_. Inr ([7, 0, 8], 1)),
     ev_dispatch = (\<lambda>u s. if u = 0 then (Inl (exn.HostError ''down''), s) else (Inr (), s + 1)) \<rparr>"

definition sampleConfig :: jsval where
  "sampleConfig = jsObject [(''verifyToken'', JStr ''tok''), (''appSecret'', JStr ''secret''),
     (''whatsapp'', jsObject [(''dispatch'', JFun)])]"

definition sampleAdapter :: "unit webhook_adapter" where
  "sampleAdapter = \<lparr> wa_verifyToken = ''tok'', wa_appSecret = ''secret'', wa_crypto = None,
     wa_maxBodyBytes = 1048576, wa_logger = False \<rparr>"

definition sampleWorld :: "(nat, nat) webhook_world" where
  "sampleWorld = \<lparr> hw_log = [], hw_calls = [], hw_facade = 0 \<rparr>"

definition samplePost :: webhook_request where
  "samplePost = \<lparr> wq_method = ''post'', wq_url = ''https://host/'',
     wq_headers = [(''X-Hub-Signature-256'', SIGNATURE_PREFIX @ bytesToHex (replicate 32 2))],
     wq_body = sampleBody \<rparr>"

lemma sampleConfig_creates: "createWebhookAdapter sampleConfig sampleProvider = Inr sampleAdapter"
  by (simp add: createWebhookAdapter_def sampleConfig_def jsObject_def plainProps_def validateVerifyToken_def
      validateAppSecret_def validateFacade_def validateCryptoProvider_def validateMaxBodyBytes_def
      validateLogger_def js_trim_def js_space_def code_of_def hasLineControl_def MAX_VERIFY_TOKEN_LENGTH_def
      isFunction_def sampleAdapter_def DEFAULT_MAX_BODY_BYTES_def)

lemma sample_chosen:
  "chosenProvider (ev_signatureFactory sampleEnv) (wa_crypto sampleAdapter) = Some sampleProvider"
  "chosenProvider (ev_verifyFactory sampleEnv) (wa_crypto sampleAdapter) = Some sampleProvider"
  by (simp_all add: chosenProvider_def sampleEnv_def sampleAdapter_def)

lemma samplePost_header: "headersGet (wq_headers samplePost) ''x-hub-signature-256''
    = Some (SIGNATURE_PREFIX @ bytesToHex (replicate 32 2))"
proof -
  have "js_lower ''X-Hub-Signature-256'' = ''x-hub-signature-256''" by code_simp
  then show ?thesis by (simp add: headersGet_def samplePost_def)
qed

lemma samplePost_authentic: "authenticRequest sampleProvider sampleAdapter samplePost [123, 125]"
proof -
  have "js_upper (wq_method samplePost) = ''POST''" by (simp add: samplePost_def) code_simp
  moreover have "requestBytes (wq_body samplePost) = Some [123, 125]" "\<not> isSharedBody (wq_body samplePost)"
    by (simp_all add: samplePost_def sampleBody_def)
  moreover have "js_trim (wa_appSecret sampleAdapter) \<noteq> []" "wa_appSecret sampleAdapter = ''secret''"
    "length [123, 125 :: byte] \<le> wa_maxBodyBytes sampleAdapter"
    by (simp_all add: sampleAdapter_def js_trim_def js_space_def code_of_def)
  ultimately show ?thesis
    by (simp add: authenticRequest_def samplePost_header authenticBody_iff sampleProvider_hmac)
qed

lemma sampleEnv_normalizes: "normalizedAs sampleEnv [123, 125] [7, 0, 8] 1"
proof -
  have "nesting (JObj ObjectProto []) \<le> 1"
    by (subst nesting.simps) (simp add: objectValues_def)
  then show ?thesis by (auto simp: normalizedAs_def sampleEnv_def MAX_ENVELOPE_DEPTH_def)
qed

lemma authentic_request_is_acknowledged_witness:
  "\<exists>w'. handleRequest sampleEnv sampleAdapter samplePost sampleWorld
      = (Inr (jsonResponse (\<lambda>_. ''n'') 200 (summaryPayload 3 2 1)), w') \<and> hw_calls w' = [7, 0, 8] \<and> hw_facade w' = 2"
  using authentic_request_is_acknowledged [OF sampleProvider_compares sample_chosen(1) samplePost_authentic
      sampleEnv_normalizes, of sampleWorld]
  by (simp add: sampleWorld_def sampleEnv_def eval_nat_numeral)

lemma only_authentic_updates_are_dispatched_witness:
  "\<exists>bytes us sk. authenticRequest sampleProvider sampleAdapter samplePost bytes \<and> normalizedAs sampleEnv bytes us sk"
proof -
  obtain r w' where run: "handleRequest sampleEnv sampleAdapter samplePost sampleWorld = (r, w')"
    "hw_calls w' = hw_calls sampleWorld @ [7, 0, 8]"
    using handleRequest_acknowledges [OF sampleProvider_compares sample_chosen(1) samplePost_authentic
      sampleEnv_normalizes, of sampleWorld] by blast
  then have "hw_calls w' \<noteq> hw_calls sampleWorld" by simp
  with only_authentic_updates_are_dispatched [OF sampleProvider_compares sample_chosen(1) run(1)]
  show ?thesis by blast
qed

definition sampleGet :: webhook_request where
  "sampleGet = \<lparr> wq_method = ''GET'', wq_url = ''https://host/?hub.mode=subscribe'', wq_headers = [],
     wq_body = BodyOther JNull \<rparr>"

lemma challenge_only_for_the_token_witness:
  "\<exists>resp w'. handleRequest sampleEnv sampleAdapter sampleGet sampleWorld = (Inr resp, w')
     \<and> ws_status resp = 200 \<and> ws_body resp = ''42'' \<and> hw_calls w' = []"
proof -
  obtain r w2 where route: "routeRequest sampleEnv sampleAdapter sampleGet
      (afterReceipt sampleAdapter sampleGet sampleWorld) = (r, w2)" by fastforce
  obtain resp w' where run: "handleRequest sampleEnv sampleAdapter sampleGet sampleWorld = (Inr resp, w')"
    using handleRequest_run [OF route] by blast
  have "js_upper (wq_method sampleGet) = ''GET''" by (simp add: sampleGet_def) code_simp
  from challenge_only_for_the_token [OF sampleProvider_compares sample_chosen(2) sampleConfig_creates this run,
      where challenge = "''42''"] run
  show ?thesis by (auto simp: sampleEnv_def sampleAdapter_def sampleWorld_def)
qed

lemma every_request_is_answered_witness:
  "\<exists>resp w'. handleRequest sampleEnv (sampleAdapter\<lparr>wa_logger := True\<rparr>) sampleGet sampleWorld = (Inr resp, w')
     \<and> last (hw_log w') = ResponseSent (ws_status resp)"
  using every_request_is_answered [of sampleEnv "sampleAdapter\<lparr>wa_logger := True\<rparr>" sampleGet sampleWorld]
  by (auto simp: sampleAdapter_def)

end
