(* ===== verification/Webhook_Servers.thy ===== *)
theory Webhook_Servers
  imports Webhook_Adapter
begin

section \<open>The fetch and Node wrappers of the webhook adapter\<close>

text \<open>
  \<open>packages/http/src/adapters/fetchAdapter.ts\<close> and \<open>nodeAdapter.ts\<close>.  Each reads the request body
  piece by piece under the adapter's size cap and hands it to \<open>handle\<close>.  A reader is a step
  function on its state, run over the events that the stream delivers; its result is \<open>None\<close> as long as
  it waits.  The stream, Node's request and its socket are not under \<open>src\<close>: any sequence of events is
  possible.
\<close>

datatype body_result = OverLimit | NoBody | BodyBytes "byte list"

record body_reader =
  rd_chunks :: "byte list list"
  rd_total :: nat
  rd_result :: "body_result option"

definition initReader :: body_reader where
  "initReader = \<lparr> rd_chunks = [], rd_total = 0, rd_result = None \<rparr>"

definition addChunk :: "nat \<Rightarrow> byte list \<Rightarrow> body_reader \<Rightarrow> body_reader" where
  "addChunk cap bytes st = (let total = rd_total st + length bytes in
     if total > cap then st\<lparr>rd_total := total, rd_result := Some OverLimit\<rparr>
     else st\<lparr>rd_total := total, rd_chunks := rd_chunks st @ [bytes]\<rparr>)"

subsection \<open>The stream reader of the fetch wrapper\<close>

datatype stream_event = ReadChunk "byte list" | ReadUndefined | ReadDone | ReadFails

definition fetchStep :: "nat \<Rightarrow> body_reader \<Rightarrow> stream_event \<Rightarrow> body_reader" where
  "fetchStep cap st ev = (if rd_result st \<noteq> None then st else (case ev of
     ReadChunk bytes \<Rightarrow> addChunk cap bytes st
   | ReadUndefined \<Rightarrow> st
   | ReadDone \<Rightarrow> st\<lparr>rd_result := Some (if rd_total st = 0 then NoBody else BodyBytes (concat (rd_chunks st)))\<rparr>
   | ReadFails \<Rightarrow> st\<lparr>rd_result := Some NoBody\<rparr>))"

datatype request_stream = Streamed "stream_event list" | Buffered "byte list option"

text \<open>A request without a readable stream is read as a whole; \<open>Buffered None\<close> is a failing read.\<close>

definition readBodyWithCap :: "nat \<Rightarrow> request_stream \<Rightarrow> body_result option" where
  "readBodyWithCap cap rs = (case rs of
     Streamed evs \<Rightarrow> rd_result (foldl (fetchStep cap) initReader evs)
   | Buffered None \<Rightarrow> Some NoBody
   | Buffered (Some buf) \<Rightarrow> Some (if length buf > cap then OverLimit else BodyBytes buf))"

definition digitsValue :: "string \<Rightarrow> nat" where
  "digitsValue s = foldl (\<lambda>n c. n * 10 + (code_of c - 48)) 0 s"

text \<open>A number too large for a double parses as \<open>Infinity\<close>.\<close>

definition parseContentLength :: "(string \<times> string) list \<Rightarrow> nat option" where
  "parseContentLength hs = (case headersGet hs ''content-length'' of
     None \<Rightarrow> None
   | Some raw \<Rightarrow> if raw \<noteq> [] \<and> list_all is_digit raw
       then (let n = digitsValue raw in if n < 2 ^ 1024 - 2 ^ 970 then Some n else None) else None)"

definition oversizedResponse :: webhook_response where
  "oversizedResponse = errorResponse 413 ''payload_too_large'' ''Body exceeds maxBodyBytes.'' []"

definition wrappedBody :: "body_result \<Rightarrow> body_value" where
  "wrappedBody r = (case r of
     BodyBytes bs \<Rightarrow> BodyView True \<lparr> ab_shared = False, ab_bytes = Some bs \<rparr> 0 (length bs)
   | _ \<Rightarrow> BodyOther JNull)"

text \<open>\<open>fetchHandler\<close>: \<open>None\<close> while the body has not ended.\<close>

definition fetchHandler ::
  "('jwk, 'u, 's) webhook_env \<Rightarrow> 'jwk webhook_adapter \<Rightarrow> webhook_request \<Rightarrow> request_stream \<Rightarrow> ('u, 's) webhook_world
   \<Rightarrow> ((exn + webhook_response) \<times> ('u, 's) webhook_world) option" where
  "fetchHandler env cx req rs w =
     (if wq_method req \<noteq> ''GET'' \<and> wq_method req \<noteq> ''HEAD'' then
        (if (case parseContentLength (wq_headers req) of None \<Rightarrow> False | Some n \<Rightarrow> n > wa_maxBodyBytes cx)
         then Some (Inr oversizedResponse, w)
         else (case readBodyWithCap (wa_maxBodyBytes cx) rs of
           None \<Rightarrow> None
         | Some OverLimit \<Rightarrow> Some (Inr oversizedResponse, w)
         | Some r \<Rightarrow> Some (handleRequest env cx (req\<lparr>wq_body := wrappedBody r\<rparr>) w)))
      else Some (handleRequest env cx (req\<lparr>wq_body := BodyOther JNull\<rparr>) w))"

subsection \<open>The listener of the Node wrapper\<close>

datatype node_chunk = ChunkBytes "byte list" | ChunkText string | ChunkOther

datatype node_event = NodeData node_chunk | NodeEnd | NodeError

definition nodeStep :: "nat \<Rightarrow> body_reader \<Rightarrow> node_event \<Rightarrow> body_reader" where
  "nodeStep cap st ev = (if rd_result st \<noteq> None then st else (case ev of
     NodeData (ChunkBytes bytes) \<Rightarrow> addChunk cap bytes st
   | NodeData (ChunkText s) \<Rightarrow> addChunk cap (utf8 s) st
   | NodeData ChunkOther \<Rightarrow> st
   | NodeEnd \<Rightarrow> st\<lparr>rd_result := Some (if length (rd_chunks st) = 0 then NoBody
       else BodyBytes (concat (rd_chunks st)))\<rparr>
   | NodeError \<Rightarrow> st\<lparr>rd_result := Some NoBody\<rparr>))"

definition readBody :: "nat \<Rightarrow> node_event list \<Rightarrow> body_result option" where
  "readBody cap evs = rd_result (foldl (nodeStep cap) initReader evs)"

record node_request =
  nr_method :: "string option"
  nr_url :: "string option"
  nr_headers :: "(string \<times> string list) list"

text \<open>Node lists the header names in lower case; a repeated header has several values.\<close>

definition getHeaderValue :: "(string \<times> string list) list \<Rightarrow> string \<Rightarrow> string option" where
  "getHeaderValue hs name = (case map_of hs (js_lower name) of
     Some vs \<Rightarrow> Some (joinWith '', '' vs)
   | None \<Rightarrow> map_option (joinWith '', '') (map_of hs name))"

definition resolveAbsoluteUrl :: "node_request \<Rightarrow> string" where
  "resolveAbsoluteUrl nr =
     (let relative = (case nr_url nr of Some u \<Rightarrow> u | None \<Rightarrow> ''/'');
          host = (case getHeaderValue (nr_headers nr) ''host'' of Some h \<Rightarrow> h | None \<Rightarrow> ''localhost'') in
      ''http://'' @ host @ (if js_prefix ''/'' relative then relative else ''/'' @ relative))"

definition buildHeaders :: "(string \<times> string list) list \<Rightarrow> (string \<times> string) list" where
  "buildHeaders raw = concat (map (\<lambda>(k, vs). map (\<lambda>v. (k, v)) vs) raw)"

definition nodeHandler ::
  "('jwk, 'u, 's) webhook_env \<Rightarrow> 'jwk webhook_adapter \<Rightarrow> node_request \<Rightarrow> node_event list \<Rightarrow> ('u, 's) webhook_world
   \<Rightarrow> ((exn + webhook_response) \<times> ('u, 's) webhook_world) option" where
  "nodeHandler env cx nr evs w =
     (let meth = (case nr_method nr of Some m \<Rightarrow> m | None \<Rightarrow> ''GET'');
          req = (\<lambda>body. \<lparr> wq_method = meth, wq_url = resolveAbsoluteUrl nr,
            wq_headers = buildHeaders (nr_headers nr), wq_body = body \<rparr>) in
      if meth \<noteq> ''GET'' \<and> meth \<noteq> ''HEAD'' then
        (case readBody (wa_maxBodyBytes cx) evs of
           None \<Rightarrow> None
         | Some OverLimit \<Rightarrow> Some (Inr oversizedResponse, w)
         | Some r \<Rightarrow> Some (handleRequest env cx (req (wrappedBody r)) w))
      else Some (handleRequest env cx (req (BodyOther JNull)) w))"

subsection \<open>The cap\<close>

text \<open>What a reader keeps never exceeds the cap, and its total counts what it keeps.\<close>

definition readerInv :: "nat \<Rightarrow> body_reader \<Rightarrow> bool" where
  "readerInv cap st \<longleftrightarrow> length (concat (rd_chunks st)) \<le> cap
     \<and> (rd_result st \<noteq> Some OverLimit \<longrightarrow> rd_total st = length (concat (rd_chunks st)))
     \<and> (\<forall>bs. rd_result st = Some (BodyBytes bs) \<longrightarrow> bs = concat (rd_chunks st))"

lemma readerInv_init: "readerInv cap initReader"
  by (simp add: readerInv_def initReader_def)

lemma readerInv_addChunk: "readerInv cap st \<Longrightarrow> rd_result st = None \<Longrightarrow> readerInv cap (addChunk cap bs st)"
  by (auto simp: readerInv_def addChunk_def Let_def)

lemma readerInv_fetch: "readerInv cap st \<Longrightarrow> readerInv cap (fetchStep cap st ev)"
  using readerInv_addChunk by (auto simp: fetchStep_def readerInv_def split: stream_event.split)

lemma readerInv_node: "readerInv cap st \<Longrightarrow> readerInv cap (nodeStep cap st ev)"
  using readerInv_addChunk by (auto simp: nodeStep_def readerInv_def split: node_event.split node_chunk.split)

lemma foldl_invariant: "(\<And>st ev. I st \<Longrightarrow> I (f st ev)) \<Longrightarrow> I st \<Longrightarrow> I (foldl f st evs)"
  by (induction evs arbitrary: st) auto

text \<open>The reference: the concatenation of the pieces, unless it is longer than the cap.\<close>

definition cappedBody :: "nat \<Rightarrow> byte list list \<Rightarrow> body_result" where
  "cappedBody cap chunks = (if length (concat chunks) > cap then OverLimit
     else if concat chunks = [] then NoBody else BodyBytes (concat chunks))"

lemma addChunk_result: "rd_result st = None \<Longrightarrow>
   rd_result (addChunk cap bs st) = (if rd_total st + length bs > cap then Some OverLimit else None)"
  by (simp add: addChunk_def Let_def)

lemma stuck [simp]:
  "rd_result st = Some r \<Longrightarrow> fetchStep cap st ev = st" "rd_result st = Some r \<Longrightarrow> nodeStep cap st ev' = st"
  by (simp_all add: fetchStep_def nodeStep_def)

lemma fetch_stuck: "rd_result st \<noteq> None \<Longrightarrow> foldl (fetchStep cap) st evs = st"
  by (induction evs) (auto simp: fetchStep_def)

lemma node_stuck: "rd_result st \<noteq> None \<Longrightarrow> foldl (nodeStep cap) st evs = st"
  by (induction evs) (auto simp: nodeStep_def)

lemma fetch_reads:
  assumes "rd_result st = None" "rd_total st = length (concat (rd_chunks st))" "rd_total st \<le> cap"
  shows "rd_result (foldl (fetchStep cap) st (map ReadChunk cs @ [ReadDone]))
    = Some (cappedBody cap (rd_chunks st @ cs))"
  using assms
proof (induction cs arbitrary: st)
  case Nil
  then show ?case by (auto simp: fetchStep_def cappedBody_def)
next
  case (Cons c cs)
  have step: "fetchStep cap st (ReadChunk c) = addChunk cap c st"
    using Cons.prems(1) by (simp add: fetchStep_def)
  show ?case
  proof (cases "rd_total st + length c > cap")
    case True
    then have "rd_result (addChunk cap c st) = Some OverLimit" by (simp add: addChunk_def)
    then show ?thesis
      using True Cons.prems fetch_stuck [of "addChunk cap c st"] step by (simp add: cappedBody_def)
  next
    case False
    then show ?thesis
      using Cons.IH [of "addChunk cap c st"] Cons.prems step by (simp add: addChunk_def)
  qed
qed

lemma node_reads:
  assumes "rd_result st = None" "rd_total st = length (concat (rd_chunks st))" "rd_total st \<le> cap"
    and "\<forall>c \<in> set cs. c \<noteq> []" "\<forall>c \<in> set (rd_chunks st). c \<noteq> []"
  shows "rd_result (foldl (nodeStep cap) st (map (NodeData \<circ> ChunkBytes) cs @ [NodeEnd]))
    = Some (cappedBody cap (rd_chunks st @ cs))"
  using assms
proof (induction cs arbitrary: st)
  case Nil
  then show ?case by (cases "rd_chunks st") (auto simp: nodeStep_def cappedBody_def)
next
  case (Cons c cs)
  have step: "nodeStep cap st (NodeData (ChunkBytes c)) = addChunk cap c st"
    using Cons.prems(1) by (simp add: nodeStep_def)
  show ?case
  proof (cases "rd_total st + length c > cap")
    case True
    then have "rd_result (addChunk cap c st) = Some OverLimit" by (simp add: addChunk_def)
    then show ?thesis
      using True Cons.prems node_stuck [of "addChunk cap c st"] step by (simp add: cappedBody_def)
  next
    case False
    then show ?thesis
      using Cons.IH [of "addChunk cap c st"] Cons.prems step by (simp add: addChunk_def)
  qed
qed

text \<open>The answer of a wrapper to a body that came in whole, by the reference.\<close>

definition answerTo ::
  "('jwk, 'u, 's) webhook_env \<Rightarrow> 'jwk webhook_adapter \<Rightarrow> webhook_request \<Rightarrow> byte list list \<Rightarrow> ('u, 's) webhook_world
   \<Rightarrow> ((exn + webhook_response) \<times> ('u, 's) webhook_world) option" where
  "answerTo env cx req chunks w = Some (if length (concat chunks) > wa_maxBodyBytes cx then (Inr oversizedResponse, w)
     else handleRequest env cx (req\<lparr>wq_body := wrappedBody (cappedBody (wa_maxBodyBytes cx) chunks)\<rparr>) w)"

lemma init_reads:
  "readBodyWithCap cap (Streamed (map ReadChunk cs @ [ReadDone])) = Some (cappedBody cap cs)"
  "\<forall>c \<in> set cs. c \<noteq> [] \<Longrightarrow> readBody cap (map (NodeData \<circ> ChunkBytes) cs @ [NodeEnd]) = Some (cappedBody cap cs)"
  using fetch_reads [of initReader cap cs] node_reads [of initReader cap cs]
  by (simp_all add: readBodyWithCap_def readBody_def initReader_def)

lemma kept_within_cap:
  "length (concat (rd_chunks (foldl (fetchStep cap) initReader evs))) \<le> cap"
  "length (concat (rd_chunks (foldl (nodeStep cap) initReader evs'))) \<le> cap"
proof -
  have "readerInv cap (foldl (fetchStep cap) initReader evs)" "readerInv cap (foldl (nodeStep cap) initReader evs')"
    using foldl_invariant [of "readerInv cap"] readerInv_fetch readerInv_node readerInv_init by blast+
  then show "length (concat (rd_chunks (foldl (fetchStep cap) initReader evs))) \<le> cap"
    "length (concat (rd_chunks (foldl (nodeStep cap) initReader evs'))) \<le> cap"
    by (simp_all add: readerInv_def)
qed

lemma cappedBody_over: "cappedBody cap cs = OverLimit \<longleftrightarrow> length (concat cs) > cap"
  by (simp add: cappedBody_def)

text \<open>Both wrappers keep the adapter's cap while they read, and hand on exactly the body.  After any
  events a reader holds at most \<open>maxBodyBytes\<close> bytes; and whatever non-empty pieces a body
  arrives in, each wrapper answers 413 without running the handler when their total exceeds the cap,
  and otherwise runs it on the concatenation of the pieces.  The fetch wrapper answers 413 at once
  when the declared length exceeds the cap.\<close>

theorem wrappers_enforce_the_cap:
  assumes "wq_method req \<noteq> ''GET''" "wq_method req \<noteq> ''HEAD''"
    and "nr_method nr = Some (wq_method req)" "resolveAbsoluteUrl nr = wq_url req"
    and "buildHeaders (nr_headers nr) = wq_headers req" and "\<forall>c \<in> set cs. c \<noteq> []"
  shows "length (concat (rd_chunks (foldl (fetchStep (wa_maxBodyBytes cx)) initReader evs))) \<le> wa_maxBodyBytes cx
    \<and> length (concat (rd_chunks (foldl (nodeStep (wa_maxBodyBytes cx)) initReader evs'))) \<le> wa_maxBodyBytes cx
    \<and> nodeHandler env cx nr (map (NodeData \<circ> ChunkBytes) cs @ [NodeEnd]) w = answerTo env cx req cs w
    \<and> fetchHandler env cx req (Streamed (map ReadChunk cs @ [ReadDone])) w
        = (case parseContentLength (wq_headers req) of
             Some n \<Rightarrow> if n > wa_maxBodyBytes cx then Some (Inr oversizedResponse, w) else answerTo env cx req cs w
           | None \<Rightarrow> answerTo env cx req cs w)"
proof -
  let ?r = "cappedBody (wa_maxBodyBytes cx) cs"
  have "req\<lparr>wq_body := b\<rparr> = \<lparr> wq_method = wq_method req, wq_url = resolveAbsoluteUrl nr,
            wq_headers = buildHeaders (nr_headers nr), wq_body = b \<rparr>" for b
    by (simp add: assms(4,5))
  then have node: "nodeHandler env cx nr (map (NodeData \<circ> ChunkBytes) cs @ [NodeEnd]) w = answerTo env cx req cs w"
    using init_reads(2) [OF assms(6)] assms(1-3) cappedBody_over [of "wa_maxBodyBytes cx" cs]
    by (cases ?r) (auto simp: nodeHandler_def Let_def answerTo_def)
  have fetch: "fetchHandler env cx req (Streamed (map ReadChunk cs @ [ReadDone])) w
        = (case parseContentLength (wq_headers req) of
             Some n \<Rightarrow> if n > wa_maxBodyBytes cx then Some (Inr oversizedResponse, w) else answerTo env cx req cs w
           | None \<Rightarrow> answerTo env cx req cs w)"
    using init_reads(1) [of "wa_maxBodyBytes cx" cs] assms(1,2) cappedBody_over [of "wa_maxBodyBytes cx" cs]
    by (cases ?r) (auto simp: fetchHandler_def answerTo_def split: option.split)
  show ?thesis using node fetch kept_within_cap by blast
qed

lemma wrappers_enforce_the_cap_witness:
  "fetchHandler sampleEnv (sampleAdapter\<lparr>wa_maxBodyBytes := 3\<rparr>) (samplePost\<lparr>wq_url := ''http://localhost/''\<rparr>)
     (Streamed [ReadChunk [1, 2], ReadChunk [3, 4], ReadDone]) sampleWorld = Some (Inr oversizedResponse, sampleWorld)"
proof -
  let ?nr = "\<lparr> nr_method = Some ''post'', nr_url = None,
    nr_headers = [(''X-Hub-Signature-256'', [SIGNATURE_PREFIX @ bytesToHex (replicate 32 2)])] \<rparr>"
  let ?req = "samplePost\<lparr>wq_url := ''http://localhost/''\<rparr>"
  have url: "resolveAbsoluteUrl ?nr = wq_url ?req"
    by (simp add: resolveAbsoluteUrl_def getHeaderValue_def js_lower_def js_lower_char_def code_of_def)
  have hdr: "buildHeaders (nr_headers ?nr) = wq_headers ?req" by (simp add: buildHeaders_def samplePost_def)
  have len: "parseContentLength (wq_headers ?req) = None"
    by (simp add: parseContentLength_def headersGet_def samplePost_def js_lower_def js_lower_char_def code_of_def)
  show ?thesis
    using wrappers_enforce_the_cap [OF _ _ _ url hdr, where cs = "[[1, 2], [3, 4]]"
        and cx = "sampleAdapter\<lparr>wa_maxBodyBytes := 3\<rparr>" and env = sampleEnv and w = sampleWorld] len
    by (simp add: answerTo_def samplePost_def)
qed

end
