(* ===== verification/Flow_Json.thy ===== *)
theory Flow_Json
  imports Json_Stringify
begin

section \<open>Flow JSON: validation and cloning\<close>

text \<open>
  \<open>packages/graph/src/endpoints/flows/shared.ts\<close> and \<open>flowJson.ts\<close>: the guards that every Flow
  helper applies to caller values, and the deep clone that turns a value into plain JSON within the
  limits of a Flow.  All of them throw \<open>GraphRequestValidationError\<close>; its text is not modelled.
  Values of the model are finite trees, so the clone's test for cycles never fires and is left out;
  its other state, the count of components, is threaded through.
\<close>

datatype flow_error = GraphRequestValidationError

subsection \<open>Guards\<close>

definition FLOW_JSON_MAX_DEPTH :: nat where "FLOW_JSON_MAX_DEPTH = 16"

definition FLOW_JSON_MAX_ARRAY_LENGTH :: nat where "FLOW_JSON_MAX_ARRAY_LENGTH = 1000"

definition FLOW_JSON_MAX_SCREENS :: nat where "FLOW_JSON_MAX_SCREENS = 50"

definition FLOW_JSON_MAX_COMPONENTS :: nat where "FLOW_JSON_MAX_COMPONENTS = 1000"

definition FLOW_JSON_MAX_STRING_LENGTH :: nat where "FLOW_JSON_MAX_STRING_LENGTH = 16384"

definition FLOW_JSON_MAX_BYTES :: nat where "FLOW_JSON_MAX_BYTES = 131072"

definition FLOW_MAX_CATEGORIES :: nat where "FLOW_MAX_CATEGORIES = 5"

definition flowFail :: "flow_error + 'a" where
  "flowFail = Inl GraphRequestValidationError"

definition flowGuard :: "bool \<Rightarrow> flow_error + unit" where
  "flowGuard ok = guardE ok GraphRequestValidationError"

definition flowHasControlChar :: "string \<Rightarrow> bool" where
  "flowHasControlChar s = list_ex (\<lambda>c. code_of c < 32 \<or> code_of c = 127) s"

definition flowIsUnsafeObjectKey :: "string \<Rightarrow> bool" where
  "flowIsUnsafeObjectKey key = (key = ''__proto__'' \<or> key = ''constructor'' \<or> key = ''prototype'')"

definition flowIsPlainObject :: "jsval \<Rightarrow> (string \<times> slot) list option" where
  "flowIsPlainObject v = (case v of JObj _ ps \<Rightarrow> Some ps | _ \<Rightarrow> None)"

definition jsonSlot :: "slot \<Rightarrow> bool" where
  "jsonSlot s = (case s of Data v \<Rightarrow> v \<noteq> JFun | Hole \<Rightarrow> True | Accessor _ \<Rightarrow> False)"

definition flowAssertPlainRecord :: "jsval \<Rightarrow> flow_error + (string \<times> slot) list" where
  "flowAssertPlainRecord v = (case v of
     JObj pr ps \<Rightarrow>
       bindE (flowGuard (pr = ObjectProto \<or> pr = NullProto)) (\<lambda>_.
       bindE (flowGuard (\<not> list_ex (\<lambda>(k, _). k = ''toJSON'') ps)) (\<lambda>_.
       bindE (flowGuard (list_all (\<lambda>(_, s). jsonSlot s) ps)) (\<lambda>_.
       Inr ps)))
   | _ \<Rightarrow> flowFail)"

definition flowString :: "jsval \<Rightarrow> nat \<Rightarrow> flow_error + string" where
  "flowString v maxLength = (case v of
     JStr s \<Rightarrow>
       bindE (flowGuard (s \<noteq> [] \<and> js_trim s \<noteq> [])) (\<lambda>_.
       bindE (flowGuard (\<not> flowHasControlChar s)) (\<lambda>_.
       bindE (flowGuard (length s \<le> maxLength)) (\<lambda>_. Inr s)))
   | _ \<Rightarrow> flowFail)"

definition flowMaybeString :: "jsval \<Rightarrow> nat \<Rightarrow> flow_error + string option" where
  "flowMaybeString v maxLength = (if v = JUndef then Inr None
     else bindE (flowString v maxLength) (\<lambda>s. Inr (Some s)))"

text \<open>The URL parser gives the protocol of an absolute URL.\<close>

definition flowUrl :: "(string \<Rightarrow> string option) \<Rightarrow> jsval \<Rightarrow> flow_error + string" where
  "flowUrl protocolOf v =
     bindE (flowString v 2048) (\<lambda>s.
     bindE (flowGuard (s = js_trim s)) (\<lambda>_.
     case protocolOf s of
       None \<Rightarrow> flowFail
     | Some p \<Rightarrow> bindE (flowGuard (p = ''http:'' \<or> p = ''https:'')) (\<lambda>_. Inr s)))"

definition dataValue :: "slot \<Rightarrow> flow_error + jsval" where
  "dataValue s = (case s of Data v \<Rightarrow> Inr v | _ \<Rightarrow> flowFail)"

definition flowArray :: "jsval \<Rightarrow> nat \<Rightarrow> nat \<Rightarrow> flow_error + jsval list" where
  "flowArray v lo hi = (case v of
     JArr sl \<Rightarrow>
       bindE (flowGuard (lo \<le> length sl \<and> length sl \<le> hi)) (\<lambda>_.
       mapE dataValue sl)
   | _ \<Rightarrow> flowFail)"

subsection \<open>The clone\<close>

text \<open>The count of components grows at an object with a string \<open>type\<close> below a \<open>children\<close> key.\<close>

definition countComponent :: "string \<Rightarrow> (string \<times> slot) list \<Rightarrow> nat \<Rightarrow> flow_error + nat" where
  "countComponent parentKey ps n =
     (if parentKey = ''children'' \<and> isString (js_get ps ''type'') then
        bindE (flowGuard (n + 1 \<le> FLOW_JSON_MAX_COMPONENTS)) (\<lambda>_. Inr (n + 1))
      else Inr n)"

definition flowKeyOk :: "string \<Rightarrow> bool" where
  "flowKeyOk key = (\<not> flowIsUnsafeObjectKey key \<and> \<not> (length key = 0 \<or> length key > 1024 \<or> flowHasControlChar key))"

text \<open>The measure of the three functions of the clone.\<close>

definition cloneMeasure ::
  "(nat \<times> string \<times> jsval \<times> nat) + (nat \<times> string \<times> slot list \<times> nat) + (nat \<times> (string \<times> slot) list \<times> nat) \<Rightarrow> nat"
where
  "cloneMeasure x = (case x of
     Inl (_, _, v, _) \<Rightarrow> 2 * size v
   | Inr (Inl (_, _, sl, _)) \<Rightarrow> 2 * size_list (\<lambda>s. size (slot_value s)) sl + 1
   | Inr (Inr (_, ps, _)) \<Rightarrow> 2 * size_list (\<lambda>(_, s). size (slot_value s)) ps + 1)"

lemma size_list_le: "(\<And>x. f x \<le> g x) \<Longrightarrow> size_list f xs \<le> size_list g xs"
  by (induction xs) (auto intro!: add_mono)

lemma items_size: "size_list (\<lambda>s. size (slot_value s)) sl \<le> size_list size sl"
  by (rule size_list_le) (rule slot_value_size_le)

lemma props_size: "size_list (\<lambda>(_, s). size (slot_value s)) ps \<le> size_list (size_prod (\<lambda>_. 0) size) ps"
  by (rule size_list_le) (auto simp: slot_value_size_le le_SucI split: prod.split)

function flowJsonClone :: "nat \<Rightarrow> string \<Rightarrow> jsval \<Rightarrow> nat \<Rightarrow> flow_error + jsval \<times> nat"
  and cloneItems :: "nat \<Rightarrow> string \<Rightarrow> slot list \<Rightarrow> nat \<Rightarrow> flow_error + slot list \<times> nat"
  and cloneProps :: "nat \<Rightarrow> (string \<times> slot) list \<Rightarrow> nat \<Rightarrow> flow_error + (string \<times> slot) list \<times> nat"
where
  "flowJsonClone depth parentKey v n =
     bindE (flowGuard (depth \<le> FLOW_JSON_MAX_DEPTH)) (\<lambda>_.
     case v of
       JNull \<Rightarrow> Inr (JNull, n)
     | JBool b \<Rightarrow> Inr (JBool b, n)
     | JStr s \<Rightarrow>
         bindE (flowGuard (\<not> flowHasControlChar s)) (\<lambda>_.
         bindE (flowGuard (length s \<le> FLOW_JSON_MAX_STRING_LENGTH)) (\<lambda>_. Inr (JStr s, n)))
     | JNum x \<Rightarrow> bindE (flowGuard (isFiniteNum x)) (\<lambda>_. Inr (JNum x, n))
     | JUndef \<Rightarrow> Inr (JUndef, n)
     | JFun \<Rightarrow> flowFail
     | JArr sl \<Rightarrow>
         bindE (flowArray (JArr sl) 0 FLOW_JSON_MAX_ARRAY_LENGTH) (\<lambda>_.
         bindE (cloneItems (Suc depth) parentKey sl n) (\<lambda>(out, n').
         Inr (JArr out, n')))
     | JObj pr ps \<Rightarrow>
         bindE (flowAssertPlainRecord (JObj pr ps)) (\<lambda>_.
         bindE (countComponent parentKey ps n) (\<lambda>n1.
         bindE (cloneProps (Suc depth) ps n1) (\<lambda>(out, n').
         Inr (JObj ObjectProto out, n')))))"
| "cloneItems depth parentKey [] n = Inr ([], n)"
| "cloneItems depth parentKey (s # sl) n =
     bindE (flowJsonClone depth parentKey (slot_value s) n) (\<lambda>(v, n1).
     bindE (cloneItems depth parentKey sl n1) (\<lambda>(out, n').
     Inr (Data v # out, n')))"
| "cloneProps depth [] n = Inr ([], n)"
| "cloneProps depth ((key, s) # ps) n =
     (if s = Hole then cloneProps depth ps n
      else
        bindE (flowGuard (flowKeyOk key)) (\<lambda>_.
        bindE (flowJsonClone depth key (slot_value s) n) (\<lambda>(v, n1).
        bindE (cloneProps depth ps n1) (\<lambda>(out, n').
        Inr (if v = JUndef then out else (key, Data v) # out, n')))))"
  by pat_completeness auto

termination
  by (relation "measure cloneMeasure")
    (auto simp: cloneMeasure_def le_imp_less_Suc items_size props_size)

lemmas flow_clone_simps = flowJsonClone.simps cloneItems.simps cloneProps.simps

declare flowJsonClone.simps [simp del]

subsection \<open>The Flow JSON builder and the request bodies\<close>

definition checkScreen :: "jsval \<Rightarrow> flow_error + string" where
  "checkScreen v = bindE (flowAssertPlainRecord v) (\<lambda>ps. flowString (js_get ps ''id'') 256)"

definition serializedBytes :: "(rat \<Rightarrow> string) \<Rightarrow> jsval \<Rightarrow> nat" where
  "serializedBytes nt v = (case js_stringify nt v of None \<Rightarrow> 0 | Some t \<Rightarrow> length (utf8 t))"

definition buildFlowJson :: "(rat \<Rightarrow> string) \<Rightarrow> jsval \<Rightarrow> flow_error + jsval" where
  "buildFlowJson nt input =
     bindE (flowJsonClone 0 [] input 0) (\<lambda>(cloned, _).
     bindE (flowAssertPlainRecord cloned) (\<lambda>record.
     bindE (flowArray (js_get record ''screens'') 1 FLOW_JSON_MAX_SCREENS) (\<lambda>screens.
     bindE (mapE checkScreen screens) (\<lambda>_.
     bindE (flowGuard (serializedBytes nt cloned \<le> FLOW_JSON_MAX_BYTES)) (\<lambda>_.
     Inr cloned)))))"

definition validateFlowJson :: "(rat \<Rightarrow> string) \<Rightarrow> jsval \<Rightarrow> flow_error + unit" where
  "validateFlowJson nt input = bindE (buildFlowJson nt input) (\<lambda>_. Inr ())"

definition normalizeFlowCategories :: "jsval \<Rightarrow> bool \<Rightarrow> flow_error + string list option" where
  "normalizeFlowCategories v required =
     (if v = JUndef then (if required then flowFail else Inr None)
      else bindE (flowArray v (if required then 1 else 0) FLOW_MAX_CATEGORIES) (\<lambda>raw.
        bindE (mapE (\<lambda>c. flowString c 64) raw) (\<lambda>out. Inr (Some out))))"

definition normalizeFlowJsonLike :: "(rat \<Rightarrow> string) \<Rightarrow> jsval \<Rightarrow> flow_error + jsval option" where
  "normalizeFlowJsonLike nt v = (if v = JUndef then Inr None
     else bindE (buildFlowJson nt v) (\<lambda>r. Inr (Some r)))"

text \<open>The entries of an output object; an assignment to an existing key keeps its place.\<close>

definition setField :: "string \<Rightarrow> jsval \<Rightarrow> (string \<times> jsval) list \<Rightarrow> (string \<times> jsval) list" where
  "setField k v out = (if k \<in> set (map fst out) then map (\<lambda>(k', v'). if k' = k then (k', v) else (k', v')) out
     else out @ [(k, v)])"

definition setOptional :: "string \<Rightarrow> jsval option \<Rightarrow> (string \<times> jsval) list \<Rightarrow> (string \<times> jsval) list" where
  "setOptional k v out = (case v of None \<Rightarrow> out | Some v \<Rightarrow> setField k v out)"

definition stringArray :: "string list \<Rightarrow> jsval" where
  "stringArray xs = JArr (map (\<lambda>s. Data (JStr s)) xs)"

text \<open>The loop over the other entries: each is cloned with its own count of components.\<close>

fun copyRest :: "string list \<Rightarrow> (string \<times> slot) list \<Rightarrow> (string \<times> jsval) list \<Rightarrow> flow_error + (string \<times> jsval) list" where
  "copyRest known [] out = Inr out"
| "copyRest known ((key, s) # ps) out =
     bindE (flowGuard (\<not> flowIsUnsafeObjectKey key)) (\<lambda>_.
     if key \<in> set known \<or> slot_value s = JUndef then copyRest known ps out
     else bindE (flowJsonClone 0 [] (slot_value s) 0) (\<lambda>(v, _). copyRest known ps (setField key v out)))"

definition optionalUrl :: "(string \<Rightarrow> string option) \<Rightarrow> jsval \<Rightarrow> flow_error + string option" where
  "optionalUrl protocolOf v = (if v = JUndef then Inr None
     else bindE (flowUrl protocolOf v) (\<lambda>u. Inr (Some u)))"

definition mapCreateFlowBody ::
  "(rat \<Rightarrow> string) \<Rightarrow> (string \<Rightarrow> string option) \<Rightarrow> jsval \<Rightarrow> flow_error + (string \<times> jsval) list" where
  "mapCreateFlowBody nt protocolOf input =
     bindE (flowAssertPlainRecord input) (\<lambda>r.
     bindE (flowString (js_get r ''name'') 512) (\<lambda>name.
     bindE (normalizeFlowCategories (js_get r ''categories'') True) (\<lambda>categories.
     bindE (flowMaybeString (js_get r ''cloneFlowId'') 512) (\<lambda>cloneFlowId.
     bindE (optionalUrl protocolOf (js_get r ''endpointUri'')) (\<lambda>endpointUri.
     bindE (normalizeFlowJsonLike nt (js_get r ''flowJson'')) (\<lambda>fj.
     bindE (flowGuard (js_get r ''publish'' = JUndef \<or> isBoolean (js_get r ''publish''))) (\<lambda>_.
     copyRest [''name'', ''categories'', ''cloneFlowId'', ''endpointUri'', ''flowJson'', ''publish''] r
       (setOptional ''publish'' (if js_get r ''publish'' = JUndef then None else Some (js_get r ''publish''))
       (setOptional ''flow_json'' fj
       (setOptional ''endpoint_uri'' (map_option JStr endpointUri)
       (setOptional ''clone_flow_id'' (map_option JStr cloneFlowId)
       (setOptional ''categories'' (map_option stringArray categories)
       (setField ''name'' (JStr name) [])))))))))))))"

definition mapUpdateFlowMetadataBody ::
  "(string \<Rightarrow> string option) \<Rightarrow> jsval \<Rightarrow> flow_error + (string \<times> jsval) list" where
  "mapUpdateFlowMetadataBody protocolOf input =
     bindE (flowAssertPlainRecord input) (\<lambda>r.
     bindE (flowMaybeString (js_get r ''name'') 512) (\<lambda>name.
     bindE (normalizeFlowCategories (js_get r ''categories'') False) (\<lambda>categories.
     bindE (optionalUrl protocolOf (js_get r ''endpointUri'')) (\<lambda>endpointUri.
     bindE (flowMaybeString (js_get r ''applicationId'') 512) (\<lambda>applicationId.
     copyRest [''name'', ''categories'', ''endpointUri'', ''applicationId''] r
       (setOptional ''application_id'' (map_option JStr applicationId)
       (setOptional ''endpoint_uri'' (map_option JStr endpointUri)
       (setOptional ''categories'' (map_option stringArray categories)
       (setOptional ''name'' (map_option JStr name) [])))))))))"

definition mapUpdateFlowJsonBody :: "(rat \<Rightarrow> string) \<Rightarrow> jsval \<Rightarrow> flow_error + (string \<times> jsval) list" where
  "mapUpdateFlowJsonBody nt input =
     bindE (flowAssertPlainRecord input) (\<lambda>r.
     bindE (buildFlowJson nt (js_get r ''flowJson'')) (\<lambda>fj.
     bindE (flowMaybeString (js_get r ''name'') 256) (\<lambda>name.
     Inr [(''name'', JStr (case name of Some s \<Rightarrow> s | None \<Rightarrow> ''flow.json'')),
          (''asset_type'', JStr ''FLOW_JSON''),
          (''file'', case js_stringify nt fj of Some t \<Rightarrow> JStr t | None \<Rightarrow> JUndef)])))"

definition flowNormalizePathParams :: "jsval \<Rightarrow> string \<Rightarrow> flow_error + (string \<times> string) list" where
  "flowNormalizePathParams input fieldName =
     bindE (flowAssertPlainRecord input) (\<lambda>r.
     case map_of r fieldName of
       Some (Data v) \<Rightarrow> bindE (flowGuard (isString v)) (\<lambda>_.
         bindE (flowString v 512) (\<lambda>s. Inr [(fieldName, s)]))
     | _ \<Rightarrow> flowFail)"

text \<open>Optional string parameters under their Graph names.\<close>

fun optionalParams :: "(string \<times> string) list \<Rightarrow> (string \<times> slot) list \<Rightarrow> flow_error + (string \<times> string) list" where
  "optionalParams [] r = Inr []"
| "optionalParams ((publicKey, graphKey) # ks) r =
     bindE (flowMaybeString (js_get r publicKey) 512) (\<lambda>s.
     bindE (optionalParams ks r) (\<lambda>rest.
     Inr (case s of None \<Rightarrow> rest | Some s \<Rightarrow> (graphKey, s) # rest)))"

definition flowParams :: "string \<Rightarrow> (string \<times> string) list \<Rightarrow> jsval \<Rightarrow> flow_error + (string \<times> string) list" where
  "flowParams idKey optional input =
     bindE (flowAssertPlainRecord input) (\<lambda>r.
     bindE (flowString (js_get r idKey) 512) (\<lambda>i.
     bindE (optionalParams optional r) (\<lambda>rest. Inr ((idKey, i) # rest))))"

definition normalizeListFlowsParams :: "jsval \<Rightarrow> flow_error + (string \<times> string) list" where
  "normalizeListFlowsParams = flowParams ''wabaId'' [(''fields'', ''fields''), (''status'', ''status''),
     (''name'', ''name''), (''invalidatePreview'', ''invalidate_preview''),
     (''phoneNumberId'', ''phone_number_id''), (''limit'', ''limit''), (''after'', ''after'')]"

definition normalizeGetFlowParams :: "jsval \<Rightarrow> flow_error + (string \<times> string) list" where
  "normalizeGetFlowParams = flowParams ''flowId'' [(''fields'', ''fields''),
     (''invalidatePreview'', ''invalidate_preview''), (''phoneNumberId'', ''phone_number_id'')]"

definition normalizeFlowAssetsParams :: "jsval \<Rightarrow> flow_error + (string \<times> string) list" where
  "normalizeFlowAssetsParams = flowParams ''flowId'' [(''fields'', ''fields''), (''limit'', ''limit''),
     (''after'', ''after'')]"

subsection \<open>What the clone guarantees\<close>

text \<open>
  \<open>flowPlain depth v\<close>: \<open>v\<close> is plain JSON within the limits, standing at that depth: no function, no
  accessor, no hole, no undefined property, no unsafe or malformed key and no \<open>toJSON\<close>, finite
  numbers, bounded strings and arrays, nesting at most 16 deep.
\<close>

fun flowPlain :: "nat \<Rightarrow> jsval \<Rightarrow> bool" where
  "flowPlain d JNull = (d \<le> FLOW_JSON_MAX_DEPTH)"
| "flowPlain d JUndef = (d \<le> FLOW_JSON_MAX_DEPTH)"
| "flowPlain d (JBool b) = (d \<le> FLOW_JSON_MAX_DEPTH)"
| "flowPlain d (JStr s) = (d \<le> FLOW_JSON_MAX_DEPTH \<and> \<not> flowHasControlChar s \<and> length s \<le> FLOW_JSON_MAX_STRING_LENGTH)"
| "flowPlain d (JNum x) = (d \<le> FLOW_JSON_MAX_DEPTH \<and> isFiniteNum x)"
| "flowPlain d JFun = False"
| "flowPlain d (JArr sl) = (d \<le> FLOW_JSON_MAX_DEPTH \<and> length sl \<le> FLOW_JSON_MAX_ARRAY_LENGTH
     \<and> (\<forall>s \<in> set sl. s = Data (slot_value s) \<and> flowPlain (Suc d) (slot_value s)))"
| "flowPlain d (JObj pr ps) = (d \<le> FLOW_JSON_MAX_DEPTH \<and> pr = ObjectProto
     \<and> (\<forall>(k, s) \<in> set ps. k \<noteq> ''toJSON'' \<and> flowKeyOk k \<and> s = Data (slot_value s) \<and> slot_value s \<noteq> JUndef
          \<and> flowPlain (Suc d) (slot_value s)))"

text \<open>JavaScript objects have each key once.\<close>

fun uniqueKeys :: "jsval \<Rightarrow> bool" where
  "uniqueKeys (JArr sl) = (\<forall>s \<in> set sl. uniqueKeys (slot_value s))"
| "uniqueKeys (JObj pr ps) = (distinct (map fst ps) \<and> (\<forall>(k, s) \<in> set ps. s \<noteq> Hole \<and> uniqueKeys (slot_value s)))"
| "uniqueKeys v = True"

lemma flowGuard_Inr [res_iff]: "flowGuard ok = Inr u \<longleftrightarrow> ok"
  by (simp add: flowGuard_def guardE_Inr)

lemma flowGuard_simps [simp]: "flowGuard True = Inr ()" "flowGuard False = flowFail"
  by (simp_all add: flowGuard_def flowFail_def)

lemma flowFail_neq [simp]: "flowFail \<noteq> Inr x" "bindE flowFail f = flowFail"
  by (simp_all add: flowFail_def)

lemma flowPlain_not_fun: "flowPlain d v \<Longrightarrow> v \<noteq> JFun"
  by auto

lemma flowArray_Inr: "flowArray v lo hi = Inr vs \<longleftrightarrow> (\<exists>sl. v = JArr sl \<and> lo \<le> length sl \<and> length sl \<le> hi
    \<and> sl = map Data vs)"
proof -
  have "mapE dataValue sl = Inr vs \<longleftrightarrow> sl = map Data vs" for sl
    by (induction sl arbitrary: vs) (auto simp: res_iff dataValue_def split: slot.splits)
  then show ?thesis by (cases v) (auto simp: flowArray_def res_iff)
qed

lemma flowAssertPlainRecord_Inr: "flowAssertPlainRecord v = Inr ps \<longleftrightarrow>
    (\<exists>pr. v = JObj pr ps \<and> (pr = ObjectProto \<or> pr = NullProto) \<and> (\<forall>(k, s) \<in> set ps. k \<noteq> ''toJSON'' \<and> jsonSlot s))"
  by (cases v) (auto simp: flowAssertPlainRecord_def res_iff list_ex_iff list_all_iff)

lemma flowString_Inr: "flowString v n = Inr s \<longleftrightarrow> v = JStr s \<and> s \<noteq> [] \<and> js_trim s \<noteq> [] \<and> \<not> flowHasControlChar s
    \<and> length s \<le> n"
  by (cases v) (auto simp: flowString_def res_iff)

text \<open>The clone preserves whether a value is a string, and is undefined only for \<open>undefined\<close>.\<close>

lemma flowJsonClone_isString: "flowJsonClone d pk v n = Inr (v', n') \<Longrightarrow> isString v' = isString v"
  by (cases v) (auto simp: flowJsonClone.simps res_iff isString_def split: prod.splits)

lemma cloneProps_lookup:
  "cloneProps d ps n = Inr (out, n') \<Longrightarrow> distinct (map fst ps) \<Longrightarrow> set (map fst out) \<subseteq> set (map fst ps)
   \<and> distinct (map fst out) \<and> isString (js_get out k) = isString (js_get ps k)"
proof (induction ps arbitrary: n out n')
  case (Cons p ps)
  obtain key s where p: "p = (key, s)" by fastforce
  show ?case
  proof (cases "s = Hole")
    case True
    then have "cloneProps d ps n = Inr (out, n')" using Cons.prems by (simp add: p)
    note ih = Cons.IH [OF this]
    have "key \<notin> set (map fst out)" using ih Cons.prems(2) by (auto simp: p)
    then have "js_get out key = JUndef" by (simp add: js_get_def map_of_eq_None_iff [THEN iffD2])
    then show ?thesis using ih Cons.prems(2) True by (auto simp: p isString_def)
  next
    case False
    then obtain v n1 out1 where v: "flowJsonClone d key (slot_value s) n = Inr (v, n1)"
      and rest: "cloneProps d ps n1 = Inr (out1, n')"
      and out: "out = (if v = JUndef then out1 else (key, Data v) # out1)"
      using Cons.prems(1) by (auto simp: p res_iff split: prod.splits)
    note ih = Cons.IH [OF rest]
    have absent: "key \<notin> set (map fst out1)" using ih Cons.prems(2) by (auto simp: p)
    then have "js_get out1 key = JUndef" by (simp add: js_get_def map_of_eq_None_iff [THEN iffD2])
    with flowJsonClone_isString [OF v] ih absent Cons.prems(2) out show ?thesis
      by (auto simp: p isString_def)
  qed
qed auto

text \<open>The three parts of the clone, by their common induction: the output is plain, and cloning it
  again gives it back with the same count.\<close>

definition clonedItems :: "nat \<Rightarrow> slot list \<Rightarrow> bool" where
  "clonedItems d sl \<longleftrightarrow> (\<forall>s \<in> set sl. s = Data (slot_value s) \<and> flowPlain d (slot_value s) \<and> uniqueKeys (slot_value s))"

definition clonedProps :: "nat \<Rightarrow> (string \<times> slot) list \<Rightarrow> bool" where
  "clonedProps d ps \<longleftrightarrow> (\<forall>(k, s) \<in> set ps. flowKeyOk k \<and> s = Data (slot_value s) \<and> slot_value s \<noteq> JUndef
     \<and> flowPlain d (slot_value s) \<and> uniqueKeys (slot_value s))"

lemma clonedItems_simps [simp]:
  "clonedItems d []"
  "clonedItems d (s # sl) \<longleftrightarrow> s = Data (slot_value s) \<and> flowPlain d (slot_value s) \<and> uniqueKeys (slot_value s) \<and> clonedItems d sl"
  by (auto simp: clonedItems_def)

lemma clonedProps_simps [simp]:
  "clonedProps d []"
  "clonedProps d ((k, s) # ps) \<longleftrightarrow> flowKeyOk k \<and> s = Data (slot_value s) \<and> slot_value s \<noteq> JUndef
     \<and> flowPlain d (slot_value s) \<and> uniqueKeys (slot_value s) \<and> clonedProps d ps"
  by (auto simp: clonedProps_def)

lemma clonedItems_array:
  "clonedItems (Suc d) sl \<Longrightarrow> d \<le> FLOW_JSON_MAX_DEPTH \<Longrightarrow> length sl \<le> FLOW_JSON_MAX_ARRAY_LENGTH \<Longrightarrow>
   flowPlain d (JArr sl) \<and> uniqueKeys (JArr sl) \<and> flowArray (JArr sl) 0 FLOW_JSON_MAX_ARRAY_LENGTH = Inr (map slot_value sl)"
proof -
  assume cl: "clonedItems (Suc d) sl" and len: "d \<le> FLOW_JSON_MAX_DEPTH" "length sl \<le> FLOW_JSON_MAX_ARRAY_LENGTH"
  then have "sl = map Data (map slot_value sl)" by (auto simp: clonedItems_def intro!: map_idI [symmetric])
  with cl len show ?thesis by (auto simp: clonedItems_def flowArray_Inr)
qed

lemma clonedProps_object:
  "clonedProps (Suc d) ps \<Longrightarrow> d \<le> FLOW_JSON_MAX_DEPTH \<Longrightarrow> distinct (map fst ps) \<Longrightarrow> ''toJSON'' \<notin> set (map fst ps) \<Longrightarrow>
   flowPlain d (JObj ObjectProto ps) \<and> uniqueKeys (JObj ObjectProto ps)
   \<and> flowAssertPlainRecord (JObj ObjectProto ps) = Inr ps"
proof -
  assume cl: "clonedProps (Suc d) ps" and rest: "d \<le> FLOW_JSON_MAX_DEPTH" "distinct (map fst ps)" "''toJSON'' \<notin> set (map fst ps)"
  have each: "(k, s) \<in> set ps \<Longrightarrow> flowKeyOk k \<and> s = Data (slot_value s) \<and> slot_value s \<noteq> JUndef
     \<and> flowPlain (Suc d) (slot_value s) \<and> uniqueKeys (slot_value s) \<and> k \<noteq> ''toJSON''" for k s
    using cl rest(3) by (force simp: clonedProps_def)
  have "jsonSlot s" if "(k, s) \<in> set ps" for k s
    using each [OF that] by (cases s) (auto simp: jsonSlot_def)
  with each rest show ?thesis
    by (auto simp: flowAssertPlainRecord_Inr)
qed

lemma clone_result:
  "flowJsonClone d pk v n = Inr (v', n') \<Longrightarrow> uniqueKeys v \<Longrightarrow>
     flowPlain d v' \<and> uniqueKeys v' \<and> flowJsonClone d pk v' n = Inr (v', n')"
  "cloneItems d pk sl n = Inr (sl', n') \<Longrightarrow> \<forall>s \<in> set sl. uniqueKeys (slot_value s) \<Longrightarrow>
     length sl' = length sl \<and> clonedItems d sl' \<and> cloneItems d pk sl' n = Inr (sl', n')"
  "cloneProps d ps n = Inr (ps', n') \<Longrightarrow> distinct (map fst ps) \<Longrightarrow> \<forall>(k, s) \<in> set ps. s \<noteq> Hole \<and> uniqueKeys (slot_value s) \<Longrightarrow>
     clonedProps d ps' \<and> cloneProps d ps' n = Inr (ps', n')"
proof (induction d pk v n and d pk sl n and d ps n arbitrary: v' n' and sl' n' and ps' n'
    rule: flowJsonClone_cloneItems_cloneProps.induct)
  case (1 d pk v n)
  have depth: "d \<le> FLOW_JSON_MAX_DEPTH"
    using 1(3) by (auto simp: flowJsonClone.simps res_iff)
  show ?case
  proof (cases v)
    case (JArr sl)
    then obtain out vs where run: "flowArray (JArr sl) 0 FLOW_JSON_MAX_ARRAY_LENGTH = Inr vs"
        "cloneItems (Suc d) pk sl n = Inr (out, n')" "v' = JArr out"
      using 1(3) by (auto simp: flowJsonClone.simps res_iff split: prod.splits)
    have "length out = length sl \<and> clonedItems (Suc d) out \<and> cloneItems (Suc d) pk out n = Inr (out, n')"
      using 1(1) [OF JArr run(2)] 1(4) JArr by simp
    moreover have "length sl \<le> FLOW_JSON_MAX_ARRAY_LENGTH" using run(1) by (auto simp: flowArray_Inr)
    ultimately show ?thesis
      using clonedItems_array [of d out] depth by (simp add: run(3) flowJsonClone.simps [of d pk "JArr out"])
  next
    case (JObj pr ps)
    then obtain out n1 where run: "flowAssertPlainRecord (JObj pr ps) = Inr ps" "countComponent pk ps n = Inr n1"
        "cloneProps (Suc d) ps n1 = Inr (out, n')" "v' = JObj ObjectProto out"
      using 1(3) by (auto simp: flowJsonClone.simps res_iff flowAssertPlainRecord_Inr split: prod.splits)
    have uniq: "distinct (map fst ps)" "\<forall>(k, s) \<in> set ps. s \<noteq> Hole \<and> uniqueKeys (slot_value s)"
      using 1(4) JObj by auto
    have ih: "clonedProps (Suc d) out \<and> cloneProps (Suc d) out n1 = Inr (out, n')"
      using 1(2) [OF JObj run(3) uniq] by simp
    have keys: "set (map fst out) \<subseteq> set (map fst ps)" "distinct (map fst out)"
      "isString (js_get out ''type'') = isString (js_get ps ''type'')"
      using cloneProps_lookup [OF run(3) uniq(1)] by blast+
    have "''toJSON'' \<notin> set (map fst ps)" using run(1) by (auto simp: flowAssertPlainRecord_Inr)
    with keys(1) have "''toJSON'' \<notin> set (map fst out)" by blast
    moreover have "countComponent pk out n = Inr n1" using run(2) keys(3) by (simp add: countComponent_def)
    ultimately show ?thesis
      using clonedProps_object [of d out] ih keys(2) depth by (simp add: run(4) flowJsonClone.simps [of d pk "JObj ObjectProto out"])
  qed (use 1(3) in \<open>auto simp: flowJsonClone.simps res_iff\<close>)
next
  case (3 d pk s sl n)
  from 3(3) obtain v n1 out where run: "flowJsonClone d pk (slot_value s) n = Inr (v, n1)"
      "cloneItems d pk sl n1 = Inr (out, n')" "sl' = Data v # out"
    by (auto simp: res_iff split: prod.splits)
  have "flowPlain d v \<and> uniqueKeys v \<and> flowJsonClone d pk v n = Inr (v, n1)"
    "length out = length sl \<and> clonedItems d out \<and> cloneItems d pk out n1 = Inr (out, n')"
    using 3(1) [OF run(1)] 3(2) [OF run(2)] 3(4) by simp_all
  with run(3) show ?case by simp
next
  case (5 d key s ps n)
  have s: "s \<noteq> Hole" using 5(6) by simp
  with 5(4) obtain v n1 out where run: "flowKeyOk key" "flowJsonClone d key (slot_value s) n = Inr (v, n1)"
      "cloneProps d ps n1 = Inr (out, n')" "ps' = (if v = JUndef then out else (key, Data v) # out)"
    by (auto simp: res_iff split: prod.splits)
  have ih: "flowPlain d v \<and> uniqueKeys v \<and> flowJsonClone d key v n = Inr (v, n1)"
    "clonedProps d out \<and> cloneProps d out n1 = Inr (out, n')"
    using 5(2) [OF s run(2)] 5(3) [OF s run(3)] 5(5,6) by auto
  have "slot_value s = JUndef \<and> n1 = n" if "v = JUndef"
    using run(2) that by (cases "slot_value s") (auto simp: flowJsonClone.simps res_iff split: prod.splits)
  with ih run show ?case by auto
qed auto

text \<open>The components of a value under a key: the objects with a string \<open>type\<close> that stand under a key
  \<open>children\<close>, in an array of it or directly.  The count that the clone threads is theirs.\<close>

fun flowComponents :: "string \<Rightarrow> jsval \<Rightarrow> nat" where
  "flowComponents k (JArr sl) = sum_list (map (\<lambda>s. flowComponents k (slot_value s)) sl)"
| "flowComponents k (JObj pr ps) = (if k = ''children'' \<and> (\<exists>t. js_get ps ''type'' = JStr t) then 1 else 0)
     + sum_list (map (\<lambda>(k', s). flowComponents k' (slot_value s)) ps)"
| "flowComponents k v = 0"

lemma isString_iff: "isString v \<longleftrightarrow> (\<exists>t. v = JStr t)"
  by (cases v) (simp_all add: isString_def)

lemma countComponent_Inr:
  "countComponent k ps n = Inr n' \<longleftrightarrow>
     (if k = ''children'' \<and> (\<exists>t. js_get ps ''type'' = JStr t) then n' = n + 1 \<and> n + 1 \<le> 1000 else n' = n)"
  by (auto simp: countComponent_def isString_iff res_iff FLOW_JSON_MAX_COMPONENTS_def)

lemma clone_counts:
  "flowJsonClone d pk v n = Inr (v', n') \<Longrightarrow> uniqueKeys v \<Longrightarrow>
     n' = n + flowComponents pk v' \<and> (n \<le> 1000 \<longrightarrow> n' \<le> 1000)"
  "cloneItems d pk sl n = Inr (sl', n') \<Longrightarrow> \<forall>s \<in> set sl. uniqueKeys (slot_value s) \<Longrightarrow>
     n' = n + sum_list (map (\<lambda>s. flowComponents pk (slot_value s)) sl') \<and> (n \<le> 1000 \<longrightarrow> n' \<le> 1000)"
  "cloneProps d ps n = Inr (ps', n') \<Longrightarrow> distinct (map fst ps) \<Longrightarrow> \<forall>(k, s) \<in> set ps. s \<noteq> Hole \<and> uniqueKeys (slot_value s) \<Longrightarrow>
     n' = n + sum_list (map (\<lambda>(k, s). flowComponents k (slot_value s)) ps') \<and> (n \<le> 1000 \<longrightarrow> n' \<le> 1000)"
proof (induction d pk v n and d pk sl n and d ps n arbitrary: v' n' and sl' n' and ps' n'
    rule: flowJsonClone_cloneItems_cloneProps.induct)
  case (1 d pk v n)
  show ?case
  proof (cases v)
    case (JArr sl)
    then obtain out where run: "cloneItems (Suc d) pk sl n = Inr (out, n')" "v' = JArr out"
      using 1(3) by (auto simp: flowJsonClone.simps res_iff split: prod.splits)
    from 1(1) [OF JArr run(1)] 1(4) JArr run(2) show ?thesis by auto
  next
    case (JObj pr ps)
    then obtain out n1 where run: "countComponent pk ps n = Inr n1"
        "cloneProps (Suc d) ps n1 = Inr (out, n')" "v' = JObj ObjectProto out"
      using 1(3) by (auto simp: flowJsonClone.simps res_iff flowAssertPlainRecord_Inr split: prod.splits)
    have uniq: "distinct (map fst ps)" "\<forall>(k, s) \<in> set ps. s \<noteq> Hole \<and> uniqueKeys (slot_value s)"
      using 1(4) JObj by auto
    have "isString (js_get out ''type'') = isString (js_get ps ''type'')"
      using cloneProps_lookup [OF run(2) uniq(1)] by blast
    with run(1) 1(2) [OF JObj run(2) uniq] show ?thesis
      by (auto simp: run(3) countComponent_Inr isString_iff split: if_splits)
  qed (use 1(3) in \<open>auto simp: flowJsonClone.simps res_iff\<close>)
next
  case (3 d pk s sl n)
  from 3(3) obtain v n1 out where run: "flowJsonClone d pk (slot_value s) n = Inr (v, n1)"
      "cloneItems d pk sl n1 = Inr (out, n')" "sl' = Data v # out"
    by (auto simp: res_iff split: prod.splits)
  with 3(1) [OF run(1)] 3(2) [OF run(2)] 3(4) show ?case by auto
next
  case (5 d key s ps n)
  have s: "s \<noteq> Hole" using 5(6) by simp
  with 5(4) obtain v n1 out where run: "flowJsonClone d key (slot_value s) n = Inr (v, n1)"
      "cloneProps d ps n1 = Inr (out, n')" "ps' = (if v = JUndef then out else (key, Data v) # out)"
    by (auto simp: res_iff split: prod.splits)
  from 5(2) [OF s run(1)] 5(3) [OF s run(2)] 5(5,6) run(3) show ?case by auto
qed auto

subsection \<open>Accepted Flow JSON\<close>

text \<open>\<open>safeFlowValue d v\<close>: \<open>v\<close>, standing \<open>d\<close> levels below the root, is plain JSON within the limits of a
  Flow, written out: depth 16, strings of 16384 code units without control characters, arrays of 1000
  items, finite numbers, keys of 1 to 1024 code units without control characters that are not
  \<open>toJSON\<close>, \<open>__proto__\<close>, \<open>constructor\<close> or \<open>prototype\<close>, and no function, accessor, hole or undefined
  property.\<close>

definition cleanText :: "string \<Rightarrow> bool" where
  "cleanText s = (\<forall>c \<in> set s. 32 \<le> code_of c \<and> code_of c \<noteq> 127)"

fun safeFlowValue :: "nat \<Rightarrow> jsval \<Rightarrow> bool" where
  "safeFlowValue d JFun = False"
| "safeFlowValue d (JStr s) = (d \<le> 16 \<and> cleanText s \<and> length s \<le> 16384)"
| "safeFlowValue d (JNum x) = (d \<le> 16 \<and> (\<exists>q. x = Fin q))"
| "safeFlowValue d (JArr sl) = (d \<le> 16 \<and> length sl \<le> 1000
     \<and> (\<forall>s \<in> set sl. s = Data (slot_value s) \<and> safeFlowValue (Suc d) (slot_value s)))"
| "safeFlowValue d (JObj pr ps) = (d \<le> 16 \<and> pr = ObjectProto
     \<and> (\<forall>(k, s) \<in> set ps. k \<notin> {''toJSON'', ''__proto__'', ''constructor'', ''prototype''} \<and> k \<noteq> [] \<and> length k \<le> 1024
          \<and> cleanText k \<and> s = Data (slot_value s) \<and> slot_value s \<noteq> JUndef \<and> safeFlowValue (Suc d) (slot_value s)))"
| "safeFlowValue d v = (d \<le> 16)"

lemma flowHasControlChar_clean: "flowHasControlChar s \<longleftrightarrow> \<not> cleanText s"
  by (auto simp: flowHasControlChar_def cleanText_def list_ex_iff not_le)

lemma flowPlain_safe: "flowPlain d v \<Longrightarrow> safeFlowValue d v"
proof (induction d v rule: flowPlain.induct)
  case (8 d pr ps)
  have "safeFlowValue (Suc d) (slot_value s)" if "(k, s) \<in> set ps" for k s
    using 8(1) [OF that refl] 8(2) that by fastforce
  with 8(2) show ?case
    by (fastforce simp: FLOW_JSON_MAX_DEPTH_def flowKeyOk_def flowIsUnsafeObjectKey_def flowHasControlChar_clean)
qed (auto simp: FLOW_JSON_MAX_DEPTH_def FLOW_JSON_MAX_STRING_LENGTH_def FLOW_JSON_MAX_ARRAY_LENGTH_def
    flowHasControlChar_clean isFiniteNum_def split: jsnum.splits)

lemma buildFlowJson_Inr: "buildFlowJson nt v = Inr r \<longleftrightarrow> (\<exists>n ps screens. flowJsonClone 0 [] v 0 = Inr (r, n)
    \<and> flowAssertPlainRecord r = Inr ps \<and> flowArray (js_get ps ''screens'') 1 FLOW_JSON_MAX_SCREENS = Inr screens
    \<and> (\<exists>ids. mapE checkScreen screens = Inr ids) \<and> serializedBytes nt r \<le> FLOW_JSON_MAX_BYTES)"
  by (auto simp: buildFlowJson_def res_iff split: prod.splits)

text \<open>C22: What \<open>buildFlowJson\<close> accepts is safe to send: an object of plain JSON within all the limits of a
  Flow, with no function, accessor, hole, unsafe key or \<open>toJSON\<close> anywhere, at most 16 levels below the
  root, each key once, at most 1000 components, from 1 to 50 screens each an object with an identifier of
  1 to 256 code units, and a serialized text of at most 131072 bytes.\<close>

theorem built_flow_is_plain_json:
  assumes "uniqueKeys v" and "buildFlowJson nt v = Inr r"
  shows "safeFlowValue 0 r \<and> uniqueKeys r \<and> flowComponents [] r \<le> 1000
    \<and> (\<exists>json. js_stringify nt r = Some json \<and> length (utf8 json) \<le> 131072)
    \<and> (\<exists>ps screens. r = JObj ObjectProto ps \<and> js_get ps ''screens'' = JArr (map Data screens)
       \<and> 1 \<le> length screens \<and> length screens \<le> 50
       \<and> (\<forall>s \<in> set screens. \<exists>pr sps ident. s = JObj pr sps \<and> js_get sps ''id'' = JStr ident
            \<and> ident \<noteq> [] \<and> length ident \<le> 256))"
proof -
  obtain n ps screens ids where run: "flowJsonClone 0 [] v 0 = Inr (r, n)" "flowAssertPlainRecord r = Inr ps"
      "flowArray (js_get ps ''screens'') 1 FLOW_JSON_MAX_SCREENS = Inr screens" "mapE checkScreen screens = Inr ids"
      "serializedBytes nt r \<le> FLOW_JSON_MAX_BYTES"
    using assms(2) by (auto simp: buildFlowJson_Inr)
  have plain: "flowPlain 0 r" "uniqueKeys r" using clone_result(1) [OF run(1) assms(1)] by blast+
  have count: "flowComponents [] r \<le> 1000" using clone_counts(1) [OF run(1) assms(1)] by simp
  obtain pr where r: "r = JObj pr ps" using run(2) by (auto simp: flowAssertPlainRecord_Inr)
  have "\<exists>pr sps ident. s = JObj pr sps \<and> js_get sps ''id'' = JStr ident \<and> ident \<noteq> [] \<and> length ident \<le> 256"
    if s: "s \<in> set screens" for s
  proof -
    have "\<exists>i. checkScreen s = Inr i" using run(4) s
      by (induction screens arbitrary: ids) (auto simp: res_iff)
    then show ?thesis by (auto simp: checkScreen_def flowString_Inr bindE_Inr flowAssertPlainRecord_Inr)
  qed
  moreover have "js_get ps ''screens'' = JArr (map Data screens)" "1 \<le> length screens" "length screens \<le> 50"
    using run(3) by (auto simp: flowArray_Inr FLOW_JSON_MAX_SCREENS_def)
  moreover have "pr = ObjectProto" using plain(1) r by simp
  moreover have "\<exists>json. js_stringify nt r = Some json \<and> length (utf8 json) \<le> 131072"
    using run(5) by (simp add: r serializedBytes_def FLOW_JSON_MAX_BYTES_def)
  ultimately show ?thesis using flowPlain_safe [OF plain(1)] plain(2) count r by blast
qed

text \<open>Validation is idempotent: the value that the deep clone returns, cloned again, is accepted and
  comes back unchanged with the same count of components, and so does the Flow JSON that
  \<open>buildFlowJson\<close> returns.\<close>

theorem flow_validation_idempotent:
  assumes "uniqueKeys v"
  shows "(flowJsonClone d pk v n = Inr (v', n') \<longrightarrow> flowJsonClone d pk v' n = Inr (v', n'))
    \<and> (buildFlowJson nt v = Inr r \<longrightarrow> buildFlowJson nt r = Inr r)"
proof (intro conjI impI)
  assume "flowJsonClone d pk v n = Inr (v', n')"
  then show "flowJsonClone d pk v' n = Inr (v', n')" using clone_result(1) assms by blast
next
  assume "buildFlowJson nt v = Inr r"
  then obtain n where built: "flowJsonClone 0 [] v 0 = Inr (r, n)" and "buildFlowJson nt v = Inr r"
    by (auto simp: buildFlowJson_Inr)
  moreover have "flowJsonClone 0 [] r 0 = Inr (r, n)" using clone_result(1) [OF built assms] by blast
  ultimately show "buildFlowJson nt r = Inr r" unfolding buildFlowJson_def by simp
qed

text \<open>An unknown key of the caller is copied to the body under its own name, after the validated fields:
  it can replace a field that was validated under its public name.\<close>

lemma snake_case_key_skips_validation:
  "mapCreateFlowBody nt (\<lambda>_. Some ''https:'') (jsObject [(''name'', JStr ''n''), (''categories'', stringArray [''OTHER'']),
      (''endpointUri'', JStr ''https://a''), (''endpoint_uri'', JStr ''javascript:x'')])
   = Inr [(''name'', JStr ''n''), (''categories'', stringArray [''OTHER'']), (''endpoint_uri'', JStr ''javascript:x'')]"
  by (simp add: mapCreateFlowBody_def jsObject_def flowAssertPlainRecord_def jsonSlot_def flowString_def js_trim_def
      js_space_def code_of_def flowHasControlChar_def normalizeFlowCategories_def stringArray_def flowArray_def
      FLOW_MAX_CATEGORIES_def dataValue_def flowMaybeString_def optionalUrl_def flowUrl_def normalizeFlowJsonLike_def
      flowIsUnsafeObjectKey_def setOptional_def setField_def flowJsonClone.simps FLOW_JSON_MAX_STRING_LENGTH_def)

definition sampleFlow :: jsval where
  "sampleFlow = JObj NullProto [(''version'', Data (JStr ''6.0'')), (''old'', Data JUndef),
     (''screens'', Data (JArr [Data (jsObject [(''id'', JStr ''START''),
       (''children'', JArr [Data (jsObject [(''type'', JStr ''Text'')])])])]))]"

lemma sampleFlow_unique: "uniqueKeys sampleFlow"
  by (simp add: sampleFlow_def jsObject_def)

definition sampleFlowOut :: jsval where
  "sampleFlowOut = JObj ObjectProto [(''version'', Data (JStr ''6.0'')),
     (''screens'', Data (JArr [Data (jsObject [(''id'', JStr ''START''),
       (''children'', JArr [Data (jsObject [(''type'', JStr ''Text'')])])])]))]"

lemma sampleFlow_built: "buildFlowJson (\<lambda>_. ''0'') sampleFlow = Inr sampleFlowOut"
proof -
  have "flowJsonClone 0 [] sampleFlow 0 = Inr (sampleFlowOut, 1)"
    by (simp add: sampleFlow_def sampleFlowOut_def jsObject_def flowJsonClone.simps flowAssertPlainRecord_def jsonSlot_def
        countComponent_def isString_def FLOW_JSON_MAX_COMPONENTS_def flowKeyOk_def flowIsUnsafeObjectKey_def flowHasControlChar_def code_of_def flowArray_def dataValue_def
        FLOW_JSON_MAX_ARRAY_LENGTH_def FLOW_JSON_MAX_DEPTH_def FLOW_JSON_MAX_STRING_LENGTH_def)
  moreover have "js_stringify (\<lambda>_. ''0'') sampleFlowOut = Some (''{'' @ [CHR 0x22] @ ''version'' @ [CHR 0x22] @ '':'' @ [CHR 0x22] @ ''6.0'' @
     [CHR 0x22] @ '','' @ [CHR 0x22] @ ''screens'' @ [CHR 0x22] @ '':[{'' @ [CHR 0x22] @ ''id'' @ [CHR 0x22] @ '':'' @ [CHR 0x22] @ ''START'' @ [CHR 0x22] @ '','' @
     [CHR 0x22] @ ''children'' @ [CHR 0x22] @ '':[{'' @ [CHR 0x22] @ ''type'' @ [CHR 0x22] @ '':'' @ [CHR 0x22] @ ''Text'' @ [CHR 0x22] @ ''}]}]}'')"
    by (simp add: sampleFlowOut_def jsObject_def jsonQuote_def jsonEscape_def code_of_def)
  then have "serializedBytes (\<lambda>_. ''0'') sampleFlowOut \<le> FLOW_JSON_MAX_BYTES"
    by (simp add: serializedBytes_def FLOW_JSON_MAX_BYTES_def code_of_def)
  ultimately show ?thesis
    by (simp add: buildFlowJson_def sampleFlowOut_def jsObject_def flowAssertPlainRecord_def jsonSlot_def flowArray_def dataValue_def
        FLOW_JSON_MAX_SCREENS_def checkScreen_def flowString_def js_trim_def js_space_def code_of_def flowHasControlChar_def)
qed

lemma built_flow_is_plain_json_witness:
  "safeFlowValue 0 sampleFlowOut \<and> flowComponents [] sampleFlowOut \<le> 1000 \<and> 0 < flowComponents [] sampleFlowOut"
  using built_flow_is_plain_json [OF sampleFlow_unique sampleFlow_built]
  by (auto simp: sampleFlowOut_def jsObject_def)

lemma flow_validation_idempotent_witness: "buildFlowJson (\<lambda>_. ''0'') sampleFlowOut = Inr sampleFlowOut"
  using flow_validation_idempotent [OF sampleFlow_unique, of 0 "[]" 0 JNull 0 "\<lambda>_. ''0''" sampleFlowOut] sampleFlow_built
  by blast

end
