(* ===== verification/Flow_Crypto.thy ===== *)
theory Flow_Crypto
  imports Crypto_Provider Flow_Json
begin

section \<open>Encrypted Flow endpoints\<close>

text \<open>
  \<open>packages/graph/src/endpoints/flows/dataChannel.ts\<close> and \<open>flowMediaUpload.ts\<close>: the endpoint that
  decrypts a Flow request, runs a handler and encrypts its answer, and the decryption of uploaded
  media.  The provider is a parameter; where a law of it matters, the theorems use the one proved for
  both adapters.  Text decoding and \<open>JSON.parse\<close> are parameters too.
\<close>

unbundle bit_operations_syntax

subsection \<open>Errors and limits of the data channel\<close>

definition FLOW_DATA_CHANNEL_MAX_BYTES :: nat where "FLOW_DATA_CHANNEL_MAX_BYTES = 131072"

definition FLOW_REQUEST_ACTIONS :: "string list" where
  "FLOW_REQUEST_ACTIONS = [''INIT'', ''BACK'', ''data_exchange'', ''navigate'', ''ping'']"

datatype flow_exn =
    FlowRequestDecryptionError
  | FlowTokenNoLongerValidError string
  | FlowSignatureError
  | FlowCryptoUnavailableError string
  | OtherFlowError exn

definition decryptionFailure :: nat where "decryptionFailure = 421"

definition flowTokenInvalid :: nat where "flowTokenInvalid = 427"

definition signatureFailureStatus :: nat where "signatureFailureStatus = 432"

definition serverError :: nat where "serverError = 500"

record flow_env =
  fe_decodeUtf8 :: "byte list \<Rightarrow> string option"
  fe_parseJson :: "string \<Rightarrow> jsval option"
  fe_numberText :: "rat \<Rightarrow> string"

subsection \<open>Base64 fields\<close>

definition notDecryptable :: "flow_exn + 'a" where
  "notDecryptable = Inl FlowRequestDecryptionError"

definition decryptable :: "bool \<Rightarrow> flow_exn + unit" where
  "decryptable ok = guardE ok FlowRequestDecryptionError"

definition decodeBase64Field :: "jsval \<Rightarrow> flow_exn + byte list" where
  "decodeBase64Field v = (case v of
     JStr s \<Rightarrow>
       bindE (decryptable (s \<noteq> [] \<and> js_trim s \<noteq> [])) (\<lambda>_.
       bindE (decryptable (length s \<le> FLOW_DATA_CHANNEL_MAX_BYTES * 2)) (\<lambda>_.
       bindE (optionE FlowRequestDecryptionError (atob s)) (\<lambda>binary.
       bindE (decryptable (length binary \<noteq> 0 \<and> length binary \<le> FLOW_DATA_CHANNEL_MAX_BYTES)) (\<lambda>_.
       Inr (map byte_of_char binary)))))
   | _ \<Rightarrow> notDecryptable)"

definition encodeBase64 :: "byte list \<Rightarrow> string" where
  "encodeBase64 bytes = btoa (map char_of_byte bytes)"

subsection \<open>The request\<close>

definition nullish :: "jsval \<Rightarrow> jsval \<Rightarrow> jsval" where
  "nullish a b = (if a = JUndef \<or> a = JNull then b else a)"

record envelope =
  en_encryptedFlowData :: jsval
  en_encryptedAesKey :: jsval
  en_initialVector :: jsval

definition readEnvelope :: "jsval \<Rightarrow> flow_exn + envelope" where
  "readEnvelope body = (case flowIsPlainObject body of
     None \<Rightarrow> notDecryptable
   | Some r \<Rightarrow>
       (let flowData = nullish (js_get r ''encrypted_flow_data'') (js_get r ''encryptedFlowData'');
            aesKey = nullish (js_get r ''encrypted_aes_key'') (js_get r ''encryptedAesKey'');
            vector = nullish (js_get r ''initial_vector'') (js_get r ''initialVector'') in
        bindE (decryptable (isString flowData \<and> isString aesKey \<and> isString vector)) (\<lambda>_.
        Inr \<lparr> en_encryptedFlowData = flowData, en_encryptedAesKey = aesKey, en_initialVector = vector \<rparr>)))"

record flow_request =
  fr_version :: string
  fr_action :: string
  fr_flowToken :: "string option"
  fr_screen :: "string option"
  fr_data :: "(string \<times> slot) list option"

text \<open>The reviver refuses an unsafe key anywhere in the parsed value.\<close>

fun hasUnsafeKey :: "jsval \<Rightarrow> bool" where
  "hasUnsafeKey (JArr sl) = list_ex (\<lambda>s. hasUnsafeKey (slot_value s)) sl"
| "hasUnsafeKey (JObj pr ps) = list_ex (\<lambda>(k, s). flowIsUnsafeObjectKey k \<or> hasUnsafeKey (slot_value s)) ps"
| "hasUnsafeKey v = False"

definition optionalText :: "jsval \<Rightarrow> flow_exn + string option" where
  "optionalText v = (case v of JUndef \<Rightarrow> Inr None | JStr s \<Rightarrow> Inr (Some s) | _ \<Rightarrow> notDecryptable)"

definition requestData :: "jsval \<Rightarrow> flow_exn + (string \<times> slot) list option" where
  "requestData v = (if v = JUndef then Inr None else (case flowIsPlainObject v of
     None \<Rightarrow> notDecryptable
   | Some ps \<Rightarrow> Inr (if length ps > 0 then Some ps else None)))"

definition readRequest :: "(string \<times> slot) list \<Rightarrow> flow_exn + flow_request" where
  "readRequest r =
     bindE (case js_get r ''version'' of JStr s \<Rightarrow> if length s = 0 then notDecryptable else Inr s
        | _ \<Rightarrow> notDecryptable) (\<lambda>version.
     bindE (case js_get r ''action'' of JStr s \<Rightarrow> if s \<in> set FLOW_REQUEST_ACTIONS then Inr s else notDecryptable
        | _ \<Rightarrow> notDecryptable) (\<lambda>action.
     bindE (optionalText (nullish (js_get r ''flow_token'') (js_get r ''flowToken''))) (\<lambda>flowToken.
     bindE (if js_get r ''screen'' = JStr [] then Inr None else optionalText (js_get r ''screen'')) (\<lambda>scr.
     bindE (requestData (js_get r ''data'')) (\<lambda>data.
     Inr \<lparr> fr_version = version, fr_action = action, fr_flowToken = flowToken, fr_screen = scr, fr_data = data \<rparr>)))))"

definition parseDecryptedRequest :: "flow_env \<Rightarrow> byte list \<Rightarrow> flow_exn + flow_request" where
  "parseDecryptedRequest env plaintext =
     bindE (optionE FlowRequestDecryptionError (fe_decodeUtf8 env plaintext)) (\<lambda>txt.
     bindE (decryptable (length txt \<noteq> 0)) (\<lambda>_.
     bindE (optionE FlowRequestDecryptionError (fe_parseJson env txt)) (\<lambda>parsed.
     bindE (decryptable (\<not> hasUnsafeKey parsed)) (\<lambda>_.
     case flowIsPlainObject parsed of
       None \<Rightarrow> notDecryptable
     | Some r \<Rightarrow> readRequest r))))"

definition asDecryptionError :: "exn + 'a \<Rightarrow> flow_exn + 'a" where
  "asDecryptionError m = (case m of Inl _ \<Rightarrow> notDecryptable | Inr a \<Rightarrow> Inr a)"

definition decryptRequest ::
  "flow_env \<Rightarrow> 'jwk provider \<Rightarrow> jsval \<Rightarrow> 'jwk pkey \<Rightarrow> flow_exn + flow_request \<times> byte list \<times> byte list" where
  "decryptRequest env crypto body privateKey =
     (case rsaOaepDecrypt crypto of
        None \<Rightarrow> Inl (FlowCryptoUnavailableError ''rsaOaepDecrypt'')
      | Some rsa \<Rightarrow> (case aesGcmDecrypt crypto of
          None \<Rightarrow> Inl (FlowCryptoUnavailableError ''aesGcmDecrypt'')
        | Some gcm \<Rightarrow>
            bindE (readEnvelope body) (\<lambda>e.
            bindE (decodeBase64Field (en_encryptedFlowData e)) (\<lambda>encryptedFlowData.
            bindE (decodeBase64Field (en_encryptedAesKey e)) (\<lambda>encryptedAesKey.
            bindE (decodeBase64Field (en_initialVector e)) (\<lambda>iv.
            bindE (asDecryptionError (rsa privateKey (BytesArg encryptedAesKey))) (\<lambda>aesKey.
            bindE (asDecryptionError (gcm (BytesArg aesKey) (BytesArg iv) (BytesArg encryptedFlowData) None)) (\<lambda>plaintext.
            bindE (parseDecryptedRequest env plaintext) (\<lambda>request.
            Inr (request, aesKey, iv))))))))))"

subsection \<open>The response\<close>

definition flipIv :: "byte list \<Rightarrow> byte list" where
  "flipIv iv = map (\<lambda>b. b XOR 0xFF) iv"

definition payloadBytes :: "flow_env \<Rightarrow> jsval \<Rightarrow> byte list" where
  "payloadBytes env v = (case js_stringify (fe_numberText env) v of None \<Rightarrow> [] | Some t \<Rightarrow> utf8 t)"

definition encryptResponse ::
  "flow_env \<Rightarrow> 'jwk provider \<Rightarrow> jsval \<Rightarrow> byte list \<Rightarrow> byte list \<Rightarrow> flow_exn + string" where
  "encryptResponse env crypto response aesKey iv = (case aesGcmEncrypt crypto of
     None \<Rightarrow> Inl (FlowCryptoUnavailableError ''aesGcmEncrypt'')
   | Some enc \<Rightarrow> (case enc (BytesArg aesKey) (BytesArg (flipIv iv)) (BytesArg (payloadBytes env response)) None of
       Inl e \<Rightarrow> Inl (OtherFlowError e)
     | Inr (ciphertext, authTag) \<Rightarrow> Inr (encodeBase64 (concatBytes ciphertext authTag))))"

definition hasOwnKey :: "(string \<times> slot) list \<Rightarrow> string \<Rightarrow> bool" where
  "hasOwnKey ps k = list_ex (\<lambda>(k', _). k' = k) ps"

definition flowRequestHasError :: "flow_request \<Rightarrow> bool" where
  "flowRequestHasError req = (case fr_data req of
     None \<Rightarrow> False
   | Some ps \<Rightarrow> hasOwnKey ps ''error'' \<or> hasOwnKey ps ''error_message'' \<or> hasOwnKey ps ''error_key'')"

definition buildFlowPingResponse :: jsval where
  "buildFlowPingResponse = jsObject [(''data'', jsObject [(''status'', JStr ''active'')])]"

definition buildFlowErrorAckResponse :: "flow_request \<Rightarrow> jsval" where
  "buildFlowErrorAckResponse req = jsObject [(''data'', jsObject [(''acknowledged'', JBool True)]),
     (''version'', JStr (fr_version req))]"

record flow_result =
  fl_statusCode :: nat
  fl_body :: string
  fl_encrypted :: bool

definition plainResult :: "nat \<Rightarrow> string \<Rightarrow> flow_result" where
  "plainResult status txt = \<lparr> fl_statusCode = status, fl_body = txt, fl_encrypted = False \<rparr>"

text \<open>The routing of a decrypted request; \<open>handler\<close> is the user's callback.\<close>

definition routePayload ::
  "(flow_request \<Rightarrow> flow_exn + jsval) \<Rightarrow> bool \<Rightarrow> flow_request \<Rightarrow> flow_exn + jsval" where
  "routePayload handler acknowledgeErrors req =
     (if fr_action req = ''ping'' then Inr buildFlowPingResponse
      else if acknowledgeErrors \<and> flowRequestHasError req then Inr (buildFlowErrorAckResponse req)
      else handler req)"

definition payloadFailure :: "flow_env \<Rightarrow> flow_exn \<Rightarrow> flow_result" where
  "payloadFailure env err = (case err of
     FlowTokenNoLongerValidError msg \<Rightarrow> plainResult flowTokenInvalid
       (case js_stringify (fe_numberText env) (jsObject [(''error_msg'', JStr msg)]) of None \<Rightarrow> [] | Some t \<Rightarrow> t)
   | FlowSignatureError \<Rightarrow> plainResult signatureFailureStatus ''Signature authentication failed''
   | _ \<Rightarrow> plainResult serverError ''Internal Server Error'')"

definition decryptFailure :: "flow_exn \<Rightarrow> flow_result" where
  "decryptFailure err = (case err of
     FlowRequestDecryptionError \<Rightarrow> plainResult decryptionFailure ''Decryption failed''
   | FlowSignatureError \<Rightarrow> plainResult signatureFailureStatus ''Signature authentication failed''
   | _ \<Rightarrow> plainResult serverError ''Internal Server Error'')"

definition handleFlowRequest ::
  "flow_env \<Rightarrow> 'jwk provider \<Rightarrow> jsval \<Rightarrow> 'jwk pkey \<Rightarrow> (flow_request \<Rightarrow> flow_exn + jsval) \<Rightarrow> bool \<Rightarrow> flow_result" where
  "handleFlowRequest env crypto rawBody privateKey handler acknowledgeErrors =
     (case decryptRequest env crypto rawBody privateKey of
        Inl err \<Rightarrow> decryptFailure err
      | Inr (request, aesKey, iv) \<Rightarrow> (case routePayload handler acknowledgeErrors request of
          Inl err \<Rightarrow> payloadFailure env err
        | Inr payload \<Rightarrow> (case encryptResponse env crypto payload aesKey iv of
            Inl _ \<Rightarrow> plainResult serverError ''Internal Server Error''
          | Inr body \<Rightarrow> \<lparr> fl_statusCode = 200, fl_body = body, fl_encrypted = True \<rparr>)))"

subsection \<open>Base64 fields round trip\<close>

lemma js_trim_nonblank: "x \<in> set s \<Longrightarrow> \<not> js_space x \<Longrightarrow> js_trim s \<noteq> []"
proof -
  assume x: "x \<in> set s" "\<not> js_space x"
  then have "dropWhile js_space s \<noteq> []" by (auto simp: dropWhile_eq_Nil_conv)
  then have "hd (dropWhile js_space s) \<in> set (dropWhile js_space s)" "\<not> js_space (hd (dropWhile js_space s))"
    using hd_dropWhile [of js_space s] by auto
  then show ?thesis by (auto simp: js_trim_def dropWhile_eq_Nil_conv)
qed

lemma b64_not_space: "b64Value c \<noteq> None \<Longrightarrow> \<not> js_space c"
  by (auto simp: b64Value_def js_space_def Let_def split: if_splits)

lemma length_btoa: "length (btoa s) \<le> 2 * length s + 4"
proof -
  have "length (b64Digits xs) + length (b64Pad (length xs)) \<le> 2 * length xs + 4" for xs
    by (induction xs rule: b64Digits.induct) auto
  from this [of "map code_of s"] show ?thesis by (simp add: btoa_def)
qed

lemma length_btoa_third: "3 * length (btoa s) \<le> 4 * length s + 8"
proof -
  have "3 * (length (b64Digits xs) + length (b64Pad (length xs))) \<le> 4 * length xs + 8" for xs
    by (induction xs rule: b64Digits.induct) auto
  from this [of "map code_of s"] show ?thesis by (simp add: btoa_def)
qed

lemma btoa_nonblank: "s \<noteq> [] \<Longrightarrow> btoa s \<noteq> [] \<and> js_trim (btoa s) \<noteq> []"
proof -
  assume "s \<noteq> []"
  then obtain a r where s: "s = a # r" by (cases s) auto
  have "\<exists>ds. b64Digits (map code_of s) = code_of a div 4 # ds"
    unfolding s by (cases "map code_of r" rule: b64Digits.cases; cases r; cases "tl r") auto
  then obtain ds where ds: "b64Digits (map code_of s) = code_of a div 4 # ds" by blast
  have "code_of a div 4 < 64" using code_of_less [of a] by linarith
  then have "\<not> js_space (b64Char (code_of a div 4))" using b64_not_space b64Value_Char(1) by fastforce
  moreover have "b64Char (code_of a div 4) \<in> set (btoa s)" by (simp add: btoa_def ds)
  ultimately show ?thesis using js_trim_nonblank by fastforce
qed

lemma decodeBase64Field_encode:
  "bs \<noteq> [] \<Longrightarrow> length bs \<le> FLOW_DATA_CHANNEL_MAX_BYTES \<Longrightarrow> decodeBase64Field (JStr (encodeBase64 bs)) = Inr bs"
  using btoa_nonblank [of "map char_of_byte bs"] length_btoa_third [of "map char_of_byte bs"]
  by (simp add: decodeBase64Field_def encodeBase64_def decryptable_def atob_btoa FLOW_DATA_CHANNEL_MAX_BYTES_def
      comp_def)

subsection \<open>An exchange with a client\<close>

text \<open>The request as Meta sends it, given its sealed payload, the wrapped key and the IV.\<close>

definition wireRequest :: "byte list \<Rightarrow> byte list \<Rightarrow> byte list \<Rightarrow> jsval" where
  "wireRequest sealed wrappedKey iv = jsObject [(''encrypted_flow_data'', JStr (encodeBase64 sealed)),
     (''encrypted_aes_key'', JStr (encodeBase64 wrappedKey)), (''initial_vector'', JStr (encodeBase64 iv))]"

definition withinLimit :: "byte list \<Rightarrow> bool" where
  "withinLimit bs \<longleftrightarrow> bs \<noteq> [] \<and> length bs \<le> FLOW_DATA_CHANNEL_MAX_BYTES"

lemma readEnvelope_wire: "readEnvelope (wireRequest sealed wrappedKey iv) = Inr \<lparr>
    en_encryptedFlowData = JStr (encodeBase64 sealed), en_encryptedAesKey = JStr (encodeBase64 wrappedKey),
    en_initialVector = JStr (encodeBase64 iv) \<rparr>"
  by (simp add: readEnvelope_def wireRequest_def jsObject_def flowIsPlainObject_def nullish_def decryptable_def
      isString_def)

lemma decryptRequest_wire:
  assumes "runtimeSeals seal rt" "tryAdapter rt ad = Inr p" and "rsaOaepDecrypt p = Some rsa"
    and "rsa sk (BytesArg wrappedKey) = Inr k" and "seal k iv None m = (c, t)"
    and "length k \<in> {16, 32}" "iv \<noteq> []" "length iv \<le> MAX_GCM_IV_BYTES"
    and "withinLimit (c @ t)" "withinLimit wrappedKey"
    and "aesGcmDecrypt p = Some dec"
  shows "decryptRequest env p (wireRequest (c @ t) wrappedKey iv) sk
    = bindE (parseDecryptedRequest env m) (\<lambda>request. Inr (request, k, iv))"
proof -
  have "dec (BytesArg k) (BytesArg iv) (BytesArg (c @ t)) None = Inr m"
    using adapter_decrypts [of seal rt ad p dec k iv None m c t None] assms by simp
  moreover have "length iv \<le> FLOW_DATA_CHANNEL_MAX_BYTES"
    using assms(8) by (simp add: MAX_GCM_IV_BYTES_def FLOW_DATA_CHANNEL_MAX_BYTES_def)
  ultimately show ?thesis
    using assms unfolding withinLimit_def
    by (simp add: decryptRequest_def readEnvelope_wire decodeBase64Field_encode asDecryptionError_def)
qed

lemma adapter_capabilities:
  assumes "tryAdapter rt ad = Inr p"
  shows "\<exists>dec enc. aesGcmDecrypt p = Some dec \<and> aesGcmEncrypt p = Some enc"
  using assms by (cases ad) (auto simp: tryAdapter_def createNode_Inr createWeb_Inr)

lemma map_byte_of_char_encode: "map_option (map byte_of_char) (atob (encodeBase64 bs)) = Some bs"
  by (simp add: encodeBase64_def atob_btoa comp_def)

lemma encrypted_run:
  "fl_encrypted (handleFlowRequest env p body sk handler ack) \<Longrightarrow> \<exists>request k iv payload b.
     decryptRequest env p body sk = Inr (request, k, iv) \<and> routePayload handler ack request = Inr payload
     \<and> encryptResponse env p payload k iv = Inr b
     \<and> handleFlowRequest env p body sk handler ack = \<lparr> fl_statusCode = 200, fl_body = b, fl_encrypted = True \<rparr>"
  by (auto simp: handleFlowRequest_def decryptFailure_def payloadFailure_def plainResult_def
      split: sum.splits flow_exn.splits)

text \<open>The IV of the answer has every bit of the request's flipped.\<close>

lemma flipIv_not: "flipIv iv = map (\<lambda>b. NOT b) iv"
proof -
  have "(0xFF :: byte) = - 1" by simp
  then show ?thesis unfolding flipIv_def by (simp only: bit.xor_one_right)
qed

text \<open>C20: An encrypted Flow exchange round trips.  When the client seals a payload under a key and IV, wraps
  the key so that the endpoint's private key unwraps it, and posts the three base64 fields, an encrypted
  answer of the endpoint is the sealing, under the same key and the IV with every bit flipped, of the JSON
  text of exactly the payload that the routing chose for the request inside; the client decrypts it with
  either adapter.\<close>

theorem flow_exchange_roundtrip:
  assumes "runtimeSeals seal rt" and "tryAdapter rt ad = Inr p" and "tryAdapter rt ad' = Inr q"
    and "rsaOaepDecrypt p = Some rsa" and "rsa sk (BytesArg wrappedKey) = Inr k"
    and "seal k iv None m = (c, t)" and "length k \<in> {16, 32}" "iv \<noteq> []" "length iv \<le> MAX_GCM_IV_BYTES"
    and "withinLimit (c @ t)" and "withinLimit wrappedKey"
    and "res = handleFlowRequest env p (wireRequest (c @ t) wrappedKey iv) sk handler ack"
    and "fl_encrypted res"
  shows "\<exists>request payload answer dec. parseDecryptedRequest env m = Inr request
    \<and> routePayload handler ack request = Inr payload
    \<and> fl_statusCode res = 200 \<and> map_option (map byte_of_char) (atob (fl_body res)) = Some answer
    \<and> aesGcmDecrypt q = Some dec
    \<and> dec (BytesArg k) (BytesArg (map (\<lambda>b. NOT b) iv)) (BytesArg answer) None
        = Inr (case js_stringify (fe_numberText env) payload of None \<Rightarrow> [] | Some json \<Rightarrow> utf8 json)"
proof -
  obtain dp enc dq where caps: "aesGcmDecrypt p = Some dp" "aesGcmEncrypt p = Some enc" "aesGcmDecrypt q = Some dq"
    using adapter_capabilities assms(2,3) by meson
  have dec: "decryptRequest env p (wireRequest (c @ t) wrappedKey iv) sk
      = bindE (parseDecryptedRequest env m) (\<lambda>request. Inr (request, k, iv))"
    using decryptRequest_wire [OF assms(1,2,4-11) caps(1)] .
  obtain request payload b where run: "parseDecryptedRequest env m = Inr request"
      "routePayload handler ack request = Inr payload" and b: "encryptResponse env p payload k iv = Inr b"
    and res: "res = \<lparr> fl_statusCode = 200, fl_body = b, fl_encrypted = True \<rparr>"
    using encrypted_run [of env p "wireRequest (c @ t) wrappedKey iv" sk handler ack] assms(12,13)
    by (auto simp: dec bindE_Inr)
  then have body: "encryptResponse env p payload k iv = Inr (fl_body res)" "fl_statusCode res = 200" by simp_all
  obtain c' t' where enc: "enc (BytesArg k) (BytesArg (flipIv iv)) (BytesArg (payloadBytes env payload)) None = Inr (c', t')"
    and b': "fl_body res = encodeBase64 (c' @ t')"
    using caps(2) body(1) by (auto simp: encryptResponse_def concatBytes_def split: sum.splits)
  obtain k' i' m' a' where sealed: "BytesArg k = BytesArg k'" "BytesArg (flipIv iv) = BytesArg i'"
      "BytesArg (payloadBytes env payload) = BytesArg m'" "assertOptionalAad None = Inr a'"
      "length k' \<in> {16, 32}" "0 < length i'" "length i' \<le> MAX_GCM_IV_BYTES" "seal k' i' (nonEmptyAad a') m' = (c', t')"
    using adapter_encrypts [OF assms(1,2) caps(2) enc] by blast
  have "dq (BytesArg k) (BytesArg (flipIv iv)) (BytesArg (c' @ t')) None = Inr (payloadBytes env payload)"
    using adapter_decrypts [OF assms(1,3) caps(3) sealed(8,5-7,4)] sealed(1-3) by simp
  with run body(2) caps(3) b' map_byte_of_char_encode show ?thesis
    unfolding flipIv_not payloadBytes_def by metis
qed

text \<open>The Flow endpoint maps every outcome to a status and never throws: the status is 200, 421, 427,
  432 or 500, the answer is encrypted exactly when it is 200, and the status is 421 exactly when the request could not be
  decrypted.\<close>

theorem flow_endpoint_statuses:
  "fl_statusCode (handleFlowRequest env p body sk handler ack) \<in> {200, 421, 427, 432, 500}
   \<and> (fl_encrypted (handleFlowRequest env p body sk handler ack)
        \<longleftrightarrow> fl_statusCode (handleFlowRequest env p body sk handler ack) = 200)
   \<and> (fl_statusCode (handleFlowRequest env p body sk handler ack) = 421
        \<longleftrightarrow> decryptRequest env p body sk = Inl FlowRequestDecryptionError)"
  by (auto simp: handleFlowRequest_def decryptFailure_def payloadFailure_def plainResult_def
      decryptionFailure_def flowTokenInvalid_def signatureFailureStatus_def serverError_def
      split: sum.split flow_exn.split prod.split)

definition sampleFlowEnv :: flow_env where
  "sampleFlowEnv = \<lparr> fe_decodeUtf8 = (\<lambda>bs. Some (map char_of_byte bs)),
     fe_parseJson = (\<lambda>_. Some (jsObject [(''version'', JStr ''3.0''), (''action'', JStr ''ping'')])),
     fe_numberText = (\<lambda>_. ''0'') \<rparr>"

lemma samplePlaintext_parses: "parseDecryptedRequest sampleFlowEnv [123, 125] = Inr \<lparr> fr_version = ''3.0'',
    fr_action = ''ping'', fr_flowToken = None, fr_screen = None, fr_data = None \<rparr>"
  by (simp add: parseDecryptedRequest_def sampleFlowEnv_def decryptable_def jsObject_def flowIsUnsafeObjectKey_def
      flowIsPlainObject_def readRequest_def FLOW_REQUEST_ACTIONS_def optionalText_def nullish_def requestData_def)

lemma flow_exchange_roundtrip_witness:
  "\<exists>answer. webAesGcmDecrypt sampleWeb (BytesArg (replicate 32 1)) (BytesArg (replicate 12 (NOT 2)))
     (BytesArg answer) None = Inr (case js_stringify (fe_numberText sampleFlowEnv) buildFlowPingResponse of
        None \<Rightarrow> [] | Some json \<Rightarrow> utf8 json)"
proof -
  obtain p where p: "tryAdapter sampleRuntime NodeAdapter = Inr p" "rsaOaepDecrypt p = Some (nodeRsaOaepDecrypt sampleNode)"
      "aesGcmEncrypt p = Some (nodeAesGcmEncrypt sampleNode)" "aesGcmDecrypt p = Some (nodeAesGcmDecrypt sampleNode)"
    by (simp add: tryAdapter_def sampleRuntime_def createNodeCryptoProvider_def sampleNode_def)
  obtain q where q: "tryAdapter sampleRuntime WebAdapter = Inr q" "aesGcmDecrypt q = Some (webAesGcmDecrypt sampleWeb)"
    by (simp add: tryAdapter_def sampleRuntime_def createWebCryptoProvider_def sampleWeb_def)
  let ?k = "replicate 32 (1 :: byte)" and ?iv = "replicate 12 (2 :: byte)"
  have rsa: "nodeRsaOaepDecrypt sampleNode (JwkKey ()) (BytesArg ?k) = Inr ?k"
    by (simp add: nodeRsaOaepDecrypt_def toPrivateKeyObject_def sampleNode_def)
  have seal: "sampleSeal ?k ?iv None [123, 125] = ([125, 123], replicate 16 7)" by (simp add: sampleSeal_def)
  have sizes: "length ?k \<in> {16, 32}" "?iv \<noteq> []" "length ?iv \<le> MAX_GCM_IV_BYTES"
    "withinLimit ([125, 123] @ replicate 16 7)" "withinLimit ?k"
    by (simp_all add: MAX_GCM_IV_BYTES_def withinLimit_def FLOW_DATA_CHANNEL_MAX_BYTES_def)
  let ?res = "handleFlowRequest sampleFlowEnv p (wireRequest ([125, 123] @ replicate 16 7) ?k ?iv) (JwkKey ()) (\<lambda>_. Inr JNull) False"
  have "encryptResponse sampleFlowEnv p buildFlowPingResponse ?k ?iv
      = Inr (encodeBase64 (rev (payloadBytes sampleFlowEnv buildFlowPingResponse) @ replicate 16 7))"
    by (simp add: encryptResponse_def p(3) nodeAesGcmEncrypt_def sampleNode_def flipIv_def MAX_GCM_IV_BYTES_def concatBytes_def)
  moreover have "decryptRequest sampleFlowEnv p (wireRequest ([125, 123] @ replicate 16 7) ?k ?iv) (JwkKey ())
      = Inr (\<lparr> fr_version = ''3.0'', fr_action = ''ping'', fr_flowToken = None, fr_screen = None, fr_data = None \<rparr>, ?k, ?iv)"
    using decryptRequest_wire [OF sampleRuntime_seals p(1,2) rsa seal sizes p(4), of sampleFlowEnv] samplePlaintext_parses by simp
  ultimately have "fl_encrypted ?res" by (simp add: handleFlowRequest_def routePayload_def)
  from flow_exchange_roundtrip [OF sampleRuntime_seals p(1) q(1) p(2) rsa seal sizes refl this] q(2)
  obtain request payload answer where "parseDecryptedRequest sampleFlowEnv [123, 125] = Inr request"
      "routePayload (\<lambda>_. Inr JNull) False request = Inr payload"
      "webAesGcmDecrypt sampleWeb (BytesArg ?k) (BytesArg (map (\<lambda>b. NOT b) ?iv)) (BytesArg answer) None
        = Inr (case js_stringify (fe_numberText sampleFlowEnv) payload of None \<Rightarrow> [] | Some json \<Rightarrow> utf8 json)"
    by auto
  moreover have "map (\<lambda>b. NOT b) ?iv = replicate 12 (NOT 2)" by simp
  ultimately show ?thesis unfolding samplePlaintext_parses by (auto simp: routePayload_def)
qed

subsection \<open>Uploaded media\<close>

definition FLOW_MEDIA_MAX_BYTES :: nat where "FLOW_MEDIA_MAX_BYTES = 26214400"

definition FLOW_MEDIA_MAX_BASE64_FIELD_LENGTH :: nat where "FLOW_MEDIA_MAX_BASE64_FIELD_LENGTH = 256"

definition FLOW_MEDIA_HMAC_TAG_LENGTH :: nat where "FLOW_MEDIA_HMAC_TAG_LENGTH = 10"

definition FLOW_MEDIA_AES_BLOCK_SIZE :: nat where "FLOW_MEDIA_AES_BLOCK_SIZE = 16"

datatype media_exn = FlowMediaDecryptionError | FlowMediaCryptoUnavailableError string | OtherMediaError exn

definition mediaOk :: "bool \<Rightarrow> media_exn + unit" where
  "mediaOk ok = guardE ok FlowMediaDecryptionError"

definition decodeMediaField :: "jsval \<Rightarrow> media_exn + byte list" where
  "decodeMediaField v = (case v of
     JStr s \<Rightarrow>
       bindE (mediaOk (s \<noteq> [] \<and> js_trim s \<noteq> [])) (\<lambda>_.
       bindE (mediaOk (length s \<le> FLOW_MEDIA_MAX_BASE64_FIELD_LENGTH)) (\<lambda>_.
       bindE (optionE FlowMediaDecryptionError (atob s)) (\<lambda>binary.
       bindE (mediaOk (length binary \<noteq> 0)) (\<lambda>_.
       Inr (map byte_of_char binary)))))
   | _ \<Rightarrow> Inl FlowMediaDecryptionError)"

definition metadataField :: "(string \<times> slot) list \<Rightarrow> string \<Rightarrow> media_exn + string" where
  "metadataField r k = (case js_get r k of
     JStr s \<Rightarrow> bindE (mediaOk (length s \<noteq> 0)) (\<lambda>_. Inr s)
   | _ \<Rightarrow> Inl FlowMediaDecryptionError)"

record media_metadata =
  mm_iv :: string
  mm_encryption_key :: string
  mm_hmac_key :: string
  mm_encrypted_hash :: string
  mm_plaintext_hash :: string

definition assertMetadataShape :: "jsval \<Rightarrow> media_exn + media_metadata" where
  "assertMetadataShape metadata = (case flowIsPlainObject metadata of
     None \<Rightarrow> Inl FlowMediaDecryptionError
   | Some r \<Rightarrow>
       bindE (metadataField r ''iv'') (\<lambda>iv.
       bindE (metadataField r ''encryption_key'') (\<lambda>encKey.
       bindE (metadataField r ''hmac_key'') (\<lambda>hmacKey.
       bindE (metadataField r ''encrypted_hash'') (\<lambda>encHash.
       bindE (metadataField r ''plaintext_hash'') (\<lambda>ptHash.
       Inr \<lparr> mm_iv = iv, mm_encryption_key = encKey, mm_hmac_key = hmacKey,
             mm_encrypted_hash = encHash, mm_plaintext_hash = ptHash \<rparr>))))))"

definition asMediaError :: "exn + 'a \<Rightarrow> media_exn + 'a" where
  "asMediaError m = (case m of Inl _ \<Rightarrow> Inl FlowMediaDecryptionError | Inr a \<Rightarrow> Inr a)"

text \<open>A call outside every \<open>try\<close>: its exception escapes as it is.\<close>

definition unguarded :: "exn + 'a \<Rightarrow> media_exn + 'a" where
  "unguarded m = (case m of Inl e \<Rightarrow> Inl (OtherMediaError e) | Inr a \<Rightarrow> Inr a)"

definition checkEqual :: "'jwk provider \<Rightarrow> byte list \<Rightarrow> byte list \<Rightarrow> media_exn + unit" where
  "checkEqual crypto a b =
     bindE (unguarded (timingSafeEqual crypto (BytesArg a) (BytesArg b))) (\<lambda>same. mediaOk same)"

definition capability :: "string \<Rightarrow> 'a option \<Rightarrow> media_exn + 'a" where
  "capability name f = optionE (FlowMediaCryptoUnavailableError name) f"

definition decryptFlowMedia :: "'jwk provider \<Rightarrow> arg \<Rightarrow> jsval \<Rightarrow> media_exn + byte list" where
  "decryptFlowMedia crypto file metadata =
     bindE (capability ''sha256'' (sha256 crypto)) (\<lambda>sha.
     bindE (capability ''aesCbcDecrypt'' (aesCbcDecrypt crypto)) (\<lambda>cbc.
     bindE (case file of BytesArg bs \<Rightarrow> Inr bs | _ \<Rightarrow> Inl FlowMediaDecryptionError) (\<lambda>cdnFile.
     bindE (mediaOk (length cdnFile \<noteq> 0)) (\<lambda>_.
     bindE (mediaOk (length cdnFile \<le> FLOW_MEDIA_MAX_BYTES)) (\<lambda>_.
     bindE (mediaOk (\<not> length cdnFile < FLOW_MEDIA_AES_BLOCK_SIZE + FLOW_MEDIA_HMAC_TAG_LENGTH)) (\<lambda>_.
     bindE (assertMetadataShape metadata) (\<lambda>mm.
     bindE (decodeMediaField (JStr (mm_iv mm))) (\<lambda>iv.
     bindE (decodeMediaField (JStr (mm_encryption_key mm))) (\<lambda>encryptionKey.
     bindE (decodeMediaField (JStr (mm_hmac_key mm))) (\<lambda>hmacKey.
     bindE (mediaOk (length iv = FLOW_MEDIA_AES_BLOCK_SIZE)) (\<lambda>_.
     bindE (mediaOk (length encryptionKey = 32)) (\<lambda>_.
     bindE (mediaOk (length hmacKey = 32)) (\<lambda>_.
     let ciphertext = take (length cdnFile - FLOW_MEDIA_HMAC_TAG_LENGTH) cdnFile;
         hmac10 = drop (length cdnFile - FLOW_MEDIA_HMAC_TAG_LENGTH) cdnFile in
     bindE (asMediaError (sha (BytesArg cdnFile))) (\<lambda>encHash.
     bindE (checkEqual crypto (utf8 (encodeBase64 encHash)) (utf8 (mm_encrypted_hash mm))) (\<lambda>_.
     bindE (asMediaError (hmacSha256 crypto (BytesArg hmacKey) (BytesArg (concatBytes iv ciphertext)))) (\<lambda>macFull.
     bindE (checkEqual crypto (take FLOW_MEDIA_HMAC_TAG_LENGTH macFull) hmac10) (\<lambda>_.
     bindE (asMediaError (cbc (BytesArg encryptionKey) (BytesArg iv) (BytesArg ciphertext))) (\<lambda>plaintext.
     bindE (asMediaError (sha (BytesArg plaintext))) (\<lambda>ptHash.
     bindE (checkEqual crypto (utf8 (encodeBase64 ptHash)) (utf8 (mm_plaintext_hash mm))) (\<lambda>_.
     Inr plaintext))))))))))))))))))))"

record decrypted_media =
  dm_mediaId :: string
  dm_filename :: string
  dm_data :: "byte list"

definition decryptFlowMediaFile :: "'jwk provider \<Rightarrow> jsval \<Rightarrow> arg \<Rightarrow> media_exn + decrypted_media" where
  "decryptFlowMediaFile crypto encryptedFile cdnFile = (case flowIsPlainObject encryptedFile of
     None \<Rightarrow> Inl FlowMediaDecryptionError
   | Some r \<Rightarrow>
       bindE (metadataField r ''media_id'') (\<lambda>mediaId.
       bindE (metadataField r ''file_name'') (\<lambda>fileName.
       bindE (metadataField r ''cdn_url'') (\<lambda>_.
       bindE (decryptFlowMedia crypto cdnFile (js_get r ''encryption_metadata'')) (\<lambda>data.
       Inr \<lparr> dm_mediaId = mediaId, dm_filename = fileName, dm_data = data \<rparr>)))))"

text \<open>The only failure of a step is the fixed decryption error.\<close>

definition failsClosed :: "media_exn + 'a \<Rightarrow> bool" where
  "failsClosed m \<longleftrightarrow> (\<forall>e. m = Inl e \<longrightarrow> e = FlowMediaDecryptionError)"

lemma failsClosed_bindE: "failsClosed m \<Longrightarrow> (\<And>a. failsClosed (f a)) \<Longrightarrow> failsClosed (bindE m f)"
  by (auto simp: failsClosed_def bindE_Inl)

lemma failsClosed_basic:
  "failsClosed (Inr a)" "failsClosed (mediaOk ok)" "failsClosed (asMediaError m)"
  "failsClosed (optionE FlowMediaDecryptionError x)" "failsClosed (Inl FlowMediaDecryptionError)"
  by (auto simp: failsClosed_def mediaOk_def guardE_Inl asMediaError_def optionE_def split: sum.splits option.splits)

lemma failsClosed_decodeMediaField: "failsClosed (decodeMediaField v)"
  by (cases v; simp only: decodeMediaField_def jsval.case; intro failsClosed_bindE failsClosed_basic)

lemma failsClosed_metadataField: "failsClosed (metadataField r k)"
  by (cases "js_get r k"; simp only: metadataField_def jsval.case; intro failsClosed_bindE failsClosed_basic)

lemma failsClosed_assertMetadataShape: "failsClosed (assertMetadataShape v)"
  by (cases "flowIsPlainObject v"; simp only: assertMetadataShape_def option.case;
      intro failsClosed_bindE failsClosed_basic failsClosed_metadataField)

lemmas failsClosed_intros = failsClosed_bindE failsClosed_basic failsClosed_decodeMediaField
  failsClosed_assertMetadataShape

lemma checkEqual_total: "total_compare (timingSafeEqual p) \<Longrightarrow> checkEqual p a b = mediaOk (a = b)"
  using total_compare.compares [of "timingSafeEqual p" a b] by (simp add: checkEqual_def unguarded_def)

lemma decryptFlowMedia_failsClosed:
  assumes "total_compare (timingSafeEqual p)" "sha256 p = Some sha" "aesCbcDecrypt p = Some cbc"
  shows "failsClosed (decryptFlowMedia p file metadata)"
  unfolding decryptFlowMedia_def Let_def assms(2,3) capability_def checkEqual_total [OF assms(1)]
  by (rule arg.exhaust [of "file"]; simp only: optionE_simps bindE_simps arg.case; intro failsClosed_intros)

text \<open>The two checks that come before decryption, as a reference.\<close>

definition mediaTagsMatch :: "'jwk provider \<Rightarrow> (arg \<Rightarrow> exn + byte list) \<Rightarrow> byte list \<Rightarrow> jsval \<Rightarrow> bool" where
  "mediaTagsMatch p sha file metadata \<longleftrightarrow> (\<exists>mm iv hmacKey digest mac.
     assertMetadataShape metadata = Inr mm \<and> decodeMediaField (JStr (mm_iv mm)) = Inr iv
     \<and> decodeMediaField (JStr (mm_hmac_key mm)) = Inr hmacKey \<and> sha (BytesArg file) = Inr digest
     \<and> encodeBase64 digest = mm_encrypted_hash mm
     \<and> hmacSha256 p (BytesArg hmacKey) (BytesArg (iv @ take (length file - 10) file)) = Inr mac
     \<and> take 10 mac = drop (length file - 10) file)"

lemma mediaOk_Inr [res_iff]: "mediaOk ok = Inr u \<longleftrightarrow> ok"
  by (simp add: mediaOk_def guardE_Inr)

lemma asMediaError_Inr [res_iff]: "asMediaError m = Inr a \<longleftrightarrow> m = Inr a"
  by (auto simp: asMediaError_def split: sum.splits)

lemma decryptFlowMedia_Inr:
  assumes "total_compare (timingSafeEqual p)" "sha256 p = Some sha" "aesCbcDecrypt p = Some cbc"
    and "decryptFlowMedia p (BytesArg file) metadata = Inr plaintext"
  shows "mediaTagsMatch p sha file metadata" and "26 \<le> length file" and "length file \<le> FLOW_MEDIA_MAX_BYTES"
    and "\<exists>mm iv key digest. assertMetadataShape metadata = Inr mm \<and> decodeMediaField (JStr (mm_iv mm)) = Inr iv
      \<and> decodeMediaField (JStr (mm_encryption_key mm)) = Inr key
      \<and> cbc (BytesArg key) (BytesArg iv) (BytesArg (take (length file - 10) file)) = Inr plaintext
      \<and> sha (BytesArg plaintext) = Inr digest \<and> encodeBase64 digest = mm_plaintext_hash mm"
proof -
  obtain mm iv key hk eh mac ph where run: "length file \<le> FLOW_MEDIA_MAX_BYTES" "\<not> length file < 16 + 10"
      "assertMetadataShape metadata = Inr mm" "decodeMediaField (JStr (mm_iv mm)) = Inr iv"
      "decodeMediaField (JStr (mm_encryption_key mm)) = Inr key" "decodeMediaField (JStr (mm_hmac_key mm)) = Inr hk"
      "sha (BytesArg file) = Inr eh" "utf8 (encodeBase64 eh) = utf8 (mm_encrypted_hash mm)"
      "hmacSha256 p (BytesArg hk) (BytesArg (concatBytes iv (take (length file - 10) file))) = Inr mac"
      "take 10 mac = drop (length file - 10) file"
      "cbc (BytesArg key) (BytesArg iv) (BytesArg (take (length file - 10) file)) = Inr plaintext"
      "sha (BytesArg plaintext) = Inr ph" "utf8 (encodeBase64 ph) = utf8 (mm_plaintext_hash mm)"
    using assms(4)
    unfolding decryptFlowMedia_def Let_def assms(2,3) capability_def checkEqual_total [OF assms(1)]
      FLOW_MEDIA_AES_BLOCK_SIZE_def FLOW_MEDIA_HMAC_TAG_LENGTH_def bindE_Inr mediaOk_Inr asMediaError_Inr
      optionE_simps sum.inject arg.case
    by (elim exE conjE) simp
  show "mediaTagsMatch p sha file metadata"
    using run utf8_inj unfolding mediaTagsMatch_def concatBytes_def by blast
  show "26 \<le> length file" "length file \<le> FLOW_MEDIA_MAX_BYTES" using run by simp_all
  show "\<exists>mm iv key digest. assertMetadataShape metadata = Inr mm \<and> decodeMediaField (JStr (mm_iv mm)) = Inr iv
      \<and> decodeMediaField (JStr (mm_encryption_key mm)) = Inr key
      \<and> cbc (BytesArg key) (BytesArg iv) (BytesArg (take (length file - 10) file)) = Inr plaintext
      \<and> sha (BytesArg plaintext) = Inr digest \<and> encodeBase64 digest = mm_plaintext_hash mm"
    using run utf8_inj by blast
qed

lemma mediaTagsMatch_cbc [simp]:
  "mediaTagsMatch (p\<lparr>aesCbcDecrypt := c\<rparr>) sha file metadata = mediaTagsMatch p sha file metadata"
  by (simp add: mediaTagsMatch_def)

text \<open>C21: Uploaded media is authenticated before it is decrypted.  A file whose SHA-256 or truncated HMAC does
  not match is refused with the fixed decryption error whatever the cipher would have made of it, so no
  padding oracle can arise; and when a plaintext is returned, both matched, the plaintext is the
  decryption of the file without its tag, and its own SHA-256 is the announced one.\<close>

theorem media_is_verified_before_decryption:
  assumes "total_compare (timingSafeEqual p)" and "sha256 p = Some sha"
  shows "(\<not> mediaTagsMatch p sha file metadata \<longrightarrow>
      decryptFlowMedia (p\<lparr>aesCbcDecrypt := Some cbc\<rparr>) (BytesArg file) metadata = Inl FlowMediaDecryptionError)
    \<and> (decryptFlowMedia (p\<lparr>aesCbcDecrypt := Some cbc\<rparr>) (BytesArg file) metadata = Inr plaintext \<longrightarrow>
      mediaTagsMatch p sha file metadata \<and>
      (\<exists>mm iv key digest. assertMetadataShape metadata = Inr mm \<and> decodeMediaField (JStr (mm_iv mm)) = Inr iv
        \<and> decodeMediaField (JStr (mm_encryption_key mm)) = Inr key
        \<and> cbc (BytesArg key) (BytesArg iv) (BytesArg (take (length file - 10) file)) = Inr plaintext
        \<and> sha (BytesArg plaintext) = Inr digest \<and> encodeBase64 digest = mm_plaintext_hash mm))"
proof -
  let ?q = "p\<lparr>aesCbcDecrypt := Some cbc\<rparr>"
  have q: "total_compare (timingSafeEqual ?q)" "sha256 ?q = Some sha" "aesCbcDecrypt ?q = Some cbc"
    using assms by simp_all
  have "decryptFlowMedia ?q (BytesArg file) metadata = Inl FlowMediaDecryptionError"
    if "\<not> mediaTagsMatch p sha file metadata"
  proof (cases "decryptFlowMedia ?q (BytesArg file) metadata")
    case (Inl e)
    with decryptFlowMedia_failsClosed [OF q] show ?thesis by (simp add: failsClosed_def)
  next
    case (Inr pt)
    from decryptFlowMedia_Inr(1) [OF q this] that show ?thesis by simp
  qed
  moreover have "mediaTagsMatch p sha file metadata \<and>
      (\<exists>mm iv key digest. assertMetadataShape metadata = Inr mm \<and> decodeMediaField (JStr (mm_iv mm)) = Inr iv
        \<and> decodeMediaField (JStr (mm_encryption_key mm)) = Inr key
        \<and> cbc (BytesArg key) (BytesArg iv) (BytesArg (take (length file - 10) file)) = Inr plaintext
        \<and> sha (BytesArg plaintext) = Inr digest \<and> encodeBase64 digest = mm_plaintext_hash mm)"
    if "decryptFlowMedia ?q (BytesArg file) metadata = Inr plaintext"
    using decryptFlowMedia_Inr(1,4) [OF q that] by simp
  ultimately show ?thesis by blast
qed

lemma decodeMediaField_encode:
  "bs \<noteq> [] \<Longrightarrow> length bs \<le> 128 \<Longrightarrow> decodeMediaField (JStr (encodeBase64 bs)) = Inr bs"
  using btoa_nonblank [of "map char_of_byte bs"] length_btoa_third [of "map char_of_byte bs"]
  by (simp add: decodeMediaField_def encodeBase64_def mediaOk_def atob_btoa FLOW_MEDIA_MAX_BASE64_FIELD_LENGTH_def comp_def)

lemma encodeBase64_nonempty: "bs \<noteq> [] \<Longrightarrow> encodeBase64 bs \<noteq> []"
  using btoa_nonblank [of "map char_of_byte bs"] by (simp add: encodeBase64_def)

text \<open>A sample upload for the WebCrypto adapter over the sample host, whose digests are 32 times the length of
  their input and whose cipher is the identity.\<close>

definition sampleMetadata :: jsval where
  "sampleMetadata = jsObject [(''iv'', JStr (encodeBase64 (replicate 16 1))),
     (''encryption_key'', JStr (encodeBase64 (replicate 32 2))), (''hmac_key'', JStr (encodeBase64 (replicate 32 3))),
     (''encrypted_hash'', JStr (encodeBase64 (replicate 32 26))), (''plaintext_hash'', JStr (encodeBase64 (replicate 32 16)))]"

lemma media_is_verified_before_decryption_witness:
  "\<exists>p. tryAdapter sampleRuntime WebAdapter = Inr p
     \<and> mediaTagsMatch p (webSha256 sampleWeb) (replicate 16 5 @ replicate 10 32) sampleMetadata"
proof -
  obtain p where p: "tryAdapter sampleRuntime WebAdapter = Inr p" "sha256 p = Some (webSha256 sampleWeb)"
      "timingSafeEqual p = webTimingSafeEqual" "hmacSha256 p = webHmacSha256 sampleWeb"
    by (simp add: tryAdapter_def sampleRuntime_def createWebCryptoProvider_def sampleWeb_def)
  have law: "total_compare (timingSafeEqual p)" by (simp add: p(3) web.total_compare_axioms)
  let ?file = "replicate 16 5 @ replicate 10 32 :: byte list"
  let ?q = "p\<lparr>aesCbcDecrypt := Some (\<lambda>k iv c. Inr (replicate 16 5))\<rparr>"
  have qlaw: "total_compare (timingSafeEqual ?q)" using law by simp
  have "decryptFlowMedia ?q (BytesArg ?file) sampleMetadata = Inr (replicate 16 5)"
    unfolding decryptFlowMedia_def checkEqual_total [OF qlaw]
    by (simp add: p capability_def mediaOk_def FLOW_MEDIA_MAX_BYTES_def FLOW_MEDIA_AES_BLOCK_SIZE_def
        FLOW_MEDIA_HMAC_TAG_LENGTH_def assertMetadataShape_def sampleMetadata_def jsObject_def flowIsPlainObject_def
        metadataField_def encodeBase64_nonempty decodeMediaField_encode webSha256_def webHmacSha256_def sampleWeb_def
        asMediaError_def concatBytes_def)
  with media_is_verified_before_decryption [OF law p(2)] have "mediaTagsMatch p (webSha256 sampleWeb) ?file sampleMetadata"
    by blast
  with p(1) show ?thesis by blast
qed

end
