(* ===== verification/Canonical_Json.thy ===== *)
theory Canonical_Json
  imports Json_Stringify
begin

section \<open>Canonical JSON texts\<close>

text \<open>
  The service hashes JSON texts to recognise a request or an update it has seen: \<open>canonicalJsonString\<close>
  of \<open>packages/service/src/serviceRequests.ts\<close> sorts the keys of every object and writes the result,
  \<open>boundedCanonicalJson\<close> of \<open>webhookIngress.ts\<close> writes the keys in sorted order.  The lemmas show
  that \<open>JSON.stringify\<close> is injective on JSON data, and that two data have the same canonical text
  exactly when they are equal up to the order of properties.  The law of the number texts that this
  needs is a hypothesis on the parameter: they are different for different numbers, and made of
  digits, signs, points and exponents.
\<close>

subsection \<open>JSON data\<close>

fun jsonData :: "jsval \<Rightarrow> bool" where
  "jsonData JUndef = False"
| "jsonData JFun = False"
| "jsonData JNull = True"
| "jsonData (JBool b) = True"
| "jsonData (JNum x) = isFiniteNum x"
| "jsonData (JStr s) = True"
| "jsonData (JArr sl) = list_all (\<lambda>s. s = Data (slot_value s) \<and> jsonData (slot_value s)) sl"
| "jsonData (JObj p ps) = (p = ObjectProto \<and> distinct (map fst ps) \<and> ''__proto__'' \<notin> fst ` set ps
     \<and> list_all (\<lambda>(k, s). s = Data (slot_value s) \<and> jsonData (slot_value s)) ps)"

definition numberChar :: "char \<Rightarrow> bool" where
  "numberChar c = (is_digit c \<or> c \<in> {CHR ''-'', CHR ''+'', CHR ''.'', CHR ''e''})"

definition numberTexts :: "(rat \<Rightarrow> string) \<Rightarrow> bool" where
  "numberTexts nt \<longleftrightarrow> inj nt \<and> (\<forall>r. nt r \<noteq> [] \<and> hd (nt r) \<noteq> CHR ''e'' \<and> list_all numberChar (nt r))"

definition jsonText :: "(rat \<Rightarrow> string) \<Rightarrow> jsval \<Rightarrow> string" where
  "jsonText nt v = (case js_stringify nt v of None \<Rightarrow> ''null'' | Some t \<Rightarrow> t)"

lemma js_stringify_data: "jsonData v \<Longrightarrow> js_stringify nt v = Some (jsonText nt v)"
  by (cases v) (auto simp: jsonText_def)

definition memberText :: "(rat \<Rightarrow> string) \<Rightarrow> string \<times> slot \<Rightarrow> string" where
  "memberText nt = (\<lambda>(k, s). jsonQuote k @ '':'' @ jsonText nt (slot_value s))"

lemma jsonText_array: "jsonText nt (JArr sl) = ''['' @ commaSep (map (\<lambda>s. jsonText nt (slot_value s)) sl) @ '']''"
  by (simp add: jsonText_def)

lemma jsonText_object:
  assumes "jsonData (JObj p ps)"
  shows "jsonText nt (JObj p ps) = ''{'' @ commaSep (map (memberText nt) ps) @ ''}''"
proof -
  have "concat (map (\<lambda>(k, s). case js_stringify nt (slot_value s) of None \<Rightarrow> []
      | Some t \<Rightarrow> [jsonQuote k @ '':'' @ t]) ps) = map (memberText nt) ps"
    using assms by (induction ps) (auto simp: memberText_def js_stringify_data)
  then show ?thesis by (simp add: jsonText_def)
qed

subsection \<open>Reading a string back\<close>

definition unescapeChar :: "char \<Rightarrow> char" where
  "unescapeChar c = (if c = CHR ''b'' then char_of (8 :: nat) else if c = CHR ''t'' then char_of (9 :: nat)
     else if c = CHR ''n'' then char_of (10 :: nat) else if c = CHR ''f'' then char_of (12 :: nat)
     else if c = CHR ''r'' then char_of (13 :: nat) else c)"

text \<open>The first character of the text of a string, and what follows it.\<close>

definition readChar :: "string \<Rightarrow> (char \<times> string) option" where
  "readChar s = (case s of
     [] \<Rightarrow> None
   | c # r \<Rightarrow> if c \<noteq> CHR 0x5C then Some (c, r) else (case r of
       [] \<Rightarrow> None
     | d # r' \<Rightarrow> if d \<noteq> CHR ''u'' then Some (unescapeChar d, r') else (case r' of
         _ # _ # h # l # r'' \<Rightarrow> Some (char_of (hexValue h * 16 + hexValue l), r'') | _ \<Rightarrow> None)))"

lemma char_code_eq: "code_of c = n \<Longrightarrow> c = char_of n"
  by (metis char_of_code_of)

lemma char_of_quotes: "char_of (34 :: nat) = CHR 0x22" "char_of (92 :: nat) = CHR 0x5C"
    "code_of (CHR 0x22) = 34" "code_of (CHR 0x5C) = 92"
  by code_simp+

lemma readChar_escape: "readChar (jsonEscape c @ r) = Some (c, r)"
proof -
  consider "code_of c \<in> {34, 92, 8, 9, 10, 12, 13}" | "code_of c < 32" "code_of c \<notin> {8, 9, 10, 12, 13}"
    | "code_of c \<ge> 32" "code_of c \<notin> {34, 92}" by force
  then show ?thesis
  proof cases
    case 1
    then obtain n :: nat where n: "c = char_of n" "n \<in> {34, 92, 8, 9, 10, 12, 13}" using char_code_eq by metis
    show ?thesis
      using n(2) unfolding n(1) by (elim insertE emptyE; hypsubst) (simp_all add: jsonEscape_def readChar_def unescapeChar_def code_of_char_of Let_def char_of_quotes)
  next
    case 2
    then have "code_of c div 16 < 16" "code_of c mod 16 < 16" "code_of c \<noteq> 34" "code_of c \<noteq> 92" by auto
    with 2 show ?thesis
      by (simp add: jsonEscape_def readChar_def Let_def hexValue_digit)
  next
    case 3
    then have "c \<noteq> CHR 0x5C" by (auto simp: code_of_def)
    with 3 show ?thesis by (auto simp: jsonEscape_def readChar_def Let_def)
  qed
qed

lemma escape_head: "\<exists>h t. jsonEscape c = h # t \<and> h \<noteq> CHR 0x22"
proof (cases "code_of c = 34")
  case False
  then have "c \<noteq> CHR 0x22" by (auto simp: code_of_def)
  then show ?thesis by (simp add: jsonEscape_def Let_def)
qed (simp add: jsonEscape_def)

lemma quoted_body_inj:
  "concat (map jsonEscape s) @ CHR 0x22 # x = concat (map jsonEscape t) @ CHR 0x22 # y \<Longrightarrow> s = t \<and> x = y"
proof (induction s arbitrary: t)
  case Nil
  show ?case
  proof (cases t)
    case (Cons d ds)
    with Nil.prems escape_head [of d] show ?thesis by auto
  qed (use Nil.prems in simp)
next
  case (Cons c cs)
  show ?case
  proof (cases t)
    case Nil
    with Cons.prems escape_head [of c] show ?thesis by auto
  next
    case (Cons d ds)
    with Cons.prems have eq: "jsonEscape c @ (concat (map jsonEscape cs) @ CHR 0x22 # x)
        = jsonEscape d @ (concat (map jsonEscape ds) @ CHR 0x22 # y)" by simp
    from arg_cong [OF this, of readChar] Cons.IH [of ds] Cons show ?thesis
      unfolding readChar_escape by simp
  qed
qed

lemma jsonQuote_inj: "jsonQuote s @ x = jsonQuote t @ y \<Longrightarrow> s = t \<and> x = y"
  using quoted_body_inj [of s x t y] by (simp add: jsonQuote_def)

subsection \<open>\<open>JSON.stringify\<close> is injective on JSON data\<close>

text \<open>What may follow a value in a text.\<close>

definition delimited :: "string \<Rightarrow> bool" where
  "delimited x \<longleftrightarrow> x = [] \<or> hd x \<in> {CHR '','', CHR '']'', CHR ''}''}"

lemma delimited_simps [simp]: "delimited []" "delimited ('','' @ x)" "delimited ('']'' @ x)" "delimited (''}'' @ x)"
  "delimited (CHR '','' # x)" "delimited (CHR '']'' # x)" "delimited (CHR ''}'' # x)"
  by (simp_all add: delimited_def)

text \<open>Lists of items whose texts can be told from what follows them.\<close>

definition separable :: "('a \<Rightarrow> string) \<Rightarrow> char \<Rightarrow> 'a set \<Rightarrow> 'a set \<Rightarrow> bool" where
  "separable f c A B \<longleftrightarrow> (\<forall>a \<in> A. \<forall>b \<in> B. \<forall>x y. f a @ x = f b @ y \<longrightarrow> delimited x \<longrightarrow> delimited y
     \<longrightarrow> a = b \<and> x = y) \<and> (\<forall>a \<in> A \<union> B. \<exists>h t. f a = h # t \<and> h \<noteq> c)"

lemma separableD:
  "separable f c A B \<Longrightarrow> a \<in> A \<Longrightarrow> b \<in> B \<Longrightarrow> f a @ x = f b @ y \<Longrightarrow> delimited x \<Longrightarrow> delimited y \<Longrightarrow> a = b \<and> x = y"
  by (simp add: separable_def)

lemma separable_mono: "separable f c A B \<Longrightarrow> A' \<subseteq> A \<Longrightarrow> B' \<subseteq> B \<Longrightarrow> separable f c A' B'"
  unfolding separable_def by (intro conjI ballI allI impI; elim conjE) blast+

lemma commaSep_Cons: "commaSep (x # xs) = x @ (if xs = [] then [] else '','' @ commaSep xs)"
  by (cases xs) auto

lemma commaSep_inj:
  assumes "separable f c (set as) (set bs)" "c \<in> {CHR '']'', CHR ''}''}"
    and "commaSep (map f as) @ c # x = commaSep (map f bs) @ c # y"
  shows "as = bs \<and> x = y"
  using assms(1,3)
proof (induction as arbitrary: bs)
  case Nil
  show ?case
  proof (cases bs)
    case (Cons b bs')
    with Nil.prems(1) obtain h t where "f b = h # t" "h \<noteq> c" by (auto simp: separable_def)
    with Nil.prems(2) Cons show ?thesis by (simp add: commaSep_Cons)
  qed (use Nil.prems in simp)
next
  case (Cons a as)
  show ?case
  proof (cases bs)
    case Nil
    from Cons.prems(1) obtain h t where "f a = h # t" "h \<noteq> c" by (auto simp: separable_def)
    with Cons.prems(2) Nil show ?thesis by (simp add: commaSep_Cons)
  next
    case (Cons b bs')
    define rest where "rest = (\<lambda>zs z. if zs = [] then c # z else '','' @ commaSep (map f zs) @ c # z)"
    have del: "delimited (rest zs z)" for zs z using assms(2) by (auto simp: rest_def delimited_def)
    have unfolded: "commaSep (map f (e # zs)) @ c # z = f e @ rest zs z" for e zs z
      by (simp add: rest_def commaSep_Cons)
    have eq: "f a @ rest as x = f b @ rest bs' y"
      using Cons.prems(2) unfolding Cons unfolded .
    have ab: "a = b \<and> rest as x = rest bs' y"
      by (rule separableD [OF Cons.prems(1) _ _ eq del del]) (simp_all add: Cons)
    have sep: "separable f c (set as) (set bs')"
      by (rule separable_mono [OF Cons.prems(1)]) (auto simp: Cons)
    have ends: "as = [] \<longleftrightarrow> bs' = []"
    proof -
      have comma: "c \<noteq> CHR '',''" using assms(2) by auto
      have "hd (rest zs z) = (if zs = [] then c else CHR '','')" for zs z by (simp add: rest_def)
      from this [of as x] this [of bs' y] ab
      have "(if as = [] then c else CHR '','') = (if bs' = [] then c else CHR '','')" by simp
      with comma show ?thesis by (simp split: if_splits)
    qed
    show ?thesis
    proof (cases "as = []")
      case True
      with ends ab Cons show ?thesis by (simp add: rest_def)
    next
      case False
      with ends ab have "commaSep (map f as) @ c # x = commaSep (map f bs') @ c # y" by (simp add: rest_def)
      with Cons.IH [OF sep] ab Cons show ?thesis by simp
    qed
  qed
qed

lemma number_inj:
  assumes "numberTexts nt" "nt r @ x = nt q @ y" "delimited x" "delimited y"
  shows "r = q \<and> x = y"
proof -
  have stop: "takeWhile numberChar (nt r @ x) = nt r" if "delimited x" for r x
  proof -
    have "takeWhile numberChar x = []"
      using that by (cases x) (auto simp: delimited_def numberChar_def is_digit_def code_of_def)
    then show ?thesis using assms(1) by (simp add: numberTexts_def list_all_iff takeWhile_append2)
  qed
  from stop [OF assms(3), of r] stop [OF assms(4), of q] assms(2) have "nt r = nt q" by simp
  with assms(1,2) show ?thesis by (auto simp: numberTexts_def dest: injD)
qed

text \<open>The first character tells the kind of a value.\<close>

fun leads :: "jsval \<Rightarrow> char \<Rightarrow> bool" where
  "leads JNull c = (c = CHR ''n'')"
| "leads (JBool b) c = (c = (if b then CHR ''t'' else CHR ''f''))"
| "leads (JNum x) c = (numberChar c \<and> c \<noteq> CHR ''e'')"
| "leads (JStr s) c = (c = CHR 0x22)"
| "leads (JArr sl) c = (c = CHR ''['')"
| "leads (JObj p ps) c = (c = CHR ''{'')"
| "leads v c = False"

lemma jsonText_lead:
  assumes "numberTexts nt" "jsonData v"
  shows "\<exists>h t. jsonText nt v = h # t \<and> leads v h"
proof (cases v)
  case (JNum x)
  with assms obtain r where r: "x = Fin r" by (cases x) (auto simp: isFiniteNum_def)
  from assms(1) have "nt r \<noteq> []" "hd (nt r) \<noteq> CHR ''e''" "list_all numberChar (nt r)" by (simp_all add: numberTexts_def)
  with JNum r show ?thesis by (cases "nt r") (auto simp: jsonText_def)
qed (use assms in \<open>auto simp: jsonText_def jsonQuote_def\<close>)

lemma numberChar_facts [simp]:
  "\<not> numberChar (CHR ''n'')" "\<not> numberChar (CHR ''t'')" "\<not> numberChar (CHR ''f'')" "\<not> numberChar (CHR 0x22)"
  "\<not> numberChar (CHR ''['')" "\<not> numberChar (CHR ''{'')" "\<not> numberChar (CHR '']'')" "\<not> numberChar (CHR ''}'')"
  by (simp_all add: numberChar_def is_digit_def code_of_def)

definition sameKind :: "jsval \<Rightarrow> jsval \<Rightarrow> bool" where
  "sameKind v w = (case (v, w) of (JNull, JNull) \<Rightarrow> True | (JBool b, JBool c) \<Rightarrow> b = c | (JNum _, JNum _) \<Rightarrow> True
     | (JStr _, JStr _) \<Rightarrow> True | (JArr _, JArr _) \<Rightarrow> True | (JObj _ _, JObj _ _) \<Rightarrow> True | _ \<Rightarrow> False)"

lemma leads_sameKind: "leads v c \<Longrightarrow> leads w c \<Longrightarrow> sameKind v w"
  by (cases v; cases w) (auto simp: sameKind_def split: if_splits)

lemma leads_not_closing: "leads v c \<Longrightarrow> c \<noteq> CHR '']'' \<and> c \<noteq> CHR ''}''"
  by (cases v) auto

definition readsBack :: "(rat \<Rightarrow> string) \<Rightarrow> jsval \<Rightarrow> bool" where
  "readsBack nt v \<longleftrightarrow> (\<forall>w x y. jsonData w \<longrightarrow> jsonText nt v @ x = jsonText nt w @ y \<longrightarrow> delimited x \<longrightarrow> delimited y
     \<longrightarrow> v = w \<and> x = y)"

lemma data_slot: "s = Data (slot_value s) \<Longrightarrow> t = Data (slot_value t) \<Longrightarrow> slot_value s = slot_value t \<Longrightarrow> s = t"
  by metis

lemma separable_items:
  assumes nt: "numberTexts nt" and a: "jsonData (JArr as)" and b: "jsonData (JArr bs)"
    and IH: "\<And>s. s \<in> set as \<Longrightarrow> readsBack nt (slot_value s)"
  shows "separable (\<lambda>s. jsonText nt (slot_value s)) (CHR '']'') (set as) (set bs)"
proof -
  have "s = t \<and> x = y" if "s \<in> set as" "t \<in> set bs" "jsonText nt (slot_value s) @ x = jsonText nt (slot_value t) @ y"
    "delimited x" "delimited y" for s t x y
  proof -
    have "jsonData (slot_value t)" "s = Data (slot_value s)" "t = Data (slot_value t)"
      using a b that by (auto simp: list_all_iff)
    with IH [OF that(1)] that have "slot_value s = slot_value t" "x = y" unfolding readsBack_def by blast+
    with \<open>s = _\<close> \<open>t = _\<close> data_slot show ?thesis by metis
  qed
  moreover have "\<exists>h t. jsonText nt (slot_value s) = h # t \<and> h \<noteq> CHR '']''" if "s \<in> set as \<union> set bs" for s
  proof -
    have "jsonData (slot_value s)" using a b that by (auto simp: list_all_iff)
    from jsonText_lead [OF nt this] leads_not_closing show ?thesis by blast
  qed
  ultimately show ?thesis by (simp add: separable_def)
qed

lemma separable_members:
  assumes a: "jsonData (JObj p as)" and b: "jsonData (JObj q bs)"
    and IH: "\<And>k s. (k, s) \<in> set as \<Longrightarrow> readsBack nt (slot_value s)"
  shows "separable (memberText nt) (CHR ''}'') (set as) (set bs)"
proof -
  have "m = n \<and> x = y" if "m \<in> set as" "n \<in> set bs" "memberText nt m @ x = memberText nt n @ y"
    "delimited x" "delimited y" for m n x y
  proof -
    obtain k s l t where m: "m = (k, s)" and n: "n = (l, t)" by (cases m, cases n)
    from that(3) m n have "jsonQuote k @ ('':'' @ jsonText nt (slot_value s) @ x)
        = jsonQuote l @ ('':'' @ jsonText nt (slot_value t) @ y)" by (simp add: memberText_def)
    from jsonQuote_inj [OF this] have kl: "k = l" "jsonText nt (slot_value s) @ x = jsonText nt (slot_value t) @ y"
      by auto
    have "jsonData (slot_value t)" "s = Data (slot_value s)" "t = Data (slot_value t)"
      using a b that m n by (auto simp: list_all_iff)
    with IH [of k s] that m kl have "slot_value s = slot_value t" "x = y" unfolding readsBack_def by blast+
    with \<open>s = _\<close> \<open>t = _\<close> data_slot kl m n show ?thesis by metis
  qed
  moreover have "\<exists>h t. memberText nt m = h # t \<and> h \<noteq> CHR ''}''" for m
    by (simp add: memberText_def jsonQuote_def split: prod.split)
  ultimately show ?thesis by (simp add: separable_def)
qed

lemma member_size: "(k, s) \<in> set ps \<Longrightarrow> size (slot_value s) < size (JObj p ps)"
proof -
  assume "(k, s) \<in> set ps"
  then have "size s < Suc (size_list (size_prod (\<lambda>_. 0) size) ps)" by (induction ps) auto
  then show ?thesis using slot_value_size_le [of s] by simp
qed

lemma jsonText_inj:
  assumes nt: "numberTexts nt"
  shows "jsonData v \<Longrightarrow> readsBack nt v"
proof (induction v rule: measure_induct_rule [of size])
  case (less v)
  show ?case unfolding readsBack_def
  proof (intro allI impI)
    fix w x y
    assume w: "jsonData w" and eq: "jsonText nt v @ x = jsonText nt w @ y" and del: "delimited x" "delimited y"
    from jsonText_lead [OF nt less.prems] jsonText_lead [OF nt w] eq have kind: "sameKind v w"
      using leads_sameKind by (metis append_Cons list.inject)
    show "v = w \<and> x = y"
    proof (cases v)
      case (JNum r)
      with kind less.prems w obtain p q where "v = JNum (Fin p)" "w = JNum (Fin q)"
        by (cases w; cases r) (auto simp: sameKind_def isFiniteNum_def split: jsnum.splits)
      with eq number_inj [OF nt _ del] show ?thesis by (simp add: jsonText_def)
    next
      case (JStr s)
      with kind obtain t where "w = JStr t" by (cases w) (auto simp: sameKind_def)
      with JStr eq jsonQuote_inj [of s x t y] show ?thesis by (simp add: jsonText_def)
    next
      case (JArr as)
      with kind obtain bs where bs: "w = JArr bs" by (cases w) (auto simp: sameKind_def)
      have "readsBack nt (slot_value s)" if "s \<in> set as" for s
        using less.IH [of "slot_value s"] less.prems that JArr slot_value_size [OF that] by (auto simp: list_all_iff)
      from separable_items [OF nt _ _ this] less.prems w JArr bs
      have "separable (\<lambda>s. jsonText nt (slot_value s)) (CHR '']'') (set as) (set bs)" by blast
      from commaSep_inj [OF this, of x y] eq show ?thesis
        unfolding JArr bs jsonText_array by simp
    next
      case (JObj p as)
      with kind obtain q bs where bs: "w = JObj q bs" by (cases w) (auto simp: sameKind_def)
      have rb: "readsBack nt (slot_value s)" if "(k, s) \<in> set as" for k s
        using less.IH [of "slot_value s"] less.prems that JObj member_size [OF that] by (auto simp: list_all_iff)
      have "separable (memberText nt) (CHR ''}'') (set as) (set bs)"
        by (rule separable_members [of p as q bs]) (use less.prems w JObj bs rb in blast)+
      from commaSep_inj [OF this, of x y] eq less.prems w JObj bs show ?thesis
        by (simp add: jsonText_object del: jsonData.simps) simp
    qed (use kind less.prems eq in \<open>cases w; auto simp: sameKind_def jsonText_def\<close>)+
  qed
qed

theorem stringify_injective:
  assumes "numberTexts nt" "jsonData v" "jsonData w" "js_stringify nt v = js_stringify nt w"
  shows "v = w"
  using jsonText_inj [OF assms(1,2)] assms(3,4) js_stringify_data [OF assms(2)] js_stringify_data [OF assms(3)]
  unfolding readsBack_def by (metis append_Nil2 delimited_simps(1) option.inject)

subsection \<open>The order of keys\<close>

text \<open>
  \<open>Object.keys(v).sort()\<close> compares code units.  An assignment \<open>out[key] = v\<close> adds a new key at the end of
  the ordinary ones; array indices come first, in numerical order, which is the order by length and
  then by digits; and \<open>__proto__\<close> sets the prototype instead of a property.
\<close>

definition isArrayIndex :: "string \<Rightarrow> bool" where
  "isArrayIndex k = (k = ''0'' \<or> k \<noteq> [] \<and> list_all is_digit k \<and> hd k \<noteq> CHR ''0'' \<and>
     (length k < 10 \<or> length k = 10 \<and> k \<le> ''4294967294''))"

type_synonym key_rank = "nat \<times> nat \<times> string"

definition keyRank :: "string \<Rightarrow> key_rank" where
  "keyRank k = (if isArrayIndex k then (0, length k, k) else (1, 0, []))"

fun putProp :: "string \<Rightarrow> slot \<Rightarrow> (string \<times> slot) list \<Rightarrow> (string \<times> slot) list" where
  "putProp k s [] = [(k, s)]"
| "putProp k s ((l, t) # ps) = (if k = l then (k, s) # ps
     else if keyRank k < keyRank l then (k, s) # (l, t) # ps else (l, t) # putProp k s ps)"

definition assignProp :: "string \<times> slot \<Rightarrow> (string \<times> slot) list \<Rightarrow> (string \<times> slot) list" where
  "assignProp p ps = (if fst p = ''__proto__'' then ps else putProp (fst p) (snd p) ps)"

text \<open>The enumeration order of an object that was filled in the order of its sorted keys.\<close>

definition enumRank :: "string \<Rightarrow> nat \<times> nat \<times> string" where
  "enumRank k = (if isArrayIndex k then (0, length k, k) else (1, 0, k))"

lemma enumRank_inj: "enumRank k = enumRank l \<longleftrightarrow> k = l"
  by (auto simp: enumRank_def split: if_splits)

lemma keyRank_enumRank: "k \<le> l \<Longrightarrow> k \<noteq> l \<Longrightarrow> keyRank l < keyRank k \<longleftrightarrow> enumRank l < enumRank k"
  by (auto simp: keyRank_def enumRank_def)

lemma keyRank_less: "keyRank l < keyRank k \<Longrightarrow> enumRank l < enumRank k"
  by (auto simp: keyRank_def enumRank_def split: if_splits)

lemma set_putProp: "k \<notin> fst ` set ps \<Longrightarrow> set (putProp k s ps) = insert (k, s) (set ps)"
  by (induction ps) (auto split: if_splits)

lemma sorted_putProp:
  assumes "sorted_wrt (\<lambda>p q. enumRank (fst p) < enumRank (fst q)) ps" "\<forall>l \<in> fst ` set ps. l < k"
  shows "sorted_wrt (\<lambda>p q. enumRank (fst p) < enumRank (fst q)) (putProp k s ps)"
  using assms
proof (induction ps)
  case (Cons p ps)
  obtain l t where p: "p = (l, t)" by (cases p)
  with Cons.prems have lk: "l < k" "l \<noteq> k" by auto
  show ?case
  proof (cases "keyRank k < keyRank l")
    case True
    then have "enumRank k < enumRank l" by (rule keyRank_less)
    with Cons.prems(1) p lk True show ?thesis by (auto dest: order.strict_trans)
  next
    case False
    with lk keyRank_enumRank [of l k] have "\<not> enumRank k < enumRank l" by simp
    with enumRank_inj [of k l] lk have less: "enumRank l < enumRank k" by (metis linorder_less_linear)
    have new: "k \<notin> fst ` set ps" using Cons.prems(2) by auto
    have "sorted_wrt (\<lambda>p q. enumRank (fst p) < enumRank (fst q)) (putProp k s ps)"
      using Cons by simp
    with False Cons.prems(1) p lk less set_putProp [OF new] show ?thesis by auto
  qed
qed simp

text \<open>A list that is strictly sorted by an injective rank of its keys is determined by its set.\<close>

definition byRank :: "(string \<Rightarrow> 'o :: linorder) \<Rightarrow> (string \<times> 'a) list \<Rightarrow> bool" where
  "byRank r ps \<longleftrightarrow> sorted_wrt (\<lambda>p q. r (fst p) < r (fst q)) ps"

lemma byRank_map: "byRank r ps \<longleftrightarrow> sorted (map (r \<circ> fst) ps) \<and> distinct (map (r \<circ> fst) ps)"
proof -
  have "byRank r ps \<longleftrightarrow> sorted_wrt (<) (map (r \<circ> fst) ps)" by (simp add: byRank_def sorted_wrt_map)
  then show ?thesis using strict_sorted_iff by blast
qed

lemma byRank_unique:
  assumes "byRank r ps" "byRank r qs" "set ps = set qs"
  shows "ps = qs"
proof -
  let ?f = "r \<circ> fst"
  have "map ?f ps = map ?f qs"
    using assms by (intro sorted_distinct_set_unique) (simp_all add: byRank_map)
  moreover have "inj_on ?f (set ps \<union> set qs)"
    using assms unfolding byRank_map distinct_map by simp
  ultimately show ?thesis by (rule map_inj_on)
qed

lemma byRank_sort: "inj r \<Longrightarrow> distinct (map fst ps) \<Longrightarrow> byRank r (sort_key (r \<circ> fst) ps)"
proof -
  assume r: "inj r" and d: "distinct (map fst ps)"
  have "distinct (map (r \<circ> fst) ps)"
    using d comp_inj_on [of fst "set ps" r] inj_on_subset [OF r] by (simp add: distinct_map)
  then show ?thesis unfolding byRank_map distinct_map by simp
qed

lemma byRank_values: "byRank r (map (\<lambda>(k, s). (k, h s)) ps) \<longleftrightarrow> byRank r ps"
proof -
  have "map (r \<circ> fst) (map (\<lambda>(k, s). (k, h s)) ps) = map (r \<circ> fst) ps" by (induction ps) auto
  then show ?thesis unfolding byRank_map by metis
qed

lemma inj_enumRank: "inj enumRank"
  by (simp add: inj_def enumRank_inj)

lemma assign_sorted_keys:
  assumes "byRank id qs" "''__proto__'' \<notin> fst ` set qs"
  shows "byRank enumRank (fold assignProp qs []) \<and> set (fold assignProp qs []) = set qs"
proof -
  have "byRank enumRank (fold assignProp qs ps) \<and> set (fold assignProp qs ps) = set ps \<union> set qs"
    if "byRank enumRank ps" "\<forall>l \<in> fst ` set ps. \<forall>k \<in> fst ` set qs. l < k" for ps
    using assms that
  proof (induction qs arbitrary: ps)
    case (Cons q qs)
    have new: "\<forall>l \<in> fst ` set ps. l < fst q" using Cons.prems(4) by auto
    then have "fst q \<notin> fst ` set ps" by auto
    then have st: "set (putProp (fst q) (snd q) ps) = insert q (set ps)" by (simp add: set_putProp)
    have "byRank enumRank (putProp (fst q) (snd q) ps)"
      using sorted_putProp [OF _ new] Cons.prems(3) by (simp add: byRank_def)
    with Cons.IH [of "putProp (fst q) (snd q) ps"] Cons.prems st show ?case
      by (auto simp: assignProp_def byRank_def)
  qed simp
  from this [of "[]"] show ?thesis by (simp add: byRank_def)
qed

lemma assign_in_order:
  assumes "distinct (map fst ps)" "''__proto__'' \<notin> fst ` set ps"
  shows "fold assignProp (map (\<lambda>(k, s). (k, h s)) (sort_key fst ps)) []
    = map (\<lambda>(k, s). (k, h s)) (sort_key (enumRank \<circ> fst) ps)"
proof -
  let ?qs = "map (\<lambda>(k, s). (k, h s)) (sort_key fst ps)"
  have "byRank id (sort_key fst ps)" using byRank_sort [of id, OF _ assms(1)] by simp
  then have "byRank id ?qs" by (simp only: byRank_values)
  moreover have "fst ` set ?qs = fst ` set ps" by force
  ultimately have "byRank enumRank (fold assignProp ?qs []) \<and> set (fold assignProp ?qs []) = set ?qs"
    using assign_sorted_keys assms(2) by metis
  moreover have "byRank enumRank (map (\<lambda>(k, s). (k, h s)) (sort_key (enumRank \<circ> fst) ps))"
    by (simp only: byRank_values) (rule byRank_sort [OF inj_enumRank assms(1)])
  ultimately show ?thesis by (intro byRank_unique [of enumRank]) simp_all
qed

subsection \<open>The canonical texts\<close>

datatype canonical_exn = CanonicalDepthError

definition MAX_CANONICAL_DEPTH :: nat where
  "MAX_CANONICAL_DEPTH = 128"

lemma bindE_cong [fundef_cong]:
  "m = m' \<Longrightarrow> (\<And>a. m' = Inr a \<Longrightarrow> f a = g a) \<Longrightarrow> bindE m f = bindE m' g"
  by (cases m') auto

lemma mapE_cong [fundef_cong]: "xs = ys \<Longrightarrow> (\<And>x. x \<in> set ys \<Longrightarrow> f x = g x) \<Longrightarrow> mapE f xs = mapE g ys"
  by (induction ys arbitrary: xs) auto

lemma member_slot_size: "(k :: string, s) \<in> set ps \<Longrightarrow> size (slot_value s) < Suc (size_list (size_prod (\<lambda>_. 0) size) ps)"
  using member_size [of k s ps ObjectProto] by simp

declare member_slot_size [termination_simp]

function deepSortJson :: "nat \<Rightarrow> jsval \<Rightarrow> canonical_exn + jsval" where
  "deepSortJson depth v = bindE (guardE (depth \<le> MAX_CANONICAL_DEPTH) CanonicalDepthError) (\<lambda>_. case v of
     JArr sl \<Rightarrow> bindE (mapE (\<lambda>s. if s = Hole then Inr Hole
         else bindE (deepSortJson (Suc depth) (slot_value s)) (\<lambda>w. Inr (Data w))) sl) (\<lambda>out. Inr (JArr out))
   | JObj pr ps \<Rightarrow> bindE (mapE (\<lambda>(k, s). bindE (deepSortJson (Suc depth) (slot_value s)) (\<lambda>w. Inr (k, Data w)))
         (sort_key fst ps)) (\<lambda>out. Inr (JObj ObjectProto (fold assignProp out [])))
   | _ \<Rightarrow> Inr v)"
  by pat_completeness auto

termination
  by (relation "measure (\<lambda>(d, v). size v)") (auto simp: slot_value_size member_slot_size)

definition canonicalJsonString :: "(rat \<Rightarrow> string) \<Rightarrow> jsval \<Rightarrow> canonical_exn + string option" where
  "canonicalJsonString nt v = bindE (deepSortJson 0 v) (\<lambda>w. Inr (js_stringify nt w))"

definition MAX_NESTED_DEPTH :: nat where
  "MAX_NESTED_DEPTH = 128"

text \<open>\<open>None\<close> is \<open>null\<close>; the parts of a value without a JSON text are joined as empty strings.\<close>

function boundedCanonicalJson :: "(rat \<Rightarrow> string) \<Rightarrow> nat \<Rightarrow> jsval \<Rightarrow> string option" where
  "boundedCanonicalJson nt depth v = (if depth > MAX_NESTED_DEPTH then None else case v of
     JArr sl \<Rightarrow> map_option (\<lambda>ts. ''['' @ commaSep ts @ '']'')
       (those (map (\<lambda>s. boundedCanonicalJson nt (Suc depth) (slot_value s)) sl))
   | JObj pr ps \<Rightarrow> map_option (\<lambda>ts. ''{'' @ commaSep ts @ ''}'')
       (those (map (\<lambda>(k, s). map_option (\<lambda>t. jsonQuote k @ '':'' @ t)
          (boundedCanonicalJson nt (Suc depth) (slot_value s))) (sort_key fst ps)))
   | _ \<Rightarrow> Some (case js_stringify nt v of None \<Rightarrow> [] | Some t \<Rightarrow> t))"
  by pat_completeness auto

termination
  by (relation "measure (\<lambda>(nt, d, v). size v)") (auto simp: slot_value_size member_slot_size)

declare deepSortJson.simps [simp del] boundedCanonicalJson.simps [simp del]

subsection \<open>What they compute\<close>

text \<open>The reference: a value with the members of every object in the order of a rank, and its depth.\<close>

fun sortKeys :: "(string \<Rightarrow> 'o :: linorder) \<Rightarrow> jsval \<Rightarrow> jsval" where
  "sortKeys r (JArr sl) = JArr (map (\<lambda>s. Data (sortKeys r (slot_value s))) sl)"
| "sortKeys r (JObj p ps) = JObj ObjectProto (map (\<lambda>(k, s). (k, Data (sortKeys r (slot_value s))))
     (sort_key (r \<circ> fst) ps))"
| "sortKeys r v = v"

fun levels :: "jsval \<Rightarrow> nat" where
  "levels (JArr sl) = foldr max (map (\<lambda>s. Suc (levels (slot_value s))) sl) 0"
| "levels (JObj p ps) = foldr max (map (\<lambda>(k, s). Suc (levels (slot_value s))) ps) 0"
| "levels v = 0"

lemma mapE_if: "mapE (\<lambda>x. if P x then Inr (g x) else Inl e) xs
    = (if \<forall>x \<in> set xs. P x then Inr (map g xs) else Inl e)"
  by (induction xs) auto

lemma those_if: "those (map (\<lambda>x. if P x then Some (g x) else None) xs)
    = (if \<forall>x \<in> set xs. P x then Some (map g xs) else None)"
  by (induction xs) auto

lemma foldr_max_bound: "(d :: nat) + foldr max xs 0 \<le> n \<longleftrightarrow> d \<le> n \<and> (\<forall>x \<in> set xs. d + x \<le> n)"
  by (induction xs) auto

lemma levels_bound:
  "d + levels (JArr sl) \<le> n \<longleftrightarrow> d \<le> n \<and> (\<forall>s \<in> set sl. Suc d + levels (slot_value s) \<le> n)"
  "d + levels (JObj p ps) \<le> n \<longleftrightarrow> d \<le> n \<and> (\<forall>(k, s) \<in> set ps. Suc d + levels (slot_value s) \<le> n)"
  by (auto simp: foldr_max_bound)

lemma deepSortJson_data:
  "jsonData v \<Longrightarrow> deepSortJson d v = (if d + levels v \<le> MAX_CANONICAL_DEPTH then Inr (sortKeys enumRank v)
     else Inl CanonicalDepthError)"
proof (induction v arbitrary: d rule: measure_induct_rule [of size])
  case (less v)
  show ?case
  proof (cases v)
    case (JArr sl)
    have item: "(if s = Hole then Inr Hole
         else bindE (deepSortJson (Suc d) (slot_value s)) (\<lambda>w. Inr (Data w)))
        = (if Suc d + levels (slot_value s) \<le> MAX_CANONICAL_DEPTH then Inr (Data (sortKeys enumRank (slot_value s)))
           else Inl CanonicalDepthError)" if "s \<in> set sl" for s
    proof -
      have "s = Data (slot_value s)" "jsonData (slot_value s)"
        using less.prems that JArr by (auto simp: list_all_iff)
      with less.IH [of "slot_value s" "Suc d"] slot_value_size [OF that] JArr show ?thesis by auto
    qed
    have loop: "mapE (\<lambda>s. if s = Hole then Inr Hole
         else bindE (deepSortJson (Suc d) (slot_value s)) (\<lambda>w. Inr (Data w))) sl
       = (if \<forall>s \<in> set sl. Suc d + levels (slot_value s) \<le> MAX_CANONICAL_DEPTH
          then Inr (map (\<lambda>s. Data (sortKeys enumRank (slot_value s))) sl) else Inl CanonicalDepthError)"
      by (rule trans, rule mapE_cong [OF refl item], assumption, rule mapE_if)
    show ?thesis
      unfolding JArr deepSortJson.simps [of d] levels_bound jsval.case loop by (simp add: guardE_def)
  next
    case (JObj p ps)
    let ?out = "map (\<lambda>(k, s). (k, Data (sortKeys enumRank (slot_value s))))"
    have item: "(case m of (k, s) \<Rightarrow> bindE (deepSortJson (Suc d) (slot_value s)) (\<lambda>w. Inr (k, Data w)))
        = (if Suc d + levels (slot_value (snd m)) \<le> MAX_CANONICAL_DEPTH
           then Inr (fst m, Data (sortKeys enumRank (slot_value (snd m)))) else Inl CanonicalDepthError)"
      if "m \<in> set (sort_key fst ps)" for m
    proof -
      obtain k s where m: "m = (k, s)" by (cases m)
      with that have ks: "(k, s) \<in> set ps" by simp
      then have "jsonData (slot_value s)" using less.prems JObj by (auto simp: list_all_iff)
      with less.IH [of "slot_value s" "Suc d"] member_size [OF ks] JObj m show ?thesis by auto
    qed
    have loop: "mapE (\<lambda>(k, s). bindE (deepSortJson (Suc d) (slot_value s)) (\<lambda>w. Inr (k, Data w))) (sort_key fst ps)
       = (if \<forall>m \<in> set (sort_key fst ps). Suc d + levels (slot_value (snd m)) \<le> MAX_CANONICAL_DEPTH
          then Inr (map (\<lambda>m. (fst m, Data (sortKeys enumRank (slot_value (snd m))))) (sort_key fst ps))
          else Inl CanonicalDepthError)"
      by (rule trans, rule mapE_cong [OF refl item], assumption, rule mapE_if)
    have out: "map (\<lambda>m. (fst m, Data (sortKeys enumRank (slot_value (snd m))))) ms = ?out ms" for ms :: "(string \<times> slot) list"
      by (simp add: case_prod_beta)
    have "distinct (map fst ps)" "''__proto__'' \<notin> fst ` set ps" using less.prems JObj by auto
    from assign_in_order [OF this, of "\<lambda>s. Data (sortKeys enumRank (slot_value s))"] show ?thesis
      unfolding JObj deepSortJson.simps [of d] levels_bound jsval.case loop out
      by (auto simp: guardE_def)
  qed (auto simp: deepSortJson.simps [of d] guardE_def)
qed

lemma sortKeys_data: "jsonData v \<Longrightarrow> jsonData (sortKeys r v)"
proof (induction v rule: measure_induct_rule [of size])
  case (less v)
  show ?case
  proof (cases v)
    case (JArr sl)
    have "jsonData (sortKeys r (slot_value s))" if "s \<in> set sl" for s
      using less.IH [of "slot_value s"] less.prems that JArr slot_value_size [OF that] by (auto simp: list_all_iff)
    with JArr show ?thesis by (simp add: list_all_iff)
  next
    case (JObj p ps)
    let ?g = "\<lambda>(k, s). (k, Data (sortKeys r (slot_value s)))"
    have vals: "jsonData (sortKeys r (slot_value s))" if "(k, s) \<in> set ps" for k s
      using less.IH [of "slot_value s"] less.prems that JObj member_size [OF that] by (auto simp: list_all_iff)
    have keys: "map fst (map ?g ms) = map fst ms" for ms by (induction ms) auto
    have "distinct (map fst (sort_key (r \<circ> fst) ps))"
      using less.prems JObj by (simp add: distinct_map)
    moreover have "fst ` set (map ?g (sort_key (r \<circ> fst) ps)) = fst ` set ps" by force
    ultimately have "distinct (map fst (map ?g (sort_key (r \<circ> fst) ps)))"
      "''__proto__'' \<notin> fst ` set (map ?g (sort_key (r \<circ> fst) ps))"
      using less.prems JObj unfolding keys by simp_all
    moreover have "list_all (\<lambda>(k, s). s = Data (slot_value s) \<and> jsonData (slot_value s)) (map ?g (sort_key (r \<circ> fst) ps))"
      using vals by (auto simp: list_all_iff)
    ultimately show ?thesis using JObj by (simp del: set_map)
  qed (use less.prems in auto)
qed

lemma boundedCanonicalJson_data:
  "jsonData v \<Longrightarrow> boundedCanonicalJson nt d v
     = (if d + levels v \<le> MAX_NESTED_DEPTH then Some (jsonText nt (sortKeys (\<lambda>k. k) v)) else None)"
proof (induction v arbitrary: d rule: measure_induct_rule [of size])
  case (less v)
  show ?case
  proof (cases v)
    case (JArr sl)
    have item: "boundedCanonicalJson nt (Suc d) (slot_value s)
        = (if Suc d + levels (slot_value s) \<le> MAX_NESTED_DEPTH then Some (jsonText nt (sortKeys (\<lambda>k. k) (slot_value s)))
           else None)" if "s \<in> set sl" for s
      using less.IH [of "slot_value s" "Suc d"] less.prems that JArr slot_value_size [OF that]
      by (auto simp: list_all_iff)
    have "map (\<lambda>s. boundedCanonicalJson nt (Suc d) (slot_value s)) sl
        = map (\<lambda>s. if Suc d + levels (slot_value s) \<le> MAX_NESTED_DEPTH
            then Some (jsonText nt (sortKeys (\<lambda>k. k) (slot_value s))) else None) sl"
      using item by (intro map_cong) simp_all
    then have "those (map (\<lambda>s. boundedCanonicalJson nt (Suc d) (slot_value s)) sl)
        = (if \<forall>s \<in> set sl. Suc d + levels (slot_value s) \<le> MAX_NESTED_DEPTH
           then Some (map (\<lambda>s. jsonText nt (sortKeys (\<lambda>k. k) (slot_value s))) sl) else None)"
      by (simp only: those_if)
    then show ?thesis
      unfolding JArr boundedCanonicalJson.simps [of nt d] levels_bound jsval.case
      by (simp add: jsonText_array comp_def)
  next
    case (JObj p ps)
    let ?ms = "sort_key fst ps"
    have item: "(case m of (k, s) \<Rightarrow> map_option (\<lambda>t. jsonQuote k @ '':'' @ t)
          (boundedCanonicalJson nt (Suc d) (slot_value s)))
        = (if Suc d + levels (slot_value (snd m)) \<le> MAX_NESTED_DEPTH
           then Some (memberText nt (fst m, Data (sortKeys (\<lambda>k. k) (slot_value (snd m))))) else None)"
      if "m \<in> set ?ms" for m
    proof -
      obtain k s where m: "m = (k, s)" by (cases m)
      with that have ks: "(k, s) \<in> set ps" by simp
      then have "jsonData (slot_value s)" using less.prems JObj by (auto simp: list_all_iff)
      with less.IH [of "slot_value s" "Suc d"] member_size [OF ks] JObj m show ?thesis
        by (auto simp: memberText_def)
    qed
    have "map (\<lambda>(k, s). map_option (\<lambda>t. jsonQuote k @ '':'' @ t)
          (boundedCanonicalJson nt (Suc d) (slot_value s))) ?ms
        = map (\<lambda>m. if Suc d + levels (slot_value (snd m)) \<le> MAX_NESTED_DEPTH
           then Some (memberText nt (fst m, Data (sortKeys (\<lambda>k. k) (slot_value (snd m))))) else None) ?ms"
      using item by (intro map_cong) simp_all
    then have those: "those (map (\<lambda>(k, s). map_option (\<lambda>t. jsonQuote k @ '':'' @ t)
          (boundedCanonicalJson nt (Suc d) (slot_value s))) ?ms)
        = (if \<forall>m \<in> set ?ms. Suc d + levels (slot_value (snd m)) \<le> MAX_NESTED_DEPTH
           then Some (map (\<lambda>m. memberText nt (fst m, Data (sortKeys (\<lambda>k. k) (slot_value (snd m))))) ?ms) else None)"
      by (simp only: those_if)
    have ident: "(\<lambda>k. k) \<circ> fst = (fst :: string \<times> slot \<Rightarrow> string)" by (simp add: comp_def)
    have sorted: "jsonData (sortKeys (\<lambda>k. k) (JObj p ps))" using sortKeys_data less.prems JObj by blast
    have members: "map (memberText nt) (map (\<lambda>(k, s). (k, Data (sortKeys (\<lambda>k. k) (slot_value s)))) ?ms)
        = map (\<lambda>m. memberText nt (fst m, Data (sortKeys (\<lambda>k. k) (slot_value (snd m))))) ?ms"
      by (simp add: case_prod_beta comp_def)
    have "jsonText nt (sortKeys (\<lambda>k. k) (JObj p ps))
        = ''{'' @ commaSep (map (\<lambda>m. memberText nt (fst m, Data (sortKeys (\<lambda>k. k) (slot_value (snd m))))) ?ms) @ ''}''"
      using jsonText_object [OF sorted [unfolded sortKeys.simps], of nt, unfolded ident]
      unfolding sortKeys.simps ident members .
    then show ?thesis
      unfolding JObj boundedCanonicalJson.simps [of nt d] levels_bound jsval.case those
      by (auto simp: not_le case_prod_beta)
  qed (use less.prems in \<open>auto simp: boundedCanonicalJson.simps [of nt d] jsonText_def\<close>)
qed

subsection \<open>Equality up to the order of properties\<close>

inductive sameJson :: "jsval \<Rightarrow> jsval \<Rightarrow> bool" where
  same_value: "sameJson v v"
| same_array: "length sl = length ul \<Longrightarrow> (\<And>i. i < length sl \<Longrightarrow> sameJson (slot_value (sl ! i)) (slot_value (ul ! i)))
    \<Longrightarrow> sameJson (JArr sl) (JArr ul)"
| same_object: "fst ` set ps = fst ` set qs \<Longrightarrow> (\<And>k. sameJson (js_get ps k) (js_get qs k))
    \<Longrightarrow> sameJson (JObj p ps) (JObj q qs)"

lemma js_get_member: "distinct (map fst ps) \<Longrightarrow> (k, s) \<in> set ps \<Longrightarrow> js_get ps k = slot_value s"
  by (simp add: js_get_def)

lemma js_get_missing: "k \<notin> fst ` set ps \<Longrightarrow> js_get ps k = JUndef"
  by (simp add: js_get_def split: option.split) (metis map_of_eq_None_iff option.distinct(1))

lemma js_get_data: "jsonData (JObj p ps) \<Longrightarrow> k \<in> fst ` set ps \<Longrightarrow> jsonData (js_get ps k)"
  by (auto simp: js_get_member list_all_iff)

text \<open>The members of a sorted object, as a set.\<close>

lemma sorted_members:
  assumes "distinct (map fst ps)"
  shows "set (map (\<lambda>(k, s). (k, Data (sortKeys r (slot_value s)))) (sort_key (r \<circ> fst) ps))
    = (\<lambda>k. (k, Data (sortKeys r (js_get ps k)))) ` fst ` set ps"
  using js_get_member [OF assms] by (force simp: image_iff)

lemma sortKeys_sameJson:
  assumes "inj r"
  shows "sameJson v w \<Longrightarrow> jsonData v \<Longrightarrow> jsonData w \<Longrightarrow> sortKeys r v = sortKeys r w"
proof (induction rule: sameJson.induct)
  case (same_array sl ul)
  have "sortKeys r (slot_value (sl ! i)) = sortKeys r (slot_value (ul ! i))" if "i < length sl" for i
    using same_array that by (auto simp: list_all_length)
  with same_array.hyps(1) show ?case by (auto intro: nth_equalityI)
next
  case (same_object ps qs p q)
  have "sortKeys r (js_get ps k) = sortKeys r (js_get qs k)" if "k \<in> fst ` set ps" for k
    using same_object.IH [of k] same_object.prems js_get_data that same_object.hyps(1) by metis
  with same_object.hyps(1) have "set (map (\<lambda>(k, s). (k, Data (sortKeys r (slot_value s)))) (sort_key (r \<circ> fst) ps))
      = set (map (\<lambda>(k, s). (k, Data (sortKeys r (slot_value s)))) (sort_key (r \<circ> fst) qs))"
    using same_object.prems sorted_members [of ps r] sorted_members [of qs r] by (simp del: set_map)
  moreover have "byRank r (map (\<lambda>(k, s). (k, Data (sortKeys r (slot_value s)))) (sort_key (r \<circ> fst) ms))"
    if "distinct (map fst ms)" for ms :: "(string \<times> slot) list"
    by (simp only: byRank_values) (rule byRank_sort [OF assms that])
  ultimately have "map (\<lambda>(k, s). (k, Data (sortKeys r (slot_value s)))) (sort_key (r \<circ> fst) ps)
      = map (\<lambda>(k, s). (k, Data (sortKeys r (slot_value s)))) (sort_key (r \<circ> fst) qs)"
    using same_object.prems by (intro byRank_unique [of r]) simp_all
  then show ?case by simp
qed simp

lemma sameJson_sortKeys:
  "jsonData v \<Longrightarrow> jsonData w \<Longrightarrow> sortKeys r v = sortKeys r w \<Longrightarrow> sameJson v w"
proof (induction v arbitrary: w rule: measure_induct_rule [of size])
  case (less v)
  show ?case
  proof (cases v)
    case (JArr sl)
    with less.prems(3) obtain ul where w: "w = JArr ul" by (cases w) auto
    with less.prems(3) JArr have eq: "map (\<lambda>s. sortKeys r (slot_value s)) sl = map (\<lambda>s. sortKeys r (slot_value s)) ul"
      by (auto simp: list_eq_iff_nth_eq)
    then have len: "length sl = length ul" by (rule map_eq_imp_length_eq)
    have "sameJson (slot_value (sl ! i)) (slot_value (ul ! i))" if "i < length sl" for i
    proof (rule less.IH)
      show "size (slot_value (sl ! i)) < size v" using that JArr slot_value_size [of "sl ! i" sl] by simp
      show "sortKeys r (slot_value (sl ! i)) = sortKeys r (slot_value (ul ! i))"
        using eq that len by (metis nth_map)
    qed (use less.prems JArr w that len in \<open>auto simp: list_all_length\<close>)
    with len JArr w show ?thesis by (simp add: same_array)
  next
    case (JObj p ps)
    with less.prems(3) obtain q qs where w: "w = JObj q qs" by (cases w) auto
    have d: "distinct (map fst ps)" "distinct (map fst qs)" using less.prems JObj w by auto
    have eq: "(\<lambda>k. (k, Data (sortKeys r (js_get ps k)))) ` fst ` set ps
        = (\<lambda>k. (k, Data (sortKeys r (js_get qs k)))) ` fst ` set qs"
      using less.prems(3) sorted_members [OF d(1), of r] sorted_members [OF d(2), of r] JObj w by simp
    from arg_cong [OF eq, of "image fst"] have keys: "fst ` set ps = fst ` set qs"
      by (simp add: image_image)
    have "sameJson (js_get ps k) (js_get qs k)" for k
    proof (cases "k \<in> fst ` set ps")
      case True
      then obtain s where s: "(k, s) \<in> set ps" by auto
      have "sortKeys r (js_get ps k) = sortKeys r (js_get qs k)"
      proof -
        from True eq have "(k, Data (sortKeys r (js_get ps k))) \<in> (\<lambda>k. (k, Data (sortKeys r (js_get qs k)))) ` fst ` set qs"
          by blast
        then show ?thesis by blast
      qed
      moreover have "size (js_get ps k) < size v"
        using js_get_member [OF d(1) s] member_size [OF s, of p] JObj by simp
      moreover have "jsonData (js_get ps k)" "jsonData (js_get qs k)"
        using js_get_data less.prems(1,2) True keys JObj w by metis+
      ultimately show ?thesis using less.IH by blast
    next
      case False
      with keys show ?thesis by (simp add: js_get_missing same_value)
    qed
    with keys JObj w show ?thesis by (simp add: same_object)
  qed (use less.prems in \<open>cases w; auto intro: same_value\<close>)+
qed

theorem sortKeys_iff: "inj r \<Longrightarrow> jsonData v \<Longrightarrow> jsonData w \<Longrightarrow> sortKeys r v = sortKeys r w \<longleftrightarrow> sameJson v w"
  using sortKeys_sameJson sameJson_sortKeys by blast

subsection \<open>Properties\<close>

lemma canonicalJsonString_data:
  "jsonData v \<Longrightarrow> canonicalJsonString nt v = (if levels v \<le> MAX_CANONICAL_DEPTH
     then Inr (Some (jsonText nt (sortKeys enumRank v))) else Inl CanonicalDepthError)"
  by (simp add: canonicalJsonString_def deepSortJson_data js_stringify_data sortKeys_data)

lemma jsonText_eq_iff:
  assumes "numberTexts nt" "jsonData v" "jsonData w"
  shows "jsonText nt v = jsonText nt w \<longleftrightarrow> v = w"
  using stringify_injective [OF assms] js_stringify_data [OF assms(2)] js_stringify_data [OF assms(3)] by auto

lemma canonical_text_identity:
  assumes "numberTexts nt" and "jsonData v" and "jsonData w" and "levels w \<le> 128"
  shows "(case canonicalJsonString nt v of
       Inl _ \<Rightarrow> levels v > 128
     | Inr t \<Rightarrow> levels v \<le> 128 \<and> (canonicalJsonString nt w = Inr t \<longleftrightarrow> sameJson v w))
   \<and> (case boundedCanonicalJson nt 0 v of
       None \<Rightarrow> levels v > 128
     | Some t \<Rightarrow> levels v \<le> 128 \<and> (boundedCanonicalJson nt 0 w = Some t \<longleftrightarrow> sameJson v w))"
proof -
  have same: "jsonText nt (sortKeys r v) = jsonText nt (sortKeys r w) \<longleftrightarrow> sameJson v w" if "inj r"
    for r :: "string \<Rightarrow> 'o :: linorder"
    using jsonText_eq_iff [OF assms(1)] sortKeys_data [OF assms(2)] sortKeys_data [OF assms(3)]
      sortKeys_iff [OF that assms(2,3)] by blast
  from same [OF inj_enumRank] have enum: "jsonText nt (sortKeys enumRank w) = jsonText nt (sortKeys enumRank v) \<longleftrightarrow> sameJson v w"
    by metis
  have "inj (\<lambda>k :: string. k)" by (simp add: inj_def)
  from same [OF this] have lex: "jsonText nt (sortKeys (\<lambda>k. k) w) = jsonText nt (sortKeys (\<lambda>k. k) v) \<longleftrightarrow> sameJson v w"
    by metis
  show ?thesis
    using assms(4) enum lex
    by (simp add: canonicalJsonString_data boundedCanonicalJson_data assms(2,3) MAX_CANONICAL_DEPTH_def MAX_NESTED_DEPTH_def)
qed

text \<open>Both canonical texts decide equality of JSON data up to the order of properties: within the
  depth limit of 128, two data get the same text exactly when they are equal but for the order in
  which their objects list their members, so a hash of the text identifies the value; beyond the
  limit \<open>canonicalJsonString\<close> throws its own error and \<open>boundedCanonicalJson\<close> returns \<open>null\<close>.\<close>

theorem canonical_text_is_identity:
  assumes "numberTexts nt" and "jsonData v" and "jsonData w" and "levels w \<le> 128"
  shows "(case canonicalJsonString nt v of
       Inl _ \<Rightarrow> levels v > 128
     | Inr t \<Rightarrow> levels v \<le> 128 \<and> (canonicalJsonString nt w = Inr t \<longleftrightarrow> sameJson v w))
   \<and> (case boundedCanonicalJson nt 0 v of
       None \<Rightarrow> levels v > 128
     | Some t \<Rightarrow> levels v \<le> 128 \<and> (boundedCanonicalJson nt 0 w = Some t \<longleftrightarrow> sameJson v w))"
  using assms by (rule canonical_text_identity)


text \<open>A law-abiding text of numbers.\<close>

definition unaryText :: "rat \<Rightarrow> string" where
  "unaryText r = (case quotient_of r of (a, b) \<Rightarrow> (if a < 0 then CHR ''-'' else CHR ''+'') #
     replicate (nat \<bar>a\<bar>) (CHR ''1'') @ CHR ''.'' # replicate (nat b) (CHR ''1''))"

lemma replicate_point: "replicate m (CHR ''1'') @ CHR ''.'' # s = replicate n (CHR ''1'') @ CHR ''.'' # t \<Longrightarrow> m = n \<and> s = t"
  by (induction m arbitrary: n) (case_tac n; force)+

lemma numberTexts_unary: "numberTexts unaryText"
proof -
  have "inj unaryText"
  proof (rule injI)
    fix q r assume eq: "unaryText q = unaryText r"
    obtain a b c d where ab: "quotient_of q = (a, b)" and cd: "quotient_of r = (c, d)"
      by (cases "quotient_of q"; cases "quotient_of r")
    have sgn: "a < 0 \<longleftrightarrow> c < 0" using eq ab cd by (auto simp: unaryText_def split: if_splits)
    from eq ab cd have "replicate (nat \<bar>a\<bar>) (CHR ''1'') @ CHR ''.'' # replicate (nat b) (CHR ''1'')
        = replicate (nat \<bar>c\<bar>) (CHR ''1'') @ CHR ''.'' # replicate (nat d) (CHR ''1'')"
      by (simp add: unaryText_def)
    from replicate_point [OF this] have "nat \<bar>a\<bar> = nat \<bar>c\<bar>" "nat b = nat d"
      by (auto dest: arg_cong [of _ _ length])
    with sgn quotient_of_denom_pos [OF ab] quotient_of_denom_pos [OF cd] have "a = c" "b = d" by linarith+
    with ab cd show "q = r" by (metis quotient_of_inject)
  qed
  moreover have "unaryText r \<noteq> [] \<and> hd (unaryText r) \<noteq> CHR ''e'' \<and> list_all numberChar (unaryText r)" for r
  proof -
    have chars: "numberChar (CHR ''-'')" "numberChar (CHR ''+'')" "numberChar (CHR ''.'')" "numberChar (CHR ''1'')"
      by (simp_all add: numberChar_def is_digit_def code_of_def)
    have "list_all numberChar (replicate n (CHR ''1''))" for n using chars(4) by (induction n) auto
    with chars show ?thesis by (simp add: unaryText_def split: prod.split)
  qed
  ultimately show ?thesis unfolding numberTexts_def by blast
qed

definition sampleJson :: "string list \<Rightarrow> jsval" where
  "sampleJson ks = JObj ObjectProto (map (\<lambda>k. (k, Data (JArr [Data (JStr k), Data JNull]))) ks)"

lemma canonical_text_is_identity_witness:
  "canonicalJsonString unaryText (sampleJson [''b'', ''a'']) = canonicalJsonString unaryText (sampleJson [''a'', ''b''])
   \<and> canonicalJsonString unaryText (sampleJson [''b'']) \<noteq> canonicalJsonString unaryText (sampleJson [''a'', ''b''])"
proof -
  let ?v = "sampleJson [''b'', ''a'']" and ?u = "sampleJson [''b'']" and ?w = "sampleJson [''a'', ''b'']"
  have ok: "jsonData ?v" "jsonData ?u" "jsonData ?w" "levels ?w \<le> 128" "levels ?v \<le> 128" "levels ?u \<le> 128"
    by (simp_all add: sampleJson_def)
  have "sameJson ?v ?w"
    unfolding sampleJson_def by (rule same_object) (auto simp: js_get_def same_value)
  moreover have "\<not> sameJson ?u ?w"
    by (auto simp: sampleJson_def elim: sameJson.cases)
  ultimately show ?thesis
    using canonical_text_is_identity [OF numberTexts_unary ok(1,3,4)] canonical_text_is_identity [OF numberTexts_unary ok(2,3,4)] ok(5,6)
    by (auto split: sum.splits)
qed

end
