(* ===== verification/Service_Telemetry.thy ===== *)
theory Service_Telemetry
  imports Webhook_Adapter Graph_Errors Canonical_Json
begin

section \<open>Telemetry of the service\<close>

text \<open>
  \<open>packages/service/src/telemetry.ts\<close> and the registry, the error ledger and the sinks of
  \<open>packages/service/src/index.ts\<close>.  A JavaScript \<open>Map\<close> is an association list in insertion order.
  Numbers are exact rationals, so the rounding of a histogram's sum is not modelled.  A sink is a
  record of actions on a telemetry state: the registry behind \<open>/metrics\<close>, the state of the sink the
  user supplied, and the calls logged as failed.
\<close>

subsection \<open>Attributes\<close>

type_synonym attributes = "(string \<times> jsval) list"

definition OTEL_httpRoute :: string where "OTEL_httpRoute = ''http.route''"
definition OTEL_httpMethod :: string where "OTEL_httpMethod = ''http.request.method''"
definition OTEL_httpStatusClass :: string where "OTEL_httpStatusClass = ''http.response.status.class''"
definition OTEL_httpStatusCode :: string where "OTEL_httpStatusCode = ''http.status_code''"
definition OTEL_webhookUpdateKind :: string where "OTEL_webhookUpdateKind = ''wats.webhook.update_kind''"
definition OTEL_graphEndpointFamily :: string where "OTEL_graphEndpointFamily = ''wats.graph.endpoint_family''"
definition OTEL_persistenceAdapter :: string where "OTEL_persistenceAdapter = ''wats.persistence.adapter''"
definition OTEL_operationOutcome :: string where "OTEL_operationOutcome = ''wats.operation.outcome''"

lemmas OTEL_ATTR = OTEL_httpRoute_def OTEL_httpMethod_def OTEL_httpStatusClass_def OTEL_httpStatusCode_def
  OTEL_webhookUpdateKind_def OTEL_graphEndpointFamily_def OTEL_persistenceAdapter_def OTEL_operationOutcome_def

definition httpTelemetryAttributes :: "string \<Rightarrow> string \<Rightarrow> nat \<Rightarrow> string \<Rightarrow> attributes" where
  "httpTelemetryAttributes route meth statusCode statusClass =
     [(OTEL_httpRoute, JStr route), (OTEL_httpMethod, JStr (js_upper meth)),
      (OTEL_httpStatusCode, natText statusCode), (OTEL_httpStatusClass, JStr statusClass)]"

definition graphTelemetryAttributes :: "string \<Rightarrow> int \<Rightarrow> string \<Rightarrow> string \<Rightarrow> attributes" where
  "graphTelemetryAttributes endpointFamily statusCode statusClass outcome =
     [(OTEL_graphEndpointFamily, JStr endpointFamily), (OTEL_httpStatusCode, JNum (Fin (of_int statusCode))),
      (OTEL_httpStatusClass, JStr statusClass), (OTEL_operationOutcome, JStr outcome)]"

definition sendTelemetryAttributes :: "string \<Rightarrow> string \<Rightarrow> attributes" where
  "sendTelemetryAttributes endpointFamily outcome =
     [(OTEL_graphEndpointFamily, JStr endpointFamily), (OTEL_operationOutcome, JStr outcome)]"

definition webhookTelemetryAttributes :: "string \<Rightarrow> string \<Rightarrow> attributes" where
  "webhookTelemetryAttributes updateKind outcome =
     [(OTEL_webhookUpdateKind, JStr updateKind), (OTEL_operationOutcome, JStr outcome)]"

definition persistenceTelemetryAttributes :: "string \<Rightarrow> string \<Rightarrow> attributes" where
  "persistenceTelemetryAttributes adapterName outcome =
     [(OTEL_persistenceAdapter, JStr adapterName), (OTEL_operationOutcome, JStr outcome)]"

subsection \<open>Clamping\<close>

definition METRIC_UPDATE_KINDS :: "string list" where
  "METRIC_UPDATE_KINDS = [''message'', ''status'', ''account'', ''unknown'', ''callConnect'', ''callTerminate'',
     ''callStatus'', ''groupLifecycle'', ''groupParticipants'', ''groupSettings'', ''groupStatus'',
     ''userPreferences'', ''system'', ''chatOpened'']"

definition statusClassOf :: "int \<Rightarrow> string" where
  "statusClassOf status =
     (if status \<ge> 100 \<and> status < 200 then ''unknown''
      else if status \<ge> 200 \<and> status < 300 then ''2xx''
      else if status \<ge> 300 \<and> status < 400 then ''3xx''
      else if status \<ge> 400 \<and> status < 500 then ''4xx''
      else if status \<ge> 500 \<and> status < 600 then ''5xx''
      else ''unknown'')"

definition clampToEnum :: "string \<Rightarrow> string list \<Rightarrow> string" where
  "clampToEnum v allowed = (if v \<in> set allowed then v else ''unknown'')"

subsection \<open>Label keys\<close>

definition escapeLabelChar :: "char \<Rightarrow> string" where
  "escapeLabelChar c = (if c = CHR 0x5C then [CHR 0x5C, CHR 0x5C] else if c = CHR 0x22 then [CHR 0x5C, CHR 0x22]
     else if c = CHR 0x0A then [CHR 0x5C, CHR ''n''] else [c])"

text \<open>Three global replacements, the backslash first; no replacement introduces what a later one looks for
  but the backslash, so they amount to one pass.\<close>

definition escapeLabelValue :: "string \<Rightarrow> string" where
  "escapeLabelValue s = concat (map escapeLabelChar s)"

type_synonym labels = "(string \<times> string) list"

definition labelKey :: "labels \<Rightarrow> string" where
  "labelKey ls = (let keys = sort (map fst ls) in
     if keys = [] then []
     else ''{'' @ joinWith '','' (map (\<lambda>k. k @ ''='' @ [CHR 0x22] @ escapeLabelValue (the (map_of ls k)) @ [CHR 0x22]) keys) @ ''}'')"

subsection \<open>The registry\<close>

record histogram_state =
  hs_bucketCounts :: "nat list"
  hs_sum :: rat
  hs_count :: nat

type_synonym 'v series = "(string \<times> 'v) list"

record metrics_registry =
  mr_counters :: "(string \<times> rat series) list"
  mr_histograms :: "(string \<times> histogram_state series) list"
  mr_gauges :: "(string \<times> rat series) list"
  mr_counterHelp :: "(string \<times> string) list"
  mr_histogramHelp :: "(string \<times> string) list"
  mr_gaugeHelp :: "(string \<times> string) list"
  mr_gaugeLabelNames :: "(string \<times> string list) list"
  mr_buckets :: "rat list"

datatype telemetry_exn = BadMetricValue jsnum | Undeclared string | GaugeLabels string | UserSinkError string

definition defaultBuckets :: "rat list" where
  "defaultBuckets = [5/1000, 1/100, 25/1000, 5/100, 1/10, 25/100, 5/10, 1, 25/10, 5, 10]"

definition newRegistry :: "rat list \<Rightarrow> metrics_registry" where
  "newRegistry buckets = \<lparr> mr_counters = [], mr_histograms = [], mr_gauges = [], mr_counterHelp = [],
     mr_histogramHelp = [], mr_gaugeHelp = [], mr_gaugeLabelNames = [], mr_buckets = buckets \<rparr>"

definition mapHas :: "(string \<times> 'v) list \<Rightarrow> string \<Rightarrow> bool" where
  "mapHas m k = (map_of m k \<noteq> None)"

definition declareCounter :: "string \<Rightarrow> string \<Rightarrow> metrics_registry \<Rightarrow> metrics_registry" where
  "declareCounter name help r = (if mapHas (mr_counters r) name then r else r\<lparr>mr_counters := mapSet name [] (mr_counters r)\<rparr>)
     \<lparr>mr_counterHelp := mapSet name help (mr_counterHelp r)\<rparr>"

definition declareHistogram :: "string \<Rightarrow> string \<Rightarrow> metrics_registry \<Rightarrow> metrics_registry" where
  "declareHistogram name help r = (if mapHas (mr_histograms r) name then r else r\<lparr>mr_histograms := mapSet name [] (mr_histograms r)\<rparr>)
     \<lparr>mr_histogramHelp := mapSet name help (mr_histogramHelp r)\<rparr>"

definition declareGauge :: "string \<Rightarrow> string \<Rightarrow> string list \<Rightarrow> metrics_registry \<Rightarrow> metrics_registry" where
  "declareGauge name help labelNames r = (if mapHas (mr_gauges r) name then r else r\<lparr>mr_gauges := mapSet name [] (mr_gauges r)\<rparr>)
     \<lparr>mr_gaugeHelp := mapSet name help (mr_gaugeHelp r),
      mr_gaugeLabelNames := mapSet name labelNames (mr_gaugeLabelNames r)\<rparr>"

text \<open>\<open>Number.isFinite(value) && value >= 0\<close>\<close>

definition metricValue :: "jsnum \<Rightarrow> telemetry_exn + rat" where
  "metricValue x = (case x of Fin r \<Rightarrow> if r < 0 then Inl (BadMetricValue x) else Inr r | _ \<Rightarrow> Inl (BadMetricValue x))"

definition seriesGet :: "'v \<Rightarrow> 'v series \<Rightarrow> string \<Rightarrow> 'v" where
  "seriesGet d series key = (case map_of series key of None \<Rightarrow> d | Some v \<Rightarrow> v)"

definition incrementCounter :: "string \<Rightarrow> labels \<Rightarrow> jsnum \<Rightarrow> (metrics_registry, telemetry_exn, unit) act" where
  "incrementCounter name ls v r = (case metricValue v of
     Inl e \<Rightarrow> (Inl e, r)
   | Inr x \<Rightarrow> (case map_of (mr_counters r) name of
       None \<Rightarrow> (Inl (Undeclared name), r)
     | Some series \<Rightarrow> (Inr (), r\<lparr>mr_counters :=
         mapSet name (mapSet (labelKey ls) (seriesGet 0 series (labelKey ls) + x) series) (mr_counters r)\<rparr>)))"

definition observe :: "rat list \<Rightarrow> rat \<Rightarrow> histogram_state \<Rightarrow> histogram_state" where
  "observe buckets x st = \<lparr> hs_bucketCounts = map2 (\<lambda>b n. if x \<le> b then n + 1 else n) buckets (hs_bucketCounts st),
     hs_sum = hs_sum st + x, hs_count = hs_count st + 1 \<rparr>"

definition newHistogram :: "rat list \<Rightarrow> histogram_state" where
  "newHistogram buckets = \<lparr> hs_bucketCounts = replicate (length buckets) 0, hs_sum = 0, hs_count = 0 \<rparr>"

definition observeHistogram :: "string \<Rightarrow> labels \<Rightarrow> jsnum \<Rightarrow> (metrics_registry, telemetry_exn, unit) act" where
  "observeHistogram name ls v r = (case metricValue v of
     Inl e \<Rightarrow> (Inl e, r)
   | Inr x \<Rightarrow> (case map_of (mr_histograms r) name of
       None \<Rightarrow> (Inl (Undeclared name), r)
     | Some series \<Rightarrow> (Inr (), r\<lparr>mr_histograms := mapSet name (mapSet (labelKey ls)
         (observe (mr_buckets r) x (seriesGet (newHistogram (mr_buckets r)) series (labelKey ls))) series) (mr_histograms r)\<rparr>)))"

definition setGauge :: "string \<Rightarrow> jsnum \<Rightarrow> labels \<Rightarrow> (metrics_registry, telemetry_exn, unit) act" where
  "setGauge name v ls r = (case metricValue v of
     Inl e \<Rightarrow> (Inl e, r)
   | Inr x \<Rightarrow> (case map_of (mr_gauges r) name of
       None \<Rightarrow> (Inl (Undeclared name), r)
     | Some series \<Rightarrow>
         if (case map_of (mr_gaugeLabelNames r) name of None \<Rightarrow> False
             | Some allowed \<Rightarrow> length ls \<noteq> card (set allowed) \<or> list_ex (\<lambda>(k, _). k \<notin> set allowed) ls)
         then (Inl (GaugeLabels name), r)
         else (Inr (), r\<lparr>mr_gauges := mapSet name (mapSet (labelKey ls) x series) (mr_gauges r)\<rparr>)))"

subsection \<open>Exposition\<close>

definition familyHead :: "(string \<times> string) list \<Rightarrow> string \<Rightarrow> string \<Rightarrow> string list" where
  "familyHead helps name kind = [''# HELP '' @ name @ '' '' @ seriesGet [] helps name, ''# TYPE '' @ name @ '' '' @ kind]"

definition flatFamily :: "(rat \<Rightarrow> string) \<Rightarrow> (string \<times> string) list \<Rightarrow> string \<Rightarrow> string \<times> rat series \<Rightarrow> string list" where
  "flatFamily nt helps kind f = (case f of (name, series) \<Rightarrow>
     if series = [] then [] else familyHead helps name kind @ map (\<lambda>(key, v). name @ key @ '' '' @ nt v) series)"

definition baseLabels :: "string \<Rightarrow> string" where
  "baseLabels key = butlast (tl key)"

definition bucketLabel :: "string \<Rightarrow> string \<Rightarrow> string" where
  "bucketLabel key le = (let b = baseLabels key in
     ''{'' @ (if b = [] then [] else b @ '','') @ ''le='' @ [CHR 0x22] @ le @ [CHR 0x22] @ ''}'')"

definition histogramLines :: "(rat \<Rightarrow> string) \<Rightarrow> rat list \<Rightarrow> string \<Rightarrow> string \<times> histogram_state \<Rightarrow> string list" where
  "histogramLines nt buckets name s = (case s of (key, st) \<Rightarrow>
     map2 (\<lambda>b n. name @ ''_bucket'' @ bucketLabel key (nt b) @ '' '' @ showNat n) buckets (hs_bucketCounts st)
     @ [name @ ''_bucket'' @ bucketLabel key ''+Inf'' @ '' '' @ showNat (hs_count st),
        name @ ''_sum'' @ key @ '' '' @ nt (hs_sum st), name @ ''_count'' @ key @ '' '' @ showNat (hs_count st)])"

definition histogramFamily :: "(rat \<Rightarrow> string) \<Rightarrow> metrics_registry \<Rightarrow> string \<times> histogram_state series \<Rightarrow> string list" where
  "histogramFamily nt r f = (case f of (name, series) \<Rightarrow> if series = [] then []
     else familyHead (mr_histogramHelp r) name ''histogram'' @ concat (map (histogramLines nt (mr_buckets r) name) series))"

definition newline :: string where "newline = [CHR 0x0A]"

definition render :: "(rat \<Rightarrow> string) \<Rightarrow> metrics_registry \<Rightarrow> string" where
  "render nt r = (let ls = concat (map (flatFamily nt (mr_counterHelp r) ''counter'') (mr_counters r))
       @ concat (map (histogramFamily nt r) (mr_histograms r))
       @ concat (map (flatFamily nt (mr_gaugeHelp r) ''gauge'') (mr_gauges r)) in
     if ls = [] then [] else joinWith newline ls @ newline)"

text \<open>A \<open>Set\<close> keeps the first occurrence.\<close>

definition families :: "metrics_registry \<Rightarrow> string list" where
  "families r = rev (remdups (rev (map fst (mr_counters r) @ map fst (mr_histograms r) @ map fst (mr_gauges r))))"

definition createMetricsRegistry :: metrics_registry where
  "createMetricsRegistry =
     declareCounter ''outbox_processed_total'' ''Outbox worker items processed by outcome.''
     (declareGauge ''outbox_depth'' ''Number of items in the persistence outbox, partitioned by adapter and state.''
        [''adapter'', ''state'']
     (declareCounter ''persistence_operations_total'' ''Persistence store operations by adapter and outcome.''
     (declareCounter ''send_outcomes_total'' ''Message send attempts by outcome.''
     (declareCounter ''graph_operations_total'' ''Outbound Graph API calls by endpoint family and status class.''
     (declareCounter ''webhook_normalization_total'' ''Webhook envelopes normalized by update kind and outcome.''
     (declareHistogram ''http_request_duration_seconds'' ''Request duration in seconds.''
     (declareCounter ''http_requests_total'' ''Inbound HTTP requests to the service.''
     (newRegistry defaultBuckets))))))))"

subsection \<open>The error ledger\<close>

datatype thrown_value = ThrownNullish | ThrownText | ThrownError string | ThrownObject "string option" | ThrownOther

definition MAX_ERROR_CLASSES :: nat where "MAX_ERROR_CLASSES = 10"
definition MAX_ERROR_NAME_LENGTH :: nat where "MAX_ERROR_NAME_LENGTH = 80"

type_synonym error_ledger = "(string \<times> nat) list"

definition classNameOf :: "thrown_value \<Rightarrow> string" where
  "classNameOf e = (case e of
     ThrownNullish \<Rightarrow> ''Error''
   | ThrownText \<Rightarrow> ''Error''
   | ThrownError name \<Rightarrow> if name = [] then ''Error'' else name
   | ThrownObject (Some name) \<Rightarrow> name
   | _ \<Rightarrow> ''Error'')"

definition ledgerKey :: "thrown_value \<Rightarrow> string" where
  "ledgerKey e = (let name = classNameOf e in
     if length name > MAX_ERROR_NAME_LENGTH then take MAX_ERROR_NAME_LENGTH name @ ''...'' else name)"

definition recordError :: "thrown_value \<Rightarrow> error_ledger \<Rightarrow> error_ledger" where
  "recordError e counts =
     (let key = ledgerKey e;
          counted = mapSet key (seriesGet 0 counts key + 1) counts in
      if length counted > MAX_ERROR_CLASSES then tl counted else counted)"

text \<open>\<open>Object.fromEntries\<close>: array indices come first.\<close>

definition snapshotErrors :: "error_ledger \<Rightarrow> jsval" where
  "snapshotErrors counts = JObj ObjectProto (fold assignProp (map (\<lambda>(k, n). (k, Data (natText n))) counts) [])"

subsection \<open>Sinks\<close>

record 'w telemetry_sink =
  ts_incrementCounter :: "string \<Rightarrow> jsnum \<Rightarrow> attributes \<Rightarrow> ('w, telemetry_exn, unit) act"
  ts_recordHistogram :: "string \<Rightarrow> jsnum \<Rightarrow> attributes \<Rightarrow> ('w, telemetry_exn, unit) act"
  ts_recordSpan :: "(string \<Rightarrow> int \<Rightarrow> int \<Rightarrow> attributes \<Rightarrow> ('w, telemetry_exn, unit) act) option"
  ts_recordEvent :: "(string \<Rightarrow> attributes \<Rightarrow> int option \<Rightarrow> ('w, telemetry_exn, unit) act) option"

record 'u telemetry_state =
  tm_registry :: metrics_registry
  tm_user :: 'u
  tm_stderr :: "(string \<times> telemetry_exn) list"

definition NOOP_TELEMETRY_SINK :: "'w telemetry_sink" where
  "NOOP_TELEMETRY_SINK = \<lparr> ts_incrementCounter = (\<lambda>_ _ _. retA ()), ts_recordHistogram = (\<lambda>_ _ _. retA ()),
     ts_recordSpan = None, ts_recordEvent = None \<rparr>"

text \<open>\<open>#getString\<close>: a missing attribute is empty, a number or boolean its text.\<close>

definition getAttribute :: "(rat \<Rightarrow> string) \<Rightarrow> attributes \<Rightarrow> string \<Rightarrow> string" where
  "getAttribute nt attrs key = (case map_of attrs key of
     Some (JStr s) \<Rightarrow> s
   | Some (JNum (Fin r)) \<Rightarrow> nt r
   | Some (JNum NaN) \<Rightarrow> ''NaN''
   | Some (JNum PosInf) \<Rightarrow> ''Infinity''
   | Some (JNum NegInf) \<Rightarrow> ''-Infinity''
   | Some (JBool b) \<Rightarrow> if b then ''true'' else ''false''
   | _ \<Rightarrow> [])"

definition httpLabels :: "(rat \<Rightarrow> string) \<Rightarrow> attributes \<Rightarrow> labels" where
  "httpLabels nt a = [(''route'', getAttribute nt a OTEL_httpRoute), (''method'', getAttribute nt a OTEL_httpMethod),
     (''status_class'', getAttribute nt a OTEL_httpStatusClass)]"

definition httpHistogramLabels :: "(rat \<Rightarrow> string) \<Rightarrow> attributes \<Rightarrow> labels" where
  "httpHistogramLabels nt a = [(''route'', getAttribute nt a OTEL_httpRoute),
     (''status_class'', getAttribute nt a OTEL_httpStatusClass)]"

definition webhookLabels :: "(rat \<Rightarrow> string) \<Rightarrow> attributes \<Rightarrow> labels" where
  "webhookLabels nt a = [(''update_kind'', getAttribute nt a OTEL_webhookUpdateKind),
     (''outcome'', getAttribute nt a OTEL_operationOutcome)]"

definition graphLabels :: "(rat \<Rightarrow> string) \<Rightarrow> attributes \<Rightarrow> labels" where
  "graphLabels nt a = [(''endpoint_family'', getAttribute nt a OTEL_graphEndpointFamily),
     (''status_class'', getAttribute nt a OTEL_httpStatusClass), (''outcome'', getAttribute nt a OTEL_operationOutcome)]"

definition sendLabels :: "(rat \<Rightarrow> string) \<Rightarrow> attributes \<Rightarrow> labels" where
  "sendLabels nt a = [(''endpoint_family'', getAttribute nt a OTEL_graphEndpointFamily),
     (''outcome'', getAttribute nt a OTEL_operationOutcome)]"

definition persistenceLabels :: "(rat \<Rightarrow> string) \<Rightarrow> attributes \<Rightarrow> labels" where
  "persistenceLabels nt a = [(''adapter'', getAttribute nt a OTEL_persistenceAdapter),
     (''outcome'', getAttribute nt a OTEL_operationOutcome)]"

definition outboxLabels :: "(rat \<Rightarrow> string) \<Rightarrow> attributes \<Rightarrow> labels" where
  "outboxLabels nt a = [(''outcome'', getAttribute nt a OTEL_operationOutcome)]"

text \<open>The bridge to the registry.\<close>

definition onRegistry :: "(metrics_registry, telemetry_exn, unit) act \<Rightarrow> ('u telemetry_state, telemetry_exn, unit) act" where
  "onRegistry m s = (case m (tm_registry s) of (r, reg) \<Rightarrow> (r, s\<lparr>tm_registry := reg\<rparr>))"

definition bridgeLabels :: "(rat \<Rightarrow> string) \<Rightarrow> string \<Rightarrow> attributes \<Rightarrow> labels option" where
  "bridgeLabels nt name a =
     (if name = ''http_requests_total'' then Some (httpLabels nt a)
      else if name = ''webhook_normalization_total'' then Some (webhookLabels nt a)
      else if name = ''graph_operations_total'' then Some (graphLabels nt a)
      else if name = ''send_outcomes_total'' then Some (sendLabels nt a)
      else if name = ''persistence_operations_total'' then Some (persistenceLabels nt a)
      else if name = ''outbox_processed_total'' then Some (outboxLabels nt a)
      else None)"

definition metricsBridge :: "(rat \<Rightarrow> string) \<Rightarrow> 'u telemetry_state telemetry_sink" where
  "metricsBridge nt = \<lparr>
     ts_incrementCounter = (\<lambda>name v a. case bridgeLabels nt name a of
         None \<Rightarrow> retA () | Some ls \<Rightarrow> onRegistry (incrementCounter name ls v)),
     ts_recordHistogram = (\<lambda>name v a. if name \<noteq> ''http_request_duration_seconds'' then retA ()
         else onRegistry (observeHistogram name (httpHistogramLabels nt a) v)),
     ts_recordSpan = None, ts_recordEvent = None \<rparr>"

text \<open>A sink of the user, which keeps its own state.\<close>

definition onUser :: "('u, telemetry_exn, unit) act \<Rightarrow> ('u telemetry_state, telemetry_exn, unit) act" where
  "onUser m s = (case m (tm_user s) of (r, u) \<Rightarrow> (r, s\<lparr>tm_user := u\<rparr>))"

definition userSink :: "'u telemetry_sink \<Rightarrow> 'u telemetry_state telemetry_sink" where
  "userSink k = \<lparr> ts_incrementCounter = (\<lambda>n v a. onUser (ts_incrementCounter k n v a)),
     ts_recordHistogram = (\<lambda>n v a. onUser (ts_recordHistogram k n v a)),
     ts_recordSpan = map_option (\<lambda>f n b e a. onUser (f n b e a)) (ts_recordSpan k),
     ts_recordEvent = map_option (\<lambda>f n a t. onUser (f n a t)) (ts_recordEvent k) \<rparr>"

definition logSinkError :: "string \<Rightarrow> telemetry_exn \<Rightarrow> ('u telemetry_state, telemetry_exn, unit) act" where
  "logSinkError meth e s = (Inr (), s\<lparr>tm_stderr := tm_stderr s @ [(meth, e)]\<rparr>)"

definition isolated :: "string \<Rightarrow> ('u telemetry_state, telemetry_exn, unit) act \<Rightarrow> ('u telemetry_state, telemetry_exn, unit) act" where
  "isolated meth m = tryA m (logSinkError meth)"

definition composedSink :: "'u telemetry_state telemetry_sink list \<Rightarrow> 'u telemetry_state telemetry_sink" where
  "composedSink sinks = \<lparr>
     ts_incrementCounter = (\<lambda>n v a. forA sinks (\<lambda>k. isolated ''incrementCounter'' (ts_incrementCounter k n v a))),
     ts_recordHistogram = (\<lambda>n v a. forA sinks (\<lambda>k. isolated ''recordHistogram'' (ts_recordHistogram k n v a))),
     ts_recordSpan = Some (\<lambda>n b e a. forA sinks (\<lambda>k. isolated ''recordSpan''
        (case ts_recordSpan k of None \<Rightarrow> retA () | Some f \<Rightarrow> f n b e a))),
     ts_recordEvent = Some (\<lambda>n a t. forA sinks (\<lambda>k. isolated ''recordEvent''
        (case ts_recordEvent k of None \<Rightarrow> retA () | Some f \<Rightarrow> f n a t))) \<rparr>"

text \<open>The sink of a runtime: the bridge, composed with the user's sink when there is one.\<close>

definition runtimeSink :: "(rat \<Rightarrow> string) \<Rightarrow> 'u telemetry_sink option \<Rightarrow> 'u telemetry_state telemetry_sink" where
  "runtimeSink nt user = (case user of None \<Rightarrow> metricsBridge nt | Some k \<Rightarrow> composedSink [metricsBridge nt, userSink k])"

subsection \<open>What the service records\<close>

definition recordHttpRequest :: "'w telemetry_sink \<Rightarrow> string \<Rightarrow> string \<Rightarrow> nat \<Rightarrow> jsnum \<Rightarrow> ('w, telemetry_exn, unit) act" where
  "recordHttpRequest sink route meth status durationSeconds =
     (let a = httpTelemetryAttributes route meth status (statusClassOf (int status)) in
      bindA (ts_incrementCounter sink ''http_requests_total'' (Fin 1) a)
        (\<lambda>_. ts_recordHistogram sink ''http_request_duration_seconds'' durationSeconds a))"

definition recordWebhookNormalization :: "'w telemetry_sink \<Rightarrow> string \<Rightarrow> string \<Rightarrow> ('w, telemetry_exn, unit) act" where
  "recordWebhookNormalization sink updateKind outcome = ts_incrementCounter sink ''webhook_normalization_total'' (Fin 1)
     (webhookTelemetryAttributes (clampToEnum updateKind METRIC_UPDATE_KINDS) outcome)"

definition recordGraphOperation :: "'w telemetry_sink \<Rightarrow> string \<Rightarrow> int \<Rightarrow> string \<Rightarrow> ('w, telemetry_exn, unit) act" where
  "recordGraphOperation sink endpointFamily status outcome = ts_incrementCounter sink ''graph_operations_total'' (Fin 1)
     (graphTelemetryAttributes endpointFamily status (statusClassOf status) outcome)"

definition recordSendOutcome :: "'w telemetry_sink \<Rightarrow> string \<Rightarrow> string \<Rightarrow> ('w, telemetry_exn, unit) act" where
  "recordSendOutcome sink endpointFamily outcome = ts_incrementCounter sink ''send_outcomes_total'' (Fin 1)
     (sendTelemetryAttributes endpointFamily outcome)"

definition recordPersistenceOperation :: "'w telemetry_sink \<Rightarrow> string \<Rightarrow> string \<Rightarrow> ('w, telemetry_exn, unit) act" where
  "recordPersistenceOperation sink adapterName outcome = ts_incrementCounter sink ''persistence_operations_total'' (Fin 1)
     (persistenceTelemetryAttributes (clampToEnum (js_lower adapterName) [''sqlite'', ''postgres'']) outcome)"

subsection \<open>The reporter of the outbox worker\<close>

definition OUTBOX_ADAPTERS :: "string list" where
  "OUTBOX_ADAPTERS = [''sqlite'', ''postgres'']"

definition clampOutboxAdapter :: "jsval \<Rightarrow> string" where
  "clampOutboxAdapter v = (case v of
     JStr s \<Rightarrow> if js_lower s \<in> set OUTBOX_ADAPTERS then js_lower s else ''unknown'' | _ \<Rightarrow> ''unknown'')"

definition reportCount :: "jsval \<Rightarrow> string \<Rightarrow> rat" where
  "reportCount report field = (case optField report field of
     JNum (Fin r) \<Rightarrow> if r \<ge> 0 then of_int \<lfloor>r\<rfloor> else 0 | _ \<Rightarrow> 0)"

definition swallowA :: "('s, 'e, unit) act \<Rightarrow> ('s, 'e, unit) act" where
  "swallowA m = tryA m (\<lambda>_. retA ())"

definition onReport :: "string \<Rightarrow> jsval \<Rightarrow> (metrics_registry, telemetry_exn, unit) act" where
  "onReport adapterName report =
     (let pending = reportCount report ''pending''; succeeded = reportCount report ''succeeded''; failed = reportCount report ''failed'' in
      bindA (swallowA (setGauge ''outbox_depth'' (Fin pending) [(''adapter'', adapterName), (''state'', ''pending'')])) (\<lambda>_.
      bindA (if succeeded > 0 then swallowA (incrementCounter ''outbox_processed_total'' [(''outcome'', ''success'')] (Fin succeeded)) else retA ()) (\<lambda>_.
      if failed > 0 then swallowA (incrementCounter ''outbox_processed_total'' [(''outcome'', ''error'')] (Fin failed)) else retA ())))"

definition createOutboxMetricsReporter :: "jsval \<Rightarrow> jsval \<Rightarrow> (jsval \<Rightarrow> (metrics_registry, telemetry_exn, unit) act) option" where
  "createOutboxMetricsReporter registry options =
     (if objectProps registry = None \<or> optField registry ''setGauge'' \<noteq> JFun \<or> optField registry ''incrementCounter'' \<noteq> JFun then None
      else if objectProps options = None then None
      else (case optField options ''adapter'' of
         JStr s \<Rightarrow> if s = [] then None else Some (onReport (clampOutboxAdapter (JStr s)))
       | _ \<Rightarrow> None))"

subsection \<open>Label sets and series\<close>

lemma mapSet_map_of: "map_of (mapSet k v m) = (map_of m)(k \<mapsto> v)"
  by (induction m) auto

lemma mapSet_keys: "map fst (mapSet k v m) = (if k \<in> set (map fst m) then map fst m else map fst m @ [k])"
proof (induction m)
  case (Cons a m) then show ?case by (cases a) auto
qed simp

lemma mapSet_absent: "k \<notin> set (map fst m) \<Longrightarrow> mapSet k v m = m @ [(k, v)]"
  by (induction m) auto

lemma distinct_mapSet: "distinct (map fst (mapSet k v m)) \<longleftrightarrow> distinct (map fst m)"
  by (simp only: mapSet_keys) auto

lemma escapeLabelValue_inj:
  "escapeLabelValue s @ CHR 0x22 # x = escapeLabelValue t @ CHR 0x22 # y \<Longrightarrow> s = t \<and> x = y"
proof (induction s arbitrary: t)
  case Nil
  then show ?case by (cases t) (auto simp: escapeLabelValue_def escapeLabelChar_def split: if_splits)
next
  case (Cons c s)
  show ?case
  proof (cases t)
    case Nil
    with Cons.prems show ?thesis by (auto simp: escapeLabelValue_def escapeLabelChar_def split: if_splits)
  next
    case (Cons d t')
    with Cons.prems have "c = d \<and> escapeLabelValue s @ CHR 0x22 # x = escapeLabelValue t' @ CHR 0x22 # y"
      by (auto simp: escapeLabelValue_def escapeLabelChar_def split: if_splits)
    with Cons.IH Cons show ?thesis by blast
  qed
qed

definition labelName :: "string \<Rightarrow> bool" where
  "labelName k = (CHR ''='' \<notin> set k)"

definition labelEntry :: "string \<times> string \<Rightarrow> string" where
  "labelEntry e = (case e of (k, v) \<Rightarrow> k @ ''='' @ [CHR 0x22] @ escapeLabelValue v @ [CHR 0x22])"

lemma split_at_first:
  "a @ c # x = b @ c # y \<Longrightarrow> c \<notin> set a \<Longrightarrow> c \<notin> set b \<Longrightarrow> a = b \<and> x = y"
proof (induction a arbitrary: b)
  case Nil then show ?case by (cases b) auto
next
  case (Cons e a) then show ?case by (cases b) auto
qed

lemma labelEntry_inj:
  assumes "labelEntry (k, v) @ x = labelEntry (l, w) @ y" "labelName k" "labelName l"
  shows "k = l \<and> v = w \<and> x = y"
proof -
  have "k @ CHR ''='' # CHR 0x22 # escapeLabelValue v @ CHR 0x22 # x
      = l @ CHR ''='' # CHR 0x22 # escapeLabelValue w @ CHR 0x22 # y"
    using assms(1) by (simp add: labelEntry_def)
  from split_at_first [OF this] assms(2,3)
  have "k = l" "escapeLabelValue v @ CHR 0x22 # x = escapeLabelValue w @ CHR 0x22 # y"
    by (auto simp: labelName_def)
  with escapeLabelValue_inj show ?thesis by blast
qed

lemma joinWith_Cons: "joinWith sep (x # xs) = x @ (if xs = [] then [] else sep @ joinWith sep xs)"
  by (cases xs) auto

lemma entries_inj:
  assumes "joinWith '','' (map labelEntry es) @ ''}'' = joinWith '','' (map labelEntry fs) @ ''}''"
    "es \<noteq> []" "fs \<noteq> []" "list_all (labelName \<circ> fst) es" "list_all (labelName \<circ> fst) fs"
  shows "es = fs"
  using assms
proof (induction es arbitrary: fs)
  case (Cons e es)
  obtain k v where e: "e = (k, v)" by fastforce
  obtain l w fs' where f: "fs = (l, w) # fs'" using Cons.prems(3) by (cases fs) auto
  have k: "labelName k" "labelName l" "list_all (labelName \<circ> fst) es" "list_all (labelName \<circ> fst) fs'"
    using Cons.prems(4,5) e f by (auto simp: o_def)
  let ?rest = "\<lambda>xs. (if xs = [] then [] else '','' @ joinWith '','' (map labelEntry xs)) @ ''}''"
  have "labelEntry (k, v) @ ?rest es = labelEntry (l, w) @ ?rest fs'"
    using Cons.prems(1) by (simp add: e f joinWith_Cons)
  from labelEntry_inj [OF this k(1,2)] have kv: "k = l" "v = w" "?rest es = ?rest fs'" by auto
  have "es = fs'"
  proof (cases "es = [] \<or> fs' = []")
    case True with kv(3) show ?thesis by (auto split: if_splits)
  next
    case False
    with kv(3) have "joinWith '','' (map labelEntry es) @ ''}'' = joinWith '','' (map labelEntry fs') @ ''}''" by simp
    from Cons.IH [OF this _ _ k(3,4)] False show ?thesis by blast
  qed
  with kv e f show ?case by simp
qed simp

definition sortedLabels :: "labels \<Rightarrow> labels" where
  "sortedLabels ls = map (\<lambda>k. (k, the (map_of ls k))) (sort (map fst ls))"

lemma labelKey_entries: "labelKey ls = (if ls = [] then [] else ''{'' @ joinWith '','' (map labelEntry (sortedLabels ls)) @ ''}'')"
proof -
  have "sort (map fst ls) = [] \<longleftrightarrow> ls = []" by (metis length_0_conv length_map length_sort)
  then show ?thesis by (simp add: labelKey_def sortedLabels_def labelEntry_def Let_def o_def)
qed

lemma set_sortedLabels: "distinct (map fst ls) \<Longrightarrow> set (sortedLabels ls) = set ls"
  by (force simp: sortedLabels_def)

lemma sortedLabels_eq_iff:
  assumes "distinct (map fst ls)" "distinct (map fst ms)"
  shows "sortedLabels ls = sortedLabels ms \<longleftrightarrow> set ls = set ms"
proof
  assume "set ls = set ms"
  with assms have m: "map_of ls = map_of ms" by (simp add: map_of_inject_set)
  from \<open>set ls = set ms\<close> have "set (map fst ls) = set (map fst ms)" by simp
  with assms have "sort (map fst ls) = sort (map fst ms)"
    by (intro sorted_distinct_set_unique) simp_all
  with m show "sortedLabels ls = sortedLabels ms" by (simp add: sortedLabels_def)
qed (metis assms set_sortedLabels)

text \<open>Two label sets share a series exactly when they are the same labels, in whatever order they
  are written: the rendered key is unambiguous, because values are escaped, for label names without
  an equals sign.\<close>

theorem one_series_per_label_set:
  assumes "distinct (map fst ls)" "distinct (map fst ms)"
    "list_all (labelName \<circ> fst) ls" "list_all (labelName \<circ> fst) ms"
  shows "labelKey ls = labelKey ms \<longleftrightarrow> set ls = set ms"
proof (cases "ls = [] \<or> ms = []")
  case True
  then show ?thesis by (auto simp: labelKey_entries)
next
  case False
  then have ne: "sortedLabels ls \<noteq> []" "sortedLabels ms \<noteq> []"
    using assms set_sortedLabels by (metis set_empty)+
  have n: "list_all (labelName \<circ> fst) (sortedLabels ls)" "list_all (labelName \<circ> fst) (sortedLabels ms)"
    using assms by (auto simp: list_all_iff set_sortedLabels)
  have "labelKey ls = labelKey ms \<longleftrightarrow> sortedLabels ls = sortedLabels ms"
    using False entries_inj [OF _ ne n] by (auto simp: labelKey_entries)
  with sortedLabels_eq_iff [OF assms(1,2)] show ?thesis by simp
qed

lemma one_series_per_label_set_witness:
  "labelKey [(''route'', [CHR 0x22]), (''method'', ''GET'')] = labelKey [(''method'', ''GET''), (''route'', [CHR 0x22])]
   \<and> labelKey [(''route'', [CHR 0x22])] \<noteq> labelKey [(''route'', [CHR 0x5C, CHR 0x22])]"
  using one_series_per_label_set [of "[(''route'', [CHR 0x22]), (''method'', ''GET'')]" "[(''method'', ''GET''), (''route'', [CHR 0x22])]"]
    one_series_per_label_set [of "[(''route'', [CHR 0x22])]" "[(''route'', [CHR 0x5C, CHR 0x22])]"]
  by (auto simp: labelName_def)

subsection \<open>Histograms count\<close>

lemma metricValue_ok [simp]: "0 \<le> x \<Longrightarrow> metricValue (Fin x) = Inr x"
  by (simp add: metricValue_def)

definition countsOf :: "rat list \<Rightarrow> rat list \<Rightarrow> histogram_state" where
  "countsOf buckets xs = \<lparr> hs_bucketCounts = map (\<lambda>b. length (filter (\<lambda>x. x \<le> b) xs)) buckets,
     hs_sum = sum_list xs, hs_count = length xs \<rparr>"

lemma observe_countsOf: "observe buckets x (countsOf buckets xs) = countsOf buckets (xs @ [x])"
  by (simp add: observe_def countsOf_def zip_map2 zip_same_conv_map o_def)

lemma newHistogram_countsOf: "newHistogram buckets = countsOf buckets []"
  by (simp add: newHistogram_def countsOf_def map_replicate_const)

lemma observeHistogram_step:
  assumes "map_of (mr_histograms r) name = Some series"
    "seriesGet (newHistogram (mr_buckets r)) series (labelKey ls) = countsOf (mr_buckets r) xs" "0 \<le> x"
  obtains r' series' where "observeHistogram name ls (Fin x) r = (Inr (), r')" "mr_buckets r' = mr_buckets r"
    "map_of (mr_histograms r') name = Some series'" "map_of series' (labelKey ls) = Some (countsOf (mr_buckets r) (xs @ [x]))"
  using assms by (auto simp: observeHistogram_def mapSet_map_of observe_countsOf intro!: that)

text \<open>After any observations of a label set, each bucket holds the number of observations not
  above its bound, so that the exposed buckets are cumulative, beside their sum and their number.\<close>

theorem histogram_counts_observations:
  assumes "map_of (mr_histograms r) name = Some series" "map_of series (labelKey ls) = None"
    "\<forall>x \<in> set xs. 0 \<le> x" "xs \<noteq> []"
  shows "\<exists>r' series'. forA xs (\<lambda>x. observeHistogram name ls (Fin x)) r = (Inr (), r')
    \<and> map_of (mr_histograms r') name = Some series'
    \<and> map_of series' (labelKey ls) = Some \<lparr> hs_bucketCounts = map (\<lambda>b. length (filter (\<lambda>x. x \<le> b) xs)) (mr_buckets r),
        hs_sum = sum_list xs, hs_count = length xs \<rparr>"
proof -
  have run: "\<exists>r' series'. forA ys (\<lambda>x. observeHistogram name ls (Fin x)) q = (Inr (), r')
    \<and> map_of (mr_histograms r') name = Some series'
    \<and> seriesGet (newHistogram (mr_buckets r)) series' (labelKey ls) = countsOf (mr_buckets r) (zs @ ys)
    \<and> (ys \<noteq> [] \<longrightarrow> map_of series' (labelKey ls) \<noteq> None)"
    if "map_of (mr_histograms q) name = Some s" "mr_buckets q = mr_buckets r"
      "seriesGet (newHistogram (mr_buckets r)) s (labelKey ls) = countsOf (mr_buckets r) zs" "\<forall>x \<in> set ys. 0 \<le> x"
    for q s ys zs using that
  proof (induction ys arbitrary: q s zs)
    case (Cons y ys)
    from Cons.prems have y: "0 \<le> y" "seriesGet (newHistogram (mr_buckets q)) s (labelKey ls) = countsOf (mr_buckets q) zs"
      by simp_all
    obtain q' s' where q': "observeHistogram name ls (Fin y) q = (Inr (), q')" "mr_buckets q' = mr_buckets q"
      "map_of (mr_histograms q') name = Some s'" "map_of s' (labelKey ls) = Some (countsOf (mr_buckets q) (zs @ [y]))"
      by (rule observeHistogram_step [OF Cons.prems(1) y(2,1)])
    have g: "seriesGet (newHistogram (mr_buckets r)) s' (labelKey ls) = countsOf (mr_buckets r) (zs @ [y])"
      using q'(4) Cons.prems(2) by (simp add: seriesGet_def)
    from Cons.IH [OF q'(3) _ g] q'(2) Cons.prems(2,4) obtain r' series' where
      r': "forA ys (\<lambda>x. observeHistogram name ls (Fin x)) q' = (Inr (), r')" "map_of (mr_histograms r') name = Some series'"
        "seriesGet (newHistogram (mr_buckets r)) series' (labelKey ls) = countsOf (mr_buckets r) (zs @ y # ys)"
        "ys \<noteq> [] \<longrightarrow> map_of series' (labelKey ls) \<noteq> None"
      by auto
    have "map_of series' (labelKey ls) \<noteq> None"
      using r' q' by (cases "ys = []") auto
    with r' q'(1) show ?case by (auto simp: bindA_def)
  qed auto
  show ?thesis
    using run [OF assms(1) refl, of "[]" xs] assms
    by (auto simp: seriesGet_def newHistogram_countsOf countsOf_def split: option.splits)
qed

lemma histogram_counts_observations_witness:
  "\<exists>r' series'. forA [1/4, 2] (\<lambda>x. observeHistogram ''http_request_duration_seconds'' [] (Fin x)) createMetricsRegistry = (Inr (), r')
    \<and> map_of (mr_histograms r') ''http_request_duration_seconds'' = Some series'
    \<and> map_of series' (labelKey []) = Some \<lparr> hs_bucketCounts = [0, 0, 0, 0, 0, 1, 1, 1, 2, 2, 2], hs_sum = 9/4, hs_count = 2 \<rparr>"
proof -
  have "mr_buckets createMetricsRegistry = defaultBuckets"
    "map_of (mr_histograms createMetricsRegistry) ''http_request_duration_seconds'' = Some []"
    by code_simp+
  with histogram_counts_observations [of createMetricsRegistry "''http_request_duration_seconds''" "[]" "[]" "[1/4, 2]"]
  show ?thesis by (simp add: defaultBuckets_def numeral_2_eq_2)
qed

subsection \<open>The error ledger stays small\<close>

definition ledgerOkay :: "error_ledger \<Rightarrow> bool" where
  "ledgerOkay counts = (distinct (map fst counts) \<and> length counts \<le> MAX_ERROR_CLASSES
     \<and> list_all (\<lambda>(k, n). length k \<le> MAX_ERROR_NAME_LENGTH + 3 \<and> 0 < n) counts)"

lemma ledgerKey_length: "length (ledgerKey e) \<le> MAX_ERROR_NAME_LENGTH + 3"
  by (simp add: ledgerKey_def Let_def)

lemma mapSet_members: "x \<in> set (mapSet k v m) \<Longrightarrow> x = (k, v) \<or> x \<in> set m"
  by (induction m) (auto split: if_splits)

lemma length_mapSet: "length (mapSet k v m) = (if k \<in> set (map fst m) then length m else Suc (length m))"
  by (metis length_append_singleton length_map mapSet_keys)

lemma recordError_ok:
  assumes "ledgerOkay counts"
  shows "ledgerOkay (recordError e counts) \<and> ledgerKey e \<in> set (map fst (recordError e counts))"
proof -
  let ?k = "ledgerKey e" and ?m = "mapSet (ledgerKey e) (seriesGet 0 counts (ledgerKey e) + 1) counts"
  have d: "distinct (map fst ?m)" using assms by (simp only: distinct_mapSet) (simp add: ledgerOkay_def)
  have a: "list_all (\<lambda>(k, n). length k \<le> MAX_ERROR_NAME_LENGTH + 3 \<and> 0 < n) ?m"
    using assms ledgerKey_length by (fastforce simp: list_all_iff ledgerOkay_def dest: mapSet_members)
  have k: "?k \<in> set (map fst ?m)" by (simp only: mapSet_keys) auto
  show ?thesis
  proof (cases "length ?m > MAX_ERROR_CLASSES")
    case False
    with d a k show ?thesis by (simp add: recordError_def ledgerOkay_def Let_def)
  next
    case True
    with assms have new: "?k \<notin> set (map fst counts)" "length counts = MAX_ERROR_CLASSES"
      by (auto simp: length_mapSet ledgerOkay_def split: if_splits)
    then obtain c cs where c: "counts = c # cs" by (cases counts) (auto simp: MAX_ERROR_CLASSES_def)
    from mapSet_absent [OF new(1)] c have m: "?m = c # cs @ [(?k, seriesGet 0 counts ?k + 1)]" by simp
    with True have "recordError e counts = cs @ [(?k, seriesGet 0 counts ?k + 1)]"
      by (simp add: recordError_def Let_def)
    with d a m new(2) c show ?thesis by (simp add: ledgerOkay_def)
  qed
qed

text \<open>However many errors are recorded, the ledger holds at most ten classes, each once, with a
  positive count and a name of at most 83 characters; the class just recorded is among them.\<close>

theorem error_ledger_bounded:
  "ledgerOkay (foldl (\<lambda>c e. recordError e c) [] es)
   \<and> (es = [] \<or> ledgerKey (last es) \<in> set (map fst (foldl (\<lambda>c e. recordError e c) [] es)))"
proof (induction es rule: rev_induct)
  case Nil
  show ?case by (simp add: ledgerOkay_def)
next
  case (snoc e es)
  then show ?case using recordError_ok by simp
qed

text \<open>The class evicted is the first inserted, even when it has just been recorded again.\<close>

lemma eviction_ignores_recency:
  "let classes = map (\<lambda>c. ThrownError [c]) ''ABCDEFGHIJ'' in
   ''A'' \<notin> set (map fst (foldl (\<lambda>c e. recordError e c) [] (classes @ [ThrownError ''A'', ThrownError ''K''])))"
  by code_simp

subsection \<open>Sinks that never fail\<close>

text \<open>What the service needs of its sink: that recording returns, and keeps the sink in working order.\<close>

locale quiet_sink =
  fixes sink :: "'w telemetry_sink" and ready :: "'w \<Rightarrow> bool"
  assumes counter_quiet: "ready w \<Longrightarrow> \<exists>w'. ts_incrementCounter sink n (Fin 1) a w = (Inr (), w') \<and> ready w'"
    and histogram_quiet: "ready w \<Longrightarrow> 0 \<le> x \<Longrightarrow>
      \<exists>w'. ts_recordHistogram sink ''http_request_duration_seconds'' (Fin x) a w = (Inr (), w') \<and> ready w'"
begin

lemma recordWebhookNormalization_quiet: "ready w \<Longrightarrow> \<exists>w'. recordWebhookNormalization sink k out w = (Inr (), w') \<and> ready w'"
  unfolding recordWebhookNormalization_def by (rule counter_quiet)

lemma recordGraphOperation_quiet: "ready w \<Longrightarrow> \<exists>w'. recordGraphOperation sink k st out w = (Inr (), w') \<and> ready w'"
  unfolding recordGraphOperation_def by (rule counter_quiet)

lemma recordSendOutcome_quiet: "ready w \<Longrightarrow> \<exists>w'. recordSendOutcome sink k out w = (Inr (), w') \<and> ready w'"
  unfolding recordSendOutcome_def by (rule counter_quiet)

lemma recordPersistenceOperation_quiet: "ready w \<Longrightarrow> \<exists>w'. recordPersistenceOperation sink k out w = (Inr (), w') \<and> ready w'"
  unfolding recordPersistenceOperation_def by (rule counter_quiet)

lemma recordHttpRequest_quiet:
  assumes "ready w" "0 \<le> x"
  shows "\<exists>w'. recordHttpRequest sink route meth st (Fin x) w = (Inr (), w') \<and> ready w'"
proof -
  let ?a = "httpTelemetryAttributes route meth st (statusClassOf (int st))"
  obtain w1 where w1: "ts_incrementCounter sink ''http_requests_total'' (Fin 1) ?a w = (Inr (), w1)" "ready w1"
    using counter_quiet [OF assms(1)] by blast
  from histogram_quiet [OF w1(2) assms(2)] w1(1) show ?thesis
    by (simp add: recordHttpRequest_def Let_def bindA_def)
qed

lemmas sink_quiet = recordWebhookNormalization_quiet recordGraphOperation_quiet recordSendOutcome_quiet
  recordPersistenceOperation_quiet

end

text \<open>A registry that declares what the service records: that of \<open>createMetricsRegistry\<close>, and every
  later one.\<close>

definition standardRegistry :: "metrics_registry \<Rightarrow> bool" where
  "standardRegistry r = (list_all (mapHas (mr_counters r)) [''http_requests_total'', ''webhook_normalization_total'',
     ''graph_operations_total'', ''send_outcomes_total'', ''persistence_operations_total'', ''outbox_processed_total'']
     \<and> mapHas (mr_histograms r) ''http_request_duration_seconds'')"

lemma createMetricsRegistry_standard: "standardRegistry createMetricsRegistry"
  by (simp add: standardRegistry_def createMetricsRegistry_def declareCounter_def declareHistogram_def
      declareGauge_def newRegistry_def mapHas_def)

lemma mapHas_mapSet: "mapHas m k \<Longrightarrow> mapHas (mapSet l v m) k"
  by (simp add: mapHas_def mapSet_map_of)

lemma incrementCounter_standard:
  assumes "standardRegistry r" "bridgeLabels nt n a = Some ls"
  shows "\<exists>r'. incrementCounter n ls (Fin 1) r = (Inr (), r') \<and> standardRegistry r'"
proof -
  have "mapHas (mr_counters r) n"
    using assms by (auto simp: standardRegistry_def bridgeLabels_def split: if_splits)
  then show ?thesis using assms(1)
    by (auto simp: incrementCounter_def mapHas_def standardRegistry_def mapSet_map_of)
qed

lemma observeHistogram_standard:
  assumes "standardRegistry r" "0 \<le> x"
  shows "\<exists>r'. observeHistogram ''http_request_duration_seconds'' ls (Fin x) r = (Inr (), r') \<and> standardRegistry r'"
  using assms by (auto simp: observeHistogram_def mapHas_def standardRegistry_def mapSet_map_of)

interpretation br: quiet_sink "metricsBridge nt" "\<lambda>s. standardRegistry (tm_registry s)"
  for nt :: "rat \<Rightarrow> string"
proof unfold_locales
  fix w :: "'u telemetry_state" and n a
  assume s: "standardRegistry (tm_registry w)"
  show "\<exists>w'. ts_incrementCounter (metricsBridge nt) n (Fin 1) a w = (Inr (), w') \<and> standardRegistry (tm_registry w')"
  proof (cases "bridgeLabels nt n a")
    case None
    with s show ?thesis by (simp add: metricsBridge_def)
  next
    case (Some ls)
    with incrementCounter_standard [OF s Some] show ?thesis by (auto simp: metricsBridge_def onRegistry_def)
  qed
next
  fix w :: "'u telemetry_state" and x a
  assume "standardRegistry (tm_registry w)" "0 \<le> (x :: rat)"
  from observeHistogram_standard [OF this, of "httpHistogramLabels nt a"]
  show "\<exists>w'. ts_recordHistogram (metricsBridge nt) ''http_request_duration_seconds'' (Fin x) a w = (Inr (), w')
      \<and> standardRegistry (tm_registry w')"
    by (auto simp: metricsBridge_def onRegistry_def)
qed

text \<open>A sink of the user runs after the bridge, and what it does is contained.\<close>

lemma isolated_run: "isolated meth m s = (Inr (), case m s of (Inr _, s') \<Rightarrow> s'
    | (Inl e, s') \<Rightarrow> s'\<lparr>tm_stderr := tm_stderr s' @ [(meth, e)]\<rparr>)"
  by (auto simp: isolated_def tryA_def logSinkError_def split: prod.splits sum.splits)

lemma isolated_onUser: "tm_registry (snd (isolated meth (onUser m) s)) = tm_registry s"
  by (auto simp: isolated_run onUser_def split: prod.splits sum.splits)

lemma isolated_registry: "tm_registry (snd (isolated meth m s)) = tm_registry (snd (m s))"
  by (auto simp: isolated_run split: prod.splits sum.splits)

lemma pair_isolated:
  "\<exists>s'. forA [metricsBridge nt, userSink k] (\<lambda>q. isolated meth (f q)) s = (Inr (), s')
    \<and> tm_registry s' = tm_registry (snd (f (metricsBridge nt) s))"
  if "\<And>s. tm_registry (snd (isolated meth (f (userSink k)) s)) = tm_registry s"
  using that isolated_registry [of meth "f (metricsBridge nt)" s]
  by (auto simp: bindA_def isolated_run split: prod.splits sum.splits)

lemma optional_call_isolated:
  "tm_registry (snd (isolated meth (case map_option g c of None \<Rightarrow> retA () | Some f \<Rightarrow> f) s)) = tm_registry s"
  if "\<And>x. \<exists>m. g x = onUser m"
proof (cases c)
  case None
  then show ?thesis by (simp add: isolated_run)
next
  case (Some x)
  with that [of x] show ?thesis by (auto simp: isolated_onUser)
qed

text \<open>A sink supplied by the user cannot interfere: whatever it does, every call on the runtime's
  sink returns, and leaves in the registry exactly what the bridge alone would have left.\<close>

theorem user_sink_cannot_interfere:
  "(\<exists>s'. ts_incrementCounter (runtimeSink nt (Some k)) n v a s = (Inr (), s')
      \<and> tm_registry s' = tm_registry (snd (ts_incrementCounter (runtimeSink nt None) n v a s)))
   \<and> (\<exists>s'. ts_recordHistogram (runtimeSink nt (Some k)) n v a s = (Inr (), s')
      \<and> tm_registry s' = tm_registry (snd (ts_recordHistogram (runtimeSink nt None) n v a s)))
   \<and> (\<exists>s'. the (ts_recordSpan (runtimeSink nt (Some k))) n b e a s = (Inr (), s') \<and> tm_registry s' = tm_registry s)
   \<and> (\<exists>s'. the (ts_recordEvent (runtimeSink nt (Some k))) n a t s = (Inr (), s') \<and> tm_registry s' = tm_registry s)"
proof (intro conjI)
  show "\<exists>s'. ts_incrementCounter (runtimeSink nt (Some k)) n v a s = (Inr (), s')
      \<and> tm_registry s' = tm_registry (snd (ts_incrementCounter (runtimeSink nt None) n v a s))"
    using pair_isolated [of "''incrementCounter''" "\<lambda>q. ts_incrementCounter q n v a" k nt s]
    by (simp add: runtimeSink_def composedSink_def userSink_def isolated_onUser)
  show "\<exists>s'. ts_recordHistogram (runtimeSink nt (Some k)) n v a s = (Inr (), s')
      \<and> tm_registry s' = tm_registry (snd (ts_recordHistogram (runtimeSink nt None) n v a s))"
    using pair_isolated [of "''recordHistogram''" "\<lambda>q. ts_recordHistogram q n v a" k nt s]
    by (simp add: runtimeSink_def composedSink_def userSink_def isolated_onUser)
  let ?span = "\<lambda>q. case ts_recordSpan q of None \<Rightarrow> retA () | Some f \<Rightarrow> f n b e a"
  have u: "?span (userSink k) = (case map_option (\<lambda>f. onUser (f n b e a)) (ts_recordSpan k) of None \<Rightarrow> retA () | Some f \<Rightarrow> f)"
    by (cases "ts_recordSpan k") (simp_all add: userSink_def)
  have "tm_registry (snd (isolated ''recordSpan'' (?span (userSink k)) s)) = tm_registry s" for s
    unfolding u by (rule optional_call_isolated) blast
  from pair_isolated [of "''recordSpan''" ?span, OF this, of nt s]
  show "\<exists>s'. the (ts_recordSpan (runtimeSink nt (Some k))) n b e a s = (Inr (), s') \<and> tm_registry s' = tm_registry s"
    by (simp add: runtimeSink_def composedSink_def metricsBridge_def)
  let ?event = "\<lambda>q. case ts_recordEvent q of None \<Rightarrow> retA () | Some f \<Rightarrow> f n a t"
  have w: "?event (userSink k) = (case map_option (\<lambda>f. onUser (f n a t)) (ts_recordEvent k) of None \<Rightarrow> retA () | Some f \<Rightarrow> f)"
    by (cases "ts_recordEvent k") (simp_all add: userSink_def)
  have "tm_registry (snd (isolated ''recordEvent'' (?event (userSink k)) s)) = tm_registry s" for s
    unfolding w by (rule optional_call_isolated) blast
  from pair_isolated [of "''recordEvent''" ?event, OF this, of nt s]
  show "\<exists>s'. the (ts_recordEvent (runtimeSink nt (Some k))) n a t s = (Inr (), s') \<and> tm_registry s' = tm_registry s"
    by (simp add: runtimeSink_def composedSink_def metricsBridge_def)
qed

interpretation rt: quiet_sink "runtimeSink nt user" "\<lambda>s. standardRegistry (tm_registry s)"
  for nt :: "rat \<Rightarrow> string" and user :: "'u telemetry_sink option"
proof (cases user)
  case None
  then show "quiet_sink (runtimeSink nt user) (\<lambda>s. standardRegistry (tm_registry s))"
    using br.quiet_sink_axioms by (simp add: runtimeSink_def)
next
  case (Some k)
  show "quiet_sink (runtimeSink nt user) (\<lambda>s. standardRegistry (tm_registry s))"
  proof unfold_locales
    fix w :: "'u telemetry_state" and n a
    assume "standardRegistry (tm_registry w)"
    then obtain w1 where "ts_incrementCounter (metricsBridge nt) n (Fin 1) a w = (Inr (), w1)" "standardRegistry (tm_registry w1)"
      using br.counter_quiet [of w nt n a] by blast
    then show "\<exists>w'. ts_incrementCounter (runtimeSink nt user) n (Fin 1) a w = (Inr (), w')
        \<and> standardRegistry (tm_registry w')"
      using pair_isolated [of "''incrementCounter''" "\<lambda>q. ts_incrementCounter q n (Fin 1) a" k nt w]
      by (auto simp: Some runtimeSink_def composedSink_def userSink_def isolated_onUser)
  next
    fix w :: "'u telemetry_state" and x a
    assume "standardRegistry (tm_registry w)" "0 \<le> (x :: rat)"
    then obtain w1 where "ts_recordHistogram (metricsBridge nt) ''http_request_duration_seconds'' (Fin x) a w = (Inr (), w1)"
      "standardRegistry (tm_registry w1)"
      using br.histogram_quiet [of w x nt a] by blast
    then show "\<exists>w'. ts_recordHistogram (runtimeSink nt user) ''http_request_duration_seconds'' (Fin x) a w
        = (Inr (), w') \<and> standardRegistry (tm_registry w')"
      using pair_isolated [of "''recordHistogram''" "\<lambda>q. ts_recordHistogram q ''http_request_duration_seconds'' (Fin x) a" k nt w]
      by (auto simp: Some runtimeSink_def composedSink_def userSink_def isolated_onUser)
  qed
qed

end
