(* ===== verification/Webhook_Ingress.thy ===== *)
theory Webhook_Ingress
  imports Canonical_Json Iso_Time
begin

section \<open>Dedup keys, event times and the depth gate of the webhook ingress\<close>

text \<open>
  \<open>packages/service/src/webhookIngress.ts\<close> and \<open>extractDedupKey\<close> of \<open>index.ts\<close>: what the service
  computes from a normalized update before it records and dispatches it.  Parameters are SHA-256 on
  bytes and the text of numbers.  An update is any JavaScript value.  The receipt clock is in
  milliseconds, before the year 10000.
\<close>

subsection \<open>Times\<close>

definition FUTURE_TOLERANCE_MS :: int where
  "FUTURE_TOLERANCE_MS = 60 * 60 * 1000"

definition secondsOf :: "jsval \<Rightarrow> int option" where
  "secondsOf v = (case v of
     JStr s \<Rightarrow> if s \<noteq> [] \<and> list_all is_digit s then Some (num s) else None
   | JNum (Fin r) \<Rightarrow> if r = of_int \<lfloor>r\<rfloor> then Some \<lfloor>r\<rfloor> else None
   | _ \<Rightarrow> None)"

definition metaTimestampToIso :: "jsval \<Rightarrow> int \<Rightarrow> string option" where
  "metaTimestampToIso timestamp receiptNow = (case secondsOf timestamp of
     None \<Rightarrow> None
   | Some seconds \<Rightarrow>
       if seconds \<le> 0 then None else
       let ms = seconds * 1000 in
       if ms \<le> 0 then None
       else if ms > receiptNow + FUTURE_TOLERANCE_MS then None
       else let clamped = min ms receiptNow in
         (case toISOString clamped of
            None \<Rightarrow> None
          | Some stamp \<Rightarrow> if dateParse stamp \<noteq> Some clamped then None else Some stamp))"

text \<open>A stored event time is the stamp of the update, or the receipt when the stamp is ahead of it.\<close>

lemma metaTimestampToIso_iff:
  assumes "0 \<le> receiptNow" and "receiptNow < 253402300800000"
  shows "metaTimestampToIso v receiptNow = Some stamp \<longleftrightarrow> (\<exists>seconds. secondsOf v = Some seconds \<and> 0 < seconds
    \<and> seconds * 1000 \<le> receiptNow + FUTURE_TOLERANCE_MS
    \<and> fourDigitYear (min (seconds * 1000) receiptNow)
    \<and> toISOString (min (seconds * 1000) receiptNow) = Some stamp)"
proof -
  have four: "fourDigitYear t \<longleftrightarrow> dateParse s = Some t" if "toISOString t = Some s" for t s
    using toISOString_dateParse [OF _ that] isoShape_fourDigitYear [OF that]
    by (auto simp: dateParse_def split: if_splits)
  show ?thesis
    by (auto simp: metaTimestampToIso_def Let_def four split: option.splits if_splits)
qed

subsection \<open>The depth gate\<close>

function measureDepth :: "nat \<Rightarrow> jsval \<Rightarrow> nat" where
  "measureDepth depth v = (if depth > MAX_NESTED_DEPTH then depth else case v of
     JArr sl \<Rightarrow> foldl (\<lambda>mx s. let d = measureDepth (Suc depth) (slot_value s) in if d > mx then d else mx) depth sl
   | JObj pr ps \<Rightarrow> foldl (\<lambda>mx (k, s). let d = measureDepth (Suc depth) (slot_value s) in if d > mx then d else mx) depth ps
   | _ \<Rightarrow> depth)"
  by pat_completeness auto

termination
  by (relation "measure (\<lambda>(d, v). size v)") (auto simp: slot_value_size member_slot_size)

declare measureDepth.simps [simp del]

definition isWithinDepthLimit :: "jsval \<Rightarrow> bool" where
  "isWithinDepthLimit v = (measureDepth 0 v \<le> MAX_NESTED_DEPTH)"

lemma foldl_max_le: "foldl (\<lambda>mx x. let d = f x in if d > mx then d else mx) (a :: nat) xs \<le> n
    \<longleftrightarrow> a \<le> n \<and> (\<forall>x \<in> set xs. f x \<le> n)"
  by (induction xs arbitrary: a) (auto simp: Let_def)

lemma measureDepth_le: "measureDepth d v \<le> MAX_NESTED_DEPTH \<longleftrightarrow> d + levels v \<le> MAX_NESTED_DEPTH"
proof (induction v arbitrary: d rule: measure_induct_rule [of size])
  case (less v)
  show ?case
  proof (cases v)
    case (JArr sl)
    have item: "measureDepth (Suc d) (slot_value s) \<le> MAX_NESTED_DEPTH \<longleftrightarrow> Suc d + levels (slot_value s) \<le> MAX_NESTED_DEPTH"
      if "s \<in> set sl" for s using less.IH slot_value_size [OF that] JArr by simp
    show ?thesis
      unfolding JArr measureDepth.simps [of d] levels_bound jsval.case
      using item by (auto simp: foldl_max_le)
  next
    case (JObj p ps)
    have item: "measureDepth (Suc d) (slot_value (snd m)) \<le> MAX_NESTED_DEPTH
        \<longleftrightarrow> Suc d + levels (slot_value (snd m)) \<le> MAX_NESTED_DEPTH" if "m \<in> set ps" for m
    proof -
      have "(fst m, snd m) \<in> set ps" using that by simp
      from less.IH [OF member_size [OF this, of p, folded JObj]] show ?thesis .
    qed
    show ?thesis
      unfolding JObj measureDepth.simps [of d] levels_bound jsval.case case_prod_beta
      using item by (auto simp: foldl_max_le)
  qed (simp_all add: measureDepth.simps [of d])
qed

lemma isWithinDepthLimit_levels: "isWithinDepthLimit v \<longleftrightarrow> levels v \<le> MAX_NESTED_DEPTH"
  by (simp add: isWithinDepthLimit_def measureDepth_le)

subsection \<open>Dedup keys\<close>

text \<open>\<open>JSON.stringify\<close> of an array of strings.\<close>

definition tupleText :: "string list \<Rightarrow> string" where
  "tupleText ks = ''['' @ commaSep (map jsonQuote ks) @ '']''"

definition strArray :: "string list \<Rightarrow> jsval" where
  "strArray ks = JArr (map (\<lambda>k. Data (JStr k)) ks)"

lemma tupleText_stringify: "js_stringify nt (strArray ks) = Some (tupleText ks)"
  by (simp add: strArray_def tupleText_def comp_def)

lemma tupleText_inj: "tupleText ks = tupleText ls \<longleftrightarrow> ks = ls"
proof
  assume "tupleText ks = tupleText ls"
  then have "js_stringify unaryText (strArray ks) = js_stringify unaryText (strArray ls)"
    by (simp only: tupleText_stringify)
  then have "strArray ks = strArray ls"
    by (intro stringify_injective [OF numberTexts_unary]) (simp_all add: strArray_def list_all_iff)
  then show "ks = ls" by (auto simp: strArray_def dest: map_injective simp: inj_def)
qed simp

definition sha256Hex :: "(byte list \<Rightarrow> byte list) \<Rightarrow> string \<Rightarrow> string" where
  "sha256Hex sha s = bytesToHex (sha (utf8 s))"

definition messageDedupKey :: "(string \<Rightarrow> string) \<Rightarrow> string \<Rightarrow> string \<Rightarrow> string \<Rightarrow> string" where
  "messageDedupKey hash phoneNumberId wabaId messageId =
     ''msg:'' @ hash (tupleText [''msg'', phoneNumberId, wabaId, messageId])"

definition statusDedupKey :: "(string \<Rightarrow> string) \<Rightarrow> string \<Rightarrow> string \<Rightarrow> string \<Rightarrow> string \<Rightarrow> string \<Rightarrow> string" where
  "statusDedupKey hash phoneNumberId wabaId statusId status timestamp =
     ''status:'' @ hash (tupleText [''status'', phoneNumberId, wabaId, statusId, status, timestamp])"

text \<open>The service's own \<open>isRecord\<close>: an object of any class.\<close>

definition serviceRecord :: "jsval \<Rightarrow> (string \<times> slot) list option" where
  "serviceRecord v = (case v of JObj _ ps \<Rightarrow> Some ps | _ \<Rightarrow> None)"

definition volatileKey :: "string \<Rightarrow> bool" where
  "volatileKey k = (k = ''receivedAt'' \<or> k = ''rawChange'')"

definition extractStableFields :: "jsval \<Rightarrow> jsval option" where
  "extractStableFields update = (case serviceRecord update of
     None \<Rightarrow> None
   | Some ps \<Rightarrow> Some (JObj ObjectProto (fold assignProp
       (map (\<lambda>(k, s). (k, Data (slot_value s))) (filter (\<lambda>(k, s). \<not> volatileKey k) ps)) [])))"

definition fallbackDedupKey ::
  "(rat \<Rightarrow> string) \<Rightarrow> (string \<Rightarrow> string) \<Rightarrow> string \<Rightarrow> string \<Rightarrow> jsval \<Rightarrow> string option" where
  "fallbackDedupKey nt hash phoneNumberId wabaId update = (case extractStableFields update of
     None \<Rightarrow> None
   | Some fields \<Rightarrow> (case boundedCanonicalJson nt 0 fields of
       None \<Rightarrow> None
     | Some canonical \<Rightarrow> Some (''other:'' @ hash (tupleText [''other'', phoneNumberId, wabaId, canonical]))))"

text \<open>A field that should be a string: its text, or \<open>_unknown\<close>.\<close>

definition scopeField :: "(string \<times> slot) list \<Rightarrow> string \<Rightarrow> string" where
  "scopeField ps key = (case js_get ps key of JStr s \<Rightarrow> if s = [] then ''_unknown'' else s | _ \<Rightarrow> ''_unknown'')"

definition textField :: "(string \<times> slot) list \<Rightarrow> string \<Rightarrow> string" where
  "textField ps key = (case js_get ps key of JStr s \<Rightarrow> s | _ \<Rightarrow> ''_unknown'')"

definition idField :: "(string \<times> slot) list \<Rightarrow> string option" where
  "idField ps = (case js_get ps ''id'' of JStr s \<Rightarrow> if s = [] then None else Some s | _ \<Rightarrow> None)"

definition extractDedupKey :: "(rat \<Rightarrow> string) \<Rightarrow> (string \<Rightarrow> string) \<Rightarrow> jsval \<Rightarrow> string option" where
  "extractDedupKey nt hash update = (case serviceRecord update of
     None \<Rightarrow> None
   | Some ps \<Rightarrow>
       let kind = js_get ps ''kind''; phone = scopeField ps ''phoneNumberId''; waba = scopeField ps ''wabaId'' in
       if kind = JStr ''message'' then
         (case serviceRecord (js_get ps ''message'') of
            None \<Rightarrow> None
          | Some m \<Rightarrow> map_option (messageDedupKey hash phone waba) (idField m))
       else if kind = JStr ''status'' then
         (case serviceRecord (js_get ps ''status'') of
            None \<Rightarrow> None
          | Some st \<Rightarrow> map_option (\<lambda>i. statusDedupKey hash phone waba i (textField st ''status'') (textField st ''timestamp''))
              (idField st))
       else fallbackDedupKey nt hash phone waba update)"

subsection \<open>What a key identifies\<close>

text \<open>The reference: the identity of an update, without texts and hashes.\<close>

datatype update_identity =
    MessageIdentity string string string
  | StatusIdentity string string string string string
  | OtherIdentity string string jsval

text \<open>Phone number and account: the text, or \<open>_unknown\<close> for a missing or empty one.  The item: its id and
  two further texts.  The fields of any other update: all but the receipt time and the raw change.\<close>

definition identityScope :: "(string \<times> slot) list \<Rightarrow> string \<Rightarrow> string" where
  "identityScope ps key = (if \<exists>c cs. js_get ps key = JStr (c # cs) then (case js_get ps key of JStr s \<Rightarrow> s)
     else ''_unknown'')"

definition identityItem :: "(string \<times> slot) list \<Rightarrow> string \<Rightarrow> (string \<times> string \<times> string) option" where
  "identityItem ps part = (case js_get ps part of
     JObj _ qs \<Rightarrow> (case js_get qs ''id'' of
         JStr i \<Rightarrow> if i = [] then None else Some (i,
           (case js_get qs ''status'' of JStr s \<Rightarrow> s | _ \<Rightarrow> ''_unknown''),
           (case js_get qs ''timestamp'' of JStr s \<Rightarrow> s | _ \<Rightarrow> ''_unknown''))
       | _ \<Rightarrow> None)
   | _ \<Rightarrow> None)"

definition identityFields :: "(string \<times> slot) list \<Rightarrow> jsval" where
  "identityFields ps = JObj ObjectProto (fold assignProp
     (map (\<lambda>(k, s). (k, Data (slot_value s))) (filter (\<lambda>(k, s). k \<notin> {''receivedAt'', ''rawChange''}) ps)) [])"

definition updateIdentity :: "jsval \<Rightarrow> update_identity option" where
  "updateIdentity update = (case update of
     JObj _ ps \<Rightarrow>
       let kind = js_get ps ''kind''; phone = identityScope ps ''phoneNumberId''; waba = identityScope ps ''wabaId'' in
       if kind = JStr ''message'' then map_option (\<lambda>(i, _, _). MessageIdentity phone waba i) (identityItem ps ''message'')
       else if kind = JStr ''status'' then map_option (\<lambda>(i, st, ts). StatusIdentity phone waba i st ts) (identityItem ps ''status'')
       else Some (OtherIdentity phone waba (identityFields ps))
   | _ \<Rightarrow> None)"

fun sameIdentity :: "update_identity \<Rightarrow> update_identity \<Rightarrow> bool" where
  "sameIdentity (OtherIdentity p w v) (OtherIdentity p' w' v') = (p = p' \<and> w = w' \<and> sameJson v v')"
| "sameIdentity i j = (i = j)"

fun identityData :: "update_identity \<Rightarrow> bool" where
  "identityData (OtherIdentity p w v) = (jsonData v \<and> levels v \<le> MAX_NESTED_DEPTH)"
| "identityData _ = True"

fun identityText :: "(rat \<Rightarrow> string) \<Rightarrow> update_identity \<Rightarrow> string" where
  "identityText nt (MessageIdentity p w i) = tupleText [''msg'', p, w, i]"
| "identityText nt (StatusIdentity p w i st ts) = tupleText [''status'', p, w, i, st, ts]"
| "identityText nt (OtherIdentity p w v) = tupleText [''other'', p, w, jsonText nt (sortKeys (\<lambda>k. k) v)]"

fun familyPrefix :: "update_identity \<Rightarrow> string" where
  "familyPrefix (MessageIdentity _ _ _) = ''msg:''"
| "familyPrefix (StatusIdentity _ _ _ _ _) = ''status:''"
| "familyPrefix (OtherIdentity _ _ _) = ''other:''"

lemma identity_scope: "scopeField ps key = identityScope ps key"
  by (auto simp: scopeField_def identityScope_def neq_Nil_conv split: jsval.split)

lemma identity_fields: "extractStableFields (JObj p ps) = Some (identityFields ps)"
  by (simp add: extractStableFields_def serviceRecord_def identityFields_def volatileKey_def)

lemma identity_item: "identityItem ps part = (case serviceRecord (js_get ps part) of None \<Rightarrow> None
    | Some m \<Rightarrow> map_option (\<lambda>i. (i, textField m ''status'', textField m ''timestamp'')) (idField m))"
  by (simp add: identityItem_def serviceRecord_def idField_def textField_def split: jsval.split)

lemma extractDedupKey_identity:
  "(case updateIdentity u of None \<Rightarrow> True | Some i \<Rightarrow> identityData i) \<Longrightarrow>
   extractDedupKey nt hash u = map_option (\<lambda>i. familyPrefix i @ hash (identityText nt i)) (updateIdentity u)"
proof (cases u)
  case (JObj p ps)
  assume "case updateIdentity u of None \<Rightarrow> True | Some i \<Rightarrow> identityData i"
  note defs = extractDedupKey_def updateIdentity_def Let_def serviceRecord_def [of "JObj p ps"] identity_scope
  consider (msg) "js_get ps ''kind'' = JStr ''message''" | (st) "js_get ps ''kind'' = JStr ''status''"
    | (other) "js_get ps ''kind'' \<noteq> JStr ''message''" "js_get ps ''kind'' \<noteq> JStr ''status''" by blast
  then show ?thesis
  proof cases
    case msg
    then show ?thesis by (simp add: JObj defs identity_item messageDedupKey_def [abs_def] option.map_comp comp_def split: option.split)
  next
    case st
    then show ?thesis by (simp add: JObj defs identity_item statusDedupKey_def option.map_comp comp_def split: option.split)
  next
    case other
    with \<open>case updateIdentity u of None \<Rightarrow> True | Some i \<Rightarrow> identityData i\<close> show ?thesis
      by (simp add: JObj defs identity_fields fallbackDedupKey_def boundedCanonicalJson_data)
  qed
qed (simp_all add: extractDedupKey_def updateIdentity_def serviceRecord_def)

lemma identityText_same:
  assumes "numberTexts nt" "identityData i" "identityData j"
  shows "identityText nt i = identityText nt j \<longleftrightarrow> sameIdentity i j"
proof -
  have "inj (\<lambda>k :: string. k)" by (simp add: inj_def)
  then have "jsonText nt (sortKeys (\<lambda>k. k) v) = jsonText nt (sortKeys (\<lambda>k. k) w) \<longleftrightarrow> sameJson v w"
    if "jsonData v" "jsonData w" for v w
    using jsonText_eq_iff [OF assms(1) sortKeys_data [OF that(1)] sortKeys_data [OF that(2)]]
      sortKeys_iff [OF _ that] by metis
  with assms(2,3) show ?thesis by (cases i; cases j) (auto simp: tupleText_inj)
qed

lemma dedupKey_same:
  assumes "numberTexts nt" "updateIdentity u = Some i" "updateIdentity u' = Some j" "identityData i" "identityData j"
    and "hash (identityText nt i) = hash (identityText nt j) \<Longrightarrow> identityText nt i = identityText nt j"
  shows "extractDedupKey nt hash u = extractDedupKey nt hash u' \<longleftrightarrow> sameIdentity i j"
proof -
  have "extractDedupKey nt hash u = Some (familyPrefix i @ hash (identityText nt i))"
    "extractDedupKey nt hash u' = Some (familyPrefix j @ hash (identityText nt j))"
    using extractDedupKey_identity [of u nt hash] extractDedupKey_identity [of u' nt hash] assms by simp_all
  moreover have "familyPrefix i @ hash (identityText nt i) = familyPrefix j @ hash (identityText nt j)
      \<longleftrightarrow> identityText nt i = identityText nt j"
    using assms(6) by (cases i; cases j) (auto simp: tupleText_inj)
  ultimately show ?thesis using identityText_same [OF assms(1,4,5)] by simp
qed

lemma hexDigit_inj: "m < 16 \<Longrightarrow> n < 16 \<Longrightarrow> hexDigit m = hexDigit n \<longleftrightarrow> m = n"
  using hexValue_digit [of m] hexValue_digit [of n] by metis

lemma bytesToHex_inj: "bytesToHex a = bytesToHex b \<longleftrightarrow> a = b"
proof
  assume "bytesToHex a = bytesToHex b"
  then show "a = b"
  proof (induction a arbitrary: b)
    case (Cons x a)
    then obtain y b' where b: "b = y # b'" by (cases b) auto
    have div: "unat x div 16 < 16" "unat y div 16 < 16"
      using unat_byte_less [of x] unat_byte_less [of y] by linarith+
    have "unat x div 16 = unat y div 16 \<and> unat x mod 16 = unat y mod 16"
      using Cons.prems b hexDigit_inj [OF div] hexDigit_inj [of "unat x mod 16" "unat y mod 16"] by simp
    then have "unat x = unat y" by (metis div_mult_mod_eq)
    with Cons b show ?case by (simp add: word_unat_eq_iff)
  next
    case Nil
    then show ?case by (cases b) auto
  qed
qed simp

text \<open>C28: The dedup key identifies an update across redeliveries.  Two messages have the same key exactly
  when phone number, account and message id agree, two statuses when also the status and its time
  agree, and two updates of any other family when their fields but the receipt time and the raw change
  agree, in whatever order they are listed; keys of different families never agree.  SHA-256 must
  not collide on the two texts.\<close>

theorem dedup_key_is_identity:
  assumes "numberTexts nt" and "updateIdentity u = Some i" and "updateIdentity u' = Some j"
    and "identityData i" and "identityData j"
    and "sha (utf8 (identityText nt i)) = sha (utf8 (identityText nt j)) \<Longrightarrow> identityText nt i = identityText nt j"
  shows "extractDedupKey nt (sha256Hex sha) u = extractDedupKey nt (sha256Hex sha) u' \<longleftrightarrow> sameIdentity i j"
proof -
  have "sha256Hex sha (identityText nt i) = sha256Hex sha (identityText nt j) \<Longrightarrow> identityText nt i = identityText nt j"
    using assms(6) by (simp add: sha256Hex_def bytesToHex_inj)
  with dedupKey_same [OF assms(1-5)] show ?thesis by blast
qed

definition sampleMessageUpdate :: "string \<Rightarrow> string \<Rightarrow> jsval" where
  "sampleMessageUpdate mid received = jsObject [(''kind'', JStr ''message''), (''wabaId'', JStr ''w''),
     (''message'', jsObject [(''id'', JStr mid)]), (''receivedAt'', JStr received)]"

lemma sampleMessageUpdate_identity:
  "updateIdentity (sampleMessageUpdate (c # cs) t) = Some (MessageIdentity ''_unknown'' ''w'' (c # cs))"
  by (simp add: updateIdentity_def sampleMessageUpdate_def jsObject_def identityItem_def identityScope_def)

definition sampleOtherUpdate :: "string \<Rightarrow> string \<Rightarrow> jsval" where
  "sampleOtherUpdate event received = jsObject [(''kind'', JStr ''account''), (''event'', JStr event),
     (''receivedAt'', JStr received), (''rawChange'', JStr received)]"

lemma sampleOtherUpdate_identity:
  "updateIdentity (sampleOtherUpdate e t) = Some (OtherIdentity ''_unknown'' ''_unknown''
     (jsObject [(''kind'', JStr ''account''), (''event'', JStr e)]))"
  by (simp add: updateIdentity_def sampleOtherUpdate_def jsObject_def identityFields_def identityScope_def
      assignProp_def Let_def keyRank_def isArrayIndex_def is_digit_def code_of_def)

lemma dedup_key_is_identity_witness:
  "extractDedupKey unaryText (sha256Hex (\<lambda>x. x)) (sampleMessageUpdate ''a'' ''10:00'')
     = extractDedupKey unaryText (sha256Hex (\<lambda>x. x)) (sampleMessageUpdate ''a'' ''10:05'')
   \<and> extractDedupKey unaryText (sha256Hex (\<lambda>x. x)) (sampleMessageUpdate ''a'' ''10:00'')
     \<noteq> extractDedupKey unaryText (sha256Hex (\<lambda>x. x)) (sampleMessageUpdate ''b'' ''10:00'')
   \<and> extractDedupKey unaryText (sha256Hex (\<lambda>x. x)) (sampleOtherUpdate ''e'' ''10:00'')
     = extractDedupKey unaryText (sha256Hex (\<lambda>x. x)) (sampleOtherUpdate ''e'' ''10:05'')"
proof -
  have same: "extractDedupKey unaryText (sha256Hex (\<lambda>x. x)) (sampleMessageUpdate (c # cs) t)
      = extractDedupKey unaryText (sha256Hex (\<lambda>x. x)) (sampleMessageUpdate (d # ds) t')
    \<longleftrightarrow> sameIdentity (MessageIdentity ''_unknown'' ''w'' (c # cs)) (MessageIdentity ''_unknown'' ''w'' (d # ds))"
    for c d cs ds t t'
    by (rule dedup_key_is_identity [OF numberTexts_unary sampleMessageUpdate_identity sampleMessageUpdate_identity])
      (simp_all add: utf8_inj)
  have data: "identityData (OtherIdentity ''_unknown'' ''_unknown'' (jsObject [(''kind'', JStr ''account''), (''event'', JStr e)]))"
    for e by (simp add: jsObject_def MAX_NESTED_DEPTH_def)
  have "extractDedupKey unaryText (sha256Hex (\<lambda>x. x)) (sampleOtherUpdate ''e'' t)
      = extractDedupKey unaryText (sha256Hex (\<lambda>x. x)) (sampleOtherUpdate ''e'' t')" for t t'
    using dedup_key_is_identity [OF numberTexts_unary sampleOtherUpdate_identity sampleOtherUpdate_identity data data,
        of "\<lambda>x. x" "''e''" "''e''" t t'] by (simp add: utf8_inj same_value)
  with same [of "CHR ''a''" "[]" _ "CHR ''a''" "[]"] same [of "CHR ''a''" "[]" _ "CHR ''b''" "[]"]
  show ?thesis by simp
qed

text \<open>The two gates of the ingress agree with the reference depth.\<close>

lemma depth_gate_covers_keys:
  "isWithinDepthLimit v \<Longrightarrow> jsonData v \<Longrightarrow> boundedCanonicalJson nt 0 v \<noteq> None"
  by (simp add: isWithinDepthLimit_levels boundedCanonicalJson_data)

end
