(* ===== verification/Service_Store.thy ===== *)
theory Service_Store
  imports Message_Store Conversation_Window Webhook_Ingress
begin

section \<open>The store interface of the service, and keyed claims\<close>

text \<open>
  \<open>PersistenceStore\<close> of \<open>packages/persistence/src/index.ts\<close> as the service uses it, and
  \<open>packages/service/src/serviceRequests.ts\<close>.  A store is a record of actions on its state; the two
  methods of durable claims are optional, and a claim returns any JavaScript value.  \<open>sqliteApi\<close> is
  the SQLite adapter behind that interface.  The locale \<open>keyed_store\<close> adds the interface's calling
  convention to the ledger contract of \<open>Request_Ledger\<close>; its lemmas say what the claim and the
  completion of a keyed send do, for any store that keeps the contract.
\<close>

subsection \<open>The interface\<close>

type_synonym store_exn = exn

record 's store_api =
  ap_backend :: string
  ap_health :: "('s, store_exn, jsval) act"
  ap_recordWebhookEvent :: "jsval \<Rightarrow> ('s, store_exn, event_result) act"
  ap_claim :: "(jsval \<Rightarrow> ('s, store_exn, jsval) act) option"
  ap_complete :: "(jsval \<Rightarrow> ('s, store_exn, unit) act) option"
  ap_recordMessage :: "jsval \<Rightarrow> ('s, store_exn, unit) act"
  ap_appendMessageStatus :: "jsval \<Rightarrow> ('s, store_exn, unit) act"
  ap_getMessage :: "jsval \<Rightarrow> ('s, store_exn, message_record option) act"
  ap_listMessages :: "jsval \<Rightarrow> ('s, store_exn, list_result) act"
  ap_windowState :: "jsval \<Rightarrow> ('s, store_exn, window_state) act"

definition claimValue :: "claim_result \<Rightarrow> jsval" where
  "claimValue c = (case c of
     ClaimClaimed \<Rightarrow> JStr ''claimed''
   | ClaimPending \<Rightarrow> JStr ''pending''
   | ClaimConflict \<Rightarrow> JStr ''conflict''
   | ClaimReplay j \<Rightarrow> jsObject [(''responseJson'', JStr j)])"

text \<open>The report of \<open>health\<close>, as the object the adapter returns.\<close>

definition healthValue :: "nat \<Rightarrow> jsval" where
  "healthValue v = jsObject [(''ok'', JBool True), (''backend'', JStr ''sqlite''),
     (''currentVersion'', JNum (Fin (of_nat v))), (''redactedLocation'', JStr ''[REDACTED_SQLITE_DATABASE]'')]"

definition sqliteApi :: "store store_api" where
  "sqliteApi = \<lparr> ap_backend = ''sqlite'',
     ap_health = bindA health (\<lambda>v. retA (healthValue v)),
     ap_recordWebhookEvent = recordWebhookEvent,
     ap_claim = Some (\<lambda>input. bindA (claimServiceRequest input) (\<lambda>c. retA (claimValue c))),
     ap_complete = Some completeServiceRequest,
     ap_recordMessage = recordMessage, ap_appendMessageStatus = appendMessageStatus,
     ap_getMessage = getMessage, ap_listMessages = listMessages,
     ap_windowState = getConversationWindowState \<rparr>"

definition isAtomicClaimStore :: "'s store_api \<Rightarrow> bool" where
  "isAtomicClaimStore api = (ap_claim api \<noteq> None \<and> ap_complete api \<noteq> None)"

subsection \<open>Keys and hashes\<close>

definition sha256HexPrefixed :: "(byte list \<Rightarrow> byte list) \<Rightarrow> string \<Rightarrow> string" where
  "sha256HexPrefixed sha s = ''sha256:'' @ bytesToHex (sha (utf8 s))"

definition namespacedIdempotencyKey ::
  "(byte list \<Rightarrow> byte list) \<Rightarrow> string \<Rightarrow> string \<Rightarrow> string \<Rightarrow> string \<Rightarrow> string" where
  "namespacedIdempotencyKey sha phoneNumberId wabaId operation rawKey =
     sha256HexPrefixed sha (tupleText [phoneNumberId, wabaId, operation, rawKey])"

lemma sha256HexPrefixed_inj: "(sha (utf8 s) = sha (utf8 t) \<Longrightarrow> s = t) \<Longrightarrow>
    sha256HexPrefixed sha s = sha256HexPrefixed sha t \<longleftrightarrow> s = t"
  by (auto simp: sha256HexPrefixed_def bytesToHex_inj)

subsection \<open>Claim and completion of a keyed send\<close>

datatype claim_exn = StoreRaised store_exn | ClaimMalformed

definition raisedAs :: "('e \<Rightarrow> 'f) \<Rightarrow> ('s, 'e, 'a) act \<Rightarrow> ('s, 'f, 'a) act" where
  "raisedAs f m s = (case m s of (Inl e, s') \<Rightarrow> (Inl (f e), s') | (Inr a, s') \<Rightarrow> (Inr a, s'))"

datatype keyed_outcome = KeyedClaimed | KeyedPending | KeyedConflict | KeyedReplay string | KeyedNotAtomic

definition claimKeyedSend ::
  "'s store_api option \<Rightarrow> string \<Rightarrow> string \<Rightarrow> string \<Rightarrow> ('s, claim_exn, keyed_outcome) act" where
  "claimKeyedSend store namespacedKey requestHash createdAt = (case store of
     None \<Rightarrow> retA KeyedClaimed
   | Some api \<Rightarrow>
       if \<not> isAtomicClaimStore api then retA KeyedNotAtomic
       else (case ap_claim api of None \<Rightarrow> retA KeyedNotAtomic | Some claim \<Rightarrow>
         bindA (raisedAs StoreRaised (claim (claimObj namespacedKey requestHash createdAt))) (\<lambda>result.
           if result = JStr ''claimed'' then retA KeyedClaimed
           else if result = JStr ''pending'' then retA KeyedPending
           else if result = JStr ''conflict'' then retA KeyedConflict
           else (case optField result ''responseJson'' of
               JStr j \<Rightarrow> if j \<noteq> [] then retA (KeyedReplay j)
                 else failA ClaimMalformed
             | _ \<Rightarrow> failA ClaimMalformed))))"

definition completeKeyedSend ::
  "'s store_api option \<Rightarrow> string \<Rightarrow> string \<Rightarrow> string \<Rightarrow> string \<Rightarrow> ('s, store_exn, bool) act" where
  "completeKeyedSend store namespacedKey requestHash responseJson createdAt = (case store of
     None \<Rightarrow> retA True
   | Some api \<Rightarrow>
       if \<not> isAtomicClaimStore api then retA False
       else (case ap_complete api of None \<Rightarrow> retA False | Some completeOp \<Rightarrow>
         tryA (bindA (completeOp (completionObj namespacedKey requestHash responseJson createdAt)) (\<lambda>_. retA True))
           (\<lambda>_. retA False)))"

subsection \<open>Stores that keep the ledger contract\<close>

locale keyed_store = request_ledger claim complete wf ledger_of
  for claim :: "string \<Rightarrow> string \<Rightarrow> string \<Rightarrow> 's \<Rightarrow> (exn + claim_result) \<times> 's"
    and complete :: "string \<Rightarrow> string \<Rightarrow> string \<Rightarrow> string \<Rightarrow> 's \<Rightarrow> (exn + unit) \<times> 's"
    and wf :: "'s \<Rightarrow> bool" and ledger_of :: "'s \<Rightarrow> ledger" +
  fixes api :: "'s store_api"
  assumes atomic: "isAtomicClaimStore api"
    and claim_api: "the (ap_claim api) (claimObj k h ts) s = bindA (claim k h ts) (\<lambda>c. retA (claimValue c)) s"
    and complete_api: "the (ap_complete api) (completionObj k h j ts) s = complete k h j ts s"
    and stored_nonempty: "wf s \<Longrightarrow> ledger_of s k = Some (h, Some j) \<Longrightarrow> j \<noteq> []"
begin

text \<open>What a claim tells its caller, by the ledger.\<close>

lemma claimKeyedSend_ledger:
  assumes "wf s"
  obtains (raised) e s' where "claimKeyedSend (Some api) k h ts s = (Inl e, s')" "wf s'" "ledger_of s' = ledger_of s"
  | (claimed) s' where "claimKeyedSend (Some api) k h ts s = (Inr KeyedClaimed, s')" "wf s'"
      "ledger_of s k = None" "ledger_of s' = (ledger_of s)(k \<mapsto> (h, None))"
  | (used) h' resp s' where "claimKeyedSend (Some api) k h ts s = (Inr (if h' \<noteq> h then KeyedConflict
        else case resp of None \<Rightarrow> KeyedPending | Some j \<Rightarrow> KeyedReplay j), s')" "wf s'"
      "ledger_of s k = Some (h', resp)" "ledger_of s' = ledger_of s"
proof -
  obtain cl where cl: "ap_claim api = Some cl" using atomic by (auto simp: isAtomicClaimStore_def)
  obtain r s' where r: "claim k h ts s = (r, s')" by fastforce
  have wf': "wf s'" using claim_wf [OF assms, of k h ts] r by simp
  have run: "claimKeyedSend (Some api) k h ts s = bindA (raisedAs StoreRaised (bindA (claim k h ts) (\<lambda>c. retA (claimValue c)))) (\<lambda>result.
           if result = JStr ''claimed'' then retA KeyedClaimed
           else if result = JStr ''pending'' then retA KeyedPending
           else if result = JStr ''conflict'' then retA KeyedConflict
           else (case optField result ''responseJson'' of
               JStr j \<Rightarrow> if j \<noteq> [] then retA (KeyedReplay j)
                 else failA ClaimMalformed
             | _ \<Rightarrow> failA ClaimMalformed)) s"
    using claim_api [of k h ts s] atomic cl by (simp add: claimKeyedSend_def bindA_def raisedAs_def)
  show thesis
  proof (cases r)
    case (Inl e)
    with r run claim_error [OF assms r [unfolded Inl]] wf' show thesis by (simp add: raised [of "StoreRaised e" s'] bindA_def raisedAs_def)
  next
    case (Inr c)
    with claim_ok [OF assms] r have spec: "specClaim k h (ledger_of s) = (c, ledger_of s')" by blast
    show thesis
    proof (cases "ledger_of s k")
      case None
      with spec have "c = ClaimClaimed" "ledger_of s' = (ledger_of s)(k \<mapsto> (h, None))" by (auto simp: specClaim_def)
      with r Inr run wf' None show thesis by (intro claimed) (simp_all add: bindA_def raisedAs_def claimValue_def)
    next
      case (Some hr)
      obtain h' resp where hr: "hr = (h', resp)" by (cases hr)
      from spec Some hr have c: "c = (if h' \<noteq> h then ClaimConflict
          else case resp of None \<Rightarrow> ClaimPending | Some j \<Rightarrow> ClaimReplay j)" "ledger_of s' = ledger_of s"
        by (auto simp: specClaim_def)
      have "resp = Some j \<Longrightarrow> j \<noteq> []" for j using stored_nonempty [OF assms] Some hr by blast
      with c r Inr run have "claimKeyedSend (Some api) k h ts s = (Inr (if h' \<noteq> h then KeyedConflict
        else case resp of None \<Rightarrow> KeyedPending | Some j \<Rightarrow> KeyedReplay j), s')"
        by (auto simp: bindA_def raisedAs_def claimValue_def jsObject_def optField_def objectProps_def split: option.splits)
      then show thesis using wf' Some [unfolded hr] c(2) by (rule used)
    qed
  qed
qed

lemma completeKeyedSend_ledger:
  assumes "wf s" "ledger_of s k = Some (h, None)"
  obtains (stored) s' where "completeKeyedSend (Some api) k h j ts s = (Inr True, s')" "wf s'"
      "ledger_of s' = (ledger_of s)(k \<mapsto> (h, Some j))"
  | (degraded) s' where "completeKeyedSend (Some api) k h j ts s = (Inr False, s')" "wf s'" "ledger_of s' = ledger_of s"
proof -
  obtain cp where cp: "ap_complete api = Some cp" using atomic by (auto simp: isAtomicClaimStore_def)
  obtain r s' where r: "complete k h j ts s = (r, s')" by fastforce
  have wf': "wf s'" using complete_wf [OF assms(1), of k h j ts] r by simp
  have run: "completeKeyedSend (Some api) k h j ts s = (Inr (case r of Inl _ \<Rightarrow> False | Inr _ \<Rightarrow> True), s')"
    using complete_api [of k h j ts s] atomic cp r
    by (auto simp: completeKeyedSend_def bindA_def tryA_def split: sum.splits)
  show thesis
  proof (cases r)
    case (Inl e)
    with r run complete_error [OF assms(1) r [unfolded Inl]] wf' show thesis by (simp add: degraded [of s'])
  next
    case (Inr u)
    from complete_ok [OF assms(1) r [unfolded Inr]] assms(2)
    have "ledger_of s' = (ledger_of s)(k \<mapsto> (h, Some j))" by (simp add: specComplete_def)
    with run Inr wf' show thesis by (intro stored) simp_all
  qed
qed

end

subsection \<open>SQLite keeps the contract\<close>

text \<open>The adapter only stores a response that parses as JSON, so no stored response is empty.\<close>

definition keyedOk :: "store \<Rightarrow> bool" where
  "keyedOk s = (ledgerOk (db s) \<and> list_all (\<lambda>r. rqResponse r \<noteq> Some []) (requests (db s)))"

lemma ledgerOf_nonempty:
  assumes "distinct (map rqKey (requests t))"
  shows "list_all (\<lambda>r. rqResponse r \<noteq> Some []) (requests t) \<longleftrightarrow> (\<forall>k h. ledgerOf t k \<noteq> Some (h, Some []))"
proof (intro iffI allI notI)
  fix k h
  assume "list_all (\<lambda>r. rqResponse r \<noteq> Some []) (requests t)" "ledgerOf t k = Some (h, Some [])"
  then show False by (auto simp: ledgerOf_def find_Some_iff list_all_iff)
next
  assume n: "\<forall>k h. ledgerOf t k \<noteq> Some (h, Some [])"
  show "list_all (\<lambda>r. rqResponse r \<noteq> Some []) (requests t)"
  proof (simp add: list_all_iff, intro ballI notI)
    fix r
    assume "r \<in> set (requests t)" "rqResponse r = Some []"
    with find_Some_iff_unique [OF assms, of "rqKey r" r] n show False by (auto simp: ledgerOf_def)
  qed
qed

lemma keyedOk_ledger: "keyedOk s \<longleftrightarrow> ledgerOk (db s) \<and> (\<forall>k h. ledgerOf (db s) k \<noteq> Some (h, Some []))"
  using ledgerOf_nonempty [of "db s"] by (auto simp: keyedOk_def ledgerOk_def)

lemma keyedOk_claim:
  assumes "keyedOk s"
  shows "keyedOk (snd (claimServiceRequest (claimObj k h ts) s))"
proof -
  obtain r s' where r: "claimServiceRequest (claimObj k h ts) s = (r, s')" by fastforce
  have "ledgerOk (db s')"
    using holdsA_D [OF holdsA_ledgerOk_claim _ r] assms by (simp add: keyedOk_def)
  with claim_refines [OF r] assms show ?thesis
    by (auto simp: keyedOk_ledger r specClaim_def dest!: sym [of "_(_ \<mapsto> _)"] split: sum.splits option.splits if_splits)
qed

lemma keyedOk_complete:
  assumes "keyedOk s"
  shows "keyedOk (snd (completeServiceRequest (completionObj k h j ts) s))"
proof -
  obtain r s' where r: "completeServiceRequest (completionObj k h j ts) s = (r, s')" by fastforce
  have ok: "ledgerOk (db s')"
    using holdsA_D [OF holdsA_ledgerOk_complete _ r] assms by (simp add: keyedOk_def)
  have "r = Inr () \<Longrightarrow> j \<noteq> []"
  proof -
    assume "r = Inr ()"
    from r [unfolded completeServiceRequest_def] show "j \<noteq> []"
    proof (cases rule: guarded_cases)
      case (returns comp)
      then show ?thesis
        by (auto simp: validateServiceRequestCompletion_def validateServiceRequestRecord_def res_iff
            validateJsonText_def completionObj_def strObj_def validateRecordInput_def isRecord_def
            validateRecordString_def jsonValid_nonempty badRecord_def split: jsval.splits if_splits)
    qed (use \<open>r = Inr ()\<close> in simp)
  qed
  with complete_refines [OF r] ok assms show ?thesis
    by (auto simp: keyedOk_ledger r specComplete_def dest!: sym [of "_(_ \<mapsto> _)"] split: sum.splits option.splits if_splits)
qed

interpretation ks: keyed_store
  "\<lambda>k h ts. claimServiceRequest (claimObj k h ts)"
  "\<lambda>k h j ts. completeServiceRequest (completionObj k h j ts)"
  keyedOk "\<lambda>s. ledgerOf (db s)" sqliteApi
proof unfold_locales
  show "isAtomicClaimStore sqliteApi" by (simp add: isAtomicClaimStore_def sqliteApi_def)
next
  fix k h j s
  assume "keyedOk s" "ledgerOf (db s) k = Some (h, Some j)"
  then show "j \<noteq> []" by (auto simp: keyedOk_ledger)
qed (use keyedOk_claim keyedOk_complete lgr.claim_ok lgr.claim_error lgr.complete_ok lgr.complete_error
    in \<open>auto simp: keyedOk_def sqliteApi_def\<close>)

subsection \<open>Message projections leave the ledgers alone\<close>

text \<open>The rows of the request and event ledgers.\<close>

definition ledgerRows :: "tables \<Rightarrow> sr_row list \<times> webhook_event list" where
  "ledgerRows t = (requests t, events t)"

definition keepsRows :: "(tables \<Rightarrow> (exn + 'a) \<times> tables) \<Rightarrow> bool" where
  "keepsRows f = (\<forall>t. ledgerRows (snd (f t)) = ledgerRows t)"

text \<open>The rows, in the database and in the snapshot of a transaction.\<close>

definition rowsKept :: "sr_row list \<times> webhook_event list \<Rightarrow> store \<Rightarrow> bool" where
  "rowsKept R s = (ledgerRows (db s) = R \<and> (\<forall>t. snapshot s = Some t \<longrightarrow> ledgerRows t = R))"

lemma keepsRows_statements:
  "keepsRows (insertMessage m)" "keepsRows (insertStatusEvent e)" "keepsRows (selectMessage wa)"
  "keepsRows (updateMessages st u wa)" "keepsRows (selectEvents wa)"
  by (auto simp: keepsRows_def insertMessage_def insertStatusEvent_def selectMessage_def updateMessages_def
      selectEvents_def needs_def readOnly_def ledgerRows_def split: if_splits)

lemma rowsKept_sql: "keepsRows f \<Longrightarrow> holdsA (rowsKept R) (sql f) (rowsKept R)"
  by (simp add: holdsA_def rowsKept_def sql_def keepsRows_def)

lemma rowsKept_ends: "holdsA (rowsKept R) commit (rowsKept R)" "holdsA (rowsKept R) rollback (rowsKept R)"
  "holdsA (rowsKept R) assertOpen (rowsKept R)"
  by (auto simp: holdsA_def rowsKept_def commit_def rollback_def assertOpen_def split: option.splits)

lemmas rowsKept_keeps = rowsKept_sql rowsKept_ends keepsRows_statements keeps_rules

lemma rowsKept_append: "holdsA (rowsKept R) (appendBody e) (rowsKept R)"
  unfolding appendBody_def by (intro rowsKept_keeps) (auto split: option.split intro!: rowsKept_keeps)

lemma inTransaction_rows:
  assumes "\<And>R. holdsA (rowsKept R) m (rowsKept R)"
  shows "ledgerRows (db (snd (inTransaction code m s))) = ledgerRows (db s)"
proof (cases "snapshot s")
  case (Some t)
  then show ?thesis by (simp add: inTransaction_def bindA_def beginImmediate_def)
next
  case None
  let ?body = "tryA (bindA m (\<lambda>a. bindA commit (\<lambda>_. retA a))) (\<lambda>_. bindA rollback (\<lambda>_. failA (PersistenceError code)))"
  have b: "holdsA (rowsKept R) ?body (rowsKept R)" for R
    by (intro rowsKept_keeps assms)
  show ?thesis
  proof (cases "faults s \<noteq> [] \<and> hd (faults s)")
    case True
    with None show ?thesis by (simp add: inTransaction_def bindA_def beginImmediate_def)
  next
    case False
    let ?s1 = "s\<lparr>faults := tl (faults s), snapshot := Some (db s)\<rparr>"
    have begun: "beginImmediate s = (Inr (), ?s1)" using None False by (auto simp: beginImmediate_def)
    have run: "inTransaction code m s = ?body ?s1"
      unfolding inTransaction_def by (rule bindA_ret [where m = beginImmediate, OF begun])
    obtain r s2 where "?body ?s1 = (r, s2)" by fastforce
    moreover have "rowsKept (ledgerRows (db s)) ?s1" by (simp add: rowsKept_def)
    ultimately have "rowsKept (ledgerRows (db s)) s2" by (rule holdsA_D [OF b, rotated])
    with \<open>?body ?s1 = (r, s2)\<close> show ?thesis by (simp add: run rowsKept_def)
  qed
qed

lemma liftA_state: "holdsA P (bindA (liftA v) f) P" if "\<And>a. holdsA P (f a) P"
  by (intro holdsA_bindA_same holdsA_liftA that)

definition rowsAre :: "sr_row list \<times> webhook_event list \<Rightarrow> store \<Rightarrow> bool" where
  "rowsAre R s = (ledgerRows (db s) = R)"

lemma rowsAre_sql: "keepsRows f \<Longrightarrow> holdsA (rowsAre R) (sql f) (rowsAre R)"
  by (simp add: holdsA_def rowsAre_def sql_def keepsRows_def)

lemma rowsAre_assertOpen: "holdsA (rowsAre R) assertOpen (rowsAre R)"
  by (simp add: holdsA_def rowsAre_def assertOpen_def)

lemma recordMessage_rows: "ledgerRows (db (snd (recordMessage i s))) = ledgerRows (db s)"
proof -
  have "holdsA (rowsAre R) (recordMessage i) (rowsAre R)" for R
    unfolding recordMessage_def reconcileStoredStatus_def asError_def
    by (intro rowsAre_sql rowsAre_assertOpen keepsRows_statements keeps_rules)
       (auto split: prod.split intro!: rowsAre_sql keepsRows_statements keeps_rules)
  then show ?thesis by (simp add: holdsA_def rowsAre_def)
qed

lemma appendMessageStatus_rows: "ledgerRows (db (snd (appendMessageStatus i s))) = ledgerRows (db s)"
proof -
  have t: "ledgerRows (db (snd (inTransaction OutboxFailed (appendBody e) s))) = ledgerRows (db s)" for e s
    by (rule inTransaction_rows [OF rowsKept_append])
  show ?thesis
    using t by (auto simp: appendMessageStatus_def bindA_def assertOpen_def split: sum.split)
qed

end
