(* ===== verification/Service_Core.thy ===== *)
theory Service_Core
  imports Service_Telemetry Service_Store Webhook_Servers
begin

section \<open>The service: state, responses, authorization, operator payloads\<close>

text \<open>
  The common part of the handlers of \<open>packages/service/src/index.ts\<close>.  A handler is an action on a
  \<open>service_world\<close>: the store's and the sink's state, the error ledger, the log of calls made on the
  Graph client, the updates handed to the facade and the facade's state, the number of clock
  readings and row ids drawn so far, and the lines of \<open>console.warn\<close>.  A \<open>runtime\<close> is the
  \<open>RuntimeConfig\<close> with the environment: the Graph client's answer to the \<open>n\<close>-th call, the facade (which throws, or reports the errors of its
  handlers), the clock's
  \<open>n\<close>-th reading, SHA-256, \<open>JSON.parse\<close>, \<open>decodeURIComponent\<close>, the text of numbers.
\<close>

subsection \<open>Requests\<close>

record service_request =
  hq_method :: string
  hq_url :: string
  hq_headers :: "(string \<times> string) list"
  hq_text :: "string option"
  hq_stream :: request_stream

text \<open>What \<open>new URL\<close> yields; the query holds the pairs of \<open>searchParams\<close>.\<close>

record service_url =
  su_origin :: string
  su_pathname :: string
  su_query :: "(string \<times> string) list"

subsection \<open>Graph calls\<close>

datatype graph_call =
    SendTextCall string string string "bool option"
  | PostMessagesCall string jsval
  | GroupCall string "(string \<times> string) list" "jsval option"

datatype graph_failure = ApiFailure graph_error | RequestValidation | OtherFailure thrown_value

datatype service_exn = StoreExn claim_exn | SinkExn telemetry_exn | GraphExn graph_failure | CodeExn thrown_value

definition thrownOf :: "service_exn \<Rightarrow> thrown_value" where
  "thrownOf e = (case e of
     GraphExn (ApiFailure g) \<Rightarrow> ThrownError (ge_name g)
   | GraphExn RequestValidation \<Rightarrow> ThrownError ''GraphRequestValidationError''
   | GraphExn (OtherFailure t) \<Rightarrow> t
   | CodeExn t \<Rightarrow> t
   | _ \<Rightarrow> ThrownError ''Error'')"

subsection \<open>State and runtime\<close>

record ('s, 't, 'f) service_world =
  sv_store :: 's
  sv_telemetry :: 't
  sv_errors :: error_ledger
  sv_sent :: "graph_call list"
  sv_facade :: 'f
  sv_dispatched :: "jsval list"
  sv_reads :: nat
  sv_warn :: "jsval list"

record service_profile =
  pf_phoneNumberId :: string
  pf_wabaId :: string
  pf_graphApiVersion :: string
  pf_host :: jsval
  pf_port :: jsval
  pf_apiPrefix :: string
  pf_webhookPath :: string
  pf_accessTokenRef :: jsval
  pf_verifyTokenRef :: jsval
  pf_appSecretRef :: jsval
  pf_maxBodyBytes :: nat

record ('s, 't, 'f) runtime =
  rt_profile :: service_profile
  rt_bearerToken :: string
  rt_verifyToken :: string
  rt_appSecret :: string
  rt_store :: "'s store_api option"
  rt_sink :: "'t telemetry_sink"
  rt_webhookPath :: string
  rt_apiPrefix :: string
  rt_enableGroupRoutes :: bool
  rt_graph :: "nat \<Rightarrow> graph_call \<Rightarrow> graph_failure + jsval"
  rt_dispatch :: "jsval \<Rightarrow> 'f \<Rightarrow> (thrown_value + thrown_value list) \<times> 'f"
  rt_now :: "nat \<Rightarrow> int"
  rt_rowId :: "nat \<Rightarrow> string"
  rt_sha :: "byte list \<Rightarrow> byte list"
  rt_numberText :: "rat \<Rightarrow> string"
  rt_parseJson :: "string \<Rightarrow> jsval option"
  rt_decodeUri :: "string \<Rightarrow> string option"

definition textPath :: "('s, 't, 'f) runtime \<Rightarrow> string" where
  "textPath ctx = rt_apiPrefix ctx @ ''/messages/text''"

definition messagesPath :: "('s, 't, 'f) runtime \<Rightarrow> string" where
  "messagesPath ctx = rt_apiPrefix ctx @ ''/messages''"

definition conversationsPath :: "('s, 't, 'f) runtime \<Rightarrow> string" where
  "conversationsPath ctx = rt_apiPrefix ctx @ ''/conversations''"

definition groupsPath :: "('s, 't, 'f) runtime \<Rightarrow> string" where
  "groupsPath ctx = rt_apiPrefix ctx @ ''/groups''"

type_synonym ('s, 't, 'f, 'a) svc_act = "(('s, 't, 'f) service_world, service_exn, 'a) act"

text \<open>Actions on a part of the state.\<close>

definition onStore :: "('e \<Rightarrow> claim_exn) \<Rightarrow> ('s, 'e, 'a) act \<Rightarrow> ('s, 't, 'f, 'a) svc_act" where
  "onStore f m w = (case m (sv_store w) of
     (Inl e, s') \<Rightarrow> (Inl (StoreExn (f e)), w\<lparr>sv_store := s'\<rparr>) | (Inr a, s') \<Rightarrow> (Inr a, w\<lparr>sv_store := s'\<rparr>))"

definition onSink :: "('t, telemetry_exn, unit) act \<Rightarrow> ('s, 't, 'f, unit) svc_act" where
  "onSink m w = (case m (sv_telemetry w) of
     (Inl e, t') \<Rightarrow> (Inl (SinkExn e), w\<lparr>sv_telemetry := t'\<rparr>) | (Inr a, t') \<Rightarrow> (Inr a, w\<lparr>sv_telemetry := t'\<rparr>))"

definition modifyA :: "('w \<Rightarrow> 'w) \<Rightarrow> ('w, 'e, unit) act" where
  "modifyA f w = (Inr (), f w)"

text \<open>The clock and the source of row ids share one counter of readings.\<close>

definition readNowMs :: "('s, 't, 'f) runtime \<Rightarrow> ('s, 't, 'f, int) svc_act" where
  "readNowMs ctx w = (Inr (rt_now ctx (sv_reads w)), w\<lparr>sv_reads := Suc (sv_reads w)\<rparr>)"

text \<open>The ISO text of an instant; the clock is within the range of dates.\<close>

definition isoText :: "int \<Rightarrow> string" where
  "isoText ms = (case toISOString ms of Some s \<Rightarrow> s | None \<Rightarrow> [])"

definition readNowIso :: "('s, 't, 'f) runtime \<Rightarrow> ('s, 't, 'f, string) svc_act" where
  "readNowIso ctx = bindA (readNowMs ctx) (\<lambda>ms. retA (isoText ms))"

definition cryptoRandomId :: "('s, 't, 'f) runtime \<Rightarrow> ('s, 't, 'f, string) svc_act" where
  "cryptoRandomId ctx w = (Inr (rt_rowId ctx (sv_reads w)), w\<lparr>sv_reads := Suc (sv_reads w)\<rparr>)"

text \<open>A call on the Graph client: it is logged, and answered by the environment.\<close>

definition callGraph :: "('s, 't, 'f) runtime \<Rightarrow> graph_call \<Rightarrow> ('s, 't, 'f, jsval) svc_act" where
  "callGraph ctx call w = (case rt_graph ctx (length (sv_sent w)) call of
     Inl e \<Rightarrow> (Inl (GraphExn e), w\<lparr>sv_sent := sv_sent w @ [call]\<rparr>)
   | Inr v \<Rightarrow> (Inr v, w\<lparr>sv_sent := sv_sent w @ [call]\<rparr>))"

text \<open>An early return: \<open>Inl\<close> is the response.\<close>

definition bindR :: "('w, 'e, webhook_response + 'a) act \<Rightarrow> ('a \<Rightarrow> ('w, 'e, webhook_response) act) \<Rightarrow> ('w, 'e, webhook_response) act"
where
  "bindR m f = bindA m (\<lambda>r. case r of Inl resp \<Rightarrow> retA resp | Inr a \<Rightarrow> f a)"

subsection \<open>Responses\<close>

definition svcJsonResponse :: "('s, 't, 'f) runtime \<Rightarrow> nat \<Rightarrow> jsval \<Rightarrow> (string \<times> string) list \<Rightarrow> webhook_response" where
  "svcJsonResponse ctx status payload headers = \<lparr> ws_status = status,
     ws_headers = (''content-type'', JSON_CONTENT_TYPE) # headers,
     ws_body = stringifyBody (rt_numberText ctx) payload \<rparr>"

definition svcErrorResponse :: "nat \<Rightarrow> string \<Rightarrow> string \<Rightarrow> (string \<times> string) list \<Rightarrow> webhook_response" where
  "svcErrorResponse status code message headers = \<lparr> ws_status = status,
     ws_headers = (''content-type'', JSON_CONTENT_TYPE) # headers,
     ws_body = stringifyBody (\<lambda>_. []) (jsObject [(''error'',
       jsObject ((''code'', JStr code) # (if message = [] then [] else [(''message'', JStr message)])))]) \<rparr>"

definition jsonTextResponse :: "nat \<Rightarrow> string \<Rightarrow> webhook_response" where
  "jsonTextResponse status payloadText = \<lparr> ws_status = status,
     ws_headers = [(''content-type'', JSON_CONTENT_TYPE)], ws_body = payloadText \<rparr>"

definition methodNotAllowed :: "string \<Rightarrow> webhook_response" where
  "methodNotAllowed allow = svcErrorResponse 405 ''method_not_allowed'' ''Method not allowed.'' [(''Allow'', allow)]"

definition unauthorized :: webhook_response where
  "unauthorized = svcErrorResponse 401 ''unauthorized'' ''Missing or invalid bearer token.'' []"

definition notFound :: webhook_response where
  "notFound = svcErrorResponse 404 ''not_found'' ''Route not found.'' []"

subsection \<open>Reading requests\<close>

definition svcNonEmptyString :: "jsval \<Rightarrow> string option" where
  "svcNonEmptyString v = (case v of
     JStr s \<Rightarrow> if s \<noteq> [] \<and> js_trim s \<noteq> [] \<and> \<not> hasControlChars s then Some s else None | _ \<Rightarrow> None)"

text \<open>\<open>readRequestText\<close> and \<open>parseJsonText\<close>; \<open>None\<close> is \<open>"malformed"\<close>.\<close>

definition parseJsonBody :: "('s, 't, 'f) runtime \<Rightarrow> service_request \<Rightarrow> jsval option" where
  "parseJsonBody ctx rq = (case hq_text rq of None \<Rightarrow> None | Some t \<Rightarrow> rt_parseJson ctx t)"

datatype key_header = NoKey | InvalidKey | Key string

definition safeIdempotencyKey :: "service_request \<Rightarrow> key_header" where
  "safeIdempotencyKey rq = (case headersGet (hq_headers rq) ''idempotency-key'' of
     None \<Rightarrow> NoKey
   | Some raw \<Rightarrow> if js_trim raw = [] \<or> length raw > 256 \<or> hasControlChars raw then InvalidKey else Key raw)"

subsection \<open>Authorization\<close>

fun padDiff :: "32 word \<Rightarrow> byte list \<Rightarrow> byte list \<Rightarrow> 32 word" where
  "padDiff diff [] [] = diff"
| "padDiff diff (a # as) [] = padDiff (diff OR (ucast a XOR 0)) as []"
| "padDiff diff [] (b # bs) = padDiff (diff OR (0 XOR ucast b)) [] bs"
| "padDiff diff (a # as) (b # bs) = padDiff (diff OR (ucast a XOR ucast b)) as bs"

definition timingSafeStringEqual :: "string \<Rightarrow> string \<Rightarrow> bool" where
  "timingSafeStringEqual a b = (let left = utf8 a; right = utf8 b in
     padDiff (of_nat (length left) XOR of_nat (length right)) left right = 0)"

definition isAuthorized :: "service_request \<Rightarrow> string \<Rightarrow> bool" where
  "isAuthorized rq expected = (case headersGet (hq_headers rq) ''authorization'' of
     None \<Rightarrow> False
   | Some raw \<Rightarrow>
       if \<not> js_prefix ''Bearer '' raw then False
       else let tok = drop (length ''Bearer '') raw in
         if length tok = 0 then False else timingSafeStringEqual tok expected)"

lemma padDiff_zero: "padDiff d as bs = 0 \<Longrightarrow> d = 0 \<and> (length as = length bs \<longrightarrow> as = bs)"
proof (induction d as bs rule: padDiff.induct)
  case (4 d a as b bs)
  then show ?case by (auto simp: or_eq_0_iff xor_bytes_zero)
qed (auto simp: or_eq_0_iff)

lemma padDiff_same: "padDiff 0 as as = 0"
  by (induction as) auto

lemma xor_zero_eq: "(a :: 32 word) XOR b = 0 \<Longrightarrow> a = b"
proof -
  assume z: "a XOR b = 0"
  have "a = (a XOR b) XOR b" by (simp add: xor.assoc)
  with z show ?thesis by simp
qed

text \<open>C29: A request is authorized exactly by the header \<open>Bearer \<close> followed by the token: the
  accumulator of the comparison, with the lengths folded in, decides equality of strings whose
  encodings have fewer than 2^32 bytes.\<close>

theorem authorized_only_by_the_token:
  assumes "length (utf8 expected) < 2 ^ 32" "expected \<noteq> []"
    "\<forall>raw. headersGet (hq_headers rq) ''authorization'' = Some raw \<longrightarrow> length (utf8 raw) < 2 ^ 32"
  shows "isAuthorized rq expected \<longleftrightarrow> headersGet (hq_headers rq) ''authorization'' = Some (''Bearer '' @ expected)"
proof -
  have eq: "timingSafeStringEqual tok expected \<longleftrightarrow> tok = expected" if "length (utf8 tok) < 2 ^ 32" for tok
  proof
    assume "timingSafeStringEqual tok expected"
    then have d: "(of_nat (length (utf8 tok)) :: 32 word) XOR of_nat (length (utf8 expected)) = 0"
      "length (utf8 tok) = length (utf8 expected) \<longrightarrow> utf8 tok = utf8 expected"
      using padDiff_zero by (auto simp: timingSafeStringEqual_def Let_def)
    from d(1) have "(of_nat (length (utf8 tok)) :: 32 word) = of_nat (length (utf8 expected))"
      by (rule xor_zero_eq)
    then have "unat (of_nat (length (utf8 tok)) :: 32 word) = unat (of_nat (length (utf8 expected)) :: 32 word)" by simp
    moreover have "unat (of_nat n :: 32 word) = n" if "n < 2 ^ 32" for n
      using that by (simp add: unsigned_of_nat take_bit_nat_eq_self)
    ultimately have "length (utf8 tok) = length (utf8 expected)" using that assms(1) by simp
    with d(2) show "tok = expected" by (simp add: utf8_inj)
  qed (simp add: timingSafeStringEqual_def padDiff_same)
  have short: "length (utf8 tok) < 2 ^ 32" if "length (utf8 (''Bearer '' @ tok)) < 2 ^ 32" for tok
    using that by (simp split: if_splits)
  show ?thesis
    using assms(2,3) by (auto simp: isAuthorized_def js_prefix_iff Let_def eq short split: option.splits)
qed

definition sampleRequest :: "string \<Rightarrow> (string \<times> string) list \<Rightarrow> string option \<Rightarrow> service_request" where
  "sampleRequest meth hs body = \<lparr> hq_method = meth, hq_url = ''/'', hq_headers = hs, hq_text = body, hq_stream = Buffered None \<rparr>"

lemma authorized_only_by_the_token_witness:
  "isAuthorized (sampleRequest ''GET'' [(''authorization'', ''Bearer t'')] None) ''t''
   \<and> \<not> isAuthorized (sampleRequest ''GET'' [(''authorization'', ''bearer t'')] None) ''t''"
  using authorized_only_by_the_token [of "''t''" "sampleRequest ''GET'' [(''authorization'', ''Bearer t'')] None"]
    authorized_only_by_the_token [of "''t''" "sampleRequest ''GET'' [(''authorization'', ''bearer t'')] None"]
  by (simp add: sampleRequest_def headersGet_def js_lower_def js_lower_char_def code_of_def)

subsection \<open>Graph failures\<close>

definition finiteOf :: "jsnum option \<Rightarrow> jsval option" where
  "finiteOf x = (case x of Some n \<Rightarrow> if isFiniteNum n then Some (JNum n) else None | None \<Rightarrow> None)"

definition shortOf :: "nat \<Rightarrow> string option \<Rightarrow> string option" where
  "shortOf maxLen x = (case x of None \<Rightarrow> None
   | Some v \<Rightarrow> (let trimmed = js_trim v in if length trimmed = 0 \<or> length trimmed > maxLen then None else Some trimmed))"

definition entryOf :: "string \<Rightarrow> jsval option \<Rightarrow> (string \<times> jsval) list" where
  "entryOf k v = (case v of None \<Rightarrow> [] | Some x \<Rightarrow> [(k, x)])"

definition sanitizeGraphDiagnostics :: "service_exn \<Rightarrow> (string \<times> jsval) list" where
  "sanitizeGraphDiagnostics e = (case e of
     GraphExn (ApiFailure g) \<Rightarrow> (case ge_payload g of None \<Rightarrow> []
       | Some p \<Rightarrow> entryOf ''metaCode'' (finiteOf (p_code p)) @ entryOf ''metaSubcode'' (finiteOf (p_subcode p))
           @ entryOf ''metaType'' (map_option JStr (shortOf 256 (p_type p)))
           @ entryOf ''fbtraceId'' (map_option JStr (shortOf 256 (p_fbtrace p))))
   | _ \<Rightarrow> [])"

definition graphErrorStatus :: "service_exn \<Rightarrow> int" where
  "graphErrorStatus e = (case e of GraphExn (ApiFailure g) \<Rightarrow> ge_status g | _ \<Rightarrow> 502)"

definition diagnosticOr :: "(string \<times> jsval) list \<Rightarrow> string \<Rightarrow> jsval" where
  "diagnosticOr d k = (case map_of d k of Some v \<Rightarrow> v | None \<Rightarrow> JNull)"

definition failureLine :: "(string \<times> jsval) list \<Rightarrow> string \<Rightarrow> jsval" where
  "failureLine d stamp = jsObject [(''event'', JStr ''wats.graph.failure''), (''metaCode'', diagnosticOr d ''metaCode''),
     (''metaSubcode'', diagnosticOr d ''metaSubcode''), (''metaType'', diagnosticOr d ''metaType''),
     (''fbtraceId'', diagnosticOr d ''fbtraceId''), (''at'', JStr stamp)]"

definition failurePayload :: "(string \<times> jsval) list \<Rightarrow> jsval" where
  "failurePayload d = jsObject [(''error'', jsObject ([(''code'', JStr ''graph_request_failed''),
     (''message'', JStr ''Graph request failed.'')] @ d))]"

definition failureHeaders :: "service_exn \<Rightarrow> (string \<times> string) list" where
  "failureHeaders e = (case e of
     GraphExn (ApiFailure g) \<Rightarrow> (case shortOf 64 (ge_retryAfter g) of Some r \<Rightarrow> [(''retry-after'', r)] | None \<Rightarrow> [])
   | _ \<Rightarrow> [])"

definition isRateLimitFailure :: "service_exn \<Rightarrow> bool" where
  "isRateLimitFailure e = (case e of GraphExn (ApiFailure g) \<Rightarrow> ge_base g = RateLimitBase | _ \<Rightarrow> False)"

definition graphFailureResponse :: "('s, 't, 'f) runtime \<Rightarrow> service_exn \<Rightarrow> ('s, 't, 'f, webhook_response) svc_act" where
  "graphFailureResponse ctx e =
     bindA (modifyA (\<lambda>w. w\<lparr>sv_errors := recordError (thrownOf e) (sv_errors w)\<rparr>)) (\<lambda>_.
     bindA (readNowIso ctx) (\<lambda>stamp.
     bindA (modifyA (\<lambda>w. w\<lparr>sv_warn := sv_warn w @ [failureLine (sanitizeGraphDiagnostics e) stamp]\<rparr>)) (\<lambda>_.
     retA (if isRateLimitFailure e
       then svcJsonResponse ctx 503 (failurePayload (sanitizeGraphDiagnostics e)) (failureHeaders e)
       else svcJsonResponse ctx 502 (failurePayload (sanitizeGraphDiagnostics e)) []))))"

text \<open>Meta's free text never leaves the service: two failures that differ only in it are answered and
  logged alike.\<close>

lemma failure_hides_message:
  assumes "ge_payload g = Some p"
  shows "graphFailureResponse ctx (GraphExn (ApiFailure (g\<lparr>ge_message := m, ge_payload := Some (p\<lparr>p_message := q\<rparr>)\<rparr>)))
    = graphFailureResponse ctx (GraphExn (ApiFailure g))"
  using assms by (simp add: graphFailureResponse_def thrownOf_def sanitizeGraphDiagnostics_def isRateLimitFailure_def
      failureHeaders_def)

subsection \<open>Operator payloads\<close>

definition SERVICE_NAME :: string where "SERVICE_NAME = ''wats''"
definition OPENAPI_PATH :: string where "OPENAPI_PATH = ''/openapi.json''"
definition STATUS_PATH :: string where "STATUS_PATH = ''/status''"
definition METRICS_PATH :: string where "METRICS_PATH = ''/metrics''"
definition DEBUG_DIAGNOSTICS_PATH :: string where "DEBUG_DIAGNOSTICS_PATH = ''/debug/diagnostics''"
definition DEFAULT_OPENAPI_VERSION :: string where "DEFAULT_OPENAPI_VERSION = ''0.4.1-beta.0''"

definition buildRouteInventory :: "('s, 't, 'f) runtime \<Rightarrow> string list" where
  "buildRouteInventory ctx = [''/healthz'', ''/readyz'', OPENAPI_PATH, STATUS_PATH, METRICS_PATH, DEBUG_DIAGNOSTICS_PATH,
       rt_webhookPath ctx, textPath ctx, messagesPath ctx, messagesPath ctx @ ''/:id'', conversationsPath ctx @ ''/:phone/window'']
     @ (if rt_enableGroupRoutes ctx then [groupsPath ctx, groupsPath ctx @ ''/:groupId'', groupsPath ctx @ ''/:groupId/invite-link'',
         groupsPath ctx @ ''/:groupId/participants'', groupsPath ctx @ ''/:groupId/join-requests''] else [])"

definition deriveServiceMode :: "('s, 't, 'f) runtime \<Rightarrow> string" where
  "deriveServiceMode ctx = joinWith ''+'' ([''webhook''] @ (if rt_store ctx \<noteq> None then [''persistence''] else [])
     @ (if rt_enableGroupRoutes ctx then [''groups''] else []))"

definition safeLocation :: "jsval \<Rightarrow> string" where
  "safeLocation v = (case v of JStr s \<Rightarrow> if js_prefix ''[REDACTED'' s then s else ''[REDACTED]'' | _ \<Rightarrow> ''[REDACTED]'')"

definition safeBackend :: "jsval \<Rightarrow> string" where
  "safeBackend v = (case v of JStr s \<Rightarrow> if js_lower s \<in> {''sqlite'', ''postgres''} then js_lower s else ''unknown'' | _ \<Rightarrow> ''unknown'')"

definition sanitizePersistenceHealth :: "jsval \<Rightarrow> jsval" where
  "sanitizePersistenceHealth report = jsObject [(''ok'', JBool (optField report ''ok'' = JBool True)),
     (''backend'', JStr (safeBackend (optField report ''backend''))),
     (''currentVersion'', (case optField report ''currentVersion'' of
        JNum n \<Rightarrow> if isIntegerNum n then JNum n else natText 0 | _ \<Rightarrow> natText 0)),
     (''redactedLocation'', JStr (safeLocation (optField report ''redactedLocation'')))]"

definition unhealthySummary :: jsval where
  "unhealthySummary = jsObject [(''ok'', JBool False), (''backend'', JStr ''unknown''), (''currentVersion'', natText 0),
     (''redactedLocation'', JStr ''[REDACTED]'')]"

text \<open>\<open>await ctx.persistence.health()\<close>, sanitized, or the unhealthy summary.\<close>

definition healthSummary :: "'s store_api \<Rightarrow> ('s, 't, 'f, jsval) svc_act" where
  "healthSummary api = tryA (bindA (onStore StoreRaised (ap_health api)) (\<lambda>r. retA (sanitizePersistenceHealth r)))
     (\<lambda>_. retA unhealthySummary)"

definition strArr :: "string list \<Rightarrow> jsval" where
  "strArr ss = JArr (map (\<lambda>s. Data (JStr s)) ss)"

definition featureFlags :: "('s, 't, 'f) runtime \<Rightarrow> jsval" where
  "featureFlags ctx = jsObject [(''groupRoutes'', JBool (rt_enableGroupRoutes ctx)), (''persistence'', JBool (rt_store ctx \<noteq> None))]"

text \<open>\<open>SERVER_START_MS\<close> is the clock when the module was loaded.\<close>

definition uptimeSeconds :: "int \<Rightarrow> int \<Rightarrow> jsval" where
  "uptimeSeconds start now = JNum (Fin (of_int (max 0 ((now - start) div 1000))))"

definition buildStatusPayload :: "('s, 't, 'f) runtime \<Rightarrow> int \<Rightarrow> ('s, 't, 'f, jsval) svc_act" where
  "buildStatusPayload ctx serverStart =
     bindA (case rt_store ctx of None \<Rightarrow> retA JNull | Some api \<Rightarrow> healthSummary api) (\<lambda>persistence.
     bindA (readNowMs ctx) (\<lambda>now.
     retA (jsObject [(''service'', JStr SERVICE_NAME), (''version'', JStr DEFAULT_OPENAPI_VERSION),
       (''uptimeSeconds'', uptimeSeconds serverStart now), (''graphApiVersion'', JStr (pf_graphApiVersion (rt_profile ctx))),
       (''serviceMode'', JStr (deriveServiceMode ctx)), (''routes'', strArr (buildRouteInventory ctx)),
       (''featureFlags'', featureFlags ctx), (''persistence'', persistence)])))"

definition envRef :: "jsval \<Rightarrow> jsval" where
  "envRef v = JStr ''[REDACTED]''"

definition redactedConfigShape :: "('s, 't, 'f) runtime \<Rightarrow> jsval" where
  "redactedConfigShape ctx = jsObject [
     (''graph'', jsObject [(''apiVersion'', JStr (pf_graphApiVersion (rt_profile ctx)))]),
     (''auth'', jsObject [(''accessToken'', envRef (pf_accessTokenRef (rt_profile ctx)))]),
     (''service'', jsObject [(''host'', pf_host (rt_profile ctx)), (''port'', pf_port (rt_profile ctx)), (''apiPrefix'', JStr (pf_apiPrefix (rt_profile ctx)))]),
     (''webhook'', jsObject [(''path'', JStr (pf_webhookPath (rt_profile ctx))),
       (''verifyToken'', envRef (pf_verifyTokenRef (rt_profile ctx))), (''appSecret'', envRef (pf_appSecretRef (rt_profile ctx))),
       (''maxBodyBytes'', natText (pf_maxBodyBytes (rt_profile ctx)))])]"

text \<open>\<open>metrics\<close> gives the family names of the registry behind the sink.\<close>

definition buildDiagnosticsPayload :: "('s, 't, 'f) runtime \<Rightarrow> bool \<Rightarrow> ('t \<Rightarrow> metrics_registry) \<Rightarrow> ('s, 't, 'f, jsval) svc_act" where
  "buildDiagnosticsPayload ctx onBun metrics =
     bindA (case rt_store ctx of None \<Rightarrow> retA unhealthySummary | Some api \<Rightarrow> healthSummary api) (\<lambda>persistence.
     bindA (getA (\<lambda>w. (families (metrics (sv_telemetry w)), snapshotErrors (sv_errors w)))) (\<lambda>(fams, recent).
     retA (jsObject [(''service'', JStr SERVICE_NAME), (''version'', JStr DEFAULT_OPENAPI_VERSION),
       (''graphApiVersion'', JStr (pf_graphApiVersion (rt_profile ctx))), (''serviceMode'', JStr (deriveServiceMode ctx)),
       (''runtime'', JStr (if onBun then ''bun'' else ''unknown'')), (''routes'', strArr (buildRouteInventory ctx)),
       (''featureFlags'', featureFlags ctx), (''persistence'', persistence), (''metricFamilies'', strArr fams),
       (''recentErrors'', recent), (''configShape'', redactedConfigShape ctx)])))"

end
