(* ===== verification/Service_Send.thy ===== *)
theory Service_Send
  imports Service_Core
begin

section \<open>The message routes of the service\<close>

text \<open>
  \<open>handleTextMessage\<close> and \<open>handleGenericMessage\<close> of \<open>packages/service/src/index.ts\<close>.  The two
  handlers differ in how they read the body; what follows, the durable claim, the call on the Graph
  client, the completion and the projection, is the same code twice and is modelled once, in stages
  that end where the code awaits: \<open>claimStage\<close>, \<open>callGraph\<close>, \<open>finishSend\<close> or \<open>failSend\<close>.
  Concurrent handlers interleave at these points: \<open>sendStep\<close>.  The builder of the generic body is a
  parameter that may also throw.
\<close>

subsection \<open>What a request asks to send\<close>

record send_job =
  jb_operation :: string
  jb_payload :: jsval
  jb_call :: graph_call
  jb_to :: "string option"
  jb_type :: string
  jb_key :: "string option"

definition malformedJson :: webhook_response where
  "malformedJson = svcErrorResponse 400 ''malformed_json'' ''Request body must be valid JSON.'' []"

definition invalidKeyResponse :: webhook_response where
  "invalidKeyResponse = svcErrorResponse 400 ''invalid_idempotency_key'' ''Idempotency-Key is invalid.'' []"

record text_input =
  ti_to :: string
  ti_text :: string
  ti_previewUrl :: "bool option"

definition validateTextBody :: "jsval \<Rightarrow> text_input option" where
  "validateTextBody body = (case serviceRecord body of
     None \<Rightarrow> None
   | Some ps \<Rightarrow> (case (svcNonEmptyString (js_get ps ''to''), svcNonEmptyString (js_get ps ''text'')) of
       (Some t, Some x) \<Rightarrow> (case js_get ps ''previewUrl'' of
           JUndef \<Rightarrow> Some \<lparr> ti_to = t, ti_text = x, ti_previewUrl = None \<rparr>
         | JBool b \<Rightarrow> Some \<lparr> ti_to = t, ti_text = x, ti_previewUrl = Some b \<rparr>
         | _ \<Rightarrow> None)
     | _ \<Rightarrow> None))"

definition textPayload :: "text_input \<Rightarrow> jsval" where
  "textPayload i = jsObject [(''messaging_product'', JStr ''whatsapp''), (''to'', JStr (ti_to i)), (''type'', JStr ''text''),
     (''text'', jsObject ((''body'', JStr (ti_text i)) #
        (case ti_previewUrl i of None \<Rightarrow> [] | Some b \<Rightarrow> [(''preview_url'', JBool b)])))]"

definition prepareText :: "('s, 't, 'f) runtime \<Rightarrow> service_request \<Rightarrow> webhook_response + send_job" where
  "prepareText ctx rq = (case parseJsonBody ctx rq of
     None \<Rightarrow> Inl malformedJson
   | Some parsed \<Rightarrow> (case validateTextBody parsed of
       None \<Rightarrow> Inl (svcErrorResponse 400 ''malformed_body'' ''Text message body is invalid.'' [])
     | Some i \<Rightarrow>
         let job = (\<lambda>key. \<lparr> jb_operation = ''messages_text'', jb_payload = textPayload i,
           jb_call = SendTextCall (pf_phoneNumberId (rt_profile ctx)) (ti_to i) (ti_text i) (ti_previewUrl i),
           jb_to = Some (ti_to i), jb_type = ''text'', jb_key = key \<rparr>) in
         (case safeIdempotencyKey rq of
            InvalidKey \<Rightarrow> Inl invalidKeyResponse | NoKey \<Rightarrow> Inr (job None) | Key k \<Rightarrow> Inr (job (Some k)))))"

type_synonym body_builder = "jsval \<Rightarrow> bool \<Rightarrow> thrown_value + jsval option"

definition bodyText :: "jsval \<Rightarrow> string \<Rightarrow> string option" where
  "bodyText body field = (case optField body field of JStr s \<Rightarrow> Some s | _ \<Rightarrow> None)"

definition prepareGeneric ::
  "body_builder \<Rightarrow> ('s, 't, 'f) runtime \<Rightarrow> service_request \<Rightarrow> service_exn + (webhook_response + send_job)" where
  "prepareGeneric build ctx rq = (case parseJsonBody ctx rq of
     None \<Rightarrow> Inr (Inl malformedJson)
   | Some parsed \<Rightarrow> (case build parsed (rt_enableGroupRoutes ctx) of
       Inl e \<Rightarrow> Inl (CodeExn e)
     | Inr None \<Rightarrow> Inr (Inl (svcErrorResponse 400 ''malformed_body'' ''Message body is invalid or unsupported.'' []))
     | Inr (Some body) \<Rightarrow>
         let job = (\<lambda>key. \<lparr> jb_operation = ''messages'', jb_payload = body,
           jb_call = PostMessagesCall (pf_phoneNumberId (rt_profile ctx)) body, jb_to = bodyText body ''to'',
           jb_type = (case bodyText body ''type'' of Some t \<Rightarrow> t | None \<Rightarrow> ''unknown''), jb_key = key \<rparr>) in
         Inr (case safeIdempotencyKey rq of
            InvalidKey \<Rightarrow> Inl invalidKeyResponse | NoKey \<Rightarrow> Inr (job None) | Key k \<Rightarrow> Inr (job (Some k)))))"

subsection \<open>The claim\<close>

definition recordStore :: "('s, 't, 'f) runtime \<Rightarrow> 's store_api \<Rightarrow> string \<Rightarrow> ('s, 't, 'f, unit) svc_act" where
  "recordStore ctx api outcome = onSink (recordPersistenceOperation (rt_sink ctx) (ap_backend api) outcome)"

definition claimAnswer :: "keyed_outcome \<Rightarrow> webhook_response option" where
  "claimAnswer q = (case q of
     KeyedClaimed \<Rightarrow> None
   | KeyedNotAtomic \<Rightarrow> Some (svcErrorResponse 503 ''persistence_not_atomic''
       ''Persistence store does not support atomic claim/complete; keyed sends are rejected.'' [])
   | KeyedPending \<Rightarrow> Some (svcErrorResponse 409 ''idempotency_pending'' ''Idempotency-Key is pending a prior claim.'' [])
   | KeyedConflict \<Rightarrow> Some (svcErrorResponse 409 ''idempotency_conflict''
       ''Idempotency-Key conflicts with a different request body.'' [])
   | KeyedReplay j \<Rightarrow> Some (jsonTextResponse 200 j))"

definition claimFailed :: webhook_response where
  "claimFailed = svcErrorResponse 503 ''persistence_unavailable'' ''Persistence claim failed.'' []"

definition requestHash :: "('s, 't, 'f) runtime \<Rightarrow> jsval \<Rightarrow> canonical_exn + string" where
  "requestHash ctx payload = bindE (canonicalJsonString (rt_numberText ctx) payload)
     (\<lambda>t. Inr (sha256HexPrefixed (rt_sha ctx) (case t of None \<Rightarrow> [] | Some s \<Rightarrow> s)))"

definition jobKey :: "('s, 't, 'f) runtime \<Rightarrow> string \<Rightarrow> string \<Rightarrow> string" where
  "jobKey ctx operation raw =
     namespacedIdempotencyKey (rt_sha ctx) (pf_phoneNumberId (rt_profile ctx)) (pf_wabaId (rt_profile ctx)) operation raw"

definition claimStore :: "('s, 't, 'f) runtime \<Rightarrow> 's store_api \<Rightarrow> string \<Rightarrow> string \<Rightarrow>
    ('s, 't, 'f, webhook_response + (string \<times> string) option) svc_act" where
  "claimStore ctx api key hash =
     tryA (bindA (readNowIso ctx) (\<lambda>now.
           bindA (onStore (\<lambda>e. e) (claimKeyedSend (Some api) key hash now)) (\<lambda>outcome.
           bindA (recordStore ctx api ''success'') (\<lambda>_.
           retA (case claimAnswer outcome of Some resp \<Rightarrow> Inl resp | None \<Rightarrow> Inr (Some (key, hash)))))))
       (\<lambda>_. bindA (recordStore ctx api ''error'') (\<lambda>_. retA (Inl claimFailed)))"

definition claimStage :: "('s, 't, 'f) runtime \<Rightarrow> send_job \<Rightarrow>
    ('s, 't, 'f, webhook_response + (string \<times> string) option) svc_act" where
  "claimStage ctx job = (case (jb_key job, rt_store ctx) of
     (Some raw, Some api) \<Rightarrow>
        (case requestHash ctx (jb_payload job) of
           Inl CanonicalDepthError \<Rightarrow> retA (Inl (svcErrorResponse 400 ''payload_depth_exceeded''
             ''Outgoing payload exceeds canonical depth limit.'' []))
         | Inr hash \<Rightarrow> claimStore ctx api (jobKey ctx (jb_operation job) raw) hash)
   | _ \<Rightarrow> retA (Inr None))"

subsection \<open>After the call\<close>

text \<open>\<open>extractGraphMessageId\<close>\<close>

definition extractGraphMessageId :: "jsval \<Rightarrow> string option" where
  "extractGraphMessageId result = (case serviceRecord result of
     None \<Rightarrow> None
   | Some ps \<Rightarrow> (case js_get ps ''messages'' of
       JArr (slot1 # rest) \<Rightarrow> (case serviceRecord (slot_value slot1) of
           None \<Rightarrow> None
         | Some m \<Rightarrow> (case js_get m ''id'' of JStr i \<Rightarrow> if i = [] then None else Some i | _ \<Rightarrow> None))
     | _ \<Rightarrow> None))"

text \<open>\<open>try { await store call; record success } catch { record error }\<close>\<close>

definition bestEffort :: "('s, 't, 'f) runtime \<Rightarrow> 's store_api \<Rightarrow> ('s, store_exn, unit) act \<Rightarrow> ('s, 't, 'f, unit) svc_act" where
  "bestEffort ctx api m = tryA (bindA (onStore StoreRaised m) (\<lambda>_. recordStore ctx api ''success''))
     (\<lambda>_. recordStore ctx api ''error'')"

definition outboundRecord :: "string \<Rightarrow> string \<Rightarrow> string option \<Rightarrow> string \<Rightarrow> string \<Rightarrow> jsval" where
  "outboundRecord rowId wa toPhone messageType now = jsObject ([(''rowId'', JStr rowId), (''waMessageId'', JStr wa),
     (''direction'', JStr ''outbound'')] @ (case toPhone of None \<Rightarrow> [] | Some p \<Rightarrow> [(''toPhone'', JStr p)])
     @ [(''type'', JStr messageType), (''status'', JStr ''sent''), (''graphMessageId'', JStr wa),
        (''createdAt'', JStr now), (''updatedAt'', JStr now)])"

definition statusInput :: "string \<Rightarrow> string \<Rightarrow> string \<Rightarrow> jsval" where
  "statusInput wa status timestamp = jsObject [(''waMessageId'', JStr wa), (''status'', JStr status), (''timestamp'', JStr timestamp)]"

definition recordOutboundProjection ::
  "('s, 't, 'f) runtime \<Rightarrow> jsval \<Rightarrow> string option \<Rightarrow> string \<Rightarrow> ('s, 't, 'f, unit) svc_act" where
  "recordOutboundProjection ctx result toPhone messageType = (case rt_store ctx of
     None \<Rightarrow> retA ()
   | Some api \<Rightarrow> (case extractGraphMessageId result of
       None \<Rightarrow> retA ()
     | Some wa \<Rightarrow>
         bindA (readNowIso ctx) (\<lambda>now.
         bindA (cryptoRandomId ctx) (\<lambda>rowId.
         bindA (bestEffort ctx api (ap_recordMessage api (outboundRecord rowId wa toPhone messageType now))) (\<lambda>_.
         bestEffort ctx api (ap_appendMessageStatus api (statusInput wa ''sent'' now)))))))"

text \<open>The completion: whether the answer has to be marked as degraded.  \<open>responseToJsonText\<close> gives
  \<open>undefined\<close> for a result without a JSON text, which the store's validation refuses.\<close>

definition completeStage :: "('s, 't, 'f) runtime \<Rightarrow> (string \<times> string) option \<Rightarrow> jsval \<Rightarrow> ('s, 't, 'f, bool) svc_act" where
  "completeStage ctx keyed result = (case (keyed, rt_store ctx) of
     (Some (key, hash), Some api) \<Rightarrow>
        bindA (readNowIso ctx) (\<lambda>now.
        bindA (onStore StoreRaised (case js_stringify (rt_numberText ctx) result of
            Some j \<Rightarrow> completeKeyedSend (Some api) key hash j now | None \<Rightarrow> retA False)) (\<lambda>completed.
        bindA (recordStore ctx api (if completed then ''success'' else ''error'')) (\<lambda>_. retA (\<not> completed))))
   | _ \<Rightarrow> retA False)"

definition finishSend :: "('s, 't, 'f) runtime \<Rightarrow> send_job \<Rightarrow> (string \<times> string) option \<Rightarrow> jsval \<Rightarrow>
    ('s, 't, 'f, webhook_response) svc_act" where
  "finishSend ctx job keyed result =
     bindA (onSink (recordGraphOperation (rt_sink ctx) ''messages'' 200 ''success'')) (\<lambda>_.
     bindA (onSink (recordSendOutcome (rt_sink ctx) ''messages'' ''success'')) (\<lambda>_.
     bindA (completeStage ctx keyed result) (\<lambda>degraded.
     bindA (recordOutboundProjection ctx result (jb_to job) (jb_type job)) (\<lambda>_.
     retA (svcJsonResponse ctx 200 result (if degraded then [(''x-wats-persistence'', ''degraded'')] else []))))))"

definition failSend :: "('s, 't, 'f) runtime \<Rightarrow> service_exn \<Rightarrow> ('s, 't, 'f, webhook_response) svc_act" where
  "failSend ctx e =
     bindA (onSink (recordGraphOperation (rt_sink ctx) ''messages'' (graphErrorStatus e) ''error'')) (\<lambda>_.
     bindA (onSink (recordSendOutcome (rt_sink ctx) ''messages'' ''error'')) (\<lambda>_.
     graphFailureResponse ctx e))"

subsection \<open>The handlers\<close>

definition sendJob :: "('s, 't, 'f) runtime \<Rightarrow> send_job \<Rightarrow> ('s, 't, 'f, webhook_response) svc_act" where
  "sendJob ctx job = bindR (claimStage ctx job) (\<lambda>keyed.
     tryA (bindA (callGraph ctx (jb_call job)) (\<lambda>result. finishSend ctx job keyed result)) (failSend ctx))"

definition handleTextMessage :: "('s, 't, 'f) runtime \<Rightarrow> service_request \<Rightarrow> ('s, 't, 'f, webhook_response) svc_act" where
  "handleTextMessage ctx rq = (case prepareText ctx rq of Inl resp \<Rightarrow> retA resp | Inr job \<Rightarrow> sendJob ctx job)"

definition handleGenericMessage ::
  "body_builder \<Rightarrow> ('s, 't, 'f) runtime \<Rightarrow> service_request \<Rightarrow> ('s, 't, 'f, webhook_response) svc_act" where
  "handleGenericMessage build ctx rq = (case prepareGeneric build ctx rq of
     Inl e \<Rightarrow> failA e
   | Inr (Inl resp) \<Rightarrow> retA resp
   | Inr (Inr job) \<Rightarrow> sendJob ctx job)"

subsection \<open>Interleaved handlers\<close>

text \<open>Each handler stands at an await: before its claim, before its call, after it, or it is over.  A
  step runs one handler to its next await; the calls made are listed by handler.\<close>

datatype phase = Started | Claimed "(string \<times> string) option" | Answered "(string \<times> string) option" jsval
  | Rejected "(string \<times> string) option" service_exn | Ended "service_exn + webhook_response"

record ('s, 't, 'f) send_config =
  cf_phases :: "phase list"
  cf_world :: "('s, 't, 'f) service_world"
  cf_calls :: "nat list"

definition stepTo :: "nat \<Rightarrow> phase \<Rightarrow> ('s, 't, 'f) service_world \<Rightarrow> ('s, 't, 'f) send_config \<Rightarrow> ('s, 't, 'f) send_config" where
  "stepTo i p w c = c\<lparr>cf_phases := (cf_phases c)[i := p], cf_world := w\<rparr>"

definition afterClaim :: "service_exn + (webhook_response + (string \<times> string) option) \<Rightarrow> phase" where
  "afterClaim r = (case r of Inl e \<Rightarrow> Ended (Inl e) | Inr (Inl resp) \<Rightarrow> Ended (Inr resp) | Inr (Inr keyed) \<Rightarrow> Claimed keyed)"

definition afterCall :: "(string \<times> string) option \<Rightarrow> service_exn + jsval \<Rightarrow> phase" where
  "afterCall keyed r = (case r of Inl e \<Rightarrow> Rejected keyed e | Inr v \<Rightarrow> Answered keyed v)"

inductive sendStep :: "('s, 't, 'f) runtime \<Rightarrow> send_job list \<Rightarrow> ('s, 't, 'f) send_config \<Rightarrow> ('s, 't, 'f) send_config \<Rightarrow> bool"
  for ctx :: "('s, 't, 'f) runtime" and jobs :: "send_job list" where
  claim: "i < length jobs \<Longrightarrow> cf_phases c ! i = Started \<Longrightarrow> claimStage ctx (jobs ! i) (cf_world c) = (r, w) \<Longrightarrow>
    sendStep ctx jobs c (stepTo i (afterClaim r) w c)"
| call: "i < length jobs \<Longrightarrow> cf_phases c ! i = Claimed keyed \<Longrightarrow> callGraph ctx (jb_call (jobs ! i)) (cf_world c) = (r, w) \<Longrightarrow>
    sendStep ctx jobs c ((stepTo i (afterCall keyed r) w c)\<lparr>cf_calls := i # cf_calls c\<rparr>)"
| finish: "i < length jobs \<Longrightarrow> cf_phases c ! i = Answered keyed v \<Longrightarrow>
    tryA (finishSend ctx (jobs ! i) keyed v) (failSend ctx) (cf_world c) = (r, w) \<Longrightarrow>
    sendStep ctx jobs c (stepTo i (Ended r) w c)"
| fail: "i < length jobs \<Longrightarrow> cf_phases c ! i = Rejected keyed e \<Longrightarrow> failSend ctx e (cf_world c) = (r, w) \<Longrightarrow>
    sendStep ctx jobs c (stepTo i (Ended r) w c)"

definition startConfig :: "send_job list \<Rightarrow> ('s, 't, 'f) service_world \<Rightarrow> ('s, 't, 'f) send_config" where
  "startConfig jobs w = \<lparr> cf_phases = replicate (length jobs) Started, cf_world = w, cf_calls = [] \<rparr>"

subsection \<open>Stages over a store that keeps the contract\<close>

lemma bindR_Inl: "m w = (Inr (Inl resp), w') \<Longrightarrow> bindR m f w = (Inr resp, w')"
  by (simp add: bindR_def bindA_def)

lemma bindR_Inr: "m w = (Inr (Inr a), w') \<Longrightarrow> bindR m f w = f a w'"
  by (simp add: bindR_def bindA_def)

lemma bindR_fail: "m w = (Inl e, w') \<Longrightarrow> bindR m f w = (Inl e, w')"
  by (simp add: bindR_def bindA_def)

text \<open>What a request on a used key is answered, by the hash and the response the ledger holds.\<close>

definition usedAnswer :: "string \<Rightarrow> string \<Rightarrow> string option \<Rightarrow> webhook_response" where
  "usedAnswer h h' stored = (if h' \<noteq> h
     then svcErrorResponse 409 ''idempotency_conflict'' ''Idempotency-Key conflicts with a different request body.'' []
     else case stored of
       None \<Rightarrow> svcErrorResponse 409 ''idempotency_pending'' ''Idempotency-Key is pending a prior claim.'' []
     | Some j \<Rightarrow> jsonTextResponse 200 j)"

lemma claimAnswer_used: "claimAnswer (if h' \<noteq> h then KeyedConflict else case resp of None \<Rightarrow> KeyedPending | Some j \<Rightarrow> KeyedReplay j)
    = Some (usedAnswer h h' resp)"
  by (simp add: claimAnswer_def usedAnswer_def split: option.split)

text \<open>A key once used stays used, for the same payload, and a stored response stays what it is.\<close>

definition ledgerKept :: "ledger \<Rightarrow> ledger \<Rightarrow> bool" where
  "ledgerKept l l' = (\<forall>k h x. l k = Some (h, x) \<longrightarrow> (\<exists>y. l' k = Some (h, y) \<and> (x \<noteq> None \<longrightarrow> y = x)))"

lemma ledgerKept_refl: "ledgerKept l l"
  by (simp add: ledgerKept_def)

lemma ledgerKept_trans: "ledgerKept a b \<Longrightarrow> ledgerKept b c \<Longrightarrow> ledgerKept a c"
  unfolding ledgerKept_def by (metis option.distinct(1))

lemma ledgerKept_used: "ledgerKept l l' \<Longrightarrow> l k \<noteq> None \<Longrightarrow> l' k \<noteq> None"
  unfolding ledgerKept_def by force

lemma ledgerKept_new: "l k = None \<Longrightarrow> ledgerKept l (l(k \<mapsto> v))"
  by (simp add: ledgerKept_def)

lemma ledgerKept_complete: "specComplete k h j l = Some l' \<Longrightarrow> ledgerKept l l'"
  by (auto simp: specComplete_def ledgerKept_def split: option.splits if_splits)

text \<open>What the handlers need of their sink and of their store.\<close>

locale keyed_service = quiet_sink sink ready + keyed_store claim complete wf ledger_of api
  for sink :: "'t telemetry_sink" and ready :: "'t \<Rightarrow> bool"
    and claim :: "string \<Rightarrow> string \<Rightarrow> string \<Rightarrow> 's \<Rightarrow> (exn + claim_result) \<times> 's"
    and complete :: "string \<Rightarrow> string \<Rightarrow> string \<Rightarrow> string \<Rightarrow> 's \<Rightarrow> (exn + unit) \<times> 's"
    and wf :: "'s \<Rightarrow> bool" and ledger_of :: "'s \<Rightarrow> ledger" and api :: "'s store_api" +
  assumes record_frame: "wf s \<Longrightarrow> wf (snd (ap_recordMessage api i s)) \<and> ledger_of (snd (ap_recordMessage api i s)) = ledger_of s"
    and append_frame: "wf s \<Longrightarrow> wf (snd (ap_appendMessageStatus api i s)) \<and> ledger_of (snd (ap_appendMessageStatus api i s)) = ledger_of s"
begin

definition served :: "('s, 't, 'f) runtime \<Rightarrow> bool" where
  "served ctx = (rt_store ctx = Some api \<and> rt_sink ctx = sink)"

definition okWorld :: "('s, 't, 'f) service_world \<Rightarrow> bool" where
  "okWorld w = (wf (sv_store w) \<and> ready (sv_telemetry w))"

definition ledgerIn :: "('s, 't, 'f) service_world \<Rightarrow> ledger" where
  "ledgerIn w = ledger_of (sv_store w)"

text \<open>A step that touches neither the ledger nor the log of calls.\<close>

definition calm :: "('s, 't, 'f) service_world \<Rightarrow> ('s, 't, 'f) service_world \<Rightarrow> bool" where
  "calm w w' = (okWorld w' \<and> ledgerIn w' = ledgerIn w \<and> sv_sent w' = sv_sent w)"

lemma calm_trans: "calm w w1 \<Longrightarrow> calm w1 w2 \<Longrightarrow> calm w w2"
  by (simp add: calm_def)

lemma calm_refl: "okWorld w \<Longrightarrow> calm w w"
  by (simp add: calm_def)

definition quietly :: "('s, 't, 'f, 'a) svc_act \<Rightarrow> bool" where
  "quietly m = (\<forall>w. okWorld w \<longrightarrow> (\<exists>a w'. m w = (Inr a, w') \<and> calm w w'))"

lemma quietlyD:
  assumes "quietly m" "okWorld w"
  obtains a w' where "m w = (Inr a, w')" "calm w w'" "okWorld w'"
  using assms by (auto simp: quietly_def calm_def)

lemma quietly_retA: "quietly (retA a)"
  by (simp add: quietly_def calm_refl)

lemma quietly_bindA:
  fixes m :: "('s, 't, 'f, 'a) svc_act"
  assumes "quietly m" "\<And>a. quietly (f a)"
  shows "quietly (bindA m f)"
  unfolding quietly_def
proof (intro allI impI)
  fix w :: "('s, 't, 'f) service_world"
  assume "okWorld w"
  with assms(1) obtain a w1 where 1: "m w = (Inr a, w1)" "calm w w1" "okWorld w1" by (rule quietlyD)
  from assms(2) 1(3) obtain b w2 where "f a w1 = (Inr b, w2)" "calm w1 w2" by (rule quietlyD)
  with 1 show "\<exists>a w'. bindA m f w = (Inr a, w') \<and> calm w w'"
    using calm_trans by (fastforce simp: bindA_def)
qed

lemma quietly_onSink:
  assumes "\<And>t. ready t \<Longrightarrow> \<exists>t'. m t = (Inr (), t') \<and> ready t'"
  shows "quietly (onSink m :: ('s, 't, 'f, unit) svc_act)"
  unfolding quietly_def
proof (intro allI impI)
  fix w :: "('s, 't, 'f) service_world"
  assume "okWorld w"
  with assms obtain t' where "m (sv_telemetry w) = (Inr (), t')" "ready t'" by (auto simp: okWorld_def)
  with \<open>okWorld w\<close> show "\<exists>a w'. onSink m w = (Inr a, w') \<and> calm w w'"
    by (auto simp: onSink_def calm_def okWorld_def ledgerIn_def)
qed

lemma quietly_records:
  "quietly (onSink (recordGraphOperation sink k st out))" "quietly (onSink (recordSendOutcome sink k out))"
  "quietly (onSink (recordPersistenceOperation sink k out))"
  by (rule quietly_onSink, rule sink_quiet, assumption)+

lemma quietly_reads: "quietly (readNowMs ctx)" "quietly (readNowIso ctx)" "quietly (cryptoRandomId ctx)"
proof -
  show 1: "quietly (readNowMs ctx)" "quietly (cryptoRandomId ctx)"
    by (auto simp: quietly_def readNowMs_def cryptoRandomId_def calm_def okWorld_def ledgerIn_def)
  show "quietly (readNowIso ctx)" unfolding readNowIso_def by (intro quietly_bindA 1 quietly_retA)
qed

lemma quietly_modify:
  "(\<And>w. sv_store (f w) = sv_store w \<and> sv_telemetry (f w) = sv_telemetry w \<and> sv_sent (f w) = sv_sent w) \<Longrightarrow> quietly (modifyA f)"
  by (auto simp: quietly_def modifyA_def calm_def okWorld_def ledgerIn_def)

text \<open>A best-effort call on the store, if it keeps the ledger.\<close>

lemma quietly_bestEffort:
  fixes ctx :: "('s, 't, 'f) runtime"
  assumes "served ctx" "\<And>s. wf s \<Longrightarrow> wf (snd (m s)) \<and> ledger_of (snd (m s)) = ledger_of s"
  shows "quietly (bestEffort ctx api m)"
  unfolding quietly_def
proof (intro allI impI)
  fix w :: "('s, 't, 'f) service_world"
  assume w: "okWorld w"
  obtain r s' where m: "m (sv_store w) = (r, s')" by fastforce
  let ?w1 = "w\<lparr>sv_store := s'\<rparr>"
  have q: "quietly (recordStore ctx api out :: ('s, 't, 'f, unit) svc_act)" for out
    using assms(1) quietly_records(3) by (simp add: recordStore_def served_def)
  have c: "calm w ?w1" "okWorld ?w1" using assms(2) [of "sv_store w"] w m by (auto simp: calm_def okWorld_def ledgerIn_def)
  from q [of "''success''"] c(2) obtain a2 w2 where s: "recordStore ctx api ''success'' ?w1 = (Inr a2, w2)" "calm ?w1 w2"
    by (rule quietlyD)
  from q [of "''error''"] c(2) obtain a3 w3 where e: "recordStore ctx api ''error'' ?w1 = (Inr a3, w3)" "calm ?w1 w3"
    by (rule quietlyD)
  show "\<exists>a w'. bestEffort ctx api m w = (Inr a, w') \<and> calm w w'"
    using m s e calm_trans [OF c(1)] by (cases r) (auto simp: bestEffort_def tryA_def bindA_def onStore_def)
qed

lemma quietly_projection:
  assumes "served ctx"
  shows "quietly (recordOutboundProjection ctx result toPhone messageType)"
proof (cases "extractGraphMessageId result")
  case None
  then show ?thesis using assms by (simp add: recordOutboundProjection_def served_def quietly_retA)
next
  case (Some wa)
  have "rt_store ctx = Some api" using assms by (simp add: served_def)
  then have e: "recordOutboundProjection ctx result toPhone messageType = bindA (readNowIso ctx) (\<lambda>now.
         bindA (cryptoRandomId ctx) (\<lambda>rowId.
         bindA (bestEffort ctx api (ap_recordMessage api (outboundRecord rowId wa toPhone messageType now))) (\<lambda>_.
         bestEffort ctx api (ap_appendMessageStatus api (statusInput wa ''sent'' now)))))"
    using Some by (simp add: recordOutboundProjection_def)
  show ?thesis unfolding e
    by (intro quietly_bindA quietly_reads quietly_bestEffort assms record_frame append_frame)
qed

lemma quietly_failure: "quietly (graphFailureResponse ctx e)"
  unfolding graphFailureResponse_def by (intro quietly_bindA quietly_modify quietly_reads quietly_retA) simp_all

lemma quietly_failSend: "served ctx \<Longrightarrow> quietly (failSend ctx e)"
proof -
  assume "served ctx"
  then have s: "rt_sink ctx = sink" by (simp add: served_def)
  show "quietly (failSend ctx e)" unfolding failSend_def s
    by (intro quietly_bindA quietly_records quietly_failure)
qed

text \<open>The claim, by the ledger.\<close>

lemma claimStore_cases:
  fixes w :: "('s, 't, 'f) service_world"
  assumes "served ctx" "okWorld w"
  obtains (failed) w' where "claimStore ctx api k h w = (Inr (Inl claimFailed), w')" "calm w w'"
  | (claimed) w' where "claimStore ctx api k h w = (Inr (Inr (Some (k, h))), w')" "okWorld w'"
      "ledgerIn w k = None" "ledgerIn w' = (ledgerIn w)(k \<mapsto> (h, None))" "sv_sent w' = sv_sent w"
  | (used) h' resp w' where "claimStore ctx api k h w = (Inr (Inl (usedAnswer h h' resp)), w')" "calm w w'" "ledgerIn w k = Some (h', resp)"
proof -
  have q: "quietly (recordStore ctx api out :: ('s, 't, 'f, unit) svc_act)" for out
    using assms(1) quietly_records(3) by (simp add: recordStore_def served_def)
  obtain now w1 where 1: "readNowIso ctx w = (Inr now, w1)" "calm w w1" "okWorld w1"
    by (rule quietlyD [OF quietly_reads(2) assms(2)])
  have L1: "ledger_of (sv_store w1) = ledgerIn w" "wf (sv_store w1)"
    using 1 by (simp_all add: calm_def ledgerIn_def okWorld_def)
  have frame: "okWorld (w1\<lparr>sv_store := s'\<rparr>)" if "wf s'" for s'
    using that 1(3) by (simp add: okWorld_def)
  show thesis
  proof (rule claimKeyedSend_ledger [OF L1(2), of k h now])
    fix e s'
    assume a: "claimKeyedSend (Some api) k h now (sv_store w1) = (Inl e, s')" "wf s'" "ledger_of s' = ledger_of (sv_store w1)"
    obtain u w2 where 2: "recordStore ctx api ''error'' (w1\<lparr>sv_store := s'\<rparr>) = (Inr u, w2)" "calm (w1\<lparr>sv_store := s'\<rparr>) w2"
      by (rule quietlyD [OF q frame [OF a(2)]])
    have "calm w w2" using 1(2) 2(2) a L1 by (simp add: calm_def ledgerIn_def)
    with 1(1) 2(1) a(1) show thesis
      by (intro failed [of w2]) (simp_all add: claimStore_def tryA_def bindA_def onStore_def)
  next
    fix s'
    assume a: "claimKeyedSend (Some api) k h now (sv_store w1) = (Inr KeyedClaimed, s')" "wf s'"
      "ledger_of (sv_store w1) k = None" "ledger_of s' = (ledger_of (sv_store w1))(k \<mapsto> (h, None))"
    obtain u w2 where 2: "recordStore ctx api ''success'' (w1\<lparr>sv_store := s'\<rparr>) = (Inr u, w2)" "calm (w1\<lparr>sv_store := s'\<rparr>) w2"
      by (rule quietlyD [OF q frame [OF a(2)]])
    have "claimStore ctx api k h w = (Inr (Inr (Some (k, h))), w2)"
      using 1(1) 2(1) a(1) by (simp add: claimStore_def tryA_def bindA_def onStore_def claimAnswer_def)
    moreover have "okWorld w2" "ledgerIn w k = None" "ledgerIn w2 = (ledgerIn w)(k \<mapsto> (h, None))" "sv_sent w2 = sv_sent w"
      using 1(2) 2(2) a L1 by (simp_all add: calm_def ledgerIn_def)
    ultimately show thesis by (rule claimed)
  next
    fix h' resp s'
    let ?q = "if h' \<noteq> h then KeyedConflict else case resp of None \<Rightarrow> KeyedPending | Some j \<Rightarrow> KeyedReplay j"
    assume a: "claimKeyedSend (Some api) k h now (sv_store w1) = (Inr ?q, s')" "wf s'"
      "ledger_of (sv_store w1) k = Some (h', resp)" "ledger_of s' = ledger_of (sv_store w1)"
    obtain u w2 where 2: "recordStore ctx api ''success'' (w1\<lparr>sv_store := s'\<rparr>) = (Inr u, w2)" "calm (w1\<lparr>sv_store := s'\<rparr>) w2"
      by (rule quietlyD [OF q frame [OF a(2)]])
    have "claimStore ctx api k h w = (Inr (Inl (usedAnswer h h' resp)), w2)"
      using 1(1) 2(1) a(1) claimAnswer_used [of h' h resp]
      by (simp add: claimStore_def tryA_def bindA_def onStore_def split del: if_split)
    moreover have "calm w w2" using 1(2) 2(2) a L1 by (simp add: calm_def ledgerIn_def)
    moreover have "ledgerIn w k = Some (h', resp)" using a(3) L1 by simp
    ultimately show thesis by (rule used)
  qed
qed

text \<open>The completion stores the answer, or leaves the claim as it was and degrades the response.\<close>

lemma completeStage_cases:
  fixes w :: "('s, 't, 'f) service_world"
  assumes "served ctx" "okWorld w" "ledgerIn w k = Some (h, None)"
  obtains (stored) j w' where "completeStage ctx (Some (k, h)) v w = (Inr False, w')" "okWorld w'" "sv_sent w' = sv_sent w"
      "js_stringify (rt_numberText ctx) v = Some j" "ledgerIn w' = (ledgerIn w)(k \<mapsto> (h, Some j))"
  | (degraded) w' where "completeStage ctx (Some (k, h)) v w = (Inr True, w')" "calm w w'"
proof -
  have q: "quietly (recordStore ctx api out :: ('s, 't, 'f, unit) svc_act)" for out
    using assms(1) quietly_records(3) by (simp add: recordStore_def served_def)
  have s: "rt_store ctx = Some api" using assms(1) by (simp add: served_def)
  obtain now w1 where 1: "readNowIso ctx w = (Inr now, w1)" "calm w w1" "okWorld w1"
    by (rule quietlyD [OF quietly_reads(2) assms(2)])
  have L1: "ledger_of (sv_store w1) k = Some (h, None)" "wf (sv_store w1)" "ledger_of (sv_store w1) = ledgerIn w"
    using 1 assms(3) by (simp_all add: calm_def ledgerIn_def okWorld_def)
  have frame: "okWorld (w1\<lparr>sv_store := s'\<rparr>)" if "wf s'" for s'
    using that 1(3) by (simp add: okWorld_def)
  have fails: thesis if r: "onStore StoreRaised (case js_stringify (rt_numberText ctx) v of
      Some j \<Rightarrow> completeKeyedSend (Some api) k h j now | None \<Rightarrow> retA False) w1 = (Inr False, w1\<lparr>sv_store := s'\<rparr>)"
    and w: "wf s'" "ledger_of s' = ledger_of (sv_store w1)" for s'
  proof -
    obtain u w2 where 2: "recordStore ctx api ''error'' (w1\<lparr>sv_store := s'\<rparr>) = (Inr u, w2)" "calm (w1\<lparr>sv_store := s'\<rparr>) w2"
      by (rule quietlyD [OF q frame [OF w(1)]])
    have "calm w w2" using 1(2) 2(2) w L1 by (simp add: calm_def ledgerIn_def)
    with 1(1) 2(1) r s show thesis by (intro degraded [of w2]) (simp_all add: completeStage_def bindA_def)
  qed
  show thesis
  proof (cases "js_stringify (rt_numberText ctx) v")
    case None
    then show thesis using fails [of "sv_store w1"] L1 by (simp add: onStore_def)
  next
    case (Some j)
    show thesis
    proof (rule completeKeyedSend_ledger [OF L1(2,1), of j now])
      fix s'
      assume "completeKeyedSend (Some api) k h j now (sv_store w1) = (Inr False, s')" "wf s'" "ledger_of s' = ledger_of (sv_store w1)"
      then show thesis using fails [of s'] Some by (simp add: onStore_def)
    next
      fix s'
      assume a: "completeKeyedSend (Some api) k h j now (sv_store w1) = (Inr True, s')" "wf s'"
        "ledger_of s' = (ledger_of (sv_store w1))(k \<mapsto> (h, Some j))"
      obtain u w2 where 2: "recordStore ctx api ''success'' (w1\<lparr>sv_store := s'\<rparr>) = (Inr u, w2)" "calm (w1\<lparr>sv_store := s'\<rparr>) w2"
        by (rule quietlyD [OF q frame [OF a(2)]])
      have "completeStage ctx (Some (k, h)) v w = (Inr False, w2)"
        using 1(1) 2(1) a(1) s Some by (simp add: completeStage_def bindA_def onStore_def)
      moreover have "okWorld w2" "sv_sent w2 = sv_sent w" "ledgerIn w2 = (ledgerIn w)(k \<mapsto> (h, Some j))"
        using 1(2) 2(2) a L1 by (simp_all add: calm_def ledgerIn_def)
      ultimately show thesis using Some stored by blast
    qed
  qed
qed

text \<open>After the call: a successful call is answered 200 whatever happens to the store, a failed one
  502 or 503.\<close>

lemma finishSend_cases:
  fixes w :: "('s, 't, 'f) service_world"
  assumes "served ctx" "okWorld w" "ledgerIn w k = Some (h, None)"
  obtains degraded w' where "finishSend ctx job (Some (k, h)) v w
      = (Inr (svcJsonResponse ctx 200 v (if degraded then [(''x-wats-persistence'', ''degraded'')] else [])), w')"
    "okWorld w'" "sv_sent w' = sv_sent w"
    "ledgerIn w' = (ledgerIn w)(k \<mapsto> (h, if degraded then None else js_stringify (rt_numberText ctx) v))"
    "degraded \<or> js_stringify (rt_numberText ctx) v \<noteq> None"
proof -
  note outer = that
  have s: "rt_sink ctx = sink" using assms(1) by (simp add: served_def)
  obtain a1 w1 where 1: "onSink (recordGraphOperation (rt_sink ctx) ''messages'' 200 ''success'') w = (Inr a1, w1)" "calm w w1" "okWorld w1"
    unfolding s by (rule quietlyD [OF quietly_records(1) assms(2)])
  obtain a2 w2 where 2: "onSink (recordSendOutcome (rt_sink ctx) ''messages'' ''success'') w1 = (Inr a2, w2)" "calm w1 w2" "okWorld w2"
    unfolding s by (rule quietlyD [OF quietly_records(2) 1(3)])
  have L2: "ledgerIn w2 = ledgerIn w" "sv_sent w2 = sv_sent w" "ledgerIn w2 k = Some (h, None)"
    using 1(2) 2(2) assms(3) by (simp_all add: calm_def)
  have rest: thesis if c: "completeStage ctx (Some (k, h)) v w2 = (Inr degraded, w3)" "okWorld w3" "sv_sent w3 = sv_sent w2"
    "ledgerIn w3 = (ledgerIn w)(k \<mapsto> (h, if degraded then None else js_stringify (rt_numberText ctx) v))"
    "degraded \<or> js_stringify (rt_numberText ctx) v \<noteq> None" for degraded w3
  proof -
    obtain u w4 where 4: "recordOutboundProjection ctx v (jb_to job) (jb_type job) w3 = (Inr u, w4)" "calm w3 w4"
      by (rule quietlyD [OF quietly_projection [OF assms(1)] c(2)])
    have r: "finishSend ctx job (Some (k, h)) v w
      = (Inr (svcJsonResponse ctx 200 v (if degraded then [(''x-wats-persistence'', ''degraded'')] else [])), w4)"
      using 1(1) 2(1) c(1) 4(1) by (simp add: finishSend_def bindA_def)
    have "okWorld w4" "sv_sent w4 = sv_sent w"
      "ledgerIn w4 = (ledgerIn w)(k \<mapsto> (h, if degraded then None else js_stringify (rt_numberText ctx) v))"
      using 4(2) c L2 by (simp_all add: calm_def)
    from outer [OF r this c(5)] show thesis .
  qed
  show thesis
  proof (rule completeStage_cases [OF assms(1) 2(3) L2(3), of v])
    fix j w3
    assume "completeStage ctx (Some (k, h)) v w2 = (Inr False, w3)" "okWorld w3" "sv_sent w3 = sv_sent w2"
      "js_stringify (rt_numberText ctx) v = Some j" "ledgerIn w3 = (ledgerIn w2)(k \<mapsto> (h, Some j))"
    then show thesis using rest [of False w3] L2 by simp
  next
    fix w3
    assume a: "completeStage ctx (Some (k, h)) v w2 = (Inr True, w3)" "calm w2 w3"
    have "ledgerIn w3 = (ledgerIn w)(k \<mapsto> (h, None))" using a(2) L2 by (simp add: calm_def fun_upd_idem)
    then show thesis using rest [of True w3] a by (simp add: calm_def)
  qed
qed

lemma failSend_answers:
  fixes w :: "('s, 't, 'f) service_world"
  assumes "served ctx" "okWorld w"
  obtains resp w' where "failSend ctx e w = (Inr resp, w')" "calm w w'" "ws_status resp = 502 \<or> ws_status resp = 503"
proof -
  obtain resp w' where r: "failSend ctx e w = (Inr resp, w')" "calm w w'"
    using quietlyD [OF quietly_failSend [OF assms(1)] assms(2)] by metis
  have "returnsOnly (\<lambda>resp. ws_status resp = 502 \<or> ws_status resp = 503) (failSend ctx e)"
    unfolding failSend_def graphFailureResponse_def by (intro returns_rules) (simp add: svcJsonResponse_def)
  with r that show thesis by (auto simp: returnsOnly_def)
qed

lemma callGraph_world:
  "callGraph ctx call w = ((case rt_graph ctx (length (sv_sent w)) call of Inl e \<Rightarrow> Inl (GraphExn e) | Inr v \<Rightarrow> Inr v),
     w\<lparr>sv_sent := sv_sent w @ [call]\<rparr>)"
  by (simp add: callGraph_def split: sum.split)

lemma sendJob_cases:
  fixes w :: "('s, 't, 'f) service_world"
  assumes "served ctx" "okWorld w" "jb_key job = Some raw" "requestHash ctx (jb_payload job) = Inr h"
    and k: "k = jobKey ctx (jb_operation job) raw"
  obtains (unclaimed) w' where "sendJob ctx job w = (Inr claimFailed, w')" "calm w w'"
  | (used) h' stored w' where "sendJob ctx job w = (Inr (usedAnswer h h' stored), w')" "calm w w'"
      "ledgerIn w k = Some (h', stored)"
  | (sent) v degraded w' where "ledgerIn w k = None" "rt_graph ctx (length (sv_sent w)) (jb_call job) = Inr v"
      "sendJob ctx job w = (Inr (svcJsonResponse ctx 200 v (if degraded then [(''x-wats-persistence'', ''degraded'')] else [])), w')"
      "okWorld w'" "sv_sent w' = sv_sent w @ [jb_call job]"
      "ledgerIn w' = (ledgerIn w)(k \<mapsto> (h, if degraded then None else js_stringify (rt_numberText ctx) v))"
      "degraded \<or> js_stringify (rt_numberText ctx) v \<noteq> None"
  | (refused) e resp w' where "ledgerIn w k = None" "rt_graph ctx (length (sv_sent w)) (jb_call job) = Inl e"
      "sendJob ctx job w = (Inr resp, w')" "ws_status resp = 502 \<or> ws_status resp = 503"
      "okWorld w'" "sv_sent w' = sv_sent w @ [jb_call job]" "ledgerIn w' = (ledgerIn w)(k \<mapsto> (h, None))"
proof -
  have st: "claimStage ctx job w = claimStore ctx api k h w"
    using assms by (simp add: claimStage_def served_def)
  show thesis
  proof (rule claimStore_cases [OF assms(1,2), of k h])
    fix w'
    assume "claimStore ctx api k h w = (Inr (Inl claimFailed), w')" "calm w w'"
    then show thesis using st by (intro unclaimed) (simp_all add: sendJob_def bindR_Inl)
  next
    fix h' resp w'
    assume "claimStore ctx api k h w = (Inr (Inl (usedAnswer h h' resp)), w')" "calm w w'" "ledgerIn w k = Some (h', resp)"
    then show thesis using st by (intro used) (simp_all add: sendJob_def bindR_Inl)
  next
    fix w1
    assume c: "claimStore ctx api k h w = (Inr (Inr (Some (k, h))), w1)" "okWorld w1" "ledgerIn w k = None"
      "ledgerIn w1 = (ledgerIn w)(k \<mapsto> (h, None))" "sv_sent w1 = sv_sent w"
    let ?w2 = "w1\<lparr>sv_sent := sv_sent w1 @ [jb_call job]\<rparr>"
    have w2: "okWorld ?w2" "ledgerIn ?w2 = ledgerIn w1" "ledgerIn ?w2 k = Some (h, None)"
      using c by (simp_all add: okWorld_def ledgerIn_def)
    have run: "sendJob ctx job w = tryA (bindA (callGraph ctx (jb_call job)) (finishSend ctx job (Some (k, h)))) (failSend ctx) w1"
      using c(1) st by (simp add: sendJob_def bindR_Inr)
    show thesis
    proof (cases "rt_graph ctx (length (sv_sent w)) (jb_call job)")
      case (Inl e)
      obtain resp w' where f: "failSend ctx (GraphExn e) ?w2 = (Inr resp, w')" "calm ?w2 w'" "ws_status resp = 502 \<or> ws_status resp = 503"
        by (rule failSend_answers [OF assms(1) w2(1)])
      have "sendJob ctx job w = (Inr resp, w')"
        using f(1) Inl c(5) by (simp add: run tryA_def bindA_def callGraph_world)
      moreover have "okWorld w'" "sv_sent w' = sv_sent w @ [jb_call job]" "ledgerIn w' = (ledgerIn w)(k \<mapsto> (h, None))"
        using f(2) c w2 by (simp_all add: calm_def)
      ultimately show thesis using c(3) Inl f(3) by (intro refused [of e resp w']) auto
    next
      case (Inr v)
      obtain degraded w' where f: "finishSend ctx job (Some (k, h)) v ?w2
          = (Inr (svcJsonResponse ctx 200 v (if degraded then [(''x-wats-persistence'', ''degraded'')] else [])), w')"
        "okWorld w'" "sv_sent w' = sv_sent ?w2"
        "ledgerIn w' = (ledgerIn ?w2)(k \<mapsto> (h, if degraded then None else js_stringify (rt_numberText ctx) v))"
        "degraded \<or> js_stringify (rt_numberText ctx) v \<noteq> None"
        by (rule finishSend_cases [OF assms(1) w2(1) w2(3), where job = job and v = v])
      have "sendJob ctx job w = (Inr (svcJsonResponse ctx 200 v (if degraded then [(''x-wats-persistence'', ''degraded'')] else [])), w')"
        using f(1) Inr c(5) by (simp add: run tryA_def bindA_def callGraph_world)
      moreover have "sv_sent w' = sv_sent w @ [jb_call job]"
        "ledgerIn w' = (ledgerIn w)(k \<mapsto> (h, if degraded then None else js_stringify (rt_numberText ctx) v))"
        using f c w2 by simp_all
      ultimately show thesis using c(3) Inr f(2,5) by (intro sent [of v degraded w']) auto
    qed
  qed
qed

text \<open>Interleaved handlers: the ledger only grows.\<close>

definition grows :: "('s, 't, 'f) service_world \<Rightarrow> ('s, 't, 'f) service_world \<Rightarrow> bool" where
  "grows w w' = (okWorld w' \<and> sv_sent w' = sv_sent w \<and> ledgerKept (ledgerIn w) (ledgerIn w'))"

definition growing :: "('s, 't, 'f, 'a) svc_act \<Rightarrow> bool" where
  "growing m = (\<forall>w. okWorld w \<longrightarrow> grows w (snd (m w)))"

lemma grows_trans: "grows w w1 \<Longrightarrow> grows w1 w2 \<Longrightarrow> grows w w2"
  unfolding grows_def using ledgerKept_trans by fastforce

lemma grows_used: "grows w w' \<Longrightarrow> ledgerIn w k \<noteq> None \<Longrightarrow> ledgerIn w' k \<noteq> None"
  unfolding grows_def using ledgerKept_used by blast

lemma calm_grows: "calm w w' \<Longrightarrow> grows w w'"
  by (simp add: calm_def grows_def ledgerKept_refl)

lemma growing_quietly: "quietly m \<Longrightarrow> growing m"
  unfolding growing_def by (metis calm_grows quietlyD snd_conv)

lemma growing_bindA:
  fixes m :: "('s, 't, 'f, 'a) svc_act"
  assumes "growing m" "\<And>a. growing (f a)"
  shows "growing (bindA m f)"
  unfolding growing_def
proof (intro allI impI)
  fix w :: "('s, 't, 'f) service_world"
  assume w: "okWorld w"
  obtain r w1 where r: "m w = (r, w1)" by fastforce
  with assms(1) w have 1: "grows w w1" by (fastforce simp: growing_def)
  then have "okWorld w1" by (simp add: grows_def)
  with assms(2) have "grows w1 (snd (f a w1))" for a by (simp add: growing_def)
  with 1 r show "grows w (snd (bindA m f w))"
    by (auto simp: bindA_def split: sum.split intro: grows_trans)
qed

lemma growing_tryA:
  fixes m :: "('s, 't, 'f, 'a) svc_act"
  assumes "growing m" "\<And>e. growing (f e)"
  shows "growing (tryA m f)"
  unfolding growing_def
proof (intro allI impI)
  fix w :: "('s, 't, 'f) service_world"
  assume w: "okWorld w"
  obtain r w1 where r: "m w = (r, w1)" by fastforce
  with assms(1) w have 1: "grows w w1" by (fastforce simp: growing_def)
  then have "okWorld w1" by (simp add: grows_def)
  with assms(2) have "grows w1 (snd (f a w1))" for a by (simp add: growing_def)
  with 1 r show "grows w (snd (tryA m f w))"
    by (auto simp: tryA_def split: sum.split intro: grows_trans)
qed

lemma completeKeyedSend_grows:
  assumes "wf s"
  shows "wf (snd (completeKeyedSend (Some api) k h j ts s))
    \<and> ledgerKept (ledger_of s) (ledger_of (snd (completeKeyedSend (Some api) k h j ts s)))"
proof -
  obtain cp where cp: "ap_complete api = Some cp" using atomic by (auto simp: isAtomicClaimStore_def)
  obtain r s' where r: "complete k h j ts s = (r, s')" by fastforce
  have run: "snd (completeKeyedSend (Some api) k h j ts s) = s'"
    using complete_api [of k h j ts s] atomic cp r
    by (auto simp: completeKeyedSend_def bindA_def tryA_def split: sum.splits)
  have "wf s'" using complete_wf [OF assms, of k h j ts] r by simp
  moreover have "ledgerKept (ledger_of s) (ledger_of s')"
  proof (cases r)
    case (Inl e)
    with complete_error [OF assms] r show ?thesis by (simp add: ledgerKept_refl)
  next
    case (Inr u)
    with complete_ok [OF assms] r show ?thesis by (blast intro: ledgerKept_complete)
  qed
  ultimately show ?thesis using run by simp
qed

lemma growing_store:
  assumes "\<And>s. wf s \<Longrightarrow> wf (snd (m s)) \<and> ledgerKept (ledger_of s) (ledger_of (snd (m s)))"
  shows "growing (onStore f m)"
  using assms by (auto simp: growing_def grows_def onStore_def okWorld_def ledgerIn_def split: prod.splits sum.splits) force+

lemma growing_completeStage:
  assumes "served ctx"
  shows "growing (completeStage ctx keyed v)"
proof (cases keyed)
  case None
  then show ?thesis by (simp add: completeStage_def growing_quietly quietly_retA)
next
  case (Some kh)
  obtain k h where kh: "kh = (k, h)" by fastforce
  have s: "rt_store ctx = Some api" "rt_sink ctx = sink" using assms by (simp_all add: served_def)
  have "growing (onStore StoreRaised (case js_stringify (rt_numberText ctx) v of
      Some j \<Rightarrow> completeKeyedSend (Some api) k h j now | None \<Rightarrow> retA False))" for now
    using completeKeyedSend_grows by (intro growing_store) (auto simp: ledgerKept_refl split: option.split)
  then show ?thesis
    unfolding completeStage_def Some kh s recordStore_def prod.case option.case
    by (intro growing_bindA growing_quietly [OF quietly_reads(2)] growing_quietly [OF quietly_records(3)]
        growing_quietly [OF quietly_retA])
qed

lemma growing_finish:
  assumes "served ctx"
  shows "growing (tryA (finishSend ctx job keyed v) (failSend ctx))"
proof -
  have s: "rt_sink ctx = sink" using assms by (simp add: served_def)
  show ?thesis unfolding finishSend_def s
    by (intro growing_tryA growing_bindA growing_completeStage assms growing_quietly [OF quietly_records(1)]
        growing_quietly [OF quietly_records(2)] growing_quietly [OF quietly_projection] growing_quietly [OF quietly_retA]
        growing_quietly [OF quietly_failSend])
qed

lemma growing_fail: "served ctx \<Longrightarrow> growing (failSend ctx e)"
  by (rule growing_quietly [OF quietly_failSend])

text \<open>The claim stage: whoever gets a key found it unused.\<close>

definition keyOf :: "('s, 't, 'f) runtime \<Rightarrow> send_job \<Rightarrow> string option" where
  "keyOf ctx job = map_option (jobKey ctx (jb_operation job)) (jb_key job)"

lemma claimStage_step:
  assumes "served ctx" "okWorld w" "claimStage ctx job w = (r, w')"
  shows "grows w w' \<and> (\<forall>keyed. r = Inr (Inr keyed) \<longrightarrow>
    (case keyOf ctx job of None \<Rightarrow> True | Some k \<Rightarrow> ledgerIn w k = None \<and> ledgerIn w' k \<noteq> None))"
proof (cases "jb_key job")
  case None
  with assms show ?thesis by (auto simp: claimStage_def keyOf_def grows_def ledgerKept_refl)
next
  case (Some raw)
  have s: "rt_store ctx = Some api" using assms(1) by (simp add: served_def)
  show ?thesis
  proof (cases "requestHash ctx (jb_payload job)")
    case (Inl e)
    with Some s assms(2,3) show ?thesis by (cases e) (auto simp: claimStage_def grows_def ledgerKept_refl)
  next
    case (Inr h)
    let ?k = "jobKey ctx (jb_operation job) raw"
    from assms(3) Some s Inr have c: "claimStore ctx api ?k h w = (r, w')" by (simp add: claimStage_def)
    show ?thesis
      by (rule claimStore_cases [OF assms(1,2), of ?k h])
         (use c Some in \<open>auto simp: keyOf_def grows_def calm_def ledgerKept_refl ledgerKept_new\<close>)
  qed
qed

text \<open>A handler holds a key when it has won the claim: its call is made, or about to be.\<close>

definition holds :: "('s, 't, 'f) runtime \<Rightarrow> send_job list \<Rightarrow> ('s, 't, 'f) send_config \<Rightarrow> string \<Rightarrow> nat \<Rightarrow> bool" where
  "holds ctx jobs c k i = (i < length jobs \<and> keyOf ctx (jobs ! i) = Some k
     \<and> (i \<in> set (cf_calls c) \<or> (\<exists>keyed. cf_phases c ! i = Claimed keyed)))"

definition sendInv :: "('s, 't, 'f) runtime \<Rightarrow> send_job list \<Rightarrow> ('s, 't, 'f) send_config \<Rightarrow> bool" where
  "sendInv ctx jobs c = (okWorld (cf_world c) \<and> length (cf_phases c) = length jobs \<and> distinct (cf_calls c)
     \<and> (\<forall>i \<in> set (cf_calls c). i < length jobs \<and> cf_phases c ! i \<noteq> Started \<and> (\<forall>kd. cf_phases c ! i \<noteq> Claimed kd))
     \<and> (\<forall>k i j. holds ctx jobs c k i \<and> holds ctx jobs c k j \<longrightarrow> i = j)
     \<and> (\<forall>k i. holds ctx jobs c k i \<longrightarrow> ledgerIn (cf_world c) k \<noteq> None))"

lemma sendInv_start: "okWorld w \<Longrightarrow> sendInv ctx jobs (startConfig jobs w)"
  by (auto simp: sendInv_def startConfig_def holds_def)

lemma stepTo_simps [simp]:
  "cf_world (stepTo i p w c) = w" "cf_calls (stepTo i p w c) = cf_calls c"
  "length (cf_phases (stepTo i p w c)) = length (cf_phases c)"
  "i < length (cf_phases c) \<Longrightarrow> cf_phases (stepTo i p w c) ! j = (if j = i then p else cf_phases c ! j)"
  by (simp_all add: stepTo_def nth_list_update)

lemma sendInvD:
  assumes "sendInv ctx jobs c"
  shows "okWorld (cf_world c)" "length (cf_phases c) = length jobs" "distinct (cf_calls c)"
    "\<And>i. i \<in> set (cf_calls c) \<Longrightarrow> i < length jobs \<and> cf_phases c ! i \<noteq> Started \<and> (\<forall>kd. cf_phases c ! i \<noteq> Claimed kd)"
    "\<And>k i j. holds ctx jobs c k i \<Longrightarrow> holds ctx jobs c k j \<Longrightarrow> i = j"
    "\<And>k i. holds ctx jobs c k i \<Longrightarrow> ledgerIn (cf_world c) k \<noteq> None"
  using assms unfolding sendInv_def by blast+

lemma sendInvI:
  assumes "okWorld (cf_world c)" "length (cf_phases c) = length jobs" "distinct (cf_calls c)"
    "\<And>i. i \<in> set (cf_calls c) \<Longrightarrow> i < length jobs \<and> cf_phases c ! i \<noteq> Started \<and> (\<forall>kd. cf_phases c ! i \<noteq> Claimed kd)"
    "\<And>k i j. holds ctx jobs c k i \<Longrightarrow> holds ctx jobs c k j \<Longrightarrow> i = j"
    "\<And>k i. holds ctx jobs c k i \<Longrightarrow> ledgerIn (cf_world c) k \<noteq> None"
  shows "sendInv ctx jobs c"
  using assms unfolding sendInv_def by blast

text \<open>A step after the call ends one handler's phase, and changes no holder.\<close>

lemma sendInv_later:
  assumes inv: "sendInv ctx jobs c" and i: "i < length jobs" "\<And>kd. cf_phases c ! i \<noteq> Claimed kd"
    and w: "grows (cf_world c) w" and p: "p \<noteq> Started" "\<And>kd. p \<noteq> Claimed kd"
  shows "sendInv ctx jobs (stepTo i p w c)"
proof -
  note D = sendInvD [OF inv]
  have h: "holds ctx jobs (stepTo i p w c) k j \<longleftrightarrow> holds ctx jobs c k j" for k j
    using i D(2) p by (cases "j = i") (simp_all add: holds_def)
  show ?thesis
  proof (rule sendInvI)
    show "okWorld (cf_world (stepTo i p w c))" using w by (simp add: grows_def)
    show "length (cf_phases (stepTo i p w c)) = length jobs" "distinct (cf_calls (stepTo i p w c))" using D by simp_all
    show "j < length jobs \<and> cf_phases (stepTo i p w c) ! j \<noteq> Started \<and> (\<forall>kd. cf_phases (stepTo i p w c) ! j \<noteq> Claimed kd)"
      if "j \<in> set (cf_calls (stepTo i p w c))" for j
      using D(4) [of j] that p D(2) i(1) by simp
    show "j = l" if "holds ctx jobs (stepTo i p w c) k j" "holds ctx jobs (stepTo i p w c) k l" for k j l
      using that D(5) unfolding h by blast
    show "ledgerIn (cf_world (stepTo i p w c)) k \<noteq> None" if "holds ctx jobs (stepTo i p w c) k j" for k j
      using that D(6) grows_used [OF w] unfolding h by simp
  qed
qed

lemma sendInv_step:
  assumes "served ctx" "sendInv ctx jobs c" "sendStep ctx jobs c c'"
  shows "sendInv ctx jobs c'"
  using assms(3)
proof cases
  case (claim i r w)
  note D = sendInvD [OF assms(2)]
  have st: "grows (cf_world c) w" "\<And>keyed. r = Inr (Inr keyed) \<Longrightarrow>
    (case keyOf ctx (jobs ! i) of None \<Rightarrow> True | Some k \<Rightarrow> ledgerIn (cf_world c) k = None \<and> ledgerIn w k \<noteq> None)"
    using claimStage_step [OF assms(1) D(1) claim(4)] by auto
  have ni: "i \<notin> set (cf_calls c)" using D(4) [of i] claim(3) by blast
  have other: "holds ctx jobs c' k j \<longleftrightarrow> holds ctx jobs c k j" if "j \<noteq> i" for k j
    using that claim(2) D(2) by (simp add: claim(1) holds_def)
  have mine: "holds ctx jobs c' k i \<longleftrightarrow> keyOf ctx (jobs ! i) = Some k \<and> (\<exists>kd. r = Inr (Inr kd))" for k
    using ni claim(2) D(2) by (auto simp: claim(1) holds_def afterClaim_def split: sum.splits)
  have new: "ledgerIn (cf_world c) k = None \<and> ledgerIn w k \<noteq> None" if "holds ctx jobs c' k i" for k
    using that st(2) by (auto simp: mine)
  have old: "ledgerIn (cf_world c) k \<noteq> None \<and> ledgerIn w k \<noteq> None" if "holds ctx jobs c k j" for k j
    using D(6) [OF that] grows_used [OF st(1)] by blast
  show ?thesis
  proof (rule sendInvI)
    show "okWorld (cf_world c')" using st(1) by (simp add: claim(1) grows_def)
    show "length (cf_phases c') = length jobs" "distinct (cf_calls c')" using D by (simp_all add: claim(1))
    show "j < length jobs \<and> cf_phases c' ! j \<noteq> Started \<and> (\<forall>kd. cf_phases c' ! j \<noteq> Claimed kd)" if "j \<in> set (cf_calls c')" for j
      using D(4) [of j] that ni claim(2) D(2) by (cases "j = i") (simp_all add: claim(1))
    show "j = l" if "holds ctx jobs c' k j" "holds ctx jobs c' k l" for k j l
    proof (cases "j = i \<or> l = i")
      case True
      with that new have "ledgerIn (cf_world c) k = None" by blast
      then have "\<not> holds ctx jobs c k n" for n using old [of k n] by blast
      with that other show ?thesis by metis
    next
      case False
      with that other D(5) show ?thesis by blast
    qed
    show "ledgerIn (cf_world c') k \<noteq> None" if "holds ctx jobs c' k j" for k j
      using that new [of k] old [of k j] other [of j k] by (cases "j = i") (simp_all add: claim(1))
  qed
next
  case (call i keyed r w)
  note D = sendInvD [OF assms(2)]
  have ni: "i \<notin> set (cf_calls c)" using D(4) [of i] call(3) by blast
  have w: "okWorld w" "ledgerIn w = ledgerIn (cf_world c)"
    using call(4) D(1) by (auto simp: callGraph_world okWorld_def ledgerIn_def)
  have p: "afterCall keyed r \<noteq> Started" "\<And>kd. afterCall keyed r \<noteq> Claimed kd"
    by (simp_all add: afterCall_def split: sum.split)
  have ph: "cf_phases c' ! j = (if j = i then afterCall keyed r else cf_phases c ! j)" for j
    using call(2) D(2) by (simp add: call(1))
  have h: "holds ctx jobs c' k j \<longleftrightarrow> holds ctx jobs c k j" for k j
    using call(2,3) D(2) by (cases "j = i") (simp_all add: call(1) holds_def)
  show ?thesis
  proof (rule sendInvI)
    show "okWorld (cf_world c')" "length (cf_phases c') = length jobs" "distinct (cf_calls c')"
      using D ni w by (simp_all add: call(1))
    show "j < length jobs \<and> cf_phases c' ! j \<noteq> Started \<and> (\<forall>kd. cf_phases c' ! j \<noteq> Claimed kd)" if "j \<in> set (cf_calls c')" for j
      using D(4) [of j] that p call(2) by (cases "j = i") (simp_all add: ph, simp add: call(1))
    show "j = l" if "holds ctx jobs c' k j" "holds ctx jobs c' k l" for k j l
      using that D(5) unfolding h by blast
    show "ledgerIn (cf_world c') k \<noteq> None" if "holds ctx jobs c' k j" for k j
      using that D(6) w unfolding h by (simp add: call(1))
  qed
next
  case (finish i keyed v r w)
  have "grows (cf_world c) (snd (tryA (finishSend ctx (jobs ! i) keyed v) (failSend ctx) (cf_world c)))"
    using growing_finish [OF assms(1), of "jobs ! i" keyed v] sendInvD(1) [OF assms(2)] unfolding growing_def by blast
  then have "grows (cf_world c) w" by (simp add: finish(4))
  with finish show ?thesis by (auto intro: sendInv_later [OF assms(2)])
next
  case (fail i keyed e r w)
  have "grows (cf_world c) (snd (failSend ctx e (cf_world c)))"
    using growing_fail [OF assms(1), of e] sendInvD(1) [OF assms(2)] unfolding growing_def by blast
  then have "grows (cf_world c) w" by (simp add: fail(4))
  with fail show ?thesis by (auto intro: sendInv_later [OF assms(2)])
qed

text \<open>A handler that comes to hold a key found it unused.\<close>

lemma holds_new:
  assumes "served ctx" "sendInv ctx jobs c" "sendStep ctx jobs c c'" "holds ctx jobs c' k j"
  shows "holds ctx jobs c k j \<or> ledgerIn (cf_world c) k = None"
  using assms(3)
proof cases
  case (claim i r w)
  note D = sendInvD [OF assms(2)]
  have ni: "i \<notin> set (cf_calls c)" using D(4) [of i] claim(3) by blast
  show ?thesis
  proof (cases "j = i")
    case True
    with assms(4) ni claim(2) D(2) have "keyOf ctx (jobs ! i) = Some k" "\<exists>kd. r = Inr (Inr kd)"
      by (auto simp: claim(1) holds_def afterClaim_def split: sum.splits)
    with claimStage_step [OF assms(1) D(1) claim(4)] show ?thesis by auto
  next
    case False
    with assms(4) claim(2) D(2) show ?thesis by (simp add: claim(1) holds_def)
  qed
next
  case (call i keyed r w)
  with assms(4) sendInvD(2) [OF assms(2)] show ?thesis
    by (cases "j = i") (auto simp: holds_def afterCall_def split: sum.splits)
next
  case (finish i keyed v r w)
  with assms(4) sendInvD(2) [OF assms(2)] show ?thesis by (cases "j = i") (auto simp: holds_def)
next
  case (fail i keyed e r w)
  with assms(4) sendInvD(2) [OF assms(2)] show ?thesis by (cases "j = i") (auto simp: holds_def)
qed

lemma sendStep_keeps:
  assumes "served ctx" "okWorld (cf_world c)" "sendStep ctx jobs c c'"
  shows "ledgerKept (ledgerIn (cf_world c)) (ledgerIn (cf_world c'))"
  using assms(3)
proof cases
  case (claim i r w)
  with claimStage_step [OF assms(1,2) claim(4)] show ?thesis by (simp add: grows_def)
next
  case (call i keyed r w)
  then show ?thesis by (auto simp: callGraph_world ledgerIn_def ledgerKept_refl)
next
  case (finish i keyed v r w)
  with growing_finish [OF assms(1), of "jobs ! i" keyed v] assms(2) show ?thesis
    by (auto simp: growing_def grows_def dest!: spec [of _ "cf_world c"])
next
  case (fail i keyed e r w)
  with growing_fail [OF assms(1), of e] assms(2) show ?thesis
    by (auto simp: growing_def grows_def dest!: spec [of _ "cf_world c"])
qed

text \<open>Over a run of interleaved sends, a key that was used before it is held by none of them.\<close>

lemma used_key_stays:
  assumes "served ctx" "okWorld w" "(sendStep ctx jobs)\<^sup>*\<^sup>* (startConfig jobs w) c"
  shows "sendInv ctx jobs c \<and> ledgerKept (ledgerIn w) (ledgerIn (cf_world c))
    \<and> (\<forall>k i. ledgerIn w k \<noteq> None \<longrightarrow> \<not> holds ctx jobs c k i)"
  using assms(3)
proof (induction rule: rtranclp_induct)
  case base
  then show ?case using sendInv_start [OF assms(2)] by (simp add: startConfig_def holds_def ledgerKept_refl)
next
  case (step c c')
  then have inv: "sendInv ctx jobs c" and kept: "ledgerKept (ledgerIn w) (ledgerIn (cf_world c))"
    and none: "\<And>k i. ledgerIn w k \<noteq> None \<Longrightarrow> \<not> holds ctx jobs c k i" by blast+
  have "\<not> holds ctx jobs c' k i" if "ledgerIn w k \<noteq> None" for k i
  proof
    assume "holds ctx jobs c' k i"
    from holds_new [OF assms(1) inv step(2) this] show False
      using none [OF that] ledgerKept_used [OF kept that] by blast
  qed
  with sendInv_step [OF assms(1) inv step(2)]
    ledgerKept_trans [OF kept sendStep_keeps [OF assms(1) sendInvD(1) [OF inv] step(2)]] show ?case by blast
qed

text \<open>The calls of the schedule are those of the log, in order.\<close>

definition logged :: "send_job list \<Rightarrow> graph_call list \<Rightarrow> ('s, 't, 'f) send_config \<Rightarrow> bool" where
  "logged jobs before c = (sv_sent (cf_world c) = before @ map (\<lambda>i. jb_call (jobs ! i)) (rev (cf_calls c)))"

lemma logged_step:
  assumes "served ctx" "sendInv ctx jobs c" "sendStep ctx jobs c c'" "logged jobs before c"
  shows "logged jobs before c'"
  using assms(3)
proof cases
  case (claim i r w)
  have "grows (cf_world c) w" using claimStage_step [OF assms(1) sendInvD(1) [OF assms(2)] claim(4)] by blast
  with assms(4) claim show ?thesis by (simp add: logged_def grows_def)
next
  case (call i keyed r w)
  with assms(4) show ?thesis by (auto simp: logged_def callGraph_world)
next
  case (finish i keyed v r w)
  have "grows (cf_world c) (snd (tryA (finishSend ctx (jobs ! i) keyed v) (failSend ctx) (cf_world c)))"
    using growing_finish [OF assms(1), of "jobs ! i" keyed v] sendInvD(1) [OF assms(2)] unfolding growing_def by blast
  with assms(4) finish show ?thesis by (simp add: logged_def grows_def)
next
  case (fail i keyed e r w)
  have "grows (cf_world c) (snd (failSend ctx e (cf_world c)))"
    using growing_fail [OF assms(1), of e] sendInvD(1) [OF assms(2)] unfolding growing_def by blast
  with assms(4) fail show ?thesis by (simp add: logged_def grows_def)
qed

lemma sendInv_reachable:
  assumes "served ctx" "(sendStep ctx jobs)\<^sup>*\<^sup>* c c'" "sendInv ctx jobs c" "logged jobs before c"
  shows "sendInv ctx jobs c' \<and> logged jobs before c'"
  using assms(2,3,4) by (induction rule: rtranclp_induct) (auto intro: sendInv_step [OF assms(1)] logged_step [OF assms(1)])

text \<open>At most one handler of a key calls, and it calls once.\<close>

lemma one_call_per_key:
  assumes "sendInv ctx jobs c"
  shows "length (filter (\<lambda>i. keyOf ctx (jobs ! i) = Some k) (cf_calls c)) \<le> 1"
proof -
  note D = sendInvD [OF assms]
  let ?xs = "filter (\<lambda>i. keyOf ctx (jobs ! i) = Some k) (cf_calls c)"
  have "i = j" if "i \<in> set ?xs" "j \<in> set ?xs" for i j
    using that D(4) D(5) [of k i j] by (auto simp: holds_def)
  then have "card (set ?xs) \<le> 1" by (simp add: card_le_Suc0_iff_eq)
  moreover have "distinct ?xs" using D(3) by simp
  ultimately show ?thesis by (metis distinct_card)
qed

end

subsection \<open>SQLite behind the handlers\<close>

lemma requests_ledger: "ledgerRows t = ledgerRows u \<Longrightarrow> ledgerOf t = ledgerOf u \<and> (ledgerOk t \<longleftrightarrow> ledgerOk u)"
  by (simp add: ledgerRows_def ledgerOf_def ledgerOk_def fun_eq_iff)

interpretation sk: keyed_service "runtimeSink nt user" "\<lambda>s. standardRegistry (tm_registry s)"
  "\<lambda>k h ts. claimServiceRequest (claimObj k h ts)"
  "\<lambda>k h j ts. completeServiceRequest (completionObj k h j ts)"
  keyedOk "\<lambda>s. ledgerOf (db s)" sqliteApi
  for nt :: "rat \<Rightarrow> string" and user :: "'u telemetry_sink option"
proof unfold_locales
  fix s i
  assume "keyedOk s"
  then show "keyedOk (snd (ap_recordMessage sqliteApi i s)) \<and> ledgerOf (db (snd (ap_recordMessage sqliteApi i s))) = ledgerOf (db s)"
    using recordMessage_rows [of i s] requests_ledger [OF recordMessage_rows [of i s]]
    by (simp add: sqliteApi_def keyedOk_def ledgerRows_def)
next
  fix s i
  assume "keyedOk s"
  then show "keyedOk (snd (ap_appendMessageStatus sqliteApi i s)) \<and> ledgerOf (db (snd (ap_appendMessageStatus sqliteApi i s))) = ledgerOf (db s)"
    using appendMessageStatus_rows [of i s] requests_ledger [OF appendMessageStatus_rows [of i s]]
    by (simp add: sqliteApi_def keyedOk_def ledgerRows_def)
qed

subsection \<open>Properties\<close>

text \<open>A run of a handler is a schedule of its stages.\<close>

inductive_cases sendStepE: "sendStep ctx jobs c c'"

lemma sendJob_schedule:
  assumes "sendJob ctx job w = (r, w')"
  shows "\<exists>c. (sendStep ctx [job])\<^sup>*\<^sup>* (startConfig [job] w) c \<and> cf_phases c = [Ended r] \<and> cf_world c = w'"
proof -
  have step: "(sendStep ctx [job])\<^sup>*\<^sup>* a c" if "(sendStep ctx [job])\<^sup>*\<^sup>* a b" "sendStep ctx [job] b c" for a b c
    using that by (rule rtranclp.rtrancl_into_rtrancl)
  obtain q w1 where q: "claimStage ctx job w = (q, w1)" by fastforce
  let ?c0 = "startConfig [job] w" and ?c1 = "stepTo 0 (afterClaim q) w1 (startConfig [job] w)"
  have s1: "(sendStep ctx [job])\<^sup>*\<^sup>* ?c0 ?c1"
    using sendStep.claim [of 0 "[job]" ?c0 ctx q w1] q by (auto simp: startConfig_def)
  show ?thesis
  proof (cases "\<exists>keyed. q = Inr (Inr keyed)")
    case False
    then have "afterClaim q = Ended r" "w1 = w'"
      using assms q by (auto simp: sendJob_def bindR_def bindA_def afterClaim_def split: sum.splits)
    with s1 show ?thesis by (intro exI [of _ ?c1]) (simp add: startConfig_def stepTo_def)
  next
    case True
    then obtain keyed where k: "q = Inr (Inr keyed)" ..
    obtain a w2 where a: "callGraph ctx (jb_call job) w1 = (a, w2)" by fastforce
    let ?c2 = "(stepTo 0 (afterCall keyed a) w2 ?c1)\<lparr>cf_calls := 0 # cf_calls ?c1\<rparr>"
    have s2: "(sendStep ctx [job])\<^sup>*\<^sup>* ?c0 ?c2"
      by (rule step [OF s1], rule sendStep.call) (simp_all add: k afterClaim_def startConfig_def stepTo_def a)
    have run: "tryA (bindA (callGraph ctx (jb_call job)) (finishSend ctx job keyed)) (failSend ctx) w1 = (r, w')"
      using assms q k by (simp add: sendJob_def bindR_Inr)
    let ?c3 = "stepTo 0 (Ended r) w' ?c2"
    have "sendStep ctx [job] ?c2 ?c3"
    proof (cases a)
      case (Inl e)
      then have "failSend ctx e w2 = (r, w')" using run a by (simp add: tryA_def bindA_def)
      then show ?thesis by (intro sendStep.fail [of _ _ _ keyed e]) (simp_all add: Inl afterCall_def stepTo_def startConfig_def)
    next
      case (Inr v)
      then have "tryA (finishSend ctx job keyed v) (failSend ctx) w2 = (r, w')" using run a by (simp add: tryA_def bindA_def)
      then show ?thesis by (intro sendStep.finish [of _ _ _ keyed v]) (simp_all add: Inr afterCall_def stepTo_def startConfig_def)
    qed
    from step [OF s2 this] show ?thesis by (intro exI [of _ ?c3]) (simp add: startConfig_def stepTo_def)
  qed
qed

text \<open>C23: Behind a SQLite store, however the handlers of any number of concurrent message requests
  interleave and whatever the store, the Graph API and the user's sink do, at most one call is made
  for an operation and idempotency key; the calls counted are those of the log.\<close>

theorem keyed_sends_at_most_once:
  assumes "keyedOk (sv_store w)" "standardRegistry (tm_registry (sv_telemetry w))"
    "rt_store ctx = Some sqliteApi" "rt_sink ctx = runtimeSink nt user"
    "(sendStep ctx jobs)\<^sup>*\<^sup>* (startConfig jobs w) c"
  shows "length (filter (\<lambda>i. map_option (jobKey ctx (jb_operation (jobs ! i))) (jb_key (jobs ! i)) = Some k) (cf_calls c)) \<le> 1
    \<and> sv_sent (cf_world c) = sv_sent w @ map (\<lambda>i. jb_call (jobs ! i)) (rev (cf_calls c))"
proof -
  have sv: "sk.served nt user ctx" using assms(3,4) by (simp add: sk.served_def)
  have "sk.okWorld w" using assms(1,2) by (simp add: sk.okWorld_def)
  then have inv: "sk.sendInv ctx jobs (startConfig jobs w)" by (rule sk.sendInv_start)
  have "sk.logged jobs (sv_sent w) (startConfig jobs w)" by (simp add: sk.logged_def startConfig_def)
  with sk.sendInv_reachable [OF sv assms(5) inv] have e: "sk.sendInv ctx jobs c" "sk.logged jobs (sv_sent w) c" by blast+
  from e(1) have "length (filter (\<lambda>i. sk.keyOf ctx (jobs ! i) = Some k) (cf_calls c)) \<le> 1" by (rule sk.one_call_per_key)
  with e(2) show ?thesis by (simp add: sk.keyOf_def sk.logged_def)
qed

text \<open>C24: What a keyed send does, by the ledger it finds.  A claim that fails is answered 503.  A used
  key is answered from the ledger: 409 for another payload or for a claim still pending, the stored
  response otherwise.  In these cases no call is made and the ledger stays.  On a fresh key exactly
  one call is made: a failure is answered 502 or 503 and leaves the key pending; a success is
  answered 200 with the result, which the ledger then holds unless the response says \<open>degraded\<close>.\<close>

theorem keyed_send_contract:
  assumes "keyedOk (sv_store w)" "standardRegistry (tm_registry (sv_telemetry w))"
    "rt_store ctx = Some sqliteApi" "rt_sink ctx = runtimeSink nt user"
    "jb_key job = Some raw" "requestHash ctx (jb_payload job) = Inr h" "sendJob ctx job w = (r, w')"
  shows "(\<exists>resp. r = Inr resp \<and>
    (case ledgerOf (db (sv_store w)) (jobKey ctx (jb_operation job) raw) of
       Some (h', stored) \<Rightarrow> (resp = claimFailed \<or> resp = usedAnswer h h' stored)
         \<and> sv_sent w' = sv_sent w \<and> ledgerOf (db (sv_store w')) = ledgerOf (db (sv_store w))
     | None \<Rightarrow> resp = claimFailed \<and> sv_sent w' = sv_sent w \<and> ledgerOf (db (sv_store w')) = ledgerOf (db (sv_store w))
       \<or> sv_sent w' = sv_sent w @ [jb_call job] \<and>
         (case rt_graph ctx (length (sv_sent w)) (jb_call job) of
            Inl e \<Rightarrow> ws_status resp \<in> {502, 503} \<and> ledgerOf (db (sv_store w'))
              = (ledgerOf (db (sv_store w)))(jobKey ctx (jb_operation job) raw \<mapsto> (h, None))
          | Inr v \<Rightarrow> (\<exists>degraded. resp = svcJsonResponse ctx 200 v (if degraded then [(''x-wats-persistence'', ''degraded'')] else [])
              \<and> ledgerOf (db (sv_store w')) = (ledgerOf (db (sv_store w)))(jobKey ctx (jb_operation job) raw \<mapsto>
                  (h, if degraded then None else js_stringify (rt_numberText ctx) v))))))
   \<and> keyedOk (sv_store w') \<and> standardRegistry (tm_registry (sv_telemetry w'))"
proof -
  have s: "sk.served nt user ctx" using assms(3,4) by (simp add: sk.served_def)
  have o: "sk.okWorld w" using assms(1,2) by (simp add: sk.okWorld_def)
  show ?thesis
    by (rule sk.sendJob_cases [OF s o assms(5,6) refl])
       (use assms(7) in \<open>auto simp: sk.calm_def sk.okWorld_def sk.ledgerIn_def split: option.splits\<close>)
qed

text \<open>The hash of a payload decides its content, if SHA-256 does not collide on the two texts.\<close>

lemma requestHash_same:
  assumes "numberTexts (rt_numberText ctx)" "jsonData v" "jsonData u" "levels v \<le> 128" "levels u \<le> 128"
    "\<And>s t. canonicalJsonString (rt_numberText ctx) v = Inr (Some s) \<Longrightarrow> canonicalJsonString (rt_numberText ctx) u = Inr (Some t) \<Longrightarrow>
      rt_sha ctx (utf8 s) = rt_sha ctx (utf8 t) \<Longrightarrow> s = t"
  obtains h g where "requestHash ctx v = Inr h" "requestHash ctx u = Inr g" "h = g \<longleftrightarrow> sameJson v u"
proof -
  let ?nt = "rt_numberText ctx"
  obtain s t where c: "canonicalJsonString ?nt v = Inr (Some s)" "canonicalJsonString ?nt u = Inr (Some t)"
    using assms(2-5) by (simp add: canonicalJsonString_data MAX_CANONICAL_DEPTH_def)
  have "s = t \<longleftrightarrow> sameJson v u"
    using canonical_text_identity [OF assms(1,2,3,5)] c by auto
  moreover have "sha256HexPrefixed (rt_sha ctx) s = sha256HexPrefixed (rt_sha ctx) t \<longleftrightarrow> s = t"
    using assms(6) [OF c] by (rule sha256HexPrefixed_inj)
  ultimately show thesis
    using that [of "sha256HexPrefixed (rt_sha ctx) s" "sha256HexPrefixed (rt_sha ctx) t"] c by (simp add: requestHash_def)
qed

text \<open>C25: A send that was answered 200 without the mark \<open>degraded\<close> is never sent again.  Whatever keyed and
  unkeyed sends run after it, interleaved in any way, none with its operation and key makes a call; and a
  request with its operation and key that then runs, while the others are at any stage, makes no call and
  gets the very same body when its payload is the same up to the order of properties, a conflict when it
  is another, or 503 when the claim itself fails.  The payloads are JSON data at most 128 levels deep,
  SHA-256 does not collide on their two canonical texts, numbers print injectively, and all requests use
  one SQLite store that keeps its invariant at the start.\<close>

theorem completed_send_is_replayed:
  assumes "keyedOk (sv_store w)" "standardRegistry (tm_registry (sv_telemetry w))"
    and "rt_store ctx = Some sqliteApi" "rt_sink ctx = runtimeSink nt user"
    and "jb_key job = Some raw" "jb_key job' = Some raw" "jb_operation job' = jb_operation job"
    and "numberTexts (rt_numberText ctx)" "jsonData (jb_payload job)" "jsonData (jb_payload job')"
    and "levels (jb_payload job) \<le> 128" "levels (jb_payload job') \<le> 128"
    and "\<And>s t. canonicalJsonString (rt_numberText ctx) (jb_payload job) = Inr (Some s) \<Longrightarrow>
      canonicalJsonString (rt_numberText ctx) (jb_payload job') = Inr (Some t) \<Longrightarrow>
      rt_sha ctx (utf8 s) = rt_sha ctx (utf8 t) \<Longrightarrow> s = t"
    and "sendJob ctx job w = (Inr resp, w1)" "sv_sent w1 \<noteq> sv_sent w" "ws_status resp = 200"
      "(''x-wats-persistence'', ''degraded'') \<notin> set (ws_headers resp)"
    and "(sendStep ctx jobs)\<^sup>*\<^sup>* (startConfig jobs w1) c" and "sendJob ctx job' (cf_world c) = (r, w2)"
  shows "(\<forall>i \<in> set (cf_calls c). jb_key (jobs ! i) \<noteq> None \<longrightarrow>
      jobKey ctx (jb_operation (jobs ! i)) (the (jb_key (jobs ! i))) \<noteq> jobKey ctx (jb_operation job) raw)
    \<and> sv_sent w2 = sv_sent (cf_world c) \<and> (r = Inr claimFailed \<or>
    r = Inr (if sameJson (jb_payload job) (jb_payload job') then jsonTextResponse 200 (ws_body resp)
       else svcErrorResponse 409 ''idempotency_conflict'' ''Idempotency-Key conflicts with a different request body.'' []))"
proof -
  let ?k = "jobKey ctx (jb_operation job) raw"
  obtain h g where h: "requestHash ctx (jb_payload job) = Inr h" "requestHash ctx (jb_payload job') = Inr g"
    "h = g \<longleftrightarrow> sameJson (jb_payload job) (jb_payload job')"
    by (rule requestHash_same [OF assms(8-13)])
  have s: "sk.served nt user ctx" using assms(3,4) by (simp add: sk.served_def)
  have o: "sk.okWorld w" using assms(1,2) by (simp add: sk.okWorld_def)
  have done_: "sk.okWorld w1 \<and> sk.ledgerIn w1 ?k = Some (h, Some (ws_body resp))"
    by (rule sk.sendJob_cases [OF s o assms(5) h(1) refl])
       (use assms(14-17) in \<open>auto simp: sk.calm_def svcJsonResponse_def stringifyBody_def split: if_splits\<close>)
  from sk.used_key_stays [OF s conjunct1 [OF done_] assms(18)] done_ have
    inv: "sk.sendInv ctx jobs c" and kept: "sk.ledgerIn (cf_world c) ?k = Some (h, Some (ws_body resp))"
    and none: "\<not> sk.holds ctx jobs c ?k i" for i
    by (force simp: ledgerKept_def)+
  have calls: "sk.keyOf ctx (jobs ! i) \<noteq> Some ?k" if "i \<in> set (cf_calls c)" for i
    using none [of i] sk.sendInvD(4) [OF inv that] that by (simp add: sk.holds_def)
  have k: "?k = jobKey ctx (jb_operation job') raw" by (simp add: assms(7))
  have "sv_sent w2 = sv_sent (cf_world c) \<and> (r = Inr claimFailed \<or> r = Inr (usedAnswer g h (Some (ws_body resp))))"
    by (rule sk.sendJob_cases [OF s sk.sendInvD(1) [OF inv] assms(6) h(2) k])
       (use assms(19) kept in \<open>auto simp: sk.calm_def\<close>)
  with h(3) calls show ?thesis by (auto simp: usedAnswer_def sk.keyOf_def)
qed

text \<open>A runtime, a job and a world at which the hypotheses hold.\<close>

definition sampleProfile :: service_profile where
  "sampleProfile = \<lparr> pf_phoneNumberId = ''1'', pf_wabaId = ''2'', pf_graphApiVersion = ''v25.0'', pf_host = JStr ''h'',
     pf_port = natText 80, pf_apiPrefix = ''/api'', pf_webhookPath = ''/w'', pf_accessTokenRef = JNull,
     pf_verifyTokenRef = JNull, pf_appSecretRef = JNull, pf_maxBodyBytes = 100 \<rparr>"

definition sampleCtx :: "(nat \<Rightarrow> graph_call \<Rightarrow> graph_failure + jsval) \<Rightarrow> (store, unit telemetry_state, unit) runtime" where
  "sampleCtx answer = \<lparr> rt_profile = sampleProfile, rt_bearerToken = ''t'', rt_verifyToken = ''v'', rt_appSecret = ''s'',
     rt_store = Some sqliteApi, rt_sink = runtimeSink unaryText (None :: unit telemetry_sink option),
     rt_webhookPath = ''/w'', rt_apiPrefix = ''/api'', rt_enableGroupRoutes = True, rt_graph = answer,
     rt_dispatch = (\<lambda>u f. (Inr [], f)), rt_now = (\<lambda>n. int n), rt_rowId = (\<lambda>n. ''row'' @ showNat n),
     rt_sha = take 1, rt_numberText = unaryText, rt_parseJson = (\<lambda>s. Some (JStr s)), rt_decodeUri = Some \<rparr>"

definition sampleServiceWorld :: "(store, unit telemetry_state, unit) service_world" where
  "sampleServiceWorld = \<lparr> sv_store = openStore ledgerTables [],
     sv_telemetry = \<lparr> tm_registry = createMetricsRegistry, tm_user = (), tm_stderr = [] \<rparr>,
     sv_errors = [], sv_sent = [], sv_facade = (), sv_dispatched = [], sv_reads = 0, sv_warn = [] \<rparr>"

definition sampleJob :: "jsval \<Rightarrow> send_job" where
  "sampleJob body = \<lparr> jb_operation = [], jb_payload = body,
     jb_call = SendTextCall ''1'' ''5'' ''a'' None, jb_to = Some ''5'', jb_type = ''text'', jb_key = Some ''k'' \<rparr>"

definition sampleAnswer :: "nat \<Rightarrow> graph_call \<Rightarrow> graph_failure + jsval" where
  "sampleAnswer n c = Inr (jsObject [(''ok'', JBool True)])"

lemma sample_ok: "keyedOk (sv_store sampleServiceWorld)" "standardRegistry (tm_registry (sv_telemetry sampleServiceWorld))"
  "rt_store (sampleCtx f) = Some sqliteApi" "rt_sink (sampleCtx f) = runtimeSink unaryText None"
  using ledgerTables_ok createMetricsRegistry_standard
  by (simp_all add: keyedOk_def sampleServiceWorld_def openStore_def sampleCtx_def ledgerTables_def emptyTables_def)

lemma keyed_sends_at_most_once_witness:
  "\<exists>c r. (sendStep (sampleCtx sampleAnswer) [sampleJob JNull])\<^sup>*\<^sup>* (startConfig [sampleJob JNull] sampleServiceWorld) c
    \<and> cf_phases c = [Ended r] \<and> length (sv_sent (cf_world c)) = length (cf_calls c)"
proof -
  obtain r w where "sendJob (sampleCtx sampleAnswer) (sampleJob JNull) sampleServiceWorld = (r, w)" by fastforce
  from sendJob_schedule [OF this] obtain c where
    c: "(sendStep (sampleCtx sampleAnswer) [sampleJob JNull])\<^sup>*\<^sup>* (startConfig [sampleJob JNull] sampleServiceWorld) c"
      "cf_phases c = [Ended r]" by blast
  from keyed_sends_at_most_once [OF sample_ok c(1)] c show ?thesis by (auto simp: sampleServiceWorld_def)
qed

lemma sample_hash: "requestHash (sampleCtx sampleAnswer) (jb_payload (sampleJob JNull)) = Inr ''sha256:6e''"
  by code_simp

lemma keyed_send_contract_witness:
  "case sendJob (sampleCtx sampleAnswer) (sampleJob JNull) sampleServiceWorld of (r, w') \<Rightarrow>
     (\<exists>resp. r = Inr resp \<and> (resp = claimFailed \<or> sv_sent w' = [jb_call (sampleJob JNull)])) \<and> keyedOk (sv_store w')"
proof -
  obtain r w' where run: "sendJob (sampleCtx sampleAnswer) (sampleJob JNull) sampleServiceWorld = (r, w')" by fastforce
  have "ledgerOf (db (sv_store sampleServiceWorld)) k = None" for k
    by (simp add: sampleServiceWorld_def openStore_def ledgerTables_def emptyTables_def ledgerOf_def)
  with keyed_send_contract [OF sample_ok _ sample_hash run, of "''k''"] run show ?thesis
    by (auto simp: sampleJob_def sampleServiceWorld_def)
qed

lemma sample_sent: "case sendJob (sampleCtx sampleAnswer) (sampleJob JNull) sampleServiceWorld of (r, w1) \<Rightarrow>
   sv_sent w1 \<noteq> [] \<and> (case r of Inr resp \<Rightarrow> ws_status resp = 200
     \<and> (''x-wats-persistence'', ''degraded'') \<notin> set (ws_headers resp) | _ \<Rightarrow> False)"
  by code_simp

lemma sample_texts:
  "canonicalJsonString unaryText (jb_payload (sampleJob JNull)) = Inr (Some ''null'')"
  "canonicalJsonString unaryText (jb_payload (sampleJob (JBool True))) = Inr (Some ''true'')"
  "take (Suc 0) (utf8 ''null'') \<noteq> take (Suc 0) (utf8 ''true'')"
  by code_simp+

lemma completed_send_is_replayed_witness:
  "\<exists>resp w1 c. sendJob (sampleCtx sampleAnswer) (sampleJob JNull) sampleServiceWorld = (Inr resp, w1)
     \<and> (sendStep (sampleCtx sampleAnswer) [sampleJob JNull])\<^sup>*\<^sup>* (startConfig [sampleJob JNull] w1) c
     \<and> (\<exists>q. cf_phases c = [Ended q]) \<and> 0 \<notin> set (cf_calls c)
     \<and> sv_sent (snd (sendJob (sampleCtx sampleAnswer) (sampleJob (JBool True)) (cf_world c))) = sv_sent (cf_world c)"
proof -
  let ?ctx = "sampleCtx sampleAnswer"
  obtain resp w1 where run: "sendJob ?ctx (sampleJob JNull) sampleServiceWorld = (Inr resp, w1)"
    "sv_sent w1 \<noteq> []" "ws_status resp = 200" "(''x-wats-persistence'', ''degraded'') \<notin> set (ws_headers resp)"
    using sample_sent by (auto split: prod.splits sum.splits)
  have d: "jsonData (jb_payload (sampleJob JNull))" "jsonData (jb_payload (sampleJob (JBool True)))" "levels (jb_payload (sampleJob JNull)) \<le> 128"
    "levels (jb_payload (sampleJob (JBool True))) \<le> 128" "jb_key (sampleJob b) = Some ''k''"
    "jb_operation (sampleJob b) = jb_operation (sampleJob c)" for b c
    by (simp_all add: sampleJob_def jsObject_def)
  have n: "numberTexts (rt_numberText ?ctx)" using numberTexts_unary by (simp add: sampleCtx_def)
  obtain q w where mid: "sendJob ?ctx (sampleJob JNull) w1 = (q, w)" by fastforce
  from sendJob_schedule [OF mid] obtain c where
    c: "(sendStep ?ctx [sampleJob JNull])\<^sup>*\<^sup>* (startConfig [sampleJob JNull] w1) c" "cf_phases c = [Ended q]" by blast
  obtain r w2 where run2: "sendJob ?ctx (sampleJob (JBool True)) (cf_world c) = (r, w2)" by fastforce
  have texts: "s = t" if "canonicalJsonString (rt_numberText ?ctx) (jb_payload (sampleJob JNull)) = Inr (Some s)"
    "canonicalJsonString (rt_numberText ?ctx) (jb_payload (sampleJob (JBool True))) = Inr (Some t)"
    "rt_sha ?ctx (utf8 s) = rt_sha ?ctx (utf8 t)" for s t
    using that sample_texts by (auto simp: sampleCtx_def)
  have new: "sv_sent w1 \<noteq> sv_sent sampleServiceWorld" using run(2) by (simp add: sampleServiceWorld_def)
  have calls: "\<forall>i \<in> set (cf_calls c). jb_key ([sampleJob JNull] ! i) \<noteq> None \<longrightarrow>
      jobKey ?ctx (jb_operation ([sampleJob JNull] ! i)) (the (jb_key ([sampleJob JNull] ! i)))
        \<noteq> jobKey ?ctx (jb_operation (sampleJob JNull)) ''k''"
    by (rule completed_send_is_replayed [OF sample_ok d(5) d(5) d(6) n d(1) d(2) d(3) d(4) texts run(1) new run(3,4) c(1) run2, THEN conjunct1])
  have "0 \<notin> set (cf_calls c)"
  proof
    assume "0 \<in> set (cf_calls c)"
    from bspec [OF calls this] show False by (simp add: d(5))
  qed
  moreover have "sv_sent w2 = sv_sent (cf_world c)"
    by (rule completed_send_is_replayed [OF sample_ok d(5) d(5) d(6) n d(1) d(2) d(3) d(4) texts run(1) new run(3,4) c(1) run2, THEN conjunct2, THEN conjunct1])
  then have "sv_sent (snd (sendJob ?ctx (sampleJob (JBool True)) (cf_world c))) = sv_sent (cf_world c)" by (simp only: run2 snd_conv)
  ultimately show ?thesis using run(1) c by blast
qed

end
