(* ===== verification/Service_Webhook.thy ===== *)
theory Service_Webhook
  imports Service_Send
begin

section \<open>The webhook route of the service\<close>

text \<open>
  \<open>handleWebhook\<close> of \<open>packages/service/src/index.ts\<close> with its projections, and the instrumented facade
  of \<open>makeRuntimeConfig\<close>.  Without a store the adapter of the http package dispatches itself.  With
  one, the adapter runs with a facade that only collects the updates; the service then gates their
  depth, records each by its dedup key, projects all of them and dispatches the new ones.  Concurrent
  deliveries interleave between the store calls and the dispatches: \<open>hookStep\<close>.
\<close>

subsection \<open>The adapter inside the service\<close>

definition serviceAdapter :: "('s, 't, 'f) runtime \<Rightarrow> 'jwk provider option \<Rightarrow> 'jwk webhook_adapter" where
  "serviceAdapter ctx crypto = \<lparr> wa_verifyToken = rt_verifyToken ctx, wa_appSecret = rt_appSecret ctx,
     wa_crypto = crypto, wa_maxBodyBytes = pf_maxBodyBytes (rt_profile ctx), wa_logger = False \<rparr>"

definition withDispatch :: "('jwk, 'u, 'x) webhook_env \<Rightarrow> ('u \<Rightarrow> 'y \<Rightarrow> (Crypto_Provider.exn + unit) \<times> 'y) \<Rightarrow> ('jwk, 'u, 'y) webhook_env" where
  "withDispatch env d = \<lparr> ev_verifyFactory = ev_verifyFactory env, ev_signatureFactory = ev_signatureFactory env,
     ev_searchParams = ev_searchParams env, ev_parseJson = ev_parseJson env, ev_numberText = ev_numberText env,
     ev_normalize = ev_normalize env, ev_dispatch = d \<rparr>"

definition stagingEnv :: "('jwk, jsval, 'x) webhook_env \<Rightarrow> ('jwk, jsval, unit) webhook_env" where
  "stagingEnv env = withDispatch env (\<lambda>u s. (Inr (), s))"

definition toWebhookRequest :: "service_request \<Rightarrow> webhook_request" where
  "toWebhookRequest rq = \<lparr> wq_method = hq_method rq, wq_url = hq_url rq, wq_headers = hq_headers rq, wq_body = BodyOther JNull \<rparr>"

subsection \<open>Dispatching an update\<close>

definition updateKind :: "jsval \<Rightarrow> string" where
  "updateKind u = (case serviceRecord u of None \<Rightarrow> ''unknown''
     | Some ps \<Rightarrow> (case js_get ps ''kind'' of JStr k \<Rightarrow> k | _ \<Rightarrow> ''unknown''))"

definition noteError :: "thrown_value \<Rightarrow> ('s, 't, 'f, unit) svc_act" where
  "noteError e = modifyA (\<lambda>w. w\<lparr>sv_errors := recordError e (sv_errors w)\<rparr>)"

definition callFacade :: "('s, 't, 'f) runtime \<Rightarrow> jsval \<Rightarrow> ('s, 't, 'f, thrown_value list) svc_act" where
  "callFacade ctx u w = (case rt_dispatch ctx u (sv_facade w) of
     (Inl e, f') \<Rightarrow> (Inl (CodeExn e), w\<lparr>sv_facade := f', sv_dispatched := sv_dispatched w @ [u]\<rparr>)
   | (Inr errs, f') \<Rightarrow> (Inr errs, w\<lparr>sv_facade := f', sv_dispatched := sv_dispatched w @ [u]\<rparr>))"

definition instrumentedDispatch :: "('s, 't, 'f) runtime \<Rightarrow> jsval \<Rightarrow> ('s, 't, 'f, unit) svc_act" where
  "instrumentedDispatch ctx u =
     tryA (bindA (callFacade ctx u) (\<lambda>errs.
           bindA (case errs of [] \<Rightarrow> retA () | e # _ \<Rightarrow> noteError e) (\<lambda>_.
           onSink (recordWebhookNormalization (rt_sink ctx) (updateKind u) (if errs \<noteq> [] then ''error'' else ''success'')))))
       (\<lambda>e. bindA (onSink (recordWebhookNormalization (rt_sink ctx) (updateKind u) ''error'')) (\<lambda>_.
           bindA (noteError (thrownOf e)) (\<lambda>_. failA e)))"

text \<open>Without a store, the adapter's own loop dispatches.\<close>

definition directEnv :: "('s, 't, 'f) runtime \<Rightarrow> ('jwk, jsval, 'x) webhook_env \<Rightarrow> ('jwk, jsval, ('s, 't, 'f) service_world) webhook_env" where
  "directEnv ctx env = withDispatch env (\<lambda>u w. case instrumentedDispatch ctx u w of
     (Inl e, w') \<Rightarrow> (Inl (Crypto_Provider.exn.HostError ''Error''), w') | (Inr _, w') \<Rightarrow> (Inr (), w'))"

subsection \<open>Projections\<close>

definition inboundRecord :: "string \<Rightarrow> string \<Rightarrow> string option \<Rightarrow> string \<Rightarrow> string \<Rightarrow> jsval" where
  "inboundRecord rowId wa fromPhone messageType createdAt = jsObject ([(''rowId'', JStr rowId), (''waMessageId'', JStr wa),
     (''direction'', JStr ''inbound'')] @ (case fromPhone of None \<Rightarrow> [] | Some p \<Rightarrow> [(''fromPhone'', JStr p)])
     @ [(''type'', JStr messageType), (''status'', JStr ''received''), (''createdAt'', JStr createdAt), (''updatedAt'', JStr createdAt)])"

definition eventTime :: "(string \<times> slot) list \<Rightarrow> int \<Rightarrow> string option" where
  "eventTime ps now = (case strField ps ''timestamp'' of None \<Rightarrow> None | Some t \<Rightarrow> metaTimestampToIso (JStr t) now)"

definition storeInbound :: "('s, 't, 'f) runtime \<Rightarrow> 's store_api \<Rightarrow> string \<Rightarrow> string option \<Rightarrow> string \<Rightarrow> string \<Rightarrow> ('s, 't, 'f, unit) svc_act" where
  "storeInbound ctx api wa fromPhone messageType createdAt =
     tryA (bindA (onStore StoreRaised (ap_getMessage api (jsObject [(''waMessageId'', JStr wa)]))) (\<lambda>existing.
           bindA (if existing \<noteq> None then retA ()
                  else bindA (cryptoRandomId ctx) (\<lambda>rowId.
                    onStore StoreRaised (ap_recordMessage api (inboundRecord rowId wa fromPhone messageType createdAt)))) (\<lambda>_.
           recordStore ctx api ''success'')))
       (\<lambda>_. recordStore ctx api ''error'')"

definition recordInboundProjection :: "('s, 't, 'f) runtime \<Rightarrow> jsval \<Rightarrow> int \<Rightarrow> ('s, 't, 'f, unit) svc_act" where
  "recordInboundProjection ctx u now = (case (rt_store ctx, serviceRecord u) of
     (Some api, Some ps) \<Rightarrow>
       if js_get ps ''kind'' \<noteq> JStr ''message'' then retA ()
       else (case serviceRecord (js_get ps ''message'') of
           None \<Rightarrow> retA ()
         | Some m \<Rightarrow> (case (strField m ''id'', strField m ''type'', eventTime m now) of
             (Some wa, Some ty, Some createdAt) \<Rightarrow> storeInbound ctx api wa (strField m ''from'') ty createdAt
           | _ \<Rightarrow> retA ()))
   | _ \<Rightarrow> retA ())"

definition recordStatusProjection :: "('s, 't, 'f) runtime \<Rightarrow> jsval \<Rightarrow> int \<Rightarrow> ('s, 't, 'f, unit) svc_act" where
  "recordStatusProjection ctx u now = (case (rt_store ctx, serviceRecord u) of
     (Some api, Some ps) \<Rightarrow>
       if js_get ps ''kind'' \<noteq> JStr ''status'' then retA ()
       else (case serviceRecord (js_get ps ''status'') of
           None \<Rightarrow> retA ()
         | Some st \<Rightarrow> (case (strField st ''id'', strField st ''status'') of
             (Some wa, Some status) \<Rightarrow> bestEffort ctx api (ap_appendMessageStatus api (statusInput wa status
               (case eventTime st now of Some t \<Rightarrow> t | None \<Rightarrow> isoText now)))
           | _ \<Rightarrow> retA ()))
   | _ \<Rightarrow> retA ())"

definition projectUpdate :: "('s, 't, 'f) runtime \<Rightarrow> int \<Rightarrow> jsval \<Rightarrow> ('s, 't, 'f, unit) svc_act" where
  "projectUpdate ctx now u = bindA (recordInboundProjection ctx u now) (\<lambda>_. recordStatusProjection ctx u now)"

subsection \<open>Deduplication\<close>

definition dedupKeyOf :: "('s, 't, 'f) runtime \<Rightarrow> jsval \<Rightarrow> string option" where
  "dedupKeyOf ctx u = extractDedupKey (rt_numberText ctx) (sha256Hex (rt_sha ctx)) u"

definition eventInput :: "string \<Rightarrow> string \<Rightarrow> jsval" where
  "eventInput key stamp = jsObject [(''eventKey'', JStr key), (''eventHash'', JStr (''sha256:'' @ key)), (''receivedAt'', JStr stamp)]"

text \<open>The updates to dispatch, those seen before, and whether the store failed.\<close>

record staged =
  sg_fresh :: "jsval list"
  sg_deduped :: "jsval list"
  sg_failed :: bool

text \<open>The body of the loop.\<close>

definition stageUpdate :: "('s, 't, 'f) runtime \<Rightarrow> 's store_api \<Rightarrow> int \<Rightarrow> jsval \<Rightarrow> staged \<Rightarrow> ('s, 't, 'f, staged) svc_act" where
  "stageUpdate ctx api now u sg = (case dedupKeyOf ctx u of
     None \<Rightarrow> retA (sg\<lparr>sg_fresh := sg_fresh sg @ [u]\<rparr>)
   | Some key \<Rightarrow>
       tryA (bindA (onStore StoreRaised (ap_recordWebhookEvent api (eventInput key (isoText now)))) (\<lambda>r.
             bindA (recordStore ctx api ''success'') (\<lambda>_.
             retA (if r = EventDuplicate then sg\<lparr>sg_deduped := sg_deduped sg @ [u]\<rparr> else sg\<lparr>sg_fresh := sg_fresh sg @ [u]\<rparr>))))
         (\<lambda>_. bindA (recordStore ctx api ''error'') (\<lambda>_. retA (sg\<lparr>sg_failed := True\<rparr>))))"

fun stageUpdates :: "('s, 't, 'f) runtime \<Rightarrow> 's store_api \<Rightarrow> int \<Rightarrow> jsval list \<Rightarrow> staged \<Rightarrow> ('s, 't, 'f, staged) svc_act" where
  "stageUpdates ctx api now [] sg = retA sg"
| "stageUpdates ctx api now (u # us) sg = bindA (stageUpdate ctx api now u sg) (\<lambda>sg'.
     if sg_failed sg' then retA sg' else stageUpdates ctx api now us sg')"

text \<open>The dispatch of one update, whose failure is swallowed: whether it counts.\<close>

definition dispatchOne :: "('s, 't, 'f) runtime \<Rightarrow> jsval \<Rightarrow> ('s, 't, 'f, nat) svc_act" where
  "dispatchOne ctx u = tryA (bindA (instrumentedDispatch ctx u) (\<lambda>_. retA 1)) (\<lambda>_. retA 0)"

fun dispatchFresh :: "('s, 't, 'f) runtime \<Rightarrow> jsval list \<Rightarrow> nat \<Rightarrow> ('s, 't, 'f, nat) svc_act" where
  "dispatchFresh ctx [] n = retA n"
| "dispatchFresh ctx (u # us) n = bindA (dispatchOne ctx u) (\<lambda>k. dispatchFresh ctx us (n + k))"

definition depthExceeded :: webhook_response where
  "depthExceeded = svcErrorResponse 400 ''payload_depth_exceeded'' ''Webhook payload nesting depth exceeds the limit.'' []"

definition dedupUnavailable :: webhook_response where
  "dedupUnavailable = svcErrorResponse 503 ''persistence_unavailable'' ''Webhook deduplication store is unavailable.'' []"

text \<open>What follows the staging: telemetry and projections, then the dispatches and the answer.\<close>

definition projectStaged :: "('s, 't, 'f) runtime \<Rightarrow> int \<Rightarrow> staged \<Rightarrow> ('s, 't, 'f, unit) svc_act" where
  "projectStaged ctx now sg =
     bindA (forA (sg_deduped sg) (\<lambda>u. onSink (recordWebhookNormalization (rt_sink ctx) (updateKind u) ''deduped''))) (\<lambda>_.
     bindA (forA (sg_fresh sg) (projectUpdate ctx now)) (\<lambda>_.
     forA (sg_deduped sg) (projectUpdate ctx now)))"

definition webhookAnswer :: "('s, 't, 'f) runtime \<Rightarrow> nat \<Rightarrow> staged \<Rightarrow> nat \<Rightarrow> webhook_response" where
  "webhookAnswer ctx received sg dispatched = (if sg_failed sg then dedupUnavailable
     else svcJsonResponse ctx 200 (summaryPayload received dispatched (length (sg_deduped sg))) [])"

definition noneStaged :: staged where
  "noneStaged = \<lparr> sg_fresh = [], sg_deduped = [], sg_failed = False \<rparr>"

definition deliverUpdates :: "('s, 't, 'f) runtime \<Rightarrow> 's store_api \<Rightarrow> jsval list \<Rightarrow> ('s, 't, 'f, webhook_response) svc_act" where
  "deliverUpdates ctx api updates =
     (if \<not> list_all isWithinDepthLimit updates then retA depthExceeded
      else bindA (readNowMs ctx) (\<lambda>now.
           bindA (stageUpdates ctx api now updates noneStaged) (\<lambda>sg.
           bindA (projectStaged ctx now sg) (\<lambda>_.
           bindA (dispatchFresh ctx (sg_fresh sg) 0) (\<lambda>dispatched.
           retA (webhookAnswer ctx (length updates) sg dispatched))))))"

text \<open>\<open>handleWebhook\<close>: \<open>None\<close> while the body has not ended.\<close>

definition handleWebhook ::
  "('s, 't, 'f) runtime \<Rightarrow> ('jwk, jsval, unit) webhook_env \<Rightarrow> 'jwk provider option \<Rightarrow> service_request \<Rightarrow> ('s, 't, 'f) service_world
   \<Rightarrow> ((service_exn + webhook_response) \<times> ('s, 't, 'f) service_world) option" where
  "handleWebhook ctx env crypto rq w = (case rt_store ctx of
     None \<Rightarrow> map_option (\<lambda>(r, hw). (case r of Inl _ \<Rightarrow> Inl (CodeExn (ThrownError ''Error'')) | Inr resp \<Rightarrow> Inr resp, hw_facade hw))
       (fetchHandler (directEnv ctx env) (serviceAdapter ctx crypto) (toWebhookRequest rq) (hq_stream rq)
          \<lparr> hw_log = [], hw_calls = [], hw_facade = w \<rparr>)
   | Some api \<Rightarrow> map_option (\<lambda>(r, hw). case r of
         Inl _ \<Rightarrow> (Inl (CodeExn (ThrownError ''Error'')), w)
       | Inr response \<Rightarrow> if ws_status response \<noteq> 200 \<or> hw_calls hw = [] then (Inr response, w)
           else deliverUpdates ctx api (hw_calls hw) w)
       (fetchHandler (stagingEnv env) (serviceAdapter ctx crypto) (toWebhookRequest rq) (hq_stream rq)
          \<lparr> hw_log = [], hw_calls = [], hw_facade = () \<rparr>))"

subsection \<open>Interleaved deliveries\<close>

text \<open>A delivery stands before the next update to stage, before its projections, before the next update
  to dispatch, or it is over.\<close>

datatype hook_phase = Staging int "jsval list" staged | Projecting int staged | Dispatching "jsval list" | HookOver

record ('s, 't, 'f) hook_config =
  hc_phases :: "hook_phase list"
  hc_world :: "('s, 't, 'f) service_world"

definition hookTo :: "nat \<Rightarrow> hook_phase \<Rightarrow> ('s, 't, 'f) service_world \<Rightarrow> ('s, 't, 'f) hook_config \<Rightarrow> ('s, 't, 'f) hook_config" where
  "hookTo i p w c = c\<lparr>hc_phases := (hc_phases c)[i := p], hc_world := w\<rparr>"

definition afterStage :: "int \<Rightarrow> jsval list \<Rightarrow> service_exn + staged \<Rightarrow> hook_phase" where
  "afterStage now us r = (case r of Inl e \<Rightarrow> HookOver
     | Inr sg \<Rightarrow> if sg_failed sg \<or> us = [] then Projecting now sg else Staging now us sg)"

definition afterProjection :: "staged \<Rightarrow> service_exn + unit \<Rightarrow> hook_phase" where
  "afterProjection sg r = (case r of Inl e \<Rightarrow> HookOver | Inr _ \<Rightarrow> Dispatching (sg_fresh sg))"

inductive hookStep :: "('s, 't, 'f) runtime \<Rightarrow> 's store_api \<Rightarrow> ('s, 't, 'f) hook_config \<Rightarrow> ('s, 't, 'f) hook_config \<Rightarrow> bool"
  for ctx :: "('s, 't, 'f) runtime" and api :: "'s store_api" where
  stage: "i < length (hc_phases c) \<Longrightarrow> hc_phases c ! i = Staging now (u # us) sg \<Longrightarrow>
    stageUpdate ctx api now u sg (hc_world c) = (r, w) \<Longrightarrow> hookStep ctx api c (hookTo i (afterStage now us r) w c)"
| project: "i < length (hc_phases c) \<Longrightarrow> hc_phases c ! i = Projecting now sg \<Longrightarrow>
    projectStaged ctx now sg (hc_world c) = (r, w) \<Longrightarrow> hookStep ctx api c (hookTo i (afterProjection sg r) w c)"
| dispatch: "i < length (hc_phases c) \<Longrightarrow> hc_phases c ! i = Dispatching (u # us) \<Longrightarrow>
    dispatchOne ctx u (hc_world c) = (r, w) \<Longrightarrow> hookStep ctx api c (hookTo i (Dispatching us) w c)"

definition startHooks :: "(int \<times> jsval list) list \<Rightarrow> ('s, 't, 'f) service_world \<Rightarrow> ('s, 't, 'f) hook_config" where
  "startHooks deliveries w = \<lparr> hc_phases = map (\<lambda>(now, us). Staging now us noneStaged) deliveries, hc_world = w \<rparr>"

text \<open>The updates a phase still has to dispatch.\<close>

fun pendingOf :: "hook_phase \<Rightarrow> jsval list" where
  "pendingOf (Staging now us sg) = sg_fresh sg"
| "pendingOf (Projecting now sg) = sg_fresh sg"
| "pendingOf (Dispatching us) = us"
| "pendingOf HookOver = []"

definition keyed :: "('s, 't, 'f) runtime \<Rightarrow> string \<Rightarrow> jsval list \<Rightarrow> nat" where
  "keyed ctx k us = length (filter (\<lambda>u. dedupKeyOf ctx u = Some k) us)"

lemma keyed_append [simp]: "keyed ctx k (us @ vs) = keyed ctx k us + keyed ctx k vs"
  by (simp add: keyed_def)

lemma keyed_Cons: "keyed ctx k (u # us) = (if dedupKeyOf ctx u = Some k then 1 else 0) + keyed ctx k us"
  by (simp add: keyed_def)

lemma keyed_Nil [simp]: "keyed ctx k [] = 0"
  by (simp add: keyed_def)

definition pendingKeyed :: "('s, 't, 'f) runtime \<Rightarrow> string \<Rightarrow> hook_phase list \<Rightarrow> nat" where
  "pendingKeyed ctx k ps = (\<Sum>p \<leftarrow> ps. keyed ctx k (pendingOf p))"

lemma pendingKeyed_update:
  "i < length ps \<Longrightarrow> pendingKeyed ctx k (ps[i := p]) + keyed ctx k (pendingOf (ps ! i)) = pendingKeyed ctx k ps + keyed ctx k (pendingOf p)"
proof (induction ps arbitrary: i)
  case (Cons q ps)
  then show ?case by (cases i) (auto simp: pendingKeyed_def)
qed simp

text \<open>One round of the staging loop as a function of the keys recorded before it, and the updates of a
  delivery that are new: those without a key, and the first of each key not recorded before.\<close>

definition stagedWith :: "('s, 't, 'f) runtime \<Rightarrow> string set \<Rightarrow> jsval \<Rightarrow> staged \<Rightarrow> staged" where
  "stagedWith ctx K u sg = (case dedupKeyOf ctx u of
     None \<Rightarrow> sg\<lparr>sg_fresh := sg_fresh sg @ [u]\<rparr>
   | Some k \<Rightarrow> if k \<in> K then sg\<lparr>sg_deduped := sg_deduped sg @ [u]\<rparr> else sg\<lparr>sg_fresh := sg_fresh sg @ [u]\<rparr>)"

definition seenWith :: "('s, 't, 'f) runtime \<Rightarrow> string set \<Rightarrow> jsval \<Rightarrow> string set" where
  "seenWith ctx K u = (case dedupKeyOf ctx u of None \<Rightarrow> K | Some k \<Rightarrow> insert k K)"

fun newOnes :: "('s, 't, 'f) runtime \<Rightarrow> string set \<Rightarrow> jsval list \<Rightarrow> jsval list" where
  "newOnes ctx K [] = []"
| "newOnes ctx K (u # us) = (case dedupKeyOf ctx u of None \<Rightarrow> u # newOnes ctx K us
     | Some k \<Rightarrow> if k \<in> K then newOnes ctx K us else u # newOnes ctx (insert k K) us)"

fun keysWith :: "('s, 't, 'f) runtime \<Rightarrow> string set \<Rightarrow> jsval list \<Rightarrow> string set" where
  "keysWith ctx K [] = K"
| "keysWith ctx K (u # us) = keysWith ctx (seenWith ctx K u) us"

text \<open>The number of updates whose dispatch by the facade returns, and the facade's state after all of them.\<close>

fun dispatchesReturned :: "('s, 't, 'f) runtime \<Rightarrow> jsval list \<Rightarrow> 'f \<Rightarrow> nat \<times> 'f" where
  "dispatchesReturned ctx [] f = (0, f)"
| "dispatchesReturned ctx (u # us) f = (case rt_dispatch ctx u f of (r, f1) \<Rightarrow>
     (case dispatchesReturned ctx us f1 of (n, f2) \<Rightarrow> ((case r of Inl _ \<Rightarrow> n | Inr _ \<Rightarrow> Suc n), f2)))"

lemma keysWith_eq: "keysWith ctx K us = K \<union> {k. \<exists>u \<in> set us. dedupKeyOf ctx u = Some k}"
  by (induction us arbitrary: K) (auto simp: seenWith_def split: option.splits)

text \<open>What the service needs of its event ledger.\<close>

locale event_service = quiet_sink sink ready
  for sink :: "'t telemetry_sink" and ready :: "'t \<Rightarrow> bool" +
  fixes api :: "'s store_api" and keys_of :: "'s \<Rightarrow> string set"
  assumes event_recorded: "ap_recordWebhookEvent api (eventInput k ts) s = (Inr r, s') \<Longrightarrow>
      (r = EventRecorded \<longleftrightarrow> k \<notin> keys_of s) \<and> keys_of s' = insert k (keys_of s)"
    and event_error: "ap_recordWebhookEvent api (eventInput k ts) s = (Inl e, s') \<Longrightarrow> keys_of s' = keys_of s"
    and frame_record: "keys_of (snd (ap_recordMessage api i s)) = keys_of s"
    and frame_append: "keys_of (snd (ap_appendMessageStatus api i s)) = keys_of s"
    and frame_get: "keys_of (snd (ap_getMessage api i s)) = keys_of s"
begin

definition hooked :: "('s, 't, 'f) runtime \<Rightarrow> bool" where
  "hooked ctx = (rt_store ctx = Some api \<and> rt_sink ctx = sink)"

definition seen :: "('s, 't, 'f) service_world \<Rightarrow> string set" where
  "seen w = keys_of (sv_store w)"

text \<open>Steps that neither dispatch nor record an event, and keep the sink ready.\<close>

definition still :: "jsval list \<Rightarrow> string set \<Rightarrow> bool \<Rightarrow> ('s, 't, 'f) service_world \<Rightarrow> bool" where
  "still D K q w = (sv_dispatched w = D \<and> seen w = K \<and> (q \<longrightarrow> ready (sv_telemetry w)))"

lemma still_onStore:
  assumes "\<And>s. keys_of (snd (m s)) = keys_of s"
  shows "holdsA (still D K q) (onStore f m) (still D K q)"
  unfolding holdsA_def
proof (intro allI impI)
  fix w :: "('s, 't, 'c) service_world"
  assume w: "still D K q w"
  obtain r s' where "m (sv_store w) = (r, s')" by fastforce
  with assms [of "sv_store w"] w show "still D K q (snd (onStore f m w))"
    by (auto simp: onStore_def still_def seen_def split: sum.split)
qed

lemma still_onSink:
  assumes "\<And>t. ready t \<Longrightarrow> \<exists>t'. m t = (Inr (), t') \<and> ready t'"
  shows "holdsA (still D K q) (onSink m) (still D K q)"
  using assms by (fastforce simp: holdsA_def onSink_def still_def seen_def split: prod.splits sum.splits)

lemma still_reads: "holdsA (still D K q) (readNowMs ctx) (still D K q)" "holdsA (still D K q) (cryptoRandomId ctx) (still D K q)"
  by (simp_all add: holdsA_def readNowMs_def cryptoRandomId_def still_def seen_def)

lemma still_noteError: "holdsA (still D K q) (noteError e) (still D K q)"
  by (simp add: holdsA_def noteError_def modifyA_def still_def seen_def)

lemma still_records:
  assumes "hooked ctx"
  shows "holdsA (still D K q) (recordStore ctx api out) (still D K q)"
    "holdsA (still D K q) (onSink (recordWebhookNormalization (rt_sink ctx) k out)) (still D K q)"
  using assms by (auto simp: hooked_def recordStore_def intro!: still_onSink sink_quiet)

lemma still_bestEffort:
  "hooked ctx \<Longrightarrow> (\<And>s. keys_of (snd (m s)) = keys_of s) \<Longrightarrow> holdsA (still D K q) (bestEffort ctx api m) (still D K q)"
  unfolding bestEffort_def by (intro keeps_rules still_onStore still_records)

lemma still_inbound:
  assumes "hooked ctx"
  shows "holdsA (still D K q) (recordInboundProjection ctx u now) (still D K q)"
proof -
  have "holdsA (still D K q) (storeInbound ctx api wa f ty c) (still D K q)" for wa f ty c
    unfolding storeInbound_def
    by (intro keeps_rules still_onStore still_records still_reads frame_get frame_record assms)
  with assms show ?thesis
    by (auto simp: recordInboundProjection_def hooked_def split: option.split intro: holdsA_retA)
qed

lemma still_status:
  assumes "hooked ctx"
  shows "holdsA (still D K q) (recordStatusProjection ctx u now) (still D K q)"
proof -
  have "holdsA (still D K q) (bestEffort ctx api (ap_appendMessageStatus api i)) (still D K q)" for i
    by (intro still_bestEffort assms frame_append)
  with assms show ?thesis
    by (auto simp: recordStatusProjection_def hooked_def split: option.split intro: holdsA_retA)
qed

lemma still_projectStaged: "hooked ctx \<Longrightarrow> holdsA (still D K q) (projectStaged ctx now sg) (still D K q)"
  unfolding projectStaged_def projectUpdate_def
  by (intro keeps_rules still_records still_inbound still_status)

text \<open>A dispatch appends its update to the log.\<close>

lemma dispatch_logs:
  fixes ctx :: "('s, 't, 'f) runtime"
  assumes "hooked ctx" "still D K q w"
  shows "\<exists>n w'. dispatchOne ctx u w = (Inr n, w') \<and> still (D @ [u]) K q w'"
proof -
  obtain r w1 where c: "callFacade ctx u w = (r, w1)" by fastforce
  with assms(2) have w1: "still (D @ [u]) K q w1"
    by (auto simp: callFacade_def still_def seen_def split: prod.splits sum.splits)
  let ?rest = "\<lambda>errs. bindA (case errs of [] \<Rightarrow> retA () | e # _ \<Rightarrow> noteError e) (\<lambda>_.
           onSink (recordWebhookNormalization (rt_sink ctx) (updateKind u) (if errs \<noteq> [] then ''error'' else ''success'')))"
  let ?catch = "\<lambda>e. bindA (onSink (recordWebhookNormalization (rt_sink ctx) (updateKind u) ''error'')) (\<lambda>_.
           bindA (noteError (thrownOf e)) (\<lambda>_. failA e :: ('s, 't, 'f, unit) svc_act))"
  have rest: "holdsA (still (D @ [u]) K q) (?rest errs) (still (D @ [u]) K q)" for errs
    by (intro keeps_rules still_records assms(1)) (auto split: list.split intro: keeps_rules still_noteError)
  have catch: "holdsA (still (D @ [u]) K q) (?catch e) (still (D @ [u]) K q)" for e
    by (intro keeps_rules still_records still_noteError assms(1))
  have "still (D @ [u]) K q (snd (instrumentedDispatch ctx u w))"
  proof (cases r)
    case (Inl e)
    then have "instrumentedDispatch ctx u w = ?catch e w1" using c by (simp add: instrumentedDispatch_def tryA_def bindA_def)
    with catch [of e] w1 show ?thesis by (simp add: holdsA_def)
  next
    case (Inr errs)
    obtain r2 w2 where r2: "?rest errs w1 = (r2, w2)" by fastforce
    have w2: "still (D @ [u]) K q w2" by (rule holdsA_D [OF rest w1 r2])
    have "instrumentedDispatch ctx u w = (case r2 of Inl e \<Rightarrow> ?catch e w2 | Inr a \<Rightarrow> (Inr a, w2))"
    proof -
      from c Inr have ret: "callFacade ctx u w = (Inr errs, w1)" by simp
      have "bindA (callFacade ctx u) ?rest w = (r2, w2)"
        by (rule trans, rule bindA_ret, rule ret, rule r2)
      then show ?thesis
        unfolding instrumentedDispatch_def tryA_def by (simp only: prod.case split: sum.split)
    qed
    with catch w2 show ?thesis by (auto simp: holdsA_def split: sum.split)
  qed
  moreover obtain x w2 where x: "instrumentedDispatch ctx u w = (x, w2)" by fastforce
  ultimately have "still (D @ [u]) K q w2" by simp
  moreover have "dispatchOne ctx u w = (Inr (case x of Inl e \<Rightarrow> 0 | Inr a \<Rightarrow> 1), w2)"
    by (simp add: dispatchOne_def tryA_def bindA_def x retA_def split: sum.split)
  ultimately show ?thesis by blast
qed

lemma dispatchOne_le: "dispatchOne ctx u w = (Inr n, w') \<Longrightarrow> n \<le> 1"
  by (auto simp: dispatchOne_def tryA_def bindA_def retA_def split: prod.splits sum.splits)

text \<open>One round of the staging loop.\<close>

lemma store_record:
  fixes ctx :: "('s, 't, 'f) runtime"
  assumes "hooked ctx" "still D K q w" "recordStore ctx api out w = (r, w')"
  shows "still D K q w' \<and> (q \<longrightarrow> r = Inr ())"
proof -
  have "still D K q w'" using still_records(1) [OF assms(1), of D K q out] assms(2,3) by (metis holdsA_D)
  moreover have "r = Inr ()" if "q"
  proof -
    from that assms(2) have "ready (sv_telemetry w)" by (simp add: still_def)
    then obtain t where "recordPersistenceOperation sink (ap_backend api) out (sv_telemetry w) = (Inr (), t)"
      using recordPersistenceOperation_quiet by blast
    with assms(1,3) show ?thesis by (auto simp: recordStore_def hooked_def onSink_def)
  qed
  ultimately show ?thesis by blast
qed

lemma stageUpdate_cases:
  fixes ctx :: "('s, 't, 'f) runtime"
  assumes h: "hooked ctx" and w: "still D K q w" and r: "stageUpdate ctx api now u sg w = (r, w')"
  shows "still D (seenWith ctx K u) q w' \<and> r = Inr (stagedWith ctx K u sg)
    \<or> (still D K q w' \<or> \<not> q \<and> still D (seenWith ctx K u) q w')
      \<and> dedupKeyOf ctx u \<noteq> None \<and> (r = Inr (sg\<lparr>sg_failed := True\<rparr>) \<or> \<not> q \<and> (\<exists>e. r = Inl e))"
proof (cases "dedupKeyOf ctx u")
  case None
  with w r show ?thesis by (simp add: stageUpdate_def retA_def seenWith_def stagedWith_def)
next
  case (Some k)
  let ?ev = "eventInput k (isoText now)"
  let ?fail = "\<lambda>(_ :: service_exn). bindA (recordStore ctx api ''error'') (\<lambda>_. retA (sg\<lparr>sg_failed := True\<rparr>))"
  have fail: "still D K' q w' \<and> (r = Inr (sg\<lparr>sg_failed := True\<rparr>) \<or> \<not> q \<and> (\<exists>e. r = Inl e))"
    if "?fail e v = (r, w')" "still D K' q v" for K' e v
  proof -
    obtain a v' where a: "recordStore ctx api ''error'' v = (a, v')" by fastforce
    with store_record [OF h that(2) a] that(1) show ?thesis
      by (cases a) (auto simp: bindA_def retA_def)
  qed
  obtain a s' where a: "ap_recordWebhookEvent api ?ev (sv_store w) = (a, s')" by fastforce
  show ?thesis
  proof (cases a)
    case (Inl e)
    then have "?fail (StoreExn (StoreRaised e)) (w\<lparr>sv_store := s'\<rparr>) = (r, w')"
      using r Some a by (simp add: stageUpdate_def tryA_def bindA_def onStore_def)
    moreover have "still D K q (w\<lparr>sv_store := s'\<rparr>)"
      using event_error [of k "isoText now" "sv_store w" e s'] a Inl w by (simp add: still_def seen_def)
    ultimately show ?thesis using fail Some by blast
  next
    case (Inr b)
    let ?v = "w\<lparr>sv_store := s'\<rparr>"
    have ev: "(b = EventRecorded \<longleftrightarrow> k \<notin> K) \<and> still D (seenWith ctx K u) q ?v"
      using event_recorded [of k "isoText now" "sv_store w" b s'] a Inr w Some by (simp add: still_def seen_def seenWith_def)
    obtain c v' where c: "recordStore ctx api ''success'' ?v = (c, v')" by fastforce
    have v': "still D (seenWith ctx K u) q v' \<and> (q \<longrightarrow> c = Inr ())"
      using store_record [OF h _ c] ev by blast
    show ?thesis
    proof (cases c)
      case (Inl e)
      then have "?fail e v' = (r, w')"
        using r Some a Inr c by (simp add: stageUpdate_def tryA_def bindA_def onStore_def)
      with fail v' Inl Some show ?thesis by blast
    next
      case (Inr d)
      then have "r = Inr (stagedWith ctx K u sg)" "w' = v'"
        using r Some a \<open>a = Inr b\<close> c ev
        by (cases b; simp add: stageUpdate_def tryA_def bindA_def onStore_def retA_def stagedWith_def)+
      with v' show ?thesis by blast
    qed
  qed
qed

text \<open>Each key is dispatched, or about to be, at most once, and only after it was first recorded.\<close>

definition hookInv :: "('s, 't, 'f) runtime \<Rightarrow> jsval list \<Rightarrow> string set \<Rightarrow> ('s, 't, 'f) hook_config \<Rightarrow> bool" where
  "hookInv ctx D0 K0 c = (\<exists>D K. still (D0 @ D) K False (hc_world c) \<and> K0 \<subseteq> K \<and>
     (\<forall>k. keyed ctx k D + pendingKeyed ctx k (hc_phases c) \<le> (if k \<in> K - K0 then 1 else 0)))"

lemma hookInv_start: "hookInv ctx (sv_dispatched w) (seen w) (startHooks ds w)"
proof -
  have "pendingKeyed ctx k (hc_phases (startHooks ds w)) = 0" for k
    by (induction ds) (auto simp: pendingKeyed_def startHooks_def noneStaged_def)
  then show ?thesis
    unfolding hookInv_def
    by (intro exI [of _ "[]"] exI [of _ "seen w"]) (simp add: still_def startHooks_def)
qed

lemma hookInv_to:
  fixes ctx :: "('s, 't, 'f) runtime"
  assumes inv: "still (D0 @ D) K False (hc_world c)" "K0 \<subseteq> K"
      "\<And>k. keyed ctx k D + pendingKeyed ctx k (hc_phases c) \<le> (if k \<in> K - K0 then 1 else 0)"
    and i: "i < length (hc_phases c)"
    and to: "still (D0 @ D @ E) K' False w" "K \<subseteq> K'"
      "\<And>k. keyed ctx k E + keyed ctx k (pendingOf p) \<le> keyed ctx k (pendingOf (hc_phases c ! i)) + (if k \<in> K' - K then 1 else 0)"
  shows "hookInv ctx D0 K0 (hookTo i p w c)"
proof -
  have "keyed ctx k (D @ E) + pendingKeyed ctx k ((hc_phases c)[i := p]) \<le> (if k \<in> K' - K0 then 1 else 0)" for k
  proof -
    note u = pendingKeyed_update [OF i, of ctx k p]
    have "(if k \<in> K - K0 then 1 else 0) + (if k \<in> K' - K then 1 else 0) \<le> (if k \<in> K' - K0 then 1 else (0 :: nat))"
      using inv(2) to(2) by auto
    with u inv(3) [of k] to(3) [of k] show ?thesis unfolding keyed_append by linarith
  qed
  with to(1,2) inv(2) show ?thesis
    unfolding hookInv_def
    by (intro exI [of _ "D @ E"] exI [of _ K']) (auto simp: hookTo_def)
qed

lemma keyed_staged:
  "keyed ctx k (sg_fresh (stagedWith ctx K u sg)) \<le> keyed ctx k (sg_fresh sg) + (if k \<in> seenWith ctx K u - K then 1 else 0)"
  by (auto simp: stagedWith_def seenWith_def keyed_Cons split: option.split)

lemma seenWith_mono: "K \<subseteq> seenWith ctx K u"
  by (auto simp: seenWith_def split: option.split)

lemma hookInv_step:
  fixes ctx :: "('s, 't, 'f) runtime"
  assumes h: "hooked ctx" and inv: "hookInv ctx D0 K0 c" and step: "hookStep ctx api c c'"
  shows "hookInv ctx D0 K0 c'"
proof -
  from inv obtain D K where I: "still (D0 @ D) K False (hc_world c)" "K0 \<subseteq> K"
      "\<And>k. keyed ctx k D + pendingKeyed ctx k (hc_phases c) \<le> (if k \<in> K - K0 then 1 else 0)"
    unfolding hookInv_def by blast
  from step show ?thesis
  proof cases
    case (stage i now u us sg r w)
    let ?ph = "afterStage now us r"
    have to: "\<exists>K'. still (D0 @ D @ []) K' False w \<and> K \<subseteq> K' \<and>
        (\<forall>k. keyed ctx k [] + keyed ctx k (pendingOf ?ph) \<le> keyed ctx k (sg_fresh sg) + (if k \<in> K' - K then 1 else 0))"
    proof (cases "still (D0 @ D) (seenWith ctx K u) False w \<and> r = Inr (stagedWith ctx K u sg)")
      case True
      then show ?thesis
        using keyed_staged [of ctx _ K u sg] seenWith_mono [of K ctx u]
        by (intro exI [of _ "seenWith ctx K u"]) (auto simp: afterStage_def)
    next
      case False
      with stageUpdate_cases [OF h I(1) stage(4)]
      obtain K' where "still (D0 @ D) K' False w" "K' \<in> {K, seenWith ctx K u}"
          "r = Inr (sg\<lparr>sg_failed := True\<rparr>) \<or> (\<exists>e. r = Inl e)" by blast
      then show ?thesis
        using seenWith_mono [of K ctx u] by (intro exI [of _ K']) (auto simp: afterStage_def)
    qed
    then obtain K' where "still (D0 @ D @ []) K' False w" "K \<subseteq> K'"
        "\<And>k. keyed ctx k [] + keyed ctx k (pendingOf ?ph) \<le> keyed ctx k (sg_fresh sg) + (if k \<in> K' - K then 1 else 0)"
      by blast
    with stage(1,2,3) show ?thesis using hookInv_to [OF I, of i "[]" K' w ?ph] by simp
  next
    case (project i now sg r w)
    have "still (D0 @ D) K False w" by (rule holdsA_D [OF still_projectStaged [OF h] I(1) project(4)])
    with project(1,2,3) show ?thesis
      using hookInv_to [OF I, of i "[]" K w "afterProjection sg r"] by (auto simp: afterProjection_def split: sum.split)
  next
    case (dispatch i u us r w)
    have "still ((D0 @ D) @ [u]) K False w" using dispatch_logs [OF h I(1), of u] dispatch(4) by auto
    with dispatch(1,2,3) show ?thesis
      using hookInv_to [OF I, of i "[u]" K w "Dispatching us"] by (simp add: keyed_Cons)
  qed
qed

lemma hooks_at_most_once:
  fixes ctx :: "('s, 't, 'f) runtime"
  assumes h: "hooked ctx" and run: "(hookStep ctx api)\<^sup>*\<^sup>* (startHooks ds w) c"
  shows "\<exists>D. sv_dispatched (hc_world c) = sv_dispatched w @ D \<and>
    keyed ctx k D \<le> (if k \<in> seen (hc_world c) - seen w then 1 else 0)"
proof -
  have "hookInv ctx (sv_dispatched w) (seen w) c"
    using run by (induction rule: rtranclp_induct) (auto intro: hookInv_start hookInv_step [OF h])
  then obtain D K where "still (sv_dispatched w @ D) K False (hc_world c)"
      "keyed ctx k D + pendingKeyed ctx k (hc_phases c) \<le> (if k \<in> K - seen w then 1 else 0)"
    unfolding hookInv_def by blast
  then show ?thesis by (intro exI [of _ D]) (auto simp: still_def split: if_splits)
qed

text \<open>The staging loop: it stops at the first update the store refuses.\<close>

lemma stageUpdates_run:
  fixes ctx :: "('s, 't, 'f) runtime"
  assumes h: "hooked ctx"
  shows "still D K True w \<Longrightarrow> \<not> sg_failed sg \<Longrightarrow>
    \<exists>j sg' w'. j \<le> length us \<and> stageUpdates ctx api now us sg w = (Inr sg', w') \<and> still D (keysWith ctx K (take j us)) True w'
      \<and> sg_failed sg' = (j < length us) \<and> sg_fresh sg' = sg_fresh sg @ newOnes ctx K (take j us)
      \<and> length (sg_deduped sg') + length (newOnes ctx K (take j us)) = length (sg_deduped sg) + j"
proof (induction us arbitrary: K sg w)
  case Nil
  then show ?case by (simp add: retA_def)
next
  case (Cons u us)
  obtain r w1 where r: "stageUpdate ctx api now u sg w = (r, w1)" by fastforce
  have run: "stageUpdates ctx api now (u # us) sg w = (case r of Inl e \<Rightarrow> (Inl e, w1)
    | Inr sg1 \<Rightarrow> if sg_failed sg1 then (Inr sg1, w1) else stageUpdates ctx api now us sg1 w1)"
    using r by (simp add: bindA_def split: sum.split)
  from stageUpdate_cases [OF h Cons.prems(1) r]
  consider "still D (seenWith ctx K u) True w1" "r = Inr (stagedWith ctx K u sg)"
    | "still D K True w1" "r = Inr (sg\<lparr>sg_failed := True\<rparr>)" by blast
  then show ?case
  proof cases
    case 1
    have f: "\<not> sg_failed (stagedWith ctx K u sg)"
      using Cons.prems(2) by (simp add: stagedWith_def split: option.split)
    from Cons.IH [OF 1(1) f] obtain j sg' w' where j: "j \<le> length us"
      "stageUpdates ctx api now us (stagedWith ctx K u sg) w1 = (Inr sg', w')"
      "still D (keysWith ctx (seenWith ctx K u) (take j us)) True w'" "sg_failed sg' = (j < length us)"
      "sg_fresh sg' = sg_fresh (stagedWith ctx K u sg) @ newOnes ctx (seenWith ctx K u) (take j us)"
      "length (sg_deduped sg') + length (newOnes ctx (seenWith ctx K u) (take j us)) = length (sg_deduped (stagedWith ctx K u sg)) + j"
      by blast
    have "newOnes ctx K (u # take j us) = (if sg_fresh (stagedWith ctx K u sg) = sg_fresh sg then [] else [u]) @
        newOnes ctx (seenWith ctx K u) (take j us)"
      by (auto simp: stagedWith_def seenWith_def insert_absorb split: option.split)
    moreover have "sg_fresh (stagedWith ctx K u sg) = sg_fresh sg @ (if sg_fresh (stagedWith ctx K u sg) = sg_fresh sg then [] else [u])"
      "length (sg_deduped (stagedWith ctx K u sg)) + (if sg_fresh (stagedWith ctx K u sg) = sg_fresh sg then 0 else 1) = Suc (length (sg_deduped sg))"
      by (simp_all add: stagedWith_def split: option.split)
    ultimately show ?thesis using run 1(2) f j
      by (intro exI [of _ "Suc j"] exI [of _ sg'] exI [of _ w']) (auto split: if_splits)
  next
    case 2
    with run show ?thesis
      by (intro exI [of _ 0] exI [of _ "sg\<lparr>sg_failed := True\<rparr>"] exI [of _ w1]) simp
  qed
qed

text \<open>With a ready sink the projections come to their end.\<close>

definition gentle :: "('s, 't, 'f, 'a) svc_act \<Rightarrow> bool" where
  "gentle m = (\<forall>D K w. still D K True w \<longrightarrow> (\<exists>a w'. m w = (Inr a, w') \<and> still D K True w'))"

lemma gentleD:
  assumes "gentle m" "still D K True w"
  obtains a w' where "m w = (Inr a, w')" "still D K True w'"
  using assms unfolding gentle_def by blast

lemma gentle_retA: "gentle (retA a)"
  by (simp add: gentle_def)

lemma gentle_bindA:
  fixes m :: "('s, 't, 'f, 'a) svc_act"
  assumes "gentle m" "\<And>a. gentle (f a)"
  shows "gentle (bindA m f)"
  unfolding gentle_def
proof (intro allI impI)
  fix D K and w :: "('s, 't, 'f) service_world"
  assume w: "still D K True w"
  obtain a w1 where 1: "m w = (Inr a, w1)" "still D K True w1" by (rule gentleD [OF assms(1) w])
  obtain b w2 where 2: "f a w1 = (Inr b, w2)" "still D K True w2" by (rule gentleD [OF assms(2) 1(2)])
  with 1 show "\<exists>b w'. bindA m f w = (Inr b, w') \<and> still D K True w'" by (simp add: bindA_def)
qed

lemma gentle_tryA:
  fixes m :: "('s, 't, 'f, 'a) svc_act"
  assumes "\<And>D K. holdsA (still D K True) m (still D K True)" "\<And>e. gentle (h e)"
  shows "gentle (tryA m h)"
  unfolding gentle_def
proof (intro allI impI)
  fix D K and w :: "('s, 't, 'f) service_world"
  assume w: "still D K True w"
  obtain r w1 where r: "m w = (r, w1)" by fastforce
  have w1: "still D K True w1" by (rule holdsA_D [OF assms(1) w r])
  show "\<exists>b w'. tryA m h w = (Inr b, w') \<and> still D K True w'"
  proof (cases r)
    case (Inl e)
    obtain b w2 where "h e w1 = (Inr b, w2)" "still D K True w2" by (rule gentleD [OF assms(2) w1])
    with r Inl show ?thesis by (simp add: tryA_def)
  next
    case (Inr a)
    with r w1 show ?thesis by (simp add: tryA_def)
  qed
qed

lemma gentle_forA: "(\<And>x. gentle (f x)) \<Longrightarrow> gentle (forA xs f)"
  by (induction xs) (auto intro: gentle_retA gentle_bindA)

lemma gentle_records:
  assumes "hooked ctx"
  shows "gentle (recordStore ctx api out)" "gentle (onSink (recordWebhookNormalization (rt_sink ctx) k out))"
proof -
  show "gentle (recordStore ctx api out)"
    using store_record [OF assms, of _ _ True _ out] unfolding gentle_def by (metis surj_pair)
  show "gentle (onSink (recordWebhookNormalization (rt_sink ctx) k out))"
    unfolding gentle_def
  proof (intro allI impI)
    fix D K w
    assume "still D K True w"
    moreover from this obtain t where "recordWebhookNormalization sink k out (sv_telemetry w) = (Inr (), t)" "ready t"
      using recordWebhookNormalization_quiet [of "sv_telemetry w" k out] by (auto simp: still_def)
    ultimately show "\<exists>a w'. onSink (recordWebhookNormalization (rt_sink ctx) k out) w = (Inr a, w') \<and> still D K True w'"
      using assms by (simp add: hooked_def onSink_def still_def seen_def)
  qed
qed

lemma gentle_projectStaged:
  assumes "hooked ctx"
  shows "gentle (projectStaged ctx now sg)"
proof -
  have inbound: "gentle (storeInbound ctx api wa f ty c)" for wa f ty c
    unfolding storeInbound_def
    by (rule gentle_tryA)
       (intro keeps_rules still_onStore still_records still_reads frame_get frame_record gentle_records assms)+
  have best: "gentle (bestEffort ctx api (ap_appendMessageStatus api i))" for i
    unfolding bestEffort_def
    by (rule gentle_tryA) (intro keeps_rules still_onStore still_records frame_append gentle_records assms)+
  have "gentle (recordInboundProjection ctx u now)" "gentle (recordStatusProjection ctx u now)" for u
    using assms inbound best
    by (auto simp: recordInboundProjection_def recordStatusProjection_def hooked_def split: option.split intro: gentle_retA)
  then show ?thesis
    unfolding projectStaged_def projectUpdate_def
    by (intro gentle_bindA gentle_forA gentle_records assms)
qed

text \<open>Only a dispatch touches the facade.\<close>

definition facadeIs :: "'f \<Rightarrow> ('s, 't, 'f) service_world \<Rightarrow> bool" where
  "facadeIs f w = (sv_facade w = f)"

lemma facade_primitives:
  "holdsA (facadeIs f) (onStore e m) (facadeIs f)" "holdsA (facadeIs f) (onSink n) (facadeIs f)"
  "holdsA (facadeIs f) (readNowMs ctx) (facadeIs f)" "holdsA (facadeIs f) (cryptoRandomId ctx) (facadeIs f)"
  "holdsA (facadeIs f) (noteError x) (facadeIs f)" "holdsA (facadeIs f) (recordStore ctx st out) (facadeIs f)"
  by (auto simp: holdsA_def facadeIs_def onStore_def onSink_def readNowMs_def cryptoRandomId_def noteError_def
      modifyA_def recordStore_def split: prod.splits sum.splits)

lemma facade_stageUpdates: "holdsA (facadeIs f) (stageUpdates ctx st now us sg) (facadeIs f)"
proof (induction us arbitrary: sg)
  case (Cons u us)
  have "holdsA (facadeIs f) (stageUpdate ctx st now u sg') (facadeIs f)" for sg'
    by (cases "dedupKeyOf ctx u") (auto simp: stageUpdate_def intro!: keeps_rules facade_primitives)
  with Cons show ?case by (auto intro!: keeps_rules)
qed (auto intro: keeps_rules)

lemma facade_projectStaged: "holdsA (facadeIs f) (projectStaged ctx now sg) (facadeIs f)"
proof -
  have "holdsA (facadeIs f) (storeInbound ctx st wa ph ty cr) (facadeIs f)"
    "holdsA (facadeIs f) (bestEffort ctx st m) (facadeIs f)" for st wa ph ty cr m
    unfolding storeInbound_def bestEffort_def by (intro keeps_rules facade_primitives)+
  then have "holdsA (facadeIs f) (recordInboundProjection ctx u now) (facadeIs f)"
    "holdsA (facadeIs f) (recordStatusProjection ctx u now) (facadeIs f)" for u
    by (auto simp: recordInboundProjection_def recordStatusProjection_def split: option.split intro: holdsA_retA)
  then show ?thesis
    unfolding projectStaged_def projectUpdate_def by (intro keeps_rules facade_primitives)
qed

text \<open>A dispatch counts exactly when the facade returned.\<close>

lemma dispatch_counts:
  fixes ctx :: "('s, 't, 'f) runtime"
  assumes h: "hooked ctx" and w: "still D K True w" and d: "rt_dispatch ctx u (sv_facade w) = (q, f')"
  shows "\<exists>w'. dispatchOne ctx u w = (Inr (case q of Inl _ \<Rightarrow> 0 | Inr _ \<Rightarrow> 1), w')
    \<and> still (D @ [u]) K True w' \<and> sv_facade w' = f'"
proof -
  let ?w1 = "w\<lparr>sv_facade := f', sv_dispatched := sv_dispatched w @ [u]\<rparr>"
  have w1: "still (D @ [u]) K True ?w1" using w by (simp add: still_def seen_def)
  have noted: "gentle (noteError e)" "holdsA (facadeIs f') (noteError e) (facadeIs f')" for e
    by (auto simp: gentle_def noteError_def modifyA_def still_def seen_def holdsA_def facadeIs_def)
  have f1: "facadeIs f' ?w1" by (simp add: facadeIs_def)
  show ?thesis
  proof (cases q)
    case (Inl e)
    let ?warn = "bindA (onSink (recordWebhookNormalization (rt_sink ctx) (updateKind u) ''error'')) (\<lambda>_.
           noteError (thrownOf (CodeExn e)))"
    have "gentle ?warn" by (intro gentle_bindA gentle_records h noted)
    then obtain a w2 where r: "?warn ?w1 = (Inr a, w2)" "still (D @ [u]) K True w2" using w1 by (rule gentleD)
    have fa: "holdsA (facadeIs f') ?warn (facadeIs f')" by (intro keeps_rules facade_primitives noted)
    have "facadeIs f' w2" by (rule holdsA_D [OF fa f1 r(1)])
    moreover have "dispatchOne ctx u w = (Inr 0, w2)"
      using r(1) d Inl
      by (auto simp: dispatchOne_def instrumentedDispatch_def callFacade_def tryA_def bindA_def failA_def retA_def
          split: prod.splits sum.splits)
    ultimately show ?thesis using r(2) Inl by (auto simp: facadeIs_def)
  next
    case (Inr errs)
    let ?rest = "bindA (case errs of [] \<Rightarrow> retA () | e # _ \<Rightarrow> noteError e) (\<lambda>_.
           onSink (recordWebhookNormalization (rt_sink ctx) (updateKind u) (if errs \<noteq> [] then ''error'' else ''success'')))"
    have "gentle ?rest" by (intro gentle_bindA gentle_records h) (auto split: list.split intro: gentle_retA noted)
    then obtain a w2 where r: "?rest ?w1 = (Inr a, w2)" "still (D @ [u]) K True w2" using w1 by (rule gentleD)
    have fa: "holdsA (facadeIs f') ?rest (facadeIs f')"
      by (intro keeps_rules facade_primitives) (auto split: list.split intro: keeps_rules noted)
    have "facadeIs f' w2" by (rule holdsA_D [OF fa f1 r(1)])
    moreover have c: "callFacade ctx u w = (Inr errs, ?w1)" using d Inr by (simp add: callFacade_def)
    have "bindA (callFacade ctx u) (\<lambda>errs. bindA (case errs of [] \<Rightarrow> retA () | e # _ \<Rightarrow> noteError e) (\<lambda>_.
           onSink (recordWebhookNormalization (rt_sink ctx) (updateKind u) (if errs \<noteq> [] then ''error'' else ''success'')))) w
        = (Inr a, w2)"
      by (rule trans, rule bindA_ret, rule c, rule r(1))
    then have "dispatchOne ctx u w = (Inr 1, w2)"
      unfolding dispatchOne_def instrumentedDispatch_def by (simp add: tryA_def bindA_def [of "\<lambda>s. _ s"] retA_def)
    ultimately show ?thesis using r(2) Inr by (auto simp: facadeIs_def)
  qed
qed

lemma dispatchFresh_run:
  fixes ctx :: "('s, 't, 'f) runtime"
  assumes h: "hooked ctx"
  shows "still D K True w \<Longrightarrow> \<exists>w'. dispatchFresh ctx us n w = (Inr (n + fst (dispatchesReturned ctx us (sv_facade w))), w')
    \<and> still (D @ us) K True w' \<and> sv_facade w' = snd (dispatchesReturned ctx us (sv_facade w))"
proof (induction us arbitrary: D n w)
  case Nil
  then show ?case by (simp add: retA_def)
next
  case (Cons u us)
  obtain q f1 where q: "rt_dispatch ctx u (sv_facade w) = (q, f1)" by fastforce
  from dispatch_counts [OF h Cons.prems q] obtain w1 where
    k: "dispatchOne ctx u w = (Inr (case q of Inl _ \<Rightarrow> 0 | Inr _ \<Rightarrow> 1), w1)" "still (D @ [u]) K True w1" "sv_facade w1 = f1"
    by blast
  from Cons.IH [OF k(2), of "n + (case q of Inl _ \<Rightarrow> 0 | Inr _ \<Rightarrow> 1)"] k(1,3) q show ?case
    by (auto simp: bindA_def split: prod.splits sum.splits)
qed

text \<open>The delivery as a whole.\<close>

lemma deliverUpdates_run:
  fixes ctx :: "('s, 't, 'f) runtime"
  assumes h: "hooked ctx" and w: "still D K True w" and depth: "list_all isWithinDepthLimit us"
  shows "\<exists>j resp w'. j \<le> length us \<and> deliverUpdates ctx api us w = (Inr resp, w')
    \<and> still (D @ newOnes ctx K (take j us)) (keysWith ctx K (take j us)) True w'
    \<and> sv_facade w' = snd (dispatchesReturned ctx (newOnes ctx K (take j us)) (sv_facade w))
    \<and> (if j < length us then resp = dedupUnavailable
        else resp = svcJsonResponse ctx 200 (summaryPayload (length us)
          (fst (dispatchesReturned ctx (newOnes ctx K us) (sv_facade w))) (length us - length (newOnes ctx K us))) [])"
proof -
  obtain now w1 where now: "readNowMs ctx w = (Inr now, w1)" by (simp add: readNowMs_def)
  have w1: "still D K True w1" by (rule holdsA_D [OF still_reads(1) w now])
  obtain j sg w2 where sg: "j \<le> length us" "stageUpdates ctx api now us noneStaged w1 = (Inr sg, w2)"
      "still D (keysWith ctx K (take j us)) True w2" "sg_failed sg = (j < length us)"
      "sg_fresh sg = newOnes ctx K (take j us)" "length (sg_deduped sg) + length (newOnes ctx K (take j us)) = j"
    using stageUpdates_run [OF h w1, of noneStaged us now] by (auto simp: noneStaged_def)
  obtain a w3 where pr: "projectStaged ctx now sg w2 = (Inr a, w3)" "still D (keysWith ctx K (take j us)) True w3"
    by (rule gentleD [OF gentle_projectStaged [OF h] sg(3)])
  have "facadeIs (sv_facade w) w" by (simp add: facadeIs_def)
  from holdsA_D [OF facade_primitives(3) this now] have "facadeIs (sv_facade w) w1" .
  from holdsA_D [OF facade_stageUpdates this sg(2)] have "facadeIs (sv_facade w) w2" .
  from holdsA_D [OF facade_projectStaged this pr(1)] have f3: "sv_facade w3 = sv_facade w" by (simp add: facadeIs_def)
  define m where "m = fst (dispatchesReturned ctx (sg_fresh sg) (sv_facade w))"
  obtain w4 where di: "dispatchFresh ctx (sg_fresh sg) 0 w3 = (Inr m, w4)"
      "still (D @ sg_fresh sg) (keysWith ctx K (take j us)) True w4"
      "sv_facade w4 = snd (dispatchesReturned ctx (sg_fresh sg) (sv_facade w))"
    using dispatchFresh_run [OF h pr(2), of "sg_fresh sg" 0] by (auto simp: f3 m_def)
  have "deliverUpdates ctx api us w = (Inr (webhookAnswer ctx (length us) sg m), w4)"
    using depth now sg(2) pr(1) di(1) by (simp add: deliverUpdates_def bindA_def)
  moreover have "length (sg_deduped sg) = j - length (newOnes ctx K (take j us))" using sg(6) by simp
  ultimately show ?thesis using sg di
    by (intro exI [of _ j] exI [of _ "webhookAnswer ctx (length us) sg m"] exI [of _ w4])
      (auto simp: webhookAnswer_def m_def)
qed

end

subsection \<open>The SQLite store\<close>

definition recordedKeys :: "store \<Rightarrow> string set" where
  "recordedKeys s = eventKey ` set (events (db s))"

lemma validate_eventInput: "validateWebhookEventRecord (eventInput k ts) = Inr e \<Longrightarrow> eventKey e = k"
  by (auto simp: validateWebhookEventRecord_def eventInput_def jsObject_def validateRecordInput_def isRecord_def res_iff)

lemma getMessage_rows: "ledgerRows (db (snd (getMessage i s))) = ledgerRows (db s)"
proof -
  have "holdsA (rowsAre R) (getMessage i) (rowsAre R)" for R
    unfolding getMessage_def
    by (intro rowsAre_sql rowsAre_assertOpen keepsRows_statements keeps_rules)
  then show ?thesis by (simp add: holdsA_def rowsAre_def)
qed

interpretation hk: event_service "runtimeSink nt user" "\<lambda>s. standardRegistry (tm_registry s)" sqliteApi recordedKeys
  for nt :: "rat \<Rightarrow> string" and user :: "'u telemetry_sink option"
proof unfold_locales
  fix k ts s r s'
  assume "ap_recordWebhookEvent sqliteApi (eventInput k ts) s = (Inr r, s')"
  then have run: "recordWebhookEvent (eventInput k ts) s = (Inr r, s')" by (simp add: sqliteApi_def)
  show "(r = EventRecorded \<longleftrightarrow> k \<notin> recordedKeys s) \<and> recordedKeys s' = insert k (recordedKeys s)"
    using recordWebhookEvent_run [of s "eventInput k ts"] validate_eventInput [of k ts]
    by (cases r) (auto simp: run recordedKeys_def)
next
  fix k ts s e s'
  assume "ap_recordWebhookEvent sqliteApi (eventInput k ts) s = (Inl e, s')"
  then show "recordedKeys s' = recordedKeys s"
    using recordWebhookEvent_run [of s "eventInput k ts"] by (simp add: sqliteApi_def recordedKeys_def)
next
  fix i s
  show "recordedKeys (snd (ap_recordMessage sqliteApi i s)) = recordedKeys s"
    using recordMessage_rows [of i s] by (simp add: sqliteApi_def recordedKeys_def ledgerRows_def)
next
  fix i s
  show "recordedKeys (snd (ap_appendMessageStatus sqliteApi i s)) = recordedKeys s"
    using appendMessageStatus_rows [of i s] by (simp add: sqliteApi_def recordedKeys_def ledgerRows_def)
next
  fix i s
  show "recordedKeys (snd (ap_getMessage sqliteApi i s)) = recordedKeys s"
    using getMessage_rows [of i s] by (simp add: sqliteApi_def recordedKeys_def ledgerRows_def)
qed

subsection \<open>A delivery is a schedule of its stages\<close>

lemma hookTo_0: "hookTo 0 p w \<lparr> hc_phases = [q], hc_world = v \<rparr> = \<lparr> hc_phases = [p], hc_world = w \<rparr>"
  by (simp add: hookTo_def)

lemma staging_schedule:
  "stageUpdates ctx api now (u # us) sg w = (r, w') \<Longrightarrow>
    (hookStep ctx api)\<^sup>*\<^sup>* \<lparr> hc_phases = [Staging now (u # us) sg], hc_world = w \<rparr>
      \<lparr> hc_phases = [case r of Inl e \<Rightarrow> HookOver | Inr sg' \<Rightarrow> Projecting now sg'], hc_world = w' \<rparr>"
proof (induction us arbitrary: u sg w)
  case Nil
  obtain q w1 where q: "stageUpdate ctx api now u sg w = (q, w1)" by fastforce
  from hookStep.stage [of 0 "\<lparr> hc_phases = [Staging now [u] sg], hc_world = w \<rparr>" now u "[]" sg ctx api q w1] q
  have "hookStep ctx api \<lparr> hc_phases = [Staging now [u] sg], hc_world = w \<rparr> \<lparr> hc_phases = [afterStage now [] q], hc_world = w1 \<rparr>"
    by (simp add: hookTo_0)
  with Nil q show ?case
    by (auto simp: bindA_def retA_def afterStage_def split: sum.splits if_splits)
next
  case (Cons v us)
  obtain q w1 where q: "stageUpdate ctx api now u sg w = (q, w1)" by fastforce
  from hookStep.stage [of 0 "\<lparr> hc_phases = [Staging now (u # v # us) sg], hc_world = w \<rparr>" now u "v # us" sg ctx api q w1] q
  have s: "hookStep ctx api \<lparr> hc_phases = [Staging now (u # v # us) sg], hc_world = w \<rparr>
      \<lparr> hc_phases = [afterStage now (v # us) q], hc_world = w1 \<rparr>"
    by (simp add: hookTo_0)
  show ?case
  proof (cases "\<exists>sg1. q = Inr sg1 \<and> \<not> sg_failed sg1")
    case True
    then obtain sg1 where sg1: "q = Inr sg1" "\<not> sg_failed sg1" by blast
    then have "stageUpdates ctx api now (v # us) sg1 w1 = (r, w')"
      using Cons.prems q by (simp add: bindA_def)
    note rest = Cons.IH [OF this]
    from s sg1 have "hookStep ctx api \<lparr> hc_phases = [Staging now (u # v # us) sg], hc_world = w \<rparr>
        \<lparr> hc_phases = [Staging now (v # us) sg1], hc_world = w1 \<rparr>" by (simp add: afterStage_def)
    then show ?thesis using rest by (rule converse_rtranclp_into_rtranclp)
  next
    case False
    with Cons.prems q have "r = q" "w' = w1" by (auto simp: bindA_def retA_def split: sum.splits if_splits)
    with False s show ?thesis by (auto simp: afterStage_def split: sum.splits)
  qed
qed

lemma dispatching_schedule:
  "dispatchFresh ctx us n w = (r, w') \<Longrightarrow>
    (hookStep ctx api)\<^sup>*\<^sup>* \<lparr> hc_phases = [Dispatching us], hc_world = w \<rparr> \<lparr> hc_phases = [Dispatching []], hc_world = w' \<rparr>"
proof (induction us arbitrary: n w)
  case Nil
  then show ?case by (simp add: retA_def)
next
  case (Cons u us)
  obtain q w1 where q: "dispatchOne ctx u w = (q, w1)" by fastforce
  then obtain k where k: "q = Inr k" by (auto simp: dispatchOne_def tryA_def bindA_def retA_def split: prod.splits sum.splits)
  from hookStep.dispatch [of 0 "\<lparr> hc_phases = [Dispatching (u # us)], hc_world = w \<rparr>" u us ctx q w1 api] q
  have s: "hookStep ctx api \<lparr> hc_phases = [Dispatching (u # us)], hc_world = w \<rparr> \<lparr> hc_phases = [Dispatching us], hc_world = w1 \<rparr>"
    by (simp add: hookTo_0)
  have "dispatchFresh ctx us (n + k) w1 = (r, w')" using Cons.prems q k by (simp add: bindA_def)
  from s Cons.IH [OF this] show ?case by (rule converse_rtranclp_into_rtranclp)
qed

lemma delivery_schedule:
  assumes "list_all isWithinDepthLimit us" "us \<noteq> []" "deliverUpdates ctx api us w = (r, w')"
    and now: "readNowMs ctx w = (Inr now, w0)"
  shows "\<exists>c. (hookStep ctx api)\<^sup>*\<^sup>* (startHooks [(now, us)] w0) c \<and> hc_world c = w'"
proof -
  obtain u vs where us: "us = u # vs" using assms(2) by (cases us) auto
  obtain q w1 where q: "stageUpdates ctx api now us noneStaged w0 = (q, w1)" by fastforce
  have 1: "(hookStep ctx api)\<^sup>*\<^sup>* (startHooks [(now, us)] w0)
      \<lparr> hc_phases = [case q of Inl e \<Rightarrow> HookOver | Inr sg' \<Rightarrow> Projecting now sg'], hc_world = w1 \<rparr>"
    using staging_schedule [of ctx api now u vs noneStaged w0 q w1] q us by (simp add: startHooks_def)
  have run: "(case q of Inl e \<Rightarrow> (Inl e, w1) | Inr sg \<Rightarrow> bindA (projectStaged ctx now sg) (\<lambda>_.
      bindA (dispatchFresh ctx (sg_fresh sg) 0) (\<lambda>n. retA (webhookAnswer ctx (length us) sg n))) w1) = (r, w')"
    using assms(1,3) now q by (simp add: deliverUpdates_def bindA_def)
  show ?thesis
  proof (cases q)
    case (Inl e)
    with 1 run show ?thesis by auto
  next
    case (Inr sg)
    obtain p w2 where p: "projectStaged ctx now sg w1 = (p, w2)" by fastforce
    from hookStep.project [of 0 "\<lparr> hc_phases = [Projecting now sg], hc_world = w1 \<rparr>" now sg ctx p w2 api] p
    have "hookStep ctx api \<lparr> hc_phases = [Projecting now sg], hc_world = w1 \<rparr> \<lparr> hc_phases = [afterProjection sg p], hc_world = w2 \<rparr>"
      by (simp add: hookTo_0)
    with 1 Inr have 2: "(hookStep ctx api)\<^sup>*\<^sup>* (startHooks [(now, us)] w0) \<lparr> hc_phases = [afterProjection sg p], hc_world = w2 \<rparr>"
      by (simp add: rtranclp.rtrancl_into_rtrancl)
    show ?thesis
    proof (cases p)
      case (Inl e)
      with 2 run Inr p show ?thesis by (auto simp: bindA_def)
    next
      case (Inr a)
      obtain m w3 where m: "dispatchFresh ctx (sg_fresh sg) 0 w2 = (m, w3)" by fastforce
      have "w' = w3" using run \<open>q = Inr sg\<close> p Inr m by (auto simp: bindA_def retA_def split: sum.splits)
      with rtranclp_trans [OF 2] dispatching_schedule [OF m, of api] Inr show ?thesis
        by (fastforce simp: afterProjection_def)
    qed
  qed
qed

subsection \<open>Properties\<close>

text \<open>C26: With a store, an update is dispatched at most once for each deduplication key, however many
  deliveries of it interleave: never if the key was recorded before they began, and only if it is
  recorded in the end.\<close>

theorem updates_dispatched_at_most_once:
  assumes "rt_store ctx = Some sqliteApi" "rt_sink ctx = runtimeSink nt user"
    "(hookStep ctx sqliteApi)\<^sup>*\<^sup>* (startHooks deliveries w) c"
  shows "\<exists>D. sv_dispatched (hc_world c) = sv_dispatched w @ D \<and>
    length (filter (\<lambda>u. dedupKeyOf ctx u = Some k) D)
      \<le> (if k \<in> recordedKeys (sv_store (hc_world c)) - recordedKeys (sv_store w) then 1 else 0)"
proof -
  have "hk.hooked nt user ctx" using assms(1,2) by (simp add: hk.hooked_def)
  from hk.hooks_at_most_once [OF this assms(3), of k] show ?thesis by (simp add: hk.seen_def keyed_def)
qed

text \<open>C27: What a delivery of authenticated updates does.  The store takes the first \<open>j\<close> of them: exactly
  the new ones among these are dispatched, in order, to the facade, whose state is threaded through, and
  their keys are recorded.  When it took all, the answer is 200 with three numbers: the updates received,
  the new ones whose dispatch by the facade returned, and those skipped as duplicates; when it refused
  one, the answer is 503, so that the sender tries again.\<close>

theorem delivery_dispatches_the_new_updates:
  assumes "rt_store ctx = Some sqliteApi" "rt_sink ctx = runtimeSink nt user"
    "standardRegistry (tm_registry (sv_telemetry w))" "list_all isWithinDepthLimit updates"
    "deliverUpdates ctx sqliteApi updates w = (r, w')"
  shows "\<exists>j \<le> length updates.
      sv_dispatched w' = sv_dispatched w @ newOnes ctx (recordedKeys (sv_store w)) (take j updates)
    \<and> sv_facade w' = snd (dispatchesReturned ctx (newOnes ctx (recordedKeys (sv_store w)) (take j updates)) (sv_facade w))
    \<and> recordedKeys (sv_store w') = recordedKeys (sv_store w) \<union> {k. \<exists>u \<in> set (take j updates). dedupKeyOf ctx u = Some k}
    \<and> (if j < length updates then \<exists>resp. r = Inr resp \<and> ws_status resp = 503
       else r = Inr (svcJsonResponse ctx 200 (jsObject [
         (''status'', JStr ''ok''), (''received'', natText (length updates)),
         (''dispatched'', natText (fst (dispatchesReturned ctx
            (newOnes ctx (recordedKeys (sv_store w)) updates) (sv_facade w)))),
         (''skipped'', natText (length updates - length (newOnes ctx (recordedKeys (sv_store w)) updates)))]) []))"
proof -
  have h: "hk.hooked nt user ctx" using assms(1,2) by (simp add: hk.hooked_def)
  have w: "hk.still (sv_dispatched w) (recordedKeys (sv_store w)) True w"
    using assms(3) by (simp add: hk.still_def hk.seen_def)
  have "ws_status dedupUnavailable = 503" by (simp add: dedupUnavailable_def svcErrorResponse_def)
  with hk.deliverUpdates_run [OF h w assms(4)] assms(5) show ?thesis
    by (auto simp: hk.still_def hk.seen_def keysWith_eq summaryPayload_def split: if_splits)
qed

lemma normalizedAs_withDispatch: "normalizedAs (withDispatch env d) bytes us sk = normalizedAs env bytes us sk"
  by (simp add: normalizedAs_def withDispatch_def)

lemma fetchHandler_authentic:
  assumes "constant_time_compare (timingSafeEqual p)"
    and "chosenProvider (ev_signatureFactory env) (wa_crypto cx) = Some p"
    and "fetchHandler (withDispatch env d) cx req rs w = Some (r, w')"
    and "hw_calls w' \<noteq> hw_calls w \<or> hw_facade w' \<noteq> hw_facade w"
  shows "\<exists>body bytes us sk. readBodyWithCap (wa_maxBodyBytes cx) rs = Some body
    \<and> authenticRequest p cx (req\<lparr>wq_body := wrappedBody body\<rparr>) bytes \<and> normalizedAs env bytes us sk \<and> hw_calls w' = hw_calls w @ us"
proof -
  have c: "chosenProvider (ev_signatureFactory (withDispatch env d)) (wa_crypto cx) = Some p"
    using assms(2) by (simp add: withDispatch_def)
  show ?thesis
  proof (cases "wq_method req \<noteq> ''GET'' \<and> wq_method req \<noteq> ''HEAD''")
    case True
    then obtain body where "readBodyWithCap (wa_maxBodyBytes cx) rs = Some body"
        "handleRequest (withDispatch env d) cx (req\<lparr>wq_body := wrappedBody body\<rparr>) w = (r, w')"
      using assms(3,4) by (auto simp: fetchHandler_def split: if_splits option.splits body_result.splits)
    with dispatch_is_authentic [OF assms(1) c _ assms(4)] show ?thesis by (fastforce simp: normalizedAs_withDispatch)
  next
    case False
    then have run: "handleRequest (withDispatch env d) cx (req\<lparr>wq_body := BodyOther JNull\<rparr>) w = (r, w')"
      using assms(3) by (auto simp: fetchHandler_def)
    from dispatch_is_authentic [OF assms(1) c run assms(4)] show ?thesis
      by (auto simp: authenticRequest_def)
  qed
qed

text \<open>A webhook request that is not authentic changes nothing at all: no row of the store, no call
  of the facade, no metric.  Authentic is a POST whose body, as read under the size cap, carries the
  HMAC under the app secret and normalizes.\<close>

theorem unauthenticated_webhooks_change_nothing:
  assumes "constant_time_compare (timingSafeEqual p)" "chosenProvider (ev_signatureFactory env) crypto = Some p"
    "handleWebhook ctx env crypto rq w = Some (r, w')"
    "\<not> (\<exists>body bytes us sk. readBodyWithCap (pf_maxBodyBytes (rt_profile ctx)) (hq_stream rq) = Some body
      \<and> authenticRequest p (serviceAdapter ctx crypto) ((toWebhookRequest rq)\<lparr>wq_body := wrappedBody body\<rparr>) bytes
      \<and> normalizedAs env bytes us sk)"
  shows "w' = w"
proof (cases "rt_store ctx")
  case None
  then obtain r0 hw where f: "fetchHandler (directEnv ctx env) (serviceAdapter ctx crypto) (toWebhookRequest rq) (hq_stream rq)
      \<lparr> hw_log = [], hw_calls = [], hw_facade = w \<rparr> = Some (r0, hw)" "hw_facade hw = w'"
    using assms(3) by (auto simp: handleWebhook_def)
  have "chosenProvider (ev_signatureFactory env) (wa_crypto (serviceAdapter ctx crypto)) = Some p"
    using assms(2) by (simp add: serviceAdapter_def)
  from fetchHandler_authentic [OF assms(1) this f(1) [unfolded directEnv_def]] f(2) assms(4) show ?thesis
    by (auto simp: serviceAdapter_def)
next
  case (Some api)
  with assms(3) obtain r0 hw where f: "fetchHandler (stagingEnv env) (serviceAdapter ctx crypto) (toWebhookRequest rq) (hq_stream rq)
      \<lparr> hw_log = [], hw_calls = [], hw_facade = () \<rparr> = Some (r0, hw)"
    by (auto simp: handleWebhook_def)
  have still: "hw_calls hw = [] \<longrightarrow> w' = w"
    using assms(3) Some f by (auto simp: handleWebhook_def split: sum.splits)
  have "chosenProvider (ev_signatureFactory env) (wa_crypto (serviceAdapter ctx crypto)) = Some p"
    using assms(2) by (simp add: serviceAdapter_def)
  from fetchHandler_authentic [OF assms(1) this f [unfolded stagingEnv_def]] still assms(4) show ?thesis
    by (auto simp: serviceAdapter_def)
qed

subsection \<open>Where the hypotheses hold\<close>

definition sampleUpdate :: jsval where
  "sampleUpdate = jsObject [(''kind'', JStr ''message''), (''message'', jsObject [(''id'', JStr ''m'')])]"

definition serviceEnv :: "(unit, jsval, unit) webhook_env" where
  "serviceEnv = \<lparr> ev_verifyFactory = Inr sampleProvider, ev_signatureFactory = Inr sampleProvider, ev_searchParams = (\<lambda>_. None),
     ev_parseJson = (\<lambda>_. Some (JObj ObjectProto [])), ev_numberText = unaryText, ev_normalize = (\<lambda>_. Inr ([sampleUpdate], 0)),
     ev_dispatch = (\<lambda>u s. (Inr (), s)) \<rparr>"

lemma sampleUpdate_ok: "isWithinDepthLimit sampleUpdate" "dedupKeyOf (sampleCtx sampleAnswer) sampleUpdate \<noteq> None"
proof -
  show "isWithinDepthLimit sampleUpdate" by code_simp
  show "dedupKeyOf (sampleCtx sampleAnswer) sampleUpdate \<noteq> None"
    by (simp add: dedupKeyOf_def extractDedupKey_def sampleUpdate_def jsObject_def serviceRecord_def idField_def Let_def)
qed

lemma updates_dispatched_at_most_once_witness:
  "\<exists>k c D. dedupKeyOf (sampleCtx sampleAnswer) sampleUpdate = Some k
    \<and> (hookStep (sampleCtx sampleAnswer) sqliteApi)\<^sup>*\<^sup>* (startHooks [(0, [sampleUpdate, sampleUpdate])] (sampleServiceWorld\<lparr>sv_reads := 1\<rparr>)) c
    \<and> sv_dispatched (hc_world c) = D \<and> length (filter (\<lambda>u. dedupKeyOf (sampleCtx sampleAnswer) u = Some k) D) \<le> 1"
proof -
  obtain k where k: "dedupKeyOf (sampleCtx sampleAnswer) sampleUpdate = Some k" using sampleUpdate_ok(2) by blast
  obtain r w' where "deliverUpdates (sampleCtx sampleAnswer) sqliteApi [sampleUpdate, sampleUpdate] sampleServiceWorld = (r, w')" by fastforce
  from delivery_schedule [OF _ _ this, of 0 "sampleServiceWorld\<lparr>sv_reads := 1\<rparr>"] sampleUpdate_ok(1)
  obtain c where c: "(hookStep (sampleCtx sampleAnswer) sqliteApi)\<^sup>*\<^sup>*
      (startHooks [(0, [sampleUpdate, sampleUpdate])] (sampleServiceWorld\<lparr>sv_reads := 1\<rparr>)) c"
    by (auto simp: readNowMs_def sampleCtx_def sampleServiceWorld_def)
  from updates_dispatched_at_most_once [OF sample_ok(3,4) c, of k]
  show ?thesis using k c by (auto simp: sampleServiceWorld_def split: if_splits)
qed

lemma delivery_dispatches_the_new_updates_witness:
  "sv_dispatched (snd (deliverUpdates (sampleCtx sampleAnswer) sqliteApi [sampleUpdate, sampleUpdate] sampleServiceWorld))
     \<in> {[], [sampleUpdate]}"
proof -
  obtain k where k: "dedupKeyOf (sampleCtx sampleAnswer) sampleUpdate = Some k" using sampleUpdate_ok(2) by blast
  obtain r w' where run: "deliverUpdates (sampleCtx sampleAnswer) sqliteApi [sampleUpdate, sampleUpdate] sampleServiceWorld = (r, w')" by fastforce
  have "newOnes (sampleCtx sampleAnswer) (recordedKeys (sv_store sampleServiceWorld)) (take j [sampleUpdate, sampleUpdate])
      \<in> {[], [sampleUpdate]}" for j
    using k by (cases j; cases "j - 1") (auto simp: take_Cons')
  moreover have "\<exists>j. sv_dispatched w' = newOnes (sampleCtx sampleAnswer) (recordedKeys (sv_store sampleServiceWorld))
      (take j [sampleUpdate, sampleUpdate])"
    using delivery_dispatches_the_new_updates [OF sample_ok(3,4,2) _ run] sampleUpdate_ok(1)
    by (fastforce simp: sampleServiceWorld_def)
  ultimately have "sv_dispatched w' \<in> {[], [sampleUpdate]}" by metis
  with run show ?thesis by simp
qed

lemma unauthenticated_webhooks_change_nothing_witness:
  "\<exists>r. handleWebhook (sampleCtx sampleAnswer) serviceEnv None (sampleRequest ''POST'' [] None) sampleServiceWorld
     = Some (r, sampleServiceWorld)"
proof -
  have "\<exists>x. fetchHandler (stagingEnv serviceEnv) (serviceAdapter (sampleCtx sampleAnswer) None)
      (toWebhookRequest (sampleRequest ''POST'' [] None)) (hq_stream (sampleRequest ''POST'' [] None)) v = Some x" for v
    by (auto simp: fetchHandler_def readBodyWithCap_def sampleRequest_def)
  from this [of "\<lparr> hw_log = [], hw_calls = [], hw_facade = () \<rparr>"]
  have "handleWebhook (sampleCtx sampleAnswer) serviceEnv None (sampleRequest ''POST'' [] None) sampleServiceWorld \<noteq> None"
    by (auto simp: handleWebhook_def sample_ok)
  then obtain r w' where run: "handleWebhook (sampleCtx sampleAnswer) serviceEnv None (sampleRequest ''POST'' [] None) sampleServiceWorld
     = Some (r, w')" by fastforce
  have "\<not> authenticRequest sampleProvider (serviceAdapter (sampleCtx sampleAnswer) None)
      ((toWebhookRequest (sampleRequest ''POST'' [] None))\<lparr>wq_body := b\<rparr>) bytes" for b bytes
    by (simp add: authenticRequest_def toWebhookRequest_def sampleRequest_def headersGet_def)
  moreover have "chosenProvider (ev_signatureFactory serviceEnv) None = Some sampleProvider"
    by (simp add: chosenProvider_def serviceEnv_def)
  ultimately show ?thesis
    using unauthenticated_webhooks_change_nothing [OF sampleProvider_compares _ run] run by blast
qed

end
