(* ===== verification/Service_Routes.thy ===== *)
theory Service_Routes
  imports Service_Webhook
begin

section \<open>The routes of the service\<close>

text \<open>
  The read handlers, the group routes and the dispatcher of \<open>packages/service/src/index.ts\<close>, with the
  metrics taken around every request.  A \<open>route_env\<close> holds what the dispatcher takes from outside its
  runtime: \<open>new URL\<close>, \<open>Number\<close> on a string, the builders of message bodies and of the OpenAPI
  document, the environment of the webhook adapter, the clock when the module was loaded, whether the
  process is Bun, and the registry behind the sink.
\<close>

record ('jwk, 't) route_env =
  re_parseUrl :: "string \<Rightarrow> service_url option"
  re_toNumber :: "string \<Rightarrow> jsnum"
  re_build :: body_builder
  re_openApi :: "string \<Rightarrow> bool \<Rightarrow> thrown_value + jsval"
  re_webhook :: "('jwk, jsval, unit) webhook_env"
  re_crypto :: "'jwk provider option"
  re_serverStart :: int
  re_onBun :: bool
  re_registry :: "'t \<Rightarrow> metrics_registry"

subsection \<open>Queries\<close>

text \<open>\<open>Inl ()\<close> is \<open>"invalid"\<close>.\<close>

definition readQueryString :: "service_url \<Rightarrow> string \<Rightarrow> nat \<Rightarrow> unit + string option" where
  "readQueryString url name maxLength = (case map_of (su_query url) name of
     None \<Rightarrow> Inr None
   | Some v \<Rightarrow> if svcNonEmptyString (JStr v) = None \<or> length v > maxLength then Inl () else Inr (Some v))"

fun readQueryParams :: "service_url \<Rightarrow> string list \<Rightarrow> (string \<times> string) list \<Rightarrow> unit + (string \<times> string) list" where
  "readQueryParams url [] params = Inr params"
| "readQueryParams url (name # names) params =
     bindE (readQueryString url name (if name = ''limit'' then 32 else 4096)) (\<lambda>v.
     readQueryParams url names (case v of None \<Rightarrow> params | Some s \<Rightarrow> params @ [(name, s)]))"

definition parseListLimit :: "(string \<Rightarrow> jsnum) \<Rightarrow> service_url \<Rightarrow> int option" where
  "parseListLimit toNumber url = (case map_of (su_query url) ''limit'' of
     None \<Rightarrow> Some 50
   | Some raw \<Rightarrow> (case toNumber raw of
       Fin x \<Rightarrow> if isIntegerNum (Fin x) then Some (min 100 (max 1 \<lfloor>x\<rfloor>)) else None
     | _ \<Rightarrow> None))"

subsection \<open>Reading the message projections\<close>

definition nullOr :: "string option \<Rightarrow> jsval" where
  "nullOr v = (case v of None \<Rightarrow> JNull | Some s \<Rightarrow> JStr s)"

definition messageValue :: "message_record \<Rightarrow> jsval" where
  "messageValue r = jsObject [(''rowId'', JStr (mrRowId r)), (''waMessageId'', JStr (mrWaMessageId r)),
     (''direction'', JStr (case mrDirection r of Inbound \<Rightarrow> ''inbound'' | Outbound \<Rightarrow> ''outbound'')),
     (''fromPhone'', nullOr (mrFromPhone r)), (''toPhone'', nullOr (mrToPhone r)), (''type'', JStr (mrType r)),
     (''status'', JStr (mrStatus r)), (''graphMessageId'', nullOr (mrGraphMessageId r)),
     (''createdAt'', JStr (mrCreatedAt r)), (''updatedAt'', JStr (mrUpdatedAt r))]"

definition listValue :: "list_result \<Rightarrow> jsval" where
  "listValue r = jsObject [(''items'', JArr (map (\<lambda>m. Data (messageValue m)) (items r))), (''nextCursor'', nullOr (nextCursor r))]"

definition windowValue :: "window_state \<Rightarrow> jsval" where
  "windowValue s = jsObject [(''open'', JBool (isOpen s)), (''lastInboundAt'', nullOr (lastInboundAt s)),
     (''expiresAt'', nullOr (expiresAt s)), (''remainingMs'', JNum (Fin (of_int (remainingMs s))))]"

text \<open>\<open>isNonEmptyString(v) && v.length <= 1024\<close>: the test of cursors and message ids.\<close>

definition safeText :: "string \<Rightarrow> bool" where
  "safeText v = (svcNonEmptyString (JStr v) \<noteq> None \<and> length v \<le> 1024 \<and> \<not> hasControlChars v)"

definition storeMissing :: "string \<Rightarrow> webhook_response" where
  "storeMissing message = svcErrorResponse 503 ''persistence_not_configured'' message []"

definition storeUnreachable :: webhook_response where
  "storeUnreachable = svcErrorResponse 503 ''persistence_unavailable'' ''Message projection store could not be reached.'' []"

text \<open>A call on the store with its metric, whose failure has an answer of its own.\<close>

definition answeredBy :: "('s, 't, 'f) runtime \<Rightarrow> 's store_api \<Rightarrow> ('s, 't, 'f, 'a) svc_act \<Rightarrow> ('a \<Rightarrow> webhook_response) \<Rightarrow>
    webhook_response \<Rightarrow> ('s, 't, 'f, webhook_response) svc_act" where
  "answeredBy ctx api m ok failed =
     tryA (bindA m (\<lambda>a. bindA (recordStore ctx api ''success'') (\<lambda>_. retA (ok a))))
       (\<lambda>_. bindA (recordStore ctx api ''error'') (\<lambda>_. retA failed))"

definition listInput :: "int \<Rightarrow> string option \<Rightarrow> jsval" where
  "listInput limit before = jsObject ((''limit'', JNum (Fin (of_int limit))) # (case before of None \<Rightarrow> [] | Some b \<Rightarrow> [(''beforeRowId'', JStr b)]))"

definition handleListMessages ::
  "('s, 't, 'f) runtime \<Rightarrow> (string \<Rightarrow> jsnum) \<Rightarrow> service_request \<Rightarrow> service_url \<Rightarrow> ('s, 't, 'f, webhook_response) svc_act" where
  "handleListMessages ctx toNumber rq url =
     (if \<not> isAuthorized rq (rt_bearerToken ctx) then retA unauthorized
      else (case rt_store ctx of
          None \<Rightarrow> retA (storeMissing ''Message projections require a persistence store.'')
        | Some api \<Rightarrow> (case parseListLimit toNumber url of
            None \<Rightarrow> retA (svcErrorResponse 400 ''malformed_query'' ''limit must be an integer from 1 to 100.'' [])
          | Some limit \<Rightarrow>
              if (case map_of (su_query url) ''cursor'' of None \<Rightarrow> False | Some c \<Rightarrow> \<not> safeText c)
              then retA (svcErrorResponse 400 ''malformed_query'' ''cursor must be a safe non-empty string.'' [])
              else answeredBy ctx api
                (onStore StoreRaised (ap_listMessages api (listInput limit (map_of (su_query url) ''cursor''))))
                (\<lambda>r. svcJsonResponse ctx 200 (listValue r) []) storeUnreachable)))"

definition handleGetMessage ::
  "('s, 't, 'f) runtime \<Rightarrow> service_request \<Rightarrow> string \<Rightarrow> ('s, 't, 'f, webhook_response) svc_act" where
  "handleGetMessage ctx rq path =
     (if \<not> isAuthorized rq (rt_bearerToken ctx) then retA unauthorized
      else (case rt_store ctx of
          None \<Rightarrow> retA (storeMissing ''Message projections require a persistence store.'')
        | Some api \<Rightarrow> (case rt_decodeUri ctx (drop (length (messagesPath ctx) + 1) path) of
            None \<Rightarrow> retA (svcErrorResponse 400 ''malformed_path'' ''Message id segment is invalid.'' [])
          | Some wa \<Rightarrow>
              if \<not> safeText wa
              then retA (svcErrorResponse 400 ''malformed_path'' ''Message id must be a safe non-empty string.'' [])
              else answeredBy ctx api (onStore StoreRaised (ap_getMessage api (jsObject [(''waMessageId'', JStr wa)])))
                (\<lambda>r. case r of None \<Rightarrow> svcErrorResponse 404 ''not_found'' ''Message not found.'' []
                   | Some m \<Rightarrow> svcJsonResponse ctx 200 (messageValue m) []) storeUnreachable)))"

subsection \<open>The conversation window\<close>

definition js_suffix :: "string \<Rightarrow> string \<Rightarrow> bool" where
  "js_suffix p s = js_prefix (rev p) (rev s)"

definition phonePath :: "string \<Rightarrow> bool" where
  "phonePath s = (let ds = (if js_prefix ''+'' s then drop 1 s else s) in
     1 \<le> length ds \<and> length ds \<le> 15 \<and> list_all is_digit ds)"

definition windowPrefix :: "('s, 't, 'f) runtime \<Rightarrow> string" where
  "windowPrefix ctx = conversationsPath ctx @ ''/''"

definition handleConversationWindow ::
  "('s, 't, 'f) runtime \<Rightarrow> service_request \<Rightarrow> string \<Rightarrow> ('s, 't, 'f, webhook_response) svc_act" where
  "handleConversationWindow ctx rq path =
     (if \<not> isAuthorized rq (rt_bearerToken ctx) then retA unauthorized
      else if js_upper (hq_method rq) \<noteq> ''GET'' then retA (methodNotAllowed ''GET'')
      else (case rt_store ctx of
          None \<Rightarrow> retA (storeMissing ''Conversation window state requires a persistence store.'')
        | Some api \<Rightarrow>
            if \<not> js_prefix (windowPrefix ctx) path \<or> \<not> js_suffix ''/window'' path
              \<or> length path \<le> length (windowPrefix ctx) + length ''/window''
            then retA notFound
            else (case rt_decodeUri ctx (take (length path - length ''/window'' - length (windowPrefix ctx)) (drop (length (windowPrefix ctx)) path)) of
                None \<Rightarrow> retA (svcErrorResponse 400 ''malformed_path'' ''phone path segment is invalid.'' [])
              | Some phone \<Rightarrow>
                  if \<not> phonePath phone then retA (svcErrorResponse 400 ''malformed_path''
                    ''phone must be digits with an optional leading +, 1..15 characters.'' [])
                  else answeredBy ctx api
                    (bindA (readNowIso ctx) (\<lambda>now. onStore StoreRaised (ap_windowState api
                      (jsObject [(''phone'', JStr (if js_prefix ''+'' phone then drop 1 phone else phone)), (''now'', JStr now)]))))
                    (\<lambda>s. svcJsonResponse ctx 200 (windowValue s) [])
                    (svcErrorResponse 503 ''conversation_window_unavailable'' ''Conversation window state could not be computed.'' []))))"

subsection \<open>Group routes\<close>

datatype group_route = GroupsRoute | GroupRoute | InviteLinkRoute | ParticipantsRoute | JoinRequestsRoute

record route_match =
  mt_route :: group_route
  mt_groupId :: "string option"

definition groupMatch :: "group_route \<Rightarrow> string option \<Rightarrow> route_match" where
  "groupMatch r g = \<lparr> mt_route = r, mt_groupId = g \<rparr>"

definition matchGroupRoute :: "('s, 't, 'f) runtime \<Rightarrow> string \<Rightarrow> route_match option" where
  "matchGroupRoute ctx path =
     (if path = groupsPath ctx then Some (groupMatch GroupsRoute None)
      else if \<not> js_prefix (groupsPath ctx @ ''/'') path then None
      else let parts = js_split (CHR 0x2F) (drop (length (groupsPath ctx) + 1) path) in
        if parts = [] \<or> svcNonEmptyString (JStr (hd parts)) = None then None
        else (case rt_decodeUri ctx (hd parts) of
            None \<Rightarrow> None
          | Some groupId \<Rightarrow>
              if svcNonEmptyString (JStr groupId) = None \<or> str_in groupId (CHR 0x2F) \<or> str_in groupId (CHR 0x5C) then None
              else if tl parts = [] then Some (groupMatch GroupRoute (Some groupId))
              else if tl parts = [''invite-link''] then Some (groupMatch InviteLinkRoute (Some groupId))
              else if tl parts = [''participants''] then Some (groupMatch ParticipantsRoute (Some groupId))
              else if tl parts = [''join-requests''] then Some (groupMatch JoinRequestsRoute (Some groupId))
              else None))"

definition recordedGraphCall :: "('s, 't, 'f) runtime \<Rightarrow> graph_call \<Rightarrow> ('s, 't, 'f, jsval) svc_act" where
  "recordedGraphCall ctx call =
     tryA (bindA (callGraph ctx call) (\<lambda>result.
           bindA (onSink (recordGraphOperation (rt_sink ctx) ''groups'' 200 ''success'')) (\<lambda>_. retA result)))
       (\<lambda>e. bindA (onSink (recordGraphOperation (rt_sink ctx) ''groups'' (graphErrorStatus e) ''error'')) (\<lambda>_. failA e))"

definition groupAnswer :: "('s, 't, 'f) runtime \<Rightarrow> string \<Rightarrow> (string \<times> string) list \<Rightarrow> jsval option \<Rightarrow> ('s, 't, 'f, webhook_response) svc_act" where
  "groupAnswer ctx operation params body =
     bindA (recordedGraphCall ctx (GroupCall operation params body)) (\<lambda>result. retA (svcJsonResponse ctx 200 result []))"

definition withBody :: "('s, 't, 'f) runtime \<Rightarrow> service_request \<Rightarrow> (jsval \<Rightarrow> ('s, 't, 'f, webhook_response) svc_act) \<Rightarrow>
    ('s, 't, 'f, webhook_response) svc_act" where
  "withBody ctx rq k = (case parseJsonBody ctx rq of None \<Rightarrow> retA malformedJson | Some body \<Rightarrow> k body)"

definition malformedGroupQuery :: webhook_response where
  "malformedGroupQuery = svcErrorResponse 400 ''malformed_query'' ''Group query is invalid.'' []"

definition groupsHandler :: "('s, 't, 'f) runtime \<Rightarrow> service_request \<Rightarrow> service_url \<Rightarrow> ('s, 't, 'f, webhook_response) svc_act" where
  "groupsHandler ctx rq url = (let meth = js_upper (hq_method rq); scope = [(''phoneNumberId'', pf_phoneNumberId (rt_profile ctx))] in
     if meth = ''GET'' then (case readQueryParams url [''limit'', ''after'', ''before''] scope of
         Inl _ \<Rightarrow> retA malformedGroupQuery | Inr params \<Rightarrow> groupAnswer ctx ''listGroups'' params None)
     else if meth = ''POST'' then withBody ctx rq (\<lambda>body. groupAnswer ctx ''createGroup'' scope (Some body))
     else retA (methodNotAllowed ''GET, POST''))"

definition groupHandler :: "('s, 't, 'f) runtime \<Rightarrow> service_request \<Rightarrow> service_url \<Rightarrow> string \<Rightarrow> ('s, 't, 'f, webhook_response) svc_act" where
  "groupHandler ctx rq url g = (let meth = js_upper (hq_method rq); scope = [(''groupId'', g)] in
     if meth = ''GET'' then (case readQueryString url ''fields'' 4096 of
         Inl _ \<Rightarrow> retA malformedGroupQuery
       | Inr wanted \<Rightarrow> groupAnswer ctx ''getGroup'' (case wanted of None \<Rightarrow> scope | Some f \<Rightarrow> scope @ [(''fields'', f)]) None)
     else if meth = ''POST'' then withBody ctx rq (\<lambda>body. groupAnswer ctx ''updateGroup'' scope (Some body))
     else if meth = ''DELETE'' then groupAnswer ctx ''deleteGroup'' scope None
     else retA (methodNotAllowed ''GET, POST, DELETE''))"

definition inviteLinkHandler :: "('s, 't, 'f) runtime \<Rightarrow> service_request \<Rightarrow> string \<Rightarrow> ('s, 't, 'f, webhook_response) svc_act" where
  "inviteLinkHandler ctx rq g = (let meth = js_upper (hq_method rq) in
     if meth = ''GET'' then groupAnswer ctx ''getGroupInviteLink'' [(''groupId'', g)] None
     else if meth = ''POST'' then groupAnswer ctx ''resetGroupInviteLink'' [(''groupId'', g)] None
     else retA (methodNotAllowed ''GET, POST''))"

definition participantsHandler :: "('s, 't, 'f) runtime \<Rightarrow> service_request \<Rightarrow> string \<Rightarrow> ('s, 't, 'f, webhook_response) svc_act" where
  "participantsHandler ctx rq g = (if js_upper (hq_method rq) \<noteq> ''DELETE'' then retA (methodNotAllowed ''DELETE'')
     else withBody ctx rq (\<lambda>body. groupAnswer ctx ''removeGroupParticipants'' [(''groupId'', g)] (Some body)))"

definition joinRequestsHandler :: "('s, 't, 'f) runtime \<Rightarrow> service_request \<Rightarrow> service_url \<Rightarrow> string \<Rightarrow> ('s, 't, 'f, webhook_response) svc_act" where
  "joinRequestsHandler ctx rq url g = (let meth = js_upper (hq_method rq); scope = [(''groupId'', g)] in
     if meth = ''GET'' then (case readQueryParams url [''limit'', ''after''] scope of
         Inl _ \<Rightarrow> retA malformedGroupQuery | Inr params \<Rightarrow> groupAnswer ctx ''listGroupJoinRequests'' params None)
     else if meth = ''POST'' \<or> meth = ''DELETE'' then withBody ctx rq (\<lambda>body.
         groupAnswer ctx (if meth = ''POST'' then ''approveGroupJoinRequests'' else ''rejectGroupJoinRequests'') scope (Some body))
     else retA (methodNotAllowed ''GET, POST, DELETE''))"

definition handleGroupRoute :: "('s, 't, 'f) runtime \<Rightarrow> service_request \<Rightarrow> service_url \<Rightarrow> route_match \<Rightarrow> ('s, 't, 'f, webhook_response) svc_act" where
  "handleGroupRoute ctx rq url mt = tryA
     (if mt_route mt = GroupsRoute then groupsHandler ctx rq url
      else (case mt_groupId mt of
          None \<Rightarrow> retA notFound
        | Some g \<Rightarrow> (case mt_route mt of
            GroupRoute \<Rightarrow> groupHandler ctx rq url g
          | InviteLinkRoute \<Rightarrow> inviteLinkHandler ctx rq g
          | ParticipantsRoute \<Rightarrow> participantsHandler ctx rq g
          | _ \<Rightarrow> joinRequestsHandler ctx rq url g)))
     (\<lambda>e. if e = GraphExn RequestValidation
          then retA (svcErrorResponse 400 ''malformed_body'' ''Group request body or route is invalid.'' [])
          else graphFailureResponse ctx e)"

subsection \<open>The dispatcher\<close>

definition templateRouteLabel :: "('s, 't, 'f) runtime \<Rightarrow> string \<Rightarrow> string" where
  "templateRouteLabel ctx path =
     (if path \<in> {''/healthz'', ''/readyz'', OPENAPI_PATH, STATUS_PATH, METRICS_PATH, DEBUG_DIAGNOSTICS_PATH} then path
      else if path = rt_webhookPath ctx then rt_webhookPath ctx
      else if path = textPath ctx then textPath ctx
      else if path = messagesPath ctx then messagesPath ctx
      else if js_prefix (messagesPath ctx @ ''/'') path then messagesPath ctx @ ''/:id''
      else if js_prefix (windowPrefix ctx) path \<and> js_suffix ''/window'' path then conversationsPath ctx @ ''/:phone/window''
      else (case (if rt_enableGroupRoutes ctx then matchGroupRoute ctx path else None) of
          None \<Rightarrow> ''unmatched''
        | Some mt \<Rightarrow> (case mt_route mt of
            GroupsRoute \<Rightarrow> groupsPath ctx
          | GroupRoute \<Rightarrow> groupsPath ctx @ ''/:groupId''
          | InviteLinkRoute \<Rightarrow> groupsPath ctx @ ''/:groupId/invite-link''
          | ParticipantsRoute \<Rightarrow> groupsPath ctx @ ''/:groupId/participants''
          | JoinRequestsRoute \<Rightarrow> groupsPath ctx @ ''/:groupId/join-requests'')))"

definition CURRENT_SCHEMA_VERSION :: int where "CURRENT_SCHEMA_VERSION = 6"

definition jsTruthy :: "jsval \<Rightarrow> bool" where
  "jsTruthy v = (case v of JUndef \<Rightarrow> False | JNull \<Rightarrow> False | JBool b \<Rightarrow> b | JNum n \<Rightarrow> n \<noteq> NaN \<and> n \<noteq> Fin 0
     | JStr s \<Rightarrow> s \<noteq> [] | _ \<Rightarrow> True)"

text \<open>\<open>health.ok && health.currentVersion === CURRENT_SCHEMA_VERSION\<close>; the read of a property of
  \<open>null\<close> or \<open>undefined\<close> throws.\<close>

definition healthReady :: "jsval \<Rightarrow> thrown_value + bool" where
  "healthReady v = (if v = JNull \<or> v = JUndef then Inl (ThrownError ''TypeError'')
     else Inr (jsTruthy (optField v ''ok'') \<and> optField v ''currentVersion'' = JNum (Fin (of_int CURRENT_SCHEMA_VERSION))))"

definition healthPayload :: jsval where
  "healthPayload = jsObject [(''ok'', JBool True), (''service'', JStr SERVICE_NAME)]"

definition readyResponse :: "('s, 't, 'f) runtime \<Rightarrow> ('s, 't, 'f, webhook_response) svc_act" where
  "readyResponse ctx = (let up = svcJsonResponse ctx 200 healthPayload []; down = svcErrorResponse 503 ''persistence_unavailable'' in
     case rt_store ctx of
       None \<Rightarrow> retA up
     | Some api \<Rightarrow> tryA (bindA (onStore StoreRaised (ap_health api)) (\<lambda>v. case healthReady v of
             Inl e \<Rightarrow> failA (CodeExn e)
           | Inr ready \<Rightarrow> retA (if ready then up else down ''Persistence store is not ready.'' [])))
         (\<lambda>_. retA (down ''Persistence store health check failed.'' [])))"

definition metricsResponse :: "('s, 't, 'f) runtime \<Rightarrow> ('jwk, 't) route_env \<Rightarrow> ('s, 't, 'f, webhook_response) svc_act" where
  "metricsResponse ctx env = bindA (getA (\<lambda>w. render (rt_numberText ctx) (re_registry env (sv_telemetry w)))) (\<lambda>body.
     retA \<lparr> ws_status = 200, ws_headers = [(''content-type'', ''text/plain; version=0.0.4; charset=utf-8'')], ws_body = body \<rparr>)"

definition openApiResponse :: "('s, 't, 'f) runtime \<Rightarrow> ('jwk, 't) route_env \<Rightarrow> service_url \<Rightarrow> ('s, 't, 'f, webhook_response) svc_act" where
  "openApiResponse ctx env url = (case re_openApi env (su_origin url) (rt_enableGroupRoutes ctx) of
     Inl e \<Rightarrow> failA (CodeExn e) | Inr doc \<Rightarrow> retA (svcJsonResponse ctx 200 doc []))"

text \<open>\<open>if (method !== "GET") return methodNotAllowed("GET")\<close>, with the guard of the telemetry routes.\<close>

definition getOnly :: "string \<Rightarrow> ('s, 't, 'f, webhook_response) svc_act \<Rightarrow> ('s, 't, 'f, webhook_response) svc_act" where
  "getOnly meth m = (if meth \<noteq> ''GET'' then retA (methodNotAllowed ''GET'') else m)"

definition hidden :: "('s, 't, 'f) runtime \<Rightarrow> service_request \<Rightarrow> ('s, 't, 'f, webhook_response) svc_act \<Rightarrow> ('s, 't, 'f, webhook_response) svc_act" where
  "hidden ctx rq m = (if \<not> isAuthorized rq (rt_bearerToken ctx) then retA notFound else m)"

definition guarded :: "('s, 't, 'f) runtime \<Rightarrow> service_request \<Rightarrow> ('s, 't, 'f, webhook_response) svc_act \<Rightarrow> ('s, 't, 'f, webhook_response) svc_act" where
  "guarded ctx rq m = (if \<not> isAuthorized rq (rt_bearerToken ctx) then retA unauthorized else m)"

definition operatorRoute :: "('s, 't, 'f) runtime \<Rightarrow> ('jwk, 't) route_env \<Rightarrow> service_request \<Rightarrow> service_url \<Rightarrow> string \<Rightarrow> string \<Rightarrow>
    ('s, 't, 'f, webhook_response) svc_act" where
  "operatorRoute ctx env rq url meth path =
     (if path = textPath ctx then
        (if meth \<noteq> ''POST'' then retA (methodNotAllowed ''POST'') else guarded ctx rq (handleTextMessage ctx rq))
      else if path = messagesPath ctx then
        (if meth = ''POST'' then guarded ctx rq (handleGenericMessage (re_build env) ctx rq)
         else if meth = ''GET'' then handleListMessages ctx (re_toNumber env) rq url
         else retA (methodNotAllowed ''GET, POST''))
      else (case (if rt_enableGroupRoutes ctx then matchGroupRoute ctx path else None) of
          Some mt \<Rightarrow> guarded ctx rq (handleGroupRoute ctx rq url mt)
        | None \<Rightarrow>
            if js_prefix (messagesPath ctx @ ''/'') path then getOnly meth (handleGetMessage ctx rq path)
            else if js_prefix (windowPrefix ctx) path \<and> js_suffix ''/window'' path then handleConversationWindow ctx rq path
            else retA notFound))"

definition dispatchRoute :: "('s, 't, 'f) runtime \<Rightarrow> ('jwk, 't) route_env \<Rightarrow> service_request \<Rightarrow> service_url \<Rightarrow> string \<Rightarrow> string \<Rightarrow>
    ('s, 't, 'f) service_world \<Rightarrow> ((service_exn + webhook_response) \<times> ('s, 't, 'f) service_world) option" where
  "dispatchRoute ctx env rq url meth path w =
     (if path = ''/healthz'' then Some (getOnly meth (retA (svcJsonResponse ctx 200 healthPayload [])) w)
      else if path = ''/readyz'' then Some (getOnly meth (readyResponse ctx) w)
      else if path = STATUS_PATH then Some (hidden ctx rq (getOnly meth
        (bindA (buildStatusPayload ctx (re_serverStart env)) (\<lambda>p. retA (svcJsonResponse ctx 200 p [])))) w)
      else if path = METRICS_PATH then Some (hidden ctx rq (getOnly meth (metricsResponse ctx env)) w)
      else if path = DEBUG_DIAGNOSTICS_PATH then Some (hidden ctx rq (getOnly meth
        (bindA (buildDiagnosticsPayload ctx (re_onBun env) (re_registry env)) (\<lambda>p. retA (svcJsonResponse ctx 200 p [])))) w)
      else if path = OPENAPI_PATH then Some (getOnly meth (openApiResponse ctx env url) w)
      else if path = rt_webhookPath ctx then
        (if meth \<noteq> ''GET'' \<and> meth \<noteq> ''POST'' then Some (Inr (methodNotAllowed ''GET, POST''), w)
         else handleWebhook ctx (re_webhook env) (re_crypto env) rq w)
      else Some (operatorRoute ctx env rq url meth path w))"

text \<open>The answer is measured and handed on.\<close>

definition measured :: "('s, 't, 'f) runtime \<Rightarrow> string \<Rightarrow> string \<Rightarrow> int \<Rightarrow> webhook_response \<Rightarrow> ('s, 't, 'f, webhook_response) svc_act" where
  "measured ctx path meth startedAt resp = bindA (readNowMs ctx) (\<lambda>now.
     bindA (onSink (recordHttpRequest (rt_sink ctx) (templateRouteLabel ctx path) meth (ws_status resp)
       (Fin (of_int (max 0 (now - startedAt)) / 1000)))) (\<lambda>_. retA resp))"

definition fetchApp :: "('s, 't, 'f) runtime \<Rightarrow> ('jwk, 't) route_env \<Rightarrow> service_request \<Rightarrow> ('s, 't, 'f) service_world \<Rightarrow>
    ((service_exn + webhook_response) \<times> ('s, 't, 'f) service_world) option" where
  "fetchApp ctx env rq w = (case re_parseUrl env (hq_url rq) of
     None \<Rightarrow> Some (Inr (svcErrorResponse 400 ''bad_request'' ''Request URL is invalid.'' []), w)
   | Some url \<Rightarrow> (let meth = js_upper (hq_method rq); path = su_pathname url; startedAt = rt_now ctx (sv_reads w) in
       case dispatchRoute ctx env rq url meth path (w\<lparr>sv_reads := Suc (sv_reads w)\<rparr>) of
         None \<Rightarrow> None
       | Some (Inl e, w') \<Rightarrow> Some (Inl e, w')
       | Some (Inr resp, w') \<Rightarrow> Some (measured ctx path meth startedAt resp w')))"

subsection \<open>Properties\<close>

definition publicPath :: "('s, 't, 'f) runtime \<Rightarrow> string \<Rightarrow> bool" where
  "publicPath ctx path = (path \<in> {''/healthz'', ''/readyz'', OPENAPI_PATH, rt_webhookPath ctx})"

definition telemetryPath :: "string \<Rightarrow> bool" where
  "telemetryPath path = (path \<in> {STATUS_PATH, METRICS_PATH, DEBUG_DIAGNOSTICS_PATH})"

definition refusals :: "webhook_response set" where
  "refusals = {unauthorized, notFound, methodNotAllowed ''GET'', methodNotAllowed ''POST'', methodNotAllowed ''GET, POST''}"

lemma operatorRoute_refused:
  assumes "\<not> isAuthorized rq (rt_bearerToken ctx)"
  shows "\<exists>resp \<in> refusals. \<forall>w. operatorRoute ctx env rq url meth path w = (Inr resp, w)"
  using assms
  by (auto simp: operatorRoute_def guarded_def getOnly_def handleListMessages_def handleGetMessage_def
      handleConversationWindow_def refusals_def split: option.split)

lemma dispatchRoute_refused:
  assumes "\<not> isAuthorized rq (rt_bearerToken ctx)" "\<not> publicPath ctx path"
  shows "\<exists>resp \<in> refusals. dispatchRoute ctx env rq url meth path w = Some (Inr resp, w) \<and> (telemetryPath path \<longrightarrow> resp = notFound)"
proof (cases "telemetryPath path")
  case True
  then have "dispatchRoute ctx env rq url meth path w = Some (Inr notFound, w)"
    using assms by (auto simp: dispatchRoute_def hidden_def telemetryPath_def publicPath_def
      STATUS_PATH_def METRICS_PATH_def DEBUG_DIAGNOSTICS_PATH_def OPENAPI_PATH_def)
  then show ?thesis by (auto simp: refusals_def)
next
  case False
  then have "dispatchRoute ctx env rq url meth path w = Some (operatorRoute ctx env rq url meth path w)"
    using assms(2) by (auto simp: dispatchRoute_def telemetryPath_def publicPath_def)
  then show ?thesis using operatorRoute_refused [OF assms(1), of env url meth path] False by auto
qed

text \<open>The measurement changes the clock and the telemetry only.\<close>

lemma measured_run:
  "\<exists>x t. measured ctx path meth startedAt resp w = (x, w\<lparr>sv_reads := Suc (sv_reads w), sv_telemetry := t\<rparr>)
     \<and> (x = Inr resp \<or> (\<exists>e. x = Inl (SinkExn e)))"
  by (auto simp: measured_def readNowMs_def bindA_def onSink_def retA_def split: prod.split sum.split)

text \<open>C30: Without the bearer token no operator route does anything.  Whatever the request, a path that is
  not one of the public ones is answered 401, 404 or 405; no Graph call is made, nothing is
  dispatched, and the store, the facade and the error ledger stay as they are: only the clock and
  the telemetry move.  The telemetry routes hide: their answer is that of an unknown path.\<close>

theorem operator_routes_need_the_token:
  assumes "\<not> isAuthorized rq (rt_bearerToken ctx)" "re_parseUrl env (hq_url rq) = Some url"
    "\<not> publicPath ctx (su_pathname url)" "fetchApp ctx env rq w = Some (r, w')"
  shows "(\<exists>t. w' = w\<lparr>sv_reads := Suc (Suc (sv_reads w)), sv_telemetry := t\<rparr>)
    \<and> (case r of Inl e \<Rightarrow> \<exists>x. e = SinkExn x
       | Inr resp \<Rightarrow> resp \<in> refusals \<and> (telemetryPath (su_pathname url) \<longrightarrow> resp = notFound))"
proof -
  let ?w = "w\<lparr>sv_reads := Suc (sv_reads w)\<rparr>"
  obtain resp where d: "resp \<in> refusals" "telemetryPath (su_pathname url) \<longrightarrow> resp = notFound"
      "dispatchRoute ctx env rq url (js_upper (hq_method rq)) (su_pathname url) ?w = Some (Inr resp, ?w)"
    using dispatchRoute_refused [OF assms(1,3), of env url "js_upper (hq_method rq)" ?w] by blast
  then have "(r, w') = measured ctx (su_pathname url) (js_upper (hq_method rq)) (rt_now ctx (sv_reads w)) resp ?w"
    using assms(2,4) by (simp add: fetchApp_def Let_def)
  with measured_run [of ctx "su_pathname url" "js_upper (hq_method rq)" "rt_now ctx (sv_reads w)" resp ?w] d(1,2)
  show ?thesis by (auto split: sum.splits)
qed

text \<open>The route label of the metrics takes finitely many values: it is one of the routes that
  \<open>/status\<close> lists, or \<open>unmatched\<close>, and then the path is unknown to the dispatcher, which answers 404
  and does nothing.\<close>

theorem route_labels_are_the_inventory:
  "templateRouteLabel ctx path \<in> set (buildRouteInventory ctx)
   \<or> templateRouteLabel ctx path = ''unmatched'' \<and> dispatchRoute ctx env rq url meth path w = Some (Inr notFound, w)"
proof (cases "(if rt_enableGroupRoutes ctx then matchGroupRoute ctx path else None) = None")
  case True
  then show ?thesis
    by (auto simp: templateRouteLabel_def buildRouteInventory_def dispatchRoute_def operatorRoute_def split del: if_split split: if_splits)
next
  case False
  then obtain mt where "rt_enableGroupRoutes ctx" "matchGroupRoute ctx path = Some mt" by (auto split: if_splits)
  then show ?thesis
    by (simp add: templateRouteLabel_def buildRouteInventory_def split: group_route.split)
qed

definition sampleRouteEnv :: "(unit, unit telemetry_state) route_env" where
  "sampleRouteEnv = \<lparr> re_parseUrl = (\<lambda>u. Some \<lparr> su_origin = ''o'', su_pathname = u, su_query = [] \<rparr>), re_toNumber = (\<lambda>_. NaN),
     re_build = (\<lambda>_ _. Inr None), re_openApi = (\<lambda>_ _. Inr JNull), re_webhook = serviceEnv, re_crypto = None, re_serverStart = 0,
     re_onBun = False, re_registry = tm_registry \<rparr>"

lemma operator_routes_need_the_token_witness:
  "\<exists>r t. fetchApp (sampleCtx sampleAnswer) sampleRouteEnv ((sampleRequest ''POST'' [] None)\<lparr>hq_url := ''/metrics''\<rparr>) sampleServiceWorld
      = Some (r, sampleServiceWorld\<lparr>sv_reads := 2, sv_telemetry := t\<rparr>)
    \<and> (\<forall>resp. r = Inr resp \<longrightarrow> resp = notFound)"
proof -
  let ?rq = "(sampleRequest ''POST'' [] None)\<lparr>hq_url := ''/metrics''\<rparr>"
  let ?url = "\<lparr> su_origin = ''o'', su_pathname = ''/metrics'', su_query = [] \<rparr>"
  have a: "\<not> isAuthorized ?rq (rt_bearerToken (sampleCtx sampleAnswer))"
    by (simp add: isAuthorized_def sampleRequest_def headersGet_def)
  have u: "re_parseUrl sampleRouteEnv (hq_url ?rq) = Some ?url" by (simp add: sampleRouteEnv_def)
  have p: "\<not> publicPath (sampleCtx sampleAnswer) (su_pathname ?url)" "telemetryPath (su_pathname ?url)"
    by (simp_all add: publicPath_def telemetryPath_def OPENAPI_PATH_def METRICS_PATH_def sampleCtx_def)
  let ?w = "sampleServiceWorld\<lparr>sv_reads := Suc (sv_reads sampleServiceWorld)\<rparr>"
  obtain resp where d: "dispatchRoute (sampleCtx sampleAnswer) sampleRouteEnv ?rq ?url (js_upper (hq_method ?rq)) (su_pathname ?url) ?w
      = Some (Inr resp, ?w)"
    using dispatchRoute_refused [OF a p(1)] by blast
  obtain r w' where "measured (sampleCtx sampleAnswer) (su_pathname ?url) (js_upper (hq_method ?rq))
      (rt_now (sampleCtx sampleAnswer) (sv_reads sampleServiceWorld)) resp ?w = (r, w')" by fastforce
  with d u have run: "fetchApp (sampleCtx sampleAnswer) sampleRouteEnv ?rq sampleServiceWorld = Some (r, w')"
    by (simp only: fetchApp_def Let_def option.case prod.case sum.case)
  from operator_routes_need_the_token [OF a u p(1) run] p(2) run show ?thesis
    by (auto simp: sampleServiceWorld_def split: sum.splits)
qed

end
