(* ===== verification/Webhook_Payloads.thy ===== *)
theory Webhook_Payloads
  imports Json_Stringify
begin

section \<open>Payloads of webhook items\<close>

text \<open>
  The readers, clones and payload normalizers of \<open>packages/core/src/webhookNormalizer.ts\<close>.  A field is
  read through its property descriptor, so an accessor is never run: it reads as \<open>undefined\<close>.
  \<open>undefined\<close> results are \<open>None\<close>, or \<open>JUndef\<close> where they are stored.  An object is written as the list of
  its properties in the order of the assignments.  Strings are lists of 8-bit characters, so the line
  separators U+2028 and U+2029 do not occur.  The \<open>seen\<close> sets of the clones only stop cycles, and a
  \<open>jsval\<close> has none.
\<close>

subsection \<open>Readers\<close>

definition envelopeRecord :: "jsval \<Rightarrow> (string \<times> slot) list option" where
  "envelopeRecord v = (case v of JObj _ ps \<Rightarrow> Some ps | _ \<Rightarrow> None)"

definition arrayItems :: "jsval \<Rightarrow> slot list option" where
  "arrayItems v = (case v of JArr sls \<Rightarrow> Some sls | _ \<Rightarrow> None)"

definition readArrayDataItem :: "slot \<Rightarrow> jsval option" where
  "readArrayDataItem sl = (case sl of Data v \<Rightarrow> Some v | _ \<Rightarrow> None)"

definition MAX_ID_LENGTH :: nat where "MAX_ID_LENGTH = 256"

definition isSafeIdString :: "string \<Rightarrow> bool" where
  "isSafeIdString s = (s \<noteq> [] \<and> length s \<le> MAX_ID_LENGTH \<and> js_trim s \<noteq> []
     \<and> list_all (\<lambda>c. \<not> code_of c < 0x20 \<and> code_of c \<noteq> 0x7F) s)"

definition readSafeIdField :: "(string \<times> slot) list \<Rightarrow> string \<Rightarrow> string option" where
  "readSafeIdField ps k = (case readOwnDataField ps k of JStr s \<Rightarrow> if isSafeIdString s then Some s else None | _ \<Rightarrow> None)"

definition readStringField :: "(string \<times> slot) list \<Rightarrow> string \<Rightarrow> string option" where
  "readStringField ps k = (case readOwnDataField ps k of JStr s \<Rightarrow> Some s | _ \<Rightarrow> None)"

definition readNumberField :: "(string \<times> slot) list \<Rightarrow> string \<Rightarrow> jsnum option" where
  "readNumberField ps k = (case readOwnDataField ps k of JNum n \<Rightarrow> if isFiniteNum n then Some n else None | _ \<Rightarrow> None)"

definition readBooleanField :: "(string \<times> slot) list \<Rightarrow> string \<Rightarrow> bool option" where
  "readBooleanField ps k = (case readOwnDataField ps k of JBool b \<Rightarrow> Some b | _ \<Rightarrow> None)"

definition readMetadataPhoneNumberId :: "(string \<times> slot) list \<Rightarrow> string option" where
  "readMetadataPhoneNumberId ps = (case envelopeRecord (readOwnDataField ps ''metadata'') of
     None \<Rightarrow> None | Some ms \<Rightarrow> readSafeIdField ms ''phone_number_id'')"

text \<open>\<open>if (x !== undefined) out.k = x\<close>, for the readers above.\<close>

definition optionalField :: "string \<Rightarrow> jsval option \<Rightarrow> (string \<times> jsval) list" where
  "optionalField k v = (case v of None \<Rightarrow> [] | Some x \<Rightarrow> [(k, x)])"

definition strF :: "(string \<times> slot) list \<Rightarrow> string \<Rightarrow> string \<Rightarrow> (string \<times> jsval) list" where
  "strF ps wire k = optionalField k (map_option JStr (readStringField ps wire))"

definition idF :: "(string \<times> slot) list \<Rightarrow> string \<Rightarrow> string \<Rightarrow> (string \<times> jsval) list" where
  "idF ps wire k = optionalField k (map_option JStr (readSafeIdField ps wire))"

definition boolF :: "(string \<times> slot) list \<Rightarrow> string \<Rightarrow> string \<Rightarrow> (string \<times> jsval) list" where
  "boolF ps wire k = optionalField k (map_option JBool (readBooleanField ps wire))"

definition numF :: "(string \<times> slot) list \<Rightarrow> string \<Rightarrow> string \<Rightarrow> (string \<times> jsval) list" where
  "numF ps wire k = optionalField k (map_option JNum (readNumberField ps wire))"

text \<open>\<open>if (Object.keys(out).length > 0) target.k = out\<close>\<close>

definition objF :: "string \<Rightarrow> (string \<times> jsval) list \<Rightarrow> (string \<times> jsval) list" where
  "objF k kvs = (if kvs = [] then [] else [(k, jsObject kvs)])"

definition firstSome :: "'a option \<Rightarrow> 'a option \<Rightarrow> 'a option" where
  "firstSome a b = (case a of None \<Rightarrow> b | Some x \<Rightarrow> Some x)"

definition jsArr :: "jsval list \<Rightarrow> jsval" where
  "jsArr vs = JArr (map Data vs)"

text \<open>The loops over the items of an array: skip what is \<open>undefined\<close>, or give up at the first.\<close>

definition collectItems :: "(jsval \<Rightarrow> jsval option) \<Rightarrow> slot list \<Rightarrow> jsval list" where
  "collectItems f sls = concat (map (\<lambda>sl. case readArrayDataItem sl of None \<Rightarrow> []
     | Some v \<Rightarrow> (case f v of None \<Rightarrow> [] | Some x \<Rightarrow> [x])) sls)"

definition allItems :: "(jsval \<Rightarrow> jsval option) \<Rightarrow> slot list \<Rightarrow> jsval list option" where
  "allItems f sls = those (map (\<lambda>sl. case readArrayDataItem sl of None \<Rightarrow> None | Some v \<Rightarrow> f v) sls)"

definition collected :: "(jsval \<Rightarrow> jsval option) \<Rightarrow> jsval \<Rightarrow> jsval option" where
  "collected f v = (case arrayItems v of None \<Rightarrow> None
     | Some sls \<Rightarrow> (let out = collectItems f sls in if out = [] then None else Some (jsArr out)))"

subsection \<open>Clones\<close>

definition isUnsafePrototypeKey :: "string \<Rightarrow> bool" where
  "isUnsafePrototypeKey k = (k \<in> {''__proto__'', ''constructor'', ''prototype''})"

definition isAccessor :: "slot \<Rightarrow> bool" where
  "isAccessor sl = (case sl of Accessor _ \<Rightarrow> True | _ \<Rightarrow> False)"

function safeCloneMessageJsonValue :: "nat \<Rightarrow> jsval \<Rightarrow> jsval" where
  "safeCloneMessageJsonValue depth v = (if depth > 6 then JUndef else (case v of
     JNull \<Rightarrow> JNull
   | JBool b \<Rightarrow> JBool b
   | JStr s \<Rightarrow> JStr s
   | JNum n \<Rightarrow> if isFiniteNum n then JNum n else JUndef
   | JArr sls \<Rightarrow> if length sls > 50 then JUndef
       else (case allItems (\<lambda>x. let c = safeCloneMessageJsonValue (depth + 1) x in if c = JUndef then None else Some c) sls of
           None \<Rightarrow> JUndef | Some cs \<Rightarrow> jsArr cs)
   | JObj p ps \<Rightarrow>
       if p = OtherProto \<or> ''toJSON'' \<in> fst ` set ps \<or> list_ex (\<lambda>(k, sl). \<not> (isUnsafePrototypeKey k \<or> k = []) \<and> isAccessor sl) ps
       then JUndef
       else JObj NullProto (concat (map (\<lambda>(k, sl). if isUnsafePrototypeKey k \<or> k = [] then [] else
         (let c = safeCloneMessageJsonValue (depth + 1) (slot_value sl) in if c = JUndef then [] else [(k, Data c)])) ps))
   | _ \<Rightarrow> JUndef))"
  by pat_completeness auto
termination by (relation "measure (\<lambda>(depth, v). 7 - depth)") auto

definition messageClone :: "jsval \<Rightarrow> jsval" where
  "messageClone v = safeCloneMessageJsonValue 0 v"

text \<open>\<open>out[k] = v\<close> on a fresh object, one property after the other: \<open>__proto__\<close> is the setter of the
  prototype.\<close>

definition protoAfter :: "(string \<times> jsval) list \<Rightarrow> proto" where
  "protoAfter kvs = (case map_of kvs ''__proto__'' of
     Some JNull \<Rightarrow> NullProto
   | Some (JObj _ _) \<Rightarrow> OtherProto | Some (JArr _) \<Rightarrow> OtherProto | Some JFun \<Rightarrow> OtherProto
   | _ \<Rightarrow> ObjectProto)"

definition assignAll :: "(string \<times> jsval) list \<Rightarrow> jsval" where
  "assignAll kvs = JObj (protoAfter kvs) (map (\<lambda>(k, v). (k, Data v)) (filter (\<lambda>(k, v). k \<noteq> ''__proto__'') kvs))"

text \<open>The clone of template components; arrays and values take turns.\<close>

function (sequential) safeCloneTemplateComponents :: "nat \<Rightarrow> jsval \<Rightarrow> jsval"
    and safeCloneTemplateJsonValue :: "nat \<Rightarrow> jsval \<Rightarrow> jsval" where
  "safeCloneTemplateComponents depth v = (case v of
     JArr sls \<Rightarrow> if depth > 6 \<or> length sls > 20 then JUndef
       else (case allItems (\<lambda>x. let c = safeCloneTemplateJsonValue (depth + 1) x in if c = JUndef then None else Some c) sls of
           None \<Rightarrow> JUndef | Some cs \<Rightarrow> jsArr cs)
   | _ \<Rightarrow> JUndef)"
| "safeCloneTemplateJsonValue depth v = (if depth > 6 then JUndef else (case v of
     JNull \<Rightarrow> JNull
   | JBool b \<Rightarrow> JBool b
   | JStr s \<Rightarrow> if isSafeIdString s then JStr s else JUndef
   | JNum n \<Rightarrow> if isFiniteNum n then JNum n else JUndef
   | JArr sls \<Rightarrow> safeCloneTemplateComponents (depth + 1) v
   | JObj p ps \<Rightarrow>
       if p = OtherProto \<or> ''toJSON'' \<in> fst ` set ps \<or> list_ex (\<lambda>(k, sl). \<not> isSafeIdString k \<or> isAccessor sl) ps then JUndef
       else assignAll (concat (map (\<lambda>(k, sl).
         let c = safeCloneTemplateJsonValue (depth + 1) (slot_value sl) in if c = JUndef then [] else [(k, c)]) ps))
   | _ \<Rightarrow> JUndef))"
  by pat_completeness auto
termination by (relation "measure (\<lambda>x. case x of Inl (depth, v) \<Rightarrow> 8 - depth | Inr (depth, v) \<Rightarrow> 8 - depth)") auto

declare safeCloneMessageJsonValue.simps [simp del] safeCloneTemplateComponents.simps [simp del] safeCloneTemplateJsonValue.simps [simp del]

definition templateClone :: "jsval \<Rightarrow> jsval option" where
  "templateClone v = (case safeCloneTemplateComponents 0 v of JUndef \<Rightarrow> None | c \<Rightarrow> Some c)"

subsection \<open>Contacts\<close>

definition normalizeCallContact :: "jsval \<Rightarrow> jsval option" where
  "normalizeCallContact v = (case envelopeRecord v of None \<Rightarrow> None | Some ps \<Rightarrow>
     Some (jsObject ([(''raw'', v)] @ strF ps ''name'' ''name'' @ strF ps ''username'' ''username'' @ idF ps ''wa_id'' ''waId''
       @ idF ps ''user_id'' ''userId'' @ idF ps ''parent_user_id'' ''parentUserId'')))"

definition profileF :: "(string \<times> slot) list \<Rightarrow> (string \<times> jsval) list" where
  "profileF ps = (case envelopeRecord (readOwnDataField ps ''profile'') of None \<Rightarrow> []
     | Some pr \<Rightarrow> objF ''profile'' (strF pr ''name'' ''name''))"

definition normalizeFieldValueContact :: "jsval \<Rightarrow> jsval option" where
  "normalizeFieldValueContact v = (case envelopeRecord v of None \<Rightarrow> None | Some ps \<Rightarrow>
     (let out = idF ps ''wa_id'' ''waId'' @ profileF ps in
        if out = [] then None else Some (jsObject (out @ [(''raw'', messageClone v)]))))"

text \<open>A list of rows, each made of text fields; rows without any are left out.\<close>

definition rowsF :: "string \<Rightarrow> ((string \<times> slot) list \<Rightarrow> (string \<times> jsval) list) \<Rightarrow> (string \<times> slot) list \<Rightarrow> (string \<times> jsval) list" where
  "rowsF k row ps = optionalField k (collected (\<lambda>v. case envelopeRecord v of None \<Rightarrow> None
     | Some rs \<Rightarrow> if row rs = [] then None else Some (jsObject (row rs))) (readOwnDataField ps k))"

definition nameRow :: "(string \<times> slot) list \<Rightarrow> (string \<times> jsval) list" where
  "nameRow ns = strF ns ''formatted_name'' ''formattedName'' @ strF ns ''first_name'' ''firstName'' @ strF ns ''last_name'' ''lastName''
     @ strF ns ''middle_name'' ''middleName'' @ strF ns ''suffix'' ''suffix'' @ strF ns ''prefix'' ''prefix''"

definition addressRow :: "(string \<times> slot) list \<Rightarrow> (string \<times> jsval) list" where
  "addressRow rs = strF rs ''street'' ''street'' @ strF rs ''city'' ''city'' @ strF rs ''state'' ''state'' @ strF rs ''zip'' ''zip''
     @ strF rs ''country'' ''country'' @ strF rs ''country_code'' ''countryCode'' @ strF rs ''type'' ''type''"

definition recordF :: "string \<Rightarrow> ((string \<times> slot) list \<Rightarrow> (string \<times> jsval) list) \<Rightarrow> (string \<times> slot) list \<Rightarrow> (string \<times> jsval) list" where
  "recordF k row ps = (case envelopeRecord (readOwnDataField ps k) of None \<Rightarrow> [] | Some rs \<Rightarrow> objF k (row rs))"

definition normalizeContactsMessageContact :: "jsval \<Rightarrow> jsval option" where
  "normalizeContactsMessageContact v = (case envelopeRecord v of None \<Rightarrow> None | Some ps \<Rightarrow> Some (jsObject (
       recordF ''name'' nameRow ps
     @ rowsF ''phones'' (\<lambda>rs. strF rs ''phone'' ''phone'' @ strF rs ''type'' ''type'' @ idF rs ''wa_id'' ''waId'') ps
     @ rowsF ''emails'' (\<lambda>rs. strF rs ''email'' ''email'' @ strF rs ''type'' ''type'') ps
     @ rowsF ''addresses'' addressRow ps
     @ recordF ''org'' (\<lambda>rs. strF rs ''company'' ''company'' @ strF rs ''department'' ''department'' @ strF rs ''title'' ''title'') ps
     @ rowsF ''urls'' (\<lambda>rs. strF rs ''url'' ''url'' @ strF rs ''type'' ''type'') ps
     @ strF ps ''birthday'' ''birthday'' @ [(''raw'', messageClone v)])))"

subsection \<open>Message payloads\<close>

definition referredProduct :: "(string \<times> slot) list \<Rightarrow> (string \<times> jsval) list" where
  "referredProduct ps = (case envelopeRecord (readOwnDataField ps ''referred_product'') of None \<Rightarrow> []
     | Some rs \<Rightarrow> (case (readStringField rs ''catalog_id'', readStringField rs ''product_retailer_id'') of
         (Some c, Some p) \<Rightarrow> [(''referredProduct'', jsObject [(''catalogId'', JStr c), (''productRetailerId'', JStr p)])]
       | _ \<Rightarrow> []))"

definition normalizeMessageContext :: "jsval \<Rightarrow> jsval option" where
  "normalizeMessageContext v = (case envelopeRecord v of None \<Rightarrow> None | Some ps \<Rightarrow>
     (case firstSome (readSafeIdField ps ''message_id'') (readSafeIdField ps ''id'') of None \<Rightarrow> None
      | Some m \<Rightarrow> Some (jsObject ([(''messageId'', JStr m)] @ idF ps ''from'' ''from'' @ boolF ps ''forwarded'' ''forwarded''
          @ boolF ps ''frequently_forwarded'' ''frequentlyForwarded'' @ referredProduct ps))))"

definition normalizeMediaReference :: "jsval \<Rightarrow> jsval option" where
  "normalizeMediaReference v = (case envelopeRecord v of None \<Rightarrow> None | Some ps \<Rightarrow>
     (case (readSafeIdField ps ''id'', firstSome (readStringField ps ''mime_type'') (readStringField ps ''mimeType'')) of
        (Some i, Some t) \<Rightarrow> Some (jsObject ([(''id'', JStr i), (''mimeType'', JStr t)] @ strF ps ''sha256'' ''sha256''
          @ strF ps ''caption'' ''caption'' @ strF ps ''filename'' ''filename'' @ strF ps ''url'' ''url'' @ boolF ps ''voice'' ''voice''
          @ boolF ps ''animated'' ''animated''))
      | _ \<Rightarrow> None))"

definition normalizeLocationPayload :: "jsval \<Rightarrow> jsval option" where
  "normalizeLocationPayload v = (case envelopeRecord v of None \<Rightarrow> None | Some ps \<Rightarrow>
     (case (readNumberField ps ''latitude'', readNumberField ps ''longitude'') of
        (Some a, Some b) \<Rightarrow> Some (jsObject ([(''latitude'', JNum a), (''longitude'', JNum b)] @ strF ps ''name'' ''name'' @ strF ps ''address'' ''address''))
      | _ \<Rightarrow> None))"

definition normalizeReactionPayload :: "jsval \<Rightarrow> jsval option" where
  "normalizeReactionPayload v = (case envelopeRecord v of None \<Rightarrow> None | Some ps \<Rightarrow>
     (case (firstSome (readSafeIdField ps ''message_id'') (readSafeIdField ps ''messageId''), readOwnDataField ps ''emoji'') of
        (Some m, JStr e) \<Rightarrow> Some (jsObject [(''messageId'', JStr m), (''emoji'', JStr e)])
      | _ \<Rightarrow> None))"

definition normalizeButtonPayload :: "jsval \<Rightarrow> jsval option" where
  "normalizeButtonPayload v = (case envelopeRecord v of None \<Rightarrow> None | Some ps \<Rightarrow>
     (case readStringField ps ''text'' of None \<Rightarrow> None
      | Some t \<Rightarrow> Some (jsObject ([(''text'', JStr t)] @ strF ps ''payload'' ''payload''))))"

text \<open>The replies: \<open>tagged\<close> is \<open>{ type, <k>: { ... } }\<close>.\<close>

definition tagged :: "string \<Rightarrow> string \<Rightarrow> (string \<times> jsval) list \<Rightarrow> jsval option" where
  "tagged ty k kvs = Some (jsObject [(''type'', JStr ty), (k, jsObject kvs)])"

definition twoStrings :: "(string \<times> slot) list \<Rightarrow> string \<Rightarrow> string \<Rightarrow> string \<Rightarrow> string \<Rightarrow> (string \<times> jsval) list option" where
  "twoStrings ps w1 k1 w2 k2 = (case (readStringField ps w1, readStringField ps w2) of
     (Some a, Some b) \<Rightarrow> Some [(k1, JStr a), (k2, JStr b)] | _ \<Rightarrow> None)"

definition productItem :: "jsval \<Rightarrow> jsval option" where
  "productItem v = (case envelopeRecord v of None \<Rightarrow> None | Some ps \<Rightarrow> (case readStringField ps ''product_retailer_id'' of
     None \<Rightarrow> None | Some p \<Rightarrow> Some (jsObject [(''productRetailerId'', JStr p)])))"

definition callPermissionReply :: "(string \<times> slot) list \<Rightarrow> (string \<times> jsval) list" where
  "callPermissionReply ps =
     (case readStringField ps ''response'' of
        Some r \<Rightarrow> if r \<in> {''accept'', ''reject'', ''accepted'', ''rejected''} then [(''response'', JStr r)] else [] | None \<Rightarrow> [])
     @ strF ps ''expiration_timestamp'' ''expirationTimestamp'' @ boolF ps ''is_permanent'' ''isPermanent''
     @ (case readStringField ps ''response_source'' of
        Some r \<Rightarrow> if r \<in> {''user_action'', ''automatic''} then [(''responseSource'', JStr r)] else [] | None \<Rightarrow> [])"

definition replyOf :: "string \<Rightarrow> (string \<times> slot) list \<Rightarrow> jsval option" where
  "replyOf ty ps =
     (if ty = ''button_reply'' then Option.bind (twoStrings ps ''id'' ''id'' ''title'' ''title'') (tagged ty ''buttonReply'')
      else if ty = ''list_reply'' then Option.bind (twoStrings ps ''id'' ''id'' ''title'' ''title'')
        (\<lambda>kvs. tagged ty ''listReply'' (kvs @ strF ps ''description'' ''description''))
      else if ty = ''nfm_reply'' then tagged ty ''nfmReply'' (
        optionalField ''responseJson'' (map_option JStr (firstSome (readStringField ps ''response_json'') (readStringField ps ''responseJson'')))
        @ strF ps ''body'' ''body'' @ strF ps ''name'' ''name'')
      else if ty = ''product_reply'' then
        Option.bind (twoStrings ps ''catalog_id'' ''catalogId'' ''product_retailer_id'' ''productRetailerId'') (tagged ty ''productReply'')
      else if ty = ''product_list_reply'' then
        (case (readStringField ps ''catalog_id'', arrayItems (readOwnDataField ps ''product_items'')) of
           (Some c, Some sls) \<Rightarrow> Option.bind (allItems productItem sls)
             (\<lambda>xs. tagged ty ''productListReply'' [(''catalogId'', JStr c), (''productItems'', jsArr xs)])
         | _ \<Rightarrow> None)
      else if ty = ''cta_url_reply'' then
        Option.bind (twoStrings ps ''display_text'' ''displayText'' ''url'' ''url'') (tagged ty ''ctaUrlReply'')
      else tagged ty ''callPermissionReply'' (callPermissionReply ps))"

definition replyTypes :: "string list" where
  "replyTypes = [''button_reply'', ''list_reply'', ''nfm_reply'', ''product_reply'', ''product_list_reply'', ''cta_url_reply'', ''call_permission_reply'']"

definition definedValue :: "jsval \<Rightarrow> jsval option" where
  "definedValue v = (if v = JUndef then None else Some v)"

definition normalizeInteractivePayload :: "jsval \<Rightarrow> jsval option" where
  "normalizeInteractivePayload v = (case envelopeRecord v of None \<Rightarrow> None | Some ps \<Rightarrow>
     (case readStringField ps ''type'' of None \<Rightarrow> None
      | Some ty \<Rightarrow> if ty \<in> set replyTypes
          then Option.bind (envelopeRecord (readOwnDataField ps ty)) (replyOf ty)
          else definedValue (messageClone v)))"

definition copyMessageBase :: "jsval \<Rightarrow> (string \<times> slot) list \<Rightarrow> string \<Rightarrow> (string \<times> jsval) list option" where
  "copyMessageBase raw ps ty = (case (readSafeIdField ps ''id'', readSafeIdField ps ''from'') of
     (Some i, Some f) \<Rightarrow> Some ([(''id'', JStr i), (''from'', JStr f), (''type'', JStr ty)] @ strF ps ''timestamp'' ''timestamp''
       @ optionalField ''context'' (normalizeMessageContext (readOwnDataField ps ''context'')) @ [(''raw'', raw)])
   | _ \<Rightarrow> None)"

definition isJsArray :: "jsval \<Rightarrow> bool" where
  "isJsArray v = (arrayItems v \<noteq> None)"

definition unsupportedF :: "(string \<times> slot) list \<Rightarrow> (string \<times> jsval) list" where
  "unsupportedF ps = (case envelopeRecord (readOwnDataField ps ''unsupported'') of None \<Rightarrow> []
     | Some us \<Rightarrow> [(''unsupported'', jsObject (strF us ''type'' ''type'' @ strF us ''title'' ''title''
         @ strF us ''description'' ''description'' @ [(''raw'', readOwnDataField ps ''unsupported'')]))])
     @ (let errors = messageClone (readOwnDataField ps ''errors'') in if isJsArray errors then [(''errors'', errors)] else [])"

definition interactiveF :: "(string \<times> slot) list \<Rightarrow> (string \<times> jsval) list" where
  "interactiveF ps = (case normalizeInteractivePayload (readOwnDataField ps ''interactive'') of None \<Rightarrow> []
     | Some i \<Rightarrow> [(''interactive'', i)] @ (if optField i ''type'' = JStr ''call_permission_reply''
         then idF ps ''from_user_id'' ''fromUserId'' @ idF ps ''from_parent_user_id'' ''fromParentUserId'' else []))"

text \<open>The part of a message that its type decides; \<open>None\<close> for the types that are cloned as a whole.\<close>

definition typedPart :: "string \<Rightarrow> (string \<times> slot) list \<Rightarrow> (string \<times> jsval) list option" where
  "typedPart ty ps =
     (if ty = ''text'' then Some (optionalField ''text'' (definedValue (messageClone (readOwnDataField ps ''text''))))
      else if ty \<in> {''image'', ''video'', ''audio'', ''document'', ''sticker''} then Some (optionalField ty (normalizeMediaReference (readOwnDataField ps ty)))
      else if ty = ''interactive'' then Some (interactiveF ps)
      else if ty = ''location'' then Some (optionalField ''location'' (normalizeLocationPayload (readOwnDataField ps ''location'')))
      else if ty = ''reaction'' then Some (optionalField ''reaction'' (normalizeReactionPayload (readOwnDataField ps ''reaction'')))
      else if ty = ''button'' then Some (optionalField ''button'' (normalizeButtonPayload (readOwnDataField ps ''button'')))
      else if ty = ''contacts'' then Some (case arrayItems (readOwnDataField ps ''contacts'') of None \<Rightarrow> []
        | Some sls \<Rightarrow> [(''contacts'', jsArr (collectItems normalizeContactsMessageContact sls))])
      else if ty = ''unsupported'' then Some (unsupportedF ps)
      else None)"

definition normalizeMessagePayload :: "jsval \<Rightarrow> (string \<times> slot) list \<Rightarrow> jsval option" where
  "normalizeMessagePayload raw ps = (case readStringField ps ''type'' of None \<Rightarrow> None
     | Some ty \<Rightarrow> (case copyMessageBase raw ps ty of None \<Rightarrow> None
       | Some head \<Rightarrow> (let base = head @ idF ps ''group_id'' ''groupId'' in
           case typedPart ty ps of
             Some part \<Rightarrow> Some (jsObject (base @ part))
           | None \<Rightarrow> (let c = messageClone raw in
               if envelopeRecord c \<noteq> None then Some c else Some (jsObject base)))))"

subsection \<open>Account payloads\<close>

text \<open>A part with \<open>raw\<close> first; it is kept when something else was assigned.\<close>

definition rawPart :: "string \<Rightarrow> jsval \<Rightarrow> (string \<times> jsval) list \<Rightarrow> (string \<times> jsval) list" where
  "rawPart k raw kvs = (if kvs = [] then [] else [(k, jsObject ((''raw'', raw) # kvs))])"

definition disconnectionInfo :: "(string \<times> slot) list \<Rightarrow> (string \<times> jsval) list" where
  "disconnectionInfo ps = (case envelopeRecord (readOwnDataField ps ''disconnection_info'') of None \<Rightarrow> []
     | Some ds \<Rightarrow> [(''disconnectionInfo'', jsObject ((''raw'', readOwnDataField ps ''disconnection_info'')
         # strF ds ''reason'' ''reason'' @ strF ds ''partner_id'' ''partnerId'' @ strF ds ''partner_name'' ''partnerName''))])"

definition phoneNumberQuality :: "jsval \<Rightarrow> (string \<times> slot) list \<Rightarrow> (string \<times> jsval) list" where
  "phoneNumberQuality raw ps = rawPart ''phoneNumberQuality'' raw (strF ps ''display_phone_number'' ''displayPhoneNumber''
     @ strF ps ''old_limit'' ''oldLimit'' @ strF ps ''current_limit'' ''currentLimit''
     @ strF ps ''max_daily_conversations_per_business'' ''maxDailyConversationsPerBusiness'')"

definition marketingMessages :: "jsval \<Rightarrow> (string \<times> slot) list \<Rightarrow> (string \<times> jsval) list" where
  "marketingMessages raw ps = rawPart ''marketingMessages'' raw (
     (case envelopeRecord (readOwnDataField ps ''waba_info'') of None \<Rightarrow> []
      | Some ws \<Rightarrow> strF ws ''waba_id'' ''wabaId'' @ strF ws ''owner_business_id'' ''ownerBusinessId'')
     @ strF ps ''marketing_messages_onboarding_status'' ''onboardingStatus'' @ strF ps ''marketing_messages_lite_api_status'' ''liteApiStatus'')"

definition alertPart :: "(string \<times> slot) list \<Rightarrow> (string \<times> jsval) list" where
  "alertPart ps = (case envelopeRecord (readOwnDataField ps ''alert_info'') of None \<Rightarrow> []
     | Some al \<Rightarrow> rawPart ''alert'' (readOwnDataField ps ''alert_info'') (strF ps ''entity_type'' ''entityType'' @ strF ps ''entity_id'' ''entityId''
         @ strF al ''alert_severity'' ''severity'' @ strF al ''alert_status'' ''status'' @ strF al ''alert_type'' ''type''
         @ strF al ''alert_description'' ''description''))"

definition normalizeGenericAccountPayload :: "jsval \<Rightarrow> (string \<times> slot) list \<Rightarrow> jsval option" where
  "normalizeGenericAccountPayload raw ps = (let out = strF ps ''event'' ''event'' @ disconnectionInfo ps @ phoneNumberQuality raw ps
       @ marketingMessages raw ps @ alertPart ps in
     if out = [] then None else Some (jsObject out))"

definition templateEvents :: "string list" where
  "templateEvents = [''message_template_status_update'', ''message_template_quality_update'', ''template_category_update'',
     ''message_template_components_update'']"

definition normalizeTemplateAccountPayload :: "string \<Rightarrow> (string \<times> slot) list \<Rightarrow> jsval option" where
  "normalizeTemplateAccountPayload eventName ps = (if eventName \<notin> set templateEvents then None
     else (case (readSafeIdField ps ''message_template_id'', readSafeIdField ps ''message_template_name'', readSafeIdField ps ''message_template_language'') of
        (Some i, Some n, Some l) \<Rightarrow> Some (jsObject ([(''eventName'', JStr eventName), (''id'', JStr i), (''name'', JStr n), (''language'', JStr l)]
          @ idF ps ''event'' ''event'' @ idF ps ''reason'' ''reason''
          @ optionalField ''qualityScore'' (map_option JStr (firstSome (readSafeIdField ps ''new_quality_score'') (readSafeIdField ps ''quality_score'')))
          @ idF ps ''previous_quality_score'' ''previousQualityScore''
          @ optionalField ''category'' (map_option JStr (firstSome (readSafeIdField ps ''new_category'') (readSafeIdField ps ''category'')))
          @ idF ps ''previous_category'' ''previousCategory'' @ optionalField ''components'' (templateClone (readOwnDataField ps ''components''))))
      | _ \<Rightarrow> None))"

subsection \<open>Group payloads\<close>

definition normalizeGroupParticipant :: "jsval \<Rightarrow> jsval option" where
  "normalizeGroupParticipant v = (case envelopeRecord v of None \<Rightarrow> None | Some ps \<Rightarrow> (case readSafeIdField ps ''wa_id'' of
     None \<Rightarrow> None | Some w \<Rightarrow> Some (jsObject [(''waId'', JStr w)])))"

definition removedParticipant :: "jsval \<Rightarrow> jsval option" where
  "removedParticipant v = (case envelopeRecord v of None \<Rightarrow> None
     | Some ps \<Rightarrow> Some (jsObject (strF ps ''input'' ''input'' @ idF ps ''wa_id'' ''waId'')))"

definition normalizeGroupErrors :: "(string \<times> slot) list \<Rightarrow> (string \<times> jsval) list" where
  "normalizeGroupErrors ps = (let c = messageClone (readOwnDataField ps ''errors'') in if isJsArray c then [(''errors'', c)] else [])"

definition failedParticipant :: "jsval \<Rightarrow> jsval option" where
  "failedParticipant v = (case envelopeRecord v of None \<Rightarrow> None
     | Some ps \<Rightarrow> Some (jsObject (strF ps ''input'' ''input'' @ idF ps ''wa_id'' ''waId'' @ normalizeGroupErrors ps)))"

definition participantsF :: "string \<Rightarrow> string \<Rightarrow> (jsval \<Rightarrow> jsval option) \<Rightarrow> (string \<times> slot) list \<Rightarrow> (string \<times> jsval) list" where
  "participantsF wire k f ps = optionalField k (case arrayItems (readOwnDataField ps wire) of None \<Rightarrow> None
     | Some sls \<Rightarrow> map_option jsArr (allItems f sls))"

definition textOr :: "string option \<Rightarrow> jsval" where
  "textOr v = JStr (case v of None \<Rightarrow> [] | Some s \<Rightarrow> s)"

definition normalizeGroupMetadata :: "(string \<times> slot) list \<Rightarrow> jsval" where
  "normalizeGroupMetadata ps = (let ms = (case envelopeRecord (readOwnDataField ps ''metadata'') of None \<Rightarrow> [] | Some m \<Rightarrow> m) in
     jsObject [(''displayPhoneNumber'', textOr (readStringField ms ''display_phone_number'')),
       (''phoneNumberId'', textOr (readSafeIdField ms ''phone_number_id''))])"

definition groupHead :: "(string \<times> slot) list \<Rightarrow> string option \<Rightarrow> (string \<times> jsval) list" where
  "groupHead ps groupId = [(''messagingProduct'', JStr ''whatsapp''), (''metadata'', normalizeGroupMetadata ps)]
     @ optionalField ''groupId'' (map_option JStr groupId) @ [(''type'', textOr (readStringField ps ''type''))]"

definition joinApprovalF :: "(string \<times> slot) list \<Rightarrow> (string \<times> jsval) list" where
  "joinApprovalF ps = (case readStringField ps ''join_approval_mode'' of None \<Rightarrow> []
     | Some j \<Rightarrow> if j \<in> {''auto_approve'', ''approval_required''} then [(''joinApprovalMode'', JStr j)] else [])"

definition normalizeGroupLifecyclePayload :: "jsval \<Rightarrow> (string \<times> slot) list \<Rightarrow> jsval" where
  "normalizeGroupLifecyclePayload raw ps = jsObject (groupHead ps None @ idF ps ''request_id'' ''requestId'' @ idF ps ''group_id'' ''groupId''
     @ strF ps ''subject'' ''subject'' @ strF ps ''invite_link'' ''inviteLink'' @ joinApprovalF ps @ normalizeGroupErrors ps @ [(''raw'', raw)])"

definition normalizeGroupParticipantsPayload :: "jsval \<Rightarrow> (string \<times> slot) list \<Rightarrow> string \<Rightarrow> jsval" where
  "normalizeGroupParticipantsPayload raw ps groupId = jsObject (groupHead ps (Some groupId) @ strF ps ''reason'' ''reason''
     @ idF ps ''initiated_by'' ''initiatedBy'' @ idF ps ''request_id'' ''requestId'' @ idF ps ''join_request_id'' ''joinRequestId''
     @ idF ps ''wa_id'' ''waId'' @ participantsF ''added_participants'' ''addedParticipants'' normalizeGroupParticipant ps
     @ participantsF ''removed_participants'' ''removedParticipants'' removedParticipant ps
     @ participantsF ''failed_participants'' ''failedParticipants'' failedParticipant ps @ normalizeGroupErrors ps @ [(''raw'', raw)])"

definition normalizeGroupSettingResult :: "jsval \<Rightarrow> jsval option" where
  "normalizeGroupSettingResult v = (case envelopeRecord v of None \<Rightarrow> None | Some ps \<Rightarrow>
     (let out = strF ps ''text'' ''text'' @ strF ps ''mime_type'' ''mimeType'' @ strF ps ''sha256'' ''sha256''
        @ boolF ps ''update_successful'' ''updateSuccessful'' @ normalizeGroupErrors ps in
      if out = [] then None else Some (jsObject out)))"

definition settingF :: "string \<Rightarrow> string \<Rightarrow> (string \<times> slot) list \<Rightarrow> (string \<times> jsval) list" where
  "settingF wire k ps = optionalField k (normalizeGroupSettingResult (readOwnDataField ps wire))"

definition normalizeGroupSettingsPayload :: "jsval \<Rightarrow> (string \<times> slot) list \<Rightarrow> string \<Rightarrow> jsval" where
  "normalizeGroupSettingsPayload raw ps groupId = jsObject (groupHead ps (Some groupId) @ settingF ''group_subject'' ''groupSubject'' ps
     @ settingF ''group_description'' ''groupDescription'' ps @ settingF ''profile_picture'' ''profilePicture'' ps
     @ normalizeGroupErrors ps @ [(''raw'', raw)])"

definition normalizeGroupStatusPayload :: "jsval \<Rightarrow> (string \<times> slot) list \<Rightarrow> string \<Rightarrow> jsval" where
  "normalizeGroupStatusPayload raw ps groupId = jsObject (groupHead ps (Some groupId) @ [(''raw'', raw)])"

text \<open>\<open>makeGroupItemPayload\<close>: the data properties of the group, with two of the value's on top.\<close>

definition dataProps :: "(string \<times> slot) list \<Rightarrow> (string \<times> jsval) list" where
  "dataProps ps = concat (map (\<lambda>(k, sl). case sl of Data v \<Rightarrow> [(k, v)] | _ \<Rightarrow> []) ps)"

definition assignOver :: "string \<Rightarrow> jsval \<Rightarrow> (string \<times> jsval) list \<Rightarrow> (string \<times> jsval) list" where
  "assignOver k v kvs = (if v = JUndef then kvs
     else if k \<in> fst ` set kvs then map (\<lambda>(k', u). if k' = k then (k', v) else (k', u)) kvs else kvs @ [(k, v)])"

definition makeGroupItemPayload :: "(string \<times> slot) list \<Rightarrow> (string \<times> slot) list \<Rightarrow> jsval" where
  "makeGroupItemPayload valuePs groupPs = assignAll (assignOver ''metadata'' (readOwnDataField valuePs ''metadata'')
     (assignOver ''messaging_product'' (readOwnDataField valuePs ''messaging_product'') (dataProps groupPs)))"

subsection \<open>User preferences, system events, opened chats\<close>

definition normalizeUserPreferencePayload :: "jsval \<Rightarrow> (string \<times> slot) list \<Rightarrow> (string \<times> string \<times> string \<times> jsval) option" where
  "normalizeUserPreferencePayload item ps =
     (case (readSafeIdField ps ''wa_id'', readStringField ps ''category'', readStringField ps ''timestamp'', readStringField ps ''preference'') of
        (Some w, Some c, Some t, Some p) \<Rightarrow> if p \<in> {''opt_in'', ''opt_out''}
          then Some (w, c, t, jsObject [(''waId'', JStr w), (''category'', JStr c), (''preference'', JStr p), (''timestamp'', JStr t), (''raw'', item)])
          else None
      | _ \<Rightarrow> None)"

text \<open>The type and the stable part of a system event, its timestamp, and the payload.\<close>

definition normalizeSystemPayload :: "jsval \<Rightarrow> (string \<times> slot) list \<Rightarrow> (string \<times> string \<times> string option \<times> jsval) option" where
  "normalizeSystemPayload item ps = (let stamp = readStringField ps ''timestamp''; wire = readStringField ps ''type'' in
     if wire = Some ''phone_number_change'' then (case readSafeIdField ps ''new_phone_number'' of None \<Rightarrow> None
       | Some n \<Rightarrow> Some (''phoneNumberChange'', n, stamp, jsObject ([(''type'', JStr ''phoneNumberChange'')] @ strF ps ''timestamp'' ''timestamp''
           @ [(''phoneNumberChange'', jsObject ([(''newPhoneNumber'', JStr n), (''raw'', item)]
               @ strF ps ''mobile_display_name'' ''mobileDisplayName'' @ strF ps ''old_phone_number'' ''oldPhoneNumber'')), (''raw'', item)])))
     else if wire = Some ''identity_change'' then
       (case (readSafeIdField ps ''wa_id'', readBooleanField ps ''acknowledged'', readStringField ps ''created_timestamp'') of
          (Some w, Some a, Some c) \<Rightarrow> Some (''identityChange'', w @ '':'' @ c, stamp, jsObject ([(''type'', JStr ''identityChange'')]
            @ strF ps ''timestamp'' ''timestamp'' @ [(''identityChange'', jsObject ([(''waId'', JStr w), (''acknowledged'', JBool a),
                (''createdTimestamp'', JStr c), (''raw'', item)] @ strF ps ''hash'' ''hash'')), (''raw'', item)]))
        | _ \<Rightarrow> None)
     else None)"

definition contactMatching :: "string \<Rightarrow> jsval \<Rightarrow> jsval option" where
  "contactMatching waId v = (case envelopeRecord v of None \<Rightarrow> None | Some ps \<Rightarrow>
     if readSafeIdField ps ''wa_id'' = Some waId
     then Some (jsObject ([(''waId'', JStr waId), (''raw'', messageClone v)] @ profileF ps)) else None)"

definition findContactByWaId :: "jsval \<Rightarrow> string \<Rightarrow> jsval option" where
  "findContactByWaId v waId = (case arrayItems v of None \<Rightarrow> None | Some sls \<Rightarrow>
     (case collectItems (contactMatching waId) sls of [] \<Rightarrow> None | c # _ \<Rightarrow> Some c))"

text \<open>The sender, the timestamp and the payload.\<close>

definition normalizeChatOpenedPayload :: "jsval \<Rightarrow> (string \<times> slot) list \<Rightarrow> (string \<times> slot) list \<Rightarrow> (string \<times> string option \<times> jsval) option" where
  "normalizeChatOpenedPayload raw ps payload = (case (readStringField ps ''type'', readSafeIdField ps ''from'') of
     (Some t, Some f) \<Rightarrow> Some (f, readStringField ps ''timestamp'', jsObject ([(''type'', JStr t), (''from'', JStr f)]
       @ strF ps ''timestamp'' ''timestamp'' @ [(''raw'', raw)]
       @ optionalField ''contact'' (findContactByWaId (readOwnDataField payload ''contacts'') f)))
   | _ \<Rightarrow> None)"

end
