(* ===== verification/Webhook_Normalizer.thy ===== *)
theory Webhook_Normalizer
  imports Webhook_Payloads Graph_Errors
begin

section \<open>The webhook normalizer\<close>

text \<open>
  \<open>normalizeWebhookEnvelope\<close> of \<open>packages/core/src/webhookNormalizer.ts\<close> and the functions it calls on
  each change.  The accumulator is a record; an update is the object the code builds, its kind and id
  apart.  \<open>Number\<close> on a string and the clock are parameters: \<open>clock n\<close> is the \<open>n\<close>-th reading.  Times are
  exact: the product with 1000 is not rounded.
\<close>

record normalizer_env =
  ne_toNumber :: "string \<Rightarrow> jsnum"
  ne_clock :: "nat \<Rightarrow> int"

datatype skipped_reason = MalformedEntry | MalformedChange | MalformedField | DuplicateUpdateId | UnsupportedField

record skipped_update =
  sk_reason :: skipped_reason
  sk_path :: string
  sk_detail :: string

record update =
  up_kind :: string
  up_id :: string
  up_value :: jsval

record accumulator =
  ac_updates :: "update list"
  ac_skipped :: "skipped_update list"
  ac_seenKeys :: "string list"
  ac_overflow :: nat
  ac_limitHit :: bool
  ac_reads :: nat

subsection \<open>Timestamps\<close>

definition SANITY_MAX_TS_MS :: int where "SANITY_MAX_TS_MS = 253402300799999"

definition saneMs :: "jsnum \<Rightarrow> int option" where
  "saneMs n = (case n of
     Fin x \<Rightarrow> if x > 0 \<and> 0 < \<lfloor>x * 1000\<rfloor> \<and> \<lfloor>x * 1000\<rfloor> \<le> SANITY_MAX_TS_MS then Some \<lfloor>x * 1000\<rfloor> else None
   | _ \<Rightarrow> None)"

text \<open>\<open>parseTimestampMs\<close> without its fallback.\<close>

definition timestampMs :: "(string \<Rightarrow> jsnum) \<Rightarrow> jsval \<Rightarrow> int option" where
  "timestampMs toNumber v = (case v of
     JStr s \<Rightarrow> if s = [] then None else saneMs (toNumber s)
   | JNum n \<Rightarrow> saneMs n
   | _ \<Rightarrow> None)"

definition readClock :: "normalizer_env \<Rightarrow> accumulator \<Rightarrow> int \<times> accumulator" where
  "readClock env acc = (ne_clock env (ac_reads acc), acc\<lparr>ac_reads := Suc (ac_reads acc)\<rparr>)"

definition timestampOrClock :: "normalizer_env \<Rightarrow> jsval \<Rightarrow> accumulator \<Rightarrow> int \<times> accumulator" where
  "timestampOrClock env v acc = (case timestampMs (ne_toNumber env) v of Some ms \<Rightarrow> (ms, acc) | None \<Rightarrow> readClock env acc)"

definition timestampOr :: "normalizer_env \<Rightarrow> jsval \<Rightarrow> int \<Rightarrow> int" where
  "timestampOr env v fallback = (case timestampMs (ne_toNumber env) v of Some ms \<Rightarrow> ms | None \<Rightarrow> fallback)"

definition parseEntryTime :: "normalizer_env \<Rightarrow> jsval \<Rightarrow> accumulator \<Rightarrow> int \<times> accumulator" where
  "parseEntryTime env v acc = (case v of
     JNum (Fin x) \<Rightarrow> if x > 0 then (\<lfloor>x * 1000\<rfloor>, acc) else readClock env acc
   | _ \<Rightarrow> readClock env acc)"

subsection \<open>The accumulator\<close>

definition pushSkip :: "skipped_reason \<Rightarrow> string \<Rightarrow> string \<Rightarrow> accumulator \<Rightarrow> accumulator" where
  "pushSkip reason path detail acc =
     acc\<lparr>ac_skipped := ac_skipped acc @ [\<lparr> sk_reason = reason, sk_path = path, sk_detail = detail \<rparr>]\<rparr>"

definition updateKey :: "update \<Rightarrow> string" where
  "updateKey u = up_kind u @ [CHR 0x00] @ up_id u"

definition pushUpdate :: "nat \<Rightarrow> update \<Rightarrow> string \<Rightarrow> accumulator \<Rightarrow> accumulator" where
  "pushUpdate limit u path acc =
     (if updateKey u \<in> set (ac_seenKeys acc) then pushSkip DuplicateUpdateId path (up_id u) acc
      else if length (ac_updates acc) \<ge> limit then acc\<lparr>ac_overflow := ac_overflow acc + 1, ac_limitHit := True\<rparr>
      else acc\<lparr>ac_seenKeys := updateKey u # ac_seenKeys acc, ac_updates := ac_updates acc @ [u]\<rparr>)"

text \<open>The head that all loops over items have: once the limit is hit, they only count.\<close>

fun eachItem :: "(nat \<Rightarrow> slot \<Rightarrow> accumulator \<Rightarrow> accumulator) \<Rightarrow> nat \<Rightarrow> slot list \<Rightarrow> accumulator \<Rightarrow> accumulator" where
  "eachItem f i [] acc = acc"
| "eachItem f i (sl # sls) acc = eachItem f (Suc i) sls
     (if ac_limitHit acc then acc\<lparr>ac_overflow := ac_overflow acc + 1\<rparr> else f i sl acc)"

text \<open>An item that has to be an object.\<close>

definition recordItem :: "string \<Rightarrow> string \<Rightarrow> (jsval \<Rightarrow> (string \<times> slot) list \<Rightarrow> accumulator \<Rightarrow> accumulator) \<Rightarrow> slot \<Rightarrow> accumulator \<Rightarrow> accumulator" where
  "recordItem path detail f sl acc = (case readArrayDataItem sl of
     None \<Rightarrow> pushSkip MalformedField path detail acc
   | Some v \<Rightarrow> (case envelopeRecord v of None \<Rightarrow> pushSkip MalformedField path detail acc | Some ps \<Rightarrow> f v ps acc))"

definition indexed :: "string \<Rightarrow> nat \<Rightarrow> string" where
  "indexed path i = path @ ''['' @ showNat i @ '']''"

text \<open>What the handlers of a change share: the limit, the environment, the path, the account, the entry's
  time and the change itself.\<close>

record change_context =
  cx_limit :: nat
  cx_env :: normalizer_env
  cx_path :: string
  cx_wabaId :: string
  cx_entryTimeMs :: int
  cx_rawChange :: jsval

definition msText :: "int \<Rightarrow> jsval" where
  "msText ms = JNum (Fin (of_int ms))"

definition makeUpdate :: "change_context \<Rightarrow> string \<Rightarrow> string \<Rightarrow> string option \<Rightarrow> int \<Rightarrow> (string \<times> jsval) list \<Rightarrow> update" where
  "makeUpdate cx kind updateId phone receivedAt part = \<lparr> up_kind = kind, up_id = updateId, up_value = jsObject (
     [(''kind'', JStr kind), (''updateId'', JStr updateId)] @ optionalField ''phoneNumberId'' (map_option JStr phone)
     @ [(''wabaId'', JStr (cx_wabaId cx)), (''receivedAt'', msText receivedAt)] @ part @ [(''rawChange'', cx_rawChange cx)]) \<rparr>"

text \<open>The value of a change with its phone number id.\<close>

definition withPhone :: "change_context \<Rightarrow> (string \<times> slot) list \<Rightarrow> (string \<Rightarrow> accumulator \<Rightarrow> accumulator) \<Rightarrow> accumulator \<Rightarrow> accumulator" where
  "withPhone cx value f acc = (case readMetadataPhoneNumberId value of
     None \<Rightarrow> pushSkip MalformedField (cx_path cx @ ''.value.metadata.phone_number_id'') ''missing-or-unsafe-phone-number-id'' acc
   | Some phone \<Rightarrow> f phone acc)"

definition arrayLoop :: "(string \<times> slot) list \<Rightarrow> string \<Rightarrow> (nat \<Rightarrow> slot \<Rightarrow> accumulator \<Rightarrow> accumulator) \<Rightarrow> accumulator \<Rightarrow> accumulator" where
  "arrayLoop value k f acc = (case arrayItems (readOwnDataField value k) of None \<Rightarrow> acc | Some sls \<Rightarrow> eachItem f 0 sls acc)"

subsection \<open>Messages and statuses\<close>

definition messageItem :: "change_context \<Rightarrow> string \<Rightarrow> jsval option \<Rightarrow> string \<Rightarrow> jsval \<Rightarrow> (string \<times> slot) list \<Rightarrow> accumulator \<Rightarrow> accumulator" where
  "messageItem cx phone contacts path raw ps acc = (case readSafeIdField ps ''id'' of
     None \<Rightarrow> pushSkip MalformedField path ''invalid-message-id'' acc
   | Some i \<Rightarrow> (case normalizeMessagePayload raw ps of
       None \<Rightarrow> pushSkip MalformedField path ''invalid-message'' acc
     | Some message \<Rightarrow> (case timestampOrClock (cx_env cx) (readOwnDataField ps ''timestamp'') acc of (receivedAt, acc') \<Rightarrow>
         pushUpdate (cx_limit cx) (makeUpdate cx ''message'' i (Some phone) receivedAt
           ([(''message'', message)] @ optionalField ''contacts'' contacts)) path acc')))"

definition conversationF :: "(string \<times> slot) list \<Rightarrow> (string \<times> jsval) list" where
  "conversationF ps = (case envelopeRecord (readOwnDataField ps ''conversation'') of None \<Rightarrow> []
     | Some cs \<Rightarrow> objF ''conversation'' (strF cs ''id'' ''id''
         @ (if envelopeRecord (readOwnDataField cs ''origin'') \<noteq> None then [(''origin'', messageClone (readOwnDataField cs ''origin''))] else [])
         @ strF cs ''expiration_timestamp'' ''expirationTimestamp''))"

definition pricingF :: "(string \<times> slot) list \<Rightarrow> (string \<times> jsval) list" where
  "pricingF ps = recordF ''pricing'' (\<lambda>rs. strF rs ''category'' ''category'' @ strF rs ''pricing_model'' ''pricingModel''
     @ boolF rs ''billable'' ''billable'') ps"

definition normalizedStatus :: "jsval \<Rightarrow> (string \<times> slot) list \<Rightarrow> string \<Rightarrow> jsval" where
  "normalizedStatus raw ps statusId = jsObject ([(''id'', JStr statusId)] @ idF ps ''recipient_id'' ''recipientId''
     @ strF ps ''recipient_type'' ''recipientType'' @ idF ps ''recipient_participant_id'' ''recipientParticipantId''
     @ strF ps ''status'' ''status'' @ strF ps ''timestamp'' ''timestamp'' @ [(''raw'', raw)] @ conversationF ps @ pricingF ps
     @ strF ps ''message_status'' ''messageStatus'' @ normalizeGroupErrors ps)"

definition statusItem :: "change_context \<Rightarrow> string \<Rightarrow> string \<Rightarrow> jsval \<Rightarrow> (string \<times> slot) list \<Rightarrow> accumulator \<Rightarrow> accumulator" where
  "statusItem cx phone path raw ps acc = (case readSafeIdField ps ''id'' of
     None \<Rightarrow> pushSkip MalformedField path ''invalid-status-id'' acc
   | Some i \<Rightarrow> (case timestampOrClock (cx_env cx) (readOwnDataField ps ''timestamp'') acc of (receivedAt, acc') \<Rightarrow>
       pushUpdate (cx_limit cx) (makeUpdate cx ''status'' i (Some phone) receivedAt [(''status'', normalizedStatus raw ps i)]) path acc'))"

definition valuePath :: "change_context \<Rightarrow> string \<Rightarrow> nat \<Rightarrow> string" where
  "valuePath cx k i = indexed (cx_path cx @ ''.value.'' @ k) i"

definition normalizeMessagesChange :: "change_context \<Rightarrow> (string \<times> slot) list \<Rightarrow> accumulator \<Rightarrow> accumulator" where
  "normalizeMessagesChange cx value = withPhone cx value (\<lambda>phone acc.
     let contacts = collected normalizeFieldValueContact (readOwnDataField value ''contacts'') in
     arrayLoop value ''statuses'' (\<lambda>i. recordItem (valuePath cx ''statuses'' i) ''status-not-an-object''
         (statusItem cx phone (valuePath cx ''statuses'' i)))
       (arrayLoop value ''messages'' (\<lambda>i. recordItem (valuePath cx ''messages'' i) ''message-not-an-object''
         (messageItem cx phone contacts (valuePath cx ''messages'' i))) acc))"

subsection \<open>Calls\<close>

definition timestampF :: "(string \<times> slot) list \<Rightarrow> (string \<times> jsval) list" where
  "timestampF ps = strF ps ''timestamp'' ''timestamp''"

definition callPayload :: "jsval \<Rightarrow> (string \<times> slot) list \<Rightarrow> string \<Rightarrow> string \<Rightarrow> jsval" where
  "callPayload raw ps i event = jsObject ([(''id'', JStr i), (''event'', JStr event)] @ idF ps ''from'' ''from'' @ idF ps ''to'' ''to''
     @ (case readOwnDataField ps ''direction'' of
          JStr d \<Rightarrow> if d \<in> {''USER_INITIATED'', ''BUSINESS_INITIATED''} then [(''direction'', JStr d)] else [] | _ \<Rightarrow> [])
     @ timestampF ps @ optionalField ''session'' (definedValue (readOwnDataField ps ''session''))
     @ strF ps ''status'' ''status'' @ strF ps ''start_time'' ''startTime'' @ strF ps ''end_time'' ''endTime'' @ numF ps ''duration'' ''duration''
     @ strF ps ''biz_opaque_callback_data'' ''bizOpaqueCallbackData'' @ strF ps ''cta_payload'' ''ctaPayload''
     @ strF ps ''deeplink_payload'' ''deeplinkPayload'' @ idF ps ''to_user_id'' ''toUserId'' @ idF ps ''to_parent_user_id'' ''toParentUserId''
     @ optionalField ''contacts'' (collected normalizeCallContact (readOwnDataField ps ''contacts'')) @ [(''raw'', raw)])"

text \<open>\<open>parseTimestampMs(...) || entryTimeMs\<close>\<close>

definition callTime :: "change_context \<Rightarrow> (string \<times> slot) list \<Rightarrow> accumulator \<Rightarrow> int \<times> accumulator" where
  "callTime cx ps acc = (case timestampOrClock (cx_env cx) (readOwnDataField ps ''timestamp'') acc of
     (ms, acc') \<Rightarrow> (if ms = 0 then cx_entryTimeMs cx else ms, acc'))"

definition callItem :: "change_context \<Rightarrow> string \<Rightarrow> string \<Rightarrow> jsval \<Rightarrow> (string \<times> slot) list \<Rightarrow> accumulator \<Rightarrow> accumulator" where
  "callItem cx phone path raw ps acc = (case (readSafeIdField ps ''id'', readStringField ps ''event'') of
     (Some i, Some event) \<Rightarrow>
       if event \<in> {''connect'', ''terminate''} then (case callTime cx ps acc of (receivedAt, acc') \<Rightarrow>
         pushUpdate (cx_limit cx) (makeUpdate cx (if event = ''connect'' then ''callConnect'' else ''callTerminate'') i (Some phone) receivedAt
           [(''call'', callPayload raw ps i event)]) path acc')
       else pushSkip MalformedField path ''invalid-call'' acc
   | _ \<Rightarrow> pushSkip MalformedField path ''invalid-call'' acc)"

definition callStatusPayload :: "jsval \<Rightarrow> (string \<times> slot) list \<Rightarrow> string \<Rightarrow> string \<Rightarrow> jsval" where
  "callStatusPayload raw ps i status = jsObject ([(''id'', JStr i), (''status'', JStr status)] @ idF ps ''recipient_id'' ''recipientId''
     @ timestampF ps @ idF ps ''recipient_user_id'' ''recipientUserId'' @ idF ps ''recipient_parent_user_id'' ''recipientParentUserId''
     @ strF ps ''biz_opaque_callback_data'' ''bizOpaqueCallbackData'' @ [(''raw'', raw)])"

definition callStatusItem :: "change_context \<Rightarrow> string \<Rightarrow> string \<Rightarrow> jsval \<Rightarrow> (string \<times> slot) list \<Rightarrow> accumulator \<Rightarrow> accumulator" where
  "callStatusItem cx phone path raw ps acc = (case (readSafeIdField ps ''id'', readStringField ps ''status'') of
     (Some i, Some status) \<Rightarrow>
       if status \<in> {''RINGING'', ''ACCEPTED'', ''REJECTED''} then (case callTime cx ps acc of (receivedAt, acc') \<Rightarrow>
         pushUpdate (cx_limit cx) (makeUpdate cx ''callStatus'' i (Some phone) receivedAt
           [(''callStatus'', callStatusPayload raw ps i status)]) path acc')
       else pushSkip MalformedField path ''invalid-call-status'' acc
   | _ \<Rightarrow> pushSkip MalformedField path ''invalid-call-status'' acc)"

definition normalizeCallsChange :: "change_context \<Rightarrow> (string \<times> slot) list \<Rightarrow> accumulator \<Rightarrow> accumulator" where
  "normalizeCallsChange cx value = withPhone cx value (\<lambda>phone acc.
     arrayLoop value ''statuses'' (\<lambda>i. recordItem (valuePath cx ''statuses'' i) ''call-status-not-an-object''
         (callStatusItem cx phone (valuePath cx ''statuses'' i)))
       (arrayLoop value ''calls'' (\<lambda>i. recordItem (valuePath cx ''calls'' i) ''call-not-an-object''
         (callItem cx phone (valuePath cx ''calls'' i))) acc))"

subsection \<open>Synthetic ids\<close>

definition syntheticChar :: "char \<Rightarrow> bool" where
  "syntheticChar c = (let n = code_of c in (65 \<le> n \<and> n \<le> 90) \<or> (97 \<le> n \<and> n \<le> 122) \<or> (48 \<le> n \<and> n \<le> 57) \<or> c = CHR ''_'' \<or> c = CHR ''-'')"

definition sanitizeSyntheticPart :: "string \<Rightarrow> string" where
  "sanitizeSyntheticPart s = map (\<lambda>c. if syntheticChar c then c else CHR ''_'') s"

definition sanitizePath :: "string \<Rightarrow> string" where
  "sanitizePath s = map (\<lambda>c. if syntheticChar c \<or> c \<in> {CHR ''['', CHR '']'', CHR ''.''} then c else CHR ''_'') s"

fun colons :: "string list \<Rightarrow> string" where
  "colons [] = []"
| "colons [s] = s"
| "colons (s # ss) = s @ '':'' @ colons ss"

definition deriveUserPreferenceSyntheticId :: "string \<Rightarrow> string \<Rightarrow> string \<Rightarrow> string \<Rightarrow> string \<Rightarrow> string" where
  "deriveUserPreferenceSyntheticId wabaId phone waId category timestamp =
     colons (map sanitizeSyntheticPart [''userPreferences'', wabaId, phone, waId, category, timestamp])"

definition deriveSystemSyntheticId :: "string \<Rightarrow> string \<Rightarrow> string \<Rightarrow> string \<Rightarrow> string \<Rightarrow> string" where
  "deriveSystemSyntheticId wabaId phone type stablePart path =
     colons (map sanitizeSyntheticPart [''system'', wabaId, phone, type, if stablePart = [] then path else stablePart])"

definition deriveChatOpenedSyntheticId :: "string \<Rightarrow> string \<Rightarrow> string \<Rightarrow> string option \<Rightarrow> string \<Rightarrow> string" where
  "deriveChatOpenedSyntheticId wabaId phone sender timestamp path =
     colons (map sanitizeSyntheticPart [''chatOpened'', wabaId, phone, sender, case timestamp of None \<Rightarrow> path | Some t \<Rightarrow> t])"

definition deriveSyntheticId :: "string \<Rightarrow> string \<Rightarrow> string \<Rightarrow> string \<Rightarrow> string" where
  "deriveSyntheticId prefix wabaId field path =
     colons [prefix, sanitizeSyntheticPart wabaId, sanitizeSyntheticPart field, sanitizePath path]"

definition deriveGroupSyntheticId :: "string \<Rightarrow> string \<Rightarrow> string \<Rightarrow> string \<Rightarrow> string option \<Rightarrow> string \<Rightarrow> string" where
  "deriveGroupSyntheticId kind wabaId type groupId requestId path =
     colons [kind, sanitizeSyntheticPart wabaId, sanitizeSyntheticPart type,
       if groupId = [] then ''no_group'' else sanitizeSyntheticPart groupId,
       case requestId of None \<Rightarrow> sanitizePath path | Some r \<Rightarrow> sanitizeSyntheticPart r]"

subsection \<open>User preferences, system events, opened chats\<close>

definition textOrUndef :: "string option \<Rightarrow> jsval" where
  "textOrUndef t = (case t of None \<Rightarrow> JUndef | Some s \<Rightarrow> JStr s)"

text \<open>A change whose value has to hold the array \<open>k\<close>.\<close>

definition requiredArray :: "change_context \<Rightarrow> (string \<times> slot) list \<Rightarrow> string \<Rightarrow> string \<Rightarrow>
    (string \<Rightarrow> string \<Rightarrow> jsval \<Rightarrow> (string \<times> slot) list \<Rightarrow> accumulator \<Rightarrow> accumulator) \<Rightarrow> accumulator \<Rightarrow> accumulator" where
  "requiredArray cx value k detail f = withPhone cx value (\<lambda>phone acc. case arrayItems (readOwnDataField value k) of
     None \<Rightarrow> pushSkip MalformedField (cx_path cx @ ''.value.'' @ k) detail acc
   | Some sls \<Rightarrow> eachItem (\<lambda>i. recordItem (valuePath cx k i) ''not-an-object'' (f phone (valuePath cx k i))) 0 sls acc)"

definition userPreferenceItem :: "change_context \<Rightarrow> string \<Rightarrow> string \<Rightarrow> jsval \<Rightarrow> (string \<times> slot) list \<Rightarrow> accumulator \<Rightarrow> accumulator" where
  "userPreferenceItem cx phone path raw ps acc = (case normalizeUserPreferencePayload raw ps of
     None \<Rightarrow> pushSkip MalformedField path ''invalid-user-preference'' acc
   | Some (waId, category, timestamp, preference) \<Rightarrow> pushUpdate (cx_limit cx)
       (makeUpdate cx ''userPreferences'' (deriveUserPreferenceSyntheticId (cx_wabaId cx) phone waId category timestamp) (Some phone)
         (timestampOr (cx_env cx) (JStr timestamp) (cx_entryTimeMs cx)) [(''preference'', preference)]) path acc)"

definition normalizeUserPreferencesChange :: "change_context \<Rightarrow> (string \<times> slot) list \<Rightarrow> accumulator \<Rightarrow> accumulator" where
  "normalizeUserPreferencesChange cx value =
     requiredArray cx value ''user_preferences'' ''missing-or-invalid-user-preferences'' (userPreferenceItem cx)"

definition systemItem :: "change_context \<Rightarrow> string \<Rightarrow> string \<Rightarrow> jsval \<Rightarrow> (string \<times> slot) list \<Rightarrow> accumulator \<Rightarrow> accumulator" where
  "systemItem cx phone path raw ps acc = (case normalizeSystemPayload raw ps of
     None \<Rightarrow> pushSkip MalformedField path ''invalid-system-event'' acc
   | Some (type, stablePart, timestamp, event) \<Rightarrow> pushUpdate (cx_limit cx)
       (makeUpdate cx ''system'' (deriveSystemSyntheticId (cx_wabaId cx) phone type stablePart path) (Some phone)
         (timestampOr (cx_env cx) (textOrUndef timestamp) (cx_entryTimeMs cx)) [(''system'', event)]) path acc)"

definition normalizeSystemChange :: "change_context \<Rightarrow> (string \<times> slot) list \<Rightarrow> accumulator \<Rightarrow> accumulator" where
  "normalizeSystemChange cx value = requiredArray cx value ''system'' ''missing-or-invalid-system'' (systemItem cx)"

definition normalizeChatOpenedChange :: "change_context \<Rightarrow> (string \<times> slot) list \<Rightarrow> accumulator \<Rightarrow> accumulator" where
  "normalizeChatOpenedChange cx value = withPhone cx value (\<lambda>phone acc.
     let path = cx_path cx @ ''.value.chat_opened''; raw = readOwnDataField value ''chat_opened'' in
     case envelopeRecord raw of
       None \<Rightarrow> pushSkip MalformedField path ''missing-or-invalid-chat-opened'' acc
     | Some ps \<Rightarrow> (case normalizeChatOpenedPayload raw ps value of
         None \<Rightarrow> pushSkip MalformedField path ''invalid-chat-opened'' acc
       | Some (sender, timestamp, chatOpened) \<Rightarrow> pushUpdate (cx_limit cx)
           (makeUpdate cx ''chatOpened'' (deriveChatOpenedSyntheticId (cx_wabaId cx) phone sender timestamp (cx_path cx)) (Some phone)
             (timestampOr (cx_env cx) (textOrUndef timestamp) (cx_entryTimeMs cx)) [(''chatOpened'', chatOpened)]) path acc))"

subsection \<open>Groups\<close>

definition groupPayload :: "string \<Rightarrow> jsval \<Rightarrow> (string \<times> slot) list \<Rightarrow> string \<Rightarrow> jsval" where
  "groupPayload kind raw ps groupId =
     (if kind = ''groupLifecycle'' then normalizeGroupLifecyclePayload raw ps
      else if kind = ''groupParticipants'' then normalizeGroupParticipantsPayload raw ps groupId
      else if kind = ''groupSettings'' then normalizeGroupSettingsPayload raw ps groupId
      else normalizeGroupStatusPayload raw ps groupId)"

definition pushGroupFieldUpdate :: "change_context \<Rightarrow> string \<Rightarrow> jsval \<Rightarrow> (string \<times> slot) list \<Rightarrow> string \<Rightarrow> int \<Rightarrow> accumulator \<Rightarrow> accumulator" where
  "pushGroupFieldUpdate cx kind raw ps path receivedAt acc = (case readMetadataPhoneNumberId ps of
     None \<Rightarrow> pushSkip MalformedField (path @ ''.metadata.phone_number_id'') ''missing-or-unsafe-phone-number-id'' acc
   | Some phone \<Rightarrow>
       let type = (case readStringField ps ''type'' of None \<Rightarrow> ''unknown'' | Some t \<Rightarrow> t); groupId = readSafeIdField ps ''group_id'' in
       if kind \<noteq> ''groupLifecycle'' \<and> groupId = None then pushSkip MalformedField (path @ ''.group_id'') ''missing-or-unsafe-group-id'' acc
       else let effective = (case groupId of None \<Rightarrow> [] | Some g \<Rightarrow> g) in
         pushUpdate (cx_limit cx)
           (makeUpdate cx kind (deriveGroupSyntheticId kind (cx_wabaId cx) type effective (readSafeIdField ps ''request_id'') path) (Some phone)
             receivedAt [(''group'', groupPayload kind raw ps effective)]) path acc)"

definition groupItem :: "change_context \<Rightarrow> string \<Rightarrow> (string \<times> slot) list \<Rightarrow> string \<Rightarrow> jsval \<Rightarrow> (string \<times> slot) list \<Rightarrow> accumulator \<Rightarrow> accumulator" where
  "groupItem cx kind value path raw ps acc = (let item = makeGroupItemPayload value ps in
     pushGroupFieldUpdate cx kind item (case envelopeRecord item of None \<Rightarrow> [] | Some is \<Rightarrow> is) path
       (timestampOr (cx_env cx) (readOwnDataField ps ''timestamp'') (cx_entryTimeMs cx)) acc)"

definition normalizeGroupFieldChange :: "change_context \<Rightarrow> string \<Rightarrow> jsval \<Rightarrow> (string \<times> slot) list \<Rightarrow> accumulator \<Rightarrow> accumulator" where
  "normalizeGroupFieldChange cx kind raw value = withPhone cx value (\<lambda>phone acc.
     case arrayItems (readOwnDataField value ''groups'') of
       Some sls \<Rightarrow> eachItem (\<lambda>i. recordItem (valuePath cx ''groups'' i) ''not-an-object'' (groupItem cx kind value (valuePath cx ''groups'' i))) 0 sls acc
     | None \<Rightarrow> pushGroupFieldUpdate cx kind raw value (cx_path cx @ ''.value'') (cx_entryTimeMs cx) acc)"

subsection \<open>A change\<close>

definition ACCOUNT_FIELDS :: "string list" where
  "ACCOUNT_FIELDS = [''account_update'', ''account_review_update'', ''account_alerts'', ''message_template_status_update'',
     ''message_template_quality_update'', ''message_template_components_update'', ''phone_number_quality_update'',
     ''phone_number_name_update'', ''business_status_update'', ''business_capability_update'', ''security'',
     ''template_category_update'', ''account_offboarded'', ''account_reconnected'']"

definition GROUP_FIELDS :: "(string \<times> string) list" where
  "GROUP_FIELDS = [(''group_lifecycle_update'', ''groupLifecycle''), (''group_participants_update'', ''groupParticipants''),
     (''group_settings_update'', ''groupSettings''), (''group_status_update'', ''groupStatus'')]"

definition accountChange :: "change_context \<Rightarrow> string \<Rightarrow> jsval \<Rightarrow> (string \<times> slot) list \<Rightarrow> accumulator \<Rightarrow> accumulator" where
  "accountChange cx field payload value acc = pushUpdate (cx_limit cx)
     (makeUpdate cx ''account'' (deriveSyntheticId ''account'' (cx_wabaId cx) field (cx_path cx)) None (cx_entryTimeMs cx)
       ([(''eventName'', JStr field)] @ optionalField ''template'' (normalizeTemplateAccountPayload field value)
        @ optionalField ''account'' (normalizeGenericAccountPayload payload value) @ [(''payload'', payload)])) (cx_path cx) acc"

definition unknownChange :: "change_context \<Rightarrow> string \<Rightarrow> accumulator \<Rightarrow> accumulator" where
  "unknownChange cx field acc = pushUpdate (cx_limit cx)
     (makeUpdate cx ''unknown'' (deriveSyntheticId ''unknown'' (cx_wabaId cx) field (cx_path cx)) None (cx_entryTimeMs cx)
       [(''field'', JStr field)]) (cx_path cx) acc"

definition fieldChange :: "change_context \<Rightarrow> string \<Rightarrow> jsval \<Rightarrow> (string \<times> slot) list \<Rightarrow> accumulator \<Rightarrow> accumulator" where
  "fieldChange cx field payload value =
     (if field = ''messages'' then normalizeMessagesChange cx value
      else if field = ''calls'' then normalizeCallsChange cx value
      else if field = ''user_preferences'' then normalizeUserPreferencesChange cx value
      else if field = ''system'' then normalizeSystemChange cx value
      else if field = ''chat_opened'' then normalizeChatOpenedChange cx value
      else (case map_of GROUP_FIELDS field of
          Some kind \<Rightarrow> normalizeGroupFieldChange cx kind payload value
        | None \<Rightarrow> if field \<in> set ACCOUNT_FIELDS then accountChange cx field payload value else unknownChange cx field))"

definition normalizeChange :: "nat \<Rightarrow> normalizer_env \<Rightarrow> jsval \<Rightarrow> string \<Rightarrow> string \<Rightarrow> int \<Rightarrow> accumulator \<Rightarrow> accumulator" where
  "normalizeChange limit env change path wabaId entryTimeMs acc = (case envelopeRecord change of
     None \<Rightarrow> pushSkip MalformedChange path ''not-an-object'' acc
   | Some ps \<Rightarrow> (case readOwnDataField ps ''field'' of
       JStr field \<Rightarrow> if field = [] then pushSkip MalformedChange path ''missing-or-invalid-field'' acc
         else (let payload = readOwnDataField ps ''value'' in case envelopeRecord payload of
             None \<Rightarrow> pushSkip MalformedChange path ''value-not-an-object'' acc
           | Some value \<Rightarrow> fieldChange \<lparr> cx_limit = limit, cx_env = env, cx_path = path, cx_wabaId = wabaId,
               cx_entryTimeMs = entryTimeMs, cx_rawChange = change \<rparr> field payload value acc)
     | _ \<Rightarrow> pushSkip MalformedChange path ''missing-or-invalid-field'' acc))"

subsection \<open>The envelope\<close>

definition changeItem :: "nat \<Rightarrow> normalizer_env \<Rightarrow> string \<Rightarrow> string \<Rightarrow> int \<Rightarrow> nat \<Rightarrow> slot \<Rightarrow> accumulator \<Rightarrow> accumulator" where
  "changeItem limit env entryPath wabaId entryTimeMs i sl acc = (let path = indexed (entryPath @ ''.changes'') i in
     case readArrayDataItem sl of
       None \<Rightarrow> pushSkip MalformedChange path ''not-an-object'' acc
     | Some change \<Rightarrow> normalizeChange limit env change path wabaId entryTimeMs acc)"

definition normalizeEntry :: "nat \<Rightarrow> normalizer_env \<Rightarrow> string \<Rightarrow> slot \<Rightarrow> accumulator \<Rightarrow> accumulator" where
  "normalizeEntry limit env path sl acc =
     (case Option.bind (readArrayDataItem sl) envelopeRecord of
        None \<Rightarrow> pushSkip MalformedEntry path ''not-an-object'' acc
      | Some ps \<Rightarrow> (case readSafeIdField ps ''id'' of
          None \<Rightarrow> pushSkip MalformedEntry path ''invalid-id'' acc
        | Some wabaId \<Rightarrow> (case arrayItems (readOwnDataField ps ''changes'') of
            None \<Rightarrow> pushSkip MalformedEntry path ''changes-not-array'' acc
          | Some changes \<Rightarrow> (case parseEntryTime env (readOwnDataField ps ''time'') acc of (entryTimeMs, acc') \<Rightarrow>
              eachItem (changeItem limit env path wabaId entryTimeMs) 0 changes acc'))))"

fun normalizeEntries :: "nat \<Rightarrow> normalizer_env \<Rightarrow> nat \<Rightarrow> slot list \<Rightarrow> accumulator \<Rightarrow> accumulator" where
  "normalizeEntries limit env i [] acc = acc"
| "normalizeEntries limit env i (sl # sls) acc =
     normalizeEntries limit env (Suc i) sls (normalizeEntry limit env (indexed ''entry'' i) sl acc)"

datatype normalization_code = InvalidEnvelope | MissingObjectField | UnsupportedObject | InvalidEntryArray | InvalidOption

record normalization_error =
  ner_code :: normalization_code
  ner_path :: "string option"
  ner_message :: string

definition SUPPORTED_OBJECT :: string where "SUPPORTED_OBJECT = ''whatsapp_business_account''"

definition quoteChar :: string where "quoteChar = [CHR 0x22]"

definition defaultMessageForCode :: "normalization_code \<Rightarrow> string" where
  "defaultMessageForCode c = (case c of
     InvalidEnvelope \<Rightarrow> ''Webhook envelope is not an object.''
   | MissingObjectField \<Rightarrow> ''Webhook envelope is missing the `object` field.''
   | UnsupportedObject \<Rightarrow> ''Webhook envelope `object` is not '' @ quoteChar @ SUPPORTED_OBJECT @ quoteChar @ ''.''
   | InvalidEntryArray \<Rightarrow> ''Webhook envelope `entry` must be an array.''
   | InvalidOption \<Rightarrow> ''Webhook normalizer option is invalid.'')"

definition normalizationError :: "normalization_code \<Rightarrow> string option \<Rightarrow> string option \<Rightarrow> normalization_error" where
  "normalizationError c path message = \<lparr> ner_code = c, ner_path = path,
     ner_message = (case message of None \<Rightarrow> defaultMessageForCode c | Some m \<Rightarrow> m) \<rparr>"

definition DEFAULT_MAX_EVENTS_PER_ENVELOPE :: nat where "DEFAULT_MAX_EVENTS_PER_ENVELOPE = 1000"

definition validateMaxEventsOption :: "jsval \<Rightarrow> normalization_error + nat" where
  "validateMaxEventsOption v =
     (if v = JUndef then Inr DEFAULT_MAX_EVENTS_PER_ENVELOPE
      else if isPositiveInteger v then Inr (nat (numberFloor v))
      else Inl (normalizationError InvalidOption (Some ''options.maxEventsPerEnvelope'')
        (Some ''options.maxEventsPerEnvelope must be a positive finite integer.'')))"

record normalized_result =
  nr_updates :: "update list"
  nr_skipped :: "skipped_update list"
  nr_limitError :: "(nat \<times> nat) option"

definition emptyAccumulator :: accumulator where
  "emptyAccumulator = \<lparr> ac_updates = [], ac_skipped = [], ac_seenKeys = [], ac_overflow = 0, ac_limitHit = False, ac_reads = 0 \<rparr>"

definition accumulated :: "nat \<Rightarrow> accumulator \<Rightarrow> normalized_result" where
  "accumulated limit acc = \<lparr> nr_updates = ac_updates acc, nr_skipped = ac_skipped acc,
     nr_limitError = (if ac_limitHit acc then Some (length (ac_updates acc) + ac_overflow acc, limit) else None) \<rparr>"

text \<open>The entries of an accepted envelope, or the error that is thrown.\<close>

definition envelopeEntries :: "jsval \<Rightarrow> normalization_error + slot list" where
  "envelopeEntries envelope = (case envelopeRecord envelope of
     None \<Rightarrow> Inl (normalizationError InvalidEnvelope None None)
   | Some ps \<Rightarrow> (case readStringField ps ''object'' of
       None \<Rightarrow> Inl (normalizationError MissingObjectField (Some ''object'') None)
     | Some ob \<Rightarrow> if ob \<noteq> SUPPORTED_OBJECT
         then Inl (normalizationError UnsupportedObject (Some ''object'')
           (Some (''Unsupported webhook object: '' @ quoteChar @ ob @ quoteChar @ ''.'')))
         else (case arrayItems (readOwnDataField ps ''entry'') of
             None \<Rightarrow> Inl (normalizationError InvalidEntryArray (Some ''entry'') None)
           | Some sls \<Rightarrow> Inr sls)))"

definition normalizeWebhookEnvelope :: "normalizer_env \<Rightarrow> jsval \<Rightarrow> jsval \<Rightarrow> normalization_error + normalized_result" where
  "normalizeWebhookEnvelope env maxEvents envelope = (case validateMaxEventsOption maxEvents of
     Inl e \<Rightarrow> Inl e
   | Inr limit \<Rightarrow> (case envelopeEntries envelope of
       Inl e \<Rightarrow> Inl e
     | Inr sls \<Rightarrow> Inr (accumulated limit (normalizeEntries limit env 0 sls emptyAccumulator))))"

end
