(* ===== verification/Webhook_Updates.thy ===== *)
theory Webhook_Updates
  imports Webhook_Normalizer Service_Webhook "HOL-Library.Sublist"
begin

section \<open>What the normalizer produces\<close>

text \<open>
  Lemmas on \<open>normalizeWebhookEnvelope\<close>.  The locale \<open>normalizer_invariant\<close> holds what a property of the
  accumulator has to keep: skipped items, pushed updates, readings of the clock and counted items; then
  every handler of a change keeps it.  Its interpretations give the well-formedness of all updates, the
  distinct keys and the bound.  The second half compares runs with different limits, and composes the
  normalizer with the deduplication of the service.
\<close>

subsection \<open>Well-formed updates\<close>

text \<open>The payload that carries the id of an update of the kind, where the id comes from the wire.\<close>

definition identifiedPayloads :: "(string \<times> string) list" where
  "identifiedPayloads = [(''message'', ''message''), (''status'', ''status''), (''callConnect'', ''call''),
     (''callTerminate'', ''call''), (''callStatus'', ''callStatus'')]"

text \<open>The payload of an event, for the kinds whose id is derived from it.\<close>

definition eventPayloads :: "(string \<times> string) list" where
  "eventPayloads = [(''userPreferences'', ''preference''), (''system'', ''system''), (''chatOpened'', ''chatOpened'')]"

definition carriesEvent :: "string \<Rightarrow> (string \<times> jsval) list \<Rightarrow> bool" where
  "carriesEvent kind part = (case map_of eventPayloads kind of
     None \<Rightarrow> True
   | Some k \<Rightarrow> (case part of (k', v) # _ \<Rightarrow> k' = k \<and> envelopeRecord v \<noteq> None | [] \<Rightarrow> False))"

definition carriesId :: "jsval \<Rightarrow> string \<Rightarrow> bool" where
  "carriesId v i = (case v of JObj _ ps \<Rightarrow> js_get ps ''id'' = JStr i | _ \<Rightarrow> False)"

definition safeIdText :: "jsval \<Rightarrow> bool" where
  "safeIdText v = (case v of JStr s \<Rightarrow> isSafeIdString s | _ \<Rightarrow> False)"

definition well_formed_update :: "update \<Rightarrow> bool" where
  "well_formed_update u = (case up_value u of
     JObj p ps \<Rightarrow> p = ObjectProto \<and> up_kind u \<in> set METRIC_UPDATE_KINDS
       \<and> js_get ps ''kind'' = JStr (up_kind u) \<and> js_get ps ''updateId'' = JStr (up_id u)
       \<and> safeIdText (js_get ps ''wabaId'')
       \<and> (up_kind u \<in> {''account'', ''unknown''} \<or> safeIdText (js_get ps ''phoneNumberId''))
       \<and> (case map_of identifiedPayloads (up_kind u) of None \<Rightarrow> True
          | Some k \<Rightarrow> isSafeIdString (up_id u) \<and> carriesId (js_get ps k) (up_id u))
       \<and> (case map_of eventPayloads (up_kind u) of None \<Rightarrow> True | Some k \<Rightarrow> envelopeRecord (js_get ps k) \<noteq> None)
   | _ \<Rightarrow> False)"

lemma js_get_Cons [simp]: "js_get ((k', sl) # ps) k = (if k = k' then slot_value sl else js_get ps k)"
  by (simp add: js_get_def)

lemma slot_value_Data [simp]: "slot_value (Data v) = v"
  by (simp add: slot_value_def)

lemma optionalField_simps [simp]: "optionalField k None = []" "optionalField k (Some v) = [(k, v)]"
  by (simp_all add: optionalField_def)

lemma readSafeIdField_safe: "readSafeIdField ps k = Some s \<Longrightarrow> isSafeIdString s"
  by (simp add: readSafeIdField_def split: jsval.splits if_splits)

lemma readMetadata_safe: "readMetadataPhoneNumberId ps = Some s \<Longrightarrow> isSafeIdString s"
  by (simp add: readMetadataPhoneNumberId_def readSafeIdField_safe split: option.splits)

text \<open>A kind without an id from the wire.\<close>

lemma made_well_formed:
  assumes "isSafeIdString (cx_wabaId cx)" "kind \<in> set METRIC_UPDATE_KINDS" "map_of identifiedPayloads kind = None"
    and "carriesEvent kind part" and "case phone of None \<Rightarrow> kind \<in> {''account'', ''unknown''} | Some s \<Rightarrow> isSafeIdString s"
  shows "well_formed_update (makeUpdate cx kind i phone ms part)"
proof (cases "map_of eventPayloads kind")
  case None
  then show ?thesis using assms by (cases phone) (simp_all add: well_formed_update_def makeUpdate_def jsObject_def safeIdText_def)
next
  case (Some k)
  then obtain v rest where part: "part = (k, v) # rest" "envelopeRecord v \<noteq> None"
    using assms(4) by (auto simp: carriesEvent_def split: list.splits)
  have "k \<notin> {''kind'', ''updateId'', ''phoneNumberId'', ''wabaId'', ''receivedAt''}"
    using Some by (auto simp: eventPayloads_def split: if_splits)
  then show ?thesis using assms Some part
    by (cases phone) (simp_all add: well_formed_update_def makeUpdate_def jsObject_def safeIdText_def)
qed

text \<open>A kind whose payload is the first part.\<close>

lemma made_identified:
  assumes "isSafeIdString (cx_wabaId cx)" "kind \<in> set METRIC_UPDATE_KINDS" "map_of identifiedPayloads kind = Some k"
    and "isSafeIdString phone" "isSafeIdString i" "carriesId v i"
    and "k \<notin> {''kind'', ''updateId'', ''phoneNumberId'', ''wabaId'', ''receivedAt''}"
  shows "well_formed_update (makeUpdate cx kind i (Some phone) ms ((k, v) # part))"
proof -
  have "map_of eventPayloads kind = None" using assms(3) by (auto simp: eventPayloads_def identifiedPayloads_def split: if_splits)
  then show ?thesis using assms by (simp add: well_formed_update_def makeUpdate_def jsObject_def safeIdText_def)
qed

lemma carriesId_jsObject [simp]: "carriesId (jsObject ((''id'', JStr i) # kvs)) i"
  by (simp add: carriesId_def jsObject_def)

lemma js_get_filtered:
  assumes "map_of ps k = Some (Data v)" "\<not> isUnsafePrototypeKey k" "k \<noteq> []" "f (Data v) \<noteq> JUndef"
  shows "js_get (concat (map (\<lambda>(k, sl). if isUnsafePrototypeKey k \<or> k = [] then [] else
    (let c = f sl in if c = JUndef then [] else [(k, Data c)])) ps) ) k = f (Data v)"
  using assms(1)
proof (induction ps)
  case (Cons p ps)
  obtain k' sl where p: "p = (k', sl)" by (cases p)
  show ?case
  proof (cases "k' = k")
    case True then show ?thesis using Cons.prems assms(2-4) p by (simp add: Let_def)
  next
    case False then show ?thesis using Cons p by (simp add: Let_def)
  qed
qed simp

lemma messageClone_keeps_id:
  assumes "raw = JObj p ps" "readSafeIdField ps ''id'' = Some i" "envelopeRecord (messageClone raw) \<noteq> None"
  shows "carriesId (messageClone raw) i"
proof -
  have d: "map_of ps ''id'' = Some (Data (JStr i))"
    using assms(2) by (auto simp: readSafeIdField_def readOwnDataField_def split: jsval.splits if_splits option.splits slot.splits)
  have c: "safeCloneMessageJsonValue (Suc 0) (slot_value (Data (JStr i))) = JStr i"
    by (subst safeCloneMessageJsonValue.simps) simp
  have "js_get (concat (map (\<lambda>(k, sl). if isUnsafePrototypeKey k \<or> k = [] then [] else
      (let c = safeCloneMessageJsonValue (Suc 0) (slot_value sl) in if c = JUndef then [] else [(k, Data c)])) ps)) ''id'' = JStr i"
    using js_get_filtered [OF d, of "\<lambda>sl. safeCloneMessageJsonValue (Suc 0) (slot_value sl)"] c
    by (simp add: isUnsafePrototypeKey_def)
  moreover have "messageClone raw = JUndef \<or> messageClone raw = JObj NullProto (concat (map (\<lambda>(k, sl).
      if isUnsafePrototypeKey k \<or> k = [] then [] else
      (let c = safeCloneMessageJsonValue (Suc 0) (slot_value sl) in if c = JUndef then [] else [(k, Data c)])) ps))"
    unfolding messageClone_def assms(1) by (subst (1 2) safeCloneMessageJsonValue.simps) (simp only: jsval.case if_distrib add_0 One_nat_def if_cancel zero_less_numeral not_less_zero if_False, auto)
  ultimately show ?thesis using assms(3) by (auto simp: carriesId_def envelopeRecord_def)
qed

lemma normalizeMessagePayload_id:
  assumes "raw = JObj p ps" "readSafeIdField ps ''id'' = Some i" "normalizeMessagePayload raw ps = Some m"
  shows "carriesId m i"
proof -
  obtain ty head where ty: "copyMessageBase raw ps ty = Some head" "readStringField ps ''type'' = Some ty"
    using assms(3) by (auto simp: normalizeMessagePayload_def split: option.splits)
  then obtain rest where head: "head = (''id'', JStr i) # rest"
    using assms(2) by (auto simp: copyMessageBase_def split: option.splits)
  show ?thesis
  proof (cases "typedPart ty ps")
    case (Some part)
    then show ?thesis using assms(3) ty head by (auto simp: normalizeMessagePayload_def Let_def)
  next
    case None
    then show ?thesis using assms(3) ty head messageClone_keeps_id [OF assms(1,2)]
      by (auto simp: normalizeMessagePayload_def Let_def split: if_splits)
  qed
qed

subsection \<open>Invariants of the accumulator\<close>

locale normalizer_invariant =
  fixes limit :: nat and P :: "accumulator \<Rightarrow> bool"
  assumes skip [intro]: "P acc \<Longrightarrow> P (pushSkip r path d acc)"
    and push [intro]: "P acc \<Longrightarrow> well_formed_update u \<Longrightarrow> P (pushUpdate limit u path acc)"
    and reads: "P acc \<Longrightarrow> P (acc\<lparr>ac_reads := n\<rparr>)"
    and count: "P acc \<Longrightarrow> ac_limitHit acc \<Longrightarrow> P (acc\<lparr>ac_overflow := ac_overflow acc + 1\<rparr>)"
begin

definition keeps :: "(accumulator \<Rightarrow> accumulator) \<Rightarrow> bool" where
  "keeps f = (\<forall>acc. P acc \<longrightarrow> P (f acc))"

lemma keepsI [intro?]: "(\<And>acc. P acc \<Longrightarrow> P (f acc)) \<Longrightarrow> keeps f"
  by (simp add: keeps_def)

lemma keepsD: "keeps f \<Longrightarrow> P acc \<Longrightarrow> P (f acc)"
  by (simp add: keeps_def)

lemma keeps_timestamp: "P acc \<Longrightarrow> timestampOrClock env v acc = (ms, acc') \<Longrightarrow> P acc'"
  by (auto simp: timestampOrClock_def readClock_def intro: reads split: option.splits)

lemma keeps_callTime: "P acc \<Longrightarrow> callTime cx ps acc = (ms, acc') \<Longrightarrow> P acc'"
  by (auto simp: callTime_def split: prod.splits dest: keeps_timestamp)

lemma keeps_eachItem:
  assumes "\<And>i sl. keeps (f i sl)" shows "keeps (eachItem f i sls)"
proof
  fix acc assume "P acc" then show "P (eachItem f i sls acc)"
    by (induction sls arbitrary: i acc) (use assms count in \<open>auto simp: keeps_def\<close>)
qed

lemma keeps_arrayLoop: "(\<And>i sl. keeps (f i sl)) \<Longrightarrow> keeps (arrayLoop value k f)"
  using keeps_eachItem [of f] by (auto simp: keeps_def arrayLoop_def split: option.splits)

lemma keeps_recordItem:
  assumes "\<And>p ps. keeps (f (JObj p ps) ps)" shows "keeps (recordItem path d f sl)"
  using assms by (auto simp: keeps_def recordItem_def envelopeRecord_def split: option.splits jsval.splits)

lemma keeps_withPhone:
  assumes "\<And>phone. isSafeIdString phone \<Longrightarrow> keeps (f phone)" shows "keeps (withPhone cx value f)"
  using assms readMetadata_safe by (auto simp: keeps_def withPhone_def split: option.splits)

end

definition goodContext :: "nat \<Rightarrow> change_context \<Rightarrow> bool" where
  "goodContext limit cx \<longleftrightarrow> cx_limit cx = limit \<and> isSafeIdString (cx_wabaId cx)"

lemma kind_facts [simp]:
  "map_of identifiedPayloads ''message'' = Some ''message''" "map_of identifiedPayloads ''status'' = Some ''status''"
  "map_of identifiedPayloads ''callConnect'' = Some ''call''" "map_of identifiedPayloads ''callTerminate'' = Some ''call''"
  "map_of identifiedPayloads ''callStatus'' = Some ''callStatus''" "map_of identifiedPayloads ''account'' = None"
  "map_of identifiedPayloads ''unknown'' = None" "map_of identifiedPayloads ''userPreferences'' = None"
  "map_of identifiedPayloads ''system'' = None" "map_of identifiedPayloads ''chatOpened'' = None"
  by (simp_all add: identifiedPayloads_def)

lemma event_facts [simp]: "carriesEvent ''account'' part" "carriesEvent ''unknown'' part"
  "carriesEvent ''userPreferences'' ((''preference'', v) # part) \<longleftrightarrow> envelopeRecord v \<noteq> None"
  "carriesEvent ''system'' ((''system'', v) # part) \<longleftrightarrow> envelopeRecord v \<noteq> None"
  "carriesEvent ''chatOpened'' ((''chatOpened'', v) # part) \<longleftrightarrow> envelopeRecord v \<noteq> None"
  by (simp_all add: carriesEvent_def eventPayloads_def)

lemma event_payload_records:
  "normalizeUserPreferencePayload raw ps = Some (a, b, c, v) \<Longrightarrow> envelopeRecord v \<noteq> None"
  "normalizeSystemPayload raw ps = Some (d, e, f, v) \<Longrightarrow> envelopeRecord v \<noteq> None"
  "normalizeChatOpenedPayload raw ps value = Some (g, h, v) \<Longrightarrow> envelopeRecord v \<noteq> None"
  by (auto simp: normalizeUserPreferencePayload_def normalizeSystemPayload_def normalizeChatOpenedPayload_def Let_def
    envelopeRecord_def jsObject_def split: option.splits if_splits)

lemma group_kinds:
  assumes "map_of GROUP_FIELDS field = Some kind"
  shows "kind \<in> set METRIC_UPDATE_KINDS" "map_of identifiedPayloads kind = None" "carriesEvent kind part"
  using assms by (auto simp: GROUP_FIELDS_def METRIC_UPDATE_KINDS_def identifiedPayloads_def carriesEvent_def eventPayloads_def
    split: if_splits)

context normalizer_invariant
begin

lemma keeps_made:
  assumes "goodContext limit cx" "P acc" "kind \<in> set METRIC_UPDATE_KINDS" "map_of identifiedPayloads kind = None"
    and "carriesEvent kind part" and "case phone of None \<Rightarrow> kind \<in> {''account'', ''unknown''} | Some s \<Rightarrow> isSafeIdString s"
  shows "P (pushUpdate (cx_limit cx) (makeUpdate cx kind i phone ms part) path acc)"
  using assms push made_well_formed [of cx kind part phone] by (simp add: goodContext_def)

lemma keeps_identified:
  assumes "goodContext limit cx" "P acc" "kind \<in> set METRIC_UPDATE_KINDS" "map_of identifiedPayloads kind = Some k"
    and "isSafeIdString phone" "isSafeIdString i" "carriesId v i" "k \<in> {''message'', ''status'', ''call'', ''callStatus''}"
  shows "P (pushUpdate (cx_limit cx) (makeUpdate cx kind i (Some phone) ms ((k, v) # part)) path acc)"
  using assms push made_identified [of cx kind k phone i v] by (auto simp: goodContext_def)

lemma keeps_messageItem:
  assumes "goodContext limit cx" "isSafeIdString phone"
  shows "keeps (messageItem cx phone contacts path (JObj p ps) ps)"
proof
  fix acc assume P: "P acc"
  show "P (messageItem cx phone contacts path (JObj p ps) ps acc)"
    using assms P skip
    by (auto simp: messageItem_def METRIC_UPDATE_KINDS_def intro: keeps_identified keeps_timestamp
        dest: readSafeIdField_safe normalizeMessagePayload_id [OF refl] split: option.splits prod.splits)
qed

lemma keeps_statusItem:
  assumes "goodContext limit cx" "isSafeIdString phone"
  shows "keeps (statusItem cx phone path raw ps)"
proof
  fix acc assume P: "P acc"
  show "P (statusItem cx phone path raw ps acc)"
    using assms P skip
    by (auto simp: statusItem_def METRIC_UPDATE_KINDS_def normalizedStatus_def intro: keeps_identified keeps_timestamp
        dest: readSafeIdField_safe split: option.splits prod.splits)
qed

lemma keeps_callItem:
  assumes "goodContext limit cx" "isSafeIdString phone"
  shows "keeps (callItem cx phone path raw ps)"
proof
  fix acc assume P: "P acc"
  show "P (callItem cx phone path raw ps acc)"
    using assms P skip
    by (auto simp: callItem_def METRIC_UPDATE_KINDS_def callPayload_def intro: keeps_identified keeps_callTime
        dest: readSafeIdField_safe split: option.splits prod.splits)
qed

lemma keeps_callStatusItem:
  assumes "goodContext limit cx" "isSafeIdString phone"
  shows "keeps (callStatusItem cx phone path raw ps)"
proof
  fix acc assume P: "P acc"
  show "P (callStatusItem cx phone path raw ps acc)"
    using assms P skip
    by (auto simp: callStatusItem_def METRIC_UPDATE_KINDS_def callStatusPayload_def intro: keeps_identified keeps_callTime
        dest: readSafeIdField_safe split: option.splits prod.splits)
qed

lemma keeps_messagesChange: "goodContext limit cx \<Longrightarrow> keeps (normalizeMessagesChange cx value)"
  unfolding normalizeMessagesChange_def Let_def
  by (intro keeps_withPhone keepsI)
    (blast intro: keepsD keeps_arrayLoop keeps_recordItem keeps_messageItem keeps_statusItem)

lemma keeps_callsChange: "goodContext limit cx \<Longrightarrow> keeps (normalizeCallsChange cx value)"
  unfolding normalizeCallsChange_def
  by (intro keeps_withPhone keepsI)
    (blast intro: keepsD keeps_arrayLoop keeps_recordItem keeps_callItem keeps_callStatusItem)

lemma keeps_requiredArray:
  assumes "\<And>phone path raw ps. isSafeIdString phone \<Longrightarrow> keeps (f phone path raw ps)"
  shows "keeps (requiredArray cx value k d f)"
  unfolding requiredArray_def
proof (intro keeps_withPhone keepsI)
  fix phone acc assume ph: "isSafeIdString phone" and P: "P acc"
  have "keeps (eachItem (\<lambda>i. recordItem (valuePath cx k i) ''not-an-object'' (f phone (valuePath cx k i))) 0 sls)" for sls
    by (intro keeps_eachItem keeps_recordItem assms ph)
  then show "P (case arrayItems (readOwnDataField value k) of
      None \<Rightarrow> pushSkip MalformedField (cx_path cx @ ''.value.'' @ k) d acc
    | Some sls \<Rightarrow> eachItem (\<lambda>i. recordItem (valuePath cx k i) ''not-an-object'' (f phone (valuePath cx k i))) 0 sls acc)"
    using P skip by (auto simp: keeps_def split: option.split)
qed

lemma keeps_userPreferenceItem:
  "goodContext limit cx \<Longrightarrow> isSafeIdString phone \<Longrightarrow> keeps (userPreferenceItem cx phone path raw ps)"
  by (rule keepsI) (auto simp: userPreferenceItem_def METRIC_UPDATE_KINDS_def intro!: keeps_made skip dest: event_payload_records split: option.split)

lemma keeps_userPreferencesChange: "goodContext limit cx \<Longrightarrow> keeps (normalizeUserPreferencesChange cx value)"
  unfolding normalizeUserPreferencesChange_def by (intro keeps_requiredArray keeps_userPreferenceItem)

lemma keeps_systemItem:
  "goodContext limit cx \<Longrightarrow> isSafeIdString phone \<Longrightarrow> keeps (systemItem cx phone path raw ps)"
  by (rule keepsI) (auto simp: systemItem_def METRIC_UPDATE_KINDS_def intro!: keeps_made skip dest: event_payload_records split: option.split)

lemma keeps_systemChange: "goodContext limit cx \<Longrightarrow> keeps (normalizeSystemChange cx value)"
  unfolding normalizeSystemChange_def by (intro keeps_requiredArray keeps_systemItem)

lemma keeps_chatOpenedChange: "goodContext limit cx \<Longrightarrow> keeps (normalizeChatOpenedChange cx value)"
  unfolding normalizeChatOpenedChange_def Let_def
  by (rule keeps_withPhone, rule keepsI)
    (auto simp: METRIC_UPDATE_KINDS_def intro!: keeps_made skip dest: event_payload_records split: option.split)

lemma keeps_pushGroup:
  assumes "goodContext limit cx" "map_of GROUP_FIELDS field = Some kind"
  shows "keeps (pushGroupFieldUpdate cx kind raw ps path ms)"
  using assms group_kinds [OF assms(2)]
  by (auto simp: keeps_def pushGroupFieldUpdate_def Let_def intro!: keeps_made skip dest: readMetadata_safe split: option.split)

lemma keeps_groupItem:
  "goodContext limit cx \<Longrightarrow> map_of GROUP_FIELDS field = Some kind \<Longrightarrow> keeps (groupItem cx kind value path raw ps)"
  using keeps_pushGroup by (auto simp: keeps_def groupItem_def Let_def)

lemma keeps_groupChange:
  assumes "goodContext limit cx" "map_of GROUP_FIELDS field = Some kind"
  shows "keeps (normalizeGroupFieldChange cx kind raw value)"
  unfolding normalizeGroupFieldChange_def
proof (rule keeps_withPhone, rule keepsI)
  fix phone acc assume P: "P acc"
  have "keeps (eachItem (\<lambda>i. recordItem (valuePath cx ''groups'' i) ''not-an-object'' (groupItem cx kind value (valuePath cx ''groups'' i))) 0 sls)" for sls
    by (intro keeps_eachItem keeps_recordItem keeps_groupItem [OF assms])
  then show "P (case arrayItems (readOwnDataField value ''groups'') of
       Some sls \<Rightarrow> eachItem (\<lambda>i. recordItem (valuePath cx ''groups'' i) ''not-an-object'' (groupItem cx kind value (valuePath cx ''groups'' i))) 0 sls acc
     | None \<Rightarrow> pushGroupFieldUpdate cx kind raw value (cx_path cx @ ''.value'') (cx_entryTimeMs cx) acc)"
    using P keepsD [OF keeps_pushGroup [OF assms] P] by (auto simp: keeps_def split: option.split)
qed

lemma keeps_fieldChange: "goodContext limit cx \<Longrightarrow> keeps (fieldChange cx field payload value)"
  using keeps_messagesChange keeps_callsChange keeps_userPreferencesChange keeps_systemChange keeps_chatOpenedChange keeps_groupChange
  by (auto simp: fieldChange_def accountChange_def unknownChange_def keeps_def METRIC_UPDATE_KINDS_def intro!: keeps_made split: option.split)

lemma keeps_normalizeChange: "isSafeIdString wabaId \<Longrightarrow> keeps (normalizeChange limit env change path wabaId ms)"
  using keeps_fieldChange
  by (auto simp: keeps_def normalizeChange_def Let_def goodContext_def intro!: skip split: option.split jsval.split)

lemma keeps_entry: "keeps (normalizeEntry limit env path sl)"
proof
  fix acc assume P: "P acc"
  have "P (eachItem (changeItem limit env path wabaId ms) 0 sls acc')" if "isSafeIdString wabaId" "P acc'" for wabaId ms sls acc'
    using keeps_normalizeChange [OF that(1)]
    by (intro keepsD [OF _ that(2)] keeps_eachItem) (auto simp: keeps_def changeItem_def Let_def intro!: skip split: option.split)
  moreover have "P acc'" if "parseEntryTime env v acc = (ms, acc')" for v ms acc'
    using that P by (auto simp: parseEntryTime_def readClock_def intro: reads split: jsval.splits jsnum.splits if_splits)
  ultimately show "P (normalizeEntry limit env path sl acc)"
    using P by (auto simp: normalizeEntry_def intro!: skip dest: readSafeIdField_safe split: option.splits prod.split)
qed

theorem envelope_keeps: "P acc \<Longrightarrow> P (normalizeEntries limit env i sls acc)"
  by (induction sls arbitrary: i acc) (simp_all add: keepsD [OF keeps_entry])

end

text \<open>All updates are well-formed; the keys are distinct and at most \<open>limit\<close>; updates are only appended.\<close>

definition boundedAccumulator :: "nat \<Rightarrow> accumulator \<Rightarrow> bool" where
  "boundedAccumulator limit acc \<longleftrightarrow> distinct (map updateKey (ac_updates acc)) \<and> updateKey ` set (ac_updates acc) = set (ac_seenKeys acc)
     \<and> length (ac_updates acc) \<le> limit \<and> (if ac_limitHit acc then length (ac_updates acc) = limit \<and> 0 < ac_overflow acc else ac_overflow acc = 0)"

definition extends :: "update list \<Rightarrow> bool \<Rightarrow> accumulator \<Rightarrow> bool" where
  "extends us h acc \<longleftrightarrow> prefix us (ac_updates acc) \<and> (h \<longrightarrow> ac_limitHit acc)"

interpretation wellFormed: normalizer_invariant limit "\<lambda>acc. list_all well_formed_update (ac_updates acc)" for limit
  by unfold_locales (auto simp: pushSkip_def pushUpdate_def)

interpretation bounded: normalizer_invariant limit "boundedAccumulator limit" for limit
  by unfold_locales (auto simp: boundedAccumulator_def pushSkip_def pushUpdate_def split: if_splits)

interpretation growing: normalizer_invariant limit "extends us h" for limit us h
  by unfold_locales (auto simp: extends_def pushSkip_def pushUpdate_def prefix_def)

subsection \<open>Runs with different limits\<close>

text \<open>A run with limit \<open>m\<close> and one with limit \<open>m + k\<close>: they agree until the first hits its limit; then its
  updates stay and the other has more, or has hit its own limit.\<close>

definition lagging :: "nat \<Rightarrow> nat \<Rightarrow> accumulator \<Rightarrow> accumulator \<Rightarrow> bool" where
  "lagging m k a b \<longleftrightarrow> (\<not> ac_limitHit a \<and> b = a \<and> length (ac_updates a) \<le> m)
     \<or> (ac_limitHit a \<and> length (ac_updates a) = m \<and> prefix (ac_updates a) (ac_updates b) \<and> (m < length (ac_updates b) \<or> ac_limitHit b))"

definition onlyGrows :: "(accumulator \<Rightarrow> accumulator) \<Rightarrow> bool" where
  "onlyGrows g = (\<forall>acc. extends (ac_updates acc) (ac_limitHit acc) (g acc))"

definition lockstep :: "nat \<Rightarrow> nat \<Rightarrow> (accumulator \<Rightarrow> accumulator) \<Rightarrow> (accumulator \<Rightarrow> accumulator) \<Rightarrow> bool" where
  "lockstep m k f g = (\<forall>a. \<not> ac_limitHit a \<and> length (ac_updates a) \<le> m \<longrightarrow> lagging m k (f a) (g a))"

lemma lockstepI: "(\<And>a. \<not> ac_limitHit a \<Longrightarrow> length (ac_updates a) \<le> m \<Longrightarrow> lagging m k (f a) (g a)) \<Longrightarrow> lockstep m k f g"
  by (simp add: lockstep_def)

lemma lagging_refl [simp]: "\<not> ac_limitHit a \<Longrightarrow> length (ac_updates a) \<le> m \<Longrightarrow> lagging m k a a"
  by (simp add: lagging_def)

lemma grows_keeps:
  assumes "\<And>us h. growing.keeps us h g" shows "onlyGrows g"
  unfolding onlyGrows_def
proof
  fix acc
  show "extends (ac_updates acc) (ac_limitHit acc) (g acc)"
    by (rule growing.keepsD [OF assms]) (simp add: extends_def)
qed

lemma lagging_grows: "lagging m k a b \<Longrightarrow> ac_limitHit a \<Longrightarrow> onlyGrows g \<Longrightarrow> lagging m k a (g b)"
  unfolding lagging_def onlyGrows_def extends_def
  by (metis (no_types, lifting) prefix_length_le prefix_order.trans order_less_le_trans)

lemma lagging_same: "lagging m k a b \<Longrightarrow> ac_limitHit a \<Longrightarrow> ac_updates a' = ac_updates a \<Longrightarrow> ac_limitHit a' \<Longrightarrow> lagging m k a' b"
  by (simp add: lagging_def)

lemma unhit_simps [simp]:
  "ac_limitHit (pushSkip r p d a) = ac_limitHit a" "ac_updates (pushSkip r p d a) = ac_updates a"
  by (simp_all add: pushSkip_def)

lemma lagging_push: "\<not> ac_limitHit a \<Longrightarrow> length (ac_updates a) \<le> m \<Longrightarrow> lagging m k (pushUpdate m u p a) (pushUpdate (m + k) u p a)"
  by (auto simp: lagging_def pushUpdate_def)

lemma eachItem_hit: "ac_limitHit a \<Longrightarrow> eachItem f i sls a = a\<lparr>ac_overflow := ac_overflow a + length sls\<rparr>"
  by (induction sls arbitrary: i a) simp_all

lemma lagging_eachItem:
  assumes "\<And>i sl. lockstep m k (f i sl) (g i sl)" "\<And>i sl. onlyGrows (g i sl)" "lagging m k a b"
  shows "lagging m k (eachItem f i sls a) (eachItem g i sls b)"
  using assms(3)
proof (induction sls arbitrary: i a b)
  case (Cons sl sls)
  let ?a = "if ac_limitHit a then a\<lparr>ac_overflow := ac_overflow a + 1\<rparr> else f i sl a"
  let ?b = "if ac_limitHit b then b\<lparr>ac_overflow := ac_overflow b + 1\<rparr> else g i sl b"
  have "lagging m k ?a ?b"
  proof (cases "ac_limitHit a")
    case False then show ?thesis using Cons.prems assms(1) by (auto simp: lagging_def lockstep_def)
  next
    case True
    then have "lagging m k a ?b" using Cons.prems lagging_grows [OF _ _ assms(2)] by (auto simp: lagging_def)
    then show ?thesis using True by (simp add: lagging_def)
  qed
  from Cons.IH [OF this] show ?case by (simp only: eachItem.simps)
qed simp

lemma lockstep_eachItem:
  assumes "\<And>i sl. lockstep m k (f i sl) (g i sl)" "\<And>i sl. onlyGrows (g i sl)"
  shows "lockstep m k (eachItem f i sls) (eachItem g i sls)"
  by (rule lockstepI, rule lagging_eachItem [OF assms]) simp

lemma lagging_arrayLoop:
  assumes "\<And>i sl. lockstep m k (f i sl) (g i sl)" "\<And>i sl. onlyGrows (g i sl)" "lagging m k a b"
  shows "lagging m k (arrayLoop value key f a) (arrayLoop value key g b)"
  using assms lagging_eachItem [of m k f g] by (simp add: arrayLoop_def split: option.split)

lemma lockstep_recordItem:
  assumes "\<And>raw ps. lockstep m k (f raw ps) (g raw ps)" shows "lockstep m k (recordItem path d f sl) (recordItem path d g sl)"
  using assms by (auto simp: lockstep_def recordItem_def split: option.split)

lemma lockstep_withPhone:
  assumes "\<And>phone. isSafeIdString phone \<Longrightarrow> lockstep m k (f phone) (g phone)"
  shows "lockstep m k (withPhone cx value f) (withPhone (cx\<lparr>cx_limit := n\<rparr>) value g)"
  using assms readMetadata_safe by (auto simp: lockstep_def withPhone_def split: option.split)

text \<open>An item that reads the clock and pushes one update.\<close>

lemma unhit_timestamp:
  "timestampOrClock env v a = (ms, a') \<Longrightarrow> ac_limitHit a' = ac_limitHit a \<and> ac_updates a' = ac_updates a"
  by (auto simp: timestampOrClock_def readClock_def split: option.splits)

lemma unhit_callTime: "callTime cx ps a = (ms, a') \<Longrightarrow> ac_limitHit a' = ac_limitHit a \<and> ac_updates a' = ac_updates a"
  by (auto simp: callTime_def dest: unhit_timestamp split: prod.splits)

lemma cx_limit_irrelevant [simp]:
  "makeUpdate (cx\<lparr>cx_limit := n\<rparr>) = makeUpdate cx" "callTime (cx\<lparr>cx_limit := n\<rparr>) = callTime cx"
  "valuePath (cx\<lparr>cx_limit := n\<rparr>) = valuePath cx"
  by (intro ext, auto simp: makeUpdate_def callTime_def valuePath_def split: prod.split)+

lemmas item_defs = messageItem_def statusItem_def callItem_def callStatusItem_def userPreferenceItem_def systemItem_def
  accountChange_def unknownChange_def pushGroupFieldUpdate_def groupItem_def

lemma lockstep_items:
  assumes "cx_limit cx = m"
  shows "lockstep m k (messageItem cx phone contacts path raw ps) (messageItem (cx\<lparr>cx_limit := m + k\<rparr>) phone contacts path raw ps)"
    "lockstep m k (statusItem cx phone path raw ps) (statusItem (cx\<lparr>cx_limit := m + k\<rparr>) phone path raw ps)"
    "lockstep m k (callItem cx phone path raw ps) (callItem (cx\<lparr>cx_limit := m + k\<rparr>) phone path raw ps)"
    "lockstep m k (callStatusItem cx phone path raw ps) (callStatusItem (cx\<lparr>cx_limit := m + k\<rparr>) phone path raw ps)"
    "lockstep m k (userPreferenceItem cx phone path raw ps) (userPreferenceItem (cx\<lparr>cx_limit := m + k\<rparr>) phone path raw ps)"
    "lockstep m k (systemItem cx phone path raw ps) (systemItem (cx\<lparr>cx_limit := m + k\<rparr>) phone path raw ps)"
    "lockstep m k (accountChange cx field raw ps) (accountChange (cx\<lparr>cx_limit := m + k\<rparr>) field raw ps)"
    "lockstep m k (unknownChange cx field) (unknownChange (cx\<lparr>cx_limit := m + k\<rparr>) field)"
    "lockstep m k (pushGroupFieldUpdate cx kind raw ps path ms) (pushGroupFieldUpdate (cx\<lparr>cx_limit := m + k\<rparr>) kind raw ps path ms)"
  using assms
  by (auto intro!: lockstepI lagging_push simp: item_defs Let_def dest!: unhit_timestamp unhit_callTime split: option.split prod.split)

lemma lockstep_groupItem:
  assumes "cx_limit cx = m"
  shows "lockstep m k (groupItem cx kind value path raw ps) (groupItem (cx\<lparr>cx_limit := m + k\<rparr>) kind value path raw ps)"
  using lockstep_items(9) [OF assms] by (auto simp: lockstep_def groupItem_def Let_def)

lemma goodContext_other: "goodContext m cx \<Longrightarrow> goodContext (m + k) (cx\<lparr>cx_limit := m + k\<rparr>)"
  by (simp add: goodContext_def)

lemma goodContext_limit: "goodContext m cx \<Longrightarrow> cx_limit cx = m"
  by (simp add: goodContext_def)

text \<open>The loops of a change.\<close>

lemma lockstep_messagesChange:
  assumes "goodContext m cx"
  shows "lockstep m k (normalizeMessagesChange cx value) (normalizeMessagesChange (cx\<lparr>cx_limit := m + k\<rparr>) value)"
  unfolding normalizeMessagesChange_def Let_def cx_limit_irrelevant
  by (rule lockstep_withPhone, rule lockstepI)
    (intro lagging_arrayLoop lockstep_recordItem lockstep_items [OF goodContext_limit [OF assms]] lagging_refl grows_keeps
      growing.keeps_recordItem growing.keeps_messageItem growing.keeps_statusItem; (assumption | rule goodContext_other [OF assms]))

lemma lockstep_callsChange:
  assumes "goodContext m cx"
  shows "lockstep m k (normalizeCallsChange cx value) (normalizeCallsChange (cx\<lparr>cx_limit := m + k\<rparr>) value)"
  unfolding normalizeCallsChange_def Let_def cx_limit_irrelevant
  by (rule lockstep_withPhone, rule lockstepI)
    (intro lagging_arrayLoop lockstep_recordItem lockstep_items [OF goodContext_limit [OF assms]] lagging_refl grows_keeps
      growing.keeps_recordItem growing.keeps_callItem growing.keeps_callStatusItem; (assumption | rule goodContext_other [OF assms]))

lemma lockstep_case_array:
  assumes "lockstep m k f g" "\<And>sls. lockstep m k (f' sls) (g' sls)"
  shows "lockstep m k (\<lambda>acc. case x of None \<Rightarrow> f acc | Some sls \<Rightarrow> f' sls acc) (\<lambda>acc. case x of None \<Rightarrow> g acc | Some sls \<Rightarrow> g' sls acc)"
  using assms by (cases x) simp_all

lemma lockstep_skip: "lockstep m k (pushSkip r p d) (pushSkip r p d)"
  by (simp add: lockstep_def)

lemma lockstep_requiredArray:
  assumes "\<And>phone path raw ps. lockstep m k (f phone path raw ps) (g phone path raw ps)"
    and "\<And>us h phone path raw ps. isSafeIdString phone \<Longrightarrow> growing.keeps us h (g phone path raw ps)"
  shows "lockstep m k (requiredArray cx value key d f) (requiredArray (cx\<lparr>cx_limit := n\<rparr>) value key d g)"
  unfolding requiredArray_def cx_limit_irrelevant
  by (rule lockstep_withPhone)
    (auto intro!: lockstep_case_array lockstep_skip lockstep_eachItem lockstep_recordItem assms grows_keeps growing.keeps_recordItem)

lemma lockstep_userPreferencesChange:
  assumes "goodContext m cx"
  shows "lockstep m k (normalizeUserPreferencesChange cx value) (normalizeUserPreferencesChange (cx\<lparr>cx_limit := m + k\<rparr>) value)"
  unfolding normalizeUserPreferencesChange_def
  by (rule lockstep_requiredArray)
    (rule lockstep_items [OF goodContext_limit [OF assms]] growing.keeps_userPreferenceItem [OF goodContext_other [OF assms]]; assumption)+

lemma lockstep_systemChange:
  assumes "goodContext m cx"
  shows "lockstep m k (normalizeSystemChange cx value) (normalizeSystemChange (cx\<lparr>cx_limit := m + k\<rparr>) value)"
  unfolding normalizeSystemChange_def
  by (rule lockstep_requiredArray)
    (rule lockstep_items [OF goodContext_limit [OF assms]] growing.keeps_systemItem [OF goodContext_other [OF assms]]; assumption)+

lemma lockstep_chatOpenedChange:
  assumes "goodContext m cx"
  shows "lockstep m k (normalizeChatOpenedChange cx value) (normalizeChatOpenedChange (cx\<lparr>cx_limit := m + k\<rparr>) value)"
  unfolding normalizeChatOpenedChange_def Let_def
  by (rule lockstep_withPhone, rule lockstepI)
    (use goodContext_limit [OF assms] in \<open>auto intro!: lagging_push split: option.split\<close>)

lemma lockstep_groupChange:
  assumes "goodContext m cx" "map_of GROUP_FIELDS field = Some kind"
  shows "lockstep m k (normalizeGroupFieldChange cx kind raw value) (normalizeGroupFieldChange (cx\<lparr>cx_limit := m + k\<rparr>) kind raw value)"
  unfolding normalizeGroupFieldChange_def cx_limit_irrelevant
proof (rule lockstep_withPhone)
  fix phone
  note cx = goodContext_limit [OF assms(1)]
  have "onlyGrows (recordItem path d (groupItem (cx\<lparr>cx_limit := m + k\<rparr>) kind value path') sl)" for path d path' sl
    by (intro grows_keeps growing.keeps_recordItem growing.keeps_groupItem [OF goodContext_other [OF assms(1)] assms(2)])
  then show "lockstep m k
     (\<lambda>acc. case arrayItems (readOwnDataField value ''groups'') of
        None \<Rightarrow> pushGroupFieldUpdate cx kind raw value (cx_path cx @ ''.value'') (cx_entryTimeMs cx) acc
      | Some sls \<Rightarrow> eachItem (\<lambda>i. recordItem (valuePath cx ''groups'' i) ''not-an-object'' (groupItem cx kind value (valuePath cx ''groups'' i))) 0 sls acc)
     (\<lambda>acc. case arrayItems (readOwnDataField value ''groups'') of
        None \<Rightarrow> pushGroupFieldUpdate (cx\<lparr>cx_limit := m + k\<rparr>) kind raw value (cx_path (cx\<lparr>cx_limit := m + k\<rparr>) @ ''.value'')
            (cx_entryTimeMs (cx\<lparr>cx_limit := m + k\<rparr>)) acc
      | Some sls \<Rightarrow> eachItem (\<lambda>i. recordItem (valuePath cx ''groups'' i) ''not-an-object''
            (groupItem (cx\<lparr>cx_limit := m + k\<rparr>) kind value (valuePath cx ''groups'' i))) 0 sls acc)"
    using lockstep_items(9) [OF cx] lockstep_groupItem [OF cx]
    by (intro lockstep_case_array lockstep_eachItem lockstep_recordItem) (simp_all add: eta_contract_eq)
qed

lemma lockstep_fieldChange:
  assumes "goodContext m cx"
  shows "lockstep m k (fieldChange cx field payload value) (fieldChange (cx\<lparr>cx_limit := m + k\<rparr>) field payload value)"
  using lockstep_messagesChange [OF assms] lockstep_callsChange [OF assms] lockstep_userPreferencesChange [OF assms]
    lockstep_systemChange [OF assms] lockstep_chatOpenedChange [OF assms] lockstep_groupChange [OF assms]
    lockstep_items(7,8) [OF goodContext_limit [OF assms]]
  by (simp add: fieldChange_def split: option.split)

lemma lockstep_normalizeChange:
  assumes "isSafeIdString wabaId"
  shows "lockstep m k (normalizeChange m env change path wabaId ms) (normalizeChange (m + k) env change path wabaId ms)"
proof (rule lockstepI)
  fix a :: accumulator assume a: "\<not> ac_limitHit a" "length (ac_updates a) \<le> m"
  have "lagging m k (fieldChange cx field payload vs a) (fieldChange (cx\<lparr>cx_limit := m + k\<rparr>) field payload vs a)"
    if "cx = \<lparr> cx_limit = m, cx_env = env, cx_path = path, cx_wabaId = wabaId, cx_entryTimeMs = ms, cx_rawChange = change \<rparr>"
    for cx field payload vs
    using lockstep_fieldChange [of m cx k field payload vs] a assms that by (simp add: goodContext_def lockstep_def)
  from this [OF refl] show "lagging m k (normalizeChange m env change path wabaId ms a) (normalizeChange (m + k) env change path wabaId ms a)"
    using a by (simp add: normalizeChange_def Let_def split: option.split jsval.split)
qed

lemma lockstep_changeItem:
  "isSafeIdString wabaId \<Longrightarrow> lockstep m k (changeItem m env path wabaId ms i sl) (changeItem (m + k) env path wabaId ms i sl)"
  using lockstep_normalizeChange [of wabaId m k env] by (auto simp: lockstep_def changeItem_def Let_def split: option.split)

lemma grows_changeItem: "isSafeIdString wabaId \<Longrightarrow> onlyGrows (changeItem n env path wabaId ms i sl)"
  by (intro grows_keeps growing.keepsI)
    (auto simp: changeItem_def Let_def intro!: growing.skip growing.keepsD [OF growing.keeps_normalizeChange] split: option.split)

lemma unhit_entryTime: "parseEntryTime env v a = (ms, a') \<Longrightarrow> ac_limitHit a' = ac_limitHit a \<and> ac_updates a' = ac_updates a"
  by (auto simp: parseEntryTime_def readClock_def split: jsval.splits jsnum.splits if_splits)

lemma entry_hit:
  assumes "ac_limitHit a"
  shows "ac_updates (normalizeEntry m env path sl a) = ac_updates a" "ac_limitHit (normalizeEntry m env path sl a)"
  using assms by (auto simp: normalizeEntry_def eachItem_hit dest!: unhit_entryTime split: option.split prod.split)

lemma lagging_entry:
  assumes "lagging m k a b"
  shows "lagging m k (normalizeEntry m env path sl a) (normalizeEntry (m + k) env path sl b)"
proof (cases "ac_limitHit a")
  case True
  have "lagging m k a (normalizeEntry (m + k) env path sl b)"
    by (rule lagging_grows [OF assms True], rule grows_keeps, rule growing.keeps_entry)
  then show ?thesis by (rule lagging_same) (use True entry_hit [OF True] in simp_all)
next
  case False
  have b: "b = a" "length (ac_updates a) \<le> m" using assms False by (simp_all add: lagging_def)
  have "lagging m k (eachItem (changeItem m env path wabaId ms) 0 changes a') (eachItem (changeItem (m + k) env path wabaId ms) 0 changes a')"
    if "isSafeIdString wabaId" "parseEntryTime env v a = (ms, a')" for wabaId v ms a' changes
  proof (rule lagging_eachItem)
    show "lockstep m k (changeItem m env path wabaId ms i sl) (changeItem (m + k) env path wabaId ms i sl)" for i sl
      by (rule lockstep_changeItem [OF that(1)])
    show "onlyGrows (changeItem (m + k) env path wabaId ms i sl)" for i sl
      by (rule grows_changeItem [OF that(1)])
    show "lagging m k a' a'"
      using b(2) False unhit_entryTime [OF that(2)] by (simp only: lagging_refl simp_thms)
  qed
  then have items: "lagging m k (eachItem (changeItem m env path wabaId ms) 0 changes a')
      (eachItem (changeItem (m + k) env path wabaId ms) 0 changes a')"
    if "readSafeIdField ps ''id'' = Some wabaId" "parseEntryTime env v a = (ms, a')" for ps wabaId v ms a' changes
    using that by (blast dest: readSafeIdField_safe)
  have skip: "lagging m k (pushSkip r p d a) (pushSkip r p d a)" for r p d
    using b False by simp
  show ?thesis
    unfolding b(1) normalizeEntry_def
    by (auto simp: skip items split: option.split prod.split)
qed

lemma lagging_entries:
  "lagging m k a b \<Longrightarrow> lagging m k (normalizeEntries m env i sls a) (normalizeEntries (m + k) env i sls b)"
  by (induction sls arbitrary: i a b) (simp_all add: lagging_entry)

subsection \<open>Results\<close>

lemma normalize_result:
  assumes "normalizeWebhookEnvelope env maxEvents envelope = Inr r"
  obtains limit sls where "validateMaxEventsOption maxEvents = Inr limit" "envelopeEntries envelope = Inr sls"
    "r = accumulated limit (normalizeEntries limit env 0 sls emptyAccumulator)"
  using assms by (auto simp: normalizeWebhookEnvelope_def split: sum.splits)

lemma emptyAccumulator_simps [simp]:
  "ac_updates emptyAccumulator = []" "ac_limitHit emptyAccumulator = False" "boundedAccumulator limit emptyAccumulator"
  by (simp_all add: emptyAccumulator_def boundedAccumulator_def)

lemma accumulated_sound:
  assumes "r = accumulated limit (normalizeEntries limit env 0 sls emptyAccumulator)"
  shows "list_all well_formed_update (nr_updates r)" "distinct (map updateKey (nr_updates r))" "length (nr_updates r) \<le> limit"
    "nr_limitError r = None \<or> (\<exists>count. nr_limitError r = Some (count, limit) \<and> length (nr_updates r) = limit \<and> limit < count)"
proof -
  let ?acc = "normalizeEntries limit env 0 sls emptyAccumulator"
  have w: "list_all well_formed_update (ac_updates ?acc)" by (rule wellFormed.envelope_keeps) simp
  have b: "boundedAccumulator limit ?acc" by (rule bounded.envelope_keeps) simp
  show "list_all well_formed_update (nr_updates r)" using assms w by (simp add: accumulated_def)
  show "distinct (map updateKey (nr_updates r))" "length (nr_updates r) \<le> limit"
    using assms b by (simp_all add: accumulated_def boundedAccumulator_def)
  show "nr_limitError r = None \<or> (\<exists>count. nr_limitError r = Some (count, limit) \<and> length (nr_updates r) = limit \<and> limit < count)"
    using assms b by (auto simp: accumulated_def boundedAccumulator_def split: if_splits)
qed

text \<open>A small envelope: two statuses of one message and one of another.\<close>

definition samplePhone :: "string \<times> jsval" where
  "samplePhone = (''metadata'', jsObject [(''phone_number_id'', JStr ''1'')])"

definition sampleStatus :: "string \<Rightarrow> string \<Rightarrow> jsval" where
  "sampleStatus i s = jsObject [(''id'', JStr i), (''status'', JStr s)]"

definition sampleEnvelope :: jsval where
  "sampleEnvelope = jsObject [(''object'', JStr ''whatsapp_business_account''), (''entry'', jsArr [
     jsObject [(''id'', JStr ''3''), (''changes'', jsArr [
       jsObject [(''field'', JStr ''messages''), (''value'', jsObject [samplePhone,
         (''statuses'', jsArr [sampleStatus ''a'' ''sent'', sampleStatus ''a'' ''read'', sampleStatus ''b'' ''sent''])])]])]])]"

definition sampleNormalizer :: normalizer_env where
  "sampleNormalizer = \<lparr> ne_toNumber = (\<lambda>_. NaN), ne_clock = int \<rparr>"

text \<open>C31: the updates of an accepted envelope have pairwise distinct keys (kind and update id), each is
  well-formed (a known kind, its own kind and id, safe ids of the account and the phone number, and the
  payload of a message, status or call carries the id), there are at most \<open>limit\<close> of them, and a limit error
  is reported only with exactly \<open>limit\<close> updates and a larger count.
\<close>

theorem normalized_updates_are_distinct:
  assumes "normalizeWebhookEnvelope env maxEvents envelope = Inr r"
  shows "\<exists>limit. validateMaxEventsOption maxEvents = Inr limit \<and> distinct (map updateKey (nr_updates r))
    \<and> list_all well_formed_update (nr_updates r) \<and> length (nr_updates r) \<le> limit
    \<and> (case nr_limitError r of None \<Rightarrow> True | Some (count, l) \<Rightarrow> l = limit \<and> length (nr_updates r) = limit \<and> limit < count)"
proof -
  obtain limit sls where l: "validateMaxEventsOption maxEvents = Inr limit"
    and r: "r = accumulated limit (normalizeEntries limit env 0 sls emptyAccumulator)"
    by (rule normalize_result [OF assms])
  show ?thesis using l accumulated_sound [OF r] by auto
qed

text \<open>C32: a smaller limit only cuts the list: with the limit \<open>m\<close> the updates are the first \<open>m\<close> of those with a
  larger limit \<open>n\<close>, and the limit error is reported exactly when the larger run has more than \<open>m\<close> updates or
  hits its own limit.
\<close>

theorem limit_truncates_the_updates:
  assumes "m \<le> n" "normalizeWebhookEnvelope env (JNum (Fin (of_nat m))) envelope = Inr r"
    and "normalizeWebhookEnvelope env (JNum (Fin (of_nat n))) envelope = Inr r'"
  shows "nr_updates r = take m (nr_updates r')
    \<and> (nr_limitError r = None \<longleftrightarrow> nr_limitError r' = None \<and> length (nr_updates r') \<le> m)"
proof -
  have lim: "validateMaxEventsOption (JNum (Fin (of_nat i))) = Inr i' \<Longrightarrow> i' = i" for i i'
    by (auto simp: validateMaxEventsOption_def numberFloor_def split: if_splits)
  obtain sls where r: "r = accumulated m (normalizeEntries m env 0 sls emptyAccumulator)" and sls: "envelopeEntries envelope = Inr sls"
    using normalize_result [OF assms(2)] lim by metis
  have r': "r' = accumulated n (normalizeEntries n env 0 sls emptyAccumulator)"
    using normalize_result [OF assms(3)] lim sls by (metis sum.inject(2))
  let ?a = "normalizeEntries m env 0 sls emptyAccumulator" and ?b = "normalizeEntries n env 0 sls emptyAccumulator"
  have "lagging m (n - m) emptyAccumulator emptyAccumulator" by simp
  from lagging_entries [OF this] have lag: "lagging m (n - m) ?a ?b" using assms(1) by simp
  then show ?thesis
    by (auto simp: r r' accumulated_def lagging_def prefix_def)
qed

lemma safeIdText_iff: "safeIdText v \<longleftrightarrow> (\<exists>s. v = JStr s \<and> isSafeIdString s)"
  by (auto simp: safeIdText_def split: jsval.splits)

lemma carriesId_iff: "carriesId v i \<longleftrightarrow> (\<exists>p ps. v = JObj p ps \<and> js_get ps ''id'' = JStr i)"
  by (auto simp: carriesId_def split: jsval.splits)

text \<open>The deduplication key of an identified update, written out: the phone number, the account and the id
  stand in its own fields, and the key is the family and the hash of the JSON text of them all.\<close>

lemma well_formed_dedup_key:
  assumes "well_formed_update u" "up_kind u \<in> {''message'', ''status''}"
  obtains p ps q qs phone waba where "up_value u = JObj p ps"
    "js_get ps ''phoneNumberId'' = JStr phone" "js_get ps ''wabaId'' = JStr waba"
    "isSafeIdString phone" "isSafeIdString waba" "isSafeIdString (up_id u)"
    "js_get ps (up_kind u) = JObj q qs" "js_get qs ''id'' = JStr (up_id u)"
    "extractDedupKey nt hash (up_value u) = Some (if up_kind u = ''message''
       then ''msg:'' @ hash (tupleText [''msg'', phone, waba, up_id u])
       else ''status:'' @ hash (tupleText [''status'', phone, waba, up_id u,
         (case js_get qs ''status'' of JStr s \<Rightarrow> s | _ \<Rightarrow> ''_unknown''),
         (case js_get qs ''timestamp'' of JStr s \<Rightarrow> s | _ \<Rightarrow> ''_unknown'')]))"
proof -
  obtain ps where u: "up_value u = JObj ObjectProto ps" and k: "js_get ps ''kind'' = JStr (up_kind u)"
    and ids: "safeIdText (js_get ps ''wabaId'')" "up_kind u \<in> {''account'', ''unknown''} \<or> safeIdText (js_get ps ''phoneNumberId'')"
    and wire: "case map_of identifiedPayloads (up_kind u) of None \<Rightarrow> True
      | Some k \<Rightarrow> isSafeIdString (up_id u) \<and> carriesId (js_get ps k) (up_id u)"
    using assms(1) by (auto simp: well_formed_update_def split: jsval.splits)
  obtain waba where waba: "js_get ps ''wabaId'' = JStr waba" "isSafeIdString waba" using ids(1) by (auto simp: safeIdText_iff)
  obtain phone where phone: "js_get ps ''phoneNumberId'' = JStr phone" "isSafeIdString phone"
    using ids(2) assms(2) by (auto simp: safeIdText_iff)
  have "isSafeIdString (up_id u) \<and> carriesId (js_get ps (up_kind u)) (up_id u)"
    using wire assms(2) by auto
  then obtain q qs where item: "isSafeIdString (up_id u)" "js_get ps (up_kind u) = JObj q qs" "js_get qs ''id'' = JStr (up_id u)"
    by (auto simp: carriesId_iff)
  have scope: "scopeField ps ''phoneNumberId'' = phone" "scopeField ps ''wabaId'' = waba" "idField qs = Some (up_id u)"
    using phone waba item by (auto simp: scopeField_def idField_def isSafeIdString_def)
  show thesis
    by (rule that [OF u phone(1) waba(1) phone(2) waba(2) item])
      (use assms(2) k item(2) in \<open>auto simp: u extractDedupKey_def serviceRecord_def Let_def scope messageDedupKey_def
        statusDedupKey_def textField_def\<close>)
qed

text \<open>C33: no message or status slips past the deduplication of the service.  Every one the normalizer
  delivers carries safe ids of its phone number and account and an id of its own in its fields, and its
  deduplication key is \<open>msg:\<close> and the hash of the JSON text of the array of these three, or \<open>status:\<close>
  and the hash of the array of these three with the status and its time.\<close>

theorem normalized_items_have_dedup_keys:
  assumes "normalizeWebhookEnvelope env maxEvents envelope = Inr r" "u \<in> set (nr_updates r)" "up_kind u \<in> {''message'', ''status''}"
  shows "\<exists>p ps q qs phone waba json. up_value u = JObj p ps
    \<and> js_get ps ''phoneNumberId'' = JStr phone \<and> js_get ps ''wabaId'' = JStr waba
    \<and> isSafeIdString phone \<and> isSafeIdString waba \<and> isSafeIdString (up_id u)
    \<and> js_get ps (up_kind u) = JObj q qs \<and> js_get qs ''id'' = JStr (up_id u)
    \<and> js_stringify nt (JArr (map (\<lambda>s. Data (JStr s)) (if up_kind u = ''message'' then [''msg'', phone, waba, up_id u]
        else [''status'', phone, waba, up_id u,
          (case js_get qs ''status'' of JStr s \<Rightarrow> s | _ \<Rightarrow> ''_unknown''),
          (case js_get qs ''timestamp'' of JStr s \<Rightarrow> s | _ \<Rightarrow> ''_unknown'')]))) = Some json
    \<and> extractDedupKey nt hash (up_value u) = Some ((if up_kind u = ''message'' then ''msg:'' else ''status:'') @ hash json)"
proof -
  obtain limit sls where r: "r = accumulated limit (normalizeEntries limit env 0 sls emptyAccumulator)"
    by (rule normalize_result [OF assms(1)])
  have "well_formed_update u" using accumulated_sound(1) [OF r] assms(2) by (simp add: list_all_iff)
  then obtain p ps q qs phone waba where w: "up_value u = JObj p ps"
    "js_get ps ''phoneNumberId'' = JStr phone" "js_get ps ''wabaId'' = JStr waba"
    "isSafeIdString phone" "isSafeIdString waba" "isSafeIdString (up_id u)"
    "js_get ps (up_kind u) = JObj q qs" "js_get qs ''id'' = JStr (up_id u)"
    "extractDedupKey nt hash (up_value u) = Some (if up_kind u = ''message''
       then ''msg:'' @ hash (tupleText [''msg'', phone, waba, up_id u])
       else ''status:'' @ hash (tupleText [''status'', phone, waba, up_id u,
         (case js_get qs ''status'' of JStr s \<Rightarrow> s | _ \<Rightarrow> ''_unknown''),
         (case js_get qs ''timestamp'' of JStr s \<Rightarrow> s | _ \<Rightarrow> ''_unknown'')]))"
    using assms(3) by (rule well_formed_dedup_key)
  show ?thesis
    by (rule exI [of _ p], rule exI [of _ ps], rule exI [of _ q], rule exI [of _ qs], rule exI [of _ phone],
        rule exI [of _ waba]) (use w in \<open>simp add: tupleText_def\<close>)
qed

subsection \<open>Samples\<close>

text \<open>The updates of the sample: of the two statuses of one message only the first is kept, since their
  keys are the same.\<close>

definition normalizedKeys :: "jsval \<Rightarrow> jsval \<Rightarrow> (string \<times> string) list option" where
  "normalizedKeys limit envelope = (case normalizeWebhookEnvelope sampleNormalizer limit envelope of
     Inl e \<Rightarrow> None | Inr r \<Rightarrow> Some (map (\<lambda>u. (up_kind u, up_id u)) (nr_updates r)))"

lemma safe_samples: "isSafeIdString ''a''" "isSafeIdString ''b''" "isSafeIdString ''1''" "isSafeIdString ''3''"
  by (simp_all add: isSafeIdString_def MAX_ID_LENGTH_def js_trim_def js_space_def code_of_def)

lemma made_simps [simp]: "up_kind (makeUpdate cx k i p ms part) = k" "up_id (makeUpdate cx k i p ms part) = i"
  by (simp_all add: makeUpdate_def)

lemma sample_entries: "envelopeEntries sampleEnvelope = Inr [Data (jsObject [(''id'', JStr ''3''), (''changes'', jsArr [
       jsObject [(''field'', JStr ''messages''), (''value'', jsObject [samplePhone,
         (''statuses'', jsArr [sampleStatus ''a'' ''sent'', sampleStatus ''a'' ''read'', sampleStatus ''b'' ''sent''])])]])])]"
  by (simp add: sampleEnvelope_def envelopeEntries_def jsObject_def jsArr_def envelopeRecord_def readStringField_def readOwnDataField_def
      SUPPORTED_OBJECT_def arrayItems_def)

lemmas sample_simps = normalizedKeys_def normalizeWebhookEnvelope_def sample_entries accumulated_def normalizeEntry_def readArrayDataItem_def
  jsObject_def jsArr_def envelopeRecord_def readSafeIdField_def readOwnDataField_def safe_samples arrayItems_def parseEntryTime_def readClock_def
  changeItem_def normalizeChange_def Let_def fieldChange_def normalizeMessagesChange_def samplePhone_def withPhone_def readMetadataPhoneNumberId_def
  arrayLoop_def recordItem_def sampleStatus_def statusItem_def timestampOrClock_def timestampMs_def emptyAccumulator_def pushUpdate_def updateKey_def
  pushSkip_def

lemma sample_keys: "normalizedKeys JUndef sampleEnvelope = Some [(''status'', ''a''), (''status'', ''b'')]"
  by (simp add: validateMaxEventsOption_def DEFAULT_MAX_EVENTS_PER_ENVELOPE_def sample_simps)

lemma sample_keys_limited:
  "normalizedKeys (JNum (Fin 1)) sampleEnvelope = Some [(''status'', ''a'')]"
  "normalizedKeys (JNum (Fin 2)) sampleEnvelope = Some [(''status'', ''a''), (''status'', ''b'')]"
  by (simp_all add: validateMaxEventsOption_def isPositiveInteger_def isFiniteNum_def isIntegerNum_def numberFloor_def sample_simps)

lemma normalizedKeysD:
  assumes "normalizedKeys limit envelope = Some ks"
  obtains r where "normalizeWebhookEnvelope sampleNormalizer limit envelope = Inr r" "map (\<lambda>u. (up_kind u, up_id u)) (nr_updates r) = ks"
  using assms by (auto simp: normalizedKeys_def split: sum.splits)

theorem normalized_updates_are_distinct_witness:
  "\<exists>r. normalizeWebhookEnvelope sampleNormalizer JUndef sampleEnvelope = Inr r \<and> length (nr_updates r) = 2
    \<and> distinct (map updateKey (nr_updates r))"
proof -
  obtain r where r: "normalizeWebhookEnvelope sampleNormalizer JUndef sampleEnvelope = Inr r"
    "map (\<lambda>u. (up_kind u, up_id u)) (nr_updates r) = [(''status'', ''a''), (''status'', ''b'')]"
    by (rule normalizedKeysD [OF sample_keys])
  from arg_cong [OF r(2), of length] show ?thesis using normalized_updates_are_distinct [OF r(1)] r(1) by auto
qed

theorem limit_truncates_the_updates_witness:
  "\<exists>r r'. normalizeWebhookEnvelope sampleNormalizer (JNum (Fin 1)) sampleEnvelope = Inr r
    \<and> normalizeWebhookEnvelope sampleNormalizer (JNum (Fin 2)) sampleEnvelope = Inr r' \<and> nr_updates r = take 1 (nr_updates r')"
proof -
  obtain r where r: "normalizeWebhookEnvelope sampleNormalizer (JNum (Fin 1)) sampleEnvelope = Inr r"
    by (rule normalizedKeysD [OF sample_keys_limited(1)])
  obtain r' where r': "normalizeWebhookEnvelope sampleNormalizer (JNum (Fin 2)) sampleEnvelope = Inr r'"
    by (rule normalizedKeysD [OF sample_keys_limited(2)])
  show ?thesis using limit_truncates_the_updates [of 1 2 sampleNormalizer sampleEnvelope r r'] r r' by simp
qed

theorem normalized_items_have_dedup_keys_witness:
  "\<exists>r u json phone waba st ts. normalizeWebhookEnvelope sampleNormalizer JUndef sampleEnvelope = Inr r \<and> u \<in> set (nr_updates r)
    \<and> js_stringify unaryText (JArr (map (\<lambda>s. Data (JStr s)) [''status'', phone, waba, ''a'', st, ts])) = Some json
    \<and> extractDedupKey unaryText id (up_value u) = Some (''status:'' @ json)"
proof -
  obtain r where r: "normalizeWebhookEnvelope sampleNormalizer JUndef sampleEnvelope = Inr r"
    "map (\<lambda>u. (up_kind u, up_id u)) (nr_updates r) = [(''status'', ''a''), (''status'', ''b'')]"
    by (rule normalizedKeysD [OF sample_keys])
  then obtain u us where u: "nr_updates r = u # us" "up_kind u = ''status''" "up_id u = ''a''" by auto
  then have "u \<in> set (nr_updates r)" "up_kind u \<in> {''message'', ''status''}" by simp_all
  from normalized_items_have_dedup_keys [OF r(1) this, of unaryText id] u r(1) \<open>u \<in> set (nr_updates r)\<close>
  show ?thesis by (simp del: js_stringify.simps) blast
qed

end
