(* ===== verification/Typed_Filters.thy ===== *)
theory Typed_Filters
  imports Webhook_Payloads Listener_Registry Json_Stringify
begin

section \<open>Typed filters (packages/core/src/filtersTyped)\<close>

text \<open>
  A filter is a branded object with a predicate on updates and a label.  The built-in filters and the
  combinators are functions that check their arguments and make a filter; a predicate may throw.  An update
  is a run-time value.  The regular expression engine is a parameter.
\<close>

subsection \<open>Filters\<close>

datatype filter_code = EmptyArgs | NotAFilter | InvalidPattern | InvalidPredicate | EmptySubstring | InvalidDescribe

record typed_filter = "(jsval, string) filter_arg" +
  tf_describe :: string

type_synonym predicate = "jsval \<Rightarrow> string + bool"

definition brandedShape :: jsval where
  "brandedShape = JObj ObjectProto [(filter_brand, Data (JBool True)), (''predicate'', Data JFun), (''describe'', Data JFun)]"

definition makeFilter :: "predicate \<Rightarrow> string \<Rightarrow> typed_filter" where
  "makeFilter p d = \<lparr> filter_shape = brandedShape, filter_predicate = p, tf_describe = d \<rparr>"

definition createTypedFilter :: "jsval \<Rightarrow> predicate \<Rightarrow> jsval \<Rightarrow> string \<Rightarrow> filter_code + typed_filter" where
  "createTypedFilter pv p dv d =
     (if \<not> isFunction pv then Inl InvalidPredicate
      else if \<not> isFunction dv then Inl InvalidDescribe
      else Inr (makeFilter p d))"

text \<open>\<open>v.k\<close> throws on \<open>null\<close> and \<open>undefined\<close>; \<open>v?.k\<close> does not.\<close>

definition getProp :: "jsval \<Rightarrow> string \<Rightarrow> string + jsval" where
  "getProp v k = (if v \<in> {JUndef, JNull} then Inl ''TypeError'' else Inr (optField v k))"

definition kindIs :: "string \<Rightarrow> predicate" where
  "kindIs k u = bindE (getProp u ''kind'') (\<lambda>v. Inr (v = JStr k))"

text \<open>\<open>a && b\<close> and \<open>a || b\<close>\<close>

definition andThen :: "predicate \<Rightarrow> predicate \<Rightarrow> predicate" where
  "andThen p q u = bindE (p u) (\<lambda>b. if b then q u else Inr False)"

definition orElseP :: "predicate \<Rightarrow> predicate \<Rightarrow> predicate" where
  "orElseP p q u = bindE (p u) (\<lambda>b. if b then Inr True else q u)"

definition kindFilter :: "string \<Rightarrow> string \<Rightarrow> typed_filter" where
  "kindFilter kind label = makeFilter (kindIs kind) label"

definition account :: typed_filter where "account = kindFilter ''account'' ''account''"

definition unknown :: typed_filter where "unknown = kindFilter ''unknown'' ''unknown''"

subsection \<open>Combinators\<close>

definition assertAllFilters :: "typed_filter list \<Rightarrow> filter_code + unit" where
  "assertAllFilters fs = bindE (guardE (fs \<noteq> []) EmptyArgs) (\<lambda>_.
     guardE (list_all (\<lambda>f. isTypedFilter (filter_shape f)) fs) NotAFilter)"

fun joinComma :: "string list \<Rightarrow> string" where
  "joinComma [] = []"
| "joinComma [s] = s"
| "joinComma (s # t # ts) = s @ '', '' @ joinComma (t # ts)"

definition joinDescriptions :: "string \<Rightarrow> typed_filter list \<Rightarrow> string" where
  "joinDescriptions op' fs = op' @ ''('' @ joinComma (map tf_describe fs) @ '')''"

fun allOf :: "predicate list \<Rightarrow> predicate" where
  "allOf [] u = Inr True"
| "allOf (p # ps) u = bindE (p u) (\<lambda>b. if \<not> b then Inr False else allOf ps u)"

fun anyOf :: "predicate list \<Rightarrow> predicate" where
  "anyOf [] u = Inr False"
| "anyOf (p # ps) u = bindE (p u) (\<lambda>b. if b then Inr True else anyOf ps u)"

definition andF :: "typed_filter list \<Rightarrow> filter_code + typed_filter" where
  "andF fs = bindE (assertAllFilters fs) (\<lambda>_. Inr (makeFilter (allOf (map filter_predicate fs)) (joinDescriptions ''and'' fs)))"

definition orF :: "typed_filter list \<Rightarrow> filter_code + typed_filter" where
  "orF fs = bindE (assertAllFilters fs) (\<lambda>_. Inr (makeFilter (anyOf (map filter_predicate fs)) (joinDescriptions ''or'' fs)))"

definition notF :: "typed_filter \<Rightarrow> filter_code + typed_filter" where
  "notF f = bindE (guardE (isTypedFilter (filter_shape f)) NotAFilter) (\<lambda>_.
     Inr (makeFilter (\<lambda>u. bindE (filter_predicate f u) (\<lambda>b. Inr (\<not> b))) (''not('' @ tf_describe f @ '')'')))"

definition customF :: "jsval \<Rightarrow> predicate \<Rightarrow> jsval \<Rightarrow> filter_code + typed_filter" where
  "customF pv p d = bindE (guardE (isFunction pv) InvalidPredicate) (\<lambda>_.
     Inr (makeFilter p (case d of JStr s \<Rightarrow> if s \<noteq> [] then s else ''custom'' | _ \<Rightarrow> ''custom'')))"

subsection \<open>Messages\<close>

definition getMessageRecord :: "jsval \<Rightarrow> string + (string \<times> slot) list option" where
  "getMessageRecord u = bindE (kindIs ''message'' u) (\<lambda>b. Inr (if \<not> b then None
     else (case objectProps u of None \<Rightarrow> None | Some ps \<Rightarrow> envelopeRecord (readOwnDataField ps ''message''))))"

text \<open>A predicate on the record of a message; other updates do not match.\<close>

definition onMessageRecord :: "((string \<times> slot) list \<Rightarrow> bool) \<Rightarrow> predicate" where
  "onMessageRecord f u = bindE (getMessageRecord u) (\<lambda>m. Inr (case m of None \<Rightarrow> False | Some ps \<Rightarrow> f ps))"

definition typeIs :: "string \<Rightarrow> (string \<times> slot) list \<Rightarrow> bool" where
  "typeIs t ps = (readOwnDataField ps ''type'' = JStr t)"

definition textBody :: "(string \<times> slot) list \<Rightarrow> string option" where
  "textBody ps = (if \<not> typeIs ''text'' ps then None
     else (case envelopeRecord (readOwnDataField ps ''text'') of None \<Rightarrow> None | Some ts \<Rightarrow> readStringField ts ''body''))"

definition hasRecordBody :: "string \<Rightarrow> string \<Rightarrow> (string \<times> slot) list \<Rightarrow> bool" where
  "hasRecordBody t k ps = (typeIs t ps \<and> envelopeRecord (readOwnDataField ps k) \<noteq> None)"

definition validateOptionalExact :: "jsval \<Rightarrow> filter_code + string option" where
  "validateOptionalExact v = (case v of
     JUndef \<Rightarrow> Inr None
   | JStr s \<Rightarrow> if js_trim s = [] then Inl EmptySubstring else Inr (Some s)
   | _ \<Rightarrow> Inl InvalidPredicate)"

definition labelled :: "string \<Rightarrow> string option \<Rightarrow> string" where
  "labelled name arg = name @ ''('' @ (case arg of None \<Rightarrow> [] | Some s \<Rightarrow> jsonQuote s) @ '')''"

definition messageText :: "jsval \<Rightarrow> filter_code + typed_filter" where
  "messageText v = bindE (case v of
       JUndef \<Rightarrow> Inr None
     | JStr s \<Rightarrow> if s = [] then Inl EmptySubstring else Inr (Some s)
     | _ \<Rightarrow> Inl InvalidPredicate) (\<lambda>substring.
     Inr (makeFilter (onMessageRecord (\<lambda>ps. case textBody ps of
         None \<Rightarrow> False
       | Some body \<Rightarrow> (case substring of None \<Rightarrow> True | Some s \<Rightarrow> js_includes body s)))
       (labelled ''message.text'' substring)))"

text \<open>A pattern: an expression of the caller, its source and flags, or a string.\<close>

datatype pattern = RegExpPattern string string | StringPattern string | OtherPattern

record regexp_engine =
  re_compile :: "string \<Rightarrow> (string \<times> string) option"
  re_test :: "string \<Rightarrow> string \<Rightarrow> string \<Rightarrow> bool"

definition messageTextMatches :: "regexp_engine \<Rightarrow> pattern \<Rightarrow> filter_code + typed_filter" where
  "messageTextMatches en pat = bindE (case pat of
       RegExpPattern source flags \<Rightarrow> Inr (source, flags)
     | StringPattern s \<Rightarrow> (case re_compile en s of None \<Rightarrow> Inl InvalidPattern | Some sf \<Rightarrow> Inr sf)
     | OtherPattern \<Rightarrow> Inl InvalidPattern) (\<lambda>(source, flags).
     let clonedFlags = filter (\<lambda>c. c \<notin> {CHR ''g'', CHR ''y''}) flags in
     Inr (makeFilter (onMessageRecord (\<lambda>ps. case textBody ps of None \<Rightarrow> False | Some body \<Rightarrow> re_test en source clonedFlags body))
       (''message.textMatches(/'' @ source @ ''/'' @ clonedFlags @ '')'')))"

definition messageTextEquals :: "jsval \<Rightarrow> filter_code + typed_filter" where
  "messageTextEquals v = (case v of
     JStr s \<Rightarrow> Inr (makeFilter (onMessageRecord (\<lambda>ps. textBody ps = Some s)) (labelled ''message.textEquals'' (Some s)))
   | _ \<Rightarrow> Inl InvalidPredicate)"

definition requiredText :: "jsval \<Rightarrow> filter_code + string" where
  "requiredText v = (case v of JStr s \<Rightarrow> if s = [] then Inl EmptySubstring else Inr s | _ \<Rightarrow> Inl InvalidPredicate)"

definition messageType :: "jsval \<Rightarrow> filter_code + typed_filter" where
  "messageType v = bindE (requiredText v) (\<lambda>s.
     Inr (makeFilter (onMessageRecord (typeIs s)) (labelled ''message.type'' (Some s))))"

definition messageFrom :: "jsval \<Rightarrow> filter_code + typed_filter" where
  "messageFrom v = bindE (requiredText v) (\<lambda>s.
     Inr (makeFilter (onMessageRecord (\<lambda>ps. readOwnDataField ps ''from'' = JStr s)) (labelled ''message.from'' (Some s))))"

definition MEDIA_TYPES :: "string list" where
  "MEDIA_TYPES = [''image'', ''video'', ''audio'', ''document'', ''sticker'']"

definition mediaFamilyFilter :: "string \<Rightarrow> typed_filter" where
  "mediaFamilyFilter t = makeFilter (onMessageRecord (hasRecordBody t t)) (''message.'' @ t @ ''()'')"

definition messageMedia :: typed_filter where
  "messageMedia = makeFilter (onMessageRecord (\<lambda>ps. list_ex (\<lambda>t. hasRecordBody t t ps) MEDIA_TYPES)) ''message.media()''"

definition messageLocation :: typed_filter where
  "messageLocation = makeFilter (onMessageRecord (hasRecordBody ''location'' ''location'')) ''message.location()''"

text \<open>The record \<open>k\<close> of a message of type \<open>k\<close>.\<close>

definition typedBody :: "string \<Rightarrow> (string \<times> slot) list \<Rightarrow> (string \<times> slot) list option" where
  "typedBody k ps = (if typeIs k ps then envelopeRecord (readOwnDataField ps k) else None)"

definition fieldMatches :: "string \<Rightarrow> string option \<Rightarrow> (string \<times> slot) list \<Rightarrow> bool" where
  "fieldMatches k exact ps = (case exact of None \<Rightarrow> True | Some s \<Rightarrow> readOwnDataField ps k = JStr s)"

definition messageReaction :: "jsval \<Rightarrow> filter_code + typed_filter" where
  "messageReaction v = bindE (validateOptionalExact v) (\<lambda>exact. Inr (makeFilter (onMessageRecord (\<lambda>ps. case typedBody ''reaction'' ps of
       None \<Rightarrow> False | Some rs \<Rightarrow> fieldMatches ''emoji'' exact rs)) (labelled ''message.reaction'' exact)))"

definition messageReactionAdded :: typed_filter where
  "messageReactionAdded = makeFilter (onMessageRecord (\<lambda>ps. case typedBody ''reaction'' ps of
       None \<Rightarrow> False | Some rs \<Rightarrow> (case readOwnDataField rs ''emoji'' of JStr s \<Rightarrow> s \<noteq> [] | _ \<Rightarrow> False))) ''message.reactionAdded()''"

definition messageReactionRemoved :: typed_filter where
  "messageReactionRemoved = makeFilter (onMessageRecord (\<lambda>ps. case typedBody ''reaction'' ps of
       None \<Rightarrow> False | Some rs \<Rightarrow> readOwnDataField rs ''emoji'' = JStr [])) ''message.reactionRemoved()''"

definition getInteractiveSubtype :: "(string \<times> slot) list \<Rightarrow> (string \<times> (string \<times> slot) list) option" where
  "getInteractiveSubtype ps = (case typedBody ''interactive'' ps of None \<Rightarrow> None
     | Some is \<Rightarrow> (case readStringField is ''type'' of None \<Rightarrow> None | Some t \<Rightarrow> Some (t, is)))"

definition messageInteractive :: typed_filter where
  "messageInteractive = makeFilter (onMessageRecord (\<lambda>ps. getInteractiveSubtype ps \<noteq> None)) ''message.interactive()''"

definition messageInteractiveReply :: "string \<Rightarrow> string \<Rightarrow> jsval \<Rightarrow> string \<Rightarrow> filter_code + typed_filter" where
  "messageInteractiveReply kind key v label = bindE (validateOptionalExact v) (\<lambda>exact.
     Inr (makeFilter (onMessageRecord (\<lambda>ps. case getInteractiveSubtype ps of
         None \<Rightarrow> False
       | Some (t, is) \<Rightarrow> t = kind \<and> (case envelopeRecord (readOwnDataField is key) of
             None \<Rightarrow> False | Some rs \<Rightarrow> fieldMatches ''id'' exact rs))) (labelled label exact)))"

definition messageInteractiveNfmReply :: typed_filter where
  "messageInteractiveNfmReply = makeFilter (onMessageRecord (\<lambda>ps. case getInteractiveSubtype ps of
       None \<Rightarrow> False
     | Some (t, is) \<Rightarrow> t = ''nfm_reply'' \<and> envelopeRecord (readOwnDataField is ''nfmReply'') \<noteq> None)) ''message.interactiveNfmReply()''"

definition messageButton :: "jsval \<Rightarrow> filter_code + typed_filter" where
  "messageButton v = bindE (validateOptionalExact v) (\<lambda>exact. Inr (makeFilter (onMessageRecord (\<lambda>ps. case typedBody ''button'' ps of
       None \<Rightarrow> False | Some bs \<Rightarrow> fieldMatches ''payload'' exact bs)) (labelled ''message.button'' exact)))"

definition messageKind :: typed_filter where "messageKind = kindFilter ''message'' ''message''"

subsection \<open>Statuses\<close>

text \<open>\<open>u.a.b === expected\<close> after the test of the kind.\<close>

definition subfieldIs :: "string \<Rightarrow> string \<Rightarrow> string \<Rightarrow> predicate" where
  "subfieldIs a b expected u = bindE (getProp u a) (\<lambda>v. bindE (getProp v b) (\<lambda>x. Inr (x = JStr expected)))"

definition buildStatusFilter :: "string \<Rightarrow> string \<Rightarrow> typed_filter" where
  "buildStatusFilter expected label = makeFilter (andThen (kindIs ''status'') (subfieldIs ''status'' ''status'' expected)) label"

definition STATUS_FILTERS :: "string list" where
  "STATUS_FILTERS = [''sent'', ''delivered'', ''read'', ''played'', ''failed'']"

definition statusKind :: typed_filter where "statusKind = kindFilter ''status'' ''status''"

definition statusF :: "string \<Rightarrow> typed_filter" where
  "statusF expected = buildStatusFilter expected (''status.'' @ expected @ ''()'')"

subsection \<open>Calls\<close>

definition isCallUpdate :: predicate where
  "isCallUpdate = orElseP (kindIs ''callConnect'') (orElseP (kindIs ''callTerminate'') (kindIs ''callStatus''))"

definition callKind :: typed_filter where "callKind = makeFilter isCallUpdate ''call''"

definition callEvent :: "string \<Rightarrow> string \<Rightarrow> typed_filter" where
  "callEvent kind label = makeFilter (kindIs kind) label"

definition callStatusFilter :: "string \<Rightarrow> string \<Rightarrow> typed_filter" where
  "callStatusFilter status label = makeFilter (andThen (kindIs ''callStatus'') (subfieldIs ''callStatus'' ''status'' status)) label"

definition callDirectionFilter :: "string \<Rightarrow> string \<Rightarrow> typed_filter" where
  "callDirectionFilter direction label = makeFilter
     (andThen (orElseP (kindIs ''callConnect'') (kindIs ''callTerminate'')) (subfieldIs ''call'' ''direction'' direction)) label"

definition CALL_FILTERS :: "typed_filter list" where
  "CALL_FILTERS = [callKind, callEvent ''callConnect'' ''call.connect()'', callEvent ''callTerminate'' ''call.terminate()'',
     callEvent ''callStatus'' ''call.status()'', callStatusFilter ''RINGING'' ''call.ringing()'',
     callStatusFilter ''ACCEPTED'' ''call.answered()'', callStatusFilter ''REJECTED'' ''call.rejected()'',
     callDirectionFilter ''USER_INITIATED'' ''call.incoming()'', callDirectionFilter ''BUSINESS_INITIATED'' ''call.outgoing()'']"

subsection \<open>Groups\<close>

definition validateGroupId :: "jsval \<Rightarrow> filter_code + string" where
  "validateGroupId v = (case v of
     JStr s \<Rightarrow> if s = [] \<or> js_trim s = [] then Inl EmptySubstring else Inr s
   | _ \<Rightarrow> Inl InvalidPredicate)"

definition GROUP_KINDS :: "string list" where
  "GROUP_KINDS = [''groupLifecycle'', ''groupParticipants'', ''groupSettings'', ''groupStatus'']"

definition idText :: "jsval \<Rightarrow> string option" where
  "idText v = (case v of JStr s \<Rightarrow> if s \<noteq> [] then Some s else None | _ \<Rightarrow> None)"

definition ownRecord :: "jsval \<Rightarrow> string \<Rightarrow> (string \<times> slot) list option" where
  "ownRecord u k = (case objectProps u of None \<Rightarrow> None | Some ps \<Rightarrow> envelopeRecord (readOwnDataField ps k))"

definition getGroupId :: "jsval \<Rightarrow> string + string option" where
  "getGroupId u = bindE (getProp u ''kind'') (\<lambda>k. Inr (
     if k = JStr ''message'' then (case ownRecord u ''message'' of None \<Rightarrow> None | Some ms \<Rightarrow> idText (readOwnDataField ms ''groupId''))
     else if k = JStr ''status'' then (case ownRecord u ''status'' of None \<Rightarrow> None
         | Some ss \<Rightarrow> if readOwnDataField ss ''recipientType'' \<noteq> JStr ''group'' then None else idText (readOwnDataField ss ''recipientId''))
     else if k \<in> JStr ` set GROUP_KINDS then (case ownRecord u ''group'' of None \<Rightarrow> None | Some gs \<Rightarrow> idText (readOwnDataField gs ''groupId''))
     else None))"

definition hasGroupId :: predicate where
  "hasGroupId u = bindE (getGroupId u) (\<lambda>g. Inr (g \<noteq> None))"

definition isGroupMessage :: predicate where
  "isGroupMessage = andThen (kindIs ''message'') hasGroupId"

definition isGroupStatusReceipt :: predicate where
  "isGroupStatusReceipt = andThen (kindIs ''status'') hasGroupId"

definition groupKind :: typed_filter where "groupKind = makeFilter hasGroupId ''group''"

definition groupMessage :: typed_filter where "groupMessage = makeFilter isGroupMessage ''group.message()''"

definition groupParticipantsUpdate :: typed_filter where
  "groupParticipantsUpdate = makeFilter (kindIs ''groupParticipants'') ''group.participantsUpdate()''"

definition groupLifecycleUpdate :: typed_filter where
  "groupLifecycleUpdate = makeFilter (kindIs ''groupLifecycle'') ''group.lifecycleUpdate()''"

definition groupSettingsUpdate :: typed_filter where
  "groupSettingsUpdate = makeFilter (kindIs ''groupSettings'') ''group.settingsUpdate()''"

definition groupStatusUpdate :: typed_filter where
  "groupStatusUpdate = makeFilter (orElseP (kindIs ''groupStatus'') isGroupStatusReceipt) ''group.statusUpdate()''"

definition groupFromGroup :: "jsval \<Rightarrow> filter_code + typed_filter" where
  "groupFromGroup v = bindE (validateGroupId v) (\<lambda>expected.
     Inr (makeFilter (\<lambda>u. bindE (getGroupId u) (\<lambda>g. Inr (g = Some expected))) (labelled ''group.fromGroup'' (Some expected))))"

subsection \<open>Templates\<close>

definition isTemplateAccountUpdate :: predicate where
  "isTemplateAccountUpdate = andThen (kindIs ''account'') (\<lambda>u. bindE (getProp u ''template'') (\<lambda>t. Inr (t \<noteq> JUndef)))"

definition assertOptionalNonEmptyString :: "jsval \<Rightarrow> filter_code + string option" where
  "assertOptionalNonEmptyString v = (case v of
     JUndef \<Rightarrow> Inr None
   | JStr s \<Rightarrow> if s = [] \<or> js_trim s = [] then Inl EmptySubstring else Inr (Some s)
   | _ \<Rightarrow> Inl InvalidPredicate)"

text \<open>\<open>u.template?.k === expected\<close>; an argument that was left out is compared as \<open>undefined\<close>.\<close>

definition templateFieldIs :: "string \<Rightarrow> string option \<Rightarrow> predicate" where
  "templateFieldIs k expected u = bindE (getProp u ''template'') (\<lambda>t.
     Inr ((if t \<in> {JUndef, JNull} then JUndef else optField t k) = (case expected of None \<Rightarrow> JUndef | Some s \<Rightarrow> JStr s)))"

definition templateStatus :: "jsval \<Rightarrow> filter_code + typed_filter" where
  "templateStatus v = bindE (assertOptionalNonEmptyString v) (\<lambda>expected.
     Inr (makeFilter (andThen isTemplateAccountUpdate (andThen
         (\<lambda>u. bindE (getProp u ''eventName'') (\<lambda>x. Inr (x = JStr ''message_template_status_update'')))
         (case expected of None \<Rightarrow> (\<lambda>u. Inr True) | Some s \<Rightarrow> templateFieldIs ''event'' (Some s))))
       (labelled ''template.status'' expected)))"

definition byTemplateField :: "string \<Rightarrow> jsval \<Rightarrow> filter_code + typed_filter" where
  "byTemplateField field v = bindE (assertOptionalNonEmptyString v) (\<lambda>expected.
     Inr (makeFilter (andThen isTemplateAccountUpdate (templateFieldIs field expected))
       (''template.'' @ field @ ''('' @ (case expected of None \<Rightarrow> ''undefined'' | Some s \<Rightarrow> jsonQuote s) @ '')'')))"

definition templateKind :: typed_filter where "templateKind = makeFilter isTemplateAccountUpdate ''template''"

subsection \<open>User preferences, system events, opened chats\<close>

definition assertNonEmptyString :: "jsval \<Rightarrow> filter_code + string" where
  "assertNonEmptyString v = (case v of
     JStr s \<Rightarrow> if s = [] \<or> js_trim s = [] then Inl EmptySubstring else Inr s
   | _ \<Rightarrow> Inl InvalidPredicate)"

definition userPreferencesKind :: typed_filter where "userPreferencesKind = kindFilter ''userPreferences'' ''userPreferences''"

definition preferenceFilter :: "string \<Rightarrow> string \<Rightarrow> typed_filter" where
  "preferenceFilter k expected = makeFilter (andThen (kindIs ''userPreferences'') (subfieldIs ''preference'' k expected))
     (labelled (''userPreferences.'' @ k) (Some expected))"

definition userPreferencesPreference :: "jsval \<Rightarrow> filter_code + typed_filter" where
  "userPreferencesPreference v = bindE (assertNonEmptyString v) (\<lambda>expected.
     if expected \<noteq> ''opt_in'' \<and> expected \<noteq> ''opt_out'' then Inl InvalidPredicate
     else Inr (preferenceFilter ''preference'' expected))"

definition userPreferencesCategory :: "jsval \<Rightarrow> filter_code + typed_filter" where
  "userPreferencesCategory v = bindE (assertNonEmptyString v) (\<lambda>expected. Inr (preferenceFilter ''category'' expected))"

definition systemKind :: typed_filter where "systemKind = kindFilter ''system'' ''system''"

definition systemF :: "string \<Rightarrow> typed_filter" where
  "systemF t = makeFilter (andThen (kindIs ''system'') (subfieldIs ''system'' ''type'' t)) (''system.'' @ t @ ''()'')"

definition SYSTEM_FILTERS :: "typed_filter list" where
  "SYSTEM_FILTERS = [systemKind, systemF ''phoneNumberChange'', systemF ''identityChange'']"

definition chatOpenedKind :: typed_filter where "chatOpenedKind = kindFilter ''chatOpened'' ''chatOpened''"

definition chatOpenedRequestWelcome :: typed_filter where
  "chatOpenedRequestWelcome = makeFilter (andThen (kindIs ''chatOpened'') (subfieldIs ''chatOpened'' ''type'' ''REQUEST_WELCOME''))
     ''chatOpened.requestWelcome()''"

subsection \<open>The algebra of filters\<close>

lemma made_is_filter [simp]: "isTypedFilter (filter_shape (makeFilter p d))"
  by (simp add: makeFilter_def brandedShape_def isTypedFilter_def objectProps_def js_get_def slot_value_def isFunction_def filter_brand_def)

lemma made_predicate [simp]: "filter_predicate (makeFilter p d) = p"
  by (simp add: makeFilter_def)

lemma combinators_accept:
  assumes "fs \<noteq> []" "\<forall>f \<in> set fs. isTypedFilter (filter_shape f)"
  shows "andF fs = Inr (makeFilter (allOf (map filter_predicate fs)) (joinDescriptions ''and'' fs))"
    "orF fs = Inr (makeFilter (anyOf (map filter_predicate fs)) (joinDescriptions ''or'' fs))"
  using assms by (auto simp: andF_def orF_def assertAllFilters_def list_all_iff)

text \<open>De Morgan, errors and short circuits included.\<close>

lemma de_morgan_predicates:
  "bindE (anyOf ps u) (\<lambda>b. Inr (\<not> b)) = allOf (map (\<lambda>p u. bindE (p u) (\<lambda>b. Inr (\<not> b))) ps) u"
proof (induction ps)
  case (Cons p ps)
  show ?case
  proof (cases "p u")
    case (Inr b) then show ?thesis using Cons by (cases b) auto
  qed simp
qed simp

lemma allOf_true: "allOf ps u = Inr True \<longleftrightarrow> (\<forall>p \<in> set ps. p u = Inr True)"
proof (induction ps)
  case (Cons p ps)
  show ?case
  proof (cases "p u")
    case (Inr b) then show ?thesis using Cons by (cases b) auto
  qed simp
qed simp

end
