(* ===== verification/Whatsapp_Facade.thy ===== *)
theory Whatsapp_Facade
  imports Typed_Filters Typed_Router
begin

section \<open>The facade (packages/core/src/whatsappFacade.ts)\<close>

text \<open>
  \<open>WhatsApp\<close> binds a Graph client, the ids of a phone number and of an account, a router and a listener
  registry, which it creates when it is first needed.  \<open>dispatch\<close> shows an update to the listeners and then
  to the router.  A sent message carries waiters: listeners for the reply to it or for its statuses.  A
  registry given by the caller is one of this package.  The calls that send are in the clients.
\<close>

subsection \<open>Configuration\<close>

datatype facade_code =
    InvalidConfig | InvalidGraphClient | InvalidPhoneNumberId | InvalidWabaId | InvalidRouter | InvalidObserver
  | InvalidListenerRegistry | InvalidListenerRegistryOptions

datatype listen_code = InvalidListenOptions | InvalidListenType | InvalidListenFrom | InvalidListenFilter

datatype facade_exn =
    ConfigError facade_code
  | ListenError listen_code
  | FilterExn filter_code
  | ListenerExn listener_options_code
  | RouterExn router_options_code

datatype router_arg = NoRouter | TypedRouterArg | ForeignRouter jsval

record facade_config =
  fcg_graphClient :: jsval
  fcg_phoneNumberId :: jsval
  fcg_wabaId :: jsval
  fcg_router :: router_arg
  fcg_observer :: jsval
  fcg_routerOptions :: jsval
  fcg_listenerRegistry :: jsval
  fcg_listenerRegistryOptions :: jsval

record facade =
  fa_phoneNumberId :: "string option"
  fa_wabaId :: "string option"
  fa_ownRouter :: "(nat \<times> concurrency) option"
  fa_registryOptions :: jsval

definition hasRequestMethod :: "jsval \<Rightarrow> bool" where
  "hasRequestMethod v = (objectProps v \<noteq> None \<and> isFunction (optField v ''request''))"

definition registryShaped :: "jsval \<Rightarrow> bool" where
  "registryShaped v = (objectProps v \<noteq> None \<and> isFunction (optField v ''register'') \<and> isFunction (optField v ''evaluate'')
     \<and> isFunction (optField v ''clear''))"

definition optionalId :: "facade_code \<Rightarrow> (string \<Rightarrow> facade_exn + unit) \<Rightarrow> jsval \<Rightarrow> facade_exn + string option" where
  "optionalId c bind_client v = (case v of
     JUndef \<Rightarrow> Inr None
   | JStr s \<Rightarrow> if s = [] then Inl (ConfigError c) else bindE (bind_client s) (\<lambda>_. Inr (Some s))
   | _ \<Rightarrow> Inl (ConfigError c))"

text \<open>\<open>{...(routerOptions ?? {}), observer: observer ?? routerOptions?.observer}\<close>\<close>

definition routerOptionsOf :: "jsval \<Rightarrow> jsval \<Rightarrow> jsval" where
  "routerOptionsOf routerOptions observer = (let given = (if observer \<in> {JUndef, JNull} then optField routerOptions ''observer'' else observer) in
     JObj ObjectProto ((''observer'', Data given)
       # (case routerOptions of JObj _ ps \<Rightarrow> filter (\<lambda>(k, _). k \<noteq> ''observer'') ps | _ \<Rightarrow> [])))"

text \<open>The constructors of the two scoped clients, which check the ids, are arguments.\<close>

definition constructFacade :: "(string \<Rightarrow> facade_exn + unit) \<Rightarrow> (string \<Rightarrow> facade_exn + unit) \<Rightarrow> facade_config option \<Rightarrow> facade_exn + facade" where
  "constructFacade newPhoneNumberClient newWabaClient config = (case config of
     None \<Rightarrow> Inl (ConfigError InvalidConfig)
   | Some c \<Rightarrow>
       bindE (guardE (hasRequestMethod (fcg_graphClient c)) (ConfigError InvalidGraphClient)) (\<lambda>_.
       bindE (guardE (fcg_observer c = JUndef \<or> objectProps (fcg_observer c) \<noteq> None) (ConfigError InvalidObserver)) (\<lambda>_.
       bindE (guardE (case fcg_router c of ForeignRouter _ \<Rightarrow> False | _ \<Rightarrow> True) (ConfigError InvalidRouter)) (\<lambda>_.
       bindE (guardE (fcg_listenerRegistry c = JUndef \<or> registryShaped (fcg_listenerRegistry c)) (ConfigError InvalidListenerRegistry)) (\<lambda>_.
       bindE (guardE (fcg_listenerRegistryOptions c = JUndef \<or> objectProps (fcg_listenerRegistryOptions c) \<noteq> None)
         (ConfigError InvalidListenerRegistryOptions)) (\<lambda>_.
       bindE (optionalId InvalidPhoneNumberId newPhoneNumberClient (fcg_phoneNumberId c)) (\<lambda>phone.
       bindE (optionalId InvalidWabaId newWabaClient (fcg_wabaId c)) (\<lambda>waba.
       bindE (if fcg_router c = TypedRouterArg then Inr None
           else (case constructRouter (routerOptionsOf (fcg_routerOptions c) (fcg_observer c)) of
               Inl e \<Rightarrow> Inl (RouterExn e) | Inr caps \<Rightarrow> Inr (Some caps))) (\<lambda>own.
       Inr \<lparr> fa_phoneNumberId = phone, fa_wabaId = waba, fa_ownRouter = own,
             fa_registryOptions = fcg_listenerRegistryOptions c \<rparr>)))))))))"

subsection \<open>Listening\<close>

definition VALID_KINDS :: "string list" where
  "VALID_KINDS = [''message'', ''status'', ''account'', ''unknown'', ''callConnect'', ''callTerminate'', ''callStatus'',
     ''groupLifecycle'', ''groupParticipants'', ''groupSettings'', ''groupStatus'', ''userPreferences'', ''system'', ''chatOpened'']"

definition KIND_FILTERS :: "string \<Rightarrow> typed_filter" where
  "KIND_FILTERS k = (
     if k = ''message'' then messageKind else if k = ''status'' then statusKind
     else if k = ''account'' then account else if k = ''unknown'' then unknown
     else if k = ''callConnect'' then callEvent ''callConnect'' ''call.connect()''
     else if k = ''callTerminate'' then callEvent ''callTerminate'' ''call.terminate()''
     else if k = ''callStatus'' then callEvent ''callStatus'' ''call.status()''
     else if k = ''userPreferences'' then userPreferencesKind else if k = ''system'' then systemKind
     else if k = ''chatOpened'' then chatOpenedKind else kindFilter k k)"

record listen_options =
  lo_type :: jsval
  lo_from :: jsval
  lo_groupId :: jsval
  lo_filter :: "typed_filter option"
  lo_badFilter :: jsval
  lo_timeoutMs :: jsval
  lo_signal :: jsval
  lo_description :: jsval

text \<open>\<open>v?.k\<close>\<close>

definition optionalGet :: "jsval \<Rightarrow> string \<Rightarrow> jsval" where
  "optionalGet v k = (if v \<in> {JUndef, JNull} then JUndef else optField v k)"

definition fromPredicate :: "string \<Rightarrow> string \<Rightarrow> predicate" where
  "fromPredicate kind from u = bindE (kindIs kind u) (\<lambda>same.
     if \<not> same then Inr False
     else if kind = ''message'' then subfieldIs ''message'' ''from'' from u
     else if kind = ''status'' then bindE (getProp u ''status'') (\<lambda>sv. Inr (optionalGet sv ''recipient_id'' = JStr from))
     else Inr False)"

definition buildListenFilter :: "string \<Rightarrow> string option \<Rightarrow> jsval \<Rightarrow> typed_filter option \<Rightarrow> filter_code + typed_filter" where
  "buildListenFilter kind from groupId flt =
     bindE (if groupId = JUndef then Inr [] else bindE (groupFromGroup groupId) (\<lambda>g. Inr [g])) (\<lambda>group.
     let parts = [KIND_FILTERS kind]
       @ (case from of None \<Rightarrow> [] | Some f \<Rightarrow> [makeFilter (fromPredicate kind f) (''from='' @ f)])
       @ group @ (case flt of None \<Rightarrow> [] | Some f \<Rightarrow> [f])
     in if length parts = 1 then Inr (KIND_FILTERS kind) else andF parts)"

definition listenChecks :: "listen_options option \<Rightarrow> facade_exn + listen_options \<times> string \<times> string option" where
  "listenChecks options = (case options of
     None \<Rightarrow> Inl (ListenError InvalidListenOptions)
   | Some lo \<Rightarrow> (case lo_type lo of
       JStr k \<Rightarrow> if k \<notin> set VALID_KINDS then Inl (ListenError InvalidListenType)
         else bindE (case lo_from lo of JUndef \<Rightarrow> Inr None
             | JStr s \<Rightarrow> if s = [] then Inl (ListenError InvalidListenFrom) else Inr (Some s)
             | _ \<Rightarrow> Inl (ListenError InvalidListenFrom)) (\<lambda>from.
           bindE (guardE (case lo_groupId lo of JUndef \<Rightarrow> True | JStr s \<Rightarrow> s \<noteq> [] | _ \<Rightarrow> False) (ListenError InvalidListenFrom)) (\<lambda>_.
           bindE (guardE (lo_badFilter lo = JUndef) (ListenError InvalidListenFilter)) (\<lambda>_. Inr (lo, k, from))))
     | _ \<Rightarrow> Inl (ListenError InvalidListenType)))"

definition definedProps :: "(string \<times> jsval) list \<Rightarrow> jsval" where
  "definedProps ps = jsObject (filter (\<lambda>(_, v). v \<noteq> JUndef) ps)"

type_synonym facade_registry = "(jsval, string) registry"

record ('h, 'w) facade_state =
  fs_registry :: "facade_registry option"
  fs_router :: "(jsval, string, 'h, unit, 'w) router"

type_synonym ('h, 'w, 'a) fact = "(('h, 'w) facade_state, facade_exn, 'a) act"

definition ensureRegistry :: "facade \<Rightarrow> ('h, 'w, facade_registry) fact" where
  "ensureRegistry fa s = (case fs_registry s of
     Some r \<Rightarrow> (Inr r, s)
   | None \<Rightarrow> (case createListenerRegistry (fa_registryOptions fa) of
       Inl e \<Rightarrow> (Inl (ListenerExn e), s)
     | Inr r \<Rightarrow> (Inr r, s\<lparr>fs_registry := Some r\<rparr>)))"

definition registerListener :: "typed_filter \<Rightarrow> jsval \<Rightarrow> nat \<Rightarrow> facade_registry \<Rightarrow> ('h, 'w, nat) fact" where
  "registerListener f opts sg r s = (case register (filter_arg.truncate f) opts sg r of
     (Inl e, r') \<Rightarrow> (Inl (ListenerExn e), s\<lparr>fs_registry := Some r'\<rparr>)
   | (Inr i, r') \<Rightarrow> (Inr i, s\<lparr>fs_registry := Some r'\<rparr>))"

definition listen :: "facade \<Rightarrow> listen_options option \<Rightarrow> nat \<Rightarrow> ('h, 'w, nat) fact" where
  "listen fa options sg =
     bindA (liftA (listenChecks options)) (\<lambda>(lo, kind, from).
     bindA (ensureRegistry fa) (\<lambda>r.
     bindA (liftA (case buildListenFilter kind from (lo_groupId lo) (lo_filter lo) of Inl e \<Rightarrow> Inl (FilterExn e) | Inr f \<Rightarrow> Inr f)) (\<lambda>f.
     registerListener f (definedProps [(''timeoutMs'', lo_timeoutMs lo), (''signal'', lo_signal lo), (''description'', lo_description lo)]) sg r)))"

subsection \<open>Waiters of a sent message\<close>

definition firstOf :: "jsval \<Rightarrow> string \<Rightarrow> jsval" where
  "firstOf response k = (case optionalGet response k of
     JArr (sl # _) \<Rightarrow> slot_value sl
   | JObj _ ps \<Rightarrow> js_get ps ''0''
   | _ \<Rightarrow> JUndef)"

definition firstSentMessageId :: "jsval \<Rightarrow> string option" where
  "firstSentMessageId response = idText (optionalGet (firstOf response ''messages'') ''id'')"

definition firstRecipientId :: "jsval \<Rightarrow> string option" where
  "firstRecipientId response = idText (optionalGet (firstOf response ''contacts'') ''wa_id'')"

datatype sent_wait = WaitReply | WaitClick | WaitSelection | WaitFlowCompletion | WaitDelivered | WaitRead | WaitFailed

record sent_result =
  sr_messageId :: "string option"
  sr_recipientId :: "string option"

text \<open>\<open>firstRecipientId(response) ?? sentRecipientId\<close>\<close>

definition toWaitableSentResult :: "jsval \<Rightarrow> string option \<Rightarrow> sent_result" where
  "toWaitableSentResult response sentRecipientId = \<lparr> sr_messageId = firstSentMessageId response,
     sr_recipientId = (case firstRecipientId response of Some r \<Rightarrow> Some r | None \<Rightarrow> sentRecipientId) \<rparr>"

definition matchesSentMessage :: "sent_result \<Rightarrow> predicate" where
  "matchesSentMessage sr u = (case sr_messageId sr of
     None \<Rightarrow> Inr False
   | Some mid \<Rightarrow> bindE (getProp u ''message'') (\<lambda>mv. bindE (getProp mv ''context'') (\<lambda>cv.
       if optionalGet cv ''messageId'' \<noteq> JStr mid then Inr False
       else (case sr_recipientId sr of None \<Rightarrow> Inr True
         | Some rcpt \<Rightarrow> bindE (getProp mv ''from'') (\<lambda>f. Inr (f = JStr rcpt))))))"

definition interactiveIs :: "string \<Rightarrow> predicate" where
  "interactiveIs t u = bindE (getProp u ''message'') (\<lambda>mv. bindE (getProp mv ''type'') (\<lambda>ty.
     if ty \<noteq> JStr ''interactive'' then Inr False
     else bindE (getProp mv ''interactive'') (\<lambda>iv. bindE (getProp iv ''type'') (\<lambda>it. Inr (it = JStr t)))))"

definition messageWait :: "sent_wait \<Rightarrow> predicate" where
  "messageWait w = (case w of
     WaitClick \<Rightarrow> orElseP (subfieldIs ''message'' ''type'' ''button'') (interactiveIs ''button_reply'')
   | WaitSelection \<Rightarrow> interactiveIs ''list_reply''
   | WaitFlowCompletion \<Rightarrow> interactiveIs ''nfm_reply''
   | _ \<Rightarrow> (\<lambda>u. Inr True))"

definition statusWait :: "sent_result \<Rightarrow> string \<Rightarrow> predicate" where
  "statusWait sr expected u = bindE (kindIs ''status'' u) (\<lambda>b. if \<not> b then Inr False
     else (case sr_messageId sr of None \<Rightarrow> Inr False
       | Some mid \<Rightarrow> bindE (getProp u ''status'') (\<lambda>sv. bindE (getProp sv ''id'') (\<lambda>i.
           if i \<noteq> JStr mid then Inr False
           else if optField sv ''status'' \<noteq> JStr expected then Inr False
           else let r = (if optField sv ''recipientId'' \<in> {JUndef, JNull} then optField sv ''recipient_id'' else optField sv ''recipientId'')
             in Inr (case sr_recipientId sr of None \<Rightarrow> True | Some rcpt \<Rightarrow> r = JStr rcpt)))))"

definition waitPredicate :: "sent_result \<Rightarrow> sent_wait \<Rightarrow> predicate" where
  "waitPredicate sr w = (case w of
     WaitDelivered \<Rightarrow> statusWait sr ''delivered''
   | WaitRead \<Rightarrow> statusWait sr ''read''
   | WaitFailed \<Rightarrow> statusWait sr ''failed''
   | _ \<Rightarrow> andThen (kindIs ''message'') (andThen (matchesSentMessage sr) (messageWait w)))"

definition waitLabel :: "sent_wait \<Rightarrow> string" where
  "waitLabel w = (case w of WaitReply \<Rightarrow> ''waitForReply'' | WaitClick \<Rightarrow> ''waitForClick'' | WaitSelection \<Rightarrow> ''waitForSelection''
     | WaitFlowCompletion \<Rightarrow> ''waitForFlowCompletion'' | WaitDelivered \<Rightarrow> ''waitUntilDelivered'' | WaitRead \<Rightarrow> ''waitUntilRead''
     | WaitFailed \<Rightarrow> ''waitUntilFailed'')"

definition waitFilter :: "sent_result \<Rightarrow> sent_wait \<Rightarrow> typed_filter" where
  "waitFilter sr w = makeFilter (waitPredicate sr w)
     (''sent.'' @ waitLabel w @ ''('' @ (case sr_messageId sr of None \<Rightarrow> ''missing'' | Some m \<Rightarrow> m) @ '')'')"

definition sentWait :: "facade \<Rightarrow> sent_result \<Rightarrow> sent_wait \<Rightarrow> jsval \<Rightarrow> jsval \<Rightarrow> nat \<Rightarrow> ('h, 'w, nat) fact" where
  "sentWait fa sr w timeoutMs signal sg = bindA (ensureRegistry fa) (\<lambda>r.
     registerListener (waitFilter sr w) (definedProps [(''timeoutMs'', timeoutMs), (''signal'', signal)]) sg r)"

subsection \<open>Dispatch\<close>

text \<open>The facade's own observer, and the environment of its router.\<close>

record ('h, 'w) facade_env =
  fe_router :: "(jsval, string, 'h, unit, 'w) dispatch_env"
  fe_observer :: "(jsval, string) observer_call \<Rightarrow>
    ('w \<Rightarrow> (string + unit) \<times> (jsval, string, 'h, unit) router_command list \<times> 'w) option"

definition listenerPhase :: "('h, 'w) facade_env \<Rightarrow> jsval \<Rightarrow> ('h, 'w) facade_state \<Rightarrow> ('h, 'w) facade_state" where
  "listenerPhase env u s = (case fs_registry s of
     None \<Rightarrow> s
   | Some r \<Rightarrow> (case evaluate u r of
       (Inr (Some i), r') \<Rightarrow> s\<lparr>fs_registry := Some r', fs_router :=
           safeInvokeObserver ((fe_router env)\<lparr>observer_hook := fe_observer env\<rparr>) (OnListenerMatch ''facade-pre-dispatch'' i u) (fs_router s)\<rparr>
     | (_, r') \<Rightarrow> s\<lparr>fs_registry := Some r'\<rparr>))"

definition facadeDispatch :: "('h, 'w) facade_env \<Rightarrow> jsval \<Rightarrow> (('h, 'w) facade_state, string, string dispatch_report) act" where
  "facadeDispatch env u s = (let s1 = listenerPhase env u s in
     case dispatch (fe_router env) u (fs_router s1) of (r, rt) \<Rightarrow> (r, s1\<lparr>fs_router := rt\<rparr>))"

subsection \<open>What resolves a listener\<close>

definition extends :: "('u, 'e) registry \<Rightarrow> ('u, 'e) registry \<Rightarrow> bool" where
  "extends s s' \<longleftrightarrow> (\<forall>i < lnext s. i < lnext s' \<and> predicateOf s' i = predicateOf s i)
     \<and> (\<forall>i u. (i, Resolved u) \<in> set (outcomes s') \<longrightarrow>
          (i, Resolved u) \<in> set (outcomes s) \<or> (i < lnext s' \<and> predicateOf s' i u = Inr True))"

lemma extends_refl [simp]: "extends s s"
  by (simp add: extends_def)

lemma extends_trans: "extends s t \<Longrightarrow> extends t v \<Longrightarrow> extends s v"
proof -
  assume a: "extends s t" and b: "extends t v"
  have "i < lnext v \<and> predicateOf v i = predicateOf s i" if "i < lnext s" for i
    using a b that by (simp add: extends_def)
  moreover have "(i, Resolved u) \<in> set (outcomes s) \<or> i < lnext v \<and> predicateOf v i u = Inr True"
    if o: "(i, Resolved u) \<in> set (outcomes v)" for i u
  proof -
    from b o consider "(i, Resolved u) \<in> set (outcomes t)" | "i < lnext v \<and> predicateOf v i u = Inr True"
      unfolding extends_def by blast
    then show ?thesis
    proof cases
      case 1
      with a have "(i, Resolved u) \<in> set (outcomes s) \<or> i < lnext t \<and> predicateOf t i u = Inr True"
        unfolding extends_def by blast
      then show ?thesis using b by (auto simp: extends_def)
    qed simp
  qed
  ultimately show ?thesis unfolding extends_def by blast
qed

lemma predicateOf_settled [simp]: "predicateOf (callPromise i oc (finalize i s)) j = predicateOf s j"
proof (rule ext)
  fix u
  show "predicateOf (callPromise i oc (finalize i s)) j u = predicateOf s j u"
  proof (cases "lobjects s i")
    case (Some en)
    then show ?thesis by (cases "le_settled en"; cases "j = i") (simp_all add: predicateOf_def callPromise_def finalize_def)
  qed (simp add: predicateOf_def callPromise_def finalize_def)
qed

lemma settled_more [simp]: "lnext (callPromise i oc (finalize i s)) = lnext s"
  "outcomes (callPromise i oc (finalize i s)) = outcomes s @ [(i, oc)]"
  by (simp_all add: callPromise_def finalize_def split: option.split)

lemma extends_settled:
  assumes "\<And>u. oc = Resolved u \<Longrightarrow> i < lnext s \<and> predicateOf s i u = Inr True"
  shows "extends s (callPromise i oc (finalize i s))"
proof -
  have "(j, Resolved u) \<in> set (outcomes s) \<or> j < lnext s \<and> predicateOf s j u = Inr True"
    if "(j, Resolved u) \<in> set (outcomes s @ [(i, oc)])" for j u
    using that assms [of u] by (cases "(j, Resolved u) = (i, oc)") auto
  then show ?thesis unfolding extends_def by (simp only: predicateOf_settled settled_more) blast
qed

lemma extends_settleWith:
  assumes "\<And>u. oc \<noteq> Resolved u" shows "extends s (settleWith i oc s)"
proof -
  have "extends s (callPromise i oc (finalize i s))" by (rule extends_settled) (use assms in blast)
  then show ?thesis by (simp add: settleWith_def)
qed

lemma extends_settleAll: "(\<And>u. oc \<noteq> Resolved u) \<Longrightarrow> extends s (settleAll is oc s)"
  unfolding settleAll_def
proof (induction "is" arbitrary: s)
  case (Cons i "is")
  then show ?case using extends_trans [OF extends_settleWith [of oc s i]] by simp
qed simp

lemma extends_register:
  assumes "register flt opts sg s = (r, s')"
  shows "extends s s'"
  using assms
proof (cases rule: register_cases)
  case (rejected e) then show ?thesis by simp
next
  case (aborted en)
  then show ?thesis by (auto simp: extends_def predicateOf_def callPromise_def fun_eq_iff)
next
  case (waiting en)
  then show ?thesis by (auto simp: extends_def predicateOf_def fun_eq_iff)
qed

lemma registered_predicate:
  assumes "register flt opts sg s = (Inr i, s')"
  shows "i = lnext s \<and> lnext s' = Suc i \<and> predicateOf s' i = filter_predicate flt"
  using assms
  by (auto simp: register_def Let_def callPromise_def predicateOf_def fun_eq_iff split: if_splits sum.splits)

lemma extends_evaluate:
  assumes "regInv s" "evaluate u s = (r, s')" shows "extends s s'"
proof -
  have e: "evaluation u s (lentries s) r s'" by (rule evaluate_spec [OF assms])
  show ?thesis
  proof (cases "\<exists>i. r = Inr (Some i)")
    case True
    then obtain i where "s' = callPromise i (Resolved u) (finalize i s)" "isPending i s" "predicateOf s i u = Inr True"
      using e by (auto simp: evaluation_def firstHit_def)
    then show ?thesis using isPending_less [OF assms(1)] by (auto intro: extends_settled)
  next
    case False
    then have "s' = s" using e by (auto simp: evaluation_def split: sum.splits option.splits)
    then show ?thesis by simp
  qed
qed

lemma extends_step:
  assumes "registry_step s s'" "regInv s" shows "extends s s'"
  using assms(1)
proof cases
  case (step_register flt opts sg r)
  then show ?thesis using extends_register by blast
next
  case (step_evaluate u r)
  then show ?thesis using extends_evaluate [OF assms(2)] by blast
next
  case (step_cancel i)
  show ?thesis
  proof (cases "lobjects s i")
    case (Some en)
    let ?t = "s\<lparr>lobjects := (lobjects s)(i \<mapsto> en\<lparr>le_cancelled := True\<rparr>)\<rparr>"
    have "extends s ?t" using Some by (auto simp: extends_def predicateOf_def fun_eq_iff)
    moreover have "extends ?t (callPromise i (Aborted ListenerCancelled) (finalize i ?t))" by (rule extends_settled) simp
    ultimately show ?thesis using Some step_cancel by (auto simp: cancelListener_def intro: extends_trans)
  qed (simp add: step_cancel cancelListener_def)
next
  case step_clear
  then show ?thesis using clearListeners_settles(1) [OF assms(2)] extends_settleAll by (metis listener_outcome.distinct(3))
next
  case (step_timer i)
  then show ?thesis using timerFires_settles [OF assms(2)] extends_settleWith by (metis listener_outcome.distinct(1))
next
  case (step_signal sg)
  then show ?thesis using signalAborts_settles [OF assms(2)] extends_settleAll by (metis listener_outcome.distinct(3))
qed

lemma extends_run: "registry_step\<^sup>*\<^sup>* s s' \<Longrightarrow> regInv s \<Longrightarrow> extends s s' \<and> regInv s'"
proof (induction rule: rtranclp_induct)
  case (step t v)
  then show ?case using extends_step regInv_step extends_trans by blast
qed simp

text \<open>A listener that was registered is resolved only with an update that its predicate accepts.\<close>

lemma resolved_by_predicate:
  assumes "regInv s" "register flt opts sg s = (Inr i, s')" "registry_step\<^sup>*\<^sup>* s' s''" "(i, Resolved u) \<in> set (outcomes s'')"
  shows "filter_predicate flt u = Inr True"
proof -
  have r: "i = lnext s" "lnext s' = Suc i" "predicateOf s' i = filter_predicate flt"
    using registered_predicate [OF assms(2)] by blast+
  have x: "extends s s'" "extends s' s''"
    using extends_register [OF assms(2)] extends_run [OF assms(3) regInv_register [OF assms(1,2)]] by blast+
  have fresh: "(i, Resolved u) \<notin> set (outcomes s)" using regInvD(5) [OF assms(1), of i] r(1) by force
  have p: "predicateOf s'' i = filter_predicate flt" using x(2) r by (simp add: extends_def)
  consider "(i, Resolved u) \<in> set (outcomes s')" | "predicateOf s'' i u = Inr True" using x(2) assms(4) unfolding extends_def by blast
  then show ?thesis
  proof cases
    case 1
    then have "predicateOf s' i u = Inr True" using x(1) fresh unfolding extends_def by blast
    then show ?thesis using r(3) by simp
  qed (simp add: p)
qed

subsection \<open>Waiters\<close>

text \<open>What an update has to hold for a waiter: properties read along a path.\<close>

definition follow :: "jsval \<Rightarrow> string list \<Rightarrow> jsval" where
  "follow v ks = foldl optField v ks"

definition recipientOf :: "jsval \<Rightarrow> jsval" where
  "recipientOf st = (if optField st ''recipientId'' \<in> {JUndef, JNull} then optField st ''recipient_id'' else optField st ''recipientId'')"

definition answersMessage :: "string \<Rightarrow> string option \<Rightarrow> sent_wait \<Rightarrow> jsval \<Rightarrow> bool" where
  "answersMessage mid rcpt w u \<longleftrightarrow> follow u [''kind''] = JStr ''message''
     \<and> follow u [''message'', ''context'', ''messageId''] = JStr mid
     \<and> (case rcpt of None \<Rightarrow> True | Some r \<Rightarrow> follow u [''message'', ''from''] = JStr r)
     \<and> (case w of
          WaitClick \<Rightarrow> follow u [''message'', ''type''] = JStr ''button''
            \<or> follow u [''message'', ''interactive'', ''type''] = JStr ''button_reply''
        | WaitSelection \<Rightarrow> follow u [''message'', ''interactive'', ''type''] = JStr ''list_reply''
        | WaitFlowCompletion \<Rightarrow> follow u [''message'', ''interactive'', ''type''] = JStr ''nfm_reply''
        | _ \<Rightarrow> True)"

definition answersStatus :: "string \<Rightarrow> string option \<Rightarrow> string \<Rightarrow> jsval \<Rightarrow> bool" where
  "answersStatus mid rcpt expected u \<longleftrightarrow> follow u [''kind''] = JStr ''status''
     \<and> follow u [''status'', ''id''] = JStr mid \<and> follow u [''status'', ''status''] = JStr expected
     \<and> (case rcpt of None \<Rightarrow> True | Some r \<Rightarrow> recipientOf (follow u [''status'']) = JStr r)"

definition answersSent :: "sent_result \<Rightarrow> sent_wait \<Rightarrow> jsval \<Rightarrow> bool" where
  "answersSent sr w u = (case sr_messageId sr of
     None \<Rightarrow> False
   | Some mid \<Rightarrow> (case w of
       WaitDelivered \<Rightarrow> answersStatus mid (sr_recipientId sr) ''delivered'' u
     | WaitRead \<Rightarrow> answersStatus mid (sr_recipientId sr) ''read'' u
     | WaitFailed \<Rightarrow> answersStatus mid (sr_recipientId sr) ''failed'' u
     | _ \<Rightarrow> answersMessage mid (sr_recipientId sr) w u))"

lemma getProp_Inr: "getProp v k = Inr x \<longleftrightarrow> v \<notin> {JUndef, JNull} \<and> x = optField v k"
  by (auto simp: getProp_def)

lemma optionalGet_text: "optionalGet v k = JStr s \<longleftrightarrow> optField v k = JStr s"
  by (auto simp: optionalGet_def optField_def objectProps_def)

lemma kindIs_true: "kindIs k u = Inr True \<longleftrightarrow> optField u ''kind'' = JStr k"
  by (auto simp: kindIs_def res_iff getProp_Inr) (auto simp: getProp_def optField_def objectProps_def)

lemma andThen_true: "andThen p q u = Inr True \<longleftrightarrow> p u = Inr True \<and> q u = Inr True"
  by (auto simp: andThen_def res_iff split: if_splits)

lemma matchesSent_true:
  assumes "matchesSentMessage sr u = Inr True"
  obtains mid where "sr_messageId sr = Some mid" "follow u [''message'', ''context'', ''messageId''] = JStr mid"
    "case sr_recipientId sr of None \<Rightarrow> True | Some r \<Rightarrow> follow u [''message'', ''from''] = JStr r"
  using assms
  by (auto simp: matchesSentMessage_def res_iff getProp_Inr optionalGet_text follow_def split: option.splits if_splits)

lemma messageWait_true:
  assumes "messageWait w u = Inr True"
  shows "case w of
          WaitClick \<Rightarrow> follow u [''message'', ''type''] = JStr ''button''
            \<or> follow u [''message'', ''interactive'', ''type''] = JStr ''button_reply''
        | WaitSelection \<Rightarrow> follow u [''message'', ''interactive'', ''type''] = JStr ''list_reply''
        | WaitFlowCompletion \<Rightarrow> follow u [''message'', ''interactive'', ''type''] = JStr ''nfm_reply''
        | _ \<Rightarrow> True"
  using assms
  by (cases w) (auto simp: messageWait_def interactiveIs_def subfieldIs_def orElseP_def res_iff getProp_Inr follow_def split: if_splits)

lemma statusWait_true:
  assumes "statusWait sr expected u = Inr True"
  shows "case sr_messageId sr of None \<Rightarrow> False | Some mid \<Rightarrow> answersStatus mid (sr_recipientId sr) expected u"
  using assms kindIs_true [of "''status''" u]
  by (auto simp: statusWait_def res_iff getProp_Inr follow_def answersStatus_def recipientOf_def Let_def split: option.splits if_splits)

lemma waitPredicate_answers: "waitPredicate sr w u = Inr True \<Longrightarrow> answersSent sr w u"
  by (cases w) (auto simp: waitPredicate_def answersSent_def answersMessage_def andThen_true kindIs_true follow_def
    dest!: statusWait_true messageWait_true elim!: matchesSent_true split: option.splits)

definition reachableRegistry :: "facade_registry option \<Rightarrow> bool" where
  "reachableRegistry r = (case r of None \<Rightarrow> True | Some r' \<Rightarrow> registry_reaches r')"

lemma ensureRegistry_reaches:
  assumes "reachableRegistry (fs_registry s)" "ensureRegistry fa s = (Inr r, s')"
  shows "registry_reaches r \<and> fs_registry s' = Some r"
  using assms by (auto simp: ensureRegistry_def reachableRegistry_def split: option.splits sum.splits intro: registry_start)

text \<open>C39: The promise of a waiter of a sent message is resolved only with an answer to that message: a message whose
  context names it (from the recipient, of the kind waited for), or the status waited for of that
  very message, whatever else happens to the registry in between.\<close>

theorem waiters_resolve_only_with_the_answer:
  assumes "reachableRegistry (fs_registry s)" "sentWait fa sr w timeoutMs signal sg s = (Inr i, s1)"
    "fs_registry s1 = Some r1" "registry_step\<^sup>*\<^sup>* r1 r2" "(i, Resolved u) \<in> set (outcomes r2)"
  shows "answersSent sr w u"
proof -
  obtain r s0 where e: "ensureRegistry fa s = (Inr r, s0)"
    "registerListener (waitFilter sr w) (definedProps [(''timeoutMs'', timeoutMs), (''signal'', signal)]) sg r s0 = (Inr i, s1)"
    using assms(2) by (auto simp: sentWait_def bindA_def split: prod.splits sum.splits)
  obtain r' where g: "register (filter_arg.truncate (waitFilter sr w)) (definedProps [(''timeoutMs'', timeoutMs), (''signal'', signal)]) sg r = (Inr i, r')"
    "r' = r1"
    using e(2) assms(3) by (auto simp: registerListener_def split: prod.splits sum.splits)
  have "filter_predicate (filter_arg.truncate (waitFilter sr w)) u = Inr True"
    using resolved_by_predicate [OF regInv_reaches g(1) [unfolded g(2)] assms(4,5)]
      ensureRegistry_reaches [OF assms(1) e(1)] g(2) by blast
  then have "waitPredicate sr w u = Inr True" by (simp add: waitFilter_def makeFilter_def filter_arg.truncate_def)
  then show ?thesis by (rule waitPredicate_answers)
qed

theorem facade_dispatch_steps:
  "case facadeDispatch env u s of (r, s') \<Rightarrow> (case fs_registry s of
      None \<Rightarrow> fs_registry s' = None
    | Some g \<Rightarrow> (\<exists>g'. fs_registry s' = Some g' \<and> registry_step g g'))"
proof (cases "fs_registry s")
  case None
  then show ?thesis by (simp add: facadeDispatch_def listenerPhase_def Let_def split: prod.split)
next
  case (Some g)
  obtain x g' where e: "evaluate u g = (x, g')" by force
  have "registry_step g g'" by (rule step_evaluate [OF e])
  moreover have "fs_registry (listenerPhase env u s) = Some g'"
    using Some e by (auto simp: listenerPhase_def split: sum.split option.split)
  ultimately show ?thesis using Some by (simp add: facadeDispatch_def Let_def split: prod.split)
qed

subsection \<open>Sending\<close>

text \<open>Every sending method: without a bound phone number it throws; else the response gets its waiters.\<close>

definition boundSend :: "facade \<Rightarrow> (string \<Rightarrow> 'w \<Rightarrow> (string + jsval) \<times> 'w) \<Rightarrow> string option \<Rightarrow> 'w \<Rightarrow> (string + sent_result) \<times> 'w" where
  "boundSend fa send recipient w = (case fa_phoneNumberId fa of
     None \<Rightarrow> (Inl ''requires a phoneNumberId-bound facade.'', w)
   | Some p \<Rightarrow> (case send p w of
       (Inl e, w') \<Rightarrow> (Inl e, w')
     | (Inr response, w') \<Rightarrow> (Inr (toWaitableSentResult response recipient), w')))"

text \<open>The body of a group text; \<open>checkGroup\<close> is the constructor of the group client.\<close>

definition sendGroupBody :: "(string \<Rightarrow> string + unit) \<Rightarrow> jsval \<Rightarrow> string + jsval" where
  "sendGroupBody checkGroup input = (if objectProps input = None then Inl ''expected an options object''
     else (case optField input ''groupId'' of
       JStr g \<Rightarrow> if js_trim g = [] then Inl ''groupId must be a non-empty string''
         else bindE (checkGroup g) (\<lambda>_. case optField input ''text'' of
           JStr t \<Rightarrow> if t = [] then Inl ''text must be a non-empty string''
             else bindE (guardE (optField input ''previewUrl'' = JUndef \<or> isBoolean (optField input ''previewUrl'')) ''previewUrl must be a boolean'') (\<lambda>_.
               bindE (guardE (case optField input ''replyToMessageId'' of JUndef \<Rightarrow> True | JStr s \<Rightarrow> s \<noteq> [] | _ \<Rightarrow> False)
                 ''replyToMessageId must be a non-empty string'') (\<lambda>_.
               Inr (jsObject ([(''messaging_product'', JStr ''whatsapp''), (''recipient_type'', JStr ''group''), (''to'', JStr g),
                   (''type'', JStr ''text''), (''text'', definedProps [(''body'', JStr t), (''preview_url'', optField input ''previewUrl'')])]
                 @ (case optField input ''replyToMessageId'' of JStr m \<Rightarrow> [(''context'', jsObject [(''message_id'', JStr m)])] | _ \<Rightarrow> [])))))
         | _ \<Rightarrow> Inl ''text must be a non-empty string'')
     | _ \<Rightarrow> Inl ''groupId must be a non-empty string''))"

definition sendGroupMessage :: "facade \<Rightarrow> (string \<Rightarrow> string + unit) \<Rightarrow> (string \<Rightarrow> jsval \<Rightarrow> 'w \<Rightarrow> (string + jsval) \<times> 'w) \<Rightarrow> jsval \<Rightarrow> 'w \<Rightarrow> (string + jsval) \<times> 'w" where
  "sendGroupMessage fa checkGroup sendMessage input w = (case fa_phoneNumberId fa of
     None \<Rightarrow> (Inl ''requires a phoneNumberId-bound facade.'', w)
   | Some p \<Rightarrow> (case sendGroupBody checkGroup input of Inl e \<Rightarrow> (Inl e, w) | Inr body \<Rightarrow> sendMessage p body w))"

subsection \<open>Samples\<close>

definition sampleFacade :: facade where
  "sampleFacade = \<lparr> fa_phoneNumberId = Some ''1'', fa_wabaId = None, fa_ownRouter = None, fa_registryOptions = JUndef \<rparr>"

definition sampleSent :: sent_result where
  "sampleSent = toWaitableSentResult (jsObject [(''messages'', JArr [Data (jsObject [(''id'', JStr ''m'')])])]) (Some ''7'')"

definition sampleAnswer :: "(string \<times> jsval) list \<Rightarrow> jsval" where
  "sampleAnswer more_fields = jsObject [(''kind'', JStr ''message''), (''message'',
     jsObject ([(''context'', jsObject [(''messageId'', JStr ''m'')]), (''from'', JStr ''7'')] @ more_fields))]"

definition sampleRouter :: "(jsval, string, nat, unit, nat) router" where
  "sampleRouter = \<lparr> registrations = [], removed = [], nextRegistrationIndex = 0, listeners = (), world = 0, calls = [] \<rparr>"

definition sampleState :: "(nat, nat) facade_state" where
  "sampleState = \<lparr> fs_registry = None, fs_router = sampleRouter \<rparr>"

definition waiting :: "sent_wait list \<Rightarrow> facade_registry" where
  "waiting ws = (case foldl (\<lambda>s w. snd (sentWait sampleFacade sampleSent w JUndef JUndef 0 s)) sampleState ws of s \<Rightarrow>
     (case fs_registry s of Some r \<Rightarrow> r | None \<Rightarrow> \<lparr>maxActive = 0, lentries = [], lobjects = (\<lambda>_. None), lnext = 0, timers = [], abortCallbacks = [], outcomes = []\<rparr>))"

definition sampleWaits :: bool where
  "sampleWaits = (case sentWait sampleFacade sampleSent WaitReply JUndef JUndef 0 sampleState of (r, s) \<Rightarrow> r = Inr 0)"

lemma sample_waits: "sampleWaits"
  by code_simp

lemma sample_resolved: "outcomes (snd (evaluate (sampleAnswer []) (waiting [WaitReply]))) = [(0, Resolved (sampleAnswer []))]"
  by code_simp

text \<open>A reply of type interactive whose content was not understood makes the predicate of \<open>waitForClick\<close>
  throw; a reply waiter that was registered after it is not asked.\<close>

lemma malformed_interactive_blocks_later_waiters:
  "fst (evaluate (sampleAnswer [(''type'', JStr ''interactive'')]) (waiting [WaitClick, WaitReply])) = Inl ''TypeError''
   \<and> outcomes (snd (evaluate (sampleAnswer [(''type'', JStr ''interactive'')]) (waiting [WaitClick, WaitReply]))) = []
   \<and> fst (evaluate (sampleAnswer [(''type'', JStr ''interactive'')]) (waiting [WaitReply, WaitClick])) = Inr (Some 0)"
  by code_simp

lemma sentWait_registry: "sentWait fa sr w t sg n s = (Inr i, s1) \<Longrightarrow> \<exists>r1. fs_registry s1 = Some r1"
  by (auto simp: sentWait_def bindA_def registerListener_def split: prod.splits sum.splits)

theorem waiters_resolve_only_with_the_answer_witness:
  "answersSent sampleSent WaitReply (sampleAnswer [])
   \<and> (0, Resolved (sampleAnswer [])) \<in> set (outcomes (snd (evaluate (sampleAnswer []) (waiting [WaitReply]))))"
proof -
  obtain s1 where s1: "sentWait sampleFacade sampleSent WaitReply JUndef JUndef 0 sampleState = (Inr 0, s1)"
    using sample_waits by (auto simp: sampleWaits_def split: prod.splits)
  have r1: "fs_registry s1 = Some (waiting [WaitReply])" using sentWait_registry [OF s1] s1 by (auto simp: waiting_def)
  have "reachableRegistry (fs_registry sampleState)" by (simp add: reachableRegistry_def sampleState_def)
  moreover have "registry_step\<^sup>*\<^sup>* (waiting [WaitReply]) (snd (evaluate (sampleAnswer []) (waiting [WaitReply])))"
    by (intro r_into_rtranclp step_evaluate) (rule prod.collapse [symmetric])
  ultimately show ?thesis
    using waiters_resolve_only_with_the_answer [OF _ s1 r1] sample_resolved by simp
qed

end
