(* ===== verification/Facade_Updates.thy ===== *)
theory Facade_Updates
  imports Webhook_Updates Whatsapp_Facade
begin

section \<open>Filters and waiters on what the normalizer delivers\<close>

text \<open>
  The composition of \<open>webhookNormalizer.ts\<close>, \<open>filtersTyped\<close> and \<open>whatsappFacade.ts\<close>: on the updates of an
  envelope the built-in filters answer and never throw, and the kind filters tell the kinds apart.  What
  the facade reads from a status and from a reply is compared with what the normalizer writes.
\<close>

subsection \<open>Updates whose payload is there\<close>

definition payloadFields :: "(string \<times> string) list" where
  "payloadFields = identifiedPayloads @ eventPayloads"

definition solid :: "jsval \<Rightarrow> bool" where
  "solid v \<longleftrightarrow> objectProps v \<noteq> None \<and> list_all (\<lambda>(k, f). optField v ''kind'' = JStr k \<longrightarrow> optField v f \<notin> {JUndef, JNull}) payloadFields"

lemma well_formed_kind: "well_formed_update u \<Longrightarrow> optField (up_value u) ''kind'' = JStr (up_kind u) \<and> up_kind u \<in> set METRIC_UPDATE_KINDS"
  by (auto simp: well_formed_update_def optField_def objectProps_def split: jsval.splits)

lemma well_formed_solid:
  assumes "well_formed_update u" shows "solid (up_value u)"
proof -
  obtain ps where v: "up_value u = JObj ObjectProto ps" "js_get ps ''kind'' = JStr (up_kind u)"
    "case map_of identifiedPayloads (up_kind u) of None \<Rightarrow> True | Some k \<Rightarrow> isSafeIdString (up_id u) \<and> carriesId (js_get ps k) (up_id u)"
    "case map_of eventPayloads (up_kind u) of None \<Rightarrow> True | Some k \<Rightarrow> envelopeRecord (js_get ps k) \<noteq> None"
    using assms by (auto simp: well_formed_update_def split: jsval.splits)
  have "js_get ps f \<notin> {JUndef, JNull}" if "(up_kind u, f) \<in> set payloadFields" for f
  proof -
    have "distinct (map fst identifiedPayloads)" "distinct (map fst eventPayloads)"
      by (simp_all add: identifiedPayloads_def eventPayloads_def)
    then have "map_of identifiedPayloads (up_kind u) = Some f \<or> map_of eventPayloads (up_kind u) = Some f"
      using that by (auto simp: payloadFields_def)
    then show ?thesis using v(3,4) by (auto simp: carriesId_def envelopeRecord_def)
  qed
  then show ?thesis using v(1,2) by (auto simp: solid_def optField_def objectProps_def list_all_iff)
qed

subsection \<open>Built-in filters answer\<close>

inductive builtinFilter :: "regexp_engine \<Rightarrow> typed_filter \<Rightarrow> bool" for en where
  bf_kind: "builtinFilter en (kindFilter k l)"
| bf_call: "f \<in> set CALL_FILTERS \<Longrightarrow> builtinFilter en f"
| bf_status: "builtinFilter en (statusF s)"
| bf_text: "messageText v = Inr f \<Longrightarrow> builtinFilter en f"
| bf_matches: "messageTextMatches en p = Inr f \<Longrightarrow> builtinFilter en f"
| bf_equals: "messageTextEquals v = Inr f \<Longrightarrow> builtinFilter en f"
| bf_type: "messageType v = Inr f \<Longrightarrow> builtinFilter en f"
| bf_from: "messageFrom v = Inr f \<Longrightarrow> builtinFilter en f"
| bf_family: "builtinFilter en (mediaFamilyFilter t)"
| bf_media: "f \<in> {messageMedia, messageLocation, messageReactionAdded, messageReactionRemoved, messageInteractive,
    messageInteractiveNfmReply} \<Longrightarrow> builtinFilter en f"
| bf_reaction: "messageReaction v = Inr f \<Longrightarrow> builtinFilter en f"
| bf_interactive: "messageInteractiveReply k key v l = Inr f \<Longrightarrow> builtinFilter en f"
| bf_button: "messageButton v = Inr f \<Longrightarrow> builtinFilter en f"
| bf_group: "f \<in> {groupKind, groupMessage, groupParticipantsUpdate, groupLifecycleUpdate, groupSettingsUpdate, groupStatusUpdate}
    \<Longrightarrow> builtinFilter en f"
| bf_fromGroup: "groupFromGroup v = Inr f \<Longrightarrow> builtinFilter en f"
| bf_template: "builtinFilter en templateKind"
| bf_templateStatus: "templateStatus v = Inr f \<Longrightarrow> builtinFilter en f"
| bf_templateField: "byTemplateField k v = Inr f \<Longrightarrow> builtinFilter en f"
| bf_preference: "userPreferencesPreference v = Inr f \<Longrightarrow> builtinFilter en f"
| bf_category: "userPreferencesCategory v = Inr f \<Longrightarrow> builtinFilter en f"
| bf_system: "f \<in> set SYSTEM_FILTERS \<Longrightarrow> builtinFilter en f"
| bf_chat: "builtinFilter en chatOpenedRequestWelcome"
| bf_and: "(\<And>f. f \<in> set fs \<Longrightarrow> builtinFilter en f) \<Longrightarrow> andF fs = Inr g \<Longrightarrow> builtinFilter en g"
| bf_or: "(\<And>f. f \<in> set fs \<Longrightarrow> builtinFilter en f) \<Longrightarrow> orF fs = Inr g \<Longrightarrow> builtinFilter en g"
| bf_not: "builtinFilter en f \<Longrightarrow> notF f = Inr g \<Longrightarrow> builtinFilter en g"

definition answers :: "predicate \<Rightarrow> bool" where
  "answers p \<longleftrightarrow> (\<forall>v. solid v \<longrightarrow> (\<exists>b. p v = Inr b))"

named_theorems answering

lemma answersD: "answers p \<Longrightarrow> solid v \<Longrightarrow> \<exists>b. p v = Inr b"
  by (simp add: answers_def)

lemma solid_getProp: "solid v \<Longrightarrow> getProp v k = Inr (optField v k)"
  by (auto simp: solid_def getProp_def objectProps_def)

lemma answers_kindIs [answering]: "answers (kindIs k)"
  by (simp add: answers_def kindIs_def solid_getProp)

lemma answers_andThen [answering]: "answers p \<Longrightarrow> answers q \<Longrightarrow> answers (andThen p q)"
  unfolding answers_def andThen_def by (metis (full_types) bindE_simps(2))

lemma answers_orElseP [answering]: "answers p \<Longrightarrow> answers q \<Longrightarrow> answers (orElseP p q)"
  unfolding answers_def orElseP_def by (metis (full_types) bindE_simps(2))

lemma answers_onMessage [answering]: "answers (onMessageRecord f)"
  using answers_kindIs [of "''message''"]
  by (fastforce simp: answers_def onMessageRecord_def getMessageRecord_def)

text \<open>A field of the payload may be read after the test of a kind that has the payload.\<close>

lemma answers_payload:
  assumes "answers p" "\<And>v. solid v \<Longrightarrow> p v = Inr True \<Longrightarrow> \<exists>k. optField v ''kind'' = JStr k \<and> (k, a) \<in> set payloadFields"
  shows "answers (andThen p (subfieldIs a b x))"
  unfolding answers_def
proof (intro allI impI)
  fix v assume v: "solid v"
  obtain c where c: "p v = Inr c" using answersD [OF assms(1) v] by blast
  show "\<exists>d. andThen p (subfieldIs a b x) v = Inr d"
  proof (cases c)
    case True
    then have "optField v a \<notin> {JUndef, JNull}" using assms(2) [OF v] c v by (auto simp: solid_def list_all_iff)
    then have "getProp (optField v a) b = Inr (optField (optField v a) b)" by (simp add: getProp_Inr)
    then show ?thesis using c True v by (simp add: andThen_def subfieldIs_def solid_getProp)
  qed (auto simp: andThen_def c)
qed

lemma orElseP_true: "orElseP p q u = Inr True \<Longrightarrow> p u = Inr True \<or> q u = Inr True"
  by (auto simp: orElseP_def res_iff split: if_splits)

lemma answers_kind_payload [answering]: "(k, a) \<in> set payloadFields \<Longrightarrow> answers (andThen (kindIs k) (subfieldIs a b x))"
  by (rule answers_payload) (auto simp: kindIs_true answering)

lemma answers_direction [answering]:
  "answers (andThen (orElseP (kindIs ''callConnect'') (kindIs ''callTerminate'')) (subfieldIs ''call'' b x))"
  by (rule answers_payload) (auto simp: kindIs_true payloadFields_def identifiedPayloads_def answering dest!: orElseP_true)

lemma answers_groupId [answering]: "answers hasGroupId" "answers (\<lambda>u. bindE (getGroupId u) (\<lambda>g. Inr (g = x)))"
proof -
  have bind: "\<exists>g. bindE (Inr k) (\<lambda>k. Inr (f k)) = Inr g" for k and f :: "jsval \<Rightarrow> string option" by simp
  have g: "\<exists>g. getGroupId v = Inr g" if "solid v" for v
    unfolding getGroupId_def solid_getProp [OF that] by (rule bind)
  show "answers hasGroupId" "answers (\<lambda>u. bindE (getGroupId u) (\<lambda>g. Inr (g = x)))"
    unfolding answers_def hasGroupId_def using g by fastforce+
qed

lemma answers_read [answering]: "answers (\<lambda>u. bindE (getProp u k) (\<lambda>y. Inr (f y)))" "answers (\<lambda>u. Inr b)"
  "answers (templateFieldIs k x)"
  by (simp_all add: answers_def templateFieldIs_def solid_getProp)

lemma answers_template [answering]: "answers isTemplateAccountUpdate"
  unfolding isTemplateAccountUpdate_def by (intro answers_andThen answers_kindIs answers_read)

lemma answers_allOf:
  assumes "\<And>p. p \<in> set ps \<Longrightarrow> answers p" shows "answers (allOf ps)"
  unfolding answers_def
proof (intro allI impI)
  fix v assume v: "solid v"
  show "\<exists>b. allOf ps v = Inr b" using assms
  proof (induction ps)
    case (Cons p ps)
    obtain b where "p v = Inr b" using answersD [OF Cons.prems [of p] v] by auto
    then show ?case using Cons by (cases b) auto
  qed auto
qed

lemma answers_anyOf:
  assumes "\<And>p. p \<in> set ps \<Longrightarrow> answers p" shows "answers (anyOf ps)"
  unfolding answers_def
proof (intro allI impI)
  fix v assume v: "solid v"
  show "\<exists>b. anyOf ps v = Inr b" using assms
  proof (induction ps)
    case (Cons p ps)
    obtain b where "p v = Inr b" using answersD [OF Cons.prems [of p] v] by auto
    then show ?case using Cons by (cases b) auto
  qed auto
qed

text \<open>The payload fields that the built-in filters read.\<close>

lemma payload_fields [simp]:
  "(''status'', ''status'') \<in> set payloadFields" "(''callStatus'', ''callStatus'') \<in> set payloadFields"
  "(''userPreferences'', ''preference'') \<in> set payloadFields" "(''system'', ''system'') \<in> set payloadFields"
  "(''chatOpened'', ''chatOpened'') \<in> set payloadFields"
  by (simp_all add: payloadFields_def identifiedPayloads_def eventPayloads_def)

lemma answers_not: "answers p \<Longrightarrow> answers (\<lambda>u. bindE (p u) (\<lambda>b. Inr (\<not> b)))"
  by (fastforce simp: answers_def)

lemma builtin_answers: "builtinFilter en f \<Longrightarrow> answers (filter_predicate f)"
proof (induction rule: builtinFilter.induct)
  case (bf_and fs g)
  then show ?case by (auto simp: andF_def res_iff intro!: answers_allOf)
next
  case (bf_or fs g)
  then show ?case by (auto simp: orF_def res_iff intro!: answers_anyOf)
next
  case (bf_not f g)
  then show ?case by (auto simp: notF_def res_iff intro!: answers_not)
next
  case (bf_call f)
  then show ?case
    by (auto simp: CALL_FILTERS_def callKind_def isCallUpdate_def callEvent_def callStatusFilter_def callDirectionFilter_def
      intro!: answering)
next
  case (bf_group f)
  then show ?case
    by (auto simp: groupKind_def groupMessage_def isGroupMessage_def groupParticipantsUpdate_def groupLifecycleUpdate_def
      groupSettingsUpdate_def groupStatusUpdate_def isGroupStatusReceipt_def intro!: answering)
next
  case (bf_templateStatus v f)
  then show ?case by (auto simp: templateStatus_def res_iff intro!: answering split: option.split)
qed (auto simp: kindFilter_def statusF_def buildStatusFilter_def messageText_def messageTextMatches_def messageTextEquals_def
    messageType_def messageFrom_def mediaFamilyFilter_def messageMedia_def messageLocation_def messageReactionAdded_def
    messageReactionRemoved_def messageInteractive_def messageInteractiveNfmReply_def messageReaction_def messageInteractiveReply_def
    messageButton_def groupFromGroup_def templateKind_def byTemplateField_def userPreferencesPreference_def preferenceFilter_def
    userPreferencesCategory_def SYSTEM_FILTERS_def systemKind_def systemF_def chatOpenedRequestWelcome_def res_iff Let_def
    intro!: answering split: jsval.splits prod.splits if_splits)

subsection \<open>On the updates of an envelope\<close>

lemma kind_filters:
  assumes "k \<in> set VALID_KINDS" "optField v ''kind'' = JStr k'"
  shows "filter_predicate (KIND_FILTERS k) v = Inr (k = k')"
proof -
  have "v \<notin> {JUndef, JNull}" using assms(2) by (auto simp: optField_def objectProps_def)
  then have "kindIs k v = Inr (k = k')" using assms(2) by (auto simp: kindIs_def getProp_def)
  moreover have "filter_predicate (KIND_FILTERS k) = kindIs k"
    by (simp add: KIND_FILTERS_def messageKind_def statusKind_def account_def unknown_def callEvent_def userPreferencesKind_def
      systemKind_def chatOpenedKind_def kindFilter_def)
  ultimately show ?thesis by simp
qed

text \<open>C40: On every update the normalizer yields, whatever the wire held, every filter made of built-in filters and
  combinators answers and does not throw, the update's kind is one that \<open>listen\<close> knows, and of the kind
  filters exactly that kind's accepts it.\<close>

theorem builtin_filters_answer_on_updates:
  assumes "normalizeWebhookEnvelope env maxEvents envelope = Inr r" "u \<in> set (nr_updates r)" "builtinFilter en f"
  shows "(\<exists>b. filter_predicate f (up_value u) = Inr b) \<and> up_kind u \<in> set VALID_KINDS
    \<and> (\<forall>k \<in> set VALID_KINDS. filter_predicate (KIND_FILTERS k) (up_value u) = Inr (k = up_kind u))"
proof -
  obtain limit sls where r: "r = accumulated limit (normalizeEntries limit env 0 sls emptyAccumulator)"
    by (rule normalize_result [OF assms(1)])
  have w: "well_formed_update u" using accumulated_sound(1) [OF r] assms(2) by (simp add: list_all_iff)
  have "set VALID_KINDS = set METRIC_UPDATE_KINDS" by (simp add: VALID_KINDS_def METRIC_UPDATE_KINDS_def)
  then show ?thesis
    using answersD [OF builtin_answers [OF assms(3)] well_formed_solid [OF w]] well_formed_kind [OF w] kind_filters by simp
qed

theorem builtin_filters_answer_on_updates_witness:
  "\<exists>r u b. normalizeWebhookEnvelope sampleNormalizer JUndef sampleEnvelope = Inr r \<and> u \<in> set (nr_updates r)
    \<and> up_kind u = ''status'' \<and> filter_predicate (statusF ''read'') (up_value u) = Inr b"
proof -
  obtain r where r: "normalizeWebhookEnvelope sampleNormalizer JUndef sampleEnvelope = Inr r"
    "map (\<lambda>u. (up_kind u, up_id u)) (nr_updates r) = [(''status'', ''a''), (''status'', ''b'')]"
    by (rule normalizedKeysD [OF sample_keys])
  have "(''status'', ''a'') \<in> (\<lambda>u. (up_kind u, up_id u)) ` set (nr_updates r)" unfolding set_map [symmetric] r(2) by simp
  then obtain u where u: "u \<in> set (nr_updates r)" "up_kind u = ''status''" by auto
  show ?thesis using builtin_filters_answer_on_updates [OF r(1) u(1) bf_status] r(1) u by blast
qed

subsection \<open>What the facade reads and the normalizer does not write\<close>

lemma field_keys:
  "fst ` set (strF ps a b) \<subseteq> {b}" "fst ` set (idF ps a b) \<subseteq> {b}" "fst ` set (conversationF ps) \<subseteq> {''conversation''}"
  "fst ` set (pricingF ps) \<subseteq> {''pricing''}" "fst ` set (normalizeGroupErrors ps) \<subseteq> {''errors''}"
  by (auto simp: strF_def idF_def conversationF_def pricingF_def recordF_def objF_def normalizeGroupErrors_def
    optionalField_def Let_def split: option.splits if_splits jsval.splits)

lemma status_without_wire_recipient: "optField (normalizedStatus raw ps i) ''recipient_id'' = JUndef"
proof -
  have "''recipient_id'' \<notin> fst ` set ([(''id'', JStr i)] @ idF ps ''recipient_id'' ''recipientId''
     @ strF ps ''recipient_type'' ''recipientType'' @ idF ps ''recipient_participant_id'' ''recipientParticipantId''
     @ strF ps ''status'' ''status'' @ strF ps ''timestamp'' ''timestamp'' @ [(''raw'', raw)] @ conversationF ps @ pricingF ps
     @ strF ps ''message_status'' ''messageStatus'' @ normalizeGroupErrors ps)"
    unfolding set_append image_Un
    using field_keys(1) [of ps "''recipient_type''" "''recipientType''"] field_keys(1) [of ps "''status''" "''status''"]
      field_keys(1) [of ps "''timestamp''" "''timestamp''"] field_keys(1) [of ps "''message_status''" "''messageStatus''"]
      field_keys(2) [of ps "''recipient_id''" "''recipientId''"] field_keys(2) [of ps "''recipient_participant_id''" "''recipientParticipantId''"]
      field_keys(3-5) [of ps] by auto
  then have "map_of (map (\<lambda>(k, v). (k, Data v)) ([(''id'', JStr i)] @ idF ps ''recipient_id'' ''recipientId''
     @ strF ps ''recipient_type'' ''recipientType'' @ idF ps ''recipient_participant_id'' ''recipientParticipantId''
     @ strF ps ''status'' ''status'' @ strF ps ''timestamp'' ''timestamp'' @ [(''raw'', raw)] @ conversationF ps @ pricingF ps
     @ strF ps ''message_status'' ''messageStatus'' @ normalizeGroupErrors ps)) ''recipient_id'' = None"
    by (subst map_of_eq_None_iff) (simp only: list.set_map image_image case_prod_beta fst_conv not_False_eq_True)
  then show ?thesis by (simp only: normalizedStatus_def jsObject_def optField_def objectProps_def jsval.case option.case js_get_def)
qed

text \<open>So \<open>listen({type: "status", from})\<close> accepts no status that the normalizer delivers.\<close>

lemma status_listener_with_from_never_matches:
  "fromPredicate ''status'' from (up_value (makeUpdate cx ''status'' i (Some phone) ms [(''status'', normalizedStatus raw ps i)])) = Inr False"
proof -
  have n: "\<exists>qs. normalizedStatus raw ps i = JObj ObjectProto qs" by (simp add: normalizedStatus_def jsObject_def)
  then show ?thesis
    using status_without_wire_recipient [of raw ps i]
    by (auto simp: fromPredicate_def kindIs_def getProp_def optionalGet_def optField_def objectProps_def makeUpdate_def jsObject_def)
qed

text \<open>A reply whose interactive part is not understood is delivered without it.\<close>

definition malformedReply :: "(string \<times> slot) list" where
  "malformedReply = [(''id'', Data (JStr ''a'')), (''from'', Data (JStr ''1'')), (''type'', Data (JStr ''interactive'')),
     (''context'', Data (jsObject [(''id'', JStr ''b'')])), (''interactive'', Data (jsObject [(''type'', JStr ''button_reply'')]))]"

definition deliveredMessage :: "(string \<times> slot) list \<Rightarrow> jsval" where
  "deliveredMessage ps = jsObject [(''kind'', JStr ''message''),
     (''message'', case normalizeMessagePayload (JObj ObjectProto ps) ps of None \<Rightarrow> JUndef | Some m \<Rightarrow> m)]"

definition sentTo :: sent_result where
  "sentTo = \<lparr> sr_messageId = Some ''b'', sr_recipientId = Some ''1'' \<rparr>"

lemmas delivered_simps = deliveredMessage_def normalizeMessagePayload_def readStringField_def readOwnDataField_def copyMessageBase_def
  readSafeIdField_def safe_samples normalizeMessageContext_def firstSome_def envelopeRecord_def jsObject_def optionalField_def
  idF_def boolF_def readBooleanField_def typedPart_def interactiveF_def normalizeInteractivePayload_def replyTypes_def strF_def

lemma malformed_reply_throws:
  "waitPredicate sentTo WaitClick (deliveredMessage malformedReply) = Inl ''TypeError''"
  "waitPredicate sentTo WaitReply (deliveredMessage malformedReply) = Inr True"
  by (simp_all add: malformedReply_def delivered_simps waitPredicate_def andThen_def kindIs_def getProp_def optField_def objectProps_def
    js_get_def matchesSentMessage_def sentTo_def optionalGet_def messageWait_def interactiveIs_def orElseP_def subfieldIs_def)

text \<open>A reply of a type that the normalizer only clones keeps the wire's context, in which the waiters find no id.\<close>

definition orderReply :: "(string \<times> slot) list" where
  "orderReply = [(''id'', Data (JStr ''a'')), (''from'', Data (JStr ''1'')), (''type'', Data (JStr ''order'')),
     (''context'', Data (jsObject [(''id'', JStr ''b'')]))]"

lemma order_reply_unrecognised: "waitPredicate sentTo WaitReply (deliveredMessage orderReply) = Inr False"
  by (simp add: orderReply_def delivered_simps waitPredicate_def andThen_def kindIs_def getProp_def optField_def objectProps_def
    js_get_def matchesSentMessage_def sentTo_def optionalGet_def messageWait_def messageClone_def safeCloneMessageJsonValue.simps
    isUnsafePrototypeKey_def isAccessor_def)

end
