(* ===== verification/Uri_Component.thy ===== *)
theory Uri_Component
  imports Wats_Prelude
begin

section \<open>encodeURIComponent and decodeURIComponent\<close>

text \<open>
  The two functions of the language that the request path goes through.  Here a string is the list of its
  UTF-16 code units, all of them: decoding can yield any.  \<open>None\<close> is the \<open>URIError\<close>: a lone surrogate in
  the argument of the encoder, a malformed escape or a malformed UTF-8 sequence in that of the decoder.
\<close>

type_synonym units = "nat list"

definition unitsOf :: "string \<Rightarrow> units" where
  "unitsOf s = map of_char s"

subsection \<open>The encoder\<close>

text \<open>Letters, digits and \<open>- _ . ! ~ * ' ( )\<close>.\<close>

definition unreservedUnit :: "nat \<Rightarrow> bool" where
  "unreservedUnit u = ((48 \<le> u \<and> u \<le> 57) \<or> (65 \<le> u \<and> u \<le> 90) \<or> (97 \<le> u \<and> u \<le> 122)
     \<or> u \<in> {33, 39, 40, 41, 42, 45, 46, 95, 126})"

definition isHighSurrogate :: "nat \<Rightarrow> bool" where "isHighSurrogate u = (0xD800 \<le> u \<and> u \<le> 0xDBFF)"
definition isLowSurrogate :: "nat \<Rightarrow> bool" where "isLowSurrogate u = (0xDC00 \<le> u \<and> u \<le> 0xDFFF)"

definition surrogatePair :: "nat \<Rightarrow> nat \<Rightarrow> nat" where
  "surrogatePair h l = 0x10000 + (h - 0xD800) * 0x400 + (l - 0xDC00)"

definition utf8Of :: "nat \<Rightarrow> nat list" where
  "utf8Of cp =
     (if cp < 0x80 then [cp]
      else if cp < 0x800 then [192 + cp div 64, 128 + cp mod 64]
      else if cp < 0x10000 then [224 + cp div 4096, 128 + cp div 64 mod 64, 128 + cp mod 64]
      else [240 + cp div 262144, 128 + cp div 4096 mod 64, 128 + cp div 64 mod 64, 128 + cp mod 64])"

definition hexUnit :: "nat \<Rightarrow> nat" where
  "hexUnit v = (if v < 10 then 48 + v else 55 + v)"

definition percentByte :: "nat \<Rightarrow> units" where
  "percentByte b = [37, hexUnit (b div 16), hexUnit (b mod 16)]"

definition percentEncode :: "nat \<Rightarrow> units" where
  "percentEncode cp = concat (map percentByte (utf8Of cp))"

fun encodeURIComponent :: "units \<Rightarrow> units option" where
  "encodeURIComponent [] = Some []"
| "encodeURIComponent (c # cs) =
     (if unreservedUnit c then map_option (\<lambda>t. c # t) (encodeURIComponent cs)
      else if isLowSurrogate c then None
      else if isHighSurrogate c then (case cs of [] \<Rightarrow> None
        | d # ds \<Rightarrow> if isLowSurrogate d then map_option (\<lambda>t. percentEncode (surrogatePair c d) @ t) (encodeURIComponent ds) else None)
      else map_option (\<lambda>t. percentEncode c @ t) (encodeURIComponent cs))"

subsection \<open>The decoder\<close>

definition hexValue :: "nat \<Rightarrow> nat option" where
  "hexValue u = (if 48 \<le> u \<and> u \<le> 57 then Some (u - 48) else if 65 \<le> u \<and> u \<le> 70 then Some (u - 55)
     else if 97 \<le> u \<and> u \<le> 102 then Some (u - 87) else None)"

fun readPercent :: "units \<Rightarrow> (nat \<times> units) option" where
  "readPercent (p # a # b # r) = (if p = 37 then (case (hexValue a, hexValue b) of
     (Some x, Some y) \<Rightarrow> Some (16 * x + y, r) | _ \<Rightarrow> None) else None)"
| "readPercent _ = None"

fun readContinuations :: "nat \<Rightarrow> nat \<Rightarrow> units \<Rightarrow> (nat \<times> units) option" where
  "readContinuations 0 acc r = Some (acc, r)"
| "readContinuations (Suc n) acc r = (case readPercent r of None \<Rightarrow> None
     | Some (b, r') \<Rightarrow> if 128 \<le> b \<and> b < 192 then readContinuations n (acc * 64 + (b - 128)) r' else None)"

text \<open>How many bytes follow the first, and its share of the code point.\<close>

definition leadByte :: "nat \<Rightarrow> (nat \<times> nat) option" where
  "leadByte b = (if b < 128 then Some (0, b) else if 192 \<le> b \<and> b < 224 then Some (1, b - 192)
     else if 224 \<le> b \<and> b < 240 then Some (2, b - 224) else if 240 \<le> b \<and> b < 248 then Some (3, b - 240) else None)"

definition validSequence :: "nat \<Rightarrow> nat \<Rightarrow> bool" where
  "validSequence n cp = (if n = 0 then True else if n = 1 then 0x80 \<le> cp
     else if n = 2 then 0x800 \<le> cp \<and> \<not> isHighSurrogate cp \<and> \<not> isLowSurrogate cp
     else 0x10000 \<le> cp \<and> cp \<le> 0x10FFFF)"

definition codeUnits :: "nat \<Rightarrow> units" where
  "codeUnits cp = (if cp < 0x10000 then [cp] else [0xD800 + (cp - 0x10000) div 0x400, 0xDC00 + (cp - 0x10000) mod 0x400])"

definition decodeEscape :: "units \<Rightarrow> (units \<times> units) option" where
  "decodeEscape us = (case readPercent us of None \<Rightarrow> None
     | Some (b, r) \<Rightarrow> (case leadByte b of None \<Rightarrow> None
       | Some (n, acc) \<Rightarrow> (case readContinuations n acc r of None \<Rightarrow> None
         | Some (cp, r') \<Rightarrow> if validSequence n cp then Some (codeUnits cp, r') else None)))"

lemma readPercent_shorter: "readPercent us = Some (b, r) \<Longrightarrow> length r < length us"
  by (cases us rule: readPercent.cases) (auto split: if_splits option.splits)

lemma readContinuations_shorter: "readContinuations n acc us = Some (b, r) \<Longrightarrow> length r \<le> length us"
  by (induction n acc us rule: readContinuations.induct) (fastforce dest: readPercent_shorter split: option.splits if_splits)+

lemma decodeEscape_shorter: "decodeEscape us = Some (x, r) \<Longrightarrow> length r < length us"
  by (auto simp: decodeEscape_def dest!: readPercent_shorter readContinuations_shorter split: option.splits if_splits)

function decodeURIComponent :: "units \<Rightarrow> units option" where
  "decodeURIComponent us = (case us of [] \<Rightarrow> Some []
     | c # cs \<Rightarrow> if c \<noteq> 37 then map_option (\<lambda>t. c # t) (decodeURIComponent cs)
         else (case decodeEscape us of None \<Rightarrow> None
           | Some (x, r) \<Rightarrow> map_option (\<lambda>t. x @ t) (decodeURIComponent r)))"
  by pat_completeness auto
termination by (relation "measure length") (auto dest: decodeEscape_shorter)

declare decodeURIComponent.simps [simp del]

subsection \<open>The round trip\<close>

definition wellFormedUnits :: "units \<Rightarrow> bool" where
  "wellFormedUnits us = list_all (\<lambda>u. u < 0x10000) us"

lemma hexValue_hexUnit [simp]: "v < 16 \<Longrightarrow> hexValue (hexUnit v) = Some v"
  by (auto simp: hexValue_def hexUnit_def)

lemma readPercent_percentByte [simp]: "b < 256 \<Longrightarrow> readPercent (percentByte b @ r) = Some (b, r)"
  by (simp add: percentByte_def)

lemma continuations:
  assumes "128 \<le> b" "b < 192" "128 \<le> b'" "b' < 192" "128 \<le> b''" "b'' < 192"
  shows "readContinuations 1 acc (percentByte b @ r) = Some (acc * 64 + (b - 128), r)"
    "readContinuations 2 acc (percentByte b @ percentByte b' @ r) = Some ((acc * 64 + (b - 128)) * 64 + (b' - 128), r)"
    "readContinuations 3 acc (percentByte b @ percentByte b' @ percentByte b'' @ r)
       = Some (((acc * 64 + (b - 128)) * 64 + (b' - 128)) * 64 + (b'' - 128), r)"
  using assms by (simp_all add: numeral_3_eq_3 numeral_2_eq_2)

lemma decodeEscape_percentEncode:
  assumes "cp \<le> 0x10FFFF" "\<not> isHighSurrogate cp" "\<not> isLowSurrogate cp"
  shows "decodeEscape (percentEncode cp @ r) = Some (codeUnits cp, r)"
proof -
  have m: "x mod 64 < 64" for x :: nat by simp
  have q: "x div 64 * 64 + x mod 64 = x" for x :: nat by simp
  have d: "cp div 4096 = cp div 64 div 64" "cp div 262144 = cp div 64 div 64 div 64"
    by (simp_all add: div_mult2_eq [symmetric])
  consider "cp < 0x80" | "0x80 \<le> cp" "cp < 0x800" | "0x800 \<le> cp" "cp < 0x10000" | "0x10000 \<le> cp" by linarith
  then show ?thesis
  proof cases
    case 1
    then show ?thesis by (simp add: percentEncode_def utf8Of_def decodeEscape_def leadByte_def validSequence_def)
  next
    case 2
    define a where "a = cp div 64"
    have a: "a < 32" "a * 64 + cp mod 64 = cp" using 2 by (simp_all add: a_def less_mult_imp_div_less)
    have "percentEncode cp @ r = percentByte (192 + a) @ percentByte (128 + cp mod 64) @ r"
      using 2 by (simp add: percentEncode_def utf8Of_def a_def)
    then show ?thesis using a 2 m continuations(1) [of "128 + cp mod 64" 128 128]
      by (simp add: decodeEscape_def leadByte_def validSequence_def)
  next
    case 3
    define a where "a = cp div 64"
    have a: "a div 64 < 16" "a * 64 + cp mod 64 = cp" using 3 by (simp_all add: a_def d [symmetric] less_mult_imp_div_less)
    have "percentEncode cp @ r = percentByte (224 + a div 64) @ percentByte (128 + a mod 64) @ percentByte (128 + cp mod 64) @ r"
      using 3 d by (simp add: percentEncode_def utf8Of_def a_def)
    moreover have "4096 * (a div 64) + a mod 64 * 64 + cp mod 64 = cp" 
    proof -
      have "64 * (a div 64) + a mod 64 = a" "64 * a + cp mod 64 = cp" using q [of a] a(2) by (simp_all only: mult.commute)
      then show ?thesis by linarith
    qed
    ultimately show ?thesis using a(1) 3 m assms continuations(2) [of "128 + a mod 64" "128 + cp mod 64" 128]
      by (simp add: decodeEscape_def leadByte_def validSequence_def)
  next
    case 4
    define a where "a = cp div 64"
    define c where "c = a div 64"
    have "c div 64 < 8" using assms(1) by (simp add: a_def c_def d [symmetric] less_mult_imp_div_less)
    moreover have "a * 64 + cp mod 64 = cp" "c * 64 + a mod 64 = a" unfolding a_def c_def by (rule q)+
    ultimately have a: "c div 64 < 8" "a * 64 + cp mod 64 = cp" "c * 64 + a mod 64 = a" by simp_all
    have e: "262144 * (c div 64) + 4096 * (c mod 64) + a mod 64 * 64 + cp mod 64 = cp"
    proof -
      have "64 * (c div 64) + c mod 64 = c" "64 * c + a mod 64 = a" "64 * a + cp mod 64 = cp"
        using q [of c] a(2,3) by (simp_all only: mult.commute)
      then show ?thesis by linarith
    qed
    have "percentEncode cp @ r = percentByte (240 + c div 64) @ percentByte (128 + c mod 64) @ percentByte (128 + a mod 64) @ percentByte (128 + cp mod 64) @ r"
      using 4 d by (simp add: percentEncode_def utf8Of_def a_def c_def)
    then show ?thesis using a(1) e 4 m assms continuations(3) [of "128 + c mod 64" "128 + a mod 64" "128 + cp mod 64"]
      by (simp add: decodeEscape_def leadByte_def validSequence_def)
  qed
qed

lemma decodeURIComponent_Nil [simp]: "decodeURIComponent [] = Some []"
  by (subst decodeURIComponent.simps) simp

lemma decodeURIComponent_plain [simp]: "c \<noteq> 37 \<Longrightarrow> decodeURIComponent (c # cs) = map_option (\<lambda>t. c # t) (decodeURIComponent cs)"
  by (subst decodeURIComponent.simps) simp

lemma percentEncode_starts: "\<exists>us. percentEncode cp = 37 # us"
  by (simp add: percentEncode_def utf8Of_def percentByte_def)

lemma decodeURIComponent_escape:
  assumes "decodeEscape (37 # us) = Some (x, r)"
  shows "decodeURIComponent (37 # us) = map_option (\<lambda>t. x @ t) (decodeURIComponent r)"
  by (subst decodeURIComponent.simps) (simp add: assms)

lemma decodeURIComponent_percentEncode:
  assumes "cp \<le> 0x10FFFF" "\<not> isHighSurrogate cp" "\<not> isLowSurrogate cp"
  shows "decodeURIComponent (percentEncode cp @ r) = map_option (\<lambda>t. codeUnits cp @ t) (decodeURIComponent r)"
proof -
  obtain us where us: "percentEncode cp = 37 # us" using percentEncode_starts by blast
  have "decodeEscape (37 # (us @ r)) = Some (codeUnits cp, r)" using decodeEscape_percentEncode [OF assms, of r] us by simp
  from decodeURIComponent_escape [OF this] show ?thesis by (simp add: us)
qed

lemma surrogatePair_facts:
  assumes "isHighSurrogate h" "isLowSurrogate l"
  shows "surrogatePair h l \<le> 0x10FFFF" "\<not> isHighSurrogate (surrogatePair h l)" "\<not> isLowSurrogate (surrogatePair h l)"
    "codeUnits (surrogatePair h l) = [h, l]"
proof -
  obtain x y where xy: "h = 0xD800 + x" "x < 0x400" "l = 0xDC00 + y" "y < 0x400"
    using assms by (auto simp: isHighSurrogate_def isLowSurrogate_def dest!: le_Suc_ex)
  then have "surrogatePair h l = 0x10000 + (x * 0x400 + y)" by (simp add: surrogatePair_def)
  moreover have "(x * 0x400 + y) div 0x400 = x" "(x * 0x400 + y) mod 0x400 = y" using xy by simp_all
  moreover have "x * 0x400 + y < 0x100000" using xy by linarith
  ultimately show "surrogatePair h l \<le> 0x10FFFF" "\<not> isHighSurrogate (surrogatePair h l)" "\<not> isLowSurrogate (surrogatePair h l)"
    "codeUnits (surrogatePair h l) = [h, l]"
    using xy by (simp_all add: codeUnits_def isHighSurrogate_def isLowSurrogate_def)
qed

text \<open>What was encoded decodes to itself; only strings with a lone surrogate are not encoded.\<close>

theorem decode_encode:
  assumes "wellFormedUnits us" "encodeURIComponent us = Some t"
  shows "decodeURIComponent t = Some us"
  using assms
proof (induction us arbitrary: t rule: encodeURIComponent.induct)
  case (2 c cs)
  have c: "c < 0x10000" using "2.prems" by (simp add: wellFormedUnits_def)
  consider (plain) "unreservedUnit c" | (pair) "\<not> unreservedUnit c" "isHighSurrogate c" "\<not> isLowSurrogate c"
    | (one) "\<not> unreservedUnit c" "\<not> isHighSurrogate c" "\<not> isLowSurrogate c"
    using "2.prems" by (auto split: if_splits)
  then show ?case
  proof cases
    case plain
    then have "c \<noteq> 37" by (auto simp: unreservedUnit_def)
    then show ?thesis using plain "2.prems" "2.IH"(1) by (auto simp: wellFormedUnits_def)
  next
    case pair
    then obtain d ds u where d: "cs = d # ds" "isLowSurrogate d" "encodeURIComponent ds = Some u" "t = percentEncode (surrogatePair c d) @ u"
      using "2.prems" by (auto split: list.splits if_splits)
    then have "decodeURIComponent u = Some ds" using "2.prems" "2.IH"(2) pair by (auto simp: wellFormedUnits_def)
    then show ?thesis using d surrogatePair_facts [OF pair(2) d(2)] decodeURIComponent_percentEncode by simp
  next
    case one
    then obtain u where u: "encodeURIComponent cs = Some u" "t = percentEncode c @ u" using "2.prems" by auto
    then have "decodeURIComponent u = Some cs" using "2.prems" "2.IH"(3) one by (auto simp: wellFormedUnits_def)
    moreover have "codeUnits c = [c]" using c by (simp add: codeUnits_def)
    ultimately show ?thesis using u one c decodeURIComponent_percentEncode by simp
  qed
qed simp

text \<open>The characters of encoded text.\<close>

lemma utf8_bytes:
  assumes "cp \<le> 0x10FFFF" "b \<in> set (utf8Of cp)" shows "b < 256"
proof -
  have "x mod 64 < 64" for x :: nat by simp
  moreover have "cp < 0x800 \<Longrightarrow> cp div 64 < 32" "cp < 0x10000 \<Longrightarrow> cp div 4096 < 16" "cp div 262144 < 8"
    using assms(1) by (simp_all add: less_mult_imp_div_less)
  ultimately show ?thesis using assms(2)
    by (auto simp: utf8Of_def split: if_splits intro: order.strict_trans)
qed

lemma hexUnit_unreserved: "v < 16 \<Longrightarrow> unreservedUnit (hexUnit v)"
  by (cases "v < 10") (simp_all add: hexUnit_def unreservedUnit_def)

lemma percentEncode_chars:
  assumes "cp \<le> 0x10FFFF" "u \<in> set (percentEncode cp)" shows "u = 37 \<or> unreservedUnit u"
proof -
  obtain b where b: "b \<in> set (utf8Of cp)" "u \<in> set (percentByte b)" using assms(2) by (auto simp: percentEncode_def)
  have "b div 16 < 16" using utf8_bytes [OF assms(1) b(1)] by simp
  then show ?thesis using b(2) hexUnit_unreserved by (auto simp: percentByte_def)
qed

lemma encode_chars:
  assumes "wellFormedUnits us" "encodeURIComponent us = Some t" "u \<in> set t"
  shows "u = 37 \<or> unreservedUnit u"
  using assms
proof (induction us arbitrary: t rule: encodeURIComponent.induct)
  case (2 c cs)
  have c: "c \<le> 0x10FFFF" using "2.prems"(1) by (simp add: wellFormedUnits_def)
  show ?case
    using "2.prems" "2.IH" percentEncode_chars [OF c] percentEncode_chars [OF surrogatePair_facts(1)]
    by (fastforce simp: wellFormedUnits_def split: if_splits list.splits)
qed simp

subsection \<open>What decoding yields\<close>

lemma readPercent_wellFormed: "readPercent us = Some (b, r) \<Longrightarrow> wellFormedUnits us \<Longrightarrow> wellFormedUnits r"
  by (cases us rule: readPercent.cases) (auto simp: wellFormedUnits_def split: if_splits option.splits)

lemma readContinuations_bound:
  "readContinuations n acc us = Some (cp, r) \<Longrightarrow> cp < (acc + 1) * 64 ^ n \<and> (wellFormedUnits us \<longrightarrow> wellFormedUnits r)"
proof (induction n acc us rule: readContinuations.induct)
  case (2 n acc us)
  then obtain b r' where b: "readPercent us = Some (b, r')" "128 \<le> b" "b < 192" "readContinuations n (acc * 64 + (b - 128)) r' = Some (cp, r)"
    by (auto split: option.splits if_splits)
  from "2.IH" [OF b(1) refl] b have ih: "cp < (acc * 64 + (b - 128) + 1) * 64 ^ n" "wellFormedUnits r' \<longrightarrow> wellFormedUnits r" by auto
  have "acc * 64 + (b - 128) + 1 \<le> (acc + 1) * 64" using b(2,3) by simp
  then have "(acc * 64 + (b - 128) + 1) * 64 ^ n \<le> (acc + 1) * 64 * 64 ^ n" by (rule mult_le_mono1)
  also have "\<dots> = (acc + 1) * 64 ^ Suc n" by (simp only: power_Suc mult.assoc)
  finally show ?case using ih readPercent_wellFormed [OF b(1)] by auto
qed simp

lemma codeUnits_wellFormed:
  assumes "cp \<le> 0x10FFFF" shows "wellFormedUnits (codeUnits cp) \<and> codeUnits cp \<noteq> []"
proof -
  define x y where "x = (cp - 0x10000) div 0x400" and "y = (cp - 0x10000) mod 0x400"
  have "x < 0x400" "y < 0x400" using assms by (simp_all add: x_def y_def less_mult_imp_div_less)
  then show ?thesis by (simp add: codeUnits_def wellFormedUnits_def x_def [symmetric] y_def [symmetric])
qed

lemma decodeEscape_wellFormed:
  assumes "decodeEscape us = Some (x, r)" "wellFormedUnits us"
  shows "wellFormedUnits x \<and> x \<noteq> [] \<and> wellFormedUnits r"
proof -
  obtain b r1 n acc cp where s: "readPercent us = Some (b, r1)" "leadByte b = Some (n, acc)" "readContinuations n acc r1 = Some (cp, r)"
      "validSequence n cp" "x = codeUnits cp"
    using assms(1) by (auto simp: decodeEscape_def split: option.splits if_splits)
  have "cp < (acc + 1) * 64 ^ n" "wellFormedUnits r"
    using readContinuations_bound [OF s(3)] readPercent_wellFormed [OF s(1) assms(2)] by auto
  moreover from this have "cp \<le> 0x10FFFF"
    using s(2,4) by (auto simp: leadByte_def validSequence_def split: if_splits)
  ultimately show ?thesis using codeUnits_wellFormed s(5) by simp
qed

lemma decode_wellFormed:
  "decodeURIComponent us = Some t \<Longrightarrow> wellFormedUnits us \<Longrightarrow> wellFormedUnits t \<and> (us \<noteq> [] \<longrightarrow> t \<noteq> [])"
proof (induction us arbitrary: t rule: decodeURIComponent.induct)
  case (1 us)
  show ?case
  proof (cases us)
    case Nil then show ?thesis using "1.prems" by (simp add: wellFormedUnits_def)
  next
    case (Cons c cs)
    show ?thesis
    proof (cases "c = 37")
      case False
      then obtain u where "decodeURIComponent cs = Some u" "t = c # u" using "1.prems" Cons by auto
      then show ?thesis using "1.IH"(1) [OF Cons] False "1.prems" Cons by (simp add: wellFormedUnits_def)
    next
      case True
      then obtain x r u where e: "decodeEscape us = Some (x, r)" "decodeURIComponent r = Some u" "t = x @ u"
        using "1.prems"(1) Cons by (subst (asm) decodeURIComponent.simps) (auto split: option.splits)
      have w: "wellFormedUnits x \<and> x \<noteq> [] \<and> wellFormedUnits r" using decodeEscape_wellFormed [OF e(1)] "1.prems"(2) by simp
      then have "wellFormedUnits u" using "1.IH"(2) [OF Cons _ e(1) refl] True e(2) by simp
      then show ?thesis using w e(3) by (simp add: wellFormedUnits_def)
    qed
  qed
qed

text \<open>Decoding over and over.\<close>

fun decodeTimes :: "nat \<Rightarrow> units \<Rightarrow> units option" where
  "decodeTimes 0 us = Some us"
| "decodeTimes (Suc n) us = Option.bind (decodeURIComponent us) (decodeTimes n)"

lemma decodeTimes_fixpoint: "decodeURIComponent us = Some us \<Longrightarrow> decodeTimes n us = Some us"
  by (induction n) simp_all

end
