(* ===== verification/Graph_Client.thy ===== *)
theory Graph_Client
  imports Graph_Errors Json_Stringify Uri_Component
begin

section \<open>The Graph client (packages/graph/src/client.ts)\<close>

text \<open>
  \<open>GraphClient\<close> validates its configuration once and every request before it is sent: the path is split,
  each segment decoded until it no longer changes, checked at every round and encoded again.  The URL
  parser, the \<open>Headers\<close> constructor, \<open>JSON.parse\<close> and the transport are parameters.  A parsed URL is its
  text up to the path, the path, the pairs of the query and the fragment; assigning \<open>pathname\<close> keeps the
  text, since what is assigned holds only characters a path may hold and no dot-segment.  The world logs
  the requests handed to the transport.
\<close>

subsection \<open>Data\<close>

record client_url =
  cu_protocol :: string
  cu_prefix :: string
  cu_pathname :: units
  cu_query :: "(string \<times> string) list"
  cu_hash :: string

text \<open>An \<open>UnserializableBody\<close> is a value \<open>JSON.stringify\<close> throws for: an object that holds a reference back to
  itself, or a BigInt.  It carries the shape other code may read, the references back unfolded and a
  BigInt standing as a value without properties.\<close>

datatype request_body =
    ValueBody jsval
  | UnserializableBody jsval
  | PlatformBody nat
  | StreamBody nat

datatype body_init = NullInit | TextInit string | PassedInit request_body | UndefinedInit

datatype headers_init =
    NoInit
  | HeadersObject "(string \<times> string) list"
  | HeaderPairs "slot list"
  | HeaderRecord "(string \<times> slot) list"
  | OtherInit jsval

record client_request =
  cq_method :: http_method
  cq_url :: client_url
  cq_headers :: "(string \<times> string) list"
  cq_body :: body_init
  cq_signal :: jsval

record client_response =
  cr_status :: int
  cr_headers :: "(string \<times> string) list"
  cr_json :: "string + jsval"
  cr_text :: "string + string"

datatype client_exn =
    RequestValidationError string
  | SerializationError string
  | NetworkError string
  | ApiError graph_error
  | OtherError string

datatype transport_failure = IsNetworkError string | OtherFailure string

record 'w client_world =
  cw_sent :: "client_request list"
  cw_host :: 'w

record 'w client_env =
  ce_parseUrl :: "string \<Rightarrow> client_url option"
  ce_newHeaders :: "headers_init \<Rightarrow> (string \<times> string) list option"
  ce_toString :: "jsval \<Rightarrow> string"
  ce_numberText :: "rat \<Rightarrow> string"
  ce_parseJson :: "string \<Rightarrow> jsval option"
  ce_registry :: error_registry
  ce_transport :: "client_request \<Rightarrow> 'w \<Rightarrow> (transport_failure + client_response) \<times> 'w"

datatype path_value = PathUnits units | PathOther jsval

record graph_request_options =
  go_method :: jsval
  go_path :: path_value
  go_query :: "(string \<times> slot) list option"
  go_body :: request_body
  go_headers :: headers_init
  go_signal :: jsval

record graph_client =
  gc_baseUrl :: client_url
  gc_apiVersion :: string
  gc_accessToken :: string

subsection \<open>Configuration\<close>

definition ACCESS_TOKEN_MAX_LEN :: nat where "ACCESS_TOKEN_MAX_LEN = 4096"

definition DEFAULT_GRAPH_BASE_URL :: string where "DEFAULT_GRAPH_BASE_URL = ''https://graph.facebook.com/''"

definition hasForbiddenControlChar :: "string \<Rightarrow> bool" where
  "hasForbiddenControlChar s = list_ex (\<lambda>c. code_of c < 0x20 \<or> code_of c = 0x7F) s"

definition validateAccessToken :: "jsval \<Rightarrow> client_exn + string" where
  "validateAccessToken v = (case v of
     JStr s \<Rightarrow>
       if s = [] then Inl (RequestValidationError ''accessToken must be a non-empty string'')
       else if js_trim s = [] then Inl (RequestValidationError ''accessToken must not be whitespace-only'')
       else if length s > ACCESS_TOKEN_MAX_LEN then Inl (RequestValidationError ''accessToken exceeds bound'')
       else if hasForbiddenControlChar s then Inl (RequestValidationError ''accessToken must not contain control characters'')
       else Inr s
   | _ \<Rightarrow> Inl (RequestValidationError ''accessToken must be a non-empty string''))"

text \<open>\<open>/^v\d+(?:\.\d+)?$/\<close>\<close>

definition apiVersionOk :: "string \<Rightarrow> bool" where
  "apiVersionOk s = (case s of
     c # r \<Rightarrow> c = CHR ''v'' \<and> takeWhile is_digit r \<noteq> [] \<and> (case dropWhile is_digit r of
         [] \<Rightarrow> True
       | d # minor \<Rightarrow> d = CHR ''.'' \<and> minor \<noteq> [] \<and> list_all is_digit minor)
   | [] \<Rightarrow> False)"

definition validateApiVersion :: "jsval \<Rightarrow> client_exn + string" where
  "validateApiVersion v = (case v of
     JStr s \<Rightarrow> if apiVersionOk s then Inr s else Inl (RequestValidationError ''apiVersion'')
   | _ \<Rightarrow> Inl (RequestValidationError ''apiVersion''))"

definition validateBaseUrl :: "'w client_env \<Rightarrow> jsval \<Rightarrow> client_exn + client_url" where
  "validateBaseUrl env v = (case v of
     JUndef \<Rightarrow> (case ce_parseUrl env DEFAULT_GRAPH_BASE_URL of None \<Rightarrow> Inl (OtherError ''TypeError'') | Some u \<Rightarrow> Inr u)
   | JStr s \<Rightarrow> if s = [] then Inl (RequestValidationError ''baseUrl must be a non-empty string URL'')
       else (case ce_parseUrl env s of
           None \<Rightarrow> Inl (RequestValidationError ''baseUrl is not a valid URL'')
         | Some u \<Rightarrow> if cu_protocol u \<in> {''http:'', ''https:''} then Inr u
             else Inl (RequestValidationError ''baseUrl protocol must be http: or https:''))
   | _ \<Rightarrow> Inl (RequestValidationError ''baseUrl must be a non-empty string URL''))"

definition newGraphClient :: "'w client_env \<Rightarrow> jsval \<Rightarrow> client_exn + graph_client" where
  "newGraphClient env config = (if objectProps config = None then Inl (RequestValidationError ''expected an options object'')
     else bindE (validateAccessToken (optField config ''accessToken'')) (\<lambda>token.
       bindE (validateApiVersion (optField config ''apiVersion'')) (\<lambda>version.
       bindE (validateBaseUrl env (optField config ''baseUrl'')) (\<lambda>base.
       Inr \<lparr> gc_baseUrl = base, gc_apiVersion = version, gc_accessToken = token \<rparr>))))"

subsection \<open>The path\<close>

definition MAX_GRAPH_PATH_DECODE_ROUNDS :: nat where "MAX_GRAPH_PATH_DECODE_ROUNDS = 5"

definition controlUnit :: "nat \<Rightarrow> bool" where
  "controlUnit u = (u < 0x20 \<or> u = 0x7F)"

text \<open>No dot-segment, no slash or backslash, no \<open>?\<close> or \<open>#\<close>, no control character.\<close>

definition safeGraphPathSegment :: "units \<Rightarrow> bool" where
  "safeGraphPathSegment us = (us \<notin> {[46], [46, 46]} \<and> list_all (\<lambda>u. u \<notin> {47, 92, 63, 35} \<and> \<not> controlUnit u) us)"

definition assertSafeGraphPathSegment :: "units \<Rightarrow> client_exn + unit" where
  "assertSafeGraphPathSegment us =
     bindE (guardE (us \<notin> {[46], [46, 46]}) (RequestValidationError ''Dot-segments are not allowed.'')) (\<lambda>_.
     bindE (guardE (list_all (\<lambda>u. u \<notin> {47, 92}) us) (RequestValidationError ''Path traversal patterns are not allowed.'')) (\<lambda>_.
     bindE (guardE (list_all (\<lambda>u. u \<notin> {63, 35}) us) (RequestValidationError ''Query strings and fragments are not allowed in path.'')) (\<lambda>_.
     guardE (list_all (\<lambda>u. \<not> controlUnit u) us) (RequestValidationError ''Control characters are not allowed in path segments.''))))"

text \<open>The rounds that are left; the final \<open>encodeURIComponent\<close> throws a \<open>URIError\<close> on a lone surrogate.\<close>

fun decodeRounds :: "nat \<Rightarrow> units \<Rightarrow> client_exn + units" where
  "decodeRounds 0 us = Inl (RequestValidationError ''Excessive nested percent-encoding in path segment.'')"
| "decodeRounds (Suc n) us = (case decodeURIComponent us of
     None \<Rightarrow> Inl (RequestValidationError ''Malformed percent-encoding.'')
   | Some decoded \<Rightarrow> bindE (assertSafeGraphPathSegment decoded) (\<lambda>_.
       if decoded = us then (case encodeURIComponent decoded of None \<Rightarrow> Inl (OtherError ''URIError'') | Some t \<Rightarrow> Inr t)
       else decodeRounds n decoded))"

definition normalizeGraphPathSegment :: "units \<Rightarrow> client_exn + units" where
  "normalizeGraphPathSegment us = bindE (assertSafeGraphPathSegment us) (\<lambda>_. decodeRounds MAX_GRAPH_PATH_DECODE_ROUNDS us)"

fun splitUnits :: "nat \<Rightarrow> units \<Rightarrow> units list" where
  "splitUnits d [] = [[]]"
| "splitUnits d (u # us) = (if u = d then [] # splitUnits d us
     else (case splitUnits d us of w # ws \<Rightarrow> (u # w) # ws | [] \<Rightarrow> [[u]]))"

definition splitAndValidatePath :: "units \<Rightarrow> client_exn + units list" where
  "splitAndValidatePath path =
     bindE (guardE (list_all (\<lambda>u. \<not> controlUnit u) path) (RequestValidationError ''Control characters are not allowed.'')) (\<lambda>_.
     let normalized = (case path of u # _ \<Rightarrow> if u = 47 then path else 47 # path | [] \<Rightarrow> [47]) in
     bindE (guardE (list_all (\<lambda>u. u \<notin> {63, 35}) normalized)
       (RequestValidationError ''Query strings and fragments are not allowed in path.'')) (\<lambda>_.
     mapE normalizeGraphPathSegment (filter (\<lambda>s. s \<noteq> []) (splitUnits 47 normalized))))"

text \<open>\<open>searchParams.set\<close>: the first pair of the name takes the value, later ones go.\<close>

definition setParam :: "string \<Rightarrow> string \<Rightarrow> (string \<times> string) list \<Rightarrow> (string \<times> string) list" where
  "setParam k v ps = (case List.extract (\<lambda>(k', _). k' = k) ps of
     None \<Rightarrow> ps @ [(k, v)]
   | Some (before, _, after) \<Rightarrow> before @ [(k, v)] @ filter (\<lambda>(k', _). k' \<noteq> k) after)"

definition stringOf :: "'w client_env \<Rightarrow> jsval \<Rightarrow> string" where
  "stringOf env v = (case v of JStr s \<Rightarrow> s | JBool b \<Rightarrow> if b then ''true'' else ''false''
     | JNum (Fin r) \<Rightarrow> ce_numberText env r | _ \<Rightarrow> ce_toString env v)"

definition setQuery :: "'w client_env \<Rightarrow> (string \<times> slot) list \<Rightarrow> client_url \<Rightarrow> client_url" where
  "setQuery env query url = url\<lparr>cu_query := foldl (\<lambda>ps (k, sl). let v = slot_value sl in
     if v \<in> {JNull, JUndef} then ps else setParam k (stringOf env v) ps) (cu_query url) query\<rparr>"

fun joinUnits :: "nat \<Rightarrow> units list \<Rightarrow> units" where
  "joinUnits d [] = []"
| "joinUnits d [s] = s"
| "joinUnits d (s # t # ts) = s @ [d] @ joinUnits d (t # ts)"

definition withSlash :: "units \<Rightarrow> units" where
  "withSlash p = (if p \<noteq> [] \<and> last p = 47 then p else p @ [47])"

definition buildUrl :: "'w client_env \<Rightarrow> graph_client \<Rightarrow> units \<Rightarrow> (string \<times> slot) list \<Rightarrow> client_exn + client_url" where
  "buildUrl env c path query = bindE (splitAndValidatePath path) (\<lambda>segments.
     Inr (setQuery env query ((gc_baseUrl c)\<lparr>cu_pathname :=
       withSlash (cu_pathname (gc_baseUrl c)) @ joinUnits 47 (unitsOf (gc_apiVersion c) # segments)\<rparr>)))"

subsection \<open>Method, signal, headers, body\<close>

definition asTransportMethod :: "jsval \<Rightarrow> client_exn + http_method" where
  "asTransportMethod v = (case v of
     JStr m \<Rightarrow>
       if m = [] \<or> js_trim m = [] then Inl (RequestValidationError ''method: expected a non-empty string'')
       else if hasForbiddenControlChar m then Inl (RequestValidationError ''method: control characters are not allowed'')
       else if js_upper m = ''GET'' then Inr GET
       else if js_upper m = ''POST'' then Inr POST
       else if js_upper m = ''PUT'' then Inr PUT
       else if js_upper m = ''PATCH'' then Inr PATCH
       else if js_upper m = ''DELETE'' then Inr DELETE
       else Inl (RequestValidationError ''method'')
   | _ \<Rightarrow> Inl (RequestValidationError ''method: expected a non-empty string''))"

definition validateAbortSignal :: "jsval \<Rightarrow> client_exn + jsval" where
  "validateAbortSignal v = (if v = JUndef then Inr JUndef
     else if objectProps v \<noteq> None \<and> (case optField v ''aborted'' of JBool _ \<Rightarrow> True | _ \<Rightarrow> False)
        \<and> optField v ''addEventListener'' = JFun \<and> optField v ''removeEventListener'' = JFun then Inr v
     else Inl (RequestValidationError ''expected an AbortSignal-like object''))"

text \<open>\<open>trim().length === 0\<close> on code units.\<close>

definition blankUnit :: "nat \<Rightarrow> bool" where
  "blankUnit u = ((9 \<le> u \<and> u \<le> 13) \<or> u \<in> {32, 0xA0, 0x1680, 0x2028, 0x2029, 0x202F, 0x205F, 0x3000, 0xFEFF}
     \<or> (0x2000 \<le> u \<and> u \<le> 0x200A))"

definition validateRequestPath :: "path_value \<Rightarrow> client_exn + units" where
  "validateRequestPath v = (case v of
     PathUnits us \<Rightarrow> if us = [] \<or> list_all blankUnit us then Inl (RequestValidationError ''path: expected a non-empty string'') else Inr us
   | PathOther _ \<Rightarrow> Inl (RequestValidationError ''path: expected a non-empty string''))"

definition isAuth :: "string \<Rightarrow> bool" where
  "isAuth name = (js_lower name = ''authorization'')"

definition authEntry :: "slot \<Rightarrow> bool" where
  "authEntry sl = (case slot_value sl of
     JArr (e # _) \<Rightarrow> (case slot_value e of JStr s \<Rightarrow> isAuth s | _ \<Rightarrow> False)
   | _ \<Rightarrow> False)"

definition assertNoAuthorizationOverride :: "headers_init \<Rightarrow> client_exn + unit" where
  "assertNoAuthorizationOverride init = (let fail = RequestValidationError ''authorization header is managed by the client'' in
     case init of
       NoInit \<Rightarrow> Inr ()
     | HeadersObject hs \<Rightarrow> guardE (\<not> headersHas hs ''authorization'') fail
     | HeaderPairs entries \<Rightarrow> guardE (\<not> list_ex authEntry entries) fail
     | HeaderRecord ps \<Rightarrow> guardE (\<not> list_ex (\<lambda>(k, _). isAuth k) ps) fail
     | OtherInit v \<Rightarrow> (case objectProps v of None \<Rightarrow> Inr ()
         | Some ps \<Rightarrow> guardE (\<not> list_ex (\<lambda>(k, _). isAuth k) ps) fail))"

text \<open>\<open>new Headers(init)\<close>, its \<open>TypeError\<close> wrapped.\<close>

definition newHeaders :: "'w client_env \<Rightarrow> headers_init \<Rightarrow> client_exn + (string \<times> string) list" where
  "newHeaders env init = (case ce_newHeaders env init of
     None \<Rightarrow> Inl (RequestValidationError ''Invalid request headers'') | Some hs \<Rightarrow> Inr hs)"

text \<open>\<open>headers.set\<close>: the first header of the name takes the value, the others go.\<close>

fun headersSet :: "string \<Rightarrow> string \<Rightarrow> (string \<times> string) list \<Rightarrow> (string \<times> string) list" where
  "headersSet name v [] = [(name, v)]"
| "headersSet name v ((k, x) # hs) = (if js_lower k = name
     then (name, v) # filter (\<lambda>(k', _). js_lower k' \<noteq> name) hs
     else (k, x) # headersSet name v hs)"

definition isReadableStreamLike :: "request_body \<Rightarrow> bool" where
  "isReadableStreamLike b = (case b of
     StreamBody _ \<Rightarrow> True
   | PlatformBody _ \<Rightarrow> False
   | UnserializableBody v \<Rightarrow> objectProps v \<noteq> None \<and> optField v ''getReader'' = JFun
   | ValueBody v \<Rightarrow> objectProps v \<noteq> None \<and> optField v ''getReader'' = JFun)"

definition isJsonLikeBody :: "request_body \<Rightarrow> bool" where
  "isJsonLikeBody b = (case b of
     ValueBody v \<Rightarrow>
       if v \<in> {JNull, JUndef} then False
       else if (case v of JStr _ \<Rightarrow> True | _ \<Rightarrow> False) then False
       else \<not> isReadableStreamLike b
   | UnserializableBody _ \<Rightarrow> \<not> isReadableStreamLike b
   | _ \<Rightarrow> False)"

text \<open>\<open>JSON.stringify\<close> throws for an unserializable body; the error is wrapped.\<close>

definition toBodyInit :: "'w client_env \<Rightarrow> request_body \<Rightarrow> client_exn + body_init" where
  "toBodyInit env b = (case b of
     ValueBody v \<Rightarrow> (case v of
         JNull \<Rightarrow> Inr NullInit
       | JUndef \<Rightarrow> Inr NullInit
       | JStr s \<Rightarrow> Inr (TextInit s)
       | _ \<Rightarrow> if isReadableStreamLike b then Inr (PassedInit b)
           else (case js_stringify (ce_numberText env) v of None \<Rightarrow> Inr UndefinedInit | Some t \<Rightarrow> Inr (TextInit t)))
   | UnserializableBody _ \<Rightarrow> if isReadableStreamLike b then Inr (PassedInit b)
       else Inl (SerializationError ''Failed to serialize request body to JSON.'')
   | _ \<Rightarrow> Inr (PassedInit b))"

subsection \<open>Requests\<close>

type_synonym ('w, 'a) cact = "('w client_world, client_exn, 'a) act"

text \<open>The call of the transport: what is not a \<open>GraphNetworkError\<close> becomes one.\<close>

definition callTransport :: "'w client_env \<Rightarrow> client_request \<Rightarrow> ('w, client_response) cact" where
  "callTransport env rq w = (case ce_transport env rq (cw_host w) of (r, h) \<Rightarrow>
     (case r of
        Inr resp \<Rightarrow> Inr resp
      | Inl (IsNetworkError m) \<Rightarrow> Inl (NetworkError m)
      | Inl (OtherFailure _) \<Rightarrow> Inl (NetworkError ''Graph request failed due to a network error''),
      w\<lparr>cw_sent := cw_sent w @ [rq], cw_host := h\<rparr>))"

definition ok2xx :: "client_response \<Rightarrow> bool" where
  "ok2xx resp = (200 \<le> cr_status resp \<and> cr_status resp < 300)"

text \<open>The text of a response is read by \<open>json()\<close> when it says it is JSON; else it is parsed if it can be.\<close>

definition parseResponseBody :: "'w client_env \<Rightarrow> client_response \<Rightarrow> client_exn + jsval" where
  "parseResponseBody env resp = (let contentType = (case headersGet (cr_headers resp) ''content-type'' of None \<Rightarrow> [] | Some t \<Rightarrow> t) in
     if js_includes contentType ''application/json'' then (case cr_json resp of
         Inr v \<Rightarrow> Inr v
       | Inl _ \<Rightarrow> if ok2xx resp then Inl (SerializationError ''Failed to parse successful Graph response JSON.'') else Inr JUndef)
     else (case cr_text resp of
         Inl m \<Rightarrow> Inl (OtherError m)
       | Inr t \<Rightarrow> if t = [] then Inr JUndef
           else (case ce_parseJson env t of Some v \<Rightarrow> Inr v | None \<Rightarrow> Inr (JStr t))))"

definition statusText :: "int \<Rightarrow> string" where
  "statusText n = (if n < 0 then CHR ''-'' # showNat (nat (- n)) else showNat (nat n))"

definition getFallbackErrorMessage :: "int \<Rightarrow> string" where
  "getFallbackErrorMessage status = ''Graph API request failed with status '' @ statusText status"

definition payloadOfValue :: "jsval \<Rightarrow> error_payload" where
  "payloadOfValue v = payloadOf (case objectProps v of None \<Rightarrow> [] | Some ps \<Rightarrow> ps)"

definition extractFallbackGraphPayload :: "jsval \<Rightarrow> error_payload option" where
  "extractFallbackGraphPayload v = (if isGraphApiErrorPayload v then Some (payloadOfValue v) else None)"

definition responseError :: "'w client_env \<Rightarrow> client_response \<Rightarrow> jsval \<Rightarrow> client_exn" where
  "responseError env resp parsed = ApiError (
     if isGraphErrorEnvelope parsed
     then createGraphApiError (ce_registry env) (cr_status resp) (Some (payloadOfValue (optField parsed ''error'')))
       (Some (getFallbackErrorMessage (cr_status resp))) True (HeadersOf (cr_headers resp))
     else createGraphApiError (ce_registry env) (cr_status resp) (extractFallbackGraphPayload parsed)
       (Some (getFallbackErrorMessage (cr_status resp))) False (HeadersOf (cr_headers resp)))"

text \<open>The request as it is handed to the transport, or why there is none.\<close>

definition defaultContentType :: "request_body \<Rightarrow> (string \<times> string) list \<Rightarrow> (string \<times> string) list" where
  "defaultContentType body hs = (
     let hs1 = (if isJsonLikeBody body \<and> \<not> headersHas hs ''content-type'' then headersSet ''content-type'' ''application/json'' hs else hs)
     in if isReadableStreamLike body \<and> \<not> headersHas hs1 ''content-type'' then headersSet ''content-type'' ''application/octet-stream'' hs1 else hs1)"

definition prepareRequest :: "'w client_env \<Rightarrow> graph_client \<Rightarrow> graph_request_options option \<Rightarrow> client_exn + client_request" where
  "prepareRequest env c options = (case options of
     None \<Rightarrow> Inl (RequestValidationError ''expected an options object'')
   | Some ro \<Rightarrow>
       bindE (validateRequestPath (go_path ro)) (\<lambda>path.
       bindE (validateAbortSignal (go_signal ro)) (\<lambda>sig.
       bindE (buildUrl env c path (case go_query ro of None \<Rightarrow> [] | Some q \<Rightarrow> q)) (\<lambda>url.
       bindE (asTransportMethod (go_method ro)) (\<lambda>meth.
       bindE (assertNoAuthorizationOverride (go_headers ro)) (\<lambda>_.
       bindE (newHeaders env (go_headers ro)) (\<lambda>hs.
       bindE (toBodyInit env (go_body ro)) (\<lambda>body.
       Inr \<lparr> cq_method = meth, cq_url = url,
             cq_headers = defaultContentType (go_body ro) (headersSet ''authorization'' (''Bearer '' @ gc_accessToken c) hs),
             cq_body = body, cq_signal = sig \<rparr>))))))))"

definition clientRequest :: "'w client_env \<Rightarrow> graph_client \<Rightarrow> graph_request_options option \<Rightarrow> ('w, jsval) cact" where
  "clientRequest env c options =
     bindA (liftA (prepareRequest env c options)) (\<lambda>rq.
     bindA (callTransport env rq) (\<lambda>resp.
     bindA (liftA (parseResponseBody env resp)) (\<lambda>parsed.
     if \<not> ok2xx resp then failA (responseError env resp parsed) else retA parsed)))"

subsection \<open>Raw requests\<close>

record raw_request_options =
  rr_method :: jsval
  rr_url :: jsval
  rr_body :: request_body
  rr_headers :: headers_init
  rr_signal :: jsval

definition validateAbsoluteRequestUrl :: "'w client_env \<Rightarrow> jsval \<Rightarrow> client_exn + client_url" where
  "validateAbsoluteRequestUrl env v = (case v of
     JStr s \<Rightarrow> if js_trim s = [] \<or> hasForbiddenControlChar s then Inl (RequestValidationError ''url: expected a non-empty http(s) URL'')
       else (case ce_parseUrl env s of
           None \<Rightarrow> Inl (RequestValidationError ''url: expected a valid absolute URL'')
         | Some u \<Rightarrow> if cu_protocol u \<in> {''http:'', ''https:''} then Inr u
             else Inl (RequestValidationError ''url: protocol must be http: or https:''))
   | _ \<Rightarrow> Inl (RequestValidationError ''url: expected a non-empty http(s) URL''))"

definition prepareRaw :: "'w client_env \<Rightarrow> graph_client \<Rightarrow> raw_request_options option \<Rightarrow> client_exn + client_request" where
  "prepareRaw env c options = (case options of
     None \<Rightarrow> Inl (RequestValidationError ''expected an options object'')
   | Some ro \<Rightarrow>
       bindE (asTransportMethod (rr_method ro)) (\<lambda>meth.
       bindE (validateAbsoluteRequestUrl env (rr_url ro)) (\<lambda>url.
       bindE (validateAbortSignal (rr_signal ro)) (\<lambda>sig.
       bindE (assertNoAuthorizationOverride (rr_headers ro)) (\<lambda>_.
       bindE (newHeaders env (rr_headers ro)) (\<lambda>hs.
       bindE (toBodyInit env (rr_body ro)) (\<lambda>body.
       Inr \<lparr> cq_method = meth, cq_url = url,
             cq_headers = headersSet ''authorization'' (''Bearer '' @ gc_accessToken c) hs,
             cq_body = body, cq_signal = sig \<rparr>)))))))"

definition requestRaw :: "'w client_env \<Rightarrow> graph_client \<Rightarrow> raw_request_options option \<Rightarrow> ('w, client_response) cact" where
  "requestRaw env c options = bindA (liftA (prepareRaw env c options)) (callTransport env)"

subsection \<open>Segments\<close>

lemma assertSafe_iff: "assertSafeGraphPathSegment us = Inr u \<longleftrightarrow> safeGraphPathSegment us"
  by (auto simp: assertSafeGraphPathSegment_def safeGraphPathSegment_def res_iff list_all_iff)

text \<open>What a path may hold: every decoding of the segment, however often, is defined and safe.\<close>

definition deeplySafe :: "units \<Rightarrow> bool" where
  "deeplySafe s = (\<forall>n. \<exists>t. decodeTimes n s = Some t \<and> t \<noteq> [] \<and> safeGraphPathSegment t)"

lemma safe_encoded:
  assumes "wellFormedUnits us" "encodeURIComponent us = Some t" "safeGraphPathSegment us" "us \<noteq> []"
  shows "t \<noteq> [] \<and> safeGraphPathSegment t"
proof -
  have d: "decodeURIComponent t = Some us" by (rule decode_encode [OF assms(1,2)])
  have t: "t \<noteq> []" using d assms(4) by auto
  have c: "u \<notin> {47, 92, 63, 35} \<and> \<not> controlUnit u" if "u \<in> set t" for u
    using encode_chars [OF assms(1,2) that] by (auto simp: unreservedUnit_def controlUnit_def)
  have "t \<notin> {[46], [46, 46]}" using d assms(3) by (auto simp: safeGraphPathSegment_def)
  then show ?thesis using t c by (simp add: safeGraphPathSegment_def list_all_iff)
qed

lemma decodeRounds_deeplySafe:
  "decodeRounds n us = Inr t \<Longrightarrow> wellFormedUnits us \<Longrightarrow> us \<noteq> [] \<Longrightarrow> deeplySafe t"
proof (induction n arbitrary: us)
  case (Suc n)
  obtain d where d: "decodeURIComponent us = Some d" "safeGraphPathSegment d"
    using Suc.prems(1) by (auto simp: res_iff assertSafe_iff split: option.splits)
  have w: "wellFormedUnits d" "d \<noteq> []" using decode_wellFormed [OF d(1)] Suc.prems(2,3) by simp_all
  show ?case
  proof (cases "d = us")
    case False
    then have "decodeRounds n d = Inr t" using Suc.prems(1) d assertSafe_iff [of d "()"] by simp
    then show ?thesis using Suc.IH w by simp
  next
    case True
    then have e: "encodeURIComponent us = Some t"
      using Suc.prems(1) d assertSafe_iff [of d "()"] by (auto split: option.splits)
    have a: "decodeURIComponent t = Some us" by (rule decode_encode [OF Suc.prems(2) e])
    have b: "t \<noteq> [] \<and> safeGraphPathSegment t" using safe_encoded [OF Suc.prems(2) e] d(2) True Suc.prems(3) by simp
    show ?thesis unfolding deeplySafe_def
    proof
      fix k
      show "\<exists>x. decodeTimes k t = Some x \<and> x \<noteq> [] \<and> safeGraphPathSegment x"
        using a b d True Suc.prems(3) decodeTimes_fixpoint [of us] by (cases k) auto
    qed
  qed
qed simp

lemma splitUnits_mem: "s \<in> set (splitUnits d us) \<Longrightarrow> u \<in> set s \<Longrightarrow> u \<in> set us"
proof (induction us arbitrary: s)
  case (Cons a us)
  then show ?case by (cases "splitUnits d us") (fastforce split: if_splits)+
qed simp

lemma split_deeplySafe:
  assumes "splitAndValidatePath p = Inr segs" "wellFormedUnits p" "s \<in> set segs" shows "deeplySafe s"
proof -
  define nz where "nz = (case p of u # _ \<Rightarrow> if u = 47 then p else 47 # p | [] \<Rightarrow> [47])"
  have m: "mapE normalizeGraphPathSegment (filter (\<lambda>s. s \<noteq> []) (splitUnits 47 nz)) = Inr segs"
    using assms(1) by (auto simp: splitAndValidatePath_def Let_def res_iff nz_def)
  obtain x where x: "x \<in> set (splitUnits 47 nz)" "x \<noteq> []" "normalizeGraphPathSegment x = Inr s"
    using mapE_Inr_set [OF m assms(3)] by auto
  have "wellFormedUnits nz" using assms(2) by (auto simp: nz_def wellFormedUnits_def split: list.splits)
  then have "wellFormedUnits x" using splitUnits_mem [OF x(1)] by (auto simp: wellFormedUnits_def list_all_iff)
  then show ?thesis using x(2,3) decodeRounds_deeplySafe by (auto simp: normalizeGraphPathSegment_def res_iff)
qed

subsection \<open>Headers\<close>

lemma headersSet_filter_same:
  "js_lower name = name \<Longrightarrow> filter (\<lambda>(k, _). js_lower k = name) (headersSet name v hs) = [(name, v)]"
  by (induction hs) (auto simp: filter_empty_conv)

lemma headersSet_filter_other:
  "js_lower name \<noteq> other \<Longrightarrow> name \<noteq> other \<Longrightarrow>
    filter (\<lambda>(k, _). js_lower k = other) (headersSet name v hs) = filter (\<lambda>(k, _). js_lower k = other) hs"
proof (induction hs)
  case (Cons h hs)
  obtain k x where h: "h = (k, x)" by force
  show ?case
  proof (cases "js_lower k = name")
    case True
    then show ?thesis using h Cons.prems by (auto simp: filter_filter intro: arg_cong [of _ _ "\<lambda>P. filter P hs"] filter_cong)
  next
    case False then show ?thesis using h Cons by simp
  qed
qed auto

lemma header_names [simp]:
  "js_lower ''authorization'' = ''authorization''" "js_lower ''content-type'' = ''content-type''"
  by (simp_all add: js_lower_def js_lower_char_def code_of_def Let_def)

lemma authorization_kept:
  "filter (\<lambda>(k, _). js_lower k = ''authorization'') (defaultContentType b (headersSet ''authorization'' v hs)) = [(''authorization'', v)]"
  by (simp add: defaultContentType_def Let_def headersSet_filter_same headersSet_filter_other)

subsection \<open>What is sent\<close>

lemma callTransport_sent: "cw_sent (snd (callTransport env rq w)) = cw_sent w @ [rq]"
  by (simp add: callTransport_def split: prod.split)

lemma clientRequest_sent:
  "cw_sent (snd (clientRequest env c options w)) = (case prepareRequest env c options of
     Inl _ \<Rightarrow> cw_sent w | Inr rq \<Rightarrow> cw_sent w @ [rq])"
proof (cases "prepareRequest env c options")
  case (Inr rq)
  then show ?thesis using callTransport_sent [of env rq w]
    by (cases "callTransport env rq w"; cases "fst (callTransport env rq w)")
       (auto simp: clientRequest_def bindA_def split: sum.split)
qed (simp add: clientRequest_def bindA_def)

lemma setQuery_more [simp]:
  "cu_pathname (setQuery env q u) = cu_pathname u" "cu_prefix (setQuery env q u) = cu_prefix u"
  by (simp_all add: setQuery_def)

text \<open>C34: A request whose options are refused is not sent; one that is sent goes to the configured host, under the
  configured base path and API version, every further segment of its path being free of dot-segments,
  slashes, backslashes, query and fragment marks and control characters however often it is decoded, and it
  carries exactly one authorization header, the client's own token.\<close>

theorem sent_requests_are_confined:
  assumes "\<forall>ro p. options = Some ro \<longrightarrow> go_path ro = PathUnits p \<longrightarrow> wellFormedUnits p"
  shows "case prepareRequest env c options of
      Inl e \<Rightarrow> clientRequest env c options w = (Inl e, w)
    | Inr rq \<Rightarrow> cw_sent (snd (clientRequest env c options w)) = cw_sent w @ [rq]
        \<and> cu_prefix (cq_url rq) = cu_prefix (gc_baseUrl c)
        \<and> (\<exists>segs. cu_pathname (cq_url rq) = withSlash (cu_pathname (gc_baseUrl c)) @ joinUnits 47 (unitsOf (gc_apiVersion c) # segs)
              \<and> (\<forall>s \<in> set segs. deeplySafe s))
        \<and> filter (\<lambda>(k, _). js_lower k = ''authorization'') (cq_headers rq) = [(''authorization'', ''Bearer '' @ gc_accessToken c)]"
proof (cases "prepareRequest env c options")
  case (Inl e)
  then show ?thesis by (simp add: clientRequest_def bindA_def)
next
  case (Inr rq)
  then obtain ro where ro: "options = Some ro" by (cases options) (auto simp: prepareRequest_def)
  obtain path url hs where p: "validateRequestPath (go_path ro) = Inr path"
    "buildUrl env c path (case go_query ro of None \<Rightarrow> [] | Some q \<Rightarrow> q) = Inr url"
    "cq_url rq = url" "cq_headers rq = defaultContentType (go_body ro) (headersSet ''authorization'' (''Bearer '' @ gc_accessToken c) hs)"
    using Inr ro by (auto simp: prepareRequest_def res_iff)
  have w: "wellFormedUnits path" using p(1) assms ro by (auto simp: validateRequestPath_def split: path_value.splits if_splits)
  obtain segs where s: "splitAndValidatePath path = Inr segs"
    "url = setQuery env (case go_query ro of None \<Rightarrow> [] | Some q \<Rightarrow> q) ((gc_baseUrl c)\<lparr>cu_pathname :=
       withSlash (cu_pathname (gc_baseUrl c)) @ joinUnits 47 (unitsOf (gc_apiVersion c) # segs)\<rparr>)"
    using p(2) by (auto simp: buildUrl_def res_iff)
  show ?thesis using Inr clientRequest_sent [of env c options w] p(3,4) s split_deeplySafe [OF s(1) w] authorization_kept by auto
qed

text \<open>Before the transport is called only two kinds of error are thrown, and one more for a body that cannot be
  written as JSON.\<close>

definition isRefusal :: "client_exn \<Rightarrow> bool" where
  "isRefusal e = (case e of RequestValidationError _ \<Rightarrow> True | OtherError _ \<Rightarrow> True | _ \<Rightarrow> False)"

named_theorems refusals

lemma isRefusal_simps [simp]: "isRefusal (RequestValidationError m)" "isRefusal (OtherError m)"
  by (simp_all add: isRefusal_def)

lemma assertSafe_refuses [refusals]: "assertSafeGraphPathSegment us = Inl e \<Longrightarrow> isRefusal e"
  by (auto simp: assertSafeGraphPathSegment_def res_iff)

lemma decodeRounds_refuses [refusals]: "decodeRounds n us = Inl e \<Longrightarrow> isRefusal e"
proof (induction n us rule: decodeRounds.induct)
  case (2 n us)
  show ?case
  proof (cases "decodeURIComponent us")
    case (Some d)
    then show ?thesis using 2 assertSafe_refuses [of d] by (auto simp: res_iff split: option.splits if_splits)
  qed (use 2 in auto)
qed auto

lemma normalizeSegments_refuse [refusals]: "mapE normalizeGraphPathSegment ss = Inl e \<Longrightarrow> isRefusal e"
  by (induction ss) (auto simp: res_iff normalizeGraphPathSegment_def dest: refusals)

lemma buildUrl_refuses [refusals]: "buildUrl env c path q = Inl e \<Longrightarrow> isRefusal e"
  by (auto simp: buildUrl_def splitAndValidatePath_def Let_def res_iff dest: refusals)

lemma options_refuse [refusals]:
  "validateRequestPath pv = Inl e \<Longrightarrow> isRefusal e" "validateAbortSignal v = Inl e \<Longrightarrow> isRefusal e"
  "asTransportMethod v = Inl e \<Longrightarrow> isRefusal e" "newHeaders env init = Inl e \<Longrightarrow> isRefusal e"
  by (auto simp: validateRequestPath_def validateAbortSignal_def asTransportMethod_def newHeaders_def
    split: path_value.splits if_splits jsval.splits option.splits)

lemma override_refuses [refusals]: "assertNoAuthorizationOverride init = Inl e \<Longrightarrow> isRefusal e"
  by (auto simp: assertNoAuthorizationOverride_def Let_def res_iff split: headers_init.splits option.splits)

lemma toBodyInit_throws: "toBodyInit env b = Inl e \<longleftrightarrow>
    (\<exists>v. b = UnserializableBody v) \<and> \<not> isReadableStreamLike b \<and> e = SerializationError ''Failed to serialize request body to JSON.''"
  by (auto simp: toBodyInit_def split: request_body.split jsval.split option.split)

definition unserializable :: "graph_request_options option \<Rightarrow> bool" where
  "unserializable options = (case options of
     Some ro \<Rightarrow> (\<exists>v. go_body ro = UnserializableBody v \<and> \<not> (objectProps v \<noteq> None \<and> optField v ''getReader'' = JFun))
   | None \<Rightarrow> False)"

lemma prepareRequest_refuses: "prepareRequest env c options = Inl e \<Longrightarrow>
    isRefusal e \<or> unserializable options \<and> e = SerializationError ''Failed to serialize request body to JSON.''"
  by (cases options) (auto simp: prepareRequest_def res_iff toBodyInit_throws unserializable_def isReadableStreamLike_def dest: refusals)

lemma prepared_is_serializable: "prepareRequest env c options = Inr rq \<Longrightarrow> \<not> unserializable options"
  by (cases options)
     (auto simp: prepareRequest_def res_iff toBodyInit_def unserializable_def isReadableStreamLike_def split: if_splits)

lemma unserializable_is_not_sent:
  fixes env :: "'w client_env"
  assumes "unserializable options"
  shows "\<exists>e. clientRequest env c options w = (Inl e, w)
    \<and> ((\<exists>m. e = RequestValidationError m \<or> e = OtherError m) \<or> e = SerializationError ''Failed to serialize request body to JSON.'')"
proof (cases "prepareRequest env c options")
  case (Inl e)
  then show ?thesis using prepareRequest_refuses [OF Inl]
    by (auto simp: clientRequest_def bindA_def isRefusal_def split: client_exn.splits)
qed (use assms prepared_is_serializable in blast)

lemma parse_errors: "parseResponseBody env resp = Inl e \<Longrightarrow>
    e = SerializationError ''Failed to parse successful Graph response JSON.'' \<and> ok2xx resp \<and> (\<exists>m. cr_json resp = Inl m)
    \<or> (\<exists>m. e = OtherError m)"
  by (auto simp: parseResponseBody_def Let_def split: if_splits sum.splits option.splits)

text \<open>C35: What the outcome of \<open>request\<close> says.  It resolves only for a response with a 2xx status, with the body of that
  response; a validation error means that nothing was sent; an API error belongs to a response outside
  2xx; a network error to a transport that threw.  A serialization error has one of two causes: the
  body of the options is neither a stream nor serializable, and nothing was sent, or a response of status 2xx
  held unreadable JSON.  A body that is not serializable is never sent: the request throws that error or
  one of its validations.\<close>

theorem request_outcomes:
  "(case clientRequest env c options w of (r, w') \<Rightarrow> (case r of
      Inr v \<Rightarrow> (\<exists>rq resp. cw_sent w' = cw_sent w @ [rq] \<and> fst (ce_transport env rq (cw_host w)) = Inr resp
        \<and> 200 \<le> cr_status resp \<and> cr_status resp < 300 \<and> parseResponseBody env resp = Inr v)
    | Inl (RequestValidationError _) \<Rightarrow> w' = w
    | Inl (ApiError e) \<Rightarrow> (\<exists>rq resp v. cw_sent w' = cw_sent w @ [rq] \<and> fst (ce_transport env rq (cw_host w)) = Inr resp
        \<and> \<not> (200 \<le> cr_status resp \<and> cr_status resp < 300)
        \<and> parseResponseBody env resp = Inr v \<and> ApiError e = responseError env resp v)
    | Inl (NetworkError _) \<Rightarrow> (\<exists>rq f. cw_sent w' = cw_sent w @ [rq] \<and> fst (ce_transport env rq (cw_host w)) = Inl f)
    | Inl (SerializationError m) \<Rightarrow>
        unserializable options \<and> w' = w \<and> m = ''Failed to serialize request body to JSON.''
        \<or> (\<exists>rq resp j. cw_sent w' = cw_sent w @ [rq] \<and> fst (ce_transport env rq (cw_host w)) = Inr resp
            \<and> 200 \<le> cr_status resp \<and> cr_status resp < 300 \<and> cr_json resp = Inl j \<and> m = ''Failed to parse successful Graph response JSON.'')
    | Inl (OtherError _) \<Rightarrow> True))
 \<and> (unserializable options \<longrightarrow> (\<exists>e. clientRequest env c options w = (Inl e, w)
        \<and> ((\<exists>m. e = RequestValidationError m \<or> e = OtherError m)
            \<or> e = SerializationError ''Failed to serialize request body to JSON.'')))"
    (is "?outcome \<and> _")
proof (rule conjI [OF _ impI], cases "prepareRequest env c options")
  case (Inl e)
  then show ?outcome using prepareRequest_refuses [OF Inl]
    by (cases e) (simp_all add: clientRequest_def bindA_def isRefusal_def)
next
  case (Inr rq)
  obtain r h where t: "ce_transport env rq (cw_host w) = (r, h)" by force
  show ?outcome
  proof (cases r)
    case (Inl f)
    then show ?thesis using Inr t by (cases f) (auto simp: clientRequest_def bindA_def callTransport_def)
  next
    case resp: (Inr resp)
    obtain w1 where c: "callTransport env rq w = (Inr resp, w1)" "cw_sent w1 = cw_sent w @ [rq]"
      using t resp by (simp add: callTransport_def)
    show ?thesis
    proof (cases "parseResponseBody env resp")
      case (Inl e)
      then have run: "clientRequest env c options w = (Inl e, w1)" using Inr c by (simp add: clientRequest_def bindA_def)
      show ?thesis using parse_errors [OF Inl] run c t resp by (auto simp: ok2xx_def)
    next
      case (Inr v)
      have run: "clientRequest env c options w = (if ok2xx resp then Inr v else Inl (responseError env resp v), w1)"
        using \<open>prepareRequest env c options = Inr rq\<close> c Inr by (simp add: clientRequest_def bindA_def)
      have "\<exists>g. responseError env resp v = ApiError g" by (simp add: responseError_def)
      then show ?thesis using run c t resp Inr by (auto simp: ok2xx_def)
    qed
  qed
qed (rule unserializable_is_not_sent)

subsection \<open>Samples\<close>

definition sampleUrl :: client_url where
  "sampleUrl = \<lparr> cu_protocol = ''https:'', cu_prefix = ''https://h'', cu_pathname = [47], cu_query = [], cu_hash = [] \<rparr>"

definition sampleEnv :: "nat client_env" where
  "sampleEnv = \<lparr> ce_parseUrl = (\<lambda>_. Some sampleUrl), ce_newHeaders = (\<lambda>_. Some []), ce_toString = (\<lambda>_. []),
     ce_numberText = (\<lambda>_. ''0''), ce_parseJson = (\<lambda>_. None), ce_registry = \<lparr>reg_entries = [], builtInRegistered = True\<rparr>,
     ce_transport = (\<lambda>_ n. (Inr \<lparr> cr_status = 200, cr_headers = [], cr_json = Inl [], cr_text = Inr ''ok'' \<rparr>, n)) \<rparr>"

definition sampleClient :: graph_client where
  "sampleClient = \<lparr> gc_baseUrl = sampleUrl, gc_apiVersion = ''v1'', gc_accessToken = ''t'' \<rparr>"

text \<open>The path \<open>7/a%2520b\<close>, and the traversal \<open>%252e%252e\<close>.\<close>

definition sampleOptions :: "units \<Rightarrow> graph_request_options option" where
  "sampleOptions p = Some \<lparr> go_method = JStr ''get'', go_path = PathUnits p, go_query = None, go_body = ValueBody JUndef,
     go_headers = NoInit, go_signal = JUndef \<rparr>"

definition samplePath :: units where "samplePath = [55, 47, 97, 37, 50, 53, 50, 48, 98]"

definition sampleTraversal :: units where "sampleTraversal = [55, 47, 37, 50, 53, 50, 101, 37, 50, 53, 50, 101]"

lemma decode_percent: "decodeURIComponent (37 # us) = (case decodeEscape (37 # us) of None \<Rightarrow> None
    | Some (x, r) \<Rightarrow> map_option (\<lambda>t. x @ t) (decodeURIComponent r))"
  by (subst decodeURIComponent.simps) simp

lemma decodeRounds_numeral: "decodeRounds (numeral k) us = (case decodeURIComponent us of
     None \<Rightarrow> Inl (RequestValidationError ''Malformed percent-encoding.'')
   | Some decoded \<Rightarrow> bindE (assertSafeGraphPathSegment decoded) (\<lambda>_.
       if decoded = us then (case encodeURIComponent decoded of None \<Rightarrow> Inl (OtherError ''URIError'') | Some t \<Rightarrow> Inr t)
       else decodeRounds (pred_numeral k) decoded))"
  by (simp add: numeral_eq_Suc)

lemmas decode_simps = decode_percent decodeEscape_def hexValue_def leadByte_def validSequence_def codeUnits_def

lemma sample_decoded:
  "decodeURIComponent [97, 37, 50, 53, 50, 48, 98] = Some [97, 37, 50, 48, 98]"
  "decodeURIComponent [97, 37, 50, 48, 98] = Some [97, 32, 98]" "decodeURIComponent [97, 32, 98] = Some [97, 32, 98]"
  "decodeURIComponent [37, 50, 53, 50, 101, 37, 50, 53, 50, 101] = Some [37, 50, 101, 37, 50, 101]"
  "decodeURIComponent [37, 50, 101, 37, 50, 101] = Some [46, 46]"
  by (simp_all add: decode_simps)

lemma sample_units: "unreservedUnit 97" "unreservedUnit 98" "unreservedUnit 55" "\<not> unreservedUnit 32"
  "\<not> isHighSurrogate 32" "\<not> isLowSurrogate 32"
  by (simp_all add: unreservedUnit_def isHighSurrogate_def isLowSurrogate_def)

lemma sample_encoded: "encodeURIComponent [97, 32, 98] = Some [97, 37, 50, 48, 98]" "encodeURIComponent [55] = Some [55]"
  by (simp_all add: sample_units percentEncode_def utf8Of_def percentByte_def hexUnit_def)

lemma sample_segments:
  "normalizeGraphPathSegment [97, 37, 50, 53, 50, 48, 98] = Inr [97, 37, 50, 48, 98]"
  "normalizeGraphPathSegment [55] = Inr [55]"
  "normalizeGraphPathSegment [37, 50, 53, 50, 101, 37, 50, 53, 50, 101] = Inl (RequestValidationError ''Dot-segments are not allowed.'')"
  by (simp_all add: normalizeGraphPathSegment_def MAX_GRAPH_PATH_DECODE_ROUNDS_def decodeRounds_numeral sample_decoded sample_encoded
    assertSafeGraphPathSegment_def controlUnit_def del: encodeURIComponent.simps)

lemma sample_paths:
  "splitAndValidatePath samplePath = Inr [[55], [97, 37, 50, 48, 98]]"
  "splitAndValidatePath sampleTraversal = Inl (RequestValidationError ''Dot-segments are not allowed.'')"
  by (simp_all add: samplePath_def sampleTraversal_def splitAndValidatePath_def controlUnit_def sample_segments)

lemma sample_method: "asTransportMethod (JStr ''get'') = Inr GET"
  by code_simp

lemma sample_path_ok: "validateRequestPath (PathUnits samplePath) = Inr samplePath"
  "validateRequestPath (PathUnits sampleTraversal) = Inr sampleTraversal"
  by (simp_all add: validateRequestPath_def samplePath_def sampleTraversal_def blankUnit_def)

lemma sample_prepared:
  "case prepareRequest sampleEnv sampleClient (sampleOptions samplePath) of
     Inr rq \<Rightarrow> cu_pathname (cq_url rq) = [47, 118, 49, 47, 55, 47, 97, 37, 50, 48, 98] | Inl _ \<Rightarrow> False"
  "prepareRequest sampleEnv sampleClient (sampleOptions sampleTraversal) = Inl (RequestValidationError ''Dot-segments are not allowed.'')"
  by (simp_all add: prepareRequest_def sampleOptions_def sample_paths buildUrl_def sampleEnv_def sampleClient_def sampleUrl_def
    sample_path_ok sample_method validateAbortSignal_def assertNoAuthorizationOverride_def newHeaders_def toBodyInit_def withSlash_def
    unitsOf_def code_of_def)

lemma sample_wellFormed: "\<forall>ro p. sampleOptions samplePath = Some ro \<longrightarrow> go_path ro = PathUnits p \<longrightarrow> wellFormedUnits p"
  by (simp add: sampleOptions_def samplePath_def wellFormedUnits_def)

text \<open>A body that holds itself: the request is valid but for it.\<close>

definition cyclicOptions :: "graph_request_options option" where
  "cyclicOptions = map_option (\<lambda>ro. ro\<lparr>go_body := UnserializableBody (JObj ObjectProto [(''self'', Data (JObj ObjectProto []))])\<rparr>)
     (sampleOptions samplePath)"

lemma cyclic_prepared: "prepareRequest sampleEnv sampleClient cyclicOptions
    = Inl (SerializationError ''Failed to serialize request body to JSON.'')"
  by (simp add: cyclicOptions_def prepareRequest_def sampleOptions_def sample_paths buildUrl_def sampleEnv_def sampleClient_def sampleUrl_def
    sample_path_ok sample_method validateAbortSignal_def assertNoAuthorizationOverride_def newHeaders_def toBodyInit_def
    isReadableStreamLike_def objectProps_def optField_def js_get_def slot_value_def)

lemma cyclic_unserializable: "unserializable cyclicOptions"
  by (simp add: cyclicOptions_def sampleOptions_def unserializable_def objectProps_def optField_def js_get_def slot_value_def)

theorem request_outcomes_witness:
  "let w = \<lparr>cw_sent = [], cw_host = 0\<rparr> in
     clientRequest sampleEnv sampleClient cyclicOptions w = (Inl (SerializationError ''Failed to serialize request body to JSON.''), w)
   \<and> clientRequest sampleEnv sampleClient (sampleOptions samplePath) w
      = (Inr (JStr ''ok''), w\<lparr>cw_sent := cw_sent (snd (clientRequest sampleEnv sampleClient (sampleOptions samplePath) w))\<rparr>)"
proof -
  let ?w = "\<lparr>cw_sent = [], cw_host = 0\<rparr>"
  obtain e where e: "clientRequest sampleEnv sampleClient cyclicOptions ?w = (Inl e, ?w)"
    using request_outcomes [where env = sampleEnv and c = sampleClient and options = cyclicOptions and w = ?w] cyclic_unserializable by blast
  then have "e = SerializationError ''Failed to serialize request body to JSON.''"
    using cyclic_prepared by (simp add: clientRequest_def bindA_def)
  moreover obtain rq where "prepareRequest sampleEnv sampleClient (sampleOptions samplePath) = Inr rq"
    using sample_prepared(1) by (auto split: sum.splits)
  ultimately show ?thesis using e
    by (simp add: clientRequest_def bindA_def callTransport_def sampleEnv_def parseResponseBody_def headersGet_def ok2xx_def)
qed

theorem sent_requests_are_confined_witness:
  "case prepareRequest sampleEnv sampleClient (sampleOptions samplePath) of
     Inl _ \<Rightarrow> False
   | Inr rq \<Rightarrow> cw_sent (snd (clientRequest sampleEnv sampleClient (sampleOptions samplePath) \<lparr>cw_sent = [], cw_host = 0\<rparr>)) = [rq]
       \<and> cu_prefix (cq_url rq) = ''https://h''"
  using sent_requests_are_confined [OF sample_wellFormed, of sampleEnv sampleClient "\<lparr>cw_sent = [], cw_host = 0\<rparr>"] sample_prepared(1)
  by (auto simp: sampleClient_def sampleUrl_def split: sum.splits)

end
