(* ===== verification/Endpoint_Definition.thy ===== *)
theory Endpoint_Definition
  imports Graph_Client
begin

section \<open>Endpoints from a path template (packages/graph/src/endpoint.ts)\<close>

text \<open>
  \<open>defineEndpoint\<close> checks a definition once and gives a function that fills the path template, collects
  the query and calls the client.  \<open>String.prototype.replace\<close> is modelled with its replacement patterns.
  The names of the inherited properties of an object are not parameter names; the \<open>buildBody\<close> of a
  definition is a function of the model.
\<close>

subsection \<open>Definitions\<close>

record endpoint_definition =
  ed_method :: jsval
  ed_pathTemplate :: jsval
  ed_params :: jsval
  ed_buildBody :: jsval
  ed_build :: "request_body \<Rightarrow> client_exn + request_body"
  ed_bodyContentType :: jsval

record endpoint_invoke_options =
  eo_signal :: jsval
  eo_headers :: headers_init

text \<open>A template is read as literal characters and placeholders \<open>{name}\<close>.\<close>

datatype part = Lit string | Hole_of string

definition brace :: "char \<Rightarrow> bool" where
  "brace c = (c = CHR 0x7B \<or> c = CHR 0x7D)"

lemma dropWhile_shorter [termination_simp]: "dropWhile P xs = y # ys \<Longrightarrow> length ys < Suc (length xs)"
  using length_dropWhile_le [of P xs] by simp

fun templateParts :: "string \<Rightarrow> part list" where
  "templateParts [] = []"
| "templateParts (c # cs) = (if c = CHR 0x7B
     then (case dropWhile (\<lambda>x. \<not> brace x) cs of
        d # ds \<Rightarrow> if d = CHR 0x7D then Hole_of (takeWhile (\<lambda>x. \<not> brace x) cs) # templateParts ds else Lit [c] # templateParts cs
      | [] \<Rightarrow> Lit [c] # templateParts cs)
     else Lit [c] # templateParts cs)"

definition placeholderNameOk :: "string \<Rightarrow> bool" where
  "placeholderNameOk s = (case s of [] \<Rightarrow> False
     | c # cs \<Rightarrow> let letter = (\<lambda>c. (97 \<le> code_of c \<and> code_of c \<le> 122) \<or> (65 \<le> code_of c \<and> code_of c \<le> 90) \<or> code_of c = 95)
         in letter c \<and> list_all (\<lambda>d. letter d \<or> is_digit d) cs)"

fun collectPlaceholders :: "string list \<Rightarrow> part list \<Rightarrow> client_exn + string list" where
  "collectPlaceholders seen [] = Inr (rev seen)"
| "collectPlaceholders seen (Lit s # ps) = collectPlaceholders seen ps"
| "collectPlaceholders seen (Hole_of n # ps) =
     (if n = [] then Inl (RequestValidationError ''pathTemplate: empty placeholder'')
      else if \<not> placeholderNameOk n then Inl (RequestValidationError ''pathTemplate: placeholder name'')
      else if n \<in> set seen then Inl (RequestValidationError ''pathTemplate: duplicate placeholder'')
      else collectPlaceholders (n # seen) ps)"

definition literalText :: "part list \<Rightarrow> string" where
  "literalText ps = concat (map (\<lambda>p. case p of Lit s \<Rightarrow> s | Hole_of _ \<Rightarrow> []) ps)"

definition parsePathTemplate :: "string \<Rightarrow> client_exn + string list" where
  "parsePathTemplate template =
     bindE (collectPlaceholders [] (templateParts template)) (\<lambda>names.
     bindE (guardE (\<not> list_ex brace (literalText (templateParts template)))
       (RequestValidationError ''pathTemplate: unbalanced or malformed braces'')) (\<lambda>_. Inr names))"

text \<open>\<open>Object.entries\<close> of an object or an array.\<close>

definition ownEntries :: "jsval \<Rightarrow> (string \<times> slot) list option" where
  "ownEntries v = (case v of
     JObj _ ps \<Rightarrow> Some ps
   | JArr sl \<Rightarrow> Some (filter (\<lambda>(_, x). x \<noteq> Hole) (map (\<lambda>(i, x). (showNat i, x)) (enumerate 0 sl)))
   | _ \<Rightarrow> None)"

definition specIn :: "jsval \<Rightarrow> jsval" where
  "specIn spec = optField spec ''in''"

definition validateParamSpec :: "string list \<Rightarrow> string \<times> slot \<Rightarrow> client_exn + unit" where
  "validateParamSpec placeholders = (\<lambda>(key, sl). let spec = slot_value sl in
     bindE (guardE (placeholderNameOk key) (RequestValidationError ''params key'')) (\<lambda>_.
     bindE (guardE (objectProps spec \<noteq> None) (RequestValidationError ''params: expected an object'')) (\<lambda>_.
     bindE (guardE (specIn spec = JStr ''path'' \<or> specIn spec = JStr ''query'') (RequestValidationError ''params: in'')) (\<lambda>_.
     guardE (\<not> (specIn spec = JStr ''path'' \<and> key \<notin> set placeholders)) (RequestValidationError ''params: absent from pathTemplate'')))))"

definition validatePlaceholder :: "(string \<times> slot) list \<Rightarrow> string \<Rightarrow> client_exn + unit" where
  "validatePlaceholder ps name = guardE (specIn (js_get ps name) = JStr ''path'')
     (RequestValidationError ''pathTemplate: placeholder has no matching params entry'')"

definition validateDefinition :: "endpoint_definition option \<Rightarrow> client_exn + (string \<times> string list \<times> (string \<times> slot) list)" where
  "validateDefinition def = (case def of
     None \<Rightarrow> Inl (RequestValidationError ''spec: expected an options object'')
   | Some d \<Rightarrow>
       bindE (guardE (ed_method d \<in> JStr ` {''GET'', ''POST'', ''PUT'', ''PATCH'', ''DELETE''}) (RequestValidationError ''method'')) (\<lambda>_.
       bindE (case ed_pathTemplate d of
           JStr t \<Rightarrow> if t = [] then Inl (RequestValidationError ''pathTemplate'')
             else if hasForbiddenControlChar t then Inl (RequestValidationError ''pathTemplate: control characters are not allowed'') else Inr t
         | _ \<Rightarrow> Inl (RequestValidationError ''pathTemplate'')) (\<lambda>template.
       bindE (case ownEntries (ed_params d) of None \<Rightarrow> Inl (RequestValidationError ''params'') | Some ps \<Rightarrow> Inr ps) (\<lambda>ps.
       bindE (guardE (ed_buildBody d \<in> {JUndef, JFun}) (RequestValidationError ''buildBody'')) (\<lambda>_.
       bindE (guardE (case ed_bodyContentType d of JUndef \<Rightarrow> True | JStr s \<Rightarrow> s \<noteq> [] | _ \<Rightarrow> False) (RequestValidationError ''bodyContentType'')) (\<lambda>_.
       bindE (parsePathTemplate template) (\<lambda>placeholders.
       bindE (mapE (validateParamSpec placeholders) ps) (\<lambda>_.
       bindE (mapE (validatePlaceholder ps) placeholders) (\<lambda>_.
       Inr (template, placeholders, ps))))))))))"

subsection \<open>The path\<close>

definition assertSafePathParamValue :: "string \<Rightarrow> client_exn + unit" where
  "assertSafePathParamValue v =
     bindE (guardE (v \<noteq> []) (RequestValidationError ''path parameter value must be a non-empty string'')) (\<lambda>_.
     bindE (guardE (v \<noteq> ''.'' \<and> v \<noteq> ''..'') (RequestValidationError ''dot-segments are not allowed'')) (\<lambda>_.
     bindE (guardE (\<not> list_ex (\<lambda>c. c = CHR 0x2F \<or> c = CHR 0x5C) v) (RequestValidationError ''path traversal patterns are not allowed'')) (\<lambda>_.
     bindE (guardE (\<not> list_ex (\<lambda>c. c = CHR 0x3F \<or> c = CHR 0x23) v) (RequestValidationError ''query strings and fragments are not allowed'')) (\<lambda>_.
     guardE (\<not> hasForbiddenControlChar v) (RequestValidationError ''control characters are not allowed'')))))"

text \<open>What \<open>replace\<close> inserts: \<open>$$\<close>, \<open>$&\<close>, \<open>$`\<close> and \<open>$'\<close> stand for a dollar, the match and the text around it.\<close>

fun expandReplacement :: "string \<Rightarrow> string \<Rightarrow> string \<Rightarrow> string \<Rightarrow> string" where
  "expandReplacement pre mat post (c # d # v) =
     (if c = CHR 0x24 \<and> d = CHR 0x24 then c # expandReplacement pre mat post v
      else if c = CHR 0x24 \<and> d = CHR 0x26 then mat @ expandReplacement pre mat post v
      else if c = CHR 0x24 \<and> d = CHR 0x60 then pre @ expandReplacement pre mat post v
      else if c = CHR 0x24 \<and> d = CHR 0x27 then post @ expandReplacement pre mat post v
      else c # expandReplacement pre mat post (d # v))"
| "expandReplacement pre mat post v = v"

text \<open>The text before and after the first occurrence.\<close>

fun splitAtFirst :: "string \<Rightarrow> string \<Rightarrow> (string \<times> string) option" where
  "splitAtFirst p [] = (if p = [] then Some ([], []) else None)"
| "splitAtFirst p (c # cs) = (if js_prefix p (c # cs) then Some ([], drop (length p) (c # cs))
     else map_option (\<lambda>(a, b). (c # a, b)) (splitAtFirst p cs))"

definition replaceFirst :: "string \<Rightarrow> string \<Rightarrow> string \<Rightarrow> string" where
  "replaceFirst p v s = (case splitAtFirst p s of None \<Rightarrow> s
     | Some (pre, post) \<Rightarrow> pre @ expandReplacement pre p post v @ post)"

definition holeText :: "string \<Rightarrow> string" where
  "holeText name = CHR 0x7B # name @ [CHR 0x7D]"

fun resolvePath :: "string \<Rightarrow> (string \<times> jsval) list \<Rightarrow> string list \<Rightarrow> client_exn + string" where
  "resolvePath resolved params [] = Inr resolved"
| "resolvePath resolved params (name # names) = (case map_of params name of
     Some (JStr v) \<Rightarrow> bindE (assertSafePathParamValue v) (\<lambda>_. resolvePath (replaceFirst (holeText name) v resolved) params names)
   | _ \<Rightarrow> Inl (RequestValidationError ''missing required path param''))"

subsection \<open>The query\<close>

definition assertSafeQueryValue :: "string \<Rightarrow> client_exn + unit" where
  "assertSafeQueryValue v = guardE (\<not> list_ex (\<lambda>c. code_of c \<in> {0, 10, 13}) v)
     (RequestValidationError ''query param: CR, LF, and NUL are not allowed'')"

fun buildQuery :: "(string \<times> slot) list \<Rightarrow> (string \<times> slot) list \<Rightarrow> client_exn + (string \<times> slot) list" where
  "buildQuery params [] = Inr []"
| "buildQuery params ((name, sl) # spec) = (let s = slot_value sl; raw = js_get params name in
     if specIn s \<noteq> JStr ''query'' then buildQuery params spec
     else if raw = JUndef then (if optField s ''required'' = JBool True
       then Inl (RequestValidationError ''missing required query param'') else buildQuery params spec)
     else (case raw of
         JStr v \<Rightarrow> bindE (assertSafeQueryValue v) (\<lambda>_.
           bindE (buildQuery params spec) (\<lambda>qs. Inr ((name, Data (JStr v)) # qs)))
       | _ \<Rightarrow> Inl (RequestValidationError ''param: must be a string'')))"

subsection \<open>The call\<close>

definition mergeEntries :: "(string \<times> slot) list \<Rightarrow> (string \<times> slot) list \<Rightarrow> (string \<times> slot) list" where
  "mergeEntries new merged = foldl (\<lambda>hs (k, v). mapSet k v hs) merged new"

text \<open>The pairs \<open>forEach\<close> or \<open>Object.entries\<close> yield; \<open>null\<close> throws.\<close>

definition headerEntries :: "headers_init \<Rightarrow> client_exn + (string \<times> slot) list" where
  "headerEntries init = (case init of
     NoInit \<Rightarrow> Inr []
   | HeadersObject hs \<Rightarrow> Inr (map (\<lambda>(k, v). (k, Data (JStr v))) hs)
   | HeaderPairs entries \<Rightarrow> Inr (case ownEntries (JArr entries) of Some es \<Rightarrow> es | None \<Rightarrow> [])
   | HeaderRecord ps \<Rightarrow> Inr ps
   | OtherInit v \<Rightarrow> (case v of
         JNull \<Rightarrow> Inl (OtherError ''TypeError'')
       | JStr s \<Rightarrow> Inr (map (\<lambda>(i, c). (showNat i, Data (JStr [c]))) (enumerate 0 s))
       | _ \<Rightarrow> Inr (case ownEntries v of Some es \<Rightarrow> es | None \<Rightarrow> [])))"

definition endpointHeaders :: "endpoint_definition \<Rightarrow> request_body \<Rightarrow> endpoint_invoke_options option \<Rightarrow> client_exn + headers_init" where
  "endpointHeaders d body opts = (let given = (case opts of None \<Rightarrow> NoInit | Some o' \<Rightarrow> eo_headers o') in
     if given = NoInit \<and> ed_bodyContentType d = JUndef then Inr NoInit
     else bindE (headerEntries given) (\<lambda>es. Inr (HeaderRecord (mergeEntries es
       (if ed_bodyContentType d \<noteq> JUndef \<and> body \<noteq> ValueBody JUndef then [(''content-type'', Data (ed_bodyContentType d))] else [])))))"

fun pathValuesOf :: "(string \<times> slot) list \<Rightarrow> string list \<Rightarrow> client_exn + (string \<times> jsval) list" where
  "pathValuesOf params [] = Inr []"
| "pathValuesOf params (name # names) = (case js_get params name of
     JUndef \<Rightarrow> Inl (RequestValidationError ''missing required path param'')
   | JStr v \<Rightarrow> bindE (pathValuesOf params names) (\<lambda>vs. Inr ((name, JStr v) # vs))
   | _ \<Rightarrow> Inl (RequestValidationError ''param: must be a string''))"

text \<open>The options of the request an endpoint makes.\<close>

definition endpointOptions ::
  "endpoint_definition \<Rightarrow> string \<times> string list \<times> (string \<times> slot) list \<Rightarrow> jsval \<Rightarrow> request_body \<Rightarrow>
   endpoint_invoke_options option \<Rightarrow> client_exn + graph_request_options" where
  "endpointOptions d = (\<lambda>(template, names, spec) params body opts.
     case ownEntries params of
       None \<Rightarrow> Inl (RequestValidationError ''params must be an object'')
     | Some ps \<Rightarrow>
         bindE (guardE (list_all (\<lambda>(k, _). k \<in> fst ` set spec) ps) (RequestValidationError ''unknown param'')) (\<lambda>_.
         bindE (pathValuesOf ps names) (\<lambda>vals.
         bindE (resolvePath template vals names) (\<lambda>path.
         bindE (buildQuery ps spec) (\<lambda>q.
         bindE (if body = ValueBody JUndef then Inr body else if ed_buildBody d \<noteq> JUndef then ed_build d body else Inr body) (\<lambda>resolvedBody.
         bindE (endpointHeaders d resolvedBody opts) (\<lambda>hs.
         Inr \<lparr> go_method = ed_method d, go_path = PathUnits (unitsOf path), go_query = (if q = [] then None else Some q),
               go_body = resolvedBody, go_headers = hs,
               go_signal = (case opts of None \<Rightarrow> JUndef | Some o' \<Rightarrow> eo_signal o') \<rparr>)))))))"

definition defineEndpoint ::
  "endpoint_definition option \<Rightarrow> client_exn + ('w client_env \<Rightarrow> graph_client \<Rightarrow> jsval \<Rightarrow> request_body \<Rightarrow>
     endpoint_invoke_options option \<Rightarrow> ('w, jsval) cact)" where
  "defineEndpoint def = bindE (validateDefinition def) (\<lambda>checked.
     Inr (\<lambda>env client params body opts.
       bindA (liftA (case def of Some d \<Rightarrow> endpointOptions d checked params body opts
           | None \<Rightarrow> Inl (RequestValidationError ''spec: expected an options object'')))
         (\<lambda>ro. clientRequest env client (Some ro))))"

subsection \<open>Filling a template\<close>

definition partText :: "part \<Rightarrow> string" where
  "partText p = (case p of Lit s \<Rightarrow> s | Hole_of n \<Rightarrow> holeText n)"

abbreviation partsText :: "part list \<Rightarrow> string" where
  "partsText ps \<equiv> concat (map partText ps)"

definition plainText :: "string \<Rightarrow> bool" where
  "plainText s = list_all (\<lambda>c. \<not> brace c) s"

definition okPart :: "part \<Rightarrow> bool" where
  "okPart p = (case p of Lit s \<Rightarrow> plainText s | Hole_of n \<Rightarrow> plainText n)"

definition fillPart :: "(string \<Rightarrow> string option) \<Rightarrow> part \<Rightarrow> part" where
  "fillPart vals p = (case p of Lit s \<Rightarrow> Lit s
     | Hole_of n \<Rightarrow> (case vals n of None \<Rightarrow> Hole_of n | Some v \<Rightarrow> Lit v))"

text \<open>The template with every placeholder replaced by its value.\<close>

definition fillTemplate :: "(string \<Rightarrow> string option) \<Rightarrow> string \<Rightarrow> string" where
  "fillTemplate vals template = partsText (map (fillPart vals) (templateParts template))"

lemma partText_simps [simp]: "partText (Lit s) = s" "partText (Hole_of n) = holeText n"
  by (simp_all add: partText_def)

lemma templateParts_cases:
  obtains (hole) n ds where "c # cs = holeText n @ ds" "plainText n" "templateParts (c # cs) = Hole_of n # templateParts ds"
  | (lit) "templateParts (c # cs) = Lit [c] # templateParts cs"
proof (cases "\<exists>ds. c = CHR 0x7B \<and> dropWhile (\<lambda>x. \<not> brace x) cs = CHR 0x7D # ds")
  case True
  then obtain ds where c: "c = CHR 0x7B" and d: "dropWhile (\<lambda>x. \<not> brace x) cs = CHR 0x7D # ds" by blast
  have e: "cs = takeWhile (\<lambda>x. \<not> brace x) cs @ CHR 0x7D # ds" using d takeWhile_dropWhile_id [of "\<lambda>x. \<not> brace x" cs] by metis
  have "plainText (takeWhile (\<lambda>x. \<not> brace x) cs)"
    unfolding plainText_def list_all_iff by (blast dest: set_takeWhileD)
  moreover have "templateParts (c # cs) = Hole_of (takeWhile (\<lambda>x. \<not> brace x) cs) # templateParts ds" using c d by simp
  moreover have "c # cs = holeText (takeWhile (\<lambda>x. \<not> brace x) cs) @ ds" using c e by (simp add: holeText_def)
  ultimately show thesis by (rule hole [rotated])
next
  case False
  then have "templateParts (c # cs) = Lit [c] # templateParts cs" by (auto split: list.split)
  then show thesis by (rule lit)
qed

declare templateParts.simps(2) [simp del]

lemma templateParts_sound: "partsText (templateParts t) = t \<and> (\<forall>n. Hole_of n \<in> set (templateParts t) \<longrightarrow> plainText n)"
proof (induction t rule: length_induct)
  case (1 t)
  show ?case
  proof (cases t)
    case (Cons c cs)
    show ?thesis
    proof (cases c cs rule: templateParts_cases)
      case (hole n ds)
      have "length ds < length t" using hole(1) Cons by (simp add: holeText_def)
      then have "partsText (templateParts ds) = ds" "\<forall>n. Hole_of n \<in> set (templateParts ds) \<longrightarrow> plainText n" using 1 by blast+
      then show ?thesis using hole Cons by simp
    next
      case lit
      moreover have "length cs < length t" using Cons by simp
      then have "partsText (templateParts cs) = cs" "\<forall>n. Hole_of n \<in> set (templateParts cs) \<longrightarrow> plainText n" using 1 by blast+
      ultimately show ?thesis using Cons by simp
    qed
  qed simp
qed

lemmas templateParts_text = templateParts_sound [THEN conjunct1]

lemma templateParts_holes: "Hole_of n \<in> set (templateParts t) \<Longrightarrow> plainText n"
  using templateParts_sound by blast

lemma splitAtFirst_skip:
  "list_all (\<lambda>c. c \<noteq> CHR 0x7B) s \<Longrightarrow>
    splitAtFirst (holeText n) (s @ t) = map_option (\<lambda>(a, b). (s @ a, b)) (splitAtFirst (holeText n) t)"
proof (induction s)
  case (Cons c s)
  then show ?case by (auto simp: holeText_def option.map_comp comp_def case_prod_beta)
qed (simp add: option.map_id)

lemma hole_prefix:
  "plainText n \<Longrightarrow> plainText m \<Longrightarrow> js_prefix (n @ [CHR 0x7D]) (m @ CHR 0x7D # t) \<longleftrightarrow> n = m"
proof (induction n arbitrary: m)
  case Nil then show ?case by (cases m) (auto simp: plainText_def brace_def)
next
  case (Cons c n) then show ?case by (cases m) (auto simp: plainText_def brace_def)
qed

lemma splitAtFirst_hole:
  assumes "list_all okPart ps" "Hole_of n \<notin> set ps" "plainText n"
  shows "splitAtFirst (holeText n) (partsText ps @ holeText n @ t) = Some (partsText ps, t)"
  using assms(1,2)
proof (induction ps)
  case Nil
  then show ?case using hole_prefix [OF assms(3,3)] by (simp add: holeText_def)
next
  case (Cons p ps)
  show ?case
  proof (cases p)
    case (Lit s)
    then have "list_all (\<lambda>c. c \<noteq> CHR 0x7B) s" using Cons.prems by (auto simp: okPart_def plainText_def brace_def list_all_iff)
    then show ?thesis using splitAtFirst_skip [of s n] Cons Lit by simp
  next
    case (Hole_of m)
    have m: "plainText m" "n \<noteq> m" using Cons.prems Hole_of by (auto simp: okPart_def)
    then have "list_all (\<lambda>c. c \<noteq> CHR 0x7B) (m @ [CHR 0x7D])" by (auto simp: plainText_def brace_def list_all_iff)
    then have "splitAtFirst (holeText n) ((m @ [CHR 0x7D]) @ partsText ps @ holeText n @ t) = Some ((m @ [CHR 0x7D]) @ partsText ps, t)"
      using splitAtFirst_skip [of "m @ [CHR 0x7D]" n] Cons by simp
    then show ?thesis using hole_prefix [OF assms(3) m(1)] m(2) Hole_of by (simp add: holeText_def)
  qed
qed

definition holesOf :: "part list \<Rightarrow> string list" where
  "holesOf ps = concat (map (\<lambda>p. case p of Lit _ \<Rightarrow> [] | Hole_of n \<Rightarrow> [n]) ps)"

lemma holesOf_simps [simp]: "holesOf [] = []" "holesOf (Lit s # ps) = holesOf ps" "holesOf (Hole_of n # ps) = n # holesOf ps"
  "holesOf (ps @ qs) = holesOf ps @ holesOf qs"
  by (simp_all add: holesOf_def)

lemma set_holesOf: "n \<in> set (holesOf ps) \<longleftrightarrow> Hole_of n \<in> set ps"
  by (auto simp: holesOf_def split: part.splits)

lemma collectPlaceholders_holes:
  "collectPlaceholders seen ps = Inr names \<Longrightarrow> distinct seen \<Longrightarrow> names = rev seen @ holesOf ps \<and> distinct names"
  by (induction seen ps rule: collectPlaceholders.induct) (auto split: if_splits)

text \<open>A value that \<open>replace\<close> inserts as it is.\<close>

definition verbatimValue :: "string \<Rightarrow> bool" where
  "verbatimValue v = list_all (\<lambda>c. \<not> brace c \<and> c \<noteq> CHR 0x24) v"

lemma expand_verbatim: "verbatimValue v \<Longrightarrow> expandReplacement pre mat post v = v"
  by (induction pre mat post v rule: expandReplacement.induct) (auto simp: verbatimValue_def)

lemma fillPart_simps [simp]: "fillPart vals (Lit s) = Lit s"
  "fillPart vals (Hole_of n) = (case vals n of None \<Rightarrow> Hole_of n | Some v \<Rightarrow> Lit v)"
  by (simp_all add: fillPart_def)

lemma fill_absent: "Hole_of n \<notin> set ps \<Longrightarrow> map (fillPart [n \<mapsto> v]) ps = ps"
proof (induction ps)
  case (Cons p ps) then show ?case by (cases p) auto
qed simp

lemma replaceFirst_hole:
  assumes "list_all okPart ps" "distinct (holesOf ps)" "Hole_of n \<in> set ps" "verbatimValue v"
  shows "replaceFirst (holeText n) v (partsText ps) = partsText (map (fillPart [n \<mapsto> v]) ps)"
proof -
  obtain pre post where ps: "ps = pre @ Hole_of n # post" "Hole_of n \<notin> set pre" using split_list_first [OF assms(3)] by blast
  have "Hole_of n \<notin> set post" using assms(2) ps(1) by (auto simp: set_holesOf [symmetric])
  moreover have "plainText n" "list_all okPart pre" using assms(1) ps(1) by (auto simp: okPart_def)
  ultimately show ?thesis
    using ps splitAtFirst_hole [of pre n "partsText post"] expand_verbatim [OF assms(4)] fill_absent [of n pre v] fill_absent [of n post v]
    by (simp add: replaceFirst_def)
qed

lemma fill_keeps:
  assumes "list_all okPart ps" "verbatimValue v"
  shows "list_all okPart (map (fillPart [n \<mapsto> v]) ps)" "holesOf (map (fillPart [n \<mapsto> v]) ps) = filter (\<lambda>m. m \<noteq> n) (holesOf ps)"
proof -
  have "plainText v" using assms(2) by (auto simp: verbatimValue_def plainText_def list_all_iff)
  then show "list_all okPart (map (fillPart [n \<mapsto> v]) ps)"
    using assms(1) by (induction ps) (auto simp: okPart_def fillPart_def split: part.splits)
  show "holesOf (map (fillPart [n \<mapsto> v]) ps) = filter (\<lambda>m. m \<noteq> n) (holesOf ps)"
  proof (induction ps)
    case (Cons p ps) then show ?case by (cases p) auto
  qed simp
qed

definition stringValue :: "(string \<times> jsval) list \<Rightarrow> string \<Rightarrow> string option" where
  "stringValue params n = (case map_of params n of Some (JStr v) \<Rightarrow> Some v | _ \<Rightarrow> None)"

lemma resolvePath_fills:
  assumes "resolvePath (partsText ps) params names = Inr r" "list_all okPart ps" "distinct (holesOf ps)" "distinct names"
    "set names \<subseteq> set (holesOf ps)" "\<forall>n v. stringValue params n = Some v \<longrightarrow> verbatimValue v"
  shows "r = partsText (map (fillPart (\<lambda>n. if n \<in> set names then stringValue params n else None)) ps)
    \<and> (\<forall>n \<in> set names. \<exists>v. stringValue params n = Some v \<and> assertSafePathParamValue v = Inr ())"
  using assms(1-5)
proof (induction names arbitrary: ps)
  case Nil
  have "map (fillPart (\<lambda>n. None)) ps = ps" by (induction ps) (auto simp: fillPart_def split: part.split)
  then show ?case using Nil by simp
next
  case (Cons n names)
  obtain v where v: "stringValue params n = Some v" "assertSafePathParamValue v = Inr ()"
    "resolvePath (replaceFirst (holeText n) v (partsText ps)) params names = Inr r"
    using Cons.prems(1) by (auto simp: stringValue_def res_iff split: option.splits jsval.splits)
  have vv: "verbatimValue v" using v(1) assms(6) by blast
  let ?ps = "map (fillPart [n \<mapsto> v]) ps"
  have "Hole_of n \<in> set ps" using Cons.prems(5) by (simp add: set_holesOf [symmetric])
  then have run: "resolvePath (partsText ?ps) params names = Inr r"
    using v(3) replaceFirst_hole [OF Cons.prems(2,3) _ vv] by simp
  have sub: "set names \<subseteq> set (holesOf ?ps)" using Cons.prems(4,5) fill_keeps(2) [OF Cons.prems(2) vv] by auto
  have d: "distinct (holesOf ?ps)" using Cons.prems(3) fill_keeps(2) [OF Cons.prems(2) vv] by simp
  have ih: "r = partsText (map (fillPart (\<lambda>n. if n \<in> set names then stringValue params n else None)) ?ps)
    \<and> (\<forall>n \<in> set names. \<exists>v. stringValue params n = Some v \<and> assertSafePathParamValue v = Inr ())"
    using Cons.IH [OF run fill_keeps(1) [OF Cons.prems(2) vv] d _ sub] Cons.prems(4) by simp
  have "fillPart (\<lambda>n. if n \<in> set names then stringValue params n else None) (fillPart [n \<mapsto> v] p)
      = fillPart (\<lambda>m. if m \<in> set (n # names) then stringValue params m else None) p" for p
    using v(1) by (cases p) auto
  then show ?case using ih v(1,2) by (simp add: comp_def)
qed

lemma validateDefinition_holes:
  assumes "validateDefinition (Some d) = Inr (template, names, spec)"
  shows "names = holesOf (templateParts template) \<and> distinct names \<and> list_all okPart (templateParts template)"
proof -
  have p: "parsePathTemplate template = Inr names" using assms by (auto simp: validateDefinition_def res_iff)
  then have c: "collectPlaceholders [] (templateParts template) = Inr names"
    and l: "\<not> list_ex brace (literalText (templateParts template))" by (auto simp: parsePathTemplate_def res_iff)
  have "okPart q" if "q \<in> set (templateParts template)" for q
  proof (cases q)
    case (Lit s)
    then show ?thesis using l that by (auto simp: okPart_def plainText_def literalText_def list_all_iff list_ex_iff split: part.splits)
  next
    case (Hole_of n)
    then show ?thesis using templateParts_holes that by (simp add: okPart_def)
  qed
  then show ?thesis using collectPlaceholders_holes [OF c] by (auto simp: list_all_iff)
qed

lemma pathValuesOf_values:
  "pathValuesOf ps names = Inr vals \<Longrightarrow> stringValue vals n = (if n \<in> set names then (case js_get ps n of JStr v \<Rightarrow> Some v | _ \<Rightarrow> None) else None)"
  by (induction names arbitrary: vals) (auto simp: stringValue_def res_iff split: jsval.splits)

text \<open>The value a caller gave for a path parameter.\<close>

definition callerValue :: "(string \<times> slot) list \<Rightarrow> string \<Rightarrow> string option" where
  "callerValue ps n = (case js_get ps n of JStr v \<Rightarrow> Some v | _ \<Rightarrow> None)"

lemma safe_path_value:
  assumes "assertSafePathParamValue v = Inr ()"
  shows "v \<noteq> [] \<and> v \<noteq> ''.'' \<and> v \<noteq> ''..''
    \<and> (\<forall>c \<in> set v. c \<notin> {CHR 0x2F, CHR 0x5C, CHR 0x3F, CHR 0x23} \<and> 32 \<le> (of_char c :: nat) \<and> (of_char c :: nat) \<noteq> 127)"
  using assms by (auto simp: assertSafePathParamValue_def res_iff list_ex_iff hasForbiddenControlChar_def code_of_def not_less)

text \<open>C36: A checked endpoint asks for its path template with every placeholder replaced by the caller's value, provided
  the values hold no dollar sign and no brace.  Each value is one segment: it is not empty, not a dot-segment,
  and holds no slash, backslash, question mark, hash or control character (below 32, or 127).\<close>

theorem endpoint_fills_its_template:
  assumes "validateDefinition (Some d) = Inr (template, names, spec)"
    "endpointOptions d (template, names, spec) params body opts = Inr ro" "ownEntries params = Some ps"
    "\<forall>n \<in> set names. \<forall>v. callerValue ps n = Some v \<longrightarrow> verbatimValue v"
  shows "go_path ro = PathUnits (unitsOf (fillTemplate (callerValue ps) template))
    \<and> (\<forall>n. Hole_of n \<in> set (templateParts template) \<longrightarrow>
         (\<exists>v. callerValue ps n = Some v \<and> v \<noteq> [] \<and> v \<noteq> ''.'' \<and> v \<noteq> ''..''
            \<and> (\<forall>c \<in> set v. c \<notin> {CHR 0x2F, CHR 0x5C, CHR 0x3F, CHR 0x23} \<and> 32 \<le> (of_char c :: nat) \<and> (of_char c :: nat) \<noteq> 127)))"
proof -
  note h = validateDefinition_holes [OF assms(1)]
  obtain vals path where p: "pathValuesOf ps names = Inr vals" "resolvePath template vals names = Inr path"
    "go_path ro = PathUnits (unitsOf path)"
    using assms(2,3) by (auto simp: endpointOptions_def res_iff)
  have sv: "stringValue vals n = (if n \<in> set names then callerValue ps n else None)" for n
    using pathValuesOf_values [OF p(1)] by (simp add: callerValue_def)
  have r: "path = partsText (map (fillPart (\<lambda>n. if n \<in> set names then stringValue vals n else None)) (templateParts template))
    \<and> (\<forall>n \<in> set names. \<exists>v. stringValue vals n = Some v \<and> assertSafePathParamValue v = Inr ())"
  proof (rule resolvePath_fills)
    show "resolvePath (partsText (templateParts template)) vals names = Inr path" using p(2) by (simp add: templateParts_text)
    show "\<forall>n v. stringValue vals n = Some v \<longrightarrow> verbatimValue v" using sv assms(4) by auto
  qed (use h in auto)
  have filled: "map (fillPart (\<lambda>n. if n \<in> set names then stringValue vals n else None)) (templateParts template)
      = map (fillPart (callerValue ps)) (templateParts template)"
  proof (rule map_cong [OF refl])
    fix q assume q: "q \<in> set (templateParts template)"
    show "fillPart (\<lambda>n. if n \<in> set names then stringValue vals n else None) q = fillPart (callerValue ps) q"
    proof (cases q)
      case (Hole_of n)
      then have "n \<in> set names" using h q by (simp add: set_holesOf)
      then show ?thesis using sv Hole_of by simp
    qed simp
  qed
  have "path = fillTemplate (callerValue ps) template" using r filled by (simp add: fillTemplate_def)
  then have path: "go_path ro = PathUnits (unitsOf (fillTemplate (callerValue ps) template))" using p(3) by simp
  have given: "\<exists>v. callerValue ps n = Some v \<and> assertSafePathParamValue v = Inr ()" if "Hole_of n \<in> set (templateParts template)" for n
    using r sv h that by (auto simp: set_holesOf [symmetric])
  show ?thesis
  proof (rule conjI [OF path], intro allI impI)
    fix n assume "Hole_of n \<in> set (templateParts template)"
    from given [OF this] obtain v where "callerValue ps n = Some v" "assertSafePathParamValue v = Inr ()" by blast
    then show "\<exists>v. callerValue ps n = Some v \<and> v \<noteq> [] \<and> v \<noteq> ''.'' \<and> v \<noteq> ''..''
      \<and> (\<forall>c \<in> set v. c \<notin> {CHR 0x2F, CHR 0x5C, CHR 0x3F, CHR 0x23} \<and> 32 \<le> (of_char c :: nat) \<and> (of_char c :: nat) \<noteq> 127)"
      by (intro exI [of _ v] conjI [OF _ safe_path_value])
  qed
qed

subsection \<open>Samples\<close>

definition sampleEndpoint :: endpoint_definition where
  "sampleEndpoint = \<lparr> ed_method = JStr ''GET'', ed_pathTemplate = JStr ''/{a}/m'',
     ed_params = JObj ObjectProto [(''a'', Data (JObj ObjectProto [(''in'', Data (JStr ''path''))]))],
     ed_buildBody = JUndef, ed_build = Inr, ed_bodyContentType = JUndef \<rparr>"

definition sampleParams :: "string \<Rightarrow> jsval" where
  "sampleParams v = JObj ObjectProto [(''a'', Data (JStr v))]"

lemma sample_definition: "validateDefinition (Some sampleEndpoint) = Inr (''/{a}/m'', [''a''],
    [(''a'', Data (JObj ObjectProto [(''in'', Data (JStr ''path''))]))])"
  by code_simp

definition sampleCall :: "string \<Rightarrow> client_exn + graph_request_options" where
  "sampleCall v = endpointOptions sampleEndpoint (''/{a}/m'', [''a''],
     [(''a'', Data (JObj ObjectProto [(''in'', Data (JStr ''path''))]))]) (sampleParams v) (ValueBody JUndef) None"

definition samplePathOf :: "string \<Rightarrow> path_value option" where
  "samplePathOf v = (case sampleCall v of Inl _ \<Rightarrow> None | Inr ro \<Rightarrow> Some (go_path ro))"

text \<open>The value \<open>$'\<close> has no slash and yet fills its placeholder with the rest of the template.\<close>

lemma dollar_value_spans_segments: "samplePathOf [CHR 0x24, CHR 0x27] = Some (PathUnits (unitsOf ''//m/m''))"
  by code_simp

lemma sample_call_path: "samplePathOf ''7'' = Some (PathUnits (unitsOf ''/7/m''))"
  by code_simp

lemma sample_call_refused:
  "sampleCall [CHR ''7'', CHR 0x2F, CHR ''8''] = Inl (RequestValidationError ''path traversal patterns are not allowed'')"
  by code_simp

theorem endpoint_fills_its_template_witness:
  "(\<exists>ro. sampleCall ''7'' = Inr ro \<and> go_path ro = PathUnits (unitsOf (fillTemplate (callerValue [(''a'', Data (JStr ''7''))]) ''/{a}/m'')))
   \<and> sampleCall [CHR ''7'', CHR 0x2F, CHR ''8''] = Inl (RequestValidationError ''path traversal patterns are not allowed'')"
proof -
  obtain ro where ro: "sampleCall ''7'' = Inr ro" using sample_call_path by (auto simp: samplePathOf_def split: sum.splits)
  have "\<forall>n \<in> set [''a'']. \<forall>v. callerValue [(''a'', Data (JStr ''7''))] n = Some v \<longrightarrow> verbatimValue v"
    by (simp add: callerValue_def js_get_def slot_value_def verbatimValue_def brace_def)
  then show ?thesis
    using endpoint_fills_its_template [OF sample_definition ro [unfolded sampleCall_def]] ro sample_call_refused
    by (simp add: sampleParams_def ownEntries_def)
qed

end
