(* ===== verification/Message_Validation.thy ===== *)
theory Message_Validation
  imports Endpoint_Definition
begin

section \<open>Validation of outgoing messages (packages/graph/src/endpoints/messages/validation.ts)\<close>

text \<open>
  The guards the message builders share.  A refusal is the client's \<open>RequestValidationError\<close> with the
  helper's name and a short reason.  Values whose inspection throws (proxies) and own properties named
  \<open>__proto__\<close> do not occur; the URL parser is the function \<open>protocolOf\<close>, which gives the protocol of an
  absolute URL.  A payload under construction is the list of its properties, in order of assignment.
\<close>

subsection \<open>Limits\<close>

definition GRAPH_MESSAGES_TEXT_BODY_MAX_LENGTH :: nat where "GRAPH_MESSAGES_TEXT_BODY_MAX_LENGTH = 4096"
definition GRAPH_MESSAGES_RECIPIENT_MAX_DIGITS :: nat where "GRAPH_MESSAGES_RECIPIENT_MAX_DIGITS = 15"
definition GRAPH_MESSAGES_REPLY_TO_MESSAGE_ID_MAX_LENGTH :: nat where "GRAPH_MESSAGES_REPLY_TO_MESSAGE_ID_MAX_LENGTH = 256"
definition GRAPH_MESSAGES_MEDIA_ID_MAX_LENGTH :: nat where "GRAPH_MESSAGES_MEDIA_ID_MAX_LENGTH = 2048"
definition GRAPH_MESSAGES_MEDIA_LINK_MAX_LENGTH :: nat where "GRAPH_MESSAGES_MEDIA_LINK_MAX_LENGTH = 2048"
definition GRAPH_MESSAGES_MEDIA_CAPTION_MAX_LENGTH :: nat where "GRAPH_MESSAGES_MEDIA_CAPTION_MAX_LENGTH = 1024"
definition GRAPH_MESSAGES_DOCUMENT_FILENAME_MAX_LENGTH :: nat where "GRAPH_MESSAGES_DOCUMENT_FILENAME_MAX_LENGTH = 256"
definition GRAPH_MESSAGES_GENERAL_TEXT_MAX_LENGTH :: nat where "GRAPH_MESSAGES_GENERAL_TEXT_MAX_LENGTH = 1024"
definition GRAPH_MESSAGES_SHORT_LABEL_MAX_LENGTH :: nat where "GRAPH_MESSAGES_SHORT_LABEL_MAX_LENGTH = 60"
definition GRAPH_MESSAGES_BUTTON_TITLE_MAX_LENGTH :: nat where "GRAPH_MESSAGES_BUTTON_TITLE_MAX_LENGTH = 20"
definition GRAPH_MESSAGES_BUTTON_ID_MAX_LENGTH :: nat where "GRAPH_MESSAGES_BUTTON_ID_MAX_LENGTH = 256"
definition GRAPH_MESSAGES_SECTION_TITLE_MAX_LENGTH :: nat where "GRAPH_MESSAGES_SECTION_TITLE_MAX_LENGTH = 24"
definition GRAPH_MESSAGES_ROW_TITLE_MAX_LENGTH :: nat where "GRAPH_MESSAGES_ROW_TITLE_MAX_LENGTH = 24"
definition GRAPH_MESSAGES_ROW_DESCRIPTION_MAX_LENGTH :: nat where "GRAPH_MESSAGES_ROW_DESCRIPTION_MAX_LENGTH = 72"
definition GRAPH_MESSAGES_MAX_REPLY_BUTTONS :: nat where "GRAPH_MESSAGES_MAX_REPLY_BUTTONS = 3"
definition GRAPH_MESSAGES_MAX_LIST_SECTIONS :: nat where "GRAPH_MESSAGES_MAX_LIST_SECTIONS = 10"
definition GRAPH_MESSAGES_MAX_LIST_ROWS :: nat where "GRAPH_MESSAGES_MAX_LIST_ROWS = 10"
definition GRAPH_MESSAGES_MAX_CONTACTS :: nat where "GRAPH_MESSAGES_MAX_CONTACTS = 257"
definition GRAPH_MESSAGES_MAX_PRODUCT_ITEMS :: nat where "GRAPH_MESSAGES_MAX_PRODUCT_ITEMS = 30"
definition GRAPH_MESSAGES_GROUP_ID_MAX_LENGTH :: nat where "GRAPH_MESSAGES_GROUP_ID_MAX_LENGTH = 256"
definition GRAPH_MESSAGES_VOICE_CALL_DISPLAY_TEXT_MAX_LENGTH :: nat where "GRAPH_MESSAGES_VOICE_CALL_DISPLAY_TEXT_MAX_LENGTH = 20"
definition GRAPH_MESSAGES_VOICE_CALL_TTL_MINUTES_MIN :: int where "GRAPH_MESSAGES_VOICE_CALL_TTL_MINUTES_MIN = 1"
definition GRAPH_MESSAGES_VOICE_CALL_TTL_MINUTES_MAX :: int where "GRAPH_MESSAGES_VOICE_CALL_TTL_MINUTES_MAX = 43200"
definition GRAPH_MESSAGES_VOICE_CALL_PAYLOAD_MAX_LENGTH :: nat where "GRAPH_MESSAGES_VOICE_CALL_PAYLOAD_MAX_LENGTH = 512"

lemmas message_limits = GRAPH_MESSAGES_TEXT_BODY_MAX_LENGTH_def GRAPH_MESSAGES_RECIPIENT_MAX_DIGITS_def
  GRAPH_MESSAGES_REPLY_TO_MESSAGE_ID_MAX_LENGTH_def GRAPH_MESSAGES_MEDIA_ID_MAX_LENGTH_def
  GRAPH_MESSAGES_MEDIA_LINK_MAX_LENGTH_def GRAPH_MESSAGES_MEDIA_CAPTION_MAX_LENGTH_def
  GRAPH_MESSAGES_DOCUMENT_FILENAME_MAX_LENGTH_def GRAPH_MESSAGES_GENERAL_TEXT_MAX_LENGTH_def
  GRAPH_MESSAGES_SHORT_LABEL_MAX_LENGTH_def GRAPH_MESSAGES_BUTTON_TITLE_MAX_LENGTH_def
  GRAPH_MESSAGES_BUTTON_ID_MAX_LENGTH_def GRAPH_MESSAGES_SECTION_TITLE_MAX_LENGTH_def
  GRAPH_MESSAGES_ROW_TITLE_MAX_LENGTH_def GRAPH_MESSAGES_ROW_DESCRIPTION_MAX_LENGTH_def
  GRAPH_MESSAGES_MAX_REPLY_BUTTONS_def GRAPH_MESSAGES_MAX_LIST_SECTIONS_def GRAPH_MESSAGES_MAX_LIST_ROWS_def
  GRAPH_MESSAGES_MAX_CONTACTS_def GRAPH_MESSAGES_MAX_PRODUCT_ITEMS_def GRAPH_MESSAGES_GROUP_ID_MAX_LENGTH_def
  GRAPH_MESSAGES_VOICE_CALL_DISPLAY_TEXT_MAX_LENGTH_def GRAPH_MESSAGES_VOICE_CALL_TTL_MINUTES_MIN_def
  GRAPH_MESSAGES_VOICE_CALL_TTL_MINUTES_MAX_def GRAPH_MESSAGES_VOICE_CALL_PAYLOAD_MAX_LENGTH_def

subsection \<open>Strings and recipients\<close>

type_synonym payload = "(string \<times> jsval) list"

definition invalidInput :: "string \<Rightarrow> string \<Rightarrow> client_exn + 'a" where
  "invalidInput helper reason = Inl (RequestValidationError (''Invalid '' @ helper @ '' input: '' @ reason))"

definition need :: "bool \<Rightarrow> string \<Rightarrow> string \<Rightarrow> client_exn + unit" where
  "need ok helper reason = (if ok then Inr () else invalidInput helper reason)"

definition isPlainOptionsObject :: "jsval \<Rightarrow> (string \<times> slot) list option" where
  "isPlainOptionsObject v = (case v of JObj _ ps \<Rightarrow> Some ps | _ \<Rightarrow> None)"

definition nonBlankText :: "string \<Rightarrow> bool" where
  "nonBlankText s = (s \<noteq> [] \<and> js_trim s \<noteq> [])"

definition addressShaped :: "string \<Rightarrow> bool" where
  "addressShaped s = list_ex (\<lambda>c. c \<in> {CHR ''/'', CHR 0x5C, CHR ''?'', CHR ''#'', CHR '':'', CHR ''@''}) s"

definition withoutPlus :: "string \<Rightarrow> string" where
  "withoutPlus s = (case s of [] \<Rightarrow> [] | c # cs \<Rightarrow> if c = CHR ''+'' then cs else s)"

definition phoneShaped :: "string \<Rightarrow> bool" where
  "phoneShaped s = (let d = withoutPlus s
     in 1 \<le> length d \<and> length d \<le> GRAPH_MESSAGES_RECIPIENT_MAX_DIGITS \<and> list_all is_digit d)"

definition assertValidGroupId :: "string \<Rightarrow> jsval \<Rightarrow> client_exn + string" where
  "assertValidGroupId helper v = (case v of
     JStr s \<Rightarrow>
       bindE (need (nonBlankText s) helper ''to must be a non-empty group id string'') (\<lambda>_.
       bindE (need (\<not> hasControlChars s) helper ''group to must not contain control characters'') (\<lambda>_.
       bindE (need (\<not> addressShaped s) helper ''group to must be an opaque id'') (\<lambda>_.
       bindE (need (length s \<le> GRAPH_MESSAGES_GROUP_ID_MAX_LENGTH) helper ''group to is too long'') (\<lambda>_.
       bindE (need (\<not> phoneShaped s) helper ''recipientType group requires a group-id-shaped to'') (\<lambda>_. Inr s)))))
   | _ \<Rightarrow> invalidInput helper ''to must be a group id string'')"

definition assertValidRecipient :: "string \<Rightarrow> jsval \<Rightarrow> client_exn + string" where
  "assertValidRecipient helper v = (case v of
     JStr s \<Rightarrow>
       bindE (need (nonBlankText s) helper ''to must be a non-empty phone-number string'') (\<lambda>_.
       bindE (need (\<not> hasControlChars s) helper ''to must not contain control characters'') (\<lambda>_.
       bindE (need (\<not> addressShaped s) helper ''to must be a phone-number string'') (\<lambda>_.
       bindE (need (phoneShaped s) helper ''to must be E.164-ish digits'') (\<lambda>_. Inr s))))
   | _ \<Rightarrow> invalidInput helper ''to must be a phone-number string'')"

definition assertRecipientType :: "string \<Rightarrow> jsval \<Rightarrow> client_exn + string option" where
  "assertRecipientType helper v =
     (if v = JUndef then Inr None
      else if v = JStr ''individual'' then Inr (Some ''individual'')
      else if v = JStr ''group'' then Inr (Some ''group'')
      else invalidInput helper ''recipientType must be individual or group'')"

definition assertMessageRecipient :: "string \<Rightarrow> (string \<times> slot) list \<Rightarrow> client_exn + string \<times> string option" where
  "assertMessageRecipient helper r = bindE (assertRecipientType helper (js_get r ''recipientType'')) (\<lambda>rt.
     if rt = Some ''group'' then bindE (assertValidGroupId helper (js_get r ''to'')) (\<lambda>t. Inr (t, rt))
     else bindE (assertValidRecipient helper (js_get r ''to'')) (\<lambda>t. Inr (t, rt)))"

definition applyRecipientType :: "string option \<Rightarrow> payload \<Rightarrow> payload" where
  "applyRecipientType rt p = p @ (case rt of None \<Rightarrow> [] | Some t \<Rightarrow> [(''recipient_type'', JStr t)])"

definition rejectGroupRecipient :: "string \<Rightarrow> (string \<times> slot) list \<Rightarrow> string \<Rightarrow> client_exn + unit" where
  "rejectGroupRecipient helper r reason = bindE (assertRecipientType helper (js_get r ''recipientType'')) (\<lambda>rt.
     need (rt \<noteq> Some ''group'') helper (reason @ '' is not supported for group recipients''))"

definition assertValidText :: "jsval \<Rightarrow> client_exn + string" where
  "assertValidText v = (case v of
     JStr s \<Rightarrow>
       bindE (need (nonBlankText s) ''sendText'' ''text must be a non-empty string'') (\<lambda>_.
       bindE (need (length s \<le> GRAPH_MESSAGES_TEXT_BODY_MAX_LENGTH) ''sendText'' ''text is too long'') (\<lambda>_. Inr s))
   | _ \<Rightarrow> invalidInput ''sendText'' ''text must be a string'')"

definition assertNonEmptyControlFreeString :: "string \<Rightarrow> string \<Rightarrow> nat \<Rightarrow> jsval \<Rightarrow> client_exn + string" where
  "assertNonEmptyControlFreeString helper field maxLength v = (case v of
     JStr s \<Rightarrow>
       bindE (need (nonBlankText s) helper (field @ '' must be non-empty'')) (\<lambda>_.
       bindE (need (\<not> hasControlChars s) helper (field @ '' must not contain control characters'')) (\<lambda>_.
       bindE (need (length s \<le> maxLength) helper (field @ '' is too long'')) (\<lambda>_. Inr s)))
   | _ \<Rightarrow> invalidInput helper (field @ '' must be a string''))"

definition assertValidReplyToMessageId :: "jsval \<Rightarrow> client_exn + string" where
  "assertValidReplyToMessageId v = (case v of
     JStr s \<Rightarrow>
       bindE (need (nonBlankText s) ''sendText'' ''replyToMessageId must be non-empty when provided'') (\<lambda>_.
       bindE (need (\<not> hasControlChars s) ''sendText'' ''replyToMessageId must not contain control characters'') (\<lambda>_.
       bindE (need (length s \<le> GRAPH_MESSAGES_REPLY_TO_MESSAGE_ID_MAX_LENGTH) ''sendText'' ''replyToMessageId is too long'') (\<lambda>_. Inr s)))
   | _ \<Rightarrow> invalidInput ''sendText'' ''replyToMessageId must be a string when provided'')"

definition assertNoUnsupportedMediaFields :: "string \<Rightarrow> bool \<Rightarrow> bool \<Rightarrow> (string \<times> slot) list \<Rightarrow> client_exn + unit" where
  "assertNoUnsupportedMediaFields helper caption filename r =
     bindE (need (caption \<or> js_get r ''caption'' = JUndef) helper ''caption is not supported for this media type'') (\<lambda>_.
     need (filename \<or> js_get r ''filename'' = JUndef) helper ''filename is only supported for document messages'')"

definition assertValidMediaLink :: "(string \<Rightarrow> string option) \<Rightarrow> string \<Rightarrow> jsval \<Rightarrow> client_exn + string" where
  "assertValidMediaLink protocolOf helper v =
     bindE (assertNonEmptyControlFreeString helper ''link'' GRAPH_MESSAGES_MEDIA_LINK_MAX_LENGTH v) (\<lambda>link.
     bindE (need (\<not> list_ex js_space link) helper ''link must not contain whitespace'') (\<lambda>_.
     case protocolOf link of
       None \<Rightarrow> invalidInput helper ''link must be a valid http(s) URL''
     | Some p \<Rightarrow> bindE (need (p = ''http:'' \<or> p = ''https:'') helper ''link must use http or https'') (\<lambda>_. Inr link)))"

definition assertValidNumberInRange :: "string \<Rightarrow> string \<Rightarrow> rat \<Rightarrow> rat \<Rightarrow> jsval \<Rightarrow> client_exn + rat" where
  "assertValidNumberInRange helper field lo hi v = (case v of
     JNum (Fin q) \<Rightarrow> if q < lo \<or> hi < q then invalidInput helper (field @ '' must be in range'') else Inr q
   | _ \<Rightarrow> invalidInput helper (field @ '' must be a finite number''))"

definition assertValidIntegerInRange :: "string \<Rightarrow> string \<Rightarrow> int \<Rightarrow> int \<Rightarrow> jsval \<Rightarrow> client_exn + int" where
  "assertValidIntegerInRange helper field lo hi v = (case intWithin lo hi v of
     None \<Rightarrow> invalidInput helper (field @ '' must be an integer in range'') | Some n \<Rightarrow> Inr n)"

definition maybeText :: "string \<Rightarrow> string \<Rightarrow> nat \<Rightarrow> jsval \<Rightarrow> client_exn + string option" where
  "maybeText helper field maxLength v = (if v = JUndef then Inr None
     else bindE (assertNonEmptyControlFreeString helper field maxLength v) (\<lambda>s. Inr (Some s)))"

definition withReplyContext :: "(string \<times> slot) list \<Rightarrow> payload \<Rightarrow> client_exn + payload" where
  "withReplyContext r p = (if js_get r ''replyToMessageId'' = JUndef then Inr p
     else bindE (assertValidReplyToMessageId (js_get r ''replyToMessageId'')) (\<lambda>i.
       Inr (p @ [(''context'', jsObject [(''message_id'', JStr i)])])))"

definition asRecordInput :: "string \<Rightarrow> jsval \<Rightarrow> client_exn + (string \<times> slot) list" where
  "asRecordInput helper v = (case isPlainOptionsObject v of
     None \<Rightarrow> invalidInput helper ''expected an options object'' | Some r \<Rightarrow> Inr r)"

subsection \<open>Arrays and template parameters\<close>

definition dataElement :: "string \<Rightarrow> string \<Rightarrow> slot \<Rightarrow> client_exn + jsval" where
  "dataElement helper field sl = (case sl of
     Data v \<Rightarrow> Inr v | _ \<Rightarrow> invalidInput helper (field @ '' must not use accessors''))"

definition assertBoundedArray :: "string \<Rightarrow> string \<Rightarrow> nat \<Rightarrow> nat \<Rightarrow> jsval \<Rightarrow> client_exn + jsval list" where
  "assertBoundedArray helper field lo hi v = (case v of
     JArr sl \<Rightarrow>
       bindE (need (lo \<le> length sl \<and> length sl \<le> hi) helper (field @ '' length must be in range'')) (\<lambda>_.
       bindE (need (Hole \<notin> set sl) helper (field @ '' must not contain sparse array holes'')) (\<lambda>_.
       mapE (dataElement helper field) sl))
   | _ \<Rightarrow> invalidInput helper (field @ '' must be an array''))"

definition assertOnlyKnownKeys :: "string \<Rightarrow> string list \<Rightarrow> (string \<times> slot) list \<Rightarrow> client_exn + unit" where
  "assertOnlyKnownKeys helper allowed r = need (list_all (\<lambda>(k, _). k \<in> set allowed) r) helper ''unknown field''"

definition accessorSlot :: "slot \<Rightarrow> bool" where
  "accessorSlot sl = (case sl of Accessor _ \<Rightarrow> True | _ \<Rightarrow> False)"

definition templateKeyOk :: "string \<Rightarrow> bool" where
  "templateKeyOk k = (k \<noteq> [] \<and> length k \<le> GRAPH_MESSAGES_SHORT_LABEL_MAX_LENGTH \<and> \<not> hasControlChars k)"

text \<open>\<open>sanitizeTemplateParameter helper n\<close> may go down \<open>n\<close> levels; the code starts at depth 0 and refuses
  depth 7, that is \<open>n = 7\<close>.\<close>

primrec sanitizeTemplateParameter :: "string \<Rightarrow> nat \<Rightarrow> jsval \<Rightarrow> client_exn + jsval" where
  "sanitizeTemplateParameter helper 0 v = invalidInput helper ''exceeds maximum nesting depth''"
| "sanitizeTemplateParameter helper (Suc n) v = (case v of
     JStr s \<Rightarrow> bindE (need (s \<noteq> [] \<and> length s \<le> GRAPH_MESSAGES_MEDIA_ID_MAX_LENGTH \<and> \<not> hasControlChars s) helper ''contains an invalid string'')
         (\<lambda>_. Inr v)
   | JNum x \<Rightarrow> bindE (need (isFiniteNum x) helper ''contains a non-finite number'') (\<lambda>_. Inr v)
   | JNull \<Rightarrow> Inr JNull
   | JBool b \<Rightarrow> Inr v
   | JUndef \<Rightarrow> Inr JUndef
   | JFun \<Rightarrow> invalidInput helper ''must be JSON-serializable''
   | JArr sl \<Rightarrow>
       bindE (need (\<not> list_ex accessorSlot sl) helper ''must not use accessors'') (\<lambda>_.
       bindE (assertBoundedArray helper ''parameter'' 0 100 v) (\<lambda>vs.
       bindE (mapE (sanitizeTemplateParameter helper n) vs) (\<lambda>ws. Inr (JArr (map Data ws)))))
   | JObj pr ps \<Rightarrow>
       bindE (need (pr = ObjectProto \<or> pr = NullProto) helper ''must be a plain object'') (\<lambda>_.
       bindE (need (\<not> list_ex (\<lambda>(k, _). k = ''toJSON'') ps) helper ''must not define toJSON'') (\<lambda>_.
       bindE (need (list_all (\<lambda>(_, sl). \<not> accessorSlot sl \<and> slot_value sl \<noteq> JFun) ps) helper ''must be plain data'') (\<lambda>_.
       bindE (mapE (\<lambda>(k, sl). bindE (need (templateKeyOk k) helper ''contains an invalid key'') (\<lambda>_.
           bindE (sanitizeTemplateParameter helper n (slot_value sl)) (\<lambda>w. Inr (k, w)))) ps) (\<lambda>kws.
       Inr (jsObject (filter (\<lambda>(_, w). w \<noteq> JUndef) kws)))))))"

definition TEMPLATE_LEVELS :: nat where "TEMPLATE_LEVELS = 7"

end
