(* ===== verification/Message_Builders.thy ===== *)
theory Message_Builders
  imports Message_Validation
begin

section \<open>Texts, media, locations, contacts, reactions and pins (messages/builders-basic.ts)\<close>

text \<open>
  One definition per builder, with the checks in the order of the code.  A builder gives a payload or a
  \<open>RequestValidationError\<close>.
\<close>

subsection \<open>Texts and media\<close>

abbreviation PRODUCT :: "string \<times> jsval" where
  "PRODUCT \<equiv> (''messaging_product'', JStr ''whatsapp'')"

definition givenText :: "string \<Rightarrow> string option \<Rightarrow> payload" where
  "givenText k t = (case t of None \<Rightarrow> [] | Some s \<Rightarrow> [(k, JStr s)])"

definition nullishOr :: "jsval \<Rightarrow> jsval \<Rightarrow> jsval" where
  "nullishOr x y = (if x = JUndef \<or> x = JNull then y else x)"

definition buildSendTextPayload :: "jsval \<Rightarrow> client_exn + payload" where
  "buildSendTextPayload input = bindE (asRecordInput ''sendText'' input) (\<lambda>r.
     bindE (assertMessageRecipient ''sendText'' r) (\<lambda>(to, rt).
     bindE (assertValidText (js_get r ''text'')) (\<lambda>body.
     bindE (need (js_get r ''previewUrl'' = JUndef \<or> isBoolean (js_get r ''previewUrl'')) ''sendText'' ''previewUrl must be a boolean when provided'') (\<lambda>_.
     withReplyContext r (applyRecipientType rt
       [PRODUCT, (''to'', JStr to), (''type'', JStr ''text''),
        (''text'', jsObject ((''body'', JStr body)
           # (if js_get r ''previewUrl'' = JUndef then [] else [(''preview_url'', js_get r ''previewUrl'')])))])))))"

definition optionalString :: "string \<Rightarrow> string \<Rightarrow> string \<Rightarrow> nat \<Rightarrow> (string \<times> slot) list \<Rightarrow> client_exn + payload" where
  "optionalString helper k field maxLength r =
     bindE (maybeText helper field maxLength (js_get r field)) (\<lambda>t. Inr (givenText k t))"

definition mediaReference :: "(string \<Rightarrow> string option) \<Rightarrow> string \<Rightarrow> (string \<times> slot) list \<Rightarrow> client_exn + payload" where
  "mediaReference protocolOf helper r =
     bindE (need ((js_get r ''mediaId'' \<noteq> JUndef) \<noteq> (js_get r ''link'' \<noteq> JUndef)) helper ''exactly one of mediaId or link is required'') (\<lambda>_.
     bindE (if js_get r ''mediaId'' \<noteq> JUndef
         then bindE (assertNonEmptyControlFreeString helper ''mediaId'' GRAPH_MESSAGES_MEDIA_ID_MAX_LENGTH (js_get r ''mediaId'')) (\<lambda>s. Inr [(''id'', JStr s)])
         else bindE (assertValidMediaLink protocolOf helper (js_get r ''link'')) (\<lambda>s. Inr [(''link'', JStr s)])) (\<lambda>ref.
     bindE (optionalString helper ''caption'' ''caption'' GRAPH_MESSAGES_MEDIA_CAPTION_MAX_LENGTH r) (\<lambda>caption.
     bindE (optionalString helper ''filename'' ''filename'' GRAPH_MESSAGES_DOCUMENT_FILENAME_MAX_LENGTH r) (\<lambda>filename.
     Inr (ref @ caption @ filename)))))"

definition buildSendMediaPayload ::
  "(string \<Rightarrow> string option) \<Rightarrow> string \<Rightarrow> string \<Rightarrow> bool \<Rightarrow> bool \<Rightarrow> jsval \<Rightarrow> client_exn + payload" where
  "buildSendMediaPayload protocolOf mediaType helper caption filename input =
     bindE (asRecordInput helper input) (\<lambda>r.
     bindE (assertNoUnsupportedMediaFields helper caption filename r) (\<lambda>_.
     bindE (assertMessageRecipient helper r) (\<lambda>(to, rt).
     bindE (mediaReference protocolOf helper r) (\<lambda>media.
     withReplyContext r (applyRecipientType rt
       [PRODUCT, (''to'', JStr to), (''type'', JStr mediaType), (mediaType, jsObject media)])))))"

definition buildSendImagePayload :: "(string \<Rightarrow> string option) \<Rightarrow> jsval \<Rightarrow> client_exn + payload" where
  "buildSendImagePayload protocolOf = buildSendMediaPayload protocolOf ''image'' ''sendImage'' True False"

definition buildSendVideoPayload :: "(string \<Rightarrow> string option) \<Rightarrow> jsval \<Rightarrow> client_exn + payload" where
  "buildSendVideoPayload protocolOf = buildSendMediaPayload protocolOf ''video'' ''sendVideo'' True False"

text \<open>\<open>payload.audio.voice = true\<close>\<close>

definition extendField :: "string \<Rightarrow> payload \<Rightarrow> payload \<Rightarrow> payload" where
  "extendField k extra = map (\<lambda>(k', v). (k', if k' = k then (case v of JObj p qs \<Rightarrow> JObj p (qs @ map (\<lambda>(a, w). (a, Data w)) extra) | _ \<Rightarrow> v) else v))"

definition buildSendAudioPayload :: "(string \<Rightarrow> string option) \<Rightarrow> jsval \<Rightarrow> client_exn + payload" where
  "buildSendAudioPayload protocolOf input =
     bindE (buildSendMediaPayload protocolOf ''audio'' ''sendAudio'' False False input) (\<lambda>p.
     bindE (asRecordInput ''sendAudio'' input) (\<lambda>r.
     bindE (need (js_get r ''voice'' = JUndef \<or> isBoolean (js_get r ''voice'')) ''sendAudio'' ''voice must be a boolean when provided'') (\<lambda>_.
     Inr (if js_get r ''voice'' = JBool True then extendField ''audio'' [(''voice'', JBool True)] p else p))))"

definition buildSendDocumentPayload :: "(string \<Rightarrow> string option) \<Rightarrow> jsval \<Rightarrow> client_exn + payload" where
  "buildSendDocumentPayload protocolOf = buildSendMediaPayload protocolOf ''document'' ''sendDocument'' True True"

definition buildSendStickerPayload :: "(string \<Rightarrow> string option) \<Rightarrow> jsval \<Rightarrow> client_exn + payload" where
  "buildSendStickerPayload protocolOf = buildSendMediaPayload protocolOf ''sticker'' ''sendSticker'' False False"

subsection \<open>Locations, contacts, reactions, pins\<close>

definition buildSendLocationPayload :: "jsval \<Rightarrow> client_exn + payload" where
  "buildSendLocationPayload input = bindE (asRecordInput ''sendLocation'' input) (\<lambda>r.
     bindE (rejectGroupRecipient ''sendLocation'' r ''location messages'') (\<lambda>_.
     bindE (assertMessageRecipient ''sendLocation'' r) (\<lambda>(to, rt).
     bindE (assertValidNumberInRange ''sendLocation'' ''latitude'' (-90) 90 (js_get r ''latitude'')) (\<lambda>lat.
     bindE (assertValidNumberInRange ''sendLocation'' ''longitude'' (-180) 180 (js_get r ''longitude'')) (\<lambda>lng.
     bindE (optionalString ''sendLocation'' ''name'' ''name'' GRAPH_MESSAGES_SHORT_LABEL_MAX_LENGTH r) (\<lambda>nm.
     bindE (optionalString ''sendLocation'' ''address'' ''address'' GRAPH_MESSAGES_GENERAL_TEXT_MAX_LENGTH r) (\<lambda>adr.
     withReplyContext r (applyRecipientType rt
       [PRODUCT, (''to'', JStr to), (''type'', JStr ''location''),
        (''location'', jsObject ([(''latitude'', JNum (Fin lat)), (''longitude'', JNum (Fin lng))] @ nm @ adr))]))))))))"

text \<open>The optional texts of a record, under a camel-case and a snake-case name.\<close>

definition optionalTexts :: "string \<Rightarrow> string \<Rightarrow> nat \<Rightarrow> (string \<times> string) list \<Rightarrow> (string \<times> slot) list \<Rightarrow> client_exn + payload" where
  "optionalTexts helper prefix maxLength names r = bindE (mapE (\<lambda>(camel, snake).
     bindE (maybeText helper (prefix @ camel) maxLength (nullishOr (js_get r camel) (js_get r snake))) (\<lambda>t. Inr (givenText snake t))) names)
     (\<lambda>fs. Inr (concat fs))"

definition normalizeContactName :: "string \<Rightarrow> jsval \<Rightarrow> client_exn + payload" where
  "normalizeContactName helper v = (case isPlainOptionsObject v of
     None \<Rightarrow> invalidInput helper ''contact.name must be an object''
   | Some r \<Rightarrow>
       bindE (maybeText helper ''name.formattedName'' GRAPH_MESSAGES_GENERAL_TEXT_MAX_LENGTH (nullishOr (js_get r ''formattedName'') (js_get r ''formatted''))) (\<lambda>t.
       case t of None \<Rightarrow> invalidInput helper ''contact.name.formattedName is required''
       | Some formatted \<Rightarrow>
           bindE (optionalTexts helper ''name.'' GRAPH_MESSAGES_SHORT_LABEL_MAX_LENGTH
               [(''firstName'', ''first_name''), (''lastName'', ''last_name''), (''middleName'', ''middle_name''), (''suffix'', ''suffix''), (''prefix'', ''prefix'')] r) (\<lambda>fs.
           Inr ((''formatted_name'', JStr formatted) # fs))))"

definition normalizeTypedStringRecord :: "string \<Rightarrow> string \<Rightarrow> string \<Rightarrow> jsval \<Rightarrow> client_exn + string \<times> payload" where
  "normalizeTypedStringRecord helper field required v = (case isPlainOptionsObject v of
     None \<Rightarrow> invalidInput helper (field @ '' entries must be objects'')
   | Some r \<Rightarrow>
       bindE (maybeText helper (field @ ''.'' @ required) GRAPH_MESSAGES_GENERAL_TEXT_MAX_LENGTH (js_get r required)) (\<lambda>t.
       case t of None \<Rightarrow> invalidInput helper (field @ '' is required'')
       | Some primary \<Rightarrow> bindE (maybeText helper (field @ ''.type'') GRAPH_MESSAGES_SHORT_LABEL_MAX_LENGTH (js_get r ''type'')) (\<lambda>ty.
           Inr (primary, (required, JStr primary) # givenText ''type'' ty))))"

definition normalizePhone :: "string \<Rightarrow> jsval \<Rightarrow> client_exn + jsval" where
  "normalizePhone helper v = (case isPlainOptionsObject v of
     None \<Rightarrow> invalidInput helper ''phone entries must be objects''
   | Some r \<Rightarrow>
       bindE (maybeText helper ''phone.phone'' GRAPH_MESSAGES_SHORT_LABEL_MAX_LENGTH (js_get r ''phone'')) (\<lambda>rawPhone.
       bindE (maybeText helper ''phone.waId'' GRAPH_MESSAGES_SHORT_LABEL_MAX_LENGTH (nullishOr (js_get r ''waId'') (js_get r ''wa_id''))) (\<lambda>waId.
       bindE (need (rawPhone \<noteq> None \<or> waId \<noteq> None) helper ''phone requires phone or waId'') (\<lambda>_.
       bindE (maybeText helper ''phone.type'' GRAPH_MESSAGES_SHORT_LABEL_MAX_LENGTH (js_get r ''type'')) (\<lambda>ty.
       Inr (jsObject (givenText ''phone'' rawPhone @ givenText ''wa_id'' waId @ givenText ''type'' ty)))))))"

definition normalizeEmail :: "string \<Rightarrow> jsval \<Rightarrow> client_exn + jsval" where
  "normalizeEmail helper v = bindE (normalizeTypedStringRecord helper ''email'' ''email'' v) (\<lambda>(_, fs). Inr (jsObject fs))"

definition normalizeUrl :: "(string \<Rightarrow> string option) \<Rightarrow> string \<Rightarrow> jsval \<Rightarrow> client_exn + jsval" where
  "normalizeUrl protocolOf helper v = bindE (normalizeTypedStringRecord helper ''url'' ''url'' v) (\<lambda>(url, fs).
     bindE (assertValidMediaLink protocolOf helper (JStr url)) (\<lambda>_. Inr (jsObject fs)))"

definition normalizeAddress :: "string \<Rightarrow> jsval \<Rightarrow> client_exn + jsval" where
  "normalizeAddress helper v = (case isPlainOptionsObject v of
     None \<Rightarrow> invalidInput helper ''address entries must be objects''
   | Some r \<Rightarrow> bindE (optionalTexts helper ''address.'' GRAPH_MESSAGES_GENERAL_TEXT_MAX_LENGTH
         [(''street'', ''street''), (''city'', ''city''), (''state'', ''state''), (''zip'', ''zip''), (''country'', ''country''),
          (''countryCode'', ''country_code''), (''type'', ''type'')] r) (\<lambda>fs.
       bindE (need (fs \<noteq> []) helper ''address entries must contain at least one field'') (\<lambda>_. Inr (jsObject fs))))"

text \<open>An optional array of a contact: absent, or 1 to 20 entries.\<close>

definition optionalEntries :: "string \<Rightarrow> string \<Rightarrow> (jsval \<Rightarrow> client_exn + jsval) \<Rightarrow> (string \<times> slot) list \<Rightarrow> client_exn + payload" where
  "optionalEntries helper k f r = (if js_get r k = JUndef then Inr []
     else bindE (assertBoundedArray helper (''contact.'' @ k) 1 20 (js_get r k)) (\<lambda>vs.
       bindE (mapE f vs) (\<lambda>ws. Inr [(k, JArr (map Data ws))])))"

definition normalizeOrg :: "string \<Rightarrow> (string \<times> slot) list \<Rightarrow> client_exn + payload" where
  "normalizeOrg helper r = (if js_get r ''org'' = JUndef then Inr []
     else (case isPlainOptionsObject (js_get r ''org'') of
         None \<Rightarrow> invalidInput helper ''org must be an object''
       | Some org \<Rightarrow> bindE (optionalString helper ''company'' ''company'' GRAPH_MESSAGES_GENERAL_TEXT_MAX_LENGTH org) (\<lambda>a.
           bindE (optionalString helper ''department'' ''department'' GRAPH_MESSAGES_GENERAL_TEXT_MAX_LENGTH org) (\<lambda>b.
           bindE (optionalString helper ''title'' ''title'' GRAPH_MESSAGES_GENERAL_TEXT_MAX_LENGTH org) (\<lambda>c.
           Inr (if a @ b @ c = [] then [] else [(''org'', jsObject (a @ b @ c))]))))))"

definition normalizeContact :: "(string \<Rightarrow> string option) \<Rightarrow> string \<Rightarrow> jsval \<Rightarrow> client_exn + jsval" where
  "normalizeContact protocolOf helper v = (case isPlainOptionsObject v of
     None \<Rightarrow> invalidInput helper ''contacts entries must be objects''
   | Some r \<Rightarrow>
       bindE (normalizeContactName helper (js_get r ''name'')) (\<lambda>nm.
       bindE (optionalEntries helper ''phones'' (normalizePhone helper) r) (\<lambda>phones.
       bindE (optionalEntries helper ''emails'' (normalizeEmail helper) r) (\<lambda>emails.
       bindE (optionalEntries helper ''urls'' (normalizeUrl protocolOf helper) r) (\<lambda>urls.
       bindE (optionalEntries helper ''addresses'' (normalizeAddress helper) r) (\<lambda>addresses.
       bindE (normalizeOrg helper r) (\<lambda>org.
       bindE (optionalString helper ''birthday'' ''birthday'' 32 r) (\<lambda>birthday.
       Inr (jsObject ((''name'', jsObject nm) # phones @ emails @ urls @ addresses @ org @ birthday))))))))))"

definition buildSendContactsPayload :: "(string \<Rightarrow> string option) \<Rightarrow> jsval \<Rightarrow> client_exn + payload" where
  "buildSendContactsPayload protocolOf input = bindE (asRecordInput ''sendContacts'' input) (\<lambda>r.
     bindE (rejectGroupRecipient ''sendContacts'' r ''contacts messages'') (\<lambda>_.
     bindE (assertMessageRecipient ''sendContacts'' r) (\<lambda>(to, rt).
     bindE (assertBoundedArray ''sendContacts'' ''contacts'' 1 GRAPH_MESSAGES_MAX_CONTACTS (js_get r ''contacts'')) (\<lambda>vs.
     bindE (mapE (normalizeContact protocolOf ''sendContacts'') vs) (\<lambda>contacts.
     withReplyContext r (applyRecipientType rt
       [PRODUCT, (''to'', JStr to), (''type'', JStr ''contacts''), (''contacts'', JArr (map Data contacts))]))))))"

definition buildSendReactionPayload :: "jsval \<Rightarrow> client_exn + payload" where
  "buildSendReactionPayload input = bindE (asRecordInput ''sendReaction'' input) (\<lambda>r.
     bindE (rejectGroupRecipient ''sendReaction'' r ''reaction messages'') (\<lambda>_.
     bindE (assertMessageRecipient ''sendReaction'' r) (\<lambda>(to, rt).
     bindE (assertNonEmptyControlFreeString ''sendReaction'' ''emoji'' 32 (js_get r ''emoji'')) (\<lambda>emoji.
     bindE (assertNonEmptyControlFreeString ''sendReaction'' ''messageId'' GRAPH_MESSAGES_REPLY_TO_MESSAGE_ID_MAX_LENGTH (js_get r ''messageId'')) (\<lambda>mid.
     Inr (applyRecipientType rt
       [PRODUCT, (''to'', JStr to), (''type'', JStr ''reaction''),
        (''reaction'', jsObject [(''message_id'', JStr mid), (''emoji'', JStr emoji)])]))))))"

definition buildRemoveReactionPayload :: "jsval \<Rightarrow> client_exn + payload" where
  "buildRemoveReactionPayload input = bindE (asRecordInput ''removeReaction'' input) (\<lambda>r.
     bindE (rejectGroupRecipient ''removeReaction'' r ''reaction messages'') (\<lambda>_.
     bindE (assertMessageRecipient ''removeReaction'' r) (\<lambda>(to, rt).
     bindE (assertNonEmptyControlFreeString ''removeReaction'' ''messageId'' GRAPH_MESSAGES_REPLY_TO_MESSAGE_ID_MAX_LENGTH (js_get r ''messageId'')) (\<lambda>mid.
     Inr (applyRecipientType rt
       [PRODUCT, (''to'', JStr to), (''type'', JStr ''reaction''),
        (''reaction'', jsObject [(''message_id'', JStr mid), (''emoji'', JStr '''')])])))))"

definition buildSendPinPayload :: "jsval \<Rightarrow> client_exn + payload" where
  "buildSendPinPayload input = bindE (asRecordInput ''sendPin'' input) (\<lambda>r.
     bindE (need (js_get r ''recipientType'' = JUndef \<or> js_get r ''recipientType'' = JStr ''group'') ''sendPin'' ''recipientType must be group when provided'') (\<lambda>_.
     bindE (assertValidGroupId ''sendPin'' (js_get r ''to'')) (\<lambda>to.
     bindE (need (js_get r ''pinType'' = JStr ''pin'' \<or> js_get r ''pinType'' = JStr ''unpin'') ''sendPin'' ''pinType must be pin or unpin'') (\<lambda>_.
     case intWithin 1 30 (js_get r ''expirationDays'') of
       None \<Rightarrow> invalidInput ''sendPin'' ''expirationDays must be an integer between 1 and 30''
     | Some days \<Rightarrow>
         bindE (assertNonEmptyControlFreeString ''sendPin'' ''messageId'' GRAPH_MESSAGES_REPLY_TO_MESSAGE_ID_MAX_LENGTH (js_get r ''messageId'')) (\<lambda>mid.
         Inr [PRODUCT, (''recipient_type'', JStr ''group''), (''to'', JStr to), (''type'', JStr ''pin''),
           (''pin'', jsObject [(''type'', js_get r ''pinType''), (''message_id'', JStr mid), (''expiration_days'', JNum (Fin (of_int days)))])])))))"

end
