(* ===== verification/Message_Interactive.thy ===== *)
theory Message_Interactive
  imports Message_Builders
begin

section \<open>Interactive messages and templates (messages/builders-interactive.ts, builders-template.ts)\<close>

text \<open>
  The builders of buttons, lists, products, catalogs, call messages, read receipts and templates.  The
  counters \<open>totalRows\<close> and \<open>totalItems\<close> of the code are the sums of the lengths of the sections.
\<close>

subsection \<open>Interactive messages\<close>

definition interactiveBase :: "string \<Rightarrow> jsval \<Rightarrow> payload \<Rightarrow> client_exn + payload" where
  "interactiveBase helper input interactive = bindE (asRecordInput helper input) (\<lambda>r.
     bindE (rejectGroupRecipient helper r ''interactive messages'') (\<lambda>_.
     bindE (assertMessageRecipient helper r) (\<lambda>(to, rt).
     withReplyContext r (applyRecipientType rt
       [PRODUCT, (''to'', JStr to), (''type'', JStr ''interactive''), (''interactive'', jsObject interactive)]))))"

definition headerFooter :: "string \<Rightarrow> (string \<times> slot) list \<Rightarrow> client_exn + payload" where
  "headerFooter helper r =
     bindE (maybeText helper ''headerText'' GRAPH_MESSAGES_SHORT_LABEL_MAX_LENGTH (js_get r ''headerText'')) (\<lambda>h.
     bindE (maybeText helper ''footerText'' GRAPH_MESSAGES_SHORT_LABEL_MAX_LENGTH (js_get r ''footerText'')) (\<lambda>f.
     Inr ((case h of None \<Rightarrow> [] | Some s \<Rightarrow> [(''header'', jsObject [(''type'', JStr ''text''), (''text'', JStr s)])])
        @ (case f of None \<Rightarrow> [] | Some s \<Rightarrow> [(''footer'', jsObject [(''text'', JStr s)])]))))"

definition bodyBlock :: "string \<Rightarrow> (string \<times> slot) list \<Rightarrow> client_exn + jsval" where
  "bodyBlock helper r = bindE (assertNonEmptyControlFreeString helper ''bodyText'' GRAPH_MESSAGES_GENERAL_TEXT_MAX_LENGTH (js_get r ''bodyText''))
     (\<lambda>s. Inr (jsObject [(''text'', JStr s)]))"

definition optionalBlock :: "string \<Rightarrow> string \<Rightarrow> string \<Rightarrow> nat \<Rightarrow> (string \<times> slot) list \<Rightarrow> client_exn + payload" where
  "optionalBlock helper k field maxLength r = bindE (maybeText helper field maxLength (js_get r field))
     (\<lambda>t. Inr (case t of None \<Rightarrow> [] | Some s \<Rightarrow> [(k, jsObject [(''text'', JStr s)])]))"

definition replyButton :: "jsval \<Rightarrow> client_exn + jsval" where
  "replyButton v = (case isPlainOptionsObject v of
     None \<Rightarrow> invalidInput ''sendButtons'' ''button entries must be objects''
   | Some b \<Rightarrow>
       bindE (assertNonEmptyControlFreeString ''sendButtons'' ''button.id'' GRAPH_MESSAGES_BUTTON_ID_MAX_LENGTH (js_get b ''id'')) (\<lambda>i.
       bindE (assertNonEmptyControlFreeString ''sendButtons'' ''button.title'' GRAPH_MESSAGES_BUTTON_TITLE_MAX_LENGTH (js_get b ''title'')) (\<lambda>t.
       Inr (jsObject [(''type'', JStr ''reply''), (''reply'', jsObject [(''id'', JStr i), (''title'', JStr t)])]))))"

definition buildSendButtonsPayload :: "jsval \<Rightarrow> client_exn + payload" where
  "buildSendButtonsPayload input = bindE (asRecordInput ''sendButtons'' input) (\<lambda>r.
     bindE (assertBoundedArray ''sendButtons'' ''buttons'' 1 GRAPH_MESSAGES_MAX_REPLY_BUTTONS (js_get r ''buttons'')) (\<lambda>vs.
     bindE (mapE replyButton vs) (\<lambda>buttons.
     bindE (bodyBlock ''sendButtons'' r) (\<lambda>body.
     bindE (headerFooter ''sendButtons'' r) (\<lambda>hf.
     interactiveBase ''sendButtons'' input ([(''type'', JStr ''button''), (''body'', body),
       (''action'', jsObject [(''buttons'', JArr (map Data buttons))])] @ hf))))))"

definition listRow :: "jsval \<Rightarrow> client_exn + jsval" where
  "listRow v = (case isPlainOptionsObject v of
     None \<Rightarrow> invalidInput ''sendList'' ''row entries must be objects''
   | Some row \<Rightarrow>
       bindE (assertNonEmptyControlFreeString ''sendList'' ''row.id'' GRAPH_MESSAGES_BUTTON_ID_MAX_LENGTH (js_get row ''id'')) (\<lambda>i.
       bindE (assertNonEmptyControlFreeString ''sendList'' ''row.title'' GRAPH_MESSAGES_ROW_TITLE_MAX_LENGTH (js_get row ''title'')) (\<lambda>t.
       bindE (optionalString ''sendList'' ''description'' ''description'' GRAPH_MESSAGES_ROW_DESCRIPTION_MAX_LENGTH row) (\<lambda>d.
       Inr (jsObject ([(''id'', JStr i), (''title'', JStr t)] @ d))))))"

definition listSection :: "jsval \<Rightarrow> client_exn + nat \<times> jsval" where
  "listSection v = (case isPlainOptionsObject v of
     None \<Rightarrow> invalidInput ''sendList'' ''section entries must be objects''
   | Some sec \<Rightarrow>
       bindE (assertBoundedArray ''sendList'' ''section.rows'' 1 GRAPH_MESSAGES_MAX_LIST_ROWS (js_get sec ''rows'')) (\<lambda>vs.
       bindE (mapE listRow vs) (\<lambda>rows.
       bindE (optionalString ''sendList'' ''title'' ''title'' GRAPH_MESSAGES_SECTION_TITLE_MAX_LENGTH sec) (\<lambda>t.
       Inr (length rows, jsObject ((''rows'', JArr (map Data rows)) # t))))))"

definition buildSendListPayload :: "jsval \<Rightarrow> client_exn + payload" where
  "buildSendListPayload input = bindE (asRecordInput ''sendList'' input) (\<lambda>r.
     bindE (assertBoundedArray ''sendList'' ''sections'' 1 GRAPH_MESSAGES_MAX_LIST_SECTIONS (js_get r ''sections'')) (\<lambda>vs.
     bindE (mapE listSection vs) (\<lambda>sections.
     bindE (need (sum_list (map fst sections) \<le> GRAPH_MESSAGES_MAX_LIST_ROWS) ''sendList'' ''total row count exceeds the limit'') (\<lambda>_.
     bindE (bodyBlock ''sendList'' r) (\<lambda>body.
     bindE (assertNonEmptyControlFreeString ''sendList'' ''buttonText'' GRAPH_MESSAGES_BUTTON_TITLE_MAX_LENGTH (js_get r ''buttonText'')) (\<lambda>button.
     bindE (headerFooter ''sendList'' r) (\<lambda>hf.
     interactiveBase ''sendList'' input ([(''type'', JStr ''list''), (''body'', body),
       (''action'', jsObject [(''button'', JStr button), (''sections'', JArr (map Data (map snd sections)))])] @ hf))))))))"

definition buildSendCtaUrlPayload :: "(string \<Rightarrow> string option) \<Rightarrow> jsval \<Rightarrow> client_exn + payload" where
  "buildSendCtaUrlPayload protocolOf input = bindE (asRecordInput ''sendCtaUrl'' input) (\<lambda>r.
     bindE (bodyBlock ''sendCtaUrl'' r) (\<lambda>body.
     bindE (assertNonEmptyControlFreeString ''sendCtaUrl'' ''displayText'' GRAPH_MESSAGES_BUTTON_TITLE_MAX_LENGTH (js_get r ''displayText'')) (\<lambda>display.
     bindE (assertValidMediaLink protocolOf ''sendCtaUrl'' (js_get r ''url'')) (\<lambda>url.
     bindE (headerFooter ''sendCtaUrl'' r) (\<lambda>hf.
     interactiveBase ''sendCtaUrl'' input ([(''type'', JStr ''cta_url''), (''body'', body),
       (''action'', jsObject [(''name'', JStr ''cta_url''),
          (''parameters'', jsObject [(''display_text'', JStr display), (''url'', JStr url)])])] @ hf))))))"

definition buildSendCallPermissionRequestPayload :: "jsval \<Rightarrow> client_exn + payload" where
  "buildSendCallPermissionRequestPayload input = bindE (asRecordInput ''sendCallPermissionRequest'' input) (\<lambda>r.
     bindE (assertOnlyKnownKeys ''sendCallPermissionRequest'' [''to'', ''bodyText'', ''footerText'', ''replyToMessageId''] r) (\<lambda>_.
     bindE (bodyBlock ''sendCallPermissionRequest'' r) (\<lambda>body.
     bindE (optionalBlock ''sendCallPermissionRequest'' ''footer'' ''footerText'' GRAPH_MESSAGES_SHORT_LABEL_MAX_LENGTH r) (\<lambda>ft.
     interactiveBase ''sendCallPermissionRequest'' input ([(''type'', JStr ''call_permission_request''), (''body'', body),
       (''action'', jsObject [(''name'', JStr ''call_permission_request'')])] @ ft)))))"

text \<open>An optional phone number and an optional other recipient, of which one must be there.\<close>

definition optionalRecipients :: "string \<Rightarrow> (string \<times> slot) list \<Rightarrow> client_exn + string option \<times> string option" where
  "optionalRecipients helper r =
     bindE (if js_get r ''to'' = JUndef then Inr None else bindE (assertValidRecipient helper (js_get r ''to'')) (\<lambda>s. Inr (Some s))) (\<lambda>to.
     bindE (maybeText helper ''recipient'' GRAPH_MESSAGES_MEDIA_ID_MAX_LENGTH (js_get r ''recipient'')) (\<lambda>recipient.
     bindE (need (to \<noteq> None \<or> recipient \<noteq> None) helper ''at least one of to or recipient is required'') (\<lambda>_.
     Inr (to, recipient))))"

definition assertVoiceCallRecipient :: "(string \<times> slot) list \<Rightarrow> client_exn + string option \<times> string option" where
  "assertVoiceCallRecipient r = bindE (assertRecipientType ''sendVoiceCall'' (js_get r ''recipientType'')) (\<lambda>rt.
     bindE (need (rt \<noteq> Some ''group'') ''sendVoiceCall'' ''voice_call messages are not supported for group recipients'') (\<lambda>_.
     optionalRecipients ''sendVoiceCall'' r))"

definition optionalTtl :: "string \<Rightarrow> (string \<times> slot) list \<Rightarrow> client_exn + int option" where
  "optionalTtl helper r = (if js_get r ''ttlMinutes'' = JUndef then Inr None
     else bindE (assertValidIntegerInRange helper ''ttlMinutes'' GRAPH_MESSAGES_VOICE_CALL_TTL_MINUTES_MIN
       GRAPH_MESSAGES_VOICE_CALL_TTL_MINUTES_MAX (js_get r ''ttlMinutes'')) (\<lambda>n. Inr (Some n)))"

definition buildSendVoiceCallPayload :: "jsval \<Rightarrow> client_exn + payload" where
  "buildSendVoiceCallPayload input = bindE (asRecordInput ''sendVoiceCall'' input) (\<lambda>r.
     bindE (assertOnlyKnownKeys ''sendVoiceCall'' [''to'', ''recipient'', ''recipientType'', ''bodyText'', ''displayText'',
       ''ttlMinutes'', ''payload'', ''replyToMessageId''] r) (\<lambda>_.
     bindE (assertVoiceCallRecipient r) (\<lambda>(to, recipient).
     bindE (optionalString ''sendVoiceCall'' ''display_text'' ''displayText'' GRAPH_MESSAGES_VOICE_CALL_DISPLAY_TEXT_MAX_LENGTH r) (\<lambda>display.
     bindE (optionalTtl ''sendVoiceCall'' r) (\<lambda>ttl.
     bindE (optionalString ''sendVoiceCall'' ''payload'' ''payload'' GRAPH_MESSAGES_VOICE_CALL_PAYLOAD_MAX_LENGTH r) (\<lambda>pl.
     bindE (bodyBlock ''sendVoiceCall'' r) (\<lambda>body.
     let parameters = display @ (case ttl of None \<Rightarrow> [] | Some n \<Rightarrow> [(''ttl_minutes'', JNum (Fin (of_int n)))]) @ pl
     in withReplyContext r ([PRODUCT, (''recipient_type'', JStr ''individual'')] @ givenText ''to'' to @ givenText ''recipient'' recipient
       @ [(''type'', JStr ''interactive''), (''interactive'', jsObject [(''type'', JStr ''voice_call''), (''body'', body),
           (''action'', jsObject ((''name'', JStr ''voice_call'')
              # (if parameters = [] then [] else [(''parameters'', jsObject parameters)])))])]))))))))"

definition buildSendProductPayload :: "jsval \<Rightarrow> client_exn + payload" where
  "buildSendProductPayload input = bindE (asRecordInput ''sendProduct'' input) (\<lambda>r.
     bindE (assertNonEmptyControlFreeString ''sendProduct'' ''catalogId'' GRAPH_MESSAGES_MEDIA_ID_MAX_LENGTH (js_get r ''catalogId'')) (\<lambda>c.
     bindE (assertNonEmptyControlFreeString ''sendProduct'' ''productRetailerId'' GRAPH_MESSAGES_MEDIA_ID_MAX_LENGTH (js_get r ''productRetailerId'')) (\<lambda>p.
     bindE (optionalBlock ''sendProduct'' ''body'' ''bodyText'' GRAPH_MESSAGES_GENERAL_TEXT_MAX_LENGTH r) (\<lambda>body.
     bindE (optionalBlock ''sendProduct'' ''footer'' ''footerText'' GRAPH_MESSAGES_SHORT_LABEL_MAX_LENGTH r) (\<lambda>ft.
     interactiveBase ''sendProduct'' input ([(''type'', JStr ''product''),
       (''action'', jsObject [(''catalog_id'', JStr c), (''product_retailer_id'', JStr p)])] @ body @ ft))))))"

definition productEntry :: "jsval \<Rightarrow> client_exn + jsval" where
  "productEntry v = (case isPlainOptionsObject v of
     None \<Rightarrow> invalidInput ''sendProducts'' ''product item entries must be objects''
   | Some item \<Rightarrow> bindE (assertNonEmptyControlFreeString ''sendProducts'' ''productRetailerId'' GRAPH_MESSAGES_MEDIA_ID_MAX_LENGTH (js_get item ''productRetailerId''))
       (\<lambda>s. Inr (jsObject [(''product_retailer_id'', JStr s)])))"

definition productSection :: "jsval \<Rightarrow> client_exn + nat \<times> jsval" where
  "productSection v = (case isPlainOptionsObject v of
     None \<Rightarrow> invalidInput ''sendProducts'' ''section entries must be objects''
   | Some sec \<Rightarrow>
       bindE (assertBoundedArray ''sendProducts'' ''section.productItems'' 1 GRAPH_MESSAGES_MAX_PRODUCT_ITEMS (js_get sec ''productItems'')) (\<lambda>vs.
       bindE (mapE productEntry vs) (\<lambda>items.
       bindE (assertNonEmptyControlFreeString ''sendProducts'' ''section.title'' GRAPH_MESSAGES_SECTION_TITLE_MAX_LENGTH (js_get sec ''title'')) (\<lambda>t.
       Inr (length items, jsObject [(''title'', JStr t), (''product_items'', JArr (map Data items))])))))"

definition buildSendProductsPayload :: "jsval \<Rightarrow> client_exn + payload" where
  "buildSendProductsPayload input = bindE (asRecordInput ''sendProducts'' input) (\<lambda>r.
     bindE (assertBoundedArray ''sendProducts'' ''sections'' 1 10 (js_get r ''sections'')) (\<lambda>vs.
     bindE (mapE productSection vs) (\<lambda>sections.
     bindE (need (sum_list (map fst sections) \<le> GRAPH_MESSAGES_MAX_PRODUCT_ITEMS) ''sendProducts'' ''total product item count exceeds the limit'') (\<lambda>_.
     bindE (assertNonEmptyControlFreeString ''sendProducts'' ''headerText'' GRAPH_MESSAGES_SHORT_LABEL_MAX_LENGTH (js_get r ''headerText'')) (\<lambda>h.
     bindE (bodyBlock ''sendProducts'' r) (\<lambda>body.
     bindE (assertNonEmptyControlFreeString ''sendProducts'' ''catalogId'' GRAPH_MESSAGES_MEDIA_ID_MAX_LENGTH (js_get r ''catalogId'')) (\<lambda>c.
     bindE (optionalBlock ''sendProducts'' ''footer'' ''footerText'' GRAPH_MESSAGES_SHORT_LABEL_MAX_LENGTH r) (\<lambda>ft.
     interactiveBase ''sendProducts'' input ([(''type'', JStr ''product_list''),
       (''header'', jsObject [(''type'', JStr ''text''), (''text'', JStr h)]), (''body'', body),
       (''action'', jsObject [(''catalog_id'', JStr c), (''sections'', JArr (map Data (map snd sections)))])] @ ft)))))))))"

definition buildSendCatalogPayload :: "jsval \<Rightarrow> client_exn + payload" where
  "buildSendCatalogPayload input = bindE (asRecordInput ''sendCatalog'' input) (\<lambda>r.
     bindE (optionalString ''sendCatalog'' ''thumbnail_product_retailer_id'' ''thumbnailProductRetailerId'' GRAPH_MESSAGES_MEDIA_ID_MAX_LENGTH r) (\<lambda>thumb.
     bindE (bodyBlock ''sendCatalog'' r) (\<lambda>body.
     bindE (headerFooter ''sendCatalog'' r) (\<lambda>hf.
     interactiveBase ''sendCatalog'' input ([(''type'', JStr ''catalog_message''), (''body'', body),
       (''action'', jsObject ((''name'', JStr ''catalog_message'')
          # (if thumb = [] then [] else [(''parameters'', jsObject thumb)])))] @ hf)))))"

definition buildRequestLocationPayload :: "jsval \<Rightarrow> client_exn + payload" where
  "buildRequestLocationPayload input = bindE (asRecordInput ''requestLocation'' input) (\<lambda>r.
     bindE (bodyBlock ''requestLocation'' r) (\<lambda>body.
     interactiveBase ''requestLocation'' input [(''type'', JStr ''location_request_message''), (''body'', body),
       (''action'', jsObject [(''name'', JStr ''send_location'')])]))"

definition buildMarkMessageAsReadPayload :: "jsval \<Rightarrow> client_exn + payload" where
  "buildMarkMessageAsReadPayload input = bindE (asRecordInput ''markMessageAsRead'' input) (\<lambda>r.
     bindE (assertNonEmptyControlFreeString ''markMessageAsRead'' ''messageId'' GRAPH_MESSAGES_REPLY_TO_MESSAGE_ID_MAX_LENGTH (js_get r ''messageId'')) (\<lambda>mid.
     Inr [PRODUCT, (''status'', JStr ''read''), (''message_id'', JStr mid)]))"

definition buildTypingIndicatorPayload :: "jsval \<Rightarrow> client_exn + payload" where
  "buildTypingIndicatorPayload input = bindE (buildMarkMessageAsReadPayload input) (\<lambda>p.
     Inr (p @ [(''typing_indicator'', jsObject [(''type'', JStr ''text'')])]))"

subsection \<open>Templates\<close>

definition assertGroupTemplateCategory :: "jsval \<Rightarrow> client_exn + unit" where
  "assertGroupTemplateCategory v =
     bindE (need (v \<noteq> JUndef) ''sendTemplate'' ''templateCategory is required for group recipients'') (\<lambda>_.
     bindE (need (v \<noteq> JStr ''AUTHENTICATION'') ''sendTemplate'' ''auth templates are not supported for group recipients'') (\<lambda>_.
     need (v = JStr ''UTILITY'' \<or> v = JStr ''MARKETING'') ''sendTemplate'' ''templateCategory must be UTILITY or MARKETING''))"

definition assertTemplateRecipient :: "(string \<times> slot) list \<Rightarrow> client_exn + string option \<times> string option \<times> string option" where
  "assertTemplateRecipient r = bindE (assertRecipientType ''sendTemplate'' (js_get r ''recipientType'')) (\<lambda>rt.
     if rt = Some ''group'' then bindE (assertMessageRecipient ''sendTemplate'' r) (\<lambda>(to, rt'). Inr (Some to, None, rt'))
     else bindE (optionalRecipients ''sendTemplate'' r) (\<lambda>(to, recipient).
       Inr (to, recipient, if rt \<noteq> None then rt else if recipient \<noteq> None then Some ''individual'' else None)))"

definition buildVoiceCallTemplateButtonComponent :: "jsval \<Rightarrow> client_exn + payload" where
  "buildVoiceCallTemplateButtonComponent input = (let helper = ''buildVoiceCallTemplateButtonComponent'' in
     bindE (asRecordInput helper input) (\<lambda>r.
     bindE (assertOnlyKnownKeys helper [''ttlMinutes'', ''payload'', ''index''] r) (\<lambda>_.
     bindE (optionalTtl helper r) (\<lambda>ttl.
     bindE (maybeText helper ''payload'' GRAPH_MESSAGES_VOICE_CALL_PAYLOAD_MAX_LENGTH (js_get r ''payload'')) (\<lambda>pl.
     bindE (optionalString helper ''index'' ''index'' 8 r) (\<lambda>ix.
     let parameters = (case ttl of None \<Rightarrow> [] | Some n \<Rightarrow> [jsObject [(''type'', JStr ''ttl_minutes''), (''ttl_minutes'', JNum (Fin (of_int n)))]])
       @ (case pl of None \<Rightarrow> [] | Some s \<Rightarrow> [jsObject [(''type'', JStr ''payload''), (''payload'', JStr s)]])
     in Inr ([(''type'', JStr ''button''), (''sub_type'', JStr ''voice_call'')] @ ix
          @ (if parameters = [] then [] else [(''parameters'', JArr (map Data parameters))]))))))))"

definition componentSubType :: "string \<Rightarrow> (string \<times> slot) list \<Rightarrow> client_exn + payload" where
  "componentSubType helper c =
     bindE (maybeText helper ''component.subType'' GRAPH_MESSAGES_SHORT_LABEL_MAX_LENGTH
       (if js_get c ''subType'' \<noteq> JUndef then js_get c ''subType'' else js_get c ''sub_type'')) (\<lambda>t. Inr (givenText ''sub_type'' t))"

definition componentParameter :: "string \<Rightarrow> jsval \<Rightarrow> client_exn + jsval" where
  "componentParameter helper v = (case isPlainOptionsObject v of
     None \<Rightarrow> invalidInput helper ''component parameters must be objects''
   | Some _ \<Rightarrow> sanitizeTemplateParameter helper TEMPLATE_LEVELS v)"

definition normalizeTemplateComponent :: "string \<Rightarrow> jsval \<Rightarrow> client_exn + jsval" where
  "normalizeTemplateComponent helper v = bindE (sanitizeTemplateParameter helper TEMPLATE_LEVELS v) (\<lambda>cloned.
     case isPlainOptionsObject cloned of
       None \<Rightarrow> invalidInput helper ''component entries must be objects''
     | Some c \<Rightarrow>
         bindE (assertNonEmptyControlFreeString helper ''component.type'' GRAPH_MESSAGES_SHORT_LABEL_MAX_LENGTH (js_get c ''type'')) (\<lambda>t.
         bindE (componentSubType helper c) (\<lambda>st.
         bindE (optionalString helper ''index'' ''index'' 8 c) (\<lambda>ix.
         bindE (if js_get c ''parameters'' = JUndef then Inr []
             else bindE (assertBoundedArray helper ''component.parameters'' 0 100 (js_get c ''parameters'')) (\<lambda>vs.
               bindE (mapE (componentParameter helper) vs) (\<lambda>ws. Inr [(''parameters'', JArr (map Data ws))]))) (\<lambda>ps.
         Inr (jsObject ((''type'', JStr t) # st @ ix @ ps)))))))"

definition templateObject :: "string \<Rightarrow> (string \<times> slot) list \<Rightarrow> client_exn + jsval" where
  "templateObject helper r =
     bindE (assertNonEmptyControlFreeString helper ''name'' GRAPH_MESSAGES_MEDIA_ID_MAX_LENGTH (js_get r ''name'')) (\<lambda>nm.
     bindE (assertNonEmptyControlFreeString helper ''languageCode'' GRAPH_MESSAGES_SHORT_LABEL_MAX_LENGTH (js_get r ''languageCode'')) (\<lambda>code.
     bindE (if js_get r ''components'' = JUndef then Inr []
         else bindE (assertBoundedArray helper ''components'' 0 100 (js_get r ''components'')) (\<lambda>vs.
           bindE (mapE (normalizeTemplateComponent helper) vs) (\<lambda>ws. Inr [(''components'', JArr (map Data ws))]))) (\<lambda>cs.
     Inr (jsObject ([(''name'', JStr nm), (''language'', jsObject [(''code'', JStr code)])] @ cs)))))"

definition buildSendTemplatePayload :: "jsval \<Rightarrow> client_exn + payload" where
  "buildSendTemplatePayload input = bindE (asRecordInput ''sendTemplate'' input) (\<lambda>r.
     bindE (assertOnlyKnownKeys ''sendTemplate'' [''to'', ''recipient'', ''recipientType'', ''name'', ''languageCode'',
       ''templateCategory'', ''components'', ''replyToMessageId''] r) (\<lambda>_.
     bindE (assertTemplateRecipient r) (\<lambda>(to, recipient, rt).
     bindE (if rt = Some ''group'' then assertGroupTemplateCategory (js_get r ''templateCategory'') else Inr ()) (\<lambda>_.
     bindE (templateObject ''sendTemplate'' r) (\<lambda>template.
     withReplyContext r (applyRecipientType rt ([PRODUCT] @ givenText ''to'' to @ givenText ''recipient'' recipient
       @ [(''type'', JStr ''template''), (''template'', template)])))))))"

text \<open>The own data properties of the input of a marketing template.\<close>

definition copySendMarketingTemplateInput :: "jsval \<Rightarrow> client_exn + (string \<times> slot) list" where
  "copySendMarketingTemplateInput input = (let helper = ''sendMarketingTemplate'' in case input of
     JObj pr ps \<Rightarrow>
       bindE (need (pr = ObjectProto \<or> pr = NullProto) helper ''expected a plain options object'') (\<lambda>_.
       bindE (need (\<not> list_ex (\<lambda>(k, _). k = ''toJSON'') ps) helper ''input must not define toJSON'') (\<lambda>_.
       bindE (need (list_all (\<lambda>(_, sl). \<not> accessorSlot sl) ps) helper ''input must not use accessors'') (\<lambda>_.
       let out = filter (\<lambda>(_, sl). slot_value sl \<noteq> JUndef) ps in
       bindE (assertOnlyKnownKeys helper [''to'', ''recipient'', ''recipientType'', ''name'', ''languageCode'', ''components'',
         ''productPolicy'', ''messageActivitySharing''] out) (\<lambda>_. Inr out))))
   | _ \<Rightarrow> invalidInput helper ''expected an options object'')"

definition buildSendMarketingTemplatePayload :: "jsval \<Rightarrow> client_exn + payload" where
  "buildSendMarketingTemplatePayload input = (let helper = ''sendMarketingTemplate'' in
     bindE (copySendMarketingTemplateInput input) (\<lambda>r.
     bindE (rejectGroupRecipient helper r ''marketing templates'') (\<lambda>_.
     bindE (assertRecipientType helper (js_get r ''recipientType'')) (\<lambda>_.
     bindE (optionalRecipients helper r) (\<lambda>(to, recipient).
     bindE (templateObject helper r) (\<lambda>template.
     bindE (need (js_get r ''productPolicy'' \<in> {JUndef, JStr ''CLOUD_API_FALLBACK'', JStr ''STRICT''}) helper ''productPolicy must be CLOUD_API_FALLBACK or STRICT'') (\<lambda>_.
     bindE (need (js_get r ''messageActivitySharing'' = JUndef \<or> isBoolean (js_get r ''messageActivitySharing'')) helper ''messageActivitySharing must be a boolean when provided'') (\<lambda>_.
     Inr ([PRODUCT, (''recipient_type'', JStr ''individual''), (''type'', JStr ''template''), (''template'', template)]
       @ givenText ''to'' to @ givenText ''recipient'' recipient
       @ filter (\<lambda>(_, v). v \<noteq> JUndef) [(''product_policy'', js_get r ''productPolicy''),
           (''message_activity_sharing'', js_get r ''messageActivitySharing'')])))))))))"

end
