(* ===== verification/Message_Endpoints.thy ===== *)
theory Message_Endpoints
  imports Message_Interactive
begin

section \<open>The message endpoints (messages/callables.ts, messages/deepLinks.ts)\<close>

text \<open>
  \<open>sendMessage\<close> checks the body once more before the client sends it; \<open>sendMarketingTemplate\<close> builds its
  body from the input; \<open>GraphMessagesEndpoint\<close> is the older interface; a deep link starts a call.
\<close>

subsection \<open>The endpoints\<close>

definition GROUP_MESSAGE_TYPES :: "string list" where
  "GROUP_MESSAGE_TYPES = [''text'', ''image'', ''video'', ''audio'', ''document'', ''sticker'', ''template'', ''pin'']"

definition checkPin :: "jsval \<Rightarrow> client_exn + unit" where
  "checkPin v = (case isPlainOptionsObject v of
     None \<Rightarrow> invalidInput ''sendMessage'' ''group pin body must be an object''
   | Some pin \<Rightarrow>
       bindE (need (js_get pin ''type'' = JStr ''pin'' \<or> js_get pin ''type'' = JStr ''unpin'') ''sendMessage'' ''group pin.type must be pin or unpin'') (\<lambda>_.
       bindE (assertNonEmptyControlFreeString ''sendMessage'' ''pin.message_id'' 256 (js_get pin ''message_id'')) (\<lambda>_.
       need (intWithin 1 30 (js_get pin ''expiration_days'') \<noteq> None) ''sendMessage'' ''group pin.expiration_days must be an integer between 1 and 30'')))"

text \<open>A platform body or a stream is an object without these properties.\<close>

definition checkSendBody :: "jsval \<Rightarrow> client_exn + unit" where
  "checkSendBody v = (case isPlainOptionsObject v of
     None \<Rightarrow> invalidInput ''sendMessage'' ''body must be an object''
   | Some r \<Rightarrow> (if js_get r ''recipient_type'' = JStr ''group'' then
       bindE (need (js_get r ''type'' \<in> set (map JStr GROUP_MESSAGE_TYPES)) ''sendMessage''
         ''group recipients support text, media, template, and pin message bodies only'') (\<lambda>_.
       bindE (assertValidGroupId ''sendMessage'' (js_get r ''to'')) (\<lambda>_.
       if js_get r ''type'' = JStr ''pin'' then checkPin (js_get r ''pin'') else Inr ()))
     else Inr ()))"

definition sendMessageBody :: "request_body \<Rightarrow> client_exn + request_body" where
  "sendMessageBody body = (case body of
     ValueBody v \<Rightarrow> bindE (checkSendBody v) (\<lambda>_. Inr body)
   | UnserializableBody v \<Rightarrow> bindE (checkSendBody v) (\<lambda>_. Inr body)
   | _ \<Rightarrow> Inr body)"

definition phoneNumberParams :: jsval where
  "phoneNumberParams = jsObject [(''phoneNumberId'', jsObject [(''in'', JStr ''path''), (''required'', JBool True)])]"

definition sendMessageDefinition :: endpoint_definition where
  "sendMessageDefinition = \<lparr> ed_method = JStr ''POST'', ed_pathTemplate = JStr ''/{phoneNumberId}/messages'',
     ed_params = phoneNumberParams, ed_buildBody = JFun, ed_build = sendMessageBody,
     ed_bodyContentType = JStr ''application/json'' \<rparr>"

definition marketingBody :: "request_body \<Rightarrow> client_exn + request_body" where
  "marketingBody body = (case body of
     ValueBody v \<Rightarrow> bindE (buildSendMarketingTemplatePayload v) (\<lambda>p. Inr (ValueBody (jsObject p)))
   | UnserializableBody v \<Rightarrow> bindE (buildSendMarketingTemplatePayload v) (\<lambda>p. Inr (ValueBody (jsObject p)))
   | _ \<Rightarrow> invalidInput ''sendMarketingTemplate'' ''expected a plain options object'')"

definition sendMarketingTemplateDefinition :: endpoint_definition where
  "sendMarketingTemplateDefinition = \<lparr> ed_method = JStr ''POST'', ed_pathTemplate = JStr ''/{phoneNumberId}/marketing_messages'',
     ed_params = phoneNumberParams, ed_buildBody = JFun, ed_build = marketingBody,
     ed_bodyContentType = JStr ''application/json'' \<rparr>"

definition sendMessage ::
  "'w client_env \<Rightarrow> graph_client \<Rightarrow> jsval \<Rightarrow> request_body \<Rightarrow> endpoint_invoke_options option \<Rightarrow> ('w, jsval) cact" where
  "sendMessage env client params body opts =
     bindA (liftA (defineEndpoint (Some sendMessageDefinition))) (\<lambda>f. f env client params body opts)"

definition sendMarketingTemplate ::
  "'w client_env \<Rightarrow> graph_client \<Rightarrow> jsval \<Rightarrow> request_body \<Rightarrow> endpoint_invoke_options option \<Rightarrow> ('w, jsval) cact" where
  "sendMarketingTemplate env client params body opts =
     (if body = ValueBody JUndef then liftA (invalidInput ''sendMarketingTemplate'' ''body is required'')
      else bindA (liftA (defineEndpoint (Some sendMarketingTemplateDefinition))) (\<lambda>f. f env client params body opts))"

subsection \<open>The older interface\<close>

definition buildSendMessagePayload :: "(string \<times> slot) list \<Rightarrow> payload" where
  "buildSendMessagePayload r = [PRODUCT, (''to'', js_get r ''to''), (''type'', JStr ''text''),
     (''text'', jsObject ((''body'', js_get r ''text'')
        # (if isBoolean (js_get r ''previewUrl'') then [(''preview_url'', js_get r ''previewUrl'')] else [])))]"

definition normalizePhoneNumberId :: "jsval \<Rightarrow> client_exn + string" where
  "normalizePhoneNumberId v = (case v of
     JStr s \<Rightarrow> let n = js_trim s in
       if n \<noteq> [] \<and> list_all is_digit n then Inr n
       else Inl (RequestValidationError ''Invalid phoneNumberId. Expected a numeric Graph phone number ID path segment.'')
   | _ \<Rightarrow> Inl (OtherError ''TypeError''))"

definition legacySendMessage :: "'w client_env \<Rightarrow> graph_client \<Rightarrow> (string \<times> slot) list \<Rightarrow> ('w, jsval) cact" where
  "legacySendMessage env client r = bindA (liftA (normalizePhoneNumberId (js_get r ''phoneNumberId''))) (\<lambda>n.
     sendMessage env client (jsObject [(''phoneNumberId'', JStr n)]) (ValueBody (jsObject (buildSendMessagePayload r))) None)"

subsection \<open>Deep links\<close>

definition assertBusinessPhoneNumber :: "jsval \<Rightarrow> client_exn + string" where
  "assertBusinessPhoneNumber v = (let helper = ''buildWhatsAppCallDeepLink'' in case v of
     JStr s \<Rightarrow> let d = withoutPlus s in
       bindE (need (nonBlankText d) helper ''phoneNumber must be non-empty'') (\<lambda>_.
       bindE (need (\<not> hasControlChars d \<and> list_all is_digit d \<and> length d \<le> GRAPH_MESSAGES_RECIPIENT_MAX_DIGITS) helper ''phoneNumber must be digits'') (\<lambda>_.
       Inr d))
   | _ \<Rightarrow> invalidInput helper ''phoneNumber must be a string'')"

text \<open>The serializer of \<open>URLSearchParams\<close>: a space is \<open>+\<close>; letters, digits, \<open>*\<close>, \<open>-\<close>, \<open>.\<close> and \<open>_\<close>
  stand for themselves; another code point is its UTF-8 bytes, percent-encoded.\<close>

definition formChar :: "char \<Rightarrow> string" where
  "formChar c = (let n = code_of c in
     if n = 32 then ''+''
     else if is_digit c \<or> 65 \<le> n \<and> n \<le> 90 \<or> 97 \<le> n \<and> n \<le> 122 \<or> c \<in> set ''*-._'' then [c]
     else map char_of (percentEncode n))"

definition buildWhatsAppCallDeepLink :: "jsval \<Rightarrow> client_exn + string" where
  "buildWhatsAppCallDeepLink input = (let helper = ''buildWhatsAppCallDeepLink'' in
     bindE (asRecordInput helper input) (\<lambda>r.
     bindE (assertOnlyKnownKeys helper [''phoneNumber'', ''bizPayload''] r) (\<lambda>_.
     bindE (assertBusinessPhoneNumber (js_get r ''phoneNumber'')) (\<lambda>phone.
     bindE (maybeText helper ''bizPayload'' GRAPH_MESSAGES_VOICE_CALL_PAYLOAD_MAX_LENGTH (js_get r ''bizPayload'')) (\<lambda>pl.
     Inr (''https://wa.me/call/'' @ phone
       @ (case pl of None \<Rightarrow> [] | Some s \<Rightarrow> ''?biz_payload='' @ concat (map formChar s))))))))"

end
