(* ===== verification/Message_Payloads.thy ===== *)
theory Message_Payloads
  imports Message_Endpoints
begin

section \<open>What a built message is worth\<close>

text \<open>
  Every payload of a builder is plain JSON with bounded strings, addressed to a phone number, to a group that
  may have it or to a named recipient, or it is a read receipt; and taken unchanged into the request of \<open>sendMessage\<close>.  \<open>yields P m\<close> says that what \<open>m\<close> returns
  satisfies \<open>P\<close>; each guard has a rule of this form, and a builder's proof follows its text.
\<close>

subsection \<open>What a built payload is worth\<close>

text \<open>Plain JSON: no function, accessor or hole, no undefined property, finite numbers, and every string at
  most 4096 characters long.\<close>

fun wireValue :: "jsval \<Rightarrow> bool" where
  "wireValue JUndef = True"
| "wireValue JNull = True"
| "wireValue (JBool b) = True"
| "wireValue (JNum x) = isFiniteNum x"
| "wireValue (JStr s) = (length s \<le> 4096)"
| "wireValue JFun = False"
| "wireValue (JArr sl) = (\<forall>s \<in> set sl. s = Data (slot_value s) \<and> wireValue (slot_value s))"
| "wireValue (JObj pr ps) = (pr = ObjectProto \<and> (\<forall>(k, s) \<in> set ps. s = Data (slot_value s) \<and> slot_value s \<noteq> JUndef \<and> wireValue (slot_value s)))"

declare GRAPH_MESSAGES_TEXT_BODY_MAX_LENGTH_def [simp]












definition yields :: "('a \<Rightarrow> bool) \<Rightarrow> client_exn + 'a \<Rightarrow> bool" where
  "yields P m = (\<forall>x. m = Inr x \<longrightarrow> P x)"

named_theorems yielding \<open>what the guards and builders give\<close>

lemma yieldsD: "yields P m \<Longrightarrow> m = Inr x \<Longrightarrow> P x"
  by (simp add: yields_def)

lemma yields_mono: "yields Q m \<Longrightarrow> (\<And>x. Q x \<Longrightarrow> P x) \<Longrightarrow> yields P m"
  by (simp add: yields_def)

lemma yields_bind: "yields Q m \<Longrightarrow> (\<And>x. Q x \<Longrightarrow> yields P (f x)) \<Longrightarrow> yields P (bindE m f)"
  by (auto simp: yields_def res_iff)

lemma yields_Inr: "P x \<Longrightarrow> yields P (Inr x)"
  by (simp add: yields_def)

lemma yields_invalid [yielding]: "yields P (invalidInput h r)"
  by (simp add: yields_def invalidInput_def)

lemma yields_need [yielding]: "yields (\<lambda>_. ok) (need ok h r)"
  by (simp add: yields_def need_def invalidInput_def)

lemma yields_prod: "(\<And>a b. x = (a, b) \<Longrightarrow> yields P (f a b)) \<Longrightarrow> yields P (case x of (a, b) \<Rightarrow> f a b)"
  by (cases x) simp

lemma yields_option: "(x = None \<Longrightarrow> yields P a) \<Longrightarrow> (\<And>y. x = Some y \<Longrightarrow> yields P (f y)) \<Longrightarrow> yields P (case x of None \<Rightarrow> a | Some y \<Rightarrow> f y)"
  by (cases x) simp_all

lemma yields_if: "(c \<Longrightarrow> yields P a) \<Longrightarrow> (\<not> c \<Longrightarrow> yields P b) \<Longrightarrow> yields P (if c then a else b)"
  by simp

lemma yields_mapE: "(\<And>x. yields P (f x)) \<Longrightarrow> yields (\<lambda>ys. \<forall>y \<in> set ys. P y) (mapE f xs)"
  by (auto simp: yields_def dest!: mapE_Inr_set)

lemma yields_record [yielding]: "yields (\<lambda>r. isPlainOptionsObject v = Some r) (asRecordInput h v)"
  by (simp add: yields_def asRecordInput_def invalidInput_def split: option.splits)







lemma wire_array [simp]: "wireValue (JArr (map Data ws)) = (\<forall>w \<in> set ws. wireValue w)"
  by auto



lemma yields_elements [yielding]:
  "yields (\<lambda>vs. lo \<le> length vs \<and> length vs \<le> hi) (assertBoundedArray h f lo hi v)"
  by (auto simp: yields_def assertBoundedArray_def need_def invalidInput_def res_iff dest!: mapE_Inr_length split: jsval.splits if_splits)










lemma phone_short: "phoneShaped s \<Longrightarrow> length s \<le> 16"
  by (auto simp: phoneShaped_def withoutPlus_def message_limits Let_def split: list.splits if_splits)


lemma optField_object [simp]: "optField (jsObject p) k = (case map_of p k of None \<Rightarrow> JUndef | Some v \<Rightarrow> v)"
  by (induction p) (auto simp: jsObject_def optField_def objectProps_def js_get_def)









subsection \<open>Every builder\<close>






lemma group_types [simp]: "''text'' \<in> set GROUP_MESSAGE_TYPES" "''template'' \<in> set GROUP_MESSAGE_TYPES" "''pin'' \<in> set GROUP_MESSAGE_TYPES"
  by (simp_all add: GROUP_MESSAGE_TYPES_def)


lemma yields_any: "yields (\<lambda>_. True) m"
  by (simp add: yields_def)




abbreviation wireValues :: "jsval list \<Rightarrow> bool" where
  "wireValues ws \<equiv> (\<forall>w \<in> set ws. wireValue w)"





















































lemma phone_wire [simp]: "phoneShaped s \<Longrightarrow> length s \<le> 4096"
  using phone_short [of s] by simp















subsection \<open>The request of a built message\<close>











subsection \<open>The limits of interactive messages\<close>

definition elements :: "jsval \<Rightarrow> jsval list" where
  "elements v = (case v of JArr sl \<Rightarrow> map slot_value sl | _ \<Rightarrow> [])"

definition entryCounts :: "string \<Rightarrow> jsval \<Rightarrow> nat list" where
  "entryCounts k action = map (\<lambda>sec. length (elements (optField sec k))) (elements (optField action ''sections''))"

text \<open>At most 3 buttons; at most 10 sections of at least one entry each, with 10 rows or 30 products in all.\<close>

definition withinLimits :: "jsval \<Rightarrow> bool" where
  "withinLimits v = (let iv = optField v ''interactive''; action = optField iv ''action''; ty = optField iv ''type'' in
     if ty = JStr ''button'' then length (elements (optField action ''buttons'')) \<in> {1..3}
     else if ty = JStr ''list'' then length (entryCounts ''rows'' action) \<in> {1..10} \<and> 0 \<notin> set (entryCounts ''rows'' action)
       \<and> sum_list (entryCounts ''rows'' action) \<le> 10
     else if ty = JStr ''product_list'' then length (entryCounts ''product_items'' action) \<in> {1..10} \<and> 0 \<notin> set (entryCounts ''product_items'' action)
       \<and> sum_list (entryCounts ''product_items'' action) \<le> 30
     else True)"

lemma elements_array [simp]: "elements (JArr (map Data ws)) = ws"
  by (simp add: elements_def comp_def)

lemma yields_interactive: "yields (\<lambda>p. map_of p ''interactive'' = Some (jsObject c)) (interactiveBase h input c)"
  unfolding interactiveBase_def withReplyContext_def
  by (rule yields_bind [OF yields_any] yields_prod yields_if yields_Inr | (simp add: applyRecipientType_def; fail))+

lemma yields_counted: "yields (\<lambda>ys. length ys = length xs \<and> (\<forall>y \<in> set ys. P y)) (mapE f xs)" if "\<And>x. yields P (f x)"
  using yields_mapE [of P f xs, OF that] by (auto simp: yields_def dest: mapE_Inr_length)

lemma counted_rows: "yields (\<lambda>(n, v). 1 \<le> n \<and> length (elements (optField v ''rows'')) = n) (listSection v)"
  unfolding listSection_def
  by (rule yields_option yields_invalid yields_bind [OF yields_elements] yields_bind [OF yields_counted [OF yields_any]]
      yields_bind [OF yields_any] yields_Inr)+ auto

lemma counted_items: "yields (\<lambda>(n, v). 1 \<le> n \<and> length (elements (optField v ''product_items'')) = n) (productSection v)"
  unfolding productSection_def
  by (rule yields_option yields_invalid yields_bind [OF yields_elements] yields_bind [OF yields_counted [OF yields_any]]
      yields_bind [OF yields_any] yields_Inr)+ auto

lemma entry_counts:
  assumes "\<forall>y \<in> set secs. case y of (n, v) \<Rightarrow> 1 \<le> n \<and> length (elements (optField v k)) = n"
    "optField action ''sections'' = JArr (map Data (map snd secs))"
  shows "entryCounts k action = map fst secs \<and> 0 \<notin> set (map fst secs)"
proof -
  have "elements (optField action ''sections'') = map snd secs" unfolding assms(2) by (rule elements_array)
  then show ?thesis using assms(1) by (fastforce simp: entryCounts_def)
qed


definition limitedBuilders :: "(jsval \<Rightarrow> client_exn + payload) list" where
  "limitedBuilders = [buildSendButtonsPayload, buildSendListPayload, buildSendProductsPayload]"

lemma interactive_limits:
  assumes "withinLimits (jsObject [(''interactive'', jsObject c)])"
  shows "yields (\<lambda>p. withinLimits (jsObject p)) (interactiveBase h input c)"
proof (rule yields_mono [OF yields_interactive])
  fix p assume "map_of p ''interactive'' = Some (jsObject c)"
  then have "optField (jsObject p) ''interactive'' = optField (jsObject [(''interactive'', jsObject c)]) ''interactive''"
    unfolding optField_object by simp
  then show "withinLimits (jsObject p)" using assms unfolding withinLimits_def by (simp only:)
qed

lemma buttons_limits: "yields (\<lambda>p. withinLimits (jsObject p)) (buildSendButtonsPayload input)"
  unfolding buildSendButtonsPayload_def
  by (rule yields_bind [OF yields_record] yields_bind [OF yields_elements] yields_bind [OF yields_counted [OF yields_any]]
      yields_bind [OF yields_any] interactive_limits)+ (simp add: withinLimits_def message_limits)

lemma sections_within:
  assumes "map_of c ''type'' = Some (JStr ty)" "map_of c ''action'' = Some a"
    "(ty, k, n) \<in> {(''list'', ''rows'', 10), (''product_list'', ''product_items'', 30)}"
    "entryCounts k a = counts \<and> 0 \<notin> set counts" "1 \<le> length counts" "length counts \<le> 10" "sum_list counts \<le> n"
  shows "withinLimits (jsObject [(''interactive'', jsObject c)])"
  using assms by (auto simp: withinLimits_def)

lemma list_limits: "yields (\<lambda>p. withinLimits (jsObject p)) (buildSendListPayload input)"
  unfolding buildSendListPayload_def
proof (rule yields_bind [OF yields_record] yields_bind [OF yields_elements] yields_bind [OF yields_counted [OF counted_rows]]
    yields_bind [OF yields_need] yields_bind [OF yields_any] interactive_limits)+
  fix vs secs and body :: jsval and button :: string and hf :: payload
  assume *: "1 \<le> length vs \<and> length vs \<le> GRAPH_MESSAGES_MAX_LIST_SECTIONS"
    "length secs = length vs \<and> (\<forall>y \<in> set secs. case y of (n, v) \<Rightarrow> 1 \<le> n \<and> length (elements (optField v ''rows'')) = n)"
    "sum_list (map fst secs) \<le> GRAPH_MESSAGES_MAX_LIST_ROWS"
  let ?a = "jsObject [(''button'', JStr button), (''sections'', JArr (map Data (map snd secs)))]"
  have "entryCounts ''rows'' ?a = map fst secs \<and> 0 \<notin> set (map fst secs)"
    by (rule entry_counts) (use *(2) in simp_all)
  then show "withinLimits (jsObject [(''interactive'', jsObject ([(''type'', JStr ''list''), (''body'', body), (''action'', ?a)] @ hf))])"
    by (rule sections_within [rotated 3, where ty = "''list''" and n = 10]) (use * in \<open>simp_all add: message_limits\<close>)
qed

lemma products_limits: "yields (\<lambda>p. withinLimits (jsObject p)) (buildSendProductsPayload input)"
  unfolding buildSendProductsPayload_def
proof (rule yields_bind [OF yields_record] yields_bind [OF yields_elements] yields_bind [OF yields_counted [OF counted_items]]
    yields_bind [OF yields_need] yields_bind [OF yields_any] interactive_limits)+
  fix vs secs and header body :: jsval and h c :: string and ft :: payload
  assume *: "1 \<le> length vs \<and> length vs \<le> 10"
    "length secs = length vs \<and> (\<forall>y \<in> set secs. case y of (n, v) \<Rightarrow> 1 \<le> n \<and> length (elements (optField v ''product_items'')) = n)"
    "sum_list (map fst secs) \<le> GRAPH_MESSAGES_MAX_PRODUCT_ITEMS"
  let ?a = "jsObject [(''catalog_id'', JStr c), (''sections'', JArr (map Data (map snd secs)))]"
  have "entryCounts ''product_items'' ?a = map fst secs \<and> 0 \<notin> set (map fst secs)"
    by (rule entry_counts) (use *(2) in simp_all)
  then show "withinLimits (jsObject [(''interactive'', jsObject ([(''type'', JStr ''product_list''),
       (''header'', jsObject [(''type'', JStr ''text''), (''text'', JStr h)]), (''body'', body), (''action'', ?a)] @ ft))])"
    by (rule sections_within [rotated 3, where ty = "''product_list''" and n = 30]) (use * in \<open>simp_all add: message_limits\<close>)
qed

text \<open>C38: A built message with buttons has one to three of them; a list has one to ten sections, none empty, with at
  most ten rows in all; a product list at most thirty products in all.\<close>

theorem interactive_messages_are_bounded:
  assumes "b \<in> set limitedBuilders" "b input = Inr p"
  shows "withinLimits (jsObject p)"
  using assms yieldsD [OF buttons_limits] yieldsD [OF list_limits] yieldsD [OF products_limits]
  by (auto simp: limitedBuilders_def)

subsection \<open>Samples\<close>

definition sampleList :: jsval where
  "sampleList = jsObject [(''to'', JStr ''+49151''), (''bodyText'', JStr ''b''), (''buttonText'', JStr ''o''),
     (''sections'', JArr [Data (jsObject [(''rows'', JArr [Data (jsObject [(''id'', JStr ''1''), (''title'', JStr ''t'')])])])])]"





lemma sample_list: "\<exists>p. buildSendListPayload sampleList = Inr p"
proof -
  have "(case buildSendListPayload sampleList of Inl _ \<Rightarrow> False | Inr _ \<Rightarrow> True)" by code_simp
  then show ?thesis by (auto split: sum.splits)
qed

lemma interactive_messages_are_bounded_witness: "\<exists>p. buildSendListPayload sampleList = Inr p \<and> withinLimits (jsObject p)"
proof -
  obtain p where p: "buildSendListPayload sampleList = Inr p" using sample_list by blast
  have "buildSendListPayload \<in> set limitedBuilders" by (simp add: limitedBuilders_def)
  from interactive_messages_are_bounded [OF this p] p show ?thesis by blast
qed

end
