(* ===== verification/Spec2Isabelle.thy ===== *)
theory Spec2Isabelle
  imports Store_Migrations Conversation_Window Worker_Loop Typed_Router Rate_Limiter Graph_Errors Pagination
    Webhook_Servers Flow_Crypto Canonical_Json Service_Routes Facade_Updates Message_Payloads
begin

text \<open>
  \<^bold>\<open>WATS: a verification library.\<close>

  WATS is a TypeScript toolkit for the WhatsApp Cloud API.  A webhook request enters through a server
  wrapper (\<open>packages/http/src/adapters\<close>), which checks its size; the webhook adapter checks the
  signature or the handshake, parses the body, has it normalized into typed updates
  (\<open>packages/core/src/webhookNormalizer.ts\<close>) and dispatches each to the facade: listeners first, then
  the router.  Outgoing calls run through the Graph package: a transport, retried and rate limited, whose
  error answers become instances of error classes.  The service (\<open>packages/service/src/index.ts\<close>) puts a
  store (\<open>packages/persistence\<close>) between the two: it records inbound updates under deduplication keys,
  makes sends with an Idempotency-Key happen once, and projects messages and statuses.  The persistence
  package also holds an outbox with leases and a worker.

  \<^bold>\<open>How the code is modelled.\<close>  A value of type \<open>unknown\<close> is a \<open>jsval\<close> of \<open>Js_Value\<close> (accessors, holes
  and prototypes are visible in it; cyclic values are not in it, and only the body of a Graph request has a
  constructor for a value that \<open>JSON.stringify\<close> throws for).  A throwing function returns a sum, a
  throwing method of an object an action \<open>('s, 'e, 'a) act\<close> of \<open>Wats_Prelude\<close>: it maps the state to a sum
  and the next state.  Strings are lists of 8-bit characters, so a code unit above 255 does not occur;
  numbers are exact rationals with \<open>NaN\<close> and the infinities, so rounding does not occur.  What is not in
  the repository (the host's crypto, \<open>fetch\<close>, the database engine's faults, clocks, random ids, the number
  printer) is a parameter, usually in a record that ends in \<open>_env\<close>.  Where other requests can run at an
  \<open>await\<close>, the code between two awaits is one step of a relation.

  \<^bold>\<open>The theories.\<close>
  \<^item> \<open>Wats_Prelude\<close>, \<open>Js_Value\<close>, \<open>Byte_Strings\<close>, \<open>Json_Syntax\<close>, \<open>Json_Stringify\<close>, \<open>Iso_Time\<close>: results and
    actions with their rules, run-time values and the guards of \<open>packages/internal-utils\<close>, bytes and UTF-8,
    \<open>JSON.parse\<close> as a recogniser, \<open>JSON.stringify\<close>, and \<open>Date\<close> with its ISO format.
  \<^item> Persistence (\<open>packages/persistence/src\<close>): \<open>Persistence_Types\<close> (records and validators),
    \<open>Sqlite_Store\<close> (the database with injected faults, transactions, the migrations), \<open>Store_Migrations\<close>,
    \<open>Request_Ledger\<close> (webhook events and service requests, which refine an abstract ledger),
    \<open>Outbox_Store\<close> (leases), \<open>Message_Store\<close> (projections, statuses, pages), \<open>Conversation_Window\<close>,
    \<open>Outbox_Worker\<close> (a pass) and \<open>Worker_Loop\<close> (its schedule).
  \<^item> Core (\<open>packages/core/src\<close>): \<open>Listener_Registry\<close>, \<open>Typed_Router\<close>, \<open>Webhook_Payloads\<close> and
    \<open>Webhook_Normalizer\<close> (all of \<open>webhookNormalizer.ts\<close>), \<open>Webhook_Updates\<close> (what it produces: distinct
    well-formed updates, the limit as a truncation, a deduplication key for each message and status),
    \<open>Typed_Filters\<close> (\<open>filtersTyped\<close>), \<open>Whatsapp_Facade\<close> (\<open>whatsappFacade.ts\<close>: \<open>listen\<close>, the waiters of a
    sent message, \<open>dispatch\<close>) and \<open>Facade_Updates\<close> (the filters on the normalizer's updates).
  \<^item> Graph (\<open>packages/graph/src\<close>): \<open>Rate_Limiter\<close>, \<open>Reliable_Transport\<close>, \<open>Graph_Errors\<close> (classes and
    registry), \<open>Pagination\<close>, \<open>Uri_Component\<close> and
    \<open>Graph_Client\<close> (\<open>client.ts\<close>: paths, headers, outcomes), \<open>Endpoint_Definition\<close>
    (\<open>endpoint.ts\<close>), \<open>Message_Validation\<close>, \<open>Message_Builders\<close>,
    \<open>Message_Interactive\<close>, \<open>Message_Endpoints\<close> and \<open>Message_Payloads\<close> (\<open>endpoints/messages\<close>: the builders, and what
    every payload they make is worth), \<open>Flow_Json\<close> (\<open>buildFlowJson\<close>), \<open>Flow_Crypto\<close> (the data channel and uploads).
  \<^item> Crypto and HTTP (\<open>packages/crypto/src\<close>, \<open>packages/http/src\<close>): \<open>Crypto_Provider\<close>, \<open>Webhook_Security\<close>
    (signature and handshake), \<open>Webhook_Adapter\<close>, \<open>Webhook_Servers\<close>.
  \<^item> Service (\<open>packages/service/src\<close>): \<open>Canonical_Json\<close>, \<open>Webhook_Ingress\<close> (deduplication keys and event
    times), \<open>Service_Telemetry\<close>, \<open>Service_Store\<close> (the store interface, interpreted by the SQLite store),
    \<open>Service_Core\<close>, \<open>Service_Send\<close> (keyed sends), \<open>Service_Webhook\<close> (\<open>handleWebhook\<close>), \<open>Service_Routes\<close>
    (the read routes and the dispatcher).

  \<^bold>\<open>Interfaces.\<close>  Where a client relies on another component, its laws are a locale, interpreted on the
  model's own definitions: the queue of leases of the outbox, the ledger of keyed sends and the store of
  webhook events on the SQLite store, the crypto provider on both adapters, the invariants of the
  normalizer's accumulator.

  \<^bold>\<open>Bounds and fuel.\<close>  Loops that follow the data are structural recursion.  Retries and pagination run
  on the policy's own counters, and termination is a theorem; the clones of the normalizer and of the template
  parameters stop at the depth of the code; the search for the year and the month of a day starts from an estimate that is proved to be
  within one.  No theorem assumes that fuel is enough.

  \<^bold>\<open>Not modelled.\<close>  The Postgres store (its SQL runs functions of the server; the contract is that of
  the SQLite store), the CLI, the endpoint definitions of templates, media, business management, calling
  and OAuth (lists of field checks without state), the clients that bind ids and the options of
  \<open>createWhatsApp\<close>, the transports over \<open>fetch\<close>,
  the OpenAPI document of the service, types, tests and the site.
\<close>

end
